(* ===== verification/Prelude.thy ===== *)
theory Prelude
  imports Main "HOL-Library.AList" "HOL-Library.Multiset" "HOL-Library.Product_Lexorder"
begin

text \<open>
  Shared vocabulary of the development: the JavaScript \<open>Map\<close> as an association list in
  insertion order, array helpers the components use (\<open>findIndex\<close>, \<open>splice\<close>,
  \<open>slice\<close>), string helpers on \<open>char list\<close>, and the collections of facts that
  carry the component proofs. Times are milliseconds (\<open>int\<close>) read from
  \<open>Date.now()\<close>, and every operation takes the clock value it reads as an argument.
\<close>

type_synonym time_ms = int

named_theorems map_simps \<open>equations for the JavaScript Map model\<close>
named_theorems inv_intros \<open>introduction rules for component invariants\<close>

subsection \<open>JavaScript Map: an association list in insertion order\<close>

text \<open>
  \<open>Map.prototype.set\<close> keeps the position of an existing key and appends a new one;
  \<open>delete\<close> removes the key; iteration follows the list. These are the library's
  \<open>AList.update\<close> and \<open>AList.delete\<close>, with \<open>map_of\<close> for \<open>get\<close>.
\<close>

type_synonym ('k, 'v) jsmap = "('k \<times> 'v) list"

abbreviation jm_get :: "('k, 'v) jsmap \<Rightarrow> 'k \<Rightarrow> 'v option" where
  "jm_get m k \<equiv> map_of m k"

abbreviation jm_set :: "'k \<Rightarrow> 'v \<Rightarrow> ('k, 'v) jsmap \<Rightarrow> ('k, 'v) jsmap" where
  "jm_set k v m \<equiv> AList.update k v m"

abbreviation jm_delete :: "'k \<Rightarrow> ('k, 'v) jsmap \<Rightarrow> ('k, 'v) jsmap" where
  "jm_delete k m \<equiv> AList.delete k m"

definition jm_has :: "('k, 'v) jsmap \<Rightarrow> 'k \<Rightarrow> bool" where
  "jm_has m k \<longleftrightarrow> map_of m k \<noteq> None"

definition jm_keys :: "('k, 'v) jsmap \<Rightarrow> 'k list" where
  "jm_keys m = map fst m"

definition jm_ok :: "('k, 'v) jsmap \<Rightarrow> bool" where
  "jm_ok m \<longleftrightarrow> distinct (map fst m)"

lemma jm_get_set [simp, map_simps]:
  "jm_get (jm_set k v m) k' = (if k' = k then Some v else jm_get m k')"
  by (simp add: update_conv')

lemma jm_get_delete [simp, map_simps]:
  "jm_get (jm_delete k m) k' = (if k' = k then None else jm_get m k')"
  by (simp add: delete_conv')

lemma jm_ok_Nil [simp, inv_intros]: "jm_ok []"
  by (simp add: jm_ok_def)

lemma jm_ok_set [simp, inv_intros]: "jm_ok m \<Longrightarrow> jm_ok (jm_set k v m)"
  by (simp add: jm_ok_def distinct_update)

lemma jm_ok_delete [simp, inv_intros]: "jm_ok m \<Longrightarrow> jm_ok (jm_delete k m)"
  by (simp add: jm_ok_def distinct_delete)

lemma jm_ok_filter [simp, inv_intros]: "jm_ok m \<Longrightarrow> jm_ok (filter P m)"
  by (simp add: jm_ok_def distinct_map_filter)

lemma jm_keys_set:
  "jm_keys (jm_set k v m) = (if k \<in> fst ` set m then jm_keys m else jm_keys m @ [k])"
  by (simp add: jm_keys_def update_keys)

lemma length_jm_set:
  "length (jm_set k v m) = (if jm_has m k then length m else Suc (length m))"
  by (induction m) (auto simp: jm_has_def)

lemma length_jm_delete_le: "length (jm_delete k m) \<le> length m"
  by (rule length_delete_le)

lemma jm_delete_absent: "jm_get m k = None \<Longrightarrow> jm_delete k m = m"
  by (induction m) (auto split: if_splits)

lemma length_jm_delete:
  "jm_ok m \<Longrightarrow> jm_has m k \<Longrightarrow> Suc (length (jm_delete k m)) = length m"
proof (induction m)
  case Nil
  then show ?case by (simp add: jm_has_def)
next
  case (Cons p m)
  show ?case
  proof (cases "fst p = k")
    case True
    with Cons.prems have "map_of m k = None"
      by (auto simp: jm_ok_def map_of_eq_None_iff)
    with True show ?thesis by (cases p) (simp add: jm_delete_absent)
  next
    case False
    with Cons show ?thesis by (cases p) (auto simp: jm_ok_def jm_has_def)
  qed
qed

lemma map_of_filter_key:
  "jm_ok m \<Longrightarrow> map_of (filter P m) k = (case map_of m k of
     None \<Rightarrow> None | Some v \<Rightarrow> if P (k, v) then Some v else None)"
proof (induction m)
  case (Cons p m)
  then show ?case
    by (cases p) (auto simp: jm_ok_def map_of_eq_None_iff split: option.splits)
qed simp

subsection \<open>Array helpers\<close>

text \<open>\<open>Array.prototype.findIndex\<close>; \<open>None\<close> is the code's \<open>-1\<close>.\<close>

fun find_index :: "('a \<Rightarrow> bool) \<Rightarrow> 'a list \<Rightarrow> nat option" where
  "find_index P [] = None"
| "find_index P (x # xs) = (if P x then Some 0 else map_option Suc (find_index P xs))"

text \<open>\<open>splice(i, 1)\<close> and \<open>splice(i, 0, x)\<close>.\<close>

definition remove_at :: "nat \<Rightarrow> 'a list \<Rightarrow> 'a list" where
  "remove_at i xs = take i xs @ drop (Suc i) xs"

definition insert_at :: "nat \<Rightarrow> 'a \<Rightarrow> 'a list \<Rightarrow> 'a list" where
  "insert_at i x xs = take i xs @ x # drop i xs"

lemma find_index_Some:
  "find_index P xs = Some i \<Longrightarrow> i < length xs \<and> P (xs ! i)"
  by (induction xs arbitrary: i) (auto split: if_splits)

lemma find_index_first:
  "find_index P xs = Some i \<Longrightarrow> j < i \<Longrightarrow> \<not> P (xs ! j)"
proof (induction xs arbitrary: i j)
  case (Cons x xs)
  then show ?case by (cases j) (auto split: if_splits)
qed simp

lemma find_index_None: "find_index P xs = None \<longleftrightarrow> (\<forall>x \<in> set xs. \<not> P x)"
  by (induction xs) auto

lemma find_find_index:
  "find P xs = Some x \<Longrightarrow> \<exists>i. find_index P xs = Some i \<and> xs ! i = x"
  by (induction xs) (auto split: if_splits)

lemma length_remove_at [simp]: "i < length xs \<Longrightarrow> length (remove_at i xs) = length xs - 1"
  by (simp add: remove_at_def)

lemma set_remove_at_subset: "set (remove_at i xs) \<subseteq> set xs"
  by (auto simp: remove_at_def dest: in_set_takeD in_set_dropD)

lemma length_insert_at [simp]: "length (insert_at i x xs) = Suc (length xs)"
  by (simp add: insert_at_def)

lemma set_insert_at [simp]: "set (insert_at i x xs) = insert x (set xs)"
proof -
  have "set (take i xs) \<union> set (drop i xs) = set xs"
    by (metis append_take_drop_id set_append)
  then show ?thesis by (auto simp: insert_at_def)
qed

lemma sorted_wrt_remove_at: "sorted_wrt P xs \<Longrightarrow> sorted_wrt P (remove_at i xs)"
proof -
  assume "sorted_wrt P xs"
  then have "sorted_wrt P (take i xs @ drop i xs)" by simp
  moreover have "set (drop (Suc i) xs) \<subseteq> set (drop i xs)"
    by (rule set_drop_subset_set_drop) simp
  ultimately show ?thesis
    unfolding remove_at_def sorted_wrt_append
    by (meson sorted_wrt_drop subsetD \<open>sorted_wrt P xs\<close>)
qed

lemma sorted_wrt_insert_at:
  assumes "sorted_wrt P q"
    and "\<forall>x \<in> set (take i q). P x e" "\<forall>x \<in> set (drop i q). P e x"
  shows "sorted_wrt P (insert_at i e q)"
  using assms sorted_wrt_append [of P "take i q" "drop i q"]
  unfolding insert_at_def by (auto simp: sorted_wrt_append)

lemma mset_insert_at [simp]: "mset (insert_at i x xs) = add_mset x (mset xs)"
  by (metis (no_types, lifting) append_take_drop_id insert_at_def mset.simps(2)
      mset_append union_mset_add_mset_right)

lemma mset_remove_at:
  "i < length xs \<Longrightarrow> add_mset (xs ! i) (mset (remove_at i xs)) = mset xs"
  by (metis id_take_nth_drop mset.simps(2) mset_append remove_at_def union_mset_add_mset_right)

lemma remove_at_split: "i < length xs \<Longrightarrow> xs = take i xs @ xs ! i # drop (Suc i) xs"
  by (rule id_take_nth_drop)

lemma sum_list_remove_at:
  fixes f :: "'a \<Rightarrow> int"
  assumes "i < length xs"
  shows "sum_list (map f (remove_at i xs)) = sum_list (map f xs) - f (xs ! i)"
proof -
  have "sum_list (map f xs) = sum_list (map f (take i xs @ xs ! i # drop (Suc i) xs))"
    using remove_at_split [OF assms] by simp
  then show ?thesis by (simp add: remove_at_def)
qed

text \<open>\<open>slice(-n)\<close>: the last \<open>n\<close> elements.\<close>

definition last_n :: "nat \<Rightarrow> 'a list \<Rightarrow> 'a list" where
  "last_n n xs = drop (length xs - n) xs"

lemma length_last_n [simp]: "length (last_n n xs) = min n (length xs)"
  by (simp add: last_n_def)

subsection \<open>Strings\<close>

text \<open>
  Strings are \<open>char list\<close>. The code's strings here are ASCII (ids, hosts, keys), so
  \<open>toLowerCase\<close> is written out on the letters A to Z.
\<close>

definition lower_char :: "char \<Rightarrow> char" where
  "lower_char c = (let n = (of_char c :: nat) in if 65 \<le> n \<and> n \<le> 90 then char_of (n + 32) else c)"

definition to_lower :: "string \<Rightarrow> string" where
  "to_lower s = map lower_char s"

definition starts_with :: "string \<Rightarrow> string \<Rightarrow> bool" where
  "starts_with s p \<longleftrightarrow> take (length p) s = p"

definition ends_with :: "string \<Rightarrow> string \<Rightarrow> bool" where
  "ends_with s p \<longleftrightarrow> length p \<le> length s \<and> drop (length s - length p) s = p"

fun str_includes :: "string \<Rightarrow> string \<Rightarrow> bool" where
  "str_includes [] p \<longleftrightarrow> p = []"
| "str_includes (c # s) p \<longleftrightarrow> starts_with (c # s) p \<or> str_includes s p"

lemma length_to_lower [simp]: "length (to_lower s) = length s"
  by (simp add: to_lower_def)

lemma starts_with_append [simp]: "starts_with (p @ s) p"
  by (simp add: starts_with_def)

lemma starts_with_iff: "starts_with s p \<longleftrightarrow> (\<exists>t. s = p @ t)"
  by (metis append_eq_conv_conj append_take_drop_id starts_with_def)

lemma ends_with_iff: "ends_with s p \<longleftrightarrow> (\<exists>t. s = t @ p)"
proof
  assume "ends_with s p"
  then have "s = take (length s - length p) s @ p"
    by (metis append_take_drop_id ends_with_def)
  then show "\<exists>t. s = t @ p" ..
next
  assume "\<exists>t. s = t @ p"
  then show "ends_with s p" by (auto simp: ends_with_def)
qed

text \<open>\<open>trim\<close>; the white space of the language among the characters up to \<open>U+00FF\<close>.\<close>

definition is_space :: "char \<Rightarrow> bool" where
  "is_space c \<longleftrightarrow> of_char c \<in> {9, 10, 11, 12, 13, 32, 160 :: nat}"

definition trim :: "string \<Rightarrow> string" where
  "trim s = rev (dropWhile is_space (rev (dropWhile is_space s)))"

lemma trim_id: "list_all (\<lambda>c. \<not> is_space c) s \<Longrightarrow> trim s = s"
proof -
  assume a: "list_all (\<lambda>c. \<not> is_space c) s"
  then have "dropWhile is_space s = s" by (cases s) auto
  moreover have "dropWhile is_space (rev s) = rev s"
    using a by (cases "rev s") (auto simp: list_all_iff dest: arg_cong [of _ _ set])
  ultimately show ?thesis by (simp add: trim_def)
qed

text \<open>Decimal rendering of numbers, as template literals and \<open>String(n)\<close> print them.\<close>

definition digit_char :: "nat \<Rightarrow> char" where
  "digit_char d = char_of (48 + d)"

fun show_nat :: "nat \<Rightarrow> string" where
  "show_nat n = (if n < 10 then [digit_char n] else show_nat (n div 10) @ [digit_char (n mod 10)])"

declare show_nat.simps [simp del]

definition show_int :: "int \<Rightarrow> string" where
  "show_int i = (if i < 0 then ''-'' @ show_nat (nat (- i)) else show_nat (nat i))"

definition or_else :: "'a option \<Rightarrow> 'a \<Rightarrow> 'a" where
  "or_else x d = (case x of Some v \<Rightarrow> v | None \<Rightarrow> d)"

lemma or_else_simps [simp]: "or_else None d = d" "or_else (Some v) d = v"
  by (simp_all add: or_else_def)

text \<open>\<open>Math.round(a / b)\<close> for integers and a positive \<open>b\<close>: halves round up.\<close>

definition round_div :: "int \<Rightarrow> int \<Rightarrow> int" where
  "round_div a b = (2 * a + b) div (2 * b)"

text \<open>\<open>Math.ceil(a / b)\<close>.\<close>

definition ceil_div :: "int \<Rightarrow> int \<Rightarrow> int" where
  "ceil_div a b = - ((- a) div b)"

lemma ceil_div_bounds: "0 < b \<Longrightarrow> a \<le> ceil_div a b * b \<and> ceil_div a b * b < a + b"
proof -
  assume b: "0 < b"
  have "(- a) div b * b + (- a) mod b = - a" by (rule div_mult_mod_eq)
  moreover have "0 \<le> (- a) mod b" "(- a) mod b < b" using b by simp_all
  moreover have "ceil_div a b * b = - ((- a) div b * b)" by (simp add: ceil_div_def)
  ultimately show ?thesis by linarith
qed

text \<open>\<open>[...new Set(xs)]\<close>: the first occurrence of each element, in order.\<close>

definition uniq :: "'a list \<Rightarrow> 'a list" where
  "uniq xs = rev (remdups (rev xs))"

lemma set_uniq [simp]: "set (uniq xs) = set xs"
  by (simp add: uniq_def)

lemma distinct_uniq [simp]: "distinct (uniq xs)"
  by (simp add: uniq_def)

lemma uniq_Nil_iff [simp]: "uniq xs = [] \<longleftrightarrow> xs = []"
  by (simp add: uniq_def)

lemma uniq_simps [simp]: "uniq [] = []" "uniq [x] = [x]" "uniq [x, y] = (if x = y then [x] else [x, y])"
  by (simp_all add: uniq_def)

text \<open>Sorting by a key that tells the elements apart forgets the order they came in.\<close>

lemma sort_key_mset:
  "mset xs = mset ys \<Longrightarrow> inj_on f (set xs) \<Longrightarrow> sort_key f xs = sort_key f ys"
  by (rule sort_key_inj_key_eq) simp_all

text \<open>A stable sort settles ties by position.\<close>

lemma sort_key_refine:
  fixes f :: "'a \<Rightarrow> 'k :: linorder" and g :: "'a \<Rightarrow> 'l :: linorder"
  assumes "sorted (map g xs)"
  shows "sort_key f xs = sort_key (\<lambda>x. (f x, g x)) xs"
proof (rule properties_for_sort_key)
  let ?ys = "sort_key (\<lambda>x. (f x, g x)) xs"
  show "mset ?ys = mset xs" by simp
  have "sorted_wrt (\<lambda>x y. (f x, g x) \<le> (f y, g y)) ?ys"
    using sorted_sort_key [of "\<lambda>x. (f x, g x)" xs] unfolding sorted_map .
  then show "sorted (map f ?ys)"
    unfolding sorted_map by (rule sorted_wrt_mono_rel [rotated]) (auto simp: less_eq_prod_def)
  fix k
  have "sorted_wrt (\<lambda>x y. g x \<le> g y) (filter (\<lambda>x. f k = f x) xs)"
    using assms unfolding sorted_map by (rule sorted_wrt_filter)
  then have "sorted_wrt (\<lambda>x y. (f x, g x) \<le> (f y, g y)) (filter (\<lambda>x. f k = f x) xs)"
    by (rule sorted_wrt_mono_rel [rotated]) (auto simp: less_eq_prod_def)
  then show "filter (\<lambda>x. f k = f x) ?ys = filter (\<lambda>x. f k = f x) xs"
    by (simp add: filter_sort sort_key_id_if_sorted sorted_map)
qed

lemma map_sort_key: "(\<And>x. x \<in> set l \<Longrightarrow> k x = h (f x)) \<Longrightarrow> map f (sort_key k l) = sort_key h (map f l)"
proof (induction l)
  case (Cons x l)
  have "map f (insort_key k x m) = insort_key h (f x) (map f m)" if "\<forall>y \<in> set (x # m). k y = h (f y)" for m
    using that by (induction m) auto
  then show ?case using Cons by simp
qed simp

lemma set_map_filter: "x \<in> set (List.map_filter f xs) \<longleftrightarrow> (\<exists>y \<in> set xs. f y = Some x)"
  by (induction xs) (auto simp: map_filter_simps split: option.splits)

text \<open>
  The reply of a service client such as Redis to one call: no connected client, an answer,
  or a call that throws.
\<close>

datatype 'a reply = NoClient | Answered 'a | CallFailed

end
