(* ===== verification/Text.thy ===== *)
theory Text
  imports Prelude
begin

text \<open>
  Text functions of the language that several components use on \<open>char list\<close>:
  \<open>String.prototype.split\<close> and \<open>join\<close>, reading and printing numbers in base 10 and 16,
  \<open>padStart\<close>, with their round trips.
\<close>

subsection \<open>Splitting and joining\<close>

text \<open>\<open>s.split(c)\<close> for a one-character separator.\<close>

fun split_on :: "char \<Rightarrow> string \<Rightarrow> string list" where
  "split_on c [] = [[]]"
| "split_on c (x # xs) =
     (if x = c then [] # split_on c xs
      else case split_on c xs of [] \<Rightarrow> [[x]] | p # ps \<Rightarrow> (x # p) # ps)"

fun join_with :: "string \<Rightarrow> string list \<Rightarrow> string" where
  "join_with sep [] = []"
| "join_with sep [x] = x"
| "join_with sep (x # y # ys) = x @ sep @ join_with sep (y # ys)"

lemma split_on_not_Nil [simp]: "split_on c s \<noteq> []"
  by (induction s) (auto split: list.split)

lemma split_on_none: "c \<notin> set s \<Longrightarrow> split_on c s = [s]"
  by (induction s) auto

lemma split_on_append: "c \<notin> set s \<Longrightarrow> split_on c (s @ c # t) = s # split_on c t"
  by (induction s) auto

lemma split_on_join:
  "ps \<noteq> [] \<Longrightarrow> \<forall>p \<in> set ps. c \<notin> set p \<Longrightarrow> split_on c (join_with [c] ps) = ps"
proof (induction ps rule: induct_list012)
  case (2 x)
  then show ?case by (simp add: split_on_none)
next
  case (3 x y ys)
  then show ?case by (simp add: split_on_append)
qed simp

lemma join_split: "join_with [c] (split_on c s) = s"
proof (induction s)
  case (Cons x s)
  have "join_with [c] ((x # p) # ps) = x # join_with [c] (p # ps)" for p ps
    by (cases ps) simp_all
  moreover have "join_with [c] ([] # p # ps) = c # join_with [c] (p # ps)" for p ps
    by simp
  ultimately show ?case
    using Cons by (cases "split_on c s") auto
qed simp

text \<open>\<open>s.split(''::'')\<close>: the pieces between successive occurrences, read left to right.\<close>

fun split_dcolon :: "string \<Rightarrow> string list" where
  "split_dcolon [] = [[]]"
| "split_dcolon [x] = [[x]]"
| "split_dcolon (x # y # ys) =
     (if x = CHR '':'' \<and> y = CHR '':'' then [] # split_dcolon ys
      else case split_dcolon (y # ys) of [] \<Rightarrow> [[x]] | p # ps \<Rightarrow> (x # p) # ps)"

lemma split_dcolon_not_Nil [simp]: "split_dcolon s \<noteq> []"
  by (induction s rule: split_dcolon.induct) (auto split: list.split)

lemma split_dcolon_Cons:
  "x \<noteq> CHR '':'' \<Longrightarrow> split_dcolon (x # s) = (x # hd (split_dcolon s)) # tl (split_dcolon s)"
  by (cases s) (auto split: list.split)

lemma split_dcolon_none: "CHR '':'' \<notin> set s \<Longrightarrow> split_dcolon s = [s]"
  by (induction s) (auto simp: split_dcolon_Cons)

lemma split_dcolon_word: "CHR '':'' \<notin> set s \<Longrightarrow>
    split_dcolon (s @ t) = (s @ hd (split_dcolon t)) # tl (split_dcolon t)"
  by (induction s) (auto simp: split_dcolon_Cons)

lemma split_dcolon_colon: "t \<noteq> [] \<Longrightarrow> hd t \<noteq> CHR '':'' \<Longrightarrow>
    split_dcolon (CHR '':'' # t) = (CHR '':'' # hd (split_dcolon t)) # tl (split_dcolon t)"
  by (cases t) (auto split: list.split)

subsection \<open>Numbers in text\<close>

definition is_digit :: "char \<Rightarrow> bool" where
  "is_digit c \<longleftrightarrow> 48 \<le> (of_char c :: nat) \<and> (of_char c :: nat) \<le> 57"

definition digit_val :: "char \<Rightarrow> nat" where
  "digit_val c = of_char c - 48"

text \<open>\<open>Number(s)\<close> on a string of decimal digits.\<close>

definition parse_dec :: "string \<Rightarrow> nat" where
  "parse_dec s = fold (\<lambda>c n. 10 * n + digit_val c) s 0"

lemma digit_char_val:
  "d < 10 \<Longrightarrow> digit_val (digit_char d) = d \<and> is_digit (digit_char d) \<and> (of_char (digit_char d) :: nat) = 48 + d"
  by (simp add: digit_val_def digit_char_def is_digit_def)

lemma parse_dec_snoc: "parse_dec (s @ [c]) = 10 * parse_dec s + digit_val c"
  by (simp add: parse_dec_def)

lemma parse_dec_show [simp]: "parse_dec (show_nat n) = n"
proof (induction n rule: show_nat.induct)
  case (1 n)
  show ?case
  proof (cases "n < 10")
    case True
    then have "show_nat n = [digit_char n]" by (subst show_nat.simps) simp
    then show ?thesis using True digit_char_val [of n] by (simp add: parse_dec_def)
  next
    case False
    then have "show_nat n = show_nat (n div 10) @ [digit_char (n mod 10)]" by (subst show_nat.simps) simp
    then show ?thesis
      using 1 [OF False] digit_char_val [of "n mod 10"] by (simp add: parse_dec_snoc)
  qed
qed

lemma show_nat_digits: "list_all is_digit (show_nat n)"
proof (induction n rule: show_nat.induct)
  case (1 n)
  then show ?case
    using digit_char_val [of n] digit_char_val [of "n mod 10"]
    by (subst show_nat.simps) simp
qed

lemma show_nat_not_Nil [simp]: "show_nat n \<noteq> []"
  by (subst show_nat.simps) simp

lemma show_nat_char: "c \<in> set (show_nat n) \<Longrightarrow> is_digit c"
  using show_nat_digits [of n] by (simp add: list_all_iff)

lemma show_nat_length: "n < 10 \<Longrightarrow> length (show_nat n) = 1"
  "10 \<le> n \<Longrightarrow> n < 100 \<Longrightarrow> length (show_nat n) = 2"
  "100 \<le> n \<Longrightarrow> n < 1000 \<Longrightarrow> length (show_nat n) = 3"
proof -
  have a: "length (show_nat n) = 1" if "n < 10" for n
    using that by (subst show_nat.simps) simp
  have b: "length (show_nat n) = 2" if "10 \<le> n" "n < 100" for n
    using that a [of "n div 10"] by (subst show_nat.simps) auto
  have c: "length (show_nat n) = 3" if "100 \<le> n" "n < 1000" for n
    using that b [of "n div 10"] by (subst show_nat.simps) auto
  show "n < 10 \<Longrightarrow> length (show_nat n) = 1" "10 \<le> n \<Longrightarrow> n < 100 \<Longrightarrow> length (show_nat n) = 2"
    "100 \<le> n \<Longrightarrow> n < 1000 \<Longrightarrow> length (show_nat n) = 3"
    using a b c by blast+
qed

lemma show_nat_leading: "0 < n \<Longrightarrow> hd (show_nat n) \<noteq> CHR ''0''"
proof (induction n rule: show_nat.induct)
  case (1 n)
  show ?case
  proof (cases "n < 10")
    case True
    then have "show_nat n = [digit_char n]" by (subst show_nat.simps) simp
    then show ?thesis using True 1 digit_char_val [of n] by auto
  next
    case False
    then have "show_nat n = show_nat (n div 10) @ [digit_char (n mod 10)]" by (subst show_nat.simps) simp
    then show ?thesis using 1 False by (simp add: hd_append)
  qed
qed

text \<open>Base 16: \<open>parseInt(s, 16)\<close> on hexadecimal digits, \<open>n.toString(16)\<close>, \<open>padStart\<close>.\<close>

definition hex_val :: "char \<Rightarrow> nat option" where
  "hex_val c = (let n = of_char c :: nat in
     if 48 \<le> n \<and> n \<le> 57 then Some (n - 48)
     else if 97 \<le> n \<and> n \<le> 102 then Some (n - 87)
     else if 65 \<le> n \<and> n \<le> 70 then Some (n - 55) else None)"

definition is_hex :: "char \<Rightarrow> bool" where
  "is_hex c \<longleftrightarrow> hex_val c \<noteq> None"

definition parse_hex :: "string \<Rightarrow> nat" where
  "parse_hex s = fold (\<lambda>c n. 16 * n + or_else (hex_val c) 0) s 0"

definition hex_char :: "nat \<Rightarrow> char" where
  "hex_char d = (if d < 10 then char_of (48 + d) else char_of (87 + d))"

fun show_hex :: "nat \<Rightarrow> string" where
  "show_hex n = (if n < 16 then [hex_char n] else show_hex (n div 16) @ [hex_char (n mod 16)])"

declare show_hex.simps [simp del]

definition pad_start :: "nat \<Rightarrow> char \<Rightarrow> string \<Rightarrow> string" where
  "pad_start n c s = replicate (n - length s) c @ s"

lemma digit_chars:
  "char_of (48 :: nat) = CHR ''0''" "char_of (49 :: nat) = CHR ''1''" "char_of (50 :: nat) = CHR ''2''"
  "char_of (51 :: nat) = CHR ''3''" "char_of (52 :: nat) = CHR ''4''" "char_of (53 :: nat) = CHR ''5''"
  "char_of (54 :: nat) = CHR ''6''" "char_of (55 :: nat) = CHR ''7''" "char_of (56 :: nat) = CHR ''8''"
  "char_of (57 :: nat) = CHR ''9''" "char_of (102 :: nat) = CHR ''f''"
  by (simp_all add: char_of_def bit_0)

lemma hex_char_val: "d < 16 \<Longrightarrow> hex_val (hex_char d) = Some d"
  by (auto simp: hex_val_def hex_char_def Let_def)

lemma parse_hex_snoc: "parse_hex (s @ [c]) = 16 * parse_hex s + or_else (hex_val c) 0"
  by (simp add: parse_hex_def)

lemma parse_hex_show [simp]: "parse_hex (show_hex n) = n"
proof (induction n rule: show_hex.induct)
  case (1 n)
  show ?case
  proof (cases "n < 16")
    case True
    then have "show_hex n = [hex_char n]" by (subst show_hex.simps) simp
    then show ?thesis using True hex_char_val [of n] by (simp add: parse_hex_def)
  next
    case False
    then have "show_hex n = show_hex (n div 16) @ [hex_char (n mod 16)]" by (subst show_hex.simps) simp
    then show ?thesis
      using 1 [OF False] hex_char_val [of "n mod 16"] by (simp add: parse_hex_snoc)
  qed
qed

lemma parse_hex_pad [simp]: "parse_hex (pad_start n CHR ''0'' s) = parse_hex s"
proof -
  have "fold (\<lambda>c n. 16 * n + or_else (hex_val c) 0) (replicate k CHR ''0'' @ s) 0 =
      fold (\<lambda>c n. 16 * n + or_else (hex_val c) 0) s 0" for k
    by (induction k) (simp_all add: hex_val_def)
  then show ?thesis by (simp add: parse_hex_def pad_start_def)
qed

lemma show_hex_hex: "list_all is_hex (show_hex n)"
proof (induction n rule: show_hex.induct)
  case (1 n)
  then show ?case
    using hex_char_val [of n] hex_char_val [of "n mod 16"]
    by (subst show_hex.simps) (auto simp: is_hex_def list_all_iff)
qed

lemma show_hex_not_Nil [simp]: "show_hex n \<noteq> []"
  by (subst show_hex.simps) simp

lemma show_hex_length: "n < 16 ^ Suc k \<Longrightarrow> length (show_hex n) \<le> Suc k"
proof (induction k arbitrary: n)
  case 0
  then show ?case by (subst show_hex.simps) simp
next
  case (Suc k)
  have "n div 16 < 16 ^ Suc k" using Suc.prems by (simp add: less_mult_imp_div_less)
  then have "length (show_hex (n div 16)) \<le> Suc k" by (rule Suc.IH)
  then show ?case by (subst show_hex.simps) simp
qed

end
