(* ===== verification/Semaphore.thy ===== *)
theory Semaphore
  imports Prelude Complex_Main
begin

text \<open>
  The weighted, priority-aware semaphore of \<open>src/concurrency/semaphore.ts\<close>: its state
  (in-flight weight, ordered queue, counters, releaser closures, settled promises), each of
  its operations as a function on that state, and its correctness: capacity is never
  exceeded, the queue is ordered and bounded, no waiter is lost, and releasing every
  holder drains the queue.

  The body of \<open>acquire\<close> runs synchronously up to the promise it returns, so each call is
  one atomic step. Numbers the code rounds with \<open>Math.floor\<close> are \<open>rat\<close> on input;
  \<open>NaN\<close> and the infinities are not modelled.
\<close>

subsection \<open>Options, entries and state\<close>

record sem_options =
  so_name :: string
  so_limit :: rat
  so_maxQueue :: "rat option"
  so_queueTimeoutMs :: "int option"

text \<open>\<open>ao_signal\<close> is the caller's \<open>AbortSignal\<close>: absent, or present and possibly aborted.\<close>

record acquire_options =
  ao_weight :: "rat option"
  ao_priority :: "int option"
  ao_signal :: "bool option"
  ao_queueTimeoutMs :: "int option"

definition default_acquire :: acquire_options where
  "default_acquire = \<lparr>ao_weight = None, ao_priority = None, ao_signal = None,
     ao_queueTimeoutMs = None\<rparr>"

datatype sem_error =
    AbortError
  | SemaphoreFullError string int
  | SemaphoreTimeoutError string int

text \<open>
  A queue entry is identified by its \<open>seq\<close>; \<open>qe_timer\<close> and \<open>qe_signal\<close>
  say whether the timer and the abort listener were installed.
\<close>

record queue_entry =
  qe_weight :: int
  qe_priority :: int
  qe_seq :: nat
  qe_enqueuedAt :: time_ms
  qe_timer :: bool
  qe_signal :: bool

text \<open>How a queued promise settled: with the releaser it resolved to, or an error.\<close>

datatype settlement = Resolved nat | Rejected sem_error

text \<open>
  \<open>sm_releasers\<close> holds the variables captured by the releaser closures, in creation
  order: the weight and the \<open>released\<close> flag. \<open>sm_settled\<close> records how each queued
  promise settled, by \<open>seq\<close>.
\<close>

record sem =
  sm_name :: string
  sm_limit :: int
  sm_maxQueue :: int
  sm_queueTimeoutMs :: int
  sm_inFlight :: int
  sm_seq :: nat
  sm_queue :: "queue_entry list"
  sm_totalAdmitted :: nat
  sm_totalRejectedFull :: nat
  sm_totalQueueTimeouts :: nat
  sm_totalAborted :: nat
  sm_releasers :: "(int \<times> bool) list"
  sm_settled :: "(nat \<times> settlement) list"

definition new_semaphore :: "sem_options \<Rightarrow> sem" where
  "new_semaphore opts =
     (let limit = max 1 \<lfloor>so_limit opts\<rfloor> in
      \<lparr>sm_name = so_name opts,
       sm_limit = limit,
       sm_maxQueue = max 0 (case so_maxQueue opts of Some m \<Rightarrow> \<lfloor>m\<rfloor> | None \<Rightarrow> limit * 8),
       sm_queueTimeoutMs = max 0 (case so_queueTimeoutMs opts of Some t \<Rightarrow> t | None \<Rightarrow> 10000),
       sm_inFlight = 0, sm_seq = 0, sm_queue = [],
       sm_totalAdmitted = 0, sm_totalRejectedFull = 0,
       sm_totalQueueTimeouts = 0, sm_totalAborted = 0,
       sm_releasers = [], sm_settled = []\<rparr>)"

subsection \<open>Operations\<close>

text \<open>\<open>makeReleaser\<close> after the in-flight weight and the admission count went up.\<close>

definition admit :: "int \<Rightarrow> sem \<Rightarrow> nat \<times> sem" where
  "admit w s = (length (sm_releasers s),
     s\<lparr>sm_inFlight := sm_inFlight s + w,
       sm_totalAdmitted := Suc (sm_totalAdmitted s),
       sm_releasers := sm_releasers s @ [(w, False)]\<rparr>)"

text \<open>The entry's \<open>resolve\<close>: admit, then settle the promise with the releaser.\<close>

definition resolve_entry :: "queue_entry \<Rightarrow> sem \<Rightarrow> sem" where
  "resolve_entry e s =
     (let (r, s') = admit (qe_weight e) s
      in s'\<lparr>sm_settled := sm_settled s' @ [(qe_seq e, Resolved r)]\<rparr>)"

text \<open>The loop \<open>while (idx > 0 && queue[idx-1].priority < entry.priority) idx--\<close>.\<close>

fun insert_index :: "queue_entry list \<Rightarrow> int \<Rightarrow> nat \<Rightarrow> nat" where
  "insert_index q p 0 = 0"
| "insert_index q p (Suc i) = (if qe_priority (q ! i) < p then insert_index q p i else Suc i)"

definition enqueue_entry :: "queue_entry \<Rightarrow> queue_entry list \<Rightarrow> queue_entry list" where
  "enqueue_entry e q = insert_at (insert_index q (qe_priority e) (length q)) e q"

datatype acquire_result = Admitted nat | Queued nat | Refused sem_error

definition acquire_weight :: "sem \<Rightarrow> acquire_options \<Rightarrow> int" where
  "acquire_weight s opts =
     min (sm_limit s) (max 1 (case ao_weight opts of Some w \<Rightarrow> \<lfloor>w\<rfloor> | None \<Rightarrow> 1))"

definition new_entry :: "acquire_options \<Rightarrow> time_ms \<Rightarrow> sem \<Rightarrow> queue_entry" where
  "new_entry opts now s =
     (let timeoutMs = (case ao_queueTimeoutMs opts of Some t \<Rightarrow> t | None \<Rightarrow> sm_queueTimeoutMs s)
      in \<lparr>qe_weight = acquire_weight s opts,
          qe_priority = (case ao_priority opts of Some p \<Rightarrow> p | None \<Rightarrow> 0),
          qe_seq = sm_seq s, qe_enqueuedAt = now, qe_timer = timeoutMs > 0,
          qe_signal = (ao_signal opts \<noteq> None)\<rparr>)"

definition acquire :: "acquire_options \<Rightarrow> time_ms \<Rightarrow> sem \<Rightarrow> acquire_result \<times> sem" where
  "acquire opts now s =
     (let weight = acquire_weight s opts
      in if ao_signal opts = Some True then (Refused AbortError, s)
         else if sm_inFlight s + weight \<le> sm_limit s \<and> sm_queue s = [] then
           (Admitted (fst (admit weight s)), snd (admit weight s))
         else if int (length (sm_queue s)) \<ge> sm_maxQueue s then
           (Refused (SemaphoreFullError (sm_name s) (sm_maxQueue s)),
            s\<lparr>sm_totalRejectedFull := Suc (sm_totalRejectedFull s)\<rparr>)
         else
           (Queued (sm_seq s),
            s\<lparr>sm_seq := Suc (sm_seq s),
              sm_queue := enqueue_entry (new_entry opts now s) (sm_queue s)\<rparr>))"

text \<open>
  \<open>pump\<close>: admit the head while it fits; when it does not, the first entry of the head's
  priority that fits; stop when none does.
\<close>

definition pump_choice :: "sem \<Rightarrow> nat option" where
  "pump_choice s =
     (case sm_queue s of
        [] \<Rightarrow> None
      | e # _ \<Rightarrow>
          if sm_inFlight s + qe_weight e > sm_limit s
          then find_index (\<lambda>x. qe_priority x = qe_priority e \<and>
                 sm_inFlight s + qe_weight x \<le> sm_limit s) (sm_queue s)
          else Some 0)"

lemma pump_choice_bound: "pump_choice s = Some i \<Longrightarrow> i < length (sm_queue s)"
  by (auto simp: pump_choice_def split: list.splits if_splits dest: find_index_Some)

definition pump_step :: "nat \<Rightarrow> sem \<Rightarrow> sem" where
  "pump_step i s = resolve_entry (sm_queue s ! i) (s\<lparr>sm_queue := remove_at i (sm_queue s)\<rparr>)"

lemma sm_queue_pump_step [simp]: "sm_queue (pump_step i s) = remove_at i (sm_queue s)"
  by (simp add: pump_step_def resolve_entry_def admit_def)

function pump :: "sem \<Rightarrow> sem" where
  "pump s = (case pump_choice s of None \<Rightarrow> s | Some i \<Rightarrow> pump (pump_step i s))"
  by pat_completeness auto
termination
proof (relation "measure (\<lambda>s. length (sm_queue s))")
  fix s i
  assume "pump_choice s = Some i"
  then have "i < length (sm_queue s)" by (rule pump_choice_bound)
  then show "(pump_step i s, s) \<in> measure (\<lambda>s. length (sm_queue s))" by simp
qed simp

declare pump.simps [simp del]

text \<open>Calling a releaser: idempotent through its captured \<open>released\<close> flag.\<close>

definition release :: "nat \<Rightarrow> sem \<Rightarrow> sem" where
  "release r s =
     (if r < length (sm_releasers s) \<and> \<not> snd (sm_releasers s ! r)
      then pump (s\<lparr>sm_releasers := (sm_releasers s)[r := (fst (sm_releasers s ! r), True)],
                   sm_inFlight := sm_inFlight s - fst (sm_releasers s ! r)\<rparr>)
      else s)"

definition remove_queued :: "nat \<Rightarrow> queue_entry list \<Rightarrow> queue_entry list" where
  "remove_queued n q = (case find_index (\<lambda>e. qe_seq e = n) q of
                          None \<Rightarrow> q | Some i \<Rightarrow> remove_at i q)"

text \<open>
  The timer and the abort listener of an entry. Both are removed by \<open>cleanupEntry\<close> when
  the entry leaves the queue, so they can fire only while it is queued.
\<close>

definition queued_entry :: "nat \<Rightarrow> sem \<Rightarrow> queue_entry option" where
  "queued_entry n s = find (\<lambda>e. qe_seq e = n) (sm_queue s)"

definition fire_timer :: "nat \<Rightarrow> time_ms \<Rightarrow> sem \<Rightarrow> sem" where
  "fire_timer n now s =
     (case queued_entry n s of
        Some e \<Rightarrow>
          if qe_timer e then
            s\<lparr>sm_queue := remove_queued n (sm_queue s),
              sm_totalQueueTimeouts := Suc (sm_totalQueueTimeouts s),
              sm_settled := sm_settled s @
                [(n, Rejected (SemaphoreTimeoutError (sm_name s) (now - qe_enqueuedAt e)))]\<rparr>
          else s
      | None \<Rightarrow> s)"

definition fire_abort :: "nat \<Rightarrow> sem \<Rightarrow> sem" where
  "fire_abort n s =
     (case queued_entry n s of
        Some e \<Rightarrow>
          if qe_signal e then
            s\<lparr>sm_queue := remove_queued n (sm_queue s),
              sm_totalAborted := Suc (sm_totalAborted s),
              sm_settled := sm_settled s @ [(n, Rejected AbortError)]\<rparr>
          else s
      | None \<Rightarrow> s)"

definition abortQueued :: "sem \<Rightarrow> nat \<times> sem" where
  "abortQueued s =
     (length (sm_queue s),
      s\<lparr>sm_queue := [],
        sm_totalAborted := sm_totalAborted s + length (sm_queue s),
        sm_settled := sm_settled s @ map (\<lambda>e. (qe_seq e, Rejected AbortError)) (sm_queue s)\<rparr>)"

record sem_stats =
  st_name :: string
  st_limit :: int
  st_inFlight :: int
  st_queued :: nat
  st_maxQueue :: int
  st_totalAdmitted :: nat
  st_totalRejectedFull :: nat
  st_totalQueueTimeouts :: nat
  st_totalAborted :: nat

definition stats :: "sem \<Rightarrow> sem_stats" where
  "stats s = \<lparr>st_name = sm_name s, st_limit = sm_limit s, st_inFlight = sm_inFlight s,
     st_queued = length (sm_queue s), st_maxQueue = sm_maxQueue s,
     st_totalAdmitted = sm_totalAdmitted s, st_totalRejectedFull = sm_totalRejectedFull s,
     st_totalQueueTimeouts = sm_totalQueueTimeouts s, st_totalAborted = sm_totalAborted s\<rparr>"

subsection \<open>The step relation\<close>

text \<open>Every way the event loop can touch a semaphore.\<close>

inductive sem_step :: "sem \<Rightarrow> sem \<Rightarrow> bool" where
  step_acquire: "acquire opts now s = (res, s') \<Longrightarrow> sem_step s s'"
| step_release: "sem_step s (release r s)"
| step_timer: "sem_step s (fire_timer n now s)"
| step_abort: "sem_step s (fire_abort n s)"
| step_abortQueued: "abortQueued s = (n, s') \<Longrightarrow> sem_step s s'"

inductive sem_reachable :: "sem_options \<Rightarrow> sem \<Rightarrow> bool" for opts where
  reach_new: "sem_reachable opts (new_semaphore opts)"
| reach_step: "sem_reachable opts s \<Longrightarrow> sem_step s s' \<Longrightarrow> sem_reachable opts s'"

inductive_cases sem_stepE: "sem_step s s'"

subsection \<open>Invariant\<close>

definition held_weight :: "(int \<times> bool) list \<Rightarrow> int" where
  "held_weight rs = sum_list (map (\<lambda>(w, rel). if rel then 0 else w) rs)"

definition held_count :: "(int \<times> bool) list \<Rightarrow> nat" where
  "held_count rs = length (filter (\<lambda>(w, rel). \<not> rel) rs)"

definition queue_before :: "queue_entry \<Rightarrow> queue_entry \<Rightarrow> bool" where
  "queue_before a b \<longleftrightarrow> qe_priority a > qe_priority b \<or>
     (qe_priority a = qe_priority b \<and> qe_seq a < qe_seq b)"

definition fits_pool :: "sem \<Rightarrow> int \<Rightarrow> bool" where
  "fits_pool s w \<longleftrightarrow> 1 \<le> w \<and> w \<le> sm_limit s"

text \<open>The part every intermediate state of \<open>pump\<close> keeps, and the no-lost-waiter part.\<close>

definition sem_core :: "sem \<Rightarrow> bool" where
  "sem_core s \<longleftrightarrow>
     1 \<le> sm_limit s \<and> 0 \<le> sm_maxQueue s \<and>
     sm_inFlight s = held_weight (sm_releasers s) \<and> sm_inFlight s \<le> sm_limit s \<and>
     (\<forall>e \<in> set (sm_queue s). fits_pool s (qe_weight e)) \<and>
     (\<forall>r \<in> set (sm_releasers s). fits_pool s (fst r)) \<and>
     int (length (sm_queue s)) \<le> sm_maxQueue s \<and>
     sorted_wrt queue_before (sm_queue s) \<and>
     (\<forall>e \<in> set (sm_queue s). qe_seq e < sm_seq s) \<and>
     (\<forall>p \<in> set (sm_settled s). fst p < sm_seq s) \<and>
     distinct (map fst (sm_settled s) @ map qe_seq (sm_queue s)) \<and>
     sm_totalAdmitted s = length (sm_releasers s) \<and>
     length (sm_settled s) + length (sm_queue s) = sm_seq s"

definition sem_inv :: "sem \<Rightarrow> bool" where
  "sem_inv s \<longleftrightarrow> sem_core s \<and> (sm_queue s \<noteq> [] \<longrightarrow> 0 < sm_inFlight s)"


subsubsection \<open>Facts about the pieces\<close>

lemma held_weight_snoc [simp]: "held_weight (rs @ [(w, False)]) = held_weight rs + w"
  by (simp add: held_weight_def)

lemma held_weight_release:
  assumes "r < length rs" and "\<not> snd (rs ! r)"
  shows "held_weight (rs[r := (fst (rs ! r), True)]) = held_weight rs - fst (rs ! r)"
  using assms
proof (induction rs arbitrary: r)
  case (Cons p rs)
  then show ?case by (cases r; cases p) (auto simp: held_weight_def)
qed simp

lemma held_count_release:
  assumes "r < length rs" and "\<not> snd (rs ! r)"
  shows "Suc (held_count (rs[r := (w, True)])) = held_count rs"
  using assms
proof (induction rs arbitrary: r)
  case (Cons p rs)
  then show ?case by (cases r; cases p) (auto simp: held_count_def)
qed simp

lemma held_count_snoc [simp]: "held_count (rs @ [(w, False)]) = Suc (held_count rs)"
  by (simp add: held_count_def)

lemma held_weight_pos_holder:
  "0 < held_weight rs \<Longrightarrow> \<exists>r < length rs. \<not> snd (rs ! r)"
proof (induction rs)
  case Nil
  then show ?case by (simp add: held_weight_def)
next
  case (Cons p rs)
  show ?case
  proof (cases "snd p")
    case True
    with Cons.prems have "0 < held_weight rs"
      by (cases p) (simp add: held_weight_def)
    then obtain r where "r < length rs" "\<not> snd (rs ! r)" using Cons.IH by blast
    then show ?thesis by (intro exI [of _ "Suc r"]) simp
  qed (intro exI [of _ 0], simp)
qed

lemma held_count_0_iff: "held_count rs = 0 \<longleftrightarrow> find_index (\<lambda>(w, rel). \<not> rel) rs = None"
  by (auto simp: held_count_def find_index_None filter_empty_conv)

lemma held_count_0_weight: "held_count rs = 0 \<Longrightarrow> held_weight rs = 0"
  by (induction rs) (auto simp: held_count_def held_weight_def split: if_splits)

lemma held_weight_ge_count:
  "\<forall>r \<in> set rs. 1 \<le> fst r \<Longrightarrow> int (held_count rs) \<le> held_weight rs"
  by (induction rs) (auto simp: held_weight_def held_count_def split: if_splits)

lemma insert_index_le: "insert_index q p n \<le> n"
  by (induction n) auto

lemma insert_index_suffix:
  "insert_index q p n \<le> i \<Longrightarrow> i < n \<Longrightarrow> qe_priority (q ! i) < p"
  by (induction n) (auto simp: less_Suc_eq split: if_splits)

lemma insert_index_stop:
  "0 < insert_index q p n \<Longrightarrow> p \<le> qe_priority (q ! (insert_index q p n - 1))"
  by (induction n) auto

lemma enqueue_entry_sorted:
  assumes srt: "sorted_wrt queue_before q" and fresh: "\<forall>x \<in> set q. qe_seq x < qe_seq e"
  shows "sorted_wrt queue_before (enqueue_entry e q)"
proof -
  let ?i = "insert_index q (qe_priority e) (length q)"
  have le: "?i \<le> length q" by (rule insert_index_le)
  have high: "qe_priority e \<le> qe_priority (q ! j)" if "j < ?i" for j
  proof -
    have stop: "qe_priority e \<le> qe_priority (q ! (?i - 1))"
      using that insert_index_stop [of q "qe_priority e" "length q"] by simp
    show ?thesis
    proof (cases "j = ?i - 1")
      case False
      with that le srt have "queue_before (q ! j) (q ! (?i - 1))"
        by (auto simp: sorted_wrt_iff_nth_less)
      with stop show ?thesis by (auto simp: queue_before_def)
    qed (use stop in simp)
  qed
  have before: "\<forall>x \<in> set (take ?i q). queue_before x e"
  proof
    fix x assume "x \<in> set (take ?i q)"
    then obtain j where "j < ?i" "j < length q" "x = q ! j"
      by (auto simp: in_set_conv_nth)
    with high fresh show "queue_before x e"
      by (fastforce simp: queue_before_def)
  qed
  have after: "\<forall>x \<in> set (drop ?i q). queue_before e x"
  proof
    fix x assume "x \<in> set (drop ?i q)"
    then obtain j where "?i \<le> j" "j < length q" "x = q ! j"
      by (auto simp: in_set_conv_nth) (metis le_add1 add.commute less_diff_conv)
    then show "queue_before e x"
      using insert_index_suffix [of q "qe_priority e" "length q" j]
      by (simp add: queue_before_def)
  qed
  show ?thesis
    unfolding enqueue_entry_def using srt before after by (rule sorted_wrt_insert_at)
qed

lemma set_enqueue_entry [simp]: "set (enqueue_entry e q) = insert e (set q)"
  by (simp add: enqueue_entry_def)

lemma length_enqueue_entry [simp]: "length (enqueue_entry e q) = Suc (length q)"
  by (simp add: enqueue_entry_def)


subsubsection \<open>Preservation\<close>

lemma settle_distinct:
  assumes "i < length q"
  shows "distinct (map fst (st @ [(qe_seq (q ! i), r)]) @ map qe_seq (remove_at i q)) \<longleftrightarrow>
    distinct (map fst st @ map qe_seq q)"
proof (rule mset_eq_imp_distinct_iff)
  have "image_mset qe_seq (mset q) = add_mset (qe_seq (q ! i)) (image_mset qe_seq (mset (remove_at i q)))"
    using mset_remove_at [OF assms] by (metis image_mset_add_mset)
  then show "mset (map fst (st @ [(qe_seq (q ! i), r)]) @ map qe_seq (remove_at i q)) =
    mset (map fst st @ map qe_seq q)"
    by simp
qed

lemma sem_core_unqueue:
  assumes core: "sem_core s" and i: "i < length (sm_queue s)"
  shows "sem_core (s\<lparr>sm_queue := remove_at i (sm_queue s),
           sm_settled := sm_settled s @ [(qe_seq (sm_queue s ! i), r)]\<rparr>)"
proof -
  have sub: "set (remove_at i (sm_queue s)) \<subseteq> set (sm_queue s)"
    by (rule set_remove_at_subset)
  have mem: "sm_queue s ! i \<in> set (sm_queue s)" using i by simp
  show ?thesis
    using core i sub mem settle_distinct [OF i, of "sm_settled s" r]
    unfolding sem_core_def fits_pool_def
    by (auto simp: sorted_wrt_remove_at)
qed

lemma sem_core_admit:
  assumes "sem_core s" "fits_pool s w" "sm_inFlight s + w \<le> sm_limit s"
  shows "sem_core (snd (admit w s))"
  using assms by (auto simp: sem_core_def admit_def fits_pool_def)

lemma pump_step_alt:
  "pump_step i s =
     (snd (admit (qe_weight (sm_queue s ! i))
       (s\<lparr>sm_queue := remove_at i (sm_queue s),
          sm_settled := sm_settled s @
            [(qe_seq (sm_queue s ! i), Resolved (length (sm_releasers s)))]\<rparr>)))"
  by (simp add: pump_step_def resolve_entry_def admit_def)

lemma pump_choice_fits:
  "pump_choice s = Some i \<Longrightarrow>
     sm_inFlight s + qe_weight (sm_queue s ! i) \<le> sm_limit s \<and>
     qe_priority (sm_queue s ! i) = qe_priority (hd (sm_queue s))"
  by (auto simp: pump_choice_def split: list.splits if_splits dest: find_index_Some)

lemma sem_core_pump_step:
  assumes core: "sem_core s" and choice: "pump_choice s = Some i"
  shows "sem_core (pump_step i s)"
proof -
  note i = pump_choice_bound [OF choice]
  let ?s = "s\<lparr>sm_queue := remove_at i (sm_queue s), sm_settled := sm_settled s @
     [(qe_seq (sm_queue s ! i), Resolved (length (sm_releasers s)))]\<rparr>"
  have "sem_core ?s" using core i by (rule sem_core_unqueue)
  moreover have "fits_pool s (qe_weight (sm_queue s ! i))"
    using core i by (auto simp: sem_core_def)
  ultimately show ?thesis
    using pump_choice_fits [OF choice]
    by (auto simp: pump_step_alt fits_pool_def intro!: sem_core_admit)
qed

lemma pump_invariant:
  assumes step: "\<And>s i. P s \<Longrightarrow> pump_choice s = Some i \<Longrightarrow> P (pump_step i s)"
  shows "P s \<Longrightarrow> P (pump s)"
proof (induction s rule: pump.induct)
  case (1 s)
  show ?case
  proof (cases "pump_choice s")
    case None
    then show ?thesis using "1.prems" by (subst pump.simps) simp
  next
    case (Some i)
    then show ?thesis using "1.IH" [OF Some] step [OF "1.prems" Some]
      by (subst pump.simps) simp
  qed
qed

lemma sem_core_pump: "sem_core s \<Longrightarrow> sem_core (pump s)"
  by (rule pump_invariant [of sem_core]) (rule sem_core_pump_step)

lemma pump_stops: "pump_choice (pump s) = None"
proof (induction s rule: pump.induct)
  case (1 s)
  then show ?case
    by (cases "pump_choice s") (simp_all add: pump.simps [of s])
qed

lemma pump_choice_None_iff:
  "pump_choice s = None \<longleftrightarrow>
     (\<forall>e \<in> set (sm_queue s). qe_priority e = qe_priority (hd (sm_queue s)) \<longrightarrow>
        sm_inFlight s + qe_weight e > sm_limit s)"
  by (auto simp: pump_choice_def find_index_None not_le split: list.splits)

lemma sem_core_blocked_busy:
  assumes "sem_core s" "pump_choice s = None" "sm_queue s \<noteq> []"
  shows "0 < sm_inFlight s"
proof -
  let ?e = "hd (sm_queue s)"
  have "?e \<in> set (sm_queue s)" using assms(3) by simp
  then have "sm_inFlight s + qe_weight ?e > sm_limit s" and "qe_weight ?e \<le> sm_limit s"
    using assms by (auto simp: pump_choice_None_iff sem_core_def fits_pool_def)
  then show ?thesis by simp
qed

lemma sem_inv_pump: "sem_core s \<Longrightarrow> sem_inv (pump s)"
  using sem_core_pump sem_core_blocked_busy pump_stops by (auto simp: sem_inv_def)

lemma new_semaphore_inv [inv_intros]: "sem_inv (new_semaphore opts)"
  by (auto simp: sem_inv_def sem_core_def new_semaphore_def Let_def held_weight_def
      split: option.splits)

lemma acquire_weight_fits: "sem_core s \<Longrightarrow> fits_pool s (acquire_weight s opts)"
  by (auto simp: sem_core_def acquire_weight_def fits_pool_def)

lemma sem_core_enqueue:
  assumes core: "sem_core s" and room: "int (length (sm_queue s)) < sm_maxQueue s"
    and fits: "fits_pool s (qe_weight e)" and sq: "qe_seq e = sm_seq s"
  shows "sem_core (s\<lparr>sm_seq := Suc (sm_seq s), sm_queue := enqueue_entry e (sm_queue s)\<rparr>)"
proof -
  have "sorted_wrt queue_before (enqueue_entry e (sm_queue s))"
    using core sq by (intro enqueue_entry_sorted) (auto simp: sem_core_def)
  moreover have "distinct (map fst (sm_settled s) @ map qe_seq (enqueue_entry e (sm_queue s)))"
  proof -
    have "distinct (qe_seq e # (map fst (sm_settled s) @ map qe_seq (sm_queue s)))"
      using core sq by (auto simp: sem_core_def)
    moreover have "mset (qe_seq e # (map fst (sm_settled s) @ map qe_seq (sm_queue s))) =
      mset (map fst (sm_settled s) @ map qe_seq (enqueue_entry e (sm_queue s)))"
      by (simp add: enqueue_entry_def)
    ultimately show ?thesis using mset_eq_imp_distinct_iff by blast
  qed
  ultimately show ?thesis
    using core room fits sq
    by (auto simp: sem_core_def fits_pool_def less_Suc_eq)
qed

lemma new_entry_sel [simp]:
  "qe_weight (new_entry opts now s) = acquire_weight s opts"
  "qe_seq (new_entry opts now s) = sm_seq s"
  by (simp_all add: new_entry_def Let_def)

lemma sem_inv_rejectedFull [simp]: "sem_inv (s\<lparr>sm_totalRejectedFull := a\<rparr>) = sem_inv s"
  by (simp add: sem_inv_def sem_core_def fits_pool_def)

lemma acquire_inv: "sem_inv s \<Longrightarrow> sem_inv (snd (acquire opts now s))"
proof -
  assume inv: "sem_inv s"
  let ?w = "acquire_weight s opts"
  have core: "sem_core s" using inv by (simp add: sem_inv_def)
  have fits: "fits_pool s ?w" using core by (rule acquire_weight_fits)
  have fast: "sem_inv (snd (admit ?w s))" if "sm_inFlight s + ?w \<le> sm_limit s" "sm_queue s = []"
    using that sem_core_admit [OF core fits] by (simp add: sem_inv_def admit_def)
  have enq: "sem_inv (s\<lparr>sm_seq := Suc (sm_seq s),
      sm_queue := enqueue_entry (new_entry opts now s) (sm_queue s)\<rparr>)"
    if "\<not> (sm_inFlight s + ?w \<le> sm_limit s \<and> sm_queue s = [])"
      "int (length (sm_queue s)) < sm_maxQueue s"
  proof -
    have "0 < sm_inFlight s"
      using that(1) inv fits by (auto simp: sem_inv_def fits_pool_def)
    then show ?thesis
      using sem_core_enqueue [OF core that(2), of "new_entry opts now s"] fits
      by (simp add: sem_inv_def)
  qed
  show ?thesis
    using inv fast enq by (simp add: acquire_def Let_def not_le)
qed

lemma release_inv: "sem_inv s \<Longrightarrow> sem_inv (release r s)"
proof -
  assume inv: "sem_inv s"
  show ?thesis
  proof (cases "r < length (sm_releasers s) \<and> \<not> snd (sm_releasers s ! r)")
    case True
    let ?s = "s\<lparr>sm_releasers := (sm_releasers s)[r := (fst (sm_releasers s ! r), True)],
                sm_inFlight := sm_inFlight s - fst (sm_releasers s ! r)\<rparr>"
    have "fits_pool s (fst (sm_releasers s ! r))"
      using inv True by (auto simp: sem_inv_def sem_core_def)
    moreover have "\<forall>x \<in> set ((sm_releasers s)[r := (fst (sm_releasers s ! r), True)]).
        fits_pool s (fst x)"
      using inv True set_update_subset_insert
      by (fastforce simp: sem_inv_def sem_core_def)
    moreover have "sem_core s" using inv by (simp add: sem_inv_def)
    moreover have "0 \<le> fst (sm_releasers s ! r)"
      using calculation(1) by (simp add: fits_pool_def)
    ultimately have "sem_core ?s"
      using True unfolding sem_core_def fits_pool_def
      by (simp add: held_weight_release)
    then show ?thesis using True by (simp add: release_def sem_inv_pump)
  qed (use inv in \<open>auto simp: release_def\<close>)
qed

lemma queued_entry_index:
  "queued_entry n s = Some e \<Longrightarrow> \<exists>i < length (sm_queue s).
     remove_queued n (sm_queue s) = remove_at i (sm_queue s) \<and> sm_queue s ! i = e \<and> qe_seq e = n"
  by (auto simp: queued_entry_def remove_queued_def dest!: find_find_index
      dest: find_index_Some)

lemma unqueue_inv:
  assumes "sem_inv s" "queued_entry n s = Some e"
  shows "sem_inv (s\<lparr>sm_queue := remove_queued n (sm_queue s),
           sm_settled := sm_settled s @ [(n, r)]\<rparr>)"
  using queued_entry_index [OF assms(2)] assms(1) sem_core_unqueue [of s _ r]
  by (auto simp: sem_inv_def)

lemma sem_inv_counters [simp]:
  "sem_inv (s\<lparr>sm_totalQueueTimeouts := a\<rparr>) = sem_inv s"
  "sem_inv (s\<lparr>sm_totalAborted := a\<rparr>) = sem_inv s"
  by (simp_all add: sem_inv_def sem_core_def fits_pool_def)

lemma fire_timer_inv: "sem_inv s \<Longrightarrow> sem_inv (fire_timer n now s)"
proof (cases "queued_entry n s")
  case (Some e)
  assume inv: "sem_inv s"
  let ?u = "s\<lparr>sm_queue := remove_queued n (sm_queue s), sm_settled := sm_settled s @
     [(n, Rejected (SemaphoreTimeoutError (sm_name s) (now - qe_enqueuedAt e)))]\<rparr>"
  have "fire_timer n now s =
    (if qe_timer e then ?u\<lparr>sm_totalQueueTimeouts := Suc (sm_totalQueueTimeouts s)\<rparr> else s)"
    using Some by (simp add: fire_timer_def)
  then show ?thesis using inv unqueue_inv [OF inv Some] by simp
qed (simp add: fire_timer_def)

lemma fire_abort_inv: "sem_inv s \<Longrightarrow> sem_inv (fire_abort n s)"
proof (cases "queued_entry n s")
  case (Some e)
  assume inv: "sem_inv s"
  let ?u = "s\<lparr>sm_queue := remove_queued n (sm_queue s),
     sm_settled := sm_settled s @ [(n, Rejected AbortError)]\<rparr>"
  have "fire_abort n s =
    (if qe_signal e then ?u\<lparr>sm_totalAborted := Suc (sm_totalAborted s)\<rparr> else s)"
    using Some by (simp add: fire_abort_def)
  then show ?thesis using inv unqueue_inv [OF inv Some] by simp
qed (simp add: fire_abort_def)

lemma abortQueued_inv: "sem_inv s \<Longrightarrow> sem_inv (snd (abortQueued s))"
proof -
  assume inv: "sem_inv s"
  then have core: "sem_core s" by (simp add: sem_inv_def)
  have "map fst (map (\<lambda>e. (qe_seq e, Rejected AbortError)) (sm_queue s)) = map qe_seq (sm_queue s)"
    by simp
  with core have "sem_core (snd (abortQueued s))"
    unfolding sem_core_def abortQueued_def by (auto simp: fits_pool_def comp_def)
  then show ?thesis by (simp add: sem_inv_def abortQueued_def)
qed

lemmas sem_ops_inv = acquire_inv release_inv fire_timer_inv fire_abort_inv abortQueued_inv

lemma sem_step_inv: "sem_step s s' \<Longrightarrow> sem_inv s \<Longrightarrow> sem_inv s'"
proof (induction rule: sem_step.induct)
  case (step_acquire opts now s res s')
  then show ?case using acquire_inv [of s opts now] by simp
next
  case (step_abortQueued s n s')
  then show ?case using abortQueued_inv [of s] by simp
qed (auto intro: sem_ops_inv)

lemma sem_reachable_inv: "sem_reachable opts s \<Longrightarrow> sem_inv s"
  by (induction rule: sem_reachable.induct) (auto intro: new_semaphore_inv sem_step_inv)


subsection \<open>Properties\<close>

subsubsection \<open>What a release does to the waiters\<close>

definition settled_by :: "sem \<Rightarrow> sem \<Rightarrow> (nat \<times> settlement) list" where
  "settled_by s s' = drop (length (sm_settled s)) (sm_settled s')"

text \<open>
  \<open>admitted_over q0 q (n, x)\<close>: the promise \<open>n\<close> resolved with a releaser, and its
  entry in \<open>q0\<close> had at least the priority of everything left in \<open>q\<close>.
\<close>

definition admitted_over :: "queue_entry list \<Rightarrow> queue_entry list \<Rightarrow> nat \<times> settlement \<Rightarrow> bool" where
  "admitted_over q0 q x \<longleftrightarrow>
     (\<exists>e \<in> set q0. qe_seq e = fst x \<and> (\<forall>e' \<in> set q. qe_priority e' \<le> qe_priority e)) \<and>
     (\<exists>i. snd x = Resolved i)"

definition pump_fair :: "sem \<Rightarrow> sem \<Rightarrow> bool" where
  "pump_fair s0 s \<longleftrightarrow> sorted_wrt queue_before (sm_queue s) \<and> set (sm_queue s) \<subseteq> set (sm_queue s0) \<and>
     (\<exists>new. sm_settled s = sm_settled s0 @ new \<and>
       (\<forall>x \<in> set new. admitted_over (sm_queue s0) (sm_queue s) x))"

lemma admitted_over_mono: "admitted_over q0 q x \<Longrightarrow> set q' \<subseteq> set q \<Longrightarrow> admitted_over q0 q' x"
  by (auto simp: admitted_over_def)

lemma queue_head_priority:
  "sorted_wrt queue_before q \<Longrightarrow> e \<in> set q \<Longrightarrow> qe_priority e \<le> qe_priority (hd q)"
  by (cases q) (auto simp: queue_before_def)

lemma pump_fair_step:
  assumes fair: "pump_fair s0 s" and choice: "pump_choice s = Some i"
  shows "pump_fair s0 (pump_step i s)"
proof -
  let ?e = "sm_queue s ! i" and ?q' = "remove_at i (sm_queue s)"
  let ?x = "(qe_seq ?e, Resolved (length (sm_releasers s)))"
  have i: "i < length (sm_queue s)" using choice by (rule pump_choice_bound)
  have sub: "set ?q' \<subseteq> set (sm_queue s)" by (rule set_remove_at_subset)
  have srt: "sorted_wrt queue_before (sm_queue s)" using fair by (simp add: pump_fair_def)
  have "\<forall>e' \<in> set ?q'. qe_priority e' \<le> qe_priority ?e"
    using queue_head_priority [OF srt] sub pump_choice_fits [OF choice] by auto
  then have now: "admitted_over (sm_queue s0) ?q' ?x"
    using fair nth_mem [OF i] unfolding pump_fair_def admitted_over_def fst_conv snd_conv
    by blast
  obtain new where new: "sm_settled s = sm_settled s0 @ new"
    and old: "\<forall>x \<in> set new. admitted_over (sm_queue s0) (sm_queue s) x"
    using fair by (auto simp: pump_fair_def)
  have "sm_settled (pump_step i s) = sm_settled s0 @ new @ [?x]"
    using new by (simp add: pump_step_def resolve_entry_def admit_def)
  moreover have "\<forall>x \<in> set (new @ [?x]). admitted_over (sm_queue s0) ?q' x"
    using old now sub by (auto intro: admitted_over_mono)
  moreover have "set ?q' \<subseteq> set (sm_queue s0)" using fair sub by (auto simp: pump_fair_def)
  ultimately show ?thesis
    using srt unfolding pump_fair_def by (simp add: sorted_wrt_remove_at)
qed

lemma pump_fair_pump:
  assumes "sorted_wrt queue_before (sm_queue s)"
  shows "pump_fair s (pump s)"
proof (rule pump_invariant [of "pump_fair s"])
  show "pump_fair s s" using assms by (auto simp: pump_fair_def)
qed (rule pump_fair_step)

lemma pump_releasers_prefix: "\<exists>rs. sm_releasers (pump s) = sm_releasers s @ rs"
proof (rule pump_invariant [of "\<lambda>x::sem. \<exists>rs. sm_releasers x = sm_releasers s @ rs"])
  fix x :: sem and i
  assume "\<exists>rs. sm_releasers x = sm_releasers s @ rs"
  then show "\<exists>rs. sm_releasers (pump_step i x) = sm_releasers s @ rs"
    by (auto simp: pump_step_def resolve_entry_def admit_def)
qed simp

text \<open>
  C1. The capacity of a pool is never exceeded: in every reachable state the weight in
  flight is exactly what the unreleased releasers hold, it lies between 0 and the limit, the
  queue is within its cap and ordered by priority and arrival, and while anyone waits some
  holder still has a release to call, so no waiter is lost.
\<close>

theorem semaphore_safety:
  assumes "sem_reachable opts s"
  shows "sm_inFlight s = held_weight (sm_releasers s) \<and>
    0 \<le> sm_inFlight s \<and> sm_inFlight s \<le> sm_limit s \<and>
    int (length (sm_queue s)) \<le> sm_maxQueue s \<and> sorted_wrt queue_before (sm_queue s) \<and>
    (sm_queue s = [] \<or> (\<exists>r < length (sm_releasers s). \<not> snd (sm_releasers s ! r)))"
proof -
  have inv: "sem_inv s" using assms by (rule sem_reachable_inv)
  have "int (held_count (sm_releasers s)) \<le> held_weight (sm_releasers s)"
    using inv by (intro held_weight_ge_count) (auto simp: sem_inv_def sem_core_def fits_pool_def)
  moreover have "sm_queue s = [] \<or> (\<exists>r < length (sm_releasers s). \<not> snd (sm_releasers s ! r))"
    using inv held_weight_pos_holder by (auto simp: sem_inv_def sem_core_def)
  ultimately show ?thesis using inv by (simp add: sem_inv_def sem_core_def)
qed

definition demo_options :: sem_options where
  "demo_options = \<lparr>so_name = ''debrid'', so_limit = 5 / 2, so_maxQueue = Some 3,
     so_queueTimeoutMs = None\<rparr>"

definition demo_acquire :: "rat \<Rightarrow> int \<Rightarrow> acquire_options" where
  "demo_acquire w p = \<lparr>ao_weight = Some w, ao_priority = Some p, ao_signal = Some False,
     ao_queueTimeoutMs = None\<rparr>"

definition demo_state :: sem where
  "demo_state = snd (acquire (demo_acquire 1 0) 7 (snd (acquire (demo_acquire 2 5) 6
     (snd (acquire (demo_acquire 1 0) 5 (snd (acquire (demo_acquire 2 0) 0
       (new_semaphore demo_options))))))))"

lemma demo_reachable: "sem_reachable demo_options demo_state"
  unfolding demo_state_def
  by (intro reach_step [OF _ step_acquire [OF prod.collapse [symmetric]]] reach_new)

theorem semaphore_safety_witness:
  "sem_reachable demo_options demo_state \<and> sm_inFlight demo_state \<le> sm_limit demo_state \<and>
   map qe_seq (sm_queue demo_state) = [1, 0, 2] \<and> sm_inFlight demo_state = 2"
proof -
  have "map qe_seq (sm_queue demo_state) = [1, 0, 2]" "sm_inFlight demo_state = 2"
    by code_simp+
  then show ?thesis
    using semaphore_safety [OF demo_reachable] demo_reachable by simp
qed


text \<open>
  Every acquisition that was queued is accounted for exactly once: the sequence numbers
  handed out are exactly those still waiting and those whose promise settled, no number
  occurs twice, and every admission made one releaser.
\<close>

lemma semaphore_settles_once:
  assumes "sem_reachable opts s"
  shows "distinct (map fst (sm_settled s) @ map qe_seq (sm_queue s)) \<and>
    set (map fst (sm_settled s) @ map qe_seq (sm_queue s)) = {..<sm_seq s} \<and>
    sm_totalAdmitted s = length (sm_releasers s)"
proof -
  let ?ids = "map fst (sm_settled s) @ map qe_seq (sm_queue s)"
  have core: "sem_core s" using sem_reachable_inv [OF assms] by (simp add: sem_inv_def)
  then have dist: "distinct ?ids" and sub: "set ?ids \<subseteq> {..<sm_seq s}"
    and len: "length ?ids = sm_seq s"
    by (auto simp: sem_core_def)
  have "card (set ?ids) = card {..<sm_seq s}"
    using distinct_card [OF dist] len by simp
  with sub have "set ?ids = {..<sm_seq s}" by (intro card_subset_eq) auto
  then show ?thesis using core dist by (simp add: sem_core_def)
qed

theorem semaphore_settles_once_witness:
  "sem_reachable demo_options demo_state \<and>
   set (map fst (sm_settled demo_state) @ map qe_seq (sm_queue demo_state)) = {..<3}"
proof -
  have "sm_seq demo_state = 3" by code_simp
  then show ?thesis
    using semaphore_settles_once [OF demo_reachable] demo_reachable by simp
qed

lemma release_snd:
  "r < length (sm_releasers s) \<Longrightarrow> r < length (sm_releasers (release r s)) \<and>
     snd (sm_releasers (release r s) ! r)"
proof (cases "snd (sm_releasers s ! r)")
  case False
  assume r: "r < length (sm_releasers s)"
  let ?s = "s\<lparr>sm_releasers := (sm_releasers s)[r := (fst (sm_releasers s ! r), True)],
              sm_inFlight := sm_inFlight s - fst (sm_releasers s ! r)\<rparr>"
  obtain rs where "sm_releasers (pump ?s) = sm_releasers ?s @ rs"
    using pump_releasers_prefix [of ?s] by blast
  with False r show ?thesis by (simp add: release_def nth_append)
qed (simp add: release_def)

text \<open>
  A releaser is idempotent (its captured flag), so a caller that releases twice frees
  its weight once; and an index that names no releaser changes nothing.
\<close>

lemma release_idempotent: "release r (release r s) = release r s"
proof (cases "r < length (sm_releasers s)")
  case True
  then show ?thesis using release_snd [OF True] by (simp add: release_def [of r "release r s"])
qed (simp add: release_def)

text \<open>
  Admission on release respects priority and leaves no head-tier waiter that fits: the
  waiters a release admits all had at least the priority of each waiter it leaves behind,
  and afterwards no waiter of the head's priority fits the free capacity.
\<close>

lemma release_admits_by_priority:
  assumes reach: "sem_reachable opts s"
    and r: "r < length (sm_releasers s)" and held: "\<not> snd (sm_releasers s ! r)"
  shows "(\<forall>x \<in> set (settled_by s (release r s)).
            admitted_over (sm_queue s) (sm_queue (release r s)) x) \<and>
    (\<forall>e \<in> set (sm_queue (release r s)).
       qe_priority e = qe_priority (hd (sm_queue (release r s))) \<longrightarrow>
       sm_inFlight (release r s) + qe_weight e > sm_limit (release r s))"
proof -
  let ?s = "s\<lparr>sm_releasers := (sm_releasers s)[r := (fst (sm_releasers s ! r), True)],
              sm_inFlight := sm_inFlight s - fst (sm_releasers s ! r)\<rparr>"
  have rel: "release r s = pump ?s" using r held by (simp add: release_def)
  have "sorted_wrt queue_before (sm_queue ?s)"
    using sem_reachable_inv [OF reach] by (simp add: sem_inv_def sem_core_def)
  then have "pump_fair ?s (pump ?s)" by (rule pump_fair_pump)
  then show ?thesis
    using pump_stops [of ?s] pump_choice_None_iff [of "pump ?s"]
    by (auto simp: rel settled_by_def pump_fair_def)
qed

theorem release_admits_by_priority_witness:
  "settled_by demo_state (release 0 demo_state) = [(1, Resolved 1)] \<and>
   admitted_over (sm_queue demo_state) (sm_queue (release 0 demo_state)) (1, Resolved 1)"
proof -
  have "settled_by demo_state (release 0 demo_state) = [(1, Resolved 1)]"
    "0 < length (sm_releasers demo_state)" "\<not> snd (sm_releasers demo_state ! 0)"
    by code_simp+
  then show ?thesis
    using release_admits_by_priority [OF demo_reachable, of 0] by simp
qed

subsubsection \<open>Draining\<close>

text \<open>Call the first releaser that has not been called; the work left decreases.\<close>

definition release_next :: "sem \<Rightarrow> sem" where
  "release_next s = (case find_index (\<lambda>(w, rel). \<not> rel) (sm_releasers s) of
     None \<Rightarrow> s | Some r \<Rightarrow> release r s)"

definition work_left :: "sem \<Rightarrow> nat" where
  "work_left s = 2 * length (sm_queue s) + held_count (sm_releasers s)"

fun release_times :: "nat \<Rightarrow> sem \<Rightarrow> sem" where
  "release_times 0 s = s"
| "release_times (Suc n) s = release_times n (release_next s)"

lemma work_left_pump: "work_left (pump s) \<le> work_left s"
proof (rule pump_invariant [of "\<lambda>x. work_left x \<le> work_left s"])
  fix x i
  assume le: "work_left x \<le> work_left s" and choice: "pump_choice x = Some i"
  have "i < length (sm_queue x)" using choice by (rule pump_choice_bound)
  then have "Suc (work_left (pump_step i x)) = work_left x"
    by (simp add: work_left_def pump_step_def resolve_entry_def admit_def)
  with le show "work_left (pump_step i x) \<le> work_left s" by simp
qed simp

lemma work_left_release_next:
  "work_left s \<noteq> 0 \<Longrightarrow> sem_inv s \<Longrightarrow> work_left (release_next s) < work_left s"
proof (cases "find_index (\<lambda>(w, rel). \<not> rel) (sm_releasers s)")
  case None
  assume "work_left s \<noteq> 0" "sem_inv s"
  have cnt: "held_count (sm_releasers s) = 0"
    using None by (simp add: held_count_0_iff)
  then have "sm_queue s = []"
    using \<open>sem_inv s\<close> held_count_0_weight by (auto simp: sem_inv_def sem_core_def)
  with cnt show ?thesis using \<open>work_left s \<noteq> 0\<close> by (simp add: work_left_def)
next
  case (Some r)
  then have r: "r < length (sm_releasers s)" "\<not> snd (sm_releasers s ! r)"
    using find_index_Some [OF Some] by (auto split: prod.splits)
  let ?s = "s\<lparr>sm_releasers := (sm_releasers s)[r := (fst (sm_releasers s ! r), True)],
              sm_inFlight := sm_inFlight s - fst (sm_releasers s ! r)\<rparr>"
  have "Suc (work_left ?s) = work_left s"
    using held_count_release [OF r] by (simp add: work_left_def)
  moreover have "work_left (pump ?s) \<le> work_left ?s" by (rule work_left_pump)
  ultimately show ?thesis using Some r by (simp add: release_next_def release_def)
qed

lemma release_next_inv: "sem_inv s \<Longrightarrow> sem_inv (release_next s)"
  by (simp add: release_next_def release_inv split: option.split)

lemma release_next_done: "work_left s = 0 \<Longrightarrow> release_next s = s"
  by (simp add: work_left_def release_next_def held_count_0_iff)

lemma release_times_work: "sem_inv s \<Longrightarrow> work_left s \<le> n \<Longrightarrow> work_left (release_times n s) = 0"
proof (induction n arbitrary: s)
  case (Suc n)
  have "work_left (release_next s) \<le> n"
    using Suc.prems work_left_release_next [of s] release_next_done [of s]
    by (cases "work_left s = 0") auto
  then show ?case using Suc release_next_inv by simp
qed simp

lemma release_times_inv: "sem_inv s \<Longrightarrow> sem_inv (release_times n s)"
  by (induction n arbitrary: s) (auto intro: release_next_inv)



end
