(* ===== verification/Coordinator.thy ===== *)
theory Coordinator
  imports Semaphore
begin

text \<open>
  The concurrency coordinator of \<open>src/concurrency/coordinator.ts\<close>: one weighted semaphore
  per class of remote work and one per outbound host, created on demand and pruned when idle.
  Callers keep references to semaphores across reconfiguration, so semaphores live in a
  store \<open>co_heap\<close> and the pools map names to addresses.
\<close>

subsection \<open>The slot-pool interface and \<open>withSlot\<close>\<close>

text \<open>How the body run inside a slot ends: it returns a value or throws.\<close>

datatype ('e, 'a) outcome = Returned 'a | Thrown 'e

datatype ('e, 'a) slot_run =
    Finished "('e, 'a) outcome"
  | WaitingFor nat
  | NotAdmitted sem_error

text \<open>
  \<open>withSlot\<close> over the operations of a pool: acquire, run the body (any transformer of the
  pool state, since other work interleaves), release in \<open>finally\<close>. A queued acquisition
  waits for its promise; \<open>resume_slot\<close> is the rest of the call once that promise
  resolves with a releaser.
\<close>

definition resume_slot ::
  "(nat \<Rightarrow> 's \<Rightarrow> 's) \<Rightarrow> ('s \<Rightarrow> ('e, 'a) outcome \<times> 's) \<Rightarrow> nat \<Rightarrow> 's \<Rightarrow> ('e, 'a) outcome \<times> 's" where
  "resume_slot rel fn r s = (let (res, s') = fn s in (res, rel r s'))"

definition with_slot ::
  "('o \<Rightarrow> time_ms \<Rightarrow> 's \<Rightarrow> acquire_result \<times> 's) \<Rightarrow> (nat \<Rightarrow> 's \<Rightarrow> 's) \<Rightarrow>
   ('s \<Rightarrow> ('e, 'a) outcome \<times> 's) \<Rightarrow> 'o \<Rightarrow> time_ms \<Rightarrow> 's \<Rightarrow> ('e, 'a) slot_run \<times> 's" where
  "with_slot acq rel fn opts now s =
     (case acq opts now s of
        (Admitted r, s1) \<Rightarrow> (let (res, s2) = resume_slot rel fn r s1 in (Finished res, s2))
      | (Queued n, s1) \<Rightarrow> (WaitingFor n, s1)
      | (Refused e, s1) \<Rightarrow> (NotAdmitted e, s1))"

text \<open>
  What \<open>withSlot\<close> relies on: operations keep the pool's invariant, an admission creates an
  outstanding releaser, outstanding releasers stay known, and calling one settles it.
\<close>

locale slot_pool =
  fixes acq :: "'o \<Rightarrow> time_ms \<Rightarrow> 's \<Rightarrow> acquire_result \<times> 's"
    and rel :: "nat \<Rightarrow> 's \<Rightarrow> 's"
    and known :: "'s \<Rightarrow> nat \<Rightarrow> bool"
    and outstanding :: "'s \<Rightarrow> nat \<Rightarrow> bool"
    and inv :: "'s \<Rightarrow> bool"
  assumes acq_inv: "inv s \<Longrightarrow> inv (snd (acq o' now s))"
    and acq_known: "acq o' now s = (Admitted r, s') \<Longrightarrow> known s' r \<and> outstanding s' r"
    and rel_inv: "inv s \<Longrightarrow> inv (rel r s)"
    and rel_settles: "known s r \<Longrightarrow> \<not> outstanding (rel r s) r"
begin

lemma resume_slot_releases:
  assumes "\<And>x. known x r \<Longrightarrow> known (snd (fn x)) r" and "known s r"
  shows "\<not> outstanding (snd (resume_slot rel fn r s)) r"
  using assms rel_settles by (simp add: resume_slot_def split: prod.split) fastforce

lemma with_slot_inv:
  assumes "\<And>x. inv x \<Longrightarrow> inv (snd (fn x))" and "inv s"
  shows "inv (snd (with_slot acq rel fn o' now s))"
proof (cases "acq o' now s")
  case (Pair res s1)
  have s1: "inv s1" using acq_inv [OF assms(2), of o' now] Pair by simp
  then have "inv (rel r (snd (fn s1)))" for r using assms(1) rel_inv by blast
  with s1 Pair show ?thesis
    by (auto simp: with_slot_def resume_slot_def split: acquire_result.split prod.splits)
qed

lemma with_slot_releases:
  assumes "\<And>x r. known x r \<Longrightarrow> known (snd (fn x)) r"
    and "with_slot acq rel fn o' now s = (Finished res, s')"
  obtains r s1 where "acq o' now s = (Admitted r, s1)" "\<not> outstanding s' r"
    "res = fst (fn s1)" "s' = rel r (snd (fn s1))"
proof -
  obtain r s1 where acq: "acq o' now s = (Admitted r, s1)"
    and rs: "resume_slot rel fn r s1 = (res, s')"
    using assms(2) by (auto simp: with_slot_def split: prod.splits acquire_result.splits)
  have "known s1 r" using acq_known [OF acq] by simp
  then have "\<not> outstanding s' r" using resume_slot_releases [of r fn s1] assms(1) rs by simp
  moreover have "res = fst (fn s1)" "s' = rel r (snd (fn s1))"
    using rs by (auto simp: resume_slot_def split: prod.splits)
  ultimately show thesis using that acq by blast
qed

end

definition sem_known :: "sem \<Rightarrow> nat \<Rightarrow> bool" where
  "sem_known s r \<longleftrightarrow> r < length (sm_releasers s)"

definition sem_outstanding :: "sem \<Rightarrow> nat \<Rightarrow> bool" where
  "sem_outstanding s r \<longleftrightarrow> r < length (sm_releasers s) \<and> \<not> snd (sm_releasers s ! r)"

interpretation sem_pool: slot_pool acquire release sem_known sem_outstanding sem_inv
proof unfold_locales
  show "acquire o' now s = (Admitted r, s') \<Longrightarrow> sem_known s' r \<and> sem_outstanding s' r"
    for o' now s r s'
    by (auto simp: acquire_def Let_def admit_def sem_known_def sem_outstanding_def nth_append
        split: if_splits)
  show "sem_known s r \<Longrightarrow> \<not> sem_outstanding (release r s) r" for s r
    using release_snd [of r s] by (simp add: sem_known_def sem_outstanding_def)
qed (rule acquire_inv release_inv; assumption)+

subsection \<open>Configuration and state\<close>

datatype pool_name =
    BulkScrape | ProgressiveScrape | ProviderStream | OutboundHost | Subtitles
  | Manifest | Health | Debrid | ProxyStream | HlsSegment

fun pool_key :: "pool_name \<Rightarrow> string" where
  "pool_key BulkScrape = ''bulk-scrape''"
| "pool_key ProgressiveScrape = ''progressive-scrape''"
| "pool_key ProviderStream = ''provider-stream''"
| "pool_key OutboundHost = ''outbound-host''"
| "pool_key Subtitles = ''subtitles''"
| "pool_key Manifest = ''manifest''"
| "pool_key Health = ''health''"
| "pool_key Debrid = ''debrid''"
| "pool_key ProxyStream = ''proxy-stream''"
| "pool_key HlsSegment = ''hls-segment''"

record concurrency_cfg =
  cc_bulkScrape :: int
  cc_progressiveScrape :: int
  cc_providerStream :: int
  cc_outboundHost :: int
  cc_subtitles :: int
  cc_manifest :: int
  cc_health :: int
  cc_debrid :: int
  cc_proxyStream :: int
  cc_hlsSegment :: int
  cc_queueMax :: int
  cc_queueTimeoutMs :: int

text \<open>The entries of \<open>POOL_LIMIT_KEYS\<close>, in order, with the limit each reads.\<close>

definition POOL_LIMIT_KEYS :: "concurrency_cfg \<Rightarrow> (pool_name \<times> int) list" where
  "POOL_LIMIT_KEYS cfg =
     [(BulkScrape, cc_bulkScrape cfg), (ProgressiveScrape, cc_progressiveScrape cfg),
      (ProviderStream, cc_providerStream cfg), (Subtitles, cc_subtitles cfg),
      (Manifest, cc_manifest cfg), (Health, cc_health cfg), (Debrid, cc_debrid cfg),
      (ProxyStream, cc_proxyStream cfg), (HlsSegment, cc_hlsSegment cfg)]"

definition MAX_TRACKED_HOSTS :: nat where "MAX_TRACKED_HOSTS = 256"

record coordinator =
  co_heap :: "sem list"
  co_pools :: "(string, nat) jsmap"
  co_hostAccess :: "(string, time_ms) jsmap"
  co_queueMax :: int
  co_queueTimeoutMs :: int
  co_perHostLimit :: int
  co_configured :: bool

text \<open>\<open>new WeightedSemaphore(...)\<close> stored under a key of \<open>pools\<close>.\<close>

definition add_pool :: "string \<Rightarrow> int \<Rightarrow> coordinator \<Rightarrow> coordinator" where
  "add_pool key limit c =
     c\<lparr>co_heap := co_heap c @ [new_semaphore \<lparr>so_name = key, so_limit = of_int limit,
          so_maxQueue = Some (of_int (co_queueMax c)),
          so_queueTimeoutMs = Some (co_queueTimeoutMs c)\<rparr>],
       co_pools := jm_set key (length (co_heap c)) (co_pools c)\<rparr>"

definition is_host_key :: "string \<Rightarrow> bool" where
  "is_host_key key \<longleftrightarrow> starts_with key ''host:''"

definition configure :: "concurrency_cfg \<Rightarrow> coordinator \<Rightarrow> coordinator" where
  "configure cfg c =
     (let c1 = c\<lparr>co_configured := True, co_queueMax := max 0 (cc_queueMax cfg),
                 co_queueTimeoutMs := max 0 (cc_queueTimeoutMs cfg)\<rparr>;
          c2 = fold (\<lambda>(p, l) a. add_pool (pool_key p) (max 1 l) a) (POOL_LIMIT_KEYS cfg) c1;
          hosts = filter is_host_key (jm_keys (co_pools c2))
      in c2\<lparr>co_perHostLimit := max 1 (cc_outboundHost cfg),
            co_pools := fold jm_delete hosts (co_pools c2),
            co_hostAccess := fold jm_delete hosts (co_hostAccess c2)\<rparr>)"

definition new_coordinator :: "concurrency_cfg option \<Rightarrow> coordinator" where
  "new_coordinator cfg =
     (let c = \<lparr>co_heap = [], co_pools = [], co_hostAccess = [],
               co_queueMax = (case cfg of Some g \<Rightarrow> cc_queueMax g | None \<Rightarrow> 200),
               co_queueTimeoutMs = (case cfg of Some g \<Rightarrow> cc_queueTimeoutMs g | None \<Rightarrow> 5000),
               co_perHostLimit = max 1 (case cfg of Some g \<Rightarrow> cc_outboundHost g | None \<Rightarrow> 8),
               co_configured = False\<rparr>
      in case cfg of Some g \<Rightarrow> configure g c | None \<Rightarrow> c)"

fun limitFromDefaults :: "pool_name \<Rightarrow> int" where
  "limitFromDefaults BulkScrape = 8"
| "limitFromDefaults ProgressiveScrape = 16"
| "limitFromDefaults ProviderStream = 4"
| "limitFromDefaults Subtitles = 8"
| "limitFromDefaults Manifest = 6"
| "limitFromDefaults Health = 4"
| "limitFromDefaults Debrid = 6"
| "limitFromDefaults ProxyStream = 32"
| "limitFromDefaults HlsSegment = 64"
| "limitFromDefaults OutboundHost = 4"

text \<open>\<open>pool\<close>: the existing semaphore, or one made from the fallback defaults.\<close>

definition pool :: "pool_name \<Rightarrow> coordinator \<Rightarrow> nat \<times> coordinator" where
  "pool name c =
     (case jm_get (co_pools c) (pool_key name) of
        Some a \<Rightarrow> (a, c)
      | None \<Rightarrow>
          (length (co_heap c),
           add_pool (pool_key name) (if name = OutboundHost then 4 else limitFromDefaults name) c))"

definition sem_idle :: "sem \<Rightarrow> bool" where
  "sem_idle s \<longleftrightarrow> st_inFlight (stats s) = 0 \<and> st_queued (stats s) = 0"

definition prune_key :: "string \<Rightarrow> coordinator \<Rightarrow> coordinator" where
  "prune_key key c =
     (case jm_get (co_pools c) key of
        Some a \<Rightarrow>
          if sem_idle (co_heap c ! a) then
            c\<lparr>co_pools := jm_delete key (co_pools c),
              co_hostAccess := jm_delete key (co_hostAccess c)\<rparr>
          else c
      | None \<Rightarrow> c)"

definition pruneIdleHostPools :: "coordinator \<Rightarrow> coordinator" where
  "pruneIdleHostPools c =
     (let entries = sort_key snd (co_hostAccess c)
      in fold prune_key (map fst (take (MAX_TRACKED_HOSTS div 2) entries)) c)"

definition host_key :: "string \<Rightarrow> string" where
  "host_key hostname = ''host:'' @ to_lower hostname"

definition hostPool :: "string \<Rightarrow> time_ms \<Rightarrow> coordinator \<Rightarrow> nat \<times> coordinator" where
  "hostPool hostname now c =
     (let key = host_key hostname in
      case jm_get (co_pools c) key of
        Some a \<Rightarrow> (a, c\<lparr>co_hostAccess := jm_set key now (co_hostAccess c)\<rparr>)
      | None \<Rightarrow>
          (let c1 = (if length (co_hostAccess c) \<ge> MAX_TRACKED_HOSTS
                     then pruneIdleHostPools c else c);
               c2 = add_pool key (co_perHostLimit c1) c1
           in (length (co_heap c1), c2\<lparr>co_hostAccess := jm_set key now (co_hostAccess c2)\<rparr>)))"

text \<open>An operation on the semaphore at an address.\<close>

definition on_sem :: "nat \<Rightarrow> (sem \<Rightarrow> 'a \<times> sem) \<Rightarrow> coordinator \<Rightarrow> 'a \<times> coordinator" where
  "on_sem a f c = (let (x, s) = f (co_heap c ! a) in (x, c\<lparr>co_heap := (co_heap c)[a := s]\<rparr>))"

definition pool_with_slot ::
  "pool_name \<Rightarrow> (sem \<Rightarrow> ('e, 'a) outcome \<times> sem) \<Rightarrow> acquire_options \<Rightarrow> time_ms \<Rightarrow> coordinator \<Rightarrow>
   ('e, 'a) slot_run \<times> coordinator" where
  "pool_with_slot name fn opts now c =
     (let (a, c1) = pool name c in on_sem a (with_slot acquire release fn opts now) c1)"

definition withHostSlot ::
  "string \<Rightarrow> (sem \<Rightarrow> ('e, 'a) outcome \<times> sem) \<Rightarrow> acquire_options \<Rightarrow> time_ms \<Rightarrow> coordinator \<Rightarrow>
   ('e, 'a) slot_run \<times> coordinator" where
  "withHostSlot hostname fn opts now c =
     (let (a, c1) = hostPool hostname now c in on_sem a (with_slot acquire release fn opts now) c1)"

fun abort_addresses :: "nat list \<Rightarrow> coordinator \<Rightarrow> nat \<times> coordinator" where
  "abort_addresses [] c = (0, c)"
| "abort_addresses (a # as) c =
     (let (n, c1) = on_sem a abortQueued c; (m, c2) = abort_addresses as c1 in (n + m, c2))"

definition abortAllQueued :: "coordinator \<Rightarrow> nat \<times> coordinator" where
  "abortAllQueued c = abort_addresses (map snd (co_pools c)) c"

definition snapshot :: "coordinator \<Rightarrow> (string \<times> sem_stats) list" where
  "snapshot c = map (\<lambda>(k, a). (k, stats (co_heap c ! a))) (co_pools c)"

subsection \<open>Invariant\<close>

text \<open>
  Keys are unique, every pool has an allocated semaphore of its own in good order, and each
  tracked host is a pool under a host key.
\<close>

definition co_inv :: "coordinator \<Rightarrow> bool" where
  "co_inv c \<longleftrightarrow> jm_ok (co_pools c) \<and> jm_ok (co_hostAccess c) \<and>
     (\<forall>k a. jm_get (co_pools c) k = Some a \<longrightarrow> a < length (co_heap c)) \<and>
     (\<forall>k k' a. jm_get (co_pools c) k = Some a \<longrightarrow> jm_get (co_pools c) k' = Some a \<longrightarrow> k = k') \<and>
     (\<forall>s \<in> set (co_heap c). sem_inv s) \<and>
     (\<forall>k t. jm_get (co_hostAccess c) k = Some t \<longrightarrow> jm_has (co_pools c) k \<and> is_host_key k)"

lemma co_invI:
  assumes "jm_ok (co_pools c)" "jm_ok (co_hostAccess c)"
    and "\<And>k a. jm_get (co_pools c) k = Some a \<Longrightarrow> a < length (co_heap c)"
    and "\<And>k k' a. jm_get (co_pools c) k = Some a \<Longrightarrow> jm_get (co_pools c) k' = Some a \<Longrightarrow> k = k'"
    and "\<And>s. s \<in> set (co_heap c) \<Longrightarrow> sem_inv s"
    and "\<And>k t. jm_get (co_hostAccess c) k = Some t \<Longrightarrow> jm_has (co_pools c) k \<and> is_host_key k"
  shows "co_inv c"
  using assms unfolding co_inv_def by blast

lemma co_invD:
  assumes "co_inv c"
  shows "jm_ok (co_pools c)" "jm_ok (co_hostAccess c)"
    "jm_get (co_pools c) k = Some a \<Longrightarrow> a < length (co_heap c)"
    "jm_get (co_pools c) k = Some a \<Longrightarrow> jm_get (co_pools c) k' = Some a \<Longrightarrow> k = k'"
    "s \<in> set (co_heap c) \<Longrightarrow> sem_inv s"
    "jm_get (co_hostAccess c) k = Some t \<Longrightarrow> jm_has (co_pools c) k \<and> is_host_key k"
  using assms unfolding co_inv_def by blast+

lemma add_pool_inv: "co_inv c \<Longrightarrow> co_inv (add_pool key l c)"
proof -
  assume inv: "co_inv c"
  note D = co_invD [OF inv]
  show ?thesis
  proof (rule co_invI)
    show "k = k'" if "jm_get (co_pools (add_pool key l c)) k = Some a"
      "jm_get (co_pools (add_pool key l c)) k' = Some a" for k k' a
      using that D(3) D(4) by (fastforce simp: add_pool_def split: if_splits)
    show "a < length (co_heap (add_pool key l c))"
      if "jm_get (co_pools (add_pool key l c)) k = Some a" for k a
      using that D(3) by (fastforce simp: add_pool_def split: if_splits)
    show "sem_inv s" if "s \<in> set (co_heap (add_pool key l c))" for s
      using that D(5) new_semaphore_inv by (auto simp: add_pool_def)
    show "jm_has (co_pools (add_pool key l c)) k \<and> is_host_key k"
      if "jm_get (co_hostAccess (add_pool key l c)) k = Some t" for k t
      using that D(6) by (auto simp: add_pool_def jm_has_def)
  qed (use D(1,2) in \<open>simp_all add: add_pool_def\<close>)
qed

lemma add_pool_get: "k \<noteq> key \<Longrightarrow> jm_get (co_pools (add_pool key l c)) k = jm_get (co_pools c) k"
  by (simp add: add_pool_def)

lemma add_pool_heap: "a < length (co_heap c) \<Longrightarrow> co_heap (add_pool key l c) ! a = co_heap c ! a"
  by (simp add: add_pool_def nth_append)

lemma fold_add_pool_inv: "co_inv c \<Longrightarrow> co_inv (fold (\<lambda>(p, l) a. add_pool (pool_key p) (max 1 l) a) ps c)"
  by (induction ps arbitrary: c) (auto intro: add_pool_inv)

lemma co_inv_settings [simp]:
  "co_inv (c\<lparr>co_queueMax := a\<rparr>) = co_inv c" "co_inv (c\<lparr>co_queueTimeoutMs := b\<rparr>) = co_inv c"
  "co_inv (c\<lparr>co_perHostLimit := p\<rparr>) = co_inv c" "co_inv (c\<lparr>co_configured := d\<rparr>) = co_inv c"
  by (simp_all add: co_inv_def)

lemma fold_jm_delete_get:
  "jm_get (fold jm_delete ks m) k = (if k \<in> set ks then None else jm_get m k)"
  by (induction ks arbitrary: m) auto

lemma fold_jm_delete_ok: "jm_ok m \<Longrightarrow> jm_ok (fold jm_delete ks m)"
  by (induction ks arbitrary: m) auto

lemma drop_hosts_inv:
  "co_inv c \<Longrightarrow> co_inv (c\<lparr>co_pools := fold jm_delete hosts (co_pools c),
     co_hostAccess := fold jm_delete hosts (co_hostAccess c)\<rparr>)"
  unfolding co_inv_def by (auto simp: fold_jm_delete_get fold_jm_delete_ok jm_has_def)

lemma configure_inv: "co_inv c \<Longrightarrow> co_inv (configure cfg c)"
proof -
  assume "co_inv c"
  then have "co_inv (fold (\<lambda>(p, l) a. add_pool (pool_key p) (max 1 l) a) (POOL_LIMIT_KEYS cfg)
      (c\<lparr>co_configured := True, co_queueMax := max 0 (cc_queueMax cfg),
         co_queueTimeoutMs := max 0 (cc_queueTimeoutMs cfg)\<rparr>))"
    by (intro fold_add_pool_inv) simp
  from drop_hosts_inv [OF this]
  have "co_inv ((configure cfg c)\<lparr>co_perHostLimit := 0\<rparr>)"
    by (simp add: configure_def Let_def co_inv_def)
  then show ?thesis by simp
qed

lemma new_coordinator_inv: "co_inv (new_coordinator cfg)"
proof -
  have "co_inv \<lparr>co_heap = [], co_pools = [], co_hostAccess = [], co_queueMax = a,
      co_queueTimeoutMs = b, co_perHostLimit = d, co_configured = False\<rparr>" for a b d
    by (simp add: co_inv_def)
  then show ?thesis
    by (auto simp: new_coordinator_def intro: configure_inv split: option.split)
qed

lemma pool_inv: "co_inv c \<Longrightarrow> co_inv (snd (pool name c))"
  by (auto simp: pool_def intro: add_pool_inv split: option.split)

subsection \<open>Pruning keeps busy pools\<close>

text \<open>\<open>pruned c c'\<close>: the same semaphores, fewer pools, and each pool gone was idle.\<close>

definition pruned :: "coordinator \<Rightarrow> coordinator \<Rightarrow> bool" where
  "pruned c c' \<longleftrightarrow> co_heap c' = co_heap c \<and>
     (\<forall>k. jm_get (co_pools c') k = jm_get (co_pools c) k \<or>
       (jm_get (co_pools c') k = None \<and>
        (\<exists>a. jm_get (co_pools c) k = Some a \<and> sem_idle (co_heap c ! a))))"

lemma prune_key_pruned: "pruned c0 c \<Longrightarrow> pruned c0 (prune_key key c)"
  unfolding pruned_def prune_key_def by (auto split: option.splits) metis+

lemma prune_key_inv: "co_inv c \<Longrightarrow> co_inv (prune_key key c)"
  unfolding co_inv_def prune_key_def by (auto simp: jm_has_def split: option.splits)

lemma fold_prune: "pruned c0 c \<Longrightarrow> co_inv c \<Longrightarrow>
    pruned c0 (fold prune_key ks c) \<and> co_inv (fold prune_key ks c)"
  by (induction ks arbitrary: c) (simp_all add: prune_key_pruned prune_key_inv)

lemma pruneIdleHostPools_pruned:
  "co_inv c \<Longrightarrow> pruned c (pruneIdleHostPools c) \<and> co_inv (pruneIdleHostPools c)"
  unfolding pruneIdleHostPools_def Let_def by (rule fold_prune) (simp_all add: pruned_def)

lemma host_key_is_host [simp]: "is_host_key (host_key h)"
  by (simp add: is_host_key_def host_key_def starts_with_def)

lemma touch_inv:
  "co_inv c \<Longrightarrow> jm_has (co_pools c) k \<Longrightarrow> is_host_key k \<Longrightarrow>
     co_inv (c\<lparr>co_hostAccess := jm_set k now (co_hostAccess c)\<rparr>)"
  unfolding co_inv_def by simp

lemma hostPool_inv: "co_inv c \<Longrightarrow> co_inv (snd (hostPool h now c))"
proof -
  assume inv: "co_inv c"
  show ?thesis
  proof (cases "jm_get (co_pools c) (host_key h)")
    case None
    define c1 where "c1 = (if length (co_hostAccess c) \<ge> MAX_TRACKED_HOSTS
      then pruneIdleHostPools c else c)"
    have "co_inv (add_pool (host_key h) (co_perHostLimit c1) c1)"
      using inv pruneIdleHostPools_pruned [OF inv] by (auto simp: c1_def intro: add_pool_inv)
    then have "co_inv ((add_pool (host_key h) (co_perHostLimit c1) c1)\<lparr>co_hostAccess :=
        jm_set (host_key h) now (co_hostAccess (add_pool (host_key h) (co_perHostLimit c1) c1))\<rparr>)"
      by (rule touch_inv) (simp_all add: add_pool_def jm_has_def)
    with None show ?thesis by (simp add: hostPool_def Let_def c1_def)
  next
    case (Some a)
    then show ?thesis
      using touch_inv [OF inv, of "host_key h"] by (simp add: hostPool_def jm_has_def)
  qed
qed

lemma snd_on_sem [simp]:
  "snd (on_sem a f c) = c\<lparr>co_heap := (co_heap c)[a := snd (f (co_heap c ! a))]\<rparr>"
  by (simp add: on_sem_def split: prod.split)

lemma set_heap_inv:
  assumes inv: "co_inv c" and s: "sem_inv s"
  shows "co_inv (c\<lparr>co_heap := (co_heap c)[a := s]\<rparr>)"
proof -
  have "sem_inv x" if "x \<in> set ((co_heap c)[a := s])" for x
    using that set_update_subset_insert [of "co_heap c" a s] co_invD(5) [OF inv] s by blast
  then show ?thesis using inv by (simp add: co_inv_def)
qed

lemma on_sem_inv:
  assumes inv: "co_inv c" and f: "\<And>s. sem_inv s \<Longrightarrow> sem_inv (snd (f s))"
  shows "co_inv (snd (on_sem a f c))"
proof (cases "a < length (co_heap c)")
  case True
  then have "sem_inv (snd (f (co_heap c ! a)))"
    using co_invD(5) [OF inv] f by simp
  then show ?thesis using set_heap_inv [OF inv] by simp
next
  case False
  then show ?thesis using inv by (simp add: list_update_beyond)
qed

lemma abort_addresses_inv: "co_inv c \<Longrightarrow> co_inv (snd (abort_addresses as c))"
proof (induction "as" arbitrary: c)
  case (Cons a "as")
  have "co_inv (snd (on_sem a abortQueued c))"
    using Cons.prems by (rule on_sem_inv) (rule abortQueued_inv)
  then show ?case using Cons.IH [of "snd (on_sem a abortQueued c)"]
    by (simp add: Let_def case_prod_unfold)
qed simp

subsection \<open>Reachable coordinators\<close>

inductive co_step :: "coordinator \<Rightarrow> coordinator \<Rightarrow> bool" where
  co_configure: "co_step c (configure cfg c)"
| co_pool: "co_step c (snd (pool name c))"
| co_hostPool: "co_step c (snd (hostPool h now c))"
| co_sem: "sem_step (co_heap c ! a) s' \<Longrightarrow> a < length (co_heap c) \<Longrightarrow>
    co_step c (c\<lparr>co_heap := (co_heap c)[a := s']\<rparr>)"
| co_abortAll: "co_step c (snd (abortAllQueued c))"

inductive co_reachable :: "coordinator \<Rightarrow> bool" where
  co_new: "co_reachable (new_coordinator cfg)"
| co_next: "co_reachable c \<Longrightarrow> co_step c c' \<Longrightarrow> co_reachable c'"

lemma co_step_inv: "co_step c c' \<Longrightarrow> co_inv c \<Longrightarrow> co_inv c'"
proof (induction rule: co_step.induct)
  case (co_sem c a s')
  then have "sem_inv s'" using co_invD(5) [OF co_sem.prems] by (auto intro: sem_step_inv)
  then show ?case using co_sem.prems by (intro set_heap_inv)
qed (auto simp: abortAllQueued_def intro: configure_inv pool_inv hostPool_inv abort_addresses_inv)

lemma co_reachable_inv: "co_reachable c \<Longrightarrow> co_inv c"
  by (induction rule: co_reachable.induct) (auto intro: new_coordinator_inv co_step_inv)

subsection \<open>Properties\<close>

text \<open>
  Every pool of a reachable coordinator keeps its own capacity bound: each name maps to
  an allocated semaphore, no two names share one, every semaphore is within its limit and
  queue cap, and every tracked host is still a pool.
\<close>

lemma coordinator_pools_bounded:
  assumes "co_reachable c" and "jm_get (co_pools c) k = Some a"
  shows "a < length (co_heap c) \<and> sm_inFlight (co_heap c ! a) \<le> sm_limit (co_heap c ! a) \<and>
    int (length (sm_queue (co_heap c ! a))) \<le> sm_maxQueue (co_heap c ! a) \<and>
    {k'. jm_get (co_pools c) k' = Some a} = {k} \<and>
    fst ` set (co_hostAccess c) \<subseteq> fst ` set (co_pools c)"
proof -
  note D = co_invD [OF co_reachable_inv [OF assms(1)]]
  have a: "a < length (co_heap c)" using D(3) assms(2) .
  then have "sem_inv (co_heap c ! a)" using D(5) by simp
  moreover have "fst ` set (co_hostAccess c) \<subseteq> fst ` set (co_pools c)"
    using D(6) by (metis jm_has_def map_of_eq_None_iff not_Some_eq subsetI)
  ultimately show ?thesis
    using a assms(2) D(4) by (auto simp: sem_inv_def sem_core_def)
qed

definition demo_cfg :: concurrency_cfg where
  "demo_cfg = \<lparr>cc_bulkScrape = 8, cc_progressiveScrape = 16, cc_providerStream = 4,
     cc_outboundHost = 8, cc_subtitles = 8, cc_manifest = 6, cc_health = 4, cc_debrid = 6,
     cc_proxyStream = 32, cc_hlsSegment = 64, cc_queueMax = 200, cc_queueTimeoutMs = 5000\<rparr>"

theorem coordinator_pools_bounded_witness:
  "co_reachable (new_coordinator (Some demo_cfg)) \<and>
   jm_get (co_pools (new_coordinator (Some demo_cfg))) ''debrid'' = Some 6 \<and>
   {k'. jm_get (co_pools (new_coordinator (Some demo_cfg))) k' = Some 6} = {''debrid''}"
proof -
  have "jm_get (co_pools (new_coordinator (Some demo_cfg))) ''debrid'' = Some 6" by code_simp
  then show ?thesis using coordinator_pools_bounded [OF co_new] co_new by blast
qed

text \<open>
  Creating a host pool never takes a busy pool away: a pool with work in flight or
  queued stays mapped to the same semaphore, unchanged, whatever is pruned for the newcomer.
\<close>

lemma hostPool_keeps_busy:
  assumes "co_reachable c" and "jm_get (co_pools c) k = Some a"
    and "\<not> sem_idle (co_heap c ! a)"
  shows "jm_get (co_pools (snd (hostPool h now c))) k = Some a \<and>
    co_heap (snd (hostPool h now c)) ! a = co_heap c ! a"
proof (cases "jm_get (co_pools c) (host_key h)")
  case None
  have inv: "co_inv c" using assms(1) by (rule co_reachable_inv)
  define c1 where "c1 = (if length (co_hostAccess c) \<ge> MAX_TRACKED_HOSTS
    then pruneIdleHostPools c else c)"
  have "pruned c c1"
    using pruneIdleHostPools_pruned [OF inv] by (simp add: c1_def pruned_def)
  then have c1: "jm_get (co_pools c1) k = Some a \<and> co_heap c1 = co_heap c"
    using assms(2,3) unfolding pruned_def by (metis option.inject)
  moreover have "k \<noteq> host_key h" using None assms(2) by auto
  moreover have "a < length (co_heap c)" using co_invD(3) [OF inv] assms(2) .
  ultimately show ?thesis
    using None by (simp add: hostPool_def Let_def c1_def [symmetric] add_pool_get add_pool_heap)
qed (use assms in \<open>simp add: hostPool_def\<close>)

definition demo_hosts :: coordinator where
  "demo_hosts = snd (on_sem 0 (acquire default_acquire 3)
     (snd (hostPool ''CDN.example'' 3 (new_coordinator None))))"

lemma demo_hosts_reachable: "co_reachable demo_hosts"
proof -
  let ?c = "snd (hostPool ''CDN.example'' 3 (new_coordinator None))"
  have "length (co_heap ?c) = 1" by code_simp
  moreover have "sem_step (co_heap ?c ! 0) (snd (acquire default_acquire 3 (co_heap ?c ! 0)))"
    by (rule step_acquire [OF prod.collapse [symmetric]])
  moreover have "co_reachable ?c" by (intro co_next [OF _ co_hostPool] co_new)
  ultimately have "co_reachable (?c\<lparr>co_heap := (co_heap ?c)[0 :=
      snd (acquire default_acquire 3 (co_heap ?c ! 0))]\<rparr>)"
    by (intro co_next [OF _ co_sem]) simp_all
  then show ?thesis by (simp add: demo_hosts_def)
qed

theorem hostPool_keeps_busy_witness:
  "jm_get (co_pools demo_hosts) ''host:cdn.example'' = Some 0 \<and> \<not> sem_idle (co_heap demo_hosts ! 0) \<and>
   jm_get (co_pools (snd (hostPool ''api.example'' 9 demo_hosts))) ''host:cdn.example'' = Some 0"
proof -
  have "jm_get (co_pools demo_hosts) ''host:cdn.example'' = Some 0"
    "\<not> sem_idle (co_heap demo_hosts ! 0)"
    by code_simp+
  then show ?thesis using hostPool_keeps_busy [OF demo_hosts_reachable] by blast
qed

text \<open>
  Work on one class cannot starve another: running a body in a slot of one named pool
  leaves every other pool mapped to the same semaphore with its state unchanged.
\<close>

lemma pools_isolated:
  assumes "co_reachable c" and "jm_get (co_pools c) k = Some b" and "k \<noteq> pool_key name"
  shows "jm_get (co_pools (snd (pool_with_slot name fn opts now c))) k = Some b \<and>
    co_heap (snd (pool_with_slot name fn opts now c)) ! b = co_heap c ! b"
proof -
  obtain a c1 where p: "pool name c = (a, c1)" by (cases "pool name c")
  have inv: "co_inv c" and inv1: "co_inv c1"
    using co_reachable_inv [OF assms(1)] pool_inv [of c name] p by simp_all
  have b: "b < length (co_heap c)" using co_invD(3) [OF inv] assms(2) .
  have k: "jm_get (co_pools c1) k = Some b" and a: "jm_get (co_pools c1) (pool_key name) = Some a"
    and hb: "co_heap c1 ! b = co_heap c ! b"
    using p assms(2,3) b
    by (auto simp: pool_def add_pool_get add_pool_heap split: option.splits)
       (simp_all add: add_pool_def)
  have "a \<noteq> b" using co_invD(4) [OF inv1 k] a assms(3) by blast
  then show ?thesis
    using p k hb by (simp add: pool_with_slot_def)
qed

theorem pools_isolated_witness:
  "jm_get (co_pools (new_coordinator (Some demo_cfg))) ''health'' = Some 5 \<and>
   co_heap (snd (pool_with_slot BulkScrape (\<lambda>s. (Returned () :: (string, unit) outcome, s)) default_acquire 0
     (new_coordinator (Some demo_cfg)))) ! 5 = co_heap (new_coordinator (Some demo_cfg)) ! 5"
proof -
  have h: "jm_get (co_pools (new_coordinator (Some demo_cfg))) ''health'' = Some 5" by code_simp
  then show ?thesis
    using pools_isolated [OF co_new h, of BulkScrape "\<lambda>s. (Returned () :: (string, unit) outcome, s)"] by simp
qed

text \<open>
  \<open>withSlot\<close> always gives its weight back: when the acquisition is admitted, the
  releaser it got has been called once the call is finished, whether the body returned or
  threw, and the result is the body's own.
\<close>

lemma withSlot_releases:
  assumes "\<And>x r. sem_known x r \<Longrightarrow> sem_known (snd (fn x)) r"
    and "with_slot acquire release fn opts now s = (Finished res, s')"
  shows "\<exists>r s1. acquire opts now s = (Admitted r, s1) \<and> \<not> sem_outstanding s' r \<and>
    res = fst (fn s1) \<and> s' = release r (snd (fn s1))"
  using sem_pool.with_slot_releases [OF assms] by metis

theorem withSlot_releases_witness:
  "\<exists>r s1. acquire default_acquire 0 (new_semaphore demo_options) = (Admitted r, s1) \<and>
     \<not> sem_outstanding (snd (with_slot acquire release (\<lambda>s. (Thrown ''boom'' :: (string, unit) outcome, s))
         default_acquire 0 (new_semaphore demo_options))) r"
proof -
  let ?w = "with_slot acquire release (\<lambda>s. (Thrown ''boom'' :: (string, unit) outcome, s))
    default_acquire 0 (new_semaphore demo_options)"
  have "fst ?w = Finished (Thrown ''boom'')" by code_simp
  then have "?w = (Finished (Thrown ''boom''), snd ?w)" by (metis prod.collapse)
  then show ?thesis
    using withSlot_releases [of "\<lambda>s. (Thrown ''boom'', s)" default_acquire 0 "new_semaphore demo_options"]
    by fastforce
qed

end
