(* ===== verification/Reliability.thy ===== *)
theory Reliability
  imports Coordinator
begin

text \<open>
  The provider reliability registry of \<open>src/reliability/circuit.ts\<close>: circuit breakers with
  a single half-open trial, negative cache, metrics, quarantine, the FIFO concurrency gates
  and the retry helper. Every operation that reads \<open>Date.now()\<close> takes \<open>now\<close>.
\<close>

subsection \<open>Data\<close>

datatype failure_kind =
    KTimeout | KDns | KTransport | KHttp4xx | KHttp5xx | KMalformed | KNoStream
  | KNoCompatibleId | KDebridUnavailable | KUnknown

fun kind_name :: "failure_kind \<Rightarrow> string" where
  "kind_name KTimeout = ''timeout''"
| "kind_name KDns = ''dns''"
| "kind_name KTransport = ''transport''"
| "kind_name KHttp4xx = ''http_4xx''"
| "kind_name KHttp5xx = ''http_5xx''"
| "kind_name KMalformed = ''malformed''"
| "kind_name KNoStream = ''no_stream''"
| "kind_name KNoCompatibleId = ''no_compatible_id''"
| "kind_name KDebridUnavailable = ''debrid_unavailable''"
| "kind_name KUnknown = ''unknown''"

datatype circuit_state = Closed | Open | HalfOpen

record circuit_record =
  cr_state :: circuit_state
  cr_failures :: nat
  cr_successes :: nat
  cr_openedAt :: "time_ms option"
  cr_lastFailureKind :: "failure_kind option"
  cr_lastFailureAt :: "time_ms option"

record provider_metrics =
  pm_attempts :: nat
  pm_successes :: nat
  pm_failures :: nat
  pm_noResult :: nat
  pm_latencySum :: int
  pm_lastLatency :: "int option"

record quarantine_record =
  qr_providerId :: string
  qr_reason :: string
  qr_since :: time_ms
  qr_opensInWindow :: nat
  qr_until :: "time_ms option"

record reliability_options =
  ro_failureThreshold :: "nat option"
  ro_openTtlMs :: "int option"
  ro_halfOpenSuccessThreshold :: "nat option"
  ro_concurrencyLimit :: "int option"
  ro_negativeTtlMs :: "int option"

record quarantine_options =
  qo_enabled :: "bool option"
  qo_openThreshold :: "nat option"
  qo_windowMs :: "int option"
  qo_ttlMs :: "int option"

text \<open>
  One FIFO gate: the running count, the current limit and the waiting promises, each a token
  with whether an abort listener was installed.
\<close>

record fifo_gate =
  fg_count :: int
  fg_limit :: int
  fg_queue :: "(nat \<times> bool) list"

record registry =
  rg_circuits :: "(string, circuit_record) jsmap"
  rg_semaphores :: "(string, fifo_gate) jsmap"
  rg_negative :: "(string, time_ms) jsmap"
  rg_metrics :: "(string, provider_metrics) jsmap"
  rg_failureThreshold :: nat
  rg_openTtlMs :: int
  rg_halfOpenSuccessThreshold :: nat
  rg_concurrencyLimit :: int
  rg_negativeTtlMs :: int
  rg_halfOpenInFlight :: "string set"
  rg_qEnabled :: bool
  rg_qOpenThreshold :: nat
  rg_qWindowMs :: int
  rg_qTtlMs :: int
  rg_quarantines :: "(string, quarantine_record) jsmap"
  rg_circuitOpens :: "(string, time_ms list) jsmap"

definition new_registry :: "reliability_options \<Rightarrow> quarantine_options \<Rightarrow> registry" where
  "new_registry opts q =
     \<lparr>rg_circuits = [], rg_semaphores = [], rg_negative = [], rg_metrics = [],
      rg_failureThreshold = or_else (ro_failureThreshold opts) 5,
      rg_openTtlMs = or_else (ro_openTtlMs opts) 30000,
      rg_halfOpenSuccessThreshold = or_else (ro_halfOpenSuccessThreshold opts) 1,
      rg_concurrencyLimit = or_else (ro_concurrencyLimit opts) 4,
      rg_negativeTtlMs = or_else (ro_negativeTtlMs opts) 30000,
      rg_halfOpenInFlight = {},
      rg_qEnabled = or_else (qo_enabled q) False,
      rg_qOpenThreshold = or_else (qo_openThreshold q) 5,
      rg_qWindowMs = or_else (qo_windowMs q) 3600000,
      rg_qTtlMs = or_else (qo_ttlMs q) 21600000,
      rg_quarantines = [], rg_circuitOpens = []\<rparr>"

definition configureQuarantine :: "quarantine_options \<Rightarrow> registry \<Rightarrow> registry" where
  "configureQuarantine q r =
     r\<lparr>rg_qEnabled := or_else (qo_enabled q) (rg_qEnabled r),
       rg_qOpenThreshold := or_else (qo_openThreshold q) (rg_qOpenThreshold r),
       rg_qWindowMs := or_else (qo_windowMs q) (rg_qWindowMs r),
       rg_qTtlMs := or_else (qo_ttlMs q) (rg_qTtlMs r)\<rparr>"

definition configureConcurrency :: "rat \<Rightarrow> registry \<Rightarrow> registry" where
  "configureConcurrency n r = (if n > 0 then r\<lparr>rg_concurrencyLimit := \<lfloor>n\<rfloor>\<rparr> else r)"

subsection \<open>Circuits\<close>

definition empty_circuit :: circuit_record where
  "empty_circuit = \<lparr>cr_state = Closed, cr_failures = 0, cr_successes = 0, cr_openedAt = None,
     cr_lastFailureKind = None, cr_lastFailureAt = None\<rparr>"

definition empty_metrics :: provider_metrics where
  "empty_metrics = \<lparr>pm_attempts = 0, pm_successes = 0, pm_failures = 0, pm_noResult = 0,
     pm_latencySum = 0, pm_lastLatency = None\<rparr>"

text \<open>\<open>ensureCircuit\<close> and \<open>ensureMetrics\<close>: the record a provider has or gets.\<close>

definition circuit_of :: "registry \<Rightarrow> string \<Rightarrow> circuit_record" where
  "circuit_of r p = (case jm_get (rg_circuits r) p of Some c \<Rightarrow> c | None \<Rightarrow> empty_circuit)"

definition metrics_of :: "registry \<Rightarrow> string \<Rightarrow> provider_metrics" where
  "metrics_of r p = (case jm_get (rg_metrics r) p of Some m \<Rightarrow> m | None \<Rightarrow> empty_metrics)"

definition put_circuit :: "string \<Rightarrow> circuit_record \<Rightarrow> registry \<Rightarrow> registry" where
  "put_circuit p c r = r\<lparr>rg_circuits := jm_set p c (rg_circuits r)\<rparr>"

definition put_metrics :: "string \<Rightarrow> provider_metrics \<Rightarrow> registry \<Rightarrow> registry" where
  "put_metrics p m r = r\<lparr>rg_metrics := jm_set p m (rg_metrics r)\<rparr>"

definition getState :: "string \<Rightarrow> time_ms \<Rightarrow> registry \<Rightarrow> circuit_state \<times> registry" where
  "getState p now r =
     (case jm_get (rg_circuits r) p of
        None \<Rightarrow> (Closed, r)
      | Some rec \<Rightarrow>
          if cr_state rec = Open \<and> now - or_else (cr_openedAt rec) 0 > rg_openTtlMs r
          then (HalfOpen, put_circuit p (rec\<lparr>cr_state := HalfOpen\<rparr>) r)
          else (cr_state rec, r))"

definition isProbeAllowed :: "string \<Rightarrow> time_ms \<Rightarrow> registry \<Rightarrow> bool \<times> registry" where
  "isProbeAllowed p now r =
     (let (st, r1) = getState p now r in
      case st of
        Closed \<Rightarrow> (True, r1)
      | Open \<Rightarrow> (False, r1)
      | HalfOpen \<Rightarrow>
          if p \<in> rg_halfOpenInFlight r1 then (False, r1)
          else (True, r1\<lparr>rg_halfOpenInFlight := insert p (rg_halfOpenInFlight r1)\<rparr>))"

definition releaseHalfOpen :: "string \<Rightarrow> registry \<Rightarrow> registry" where
  "releaseHalfOpen p r = r\<lparr>rg_halfOpenInFlight := rg_halfOpenInFlight r - {p}\<rparr>"

definition recordSuccess :: "string \<Rightarrow> int \<Rightarrow> registry \<Rightarrow> registry" where
  "recordSuccess p latency r =
     (let rec = (circuit_of r p)\<lparr>cr_successes := Suc (cr_successes (circuit_of r p)),
                                 cr_lastFailureKind := None\<rparr>;
          m = metrics_of r p;
          m' = m\<lparr>pm_attempts := Suc (pm_attempts m), pm_successes := Suc (pm_successes m),
                 pm_latencySum := pm_latencySum m + latency, pm_lastLatency := Some latency\<rparr>;
          r1 = put_metrics p m' r
      in if cr_state rec = HalfOpen \<and> cr_successes rec \<ge> rg_halfOpenSuccessThreshold r then
           releaseHalfOpen p
             (put_circuit p (rec\<lparr>cr_state := Closed, cr_failures := 0, cr_successes := 0\<rparr>) r1)
         else if cr_state rec = Closed then
           put_circuit p (rec\<lparr>cr_failures := cr_failures rec - 1\<rparr>) r1
         else put_circuit p rec r1)"

subsection \<open>Quarantine\<close>

definition isQuarantined :: "string \<Rightarrow> time_ms \<Rightarrow> registry \<Rightarrow> bool \<times> registry" where
  "isQuarantined p now r =
     (case jm_get (rg_quarantines r) p of
        None \<Rightarrow> (False, r)
      | Some q \<Rightarrow>
          (case qr_until q of
             Some u \<Rightarrow>
               if now > u then
                 (False, r\<lparr>rg_quarantines := jm_delete p (rg_quarantines r),
                           rg_circuitOpens := jm_delete p (rg_circuitOpens r)\<rparr>)
               else (True, r)
           | None \<Rightarrow> (True, r)))"

definition opens_of :: "registry \<Rightarrow> string \<Rightarrow> time_ms list" where
  "opens_of r p = or_else (jm_get (rg_circuitOpens r) p) []"

definition quarantine :: "string \<Rightarrow> string \<Rightarrow> int option \<Rightarrow> time_ms \<Rightarrow> registry \<Rightarrow> registry" where
  "quarantine p reason ttlOpt now r =
     (let ttl = or_else ttlOpt (rg_qTtlMs r) in
      r\<lparr>rg_quarantines := jm_set p
          \<lparr>qr_providerId = p, qr_reason = reason, qr_since = now,
           qr_opensInWindow = length (opens_of r p),
           qr_until = (if ttl > 0 then Some (now + ttl) else None)\<rparr> (rg_quarantines r)\<rparr>)"

definition releaseQuarantine :: "string \<Rightarrow> registry \<Rightarrow> bool \<times> registry" where
  "releaseQuarantine p r =
     (jm_has (rg_quarantines r) p,
      r\<lparr>rg_circuitOpens := jm_delete p (rg_circuitOpens r),
        rg_quarantines := jm_delete p (rg_quarantines r)\<rparr>)"

definition getQuarantine :: "string \<Rightarrow> time_ms \<Rightarrow> registry \<Rightarrow> quarantine_record option \<times> registry" where
  "getQuarantine p now r =
     (let (b, r1) = isQuarantined p now r in
      (if b then jm_get (rg_quarantines r1) p else None, r1))"

definition listQuarantined :: "time_ms \<Rightarrow> registry \<Rightarrow> quarantine_record list \<times> registry" where
  "listQuarantined now r =
     (let r1 = fold (\<lambda>p a. snd (isQuarantined p now a)) (jm_keys (rg_quarantines r)) r
      in (map snd (rg_quarantines r1), r1))"

definition quarantine_reason :: "nat \<Rightarrow> int \<Rightarrow> string" where
  "quarantine_reason opens windowMs =
     ''circuit opened '' @ show_nat opens @ '' times in '' @
       show_int (round_div windowMs 60000) @ ''m window''"

definition noteCircuitOpened :: "string \<Rightarrow> time_ms \<Rightarrow> registry \<Rightarrow> registry" where
  "noteCircuitOpened p now r =
     (if \<not> rg_qEnabled r then r
      else
        (let opens = filter (\<lambda>t. now - t < rg_qWindowMs r) (opens_of r p) @ [now];
             r1 = r\<lparr>rg_circuitOpens := jm_set p opens (rg_circuitOpens r)\<rparr>
         in if length opens \<ge> rg_qOpenThreshold r then
              (let (b, r2) = isQuarantined p now r1 in
               if b then r2
               else quarantine p (quarantine_reason (length opens) (rg_qWindowMs r)) None now r2)
            else r1))"

definition negative_key :: "string \<Rightarrow> failure_kind \<Rightarrow> string" where
  "negative_key p k = p @ '':'' @ kind_name k"

definition is_no_result :: "failure_kind \<Rightarrow> bool" where
  "is_no_result k \<longleftrightarrow> k = KNoStream \<or> k = KNoCompatibleId"

definition opened :: "time_ms \<Rightarrow> circuit_record \<Rightarrow> circuit_record" where
  "opened now c = c\<lparr>cr_state := Open, cr_openedAt := Some now\<rparr>"

text \<open>The metrics part of \<open>recordFailure\<close>, the no-result count included.\<close>

definition failure_metrics :: "failure_kind \<Rightarrow> int option \<Rightarrow> provider_metrics \<Rightarrow> provider_metrics" where
  "failure_metrics k latency m =
     (let m1 = m\<lparr>pm_attempts := Suc (pm_attempts m), pm_failures := Suc (pm_failures m)\<rparr>;
          m2 = (case latency of
                  Some l \<Rightarrow> m1\<lparr>pm_latencySum := pm_latencySum m1 + l, pm_lastLatency := Some l\<rparr>
                | None \<Rightarrow> m1)
      in if is_no_result k then m2\<lparr>pm_noResult := Suc (pm_noResult m2)\<rparr> else m2)"

definition recordFailure ::
  "string \<Rightarrow> failure_kind \<Rightarrow> int option \<Rightarrow> time_ms \<Rightarrow> registry \<Rightarrow> registry" where
  "recordFailure p k latency now r =
     (let rec = (circuit_of r p)\<lparr>cr_failures := Suc (cr_failures (circuit_of r p)),
                   cr_successes := 0, cr_lastFailureKind := Some k, cr_lastFailureAt := Some now\<rparr>;
          r1 = put_circuit p rec (put_metrics p (failure_metrics k latency (metrics_of r p)) r);
          wasHalfOpen = (cr_state rec = HalfOpen);
          reopen = noteCircuitOpened p now
            (releaseHalfOpen p (put_circuit p (opened now rec) r1))
      in if is_no_result k then
           (let exp = now + rg_negativeTtlMs r;
                r2 = r1\<lparr>rg_negative := jm_set (negative_key p k) exp (rg_negative r1)\<rparr>
            in if wasHalfOpen then
                 noteCircuitOpened p now
                   (releaseHalfOpen p (put_circuit p (opened now rec) r2))
               else r2)
         else if cr_failures rec \<ge> rg_failureThreshold r \<and> cr_state rec = Closed then
           noteCircuitOpened p now (put_circuit p (opened now rec) r1)
         else if wasHalfOpen then reopen
         else r1)"

definition hasNegative :: "string \<Rightarrow> failure_kind \<Rightarrow> time_ms \<Rightarrow> registry \<Rightarrow> bool \<times> registry" where
  "hasNegative p k now r =
     (case jm_get (rg_negative r) (negative_key p k) of
        None \<Rightarrow> (False, r)
      | Some e \<Rightarrow>
          if now > e then (False, r\<lparr>rg_negative := jm_delete (negative_key p k) (rg_negative r)\<rparr>)
          else (True, r))"

subsection \<open>Error classification\<close>

text \<open>What \<open>classifyError\<close> reads of a thrown object; \<open>None\<close> for anything else.\<close>

record js_error =
  je_name :: "string option"
  je_code :: "string option"
  je_message :: "string option"
  je_status :: "int option"

definition classifyError :: "js_error option \<Rightarrow> failure_kind" where
  "classifyError err =
     (case err of
        None \<Rightarrow> KUnknown
      | Some e \<Rightarrow>
          (let errName = or_else (je_name e) '''';
               msg = (case je_message e of Some m \<Rightarrow> to_lower m | None \<Rightarrow> '''')
           in if errName = ''TimeoutError'' \<or> je_code e = Some ''TIMEOUT'' then KTimeout
              else if str_includes msg ''timed out'' \<or> str_includes msg ''timeout'' then KTimeout
              else if str_includes msg ''dns'' \<or> str_includes msg ''enotfound'' \<or>
                      str_includes msg ''eai_again'' then KDns
              else if str_includes msg ''http 4'' \<or> je_status e = Some 404 \<or>
                      je_status e = Some 401 then KHttp4xx
              else if str_includes msg ''http 5'' \<or> str_includes msg ''50'' then KHttp5xx
              else if str_includes msg ''malformed'' \<or> str_includes msg ''json'' then KMalformed
              else if str_includes msg ''debrid'' then KDebridUnavailable
              else if str_includes msg ''no stream'' \<or> str_includes msg ''no compatible''
                then KNoStream
              else KTransport))"

definition isRetryable :: "failure_kind \<Rightarrow> bool" where
  "isRetryable k \<longleftrightarrow> k = KTimeout \<or> k = KTransport \<or> k = KHttp5xx \<or> k = KDns"

subsection \<open>Concurrency gates\<close>

datatype gate_result = GateEntered | GateWaiting | GateAborted

text \<open>\<open>acquireSemaphore\<close>; \<open>signal\<close> is absent, or present and possibly already aborted.\<close>

definition acquireSemaphore ::
  "string \<Rightarrow> int \<Rightarrow> bool option \<Rightarrow> nat \<Rightarrow> registry \<Rightarrow> gate_result \<times> registry" where
  "acquireSemaphore key limit signal tok r =
     (let g = (case jm_get (rg_semaphores r) key of
                 Some g \<Rightarrow> g\<lparr>fg_limit := limit\<rparr>
               | None \<Rightarrow> \<lparr>fg_count = 0, fg_limit = limit, fg_queue = []\<rparr>);
          put = (\<lambda>g. r\<lparr>rg_semaphores := jm_set key g (rg_semaphores r)\<rparr>)
      in if fg_count g < fg_limit g then (GateEntered, put (g\<lparr>fg_count := fg_count g + 1\<rparr>))
         else if signal = Some True then (GateAborted, put g)
         else (GateWaiting, put (g\<lparr>fg_queue := fg_queue g @ [(tok, signal \<noteq> None)]\<rparr>)))"

text \<open>\<open>releaseSemaphore\<close>; the token of the promise it resolved, if any.\<close>

definition releaseSemaphore :: "string \<Rightarrow> registry \<Rightarrow> nat option \<times> registry" where
  "releaseSemaphore key r =
     (case jm_get (rg_semaphores r) key of
        None \<Rightarrow> (None, r)
      | Some g \<Rightarrow>
          (let g1 = g\<lparr>fg_count := max 0 (fg_count g - 1)\<rparr> in
           case fg_queue g1 of
             [] \<Rightarrow> (None, r\<lparr>rg_semaphores := jm_set key g1 (rg_semaphores r)\<rparr>)
           | (tok, _) # q \<Rightarrow>
               (Some tok, r\<lparr>rg_semaphores := jm_set key
                  (g1\<lparr>fg_queue := q, fg_count := fg_count g1 + 1\<rparr>) (rg_semaphores r)\<rparr>)))"

text \<open>The abort listener of a waiting promise: leave the queue and reject.\<close>

definition abortWaiting :: "string \<Rightarrow> nat \<Rightarrow> registry \<Rightarrow> registry" where
  "abortWaiting key tok r =
     (case jm_get (rg_semaphores r) key of
        None \<Rightarrow> r
      | Some g \<Rightarrow>
          (case find_index (\<lambda>(t, l). t = tok \<and> l) (fg_queue g) of
             None \<Rightarrow> r
           | Some i \<Rightarrow> r\<lparr>rg_semaphores :=
               jm_set key (g\<lparr>fg_queue := remove_at i (fg_queue g)\<rparr>) (rg_semaphores r)\<rparr>))"

definition host_gate :: "string \<Rightarrow> string" where
  "host_gate h = ''host:'' @ h"

datatype acquire_phase = SlotGranted | WaitingProvider | WaitingHost | SlotAborted

text \<open>
  The stages of \<open>acquire\<close>: the host stage runs once the provider gate is entered; when it
  fails the provider slot is given back. An empty host string is falsy.
\<close>

definition acquire_host_stage ::
  "string \<Rightarrow> string option \<Rightarrow> bool option \<Rightarrow> nat \<Rightarrow> registry \<Rightarrow> acquire_phase \<times> registry" where
  "acquire_host_stage p host signal tok r =
     (case host of
        None \<Rightarrow> (SlotGranted, r)
      | Some h \<Rightarrow>
          if h = [] then (SlotGranted, r)
          else (case acquireSemaphore (host_gate h) (rg_concurrencyLimit r * 2) signal tok r of
                  (GateEntered, r1) \<Rightarrow> (SlotGranted, r1)
                | (GateWaiting, r1) \<Rightarrow> (WaitingHost, r1)
                | (GateAborted, r1) \<Rightarrow> (SlotAborted, snd (releaseSemaphore p r1))))"

definition acquire_slot ::
  "string \<Rightarrow> string option \<Rightarrow> bool option \<Rightarrow> nat \<Rightarrow> registry \<Rightarrow> acquire_phase \<times> registry" where
  "acquire_slot p host signal tok r =
     (if signal = Some True then (SlotAborted, r)
      else (case acquireSemaphore p (rg_concurrencyLimit r) signal tok r of
              (GateEntered, r1) \<Rightarrow> acquire_host_stage p host signal tok r1
            | (GateWaiting, r1) \<Rightarrow> (WaitingProvider, r1)
            | (GateAborted, r1) \<Rightarrow> (SlotAborted, r1)))"

text \<open>The release closure: the first call frees both gates, later calls do nothing.\<close>

definition release_slot :: "bool \<Rightarrow> string \<Rightarrow> string option \<Rightarrow> registry \<Rightarrow> nat option list \<times> registry" where
  "release_slot released p host r =
     (if released then ([], r)
      else (let (a, r1) = releaseSemaphore p r in
            case host of
              None \<Rightarrow> ([a], r1)
            | Some h \<Rightarrow>
                if h = [] then ([a], r1)
                else (let (b, r2) = releaseSemaphore (host_gate h) r1 in ([a, b], r2))))"

subsection \<open>Retry\<close>

datatype 'a retry_result = RetryValue 'a | RetryThrow "js_error option" | RetryAborted

text \<open>
  \<open>withRetry\<close>: \<open>fn n\<close> is the outcome of attempt \<open>n\<close>; \<open>ab n\<close> says whether the
  caller's signal was aborted when the attempt starts, after it failed, and during its
  backoff. The result comes with the delays slept. \<open>k\<close> attempts remain.
\<close>

record abort_view =
  av_before :: bool
  av_after :: bool
  av_sleep :: bool

fun retry_loop ::
  "(nat \<Rightarrow> 'a + js_error option) \<Rightarrow> (nat \<Rightarrow> abort_view) \<Rightarrow> int \<Rightarrow> (nat \<Rightarrow> int) \<Rightarrow> nat \<Rightarrow> nat \<Rightarrow>
   js_error option \<Rightarrow> 'a retry_result \<times> int list" where
  "retry_loop fn ab base jitter 0 n lastErr = (RetryThrow lastErr, [])"
| "retry_loop fn ab base jitter (Suc k) n lastErr =
     (if av_before (ab n) then (RetryAborted, [])
      else (case fn n of
              Inl v \<Rightarrow> (RetryValue v, [])
            | Inr err \<Rightarrow>
                if av_after (ab n) then (RetryThrow err, [])
                else if k = 0 \<or> \<not> isRetryable (classifyError err) then (RetryThrow err, [])
                else (let delay = base * 2 ^ n + jitter n in
                      if av_sleep (ab n) then (RetryAborted, [delay])
                      else (let (res, ds) = retry_loop fn ab base jitter k (Suc n) err
                            in (res, delay # ds)))))"

definition withRetry ::
  "(nat \<Rightarrow> 'a + js_error option) \<Rightarrow> (nat \<Rightarrow> abort_view) \<Rightarrow> nat option \<Rightarrow> int option \<Rightarrow> (nat \<Rightarrow> int) \<Rightarrow>
   'a retry_result \<times> int list" where
  "withRetry fn ab maxAttempts baseMs jitter =
     (if av_before (ab 0) then (RetryAborted, [])
      else retry_loop fn ab (or_else baseMs 200) jitter (or_else maxAttempts 3) 0 None)"

subsection \<open>Metrics and snapshot\<close>

record metrics_view =
  mv_attempts :: nat
  mv_successes :: nat
  mv_failures :: nat
  mv_noResult :: nat
  mv_avgLatency :: "int option"

definition getMetrics :: "string \<Rightarrow> registry \<Rightarrow> metrics_view" where
  "getMetrics p r =
     (case jm_get (rg_metrics r) p of
        None \<Rightarrow> \<lparr>mv_attempts = 0, mv_successes = 0, mv_failures = 0, mv_noResult = 0,
                 mv_avgLatency = None\<rparr>
      | Some m \<Rightarrow>
          \<lparr>mv_attempts = pm_attempts m, mv_successes = pm_successes m,
           mv_failures = pm_failures m, mv_noResult = pm_noResult m,
           mv_avgLatency = (if pm_attempts m \<noteq> 0
             then Some (round_div (pm_latencySum m) (int (pm_attempts m))) else None)\<rparr>)"

type_synonym snapshot_entry = "circuit_state \<times> metrics_view \<times> quarantine_record option"

definition snapshot_metrics ::
  "time_ms \<Rightarrow> string \<Rightarrow> (string, snapshot_entry) jsmap \<times> registry \<Rightarrow>
   (string, snapshot_entry) jsmap \<times> registry" where
  "snapshot_metrics now p acc =
     (let (q, r1) = getQuarantine p now (snd acc);
          (st, r2) = getState p now r1
      in (jm_set p (st, getMetrics p r2, q) (fst acc), r2))"

definition snapshot_circuits ::
  "time_ms \<Rightarrow> string \<Rightarrow> (string, snapshot_entry) jsmap \<times> registry \<Rightarrow>
   (string, snapshot_entry) jsmap \<times> registry" where
  "snapshot_circuits now p acc =
     (if jm_has (fst acc) p then acc
      else (let (q, r1) = getQuarantine p now (snd acc)
            in (jm_set p (cr_state (circuit_of r1 p), getMetrics p r1, q) (fst acc), r1)))"

definition registry_snapshot :: "time_ms \<Rightarrow> registry \<Rightarrow> (string, snapshot_entry) jsmap \<times> registry" where
  "registry_snapshot now r =
     (let acc = fold (snapshot_metrics now) (jm_keys (rg_metrics r)) ([], r)
      in fold (snapshot_circuits now) (jm_keys (rg_circuits (snd acc))) acc)"

subsection \<open>Frame facts\<close>

named_theorems rel_defs \<open>definitions of the registry's small updates\<close>

lemmas [rel_defs] = put_circuit_def put_metrics_def circuit_of_def opened_def releaseHalfOpen_def

lemma circuit_of_put [simp]: "circuit_of (put_circuit p c r) q = (if q = p then c else circuit_of r q)"
  by (simp add: rel_defs)

lemma circuit_of_put_metrics [simp]: "circuit_of (put_metrics p m r) q = circuit_of r q"
  by (simp add: rel_defs)

lemma circuit_of_release [simp]: "circuit_of (releaseHalfOpen p r) q = circuit_of r q"
  by (simp add: rel_defs)

lemma circuit_of_negative [simp]: "circuit_of (r\<lparr>rg_negative := x\<rparr>) q = circuit_of r q"
  by (simp add: rel_defs)

lemma isQuarantined_frame [simp]:
  "rg_circuits (snd (isQuarantined p now r)) = rg_circuits r"
  "rg_halfOpenInFlight (snd (isQuarantined p now r)) = rg_halfOpenInFlight r"
  by (simp_all add: isQuarantined_def split: option.split)

lemma noteCircuitOpened_frame [simp]:
  "rg_circuits (noteCircuitOpened p now r) = rg_circuits r"
  "rg_halfOpenInFlight (noteCircuitOpened p now r) = rg_halfOpenInFlight r"
  "rg_failureThreshold (noteCircuitOpened p now r) = rg_failureThreshold r"
  "rg_openTtlMs (noteCircuitOpened p now r) = rg_openTtlMs r"
  by (simp_all add: noteCircuitOpened_def quarantine_def isQuarantined_def Let_def
      split: option.split prod.split)

lemma circuit_of_note [simp]: "circuit_of (noteCircuitOpened p now r) q = circuit_of r q"
  by (simp add: circuit_of_def)

lemma recordFailure_threshold [simp]:
  "rg_failureThreshold (recordFailure p k l now r) = rg_failureThreshold r"
  by (simp add: recordFailure_def Let_def rel_defs)

text \<open>The circuit of the failing provider after \<open>recordFailure\<close>.\<close>

definition failed_circuit :: "nat \<Rightarrow> failure_kind \<Rightarrow> time_ms \<Rightarrow> circuit_record \<Rightarrow> circuit_record" where
  "failed_circuit thr k now c =
     (let c1 = c\<lparr>cr_failures := Suc (cr_failures c), cr_successes := 0,
                 cr_lastFailureKind := Some k, cr_lastFailureAt := Some now\<rparr>
      in if cr_state c = HalfOpen \<or>
            (cr_state c = Closed \<and> \<not> is_no_result k \<and> cr_failures c1 \<ge> thr)
         then opened now c1 else c1)"

lemma circuit_of_recordFailure:
  "circuit_of (recordFailure p k l now r) q =
     (if q = p then failed_circuit (rg_failureThreshold r) k now (circuit_of r p)
      else circuit_of r q)"
  by (auto simp: recordFailure_def failed_circuit_def Let_def)

definition succeeded_circuit :: "nat \<Rightarrow> circuit_record \<Rightarrow> circuit_record" where
  "succeeded_circuit thr c =
     (let c1 = c\<lparr>cr_successes := Suc (cr_successes c), cr_lastFailureKind := None\<rparr>
      in if cr_state c = HalfOpen \<and> cr_successes c1 \<ge> thr
         then c1\<lparr>cr_state := Closed, cr_failures := 0, cr_successes := 0\<rparr>
         else if cr_state c = Closed then c1\<lparr>cr_failures := cr_failures c - 1\<rparr> else c1)"

lemma circuit_of_recordSuccess:
  "circuit_of (recordSuccess p l r) q =
     (if q = p then succeeded_circuit (rg_halfOpenSuccessThreshold r) (circuit_of r p)
      else circuit_of r q)"
  by (auto simp: recordSuccess_def succeeded_circuit_def Let_def)

definition aged_circuit :: "int \<Rightarrow> time_ms \<Rightarrow> circuit_record \<Rightarrow> circuit_record" where
  "aged_circuit ttl now c =
     (if cr_state c = Open \<and> now - or_else (cr_openedAt c) 0 > ttl
      then c\<lparr>cr_state := HalfOpen\<rparr> else c)"

lemma circuit_of_getState:
  "circuit_of (snd (getState p now r)) q =
     (if q = p then aged_circuit (rg_openTtlMs r) now (circuit_of r p) else circuit_of r q)"
  by (auto simp: getState_def aged_circuit_def circuit_of_def empty_circuit_def put_circuit_def
      split: option.split)

lemma getState_result: "fst (getState p now r) = cr_state (circuit_of (snd (getState p now r)) p)"
  by (auto simp: getState_def circuit_of_def empty_circuit_def put_circuit_def split: option.split)

lemma getState_frame [simp]:
  "rg_halfOpenInFlight (snd (getState p now r)) = rg_halfOpenInFlight r"
  "rg_openTtlMs (snd (getState p now r)) = rg_openTtlMs r"
  by (simp_all add: getState_def put_circuit_def split: option.split)

lemma circuit_of_isProbeAllowed:
  "circuit_of (snd (isProbeAllowed p now r)) q = circuit_of (snd (getState p now r)) q"
  by (simp add: isProbeAllowed_def Let_def circuit_of_def split: prod.split circuit_state.split)

lemma isProbeAllowed_eq:
  "isProbeAllowed p now r =
     (let r1 = snd (getState p now r); st = cr_state (circuit_of r1 p) in
      (st = Closed \<or> (st = HalfOpen \<and> p \<notin> rg_halfOpenInFlight r),
       if st = HalfOpen \<and> p \<notin> rg_halfOpenInFlight r
       then r1\<lparr>rg_halfOpenInFlight := insert p (rg_halfOpenInFlight r)\<rparr> else r1))"
  using getState_result [of p now r] getState_frame(1) [of p now r]
  by (cases "getState p now r"; cases "fst (getState p now r)")
     (simp_all add: isProbeAllowed_def Let_def)

subsection \<open>Properties\<close>

text \<open>The registry's circuit events, and the state a list of failures leads to.\<close>

datatype circuit_event =
    EvState | EvProbe | EvSuccess int | EvFailure failure_kind "int option"

fun circuit_event_step :: "string \<Rightarrow> circuit_event \<Rightarrow> time_ms \<Rightarrow> registry \<Rightarrow> registry" where
  "circuit_event_step p EvState now r = snd (getState p now r)"
| "circuit_event_step p EvProbe now r = snd (isProbeAllowed p now r)"
| "circuit_event_step p (EvSuccess l) now r = recordSuccess p l r"
| "circuit_event_step p (EvFailure k l) now r = recordFailure p k l now r"

text \<open>The edges of the documented state machine, with what each requires.\<close>

inductive circuit_edge ::
  "registry \<Rightarrow> circuit_event \<Rightarrow> time_ms \<Rightarrow> circuit_record \<Rightarrow> circuit_state \<Rightarrow> bool" for r where
  edge_stay: "circuit_edge r ev now c (cr_state c)"
| edge_open: "cr_state c = Closed \<Longrightarrow> \<not> is_no_result k \<Longrightarrow>
    rg_failureThreshold r \<le> Suc (cr_failures c) \<Longrightarrow> circuit_edge r (EvFailure k l) now c Open"
| edge_half: "cr_state c = Open \<Longrightarrow> ev = EvState \<or> ev = EvProbe \<Longrightarrow>
    now - or_else (cr_openedAt c) 0 > rg_openTtlMs r \<Longrightarrow> circuit_edge r ev now c HalfOpen"
| edge_close: "cr_state c = HalfOpen \<Longrightarrow> rg_halfOpenSuccessThreshold r \<le> Suc (cr_successes c) \<Longrightarrow>
    circuit_edge r (EvSuccess l) now c Closed"
| edge_reopen: "cr_state c = HalfOpen \<Longrightarrow> circuit_edge r (EvFailure k l) now c Open"

inductive_simps circuit_edge_success: "circuit_edge r (EvSuccess l) now c st"
inductive_simps circuit_edge_failure: "circuit_edge r (EvFailure k l) now c st"
inductive_simps circuit_edge_state: "circuit_edge r EvState now c st"
inductive_simps circuit_edge_probe: "circuit_edge r EvProbe now c st"

lemmas circuit_edge_simps =
  circuit_edge_success circuit_edge_failure circuit_edge_state circuit_edge_probe

text \<open>
  C12. The circuit is the documented state machine: an event of a provider leaves its state
  alone or takes one of four edges (closed to open on a failure that reaches the threshold
  and is not a no-result; open to half-open once the open time has elapsed; half-open to
  closed on enough successes; half-open to open on any failure), and never touches another
  provider's circuit.
\<close>

theorem circuit_edges:
  "circuit_edge r ev now (circuit_of r p) (cr_state (circuit_of (circuit_event_step p ev now r) p)) \<and>
   (q = p \<or> circuit_of (circuit_event_step p ev now r) q = circuit_of r q)"
proof (cases ev)
  case (EvSuccess l)
  then show ?thesis
    by (auto simp: circuit_edge_simps circuit_of_recordSuccess succeeded_circuit_def Let_def)
next
  case (EvFailure k l)
  then show ?thesis
    by (auto simp: circuit_edge_simps circuit_of_recordFailure failed_circuit_def opened_def Let_def)
qed (auto simp: circuit_edge_simps circuit_of_isProbeAllowed circuit_of_getState aged_circuit_def)

fun fail_all :: "string \<Rightarrow> (failure_kind \<times> time_ms) list \<Rightarrow> registry \<Rightarrow> registry" where
  "fail_all p [] r = r"
| "fail_all p ((k, t) # fs) r = fail_all p fs (recordFailure p k None t r)"

lemma fail_all_open:
  "cr_state (circuit_of r p) = Open \<Longrightarrow> cr_state (circuit_of (fail_all p fs r) p) = Open"
  by (induction p fs r rule: fail_all.induct)
     (simp_all add: circuit_of_recordFailure failed_circuit_def Let_def)

definition opens_at :: "nat \<Rightarrow> (failure_kind \<times> time_ms) list \<Rightarrow> nat \<Rightarrow> bool" where
  "opens_at need fs i \<longleftrightarrow> i < length fs \<and> need \<le> Suc i \<and> \<not> is_no_result (fst (fs ! i))"

lemma opens_at_Cons:
  "(\<exists>i. opens_at need (f # fs) i) \<longleftrightarrow>
     (need \<le> 1 \<and> \<not> is_no_result (fst f)) \<or> (\<exists>i. opens_at (need - 1) fs i)"
proof
  assume "\<exists>i. opens_at need (f # fs) i"
  then obtain i where "opens_at need (f # fs) i" by blast
  then show "(need \<le> 1 \<and> \<not> is_no_result (fst f)) \<or> (\<exists>i. opens_at (need - 1) fs i)"
    by (cases i) (auto simp: opens_at_def)
next
  assume "(need \<le> 1 \<and> \<not> is_no_result (fst f)) \<or> (\<exists>i. opens_at (need - 1) fs i)"
  then show "\<exists>i. opens_at need (f # fs) i"
  proof
    assume "need \<le> 1 \<and> \<not> is_no_result (fst f)"
    then have "opens_at need (f # fs) 0" by (simp add: opens_at_def)
    then show ?thesis ..
  next
    assume "\<exists>i. opens_at (need - 1) fs i"
    then obtain i where "opens_at (need - 1) fs i" ..
    then have "opens_at need (f # fs) (Suc i)" by (auto simp: opens_at_def)
    then show ?thesis ..
  qed
qed

lemma fail_all_closed:
  "cr_state (circuit_of r p) = Closed \<Longrightarrow>
   cr_state (circuit_of (fail_all p fs r) p) =
     (if \<exists>i. opens_at (rg_failureThreshold r - cr_failures (circuit_of r p)) fs i then Open else Closed)"
proof (induction p fs r rule: fail_all.induct)
  case (1 p r)
  then show ?case by (simp add: opens_at_def)
next
  case (2 p k t fs r)
  let ?r = "recordFailure p k None t r" and ?need = "rg_failureThreshold r - cr_failures (circuit_of r p)"
  show ?case
  proof (cases "?need \<le> 1 \<and> \<not> is_no_result k")
    case True
    then have "cr_state (circuit_of ?r p) = Open"
      using "2.prems" by (auto simp: circuit_of_recordFailure failed_circuit_def opened_def Let_def)
    then show ?thesis using True fail_all_open [of ?r p fs] by (simp add: opens_at_Cons)
  next
    case False
    then have "cr_state (circuit_of ?r p) = Closed"
      and "rg_failureThreshold ?r - cr_failures (circuit_of ?r p) = ?need - 1"
      using "2.prems" by (auto simp: circuit_of_recordFailure failed_circuit_def opened_def Let_def)
    then show ?thesis using "2.IH" False by (simp add: opens_at_Cons)
  qed
qed

text \<open>
  When a circuit opens: for a provider without a record, a run of failures leaves the
  circuit open exactly when some failure that is not a no-result is at or past the threshold
  position. No-results do not open the circuit themselves, but each counts as a failure.
\<close>

lemma failure_threshold_opens:
  assumes "jm_get (rg_circuits r) p = None"
  shows "cr_state (circuit_of (fail_all p fs r) p) =
    (if \<exists>i < length fs. rg_failureThreshold r \<le> Suc i \<and> \<not> is_no_result (fst (fs ! i))
     then Open else Closed)"
  using fail_all_closed [of r p fs] assms
  by (simp add: circuit_of_def empty_circuit_def opens_at_def)

definition demo_registry :: registry where
  "demo_registry = new_registry
     \<lparr>ro_failureThreshold = Some 3, ro_openTtlMs = Some 100, ro_halfOpenSuccessThreshold = None,
      ro_concurrencyLimit = None, ro_negativeTtlMs = None\<rparr>
     \<lparr>qo_enabled = Some True, qo_openThreshold = Some 2, qo_windowMs = None, qo_ttlMs = None\<rparr>"

lemma demo_registry_get [simp]:
  "jm_get (rg_circuits demo_registry) p = None" "rg_failureThreshold demo_registry = 3"
  "rg_halfOpenInFlight demo_registry = {}" "rg_openTtlMs demo_registry = 100"
  by (simp_all add: demo_registry_def new_registry_def)

theorem failure_threshold_opens_witness:
  "cr_state (circuit_of (fail_all ''a'' [(KNoStream, 1), (KNoStream, 2), (KTimeout, 3)] demo_registry) ''a'')
     = Open"
  using failure_threshold_opens [of demo_registry "''a''" "[(KNoStream, 1), (KNoStream, 2), (KTimeout, 3)]"]
  by (auto simp: is_no_result_def intro: exI [of _ 2])

text \<open>Asking for a probe at each of several times.\<close>

fun probes :: "string \<Rightarrow> time_ms list \<Rightarrow> registry \<Rightarrow> bool list \<times> registry" where
  "probes p [] r = ([], r)"
| "probes p (t # ts) r =
     (let (b, r1) = isProbeAllowed p t r; (bs, r2) = probes p ts r1 in (b # bs, r2))"

lemma fst_probes_Cons [simp]:
  "fst (probes p (t # ts) r) =
     fst (isProbeAllowed p t r) # fst (probes p ts (snd (isProbeAllowed p t r)))"
  by (simp add: Let_def case_prod_unfold)

lemma probes_taken:
  "cr_state (circuit_of r p) = HalfOpen \<Longrightarrow> p \<in> rg_halfOpenInFlight r \<Longrightarrow>
     fst (probes p ts r) = replicate (length ts) False"
proof (induction ts arbitrary: r)
  case (Cons t ts)
  have st: "circuit_of (snd (getState p t r)) p = circuit_of r p"
    using Cons.prems by (simp add: circuit_of_getState aged_circuit_def)
  have "isProbeAllowed p t r = (False, snd (getState p t r))"
    using Cons.prems st by (simp add: isProbeAllowed_eq Let_def)
  with Cons.IH Cons.prems st show ?case by (simp del: probes.simps)
qed simp

text \<open>
  An open circuit fails fast and then lets a single trial through: probes within the
  open time are all refused; once it has elapsed the first probe is allowed and every later
  one is refused while that trial is outstanding.
\<close>

lemma half_open_single_trial:
  assumes "cr_state (circuit_of r p) = Open" and "cr_openedAt (circuit_of r p) = Some t0"
    and "p \<notin> rg_halfOpenInFlight r"
    and "\<forall>t \<in> set early. t \<le> t0 + rg_openTtlMs r" and "t0 + rg_openTtlMs r < t"
  shows "fst (probes p (early @ t # late) r) =
    replicate (length early) False @ True # replicate (length late) False"
  using assms
proof (induction early arbitrary: r)
  case Nil
  let ?r = "snd (isProbeAllowed p t r)"
  have st: "cr_state (circuit_of (snd (getState p t r)) p) = HalfOpen"
    using Nil.prems by (simp add: circuit_of_getState aged_circuit_def)
  then have ok: "fst (isProbeAllowed p t r)" "p \<in> rg_halfOpenInFlight ?r"
    "cr_state (circuit_of ?r p) = HalfOpen"
    using Nil.prems by (simp_all add: isProbeAllowed_eq Let_def circuit_of_def)
  then show ?case using probes_taken [of ?r p late] by (simp del: probes.simps)
next
  case (Cons e early)
  have st: "circuit_of (snd (getState p e r)) p = circuit_of r p"
    using Cons.prems by (auto simp: circuit_of_getState aged_circuit_def)
  then have "isProbeAllowed p e r = (False, snd (getState p e r))"
    using Cons.prems by (simp add: isProbeAllowed_eq Let_def)
  with Cons.IH [of "snd (getState p e r)"] Cons.prems st show ?case
    by (simp del: probes.simps)
qed

definition demo_open :: registry where
  "demo_open = fail_all ''a'' [(KTimeout, 1), (KDns, 2), (KTimeout, 3)] demo_registry"

lemma demo_open_facts:
  "cr_state (circuit_of demo_open ''a'') = Open" "cr_openedAt (circuit_of demo_open ''a'') = Some 3"
  "rg_openTtlMs demo_open = 100" "''a'' \<notin> rg_halfOpenInFlight demo_open"
  by code_simp+

theorem half_open_single_trial_witness:
  "fst (probes ''a'' [50, 103, 104, 200] demo_open) = [False, False, True, False]"
  using half_open_single_trial [OF demo_open_facts(1,2,4), of "[50, 103]" 104 "[200]"]
  by (simp add: demo_open_facts)

text \<open>
  The trial slot is freed only by a recorded outcome. A half-open provider whose trial
  was granted but ended without \<open>recordSuccess\<close> or \<open>recordFailure\<close> (the callers
  record nothing when the request was aborted) refuses every later probe, however much time
  passes.
\<close>

lemma half_open_trial_stuck:
  assumes "cr_state (circuit_of r p) = HalfOpen" and "p \<in> rg_halfOpenInFlight r"
  shows "True \<notin> set (fst (probes p ts r))"
  using probes_taken [OF assms] by simp

theorem half_open_trial_stuck_witness:
  "cr_state (circuit_of (snd (isProbeAllowed ''a'' 104 demo_open)) ''a'') = HalfOpen \<and>
   True \<notin> set (fst (probes ''a'' [1000000, 2000000000] (snd (isProbeAllowed ''a'' 104 demo_open))))"
proof -
  have "cr_state (circuit_of (snd (isProbeAllowed ''a'' 104 demo_open)) ''a'') = HalfOpen"
    "''a'' \<in> rg_halfOpenInFlight (snd (isProbeAllowed ''a'' 104 demo_open))"
    by code_simp+
  then show ?thesis using half_open_trial_stuck by blast
qed

subsubsection \<open>Concurrency gates\<close>

datatype gate_event = GateAcquire "bool option" nat | GateRelease | GateAbort nat

fun gate_event_step :: "string \<Rightarrow> int \<Rightarrow> gate_event \<Rightarrow> registry \<Rightarrow> registry" where
  "gate_event_step key L (GateAcquire sig tok) r = snd (acquireSemaphore key L sig tok r)"
| "gate_event_step key L GateRelease r = snd (releaseSemaphore key r)"
| "gate_event_step key L (GateAbort tok) r = abortWaiting key tok r"

definition gate_ok :: "int \<Rightarrow> fifo_gate \<Rightarrow> bool" where
  "gate_ok L g \<longleftrightarrow> fg_limit g = L \<and> 0 \<le> fg_count g \<and> fg_count g \<le> L \<and>
     (fg_queue g \<noteq> [] \<longrightarrow> fg_count g = L)"

definition gates_ok :: "string \<Rightarrow> int \<Rightarrow> registry \<Rightarrow> bool" where
  "gates_ok key L r \<longleftrightarrow> (\<forall>g. jm_get (rg_semaphores r) key = Some g \<longrightarrow> gate_ok L g)"

lemma jm_get_sem_set [simp]:
  "jm_get (rg_semaphores (r\<lparr>rg_semaphores := jm_set key g (rg_semaphores r)\<rparr>)) key = Some g"
  by simp

lemma acquireSemaphore_ok:
  assumes L: "1 \<le> L" and ok: "gates_ok key L r"
  shows "gates_ok key L (snd (acquireSemaphore key L sig tok r))"
proof -
  let ?g = "case jm_get (rg_semaphores r) key of Some g \<Rightarrow> g\<lparr>fg_limit := L\<rparr>
    | None \<Rightarrow> \<lparr>fg_count = 0, fg_limit = L, fg_queue = []\<rparr>"
  have "gate_ok L ?g"
    using L ok by (cases "jm_get (rg_semaphores r) key") (simp_all add: gates_ok_def gate_ok_def)
  then show ?thesis
    by (simp add: acquireSemaphore_def Let_def gates_ok_def) (auto simp: gate_ok_def)
qed

lemma releaseSemaphore_ok:
  assumes "1 \<le> L" "gates_ok key L r"
  shows "gates_ok key L (snd (releaseSemaphore key r))"
proof (cases "jm_get (rg_semaphores r) key")
  case (Some g)
  then have "gate_ok L g" using assms by (simp add: gates_ok_def)
  then show ?thesis
    using Some assms(1) by (cases "fg_queue g") (auto simp: releaseSemaphore_def gates_ok_def gate_ok_def Let_def)
qed (use assms in \<open>simp add: releaseSemaphore_def\<close>)

lemma abortWaiting_ok:
  assumes "gates_ok key L r"
  shows "gates_ok key L (abortWaiting key tok r)"
proof (cases "jm_get (rg_semaphores r) key")
  case (Some g)
  then have "gate_ok L g" using assms by (simp add: gates_ok_def)
  moreover have "fg_queue g = [] \<Longrightarrow> find_index (\<lambda>(t, l). t = tok \<and> l) (fg_queue g) = None" by simp
  ultimately show ?thesis
    using Some assms
    by (cases "find_index (\<lambda>(t, l). t = tok \<and> l) (fg_queue g)")
       (auto simp: abortWaiting_def gates_ok_def gate_ok_def)
qed (use assms in \<open>simp add: abortWaiting_def\<close>)

lemma gate_event_step_ok:
  "1 \<le> L \<Longrightarrow> gates_ok key L r \<Longrightarrow> gates_ok key L (gate_event_step key L ev r)"
  by (cases ev) (simp_all add: acquireSemaphore_ok releaseSemaphore_ok abortWaiting_ok)

lemma fold_gate_ok: "1 \<le> L \<Longrightarrow> gates_ok key L r \<Longrightarrow> gates_ok key L (fold (gate_event_step key L) evs r)"
  by (induction evs arbitrary: r) (simp_all add: gate_event_step_ok)

text \<open>
  A concurrency gate under a constant limit never runs more than its limit, callers
  wait only while it is full, and a release hands the slot to the caller that waited longest,
  keeping the count, whatever sequence of acquisitions, releases and aborts came before.
\<close>

lemma gate_limits_concurrency:
  assumes L: "1 \<le> L" and fresh: "jm_get (rg_semaphores r0) key = None"
    and g: "jm_get (rg_semaphores (fold (gate_event_step key L) evs r0)) key = Some g"
  shows "0 \<le> fg_count g \<and> fg_count g \<le> L \<and> (fg_queue g = [] \<or> fg_count g = L) \<and>
    (fg_queue g = [] \<or>
      (let r' = releaseSemaphore key (fold (gate_event_step key L) evs r0) in
       fst r' = Some (fst (hd (fg_queue g))) \<and>
       map_option fg_count (jm_get (rg_semaphores (snd r')) key) = Some (fg_count g)))"
proof -
  have "gates_ok key L r0" using fresh by (simp add: gates_ok_def)
  then have "gate_ok L g" using fold_gate_ok [OF L] g by (simp add: gates_ok_def)
  then show ?thesis
    using g L by (auto simp: gate_ok_def releaseSemaphore_def Let_def split: list.split)
qed

theorem gate_limits_concurrency_witness:
  "map_option (\<lambda>g. (fg_count g, fg_queue g))
     (jm_get (rg_semaphores (fold (gate_event_step ''p'' 2)
        [GateAcquire None 1, GateAcquire None 2, GateAcquire (Some False) 3, GateAcquire None 4]
        demo_registry)) ''p'') = Some (2, [(3, True), (4, False)]) \<and>
   fst (releaseSemaphore ''p'' (fold (gate_event_step ''p'' 2)
        [GateAcquire None 1, GateAcquire None 2, GateAcquire (Some False) 3, GateAcquire None 4]
        demo_registry)) = Some 3"
proof -
  let ?r = "fold (gate_event_step ''p'' 2)
    [GateAcquire None 1, GateAcquire None 2, GateAcquire (Some False) 3, GateAcquire None 4] demo_registry"
  have g: "jm_get (rg_semaphores ?r) ''p'' =
      Some \<lparr>fg_count = 2, fg_limit = 2, fg_queue = [(3, True), (4, False)]\<rparr>"
    by code_simp
  then show ?thesis
    using gate_limits_concurrency [OF _ _ g] by (simp add: demo_registry_def new_registry_def Let_def)
qed

subsubsection \<open>Retry\<close>

definition retried_ok ::
  "(nat \<Rightarrow> 'a + js_error option) \<Rightarrow> int \<Rightarrow> (nat \<Rightarrow> int) \<Rightarrow> nat \<Rightarrow> int list \<Rightarrow> bool" where
  "retried_ok fn base jitter n ds \<longleftrightarrow>
     (\<forall>i < length ds. (\<exists>err. fn (n + i) = Inr err \<and> isRetryable (classifyError err)) \<and>
        ds ! i = base * 2 ^ (n + i) + jitter (n + i))"

lemma retried_ok_Nil [simp]: "retried_ok fn base jitter n []"
  by (simp add: retried_ok_def)

lemma retried_ok_Cons:
  "fn n = Inr err \<Longrightarrow> isRetryable (classifyError err) \<Longrightarrow> retried_ok fn base jitter (Suc n) ds \<Longrightarrow>
     retried_ok fn base jitter n ((base * 2 ^ n + jitter n) # ds)"
  by (auto simp: retried_ok_def nth_Cons split: nat.split)

lemma retry_loop_value:
  "retry_loop fn ab base jitter k n e = (res, ds) \<Longrightarrow>
     length ds \<le> k - 1 \<and> retried_ok fn base jitter n ds \<and>
     (\<forall>v. res = RetryValue v \<longrightarrow> fn (n + length ds) = Inl v)"
proof (induction k arbitrary: n e res ds)
  case (Suc k)
  let ?delay = "base * 2 ^ n + jitter n"
  show ?case
  proof (cases "av_before (ab n)")
    case False
    note before = False
    show ?thesis
    proof (cases "fn n")
      case (Inr err)
      show ?thesis
      proof (cases "av_after (ab n) \<or> k = 0 \<or> \<not> isRetryable (classifyError err)")
        case True
        then show ?thesis using Suc.prems before Inr by (auto split: if_splits)
      next
        case False
        note retry = False
        show ?thesis
        proof (cases "av_sleep (ab n)")
          case True
          then have "ds = [?delay]" "res = RetryAborted"
            using Suc.prems before Inr retry by simp_all
          moreover have "retried_ok fn base jitter n [?delay]"
            using Inr retry by (intro retried_ok_Cons) auto
          ultimately show ?thesis using retry by simp
        next
          case False
          obtain ds' where rec: "retry_loop fn ab base jitter k (Suc n) err = (res, ds')"
            and ds: "ds = ?delay # ds'"
            using Suc.prems before Inr retry False by (simp add: Let_def split: prod.splits)
          have "retried_ok fn base jitter n ds"
            unfolding ds using Suc.IH [OF rec] Inr retry by (intro retried_ok_Cons) auto
          then show ?thesis using Suc.IH [OF rec] ds retry by auto
        qed
      qed
    qed (use Suc.prems before in auto)
  qed (use Suc.prems in simp)
qed simp

text \<open>
  Retrying is bounded and selective: at most \<open>maxAttempts - 1\<close> attempts are followed by
  a wait, each of them failed with a retryable kind, the delay doubles with the attempt, and
  a value that is returned is the outcome of the attempt after the last wait.
\<close>

lemma withRetry_bounded:
  assumes "withRetry fn ab (Some m) (Some base) jitter = (res, ds)"
  shows "length ds \<le> m - 1 \<and>
    (\<forall>i < length ds. (\<exists>err. fn i = Inr err \<and> isRetryable (classifyError err)) \<and>
       ds ! i = base * 2 ^ i + jitter i) \<and>
    (\<forall>v. res = RetryValue v \<longrightarrow> fn (length ds) = Inl v)"
proof (cases "av_before (ab 0)")
  case False
  then have "retry_loop fn ab base jitter m 0 None = (res, ds)"
    using assms by (simp add: withRetry_def)
  from retry_loop_value [OF this] show ?thesis by (simp add: retried_ok_def)
qed (use assms in \<open>simp add: withRetry_def\<close>)

definition demo_abort :: "nat \<Rightarrow> abort_view" where
  "demo_abort n = \<lparr>av_before = False, av_after = False, av_sleep = False\<rparr>"

definition demo_attempt :: "nat \<Rightarrow> int + js_error option" where
  "demo_attempt n = (if n < 2 then Inr (Some \<lparr>je_name = None, je_code = None,
     je_message = Some ''Request timed out'', je_status = None\<rparr>) else Inl 42)"

theorem withRetry_bounded_witness:
  "withRetry demo_attempt demo_abort (Some 3) (Some 150) (\<lambda>_. 7) = (RetryValue 42, [157, 307]) \<and>
   demo_attempt 2 = Inl 42"
proof -
  have w: "withRetry demo_attempt demo_abort (Some 3) (Some 150) (\<lambda>_. 7) = (RetryValue 42, [157, 307])"
    by code_simp
  then show ?thesis using withRetry_bounded [OF w] by (simp add: numeral_2_eq_2)
qed

subsubsection \<open>Quarantine\<close>

text \<open>
  Quarantine holds for its time-to-live and then lifts itself: a provider quarantined at
  \<open>t\<close> is reported quarantined exactly until \<open>t + ttl\<close>, or at every later time when the
  time-to-live is not positive; on expiry its record and its open history are forgotten.
\<close>

lemma quarantine_expires:
  "fst (isQuarantined p now (quarantine p reason ttl t r)) =
     (or_else ttl (rg_qTtlMs r) \<le> 0 \<or> now \<le> t + or_else ttl (rg_qTtlMs r)) \<and>
   (fst (isQuarantined p now (quarantine p reason ttl t r)) \<or>
     jm_get (rg_quarantines (snd (isQuarantined p now (quarantine p reason ttl t r)))) p = None \<and>
     opens_of (snd (isQuarantined p now (quarantine p reason ttl t r))) p = [])"
  by (auto simp: isQuarantined_def quarantine_def Let_def opens_of_def)

end
