(* ===== verification/Capacity.thy ===== *)
theory Capacity
  imports Prelude Complex_Main
begin

text \<open>
  Capacity and cost controls: the per-provider daily call budgets and the egress byte
  budgets of \<open>src/capacity/budgets.ts\<close>. A UTC day is its number of days since the epoch,
  which the code writes as the date part of an ISO string.
\<close>

definition day_ms :: int where "day_ms = 86400000"

definition utcDayKey :: "time_ms \<Rightarrow> int" where
  "utcDayKey now = now div day_ms"

definition nextUtcMidnightMs :: "time_ms \<Rightarrow> time_ms" where
  "nextUtcMidnightMs now = (utcDayKey now + 1) * day_ms"

subsection \<open>Provider call budgets\<close>

record budget_counter =
  bc_day :: int
  bc_count :: int

text \<open>\<open>pb_reported\<close> is the log of exhaustion reports (metric and warning), in order.\<close>

record budget_registry =
  pb_counters :: "(string, budget_counter) jsmap"
  pb_defaultDailyLimit :: int
  pb_overrides :: "(string, int) jsmap"
  pb_exhausted :: "string set"
  pb_reported :: "string list"

record consume_result =
  cs_allowed :: bool
  cs_used :: int
  cs_limit :: int
  cs_resetAt :: "time_ms option"

definition new_budgets :: "rat \<Rightarrow> (string, int) jsmap option \<Rightarrow> budget_registry" where
  "new_budgets defaultDailyLimit overrides =
     \<lparr>pb_counters = [], pb_defaultDailyLimit = max 0 \<lfloor>defaultDailyLimit\<rfloor>,
      pb_overrides = or_else overrides [], pb_exhausted = {}, pb_reported = []\<rparr>"

definition configure_budgets ::
  "rat option \<Rightarrow> (string, int) jsmap option \<Rightarrow> budget_registry \<Rightarrow> budget_registry" where
  "configure_budgets dl ov b =
     b\<lparr>pb_defaultDailyLimit := (case dl of Some l \<Rightarrow> max 0 \<lfloor>l\<rfloor> | None \<Rightarrow> pb_defaultDailyLimit b),
       pb_overrides := or_else ov (pb_overrides b)\<rparr>"

definition limitFor :: "string \<Rightarrow> budget_registry \<Rightarrow> int" where
  "limitFor p b =
     (case jm_get (pb_overrides b) p of
        Some ov \<Rightarrow> if ov > 0 then ov else pb_defaultDailyLimit b
      | None \<Rightarrow> pb_defaultDailyLimit b)"

definition consume :: "string \<Rightarrow> time_ms \<Rightarrow> budget_registry \<Rightarrow> consume_result \<times> budget_registry" where
  "consume p now b =
     (let limit = limitFor p b; day = utcDayKey now in
      if limit \<le> 0
      then (\<lparr>cs_allowed = True, cs_used = 0, cs_limit = 0, cs_resetAt = None\<rparr>, b)
      else
        (let (rec, b1) =
               (case jm_get (pb_counters b) p of
                  Some rc \<Rightarrow>
                    if bc_day rc = day then (rc, b)
                    else (\<lparr>bc_day = day, bc_count = 0\<rparr>,
                          b\<lparr>pb_counters := jm_set p \<lparr>bc_day = day, bc_count = 0\<rparr> (pb_counters b),
                            pb_exhausted := pb_exhausted b - {p}\<rparr>)
                | None \<Rightarrow> (\<lparr>bc_day = day, bc_count = 0\<rparr>,
                          b\<lparr>pb_counters := jm_set p \<lparr>bc_day = day, bc_count = 0\<rparr> (pb_counters b),
                            pb_exhausted := pb_exhausted b - {p}\<rparr>))
         in if bc_count rec \<ge> limit then
              (\<lparr>cs_allowed = False, cs_used = bc_count rec, cs_limit = limit,
                cs_resetAt = Some (nextUtcMidnightMs now)\<rparr>,
               if p \<in> pb_exhausted b1 then b1
               else b1\<lparr>pb_exhausted := insert p (pb_exhausted b1),
                       pb_reported := pb_reported b1 @ [p]\<rparr>)
            else
              (\<lparr>cs_allowed = True, cs_used = bc_count rec + 1, cs_limit = limit,
                cs_resetAt = Some (nextUtcMidnightMs now)\<rparr>,
               b1\<lparr>pb_counters := jm_set p (rec\<lparr>bc_count := bc_count rec + 1\<rparr>) (pb_counters b1)\<rparr>)))"

definition isExhausted :: "string \<Rightarrow> time_ms \<Rightarrow> budget_registry \<Rightarrow> bool" where
  "isExhausted p now b =
     (if limitFor p b \<le> 0 then False
      else case jm_get (pb_counters b) p of
             None \<Rightarrow> False
           | Some rec \<Rightarrow> bc_day rec = utcDayKey now \<and> bc_count rec \<ge> limitFor p b)"

text \<open>\<open>reset\<close>: an empty or missing id clears every provider.\<close>

definition reset_budgets :: "string option \<Rightarrow> budget_registry \<Rightarrow> budget_registry" where
  "reset_budgets p b =
     (case p of
        Some i \<Rightarrow>
          if i \<noteq> [] then b\<lparr>pb_counters := jm_delete i (pb_counters b),
                          pb_exhausted := pb_exhausted b - {i}\<rparr>
          else b\<lparr>pb_counters := [], pb_exhausted := {}\<rparr>
      | None \<Rightarrow> b\<lparr>pb_counters := [], pb_exhausted := {}\<rparr>)"

definition snapshot_budgets ::
  "time_ms \<Rightarrow> budget_registry \<Rightarrow> (string \<times> int \<times> int \<times> bool) list" where
  "snapshot_budgets now b =
     map (\<lambda>(p, rec). (p, bc_count rec, limitFor p b, isExhausted p now b)) (pb_counters b)"

text \<open>The count a provider has used of its budget on a day.\<close>

definition used_on :: "string \<Rightarrow> int \<Rightarrow> budget_registry \<Rightarrow> int" where
  "used_on p day b =
     (case jm_get (pb_counters b) p of
        Some rec \<Rightarrow> if bc_day rec = day then bc_count rec else 0
      | None \<Rightarrow> 0)"

lemma limitFor_consume [simp]: "limitFor q (snd (consume p now b)) = limitFor q b"
  by (simp add: consume_def limitFor_def Let_def split: option.split prod.split)

lemma consume_allowed:
  "0 < limitFor p b \<Longrightarrow>
     cs_allowed (fst (consume p now b)) = (used_on p (utcDayKey now) b < limitFor p b)"
  by (simp add: consume_def used_on_def Let_def not_le split: option.split)

lemma used_on_consume:
  assumes "0 < limitFor p b"
  shows "used_on p (utcDayKey now) (snd (consume p now b)) =
    (if used_on p (utcDayKey now) b < limitFor p b then used_on p (utcDayKey now) b + 1
     else used_on p (utcDayKey now) b)"
  using assms by (auto simp: consume_def used_on_def Let_def split: option.split)

fun consume_all :: "string \<Rightarrow> time_ms list \<Rightarrow> budget_registry \<Rightarrow> bool list \<times> budget_registry" where
  "consume_all p [] b = ([], b)"
| "consume_all p (t # ts) b =
     (let (x, b1) = consume p t b; (xs, b2) = consume_all p ts b1 in (cs_allowed x # xs, b2))"

lemma fst_consume_all_Cons [simp]:
  "fst (consume_all p (t # ts) b) =
     cs_allowed (fst (consume p t b)) # fst (consume_all p ts (snd (consume p t b)))"
  by (simp add: Let_def case_prod_unfold)

declare consume_all.simps(2) [simp del]

lemma consume_all_exact:
  assumes "0 < limitFor p b" and "\<forall>t \<in> set ts. utcDayKey t = day"
    and "used_on p day b \<le> limitFor p b"
  shows "fst (consume_all p ts b) =
    map (\<lambda>i. used_on p day b + int i < limitFor p b) [0..<length ts]"
  using assms
proof (induction ts arbitrary: b)
  case (Cons t ts)
  let ?b = "snd (consume p t b)"
  have day: "utcDayKey t = day" using Cons.prems(2) by simp
  have used: "used_on p day ?b = (if used_on p day b < limitFor p b then used_on p day b + 1
      else used_on p day b)"
    using used_on_consume [OF Cons.prems(1), of t] day by simp
  have le: "used_on p day ?b \<le> limitFor p ?b"
    using used Cons.prems(3) by simp
  have "fst (consume_all p ts ?b) = map (\<lambda>i. used_on p day ?b + int i < limitFor p b) [0..<length ts]"
    using Cons.IH [of ?b] Cons.prems le by simp
  also have "\<dots> = map (\<lambda>i. used_on p day b + int (Suc i) < limitFor p b) [0..<length ts]"
    using used Cons.prems(3) by auto
  finally show ?case
    using consume_allowed [OF Cons.prems(1), of t] day
    by (simp add: map_upt_Suc del: upt_Suc)
qed simp

subsection \<open>Egress byte budgets\<close>

datatype egress_level = LevelOk | LevelWarning | LevelExceeded

record egress_options =
  eo_dailyBudgetBytes :: int
  eo_proxyBudgetBytes :: int
  eo_warnAt :: "rat option"

text \<open>\<open>em_alerts\<close> is the log of alerts, each with the budget it concerns.\<close>

datatype budget_scope = DailyBudget | ProxyBudget

record egress_monitor =
  em_opts :: egress_options
  em_day :: int
  em_dailyBytes :: int
  em_proxyBytes :: int
  em_lastLevel :: egress_level
  em_lastProxyLevel :: egress_level
  em_alerts :: "(budget_scope \<times> egress_level \<times> int) list"

definition new_monitor :: "egress_options \<Rightarrow> time_ms \<Rightarrow> egress_monitor" where
  "new_monitor opts now =
     \<lparr>em_opts = opts, em_day = utcDayKey now, em_dailyBytes = 0, em_proxyBytes = 0,
      em_lastLevel = LevelOk, em_lastProxyLevel = LevelOk, em_alerts = []\<rparr>"

definition rollDayIfNeeded :: "time_ms \<Rightarrow> egress_monitor \<Rightarrow> egress_monitor" where
  "rollDayIfNeeded now m =
     (if utcDayKey now \<noteq> em_day m
      then m\<lparr>em_day := utcDayKey now, em_dailyBytes := 0, em_proxyBytes := 0,
             em_lastLevel := LevelOk, em_lastProxyLevel := LevelOk\<rparr>
      else m)"

definition budget_level :: "int \<Rightarrow> int \<Rightarrow> rat option \<Rightarrow> egress_level" where
  "budget_level bytes budget warnAt =
     (if bytes \<ge> budget then LevelExceeded
      else if rat_of_int bytes \<ge> rat_of_int budget * or_else warnAt (3 / 4) then LevelWarning
      else LevelOk)"

definition evaluateLevels :: "egress_monitor \<Rightarrow> egress_monitor" where
  "evaluateLevels m =
     (let o' = em_opts m;
          l1 = budget_level (em_dailyBytes m) (eo_dailyBudgetBytes o') (eo_warnAt o');
          m1 = (if eo_dailyBudgetBytes o' > 0 \<and> l1 \<noteq> em_lastLevel m
                then m\<lparr>em_lastLevel := l1,
                       em_alerts := em_alerts m @ [(DailyBudget, l1, em_dailyBytes m)]\<rparr>
                else m);
          l2 = budget_level (em_proxyBytes m1) (eo_proxyBudgetBytes o') (eo_warnAt o')
      in if eo_proxyBudgetBytes o' > 0 \<and> l2 \<noteq> em_lastProxyLevel m1
         then m1\<lparr>em_lastProxyLevel := l2,
                 em_alerts := em_alerts m1 @ [(ProxyBudget, l2, em_proxyBytes m1)]\<rparr>
         else m1)"

definition record_egress :: "int \<Rightarrow> bool \<Rightarrow> time_ms \<Rightarrow> egress_monitor \<Rightarrow> egress_monitor" where
  "record_egress bytes proxied now m =
     (if bytes \<le> 0 then m
      else
        (let m1 = rollDayIfNeeded now m;
             m2 = m1\<lparr>em_dailyBytes := em_dailyBytes m1 + bytes\<rparr>;
             m3 = (if proxied then m2\<lparr>em_proxyBytes := em_proxyBytes m2 + bytes\<rparr> else m2)
         in evaluateLevels m3))"

text \<open>
  \<open>state()\<close>; the percentages are exact, where the code rounds a double with
  \<open>toFixed(2)\<close>: halves of a hundredth may differ.
\<close>

record egress_report =
  es_level :: egress_level
  es_dailyBytes :: int
  es_proxyBytes :: int
  es_dailyBudgetBytes :: int
  es_proxyBudgetBytes :: int
  es_usedPct :: rat
  es_proxyUsedPct :: rat
  es_resetsAt :: time_ms

definition used_pct :: "int \<Rightarrow> int \<Rightarrow> rat" where
  "used_pct bytes budget =
     (if budget > 0 then rat_of_int (round_div (bytes * 10000) budget) / 100 else 0)"

definition egress_state :: "time_ms \<Rightarrow> egress_monitor \<Rightarrow> egress_report \<times> egress_monitor" where
  "egress_state now m =
     (let m1 = rollDayIfNeeded now m in
      (\<lparr>es_level = em_lastLevel m1, es_dailyBytes = em_dailyBytes m1,
        es_proxyBytes = em_proxyBytes m1,
        es_dailyBudgetBytes = eo_dailyBudgetBytes (em_opts m1),
        es_proxyBudgetBytes = eo_proxyBudgetBytes (em_opts m1),
        es_usedPct = used_pct (em_dailyBytes m1) (eo_dailyBudgetBytes (em_opts m1)),
        es_proxyUsedPct = used_pct (em_proxyBytes m1) (eo_proxyBudgetBytes (em_opts m1)),
        es_resetsAt = nextUtcMidnightMs now\<rparr>, m1))"

text \<open>What the recorded level means; kept by every operation.\<close>

definition egress_inv :: "egress_monitor \<Rightarrow> bool" where
  "egress_inv m \<longleftrightarrow> 0 \<le> em_proxyBytes m \<and> em_proxyBytes m \<le> em_dailyBytes m \<and>
     (em_dailyBytes m > 0 \<longrightarrow> eo_dailyBudgetBytes (em_opts m) > 0 \<longrightarrow>
        em_lastLevel m = budget_level (em_dailyBytes m) (eo_dailyBudgetBytes (em_opts m)) (eo_warnAt (em_opts m))) \<and>
     (em_proxyBytes m > 0 \<longrightarrow> eo_proxyBudgetBytes (em_opts m) > 0 \<longrightarrow>
        em_lastProxyLevel m = budget_level (em_proxyBytes m) (eo_proxyBudgetBytes (em_opts m)) (eo_warnAt (em_opts m)))"

lemma roll_inv: "egress_inv m \<Longrightarrow> egress_inv (rollDayIfNeeded now m)"
  by (simp add: egress_inv_def rollDayIfNeeded_def)

lemma evaluateLevels_frame [simp]:
  "em_opts (evaluateLevels m) = em_opts m" "em_dailyBytes (evaluateLevels m) = em_dailyBytes m"
  "em_proxyBytes (evaluateLevels m) = em_proxyBytes m" "em_day (evaluateLevels m) = em_day m"
  by (simp_all add: evaluateLevels_def Let_def)

lemma evaluateLevels_level:
  "0 < eo_dailyBudgetBytes (em_opts m) \<Longrightarrow> em_lastLevel (evaluateLevels m) =
     budget_level (em_dailyBytes m) (eo_dailyBudgetBytes (em_opts m)) (eo_warnAt (em_opts m))"
  "0 < eo_proxyBudgetBytes (em_opts m) \<Longrightarrow> em_lastProxyLevel (evaluateLevels m) =
     budget_level (em_proxyBytes m) (eo_proxyBudgetBytes (em_opts m)) (eo_warnAt (em_opts m))"
  by (simp_all add: evaluateLevels_def Let_def)

lemma record_egress_inv: "egress_inv m \<Longrightarrow> egress_inv (record_egress bytes proxied now m)"
proof (cases "bytes \<le> 0")
  case False
  assume "egress_inv m"
  then have "egress_inv (rollDayIfNeeded now m)" by (rule roll_inv)
  then show ?thesis
    using False by (simp add: record_egress_def Let_def egress_inv_def evaluateLevels_level)
qed (simp add: record_egress_def)

fun record_all :: "(int \<times> bool \<times> time_ms) list \<Rightarrow> egress_monitor \<Rightarrow> egress_monitor" where
  "record_all [] m = m"
| "record_all ((b, p, t) # rs) m = record_all rs (record_egress b p t m)"

lemma record_all_inv: "egress_inv m \<Longrightarrow> egress_inv (record_all rs m)"
  by (induction rs m rule: record_all.induct) (simp_all add: record_egress_inv)

lemma record_egress_opts [simp]: "em_opts (record_egress b p t m) = em_opts m"
  by (simp add: record_egress_def rollDayIfNeeded_def Let_def)

lemma record_all_opts [simp]: "em_opts (record_all rs m) = em_opts m"
  by (induction rs m rule: record_all.induct) simp_all

lemma record_all_bytes:
  "\<forall>(b, p, t) \<in> set rs. 0 < b \<and> utcDayKey t = em_day m \<Longrightarrow>
     em_dailyBytes (record_all rs m) = em_dailyBytes m + sum_list (map fst rs) \<and>
     em_proxyBytes (record_all rs m) =
       em_proxyBytes m + sum_list (map (\<lambda>(b, p, t). if p then b else 0) rs)"
proof (induction rs m rule: record_all.induct)
  case (2 b p t rs m)
  then have t: "0 < b" "utcDayKey t = em_day m" by auto
  then have "em_day (record_egress b p t m) = em_day m"
    "em_dailyBytes (record_egress b p t m) = em_dailyBytes m + b"
    "em_proxyBytes (record_egress b p t m) = em_proxyBytes m + (if p then b else 0)"
    by (simp_all add: record_egress_def rollDayIfNeeded_def Let_def)
  then show ?case using 2 by simp
qed simp

subsection \<open>Properties\<close>

text \<open>
  A daily budget admits exactly its limit: over any sequence of calls within one UTC
  day, a provider with a positive limit that has used \<open>u\<close> calls is allowed precisely the
  next \<open>limit - u\<close> of them and refused all later ones.
\<close>

lemma budget_admits_exactly_limit:
  assumes "0 < limitFor p b" and "\<forall>t \<in> set ts. utcDayKey t = day"
    and "used_on p day b \<le> limitFor p b"
  shows "fst (consume_all p ts b) =
    map (\<lambda>i. used_on p day b + int i < limitFor p b) [0..<length ts]"
  using assms by (rule consume_all_exact)

definition demo_budgets :: budget_registry where
  "demo_budgets = new_budgets (7 / 2) (Some [(''addon:fragile'', 2), (''addon:off'', 0)])"

theorem budget_admits_exactly_limit_witness:
  "fst (consume_all ''addon:fragile'' [1, 5, 900] demo_budgets) = [True, True, False] \<and>
   limitFor ''addon:off'' demo_budgets = 3"
proof -
  have "limitFor ''addon:fragile'' demo_budgets = 2" "used_on ''addon:fragile'' 0 demo_budgets = 0"
    "limitFor ''addon:off'' demo_budgets = 3"
    by code_simp+
  then show ?thesis
    using budget_admits_exactly_limit [of "''addon:fragile''" demo_budgets "[1, 5, 900]" 0]
    by (simp add: utcDayKey_def day_ms_def numeral_3_eq_3)
qed

text \<open>
  \<open>isExhausted\<close> and \<open>consume\<close> agree at the boundary: the selection filter says a
  provider is exhausted exactly when the next call at that time would be refused.
\<close>

lemma exhausted_iff_refused: "isExhausted p now b = (\<not> cs_allowed (fst (consume p now b)))"
proof (cases "limitFor p b \<le> 0")
  case False
  then show ?thesis
    by (simp add: consume_allowed isExhausted_def used_on_def split: option.split) auto
qed (simp add: isExhausted_def consume_def Let_def)

text \<open>
  The egress monitor's level is the level of the bytes counted: after any records the
  proxied bytes are part of the total, and with a budget set and traffic counted that day
  the stored level is exceeded, warning or ok exactly as the byte count compares with the
  budget and its warning fraction.
\<close>

lemma egress_level_correct:
  "0 \<le> em_proxyBytes (record_all rs (new_monitor opts now)) \<and>
   em_proxyBytes (record_all rs (new_monitor opts now))
     \<le> em_dailyBytes (record_all rs (new_monitor opts now)) \<and>
   (em_dailyBytes (record_all rs (new_monitor opts now)) \<le> 0 \<or> eo_dailyBudgetBytes opts \<le> 0 \<or>
      em_lastLevel (record_all rs (new_monitor opts now)) =
        budget_level (em_dailyBytes (record_all rs (new_monitor opts now)))
          (eo_dailyBudgetBytes opts) (eo_warnAt opts)) \<and>
   (em_proxyBytes (record_all rs (new_monitor opts now)) \<le> 0 \<or> eo_proxyBudgetBytes opts \<le> 0 \<or>
      em_lastProxyLevel (record_all rs (new_monitor opts now)) =
        budget_level (em_proxyBytes (record_all rs (new_monitor opts now)))
          (eo_proxyBudgetBytes opts) (eo_warnAt opts))"
proof -
  have "egress_inv (new_monitor opts now)" by (simp add: egress_inv_def new_monitor_def)
  then have "egress_inv (record_all rs (new_monitor opts now))" by (rule record_all_inv)
  moreover have "em_opts (record_all rs (new_monitor opts now)) = opts"
    by (simp add: new_monitor_def)
  ultimately show ?thesis unfolding egress_inv_def by (simp add: not_less [symmetric])
qed

end
