(* ===== verification/Streams.thy ===== *)
theory Streams
  imports Prelude Complex_Main
begin

text \<open>
  Concurrent-stream caps: \<open>src/capacity/streams.ts\<close> with its in-memory counters. The three
  primitive counter operations (\<open>reserve\<close>, \<open>overLimit\<close>, \<open>decrement\<close>) are the
  interface the acquisition protocol uses; \<open>slot_counters\<close> states what it relies on, and
  the memory counters provide it over any window no longer than the counter TTL. The Redis
  counters are a service behind the same three operations and are not modelled. Since
  \<open>acquire\<close> awaits between its counter operations, the protocol is given both as one
  run (\<open>acquire_stream\<close>) and as a task that advances one awaited operation at a time.
\<close>

subsection \<open>Data\<close>

datatype stream_limit_reason = PerIp | PerUser | GlobalCap

record stream_identity =
  si_ip :: string
  si_userId :: "string option"
  si_grantId :: "string option"

record stream_options =
  so_maxPerIp :: int
  so_maxPerUser :: int
  so_maxGlobal :: int
  so_ttlMs :: "int option"

record memory_counter =
  mc_count :: int
  mc_expiresAt :: time_ms

type_synonym counters = "(string, memory_counter) jsmap"

record stream_tracker =
  st_opts :: stream_options
  st_memory :: counters
  st_activeIp :: int
  st_activeUser :: int
  st_activeGlobal :: int

text \<open>\<open>StreamConcurrencyError\<close>: the reason, the limit and the scope it names.\<close>

datatype stream_error = StreamLimitExceeded stream_limit_reason int string

text \<open>The closure \<open>acquire\<close> returns: the identity it captured and its \<open>released\<close> flag.\<close>

record stream_releaser =
  sr_identity :: stream_identity
  sr_released :: bool

definition TTL_MS :: int where "TTL_MS = 600000"

definition KEY_PREFIX :: string where "KEY_PREFIX = ''streamcount:v1''"

definition new_tracker :: "rat \<Rightarrow> rat \<Rightarrow> rat \<Rightarrow> int option \<Rightarrow> stream_tracker" where
  "new_tracker perIp perUser global ttl =
     \<lparr>st_opts = \<lparr>so_maxPerIp = max 0 \<lfloor>perIp\<rfloor>, so_maxPerUser = max 0 \<lfloor>perUser\<rfloor>,
                 so_maxGlobal = max 0 \<lfloor>global\<rfloor>, so_ttlMs = ttl\<rparr>,
      st_memory = [], st_activeIp = 0, st_activeUser = 0, st_activeGlobal = 0\<rparr>"

text \<open>\<open>identity.userId\<close> used as a condition: the empty string counts as absent.\<close>

definition has_user :: "stream_identity \<Rightarrow> bool" where
  "has_user i = (case si_userId i of None \<Rightarrow> False | Some u \<Rightarrow> u \<noteq> [])"

definition ipKey :: "stream_identity \<Rightarrow> string" where
  "ipKey i = KEY_PREFIX @ '':ip:'' @ si_ip i"

definition userKey :: "stream_identity \<Rightarrow> string option" where
  "userKey i = (if has_user i then Some (KEY_PREFIX @ '':user:'' @ or_else (si_userId i) []) else None)"

definition globalKey :: string where
  "globalKey = KEY_PREFIX @ '':global''"

subsection \<open>The counter operations\<close>

definition reserve :: "time_ms \<Rightarrow> int \<Rightarrow> string \<Rightarrow> counters \<Rightarrow> counters" where
  "reserve now ttlSec key m =
     (case jm_get m key of
        None \<Rightarrow> jm_set key \<lparr>mc_count = 1, mc_expiresAt = now + ttlSec * 1000\<rparr> m
      | Some rc \<Rightarrow>
          if mc_expiresAt rc < now
          then jm_set key \<lparr>mc_count = 1, mc_expiresAt = now + ttlSec * 1000\<rparr> m
          else jm_set key (rc\<lparr>mc_count := mc_count rc + 1\<rparr>) m)"

definition overLimit :: "time_ms \<Rightarrow> string \<Rightarrow> int \<Rightarrow> counters \<Rightarrow> bool" where
  "overLimit now key limit m =
     (case jm_get m key of
        None \<Rightarrow> False
      | Some rc \<Rightarrow> if mc_expiresAt rc < now then False else limit < mc_count rc)"

definition decrement1 :: "string \<Rightarrow> counters \<Rightarrow> counters" where
  "decrement1 key m =
     (case jm_get m key of
        None \<Rightarrow> m
      | Some rc \<Rightarrow> if mc_count rc - 1 \<le> 0 then jm_delete key m
                   else jm_set key (rc\<lparr>mc_count := mc_count rc - 1\<rparr>) m)"

definition decrement :: "string list \<Rightarrow> counters \<Rightarrow> counters" where
  "decrement keys m = fold decrement1 keys m"

definition counter_of :: "counters \<Rightarrow> string \<Rightarrow> int" where
  "counter_of m key = (case jm_get m key of None \<Rightarrow> 0 | Some rc \<Rightarrow> mc_count rc)"

text \<open>What the acquisition protocol needs of its counters.\<close>

locale slot_counters =
  fixes good_time :: "time_ms \<Rightarrow> bool"
    and ok :: "'s \<Rightarrow> bool"
    and res :: "time_ms \<Rightarrow> 'k \<Rightarrow> 's \<Rightarrow> 's"
    and over :: "time_ms \<Rightarrow> 'k \<Rightarrow> int \<Rightarrow> 's \<Rightarrow> bool"
    and dec :: "'k \<Rightarrow> 's \<Rightarrow> 's"
    and cnt :: "'s \<Rightarrow> 'k \<Rightarrow> int"
  assumes cnt_nonneg: "ok s \<Longrightarrow> 0 \<le> cnt s k"
    and ok_res: "ok s \<Longrightarrow> good_time now \<Longrightarrow> ok (res now k s)"
    and cnt_res: "ok s \<Longrightarrow> good_time now \<Longrightarrow> cnt (res now k s) k' = cnt s k' + of_bool (k = k')"
    and over_cnt: "ok s \<Longrightarrow> good_time now \<Longrightarrow> 0 \<le> l \<Longrightarrow> over now k l s = (l < cnt s k)"
    and ok_dec: "ok s \<Longrightarrow> ok (dec k s)"
    and cnt_dec: "ok s \<Longrightarrow> cnt (dec k s) k' = (if k = k' then max 0 (cnt s k - 1) else cnt s k')"
begin

lemma ok_fold_dec: "ok s \<Longrightarrow> ok (fold dec ks s)"
  by (induction ks arbitrary: s) (simp_all add: ok_dec)

lemma cnt_fold_dec:
  "ok s \<Longrightarrow> distinct ks \<Longrightarrow>
     cnt (fold dec ks s) k = (if k \<in> set ks then max 0 (cnt s k - 1) else cnt s k)"
proof (induction ks arbitrary: s)
  case (Cons a ks)
  then show ?case by (auto simp: ok_dec cnt_dec)
qed simp

text \<open>A reserved key that is decremented again leaves every counter where it was.\<close>

lemma dec_res: "ok s \<Longrightarrow> good_time now \<Longrightarrow> cnt (dec k (res now k s)) k' = cnt s k'"
  by (simp add: ok_res cnt_dec cnt_res cnt_nonneg)

end

definition fresh_counters :: "time_ms \<Rightarrow> int \<Rightarrow> counters \<Rightarrow> bool" where
  "fresh_counters lo ttlSec m \<longleftrightarrow>
     (\<forall>k rc. jm_get m k = Some rc \<longrightarrow> 0 < mc_count rc \<and> lo + ttlSec * 1000 \<le> mc_expiresAt rc)"

definition in_window :: "time_ms \<Rightarrow> int \<Rightarrow> time_ms \<Rightarrow> bool" where
  "in_window lo ttlSec now \<longleftrightarrow> lo \<le> now \<and> now \<le> lo + ttlSec * 1000"

interpretation mem: slot_counters "in_window lo ttlSec" "fresh_counters lo ttlSec"
  "\<lambda>now. reserve now ttlSec" overLimit decrement1 counter_of
  for lo ttlSec
proof unfold_locales
  fix m :: counters and k k' :: string and now l :: int
  assume f: "fresh_counters lo ttlSec m"
  show "0 \<le> counter_of m k"
    using f by (auto simp: fresh_counters_def counter_of_def split: option.split) force
  show "fresh_counters lo ttlSec (decrement1 k m)"
    using f by (auto simp: fresh_counters_def decrement1_def split: option.splits if_splits)
  show "counter_of (decrement1 k m) k' = (if k = k' then max 0 (counter_of m k - 1) else counter_of m k')"
    by (simp add: decrement1_def counter_of_def split: option.split)
  assume t: "in_window lo ttlSec now"
  show "fresh_counters lo ttlSec (reserve now ttlSec k m)"
    using f t by (auto simp: fresh_counters_def reserve_def in_window_def less_imp_le
        split: option.splits if_splits)
  have fresh: "\<not> mc_expiresAt rc < now" if "jm_get m k = Some rc" for k rc
    using f t that unfolding fresh_counters_def in_window_def by force
  show "counter_of (reserve now ttlSec k m) k' = counter_of m k' + of_bool (k = k')"
    using fresh by (auto simp: reserve_def counter_of_def split: option.split)
  assume "0 \<le> l"
  then show "overLimit now k l m = (l < counter_of m k)"
    using fresh by (auto simp: overLimit_def counter_of_def split: option.split)
qed

subsection \<open>Acquisition\<close>

text \<open>The caps that apply to an identity, strictest first: key, limit, reason and scope.\<close>

record cap_stage =
  cg_key :: string
  cg_limit :: int
  cg_error :: stream_error

definition cap_stages :: "stream_options \<Rightarrow> stream_identity \<Rightarrow> cap_stage list" where
  "cap_stages op i =
     (if 0 < so_maxGlobal op
      then [\<lparr>cg_key = globalKey, cg_limit = so_maxGlobal op,
             cg_error = StreamLimitExceeded GlobalCap (so_maxGlobal op) ''deployment''\<rparr>]
      else []) @
     (case userKey i of
        Some uk \<Rightarrow>
          if 0 < so_maxPerUser op
          then [\<lparr>cg_key = uk, cg_limit = so_maxPerUser op,
                 cg_error = StreamLimitExceeded PerUser (so_maxPerUser op) (or_else (si_userId i) ''unknown'')\<rparr>]
          else []
      | None \<Rightarrow> []) @
     (if 0 < so_maxPerIp op
      then [\<lparr>cg_key = ipKey i, cg_limit = so_maxPerIp op,
             cg_error = StreamLimitExceeded PerIp (so_maxPerIp op) (si_ip i)\<rparr>]
      else [])"

definition ttl_sec :: "stream_options \<Rightarrow> int" where
  "ttl_sec op = ceil_div (or_else (so_ttlMs op) TTL_MS) 1000"

text \<open>The \<open>try\<close> block run to its end: the error if a cap rejected, the keys reserved, the counters.\<close>

fun run_stages ::
  "time_ms \<Rightarrow> int \<Rightarrow> cap_stage list \<Rightarrow> string list \<Rightarrow> counters \<Rightarrow>
     stream_error option \<times> string list \<times> counters" where
  "run_stages now ttlSec [] acquired m = (None, acquired, m)"
| "run_stages now ttlSec (g # gs) acquired m =
     (let m1 = reserve now ttlSec (cg_key g) m; acquired1 = acquired @ [cg_key g] in
      if overLimit now (cg_key g) (cg_limit g) m1 then (Some (cg_error g), acquired1, m1)
      else run_stages now ttlSec gs acquired1 m1)"

definition count_active :: "stream_identity \<Rightarrow> stream_tracker \<Rightarrow> stream_tracker" where
  "count_active i t =
     t\<lparr>st_activeGlobal := st_activeGlobal t + 1, st_activeIp := st_activeIp t + 1,
       st_activeUser := (if has_user i then st_activeUser t + 1 else st_activeUser t)\<rparr>"

definition acquire_stream ::
  "time_ms \<Rightarrow> stream_identity \<Rightarrow> stream_tracker \<Rightarrow> (stream_error + stream_releaser) \<times> stream_tracker" where
  "acquire_stream now i t =
     (case run_stages now (ttl_sec (st_opts t)) (cap_stages (st_opts t) i) [] (st_memory t) of
        (Some e, acquired, m) \<Rightarrow> (Inl e, t\<lparr>st_memory := decrement acquired m\<rparr>)
      | (None, acquired, m) \<Rightarrow>
          (Inr \<lparr>sr_identity = i, sr_released = False\<rparr>, count_active i (t\<lparr>st_memory := m\<rparr>)))"

definition release_keys :: "stream_identity \<Rightarrow> string list" where
  "release_keys i = [ipKey i, globalKey] @ (case userKey i of Some uk \<Rightarrow> [uk] | None \<Rightarrow> [])"

definition release_stream ::
  "stream_releaser \<Rightarrow> stream_tracker \<Rightarrow> stream_releaser \<times> stream_tracker" where
  "release_stream r t =
     (if sr_released r then (r, t)
      else (r\<lparr>sr_released := True\<rparr>,
            t\<lparr>st_activeGlobal := max 0 (st_activeGlobal t - 1),
              st_activeIp := max 0 (st_activeIp t - 1),
              st_activeUser := (if has_user (sr_identity r) then max 0 (st_activeUser t - 1)
                                else st_activeUser t),
              st_memory := decrement (release_keys (sr_identity r)) (st_memory t)\<rparr>))"

definition purgeExpired :: "time_ms \<Rightarrow> stream_tracker \<Rightarrow> nat \<times> stream_tracker" where
  "purgeExpired now t =
     (length (filter (\<lambda>(k, rc). mc_expiresAt rc < now) (st_memory t)),
      t\<lparr>st_memory := filter (\<lambda>(k, rc). \<not> mc_expiresAt rc < now) (st_memory t)\<rparr>)"

definition gauge :: "stream_tracker \<Rightarrow> int \<times> int \<times> int" where
  "gauge t = (st_activeGlobal t, st_activeIp t, st_activeUser t)"

subsection \<open>Interleaved acquisitions\<close>

text \<open>
  \<open>acquire\<close> between two awaits: before reserving the next stage, after reserving it, and
  after reading whether it is over its limit.
\<close>

datatype stage_phase = ToReserve | ToCheck | Checked bool

record acquire_task =
  tk_identity :: stream_identity
  tk_todo :: "cap_stage list"
  tk_acquired :: "string list"
  tk_phase :: stage_phase

datatype task_result = Running acquire_task | Rejected stream_error | Admitted stream_releaser

definition new_task :: "stream_options \<Rightarrow> stream_identity \<Rightarrow> acquire_task" where
  "new_task op i = \<lparr>tk_identity = i, tk_todo = cap_stages op i, tk_acquired = [], tk_phase = ToReserve\<rparr>"

definition task_step :: "time_ms \<Rightarrow> acquire_task \<Rightarrow> stream_tracker \<Rightarrow> task_result \<times> stream_tracker" where
  "task_step now k t =
     (case tk_todo k of
        [] \<Rightarrow> (Admitted \<lparr>sr_identity = tk_identity k, sr_released = False\<rparr>,
               count_active (tk_identity k) t)
      | g # gs \<Rightarrow>
          (case tk_phase k of
             ToReserve \<Rightarrow>
               (Running (k\<lparr>tk_acquired := tk_acquired k @ [cg_key g], tk_phase := ToCheck\<rparr>),
                t\<lparr>st_memory := reserve now (ttl_sec (st_opts t)) (cg_key g) (st_memory t)\<rparr>)
           | ToCheck \<Rightarrow>
               (Running (k\<lparr>tk_phase := Checked (overLimit now (cg_key g) (cg_limit g) (st_memory t))\<rparr>), t)
           | Checked True \<Rightarrow>
               (Rejected (cg_error g), t\<lparr>st_memory := decrement (tk_acquired k) (st_memory t)\<rparr>)
           | Checked False \<Rightarrow> (Running (k\<lparr>tk_todo := gs, tk_phase := ToReserve\<rparr>), t)))"

record stream_system =
  sy_tracker :: stream_tracker
  sy_tasks :: "acquire_task list"
  sy_live :: "stream_releaser list"

inductive stream_step :: "time_ms \<Rightarrow> stream_system \<Rightarrow> stream_system \<Rightarrow> bool" where
  Start: "stream_step now s (s\<lparr>sy_tasks := sy_tasks s @ [new_task (st_opts (sy_tracker s)) i]\<rparr>)"
| Continue: "\<lbrakk>n < length (sy_tasks s); task_step now (sy_tasks s ! n) (sy_tracker s) = (Running k, t)\<rbrakk> \<Longrightarrow>
    stream_step now s (s\<lparr>sy_tasks := (sy_tasks s)[n := k], sy_tracker := t\<rparr>)"
| Reject: "\<lbrakk>n < length (sy_tasks s); task_step now (sy_tasks s ! n) (sy_tracker s) = (Rejected e, t)\<rbrakk> \<Longrightarrow>
    stream_step now s (s\<lparr>sy_tasks := remove_at n (sy_tasks s), sy_tracker := t\<rparr>)"
| Admit: "\<lbrakk>n < length (sy_tasks s); task_step now (sy_tasks s ! n) (sy_tracker s) = (Admitted r, t)\<rbrakk> \<Longrightarrow>
    stream_step now s (s\<lparr>sy_tasks := remove_at n (sy_tasks s), sy_tracker := t, sy_live := sy_live s @ [r]\<rparr>)"
| Finish: "n < length (sy_live s) \<Longrightarrow>
    stream_step now s (s\<lparr>sy_live := remove_at n (sy_live s),
      sy_tracker := snd (release_stream (sy_live s ! n) (sy_tracker s))\<rparr>)"

text \<open>Runs of the system whose operations all fall in a window of time.\<close>

inductive stream_run :: "(time_ms \<Rightarrow> bool) \<Rightarrow> stream_tracker \<Rightarrow> stream_system \<Rightarrow> bool"
  for W t0 where
  run_start: "stream_run W t0 \<lparr>sy_tracker = t0, sy_tasks = [], sy_live = []\<rparr>"
| run_step: "\<lbrakk>stream_run W t0 s; W now; stream_step now s s'\<rbrakk> \<Longrightarrow> stream_run W t0 s'"

text \<open>The same steps chosen by an explicit schedule, so that runs can be computed.\<close>

datatype stream_action = StartAcquire stream_identity | Advance nat | FinishStream nat

definition stream_exec :: "time_ms \<Rightarrow> stream_action \<Rightarrow> stream_system \<Rightarrow> stream_system" where
  "stream_exec now a s =
     (case a of
        StartAcquire i \<Rightarrow> s\<lparr>sy_tasks := sy_tasks s @ [new_task (st_opts (sy_tracker s)) i]\<rparr>
      | Advance n \<Rightarrow>
          if n < length (sy_tasks s) then
            (case task_step now (sy_tasks s ! n) (sy_tracker s) of
               (Running k, t) \<Rightarrow> s\<lparr>sy_tasks := (sy_tasks s)[n := k], sy_tracker := t\<rparr>
             | (Rejected e, t) \<Rightarrow> s\<lparr>sy_tasks := remove_at n (sy_tasks s), sy_tracker := t\<rparr>
             | (Admitted r, t) \<Rightarrow> s\<lparr>sy_tasks := remove_at n (sy_tasks s), sy_tracker := t,
                                    sy_live := sy_live s @ [r]\<rparr>)
          else s
      | FinishStream n \<Rightarrow>
          if n < length (sy_live s)
          then s\<lparr>sy_live := remove_at n (sy_live s),
                 sy_tracker := snd (release_stream (sy_live s ! n) (sy_tracker s))\<rparr>
          else s)"

fun run_schedule :: "(time_ms \<times> stream_action) list \<Rightarrow> stream_system \<Rightarrow> stream_system" where
  "run_schedule [] s = s"
| "run_schedule ((now, a) # as') s = run_schedule as' (stream_exec now a s)"

lemma stream_exec_step: "stream_exec now a s = s \<or> stream_step now s (stream_exec now a s)"
proof (cases a)
  case (StartAcquire i)
  then show ?thesis by (simp add: stream_exec_def Start)
next
  case (Advance n)
  show ?thesis
  proof (cases "n < length (sy_tasks s)")
    case True
    obtain res t where "task_step now (sy_tasks s ! n) (sy_tracker s) = (res, t)" by fastforce
    with True Advance show ?thesis
      by (cases res) (simp_all add: stream_exec_def Continue Reject Admit)
  qed (simp add: stream_exec_def Advance)
next
  case (FinishStream n)
  then show ?thesis by (simp add: stream_exec_def Finish)
qed

lemma stream_exec_run:
  "stream_run W t0 s \<Longrightarrow> W now \<Longrightarrow> stream_run W t0 (stream_exec now a s)"
  using run_step stream_exec_step by metis

lemma run_schedule_run:
  "stream_run W t0 s \<Longrightarrow> list_all W (map fst sch) \<Longrightarrow> stream_run W t0 (run_schedule sch s)"
  by (induction sch arbitrary: s) (auto simp: stream_exec_run)

subsection \<open>The cap invariant\<close>

definition stage_keys :: "stream_options \<Rightarrow> stream_identity \<Rightarrow> string list" where
  "stage_keys op i = map cg_key (cap_stages op i)"

lemmas stream_key_defs = ipKey_def userKey_def globalKey_def KEY_PREFIX_def

lemma distinct_stage_keys: "distinct (stage_keys op i)"
  by (simp add: stage_keys_def cap_stages_def stream_key_defs split: option.split)

lemma distinct_release_keys: "distinct (release_keys i)"
  by (simp add: release_keys_def stream_key_defs split: option.split)

lemma stage_limit_unique:
  "g \<in> set (cap_stages op i) \<Longrightarrow> g' \<in> set (cap_stages op j) \<Longrightarrow> cg_key g = cg_key g' \<Longrightarrow>
     cg_limit g = cg_limit g'"
  by (auto simp: cap_stages_def stream_key_defs split: if_splits option.splits)

lemma stage_limit_pos: "g \<in> set (cap_stages op i) \<Longrightarrow> 0 < cg_limit g"
  by (auto simp: cap_stages_def split: if_splits option.splits)

lemma stage_keys_release: "set (stage_keys op i) \<subseteq> set (release_keys i)"
  by (auto simp: stage_keys_def cap_stages_def release_keys_def split: if_splits option.splits)

lemma release_key_uncapped:
  "k \<in> set (release_keys i) \<Longrightarrow> k \<notin> set (stage_keys op i) \<Longrightarrow> k \<notin> set (stage_keys op j)"
  by (auto simp: stage_keys_def cap_stages_def release_keys_def stream_key_defs
      split: if_splits option.splits)

text \<open>The keys a task has reserved, and those whose check it has passed.\<close>

definition task_ok :: "stream_options \<Rightarrow> acquire_task \<Rightarrow> bool" where
  "task_ok op k \<longleftrightarrow> (\<exists>passed. cap_stages op (tk_identity k) = passed @ tk_todo k \<and>
     tk_acquired k = map cg_key passed @
       (if tk_phase k = ToReserve then [] else [cg_key (hd (tk_todo k))]) \<and>
     (tk_phase k \<noteq> ToReserve \<longrightarrow> tk_todo k \<noteq> []))"

definition task_passed :: "acquire_task \<Rightarrow> string list" where
  "task_passed k = (if tk_phase k = ToReserve \<or> tk_phase k = Checked False then tk_acquired k
     else butlast (tk_acquired k))"

definition held :: "stream_options \<Rightarrow> stream_system \<Rightarrow> string \<Rightarrow> int" where
  "held op s key =
     sum_list (map (\<lambda>k. of_bool (key \<in> set (tk_acquired k))) (sy_tasks s)) +
     sum_list (map (\<lambda>r. of_bool (key \<in> set (stage_keys op (sr_identity r)))) (sy_live s))"

definition passed_held :: "stream_options \<Rightarrow> stream_system \<Rightarrow> string \<Rightarrow> int" where
  "passed_held op s key =
     sum_list (map (\<lambda>k. of_bool (key \<in> set (task_passed k))) (sy_tasks s)) +
     sum_list (map (\<lambda>r. of_bool (key \<in> set (stage_keys op (sr_identity r)))) (sy_live s))"

definition stream_inv :: "stream_options \<Rightarrow> time_ms \<Rightarrow> stream_system \<Rightarrow> bool" where
  "stream_inv op lo s \<longleftrightarrow>
     st_opts (sy_tracker s) = op \<and>
     fresh_counters lo (ttl_sec op) (st_memory (sy_tracker s)) \<and>
     (\<forall>k \<in> set (sy_tasks s). task_ok op k) \<and>
     (\<forall>r \<in> set (sy_live s). \<not> sr_released r) \<and>
     (\<forall>key. counter_of (st_memory (sy_tracker s)) key = held op s key) \<and>
     (\<forall>i. \<forall>g \<in> set (cap_stages op i). passed_held op s (cg_key g) \<le> cg_limit g)"

lemma task_acquired_stage: "task_ok op k \<Longrightarrow> set (tk_acquired k) \<subseteq> set (stage_keys op (tk_identity k))"
  unfolding task_ok_def stage_keys_def by (cases "tk_todo k") (auto split: if_splits)

lemma task_acquired_distinct:
  assumes "task_ok op k" shows "distinct (tk_acquired k)"
proof -
  from assms obtain p where p: "cap_stages op (tk_identity k) = p @ tk_todo k"
    and a: "tk_acquired k = map cg_key p @ (if tk_phase k = ToReserve then [] else [cg_key (hd (tk_todo k))])"
    and t: "tk_phase k \<noteq> ToReserve \<longrightarrow> tk_todo k \<noteq> []"
    unfolding task_ok_def by blast
  have "distinct (map cg_key p @ map cg_key (tk_todo k))"
    using distinct_stage_keys [of op "tk_identity k"] p unfolding stage_keys_def by simp
  then show ?thesis
    using a t by (cases "tk_todo k") auto
qed

lemma passed_subset: "set (task_passed k) \<subseteq> set (tk_acquired k)"
  unfolding task_passed_def by (auto dest: in_set_butlastD)

lemma sum_of_bool_mono:
  "(\<And>x. x \<in> set xs \<Longrightarrow> P x \<Longrightarrow> Q x) \<Longrightarrow>
     sum_list (map (\<lambda>x. of_bool (P x) :: int) xs) \<le> sum_list (map (\<lambda>x. of_bool (Q x)) xs)"
  by (rule sum_list_mono) auto

lemma passed_le_held: "passed_held op s key \<le> held op s key"
  unfolding passed_held_def held_def
  using sum_of_bool_mono [of "sy_tasks s" "\<lambda>k. key \<in> set (task_passed k)" "\<lambda>k. key \<in> set (tk_acquired k)"]
    passed_subset by force

lemma sum_list_map_update:
  fixes f :: "'a \<Rightarrow> int"
  shows "n < length xs \<Longrightarrow> sum_list (map f (xs[n := x])) = sum_list (map f xs) - f (xs ! n) + f x"
proof (induction xs arbitrary: n)
  case (Cons y ys)
  then show ?case by (cases n) auto
qed simp

lemma sum_list_ge_member:
  fixes f :: "'a \<Rightarrow> int"
  shows "x \<in> set xs \<Longrightarrow> (\<And>y. 0 \<le> f y) \<Longrightarrow> f x \<le> sum_list (map f xs)"
proof (induction xs)
  case (Cons y ys)
  have "0 \<le> sum_list (map f ys)" by (rule sum_list_nonneg) (auto simp: Cons.prems(2))
  then show ?case using Cons by (auto simp: add_increasing)
qed simp

lemma held_task: "k \<in> set (sy_tasks s) \<Longrightarrow> key \<in> set (tk_acquired k) \<Longrightarrow> 1 \<le> held op s key"
  unfolding held_def
  using sum_list_ge_member [of k "sy_tasks s" "\<lambda>k. of_bool (key \<in> set (tk_acquired k))"]
    sum_list_nonneg [of "map (\<lambda>r. of_bool (key \<in> set (stage_keys op (sr_identity r))) :: int) (sy_live s)"]
  by fastforce

lemma held_live: "r \<in> set (sy_live s) \<Longrightarrow> key \<in> set (stage_keys op (sr_identity r)) \<Longrightarrow> 1 \<le> held op s key"
  unfolding held_def
  using sum_list_ge_member [of r "sy_live s" "\<lambda>r. of_bool (key \<in> set (stage_keys op (sr_identity r)))"]
    sum_list_nonneg [of "map (\<lambda>k. of_bool (key \<in> set (tk_acquired k)) :: int) (sy_tasks s)"]
  by fastforce

lemma sum_of_bool_zero: "(\<And>x. x \<in> set xs \<Longrightarrow> \<not> P x) \<Longrightarrow> sum_list (map (\<lambda>x. of_bool (P x) :: int) xs) = 0"
  by (induction xs) auto

lemma length_filter_of_bool: "int (length (filter P xs)) = sum_list (map (\<lambda>x. of_bool (P x)) xs)"
  by (induction xs) auto

lemma held_uncapped:
  assumes "\<forall>k \<in> set (sy_tasks s). task_ok op k" and "\<And>j. key \<notin> set (stage_keys op j)"
  shows "held op s key = 0"
proof -
  have "key \<notin> set (tk_acquired k)" if "k \<in> set (sy_tasks s)" for k
    using task_acquired_stage [of op k] assms that by blast
  then show ?thesis
    unfolding held_def by (simp add: sum_of_bool_zero assms(2))
qed


text \<open>How one task step changes the tracker and the task.\<close>

lemma task_step_frame:
  "task_step now k t = (res, t') \<Longrightarrow> st_opts t' = st_opts t"
  by (auto simp: task_step_def count_active_def split: list.splits stage_phase.splits bool.splits)

lemma held_update:
  "n < length (sy_tasks s) \<Longrightarrow>
     held op (s\<lparr>sy_tasks := (sy_tasks s)[n := k], sy_tracker := t\<rparr>) key =
       held op s key - of_bool (key \<in> set (tk_acquired (sy_tasks s ! n))) + of_bool (key \<in> set (tk_acquired k)) \<and>
     passed_held op (s\<lparr>sy_tasks := (sy_tasks s)[n := k], sy_tracker := t\<rparr>) key =
       passed_held op s key - of_bool (key \<in> set (task_passed (sy_tasks s ! n))) + of_bool (key \<in> set (task_passed k))"
  by (simp add: held_def passed_held_def sum_list_map_update)

lemma held_remove:
  "n < length (sy_tasks s) \<Longrightarrow>
     held op (s\<lparr>sy_tasks := remove_at n (sy_tasks s), sy_tracker := t\<rparr>) key =
       held op s key - of_bool (key \<in> set (tk_acquired (sy_tasks s ! n))) \<and>
     passed_held op (s\<lparr>sy_tasks := remove_at n (sy_tasks s), sy_tracker := t\<rparr>) key =
       passed_held op s key - of_bool (key \<in> set (task_passed (sy_tasks s ! n)))"
  by (simp add: held_def passed_held_def sum_list_remove_at)

lemma held_remove_live:
  "n < length (sy_live s) \<Longrightarrow>
     held op (s\<lparr>sy_live := remove_at n (sy_live s), sy_tracker := t\<rparr>) key =
       held op s key - of_bool (key \<in> set (stage_keys op (sr_identity (sy_live s ! n)))) \<and>
     passed_held op (s\<lparr>sy_live := remove_at n (sy_live s), sy_tracker := t\<rparr>) key =
       passed_held op s key - of_bool (key \<in> set (stage_keys op (sr_identity (sy_live s ! n))))"
  by (simp add: held_def passed_held_def sum_list_remove_at)

lemma stream_inv_start:
  "stream_inv op lo s \<Longrightarrow> stream_inv op lo (s\<lparr>sy_tasks := sy_tasks s @ [new_task op i]\<rparr>)"
  by (simp add: stream_inv_def held_def passed_held_def task_ok_def new_task_def task_passed_def)

lemma stream_inv_release:
  assumes inv: "stream_inv op lo s" and n: "n < length (sy_live s)"
  shows "stream_inv op lo (s\<lparr>sy_live := remove_at n (sy_live s),
    sy_tracker := snd (release_stream (sy_live s ! n) (sy_tracker s))\<rparr>)"
proof -
  let ?r = "sy_live s ! n" and ?m = "st_memory (sy_tracker s)"
  let ?i = "sr_identity ?r"
  have r: "?r \<in> set (sy_live s)" "\<not> sr_released ?r"
    using inv n unfolding stream_inv_def by auto
  have fresh: "fresh_counters lo (ttl_sec op) ?m" and cnt: "\<And>key. counter_of ?m key = held op s key"
    and tasks: "\<forall>k \<in> set (sy_tasks s). task_ok op k" and opts: "st_opts (sy_tracker s) = op"
    and caps: "\<And>i g. g \<in> set (cap_stages op i) \<Longrightarrow> passed_held op s (cg_key g) \<le> cg_limit g"
    and live: "\<forall>r \<in> set (sy_live s). \<not> sr_released r"
    using inv unfolding stream_inv_def by auto
  have dec: "counter_of (decrement (release_keys ?i) ?m) key =
      held op s key - of_bool (key \<in> set (stage_keys op ?i))" for key
  proof (cases "key \<in> set (release_keys ?i)")
    case True
    show ?thesis
    proof (cases "key \<in> set (stage_keys op ?i)")
      case True
      then show ?thesis
        using held_live [OF r(1) True] stage_keys_release [of op ?i]
          mem.cnt_fold_dec [OF fresh distinct_release_keys, of ?i key] cnt
        by (auto simp: decrement_def)
    next
      case False
      then have "held op s key = 0"
        using held_uncapped [OF tasks] release_key_uncapped [OF True False] by blast
      then show ?thesis
        using mem.cnt_fold_dec [OF fresh distinct_release_keys, of ?i key] cnt False True
        by (simp add: decrement_def)
    qed
  next
    case False
    then show ?thesis
      using stage_keys_release [of op ?i] mem.cnt_fold_dec [OF fresh distinct_release_keys, of ?i key] cnt
      by (auto simp: decrement_def)
  qed
  have "passed_held op s (cg_key g) - of_bool (cg_key g \<in> set (stage_keys op ?i)) \<le> cg_limit g"
    if "g \<in> set (cap_stages op i)" for i g
    using caps [OF that] by (simp add: of_bool_def)
  then show ?thesis
    using r(2) opts tasks live dec mem.ok_fold_dec [OF fresh, of "release_keys ?i"]
      set_remove_at_subset [of n "sy_live s"]
    unfolding stream_inv_def by (auto simp: held_remove_live [OF n] release_stream_def decrement_def)
qed

lemma stream_inv_reject:
  assumes inv: "stream_inv op lo s" and n: "n < length (sy_tasks s)"
    and step: "task_step now (sy_tasks s ! n) (sy_tracker s) = (Rejected e, t)"
  shows "stream_inv op lo (s\<lparr>sy_tasks := remove_at n (sy_tasks s), sy_tracker := t\<rparr>)"
proof -
  let ?k = "sy_tasks s ! n" and ?m = "st_memory (sy_tracker s)"
  have k: "?k \<in> set (sy_tasks s)" "task_ok op ?k"
    using inv n unfolding stream_inv_def by auto
  have fresh: "fresh_counters lo (ttl_sec op) ?m" and cnt: "\<And>key. counter_of ?m key = held op s key"
    using inv unfolding stream_inv_def by auto
  have t: "t = (sy_tracker s)\<lparr>st_memory := decrement (tk_acquired ?k) ?m\<rparr>"
    using step by (auto simp: task_step_def split: list.splits stage_phase.splits bool.splits)
  have dec: "counter_of (decrement (tk_acquired ?k) ?m) key =
      held op s key - of_bool (key \<in> set (tk_acquired ?k))" for key
    using held_task [OF k(1), of key op]
      mem.cnt_fold_dec [OF fresh task_acquired_distinct [OF k(2)], of key] cnt
    by (auto simp: decrement_def)
  have "passed_held op s (cg_key g) - of_bool (cg_key g \<in> set (task_passed ?k)) \<le> cg_limit g"
    if "g \<in> set (cap_stages op i)" for i g
    using inv that unfolding stream_inv_def by (force simp: of_bool_def)
  then show ?thesis
    using inv t dec mem.ok_fold_dec [OF fresh, of "tk_acquired ?k"] set_remove_at_subset [of n "sy_tasks s"]
    unfolding stream_inv_def by (auto simp: held_remove [OF n] decrement_def)
qed

lemma stream_inv_admit:
  assumes inv: "stream_inv op lo s" and n: "n < length (sy_tasks s)"
    and step: "task_step now (sy_tasks s ! n) (sy_tracker s) = (Admitted r, t)"
  shows "stream_inv op lo (s\<lparr>sy_tasks := remove_at n (sy_tasks s), sy_tracker := t, sy_live := sy_live s @ [r]\<rparr>)"
proof -
  let ?k = "sy_tasks s ! n"
  have k: "task_ok op ?k" using inv n unfolding stream_inv_def by auto
  have todo: "tk_todo ?k = []" and r: "r = \<lparr>sr_identity = tk_identity ?k, sr_released = False\<rparr>"
    and t: "t = count_active (tk_identity ?k) (sy_tracker s)"
    using step by (auto simp: task_step_def split: list.splits stage_phase.splits bool.splits)
  have acq: "tk_acquired ?k = stage_keys op (tk_identity ?k)" and ph: "tk_phase ?k = ToReserve"
    using k todo unfolding task_ok_def stage_keys_def by (auto split: if_splits)
  have "held op (s\<lparr>sy_tasks := remove_at n (sy_tasks s), sy_tracker := t, sy_live := sy_live s @ [r]\<rparr>) key =
      held op s key" for key
    using n by (simp add: held_def sum_list_remove_at acq r)
  moreover have "passed_held op (s\<lparr>sy_tasks := remove_at n (sy_tasks s), sy_tracker := t, sy_live := sy_live s @ [r]\<rparr>) key =
      passed_held op s key" for key
    using n by (simp add: passed_held_def sum_list_remove_at task_passed_def ph acq r)
  ultimately show ?thesis
    using inv set_remove_at_subset [of n "sy_tasks s"]
    unfolding stream_inv_def by (auto simp: t count_active_def r)
qed

lemma stream_inv_continue:
  assumes inv: "stream_inv op lo s" and n: "n < length (sy_tasks s)"
    and W: "in_window lo (ttl_sec op) now"
    and step: "task_step now (sy_tasks s ! n) (sy_tracker s) = (Running k', t)"
  shows "stream_inv op lo (s\<lparr>sy_tasks := (sy_tasks s)[n := k'], sy_tracker := t\<rparr>)"
proof -
  let ?k = "sy_tasks s ! n" and ?m = "st_memory (sy_tracker s)"
  have k: "?k \<in> set (sy_tasks s)" "task_ok op ?k"
    using inv n unfolding stream_inv_def by auto
  have fresh: "fresh_counters lo (ttl_sec op) ?m" and cnt: "\<And>key. counter_of ?m key = held op s key"
    and tasks: "\<forall>k \<in> set (sy_tasks s). task_ok op k" and opts: "st_opts (sy_tracker s) = op"
    and caps: "\<And>i g. g \<in> set (cap_stages op i) \<Longrightarrow> passed_held op s (cg_key g) \<le> cg_limit g"
    and live: "\<forall>r \<in> set (sy_live s). \<not> sr_released r"
    using inv unfolding stream_inv_def by auto
  obtain g gs where g: "tk_todo ?k = g # gs"
    using step by (auto simp: task_step_def split: list.splits)
  obtain p where p: "cap_stages op (tk_identity ?k) = p @ g # gs"
    and acq: "tk_acquired ?k = map cg_key p @ (if tk_phase ?k = ToReserve then [] else [cg_key g])"
    using k(2) g unfolding task_ok_def by auto
  have gin: "g \<in> set (cap_stages op (tk_identity ?k))" using p by simp
  have dist: "cg_key g \<notin> set (map cg_key p)"
    using distinct_stage_keys [of op "tk_identity ?k"] p unfolding stage_keys_def by auto
  have tasks': "task_ok op k' \<Longrightarrow> \<forall>k \<in> set ((sy_tasks s)[n := k']). task_ok op k"
    using tasks set_update_subset_insert [of "sy_tasks s" n k'] by auto
  show ?thesis
  proof (cases "tk_phase ?k")
    case ToReserve
    then have k': "k' = ?k\<lparr>tk_acquired := tk_acquired ?k @ [cg_key g], tk_phase := ToCheck\<rparr>"
      and t: "t = (sy_tracker s)\<lparr>st_memory := reserve now (ttl_sec op) (cg_key g) ?m\<rparr>"
      using step g opts by (auto simp: task_step_def)
    have "task_ok op k'" using p acq g k' ToReserve unfolding task_ok_def by auto
    then show ?thesis
      using tasks' opts live caps cnt mem.ok_res [OF fresh W] acq ToReserve dist
      unfolding stream_inv_def
      by (auto simp: held_update [OF n] t k' task_passed_def mem.cnt_res [OF fresh W] of_bool_def)
  next
    case ToCheck
    define over where "over = overLimit now (cg_key g) (cg_limit g) ?m"
    have k': "k' = ?k\<lparr>tk_phase := Checked over\<rparr>" and t: "t = sy_tracker s"
      using step g ToCheck by (auto simp: task_step_def over_def)
    have tk: "task_ok op k'" using p acq g k' ToCheck unfolding task_ok_def by auto
    have over: "over = (cg_limit g < held op s (cg_key g))"
      using mem.over_cnt [OF fresh W, of "cg_limit g" "cg_key g"] stage_limit_pos [OF gin] cnt
      by (simp add: over_def)
    have pk: "task_passed k' = (if over then map cg_key p else map cg_key p @ [cg_key g])"
      "task_passed ?k = map cg_key p"
      using acq ToCheck k' by (auto simp: task_passed_def)
    have pass: "passed_held op (s\<lparr>sy_tasks := (sy_tasks s)[n := k'], sy_tracker := t\<rparr>) key \<le> held op s key" for key
    proof -
      have "held op (s\<lparr>sy_tasks := (sy_tasks s)[n := k'], sy_tracker := t\<rparr>) key = held op s key"
        by (simp add: held_update [OF n] k')
      then show ?thesis using passed_le_held by metis
    qed
    have "passed_held op (s\<lparr>sy_tasks := (sy_tasks s)[n := k'], sy_tracker := t\<rparr>) (cg_key h) \<le> cg_limit h"
      if h: "h \<in> set (cap_stages op i)" for h i
    proof (cases "cg_key h = cg_key g \<and> \<not> over")
      case True
      then show ?thesis
        using pass [of "cg_key h"] over stage_limit_unique [OF h gin] by simp
    next
      case False
      then show ?thesis
        using caps [OF h] by (auto simp: held_update [OF n] pk)
    qed
    moreover have "held op (s\<lparr>sy_tasks := (sy_tasks s)[n := k'], sy_tracker := t\<rparr>) key = held op s key" for key
      by (simp add: held_update [OF n] k')
    ultimately show ?thesis
      using tasks' [OF tk] live opts [folded t] cnt [folded t] fresh [folded t]
      unfolding stream_inv_def by simp
  next
    case (Checked b)
    then have b: "\<not> b" and k': "k' = ?k\<lparr>tk_todo := gs, tk_phase := ToReserve\<rparr>" and t: "t = sy_tracker s"
      using step g by (auto simp: task_step_def split: bool.splits)
    have "task_ok op k'"
      using p acq Checked unfolding task_ok_def k' by (auto intro!: exI [of _ "p @ [g]"])
    moreover have "task_passed k' = task_passed ?k"
      using Checked b by (simp add: task_passed_def k')
    moreover have "held op (s\<lparr>sy_tasks := (sy_tasks s)[n := k'], sy_tracker := t\<rparr>) key = held op s key \<and>
        passed_held op (s\<lparr>sy_tasks := (sy_tasks s)[n := k'], sy_tracker := t\<rparr>) key = passed_held op s key" for key
      using calculation(2) by (simp add: held_update [OF n]) (simp add: k')
    ultimately show ?thesis
      using tasks' live opts [folded t] cnt [folded t] fresh [folded t] caps
      unfolding stream_inv_def by simp
  qed
qed

lemma stream_inv_step:
  "stream_step now s s' \<Longrightarrow> stream_inv op lo s \<Longrightarrow> in_window lo (ttl_sec op) now \<Longrightarrow> stream_inv op lo s'"
proof (induction rule: stream_step.induct)
  case (Start now s i)
  then show ?case using stream_inv_start [of op lo s i] by (simp add: stream_inv_def)
next
  case (Continue n s now k t)
  then show ?case using stream_inv_continue by blast
next
  case (Reject n s now e t)
  then show ?case using stream_inv_reject by blast
next
  case (Admit n s now r t)
  then show ?case using stream_inv_admit by blast
next
  case (Finish n s now)
  then show ?case using stream_inv_release by blast
qed

lemma stream_inv_run:
  assumes "stream_run (in_window lo (ttl_sec (st_opts t0))) t0 s" and "st_memory t0 = []"
  shows "stream_inv (st_opts t0) lo s"
  using assms(1)
proof (induction rule: stream_run.induct)
  case run_start
  have "0 \<le> cg_limit g" if "g \<in> set (cap_stages (st_opts t0) i)" for g i
    using stage_limit_pos [OF that] by simp
  then show ?case
    using assms(2) by (auto simp: stream_inv_def held_def passed_held_def fresh_counters_def counter_of_def)
next
  case (run_step s now s')
  then show ?case using stream_inv_step by blast
qed


subsection \<open>A whole acquisition\<close>

lemma run_stages_spec:
  assumes "fresh_counters lo ttl m" and "in_window lo ttl now"
    and "distinct (map cg_key gs)" and "\<forall>g \<in> set gs. 0 < cg_limit g"
    and "set (map cg_key gs) \<inter> set acq = {}" and "distinct acq"
    and "run_stages now ttl gs acq m = (err, acq', m')"
  shows "fresh_counters lo ttl m' \<and> distinct acq' \<and> set acq \<subseteq> set acq' \<and>
    (\<forall>k. counter_of m' k = counter_of m k + of_bool (k \<in> set acq' - set acq)) \<and>
    (err = None \<longleftrightarrow> (\<forall>g \<in> set gs. counter_of m (cg_key g) < cg_limit g)) \<and>
    (err = None \<longrightarrow> acq' = acq @ map cg_key gs)"
  using assms
proof (induction gs arbitrary: acq m)
  case Nil
  then show ?case by simp
next
  case (Cons g gs)
  let ?m = "reserve now ttl (cg_key g) m"
  have fresh: "fresh_counters lo ttl ?m" using mem.ok_res Cons.prems(1,2) by blast
  have cnt: "counter_of ?m k = counter_of m k + of_bool (cg_key g = k)" for k
    using mem.cnt_res Cons.prems(1,2) by blast
  have over: "overLimit now (cg_key g) (cg_limit g) ?m = (cg_limit g < counter_of m (cg_key g) + 1)"
    using mem.over_cnt [OF fresh Cons.prems(2), of "cg_limit g" "cg_key g"] cnt Cons.prems(4) by simp
  show ?case
  proof (cases "overLimit now (cg_key g) (cg_limit g) ?m")
    case True
    then show ?thesis using Cons.prems fresh cnt over by (auto simp: of_bool_def)
  next
    case False
    then have run: "run_stages now ttl gs (acq @ [cg_key g]) ?m = (err, acq', m')"
      using Cons.prems(7) by simp
    have IH: "fresh_counters lo ttl m' \<and> distinct acq' \<and> set (acq @ [cg_key g]) \<subseteq> set acq' \<and>
      (\<forall>k. counter_of m' k = counter_of ?m k + of_bool (k \<in> set acq' - set (acq @ [cg_key g]))) \<and>
      (err = None \<longleftrightarrow> (\<forall>h \<in> set gs. counter_of ?m (cg_key h) < cg_limit h)) \<and>
      (err = None \<longrightarrow> acq' = (acq @ [cg_key g]) @ map cg_key gs)"
      using Cons.IH [OF fresh Cons.prems(2) _ _ _ _ run] Cons.prems by auto
    have "counter_of ?m (cg_key h) = counter_of m (cg_key h)" if "h \<in> set gs" for h
      using that Cons.prems(3) cnt by force
    then show ?thesis
      using IH over False cnt Cons.prems(5) by (auto simp: of_bool_def)
  qed
qed

lemma acquire_stream_spec:
  assumes "fresh_counters lo (ttl_sec (st_opts t)) (st_memory t)"
    and "in_window lo (ttl_sec (st_opts t)) now"
  shows "(\<not> isl (fst (acquire_stream now i t))) =
      (\<forall>g \<in> set (cap_stages (st_opts t) i). counter_of (st_memory t) (cg_key g) < cg_limit g) \<and>
    counter_of (st_memory (snd (acquire_stream now i t))) k = counter_of (st_memory t) k +
      of_bool ((\<not> isl (fst (acquire_stream now i t))) \<and> k \<in> set (stage_keys (st_opts t) i)) \<and>
    gauge (snd (acquire_stream now i t)) =
      (if \<not> isl (fst (acquire_stream now i t)) then gauge (count_active i t) else gauge t)"
proof -
  obtain err acq m where run: "run_stages now (ttl_sec (st_opts t)) (cap_stages (st_opts t) i) []
      (st_memory t) = (err, acq, m)"
    by (cases "run_stages now (ttl_sec (st_opts t)) (cap_stages (st_opts t) i) [] (st_memory t)") auto
  have spec: "fresh_counters lo (ttl_sec (st_opts t)) m" "distinct acq"
    "\<And>k. counter_of m k = counter_of (st_memory t) k + of_bool (k \<in> set acq)"
    "err = None \<longleftrightarrow> (\<forall>g \<in> set (cap_stages (st_opts t) i). counter_of (st_memory t) (cg_key g) < cg_limit g)"
    "err = None \<longrightarrow> acq = stage_keys (st_opts t) i"
    using run_stages_spec [OF assms distinct_stage_keys [unfolded stage_keys_def] _ _ _ run]
    by (auto simp: stage_limit_pos stage_keys_def)
  show ?thesis
  proof (cases err)
    case None
    then show ?thesis
      using run spec(3,4,5) by (simp add: acquire_stream_def count_active_def gauge_def)
  next
    case (Some e)
    have "counter_of (decrement acq m) k = counter_of (st_memory t) k"
      using mem.cnt_fold_dec [OF spec(1,2), of k] spec(3) mem.cnt_nonneg [OF assms(1), of k]
      by (simp add: decrement_def)
    then show ?thesis
      using run spec(4) Some by (simp add: acquire_stream_def gauge_def)
  qed
qed

subsection \<open>Properties\<close>

text \<open>
  C2. The stream caps hold under any interleaving: starting from empty counters, however
  concurrent acquisitions interleave at their awaits with each other and with releases, as
  long as the operations fall within one counter TTL, the admitted and unreleased streams
  never exceed the global cap, the cap of any authenticated user, or the cap of any IP.
\<close>

theorem stream_caps_hold:
  assumes "stream_run (in_window lo (ttl_sec (st_opts t0))) t0 s" and "st_memory t0 = []"
  shows "(so_maxGlobal (st_opts t0) \<le> 0 \<or> int (length (sy_live s)) \<le> so_maxGlobal (st_opts t0)) \<and>
    (so_maxPerUser (st_opts t0) \<le> 0 \<or> u = [] \<or>
       int (length (filter (\<lambda>r. si_userId (sr_identity r) = Some u) (sy_live s))) \<le> so_maxPerUser (st_opts t0)) \<and>
    (so_maxPerIp (st_opts t0) \<le> 0 \<or>
       int (length (filter (\<lambda>r. si_ip (sr_identity r) = a) (sy_live s))) \<le> so_maxPerIp (st_opts t0))"
proof -
  let ?op = "st_opts t0"
  have caps: "passed_held ?op s (cg_key g) \<le> cg_limit g" if "g \<in> set (cap_stages ?op i)" for g i
    using stream_inv_run [OF assms] that unfolding stream_inv_def by blast
  have live: "int (length (filter P (sy_live s))) \<le> cg_limit g"
    if g: "g \<in> set (cap_stages ?op i)"
      and P: "\<And>r. r \<in> set (sy_live s) \<Longrightarrow> P r \<Longrightarrow> cg_key g \<in> set (stage_keys ?op (sr_identity r))" for P g i
  proof -
    have "int (length (filter P (sy_live s))) = sum_list (map (\<lambda>r. of_bool (P r)) (sy_live s))"
      by (rule length_filter_of_bool)
    also have "\<dots> \<le> sum_list (map (\<lambda>r. of_bool (cg_key g \<in> set (stage_keys ?op (sr_identity r)))) (sy_live s))"
      by (rule sum_of_bool_mono) (rule P)
    also have "\<dots> \<le> passed_held ?op s (cg_key g)"
      unfolding passed_held_def
      using sum_list_nonneg [of "map (\<lambda>k. of_bool (cg_key g \<in> set (task_passed k)) :: int) (sy_tasks s)"]
      by fastforce
    finally show ?thesis using caps [OF g] by linarith
  qed
  let ?g = "\<lparr>cg_key = globalKey, cg_limit = so_maxGlobal ?op,
    cg_error = StreamLimitExceeded GlobalCap (so_maxGlobal ?op) ''deployment''\<rparr>"
  let ?i = "\<lparr>si_ip = a, si_userId = Some u, si_grantId = None\<rparr>"
  let ?p = "\<lparr>cg_key = ipKey ?i, cg_limit = so_maxPerIp ?op,
    cg_error = StreamLimitExceeded PerIp (so_maxPerIp ?op) a\<rparr>"
  let ?u = "\<lparr>cg_key = KEY_PREFIX @ '':user:'' @ u, cg_limit = so_maxPerUser ?op,
    cg_error = StreamLimitExceeded PerUser (so_maxPerUser ?op) u\<rparr>"
  have global: "int (length (sy_live s)) \<le> so_maxGlobal ?op" if "0 < so_maxGlobal ?op"
    using live [of ?g ?i "\<lambda>_. True"] that by (simp add: cap_stages_def stage_keys_def)
  have user: "int (length (filter (\<lambda>r. si_userId (sr_identity r) = Some u) (sy_live s))) \<le> so_maxPerUser ?op"
    if "0 < so_maxPerUser ?op" "u \<noteq> []"
    using live [of ?u ?i "\<lambda>r. si_userId (sr_identity r) = Some u"] that
    by (simp add: cap_stages_def stage_keys_def userKey_def has_user_def)
  have ip: "int (length (filter (\<lambda>r. si_ip (sr_identity r) = a) (sy_live s))) \<le> so_maxPerIp ?op"
    if "0 < so_maxPerIp ?op"
    using live [of ?p ?i "\<lambda>r. si_ip (sr_identity r) = a"] that
    by (simp add: cap_stages_def stage_keys_def ipKey_def)
  show ?thesis using global user ip by (meson not_le)
qed

definition demo_tracker :: stream_tracker where
  "demo_tracker = new_tracker 1 2 (5 / 2) None"

definition demo_id :: "string \<Rightarrow> stream_identity" where
  "demo_id a = \<lparr>si_ip = a, si_userId = Some ''svc'', si_grantId = None\<rparr>"

text \<open>Two acquisitions from one address interleaved through the global and user stages:
  the second is rejected.\<close>

definition demo_schedule :: "(time_ms \<times> stream_action) list" where
  "demo_schedule = (1, StartAcquire (demo_id ''a'')) # (2, StartAcquire (demo_id ''a'')) #
     concat (replicate 6 [(3, Advance 0), (4, Advance 1)]) @ replicate 7 (5, Advance 0)"

definition demo_system :: stream_system where
  "demo_system = run_schedule demo_schedule \<lparr>sy_tracker = demo_tracker, sy_tasks = [], sy_live = []\<rparr>"

theorem stream_caps_hold_witness:
  "length (filter (\<lambda>r. si_ip (sr_identity r) = ''a'') (sy_live demo_system)) \<le> 1"
proof -
  have "list_all (in_window 0 (ttl_sec (st_opts demo_tracker))) (map fst demo_schedule)"
    by code_simp
  then have "stream_run (in_window 0 (ttl_sec (st_opts demo_tracker))) demo_tracker demo_system"
    unfolding demo_system_def by (intro run_schedule_run run_start)
  moreover have "st_memory demo_tracker = []" "so_maxPerIp (st_opts demo_tracker) = 1"
    by code_simp+
  ultimately show ?thesis
    using stream_caps_hold [of 0 demo_tracker demo_system "''svc''" "''a''"] by simp
qed

lemma demo_system_value: "(length (sy_live demo_system), length (sy_tasks demo_system)) = (1, 0)"
  by code_simp

text \<open>
  A whole acquisition admits a stream exactly when every cap that applies to it has
  room, reserves each of its capped keys once, and after a rejection leaves every counter
  and gauge where it was.
\<close>

lemma acquire_all_or_nothing:
  assumes "fresh_counters lo (ttl_sec (st_opts t)) (st_memory t)"
    and "in_window lo (ttl_sec (st_opts t)) now"
  shows "(\<not> isl (fst (acquire_stream now i t))) =
      (\<forall>g \<in> set (cap_stages (st_opts t) i). counter_of (st_memory t) (cg_key g) < cg_limit g) \<and>
    counter_of (st_memory (snd (acquire_stream now i t))) k = counter_of (st_memory t) k +
      of_bool ((\<not> isl (fst (acquire_stream now i t))) \<and> k \<in> set (stage_keys (st_opts t) i)) \<and>
    gauge (snd (acquire_stream now i t)) =
      (if \<not> isl (fst (acquire_stream now i t)) then gauge (count_active i t) else gauge t)"
  using assms by (rule acquire_stream_spec)

theorem acquire_all_or_nothing_witness:
  "gauge (snd (acquire_stream 5 (demo_id ''a'') (sy_tracker demo_system))) = (1, 1, 1)"
proof -
  have "st_memory (sy_tracker demo_system) =
      [(globalKey, \<lparr>mc_count = 1, mc_expiresAt = 600003\<rparr>),
       (KEY_PREFIX @ '':user:svc'', \<lparr>mc_count = 1, mc_expiresAt = 600003\<rparr>),
       (ipKey (demo_id ''a''), \<lparr>mc_count = 1, mc_expiresAt = 600005\<rparr>)]"
    "ttl_sec (st_opts (sy_tracker demo_system)) = 600"
    "isl (fst (acquire_stream 5 (demo_id ''a'') (sy_tracker demo_system)))"
    "gauge (sy_tracker demo_system) = (1, 1, 1)"
    by code_simp+
  then show ?thesis
    using acquire_all_or_nothing [of 3 "sy_tracker demo_system" 5 "demo_id ''a''"]
    by (simp add: fresh_counters_def in_window_def split: if_splits)
qed

text \<open>
  The counter's expiry is set when it is created and not renewed when it is incremented:
  with one stream per address allowed, a stream that outlives the TTL is forgotten and a
  second one from the same address is admitted beside it.
\<close>

lemma stream_cap_lapses:
  "\<not> isl (fst (acquire_stream 0 (demo_id ''a'') demo_tracker)) \<and>
   isl (fst (acquire_stream 600000 (demo_id ''a'') (snd (acquire_stream 0 (demo_id ''a'') demo_tracker)))) \<and>
   \<not> isl (fst (acquire_stream 600001 (demo_id ''a'') (snd (acquire_stream 0 (demo_id ''a'') demo_tracker))))"
  by code_simp

end
