(* ===== verification/Cache.thy ===== *)
theory Cache
  imports Prelude
begin

text \<open>
  The cache subsystem, \<open>src/cache\<close>: key namespaces, the in-memory LRU cache, the
  \<open>CacheManager\<close> on its memory backend, single-flight coalescing and the
  stale-while-revalidate flow. \<open>swr_storage\<close> is the contract of the
  \<open>SwrCacheStorage\<close> interface the flow is written against, and the manager's
  \<open>asSwrStorage\<close> provides it. Redis and the JSON text of a value are outside: the stored
  text is a type parameter, read and written by a codec argument.
\<close>

subsection \<open>Key namespaces\<close>

datatype media_type = MovieType | TvType

text \<open>Any type other than \<open>'movie'\<close> is treated as television; ids come trimmed.\<close>

definition media_type_of :: "string \<Rightarrow> media_type" where
  "media_type_of s = (if s = ''movie'' then MovieType else TvType)"

definition type_name :: "media_type \<Rightarrow> string" where
  "type_name t = (case t of MovieType \<Rightarrow> ''movie'' | TvType \<Rightarrow> ''tv'')"

definition buildMediaKey :: "string \<Rightarrow> string \<Rightarrow> int option \<Rightarrow> int option \<Rightarrow> string" where
  "buildMediaKey ty tmdbId season episode =
     (let t = media_type_of ty; i = trim tmdbId in
      case (t, season, episode) of
        (TvType, Some s, Some e) \<Rightarrow>
          ''media:v1:'' @ type_name t @ '':'' @ i @ '':'' @ show_int s @ '':'' @ show_int e
      | _ \<Rightarrow> ''media:v1:'' @ type_name t @ '':'' @ i @ '':0:0'')"

definition buildProviderResultKey :: "string \<Rightarrow> string \<Rightarrow> string" where
  "buildProviderResultKey rv k = ''provider-result:v1:'' @ rv @ '':'' @ k"

definition buildAggregateResultKey :: "string \<Rightarrow> string \<Rightarrow> string" where
  "buildAggregateResultKey rv k = ''aggregate-result:v1:'' @ rv @ '':'' @ k"

definition buildPlaybackGrantKey :: "string \<Rightarrow> string" where
  "buildPlaybackGrantKey i = ''playback-grant:v1:'' @ trim i"

definition buildHealthKey :: "string \<Rightarrow> string" where
  "buildHealthKey i = ''health:v1:'' @ trim i"

definition buildCircuitKey :: "string \<Rightarrow> string" where
  "buildCircuitKey i = ''circuit:v1:'' @ trim i"

text \<open>\<open>enc\<close> is \<open>encodeURIComponent\<close>.\<close>

definition buildCatalogKey ::
  "(string \<Rightarrow> string) \<Rightarrow> string \<Rightarrow> string \<Rightarrow> string \<Rightarrow> string \<Rightarrow> string \<Rightarrow> string" where
  "buildCatalogKey enc rv addonSlug ty catalogId extraKey =
     ''catalog:v1:'' @ rv @ '':'' @ enc (trim addonSlug) @ '':'' @ enc (trim ty) @ '':'' @
     enc (trim catalogId) @ '':'' @ extraKey"

subsection \<open>The LRU cache\<close>

record 'r lru_entry =
  le_value :: 'r
  le_expiresAt :: time_ms

record 'r lru =
  lc_map :: "(string, 'r lru_entry) jsmap"
  lc_evictions :: nat
  lc_maxEntries :: nat

definition new_lru :: "nat \<Rightarrow> 'r lru" where
  "new_lru n = \<lparr>lc_map = [], lc_evictions = 0, lc_maxEntries = n\<rparr>"

definition lru_get :: "time_ms \<Rightarrow> string \<Rightarrow> 'r lru \<Rightarrow> 'r option \<times> 'r lru" where
  "lru_get now k c =
     (case jm_get (lc_map c) k of
        None \<Rightarrow> (None, c)
      | Some e \<Rightarrow>
          if le_expiresAt e < now then (None, c\<lparr>lc_map := jm_delete k (lc_map c)\<rparr>)
          else (Some (le_value e), c\<lparr>lc_map := jm_set k e (jm_delete k (lc_map c))\<rparr>))"

text \<open>
  \<open>set\<close>: room is made by removing the key itself or, when full, the oldest key; the code
  tests the oldest key for truth, so an empty key is never evicted.
\<close>

definition make_room :: "string \<Rightarrow> 'r lru \<Rightarrow> 'r lru" where
  "make_room k c =
     (if jm_has (lc_map c) k then c\<lparr>lc_map := jm_delete k (lc_map c)\<rparr>
      else if lc_maxEntries c \<le> length (lc_map c) then
        (case lc_map c of
           [] \<Rightarrow> c
         | (oldest, e) # m \<Rightarrow>
             if oldest \<noteq> [] then c\<lparr>lc_map := jm_delete oldest (lc_map c), lc_evictions := Suc (lc_evictions c)\<rparr>
             else c)
      else c)"

definition lru_set :: "time_ms \<Rightarrow> string \<Rightarrow> 'r \<Rightarrow> int \<Rightarrow> 'r lru \<Rightarrow> 'r lru" where
  "lru_set now k v ttlSec c =
     (let c1 = make_room k c in
      c1\<lparr>lc_map := jm_set k \<lparr>le_value = v, le_expiresAt = now + ttlSec * 1000\<rparr> (lc_map c1)\<rparr>)"

definition lru_del :: "string \<Rightarrow> 'r lru \<Rightarrow> bool \<times> 'r lru" where
  "lru_del k c = (jm_has (lc_map c) k, c\<lparr>lc_map := jm_delete k (lc_map c)\<rparr>)"

definition lru_deletePrefix :: "string \<Rightarrow> 'r lru \<Rightarrow> nat \<times> 'r lru" where
  "lru_deletePrefix p c =
     (length (filter (\<lambda>(k, e). starts_with k p) (lc_map c)),
      c\<lparr>lc_map := filter (\<lambda>(k, e). \<not> starts_with k p) (lc_map c)\<rparr>)"

definition lru_clear :: "'r lru \<Rightarrow> 'r lru" where
  "lru_clear c = c\<lparr>lc_map := []\<rparr>"

definition lru_size :: "'r lru \<Rightarrow> nat" where
  "lru_size c = length (lc_map c)"

text \<open>What a read at a time finds.\<close>

definition lru_peek :: "time_ms \<Rightarrow> string \<Rightarrow> 'r lru \<Rightarrow> 'r option" where
  "lru_peek now k c =
     (case jm_get (lc_map c) k of
        None \<Rightarrow> None
      | Some e \<Rightarrow> if le_expiresAt e < now then None else Some (le_value e))"

lemma fst_lru_get: "fst (lru_get now k c) = lru_peek now k c"
  by (simp add: lru_get_def lru_peek_def split: option.split)

lemma lru_peek_get:
  "now \<le> now' \<Longrightarrow> lru_peek now' k' (snd (lru_get now k c)) = lru_peek now' k' c"
  by (cases "jm_get (lc_map c) k") (auto simp: lru_get_def lru_peek_def)

lemma lru_peek_set_same:
  "lru_peek now k (lru_set t k v ttl c) = (if t + ttl * 1000 < now then None else Some v)"
  by (simp add: lru_set_def lru_peek_def Let_def)

lemma make_room_get:
  "jm_get (lc_map (make_room k c)) k' = None \<or>
     jm_get (lc_map (make_room k c)) k' = jm_get (lc_map c) k'"
proof (cases "lc_map c")
  case Nil
  then show ?thesis by (simp add: make_room_def jm_has_def)
next
  case (Cons p m)
  then have "jm_get (jm_delete x (lc_map c)) k' = None \<or>
      jm_get (jm_delete x (lc_map c)) k' = jm_get (lc_map c) k'" for x
    by (simp del: delete_simps)
  then show ?thesis using Cons by (simp add: make_room_def split_beta del: delete_simps)
qed

lemma lru_peek_room: "lru_peek now k' (make_room k c) \<in> {None, lru_peek now k' c}"
  using make_room_get [of k c k'] by (auto simp: lru_peek_def)

lemma lru_peek_set_other:
  "k' \<noteq> k \<Longrightarrow> lru_peek now k' (lru_set t k v ttl c) \<in> {None, lru_peek now k' c}"
  using lru_peek_room [of now k' k c] by (simp add: lru_set_def lru_peek_def Let_def)

definition lru_ok :: "'r lru \<Rightarrow> bool" where
  "lru_ok c \<longleftrightarrow> jm_ok (lc_map c) \<and> [] \<notin> fst ` set (lc_map c) \<and>
     length (lc_map c) \<le> max 1 (lc_maxEntries c)"


lemma lru_ok_new [simp]: "lru_ok (new_lru n)"
  by (simp add: lru_ok_def new_lru_def)

lemma fst_delete: "fst ` set (AList.delete k m) = fst ` set m - {k}"
  by (induction m) auto

lemma lru_ok_shrink:
  "lru_ok c \<Longrightarrow> jm_ok m \<Longrightarrow> fst ` set m \<subseteq> fst ` set (lc_map c) \<Longrightarrow> length m \<le> length (lc_map c) \<Longrightarrow>
     lc_maxEntries c' = lc_maxEntries c \<Longrightarrow> lc_map c' = m \<Longrightarrow> lru_ok c'"
  by (auto simp: lru_ok_def)

lemma lru_ok_get:
  assumes "lru_ok c" shows "lru_ok (snd (lru_get now k c))"
proof (cases "jm_get (lc_map c) k")
  case None
  then show ?thesis using assms by (simp add: lru_get_def)
next
  case (Some e)
  have k: "jm_has (lc_map c) k" and ok: "jm_ok (lc_map c)"
    using Some assms by (simp_all add: jm_has_def lru_ok_def)
  have len: "Suc (length (jm_delete k (lc_map c))) = length (lc_map c)"
    by (rule length_jm_delete [OF ok k])
  have "\<not> jm_has (jm_delete k (lc_map c)) k" by (simp add: jm_has_def)
  then have "length (jm_set k e (jm_delete k (lc_map c))) = length (lc_map c)"
    using len by (simp add: length_jm_set)
  moreover have "k \<in> fst ` set (lc_map c)" using Some by (force dest: map_of_SomeD)
  ultimately show ?thesis
    using assms len Some
    by (auto simp: lru_ok_def lru_get_def fst_delete dom_update [unfolded dom_map_of_conv_image_fst])
qed

lemma lru_ok_make_room:
  assumes "lru_ok c"
  shows "lru_ok (make_room k c) \<and> \<not> jm_has (lc_map (make_room k c)) k \<and>
    length (lc_map (make_room k c)) < max 1 (lc_maxEntries c) \<and>
    lc_maxEntries (make_room k c) = lc_maxEntries c"
proof (cases "jm_has (lc_map c) k")
  case True
  then show ?thesis
    using assms length_jm_delete [of "lc_map c" k]
    by (auto simp: make_room_def lru_ok_def fst_delete jm_has_def)
next
  case False
  show ?thesis
  proof (cases "lc_map c")
    case Nil
    then show ?thesis using assms False by (auto simp: make_room_def lru_ok_def)
  next
    case (Cons p m)
    obtain o' e where p: "p = (o', e)" by fastforce
    have "o' \<notin> fst ` set m" "o' \<noteq> []"
      using assms Cons p by (force simp: lru_ok_def jm_ok_def)+
    then have "jm_delete o' (lc_map c) = m"
      using Cons p by (simp add: jm_delete_absent map_of_eq_None_iff)
    then show ?thesis
      using assms False Cons p \<open>o' \<noteq> []\<close>
      by (simp add: make_room_def lru_ok_def jm_ok_def jm_has_def map_of_eq_None_iff
          image_iff del: delete_simps split: if_splits)
  qed
qed

lemma lru_ok_set:
  assumes "lru_ok c" "k \<noteq> []" shows "lru_ok (lru_set now k v ttl c)"
  using lru_ok_make_room [OF assms(1), of k] assms(2)
  by (auto simp: lru_set_def Let_def lru_ok_def length_jm_set
      dom_update [unfolded dom_map_of_conv_image_fst])

lemma lru_ok_del: "lru_ok c \<Longrightarrow> lru_ok (snd (lru_del k c))"
  by (rule lru_ok_shrink [of c]) (auto simp: lru_del_def lru_ok_def fst_delete length_delete_le)

lemma lru_ok_deletePrefix: "lru_ok c \<Longrightarrow> lru_ok (snd (lru_deletePrefix p c))"
  by (rule lru_ok_shrink [of c]) (auto simp: lru_deletePrefix_def lru_ok_def)

lemma lru_peek_deletePrefix:
  "lru_ok c \<Longrightarrow> lru_peek now k (snd (lru_deletePrefix p c)) =
     (if starts_with k p then None else lru_peek now k c)"
  by (auto simp: lru_peek_def lru_deletePrefix_def map_of_filter_key lru_ok_def split: option.split)

lemma lru_peek_del: "lru_peek now k' (snd (lru_del k c)) = (if k' = k then None else lru_peek now k' c)"
  by (simp add: lru_peek_def lru_del_def)

subsection \<open>The cache manager\<close>

record cache_ttls =
  ct_mediaSec :: int
  ct_providerResultSec :: int
  ct_aggregateResultSec :: int
  ct_aggregateSwrSec :: int
  ct_playbackGrantSec :: int
  ct_healthSec :: int
  ct_circuitSec :: int
  ct_catalogSec :: int

definition DEFAULT_CACHE_TTLS :: cache_ttls where
  "DEFAULT_CACHE_TTLS =
     \<lparr>ct_mediaSec = 86400, ct_providerResultSec = 3600, ct_aggregateResultSec = 3600,
      ct_aggregateSwrSec = 300, ct_playbackGrantSec = 7200, ct_healthSec = 900,
      ct_circuitSec = 30, ct_catalogSec = 1800\<rparr>"

record 'r cache_manager =
  cm_memory :: "'r lru"
  cm_hits :: nat
  cm_misses :: nat
  cm_swrHits :: nat
  cm_sets :: nat
  cm_bypasses :: nat
  cm_authDisabled :: bool

definition new_cache_manager :: "bool \<Rightarrow> 'r cache_manager" where
  "new_cache_manager authDisabled =
     \<lparr>cm_memory = new_lru 10000, cm_hits = 0, cm_misses = 0, cm_swrHits = 0, cm_sets = 0,
      cm_bypasses = 0, cm_authDisabled = authDisabled\<rparr>"

text \<open>
  Redis, when configured and connected, answers before the memory tier; its reply to each
  call is an argument (\<open>NoClient\<close> on the memory backend or while it cannot be reached), and
  a failing call is rethrown. \<open>falsy\<close> says a stored text is empty, which counts as absent;
  the text is returned for the caller to parse.
\<close>

datatype cache_error = RedisFailed

definition cm_get ::
  "('r \<Rightarrow> bool) \<Rightarrow> 'r option reply \<Rightarrow> time_ms \<Rightarrow> string \<Rightarrow> 'r cache_manager \<Rightarrow> (cache_error + 'r option) \<times> 'r cache_manager" where
  "cm_get falsy redis now k m =
     (if redis = CallFailed then (Inl RedisFailed, m)
      else
        (let (raw, c) =
               (case redis of
                  Answered (Some r) \<Rightarrow> if falsy r then lru_get now k (cm_memory m) else (Some r, cm_memory m)
                | _ \<Rightarrow> lru_get now k (cm_memory m));
             m1 = m\<lparr>cm_memory := c\<rparr> in
         case raw of
           Some r \<Rightarrow> if falsy r then (Inr None, m1\<lparr>cm_misses := Suc (cm_misses m1)\<rparr>)
                     else (Inr (Some r), m1\<lparr>cm_hits := Suc (cm_hits m1)\<rparr>)
         | None \<Rightarrow> (Inr None, m1\<lparr>cm_misses := Suc (cm_misses m1)\<rparr>)))"

definition cm_set ::
  "unit reply \<Rightarrow> time_ms \<Rightarrow> string \<Rightarrow> 'r \<Rightarrow> int \<Rightarrow> 'r cache_manager \<Rightarrow> (cache_error + unit) \<times> 'r cache_manager" where
  "cm_set redis now k v ttlSec m =
     (let m1 = m\<lparr>cm_sets := Suc (cm_sets m)\<rparr> in
      if redis = CallFailed then (Inl RedisFailed, m1)
      else (Inr (), m1\<lparr>cm_memory := lru_set now k v ttlSec (cm_memory m1)\<rparr>))"

definition cm_del :: "unit reply \<Rightarrow> string \<Rightarrow> 'r cache_manager \<Rightarrow> (cache_error + unit) \<times> 'r cache_manager" where
  "cm_del redis k m =
     (if redis = CallFailed then (Inl RedisFailed, m)
      else (Inr (), m\<lparr>cm_memory := snd (lru_del k (cm_memory m))\<rparr>))"

text \<open>
  \<open>invalidatePrefix\<close>: \<open>n\<close> is the number of keys the Redis scan deleted before it ended or
  failed (a failure is swallowed).
\<close>

definition cm_invalidatePrefix :: "nat \<Rightarrow> string \<Rightarrow> 'r cache_manager \<Rightarrow> nat \<times> 'r cache_manager" where
  "cm_invalidatePrefix n p m =
     (let (n1, c) = lru_deletePrefix p (cm_memory m) in (n + n1, m\<lparr>cm_memory := c\<rparr>))"

text \<open>The invalidation events discard the counts; a failed deletion ends the health event early.\<close>

definition invalidateOnRevisionChange :: "'r cache_manager \<Rightarrow> 'r cache_manager" where
  "invalidateOnRevisionChange m =
     snd (cm_invalidatePrefix 0 ''provider-result:v1:'' (snd (cm_invalidatePrefix 0 ''aggregate-result:v1:'' m)))"

definition invalidateOnDebridChange :: "'r cache_manager \<Rightarrow> 'r cache_manager" where
  "invalidateOnDebridChange m =
     snd (cm_invalidatePrefix 0 ''provider-result:v1:'' (snd (cm_invalidatePrefix 0 ''aggregate-result:v1:'' m)))"

definition invalidateOnHealthChange ::
  "unit reply \<Rightarrow> unit reply \<Rightarrow> string \<Rightarrow> 'r cache_manager \<Rightarrow> (cache_error + unit) \<times> 'r cache_manager" where
  "invalidateOnHealthChange redis1 redis2 providerId m =
     (case cm_del redis1 (buildHealthKey providerId) m of
        (Inl e, m1) \<Rightarrow> (Inl e, m1)
      | (Inr u, m1) \<Rightarrow>
          (case cm_del redis2 (buildCircuitKey providerId) m1 of
             (Inl e, m2) \<Rightarrow> (Inl e, m2)
           | (Inr u, m2) \<Rightarrow> (Inr (), snd (cm_invalidatePrefix 0 ''aggregate-result:v1:'' m2))))"

text \<open>
  \<open>shouldBypass\<close>. The header expression yields a string from either spelling of
  \<open>x-cache-bypass\<close> (an empty one is skipped) or else the boolean comparison with
  \<open>no-cache\<close>; the test after it compares with strings only.
\<close>

datatype header_value = HeaderStr string | HeaderBool bool

record cache_auth =
  ca_role :: "string option"
  ca_isOperator :: bool
  ca_isAdmin :: bool

definition bypass_header :: "(string, string) jsmap \<Rightarrow> header_value" where
  "bypass_header h =
     (case (jm_get h ''x-cache-bypass'', jm_get h ''X-Cache-Bypass'') of
        (Some (c # s), _) \<Rightarrow> HeaderStr (c # s)
      | (_, Some (c # s)) \<Rightarrow> HeaderStr (c # s)
      | _ \<Rightarrow> HeaderBool (jm_get h ''cache-control'' = Some ''no-cache''))"

definition is_privileged :: "bool \<Rightarrow> cache_auth option \<Rightarrow> bool" where
  "is_privileged authDisabled auth \<longleftrightarrow> authDisabled \<or>
     (case auth of None \<Rightarrow> False
      | Some a \<Rightarrow> ca_role a = Some ''admin'' \<or> ca_role a = Some ''operator'' \<or> ca_isAdmin a \<or> ca_isOperator a)"

definition shouldBypass ::
  "cache_auth option \<Rightarrow> (string, string) jsmap \<Rightarrow> 'r cache_manager \<Rightarrow> bool \<times> 'r cache_manager" where
  "shouldBypass auth h m =
     (if bypass_header h \<in> {HeaderStr ''true'', HeaderStr ''1'', HeaderStr ''no-cache''} \<and>
         is_privileged (cm_authDisabled m) auth
      then (True, m\<lparr>cm_bypasses := Suc (cm_bypasses m)\<rparr>) else (False, m))"

text \<open>
  \<open>asSwrStorage\<close>: reads bypass the hit counters, writes count as sets. \<open>storage_get\<close> and
  \<open>storage_set\<close> are its two operations when Redis does not answer.
\<close>

definition storage_get :: "time_ms \<Rightarrow> string \<Rightarrow> 'r cache_manager \<Rightarrow> 'r option \<times> 'r cache_manager" where
  "storage_get now k m = (let (r, c) = lru_get now k (cm_memory m) in (r, m\<lparr>cm_memory := c\<rparr>))"

definition storage_get_via ::
  "('r \<Rightarrow> bool) \<Rightarrow> 'r option reply \<Rightarrow> time_ms \<Rightarrow> string \<Rightarrow> 'r cache_manager \<Rightarrow> (cache_error + 'r option) \<times> 'r cache_manager" where
  "storage_get_via falsy redis now k m =
     (let tier = (let (r, m1) = storage_get now k m in (Inr r, m1)) in
      case redis of
        CallFailed \<Rightarrow> (Inl RedisFailed, m)
      | Answered (Some r) \<Rightarrow> if falsy r then tier else (Inr (Some r), m)
      | _ \<Rightarrow> tier)"

definition storage_set :: "time_ms \<Rightarrow> string \<Rightarrow> 'r \<Rightarrow> int \<Rightarrow> 'r cache_manager \<Rightarrow> 'r cache_manager" where
  "storage_set now k v ttlSec m = snd (cm_set NoClient now k v ttlSec m)"

subsection \<open>Single flight\<close>

text \<open>A promise is named by the number of the execution it stands for.\<close>

record flight_entry =
  fe_promise :: nat
  fe_subscribers :: nat
  fe_startedAt :: time_ms

record flight_group =
  sg_inFlight :: "(string, flight_entry) jsmap"
  sg_totalCoalesced :: nat
  sg_totalExecuted :: nat
  sg_next :: nat

definition new_flight_group :: flight_group where
  "new_flight_group = \<lparr>sg_inFlight = [], sg_totalCoalesced = 0, sg_totalExecuted = 0, sg_next = 0\<rparr>"

text \<open>\<open>do\<close>: the promise the caller gets, and whether its function was started.\<close>

definition flight_do :: "time_ms \<Rightarrow> string \<Rightarrow> flight_group \<Rightarrow> (nat \<times> bool) \<times> flight_group" where
  "flight_do now k g =
     (case jm_get (sg_inFlight g) k of
        Some e \<Rightarrow> ((fe_promise e, False),
                   g\<lparr>sg_totalCoalesced := Suc (sg_totalCoalesced g),
                     sg_inFlight := jm_set k (e\<lparr>fe_subscribers := Suc (fe_subscribers e)\<rparr>) (sg_inFlight g)\<rparr>)
      | None \<Rightarrow> ((sg_next g, True),
                 g\<lparr>sg_totalExecuted := Suc (sg_totalExecuted g), sg_next := Suc (sg_next g),
                   sg_inFlight := jm_set k \<lparr>fe_promise = sg_next g, fe_subscribers = 1, fe_startedAt = now\<rparr>
                                    (sg_inFlight g)\<rparr>))"

text \<open>The \<open>finally\<close> of the execution, by key, and \<open>reset\<close>.\<close>

definition flight_settle :: "string \<Rightarrow> flight_group \<Rightarrow> flight_group" where
  "flight_settle k g = g\<lparr>sg_inFlight := jm_delete k (sg_inFlight g)\<rparr>"

definition flight_reset :: "flight_group \<Rightarrow> flight_group" where
  "flight_reset g = g\<lparr>sg_inFlight := [], sg_totalCoalesced := 0, sg_totalExecuted := 0\<rparr>"

record flight_metrics =
  fm_activeInFlight :: nat
  fm_totalExecuted :: nat
  fm_totalCoalesced :: nat

definition flight_metrics_of :: "flight_group \<Rightarrow> flight_metrics" where
  "flight_metrics_of g =
     \<lparr>fm_activeInFlight = length (sg_inFlight g), fm_totalExecuted = sg_totalExecuted g,
      fm_totalCoalesced = sg_totalCoalesced g\<rparr>"

definition inFlightCount :: "flight_group \<Rightarrow> nat" where
  "inFlightCount g = length (sg_inFlight g)"

text \<open>The manager's \<open>clear\<close> also forgets the flights; \<open>snapshot\<close> reads the counters.\<close>

definition cm_clear :: "'r cache_manager \<times> flight_group \<Rightarrow> 'r cache_manager \<times> flight_group" where
  "cm_clear mg = ((fst mg)\<lparr>cm_memory := lru_clear (cm_memory (fst mg))\<rparr>, flight_reset (snd mg))"

record cache_metrics =
  cx_hits :: nat
  cx_misses :: nat
  cx_swrHits :: nat
  cx_sets :: nat
  cx_evictions :: nat
  cx_bypasses :: nat
  cx_cardinality :: nat

definition cm_snapshot :: "'r cache_manager \<Rightarrow> cache_metrics" where
  "cm_snapshot m =
     \<lparr>cx_hits = cm_hits m, cx_misses = cm_misses m, cx_swrHits = cm_swrHits m, cx_sets = cm_sets m,
      cx_evictions = lc_evictions (cm_memory m), cx_bypasses = cm_bypasses m,
      cx_cardinality = lru_size (cm_memory m)\<rparr>"

text \<open>
  Runs of a group: calls, and executions that settle. The second component lists the
  executions still running, with their key; the third counts the calls made.
\<close>

inductive flight_run :: "flight_group \<Rightarrow> (string \<times> nat) list \<Rightarrow> nat \<Rightarrow> bool" where
  flight_start: "flight_run new_flight_group [] 0"
| flight_call: "\<lbrakk>flight_run g rs n; flight_do now k g = ((p, started), g')\<rbrakk> \<Longrightarrow>
    flight_run g' (if started then rs @ [(k, p)] else rs) (Suc n)"
| flight_done: "\<lbrakk>flight_run g rs n; (k, p) \<in> set rs\<rbrakk> \<Longrightarrow>
    flight_run (flight_settle k g) (remove1 (k, p) rs) n"


inductive_cases flight_run_cases: "flight_run g rs n"

definition flight_inv :: "flight_group \<Rightarrow> (string \<times> nat) list \<Rightarrow> nat \<Rightarrow> bool" where
  "flight_inv g rs n \<longleftrightarrow> jm_ok (sg_inFlight g) \<and>
     map (\<lambda>(k, e). (k, fe_promise e)) (sg_inFlight g) = rs \<and>
     n = sg_totalExecuted g + sg_totalCoalesced g"

lemma map_promise_set:
  "jm_get m k = Some e \<Longrightarrow> fe_promise e' = fe_promise e \<Longrightarrow>
     map (\<lambda>(k, e). (k, fe_promise e)) (jm_set k e' m) = map (\<lambda>(k, e). (k, fe_promise e)) m"
  by (induction m) (auto split: if_splits)

lemma map_promise_new:
  "jm_get m k = None \<Longrightarrow>
     map (\<lambda>(k, e). (k, fe_promise e)) (jm_set k e m) = map (\<lambda>(k, e). (k, fe_promise e)) m @ [(k, fe_promise e)]"
  by (induction m) (auto split: if_splits)

lemma map_promise_delete:
  "jm_ok m \<Longrightarrow> (k, p) \<in> set (map (\<lambda>(k, e). (k, fe_promise e)) m) \<Longrightarrow>
     map (\<lambda>(k, e). (k, fe_promise e)) (jm_delete k m) =
       remove1 (k, p) (map (\<lambda>(k, e). (k, fe_promise e)) m)"
proof (induction m)
  case (Cons x m)
  obtain k' e where x: "x = (k', e)" by fastforce
  show ?case
  proof (cases "k' = k")
    case True
    then have "jm_delete k m = m" "(k, p) \<notin> set (map (\<lambda>(k, e). (k, fe_promise e)) m)"
      using Cons.prems(1) x by (force simp: jm_ok_def jm_delete_absent map_of_eq_None_iff)+
    then show ?thesis using True x Cons.prems(2) by auto
  next
    case False
    then show ?thesis using Cons x by (auto simp: jm_ok_def)
  qed
qed simp

lemma flight_inv_run: "flight_run g rs n \<Longrightarrow> flight_inv g rs n"
proof (induction rule: flight_run.induct)
  case flight_start
  show ?case by (simp add: flight_inv_def new_flight_group_def)
next
  case (flight_call g rs n now k p started g')
  show ?case
  proof (cases "jm_get (sg_inFlight g) k")
    case None
    then show ?thesis
      using flight_call by (auto simp: flight_do_def flight_inv_def map_promise_new)
  next
    case (Some e)
    then show ?thesis
      using flight_call by (auto simp: flight_do_def flight_inv_def map_promise_set)
  qed
next
  case (flight_done g rs n k p)
  then show ?case by (auto simp: flight_inv_def flight_settle_def map_promise_delete)
qed

subsection \<open>Stale-while-revalidate\<close>

record 'v swr_envelope =
  ev_value :: 'v
  ev_cachedAt :: time_ms
  ev_expiresAt :: time_ms
  ev_staleUntil :: time_ms

record swr_options =
  sw_ttlSec :: int
  sw_swrSec :: int

datatype swr_source = FreshHit | StaleSwr | MissSource

text \<open>
  The caller's outcome: a value at once, or the promise of the fetch it waits for. The flag
  says whether this call started its fetcher (in the background for a stale answer).
\<close>

datatype 'v swr_answer = Answer 'v swr_source | AwaitFetch nat

definition swr_key :: "string \<Rightarrow> string" where
  "swr_key k = ''swr:'' @ k"

text \<open>
  \<open>dec\<close> is \<open>JSON.parse\<close> with the envelope check; \<open>None\<close> covers an empty text, a parse
  error and a missing \<open>cachedAt\<close>, all of which are treated as a miss.
\<close>

definition getOrFetch ::
  "(time_ms \<Rightarrow> string \<Rightarrow> 's \<Rightarrow> 'r option \<times> 's) \<Rightarrow> ('r \<Rightarrow> 'v swr_envelope option) \<Rightarrow>
     time_ms \<Rightarrow> string \<Rightarrow> 's \<times> flight_group \<Rightarrow> ('v swr_answer \<times> bool) \<times> 's \<times> flight_group" where
  "getOrFetch get dec now k st =
     (let (raw, s) = get now k (fst st);
          ((p, started), g) = flight_do now (swr_key k) (snd st) in
      case Option.bind raw dec of
        Some env \<Rightarrow>
          if now \<le> ev_expiresAt env then ((Answer (ev_value env) FreshHit, False), (s, snd st))
          else if now \<le> ev_staleUntil env then ((Answer (ev_value env) StaleSwr, started), (s, g))
          else ((AwaitFetch p, started), (s, g))
      | None \<Rightarrow> ((AwaitFetch p, started), (s, g)))"

definition envelope :: "time_ms \<Rightarrow> 'v \<Rightarrow> swr_options \<Rightarrow> 'v swr_envelope" where
  "envelope now v op =
     \<lparr>ev_value = v, ev_cachedAt = now, ev_expiresAt = now + sw_ttlSec op * 1000,
      ev_staleUntil = now + (sw_ttlSec op + sw_swrSec op) * 1000\<rparr>"

definition writeEnvelope ::
  "(time_ms \<Rightarrow> string \<Rightarrow> 'r \<Rightarrow> int \<Rightarrow> 's \<Rightarrow> 's) \<Rightarrow> ('v swr_envelope \<Rightarrow> 'r) \<Rightarrow>
     time_ms \<Rightarrow> string \<Rightarrow> 'v \<Rightarrow> swr_options \<Rightarrow> 's \<Rightarrow> 's" where
  "writeEnvelope put enc now k v op s =
     put now k (enc (envelope now v op)) (sw_ttlSec op + sw_swrSec op) s"

text \<open>The fetch of a key ends: with a value it is written; either way the flight settles.\<close>

definition fetch_done ::
  "(time_ms \<Rightarrow> string \<Rightarrow> 'r \<Rightarrow> int \<Rightarrow> 's \<Rightarrow> 's) \<Rightarrow> ('v swr_envelope \<Rightarrow> 'r) \<Rightarrow>
     time_ms \<Rightarrow> string \<Rightarrow> 'v option \<Rightarrow> swr_options \<Rightarrow> 's \<times> flight_group \<Rightarrow> 's \<times> flight_group" where
  "fetch_done put enc now k res op st =
     (case res of
        Some v \<Rightarrow> (writeEnvelope put enc now k v op (fst st), flight_settle (swr_key k) (snd st))
      | None \<Rightarrow> (fst st, flight_settle (swr_key k) (snd st)))"

text \<open>The contract of the storage interface: \<open>see\<close> is what a read at a time finds.\<close>

locale swr_storage =
  fixes ok :: "'s \<Rightarrow> bool"
    and see :: "time_ms \<Rightarrow> string \<Rightarrow> 's \<Rightarrow> 'r option"
    and get :: "time_ms \<Rightarrow> string \<Rightarrow> 's \<Rightarrow> 'r option \<times> 's"
    and put :: "time_ms \<Rightarrow> string \<Rightarrow> 'r \<Rightarrow> int \<Rightarrow> 's \<Rightarrow> 's"
  assumes get_see: "fst (get now k s) = see now k s"
    and ok_get: "ok s \<Longrightarrow> ok (snd (get now k s))"
    and ok_put: "ok s \<Longrightarrow> k \<noteq> [] \<Longrightarrow> ok (put now k v ttl s)"
    and see_get: "now \<le> now' \<Longrightarrow> see now' k' (snd (get now k s)) = see now' k' s"
    and see_put: "see now k (put t k v ttl s) = (if t + ttl * 1000 < now then None else Some v)"
    and see_put_other: "k' \<noteq> k \<Longrightarrow> see now k' (put t k v ttl s) \<in> {None, see now k' s}"
begin

lemma swr_after_write:
  assumes "dec (enc (envelope t v op)) = Some (envelope t v op)" and "0 \<le> sw_swrSec op"
  shows "fst (fst (getOrFetch get dec now k (writeEnvelope put enc t k v op s, g))) =
    (if now \<le> t + sw_ttlSec op * 1000 then Answer v FreshHit
     else if now \<le> t + (sw_ttlSec op + sw_swrSec op) * 1000 then Answer v StaleSwr
     else AwaitFetch (fst (fst (flight_do now (swr_key k) g))))"
  using assms
  by (auto simp: getOrFetch_def writeEnvelope_def Let_def case_prod_unfold get_see see_put envelope_def
      algebra_simps)

text \<open>Another key's write never makes a stale or foreign value appear.\<close>

lemma write_other:
  "k' \<noteq> k \<Longrightarrow> fst (get now k' (writeEnvelope put enc t k v op s)) \<in> {None, fst (get now k' s)}"
  unfolding writeEnvelope_def get_see by (rule see_put_other)

end

definition cm_ok :: "'r cache_manager \<Rightarrow> bool" where
  "cm_ok m \<longleftrightarrow> lru_ok (cm_memory m)"

definition storage_see :: "time_ms \<Rightarrow> string \<Rightarrow> 'r cache_manager \<Rightarrow> 'r option" where
  "storage_see now k m = lru_peek now k (cm_memory m)"

lemmas storage_defs = storage_get_def storage_set_def storage_see_def cm_set_def cm_ok_def

interpretation cm: swr_storage cm_ok storage_see storage_get storage_set
proof unfold_locales
  fix now now' t ttl :: int and k k' :: string and v :: 'r and s :: "'r cache_manager"
  show "fst (storage_get now k s) = storage_see now k s"
    by (simp add: storage_defs Let_def case_prod_unfold fst_lru_get)
  show "cm_ok s \<Longrightarrow> cm_ok (snd (storage_get now k s))"
    by (simp add: storage_defs Let_def case_prod_unfold lru_ok_get)
  show "cm_ok s \<Longrightarrow> k \<noteq> [] \<Longrightarrow> cm_ok (storage_set now k v ttl s)"
    by (simp add: storage_defs lru_ok_set)
  show "now \<le> now' \<Longrightarrow> storage_see now' k' (snd (storage_get now k s)) = storage_see now' k' s"
    by (simp add: storage_defs Let_def case_prod_unfold lru_peek_get)
  show "storage_see now k (storage_set t k v ttl s) = (if t + ttl * 1000 < now then None else Some v)"
    by (simp add: storage_defs lru_peek_set_same)
  show "k' \<noteq> k \<Longrightarrow> storage_see now k' (storage_set t k v ttl s) \<in> {None, storage_see now k' s}"
    using lru_peek_set_other [of k' k now t v ttl "cm_memory s"] by (simp add: storage_defs)
qed

subsection \<open>Properties\<close>

lemma cm_memory_new: "cm_memory (new_cache_manager dis) = new_lru 10000"
  "lc_maxEntries (new_lru n) = n"
  by (simp_all add: new_cache_manager_def new_lru_def)

text \<open>Operations of the manager on its cache, for runs.\<close>

datatype 'r cache_op =
    CGet "'r option reply" time_ms string | CSet "unit reply" time_ms string 'r int
  | CDel "unit reply" string | CInvalidate nat string
  | CRevision | CDebrid | CHealth "unit reply" "unit reply" string

definition cache_apply :: "'r cache_op \<Rightarrow> 'r cache_manager \<Rightarrow> 'r cache_manager" where
  "cache_apply c m =
     (case c of
        CGet re t k \<Rightarrow> snd (cm_get (\<lambda>_. False) re t k m)
      | CSet re t k v ttl \<Rightarrow> snd (cm_set re t k v ttl m)
      | CDel re k \<Rightarrow> snd (cm_del re k m)
      | CInvalidate n p \<Rightarrow> snd (cm_invalidatePrefix n p m)
      | CRevision \<Rightarrow> invalidateOnRevisionChange m
      | CDebrid \<Rightarrow> invalidateOnDebridChange m
      | CHealth r1 r2 i \<Rightarrow> snd (invalidateOnHealthChange r1 r2 i m))"

definition set_key_ok :: "'r cache_op \<Rightarrow> bool" where
  "set_key_ok c = (case c of CSet re t k v ttl \<Rightarrow> k \<noteq> [] | _ \<Rightarrow> True)"

lemmas cm_op_defs = cm_get_def cm_set_def cm_del_def cm_invalidatePrefix_def
  invalidateOnRevisionChange_def invalidateOnDebridChange_def invalidateOnHealthChange_def

lemma cache_apply_ok: "cm_ok m \<Longrightarrow> set_key_ok c \<Longrightarrow> cm_ok (cache_apply c m)"
  by (cases c)
    (auto simp: cache_apply_def set_key_ok_def cm_op_defs cm_ok_def Let_def case_prod_unfold lru_ok_get
      lru_ok_set lru_ok_del lru_ok_deletePrefix split: option.split reply.split sum.split)

lemma lru_maxEntries_frame [simp]:
  "lc_maxEntries (snd (lru_get now k c)) = lc_maxEntries c"
  "lc_maxEntries (lru_set now k v ttl c) = lc_maxEntries c"
  "lc_maxEntries (snd (lru_del k c)) = lc_maxEntries c"
  "lc_maxEntries (snd (lru_deletePrefix p c)) = lc_maxEntries c"
  by (simp_all add: lru_get_def lru_set_def make_room_def lru_del_def lru_deletePrefix_def Let_def
      split: option.split list.split)

lemma cache_apply_max: "lc_maxEntries (cm_memory (cache_apply c m)) = lc_maxEntries (cm_memory m)"
  by (cases c) (simp_all add: cache_apply_def cm_op_defs Let_def case_prod_unfold split: option.split reply.split sum.split)

lemma cache_run_ok:
  "\<forall>c \<in> set cs. set_key_ok c \<Longrightarrow> cm_ok m \<Longrightarrow>
     cm_ok (fold cache_apply cs m) \<and>
     lc_maxEntries (cm_memory (fold cache_apply cs m)) = lc_maxEntries (cm_memory m)"
  by (induction cs arbitrary: m) (auto simp: cache_apply_ok cache_apply_max)


text \<open>
  The memory cache stays bounded: from a new manager, after any sequence of reads,
  writes under non-empty keys, deletions and invalidations, it holds at most 10000 entries
  under distinct keys.
\<close>

lemma cache_bounded:
  assumes "\<forall>c \<in> set cs. set_key_ok c"
  shows "lru_size (cm_memory (fold cache_apply cs (new_cache_manager dis))) \<le> 10000 \<and>
    distinct (map fst (lc_map (cm_memory (fold cache_apply cs (new_cache_manager dis)))))"
  using cache_run_ok [OF assms, of "new_cache_manager dis"]
  by (simp add: cm_ok_def cm_memory_new lru_ok_def [of "cm_memory (fold f xs m)" for f xs m]
      jm_ok_def lru_size_def) linarith

theorem cache_bounded_witness:
  "lru_size (cm_memory (fold cache_apply
     [CSet NoClient 0 ''health:v1:a'' ''up'' 60, CGet CallFailed 5 ''health:v1:a'', CHealth NoClient (Answered ()) '' a '', CRevision]
     (new_cache_manager True))) \<le> 10000"
  using cache_bounded [of "[CSet NoClient 0 ''health:v1:a'' ''up'' 60, CGet CallFailed 5 ''health:v1:a'', CHealth NoClient (Answered ()) '' a '', CRevision]" True]
  by (simp add: set_key_ok_def)

text \<open>
  A provider revision change invalidates exactly the result caches: no provider or
  aggregate result is readable afterwards, whatever revision it was stored under, and every
  other key (media, grants, health, circuits) reads as before.
\<close>

lemma revision_invalidates_results:
  assumes "cm_ok m"
  shows "storage_see now k (invalidateOnRevisionChange m) =
      (if starts_with k ''provider-result:v1:'' \<or> starts_with k ''aggregate-result:v1:''
       then None else storage_see now k m) \<and>
    storage_see now (buildProviderResultKey rv mk) (invalidateOnRevisionChange m) = None \<and>
    storage_see now (buildAggregateResultKey rv mk) (invalidateOnRevisionChange m) = None \<and>
    storage_see now (buildMediaKey ty i se ep) (invalidateOnRevisionChange m) =
      storage_see now (buildMediaKey ty i se ep) m \<and>
    storage_see now (buildPlaybackGrantKey i) (invalidateOnRevisionChange m) =
      storage_see now (buildPlaybackGrantKey i) m"
proof -
  have see: "storage_see now k (invalidateOnRevisionChange m) =
      (if starts_with k ''provider-result:v1:'' \<or> starts_with k ''aggregate-result:v1:''
       then None else storage_see now k m)" for k
    using assms
    by (simp add: invalidateOnRevisionChange_def cm_invalidatePrefix_def Let_def case_prod_unfold
        storage_see_def cm_ok_def lru_peek_deletePrefix lru_ok_deletePrefix)
  show ?thesis
    by (simp add: see buildProviderResultKey_def buildAggregateResultKey_def buildMediaKey_def
        buildPlaybackGrantKey_def starts_with_def Let_def split: media_type.split option.split)
qed

definition demo_cache :: "string cache_manager" where
  "demo_cache = storage_set 0 (buildProviderResultKey ''7'' ''m'') ''old'' 60
     (storage_set 0 (buildMediaKey ''movie'' '' 603 '' None None) ''meta'' 60 (new_cache_manager True))"

theorem revision_invalidates_results_witness:
  "storage_see 5 ''provider-result:v1:7:m'' demo_cache = Some ''old'' \<and>
   storage_see 5 ''provider-result:v1:7:m'' (invalidateOnRevisionChange demo_cache) = None \<and>
   storage_see 5 ''media:v1:movie:603:0:0'' (invalidateOnRevisionChange demo_cache) = Some ''meta''"
proof -
  have "cm_ok demo_cache"
    unfolding demo_cache_def
    by (intro cm.ok_put) (simp_all add: cm_ok_def new_cache_manager_def buildMediaKey_def
        buildProviderResultKey_def Let_def split: media_type.split option.split)
  moreover have "storage_see 5 ''provider-result:v1:7:m'' demo_cache = Some ''old''"
    "storage_see 5 ''media:v1:movie:603:0:0'' demo_cache = Some ''meta''"
    by (simp_all add: demo_cache_def storage_defs lru_peek_def lru_set_def make_room_def jm_has_def
        new_cache_manager_def new_lru_def buildMediaKey_def buildProviderResultKey_def
        media_type_of_def type_name_def trim_def is_space_def)
  ultimately show ?thesis
    using revision_invalidates_results [of demo_cache 5 "''provider-result:v1:7:m''"]
      revision_invalidates_results [of demo_cache 5 "''media:v1:movie:603:0:0''"]
    by (simp add: starts_with_def)
qed

text \<open>
  Stale-while-revalidate over the manager: once a fetch that yields \<open>v\<close> is done at
  \<open>t\<close>, a request is answered with \<open>v\<close> at once during the TTL, without starting a fetch;
  with \<open>v\<close> but a background fetch under way during the grace period; and after it the
  request waits for a fetch. Serialisation is assumed to round-trip the envelope.
\<close>

lemma swr_serves_within_grace:
  assumes "dec (enc (envelope t v op)) = Some (envelope t v op)" and "0 \<le> sw_swrSec op"
  shows "(if now \<le> t + sw_ttlSec op * 1000 then
       fst (getOrFetch storage_get dec now k (fetch_done storage_set enc t k (Some v) op (m, g))) =
         (Answer v FreshHit, False)
     else fst (getOrFetch storage_get dec now k (fetch_done storage_set enc t k (Some v) op (m, g))) =
         (if now \<le> t + (sw_ttlSec op + sw_swrSec op) * 1000 then Answer v StaleSwr
          else AwaitFetch (sg_next g), True) \<and>
       jm_has (sg_inFlight (snd (snd (getOrFetch storage_get dec now k
         (fetch_done storage_set enc t k (Some v) op (m, g)))))) (swr_key k))"
proof -
  have st: "fetch_done storage_set enc t k (Some v) op (m, g) =
      (writeEnvelope storage_set enc t k v op m, flight_settle (swr_key k) g)"
    by (simp add: fetch_done_def)
  have fl: "fst (flight_do now (swr_key k) (flight_settle (swr_key k) g)) = (sg_next g, True)"
    "jm_has (sg_inFlight (snd (flight_do now (swr_key k) (flight_settle (swr_key k) g)))) (swr_key k)"
    by (simp_all add: flight_do_def flight_settle_def jm_has_def)
  have see: "fst (storage_get now k (writeEnvelope storage_set enc t k v op m)) =
      (if t + (sw_ttlSec op + sw_swrSec op) * 1000 < now then None else Some (enc (envelope t v op)))"
    by (simp add: writeEnvelope_def cm.get_see cm.see_put)
  have le: "t + sw_ttlSec op * 1000 \<le> t + (sw_ttlSec op + sw_swrSec op) * 1000"
    using assms(2) by simp
  have env: "ev_expiresAt (envelope t v op) = t + sw_ttlSec op * 1000"
    "ev_staleUntil (envelope t v op) = t + (sw_ttlSec op + sw_swrSec op) * 1000"
    "ev_value (envelope t v op) = v"
    by (simp_all add: envelope_def)
  consider (fresh) "now \<le> t + sw_ttlSec op * 1000"
    | (stale) "t + sw_ttlSec op * 1000 < now" "now \<le> t + (sw_ttlSec op + sw_swrSec op) * 1000"
    | (gone) "t + (sw_ttlSec op + sw_swrSec op) * 1000 < now"
    by linarith
  then show ?thesis
  proof cases
    case fresh
    with le have "\<not> t + (sw_ttlSec op + sw_swrSec op) * 1000 < now" by linarith
    then show ?thesis
      unfolding st getOrFetch_def Let_def case_prod_unfold fst_conv snd_conv see fl
      using fresh by (simp add: assms(1) env)
  next
    case stale
    then show ?thesis
      unfolding st getOrFetch_def Let_def case_prod_unfold fst_conv snd_conv see fl
      by (simp add: assms(1) env fl)
  next
    case gone
    with le have "\<not> now \<le> t + sw_ttlSec op * 1000" "\<not> now \<le> t + (sw_ttlSec op + sw_swrSec op) * 1000"
      by linarith+
    then show ?thesis
      unfolding st getOrFetch_def Let_def case_prod_unfold fst_conv snd_conv see fl
      using gone by (simp add: fl)
  qed
qed

text \<open>An instance: the stored text is the envelope itself, or a text that does not parse.\<close>

theorem swr_serves_within_grace_witness:
  "fst (getOrFetch storage_get (\<lambda>r. r) 95000 ''k''
     (fetch_done storage_set Some 1000 ''k'' (Some ''v'') \<lparr>sw_ttlSec = 60, sw_swrSec = 300\<rparr>
       (new_cache_manager True, new_flight_group))) = (Answer ''v'' StaleSwr, True)"
  using swr_serves_within_grace [of "\<lambda>r. r" Some 1000 "''v''" "\<lparr>sw_ttlSec = 60, sw_swrSec = 300\<rparr>"
      95000 "''k''" "new_cache_manager True" new_flight_group] by simp

text \<open>
  Single flight coalesces: in any run of a group (without \<open>reset\<close>) at most one
  execution per key is running, the calls are split into executions and coalesced ones, and
  a caller's promise is that of the one running execution of its key, which it started
  exactly when none was running.
\<close>

lemma single_flight_coalesces:
  assumes "flight_run g rs n"
  shows "distinct (map fst rs) \<and> n = sg_totalExecuted g + sg_totalCoalesced g \<and>
    inFlightCount g = length rs \<and>
    (snd (fst (flight_do now k g)) = (k \<notin> fst ` set rs)) \<and>
    (snd (fst (flight_do now k g)) \<or> (k, fst (fst (flight_do now k g))) \<in> set rs)"
proof -
  have inv: "flight_inv g rs n" using assms by (rule flight_inv_run)
  then have keys: "map fst rs = map fst (sg_inFlight g)" by (auto simp: flight_inv_def)
  moreover have "(k, fe_promise e) \<in> set rs" if "jm_get (sg_inFlight g) k = Some e" for e
    using inv map_of_SomeD [OF that] by (force simp: flight_inv_def)
  moreover have "k \<in> fst ` set rs \<longleftrightarrow> jm_get (sg_inFlight g) k \<noteq> None"
    using keys by (metis list.set_map map_of_eq_None_iff)
  ultimately show ?thesis
    using inv by (auto simp: flight_inv_def jm_ok_def inFlightCount_def flight_do_def split: option.split)
qed

definition demo_group :: flight_group where
  "demo_group = snd (flight_do 2 ''swr:k'' (snd (flight_do 1 ''swr:k'' new_flight_group)))"

theorem single_flight_coalesces_witness:
  "fst (flight_do 3 ''swr:k'' demo_group) = (0, False) \<and> inFlightCount demo_group = 1"
proof -
  have "flight_run (snd (flight_do 1 ''swr:k'' new_flight_group)) [(''swr:k'', 0)] 1"
    using flight_call [OF flight_start, where now = 1 and k = "''swr:k''" and started = True]
    by (simp add: flight_do_def new_flight_group_def)
  then have "flight_run demo_group [(''swr:k'', 0)] 2"
    using flight_call [of "snd (flight_do 1 ''swr:k'' new_flight_group)" _ _ 2 "''swr:k''" 0 False demo_group]
    by (simp add: demo_group_def flight_do_def new_flight_group_def numeral_2_eq_2)
  then show ?thesis
    using single_flight_coalesces [of demo_group "[(''swr:k'', 0)]" 2 3 "''swr:k''"]
    by (auto simp: prod_eq_iff)
qed

text \<open>
  A \<open>cache-control: no-cache\<close> header alone bypasses the cache for nobody, although the code
  lists \<open>no-cache\<close> among the values that do: the comparison makes the header a boolean.
\<close>

lemma no_cache_never_bypasses:
  "jm_get h ''x-cache-bypass'' = None \<Longrightarrow> jm_get h ''X-Cache-Bypass'' = None \<Longrightarrow>
     fst (shouldBypass auth h m) = False"
  by (simp add: shouldBypass_def bypass_header_def)

end
