(* ===== verification/UrlPolicy.thy ===== *)
theory UrlPolicy
  imports Text "HOL-Library.Word"
begin

unbundle bit_operations_syntax

text \<open>
  The outbound URL policy, \<open>src/security/urlPolicy.ts\<close>: classification of IPv4 and IPv6
  texts, host rules, and the whole of \<open>validateOutboundUrl\<close> and \<open>assertUrlSyntax\<close>.
  IPv4 addresses are 32-bit words, as the code's unsigned shifts make them. \<open>isIP\<close> of
  Node is written out from its documented grammar; the WHATWG URL parser and the DNS
  lookup are arguments of the validation functions.
\<close>

subsection \<open>\<open>isIP\<close>\<close>

definition octet_text :: "string \<Rightarrow> bool" where
  "octet_text p \<longleftrightarrow> p \<noteq> [] \<and> list_all is_digit p \<and> length p \<le> 3 \<and>
     (1 < length p \<longrightarrow> hd p \<noteq> CHR ''0'') \<and> parse_dec p \<le> 255"

definition is_ipv4 :: "string \<Rightarrow> bool" where
  "is_ipv4 s \<longleftrightarrow> (let ps = split_on CHR ''.'' s in length ps = 4 \<and> list_all octet_text ps)"

definition hextet_text :: "string \<Rightarrow> bool" where
  "hextet_text p \<longleftrightarrow> p \<noteq> [] \<and> length p \<le> 4 \<and> list_all is_hex p"

text \<open>
  The number of 16-bit groups a colon-separated part stands for, when it is well formed; a
  dotted IPv4 group may only come last and counts twice.
\<close>

definition group_count :: "bool \<Rightarrow> string list \<Rightarrow> nat option" where
  "group_count v4_tail ps =
     (if list_all hextet_text ps then Some (length ps)
      else if v4_tail \<and> ps \<noteq> [] \<and> list_all hextet_text (butlast ps) \<and> is_ipv4 (last ps)
      then Some (Suc (length ps)) else None)"

definition colon_parts :: "string \<Rightarrow> string list" where
  "colon_parts s = (if s = [] then [] else split_on CHR '':'' s)"

definition is_ipv6_body :: "string \<Rightarrow> bool" where
  "is_ipv6_body s =
     (case split_dcolon s of
        [a] \<Rightarrow> group_count True (colon_parts a) = Some 8
      | [a, b] \<Rightarrow>
          (case (group_count False (colon_parts a), group_count True (colon_parts b)) of
             (Some m, Some n) \<Rightarrow> m + n \<le> 7
           | _ \<Rightarrow> False)
      | _ \<Rightarrow> False)"

definition zone_char :: "char \<Rightarrow> bool" where
  "zone_char c = (let n = of_char c :: nat in
     48 \<le> n \<and> n \<le> 57 \<or> 65 \<le> n \<and> n \<le> 90 \<or> 97 \<le> n \<and> n \<le> 122 \<or> n = 45 \<or> n = 46 \<or> n = 58)"

definition is_ipv6 :: "string \<Rightarrow> bool" where
  "is_ipv6 s =
     (let body = takeWhile (\<lambda>c. c \<noteq> CHR ''%'') s; rest = dropWhile (\<lambda>c. c \<noteq> CHR ''%'') s in
      is_ipv6_body body \<and> (rest = [] \<or> tl rest \<noteq> [] \<and> list_all zone_char (tl rest)))"

definition isIP :: "string \<Rightarrow> nat" where
  "isIP s = (if is_ipv4 s then 4 else if is_ipv6 s then 6 else 0)"

subsection \<open>IPv4 ranges\<close>

definition ip4_parts :: "nat \<Rightarrow> nat \<Rightarrow> nat \<Rightarrow> nat \<Rightarrow> 32 word" where
  "ip4_parts a b c d =
     push_bit 24 (word_of_nat a) + push_bit 16 (word_of_nat b) + push_bit 8 (word_of_nat c) + word_of_nat d"

definition ip4 :: "string \<Rightarrow> 32 word" where
  "ip4 dotted = (let parts = map parse_dec (split_on CHR ''.'' dotted) in
     ip4_parts (parts ! 0) (parts ! 1) (parts ! 2) (parts ! 3))"

definition inCidr :: "32 word \<Rightarrow> 32 word \<Rightarrow> nat \<Rightarrow> bool" where
  "inCidr addr base msk = (if msk = 0 then True else drop_bit (32 - msk) addr = drop_bit (32 - msk) base)"

record ipv4_range =
  rg_base :: "32 word"
  rg_mask :: nat
  rg_label :: string

definition BLOCKED_IPV4 :: "ipv4_range list" where
  "BLOCKED_IPV4 =
     [\<lparr>rg_base = ip4 ''0.0.0.0'', rg_mask = 8, rg_label = ''this-network''\<rparr>,
      \<lparr>rg_base = ip4 ''10.0.0.0'', rg_mask = 8, rg_label = ''private''\<rparr>,
      \<lparr>rg_base = ip4 ''100.64.0.0'', rg_mask = 10, rg_label = ''cgnat''\<rparr>,
      \<lparr>rg_base = ip4 ''127.0.0.0'', rg_mask = 8, rg_label = ''loopback''\<rparr>,
      \<lparr>rg_base = ip4 ''169.254.0.0'', rg_mask = 16, rg_label = ''link-local''\<rparr>,
      \<lparr>rg_base = ip4 ''172.16.0.0'', rg_mask = 12, rg_label = ''private''\<rparr>,
      \<lparr>rg_base = ip4 ''192.0.0.0'', rg_mask = 24, rg_label = ''ietf-protocol''\<rparr>,
      \<lparr>rg_base = ip4 ''192.0.2.0'', rg_mask = 24, rg_label = ''test-net''\<rparr>,
      \<lparr>rg_base = ip4 ''192.168.0.0'', rg_mask = 16, rg_label = ''private''\<rparr>,
      \<lparr>rg_base = ip4 ''198.18.0.0'', rg_mask = 15, rg_label = ''benchmark''\<rparr>,
      \<lparr>rg_base = ip4 ''198.51.100.0'', rg_mask = 24, rg_label = ''test-net''\<rparr>,
      \<lparr>rg_base = ip4 ''203.0.113.0'', rg_mask = 24, rg_label = ''test-net''\<rparr>,
      \<lparr>rg_base = ip4 ''224.0.0.0'', rg_mask = 4, rg_label = ''multicast''\<rparr>,
      \<lparr>rg_base = ip4 ''255.255.255.255'', rg_mask = 32, rg_label = ''broadcast''\<rparr>,
      \<lparr>rg_base = ip4 ''240.0.0.0'', rg_mask = 4, rg_label = ''reserved''\<rparr>]"

definition classify_v4 :: "32 word \<Rightarrow> string option" where
  "classify_v4 n = map_option rg_label (find (\<lambda>r. inCidr n (rg_base r) (rg_mask r)) BLOCKED_IPV4)"

subsection \<open>IPv6\<close>

text \<open>\<open>fixTail\<close>: a dotted last part becomes two hexadecimal groups.\<close>

definition fixTail :: "string list \<Rightarrow> string list" where
  "fixTail parts =
     (if parts = [] then parts
      else if CHR ''.'' \<in> set (last parts) then
        (let v4 = map parse_dec (split_on CHR ''.'' (last parts)) in
         if length v4 \<noteq> 4 \<or> \<not> list_all (\<lambda>n. n \<le> 255) v4 then parts
         else butlast parts @ [show_hex (v4 ! 0 * 256 + v4 ! 1), show_hex (v4 ! 2 * 256 + v4 ! 3)])
      else parts)"

definition strip_outer_brackets :: "string \<Rightarrow> string" where
  "strip_outer_brackets s =
     (if s \<noteq> [] \<and> hd s = CHR ''['' \<and> last s = CHR '']'' then butlast (tl s) else s)"

definition normalizeIpv6 :: "string \<Rightarrow> string option" where
  "normalizeIpv6 address =
     (let addr = strip_outer_brackets (trim (to_lower address));
          body = takeWhile (\<lambda>c. c \<noteq> CHR ''%'') addr in
      if isIP body \<noteq> 6 then None
      else
        (let pieces = split_dcolon body;
             l = fixTail (colon_parts (hd pieces));
             r = fixTail (colon_parts (if tl pieces = [] then [] else hd (tl pieces))) in
         if 8 < length l + length r then None
         else Some (join_with '':''
           (map (pad_start 4 CHR ''0'') (l @ replicate (8 - (length l + length r)) ''0'' @ r)))))"

text \<open>The dotted form of the last two groups, as the code builds it with shifts and masks.\<close>

definition embedded_v4 :: "string \<Rightarrow> string \<Rightarrow> string" where
  "embedded_v4 g6 g7 =
     (let hi = parse_hex g6; lo = parse_hex g7 in
      show_nat (hi div 256 mod 256) @ ''.'' @ show_nat (hi mod 256) @ ''.'' @
      show_nat (lo div 256 mod 256) @ ''.'' @ show_nat (lo mod 256))"

text \<open>The IPv4 branch of \<open>classifyBlockedIp\<close>, which the IPv6 branch calls on an embedded address.\<close>

definition classify_dotted :: "string \<Rightarrow> string option" where
  "classify_dotted s = (if is_ipv4 s then classify_v4 (ip4 s) else Some ''invalid-ip'')"

definition classifyBlockedIp :: "string \<Rightarrow> string option" where
  "classifyBlockedIp address =
     (if isIP address = 0 then Some ''invalid-ip''
      else if isIP address = 4 then classify_dotted address
      else case normalizeIpv6 address of
        None \<Rightarrow> Some ''invalid-ip''
      | Some n \<Rightarrow>
          (let first = word_of_nat (parse_hex (take 4 n)) :: 32 word;
               parts = split_on CHR '':'' n;
               inner = classify_dotted (embedded_v4 (parts ! 6) (parts ! 7)) in
           if n = ''0000:0000:0000:0000:0000:0000:0000:0000'' then Some ''unspecified''
           else if n = ''0000:0000:0000:0000:0000:0000:0000:0001'' then Some ''loopback''
           else if first AND 0xfe00 = 0xfc00 then Some ''unique-local''
           else if first AND 0xffc0 = 0xfe80 then Some ''link-local''
           else if first AND 0xff00 = 0xff00 then Some ''multicast''
           else if starts_with n ''0000:0000:0000:0000:0000:ffff:'' then inner
           else if starts_with n ''0064:ff9b:0000:0000:0000:0000:''
           then map_option (\<lambda>r. ''nat64-'' @ r) inner
           else if starts_with n ''0064:ff9b:'' \<and> length parts = 8 \<and> inner \<noteq> None
           then map_option (\<lambda>r. ''nat64-'' @ r) inner
           else if first AND 0xffff = 0x2001 \<and> parse_hex (take 4 (drop 5 n)) = 0x0db8
           then Some ''documentation'' else None))"

subsection \<open>Hosts\<close>

definition strip_dot :: "string \<Rightarrow> string" where
  "strip_dot p = (case p of [] \<Rightarrow> [] | c # s \<Rightarrow> if c = CHR ''.'' then s else p)"

definition hostMatches :: "string \<Rightarrow> string \<Rightarrow> bool" where
  "hostMatches hostname pattern =
     (let h = to_lower hostname; p = strip_dot (to_lower pattern) in
      h = p \<or> ends_with h (''.'' @ p))"

definition hasUnsafeUrlChars :: "string \<Rightarrow> bool" where
  "hasUnsafeUrlChars raw =
     list_ex (\<lambda>ch. let c = of_char ch :: nat in c \<le> 0x1f \<or> c = 0x7f \<or> c = 0x20) raw"

text \<open>\<open>replace(/^\[|\]$/g, '')\<close>.\<close>

definition strip_brackets :: "string \<Rightarrow> string" where
  "strip_brackets s =
     (let t = (if s \<noteq> [] \<and> hd s = CHR ''['' then tl s else s) in
      if t \<noteq> [] \<and> last t = CHR '']'' then butlast t else t)"

definition isLiteralBlockedHost :: "string \<Rightarrow> string option" where
  "isLiteralBlockedHost hostname =
     (let h = strip_brackets (to_lower hostname) in
      if h = ''localhost'' \<or> ends_with h ''.localhost'' \<or> ends_with h ''.local'' then Some ''localhost''
      else if h = ''metadata.google.internal'' \<or> h = ''metadata'' \<or> ends_with h ''.internal''
      then Some ''cloud-metadata''
      else if isIP h \<noteq> 0 then classifyBlockedIp h
      else None)"

subsection \<open>Validation\<close>

datatype url_policy_error =
    INVALID_URL | BLOCKED_PROTOCOL | BLOCKED_CREDENTIALS | BLOCKED_HOST | BLOCKED_IP | DNS_FAILED
  | BLOCKED_PORT | URL_TOO_LONG

record url_options =
  uo_allowHttp :: bool
  uo_allowedProtocols :: "string list option"
  uo_allowHostSuffixes :: "string list option"
  uo_hostAllowlist :: "string list option"
  uo_allowCredentials :: bool
  uo_allowedPorts :: "int list option"
  uo_maxLength :: "nat option"
  uo_skipDns :: bool

text \<open>What the policy reads of a WHATWG \<open>URL\<close>.\<close>

record parsed_url =
  pu_protocol :: string
  pu_username :: string
  pu_password :: string
  pu_hostname :: string
  pu_port :: string

record validated_url =
  vu_url :: parsed_url
  vu_hostname :: string
  vu_addresses :: "string list"
  vu_pinnedAddress :: "string option"

definition allowed_protocols :: "url_options \<Rightarrow> string list" where
  "allowed_protocols o' =
     map (\<lambda>p. if ends_with p '':'' then to_lower p else to_lower p @ '':'')
       (or_else (uo_allowedProtocols o') [''https:'']) @
     (if uo_allowHttp o' then [''http:''] else [])"

definition effective_port :: "parsed_url \<Rightarrow> int option" where
  "effective_port u =
     (if pu_port u \<noteq> [] then Some (int (parse_dec (pu_port u)))
      else if pu_protocol u = ''https:'' then Some 443
      else if pu_protocol u = ''http:'' then Some 80 else None)"

definition host_exempt :: "string \<Rightarrow> url_options \<Rightarrow> bool" where
  "host_exempt hostname o' = list_ex (hostMatches hostname) (or_else (uo_allowHostSuffixes o') [])"

text \<open>The checks on the text that both validators start with.\<close>

definition check_text ::
  "(string \<Rightarrow> parsed_url option) \<Rightarrow> string \<Rightarrow> url_options \<Rightarrow> url_policy_error + parsed_url" where
  "check_text parse raw o' =
     (if raw = [] then Inl INVALID_URL
      else if or_else (uo_maxLength o') 2048 < length raw then Inl URL_TOO_LONG
      else if hasUnsafeUrlChars raw then Inl INVALID_URL
      else case parse raw of
        None \<Rightarrow> Inl INVALID_URL
      | Some url \<Rightarrow>
          if to_lower (pu_protocol url) \<notin> set (allowed_protocols o') then Inl BLOCKED_PROTOCOL
          else if \<not> uo_allowCredentials o' \<and> (pu_username url \<noteq> [] \<or> pu_password url \<noteq> [])
          then Inl BLOCKED_CREDENTIALS
          else Inr url)"

text \<open>The checks on host and port.\<close>

definition check_host :: "bool \<Rightarrow> parsed_url \<Rightarrow> url_options \<Rightarrow> url_policy_error option" where
  "check_host isProd url o' =
     (let hostname = strip_brackets (pu_hostname url) in
      if hostname = [] then Some INVALID_URL
      else if or_else (uo_hostAllowlist o') [] \<noteq> [] \<and>
        \<not> list_ex (hostMatches hostname) (or_else (uo_hostAllowlist o') []) then Some BLOCKED_HOST
      else if (\<not> host_exempt hostname o' \<or> isProd) \<and> isLiteralBlockedHost hostname \<noteq> None
      then Some BLOCKED_HOST
      else if or_else (uo_allowedPorts o') [] \<noteq> [] \<and>
        effective_port url \<notin> Some ` set (or_else (uo_allowedPorts o') []) then Some BLOCKED_PORT
      else None)"

text \<open>The addresses: \<open>lookup\<close> is the DNS lookup, \<open>None\<close> when it throws.\<close>

definition check_addresses ::
  "bool \<Rightarrow> (string \<Rightarrow> string list option) \<Rightarrow> string \<Rightarrow> url_options \<Rightarrow> url_policy_error + string list" where
  "check_addresses isProd lookup hostname o' =
     (let exempt = host_exempt hostname o' in
      if \<not> uo_skipDns o' \<and> isIP hostname = 0 then
        (case (case lookup hostname of
                 Some as' \<Rightarrow> Some as'
               | None \<Rightarrow> if exempt \<and> \<not> isProd then Some [''93.184.216.34''] else None) of
           None \<Rightarrow> Inl DNS_FAILED
         | Some as' \<Rightarrow>
             if as' = [] then Inl DNS_FAILED
             else if (\<not> exempt \<or> isProd) \<and> list_ex (\<lambda>a. classifyBlockedIp a \<noteq> None) as'
             then Inl BLOCKED_IP
             else Inr as')
      else if isIP hostname \<noteq> 0 then
        (if (\<not> exempt \<or> isProd) \<and> classifyBlockedIp hostname \<noteq> None then Inl BLOCKED_IP
         else Inr [hostname])
      else Inr [])"

definition validateOutboundUrl ::
  "(string \<Rightarrow> parsed_url option) \<Rightarrow> (string \<Rightarrow> string list option) \<Rightarrow> bool \<Rightarrow> string \<Rightarrow> url_options \<Rightarrow>
     url_policy_error + validated_url" where
  "validateOutboundUrl parse lookup isProd raw o' =
     (case check_text parse raw o' of
        Inl e \<Rightarrow> Inl e
      | Inr url \<Rightarrow>
          (case check_host isProd url o' of
             Some e \<Rightarrow> Inl e
           | None \<Rightarrow>
               (case check_addresses isProd lookup (strip_brackets (pu_hostname url)) o' of
                  Inl e \<Rightarrow> Inl e
                | Inr as' \<Rightarrow>
                    Inr \<lparr>vu_url = url, vu_hostname = strip_brackets (pu_hostname url), vu_addresses = as',
                         vu_pinnedAddress = (case as' of [] \<Rightarrow> None | a # _ \<Rightarrow> Some a)\<rparr>)))"

definition assertUrlSyntax ::
  "(string \<Rightarrow> parsed_url option) \<Rightarrow> string \<Rightarrow> url_options \<Rightarrow> url_policy_error + parsed_url" where
  "assertUrlSyntax parse raw o' =
     (case check_text parse raw o' of
        Inl e \<Rightarrow> Inl e
      | Inr url \<Rightarrow>
          (let hostname = strip_brackets (pu_hostname url) in
           if \<not> host_exempt hostname o' then
             (if isLiteralBlockedHost hostname \<noteq> None then Inl BLOCKED_HOST
              else if isIP hostname \<noteq> 0 \<and> classifyBlockedIp hostname \<noteq> None then Inl BLOCKED_IP
              else Inr url)
           else Inr url))"

definition policyFromFlags ::
  "bool option \<Rightarrow> string list option \<Rightarrow> string list option \<Rightarrow> url_options" where
  "policyFromFlags allowHttp hostAllowlist allowHostSuffixes =
     \<lparr>uo_allowHttp = or_else allowHttp False, uo_allowedProtocols = None,
      uo_allowHostSuffixes = allowHostSuffixes, uo_hostAllowlist = hostAllowlist,
      uo_allowCredentials = False, uo_allowedPorts = None, uo_maxLength = Some 2048, uo_skipDns = False\<rparr>"

subsection \<open>IPv4 lemmas\<close>

definition dotted :: "nat \<Rightarrow> nat \<Rightarrow> nat \<Rightarrow> nat \<Rightarrow> string" where
  "dotted a b c d = show_nat a @ ''.'' @ show_nat b @ ''.'' @ show_nat c @ ''.'' @ show_nat d"

lemma not_digit: "\<not> is_digit CHR ''.''" "\<not> is_digit CHR '':''" "\<not> is_digit CHR ''%''"
  by (simp_all add: is_digit_def)

lemma show_nat_no_sep [simp]:
  "CHR ''.'' \<notin> set (show_nat n)" "CHR '':'' \<notin> set (show_nat n)" "CHR ''%'' \<notin> set (show_nat n)"
  using show_nat_char not_digit by blast+

lemma split_dotted: "split_on CHR ''.'' (dotted a b c d) = [show_nat a, show_nat b, show_nat c, show_nat d]"
  by (simp add: dotted_def split_on_append split_on_none)

lemma octet_show: "n \<le> 255 \<Longrightarrow> octet_text (show_nat n)"
  unfolding octet_text_def
  using show_nat_length [of n] show_nat_leading [of n] show_nat_digits [of n]
  by (cases "n < 10"; cases "n < 100") auto

lemma is_ipv4_dotted:
  "a \<le> 255 \<Longrightarrow> b \<le> 255 \<Longrightarrow> c \<le> 255 \<Longrightarrow> d \<le> 255 \<Longrightarrow> is_ipv4 (dotted a b c d)"
  by (simp add: is_ipv4_def split_dotted octet_show)

lemma ip4_dotted: "ip4 (dotted a b c d) = ip4_parts a b c d"
  by (simp add: ip4_def split_dotted numeral_2_eq_2 numeral_3_eq_3)

lemma ip4_parts_nat:
  assumes "a \<le> 255" "b \<le> 255" "c \<le> 255" "d \<le> 255"
  shows "unat (ip4_parts a b c d) = a * 2 ^ 24 + b * 2 ^ 16 + c * 2 ^ 8 + d"
proof -
  let ?n = "a * 2 ^ 24 + b * 2 ^ 16 + c * 2 ^ 8 + d"
  have "ip4_parts a b c d = word_of_nat ?n"
    by (simp add: ip4_parts_def push_bit_eq_mult algebra_simps)
  then have "unat (ip4_parts a b c d) = ?n mod 2 ^ LENGTH(32)"
    by (simp only: unat_of_nat)
  moreover have "?n < 2 ^ LENGTH(32)" using assms by simp
  ultimately show ?thesis by (simp only: mod_less)
qed

lemma inCidr_nat:
  assumes "0 < msk"
  shows "inCidr x y msk \<longleftrightarrow> unat x div 2 ^ (32 - msk) = unat y div 2 ^ (32 - msk)"
proof -
  have "unat (drop_bit n w) = unat w div 2 ^ n" for n and w :: "32 word"
    by (subst unat_drop_bit_eq) (rule drop_bit_eq_div)
  then show ?thesis using assms unfolding inCidr_def word_unat_eq_iff by simp
qed

text \<open>The leading bits of a dotted quad, for the prefix lengths in use.\<close>

lemma quad_div:
  fixes a b c d :: nat
  assumes "b \<le> 255" "c \<le> 255" "d \<le> 255"
  shows "(a * 2 ^ 24 + b * 2 ^ 16 + c * 2 ^ 8 + d) div 2 ^ 24 = a"
    "(a * 2 ^ 24 + b * 2 ^ 16 + c * 2 ^ 8 + d) div 2 ^ 16 = a * 256 + b"
    "(a * 2 ^ 24 + b * 2 ^ 16 + c * 2 ^ 8 + d) div 2 ^ 8 = a * 65536 + b * 256 + c"
    "(a * 2 ^ 24 + b * 2 ^ 16 + c * 2 ^ 8 + d) div 2 ^ 28 = a div 16"
    "(a * 2 ^ 24 + b * 2 ^ 16 + c * 2 ^ 8 + d) div 2 ^ 22 = a * 4 + b div 64"
    "(a * 2 ^ 24 + b * 2 ^ 16 + c * 2 ^ 8 + d) div 2 ^ 20 = a * 16 + b div 16"
    "(a * 2 ^ 24 + b * 2 ^ 16 + c * 2 ^ 8 + d) div 2 ^ 17 = a * 128 + b div 2"
  using assms by simp_all


lemma radix_eq:
  fixes a b w x :: nat
  assumes "b < k" "x < k"
  shows "a * k + b = w * k + x \<longleftrightarrow> a = w \<and> b = x"
proof
  assume e: "a * k + b = w * k + x"
  have "(a * k + b) div k = a" "(w * k + x) div k = w" using assms by simp_all
  with e have "a = w" by metis
  with e show "a = w \<and> b = x" by simp
qed simp

lemma quad_eq:
  fixes a b c d w x y z :: nat
  assumes "b < 256" "c < 256" "d < 256" "x < 256" "y < 256" "z < 256"
  shows "a * 65536 + b * 256 + c = w * 65536 + x * 256 + y \<longleftrightarrow> a = w \<and> b = x \<and> c = y"
    "a * 16777216 + b * 65536 + c * 256 + d = w * 16777216 + x * 65536 + y * 256 + z \<longleftrightarrow>
      a = w \<and> b = x \<and> c = y \<and> d = z"
proof -
  have three: "(a * 256 + b) * 256 + c = a * 65536 + b * 256 + c" for a b c :: nat by (simp add: algebra_simps)
  have four: "((a * 256 + b) * 256 + c) * 256 + d = a * 16777216 + b * 65536 + c * 256 + d"
    for a b c d :: nat by (simp add: algebra_simps)
  show "a * 65536 + b * 256 + c = w * 65536 + x * 256 + y \<longleftrightarrow> a = w \<and> b = x \<and> c = y"
    unfolding three [symmetric] by (simp only: radix_eq assms conj_assoc)
  show "a * 16777216 + b * 65536 + c * 256 + d = w * 16777216 + x * 65536 + y * 256 + z \<longleftrightarrow>
      a = w \<and> b = x \<and> c = y \<and> d = z"
    unfolding four [symmetric] by (simp only: radix_eq assms conj_assoc)
qed

lemma inCidr_parts:
  assumes "a \<le> 255" "b \<le> 255" "c \<le> 255" "d \<le> 255" and "w \<le> 255" "x \<le> 255" "y \<le> 255" "z \<le> 255"
  shows "inCidr (ip4_parts a b c d) (ip4_parts w x y z) 4 \<longleftrightarrow> a div 16 = w div 16"
    "inCidr (ip4_parts a b c d) (ip4_parts w x y z) 8 \<longleftrightarrow> a = w"
    "inCidr (ip4_parts a b c d) (ip4_parts w x y z) 10 \<longleftrightarrow> a * 4 + b div 64 = w * 4 + x div 64"
    "inCidr (ip4_parts a b c d) (ip4_parts w x y z) 12 \<longleftrightarrow> a * 16 + b div 16 = w * 16 + x div 16"
    "inCidr (ip4_parts a b c d) (ip4_parts w x y z) 15 \<longleftrightarrow> a * 128 + b div 2 = w * 128 + x div 2"
    "inCidr (ip4_parts a b c d) (ip4_parts w x y z) 16 \<longleftrightarrow> a * 256 + b = w * 256 + x"
    "inCidr (ip4_parts a b c d) (ip4_parts w x y z) 24 \<longleftrightarrow> a * 65536 + b * 256 + c = w * 65536 + x * 256 + y"
    "inCidr (ip4_parts a b c d) (ip4_parts w x y z) 32 \<longleftrightarrow> a = w \<and> b = x \<and> c = y \<and> d = z"
proof -
  note q = quad_div [OF assms(2-4), of a] and r = quad_div [OF assms(6-8), of w]
  have div: "inCidr (ip4_parts a b c d) (ip4_parts w x y z) (32 - n) \<longleftrightarrow>
      (a * 2 ^ 24 + b * 2 ^ 16 + c * 2 ^ 8 + d) div 2 ^ n = (w * 2 ^ 24 + x * 2 ^ 16 + y * 2 ^ 8 + z) div 2 ^ n"
    if "n < 32" for n
    using that by (simp only: inCidr_nat ip4_parts_nat [OF assms(1-4)] ip4_parts_nat [OF assms(5-8)]) simp
  show "inCidr (ip4_parts a b c d) (ip4_parts w x y z) 4 \<longleftrightarrow> a div 16 = w div 16"
    using div [of 28, unfolded q(4) r(4)] by simp
  show "inCidr (ip4_parts a b c d) (ip4_parts w x y z) 8 \<longleftrightarrow> a = w"
    using div [of 24, unfolded q(1) r(1)] by simp
  show "inCidr (ip4_parts a b c d) (ip4_parts w x y z) 10 \<longleftrightarrow> a * 4 + b div 64 = w * 4 + x div 64"
    using div [of 22, unfolded q(5) r(5)] by simp
  show "inCidr (ip4_parts a b c d) (ip4_parts w x y z) 12 \<longleftrightarrow> a * 16 + b div 16 = w * 16 + x div 16"
    using div [of 20, unfolded q(6) r(6)] by simp
  show "inCidr (ip4_parts a b c d) (ip4_parts w x y z) 15 \<longleftrightarrow> a * 128 + b div 2 = w * 128 + x div 2"
    using div [of 17, unfolded q(7) r(7)] by simp
  show "inCidr (ip4_parts a b c d) (ip4_parts w x y z) 16 \<longleftrightarrow> a * 256 + b = w * 256 + x"
    using div [of 16, unfolded q(2) r(2)] by simp
  show "inCidr (ip4_parts a b c d) (ip4_parts w x y z) 24 \<longleftrightarrow>
      a * 65536 + b * 256 + c = w * 65536 + x * 256 + y"
    using div [of 8, unfolded q(3) r(3)] by simp
  have "a * 16777216 + b * 65536 + c * 256 + d = w * 16777216 + x * 65536 + y * 256 + z \<longleftrightarrow>
      a = w \<and> b = x \<and> c = y \<and> d = z"
    using assms by (intro quad_eq(2)) auto
  then show "inCidr (ip4_parts a b c d) (ip4_parts w x y z) 32 \<longleftrightarrow> a = w \<and> b = x \<and> c = y \<and> d = z"
    using div [of 0] by simp
qed

lemma BLOCKED_IPV4_parts:
  "map (\<lambda>r. (rg_base r, rg_mask r)) BLOCKED_IPV4 =
     [(ip4_parts 0 0 0 0, 8), (ip4_parts 10 0 0 0, 8), (ip4_parts 100 64 0 0, 10),
      (ip4_parts 127 0 0 0, 8), (ip4_parts 169 254 0 0, 16), (ip4_parts 172 16 0 0, 12),
      (ip4_parts 192 0 0 0, 24), (ip4_parts 192 0 2 0, 24), (ip4_parts 192 168 0 0, 16),
      (ip4_parts 198 18 0 0, 15), (ip4_parts 198 51 100 0, 24), (ip4_parts 203 0 113 0, 24),
      (ip4_parts 224 0 0 0, 4), (ip4_parts 255 255 255 255, 32), (ip4_parts 240 0 0 0, 4)]"
  by (simp add: BLOCKED_IPV4_def ip4_def parse_dec_def digit_val_def numeral_2_eq_2 [symmetric] flip: numeral_2_eq_2)

lemma classify_v4_blocked:
  "classify_v4 n \<noteq> None \<longleftrightarrow> (\<exists>p \<in> set (map (\<lambda>r. (rg_base r, rg_mask r)) BLOCKED_IPV4). inCidr n (fst p) (snd p))"
  by (auto simp: classify_v4_def find_None_iff)

lemma isIP_v4: "is_ipv4 s \<Longrightarrow> isIP s = 4"
  by (simp add: isIP_def)

lemma classify_dotted_text:
  "a \<le> 255 \<Longrightarrow> b \<le> 255 \<Longrightarrow> c \<le> 255 \<Longrightarrow> d \<le> 255 \<Longrightarrow>
     classifyBlockedIp (dotted a b c d) = classify_v4 (ip4_parts a b c d)"
  by (simp add: classifyBlockedIp_def isIP_v4 is_ipv4_dotted classify_dotted_def ip4_dotted)

lemma classify_ipv4_iff:
  assumes "a \<le> 255" "b \<le> 255" "c \<le> 255" "d \<le> 255"
  shows "(classifyBlockedIp (dotted a b c d) \<noteq> None) =
    (a \<in> {0, 10, 127} \<or> a = 100 \<and> 64 \<le> b \<and> b \<le> 127 \<or> a = 169 \<and> b = 254 \<or>
     a = 172 \<and> 16 \<le> b \<and> b \<le> 31 \<or> a = 192 \<and> (b = 168 \<or> b = 0 \<and> c \<in> {0, 2}) \<or>
     a = 198 \<and> (b \<in> {18, 19} \<or> b = 51 \<and> c = 100) \<or> a = 203 \<and> b = 0 \<and> c = 113 \<or> 224 \<le> a)"
proof -
  have "(classifyBlockedIp (dotted a b c d) \<noteq> None) =
    (a = 0 \<or> a = 10 \<or> a * 4 + b div 64 = 401 \<or> a = 127 \<or> a * 256 + b = 43518 \<or>
     a * 16 + b div 16 = 2753 \<or> a * 65536 + b * 256 + c = 12582912 \<or>
     a * 65536 + b * 256 + c = 12582914 \<or> a * 256 + b = 49320 \<or> a * 128 + b div 2 = 25353 \<or>
     a * 65536 + b * 256 + c = 12989284 \<or> a * 65536 + b * 256 + c = 13303921 \<or>
     a div 16 = 14 \<or> a = 255 \<and> b = 255 \<and> c = 255 \<and> d = 255 \<or> a div 16 = 15)"
    unfolding classify_dotted_text [OF assms] classify_v4_blocked BLOCKED_IPV4_parts
    using assms by (simp add: inCidr_parts)
  also have "\<dots> = (a \<in> {0, 10, 127} \<or> a = 100 \<and> 64 \<le> b \<and> b \<le> 127 \<or> a = 169 \<and> b = 254 \<or>
     a = 172 \<and> 16 \<le> b \<and> b \<le> 31 \<or> a = 192 \<and> (b = 168 \<or> b = 0 \<and> c \<in> {0, 2}) \<or>
     a = 198 \<and> (b \<in> {18, 19} \<or> b = 51 \<and> c = 100) \<or> a = 203 \<and> b = 0 \<and> c = 113 \<or> 224 \<le> a)"
  proof -
    have quad: "a * 65536 + b * 256 + c = w * 65536 + x * 256 + y \<longleftrightarrow> a = w \<and> b = x \<and> c = y"
      if "x < 256" "y < 256" for w x y
      using assms that by (intro quad_eq(1) [of _ _ 0 _ _ 0]) auto
    have e1: "a * 4 + b div 64 = 401 \<longleftrightarrow> a = 100 \<and> 64 \<le> b \<and> b \<le> 127"
      using radix_eq [of "b div 64" 4 1 a 100] assms by auto
    have e2: "a * 256 + b = 43518 \<longleftrightarrow> a = 169 \<and> b = 254"
      using radix_eq [of b 256 254 a 169] assms by auto
    have e3: "a * 16 + b div 16 = 2753 \<longleftrightarrow> a = 172 \<and> 16 \<le> b \<and> b \<le> 31"
      using radix_eq [of "b div 16" 16 1 a 172] assms by auto
    have e4: "a * 65536 + b * 256 + c = 12582912 \<longleftrightarrow> a = 192 \<and> b = 0 \<and> c = 0"
      using quad [of 0 0 192] by simp
    have e5: "a * 65536 + b * 256 + c = 12582914 \<longleftrightarrow> a = 192 \<and> b = 0 \<and> c = 2"
      using quad [of 0 2 192] by simp
    have e6: "a * 256 + b = 49320 \<longleftrightarrow> a = 192 \<and> b = 168"
      using radix_eq [of b 256 168 a 192] assms by auto
    have e7: "a * 128 + b div 2 = 25353 \<longleftrightarrow> a = 198 \<and> (b = 18 \<or> b = 19)"
      using radix_eq [of "b div 2" 128 9 a 198] assms by auto
    have e8: "a * 65536 + b * 256 + c = 12989284 \<longleftrightarrow> a = 198 \<and> b = 51 \<and> c = 100"
      using quad [of 51 100 198] by simp
    have e9: "a * 65536 + b * 256 + c = 13303921 \<longleftrightarrow> a = 203 \<and> b = 0 \<and> c = 113"
      using quad [of 0 113 203] by simp
    have e10: "a div 16 = 14 \<or> a = 255 \<and> b = 255 \<and> c = 255 \<and> d = 255 \<or> a div 16 = 15 \<longleftrightarrow> 224 \<le> a"
      using assms by auto
    show ?thesis unfolding e1 e2 e3 e4 e5 e6 e7 e8 e9 e10 by auto
  qed
  finally show ?thesis .
qed

text \<open>
  IPv4 classification is exact: a dotted quad is blocked exactly when it lies in one of
  the reserved ranges (this-network, the private, carrier-grade NAT, loopback, link-local
  and metadata, protocol, documentation and benchmark ranges, and everything from 224 up).
\<close>

lemma classify_ipv4_exact:
  assumes "a \<le> 255" "b \<le> 255" "c \<le> 255" "d \<le> 255"
  shows "(classifyBlockedIp (dotted a b c d) \<noteq> None) =
    (a \<in> {0, 10, 127} \<or> a = 100 \<and> 64 \<le> b \<and> b \<le> 127 \<or> a = 169 \<and> b = 254 \<or>
     a = 172 \<and> 16 \<le> b \<and> b \<le> 31 \<or> a = 192 \<and> (b = 168 \<or> b = 0 \<and> c \<in> {0, 2}) \<or>
     a = 198 \<and> (b \<in> {18, 19} \<or> b = 51 \<and> c = 100) \<or> a = 203 \<and> b = 0 \<and> c = 113 \<or> 224 \<le> a)"
  using assms by (rule classify_ipv4_iff)

theorem classify_ipv4_exact_witness:
  "classifyBlockedIp ''169.254.169.254'' \<noteq> None \<and> classifyBlockedIp ''93.184.216.34'' = None"
proof -
  have "dotted 169 254 169 254 = ''169.254.169.254''" "dotted 93 184 216 34 = ''93.184.216.34''"
    by code_simp+
  then show ?thesis
    using classify_ipv4_exact [of 169 254 169 254] classify_ipv4_exact [of 93 184 216 34] by simp
qed


subsection \<open>Embedded addresses\<close>

text \<open>Characters the normalisation leaves alone: lower-case letters, digits, dot and colon.\<close>

definition plain_char :: "char \<Rightarrow> bool" where
  "plain_char c = (let n = of_char c :: nat in 46 \<le> n \<and> n \<le> 58 \<or> 97 \<le> n \<and> n \<le> 122)"

lemma plain_text:
  assumes "list_all plain_char s"
  shows "to_lower s = s \<and> trim s = s \<and> strip_outer_brackets s = s \<and> CHR ''%'' \<notin> set s"
proof -
  have c: "lower_char c = c \<and> \<not> is_space c \<and> c \<noteq> CHR ''['' \<and> c \<noteq> CHR ''%''" if "c \<in> set s" for c
  proof -
    have "plain_char c" using assms that by (simp add: list_all_iff)
    then show ?thesis by (auto simp: plain_char_def lower_char_def is_space_def Let_def)
  qed
  then have "to_lower s = s" by (simp add: to_lower_def map_idI)
  moreover have "trim s = s" using c by (intro trim_id) (simp add: list_all_iff)
  moreover have "strip_outer_brackets s = s"
    using c [of "hd s"] by (cases s) (auto simp: strip_outer_brackets_def)
  ultimately show ?thesis using c by blast
qed

lemma plain_digit: "is_digit c \<Longrightarrow> plain_char c"
  by (simp add: is_digit_def plain_char_def Let_def)

lemma plain_show_nat [simp]: "list_all plain_char (show_nat n)"
  using show_nat_digits [of n] plain_digit by (auto simp: list_all_iff)

lemma plain_dotted [simp]: "list_all plain_char (dotted a b c d)"
  by (simp add: dotted_def plain_char_def)

lemma plain_show_hex [simp]: "list_all plain_char (show_hex n)"
proof (induction n rule: show_hex.induct)
  case (1 n)
  have "plain_char (hex_char d)" if "d < 16" for d
    using that by (auto simp: plain_char_def hex_char_def Let_def)
  then show ?case using 1 by (subst show_hex.simps) simp
qed

lemma hex_no_sep: "is_hex c \<Longrightarrow> c \<noteq> CHR '':'' \<and> c \<noteq> CHR ''.''"
  by (auto simp: is_hex_def hex_val_def)

lemma show_hex_no_sep [simp]: "CHR '':'' \<notin> set (show_hex n)" "CHR ''.'' \<notin> set (show_hex n)"
  using show_hex_hex [of n] hex_no_sep by (auto simp: list_all_iff)

lemma dotted_no_colon [simp]: "CHR '':'' \<notin> set (dotted a b c d)"
  by (simp add: dotted_def)

lemma dotted_dot [simp]: "CHR ''.'' \<in> set (dotted a b c d)"
  by (simp add: dotted_def)

lemma dotted_not_hextet [simp]: "\<not> hextet_text (dotted a b c d)"
  using hex_no_sep [of "CHR ''.''"] dotted_dot [of a b c d]
  unfolding hextet_text_def list_all_iff by blast

lemma hextet_show: "n < 65536 \<Longrightarrow> hextet_text (show_hex n)"
  using show_hex_length [of n 3] show_hex_hex [of n] by (simp add: hextet_text_def)

lemma set_split_on: "set s \<subseteq> insert c (\<Union> (set ` set (split_on c s)))"
  by (induction s) (auto split: list.split, blast)

lemma colon_not_ipv4: "CHR '':'' \<in> set s \<Longrightarrow> \<not> is_ipv4 s"
proof
  assume c: "CHR '':'' \<in> set s" and v: "is_ipv4 s"
  from c set_split_on [of s "CHR ''.''"]
  obtain p where "p \<in> set (split_on CHR ''.'' s)" "CHR '':'' \<in> set p" by auto
  with v not_digit(2) show False
    by (auto simp: is_ipv4_def Let_def octet_text_def list_all_iff)
qed

text \<open>The three forms an IPv4 address is embedded in.\<close>

definition mapped_dotted :: "nat \<Rightarrow> nat \<Rightarrow> nat \<Rightarrow> nat \<Rightarrow> string" where
  "mapped_dotted a b c d = ''::ffff:'' @ dotted a b c d"

definition mapped_hex :: "nat \<Rightarrow> nat \<Rightarrow> nat \<Rightarrow> nat \<Rightarrow> string" where
  "mapped_hex a b c d = ''::ffff:'' @ show_hex (a * 256 + b) @ '':'' @ show_hex (c * 256 + d)"

definition nat64_dotted :: "nat \<Rightarrow> nat \<Rightarrow> nat \<Rightarrow> nat \<Rightarrow> string" where
  "nat64_dotted a b c d = ''64:ff9b::'' @ dotted a b c d"

lemma split_dcolon_before:
  "t \<noteq> [] \<Longrightarrow> CHR '':'' \<notin> set t \<Longrightarrow> split_dcolon (CHR '':'' # t) = [CHR '':'' # t]"
  by (cases t) (auto simp: split_dcolon_none)

lemma dotted_not_Nil [simp]: "dotted a b c d \<noteq> []"
  by (simp add: dotted_def)

lemma pieces:
  "split_dcolon (mapped_dotted a b c d) = [[], ''ffff:'' @ dotted a b c d]"
  "split_dcolon (nat64_dotted a b c d) = [''64:ff9b'', dotted a b c d]"
  "split_dcolon (mapped_hex a b c d) =
     [[], ''ffff:'' @ show_hex (a * 256 + b) @ '':'' @ show_hex (c * 256 + d)]"
proof -
  show "split_dcolon (mapped_dotted a b c d) = [[], ''ffff:'' @ dotted a b c d]"
    by (simp add: mapped_dotted_def split_dcolon_before)
  show "split_dcolon (nat64_dotted a b c d) = [''64:ff9b'', dotted a b c d]"
    by (simp add: nat64_dotted_def split_dcolon_none)
  have "split_dcolon (CHR '':'' # show_hex m @ CHR '':'' # show_hex n) =
      [CHR '':'' # show_hex m @ CHR '':'' # show_hex n]" for m n
  proof -
    have "hd (show_hex m @ CHR '':'' # show_hex n) \<noteq> CHR '':''"
      using show_hex_no_sep(1) [of m] show_hex_not_Nil [of m] by (cases "show_hex m") auto
    then show ?thesis
      by (subst split_dcolon_colon) (simp_all add: split_dcolon_word split_dcolon_before)
  qed
  then show "split_dcolon (mapped_hex a b c d) =
      [[], ''ffff:'' @ show_hex (a * 256 + b) @ '':'' @ show_hex (c * 256 + d)]"
    by (simp add: mapped_hex_def)
qed

lemma hextet_literals: "hextet_text ''ffff''" "hextet_text ''64''" "hextet_text ''ff9b''"
  by (simp_all add: hextet_text_def is_hex_def hex_val_def)

lemma fixTail_dotted:
  assumes "a \<le> 255" "b \<le> 255" "c \<le> 255" "d \<le> 255"
  shows "fixTail (ps @ [dotted a b c d]) = ps @ [show_hex (a * 256 + b), show_hex (c * 256 + d)]"
  using assms by (simp add: fixTail_def split_dotted numeral_2_eq_2 numeral_3_eq_3)


lemma fixTail_hex: "CHR ''.'' \<notin> set q \<Longrightarrow> fixTail (ps @ [q]) = ps @ [q]"
  by (simp add: fixTail_def)

lemma octets_16: "a \<le> 255 \<Longrightarrow> b \<le> 255 \<Longrightarrow> a * 256 + b < (65536 :: nat)"
  by simp

lemma normalizeIpv6_plain:
  assumes "list_all plain_char s" and "isIP s = 6"
  shows "normalizeIpv6 s =
    (let pieces = split_dcolon s; l = fixTail (colon_parts (hd pieces));
         r = fixTail (colon_parts (if tl pieces = [] then [] else hd (tl pieces))) in
     if 8 < length l + length r then None
     else Some (join_with '':''
       (map (pad_start 4 CHR ''0'') (l @ replicate (8 - (length l + length r)) ''0'' @ r))))"
proof -
  note p = plain_text [OF assms(1)]
  have t: "takeWhile (\<lambda>c. c \<noteq> CHR ''%'') s = s"
    using p by (simp add: takeWhile_eq_all_conv) blast
  show ?thesis unfolding normalizeIpv6_def Let_def by (simp add: p t assms(2) del: takeWhile_eq_all_conv)
qed

lemma is_ipv6_plain:
  assumes "list_all plain_char s" and "CHR '':'' \<in> set s" and "is_ipv6_body s"
  shows "isIP s = 6"
proof -
  have n: "\<forall>c \<in> set s. c \<noteq> CHR ''%''" using plain_text [OF assms(1)] by blast
  have t: "takeWhile (\<lambda>c. c \<noteq> CHR ''%'') s = s" "dropWhile (\<lambda>c. c \<noteq> CHR ''%'') s = []"
    using n by (simp_all add: takeWhile_eq_all_conv)
  show ?thesis
    unfolding isIP_def is_ipv6_def Let_def t using assms colon_not_ipv4 by simp
qed

lemma plain_forms [simp]:
  "list_all plain_char (mapped_dotted a b c d)" "list_all plain_char (mapped_hex a b c d)"
  "list_all plain_char (nat64_dotted a b c d)"
  by (simp_all add: mapped_dotted_def mapped_hex_def nat64_dotted_def plain_char_def)

lemma colon_forms [simp]:
  "CHR '':'' \<in> set (mapped_dotted a b c d)" "CHR '':'' \<in> set (mapped_hex a b c d)"
  "CHR '':'' \<in> set (nat64_dotted a b c d)"
  by (simp_all add: mapped_dotted_def mapped_hex_def nat64_dotted_def)

lemma parts_forms:
  "colon_parts (''ffff:'' @ dotted a b c d) = [''ffff''] @ [dotted a b c d]"
  "colon_parts (dotted a b c d) = [] @ [dotted a b c d]"
  "colon_parts ''64:ff9b'' = [''64''] @ [''ff9b'']"
  "colon_parts (''ffff:'' @ show_hex (a * 256 + b) @ '':'' @ show_hex (c * 256 + d)) =
     [''ffff'', show_hex (a * 256 + b)] @ [show_hex (c * 256 + d)]"
  by (simp_all add: colon_parts_def split_on_append split_on_none)

lemma isIP_forms:
  assumes "a \<le> 255" "b \<le> 255" "c \<le> 255" "d \<le> 255"
  shows "isIP (mapped_dotted a b c d) = 6" "isIP (mapped_hex a b c d) = 6" "isIP (nat64_dotted a b c d) = 6"
proof -
  note defs = is_ipv6_body_def pieces parts_forms group_count_def hextet_literals hextet_show
    octets_16 assms is_ipv4_dotted
  have "colon_parts [] = []" by (simp add: colon_parts_def)
  then have "is_ipv6_body (mapped_dotted a b c d)" "is_ipv6_body (mapped_hex a b c d)"
    "is_ipv6_body (nat64_dotted a b c d)"
    by (simp_all add: defs del: append.simps)
  then show "isIP (mapped_dotted a b c d) = 6" "isIP (mapped_hex a b c d) = 6" "isIP (nat64_dotted a b c d) = 6"
    by (simp_all add: is_ipv6_plain)
qed

definition expanded :: "string \<Rightarrow> nat \<Rightarrow> nat \<Rightarrow> nat \<Rightarrow> nat \<Rightarrow> string" where
  "expanded p a b c d = p @ pad_start 4 CHR ''0'' (show_hex (a * 256 + b)) @ '':'' @
     pad_start 4 CHR ''0'' (show_hex (c * 256 + d))"

lemma normalize_forms:
  assumes "a \<le> 255" "b \<le> 255" "c \<le> 255" "d \<le> 255"
  shows "normalizeIpv6 (mapped_dotted a b c d) = Some (expanded ''0000:0000:0000:0000:0000:ffff:'' a b c d)"
    "normalizeIpv6 (mapped_hex a b c d) = Some (expanded ''0000:0000:0000:0000:0000:ffff:'' a b c d)"
    "normalizeIpv6 (nat64_dotted a b c d) = Some (expanded ''0064:ff9b:0000:0000:0000:0000:'' a b c d)"
proof -
  have pad: "pad_start 4 CHR ''0'' ''0'' = ''0000''" "pad_start 4 CHR ''0'' ''ffff'' = ''ffff''"
    "pad_start 4 CHR ''0'' ''64'' = ''0064''" "pad_start 4 CHR ''0'' ''ff9b'' = ''ff9b''"
    by (simp_all add: pad_start_def numeral_eq_Suc)
  have nil: "fixTail (colon_parts []) = []" by (simp add: colon_parts_def fixTail_def)
  have rep: "replicate 5 x = [x, x, x, x, x]" "replicate 4 x = [x, x, x, x]" for x :: string
    by (simp_all add: numeral_eq_Suc)
  show "normalizeIpv6 (mapped_dotted a b c d) = Some (expanded ''0000:0000:0000:0000:0000:ffff:'' a b c d)"
    unfolding normalizeIpv6_plain [OF plain_forms(1) isIP_forms(1) [OF assms]] pieces Let_def
    by (simp only: list.sel list.distinct if_False nil parts_forms fixTail_dotted [OF assms])
      (simp add: pad expanded_def rep)
  show "normalizeIpv6 (mapped_hex a b c d) = Some (expanded ''0000:0000:0000:0000:0000:ffff:'' a b c d)"
    unfolding normalizeIpv6_plain [OF plain_forms(2) isIP_forms(2) [OF assms]] pieces Let_def
    by (simp only: list.sel list.distinct if_False nil parts_forms fixTail_hex show_hex_no_sep simp_thms)
      (simp add: pad expanded_def rep)
  show "normalizeIpv6 (nat64_dotted a b c d) = Some (expanded ''0064:ff9b:0000:0000:0000:0000:'' a b c d)"
    unfolding normalizeIpv6_plain [OF plain_forms(3) isIP_forms(3) [OF assms]] pieces Let_def
    by (simp only: list.sel list.distinct if_False parts_forms fixTail_dotted [OF assms]
        fixTail_hex [of "''ff9b''" "[''64'']"])
      (simp add: pad expanded_def rep fixTail_def)
qed


lemma pad_no_colon [simp]: "CHR '':'' \<notin> set (pad_start 4 CHR ''0'' (show_hex n))"
  by (simp add: pad_start_def)

lemma split_expanded:
  "split_on CHR '':'' (expanded ''0000:0000:0000:0000:0000:ffff:'' a b c d) =
     [''0000'', ''0000'', ''0000'', ''0000'', ''0000'', ''ffff'',
      pad_start 4 CHR ''0'' (show_hex (a * 256 + b)), pad_start 4 CHR ''0'' (show_hex (c * 256 + d))]"
  "split_on CHR '':'' (expanded ''0064:ff9b:0000:0000:0000:0000:'' a b c d) =
     [''0064'', ''ff9b'', ''0000'', ''0000'', ''0000'', ''0000'',
      pad_start 4 CHR ''0'' (show_hex (a * 256 + b)), pad_start 4 CHR ''0'' (show_hex (c * 256 + d))]"
  by (simp_all add: expanded_def split_on_append split_on_none)

lemma embedded_groups:
  "a \<le> 255 \<Longrightarrow> b \<le> 255 \<Longrightarrow> c \<le> 255 \<Longrightarrow> d \<le> 255 \<Longrightarrow>
     embedded_v4 (pad_start 4 CHR ''0'' (show_hex (a * 256 + b))) (pad_start 4 CHR ''0'' (show_hex (c * 256 + d))) =
       dotted a b c d"
  by (simp add: embedded_v4_def dotted_def Let_def)



subsection \<open>Validation\<close>

lemma validate_Inr:
  "validateOutboundUrl parse lookup isProd raw o' = Inr v \<Longrightarrow>
     check_text parse raw o' = Inr (vu_url v) \<and> check_host isProd (vu_url v) o' = None \<and>
     vu_hostname v = strip_brackets (pu_hostname (vu_url v)) \<and>
     check_addresses isProd lookup (vu_hostname v) o' = Inr (vu_addresses v) \<and>
     vu_pinnedAddress v = (case vu_addresses v of [] \<Rightarrow> None | a # _ \<Rightarrow> Some a)"
  by (auto simp: validateOutboundUrl_def split: sum.splits option.splits)

lemma check_text_Inr:
  "check_text parse raw o' = Inr u \<Longrightarrow> raw \<noteq> [] \<and> length raw \<le> or_else (uo_maxLength o') 2048 \<and>
     \<not> hasUnsafeUrlChars raw \<and> parse raw = Some u \<and> to_lower (pu_protocol u) \<in> set (allowed_protocols o') \<and>
     (uo_allowCredentials o' \<or> pu_username u = [] \<and> pu_password u = [])"
  by (auto simp: check_text_def split: if_splits option.splits)

lemma check_host_None:
  "check_host isProd u o' = None \<Longrightarrow> strip_brackets (pu_hostname u) \<noteq> [] \<and>
     (or_else (uo_hostAllowlist o') [] = [] \<or>
        list_ex (hostMatches (strip_brackets (pu_hostname u))) (or_else (uo_hostAllowlist o') [])) \<and>
     (host_exempt (strip_brackets (pu_hostname u)) o' \<and> \<not> isProd \<or>
        isLiteralBlockedHost (strip_brackets (pu_hostname u)) = None)"
  by (auto simp: check_host_def Let_def split: if_splits)

lemma check_addresses_Inr:
  "check_addresses isProd lookup h o' = Inr as' \<Longrightarrow>
     (host_exempt h o' \<and> \<not> isProd \<or> list_all (\<lambda>a. classifyBlockedIp a = None) as') \<and>
     (uo_skipDns o' \<or> as' \<noteq> [])"
  by (auto simp: check_addresses_def Let_def list_all_iff list_ex_iff split: if_splits option.splits)

text \<open>
  C4. A URL that validates is safe to fetch: its text is short enough and free of control
  characters, its protocol is allowed, it has no credentials unless allowed, its host is
  non-empty and on the allowlist if there is one; and in production, or for a host without
  an exemption, the host is no blocked literal and every resolved address, the pinned one
  included, is outside the blocked ranges.
\<close>

theorem validated_url_safe:
  assumes "validateOutboundUrl parse lookup isProd raw o' = Inr v"
  shows "length raw \<le> or_else (uo_maxLength o') 2048 \<and> \<not> hasUnsafeUrlChars raw \<and>
    to_lower (pu_protocol (vu_url v)) \<in> set (allowed_protocols o') \<and>
    (uo_allowCredentials o' \<or> pu_username (vu_url v) = [] \<and> pu_password (vu_url v) = []) \<and>
    vu_hostname v \<noteq> [] \<and>
    (or_else (uo_hostAllowlist o') [] = [] \<or> list_ex (hostMatches (vu_hostname v)) (or_else (uo_hostAllowlist o') [])) \<and>
    (uo_skipDns o' \<or> vu_pinnedAddress v \<noteq> None) \<and>
    (host_exempt (vu_hostname v) o' \<and> \<not> isProd \<or>
       isLiteralBlockedHost (vu_hostname v) = None \<and>
       list_all (\<lambda>a. classifyBlockedIp a = None) (vu_addresses v) \<and>
       (case vu_pinnedAddress v of None \<Rightarrow> True | Some a \<Rightarrow> classifyBlockedIp a = None))"
proof -
  note v = validate_Inr [OF assms]
  then show ?thesis
    using check_text_Inr [of parse raw o' "vu_url v"] check_host_None [of isProd "vu_url v" o']
      check_addresses_Inr [of isProd lookup "vu_hostname v" o' "vu_addresses v"]
    by (cases "vu_addresses v") auto
qed

definition demo_url :: parsed_url where
  "demo_url = \<lparr>pu_protocol = ''https:'', pu_username = [], pu_password = [],
     pu_hostname = ''cdn.example.org'', pu_port = []\<rparr>"

theorem validated_url_safe_witness:
  "case validateOutboundUrl (\<lambda>_. Some demo_url) (\<lambda>_. Some [''93.184.216.34'']) True
      ''https://cdn.example.org/x'' (policyFromFlags None None (Some [''.example.org''])) of
     Inl e \<Rightarrow> False
   | Inr v \<Rightarrow> vu_pinnedAddress v = Some ''93.184.216.34'' \<and>
       list_all (\<lambda>a. classifyBlockedIp a = None) (vu_addresses v)"
proof -
  let ?o = "policyFromFlags None None (Some [''.example.org''])"
  let ?v = "\<lparr>vu_url = demo_url, vu_hostname = ''cdn.example.org'', vu_addresses = [''93.184.216.34''],
    vu_pinnedAddress = Some ''93.184.216.34''\<rparr>"
  have "validateOutboundUrl (\<lambda>_. Some demo_url) (\<lambda>_. Some [''93.184.216.34'']) True
      ''https://cdn.example.org/x'' ?o = Inr ?v"
    by code_simp
  then show ?thesis
    using validated_url_safe [of "\<lambda>_. Some demo_url" "\<lambda>_. Some [''93.184.216.34'']" True
        "''https://cdn.example.org/x''" ?o ?v] by simp
qed

text \<open>
  The synchronous check applies a suffix exemption in production too: there it accepts a
  loopback host that \<open>validateOutboundUrl\<close> refuses.
\<close>

lemma assertUrlSyntax_exempts_in_production:
  "assertUrlSyntax (\<lambda>_. Some (demo_url\<lparr>pu_hostname := ''127.0.0.1''\<rparr>)) ''https://127.0.0.1/''
     (policyFromFlags None None (Some [''127.0.0.1''])) = Inr (demo_url\<lparr>pu_hostname := ''127.0.0.1''\<rparr>) \<and>
   validateOutboundUrl (\<lambda>_. Some (demo_url\<lparr>pu_hostname := ''127.0.0.1''\<rparr>)) (\<lambda>_. None) True
     ''https://127.0.0.1/'' (policyFromFlags None None (Some [''127.0.0.1''])) = Inl BLOCKED_HOST"
  by code_simp

end
