(* ===== verification/RateLimit.thy ===== *)
theory RateLimit
  imports Prelude
begin

text \<open>
  The in-process fixed-window rate limiter, \<open>src/security/rateLimit.ts\<close>: buckets per key,
  the opportunistic cleanup on every 64th operation, and the route limits.
\<close>

record rate_bucket =
  rb_count :: int
  rb_resetAt :: time_ms

record rate_limiter =
  rl_buckets :: "(string, rate_bucket) jsmap"
  rl_ops :: nat

record rate_result =
  rr_allowed :: bool
  rr_remaining :: int
  rr_retryAfterSec :: int
  rr_limit :: int

definition createRateLimiter :: rate_limiter where
  "createRateLimiter = \<lparr>rl_buckets = [], rl_ops = 0\<rparr>"

definition rl_cleanup :: "time_ms \<Rightarrow> rate_limiter \<Rightarrow> rate_limiter" where
  "rl_cleanup now s =
     (let n = Suc (rl_ops s) in
      if n mod 64 \<noteq> 0 then s\<lparr>rl_ops := n\<rparr>
      else s\<lparr>rl_ops := n, rl_buckets := filter (\<lambda>(k, b). \<not> rb_resetAt b \<le> now) (rl_buckets s)\<rparr>)"

text \<open>The bucket \<open>take\<close> works on: the live one, or a new window.\<close>

definition live_bucket :: "time_ms \<Rightarrow> string \<Rightarrow> int \<Rightarrow> rate_limiter \<Rightarrow> rate_bucket" where
  "live_bucket now key windowMs s =
     (case jm_get (rl_buckets s) key of
        Some b \<Rightarrow> if rb_resetAt b \<le> now then \<lparr>rb_count = 0, rb_resetAt = now + windowMs\<rparr> else b
      | None \<Rightarrow> \<lparr>rb_count = 0, rb_resetAt = now + windowMs\<rparr>)"

definition take_unit :: "time_ms \<Rightarrow> string \<Rightarrow> int \<Rightarrow> int \<Rightarrow> rate_limiter \<Rightarrow> rate_result \<times> rate_limiter" where
  "take_unit now key limit windowMs s =
     (let s1 = rl_cleanup now s;
          b = live_bucket now key windowMs s1;
          retry = max 1 (ceil_div (rb_resetAt b - now) 1000)
      in if limit \<le> rb_count b
         then (\<lparr>rr_allowed = False, rr_remaining = 0, rr_retryAfterSec = retry, rr_limit = limit\<rparr>,
               s1\<lparr>rl_buckets := jm_set key b (rl_buckets s1)\<rparr>)
         else (\<lparr>rr_allowed = True, rr_remaining = max 0 (limit - (rb_count b + 1)),
                rr_retryAfterSec = retry, rr_limit = limit\<rparr>,
               s1\<lparr>rl_buckets := jm_set key (b\<lparr>rb_count := rb_count b + 1\<rparr>) (rl_buckets s1)\<rparr>))"

text \<open>\<open>reset\<close>: a missing or empty key clears every bucket.\<close>

definition rl_reset :: "string option \<Rightarrow> rate_limiter \<Rightarrow> rate_limiter" where
  "rl_reset key s =
     (case key of
        Some k \<Rightarrow> if k \<noteq> [] then s\<lparr>rl_buckets := jm_delete k (rl_buckets s)\<rparr> else s\<lparr>rl_buckets := []\<rparr>
      | None \<Rightarrow> s\<lparr>rl_buckets := []\<rparr>)"

datatype route_bucket =
    RImport | RRemove | RDebrid | RHealth | RAuth | RMutate | RRefresh | RProxy

definition RATE_LIMITS :: "route_bucket \<Rightarrow> int \<times> int" where
  "RATE_LIMITS r =
     (case r of
        RImport \<Rightarrow> (20, 60000) | RRemove \<Rightarrow> (30, 60000) | RDebrid \<Rightarrow> (10, 60000) | RHealth \<Rightarrow> (6, 60000)
      | RAuth \<Rightarrow> (20, 60000) | RMutate \<Rightarrow> (60, 60000) | RRefresh \<Rightarrow> (10, 60000) | RProxy \<Rightarrow> (120, 60000))"

definition rateLimitKey :: "string \<Rightarrow> string option \<Rightarrow> string option \<Rightarrow> string" where
  "rateLimitKey bucket actorId ip =
     bucket @ '':'' @ or_else actorId ''anon'' @ '':'' @ or_else ip ''unknown''"

subsection \<open>The window of a key\<close>

text \<open>A key's open window: its count and the time it ends.\<close>

definition open_window :: "string \<Rightarrow> int \<Rightarrow> time_ms \<Rightarrow> rate_limiter \<Rightarrow> bool" where
  "open_window key n ends s \<longleftrightarrow>
     jm_ok (rl_buckets s) \<and> jm_get (rl_buckets s) key = Some \<lparr>rb_count = n, rb_resetAt = ends\<rparr>"

lemma cleanup_ok: "jm_ok (rl_buckets s) \<Longrightarrow> jm_ok (rl_buckets (rl_cleanup now s))"
  by (simp add: rl_cleanup_def Let_def)

lemma cleanup_window: "open_window key n ends s \<Longrightarrow> now < ends \<Longrightarrow> open_window key n ends (rl_cleanup now s)"
  by (simp add: open_window_def rl_cleanup_def Let_def map_of_filter_key)

lemma take_ok: "jm_ok (rl_buckets s) \<Longrightarrow> jm_ok (rl_buckets (snd (take_unit now key l w s)))"
  by (simp add: take_unit_def Let_def cleanup_ok)

lemma take_other_window:
  "open_window key n ends s \<Longrightarrow> now < ends \<Longrightarrow> k \<noteq> key \<Longrightarrow>
     open_window key n ends (snd (take_unit now k l w s))"
  using cleanup_window [of key n ends s now] by (simp add: take_unit_def Let_def open_window_def)

lemma take_same_window:
  assumes "open_window key n ends s" and "now < ends"
  shows "rr_allowed (fst (take_unit now key l w s)) = (n < l) \<and>
    open_window key (if n < l then n + 1 else n) ends (snd (take_unit now key l w s))"
  using cleanup_window [OF assms] assms(2)
  by (simp add: take_unit_def Let_def open_window_def live_bucket_def)

lemma take_new_window:
  assumes "jm_ok (rl_buckets s)" and "case jm_get (rl_buckets s) key of None \<Rightarrow> True | Some b \<Rightarrow> rb_resetAt b \<le> now"
    and "0 < l"
  shows "rr_allowed (fst (take_unit now key l w s)) \<and> open_window key 1 (now + w) (snd (take_unit now key l w s))"
proof -
  have "live_bucket now key w (rl_cleanup now s) = \<lparr>rb_count = 0, rb_resetAt = now + w\<rparr>"
    using assms(1,2) by (auto simp: live_bucket_def rl_cleanup_def Let_def map_of_filter_key split: option.splits)
  then show ?thesis
    using assms(3) cleanup_ok [OF assms(1), of now] by (simp add: take_unit_def Let_def open_window_def)
qed

record take_call =
  tc_time :: time_ms
  tc_key :: string
  tc_limit :: int
  tc_window :: int

text \<open>The outcomes of a sequence of calls, with the key each concerned.\<close>

fun take_all :: "take_call list \<Rightarrow> rate_limiter \<Rightarrow> (string \<times> bool) list" where
  "take_all [] s = []"
| "take_all (c # cs) s =
     (tc_key c, rr_allowed (fst (take_unit (tc_time c) (tc_key c) (tc_limit c) (tc_window c) s))) #
     take_all cs (snd (take_unit (tc_time c) (tc_key c) (tc_limit c) (tc_window c) s))"

lemma take_all_window:
  assumes "open_window key n ends s" and "n \<le> l"
    and "\<forall>c \<in> set cs. tc_time c < ends \<and> (tc_key c = key \<longrightarrow> tc_limit c = l)"
  shows "map snd (filter (\<lambda>p. fst p = key) (take_all cs s)) =
    map (\<lambda>i. n + int i < l) [0..<length (filter (\<lambda>c. tc_key c = key) cs)]"
  using assms
proof (induction cs arbitrary: s n)
  case (Cons c cs)
  let ?s = "snd (take_unit (tc_time c) (tc_key c) (tc_limit c) (tc_window c) s)"
  show ?case
  proof (cases "tc_key c = key")
    case False
    then have "open_window key n ends ?s"
      using Cons.prems by (intro take_other_window) auto
    with False show ?thesis using Cons by simp
  next
    case True
    let ?n = "if n < l then n + 1 else n"
    have w: "rr_allowed (fst (take_unit (tc_time c) key l (tc_window c) s)) = (n < l)"
      "open_window key ?n ends (snd (take_unit (tc_time c) key l (tc_window c) s))"
      using take_same_window [OF Cons.prems(1)] Cons.prems(3) by auto
    have "map snd (filter (\<lambda>p. fst p = key) (take_all cs (snd (take_unit (tc_time c) key l (tc_window c) s)))) =
        map (\<lambda>i. ?n + int i < l) [0..<length (filter (\<lambda>c. tc_key c = key) cs)]"
      using Cons.IH [OF w(2)] Cons.prems(2,3) by auto
    also have "\<dots> = map (\<lambda>i. n + int (Suc i) < l) [0..<length (filter (\<lambda>c. tc_key c = key) cs)]"
      using Cons.prems(2) by auto
    finally show ?thesis
      using True Cons.prems(3) w(1) by (simp add: map_upt_Suc del: upt_Suc)
  qed
qed simp

text \<open>
  A key is never allowed more than its limit per window: from the call that opens a
  window, exactly the first \<open>limit\<close> calls of that key before the window's end are allowed
  and the rest refused, whatever other keys do in between and whenever the cleanup runs.
\<close>

lemma rate_limit_exact:
  assumes "jm_ok (rl_buckets s)"
    and "case jm_get (rl_buckets s) key of None \<Rightarrow> True | Some b \<Rightarrow> rb_resetAt b \<le> t"
    and "0 < l" and "\<forall>c \<in> set cs. tc_time c < t + w \<and> (tc_key c = key \<longrightarrow> tc_limit c = l)"
  shows "map snd (filter (\<lambda>p. fst p = key)
      (take_all (\<lparr>tc_time = t, tc_key = key, tc_limit = l, tc_window = w\<rparr> # cs) s)) =
    map (\<lambda>i. int i < l) [0..<Suc (length (filter (\<lambda>c. tc_key c = key) cs))]"
proof -
  note new = take_new_window [OF assms(1-3), of w]
  then have "map snd (filter (\<lambda>p. fst p = key) (take_all cs (snd (take_unit t key l w s)))) =
      map (\<lambda>i. 1 + int i < l) [0..<length (filter (\<lambda>c. tc_key c = key) cs)]"
    using take_all_window [of key 1 "t + w" "snd (take_unit t key l w s)" l cs] assms(3,4) by simp
  then show ?thesis
    using new assms(3) by (simp add: map_upt_Suc add.commute del: upt_Suc)
qed

theorem rate_limit_exact_witness:
  "take_all [\<lparr>tc_time = 5, tc_key = ''a'', tc_limit = 2, tc_window = 100\<rparr>,
     \<lparr>tc_time = 6, tc_key = ''b'', tc_limit = 1, tc_window = 9\<rparr>,
     \<lparr>tc_time = 50, tc_key = ''a'', tc_limit = 2, tc_window = 100\<rparr>,
     \<lparr>tc_time = 104, tc_key = ''a'', tc_limit = 2, tc_window = 100\<rparr>] createRateLimiter =
   [(''a'', True), (''b'', True), (''a'', True), (''a'', False)] \<and>
   map (\<lambda>i. int i < 2) [0..<3] = [True, True, False]"
proof -
  let ?c = "\<lparr>tc_time = 50, tc_key = ''a'', tc_limit = 2, tc_window = 100\<rparr>"
  have "map snd (filter (\<lambda>p. fst p = ''a'')
      (take_all (\<lparr>tc_time = 5, tc_key = ''a'', tc_limit = 2, tc_window = 100\<rparr> #
        [\<lparr>tc_time = 6, tc_key = ''b'', tc_limit = 1, tc_window = 9\<rparr>, ?c, ?c\<lparr>tc_time := 104\<rparr>])
        createRateLimiter)) = map (\<lambda>i. int i < 2) [0..<3]"
    using rate_limit_exact [where s = createRateLimiter and key = "''a''" and t = 5 and l = 2 and w = 100 and
        cs = "[\<lparr>tc_time = 6, tc_key = ''b'', tc_limit = 1, tc_window = 9\<rparr>, ?c, ?c\<lparr>tc_time := 104\<rparr>]"]
    by (simp add: createRateLimiter_def numeral_3_eq_3)
  moreover have "map (\<lambda>i. int i < 2) [0..<3] = [True, True, False]"
    by (simp add: upt_conv_Cons)
  ultimately show ?thesis
    by (simp add: take_unit_def rl_cleanup_def live_bucket_def createRateLimiter_def)
qed

end
