(* ===== verification/Locks.thy ===== *)
theory Locks
  imports Prelude
begin

text \<open>
  The lease locks of the job engine, \<open>src/jobs/locks.ts\<close>: the in-memory table and the
  methods that prefer Redis, whose reply is a parameter. \<open>lease_lock\<close> is the contract of such a lock; mutual
  exclusion is proved from it and discharged by the memory table.
\<close>

record lock_handle =
  lh_resource :: string
  lh_token :: string
  lh_expiresAt :: time_ms

record lock_entry =
  lk_token :: string
  lk_expiresAt :: time_ms

type_synonym lock_table = "(string, lock_entry) jsmap"

definition lock_key :: "string \<Rightarrow> string" where
  "lock_key resource = ''lock:v1:'' @ resource"

definition acquire_lock ::
  "time_ms \<Rightarrow> string \<Rightarrow> int \<Rightarrow> string \<Rightarrow> lock_table \<Rightarrow> lock_handle option \<times> lock_table" where
  "acquire_lock now resource ttlMs token m =
     (case jm_get m (lock_key resource) of
        Some e \<Rightarrow>
          if now < lk_expiresAt e then (None, m)
          else (Some \<lparr>lh_resource = resource, lh_token = token, lh_expiresAt = now + ttlMs\<rparr>,
                jm_set (lock_key resource) \<lparr>lk_token = token, lk_expiresAt = now + ttlMs\<rparr> m)
      | None \<Rightarrow>
          (Some \<lparr>lh_resource = resource, lh_token = token, lh_expiresAt = now + ttlMs\<rparr>,
           jm_set (lock_key resource) \<lparr>lk_token = token, lk_expiresAt = now + ttlMs\<rparr> m))"

definition release_lock :: "lock_handle \<Rightarrow> lock_table \<Rightarrow> bool \<times> lock_table" where
  "release_lock h m =
     (case jm_get m (lock_key (lh_resource h)) of
        Some e \<Rightarrow> if lk_token e = lh_token h then (True, jm_delete (lock_key (lh_resource h)) m) else (False, m)
      | None \<Rightarrow> (False, m))"

definition extend_lock ::
  "time_ms \<Rightarrow> int \<Rightarrow> lock_handle \<Rightarrow> lock_table \<Rightarrow> bool \<times> lock_handle \<times> lock_table" where
  "extend_lock now ttlMs h m =
     (case jm_get m (lock_key (lh_resource h)) of
        Some e \<Rightarrow>
          if lk_token e = lh_token h
          then (True, h\<lparr>lh_expiresAt := now + ttlMs\<rparr>,
                jm_set (lock_key (lh_resource h)) (e\<lparr>lk_expiresAt := now + ttlMs\<rparr>) m)
          else (False, h, m)
      | None \<Rightarrow> (False, h, m))"

text \<open>
  The service's methods: the reply of Redis decides (\<open>SET NX PX\<close>, and the scripts that
  compare the token); without a client, or when the call fails, the memory table does.
\<close>

definition acquire_lease ::
  "bool reply \<Rightarrow> time_ms \<Rightarrow> string \<Rightarrow> int \<Rightarrow> string \<Rightarrow> lock_table \<Rightarrow> lock_handle option \<times> lock_table" where
  "acquire_lease redis now resource ttlMs token m =
     (case redis of
        Answered ok \<Rightarrow>
          (if ok then Some \<lparr>lh_resource = resource, lh_token = token, lh_expiresAt = now + ttlMs\<rparr> else None, m)
      | _ \<Rightarrow> acquire_lock now resource ttlMs token m)"

definition release_lease :: "bool reply \<Rightarrow> lock_handle \<Rightarrow> lock_table \<Rightarrow> bool \<times> lock_table" where
  "release_lease redis h m = (case redis of Answered ok \<Rightarrow> (ok, m) | _ \<Rightarrow> release_lock h m)"

definition extend_lease ::
  "bool reply \<Rightarrow> time_ms \<Rightarrow> int \<Rightarrow> lock_handle \<Rightarrow> lock_table \<Rightarrow> bool \<times> lock_handle \<times> lock_table" where
  "extend_lease redis now ttlMs h m =
     (case redis of
        Answered ok \<Rightarrow> (ok, if ok then h\<lparr>lh_expiresAt := now + ttlMs\<rparr> else h, m)
      | _ \<Rightarrow> extend_lock now ttlMs h m)"

text \<open>
  \<open>withLock\<close>: the body runs on the table and its own state between acquisition and the
  \<open>finally\<close> release (the two replies are Redis's to those calls); \<open>None\<close> is the error that
  the lock could not be acquired.
\<close>

definition withLock ::
  "bool reply \<Rightarrow> bool reply \<Rightarrow> time_ms \<Rightarrow> string \<Rightarrow> int \<Rightarrow> string \<Rightarrow>
     (lock_handle \<Rightarrow> lock_table \<times> 's \<Rightarrow> 'a \<times> lock_table \<times> 's) \<Rightarrow>
     lock_table \<times> 's \<Rightarrow> 'a option \<times> lock_table \<times> 's" where
  "withLock redis1 redis2 now resource ttlMs token fn ms =
     (case acquire_lease redis1 now resource ttlMs token (fst ms) of
        (None, m) \<Rightarrow> (None, m, snd ms)
      | (Some h, m) \<Rightarrow>
          (let (r, m1, s1) = fn h (m, snd ms) in (Some r, snd (release_lease redis2 h m1), s1)))"

text \<open>Who holds a resource, and until when.\<close>

definition lock_owner :: "string \<Rightarrow> lock_table \<Rightarrow> (string \<times> time_ms) option" where
  "lock_owner resource m = map_option (\<lambda>e. (lk_token e, lk_expiresAt e)) (jm_get m (lock_key resource))"

locale lease_lock =
  fixes owner :: "'r \<Rightarrow> 's \<Rightarrow> ('t \<times> time_ms) option"
    and acq :: "time_ms \<Rightarrow> 'r \<Rightarrow> int \<Rightarrow> 't \<Rightarrow> 's \<Rightarrow> bool \<times> 's"
    and rel :: "'r \<Rightarrow> 't \<Rightarrow> 's \<Rightarrow> 's"
    and ext :: "time_ms \<Rightarrow> int \<Rightarrow> 'r \<Rightarrow> 't \<Rightarrow> 's \<Rightarrow> 's"
  assumes acq_free: "fst (acq now r ttl t s) =
      (case owner r s of None \<Rightarrow> True | Some (t', u) \<Rightarrow> u \<le> now)"
    and owner_acq: "owner r' (snd (acq now r ttl t s)) =
      (if r' = r \<and> fst (acq now r ttl t s) then Some (t, now + ttl) else owner r' s)"
    and owner_rel: "owner r' (rel r t s) =
      (if r' = r \<and> map_option fst (owner r s) = Some t then None else owner r' s)"
    and owner_ext: "owner r' (ext now ttl r t s) =
      (if r' = r \<and> map_option fst (owner r s) = Some t then Some (t, now + ttl) else owner r' s)"
begin

text \<open>An operation of some other party on the service.\<close>

lemma other_keeps:
  assumes "owner r s = Some (t, u)" and "now < u" and "t' \<noteq> t"
  shows "owner r (snd (acq now r2 ttl t' s)) = Some (t, u)"
    and "owner r (rel r2 t' s) = Some (t, u)" and "owner r (ext now ttl r2 t' s) = Some (t, u)"
  using assms by (auto simp: owner_acq acq_free owner_rel owner_ext)

lemma held_refuses: "owner r s = Some (t, u) \<Longrightarrow> now < u \<Longrightarrow> \<not> fst (acq now r ttl t' s)"
  by (simp add: acq_free)

end

definition handle_for :: "string \<Rightarrow> string \<Rightarrow> lock_handle" where
  "handle_for r t = \<lparr>lh_resource = r, lh_token = t, lh_expiresAt = 0\<rparr>"

definition lock_acq :: "time_ms \<Rightarrow> string \<Rightarrow> int \<Rightarrow> string \<Rightarrow> lock_table \<Rightarrow> bool \<times> lock_table" where
  "lock_acq now r ttl t m = (let (h, m1) = acquire_lock now r ttl t m in (h \<noteq> None, m1))"

lemmas lock_op_defs = acquire_lock_def release_lock_def extend_lock_def lock_owner_def lock_acq_def
  handle_for_def lock_key_def

interpretation mem_lock: lease_lock lock_owner lock_acq
  "\<lambda>r t m. snd (release_lock (handle_for r t) m)"
  "\<lambda>now ttl r t m. snd (snd (extend_lock now ttl (handle_for r t) m))"
  by unfold_locales (auto simp: lock_op_defs Let_def split: option.split)

text \<open>Operations other parties may perform, each with its own token.\<close>

datatype lock_op =
    AcquireOp time_ms string int string
  | ReleaseOp string string
  | ExtendOp time_ms int string string

definition lock_apply :: "lock_op \<Rightarrow> lock_table \<Rightarrow> lock_table" where
  "lock_apply c m =
     (case c of
        AcquireOp now r ttl t \<Rightarrow> snd (lock_acq now r ttl t m)
      | ReleaseOp r t \<Rightarrow> snd (release_lock (handle_for r t) m)
      | ExtendOp now ttl r t \<Rightarrow> snd (snd (extend_lock now ttl (handle_for r t) m)))"

definition foreign_op :: "string \<Rightarrow> time_ms \<Rightarrow> lock_op \<Rightarrow> bool" where
  "foreign_op t u c =
     (case c of
        AcquireOp now r ttl t' \<Rightarrow> t' \<noteq> t \<and> now < u
      | ReleaseOp r t' \<Rightarrow> t' \<noteq> t
      | ExtendOp now ttl r t' \<Rightarrow> t' \<noteq> t \<and> now < u)"

lemma foreign_keeps:
  "lock_owner r m = Some (t, u) \<Longrightarrow> \<forall>c \<in> set cs. foreign_op t u c \<Longrightarrow>
     lock_owner r (fold lock_apply cs m) = Some (t, u)"
proof (induction cs arbitrary: m)
  case (Cons c cs)
  have "lock_owner r (lock_apply c m) = Some (t, u)"
  proof (cases c)
    case (ReleaseOp r2 t2)
    then show ?thesis
      using Cons.prems mem_lock.owner_rel [of r r2 t2 m] by (auto simp: lock_apply_def foreign_op_def)
  qed (use Cons.prems mem_lock.other_keeps(1,3) [of r m t u] in
      \<open>auto simp: lock_apply_def foreign_op_def\<close>)
  then show ?case using Cons by simp
qed simp

lemma acquire_lock_acq: "fst (lock_acq now r ttl t m) = (fst (acquire_lock now r ttl t m) \<noteq> None)"
  by (simp add: lock_acq_def case_prod_unfold Let_def)

text \<open>
  Leases exclude each other: once a handle for a resource is granted until \<open>u\<close>, then
  whatever acquisitions, releases and extensions other tokens perform before \<open>u\<close>, on this or
  any resource, no acquisition of the resource succeeds before \<open>u\<close>, and the holder's own
  release still succeeds and frees it.
\<close>

lemma lock_mutual_exclusion:
  assumes "fst (acquire_lock t1 r ttl tok m) = Some h"
    and "\<forall>c \<in> set cs. foreign_op tok (lh_expiresAt h) c" and "t2 < lh_expiresAt h"
  shows "fst (acquire_lock t2 r ttl2 tok2 (fold lock_apply cs (snd (acquire_lock t1 r ttl tok m)))) = None \<and>
    fst (release_lock h (fold lock_apply cs (snd (acquire_lock t1 r ttl tok m)))) \<and>
    lock_owner r (snd (release_lock h (fold lock_apply cs (snd (acquire_lock t1 r ttl tok m))))) = None"
proof -
  let ?m = "fold lock_apply cs (snd (acquire_lock t1 r ttl tok m))"
  have h: "h = \<lparr>lh_resource = r, lh_token = tok, lh_expiresAt = t1 + ttl\<rparr>"
    and own: "lock_owner r (snd (acquire_lock t1 r ttl tok m)) = Some (tok, t1 + ttl)"
    using assms(1) by (auto simp: acquire_lock_def lock_owner_def split: option.splits if_splits)
  have own': "lock_owner r ?m = Some (tok, t1 + ttl)"
    using foreign_keeps [OF own] assms(2) h by simp
  then have "\<not> fst (lock_acq t2 r ttl2 tok2 ?m)"
    using mem_lock.held_refuses assms(3) h by simp
  moreover have "fst (release_lock h ?m) \<and> lock_owner r (snd (release_lock h ?m)) = None"
    using own' h by (auto simp: release_lock_def lock_owner_def)
  ultimately show ?thesis by (simp add: acquire_lock_acq)
qed

theorem lock_mutual_exclusion_witness:
  "fst (acquire_lock 900 ''jobs:sweep'' 50 ''b''
     (fold lock_apply [ReleaseOp ''jobs:sweep'' ''b'', AcquireOp 500 ''x'' 10 ''c'']
       (snd (acquire_lock 0 ''jobs:sweep'' 1000 ''a'' [])))) = None"
  using lock_mutual_exclusion [of 0 "''jobs:sweep''" 1000 "''a''" "[]"
      "\<lparr>lh_resource = ''jobs:sweep'', lh_token = ''a'', lh_expiresAt = 1000\<rparr>"
      "[ReleaseOp ''jobs:sweep'' ''b'', AcquireOp 500 ''x'' 10 ''c'']" 900 50 "''b''"]
  by (simp add: acquire_lock_def foreign_op_def)

text \<open>
  The two tiers do not know of each other: a lock granted by Redis does not stop a second
  grant from memory while Redis calls fail.
\<close>

lemma fallback_grants_twice:
  "jm_get m (lock_key r) = None \<Longrightarrow>
     fst (acquire_lease (Answered True) now r ttl a m) \<noteq> None \<and>
     fst (acquire_lease CallFailed now r ttl b (snd (acquire_lease (Answered True) now r ttl a m))) \<noteq> None"
  by (simp add: acquire_lease_def acquire_lock_def)

text \<open>A body that leaves the lock alone finds it free afterwards.\<close>

lemma withLock_frees:
  assumes "fst (withLock NoClient NoClient now r ttl tok fn (m, s)) \<noteq> None"
    and "\<And>h m s. lock_owner r (fst (snd (fn h (m, s)))) = lock_owner r m"
  shows "lock_owner r (fst (snd (withLock NoClient NoClient now r ttl tok fn (m, s)))) = None"
proof -
  obtain h m1 where a: "acquire_lock now r ttl tok m = (Some h, m1)"
    using assms(1) by (cases "acquire_lock now r ttl tok m")
      (auto simp: withLock_def acquire_lease_def split: option.splits)
  then have h: "lh_resource h = r" "lh_token h = tok" "lock_owner r m1 = Some (tok, now + ttl)"
    by (auto simp: acquire_lock_def lock_owner_def split: option.splits if_splits)
  then have "lock_owner r (fst (snd (fn h (m1, s)))) = Some (tok, now + ttl)"
    using assms(2) by simp
  then show ?thesis
    using a h by (auto simp: withLock_def acquire_lease_def release_lease_def Let_def case_prod_unfold
        release_lock_def lock_owner_def)
qed

end
