(* ===== verification/FileStore.thy ===== *)
theory FileStore
  imports Prelude "HOL-Library.Product_Lexorder"
begin

text \<open>
  The file storage backend, \<open>src/storage/file/index.ts\<close>, as an in-memory document: addons
  with optimistic versions, revisions, health, playback grants, audit log, the durable job
  queue and the outbox. \<open>runExclusive\<close> chains every mutation on one promise, so an
  operation is one atomic step; writing the document to disk is I/O and not modelled.
  \<open>job_queue\<close> states what the workers rely on, and the file backend provides it.
  JSON payloads, manifests and results are a type parameter.
\<close>

subsection \<open>Data\<close>

record ('m, 'f) addon_record =
  ad_providerId :: string
  ad_slug :: string
  ad_name :: string
  ad_manifestUrl :: string
  ad_baseUrl :: string
  ad_enabled :: bool
  ad_admissionState :: "string option"
  ad_validationFindings :: "'f list"
  ad_order :: int
  ad_timeoutMs :: int
  ad_source :: string
  ad_manifest :: 'm
  ad_version :: int
  ad_addedAt :: string
  ad_updatedAt :: time_ms
  ad_health :: "(bool \<times> time_ms \<times> string option) option"

record revision_record =
  rv_revision :: int
  rv_mutatedBy :: "string option"
  rv_action :: string

record health_record =
  hr_providerId :: string
  hr_healthy :: bool
  hr_error :: "string option"
  hr_checkedAt :: time_ms

record grant_record =
  gr_id :: string
  gr_url :: string
  gr_expiresAt :: int
  gr_createdAt :: int
  gr_maxRedirects :: int
  gr_singleUse :: bool
  gr_used :: bool

record audit_record =
  au_id :: string
  au_action :: string
  au_timestamp :: time_ms

datatype job_status = Queued | Running | Completed | Failed | Cancelled | DeadLetter

record 'p job_record =
  jb_id :: string
  jb_type :: string
  jb_payload :: "'p option"
  jb_requester :: "string option"
  jb_status :: job_status
  jb_priority :: int
  jb_attempts :: int
  jb_maxAttempts :: int
  jb_backoffMs :: int
  jb_progress :: int
  jb_result :: "'p option"
  jb_error :: "string option"
  jb_idempotencyKey :: "string option"
  jb_dedupKey :: "string option"
  jb_lockedBy :: "string option"
  jb_lockedUntil :: "time_ms option"
  jb_createdAt :: time_ms
  jb_startedAt :: "time_ms option"
  jb_finishedAt :: "time_ms option"

datatype outbox_status = Pending | Processed | OutboxFailed

record 'p outbox_record =
  ob_id :: string
  ob_jobType :: string
  ob_payload :: "'p option"
  ob_status :: outbox_status
  ob_createdAt :: time_ms
  ob_processedAt :: "time_ms option"

record 'p enqueue_input =
  ei_id :: "string option"
  ei_type :: string
  ei_payload :: "'p option"
  ei_requester :: "string option"
  ei_priority :: "int option"
  ei_maxAttempts :: "int option"
  ei_backoffMs :: "int option"
  ei_idempotencyKey :: "string option"
  ei_dedupKey :: "string option"

record ('m, 'f, 'p) file_store =
  fs_revision :: int
  fs_addons :: "('m, 'f) addon_record list"
  fs_revisions :: "revision_record list"
  fs_health :: "(string, health_record) jsmap"
  fs_debrid :: "(string \<times> string option) option"
  fs_grants :: "(string, grant_record) jsmap"
  fs_audit :: "audit_record list"
  fs_jobs :: "(string, 'p job_record) jsmap"
  fs_outbox :: "'p outbox_record list"

definition empty_store :: "('m, 'f, 'p) file_store" where
  "empty_store =
     \<lparr>fs_revision = 0, fs_addons = [], fs_revisions = [], fs_health = [], fs_debrid = None,
      fs_grants = [], fs_audit = [], fs_jobs = [], fs_outbox = []\<rparr>"

subsection \<open>Revision and addons\<close>

definition bumpRevision :: "string \<Rightarrow> string option \<Rightarrow> ('m, 'f, 'p) file_store \<Rightarrow> int \<times> ('m, 'f, 'p) file_store" where
  "bumpRevision action actor s =
     (let n = fs_revision s + 1;
          rs = fs_revisions s @ [\<lparr>rv_revision = n, rv_mutatedBy = actor, rv_action = action\<rparr>]
      in (n, s\<lparr>fs_revision := n,
               fs_revisions := (if 200 < length rs then last_n 200 rs else rs)\<rparr>))"

text \<open>\<open>listAddons\<close>; \<open>collate\<close> is the rank \<open>localeCompare\<close> gives a name.\<close>

definition listAddons :: "(string \<Rightarrow> int) \<Rightarrow> ('m, 'f, 'p) file_store \<Rightarrow> ('m, 'f) addon_record list" where
  "listAddons collate s = sort_key (\<lambda>a. (ad_order a, collate (ad_name a))) (fs_addons s)"

definition getAddon :: "string \<Rightarrow> ('m, 'f, 'p) file_store \<Rightarrow> ('m, 'f) addon_record option" where
  "getAddon pid s = find (\<lambda>a. ad_providerId a = pid) (fs_addons s)"

definition push_outbox ::
  "string \<Rightarrow> time_ms \<Rightarrow> (string \<times> 'p option) option \<Rightarrow> ('m, 'f, 'p) file_store \<Rightarrow> ('m, 'f, 'p) file_store" where
  "push_outbox nid now job s =
     (case job of
        None \<Rightarrow> s
      | Some (ty, pl) \<Rightarrow>
          s\<lparr>fs_outbox := fs_outbox s @ [\<lparr>ob_id = nid, ob_jobType = ty, ob_payload = pl, ob_status = Pending,
                                         ob_createdAt = now, ob_processedAt = None\<rparr>]\<rparr>)"

datatype store_error = OptimisticLock string int int | JobNotFound string

definition saveAddon ::
  "time_ms \<Rightarrow> string \<Rightarrow> ('m, 'f) addon_record \<Rightarrow> int option \<Rightarrow> (string \<times> 'p option) option \<Rightarrow>
     ('m, 'f, 'p) file_store \<Rightarrow> (store_error + ('m, 'f) addon_record) \<times> ('m, 'f, 'p) file_store" where
  "saveAddon now nid addon expected job s =
     (let idx = find_index (\<lambda>a. ad_providerId a = ad_providerId addon) (fs_addons s);
          existing = map_option (\<lambda>i. fs_addons s ! i) idx
      in case (expected, existing) of
           (Some v, Some e) \<Rightarrow>
             if ad_version e \<noteq> v then (Inl (OptimisticLock (ad_providerId addon) v (ad_version e)), s)
             else (let updated = addon\<lparr>ad_version := ad_version e + 1, ad_updatedAt := now\<rparr> in
                   (Inr updated,
                    (push_outbox nid now job (s\<lparr>fs_addons := (fs_addons s)[the idx := updated]\<rparr>))
                      \<lparr>fs_revision := fs_revision s + 1\<rparr>))
         | (None, Some e) \<Rightarrow>
             (let updated = addon\<lparr>ad_version := ad_version e + 1, ad_updatedAt := now\<rparr> in
              (Inr updated,
               (push_outbox nid now job (s\<lparr>fs_addons := (fs_addons s)[the idx := updated]\<rparr>))
                 \<lparr>fs_revision := fs_revision s + 1\<rparr>))
         | (_, None) \<Rightarrow>
             (let updated = addon\<lparr>ad_version := 1, ad_updatedAt := now\<rparr> in
              (Inr updated,
               (push_outbox nid now job (s\<lparr>fs_addons := fs_addons s @ [updated]\<rparr>))
                 \<lparr>fs_revision := fs_revision s + 1\<rparr>)))"

definition removeAddon ::
  "time_ms \<Rightarrow> string \<Rightarrow> string \<Rightarrow> (string \<times> 'p option) option \<Rightarrow> ('m, 'f, 'p) file_store \<Rightarrow>
     bool \<times> ('m, 'f, 'p) file_store" where
  "removeAddon now nid pid job s =
     (case find_index (\<lambda>a. ad_providerId a = pid) (fs_addons s) of
        None \<Rightarrow> (False, s)
      | Some i \<Rightarrow>
          (True, (push_outbox nid now job (s\<lparr>fs_addons := remove_at i (fs_addons s)\<rparr>))
                   \<lparr>fs_revision := fs_revision s + 1\<rparr>))"

text \<open>The position of an id in \<open>order\<close>: the last one, as \<open>Map.set\<close> overwrites.\<close>

definition order_pos :: "string \<Rightarrow> string list \<Rightarrow> int option" where
  "order_pos pid order = map_option (\<lambda>i. int (length order) - 1 - int i)
     (find_index (\<lambda>x. x = pid) (rev order))"

fun reorder_list ::
  "string list \<Rightarrow> int \<Rightarrow> ('m, 'f) addon_record list \<Rightarrow> ('m, 'f) addon_record list" where
  "reorder_list order fallback [] = []"
| "reorder_list order fallback (a # as') =
     (let v = (if ad_version a = 0 then 1 else ad_version a) + 1 in
      case order_pos (ad_providerId a) order of
        Some i \<Rightarrow> a\<lparr>ad_order := i, ad_version := v\<rparr> # reorder_list order fallback as'
      | None \<Rightarrow> a\<lparr>ad_order := fallback, ad_version := v\<rparr> # reorder_list order (fallback + 1) as')"

definition reorderAddons :: "string list \<Rightarrow> ('m, 'f, 'p) file_store \<Rightarrow> ('m, 'f, 'p) file_store" where
  "reorderAddons order s =
     s\<lparr>fs_addons := reorder_list order (int (length order)) (fs_addons s), fs_revision := fs_revision s + 1\<rparr>"

definition saveDebridConfig :: "string \<Rightarrow> string option \<Rightarrow> ('m, 'f, 'p) file_store \<Rightarrow> ('m, 'f, 'p) file_store" where
  "saveDebridConfig provider key s = s\<lparr>fs_debrid := Some (provider, key)\<rparr>"

definition recordHealth :: "health_record \<Rightarrow> ('m, 'f, 'p) file_store \<Rightarrow> ('m, 'f, 'p) file_store" where
  "recordHealth h s =
     (let s1 = s\<lparr>fs_health := jm_set (hr_providerId h) h (fs_health s)\<rparr> in
      case find_index (\<lambda>a. ad_providerId a = hr_providerId h) (fs_addons s1) of
        None \<Rightarrow> s1
      | Some i \<Rightarrow>
          s1\<lparr>fs_addons := (fs_addons s1)[i := (fs_addons s1 ! i)
               \<lparr>ad_health := Some (hr_healthy h, hr_checkedAt h, hr_error h)\<rparr>]\<rparr>)"

subsection \<open>Playback grants\<close>

text \<open>Grant times are seconds: \<open>Math.floor(Date.now() / 1000)\<close>.\<close>

definition saveGrant :: "grant_record \<Rightarrow> ('m, 'f, 'p) file_store \<Rightarrow> ('m, 'f, 'p) file_store" where
  "saveGrant g s = s\<lparr>fs_grants := jm_set (gr_id g) g (fs_grants s)\<rparr>"

definition consumeGrant ::
  "time_ms \<Rightarrow> string \<Rightarrow> ('m, 'f, 'p) file_store \<Rightarrow> grant_record option \<times> ('m, 'f, 'p) file_store" where
  "consumeGrant now gid s =
     (case jm_get (fs_grants s) gid of
        None \<Rightarrow> (None, s)
      | Some g \<Rightarrow>
          if gr_expiresAt g \<le> now div 1000 then (None, s)
          else if gr_singleUse g \<and> gr_used g then (None, s)
          else (Some (g\<lparr>gr_used := True\<rparr>),
                s\<lparr>fs_grants := jm_set gid (g\<lparr>gr_used := True\<rparr>) (fs_grants s)\<rparr>))"

definition revokeGrant :: "string \<Rightarrow> ('m, 'f, 'p) file_store \<Rightarrow> bool \<times> ('m, 'f, 'p) file_store" where
  "revokeGrant gid s =
     (if jm_has (fs_grants s) gid then (True, s\<lparr>fs_grants := jm_delete gid (fs_grants s)\<rparr>) else (False, s))"

definition cleanupExpiredGrants :: "int \<Rightarrow> ('m, 'f, 'p) file_store \<Rightarrow> nat \<times> ('m, 'f, 'p) file_store" where
  "cleanupExpiredGrants nowSec s =
     (length (filter (\<lambda>(k, g). gr_expiresAt g \<le> nowSec) (fs_grants s)),
      s\<lparr>fs_grants := filter (\<lambda>(k, g). \<not> gr_expiresAt g \<le> nowSec) (fs_grants s)\<rparr>)"

definition recordAudit :: "audit_record \<Rightarrow> ('m, 'f, 'p) file_store \<Rightarrow> ('m, 'f, 'p) file_store" where
  "recordAudit e s =
     (let log = fs_audit s @ [e] in
      s\<lparr>fs_audit := (if 500 < length log then last_n 500 log else log)\<rparr>)"

definition listAudit :: "nat \<Rightarrow> ('m, 'f, 'p) file_store \<Rightarrow> audit_record list" where
  "listAudit n s = take n (sort_key (\<lambda>e. - au_timestamp e) (fs_audit s))"

subsection \<open>Jobs\<close>

text \<open>\<open>nid\<close> is the generated id, used when the input names none (or an empty one).\<close>

definition job_id_of :: "string \<Rightarrow> 'p enqueue_input \<Rightarrow> string" where
  "job_id_of nid e = (case ei_id e of None \<Rightarrow> nid | Some i \<Rightarrow> if i = [] then nid else i)"

definition new_job :: "time_ms \<Rightarrow> string \<Rightarrow> 'p enqueue_input \<Rightarrow> 'p job_record" where
  "new_job now nid e =
     \<lparr>jb_id = job_id_of nid e, jb_type = ei_type e, jb_payload = ei_payload e,
      jb_requester = ei_requester e, jb_status = Queued, jb_priority = or_else (ei_priority e) 0,
      jb_attempts = 0, jb_maxAttempts = or_else (ei_maxAttempts e) 3,
      jb_backoffMs = or_else (ei_backoffMs e) 1000, jb_progress = 0, jb_result = None, jb_error = None,
      jb_idempotencyKey = ei_idempotencyKey e, jb_dedupKey = ei_dedupKey e, jb_lockedBy = None,
      jb_lockedUntil = None, jb_createdAt = now, jb_startedAt = None, jb_finishedAt = None\<rparr>"

definition enqueueJob ::
  "time_ms \<Rightarrow> string \<Rightarrow> 'p enqueue_input \<Rightarrow> ('m, 'f, 'p) file_store \<Rightarrow> 'p job_record \<times> ('m, 'f, 'p) file_store" where
  "enqueueJob now nid e s =
     (let j = new_job now nid e in (j, s\<lparr>fs_jobs := jm_set (jb_id j) j (fs_jobs s)\<rparr>))"

definition getJob :: "string \<Rightarrow> ('m, 'f, 'p) file_store \<Rightarrow> 'p job_record option" where
  "getJob i s = jm_get (fs_jobs s) i"

definition newest_job :: "'p job_record list \<Rightarrow> 'p job_record option" where
  "newest_job js = (case sort_key (\<lambda>j. - jb_createdAt j) js of [] \<Rightarrow> None | j # _ \<Rightarrow> Some j)"

definition getJobByIdempotencyKey :: "string \<Rightarrow> ('m, 'f, 'p) file_store \<Rightarrow> 'p job_record option" where
  "getJobByIdempotencyKey key s =
     newest_job (filter (\<lambda>j. jb_idempotencyKey j = Some key) (map snd (fs_jobs s)))"

definition getJobByDedupKey :: "string \<Rightarrow> bool \<Rightarrow> ('m, 'f, 'p) file_store \<Rightarrow> 'p job_record option" where
  "getJobByDedupKey key activeOnly s =
     newest_job (filter (\<lambda>j. jb_dedupKey j = Some key \<and>
       (activeOnly \<longrightarrow> jb_status j = Queued \<or> jb_status j = Running)) (map snd (fs_jobs s)))"

definition listJobs ::
  "string option \<Rightarrow> job_status option \<Rightarrow> nat option \<Rightarrow> nat option \<Rightarrow> ('m, 'f, 'p) file_store \<Rightarrow> 'p job_record list" where
  "listJobs ty st off cnt s =
     (let l1 = map snd (fs_jobs s);
          l2 = (case ty of Some t \<Rightarrow> if t = [] then l1 else filter (\<lambda>j. jb_type j = t) l1 | None \<Rightarrow> l1);
          l3 = (case st of Some x \<Rightarrow> filter (\<lambda>j. jb_status j = x) l2 | None \<Rightarrow> l2)
      in take (or_else cnt 50) (drop (or_else off 0)
           (sort_key (\<lambda>j. (- jb_priority j, - jb_createdAt j)) l3)))"

text \<open>Which jobs \<open>acquireNextJob\<close> may take: queued ones, and running ones whose lease is over.\<close>

definition claimable :: "time_ms \<Rightarrow> string list option \<Rightarrow> 'p job_record \<Rightarrow> bool" where
  "claimable now types j \<longleftrightarrow>
     (or_else types [] = [] \<or> jb_type j \<in> set (or_else types [])) \<and>
     (jb_status j = Queued \<or>
      jb_status j = Running \<and>
        (case jb_lockedUntil j of None \<Rightarrow> False | Some u \<Rightarrow> u \<noteq> 0 \<and> u < now))"

definition claim_key :: "'p job_record \<Rightarrow> int \<times> time_ms" where
  "claim_key j = (- jb_priority j, jb_createdAt j)"

definition claim_job :: "time_ms \<Rightarrow> string \<Rightarrow> int \<Rightarrow> 'p job_record \<Rightarrow> 'p job_record" where
  "claim_job now w d j =
     j\<lparr>jb_status := Running, jb_lockedBy := Some w, jb_lockedUntil := Some (now + d),
       jb_startedAt := (case jb_startedAt j of
          None \<Rightarrow> Some now | Some t \<Rightarrow> Some (if t = 0 then now else t)),
       jb_attempts := jb_attempts j + 1\<rparr>"

definition acquireNextJob ::
  "time_ms \<Rightarrow> string \<Rightarrow> int \<Rightarrow> string list option \<Rightarrow> ('m, 'f, 'p) file_store \<Rightarrow>
     'p job_record option \<times> ('m, 'f, 'p) file_store" where
  "acquireNextJob now w d types s =
     (case sort_key (\<lambda>(k, j). claim_key j) (filter (\<lambda>(k, j). claimable now types j) (fs_jobs s)) of
        [] \<Rightarrow> (None, s)
      | (k, j) # _ \<Rightarrow> (Some (claim_job now w d j), s\<lparr>fs_jobs := jm_set k (claim_job now w d j) (fs_jobs s)\<rparr>))"

definition may_write :: "string \<Rightarrow> 'p job_record \<Rightarrow> bool" where
  "may_write w j \<longleftrightarrow> jb_lockedBy j = Some w \<or> or_else (jb_lockedBy j) [] = []"

definition update_job ::
  "string \<Rightarrow> ('p job_record \<Rightarrow> 'p job_record) \<Rightarrow> ('m, 'f, 'p) file_store \<Rightarrow> ('m, 'f, 'p) file_store" where
  "update_job i f s =
     (case jm_get (fs_jobs s) i of None \<Rightarrow> s | Some j \<Rightarrow> s\<lparr>fs_jobs := jm_set i (f j) (fs_jobs s)\<rparr>)"

definition updateJobProgress ::
  "string \<Rightarrow> int \<Rightarrow> string \<Rightarrow> ('m, 'f, 'p) file_store \<Rightarrow> ('m, 'f, 'p) file_store" where
  "updateJobProgress i progress w s =
     (case jm_get (fs_jobs s) i of
        None \<Rightarrow> s
      | Some j \<Rightarrow> if may_write w j
                  then update_job i (\<lambda>j. j\<lparr>jb_progress := max 0 (min 100 progress)\<rparr>) s else s)"

definition heartbeatJob ::
  "time_ms \<Rightarrow> string \<Rightarrow> string \<Rightarrow> int \<Rightarrow> ('m, 'f, 'p) file_store \<Rightarrow> bool \<times> ('m, 'f, 'p) file_store" where
  "heartbeatJob now i w d s =
     (case jm_get (fs_jobs s) i of
        None \<Rightarrow> (False, s)
      | Some j \<Rightarrow> if jb_lockedBy j = Some w
                  then (True, update_job i (\<lambda>j. j\<lparr>jb_lockedUntil := Some (now + d)\<rparr>) s) else (False, s))"

definition completeJob ::
  "time_ms \<Rightarrow> string \<Rightarrow> 'p option \<Rightarrow> string \<Rightarrow> ('m, 'f, 'p) file_store \<Rightarrow> ('m, 'f, 'p) file_store" where
  "completeJob now i result w s =
     (case jm_get (fs_jobs s) i of
        None \<Rightarrow> s
      | Some j \<Rightarrow>
          if may_write w j
          then update_job i (\<lambda>j. j\<lparr>jb_status := Completed, jb_progress := 100, jb_result := result,
                 jb_finishedAt := Some now, jb_lockedBy := None, jb_lockedUntil := None\<rparr>) s
          else s)"

definition fail_status :: "bool \<Rightarrow> 'p job_record \<Rightarrow> job_status" where
  "fail_status retryable j =
     (if retryable \<and> jb_attempts j < jb_maxAttempts j then Queued else DeadLetter)"

definition failed_job :: "time_ms \<Rightarrow> string \<Rightarrow> bool \<Rightarrow> 'p job_record \<Rightarrow> 'p job_record" where
  "failed_job now err retryable j =
     j\<lparr>jb_status := fail_status retryable j, jb_error := Some err, jb_lockedBy := None,
       jb_lockedUntil := None,
       jb_finishedAt := (if fail_status retryable j = DeadLetter then Some now else jb_finishedAt j)\<rparr>"

text \<open>\<open>failJob\<close>: the worker id is an argument the code does not read.\<close>

definition failJob ::
  "time_ms \<Rightarrow> string \<Rightarrow> string \<Rightarrow> string \<Rightarrow> bool \<Rightarrow> ('m, 'f, 'p) file_store \<Rightarrow>
     (store_error + 'p job_record) \<times> ('m, 'f, 'p) file_store" where
  "failJob now i err w retryable s =
     (case jm_get (fs_jobs s) i of
        None \<Rightarrow> (Inl (JobNotFound i), s)
      | Some j \<Rightarrow> (Inr (failed_job now err retryable j), update_job i (failed_job now err retryable) s))"

definition cancelJob :: "time_ms \<Rightarrow> string \<Rightarrow> ('m, 'f, 'p) file_store \<Rightarrow> bool \<times> ('m, 'f, 'p) file_store" where
  "cancelJob now i s =
     (case jm_get (fs_jobs s) i of
        None \<Rightarrow> (False, s)
      | Some j \<Rightarrow>
          if jb_status j = Queued \<or> jb_status j = Running
          then (True, update_job i (\<lambda>j. j\<lparr>jb_status := Cancelled,
                  jb_error := Some ''Job cancelled by operator'', jb_finishedAt := Some now,
                  jb_lockedBy := None, jb_lockedUntil := None\<rparr>) s)
          else (False, s))"

definition removable_job :: "time_ms \<Rightarrow> 'p job_record \<Rightarrow> bool" where
  "removable_job cutoff j \<longleftrightarrow> jb_status j \<in> {Completed, Cancelled, DeadLetter} \<and>
     (case jb_finishedAt j of None \<Rightarrow> False | Some t \<Rightarrow> t \<noteq> 0 \<and> t < cutoff)"

definition cleanupJobs :: "time_ms \<Rightarrow> int \<Rightarrow> ('m, 'f, 'p) file_store \<Rightarrow> nat \<times> ('m, 'f, 'p) file_store" where
  "cleanupJobs now maxAgeMs s =
     (length (filter (\<lambda>(k, j). removable_job (now - maxAgeMs) j) (fs_jobs s)),
      s\<lparr>fs_jobs := filter (\<lambda>(k, j). \<not> removable_job (now - maxAgeMs) j) (fs_jobs s)\<rparr>)"

subsection \<open>Outbox\<close>

definition drainOutbox :: "nat \<Rightarrow> ('m, 'f, 'p) file_store \<Rightarrow> 'p outbox_record list" where
  "drainOutbox n s = take n (filter (\<lambda>o'. ob_status o' = Pending) (fs_outbox s))"

definition markOutboxProcessed :: "time_ms \<Rightarrow> string \<Rightarrow> ('m, 'f, 'p) file_store \<Rightarrow> ('m, 'f, 'p) file_store" where
  "markOutboxProcessed now i s =
     (case find_index (\<lambda>o'. ob_id o' = i) (fs_outbox s) of
        None \<Rightarrow> s
      | Some n \<Rightarrow> s\<lparr>fs_outbox := (fs_outbox s)[n := (fs_outbox s ! n)
                      \<lparr>ob_status := Processed, ob_processedAt := Some now\<rparr>]\<rparr>)"


subsection \<open>Job invariant\<close>

definition job_ok :: "'p job_record \<Rightarrow> bool" where
  "job_ok j \<longleftrightarrow>
     (if jb_status j = Running
      then (\<exists>w u. jb_lockedBy j = Some w \<and> w \<noteq> [] \<and> jb_lockedUntil j = Some u) \<and> jb_startedAt j \<noteq> None
      else jb_lockedBy j = None \<and> jb_lockedUntil j = None) \<and>
     (jb_status j \<in> {Completed, Cancelled, DeadLetter} \<longrightarrow> jb_finishedAt j \<noteq> None) \<and>
     jb_status j \<noteq> Failed \<and> 0 \<le> jb_progress j \<and> jb_progress j \<le> 100 \<and> 0 \<le> jb_attempts j"

definition jobs_ok :: "('m, 'f, 'p) file_store \<Rightarrow> bool" where
  "jobs_ok s \<longleftrightarrow> jm_ok (fs_jobs s) \<and>
     (\<forall>i j. jm_get (fs_jobs s) i = Some j \<longrightarrow> jb_id j = i \<and> job_ok j)"

lemma jobs_okD: "jobs_ok s \<Longrightarrow> jm_get (fs_jobs s) i = Some j \<Longrightarrow> jb_id j = i \<and> job_ok j"
  by (simp add: jobs_ok_def)

lemma jobs_ok_set:
  "jobs_ok s \<Longrightarrow> jb_id j = i \<Longrightarrow> job_ok j \<Longrightarrow> jobs_ok (s\<lparr>fs_jobs := jm_set i j (fs_jobs s)\<rparr>)"
  by (simp add: jobs_ok_def)

lemma jobs_ok_update:
  "jobs_ok s \<Longrightarrow> (\<And>j. jm_get (fs_jobs s) i = Some j \<Longrightarrow> jb_id (f j) = i \<and> job_ok (f j)) \<Longrightarrow>
     jobs_ok (update_job i f s)"
  by (auto simp: update_job_def intro: jobs_ok_set split: option.split)

lemma fs_jobs_update [simp]:
  "jm_get (fs_jobs (update_job i f s)) k =
     (if k = i then map_option f (jm_get (fs_jobs s) i) else jm_get (fs_jobs s) k)"
  by (simp add: update_job_def split: option.split)

lemma sort_key_hd:
  assumes "sort_key f xs = x # ys"
  shows "x \<in> set xs \<and> (\<forall>y \<in> set xs. f x \<le> f y)"
proof -
  have "set (sort_key f xs) = set xs" by simp
  with assms have x: "x \<in> set xs" "set xs = insert x (set ys)" by auto
  have "sorted (map f (sort_key f xs))" by simp
  then have "\<forall>y \<in> set ys. f x \<le> f y" using assms by simp
  then show ?thesis using x by auto
qed

lemma job_ok_new [simp]: "job_ok (new_job now nid e)"
  by (simp add: job_ok_def new_job_def)

lemma job_ok_claim: "job_ok j \<Longrightarrow> w \<noteq> [] \<Longrightarrow> job_ok (claim_job now w d j)"
  by (auto simp: job_ok_def claim_job_def split: option.split if_splits)

lemma job_ok_failed: "job_ok j \<Longrightarrow> job_ok (failed_job now err r j)"
  by (auto simp: job_ok_def failed_job_def fail_status_def split: if_splits)

lemma jb_id_step [simp]: "jb_id (claim_job now w d j) = jb_id j" "jb_id (failed_job now err r j) = jb_id j"
  by (simp_all add: claim_job_def failed_job_def)

lemma job_ok_progress: "job_ok j \<Longrightarrow> job_ok (j\<lparr>jb_progress := max 0 (min 100 p)\<rparr>)"
  by (auto simp: job_ok_def)

lemma job_ok_beat: "job_ok j \<Longrightarrow> jb_lockedBy j = Some w \<Longrightarrow> job_ok (j\<lparr>jb_lockedUntil := Some u\<rparr>)"
  by (auto simp: job_ok_def split: if_splits)

lemma job_ok_complete:
  "job_ok j \<Longrightarrow> job_ok (j\<lparr>jb_status := Completed, jb_progress := 100, jb_result := r,
     jb_finishedAt := Some now, jb_lockedBy := None, jb_lockedUntil := None\<rparr>)"
  by (simp add: job_ok_def)

lemma job_ok_cancel:
  "job_ok j \<Longrightarrow> job_ok (j\<lparr>jb_status := Cancelled, jb_error := e, jb_finishedAt := Some now,
     jb_lockedBy := None, jb_lockedUntil := None\<rparr>)"
  by (simp add: job_ok_def)

lemma acquireNextJob_cases:
  assumes "jobs_ok s"
  obtains (none) "fst (acquireNextJob now w d types s) = None" "snd (acquireNextJob now w d types s) = s"
    "\<forall>i j. jm_get (fs_jobs s) i = Some j \<longrightarrow> \<not> claimable now types j"
  | (some) i j where "jm_get (fs_jobs s) i = Some j" "claimable now types j"
    "fst (acquireNextJob now w d types s) = Some (claim_job now w d j)"
    "snd (acquireNextJob now w d types s) = s\<lparr>fs_jobs := jm_set i (claim_job now w d j) (fs_jobs s)\<rparr>"
    "\<forall>i' j'. jm_get (fs_jobs s) i' = Some j' \<longrightarrow> claimable now types j' \<longrightarrow> claim_key j \<le> claim_key j'"
proof (cases "sort_key (\<lambda>(k, j). claim_key j) (filter (\<lambda>(k, j). claimable now types j) (fs_jobs s))")
  case Nil
  then have "set (filter (\<lambda>(k, j). claimable now types j) (fs_jobs s)) = {}"
    by (metis set_sort list.set(1))
  then have "\<forall>i j. jm_get (fs_jobs s) i = Some j \<longrightarrow> \<not> claimable now types j"
    by (auto dest!: map_of_SomeD simp: filter_empty_conv)
  then show ?thesis using Nil none by (simp add: acquireNextJob_def)
next
  case (Cons p ps)
  obtain i j where p: "p = (i, j)" by fastforce
  note hd = sort_key_hd [OF Cons]
  then have "(i, j) \<in> set (fs_jobs s)" "claimable now types j" using p by auto
  moreover have "jm_get (fs_jobs s) i = Some j"
    using calculation(1) assms by (simp add: jobs_ok_def jm_ok_def)
  moreover have "claim_key j \<le> claim_key j'" if "jm_get (fs_jobs s) i' = Some j'" "claimable now types j'" for i' j'
    using hd that p by (auto dest!: map_of_SomeD)
  ultimately show ?thesis
    using some [of i j] Cons p by (simp add: acquireNextJob_def)
qed

text \<open>Operations on the queue, by any worker.\<close>

datatype 'p job_op =
    EnqueueOp time_ms string "'p enqueue_input"
  | ClaimOp time_ms string int "string list option"
  | ProgressOp string int string
  | HeartbeatOp time_ms string string int
  | CompleteOp time_ms string "'p option" string
  | FailOp time_ms string string string bool
  | CancelOp time_ms string
  | CleanupOp time_ms int

definition job_apply :: "'p job_op \<Rightarrow> ('m, 'f, 'p) file_store \<Rightarrow> ('m, 'f, 'p) file_store" where
  "job_apply c s =
     (case c of
        EnqueueOp now nid e \<Rightarrow> snd (enqueueJob now nid e s)
      | ClaimOp now w d types \<Rightarrow> snd (acquireNextJob now w d types s)
      | ProgressOp i p w \<Rightarrow> updateJobProgress i p w s
      | HeartbeatOp now i w d \<Rightarrow> snd (heartbeatJob now i w d s)
      | CompleteOp now i r w \<Rightarrow> completeJob now i r w s
      | FailOp now i err w r \<Rightarrow> snd (failJob now i err w r s)
      | CancelOp now i \<Rightarrow> snd (cancelJob now i s)
      | CleanupOp now a \<Rightarrow> snd (cleanupJobs now a s))"

text \<open>Worker ids are never empty: the engine generates one when none is given.\<close>

definition worker_named :: "'p job_op \<Rightarrow> bool" where
  "worker_named c = (case c of ClaimOp now w d types \<Rightarrow> w \<noteq> [] | _ \<Rightarrow> True)"

lemma jobs_ok_claim:
  assumes "jobs_ok s" "w \<noteq> []" shows "jobs_ok (snd (acquireNextJob now w d types s))"
  using assms(1)
proof (cases rule: acquireNextJob_cases [of s now w d types])
  case none
  then show ?thesis using assms by simp
next
  case (some i j)
  then show ?thesis
    using assms jobs_okD [OF assms(1) some(1)] by (simp add: jobs_ok_set job_ok_claim)
qed

lemma jobs_ok_apply:
  assumes "jobs_ok s" "worker_named c" shows "jobs_ok (job_apply c s)"
proof -
  note ok = jobs_okD [OF assms(1)]
  show ?thesis
  proof (cases c)
    case (EnqueueOp now nid e)
    then show ?thesis
      using assms by (simp add: job_apply_def enqueueJob_def Let_def jobs_ok_set)
  next
    case (ClaimOp now w d types)
    then show ?thesis
      using assms jobs_ok_claim by (simp add: job_apply_def worker_named_def)
  next
    case (ProgressOp i p w)
    then show ?thesis
      using assms(1) ok [of i]
      by (auto simp: job_apply_def updateJobProgress_def intro!: jobs_ok_update job_ok_progress split: option.split)
  next
    case (HeartbeatOp now i w d)
    then show ?thesis
      using assms(1) ok [of i]
      by (auto simp: job_apply_def heartbeatJob_def intro!: jobs_ok_update job_ok_beat split: option.split)
  next
    case (CompleteOp now i r w)
    then show ?thesis
      using assms(1) ok [of i]
      by (auto simp: job_apply_def completeJob_def intro!: jobs_ok_update job_ok_complete split: option.split)
  next
    case (FailOp now i err w r)
    then show ?thesis
      using assms(1) ok [of i]
      by (auto simp: job_apply_def failJob_def intro!: jobs_ok_update job_ok_failed split: option.split)
  next
    case (CancelOp now i)
    then show ?thesis
      using assms(1) ok [of i]
      by (auto simp: job_apply_def cancelJob_def intro!: jobs_ok_update job_ok_cancel split: option.split)
  next
    case (CleanupOp now a)
    then show ?thesis
      using assms(1)
      by (auto simp: job_apply_def cleanupJobs_def jobs_ok_def map_of_filter_key split: option.splits if_splits)
  qed
qed

lemma jobs_ok_run: "jobs_ok s \<Longrightarrow> list_all worker_named cs \<Longrightarrow> jobs_ok (fold job_apply cs s)"
  by (induction cs arbitrary: s) (auto simp: jobs_ok_apply)

subsection \<open>Leases\<close>

text \<open>Who is running a job, and until when its lease lasts.\<close>

definition job_holder :: "string \<Rightarrow> ('m, 'f, 'p) file_store \<Rightarrow> (string \<times> time_ms) option" where
  "job_holder i s =
     (case jm_get (fs_jobs s) i of
        None \<Rightarrow> None
      | Some j \<Rightarrow>
          if jb_status j = Running
          then (case (jb_lockedBy j, jb_lockedUntil j) of (Some w, Some u) \<Rightarrow> Some (w, u) | _ \<Rightarrow> None)
          else None)"

text \<open>The contract a worker relies on.\<close>

locale job_queue =
  fixes ok :: "'s \<Rightarrow> bool"
    and holder :: "'i \<Rightarrow> 's \<Rightarrow> ('w \<times> time_ms) option"
    and worker :: "'w \<Rightarrow> bool"
    and claim :: "time_ms \<Rightarrow> 'w \<Rightarrow> int \<Rightarrow> 's \<Rightarrow> 'i option \<times> 's"
    and beat :: "time_ms \<Rightarrow> 'i \<Rightarrow> 'w \<Rightarrow> int \<Rightarrow> 's \<Rightarrow> 's"
    and complete :: "time_ms \<Rightarrow> 'i \<Rightarrow> 'w \<Rightarrow> 's \<Rightarrow> 's"
  assumes ok_claim: "ok s \<Longrightarrow> worker w \<Longrightarrow> ok (snd (claim now w d s))"
    and ok_beat: "ok s \<Longrightarrow> ok (beat now i w d s)"
    and ok_complete: "ok s \<Longrightarrow> ok (complete now i w s)"
    and claim_free: "ok s \<Longrightarrow> fst (claim now w d s) = Some i \<Longrightarrow>
      (case holder i s of None \<Rightarrow> True | Some (w', u) \<Rightarrow> u < now)"
    and holder_claim: "ok s \<Longrightarrow> holder i (snd (claim now w d s)) =
      (if fst (claim now w d s) = Some i then Some (w, now + d) else holder i s)"
    and holder_beat: "ok s \<Longrightarrow> holder i' (beat now i w d s) =
      (if i' = i \<and> map_option fst (holder i s) = Some w then Some (w, now + d) else holder i' s)"
    and holder_complete: "ok s \<Longrightarrow> worker w \<Longrightarrow> holder i' (complete now i w s) =
      (if i' = i \<and> map_option fst (holder i s) = Some w then None else holder i' s)"
begin

text \<open>Nobody else takes, renews or ends a lease before it is over.\<close>

lemma others_keep:
  assumes "ok s" "holder i s = Some (w, u)" "w' \<noteq> w"
  shows "now \<le> u \<Longrightarrow> holder i (snd (claim now w' d s)) = Some (w, u)"
    and "holder i (beat now i2 w' d s) = Some (w, u)"
    and "worker w' \<Longrightarrow> holder i (complete now i2 w' s) = Some (w, u)"
  using assms claim_free [OF assms(1), of now w' d i]
  by (auto simp: holder_claim holder_beat holder_complete)

lemma claim_refused:
  "ok s \<Longrightarrow> holder i s = Some (w, u) \<Longrightarrow> now \<le> u \<Longrightarrow> fst (claim now w' d s) \<noteq> Some i"
  using claim_free [of s now w' d i] by auto

end

definition claim_id ::
  "string list option \<Rightarrow> time_ms \<Rightarrow> string \<Rightarrow> int \<Rightarrow> ('m, 'f, 'p) file_store \<Rightarrow> string option \<times> ('m, 'f, 'p) file_store" where
  "claim_id types now w d s =
     (let (j, s1) = acquireNextJob now w d types s in (map_option jb_id j, s1))"

lemma claim_id_cases:
  assumes "jobs_ok s"
  shows "claim_id types now w d s = (None, s) \<or>
    (\<exists>i j. jm_get (fs_jobs s) i = Some j \<and> claimable now types j \<and>
       claim_id types now w d s = (Some i, s\<lparr>fs_jobs := jm_set i (claim_job now w d j) (fs_jobs s)\<rparr>))"
  using assms
proof (cases rule: acquireNextJob_cases [of s now w d types])
  case none
  then show ?thesis by (simp add: claim_id_def case_prod_unfold Let_def)
next
  case (some i j)
  then show ?thesis
    using jobs_okD [OF assms some(1)] by (auto simp: claim_id_def case_prod_unfold Let_def)
qed

lemma holder_running:
  "jobs_ok s \<Longrightarrow> jm_get (fs_jobs s) i = Some j \<Longrightarrow> job_holder i s =
     (case jb_lockedBy j of None \<Rightarrow> None | Some w \<Rightarrow> map_option (\<lambda>u. (w, u)) (jb_lockedUntil j))"
  using jobs_okD [of s i j]
  by (auto simp: job_holder_def job_ok_def split: option.splits if_splits)

lemma may_write_ok:
  "job_ok j \<Longrightarrow> w \<noteq> [] \<Longrightarrow> may_write w j \<longleftrightarrow> jb_lockedBy j = Some w \<or> jb_lockedBy j = None"
  by (auto simp: may_write_def job_ok_def or_else_def split: option.splits if_splits)

interpretation file_jobs: job_queue jobs_ok job_holder "\<lambda>w. w \<noteq> []" "claim_id types"
  "\<lambda>now i w d s. snd (heartbeatJob now i w d s)" "\<lambda>now i w s. completeJob now i r w s"
  for types :: "string list option" and r :: "'p option"
proof unfold_locales
  fix s :: "('m, 'f, 'p) file_store" and w w' i i' :: string and now d :: int
  assume ok: "jobs_ok s"
  note jok = jobs_okD [OF ok]
  show "w \<noteq> [] \<Longrightarrow> jobs_ok (snd (claim_id types now w d s))"
    using jobs_ok_claim [OF ok, of w now d types] by (simp add: claim_id_def case_prod_unfold Let_def)
  show "jobs_ok (snd (heartbeatJob now i w d s))"
    using jobs_ok_apply [OF ok, of "HeartbeatOp now i w d"] by (simp add: job_apply_def worker_named_def)
  show "jobs_ok (completeJob now i r w s)"
    using jobs_ok_apply [OF ok, of "CompleteOp now i r w"] by (simp add: job_apply_def worker_named_def)
  show "case job_holder i s of None \<Rightarrow> True | Some (w', u) \<Rightarrow> u < now"
    if "fst (claim_id types now w d s) = Some i"
    using claim_id_cases [OF ok, of types now w d] that
    by (auto simp: job_holder_def claimable_def split: option.splits if_splits)
  show "job_holder i (snd (claim_id types now w d s)) =
      (if fst (claim_id types now w d s) = Some i then Some (w, now + d) else job_holder i s)"
    using claim_id_cases [OF ok, of types now w d]
    by (auto simp: job_holder_def claim_job_def)
  show "job_holder i' (snd (heartbeatJob now i w d s)) =
      (if i' = i \<and> map_option fst (job_holder i s) = Some w then Some (w, now + d) else job_holder i' s)"
  proof (cases "jm_get (fs_jobs s) i")
    case None
    then show ?thesis by (simp add: heartbeatJob_def job_holder_def)
  next
    case (Some j)
    then show ?thesis
      using jok [OF Some] by (auto simp: heartbeatJob_def job_holder_def job_ok_def split: option.splits if_splits)
  qed
  show "job_holder i' (completeJob now i r w s) =
      (if i' = i \<and> map_option fst (job_holder i s) = Some w then None else job_holder i' s)" if "w \<noteq> []"
  proof (cases "jm_get (fs_jobs s) i")
    case None
    then show ?thesis by (simp add: completeJob_def job_holder_def)
  next
    case (Some j)
    then show ?thesis
      using jok [OF Some] may_write_ok [of j w] that
      by (auto simp: completeJob_def job_holder_def job_ok_def split: option.splits if_splits)
  qed
qed


definition foreign_job_op :: "string \<Rightarrow> string \<Rightarrow> time_ms \<Rightarrow> 'p job_op \<Rightarrow> bool" where
  "foreign_job_op w i u c =
     (case c of
        EnqueueOp now nid e \<Rightarrow> job_id_of nid e \<noteq> i
      | ClaimOp now w' d types \<Rightarrow> w' \<noteq> w \<and> w' \<noteq> [] \<and> now \<le> u
      | ProgressOp i' p w' \<Rightarrow> True
      | HeartbeatOp now i' w' d \<Rightarrow> w' \<noteq> w
      | CompleteOp now i' r w' \<Rightarrow> w' \<noteq> w \<and> w' \<noteq> []
      | FailOp now i' err w' r \<Rightarrow> i' \<noteq> i
      | CancelOp now i' \<Rightarrow> i' \<noteq> i
      | CleanupOp now a \<Rightarrow> True)"

lemma holder_update_other: "k \<noteq> i \<Longrightarrow> job_holder i (update_job k f s) = job_holder i s"
  by (simp add: job_holder_def)

lemma holder_update_frame:
  assumes "\<And>j. jb_status (f j) = jb_status j \<and> jb_lockedBy (f j) = jb_lockedBy j \<and> jb_lockedUntil (f j) = jb_lockedUntil j"
  shows "job_holder i (update_job k f s) = job_holder i s"
  using assms by (auto simp: job_holder_def split: option.split)

lemma foreign_keeps_holder:
  assumes "jobs_ok s" "job_holder i s = Some (w, u)" "foreign_job_op w i u c"
  shows "job_holder i (job_apply c s) = Some (w, u) \<and> jobs_ok (job_apply c s)"
proof -
  have "worker_named c"
    using assms(3) by (auto simp: foreign_job_op_def worker_named_def split: job_op.splits)
  then have "jobs_ok (job_apply c s)" using assms(1) by (rule jobs_ok_apply [rotated])
  moreover have "job_holder i (job_apply c s) = Some (w, u)"
  proof (cases c)
    case (EnqueueOp now nid e)
    then show ?thesis
      using assms(2,3)
      by (simp add: job_apply_def enqueueJob_def Let_def new_job_def job_holder_def foreign_job_op_def)
  next
    case (ClaimOp now w' d types)
    then show ?thesis
      using file_jobs.others_keep(1) [OF assms(1,2), of w' now types d] assms(3)
      by (simp add: job_apply_def foreign_job_op_def claim_id_def case_prod_unfold Let_def)
  next
    case (ProgressOp k p w')
    then show ?thesis
      using assms(2) by (simp add: job_apply_def updateJobProgress_def holder_update_frame split: option.split)
  next
    case (HeartbeatOp now k w' d)
    then show ?thesis
      using file_jobs.others_keep(2) [OF assms(1,2), of w' now k d] assms(3)
      by (simp add: job_apply_def foreign_job_op_def)
  next
    case (CompleteOp now k r w')
    then show ?thesis
      using file_jobs.others_keep(3) [OF assms(1,2), of w' now k r] assms(3)
      by (simp add: job_apply_def foreign_job_op_def)
  next
    case (FailOp now k err w' r)
    then show ?thesis
      using assms(2,3)
      by (simp add: job_apply_def failJob_def foreign_job_op_def holder_update_other split: option.split)
  next
    case (CancelOp now k)
    then show ?thesis
      using assms(2,3)
      by (simp add: job_apply_def cancelJob_def foreign_job_op_def holder_update_other split: option.split)
  next
    case (CleanupOp now a)
    then show ?thesis
      using assms(1,2)
      by (auto simp: job_apply_def cleanupJobs_def job_holder_def map_of_filter_key jobs_ok_def removable_job_def
          split: option.splits if_splits)
  qed
  ultimately show ?thesis by blast
qed

lemma foreign_run_holder:
  "jobs_ok s \<Longrightarrow> job_holder i s = Some (w, u) \<Longrightarrow> list_all (foreign_job_op w i u) cs \<Longrightarrow>
     job_holder i (fold job_apply cs s) = Some (w, u) \<and> jobs_ok (fold job_apply cs s)"
  by (induction cs arbitrary: s) (auto simp: foreign_keeps_holder)

subsection \<open>Properties\<close>

text \<open>
  The queue stays well formed: from an empty store, after any sequence of operations by
  any workers, ids are unique, exactly the running jobs have an owner and a lease, finished
  jobs carry a finish time, progress stays within 0 and 100, and no job is left in the
  status \<open>failed\<close>, which the code declares but never assigns.
\<close>

lemma job_queue_wellformed:
  assumes "list_all worker_named cs"
  shows "jobs_ok (fold job_apply cs empty_store)"
proof -
  have "jobs_ok empty_store" by (simp add: jobs_ok_def empty_store_def)
  then show ?thesis using assms by (rule jobs_ok_run)
qed

definition demo_job :: "string \<Rightarrow> int \<Rightarrow> string enqueue_input" where
  "demo_job i prio = \<lparr>ei_id = Some i, ei_type = ''health-sweep'', ei_payload = None, ei_requester = None,
     ei_priority = Some prio, ei_maxAttempts = Some 2, ei_backoffMs = None, ei_idempotencyKey = None,
     ei_dedupKey = None\<rparr>"

definition demo_store :: "(string, string, string) file_store" where
  "demo_store = fold job_apply
     [EnqueueOp 1 ''x'' (demo_job ''low'' 0), EnqueueOp 2 ''y'' (demo_job ''high'' 5),
      EnqueueOp 3 ''z'' (demo_job ''high2'' 5)] empty_store"

theorem job_queue_wellformed_witness:
  "jobs_ok (fold job_apply [ClaimOp 10 ''w1'' 100 None, FailOp 20 ''high'' ''boom'' ''w1'' True,
     CancelOp 25 ''low''] demo_store)"
  using job_queue_wellformed [of "[EnqueueOp 1 ''x'' (demo_job ''low'' 0), EnqueueOp 2 ''y'' (demo_job ''high'' 5),
      EnqueueOp 3 ''z'' (demo_job ''high2'' 5), ClaimOp 10 ''w1'' 100 None,
      FailOp 20 ''high'' ''boom'' ''w1'' True, CancelOp 25 ''low'']"]
  by (simp add: worker_named_def demo_store_def)

text \<open>
  A worker gets the right job: \<open>acquireNextJob\<close> takes a job that is queued, or running
  with its lease over, of a requested type, that no other such job precedes (higher priority
  first, then older); it marks it running under this worker's lease with one more attempt
  and changes no other job; and it returns nothing only when there is no such job.
\<close>

lemma acquireNextJob_best:
  assumes "jobs_ok s"
  shows "(fst (acquireNextJob now w d types s) = None) =
      (\<forall>i j. jm_get (fs_jobs s) i = Some j \<longrightarrow> \<not> claimable now types j) \<and>
    (case fst (acquireNextJob now w d types s) of
       None \<Rightarrow> snd (acquireNextJob now w d types s) = s
     | Some r \<Rightarrow> (\<exists>j. getJob (jb_id r) s = Some j \<and> claimable now types j \<and> r = claim_job now w d j \<and>
         (\<forall>i' j'. getJob i' s = Some j' \<and> claimable now types j' \<longrightarrow>
            jb_priority j' < jb_priority j \<or> jb_priority j' = jb_priority j \<and> jb_createdAt j \<le> jb_createdAt j') \<and>
         job_holder (jb_id r) (snd (acquireNextJob now w d types s)) = Some (w, now + d) \<and>
         (\<forall>k. k \<noteq> jb_id r \<longrightarrow> getJob k (snd (acquireNextJob now w d types s)) = getJob k s)))"
  using assms
proof (cases rule: acquireNextJob_cases [of s now w d types])
  case none
  then show ?thesis by simp
next
  case (some i j)
  have id: "jb_id j = i" using jobs_okD [OF assms some(1)] by simp
  have best: "jb_priority j' < jb_priority j \<or> jb_priority j' = jb_priority j \<and> jb_createdAt j \<le> jb_createdAt j'"
    if "getJob i' s = Some j'" "claimable now types j'" for i' j'
    using some(5) [rule_format, of i' j'] that by (auto simp: getJob_def claim_key_def less_eq_prod_def)
  have holder: "job_holder i (snd (acquireNextJob now w d types s)) = Some (w, now + d)"
    unfolding some(4) by (simp add: job_holder_def claim_job_def)
  show ?thesis
    using some(1,2) best holder id unfolding some(3) some(4)
    by (simp add: getJob_def) blast
qed

theorem acquireNextJob_best_witness:
  "map_option jb_id (fst (acquireNextJob 10 ''w1'' 100 (Some [''health-sweep'']) demo_store)) = Some ''high'' \<and>
   job_holder ''high'' (snd (acquireNextJob 10 ''w1'' 100 (Some [''health-sweep'']) demo_store)) = Some (''w1'', 110)"
proof -
  have "list_all worker_named [EnqueueOp 1 ''x'' (demo_job ''low'' 0), EnqueueOp 2 ''y'' (demo_job ''high'' 5),
      EnqueueOp 3 ''z'' (demo_job ''high2'' 5)]"
    by (simp add: worker_named_def)
  moreover have "jobs_ok (empty_store :: (string, string, string) file_store)"
    by (simp add: jobs_ok_def empty_store_def)
  ultimately have ok: "jobs_ok demo_store"
    unfolding demo_store_def by (rule jobs_ok_run [rotated])
  have "map_option jb_id (fst (acquireNextJob 10 ''w1'' 100 (Some [''health-sweep'']) demo_store)) = Some ''high''"
    by code_simp
  then show ?thesis
    using acquireNextJob_best [OF ok, of 10 "''w1''" 100 "Some [''health-sweep'']"]
    by (auto split: option.splits)
qed

text \<open>
  C3. A lease is exclusive: once a worker has acquired a job until \<open>u\<close>, then whatever other
  workers claim (up to \<open>u\<close>), renew, complete or report, and whatever happens to other jobs,
  the job is still its own, no claim up to \<open>u\<close> yields it, and its completion takes effect.
  Failing or cancelling the job is excluded: the code accepts those from anyone.
\<close>

theorem job_lease_exclusive:
  assumes "jobs_ok s" "w \<noteq> []" and "fst (acquireNextJob now w d types s) = Some j"
    and "list_all (foreign_job_op w (jb_id j) (now + d)) cs" and "t \<le> now + d"
  shows "job_holder (jb_id j) (fold job_apply cs (snd (acquireNextJob now w d types s))) = Some (w, now + d) \<and>
    map_option jb_id (fst (acquireNextJob t w2 d2 types2
      (fold job_apply cs (snd (acquireNextJob now w d types s))))) \<noteq> Some (jb_id j) \<and>
    map_option jb_status (getJob (jb_id j) (completeJob t (jb_id j) r w
      (fold job_apply cs (snd (acquireNextJob now w d types s))))) = Some Completed"
proof -
  let ?s = "snd (acquireNextJob now w d types s)" and ?i = "jb_id j"
  have ok: "jobs_ok ?s" using jobs_ok_claim assms(1,2) by blast
  have "fst (claim_id types now w d s) = Some ?i" "snd (claim_id types now w d s) = ?s"
    using assms(3) by (simp_all add: claim_id_def case_prod_unfold Let_def)
  then have "job_holder ?i ?s = Some (w, now + d)"
    using file_jobs.holder_claim [OF assms(1), of ?i types now w d] by simp
  then have run: "job_holder ?i (fold job_apply cs ?s) = Some (w, now + d)" "jobs_ok (fold job_apply cs ?s)"
    using foreign_run_holder [OF ok] assms(4) by blast+
  moreover have "fst (claim_id types2 t w2 d2 (fold job_apply cs ?s)) \<noteq> Some ?i"
    using file_jobs.claim_refused [OF run(2,1) assms(5)] .
  moreover obtain j' where "jm_get (fs_jobs (fold job_apply cs ?s)) ?i = Some j'" "jb_lockedBy j' = Some w"
    using run(1) by (auto simp: job_holder_def split: option.splits if_splits)
  ultimately show ?thesis
    by (simp add: claim_id_def case_prod_unfold Let_def completeJob_def may_write_def getJob_def)
qed

theorem job_lease_exclusive_witness:
  "map_option jb_id (fst (acquireNextJob 60 ''w2'' 100 None (fold job_apply
     [HeartbeatOp 20 ''high'' ''w2'' 9, CompleteOp 30 ''high'' None ''w2'', ClaimOp 40 ''w3'' 100 None]
     (snd (acquireNextJob 10 ''w1'' 100 None demo_store))))) \<noteq> Some ''high''"
proof -
  have "jobs_ok (fold job_apply [EnqueueOp 1 ''x'' (demo_job ''low'' 0), EnqueueOp 2 ''y'' (demo_job ''high'' 5),
      EnqueueOp 3 ''z'' (demo_job ''high2'' 5)] (empty_store :: (string, string, string) file_store))"
    by (rule jobs_ok_run) (simp_all add: worker_named_def jobs_ok_def empty_store_def)
  then have ok: "jobs_ok demo_store" unfolding demo_store_def .
  have "map_option jb_id (fst (acquireNextJob 10 ''w1'' 100 None demo_store)) = Some ''high''"
    by code_simp
  then obtain j where "fst (acquireNextJob 10 ''w1'' 100 None demo_store) = Some j" "jb_id j = ''high''"
    by auto
  then show ?thesis
    using job_lease_exclusive [OF ok, of "''w1''" 10 100 None j
        "[HeartbeatOp 20 ''high'' ''w2'' 9, CompleteOp 30 ''high'' None ''w2'', ClaimOp 40 ''w3'' 100 None]" 60]
    by (simp add: foreign_job_op_def)
qed

text \<open>
  \<open>failJob\<close> does not check who calls it: a worker that lost its lease, or any other, takes
  the job away from the one running it, and puts a cancelled job back in the queue.
\<close>

lemma failJob_ignores_worker:
  "jm_get (fs_jobs s) i = Some j \<Longrightarrow> job_holder i (snd (failJob now i err w' r s)) = None"
  by (simp add: failJob_def job_holder_def failed_job_def fail_status_def)

lemma failJob_revives_cancelled:
  "jm_get (fs_jobs s) i = Some j \<Longrightarrow> jb_status j = Cancelled \<Longrightarrow> jb_attempts j < jb_maxAttempts j \<Longrightarrow>
     map_option jb_status (getJob i (snd (failJob now i err w' True s))) = Some Queued"
  by (simp add: failJob_def getJob_def failed_job_def fail_status_def)

text \<open>One attempt that fails retryably: claimed, then failed.\<close>

fun retry_cycles :: "(time_ms \<times> string \<times> int) list \<Rightarrow> 'p job_record \<Rightarrow> 'p job_record" where
  "retry_cycles [] j = j"
| "retry_cycles ((now, w, d) # cs) j = retry_cycles cs (failed_job now ''error'' True (claim_job now w d j))"

lemma retry_cycles_attempts: "jb_attempts (retry_cycles cs j) = jb_attempts j + int (length cs)"
  by (induction cs j rule: retry_cycles.induct) (simp_all add: failed_job_def claim_job_def)

lemma retry_cycles_max: "jb_maxAttempts (retry_cycles cs j) = jb_maxAttempts j"
  by (induction cs j rule: retry_cycles.induct) (simp_all add: failed_job_def claim_job_def)

lemma retry_cycles_snoc:
  "retry_cycles (cs @ [(now, w, d)]) j = failed_job now ''error'' True (claim_job now w d (retry_cycles cs j))"
  by (induction cs j rule: retry_cycles.induct) simp_all

text \<open>
  Retries are bounded: after \<open>n\<close> failed attempts from a fresh start a job is back in the
  queue while \<open>n\<close> is below its maximum and is a dead letter, which no worker can claim at any
  later time, once \<open>n\<close> reaches it.
\<close>

lemma job_retries_bounded:
  assumes "jb_attempts j = 0" and "cs \<noteq> []"
  shows "jb_attempts (retry_cycles cs j) = int (length cs) \<and>
    jb_status (retry_cycles cs j) = (if int (length cs) < jb_maxAttempts j then Queued else DeadLetter) \<and>
    (int (length cs) < jb_maxAttempts j \<or> \<not> claimable t types (retry_cycles cs j))"
proof -
  obtain cs' now w d where cs: "cs = cs' @ [(now, w, d)]"
    using assms(2) by (metis rev_exhaust prod_cases3)
  have "jb_attempts (claim_job now w d (retry_cycles cs' j)) = int (length cs)"
    using assms(1) by (simp add: cs claim_job_def retry_cycles_attempts)
  moreover have "jb_maxAttempts (claim_job now w d (retry_cycles cs' j)) = jb_maxAttempts j"
    by (simp add: claim_job_def retry_cycles_max)
  ultimately show ?thesis
    using assms(1) by (simp add: cs retry_cycles_snoc failed_job_def fail_status_def claimable_def)
qed

theorem job_retries_bounded_witness:
  "jb_status (retry_cycles [(1, ''w'', 10), (50, ''v'', 10)] (new_job 0 ''x'' (demo_job ''a'' 0))) = DeadLetter"
  using job_retries_bounded [of "new_job 0 ''x'' (demo_job ''a'' 0)" "[(1, ''w'', 10), (50, ''v'', 10)]"]
  by (simp add: new_job_def demo_job_def)

lemma claim_fail_cycle:
  "jobs_ok s \<Longrightarrow> fst (acquireNextJob now w d types s) = Some r \<Longrightarrow>
     getJob (jb_id r) (snd (failJob now (jb_id r) ''error'' w True (snd (acquireNextJob now w d types s)))) =
       map_option (retry_cycles [(now, w, d)]) (getJob (jb_id r) s)"
  by (cases rule: acquireNextJob_cases [of s now w d types])
    (auto simp: getJob_def failJob_def dest: jobs_okD)


fun consume_times :: "string \<Rightarrow> time_ms list \<Rightarrow> ('m, 'f, 'p) file_store \<Rightarrow> bool list" where
  "consume_times gid [] s = []"
| "consume_times gid (t # ts) s =
     (fst (consumeGrant t gid s) \<noteq> None) # consume_times gid ts (snd (consumeGrant t gid s))"

lemma consume_used:
  "jm_get (fs_grants s) gid = Some g \<Longrightarrow> gr_singleUse g \<Longrightarrow> gr_used g \<Longrightarrow>
     consume_times gid ts s = replicate (length ts) False"
  by (induction ts) (simp_all add: consumeGrant_def)

text \<open>
  A single-use grant is redeemed at most once: of any sequence of redemptions of it,
  however they are timed, at most one succeeds, and only before the grant expires.
\<close>

lemma single_use_grant_once:
  assumes "jm_get (fs_grants s) gid = Some g" and "gr_singleUse g"
  shows "length (filter (\<lambda>b. b) (consume_times gid ts s)) \<le> 1 \<and>
    list_all (\<lambda>(t, b). \<not> b \<or> t div 1000 < gr_expiresAt g) (zip ts (consume_times gid ts s))"
  using assms(1)
proof (induction ts arbitrary: s)
  case (Cons t ts)
  show ?case
  proof (cases "fst (consumeGrant t gid s)")
    case None
    then have "snd (consumeGrant t gid s) = s"
      by (auto simp: consumeGrant_def split: option.splits if_splits)
    then show ?thesis using Cons None by simp
  next
    case (Some r)
    then have "t div 1000 < gr_expiresAt g"
      and g: "jm_get (fs_grants (snd (consumeGrant t gid s))) gid = Some (g\<lparr>gr_used := True\<rparr>)"
      using Cons.prems by (auto simp: consumeGrant_def split: if_splits)
    moreover have "consume_times gid ts (snd (consumeGrant t gid s)) = replicate (length ts) False"
      using consume_used [OF g] assms(2) by simp
    moreover have "list_all (\<lambda>(t, b). \<not> b \<or> t div 1000 < gr_expiresAt g) (zip ts (replicate (length ts) False))"
      by (auto simp: list_all_iff dest: set_zip_rightD)
    ultimately show ?thesis using Some by simp
  qed
qed simp

definition demo_grant :: grant_record where
  "demo_grant = \<lparr>gr_id = ''g'', gr_url = ''u'', gr_expiresAt = 50, gr_createdAt = 0,
     gr_maxRedirects = 3, gr_singleUse = True, gr_used = False\<rparr>"

theorem single_use_grant_once_witness:
  "length (filter (\<lambda>b. b) (consume_times ''g'' [1000, 2000, 90000] (saveGrant demo_grant demo_store))) \<le> 1"
proof -
  have "jm_get (fs_grants (saveGrant demo_grant demo_store)) ''g'' = Some demo_grant" "gr_singleUse demo_grant"
    by (simp_all add: saveGrant_def demo_grant_def)
  then show ?thesis by (rule single_use_grant_once [THEN conjunct1])
qed

lemma find_update_same:
  "find_index P xs = Some i \<Longrightarrow> P y \<Longrightarrow> find P (xs[i := y]) = Some y"
  by (induction xs arbitrary: i) (auto split: if_splits)

lemma find_update_other:
  "find_index P xs = Some i \<Longrightarrow> \<not> Q (xs ! i) \<Longrightarrow> \<not> Q y \<Longrightarrow> find Q (xs[i := y]) = find Q xs"
  by (induction xs arbitrary: i) (auto split: if_splits)

lemma getAddon_index:
  "getAddon pid s = Some e \<Longrightarrow>
     \<exists>i. find_index (\<lambda>a. ad_providerId a = pid) (fs_addons s) = Some i \<and> fs_addons s ! i = e"
  unfolding getAddon_def by (rule find_find_index)

lemma fs_push_outbox [simp]:
  "fs_addons (push_outbox nid now job s) = fs_addons s" "fs_revision (push_outbox nid now job s) = fs_revision s"
  by (simp_all add: push_outbox_def split: option.split)

lemma saveAddon_conflict:
  "getAddon (ad_providerId a) s = Some e \<Longrightarrow> ad_version e \<noteq> v \<Longrightarrow>
     saveAddon now nid a (Some v) job s = (Inl (OptimisticLock (ad_providerId a) v (ad_version e)), s)"
  using getAddon_index [of "ad_providerId a" s e] by (auto simp: saveAddon_def)

lemma saveAddon_current:
  assumes "getAddon (ad_providerId a) s = Some e" and "expected = None \<or> expected = Some (ad_version e)"
  shows "fst (saveAddon now nid a expected job s) = Inr (a\<lparr>ad_version := ad_version e + 1, ad_updatedAt := now\<rparr>) \<and>
    getAddon (ad_providerId a) (snd (saveAddon now nid a expected job s)) =
      Some (a\<lparr>ad_version := ad_version e + 1, ad_updatedAt := now\<rparr>) \<and>
    fs_revision (snd (saveAddon now nid a expected job s)) = fs_revision s + 1 \<and>
    (k = ad_providerId a \<or> getAddon k (snd (saveAddon now nid a expected job s)) = getAddon k s)"
proof -
  obtain i where i: "find_index (\<lambda>x. ad_providerId x = ad_providerId a) (fs_addons s) = Some i"
    "fs_addons s ! i = e"
    using getAddon_index [OF assms(1)] by blast
  let ?u = "a\<lparr>ad_version := ad_version e + 1, ad_updatedAt := now\<rparr>"
  have "ad_providerId e = ad_providerId a" using find_index_Some [OF i(1)] i(2) by simp
  then have "k = ad_providerId a \<or> find (\<lambda>x. ad_providerId x = k) ((fs_addons s)[i := ?u]) =
      find (\<lambda>x. ad_providerId x = k) (fs_addons s)"
    using find_update_other [OF i(1), of "\<lambda>x. ad_providerId x = k" ?u] i(2) by auto
  then show ?thesis
    using i assms(2) find_update_same [OF i(1), of ?u]
    by (auto simp: saveAddon_def Let_def getAddon_def split: option.split)
qed

text \<open>
  Optimistic versions prevent lost updates: when a stored addon is saved against its
  current version, the save is visible with the next version, one revision later and with
  every other addon unchanged, and a second save against the version the first one used is
  refused and changes nothing.
\<close>

lemma saveAddon_no_lost_update:
  assumes "getAddon (ad_providerId a) s = Some e" and "ad_providerId b = ad_providerId a"
  shows "getAddon (ad_providerId a) (snd (saveAddon t1 n1 a (Some (ad_version e)) j1 s)) =
      Some (a\<lparr>ad_version := ad_version e + 1, ad_updatedAt := t1\<rparr>) \<and>
    fs_revision (snd (saveAddon t1 n1 a (Some (ad_version e)) j1 s)) = fs_revision s + 1 \<and>
    (k = ad_providerId a \<or>
       getAddon k (snd (saveAddon t1 n1 a (Some (ad_version e)) j1 s)) = getAddon k s) \<and>
    saveAddon t2 n2 b (Some (ad_version e)) j2 (snd (saveAddon t1 n1 a (Some (ad_version e)) j1 s)) =
      (Inl (OptimisticLock (ad_providerId a) (ad_version e) (ad_version e + 1)),
       snd (saveAddon t1 n1 a (Some (ad_version e)) j1 s))"
proof -
  note save = saveAddon_current [OF assms(1), of "Some (ad_version e)" t1 n1 j1 k, simplified]
  then have "getAddon (ad_providerId b) (snd (saveAddon t1 n1 a (Some (ad_version e)) j1 s)) =
      Some (a\<lparr>ad_version := ad_version e + 1, ad_updatedAt := t1\<rparr>)"
    using assms(2) by simp
  from saveAddon_conflict [OF this, of "ad_version e" t2 n2 j2] save assms(2) show ?thesis by simp
qed

definition demo_addon :: "(string, string) addon_record" where
  "demo_addon = \<lparr>ad_providerId = ''addon:a'', ad_slug = ''a'', ad_name = ''A'', ad_manifestUrl = [],
     ad_baseUrl = [], ad_enabled = True, ad_admissionState = None, ad_validationFindings = [],
     ad_order = 0, ad_timeoutMs = 5000, ad_source = ''url'', ad_manifest = [], ad_version = 4,
     ad_addedAt = [], ad_updatedAt = 0, ad_health = None\<rparr>"

theorem saveAddon_no_lost_update_witness:
  "fst (saveAddon 9 ''n2'' (demo_addon\<lparr>ad_enabled := False\<rparr>) (Some 4) None
     (snd (saveAddon 5 ''n1'' (demo_addon\<lparr>ad_order := 2\<rparr>) (Some 4) None
       (demo_store\<lparr>fs_addons := [demo_addon]\<rparr>)))) = Inl (OptimisticLock ''addon:a'' 4 5)"
proof -
  have "getAddon (ad_providerId (demo_addon\<lparr>ad_order := 2\<rparr>)) (demo_store\<lparr>fs_addons := [demo_addon]\<rparr>) = Some demo_addon"
    by (simp add: getAddon_def demo_addon_def)
  from saveAddon_no_lost_update [OF this, of "demo_addon\<lparr>ad_enabled := False\<rparr>"]
  show ?thesis by (simp add: demo_addon_def)
qed

end
