(* ===== verification/JobEngine.thy ===== *)
theory JobEngine
  imports FileStore Locks Text
begin

text \<open>
  The durable job engine, \<open>src/jobs/engine.ts\<close>, over the file store's queue: enqueueing with
  idempotency and dedup keys, scheduled jobs under a lock, cancellation, retry, polling,
  execution outcomes, the outbox and the shutdown drain. The engine's awaits split an
  operation into steps where another event can come between: a poll is the guard check
  and, later, the claim; an execution is started by a poll, settles in the store and then
  runs its \<open>finally\<close>. A handler's own work is its outcome, an argument.
\<close>

subsection \<open>State\<close>

text \<open>An execution in progress: the job as claimed and the state of its abort signal.\<close>

record 'p execution =
  ex_job :: "'p job_record"
  ex_aborted :: bool

record 'p engine =
  en_workerId :: string
  en_concurrency :: int
  en_pollIntervalMs :: int
  en_lockDurationMs :: int
  en_handlers :: "string list"
  en_running :: bool
  en_draining :: bool
  en_timers :: bool
  en_activeWorkerCount :: int
  en_activeJobs :: "(string, nat) jsmap"
  en_execs :: "(nat, 'p execution) jsmap"
  en_next :: nat
  en_pendingPolls :: nat

record engine_options =
  eo_workerId :: "string option"
  eo_concurrency :: "int option"
  eo_pollIntervalMs :: "int option"
  eo_lockDurationMs :: "int option"

text \<open>\<open>x || d\<close> on numbers: zero counts as missing.\<close>

definition num_or :: "int option \<Rightarrow> int \<Rightarrow> int" where
  "num_or x d = (case x of Some n \<Rightarrow> if n = 0 then d else n | None \<Rightarrow> d)"

definition default_handlers :: "string list" where
  "default_handlers =
     [''multi-addon-import'', ''repository-import'', ''stremio-account-import'', ''manifest-refresh'',
      ''health-sweep'', ''maintenance-cleanup'', ''uncached-transfer'']"

definition new_engine :: "string \<Rightarrow> int \<Rightarrow> int \<Rightarrow> engine_options \<Rightarrow> 'p engine" where
  "new_engine generatedId cfgConcurrency cfgPoll op =
     \<lparr>en_workerId = (case eo_workerId op of Some (c # s) \<Rightarrow> c # s | _ \<Rightarrow> generatedId),
      en_concurrency = num_or (eo_concurrency op) (num_or (Some cfgConcurrency) 4),
      en_pollIntervalMs = num_or (eo_pollIntervalMs op) (num_or (Some cfgPoll) 1000),
      en_lockDurationMs = num_or (eo_lockDurationMs op) 60000,
      en_handlers = default_handlers, en_running = False, en_draining = False, en_timers = False,
      en_activeWorkerCount = 0, en_activeJobs = [], en_execs = [], en_next = 0, en_pendingPolls = 0\<rparr>"

definition registerHandler :: "string \<Rightarrow> 'p engine \<Rightarrow> 'p engine" where
  "registerHandler ty e =
     (if ty \<in> set (en_handlers e) then e else e\<lparr>en_handlers := en_handlers e @ [ty]\<rparr>)"

definition hasHandler :: "string \<Rightarrow> 'p engine \<Rightarrow> bool" where
  "hasHandler ty e \<longleftrightarrow> ty \<in> set (en_handlers e)"

type_synonym ('m, 'f, 'p) eng_state = "'p engine \<times> ('m, 'f, 'p) file_store"

subsection \<open>Enqueueing\<close>

record enqueue_options =
  qo_priority :: "int option"
  qo_maxAttempts :: "int option"
  qo_backoffMs :: "int option"
  qo_idempotencyKey :: "string option"
  qo_dedupKey :: "string option"
  qo_requester :: "string option"

definition no_options :: enqueue_options where
  "no_options = \<lparr>qo_priority = None, qo_maxAttempts = None, qo_backoffMs = None, qo_idempotencyKey = None,
     qo_dedupKey = None, qo_requester = None\<rparr>"

datatype engine_error = UnregisteredType string | LockNotAcquired string

text \<open>A key used as a condition: an empty key counts as none.\<close>

definition key_given :: "string option \<Rightarrow> string option" where
  "key_given k = (case k of Some (c # s) \<Rightarrow> Some (c # s) | _ \<Rightarrow> None)"

definition trigger_poll :: "'p engine \<Rightarrow> 'p engine" where
  "trigger_poll e =
     (if en_running e \<and> en_activeWorkerCount e < en_concurrency e
      then e\<lparr>en_pendingPolls := Suc (en_pendingPolls e)\<rparr> else e)"

definition enqueue_input_of :: "string \<Rightarrow> 'p option \<Rightarrow> enqueue_options \<Rightarrow> 'p enqueue_input" where
  "enqueue_input_of ty payload q =
     \<lparr>ei_id = None, ei_type = ty, ei_payload = payload, ei_requester = qo_requester q,
      ei_priority = Some (or_else (qo_priority q) 0), ei_maxAttempts = Some (or_else (qo_maxAttempts q) 3),
      ei_backoffMs = Some (or_else (qo_backoffMs q) 1000), ei_idempotencyKey = qo_idempotencyKey q,
      ei_dedupKey = qo_dedupKey q\<rparr>"

definition enqueue ::
  "time_ms \<Rightarrow> string \<Rightarrow> string \<Rightarrow> 'p option \<Rightarrow> enqueue_options \<Rightarrow> ('m, 'f, 'p) eng_state \<Rightarrow>
     (engine_error + 'p job_record) \<times> ('m, 'f, 'p) eng_state" where
  "enqueue now nid ty payload q st =
     (let (e, s) = st in
      if \<not> hasHandler ty e then (Inl (UnregisteredType ty), st)
      else case Option.bind (key_given (qo_idempotencyKey q)) (\<lambda>k. getJobByIdempotencyKey k s) of
        Some j \<Rightarrow> (Inr j, st)
      | None \<Rightarrow>
          (case Option.bind (key_given (qo_dedupKey q)) (\<lambda>k. getJobByDedupKey k True s) of
             Some j \<Rightarrow> (Inr j, st)
           | None \<Rightarrow>
               (let (j, s1) = enqueueJob now nid (enqueue_input_of ty payload q) s in
                (Inr j, (trigger_poll e, s1)))))"

text \<open>\<open>cancel\<close>: abort a local execution, then cancel in the store.\<close>

definition abort_exec :: "string \<Rightarrow> 'p engine \<Rightarrow> 'p engine" where
  "abort_exec i e =
     (case jm_get (en_activeJobs e) i of
        None \<Rightarrow> e
      | Some x \<Rightarrow>
          (case jm_get (en_execs e) x of
             None \<Rightarrow> e
           | Some ex \<Rightarrow> e\<lparr>en_execs := jm_set x (ex\<lparr>ex_aborted := True\<rparr>) (en_execs e)\<rparr>))"

definition cancel_engine :: "time_ms \<Rightarrow> string \<Rightarrow> ('m, 'f, 'p) eng_state \<Rightarrow> bool \<times> ('m, 'f, 'p) eng_state" where
  "cancel_engine now i st =
     (let e = (abort_exec i (fst st))\<lparr>en_activeJobs := jm_delete i (en_activeJobs (fst st))\<rparr>;
          (b, s) = cancelJob now i (snd st)
      in (b, (e, s)))"

definition enqueueScheduled ::
  "bool reply \<Rightarrow> bool reply \<Rightarrow> time_ms \<Rightarrow> string \<Rightarrow> string \<Rightarrow> string \<Rightarrow> 'p option \<Rightarrow> string \<Rightarrow> lock_table \<times> ('m, 'f, 'p) eng_state \<Rightarrow>
     (engine_error + 'p job_record) \<times> lock_table \<times> ('m, 'f, 'p) eng_state" where
  "enqueueScheduled redis1 redis2 now nid token ty payload dedupKey ms =
     (case withLock redis1 redis2 now (''jobs:scheduled:'' @ ty) 10000 token
        (\<lambda>h (m, st).
           case getJobByDedupKey dedupKey True (snd st) of
             Some j \<Rightarrow> (Inr j, (m, st))
           | None \<Rightarrow>
               (let (r, st1) = enqueue now nid ty payload (no_options\<lparr>qo_dedupKey := Some dedupKey\<rparr>) st in
                (r, (m, st1)))) ms of
        (None, ms1) \<Rightarrow> (Inl (LockNotAcquired (''jobs:scheduled:'' @ ty)), ms1)
      | (Some r, ms1) \<Rightarrow> (r, ms1))"

definition retry_engine ::
  "time_ms \<Rightarrow> string \<Rightarrow> string \<Rightarrow> ('m, 'f, 'p) eng_state \<Rightarrow>
     (engine_error + 'p job_record option) \<times> ('m, 'f, 'p) eng_state" where
  "retry_engine now nid i st =
     (case getJob i (snd st) of
        None \<Rightarrow> (Inr None, st)
      | Some j \<Rightarrow>
          if jb_status j \<notin> {Failed, DeadLetter, Cancelled} then (Inr (Some j), st)
          else
            (case enqueue now nid (jb_type j) (jb_payload j)
               \<lparr>qo_priority = Some (jb_priority j + 1), qo_maxAttempts = Some (jb_maxAttempts j),
                qo_backoffMs = Some (jb_backoffMs j), qo_idempotencyKey = None, qo_dedupKey = None,
                qo_requester = jb_requester j\<rparr> st of
               (Inl err, st1) \<Rightarrow> (Inl err, st1)
             | (Inr r, st1) \<Rightarrow> (Inr (Some r), st1)))"

subsection \<open>Start, stop, poll\<close>

definition start_engine :: "'p engine \<Rightarrow> 'p engine" where
  "start_engine e = (if en_running e then e else e\<lparr>en_running := True, en_timers := True\<rparr>)"

definition abort_active :: "'p engine \<Rightarrow> 'p engine" where
  "abort_active e = fold abort_exec (jm_keys (en_activeJobs e)) e"

definition stop_engine :: "'p engine \<Rightarrow> 'p engine" where
  "stop_engine e =
     (abort_active (e\<lparr>en_running := False, en_timers := False\<rparr>))\<lparr>en_activeJobs := []\<rparr>"

text \<open>\<open>pollNext\<close> up to the await of the claim: whether it goes on.\<close>

definition poll_guard :: "'p engine \<Rightarrow> bool" where
  "poll_guard e \<longleftrightarrow> en_running e \<and> en_activeWorkerCount e < en_concurrency e \<and> en_handlers e \<noteq> []"

text \<open>The rest of \<open>pollNext\<close>: the claim, and the start of the execution.\<close>

definition poll_claim :: "time_ms \<Rightarrow> ('m, 'f, 'p) eng_state \<Rightarrow> bool \<times> ('m, 'f, 'p) eng_state" where
  "poll_claim now st =
     (let (e, s) = st;
          (j, s1) = acquireNextJob now (en_workerId e) (en_lockDurationMs e) (Some (en_handlers e)) s
      in case j of
           None \<Rightarrow> (False, (e, s1))
         | Some job \<Rightarrow>
             (True,
              (e\<lparr>en_activeWorkerCount := en_activeWorkerCount e + 1,
                 en_activeJobs := jm_set (jb_id job) (en_next e) (en_activeJobs e),
                 en_execs := jm_set (en_next e) \<lparr>ex_job = job, ex_aborted = False\<rparr> (en_execs e),
                 en_next := Suc (en_next e)\<rparr>, s1)))"

definition pollNext :: "time_ms \<Rightarrow> ('m, 'f, 'p) eng_state \<Rightarrow> bool \<times> ('m, 'f, 'p) eng_state" where
  "pollNext now st = (if poll_guard (fst st) then poll_claim now st else (False, st))"

text \<open>The loop of \<open>pollLoop\<close>; each successful poll takes one of the free worker slots.\<close>

lemma pollNext_count:
  "fst (pollNext now st) \<Longrightarrow>
     en_activeWorkerCount (fst (snd (pollNext now st))) = en_activeWorkerCount (fst st) + 1 \<and>
     en_concurrency (fst (snd (pollNext now st))) = en_concurrency (fst st) \<and>
     en_activeWorkerCount (fst st) < en_concurrency (fst st)"
  by (auto simp: pollNext_def poll_guard_def poll_claim_def Let_def case_prod_unfold split: if_splits option.splits)

function poll_loop :: "time_ms \<Rightarrow> ('m, 'f, 'p) eng_state \<Rightarrow> ('m, 'f, 'p) eng_state" where
  "poll_loop now st =
     (if en_running (fst st) \<and> en_activeWorkerCount (fst st) < en_concurrency (fst st)
      then if fst (pollNext now st) then poll_loop now (snd (pollNext now st)) else snd (pollNext now st)
      else st)"
  by pat_completeness auto
termination
  by (relation "measure (\<lambda>(now, st). nat (en_concurrency (fst st) - en_activeWorkerCount (fst st)))")
    (auto dest!: pollNext_count)

declare poll_loop.simps [simp del]

subsection \<open>Execution\<close>

text \<open>How a handler ends: a result, or an error with its name, code and message.\<close>

record handler_error =
  he_name :: "string option"
  he_code :: "string option"
  he_message :: string

datatype 'p handler_outcome = Returned "'p option" | Threw handler_error

definition is_abort :: "handler_error \<Rightarrow> bool" where
  "is_abort h \<longleftrightarrow> he_name h = Some ''AbortError'' \<or> he_code h = Some ''CANCELLED'' \<or>
     he_code h = Some ''WORKER_SHUTDOWN'' \<or> str_includes (to_lower (he_message h)) ''cancelled''"

definition released_msg :: string where
  "released_msg = ''Job interrupted by worker shutdown; released for retry''"

text \<open>What \<open>executeJob\<close> writes to the store when the handler has ended.\<close>

definition execute_settle ::
  "time_ms \<Rightarrow> 'p execution \<Rightarrow> 'p handler_outcome \<Rightarrow> ('m, 'f, 'p) eng_state \<Rightarrow> ('m, 'f, 'p) file_store" where
  "execute_settle now x out st =
     (let (e, s) = st; j = ex_job x; i = jb_id j; w = en_workerId e in
      if \<not> hasHandler (jb_type j) e
      then snd (failJob now i (''No handler registered for job type '' @ [CHR 0x27] @ jb_type j @ [CHR 0x27]) w False s)
      else case out of
        Returned r \<Rightarrow> if ex_aborted x then s else completeJob now i r w s
      | Threw h \<Rightarrow>
          if ex_aborted x
          then (if en_draining e then snd (failJob now i released_msg w True s) else s)
          else if is_abort h
          then (if he_code h = Some ''WORKER_SHUTDOWN'' then snd (failJob now i released_msg w True s)
                else snd (cancelJob now i s))
          else snd (failJob now i (he_message h) w (jb_attempts j < jb_maxAttempts j) s))"

text \<open>The \<open>finally\<close> that \<open>pollNext\<close> attaches to an execution.\<close>

definition execute_finally :: "nat \<Rightarrow> 'p engine \<Rightarrow> 'p engine" where
  "execute_finally n e =
     (case jm_get (en_execs e) n of
        None \<Rightarrow> e
      | Some x \<Rightarrow>
          trigger_poll (e\<lparr>en_activeJobs := jm_delete (jb_id (ex_job x)) (en_activeJobs e),
            en_activeWorkerCount := en_activeWorkerCount e - 1, en_execs := jm_delete n (en_execs e)\<rparr>))"

definition execution_ends ::
  "time_ms \<Rightarrow> nat \<Rightarrow> 'p handler_outcome \<Rightarrow> ('m, 'f, 'p) eng_state \<Rightarrow> ('m, 'f, 'p) eng_state" where
  "execution_ends now n out st =
     (case jm_get (en_execs (fst st)) n of
        None \<Rightarrow> st
      | Some x \<Rightarrow> (execute_finally n (fst st), execute_settle now x out st))"

subsection \<open>Shutdown\<close>

text \<open>\<open>beginShutdown\<close>: its start; the abort of the stragglers at the deadline; the forced release.\<close>

definition shutdown_start :: "'p engine \<Rightarrow> 'p engine" where
  "shutdown_start e = e\<lparr>en_running := False, en_draining := True, en_timers := False\<rparr>"

definition force_release ::
  "time_ms \<Rightarrow> string \<Rightarrow> ('m, 'f, 'p) eng_state \<Rightarrow> ('m, 'f, 'p) eng_state" where
  "force_release now i st =
     (let (e, s) = st in
      (e\<lparr>en_activeJobs := jm_delete i (en_activeJobs e),
         en_activeWorkerCount := max 0 (en_activeWorkerCount e - 1)\<rparr>,
       snd (failJob now i released_msg (en_workerId e) True s)))"

definition shutdown_force :: "time_ms \<Rightarrow> ('m, 'f, 'p) eng_state \<Rightarrow> ('m, 'f, 'p) eng_state" where
  "shutdown_force now st =
     (let (e, s) = fold (force_release now) (jm_keys (en_activeJobs (fst st))) st in
      (e\<lparr>en_draining := False\<rparr>, s))"

subsection \<open>Outbox\<close>

definition outbox_options :: "'p outbox_record \<Rightarrow> enqueue_options" where
  "outbox_options o' =
     no_options\<lparr>qo_priority := Some 5, qo_idempotencyKey := Some (''outbox_'' @ ob_id o')\<rparr>"

text \<open>One item of \<open>drainOutbox\<close>: \<open>enqueue\<close> cannot throw here, its type has been checked.\<close>

definition drain_item ::
  "time_ms \<Rightarrow> string \<Rightarrow> 'p outbox_record \<Rightarrow> ('m, 'f, 'p) eng_state \<Rightarrow> ('m, 'f, 'p) eng_state" where
  "drain_item now nid o' st =
     (let st1 = (if hasHandler (ob_jobType o') (fst st)
                 then snd (enqueue now nid (ob_jobType o') (ob_payload o') (outbox_options o') st) else st)
      in (fst st1, markOutboxProcessed now (ob_id o') (snd st1)))"

fun drain_items ::
  "time_ms \<Rightarrow> ('p outbox_record \<times> string) list \<Rightarrow> ('m, 'f, 'p) eng_state \<Rightarrow> ('m, 'f, 'p) eng_state" where
  "drain_items now [] st = st"
| "drain_items now ((o', nid) # os) st = drain_items now os (drain_item now nid o' st)"

text \<open>\<open>drainOutbox\<close>, with the job ids it generates.\<close>

definition drainOutbox_engine ::
  "time_ms \<Rightarrow> string list \<Rightarrow> ('m, 'f, 'p) eng_state \<Rightarrow> ('m, 'f, 'p) eng_state" where
  "drainOutbox_engine now nids st = drain_items now (zip (drainOutbox 20 (snd st)) nids) st"


subsection \<open>Properties\<close>

lemma newest_job_None: "newest_job js = None \<longleftrightarrow> js = []"
proof -
  have "sort_key (\<lambda>j. - jb_createdAt j) js = [] \<longleftrightarrow> js = []" by (metis length_0_conv length_sort)
  then show ?thesis by (auto simp: newest_job_def split: list.split)
qed

lemma newest_job_mem: "newest_job js = Some j \<Longrightarrow> j \<in> set js"
proof -
  assume "newest_job js = Some j"
  then obtain ys where "sort_key (\<lambda>j. - jb_createdAt j) js = j # ys"
    by (auto simp: newest_job_def split: list.splits)
  then have "j \<in> set (sort_key (\<lambda>j. - jb_createdAt j) js)" by simp
  then show ?thesis by simp
qed

lemma key_given_Some [simp]: "k \<noteq> [] \<Longrightarrow> key_given (Some k) = Some k" "key_given None = None"
  by (cases k; simp add: key_given_def)+


definition demo_engine :: "string engine" where
  "demo_engine = start_engine (new_engine ''gen'' 2 1000
     \<lparr>eo_workerId = Some ''w1'', eo_concurrency = None, eo_pollIntervalMs = None, eo_lockDurationMs = None\<rparr>)"

definition demo_state :: "(string, string, string) eng_state" where
  "demo_state = snd (pollNext 10 (demo_engine, demo_store))"


definition active_jobs :: "string \<Rightarrow> ('m, 'f, 'p) file_store \<Rightarrow> 'p job_record list" where
  "active_jobs key s = filter (\<lambda>j. jb_dedupKey j = Some key \<and>
     (jb_status j = Queued \<or> jb_status j = Running)) (map snd (fs_jobs s))"

lemma jm_set_new: "jm_get m k = None \<Longrightarrow> jm_set k v m = m @ [(k, v)]"
  by (induction m) (auto split: if_splits)

lemma enqueue_cases:
  assumes "hasHandler ty e"
  obtains (existing) j where "enqueue now nid ty pl q (e, s) = (Inr j, (e, s))"
    "getJobByIdempotencyKey (the (key_given (qo_idempotencyKey q))) s = Some j \<and> key_given (qo_idempotencyKey q) \<noteq> None"
  | (duplicate) j k where "enqueue now nid ty pl q (e, s) = (Inr j, (e, s))"
    "key_given (qo_dedupKey q) = Some k" "getJobByDedupKey k True s = Some j"
  | (new) j where "j = new_job now nid (enqueue_input_of ty pl q)"
    "enqueue now nid ty pl q (e, s) = (Inr j, (trigger_poll e, s\<lparr>fs_jobs := jm_set nid j (fs_jobs s)\<rparr>))"
    "\<And>k. key_given (qo_dedupKey q) = Some k \<Longrightarrow> getJobByDedupKey k True s = None"
    "\<And>k. key_given (qo_idempotencyKey q) = Some k \<Longrightarrow> getJobByIdempotencyKey k s = None"
proof (cases "Option.bind (key_given (qo_idempotencyKey q)) (\<lambda>k. getJobByIdempotencyKey k s)")
  case (Some j)
  then show ?thesis
    using existing [of j] assms by (auto simp: enqueue_def bind_eq_Some_conv)
next
  case None
  note idem = this
  show ?thesis
  proof (cases "Option.bind (key_given (qo_dedupKey q)) (\<lambda>k. getJobByDedupKey k True s)")
    case (Some j)
    then show ?thesis
      using duplicate [of j] assms idem by (auto simp: enqueue_def bind_eq_Some_conv)
  next
    case None
    have id: "jb_id (new_job now nid (enqueue_input_of ty pl q)) = nid"
      by (simp add: new_job_def job_id_of_def enqueue_input_of_def)
    have "enqueue now nid ty pl q (e, s) = (Inr (new_job now nid (enqueue_input_of ty pl q)),
        (trigger_poll e, s\<lparr>fs_jobs := jm_set nid (new_job now nid (enqueue_input_of ty pl q)) (fs_jobs s)\<rparr>))"
      using assms idem None id by (simp add: enqueue_def enqueueJob_def Let_def)
    moreover have "getJobByDedupKey k True s = None" if "key_given (qo_dedupKey q) = Some k" for k
      using None that by simp
    moreover have "getJobByIdempotencyKey k s = None" if "key_given (qo_idempotencyKey q) = Some k" for k
      using idem that by simp
    ultimately show ?thesis using new [OF refl] by blast
  qed
qed

text \<open>
  A dedup key has at most one active job: enqueueing keeps it so for every key, and a
  request with a dedup key (and no idempotency key) answers with the active job of that
  key, the existing one when there is one.
\<close>

lemma enqueue_dedup_unique:
  assumes "hasHandler ty e" and "jm_get (fs_jobs s) nid = None" and "key \<noteq> []"
    and "length (active_jobs key s) \<le> 1"
  shows "length (active_jobs key (snd (snd (enqueue now nid ty pl q (e, s))))) \<le> 1 \<and>
    (key_given (qo_idempotencyKey q) \<noteq> None \<or> qo_dedupKey q \<noteq> Some key \<or>
      (\<exists>j. fst (enqueue now nid ty pl q (e, s)) = Inr j \<and>
         active_jobs key (snd (snd (enqueue now nid ty pl q (e, s)))) = [j] \<and>
         (active_jobs key s = [] \<or> active_jobs key s = [j])))"
  using assms(1)
proof (cases rule: enqueue_cases [of ty e now nid pl q s])
  case (existing j)
  then show ?thesis using assms by auto
next
  case (duplicate j k)
  have "k = key \<Longrightarrow> j \<in> set (active_jobs key s)"
    using newest_job_mem duplicate(3) unfolding getJobByDedupKey_def active_jobs_def by fastforce
  then have "k = key \<Longrightarrow> active_jobs key s = [j]"
    using assms(4) by (cases "active_jobs key s") auto
  then show ?thesis using duplicate assms by auto
next
  case (new j)
  have j: "jb_dedupKey j = qo_dedupKey q" "jb_status j = Queued"
    by (simp_all add: new(1) new_job_def enqueue_input_of_def)
  have act: "active_jobs key (s\<lparr>fs_jobs := jm_set nid j (fs_jobs s)\<rparr>) =
      active_jobs key s @ (if qo_dedupKey q = Some key then [j] else [])"
    using j by (simp add: active_jobs_def jm_set_new [OF assms(2)])
  have "active_jobs key s = []" if "qo_dedupKey q = Some key"
    using new(3) [of key] that assms(3)
    by (simp add: getJobByDedupKey_def newest_job_None active_jobs_def)
  then show ?thesis using new(2) act assms(4) by auto
qed

theorem enqueue_dedup_unique_witness:
  "length (active_jobs ''k'' (snd (snd (enqueue 30 ''n2'' ''health-sweep'' None (no_options\<lparr>qo_dedupKey := Some ''k''\<rparr>)
     (snd (enqueue 20 ''n1'' ''health-sweep'' None (no_options\<lparr>qo_dedupKey := Some ''k''\<rparr>) demo_state)))))) \<le> 1"
proof -
  let ?st = "snd (enqueue 20 ''n1'' ''health-sweep'' None (no_options\<lparr>qo_dedupKey := Some ''k''\<rparr>) demo_state)"
  have "hasHandler ''health-sweep'' (fst ?st)" "\<not> jm_has (fs_jobs (snd ?st)) ''n2''"
    "length (active_jobs ''k'' (snd ?st)) = 1"
    by code_simp+
  then show ?thesis
    using enqueue_dedup_unique [of "''health-sweep''" "fst ?st" "snd ?st" "''n2''" "''k''" 30 None
        "no_options\<lparr>qo_dedupKey := Some ''k''\<rparr>"]
    by (simp add: jm_has_def)
qed


text \<open>The jobs created for an outbox item.\<close>

definition outbox_jobs :: "string \<Rightarrow> ('m, 'f, 'p) file_store \<Rightarrow> 'p job_record list" where
  "outbox_jobs oid s = filter (\<lambda>j. jb_idempotencyKey j = Some (''outbox_'' @ oid)) (map snd (fs_jobs s))"

lemma fs_jobs_mark [simp]: "fs_jobs (markOutboxProcessed now i s) = fs_jobs s"
  by (simp add: markOutboxProcessed_def split: option.split)

lemma drain_item_fst: "hasHandler ty (fst (drain_item now nid o' (e, s))) = hasHandler ty e"
proof (cases "hasHandler (ob_jobType o') e")
  case True
  then show ?thesis
    by (cases rule: enqueue_cases [of "ob_jobType o'" e now nid "ob_payload o'" "outbox_options o'" s])
      (auto simp: drain_item_def Let_def trigger_poll_def hasHandler_def)
qed (simp add: drain_item_def Let_def)

lemma drain_item_jobs:
  assumes "hasHandler (ob_jobType o') e" and "jm_get (fs_jobs s) nid = None"
  shows "outbox_jobs (ob_id o') (snd (drain_item now nid o' (e, s))) =
    (if outbox_jobs (ob_id o') s = []
     then [new_job now nid (enqueue_input_of (ob_jobType o') (ob_payload o') (outbox_options o'))]
     else outbox_jobs (ob_id o') s)"
proof -
  have key: "key_given (qo_idempotencyKey (outbox_options o')) = Some (''outbox_'' @ ob_id o')"
    "key_given (qo_dedupKey (outbox_options o')) = None"
    by (simp_all add: outbox_options_def no_options_def key_given_def)
  have get: "getJobByIdempotencyKey (''outbox_'' @ ob_id o') s = None \<longleftrightarrow> outbox_jobs (ob_id o') s = []"
    by (simp add: getJobByIdempotencyKey_def newest_job_None outbox_jobs_def)
  show ?thesis
    using assms(1)
  proof (cases rule: enqueue_cases [of "ob_jobType o'" e now nid "ob_payload o'" "outbox_options o'" s])
    case (existing j)
    then show ?thesis using assms(1) key get by (auto simp: drain_item_def Let_def outbox_jobs_def)
  next
    case (duplicate j k)
    then show ?thesis using key by simp
  next
    case (new j)
    have "jb_idempotencyKey j = Some (''outbox_'' @ ob_id o')"
      by (simp add: new(1) new_job_def enqueue_input_of_def outbox_options_def no_options_def)
    then show ?thesis
      using new assms key get by (simp add: drain_item_def Let_def outbox_jobs_def jm_set_new)
  qed
qed

lemma mark_not_pending:
  assumes "distinct (map ob_id (fs_outbox s))" and "x \<in> set (drainOutbox n (markOutboxProcessed now i s))"
  shows "ob_id x \<noteq> i"
proof (cases "find_index (\<lambda>o'. ob_id o' = i) (fs_outbox s)")
  case None
  then have "markOutboxProcessed now i s = s" by (simp add: markOutboxProcessed_def)
  then show ?thesis
    using None assms(2) by (auto simp: drainOutbox_def find_index_None dest!: in_set_takeD)
next
  case (Some m)
  note m = find_index_Some [OF Some]
  have x: "x \<in> set (fs_outbox (markOutboxProcessed now i s))" "ob_status x = Pending"
    using assms(2) by (auto simp: drainOutbox_def dest: in_set_takeD)
  then obtain k where k: "k < length (fs_outbox s)" "fs_outbox (markOutboxProcessed now i s) ! k = x"
    using Some by (auto simp: markOutboxProcessed_def in_set_conv_nth)
  then have "k \<noteq> m" using x(2) Some m by (auto simp: markOutboxProcessed_def)
  then have "x = fs_outbox s ! k" using k Some by (simp add: markOutboxProcessed_def)
  then show ?thesis
    using assms(1) m k(1) \<open>k \<noteq> m\<close> by (auto simp: distinct_conv_nth)
qed

lemma fs_outbox_enqueue:
  "hasHandler ty e \<Longrightarrow> fs_outbox (snd (snd (enqueue now nid ty pl q (e, s)))) = fs_outbox s"
  by (cases rule: enqueue_cases [of ty e now nid pl q s]) auto

lemma drain_item_marks:
  assumes "hasHandler (ob_jobType o') e" "distinct (map ob_id (fs_outbox s))"
    and "x \<in> set (drainOutbox n (snd (drain_item now nid o' (e, s))))"
  shows "ob_id x \<noteq> ob_id o'"
  using assms mark_not_pending [of "snd (snd (enqueue now nid (ob_jobType o') (ob_payload o') (outbox_options o') (e, s)))"]
  by (simp add: drain_item_def Let_def fs_outbox_enqueue)

text \<open>
  Outbox items are delivered exactly once: draining an item whose type has a handler
  leaves exactly one job for it, created only if none exists, so repeating the item (as
  after a crash between enqueueing and marking it) creates no second job; and the item is
  not drained again.
\<close>

lemma outbox_exactly_once:
  assumes "hasHandler (ob_jobType o') e" and "jm_get (fs_jobs s) nid = None"
    and "length (outbox_jobs (ob_id o') s) \<le> 1" and "distinct (map ob_id (fs_outbox s))"
    and "jm_get (fs_jobs (snd (drain_item now nid o' (e, s)))) nid2 = None"
  shows "length (outbox_jobs (ob_id o') (snd (drain_item now nid o' (e, s)))) = 1 \<and>
    outbox_jobs (ob_id o') (snd (drain_item now2 nid2 o' (drain_item now nid o' (e, s)))) =
      outbox_jobs (ob_id o') (snd (drain_item now nid o' (e, s))) \<and>
    ob_id o' \<notin> ob_id ` set (drainOutbox n (snd (drain_item now nid o' (e, s))))"
proof -
  have one: "length (outbox_jobs (ob_id o') (snd (drain_item now nid o' (e, s)))) = 1"
    using drain_item_jobs [OF assms(1,2), of now] assms(3)
    by (cases "outbox_jobs (ob_id o') s") auto
  then have "outbox_jobs (ob_id o') (snd (drain_item now nid o' (e, s))) \<noteq> []" by auto
  moreover have "ob_id o' \<notin> ob_id ` set (drainOutbox n (snd (drain_item now nid o' (e, s))))"
    using drain_item_marks [OF assms(1,4)] by (metis imageE)
  ultimately show ?thesis
    using one drain_item_jobs [of o' "fst (drain_item now nid o' (e, s))" "snd (drain_item now nid o' (e, s))" nid2 now2]
      assms(1,5) by (simp add: drain_item_fst)
qed

definition demo_item :: "string outbox_record" where
  "demo_item = \<lparr>ob_id = ''o1'', ob_jobType = ''manifest-refresh'', ob_payload = None, ob_status = Pending,
     ob_createdAt = 0, ob_processedAt = None\<rparr>"

definition demo_outbox_state :: "(string, string, string) eng_state" where
  "demo_outbox_state = (fst demo_state, (snd demo_state)\<lparr>fs_outbox := [demo_item]\<rparr>)"

theorem outbox_exactly_once_witness:
  "length (outbox_jobs ''o1'' (snd (drain_item 60 ''n2'' demo_item (drain_item 50 ''n1'' demo_item demo_outbox_state)))) = 1"
proof -
  have "hasHandler (ob_jobType demo_item) (fst demo_outbox_state)"
    "\<not> jm_has (fs_jobs (snd demo_outbox_state)) ''n1''"
    "length (outbox_jobs (ob_id demo_item) (snd demo_outbox_state)) = 0"
    "distinct (map ob_id (fs_outbox (snd demo_outbox_state)))"
    "\<not> jm_has (fs_jobs (snd (drain_item 50 ''n1'' demo_item demo_outbox_state))) ''n2''"
    "ob_id demo_item = ''o1''"
    by code_simp+
  then show ?thesis
    using outbox_exactly_once [of demo_item "fst demo_outbox_state" "snd demo_outbox_state" "''n1''" 50 "''n2''"]
    by (simp add: jm_has_def)
qed

lemma poll_claim_cases:
  assumes "jobs_ok s"
  obtains (claimed) job s1 where "poll_claim now (e, s) = (True,
      (e\<lparr>en_activeWorkerCount := en_activeWorkerCount e + 1,
         en_activeJobs := jm_set (jb_id job) (en_next e) (en_activeJobs e),
         en_execs := jm_set (en_next e) \<lparr>ex_job = job, ex_aborted = False\<rparr> (en_execs e),
         en_next := Suc (en_next e)\<rparr>, s1))"
    "s1 = snd (acquireNextJob now (en_workerId e) (en_lockDurationMs e) (Some (en_handlers e)) s)"
  | (idle) "poll_claim now (e, s) = (False, (e, s))"
    "\<forall>i j. jm_get (fs_jobs s) i = Some j \<longrightarrow> \<not> claimable now (Some (en_handlers e)) j"
  using assms
proof (cases rule: acquireNextJob_cases [of s now "en_workerId e" "en_lockDurationMs e" "Some (en_handlers e)"])
  case none
  then show ?thesis using idle by (simp add: poll_claim_def case_prod_unfold Let_def)
next
  case (some i j)
  then show ?thesis
    by (intro claimed [of "claim_job now (en_workerId e) (en_lockDurationMs e) j", OF _ refl]) (simp add: poll_claim_def case_prod_unfold Let_def some(3))
qed

lemma poll_loop_spec:
  assumes "jobs_ok s" "en_workerId e \<noteq> []" "en_running e" "en_handlers e = hs" "hs \<noteq> []"
  shows "en_concurrency (fst (poll_loop now (e, s))) = en_concurrency e \<and>
    (en_concurrency e \<le> en_activeWorkerCount (fst (poll_loop now (e, s))) \<or>
     (\<forall>i j. getJob i (snd (poll_loop now (e, s))) = Some j \<longrightarrow> \<not> claimable now (Some hs) j))"
  using assms
proof (induction now "(e, s)" arbitrary: e s rule: poll_loop.induct)
  case (1 now e s)
  show ?case
  proof (cases "en_activeWorkerCount e < en_concurrency e")
    case False
    then show ?thesis by (simp add: poll_loop.simps [of now "(e, s)"])
  next
    case True
    then have "poll_guard e" using 1 by (simp add: poll_guard_def)
    then have next': "pollNext now (e, s) = poll_claim now (e, s)" by (simp add: pollNext_def)
    show ?thesis
      using 1(2)
    proof (cases rule: poll_claim_cases [of s now e])
      case (claimed job s1)
      let ?e = "e\<lparr>en_activeWorkerCount := en_activeWorkerCount e + 1,
         en_activeJobs := jm_set (jb_id job) (en_next e) (en_activeJobs e),
         en_execs := jm_set (en_next e) \<lparr>ex_job = job, ex_aborted = False\<rparr> (en_execs e),
         en_next := Suc (en_next e)\<rparr>"
      have "jobs_ok s1" using claimed(2) jobs_ok_claim 1(2,3) by blast
      then have "en_concurrency (fst (poll_loop now (?e, s1))) = en_concurrency ?e \<and>
          (en_concurrency ?e \<le> en_activeWorkerCount (fst (poll_loop now (?e, s1))) \<or>
           (\<forall>i j. getJob i (snd (poll_loop now (?e, s1))) = Some j \<longrightarrow> \<not> claimable now (Some hs) j))"
        using 1 True next' claimed(1) by (intro 1(1)) auto
      moreover have "poll_loop now (e, s) = poll_loop now (?e, s1)"
        using True next' claimed(1) 1(4) by (simp add: poll_loop.simps [of now "(e, s)"])
      ultimately show ?thesis by simp
    next
      case idle
      then have "poll_loop now (e, s) = (e, s)"
        using True next' 1(4) by (simp add: poll_loop.simps [of now "(e, s)"])
      then show ?thesis using idle(2) 1(5) by (simp add: getJob_def)
    qed
  qed
qed

text \<open>
  Polling fills the workers: when an engine's poll loop ends, either every worker slot
  is taken or the queue holds no job it could claim at that time.
\<close>

lemma poll_loop_fills:
  assumes "jobs_ok s" "en_workerId e \<noteq> []" "en_running e" "en_handlers e \<noteq> []"
  shows "en_concurrency e \<le> en_activeWorkerCount (fst (poll_loop now (e, s))) \<or>
    (\<forall>i j. getJob i (snd (poll_loop now (e, s))) = Some j \<longrightarrow> \<not> claimable now (Some (en_handlers e)) j)"
  using poll_loop_spec [OF assms(1-3) refl assms(4)] by blast

theorem poll_loop_fills_witness:
  "en_activeWorkerCount (fst (poll_loop 10 (demo_engine, demo_store))) = 2 \<and>
   2 \<le> en_activeWorkerCount (fst (poll_loop 10 (demo_engine, demo_store)))"
proof -
  have "jobs_ok (fold job_apply [EnqueueOp 1 ''x'' (demo_job ''low'' 0), EnqueueOp 2 ''y'' (demo_job ''high'' 5),
      EnqueueOp 3 ''z'' (demo_job ''high2'' 5)] (empty_store :: (string, string, string) file_store))"
    by (rule jobs_ok_run) (simp_all add: worker_named_def jobs_ok_def empty_store_def)
  then have ok: "jobs_ok demo_store" unfolding demo_store_def .
  have e: "en_workerId demo_engine \<noteq> []" "en_running demo_engine" "en_handlers demo_engine \<noteq> []"
    "en_concurrency demo_engine = 2"
    by code_simp+
  have v: "en_activeWorkerCount (fst (poll_loop 10 (demo_engine, demo_store))) = 2" by code_simp
  show ?thesis using poll_loop_fills [OF ok e(1-3), of 10] v by auto
qed

text \<open>
  The guard and the claim of a poll are separate steps: two polls that both passed the guard
  of an engine with one worker slot start two executions.
\<close>

lemma poll_race_exceeds_concurrency:
  "let e = demo_engine\<lparr>en_concurrency := 1\<rparr>; st = snd (poll_claim 10 (snd (poll_claim 10 (e, demo_store))))
   in poll_guard e \<and> en_concurrency (fst st) = 1 \<and> en_activeWorkerCount (fst st) = 2"
  by code_simp

text \<open>
  A forced release at shutdown frees the worker slot, and the execution's own \<open>finally\<close>
  frees it again when its handler ends later: the count of workers becomes negative.
\<close>

lemma forced_release_counts_twice:
  "en_activeWorkerCount (execute_finally 0 (fst (shutdown_force 20 (shutdown_start (fst demo_state), snd demo_state)))) = - 1"
  by code_simp

end
