(* ===== verification/Lifecycle.thy ===== *)
theory Lifecycle
  imports Prelude
begin

text \<open>
  Process lifecycle: the readiness gate and the phased, time-bounded shutdown of
  \<open>src/lifecycle/shutdown.ts\<close>, and the cluster event bus of \<open>src/cluster/bus.ts\<close>. What a
  phase does is abstracted to when and how its promise settles; the Redis client of the bus
  is abstracted to whether each connection attempt succeeds.
\<close>

subsection \<open>Readiness gate\<close>

record readiness_gate =
  rg_shutdownAt :: "time_ms option"
  rg_reason :: "string option"

definition new_gate :: readiness_gate where
  "new_gate = \<lparr>rg_shutdownAt = None, rg_reason = None\<rparr>"

definition gate_beginShutdown :: "time_ms \<Rightarrow> string \<Rightarrow> readiness_gate \<Rightarrow> readiness_gate" where
  "gate_beginShutdown now reason g =
     (if rg_shutdownAt g = None then g\<lparr>rg_shutdownAt := Some now, rg_reason := Some reason\<rparr> else g)"

definition isShuttingDown :: "readiness_gate \<Rightarrow> bool" where
  "isShuttingDown g \<longleftrightarrow> rg_shutdownAt g \<noteq> None"

definition elapsedMs :: "time_ms \<Rightarrow> readiness_gate \<Rightarrow> int" where
  "elapsedMs now g = (case rg_shutdownAt g of None \<Rightarrow> 0 | Some t \<Rightarrow> now - t)"

subsection \<open>Shutdown\<close>

datatype shutdown_state = RunningState | ShuttingDown | CompletedState

text \<open>When a phase's promise settles, from its start: fulfilled, rejected, or never.\<close>

datatype phase_behaviour = Fulfils int | Rejects int string | Hangs

record shutdown_phase =
  sp_name :: string
  sp_run :: phase_behaviour
  sp_timeoutMs :: "int option"

record phase_result =
  pr_name :: string
  pr_ok :: bool
  pr_durationMs :: int
  pr_error :: "string option"

record shutdown_coordinator =
  sc_phases :: "shutdown_phase list"
  sc_state :: shutdown_state
  sc_results :: "phase_result list"
  sc_signalCount :: nat
  sc_gracePeriodMs :: int
  sc_exitCode :: int
  sc_installSignals :: bool
  sc_gate :: readiness_gate

definition new_shutdown :: "readiness_gate \<Rightarrow> int \<Rightarrow> int option \<Rightarrow> bool option \<Rightarrow> shutdown_coordinator" where
  "new_shutdown gate grace code install =
     \<lparr>sc_phases = [], sc_state = RunningState, sc_results = [], sc_signalCount = 0,
      sc_gracePeriodMs = max 500 grace, sc_exitCode = or_else code 0,
      sc_installSignals = or_else install True, sc_gate = gate\<rparr>"

definition addPhase :: "string \<Rightarrow> phase_behaviour \<Rightarrow> int option \<Rightarrow> shutdown_coordinator \<Rightarrow> shutdown_coordinator" where
  "addPhase name run timeout c =
     c\<lparr>sc_phases := sc_phases c @ [\<lparr>sp_name = name, sp_run = run, sp_timeoutMs = timeout\<rparr>]\<rparr>"

definition timeout_msg :: "string \<Rightarrow> int \<Rightarrow> string" where
  "timeout_msg name cap = ''phase '' @ name @ '' timed out after '' @ show_int cap @ ''ms''"

text \<open>
  \<open>withTimeout\<close>: the promise wins when it settles before the timer, which the runtime never
  arms below one millisecond. The result is the time spent and the error, if any.
\<close>

definition withTimeout :: "phase_behaviour \<Rightarrow> int \<Rightarrow> string \<Rightarrow> int \<times> string option" where
  "withTimeout run cap name =
     (let timer = max 1 cap in
      case run of
        Fulfils d \<Rightarrow> if max 0 d < timer then (max 0 d, None) else (timer, Some (timeout_msg name cap))
      | Rejects d e \<Rightarrow> if max 0 d < timer then (max 0 d, Some e) else (timer, Some (timeout_msg name cap))
      | Hangs \<Rightarrow> (timer, Some (timeout_msg name cap)))"

text \<open>The phases from an elapsed time on: the elapsed time at the end, and the results.\<close>

fun run_phases :: "int \<Rightarrow> int \<Rightarrow> shutdown_phase list \<Rightarrow> int \<times> phase_result list" where
  "run_phases grace elapsed [] = (elapsed, [])"
| "run_phases grace elapsed (p # ps) =
     (let remaining = grace - elapsed in
      if remaining \<le> 0 then
        (let (t, rs) = run_phases grace elapsed ps in
         (t, \<lparr>pr_name = sp_name p, pr_ok = False, pr_durationMs = 0,
              pr_error = Some ''skipped: grace period exhausted''\<rparr> # rs))
      else
        (let cap = min (or_else (sp_timeoutMs p) remaining) remaining;
             (d, err) = withTimeout (sp_run p) cap (sp_name p);
             (t, rs) = run_phases grace (elapsed + d) ps in
         (t, \<lparr>pr_name = sp_name p, pr_ok = (err = None), pr_durationMs = d, pr_error = err\<rparr> # rs)))"

text \<open>
  \<open>begin\<close>: the coordinator when the sequence has ended, its total time, and the exit code the
  process ends with when signal handling is installed.
\<close>

definition begin_shutdown ::
  "time_ms \<Rightarrow> string \<Rightarrow> shutdown_coordinator \<Rightarrow> (int \<times> int option) option \<times> shutdown_coordinator" where
  "begin_shutdown now reason c =
     (if sc_state c \<noteq> RunningState then (None, c)
      else
        (let (t, rs) = run_phases (sc_gracePeriodMs c) 0 (sc_phases c) in
         (Some (t, if sc_installSignals c then Some (sc_exitCode c) else None),
          c\<lparr>sc_state := CompletedState, sc_results := sc_results c @ rs,
            sc_gate := gate_beginShutdown now reason (sc_gate c)\<rparr>)))"

text \<open>\<open>onSignal\<close>: \<open>Inl\<close> the immediate exit code of a later signal, \<open>Inr\<close> whether to begin.\<close>

definition onSignal :: "shutdown_coordinator \<Rightarrow> (int + bool) \<times> shutdown_coordinator" where
  "onSignal c =
     (let n = Suc (sc_signalCount c); c1 = c\<lparr>sc_signalCount := n\<rparr> in
      if 1 < n then (Inl 130, c1) else (Inr (sc_state c = RunningState), c1))"

lemma withTimeout_bounds:
  "0 < remaining \<Longrightarrow> cap \<le> remaining \<Longrightarrow>
     0 \<le> fst (withTimeout run cap name) \<and> fst (withTimeout run cap name) \<le> remaining"
  by (cases run) (auto simp: withTimeout_def Let_def)

lemma run_phases_Cons [simp]:
  "fst (run_phases g e (p # ps)) =
     (if g - e \<le> 0 then fst (run_phases g e ps)
      else fst (run_phases g (e + fst (withTimeout (sp_run p)
        (min (or_else (sp_timeoutMs p) (g - e)) (g - e)) (sp_name p))) ps))"
  "snd (run_phases g e (p # ps)) =
     (if g - e \<le> 0
      then \<lparr>pr_name = sp_name p, pr_ok = False, pr_durationMs = 0,
             pr_error = Some ''skipped: grace period exhausted''\<rparr> # snd (run_phases g e ps)
      else (case withTimeout (sp_run p) (min (or_else (sp_timeoutMs p) (g - e)) (g - e)) (sp_name p) of
        (d, err) \<Rightarrow> \<lparr>pr_name = sp_name p, pr_ok = (err = None), pr_durationMs = d, pr_error = err\<rparr> #
          snd (run_phases g (e + d) ps)))"
  by (simp_all add: Let_def case_prod_unfold)

declare run_phases.simps(2) [simp del]

lemma run_phases_time:
  "e \<le> g \<Longrightarrow> e \<le> fst (run_phases g e ps) \<and> fst (run_phases g e ps) \<le> g \<and>
     sum_list (map pr_durationMs (snd (run_phases g e ps))) = fst (run_phases g e ps) - e"
proof (induction ps arbitrary: e)
  case (Cons p ps)
  show ?case
  proof (cases "g - e \<le> 0")
    case True
    then show ?thesis using Cons by simp
  next
    case False
    let ?d = "fst (withTimeout (sp_run p) (min (or_else (sp_timeoutMs p) (g - e)) (g - e)) (sp_name p))"
    have "0 \<le> ?d" "?d \<le> g - e"
      using withTimeout_bounds [of "g - e" "min (or_else (sp_timeoutMs p) (g - e)) (g - e)"] False by auto
    then show ?thesis
      using Cons.IH [of "e + ?d"] False by (simp add: case_prod_unfold)
  qed
qed simp

lemma run_phases_names: "map pr_name (snd (run_phases g e ps)) = map sp_name ps"
  by (induction ps arbitrary: e) (simp_all add: case_prod_unfold)

text \<open>
  Shutdown always ends within its grace period: whatever the phases do, including
  never settling, the sequence takes no longer than the grace period, reports every phase
  once in registration order with the time it took, flips the readiness gate, and never
  runs again.
\<close>

lemma shutdown_within_grace:
  assumes "begin_shutdown now reason c = (Some (t, code), c')" and "sc_results c = []"
    and "0 \<le> sc_gracePeriodMs c"
  shows "0 \<le> t \<and> t \<le> sc_gracePeriodMs c \<and>
    map pr_name (sc_results c') = map sp_name (sc_phases c) \<and>
    sum_list (map pr_durationMs (sc_results c')) = t \<and>
    isShuttingDown (sc_gate c') \<and> fst (begin_shutdown now2 reason2 c') = None"
proof -
  have "t = fst (run_phases (sc_gracePeriodMs c) 0 (sc_phases c))"
    "sc_results c' = snd (run_phases (sc_gracePeriodMs c) 0 (sc_phases c))"
    "sc_state c' = CompletedState" "sc_gate c' = gate_beginShutdown now reason (sc_gate c)"
    using assms(1,2) by (auto simp: begin_shutdown_def case_prod_unfold Let_def split: if_splits)
  then show ?thesis
    using run_phases_time [of 0 "sc_gracePeriodMs c" "sc_phases c"] assms(3)
    by (simp add: run_phases_names begin_shutdown_def isShuttingDown_def gate_beginShutdown_def)
qed

definition demo_shutdown :: shutdown_coordinator where
  "demo_shutdown =
     addPhase ''close'' (Fulfils 10) None
       (addPhase ''drain'' Hangs (Some 400) (addPhase ''stop'' (Rejects 30 ''busy'') None
         (new_shutdown new_gate 420 None None)))"

theorem shutdown_within_grace_witness:
  "map_option fst (fst (begin_shutdown 7 ''SIGTERM'' demo_shutdown)) = Some 440 \<and>
   map pr_ok (sc_results (snd (begin_shutdown 7 ''SIGTERM'' demo_shutdown))) = [False, False, True] \<and>
   isShuttingDown (sc_gate (snd (begin_shutdown 7 ''SIGTERM'' demo_shutdown)))"
proof -
  have "begin_shutdown 7 ''SIGTERM'' demo_shutdown =
      (Some (440, Some 0), snd (begin_shutdown 7 ''SIGTERM'' demo_shutdown))"
    by (simp add: begin_shutdown_def demo_shutdown_def new_shutdown_def addPhase_def withTimeout_def
        run_phases.simps Let_def)
  moreover have "sc_results demo_shutdown = []" "0 \<le> sc_gracePeriodMs demo_shutdown"
    by (simp_all add: demo_shutdown_def addPhase_def new_shutdown_def)
  ultimately have "isShuttingDown (sc_gate (snd (begin_shutdown 7 ''SIGTERM'' demo_shutdown)))"
    by (rule shutdown_within_grace [THEN conjunct2, THEN conjunct2, THEN conjunct2, THEN conjunct2, THEN conjunct1])
  moreover have "map pr_ok (sc_results (snd (begin_shutdown 7 ''SIGTERM'' demo_shutdown))) = [False, False, True]"
    "map_option fst (fst (begin_shutdown 7 ''SIGTERM'' demo_shutdown)) = Some 440"
    by (simp_all add: begin_shutdown_def demo_shutdown_def new_shutdown_def addPhase_def withTimeout_def
        run_phases.simps Let_def)
  ultimately show ?thesis by simp
qed

subsection \<open>Cluster bus\<close>

datatype cluster_event =
    RevisionEvent int string "string option"
  | CacheInvalidateEvent "string list" string

definition event_origin :: "cluster_event \<Rightarrow> string" where
  "event_origin e = (case e of RevisionEvent r orig a \<Rightarrow> orig | CacheInvalidateEvent ps orig \<Rightarrow> orig)"

definition with_origin :: "string \<Rightarrow> cluster_event \<Rightarrow> cluster_event" where
  "with_origin i e = (case e of RevisionEvent r orig a \<Rightarrow> RevisionEvent r i a
     | CacheInvalidateEvent ps orig \<Rightarrow> CacheInvalidateEvent ps i)"

record cluster_bus =
  cb_enabled :: bool
  cb_instanceId :: string
  cb_redisConfigured :: bool
  cb_pubClient :: bool
  cb_subClient :: bool
  cb_initAttempted :: bool
  cb_closed :: bool
  cb_published :: nat
  cb_received :: nat
  cb_ignoredSelf :: nat

datatype bus_mode = RedisMode | DisabledMode

definition bus_mode_of :: "cluster_bus \<Rightarrow> bus_mode" where
  "bus_mode_of b = (if cb_pubClient b then RedisMode else DisabledMode)"

text \<open>
  \<open>start\<close>, given whether the subscriber connects and subscribes and whether the publisher
  connects. The publisher client is created before its connection is awaited.
\<close>

definition bus_start :: "bool \<Rightarrow> bool \<Rightarrow> cluster_bus \<Rightarrow> bus_mode \<times> cluster_bus" where
  "bus_start subOk pubOk b =
     (if \<not> cb_enabled b \<or> \<not> cb_redisConfigured b then (DisabledMode, b)
      else if cb_initAttempted b then (bus_mode_of b, b)
      else if \<not> subOk then (DisabledMode, b\<lparr>cb_initAttempted := True, cb_subClient := False\<rparr>)
      else if \<not> pubOk
      then (DisabledMode, b\<lparr>cb_initAttempted := True, cb_subClient := False, cb_pubClient := True\<rparr>)
      else (RedisMode, b\<lparr>cb_initAttempted := True, cb_subClient := True, cb_pubClient := True\<rparr>))"

text \<open>\<open>receive\<close>: the event handed to the handlers, if any; \<open>None\<close> is a malformed message.\<close>

definition bus_receive :: "cluster_event option \<Rightarrow> cluster_bus \<Rightarrow> cluster_event option \<times> cluster_bus" where
  "bus_receive msg b =
     (if cb_closed b then (None, b)
      else case msg of
        None \<Rightarrow> (None, b)
      | Some ev \<Rightarrow>
          if event_origin ev = cb_instanceId b then (None, b\<lparr>cb_ignoredSelf := Suc (cb_ignoredSelf b)\<rparr>)
          else (Some ev, b\<lparr>cb_received := Suc (cb_received b)\<rparr>))"

text \<open>\<open>publish\<close>: the message sent to the channel, if any; \<open>sendOk\<close> is the client's answer.\<close>

definition bus_publish :: "bool \<Rightarrow> cluster_event \<Rightarrow> cluster_bus \<Rightarrow> cluster_event option \<times> cluster_bus" where
  "bus_publish sendOk ev b =
     (if cb_closed b \<or> \<not> cb_pubClient b then (None, b)
      else if sendOk
      then (Some (with_origin (cb_instanceId b) ev), b\<lparr>cb_published := Suc (cb_published b)\<rparr>)
      else (None, b))"

definition bus_close :: "cluster_bus \<Rightarrow> cluster_bus" where
  "bus_close b = b\<lparr>cb_closed := True, cb_subClient := False, cb_pubClient := False\<rparr>"

text \<open>
  \<open>dispatchHandlers\<close>: the registered handlers run in order, each on the state the one before
  left; the message of one that throws is logged and the rest still run.
\<close>

fun dispatchHandlers ::
  "(cluster_event \<Rightarrow> 's \<Rightarrow> string option \<times> 's) list \<Rightarrow> cluster_event \<Rightarrow> 's \<Rightarrow> string list \<times> 's" where
  "dispatchHandlers [] ev s = ([], s)"
| "dispatchHandlers (h # hs) ev s =
     (let (err, s1) = h ev s; (errs, s2) = dispatchHandlers hs ev s1 in
      (case err of None \<Rightarrow> errs | Some e \<Rightarrow> e # errs, s2))"

record bus_stats =
  bs_mode :: bus_mode
  bs_instanceId :: string
  bs_published :: nat
  bs_received :: nat
  bs_ignoredSelf :: nat

definition bus_stats_of :: "cluster_bus \<Rightarrow> bus_stats" where
  "bus_stats_of b =
     \<lparr>bs_mode = bus_mode_of b, bs_instanceId = cb_instanceId b, bs_published = cb_published b,
      bs_received = cb_received b, bs_ignoredSelf = cb_ignoredSelf b\<rparr>"

lemma dispatch_runs_all:
  "snd (dispatchHandlers hs ev s) = fold (\<lambda>h s. snd (h ev s)) hs s"
  by (induction hs arbitrary: s) (simp_all add: Let_def case_prod_unfold)

text \<open>An instance never handles an event it published, and every other open instance does.\<close>

lemma bus_no_self_echo:
  "bus_publish True ev b = (Some m, b') \<Longrightarrow>
     fst (bus_receive (Some m) b') = None \<and>
     (cb_closed c \<or> cb_instanceId c = cb_instanceId b \<or> fst (bus_receive (Some m) c) = Some m)"
  by (auto simp: bus_publish_def bus_receive_def with_origin_def event_origin_def
      split: if_splits cluster_event.splits)

text \<open>
  When the publisher cannot connect, \<open>start\<close> answers \<open>disabled\<close> but leaves the unconnected
  client in place, so the bus reports Redis mode from then on.
\<close>

lemma failed_publisher_reports_redis:
  "cb_enabled b \<Longrightarrow> cb_redisConfigured b \<Longrightarrow> \<not> cb_initAttempted b \<Longrightarrow>
     fst (bus_start True False b) = DisabledMode \<and> bus_mode_of (snd (bus_start True False b)) = RedisMode \<and>
     fst (bus_start True True (snd (bus_start True False b))) = RedisMode"
  by (simp add: bus_start_def bus_mode_of_def)

end
