(* ===== verification/Json.thy ===== *)
theory Json
  imports Prelude Complex_Main
begin

text \<open>
  Parsed JSON documents, for the parts of the program that read loosely typed input: a
  manifest, a request body. Object fields keep their order; \<open>undefined\<close> is a missing field.
\<close>

datatype json =
    JNull | JBool bool | JNum rat | JStr string | JArr "json list" | JObj "(string \<times> json) list"

text \<open>\<open>Array.isArray\<close> and \<open>typeof x === 'string'\<close> as partial views.\<close>

definition jarr :: "json option \<Rightarrow> json list option" where
  "jarr x = (case x of Some (JArr xs) \<Rightarrow> Some xs | _ \<Rightarrow> None)"

definition jstr :: "json option \<Rightarrow> string option" where
  "jstr x = (case x of Some (JStr s) \<Rightarrow> Some s | _ \<Rightarrow> None)"

text \<open>\<open>x.field\<close> on an object, and on anything else that is not null.\<close>

definition jfield :: "json \<Rightarrow> string \<Rightarrow> json option" where
  "jfield x k = (case x of JObj fs \<Rightarrow> jm_get fs k | _ \<Rightarrow> None)"

text \<open>\<open>x == null\<close>.\<close>

definition jnullish :: "json option \<Rightarrow> bool" where
  "jnullish x \<longleftrightarrow> x = None \<or> x = Some JNull"

definition jtruthy :: "json option \<Rightarrow> bool" where
  "jtruthy x =
     (case x of None \<Rightarrow> False | Some JNull \<Rightarrow> False | Some (JBool b) \<Rightarrow> b
      | Some (JNum n) \<Rightarrow> n \<noteq> 0 | Some (JStr s) \<Rightarrow> s \<noteq> [] | Some (JArr a) \<Rightarrow> True | Some (JObj obj) \<Rightarrow> True)"

text \<open>\<open>String(x)\<close>; \<open>num\<close> prints a number.\<close>

fun js_string :: "(rat \<Rightarrow> string) \<Rightarrow> json \<Rightarrow> string" where
  "js_string num JNull = ''null''"
| "js_string num (JBool b) = (if b then ''true'' else ''false'')"
| "js_string num (JNum n) = num n"
| "js_string num (JStr s) = s"
| "js_string num (JArr xs) =
     concat (map (\<lambda>(i, t). (if i = 0 then [] else '','') @ t)
       (zip [0..<length xs] (map (\<lambda>x. if x = JNull then [] else js_string num x) xs)))"
| "js_string num (JObj fs) = ''[object Object]''"

lemma jarr_simps [simp]:
  "jarr None = None" "jarr (Some (JArr xs)) = Some xs" "jarr (Some (JStr s)) = None"
  "jarr (Some JNull) = None" "jarr (Some (JObj fs)) = None"
  by (simp_all add: jarr_def)

lemma jstr_Some_iff [simp]: "jstr x = Some s \<longleftrightarrow> x = Some (JStr s)"
  by (auto simp: jstr_def split: option.splits json.splits)

end
