(* ===== verification/Codec.thy ===== *)
theory Codec
  imports Text
begin

text \<open>
  Encodings of the standard library the components use on text: \<open>base64url\<close> of a
  \<open>Buffer\<close> and \<open>encodeURIComponent\<close>. Characters stand for bytes, so both agree with the
  code on ASCII text and on binary buffers.
\<close>

subsection \<open>Bits\<close>

fun bits_of :: "nat \<Rightarrow> nat \<Rightarrow> bool list" where
  "bits_of 0 n = []"
| "bits_of (Suc k) n = bits_of k (n div 2) @ [odd n]"

definition nat_of_bits :: "bool list \<Rightarrow> nat" where
  "nat_of_bits bs = foldl (\<lambda>a b. 2 * a + of_bool b) 0 bs"

lemma length_bits_of [simp]: "length (bits_of k n) = k"
  by (induction k arbitrary: n) simp_all

lemma nat_of_bits_of: "nat_of_bits (bits_of k n) = n mod 2 ^ k"
proof (induction k arbitrary: n)
  case (Suc k)
  have "nat_of_bits (bits_of (Suc k) n) = 2 * (n div 2 mod 2 ^ k) + of_bool (odd n)"
    using Suc [of "n div 2"] by (simp add: nat_of_bits_def)
  also have "of_bool (odd n) = n mod 2" by (simp add: mod_2_eq_odd)
  also have "2 * (n div 2 mod 2 ^ k) + n mod 2 = n mod 2 ^ Suc k"
    by (simp add: mod_mult2_eq)
  finally show ?case .
qed (simp add: nat_of_bits_def)

lemma nat_of_bits_snoc: "nat_of_bits (bs @ [b]) = 2 * nat_of_bits bs + of_bool b"
  by (simp add: nat_of_bits_def)

lemma nat_of_bits_less: "nat_of_bits bs < 2 ^ length bs"
proof (induction bs rule: rev_induct)
  case (snoc b bs)
  then show ?case by (cases b) (simp_all add: nat_of_bits_snoc)
qed (simp add: nat_of_bits_def)

lemma bits_of_nat: "bits_of (length bs) (nat_of_bits bs) = bs"
  by (induction bs rule: rev_induct) (auto simp: nat_of_bits_snoc nat_of_bits_def)

text \<open>Groups of \<open>n\<close>: the last one padded with zeros, or dropped when incomplete.\<close>

function groups_padded :: "nat \<Rightarrow> bool list \<Rightarrow> bool list list" where
  "groups_padded n bs =
     (if n = 0 \<or> bs = [] then []
      else (take n bs @ replicate (n - length bs) False) # groups_padded n (drop n bs))"
  by pat_completeness auto
termination by (relation "measure (\<lambda>(n, bs). length bs)") auto

function groups_full :: "nat \<Rightarrow> bool list \<Rightarrow> bool list list" where
  "groups_full n bs =
     (if n = 0 \<or> length bs < n then [] else take n bs # groups_full n (drop n bs))"
  by pat_completeness auto
termination by (relation "measure (\<lambda>(n, bs). length bs)") auto

declare groups_padded.simps [simp del] groups_full.simps [simp del]

lemma groups_padded_length: "g \<in> set (groups_padded n bs) \<Longrightarrow> length g = n"
  by (induction n bs rule: groups_padded.induct)
    (subst (asm) (2) groups_padded.simps, auto split: if_splits)

lemma concat_groups_padded:
  "0 < n \<Longrightarrow> \<exists>k < n. concat (groups_padded n bs) = bs @ replicate k False"
proof (induction n bs rule: groups_padded.induct)
  case (1 n bs)
  show ?case
  proof (cases "length bs \<le> n")
    case True
    then show ?thesis
      using 1(2) by (cases "bs = []") (auto simp: groups_padded.simps [of n bs] groups_padded.simps [of n "[]"]
          intro!: exI [of _ "n - length bs"])
  next
    case False
    then have "bs \<noteq> []" by auto
    then obtain k where "k < n" "concat (groups_padded n (drop n bs)) = drop n bs @ replicate k False"
      using 1(1) [OF _ 1(2)] 1(2) by blast
    moreover have "take n bs @ drop n bs @ replicate k False = bs @ replicate k False" by simp
    ultimately show ?thesis
      using False by (subst groups_padded.simps) (auto simp flip: append_assoc)
  qed
qed

lemma groups_full_concat:
  "0 < n \<Longrightarrow> list_all (\<lambda>g. length g = n) gs \<Longrightarrow> length rest < n \<Longrightarrow> groups_full n (concat gs @ rest) = gs"
proof (induction gs)
  case (Cons g gs)
  then show ?case by (subst groups_full.simps) simp
qed (simp add: groups_full.simps)

subsection \<open>Base64url\<close>

definition b64_alphabet :: string where
  "b64_alphabet = ''ABCDEFGHIJKLMNOPQRSTUVWXYZabcdefghijklmnopqrstuvwxyz0123456789-_''"

text \<open>\<open>toString('base64url')\<close>, without padding, and \<open>Buffer.from(s, 'base64url')\<close>.\<close>

definition b64url_encode :: "string \<Rightarrow> string" where
  "b64url_encode s =
     map (\<lambda>g. b64_alphabet ! nat_of_bits g) (groups_padded 6 (concat (map (\<lambda>c. bits_of 8 (of_char c)) s)))"

definition b64_val :: "char \<Rightarrow> nat option" where
  "b64_val c = find_index (\<lambda>x. x = c) b64_alphabet"

definition b64url_decode :: "string \<Rightarrow> string" where
  "b64url_decode s =
     map (\<lambda>g. char_of (nat_of_bits g)) (groups_full 8 (concat (map (bits_of 6) (List.map_filter b64_val s))))"

lemma length_b64_alphabet: "length b64_alphabet = 64"
  by (simp add: b64_alphabet_def)

lemma distinct_b64_alphabet: "distinct b64_alphabet"
  by (simp add: b64_alphabet_def)

lemma b64_val_nth: "i < 64 \<Longrightarrow> b64_val (b64_alphabet ! i) = Some i"
proof -
  assume i: "i < 64"
  then have m: "b64_alphabet ! i \<in> set b64_alphabet" by (simp add: length_b64_alphabet)
  then obtain j where j: "b64_val (b64_alphabet ! i) = Some j"
    by (cases "b64_val (b64_alphabet ! i)") (auto simp: b64_val_def find_index_None)
  then have "j < 64" "b64_alphabet ! j = b64_alphabet ! i"
    using find_index_Some [of _ b64_alphabet j] by (auto simp: b64_val_def length_b64_alphabet)
  then show ?thesis
    using i j distinct_b64_alphabet by (simp add: nth_eq_iff_index_eq length_b64_alphabet)
qed

lemma b64_decode_groups:
  "list_all (\<lambda>g. length g = 6) gs \<Longrightarrow>
     concat (map (bits_of 6) (List.map_filter b64_val (map (\<lambda>g. b64_alphabet ! nat_of_bits g) gs))) = concat gs"
proof (induction gs)
  case (Cons g gs)
  have "nat_of_bits g < 64" using Cons.prems nat_of_bits_less [of g] by simp
  moreover have "bits_of 6 (nat_of_bits g) = g" using Cons.prems bits_of_nat [of g] by simp
  ultimately show ?case using Cons by (simp add: map_filter_simps b64_val_nth)
qed (simp add: map_filter_simps)

lemma b64url_roundtrip: "b64url_decode (b64url_encode s) = s"
proof -
  let ?bits = "concat (map (\<lambda>c. bits_of 8 (of_char c)) s)"
  obtain k where k: "k < 6" "concat (groups_padded 6 ?bits) = ?bits @ replicate k False"
    using concat_groups_padded [of 6 ?bits] by auto
  have "list_all (\<lambda>g. length g = 6) (groups_padded 6 ?bits)"
    by (auto simp: list_all_iff dest: groups_padded_length)
  then have "b64url_decode (b64url_encode s) =
      map (\<lambda>g. char_of (nat_of_bits g)) (groups_full 8 (?bits @ replicate k False))"
    by (simp add: b64url_decode_def b64url_encode_def b64_decode_groups k)
  also have "groups_full 8 (?bits @ replicate k False) = map (\<lambda>c. bits_of 8 (of_char c)) s"
    using k(1) by (intro groups_full_concat) (auto simp: list_all_iff)
  also have "map (\<lambda>g. char_of (nat_of_bits g)) (map (\<lambda>c. bits_of 8 (of_char c)) s) = s"
  proof -
    have "char_of (nat_of_bits (bits_of 8 (of_char c))) = (c :: char)" for c
      using nat_of_bits_of [of 8 "of_char c"] nat_of_char_less_256 [of c]
      by (simp del: bits_of.simps)
    then show ?thesis by (simp add: comp_def del: bits_of.simps)
  qed
  finally show ?thesis .
qed

lemma b64url_chars: "c \<in> set (b64url_encode s) \<Longrightarrow> c \<in> set b64_alphabet"
proof -
  assume "c \<in> set (b64url_encode s)"
  then obtain g where g: "g \<in> set (groups_padded 6 (concat (map (\<lambda>c. bits_of 8 (of_char c)) s)))"
    "c = b64_alphabet ! nat_of_bits g"
    by (auto simp: b64url_encode_def)
  then have "nat_of_bits g < 64" using nat_of_bits_less [of g] groups_padded_length [OF g(1)] by simp
  then show ?thesis using g(2) by (simp add: length_b64_alphabet)
qed

lemma b64url_no_sep:
  "CHR ''.'' \<notin> set (b64url_encode s)" "CHR '':'' \<notin> set (b64url_encode s)"
  using b64url_chars [of "CHR ''.''" s] b64url_chars [of "CHR '':''" s] by (auto simp: b64_alphabet_def)

subsection \<open>\<open>encodeURIComponent\<close>\<close>

definition uri_unreserved :: "char \<Rightarrow> bool" where
  "uri_unreserved c \<longleftrightarrow>
     (let n = of_char c :: nat in
      48 \<le> n \<and> n \<le> 57 \<or> 65 \<le> n \<and> n \<le> 90 \<or> 97 \<le> n \<and> n \<le> 122 \<or>
      n \<in> {33, 39, 40, 41, 42, 45, 46, 95, 126})"

definition upper_hex :: "nat \<Rightarrow> char" where
  "upper_hex d = (if d < 10 then char_of (48 + d) else char_of (55 + d))"

definition encodeURIComponent :: "string \<Rightarrow> string" where
  "encodeURIComponent s =
     concat (map (\<lambda>c. if uri_unreserved c then [c]
       else [CHR ''%'', upper_hex (of_char c div 16), upper_hex (of_char c mod 16)]) s)"

lemma b64_unreserved: "c \<in> set b64_alphabet \<Longrightarrow> uri_unreserved c"
  by (auto simp: b64_alphabet_def uri_unreserved_def)

lemma encode_unreserved: "list_all uri_unreserved s \<Longrightarrow> encodeURIComponent s = s"
  by (induction s) (auto simp: encodeURIComponent_def)

lemma encode_b64url: "encodeURIComponent (b64url_encode s) = b64url_encode s"
  using b64url_chars b64_unreserved by (intro encode_unreserved) (simp add: list_all_iff)

end
