(* ===== verification/Grants.thy ===== *)
theory Grants
  imports UrlPolicy Codec
begin

text \<open>
  Playback grants, \<open>src/security/playbackGrant.ts\<close>: the in-process grant map, its issue,
  redemption and purge, and the compact signed tokens. A grant replaces a caller-supplied
  proxy URL, so it is issued only for an upstream URL the outbound policy accepts. Redis, when
  it is used, shares grants between instances: its reply to each call is an argument, and
  the deletions the store asks of it are results. Cipher, MAC and JSON are arguments.
\<close>

subsection \<open>Data\<close>

text \<open>\<open>PlaybackGrantClaims\<close> with the \<open>used\<close> flag of the stored form.\<close>

record grant_claims =
  gc_id :: string
  gc_url :: string
  gc_headers :: "(string, string) jsmap"
  gc_providerId :: "string option"
  gc_mediaKey :: "string option"
  gc_exp :: int
  gc_iat :: int
  gc_maxRedirects :: int
  gc_singleUse :: "bool option"
  gc_addonRevision :: "int option"
  gc_used :: bool

record issue_input =
  ii_url :: string
  ii_headers :: "(string, string) jsmap option"
  ii_providerId :: "string option"
  ii_mediaKey :: "string option"
  ii_ttlSec :: "int option"
  ii_maxRedirects :: "int option"
  ii_singleUse :: "bool option"
  ii_addonRevision :: "int option"

record grant_options =
  go_defaultTtlSec :: int
  go_maxEntries :: int
  go_maxActive :: int
  go_urlPolicy :: url_options

type_synonym grant_map = "(string, grant_claims) jsmap"

text \<open>The options the store is created with; \<open>policy\<close> is already merged with the defaults.\<close>

definition grant_defaults :: "int option \<Rightarrow> int option \<Rightarrow> int option \<Rightarrow> url_options \<Rightarrow> grant_options" where
  "grant_defaults ttl entries active policy =
     \<lparr>go_defaultTtlSec = or_else ttl 7200, go_maxEntries = or_else entries 50000,
      go_maxActive = or_else active (or_else entries 50000), go_urlPolicy = policy\<rparr>"

definition now_sec :: "time_ms \<Rightarrow> int" where
  "now_sec now = now div 1000"

subsection \<open>Issue and redemption\<close>

definition purge_oldest :: "int \<Rightarrow> grant_map \<Rightarrow> nat \<times> grant_map" where
  "purge_oldest maxEntries m =
     (if maxEntries < int (length m)
      then (let drop' = take (length m - nat maxEntries) (sort_key (\<lambda>(k, g). gc_iat g) m) in
            (length drop', fold (\<lambda>(k, g). jm_delete k) drop' m))
      else (0, m))"

definition purge_grants :: "grant_options \<Rightarrow> time_ms \<Rightarrow> grant_map \<Rightarrow> nat \<times> grant_map" where
  "purge_grants op now m =
     (let dead = (\<lambda>(k, g). gc_exp g \<le> now_sec now \<or> gc_used g);
          (n, m1) = purge_oldest (go_maxEntries op) (filter (\<lambda>e. \<not> dead e) m)
      in (length (filter dead m) + n, m1))"

definition header_allowed :: "string \<Rightarrow> bool" where
  "header_allowed k =
     (let lower = to_lower k in
      \<not> (lower = ''cookie'' \<or> lower = ''authorization'' \<or> starts_with lower ''x-forwarded-'' \<or>
         lower = ''host'' \<or> lower = ''connection''))"

datatype grant_error = PolicyRejected url_policy_error | GrantCapacity int

text \<open>
  \<open>issue\<close>: \<open>parse\<close> and \<open>lookup\<close> are the URL parser and DNS at that moment, \<open>href\<close> prints a
  parsed URL, \<open>gid\<close> is the random id. The write to Redis does not influence the result.
\<close>

definition new_grant :: "grant_options \<Rightarrow> time_ms \<Rightarrow> string \<Rightarrow> string \<Rightarrow> issue_input \<Rightarrow> grant_claims" where
  "new_grant op now gid url inp =
     \<lparr>gc_id = gid, gc_url = url,
      gc_headers = filter (\<lambda>(k, v). header_allowed k) (or_else (ii_headers inp) []),
      gc_providerId = ii_providerId inp, gc_mediaKey = ii_mediaKey inp,
      gc_exp = now_sec now + or_else (ii_ttlSec inp) (go_defaultTtlSec op), gc_iat = now_sec now,
      gc_maxRedirects = or_else (ii_maxRedirects inp) 3, gc_singleUse = ii_singleUse inp,
      gc_addonRevision = ii_addonRevision inp, gc_used = False\<rparr>"

definition issue_grant ::
  "(string \<Rightarrow> parsed_url option) \<Rightarrow> (parsed_url \<Rightarrow> string) \<Rightarrow> bool \<Rightarrow> grant_options \<Rightarrow>
     (string \<Rightarrow> string list option) \<Rightarrow> time_ms \<Rightarrow> string \<Rightarrow> issue_input \<Rightarrow> grant_map \<Rightarrow>
     (grant_error + grant_claims) \<times> grant_map" where
  "issue_grant parse href isProd op lookup now gid inp m =
     (case validateOutboundUrl parse lookup isProd (ii_url inp) (go_urlPolicy op) of
        Inl e \<Rightarrow> (Inl (PolicyRejected e), m)
      | Inr v \<Rightarrow>
          (let m1 = snd (purge_grants op now m) in
           if go_maxActive op \<le> int (length m1) then (Inl (GrantCapacity (go_maxActive op)), m1)
           else
             (let g = new_grant op now gid (href (vu_url v)) inp in
              (Inr g, jm_set gid g (snd (purge_grants op now m1))))))"

text \<open>
  \<open>get\<close> and \<open>consume\<close>: Redis answers first when it has the grant; otherwise the map does. A
  call that fails, or a text that does not parse, falls through to the map. The flag of the
  result says whether a deletion was sent to Redis.
\<close>

definition dead_grant :: "time_ms \<Rightarrow> grant_claims \<Rightarrow> bool" where
  "dead_grant now g \<longleftrightarrow> gc_exp g \<le> now_sec now \<or> gc_used g"

definition single_use :: "grant_claims \<Rightarrow> bool" where
  "single_use g \<longleftrightarrow> gc_singleUse g = Some True"

definition get_grant ::
  "grant_claims option reply \<Rightarrow> time_ms \<Rightarrow> string \<Rightarrow> grant_map \<Rightarrow> grant_claims option \<times> bool \<times> grant_map" where
  "get_grant redis now gid m =
     (case redis of
        Answered (Some g) \<Rightarrow> if dead_grant now g then (None, True, m) else (Some g, False, m)
      | _ \<Rightarrow>
          (case jm_get m gid of
             None \<Rightarrow> (None, False, m)
           | Some g \<Rightarrow>
               if gc_exp g \<le> now_sec now then (None, redis \<noteq> NoClient, jm_delete gid m)
               else if gc_used g then (None, False, m)
               else (Some g, False, m)))"

definition consume_grant ::
  "grant_claims option reply \<Rightarrow> time_ms \<Rightarrow> string \<Rightarrow> grant_map \<Rightarrow> grant_claims option \<times> bool \<times> grant_map" where
  "consume_grant redis now gid m =
     (case redis of
        Answered (Some g) \<Rightarrow>
          if dead_grant now g then (None, True, m)
          else if single_use g then (Some g, True, jm_delete gid m)
          else (Some g, False, m)
      | _ \<Rightarrow>
          (case jm_get m gid of
             None \<Rightarrow> (None, False, m)
           | Some g \<Rightarrow>
               if gc_exp g \<le> now_sec now then (None, redis \<noteq> NoClient, jm_delete gid m)
               else if gc_used g then (None, False, m)
               else if single_use g
               then (Some (g\<lparr>gc_used := True\<rparr>), redis \<noteq> NoClient, jm_set gid (g\<lparr>gc_used := True\<rparr>) m)
               else (Some g, False, m)))"

text \<open>\<open>revoke\<close>: \<open>n\<close> is the number of keys Redis deleted (zero without it).\<close>

definition revoke_grant :: "int \<Rightarrow> string \<Rightarrow> grant_map \<Rightarrow> bool \<times> grant_map" where
  "revoke_grant n gid m = (jm_has m gid \<or> 0 < n, jm_delete gid m)"

definition strip_slash :: "string \<Rightarrow> string" where
  "strip_slash s = (if s \<noteq> [] \<and> last s = CHR ''/'' then butlast s else s)"

definition toProxyUrl :: "grant_claims \<Rightarrow> string \<Rightarrow> string" where
  "toProxyUrl g publicBase =
     strip_slash publicBase @ ''/v1/proxy/grant/'' @ encodeURIComponent (gc_id g)"

subsection \<open>Compact tokens\<close>

text \<open>
  The parameters of the token code: \<open>seal iv text\<close> is AES-256-GCM under the key derived from
  the secret, giving tag and data; \<open>unseal\<close> is its checked inverse; \<open>mac\<close> is HMAC-SHA256;
  the codec is \<open>JSON\<close> on the token's body.
\<close>

record token_body =
  tb_id :: string
  tb_url :: string
  tb_providerId :: "string option"
  tb_exp :: int
  tb_iat :: int
  tb_maxRedirects :: "int option"

record token_crypto =
  tc_seal :: "string \<Rightarrow> string \<Rightarrow> string \<times> string"
  tc_unseal :: "string \<Rightarrow> string \<Rightarrow> string \<Rightarrow> string option"
  tc_mac :: "string \<Rightarrow> string"
  tc_enc :: "token_body \<Rightarrow> string"
  tc_dec :: "string \<Rightarrow> token_body option"

definition encryptCompact :: "token_crypto \<Rightarrow> string \<Rightarrow> string \<Rightarrow> string" where
  "encryptCompact c iv plain =
     (let (tag, dat) = tc_seal c iv plain in
      ''enc1:'' @ b64url_encode iv @ '':'' @ b64url_encode tag @ '':'' @ b64url_encode dat)"

definition decryptCompact :: "token_crypto \<Rightarrow> string \<Rightarrow> string option" where
  "decryptCompact c s =
     (if \<not> starts_with s ''enc1:'' then None
      else case split_on CHR '':'' (drop 5 s) of
        [iv, tag, dat] \<Rightarrow> tc_unseal c (b64url_decode iv) (b64url_decode tag) (b64url_decode dat)
      | _ \<Rightarrow> None)"

definition body_of :: "grant_claims \<Rightarrow> token_body" where
  "body_of g =
     \<lparr>tb_id = gc_id g, tb_url = gc_url g, tb_providerId = gc_providerId g, tb_exp = gc_exp g,
      tb_iat = gc_iat g, tb_maxRedirects = Some (gc_maxRedirects g)\<rparr>"

definition signCompact :: "token_crypto \<Rightarrow> string \<Rightarrow> grant_claims \<Rightarrow> string" where
  "signCompact c iv g =
     (let payload = b64url_encode (encryptCompact c iv (tc_enc c (body_of g))) in
      payload @ ''.'' @ b64url_encode (tc_mac c payload))"

text \<open>The claims a token stands for when the store has no live copy.\<close>

definition claims_of :: "token_body \<Rightarrow> grant_claims" where
  "claims_of b =
     \<lparr>gc_id = tb_id b, gc_url = tb_url b, gc_headers = [], gc_providerId = tb_providerId b,
      gc_mediaKey = None, gc_exp = tb_exp b, gc_iat = tb_iat b,
      gc_maxRedirects = or_else (tb_maxRedirects b) 3, gc_singleUse = None,
      gc_addonRevision = None, gc_used = False\<rparr>"

definition token_text :: "token_crypto \<Rightarrow> bool \<Rightarrow> string \<Rightarrow> string option" where
  "token_text c isProd payload =
     (let outer = b64url_decode payload in
      if starts_with outer ''enc1:''
      then (case decryptCompact c outer of Some (x # s) \<Rightarrow> Some (x # s) | _ \<Rightarrow> None)
      else if isProd then None else Some outer)"

definition verifySignedToken ::
  "token_crypto \<Rightarrow> bool \<Rightarrow> time_ms \<Rightarrow> grant_map \<Rightarrow> string \<Rightarrow> grant_claims option" where
  "verifySignedToken c isProd now m token =
     (case split_on CHR ''.'' token of
        [payload, sig] \<Rightarrow>
          if sig \<noteq> b64url_encode (tc_mac c payload) then None
          else (case Option.bind (token_text c isProd payload) (tc_dec c) of
                  None \<Rightarrow> None
                | Some b \<Rightarrow>
                    if tb_id b = [] \<or> tb_url b = [] \<or> tb_exp b = 0 then None
                    else if tb_exp b < now_sec now then None
                    else case jm_get m (tb_id b) of
                      Some live \<Rightarrow>
                        if now_sec now \<le> gc_exp live \<and> \<not> gc_used live then Some live else Some (claims_of b)
                    | None \<Rightarrow> Some (claims_of b))
      | _ \<Rightarrow> None)"

subsection \<open>Runs of the store\<close>

datatype grant_op =
    GIssue "string \<Rightarrow> string list option" time_ms string issue_input
  | GGet "grant_claims option reply" time_ms string
  | GConsume "grant_claims option reply" time_ms string
  | GRevoke int string
  | GPurge time_ms

record grant_env =
  ge_parse :: "string \<Rightarrow> parsed_url option"
  ge_href :: "parsed_url \<Rightarrow> string"
  ge_isProd :: bool
  ge_opts :: grant_options

definition grant_apply :: "grant_env \<Rightarrow> grant_op \<Rightarrow> grant_map \<Rightarrow> grant_map" where
  "grant_apply E x m =
     (case x of
        GIssue lookup now gid inp \<Rightarrow>
          snd (issue_grant (ge_parse E) (ge_href E) (ge_isProd E) (ge_opts E) lookup now gid inp m)
      | GGet re now gid \<Rightarrow> snd (snd (get_grant re now gid m))
      | GConsume re now gid \<Rightarrow> snd (snd (consume_grant re now gid m))
      | GRevoke n gid \<Rightarrow> snd (revoke_grant n gid m)
      | GPurge now \<Rightarrow> snd (purge_grants (ge_opts E) now m))"

text \<open>What is stored: bounded, keyed by id, with safe headers and a URL the policy accepted.\<close>

definition grant_safe :: "grant_env \<Rightarrow> string \<Rightarrow> grant_claims \<Rightarrow> bool" where
  "grant_safe E k g \<longleftrightarrow> gc_id g = k \<and> list_all (\<lambda>(h, v). header_allowed h) (gc_headers g) \<and>
     (\<exists>raw lookup v. validateOutboundUrl (ge_parse E) lookup (ge_isProd E) raw (go_urlPolicy (ge_opts E)) = Inr v \<and>
        gc_url g = ge_href E (vu_url v))"

definition grants_ok :: "grant_env \<Rightarrow> grant_map \<Rightarrow> bool" where
  "grants_ok E m \<longleftrightarrow> jm_ok m \<and> int (length m) \<le> max 0 (go_maxActive (ge_opts E)) \<and>
     (\<forall>k g. jm_get m k = Some g \<longrightarrow> grant_safe E k g)"

lemma grants_ok_shrink:
  assumes "grants_ok E m" and "jm_ok m'" and "length m' \<le> length m"
    and "\<And>k g. jm_get m' k = Some g \<Longrightarrow> jm_get m k = Some g"
  shows "grants_ok E m'"
  using assms by (auto simp: grants_ok_def)

lemma fold_delete_get:
  "jm_get (fold (\<lambda>(k, g). jm_delete k) ds m) k = (if k \<in> fst ` set ds then None else jm_get m k)"
  by (induction ds arbitrary: m) (auto simp: image_iff)

lemma fold_delete_ok: "jm_ok m \<Longrightarrow> jm_ok (fold (\<lambda>(k, g). jm_delete k) ds m)"
  by (induction ds arbitrary: m) (auto simp: case_prod_unfold)

lemma fold_delete_length: "length (fold (\<lambda>(k, g). jm_delete k) ds m) \<le> length m"
proof (induction ds arbitrary: m)
  case (Cons d ds)
  have "length (jm_delete (fst d) m) \<le> length m" by (rule length_jm_delete_le)
  then show ?case using Cons [of "jm_delete (fst d) m"] by (simp add: case_prod_unfold)
qed simp

lemma purge_oldest_fold: "\<exists>ds :: grant_map. snd (purge_oldest n m) = fold (\<lambda>(k, g). jm_delete k) ds m"
proof (cases "n < int (length m)")
  case True
  then show ?thesis unfolding purge_oldest_def Let_def by (simp only: if_True snd_conv) blast
next
  case False
  then have "snd (purge_oldest n m) = fold (\<lambda>(k, g). jm_delete k) ([] :: grant_map) m" by (simp add: purge_oldest_def)
  then show ?thesis by blast
qed

lemma purge_spec:
  assumes "jm_ok m"
  shows "jm_ok (snd (purge_grants op now m)) \<and> length (snd (purge_grants op now m)) \<le> length m \<and>
    (\<forall>k g. jm_get (snd (purge_grants op now m)) k = Some g \<longrightarrow> jm_get m k = Some g \<and> \<not> dead_grant now g)"
proof -
  define f where "f = filter (\<lambda>e. \<not> (\<lambda>(k, g). gc_exp g \<le> now_sec now \<or> gc_used g) e) m"
  have f: "jm_ok f" using assms by (simp add: f_def)
  have len: "length f \<le> length m" by (simp add: f_def)
  have get: "jm_get m k = Some g \<and> \<not> dead_grant now g" if "jm_get f k = Some g" for k g
    using that assms by (auto simp: f_def map_of_filter_key dead_grant_def split: option.splits if_splits)
  obtain ds :: grant_map where "snd (purge_grants op now m) = fold (\<lambda>(k, g). jm_delete k) ds f"
    using purge_oldest_fold [of "go_maxEntries op" f]
    by (auto simp: purge_grants_def Let_def case_prod_unfold f_def)
  moreover have "length (fold (\<lambda>(k, g). jm_delete k) ds f) \<le> length m"
    using fold_delete_length [of ds f] len by linarith
  ultimately show ?thesis
    using fold_delete_ok [OF f, of ds] get by (simp add: fold_delete_get)
qed

lemma purge_ok:
  assumes "grants_ok E m"
  shows "grants_ok E (snd (purge_grants op now m))"
proof -
  have "jm_ok m" using assms by (simp add: grants_ok_def)
  note s = purge_spec [OF this, of op now]
  show ?thesis by (rule grants_ok_shrink [OF assms]) (use s in blast)+
qed

lemma grants_ok_delete: "grants_ok E m \<Longrightarrow> grants_ok E (jm_delete k m)"
  by (rule grants_ok_shrink [of E m]) (simp_all add: grants_ok_def length_jm_delete_le split: if_splits)

lemma grants_ok_used:
  assumes "grants_ok E m" and g: "jm_get m k = Some g"
  shows "grants_ok E (jm_set k (g\<lparr>gc_used := True\<rparr>) m)"
proof -
  have "jm_has m k" using g by (simp add: jm_has_def)
  then have "length (jm_set k (g\<lparr>gc_used := True\<rparr>) m) = length m" by (simp add: length_jm_set)
  moreover have "grant_safe E k (g\<lparr>gc_used := True\<rparr>) = grant_safe E k g"
    by (simp add: grant_safe_def)
  ultimately show ?thesis using assms by (auto simp: grants_ok_def)
qed

lemma issue_ok:
  assumes "grants_ok E m"
  shows "grants_ok E (snd (issue_grant (ge_parse E) (ge_href E) (ge_isProd E) (ge_opts E) lookup now gid inp m))"
proof (cases "validateOutboundUrl (ge_parse E) lookup (ge_isProd E) (ii_url inp) (go_urlPolicy (ge_opts E))")
  case (Inr v)
  let ?m1 = "snd (purge_grants (ge_opts E) now m)"
  let ?m2 = "snd (purge_grants (ge_opts E) now ?m1)"
  let ?g = "new_grant (ge_opts E) now gid (ge_href E (vu_url v)) inp"
  have m1: "grants_ok E ?m1" using assms by (rule purge_ok)
  then have m2: "grants_ok E ?m2" by (rule purge_ok)
  have "grant_safe E gid ?g"
    using Inr by (auto simp: grant_safe_def new_grant_def list_all_iff)
  moreover have "length (jm_set gid ?g ?m2) \<le> Suc (length ?m1)"
    using m1 purge_spec [of ?m1 "ge_opts E" now] by (simp add: grants_ok_def length_jm_set)
  ultimately have "grants_ok E (jm_set gid ?g ?m2)" if "int (length ?m1) < go_maxActive (ge_opts E)"
    using m2 that by (auto simp: grants_ok_def)
  then show ?thesis using m1 Inr by (auto simp: issue_grant_def Let_def)
qed (use assms in \<open>simp add: issue_grant_def\<close>)

lemma grant_apply_ok: "grants_ok E m \<Longrightarrow> grants_ok E (grant_apply E x m)"
  by (cases x)
    (auto simp: grant_apply_def issue_ok purge_ok get_grant_def consume_grant_def revoke_grant_def
      grants_ok_delete grants_ok_used split: reply.split option.split)

lemma grant_run_ok: "grants_ok E m \<Longrightarrow> grants_ok E (fold (grant_apply E) xs m)"
  by (induction xs arbitrary: m) (simp_all add: grant_apply_ok)

text \<open>Redemptions of one grant over a run.\<close>

definition redeems :: "string \<Rightarrow> grant_op \<Rightarrow> grant_map \<Rightarrow> bool" where
  "redeems gid x m =
     (case x of GConsume re now i \<Rightarrow> i = gid \<and> fst (consume_grant re now i m) \<noteq> None | _ \<Rightarrow> False)"

fun redemptions :: "grant_env \<Rightarrow> string \<Rightarrow> grant_op list \<Rightarrow> grant_map \<Rightarrow> bool list" where
  "redemptions E gid [] m = []"
| "redemptions E gid (x # xs) m = redeems gid x m # redemptions E gid xs (grant_apply E x m)"

definition local_op :: "string \<Rightarrow> grant_op \<Rightarrow> bool" where
  "local_op gid x =
     (case x of
        GIssue lookup now i inp \<Rightarrow> i \<noteq> gid
      | GConsume re now i \<Rightarrow> (case re of Answered (Some g) \<Rightarrow> False | _ \<Rightarrow> True)
      | _ \<Rightarrow> True)"

definition consume_time :: "grant_op \<Rightarrow> int" where
  "consume_time x = (case x of GConsume re now i \<Rightarrow> now_sec now | _ \<Rightarrow> 0)"

text \<open>A single-use grant that is gone or used stays so.\<close>

definition spent :: "string \<Rightarrow> grant_map \<Rightarrow> bool" where
  "spent gid m = (case jm_get m gid of None \<Rightarrow> True | Some g \<Rightarrow> gc_used g)"

definition holds_grant :: "string \<Rightarrow> int \<Rightarrow> grant_map \<Rightarrow> bool" where
  "holds_grant gid ex m = (case jm_get m gid of None \<Rightarrow> True | Some g \<Rightarrow> single_use g \<and> gc_exp g = ex)"

lemma purge_get:
  "jm_ok m \<Longrightarrow> jm_get (snd (purge_grants op now m)) k \<in> {None, jm_get m k}"
  using purge_spec [of m op now] by (cases "jm_get (snd (purge_grants op now m)) k") auto

lemma grant_apply_get:
  assumes "grants_ok E m" and "local_op gid x"
  shows "jm_get (grant_apply E x m) gid \<in> {None, jm_get m gid} \<or>
    redeems gid x m \<and> spent gid (grant_apply E x m) \<and> holds_grant gid (gc_exp (the (jm_get m gid))) (grant_apply E x m)"
proof (cases x)
  case (GIssue lookup now i inp)
  have ok: "jm_ok m" using assms(1) by (simp add: grants_ok_def)
  have ok1: "jm_ok (snd (purge_grants (ge_opts E) now m))" using purge_spec [OF ok] by simp
  show ?thesis
    using assms(2) GIssue purge_get [OF ok, of "ge_opts E" now gid] purge_get [OF ok1, of "ge_opts E" now gid]
    by (auto simp: grant_apply_def issue_grant_def local_op_def Let_def split: sum.split)
next
  case (GPurge now)
  then show ?thesis
    using assms(1) purge_get [of m "ge_opts E" now gid] by (auto simp: grant_apply_def grants_ok_def)
next
  case (GConsume re now i)
  then show ?thesis using assms(2)
    by (auto simp: grant_apply_def consume_grant_def local_op_def redeems_def spent_def holds_grant_def
        single_use_def split: reply.splits option.splits)
qed (auto simp: grant_apply_def get_grant_def revoke_grant_def split: reply.split option.split)

lemma redeems_live:
  assumes "local_op gid x" and "redeems gid x m"
  shows "\<not> spent gid m \<and> consume_time x < gc_exp (the (jm_get m gid)) \<and>
    (holds_grant gid ex m \<longrightarrow> spent gid (grant_apply E x m) \<and> gc_exp (the (jm_get m gid)) = ex)"
  using assms
  by (cases x) (auto simp: redeems_def local_op_def consume_grant_def spent_def holds_grant_def
      consume_time_def grant_apply_def single_use_def split: reply.splits option.splits if_splits)

lemma spent_stays:
  "grants_ok E m \<Longrightarrow> local_op gid x \<Longrightarrow> spent gid m \<Longrightarrow> spent gid (grant_apply E x m)"
  using grant_apply_get [of E m gid x] redeems_live [of gid x m] by (auto simp: spent_def)

lemma spent_never_redeems:
  "grants_ok E m \<Longrightarrow> list_all (local_op gid) xs \<Longrightarrow> spent gid m \<Longrightarrow>
     redemptions E gid xs m = replicate (length xs) False"
proof (induction xs arbitrary: m)
  case (Cons x xs)
  then show ?case
    using redeems_live [of gid x m] spent_stays [of E m gid x] by (auto simp: grant_apply_ok)
qed simp

lemma holds_stays:
  "grants_ok E m \<Longrightarrow> local_op gid x \<Longrightarrow> holds_grant gid ex m \<Longrightarrow> holds_grant gid ex (grant_apply E x m)"
  using grant_apply_get [of E m gid x] redeems_live [of gid x m ex]
  by (auto simp: holds_grant_def split: option.splits)

lemma redeemed_once:
  "grants_ok E m \<Longrightarrow> list_all (local_op gid) xs \<Longrightarrow> holds_grant gid ex m \<Longrightarrow>
     length (filter (\<lambda>b. b) (redemptions E gid xs m)) \<le> 1 \<and>
     list_all (\<lambda>(x, b). b \<longrightarrow> consume_time x < ex) (zip xs (redemptions E gid xs m))"
proof (induction xs arbitrary: m)
  case (Cons x xs)
  have hd: "redeems gid x m \<Longrightarrow> spent gid (grant_apply E x m) \<and> consume_time x < ex"
    using redeems_live [of gid x m ex] Cons.prems by auto
  have tl: "length (filter (\<lambda>b. b) (redemptions E gid xs (grant_apply E x m))) \<le> 1 \<and>
     list_all (\<lambda>(x, b). b \<longrightarrow> consume_time x < ex) (zip xs (redemptions E gid xs (grant_apply E x m)))"
    using Cons holds_stays [of E m gid x ex] by (auto simp: grant_apply_ok)
  show ?case
  proof (cases "redeems gid x m")
    case True
    then have "redemptions E gid xs (grant_apply E x m) = replicate (length xs) False"
      using hd Cons.prems by (intro spent_never_redeems) (auto simp: grant_apply_ok)
    then show ?thesis using True hd tl by simp
  qed (use tl in simp)
qed simp

subsection \<open>Properties\<close>

text \<open>
  What the grant store holds is bounded and safe: from an empty store, after any sequence
  of issues, reads, redemptions, revocations and purges, it holds at most \<open>maxActive\<close> grants,
  one per id, none with a credential or hop header, and each for a URL the outbound policy
  accepted when it was issued.
\<close>

lemma grant_store_safe:
  "grants_ok E (fold (grant_apply E) xs [])"
  by (rule grant_run_ok) (simp add: grants_ok_def)

text \<open>
  C13. A single-use playback grant is redeemed at most once: over any sequence of operations of
  an instance that answers from its own map (Redis absent, failing or without the grant) and
  does not reuse the id, at most one redemption succeeds, and only before the grant expires;
  once it is revoked none does.
\<close>

theorem playback_grant_once:
  assumes "grants_ok E m" and "jm_get m gid = Some g" and "single_use g"
    and "list_all (local_op gid) xs"
  shows "length (filter (\<lambda>b. b) (redemptions E gid xs m)) \<le> 1 \<and>
    list_all (\<lambda>(x, b). \<not> b \<or> consume_time x < gc_exp g) (zip xs (redemptions E gid xs m)) \<and>
    redemptions E gid xs (snd (revoke_grant n gid m)) = replicate (length xs) False"
proof -
  have h: "holds_grant gid (gc_exp g) m" using assms(2,3) by (simp add: holds_grant_def)
  have "grants_ok E (snd (revoke_grant n gid m))" "spent gid (snd (revoke_grant n gid m))"
    using assms(1) by (simp_all add: revoke_grant_def grants_ok_delete spent_def)
  then show ?thesis
    using redeemed_once [OF assms(1,4) h] spent_never_redeems [OF _ assms(4)]
    by (auto simp: list_all_iff)
qed

definition demo_env :: grant_env where
  "demo_env =
     \<lparr>ge_parse = (\<lambda>s. Some \<lparr>pu_protocol = ''https:'', pu_username = [], pu_password = [], pu_hostname = ''cdn.example'', pu_port = []\<rparr>),
      ge_href = (\<lambda>u. pu_protocol u @ ''//'' @ pu_hostname u), ge_isProd = True,
      ge_opts = grant_defaults None (Some 10) (Some 2) (policyFromFlags None None None)\<rparr>"

definition demo_input :: issue_input where
  "demo_input = \<lparr>ii_url = ''https://cdn.example/a'', ii_headers = Some [(''Referer'', ''r''), (''Cookie'', ''c'')],
     ii_providerId = None, ii_mediaKey = None, ii_ttlSec = Some 60, ii_maxRedirects = None,
     ii_singleUse = Some True, ii_addonRevision = None\<rparr>"

definition demo_issue :: "string \<Rightarrow> grant_op" where
  "demo_issue gid = GIssue (\<lambda>h. Some [''93.184.216.34'']) 5000 gid demo_input"

definition demo_grants :: grant_map where
  "demo_grants = [(''g1'', new_grant (ge_opts demo_env) 5000 ''g1'' ''https://cdn.example'' demo_input)]"

lemma demo_grants_issued: "grant_apply demo_env (demo_issue ''g1'') [] = demo_grants"
  by code_simp

theorem playback_grant_once_witness:
  "length (filter (\<lambda>b. b) (redemptions demo_env ''g1''
     [GConsume NoClient 6000 ''g1'', GConsume NoClient 7000 ''g1'', GConsume CallFailed 99000 ''g1''] demo_grants)) \<le> 1"
proof -
  have "grants_ok demo_env demo_grants"
    using grant_run_ok [of demo_env "[]" "[demo_issue ''g1'']"] demo_grants_issued
    by (simp add: grants_ok_def)
  moreover have "jm_get demo_grants ''g1'' = Some (new_grant (ge_opts demo_env) 5000 ''g1'' ''https://cdn.example'' demo_input)"
    by (simp add: demo_grants_def)
  ultimately show ?thesis
    using playback_grant_once [of demo_env demo_grants "''g1''"
        "new_grant (ge_opts demo_env) 5000 ''g1'' ''https://cdn.example'' demo_input"
        "[GConsume NoClient 6000 ''g1'', GConsume NoClient 7000 ''g1'', GConsume CallFailed 99000 ''g1'']"]
    by (simp add: single_use_def new_grant_def demo_input_def local_op_def)
qed

text \<open>
  With Redis shared by two instances the guarantee is lost: the instance that issued the grant
  keeps its own copy, so after another instance redeemed the shared one (and deleted it) the
  first still redeems its copy. A revocation elsewhere leaves that copy valid too.
\<close>

lemma grant_redeemed_on_two_instances:
  assumes "jm_get mA gid = Some g" and "single_use g" and "\<not> dead_grant now g"
  shows "consume_grant (Answered (Some g)) now gid mB = (Some g, True, jm_delete gid mB) \<and>
    fst (consume_grant (Answered None) now gid mA) = Some (g\<lparr>gc_used := True\<rparr>)"
  using assms by (simp add: consume_grant_def dead_grant_def)

subsection \<open>Compact tokens\<close>

lemma split_colons:
  "CHR '':'' \<notin> set a \<Longrightarrow> CHR '':'' \<notin> set b \<Longrightarrow> CHR '':'' \<notin> set d \<Longrightarrow>
     split_on CHR '':'' (a @ CHR '':'' # b @ CHR '':'' # d) = [a, b, d]"
  by (simp add: split_on_append split_on_none)

lemma decrypt_encrypt:
  assumes "\<And>iv p. tc_unseal c iv (fst (tc_seal c iv p)) (snd (tc_seal c iv p)) = Some p"
  shows "decryptCompact c (encryptCompact c iv plain) = Some plain"
  using assms [of iv plain]
  by (simp add: decryptCompact_def encryptCompact_def Let_def case_prod_unfold starts_with_def
      split_colons b64url_no_sep b64url_roundtrip)

lemma token_text_sealed:
  assumes "\<And>iv p. tc_unseal c iv (fst (tc_seal c iv p)) (snd (tc_seal c iv p)) = Some p" and "plain \<noteq> []"
  shows "token_text c isProd (b64url_encode (encryptCompact c iv plain)) = Some plain"
proof -
  have "starts_with (encryptCompact c iv plain) ''enc1:''"
    by (simp add: encryptCompact_def Let_def case_prod_unfold starts_with_def)
  then show ?thesis
    using decrypt_encrypt [OF assms(1), of iv plain] assms(2)
    by (cases plain) (simp_all add: token_text_def b64url_roundtrip)
qed

lemma verify_parts:
  assumes "CHR ''.'' \<notin> set payload"
  shows "verifySignedToken c isProd now m (payload @ ''.'' @ b64url_encode (tc_mac c payload)) =
    (case Option.bind (token_text c isProd payload) (tc_dec c) of
       None \<Rightarrow> None
     | Some b \<Rightarrow>
         if tb_id b = [] \<or> tb_url b = [] \<or> tb_exp b = 0 then None
         else if tb_exp b < now_sec now then None
         else case jm_get m (tb_id b) of
           Some live \<Rightarrow> if now_sec now \<le> gc_exp live \<and> \<not> gc_used live then Some live else Some (claims_of b)
         | None \<Rightarrow> Some (claims_of b))"
  using assms by (simp add: verifySignedToken_def split_on_append split_on_none b64url_no_sep)

lemma split_two: "split_on ch s = [a, b] \<Longrightarrow> s = a @ ch # b"
  using join_split [of ch s] by simp

lemma verified_authentic:
  assumes "verifySignedToken c isProd now m token = Some r"
  shows "\<exists>payload. token = payload @ ''.'' @ b64url_encode (tc_mac c payload) \<and>
     (isProd \<longrightarrow> starts_with (b64url_decode payload) ''enc1:'')"
proof -
  obtain payload sig where s: "split_on CHR ''.'' token = [payload, sig]"
    using assms by (auto simp: verifySignedToken_def split: list.splits)
  then have "sig = b64url_encode (tc_mac c payload)" "Option.bind (token_text c isProd payload) (tc_dec c) \<noteq> None"
    using assms by (auto simp: verifySignedToken_def split: if_splits option.splits)
  then have "sig = b64url_encode (tc_mac c payload)" "token_text c isProd payload \<noteq> None"
    by (auto simp: Option.bind_eq_None_conv)
  moreover have "starts_with (b64url_decode payload) ''enc1:''"
    if "token_text c isProd payload \<noteq> None" "isProd"
    using that by (auto simp: token_text_def Let_def split: if_splits)
  ultimately show ?thesis using split_two [OF s] by auto
qed

lemma body_of_sel [simp]:
  "tb_id (body_of g) = gc_id g" "tb_url (body_of g) = gc_url g" "tb_exp (body_of g) = gc_exp g"
  by (simp_all add: body_of_def)

lemma verify_signed:
  assumes "\<And>iv p. tc_unseal c iv (fst (tc_seal c iv p)) (snd (tc_seal c iv p)) = Some p"
    and "tc_dec c (tc_enc c (body_of g)) = Some (body_of g)" and "tc_enc c (body_of g) \<noteq> []"
    and "gc_id g \<noteq> []" and "gc_url g \<noteq> []" and "gc_exp g \<noteq> 0"
  shows "verifySignedToken c isProd now m (signCompact c iv g) =
      (if gc_exp g < now_sec now then None
       else case jm_get m (gc_id g) of
         Some live \<Rightarrow> if now_sec now \<le> gc_exp live \<and> \<not> gc_used live then Some live else Some (claims_of (body_of g))
       | None \<Rightarrow> Some (claims_of (body_of g)))"
proof -
  let ?payload = "b64url_encode (encryptCompact c iv (tc_enc c (body_of g)))"
  have "token_text c isProd ?payload = Some (tc_enc c (body_of g))"
    using assms(1,3) by (rule token_text_sealed)
  then show ?thesis
    unfolding signCompact_def Let_def verify_parts [OF b64url_no_sep(1)] using assms(2,4-6) by simp
qed

text \<open>
  Compact tokens are authentic and carry the grant: a token that verifies is a payload
  with its own MAC under the server's secret, sealed when in production; and the token signed
  for a grant verifies until it expires, as the live grant when the store still has it, and
  otherwise as the grant's claims without its headers. The cipher is assumed to invert and
  the codec to round-trip the token's body.
\<close>

lemma compact_token_sound:
  assumes "\<And>iv p. tc_unseal c iv (fst (tc_seal c iv p)) (snd (tc_seal c iv p)) = Some p"
    and "tc_dec c (tc_enc c (body_of g)) = Some (body_of g)" and "tc_enc c (body_of g) \<noteq> []"
    and "gc_id g \<noteq> []" and "gc_url g \<noteq> []" and "gc_exp g \<noteq> 0"
  shows "(verifySignedToken c isProd now m token = None \<or>
      (\<exists>payload. token = payload @ ''.'' @ b64url_encode (tc_mac c payload) \<and>
         (isProd \<longrightarrow> starts_with (b64url_decode payload) ''enc1:''))) \<and>
    verifySignedToken c isProd now m (signCompact c iv g) =
      (if gc_exp g < now_sec now then None
       else case jm_get m (gc_id g) of
         Some live \<Rightarrow> if now_sec now \<le> gc_exp live \<and> \<not> gc_used live then Some live else Some (claims_of (body_of g))
       | None \<Rightarrow> Some (claims_of (body_of g)))"
proof
  show "verifySignedToken c isProd now m token = None \<or>
      (\<exists>payload. token = payload @ ''.'' @ b64url_encode (tc_mac c payload) \<and>
         (isProd \<longrightarrow> starts_with (b64url_decode payload) ''enc1:''))"
    using verified_authentic [of c isProd now m token] by (cases "verifySignedToken c isProd now m token") simp_all
qed (rule verify_signed [OF assms])

definition demo_body_grant :: grant_claims where
  "demo_body_grant = new_grant (ge_opts demo_env) 5000 ''g1'' ''https://cdn.example'' demo_input"

definition demo_crypto :: token_crypto where
  "demo_crypto =
     \<lparr>tc_seal = (\<lambda>iv p. (iv @ ''t'', rev p)), tc_unseal = (\<lambda>iv t d. if t = iv @ ''t'' then Some (rev d) else None),
      tc_mac = (\<lambda>s. ''key'' @ rev s), tc_enc = tb_url, tc_dec = (\<lambda>s. Some (body_of demo_body_grant))\<rparr>"

theorem compact_token_sound_witness:
  "verifySignedToken demo_crypto True 6000 [] (signCompact demo_crypto ''iv'' demo_body_grant) =
     Some (claims_of (body_of demo_body_grant)) \<and>
   verifySignedToken demo_crypto True 66000 [] (signCompact demo_crypto ''iv'' demo_body_grant) = None"
proof -
  have f: "gc_id demo_body_grant = ''g1''" "gc_url demo_body_grant = ''https://cdn.example''"
    "gc_exp demo_body_grant = 65"
    by (simp_all add: demo_body_grant_def new_grant_def demo_input_def now_sec_def)
  have "tc_unseal demo_crypto iv (fst (tc_seal demo_crypto iv p)) (snd (tc_seal demo_crypto iv p)) = Some p" for iv p
    by (simp add: demo_crypto_def)
  moreover have "tc_dec demo_crypto (tc_enc demo_crypto (body_of demo_body_grant)) = Some (body_of demo_body_grant)"
    "tc_enc demo_crypto (body_of demo_body_grant) \<noteq> []"
    by (simp_all add: demo_crypto_def body_of_def f)
  ultimately show ?thesis
    using compact_token_sound [of demo_crypto demo_body_grant True 6000 "[]" "[]" "''iv''"]
      compact_token_sound [of demo_crypto demo_body_grant True 66000 "[]" "[]" "''iv''"]
    by (simp add: f now_sec_def)
qed

text \<open>
  The price of the fallback: a token stays valid after its grant was redeemed or revoked.
\<close>

lemma token_survives_redemption:
  assumes "\<And>iv p. tc_unseal c iv (fst (tc_seal c iv p)) (snd (tc_seal c iv p)) = Some p"
    and "tc_dec c (tc_enc c (body_of g)) = Some (body_of g)" and "tc_enc c (body_of g) \<noteq> []"
    and "gc_id g \<noteq> []" and "gc_url g \<noteq> []" and "gc_exp g \<noteq> 0" and "now_sec now \<le> gc_exp g"
    and "spent (gc_id g) m"
  shows "verifySignedToken c isProd now m (signCompact c iv g) = Some (claims_of (body_of g))"
  using verify_signed [OF assms(1-6), of isProd now m iv] assms(7,8)
  by (auto simp: spent_def split: option.splits)

end
