(* ===== verification/Capabilities.thy ===== *)
theory Capabilities
  imports Json
begin

text \<open>
  Addon manifests and what they offer: \<open>src/capabilities/index.ts\<close> and the Stremio ids of
  \<open>src/stremio/ids.ts\<close>. A manifest is the parsed document, whose fields may hold anything;
  capabilities are its normal form, on which selection and registration decide.
\<close>

subsection \<open>Manifests\<close>

record manifest =
  mf_id :: "json option"
  mf_version :: "json option"
  mf_name :: "json option"
  mf_types :: "json option"
  mf_resources :: "json option"
  mf_catalogs :: "json option"
  mf_idPrefixes :: "json option"

text \<open>
  \<open>KInherited\<close> stands for what the lookup table finds under the two lower-case names every
  object inherits; it is a member of the list that equals no media type.
\<close>

datatype media_kind = KMovie | KSeries | KTv | KInherited string

definition KNOWN_TYPE_MAP :: "string \<Rightarrow> media_kind option" where
  "KNOWN_TYPE_MAP s =
     (if s = ''movie'' then Some KMovie else if s = ''series'' then Some KSeries
      else if s = ''tv'' then Some KTv else if s = ''channel'' then Some KTv
      else if s = ''anime'' then Some KSeries
      else if s = ''constructor'' \<or> s = ''__proto__'' then Some (KInherited s) else None)"

definition VALID_RESOURCE_NAMES :: "string list" where
  "VALID_RESOURCE_NAMES = [''stream'', ''subtitles'', ''catalog'', ''meta'']"

text \<open>
  The fallback of the media types is the manifest's own \<open>types\<close>, which its type makes an
  array when present.
\<close>

definition normalizeMediaTypes :: "json option \<Rightarrow> json list option \<Rightarrow> media_kind list" where
  "normalizeMediaTypes types fallback =
     (case (case jarr types of Some xs \<Rightarrow> Some xs | None \<Rightarrow> fallback) of
        None \<Rightarrow> [KMovie, KSeries, KTv]
      | Some xs \<Rightarrow>
          (let out = uniq (List.map_filter (\<lambda>t. case t of JStr s \<Rightarrow> KNOWN_TYPE_MAP (to_lower s) | _ \<Rightarrow> None) xs)
           in if out = [] then [KMovie, KSeries, KTv] else out))"

definition normalizeIdPrefixes :: "json option \<Rightarrow> json option \<Rightarrow> string list" where
  "normalizeIdPrefixes prefixes fallback =
     (case (case jarr prefixes of Some xs \<Rightarrow> Some xs | None \<Rightarrow> jarr fallback) of
        None \<Rightarrow> [''tt'']
      | Some xs \<Rightarrow>
          (let out = List.map_filter (\<lambda>p. case p of JStr s \<Rightarrow> if trim s = [] then None else Some (trim s) | _ \<Rightarrow> None) xs
           in if out = [] then [''tt''] else out))"

record normalized_resource =
  nr_name :: string
  nr_rawTypes :: "json list option"
  nr_rawIdPrefixes :: "json list option"
  nr_mediaTypes :: "media_kind list"
  nr_idPrefixes :: "string list"

definition resource_parts :: "json \<Rightarrow> (string \<times> json list option \<times> json list option) option" where
  "resource_parts r =
     (case r of
        JStr s \<Rightarrow> Some (s, None, None)
      | JObj fs \<Rightarrow>
          (case jm_get fs ''name'' of
             Some (JStr s) \<Rightarrow> Some (s, jarr (jm_get fs ''types''), jarr (jm_get fs ''idPrefixes''))
           | _ \<Rightarrow> None)
      | _ \<Rightarrow> None)"

definition normalizeResourceEntry :: "json \<Rightarrow> manifest \<Rightarrow> normalized_resource option" where
  "normalizeResourceEntry r mf =
     (case resource_parts r of
        None \<Rightarrow> None
      | Some (name, types, prefixes) \<Rightarrow>
          if name \<notin> set VALID_RESOURCE_NAMES then None
          else Some \<lparr>nr_name = name, nr_rawTypes = types, nr_rawIdPrefixes = prefixes,
                     nr_mediaTypes = normalizeMediaTypes (map_option JArr types) (jarr (mf_types mf)),
                     nr_idPrefixes = normalizeIdPrefixes (map_option JArr prefixes) (mf_idPrefixes mf)\<rparr>)"

definition normalizeResources :: "manifest \<Rightarrow> normalized_resource list" where
  "normalizeResources mf =
     (case jarr (mf_resources mf) of
        None \<Rightarrow> []
      | Some raw \<Rightarrow> List.map_filter (\<lambda>r. normalizeResourceEntry r mf) raw)"

subsection \<open>Capabilities\<close>

record cap_entry =
  ce_mediaTypes :: "media_kind list"
  ce_idPrefixes :: "string list"

datatype cap_status = Supported | Limited | Unsupported

record capabilities =
  cp_stream :: "cap_entry list"
  cp_subtitles :: "cap_entry list"
  cp_catalog :: bool
  cp_catalogs :: "json list"
  cp_meta :: bool
  cp_status :: cap_status
  cp_statusReason :: "string option"
  cp_resources :: "normalized_resource list"

definition entries_of :: "string \<Rightarrow> normalized_resource list \<Rightarrow> cap_entry list" where
  "entries_of name rs =
     map (\<lambda>r. \<lparr>ce_mediaTypes = nr_mediaTypes r, ce_idPrefixes = nr_idPrefixes r\<rparr>)
       (filter (\<lambda>r. nr_name r = name) rs)"

definition status_of ::
  "manifest \<Rightarrow> normalized_resource list \<Rightarrow> bool \<Rightarrow> bool \<Rightarrow> cap_status \<times> string option" where
  "status_of mf rs catalog meta =
     (if entries_of ''stream'' rs = [] \<and> entries_of ''subtitles'' rs = [] then
        (if catalog \<or> meta then
           (Limited,
            Some (if catalog \<and> meta then ''catalog/meta only - no stream or subtitle resources''
                  else if catalog then ''catalog only - no stream or subtitle resources''
                  else ''meta only - no stream or subtitle resources''))
         else if rs = [] then
           (Unsupported,
            Some (if or_else (jarr (mf_resources mf)) [] = [] then ''no advertised resources''
                  else ''no stream/subtitle/catalog/meta resources advertised''))
         else (Unsupported, Some ''advertises resources but none usable for stream/subtitle pipeline''))
      else (Supported, None))"

definition catalog_ok :: "json \<Rightarrow> bool" where
  "catalog_ok c \<longleftrightarrow> jstr (jfield c ''id'') \<noteq> None \<and> jstr (jfield c ''type'') \<noteq> None"

definition deriveCapabilities :: "manifest \<Rightarrow> capabilities" where
  "deriveCapabilities mf =
     (let rs = normalizeResources mf;
          catalog = list_ex (\<lambda>r. nr_name r = ''catalog'') rs;
          meta = list_ex (\<lambda>r. nr_name r = ''meta'') rs
      in \<lparr>cp_stream = entries_of ''stream'' rs, cp_subtitles = entries_of ''subtitles'' rs,
          cp_catalog = catalog, cp_catalogs = filter catalog_ok (or_else (jarr (mf_catalogs mf)) []),
          cp_meta = meta, cp_status = fst (status_of mf rs catalog meta),
          cp_statusReason = snd (status_of mf rs catalog meta), cp_resources = rs\<rparr>)"

definition isStreamCapable :: "capabilities \<Rightarrow> bool" where
  "isStreamCapable c \<longleftrightarrow> cp_stream c \<noteq> []"

definition isSubtitleCapable :: "capabilities \<Rightarrow> bool" where
  "isSubtitleCapable c \<longleftrightarrow> cp_subtitles c \<noteq> []"

definition isCatalogOnly :: "capabilities \<Rightarrow> bool" where
  "isCatalogOnly c \<longleftrightarrow> cp_status c = Limited \<and> cp_catalog c \<and> \<not> isStreamCapable c \<and> \<not> isSubtitleCapable c"

datatype cap_kind = StreamKind | SubtitleKind

definition kind_entries :: "cap_kind \<Rightarrow> capabilities \<Rightarrow> cap_entry list" where
  "kind_entries k c = (case k of StreamKind \<Rightarrow> cp_stream c | SubtitleKind \<Rightarrow> cp_subtitles c)"

definition canServeMediaType :: "capabilities \<Rightarrow> cap_kind \<Rightarrow> media_kind \<Rightarrow> bool" where
  "canServeMediaType c k t = list_ex (\<lambda>e. t \<in> set (ce_mediaTypes e)) (kind_entries k c)"

definition supportsIdPrefix :: "capabilities \<Rightarrow> cap_kind \<Rightarrow> string \<Rightarrow> bool" where
  "supportsIdPrefix c k prefix =
     list_ex (\<lambda>e. list_ex (\<lambda>p. starts_with prefix p \<or> starts_with p prefix) (ce_idPrefixes e)) (kind_entries k c)"

subsection \<open>Media and ids\<close>

text \<open>
  What the code reads of a \<open>ProviderMediaObject\<close>; ids are given as text (a numeric TMDB id
  already printed), and a missing id is the same as an empty one.
\<close>

datatype omss_type = Movie | Tv

record media =
  md_type :: omss_type
  md_imdbId :: string
  md_tmdbId :: string
  md_season :: "int option"
  md_episode :: "int option"

definition canServeMedia :: "manifest \<Rightarrow> media \<Rightarrow> cap_kind \<Rightarrow> bool" where
  "canServeMedia mf md k =
     (let entries = kind_entries k (deriveCapabilities mf);
          mt = (case md_type md of Movie \<Rightarrow> KMovie | Tv \<Rightarrow> KSeries);
          prefixes = (if md_imdbId md \<noteq> [] then [''tt''] else []) @ (if md_tmdbId md \<noteq> [] then [''tmdb''] else [])
      in entries \<noteq> [] \<and> list_ex (\<lambda>e. mt \<in> set (ce_mediaTypes e) \<or> KTv \<in> set (ce_mediaTypes e)) entries \<and>
         (prefixes = [] \<or>
          list_ex (\<lambda>p. list_ex (\<lambda>e. list_ex (\<lambda>i. starts_with i p \<or> starts_with p i \<or> i = p) (ce_idPrefixes e)) entries)
            prefixes))"

definition toStremioType :: "omss_type \<Rightarrow> string" where
  "toStremioType t = (case t of Tv \<Rightarrow> ''series'' | Movie \<Rightarrow> ''movie'')"

definition normalizeImdb :: "string \<Rightarrow> string" where
  "normalizeImdb i =
     (let clean = trim i in
      if clean = [] then [] else if starts_with clean ''tt'' then clean else ''tt'' @ clean)"

definition supportsPrefix :: "manifest \<Rightarrow> string \<Rightarrow> bool" where
  "supportsPrefix mf prefix =
     (let caps = deriveCapabilities mf; union = uniq (concat (map ce_idPrefixes (cp_stream caps))) in
      if cp_stream caps \<noteq> [] \<and> union \<noteq> [] then list_ex (\<lambda>p. starts_with p prefix) union
      else case jarr (mf_idPrefixes mf) of
        None \<Rightarrow> prefix = ''tt''
      | Some [] \<Rightarrow> prefix = ''tt''
      | Some ps \<Rightarrow> list_ex (\<lambda>p. case p of JStr s \<Rightarrow> starts_with s prefix | _ \<Rightarrow> False) ps)"

text \<open>The season and episode suffix of a series id.\<close>

definition episode_suffix :: "media \<Rightarrow> string" where
  "episode_suffix md =
     (case (md_type md, md_season md, md_episode md) of
        (Tv, Some s, Some e) \<Rightarrow> '':'' @ show_int s @ '':'' @ show_int e
      | _ \<Rightarrow> [])"

definition buildIdCandidates :: "manifest \<Rightarrow> media \<Rightarrow> string list" where
  "buildIdCandidates mf md =
     (let imdb = (if md_imdbId md \<noteq> [] then normalizeImdb (md_imdbId md) else []);
          tmdb = md_tmdbId md
      in uniq ((if imdb \<noteq> [] \<and> supportsPrefix mf ''tt'' then [imdb @ episode_suffix md] else []) @
               (if tmdb \<noteq> [] \<and> supportsPrefix mf ''tmdb'' then [''tmdb:'' @ tmdb @ episode_suffix md] else [])))"

definition manifestSupportsType :: "manifest \<Rightarrow> omss_type \<Rightarrow> bool" where
  "manifestSupportsType mf t =
     (case jarr (mf_types mf) of
        None \<Rightarrow> True
      | Some [] \<Rightarrow> True
      | Some ts \<Rightarrow>
          list_ex (\<lambda>x. x = JStr (toStremioType t) \<or> t = Tv \<and> (x = JStr ''tv'' \<or> x = JStr ''series'')) ts)"

subsection \<open>Normal form\<close>

text \<open>Every entry of the capabilities restricts to some media types and some id prefixes.\<close>

lemma normalizeMediaTypes_ok: "normalizeMediaTypes a b \<noteq> [] \<and> distinct (normalizeMediaTypes a b)"
  by (simp add: normalizeMediaTypes_def Let_def split: option.split)

lemma normalizeIdPrefixes_ok: "normalizeIdPrefixes a b \<noteq> [] \<and> [] \<notin> set (normalizeIdPrefixes a b)"
  by (auto simp: normalizeIdPrefixes_def Let_def set_map_filter split: option.splits json.splits if_splits)

lemma normalizeResources_ok:
  assumes "r \<in> set (normalizeResources mf)"
  shows "nr_name r \<in> set VALID_RESOURCE_NAMES \<and> nr_mediaTypes r \<noteq> [] \<and> distinct (nr_mediaTypes r) \<and>
     nr_idPrefixes r \<noteq> [] \<and> [] \<notin> set (nr_idPrefixes r)"
proof -
  obtain x where "normalizeResourceEntry x mf = Some r"
    using assms by (auto simp: normalizeResources_def set_map_filter split: option.splits)
  then show ?thesis
    by (auto simp: normalizeResourceEntry_def normalizeMediaTypes_ok normalizeIdPrefixes_ok
        split: option.splits if_splits)
qed

definition entry_ok :: "cap_entry \<Rightarrow> bool" where
  "entry_ok e \<longleftrightarrow> ce_mediaTypes e \<noteq> [] \<and> distinct (ce_mediaTypes e) \<and> ce_idPrefixes e \<noteq> [] \<and>
     [] \<notin> set (ce_idPrefixes e)"

lemma entries_ok: "list_all entry_ok (entries_of name (normalizeResources mf))"
  using normalizeResources_ok [of _ mf] by (auto simp: entries_of_def list_all_iff entry_ok_def)

lemma entries_Nil_iff: "entries_of name rs = [] \<longleftrightarrow> (\<forall>r \<in> set rs. nr_name r \<noteq> name)"
  by (auto simp: entries_of_def filter_empty_conv)

text \<open>
  Capabilities are a normal form of the manifest: every stream and subtitle entry names
  media types without repetition and non-empty id prefixes; the addon is supported exactly
  when it has a stream or subtitle entry, limited exactly when it has none but a catalog or
  meta resource, and unsupported exactly when it declares no usable resource at all; a reason
  is given exactly when it is not supported.
\<close>

lemma capabilities_normal_form:
  "list_all entry_ok (cp_stream (deriveCapabilities mf)) \<and> list_all entry_ok (cp_subtitles (deriveCapabilities mf)) \<and>
   cp_status (deriveCapabilities mf) =
     (if isStreamCapable (deriveCapabilities mf) \<or> isSubtitleCapable (deriveCapabilities mf) then Supported
      else if cp_catalog (deriveCapabilities mf) \<or> cp_meta (deriveCapabilities mf) then Limited
      else Unsupported) \<and>
   (cp_status (deriveCapabilities mf) = Unsupported) = (cp_resources (deriveCapabilities mf) = []) \<and>
   (cp_statusReason (deriveCapabilities mf) = None) = (cp_status (deriveCapabilities mf) = Supported)"
proof -
  let ?rs = "normalizeResources mf"
  have names: "nr_name r \<in> {''stream'', ''subtitles'', ''catalog'', ''meta''}" if "r \<in> set ?rs" for r
    using normalizeResources_ok [OF that] by (simp add: VALID_RESOURCE_NAMES_def)
  have none: "?rs = []" if "entries_of ''stream'' ?rs = []" "entries_of ''subtitles'' ?rs = []"
    "\<not> list_ex (\<lambda>r. nr_name r = ''catalog'') ?rs" "\<not> list_ex (\<lambda>r. nr_name r = ''meta'') ?rs"
    using that names by (cases ?rs) (auto simp: entries_Nil_iff list_ex_iff)
  have some: "?rs \<noteq> []" if "entries_of n ?rs \<noteq> []" for n
    using that by (auto simp: entries_of_def)
  show ?thesis
    using entries_ok [of "''stream''" mf] entries_ok [of "''subtitles''" mf] none some
    by (auto simp: deriveCapabilities_def Let_def status_of_def isStreamCapable_def isSubtitleCapable_def
        list_ex_iff)
qed

lemma supportsPrefix_entry:
  assumes "cp_stream (deriveCapabilities mf) \<noteq> []"
  shows "supportsPrefix mf p =
    (\<exists>e \<in> set (cp_stream (deriveCapabilities mf)). \<exists>i \<in> set (ce_idPrefixes e). starts_with i p)"
proof -
  have "list_all entry_ok (cp_stream (deriveCapabilities mf))"
    using entries_ok by (simp add: deriveCapabilities_def Let_def)
  then have "concat (map ce_idPrefixes (cp_stream (deriveCapabilities mf))) \<noteq> []"
    using assms by (cases "cp_stream (deriveCapabilities mf)") (auto simp: entry_ok_def)
  then show ?thesis
    using assms by (auto simp: supportsPrefix_def Let_def list_ex_iff)
qed

lemma normalizeImdb_tt: "normalizeImdb i \<noteq> [] \<Longrightarrow> starts_with (normalizeImdb i) ''tt''"
  by (auto simp: normalizeImdb_def Let_def starts_with_iff split: if_splits)

definition type_served :: "manifest \<Rightarrow> media \<Rightarrow> bool" where
  "type_served mf md = list_ex (\<lambda>e. (case md_type md of Movie \<Rightarrow> KMovie | Tv \<Rightarrow> KSeries) \<in> set (ce_mediaTypes e) \<or>
     KTv \<in> set (ce_mediaTypes e)) (cp_stream (deriveCapabilities mf))"

lemma canServeMedia_if:
  assumes "supportsPrefix mf p" "type_served mf md"
    and "p = ''tt'' \<and> md_imdbId md \<noteq> [] \<or> p = ''tmdb'' \<and> md_tmdbId md \<noteq> []"
  shows "canServeMedia mf md StreamKind"
proof -
  have ne: "cp_stream (deriveCapabilities mf) \<noteq> []"
    using assms(2) by (cases "cp_stream (deriveCapabilities mf)") (auto simp: type_served_def)
  show ?thesis
    using assms ne supportsPrefix_entry [OF ne, of p]
    by (auto simp: canServeMedia_def Let_def kind_entries_def type_served_def list_ex_iff)
qed

lemma id_candidates_cases:
  "c \<in> set (buildIdCandidates mf md) \<longleftrightarrow>
     (md_imdbId md \<noteq> [] \<and> normalizeImdb (md_imdbId md) \<noteq> [] \<and> supportsPrefix mf ''tt'' \<and>
        c = normalizeImdb (md_imdbId md) @ episode_suffix md) \<or>
     (md_tmdbId md \<noteq> [] \<and> supportsPrefix mf ''tmdb'' \<and> c = ''tmdb:'' @ md_tmdbId md @ episode_suffix md)"
  by (auto simp: buildIdCandidates_def Let_def)

lemma id_candidates_order:
  "distinct (buildIdCandidates mf md) \<and> length (buildIdCandidates mf md) \<le> 2 \<and>
   list_all (\<lambda>c. starts_with c ''tmdb:'') (tl (buildIdCandidates mf md))"
  by (auto simp: buildIdCandidates_def Let_def starts_with_def)

text \<open>
  The ids a provider is asked for: at most two, without repetition, the IMDb one first; an
  IMDb candidate starts with \<open>tt\<close>, a TMDB one with \<open>tmdb:\<close>, each only when some stream entry
  of the addon takes that prefix (or, without stream entries, the manifest does), and a series
  request with season and episode carries them. An addon with a candidate can serve the
  media's ids as \<open>canServeMedia\<close> judges them.
\<close>


lemma id_candidates_served:
  assumes "c \<in> set (buildIdCandidates mf md)"
  shows "distinct (buildIdCandidates mf md) \<and> length (buildIdCandidates mf md) \<le> 2 \<and>
    list_all (\<lambda>x. starts_with x ''tmdb:'') (tl (buildIdCandidates mf md)) \<and>
    (starts_with c ''tt'' \<and> supportsPrefix mf ''tt'' \<or> starts_with c ''tmdb:'' \<and> supportsPrefix mf ''tmdb'') \<and>
    ends_with c (episode_suffix md) \<and>
    (type_served mf md \<longrightarrow> canServeMedia mf md StreamKind)"
proof -
  from assms [unfolded id_candidates_cases]
  show ?thesis
  proof (elim disjE conjE)
    assume a: "md_imdbId md \<noteq> []" "normalizeImdb (md_imdbId md) \<noteq> []" "supportsPrefix mf ''tt''"
      "c = normalizeImdb (md_imdbId md) @ episode_suffix md"
    obtain t where "normalizeImdb (md_imdbId md) = ''tt'' @ t"
      using normalizeImdb_tt [OF a(2)] by (auto simp: starts_with_iff)
    then show ?thesis
      using a id_candidates_order [of mf md] canServeMedia_if [of mf "''tt''" md]
      by (auto simp: starts_with_iff ends_with_iff)
  next
    assume a: "md_tmdbId md \<noteq> []" "supportsPrefix mf ''tmdb''" "c = ''tmdb:'' @ md_tmdbId md @ episode_suffix md"
    then show ?thesis
      using id_candidates_order [of mf md] canServeMedia_if [of mf "''tmdb''" md]
      by (auto simp: starts_with_iff ends_with_iff)
  qed
qed

definition sample_manifest :: manifest where
  "sample_manifest = \<lparr>mf_id = None, mf_version = None, mf_name = None, mf_types = Some (JArr [JStr ''movie'']),
     mf_resources = Some (JArr [JObj [(''name'', JStr ''stream''),
       (''types'', JArr [JStr ''series'']), (''idPrefixes'', JArr [JStr ''tt'', JStr ''tmdb:''])]]),
     mf_catalogs = None, mf_idPrefixes = None\<rparr>"

definition sample_episode :: media where
  "sample_episode = \<lparr>md_type = Tv, md_imdbId = ''123'', md_tmdbId = ''9'', md_season = Some 1, md_episode = Some 2\<rparr>"

lemma sample_candidates:
  "buildIdCandidates sample_manifest sample_episode = [''tt123:1:2'', ''tmdb:9:1:2'']"
  by code_simp

theorem id_candidates_served_witness:
  "canServeMedia sample_manifest sample_episode StreamKind \<and>
   buildIdCandidates sample_manifest sample_episode = [''tt123:1:2'', ''tmdb:9:1:2'']"
proof -
  have "type_served sample_manifest sample_episode" by code_simp
  then show ?thesis
    using id_candidates_served [of "''tt123:1:2''" sample_manifest sample_episode] sample_candidates by simp
qed

end
