(* ===== verification/StremioUrl.thy ===== *)
theory StremioUrl
  imports UrlPolicy Codec
begin

text \<open>
  Addon URLs, \<open>src/stremio/url.ts\<close>: identity of an addon up to spelling of its URL, and the
  URLs of its resources. The WHATWG parser and the serialiser of \<open>URLSearchParams\<close> are
  parameters; \<open>collate\<close> is the rank \<open>localeCompare\<close> gives a text.
\<close>

record full_url = parsed_url +
  fu_pathname :: string
  fu_search :: string
  fu_hash :: string
  fu_params :: "(string \<times> string) list"

record url_lib =
  ul_parse :: "string \<Rightarrow> full_url option"
  ul_query :: "(string \<times> string) list \<Rightarrow> string"
  ul_collate :: "string \<Rightarrow> int"

definition url_host :: "full_url \<Rightarrow> string" where
  "url_host u = pu_hostname u @ (if pu_port u = [] then [] else '':'' @ pu_port u)"

definition url_origin :: "full_url \<Rightarrow> string" where
  "url_origin u = pu_protocol u @ ''//'' @ url_host u"

text \<open>\<open>replace(/\/+$/, '')\<close>.\<close>

definition strip_slashes :: "string \<Rightarrow> string" where
  "strip_slashes s = rev (dropWhile (\<lambda>c. c = CHR ''/'') (rev s))"

definition has_http_scheme :: "string \<Rightarrow> bool" where
  "has_http_scheme s \<longleftrightarrow> starts_with (to_lower s) ''http://'' \<or> starts_with (to_lower s) ''https://''"

record addon_url =
  au_original :: string
  au_manifestUrl :: string
  au_baseUrl :: string
  au_origin :: string
  au_pathnameBase :: string
  au_search :: string
  au_fingerprint :: string

datatype addon_url_error = EmptyAddonUrl | InvalidAddonUrl string

definition path_base :: "string \<Rightarrow> string" where
  "path_base pathname =
     (let p = strip_slashes pathname;
          q = (if ends_with (to_lower p) ''/manifest.json'' then take (length p - 14) p else p)
      in if ends_with q ''/'' \<and> 1 < length q then take (length q - 1) q else q)"

definition raw_url :: "string \<Rightarrow> string" where
  "raw_url original =
     (let raw = (if starts_with original ''stremio://'' then ''https://'' @ drop 10 original else original)
      in if has_http_scheme raw then raw else ''https://'' @ raw)"

definition default_port :: "full_url \<Rightarrow> bool" where
  "default_port u \<longleftrightarrow> pu_protocol u = ''https:'' \<and> pu_port u = ''443'' \<or> pu_protocol u = ''http:'' \<and> pu_port u = ''80''"

definition url_fingerprint :: "url_lib \<Rightarrow> string \<Rightarrow> string" where
  "url_fingerprint L manifestUrl =
     (case ul_parse L manifestUrl of
        None \<Rightarrow> manifestUrl
      | Some fp \<Rightarrow>
          (let u = fp\<lparr>pu_hostname := to_lower (pu_hostname fp)\<rparr>;
               v = (if default_port u then u\<lparr>pu_port := []\<rparr> else u);
               query = ul_query L (sort_key (\<lambda>e. ul_collate L (fst e)) (fu_params v))
           in url_origin v @ fu_pathname v @ (if query = [] then [] else ''?'' @ query)))"

definition parseAddonUrl :: "url_lib \<Rightarrow> string \<Rightarrow> addon_url_error + addon_url" where
  "parseAddonUrl L input =
     (let original = trim input in
      if original = [] then Inl EmptyAddonUrl
      else case ul_parse L (raw_url original) of
        None \<Rightarrow> Inl (InvalidAddonUrl input)
      | Some u \<Rightarrow>
          (let base = path_base (fu_pathname u);
               origin = pu_protocol u @ ''//'' @ url_host u;
               manifestUrl = origin @ base @ ''/manifest.json'' @ fu_search u
           in Inr \<lparr>au_original = original, au_manifestUrl = manifestUrl,
                   au_baseUrl = origin @ base @ fu_search u, au_origin = origin,
                   au_pathnameBase = base, au_search = fu_search u,
                   au_fingerprint = url_fingerprint L manifestUrl\<rparr>))"

text \<open>\<open>new URL(baseUrl)\<close> throws on a base that does not parse: \<open>None\<close>.\<close>

definition buildResourceUrl :: "url_lib \<Rightarrow> string \<Rightarrow> string \<Rightarrow> string \<Rightarrow> string \<Rightarrow> string option" where
  "buildResourceUrl L baseUrl resource type i =
     map_option (\<lambda>base.
       url_origin base @ strip_slashes (fu_pathname base) @
       ''/'' @ encodeURIComponent resource @ ''/'' @ encodeURIComponent type @ ''/'' @
       encodeURIComponent i @ ''.json'' @ fu_search base)
     (ul_parse L baseUrl)"

definition splitBaseStructured :: "url_lib \<Rightarrow> string \<Rightarrow> string \<times> string" where
  "splitBaseStructured L baseUrl =
     (case ul_parse L baseUrl of
        Some u \<Rightarrow> (url_origin u @ strip_slashes (fu_pathname u), fu_search u)
      | None \<Rightarrow>
          (case find_index (\<lambda>c. c = CHR ''?'') baseUrl of
             None \<Rightarrow> (strip_slashes baseUrl, [])
           | Some q \<Rightarrow> (strip_slashes (take q baseUrl), drop q baseUrl)))"

definition sameAddonIdentity :: "url_lib \<Rightarrow> string \<Rightarrow> string \<Rightarrow> bool" where
  "sameAddonIdentity L a b =
     (case (parseAddonUrl L a, parseAddonUrl L b) of
        (Inr x, Inr y) \<Rightarrow> au_fingerprint x = au_fingerprint y
      | _ \<Rightarrow> trim a = trim b)"

subsection \<open>Identity\<close>

lemma strip_slashes_idem [simp]: "strip_slashes (strip_slashes s) = strip_slashes s"
proof -
  have "dropWhile P (dropWhile P xs) = dropWhile P xs" for P and xs :: string
    by (induction xs) auto
  then show ?thesis by (simp add: strip_slashes_def)
qed

lemma strip_slashes_append: "s \<noteq> [] \<Longrightarrow> last s \<noteq> CHR ''/'' \<Longrightarrow> strip_slashes (p @ s) = p @ s"
  by (cases s rule: rev_cases) (auto simp: strip_slashes_def)

lemma length_manifest: "length (''/manifest.json'' :: string) = 14"
  by simp

lemma to_lower_append [simp]: "to_lower (a @ b) = to_lower a @ to_lower b"
  by (simp add: to_lower_def)

lemma to_lower_idem [simp]: "to_lower (to_lower s) = to_lower s"
proof -
  have "lower_char (lower_char c) = lower_char c" for c
    by (simp add: lower_char_def Let_def of_char_of)
  then show ?thesis by (simp add: to_lower_def)
qed

lemma path_base_manifest:
  assumes "\<not> (ends_with p ''/'' \<and> 1 < length p)"
  shows "path_base (p @ ''/manifest.json'') = p"
proof -
  have 1: "strip_slashes (p @ ''/manifest.json'') = p @ ''/manifest.json''"
    by (rule strip_slashes_append) simp_all
  have "to_lower (p @ ''/manifest.json'') = to_lower p @ ''/manifest.json''"
    unfolding to_lower_append by (rule arg_cong [where f = "append (to_lower p)"]) code_simp
  then have 2: "ends_with (to_lower (p @ ''/manifest.json'')) ''/manifest.json''"
    by (simp add: ends_with_iff)
  have 3: "take (length (p @ ''/manifest.json'') - 14) (p @ ''/manifest.json'') = p"
    by simp
  show ?thesis
    unfolding path_base_def Let_def 1 if_P [OF 2] 3 using assms by (simp only: if_False)
qed

lemma raw_url_http: "has_http_scheme s \<Longrightarrow> raw_url s = s"
  by (auto simp: raw_url_def Let_def has_http_scheme_def starts_with_iff to_lower_def lower_char_def)

lemma http_scheme_origin:
  "p = ''http:'' \<or> p = ''https:'' \<Longrightarrow> has_http_scheme (p @ ''//'' @ t)"
  by (auto simp: has_http_scheme_def starts_with_def to_lower_def lower_char_def of_char_def)

text \<open>The fingerprint does not depend on the order of query parameters with distinct names.\<close>

lemma fingerprint_query_order:
  assumes "ul_parse L m1 = Some u" "ul_parse L m2 = Some (u\<lparr>fu_search := q, fu_params := ps\<rparr>)"
    and "mset (fu_params u) = mset ps" "inj_on (\<lambda>e. ul_collate L (fst e)) (set ps)"
  shows "url_fingerprint L m1 = url_fingerprint L m2"
proof -
  have "sort_key (\<lambda>e. ul_collate L (fst e)) (fu_params u) = sort_key (\<lambda>e. ul_collate L (fst e)) ps"
    using assms(3,4) by (metis sort_key_mset mset_eq_setD)
  then show ?thesis
    using assms(1,2) by (simp add: url_fingerprint_def Let_def url_origin_def url_host_def default_port_def)
qed

definition addon_url_of :: "url_lib \<Rightarrow> string \<Rightarrow> full_url \<Rightarrow> addon_url" where
  "addon_url_of L original u =
     \<lparr>au_original = original,
      au_manifestUrl = url_origin u @ path_base (fu_pathname u) @ ''/manifest.json'' @ fu_search u,
      au_baseUrl = url_origin u @ path_base (fu_pathname u) @ fu_search u, au_origin = url_origin u,
      au_pathnameBase = path_base (fu_pathname u), au_search = fu_search u,
      au_fingerprint = url_fingerprint L
        (url_origin u @ path_base (fu_pathname u) @ ''/manifest.json'' @ fu_search u)\<rparr>"

lemma parseAddonUrl_Inr:
  "parseAddonUrl L input = Inr x \<longleftrightarrow> trim input \<noteq> [] \<and>
     (\<exists>u. ul_parse L (raw_url (trim input)) = Some u \<and> x = addon_url_of L (trim input) u)"
  by (auto simp: parseAddonUrl_def addon_url_of_def Let_def url_origin_def split: option.split)

text \<open>
  An addon URL has one canonical form: under the parser's round trip on the composed manifest
  URL, reading that manifest URL back gives the same manifest and base URL and the same
  fingerprint, so a stored addon is recognised when its own manifest URL is imported again; and
  two spellings whose manifest URLs differ only in the order of distinctly named query
  parameters have the same identity.
\<close>

lemma addon_identity_canonical:
  assumes "parseAddonUrl L input = Inr x" "ul_parse L (raw_url (trim input)) = Some u"
    and "pu_protocol u = ''http:'' \<or> pu_protocol u = ''https:''"
    and "ul_parse L (au_manifestUrl x) = Some (u\<lparr>fu_pathname := au_pathnameBase x @ ''/manifest.json'',
           fu_hash := [], pu_username := [], pu_password := []\<rparr>)"
    and "\<not> (ends_with (au_pathnameBase x) ''/'' \<and> 1 < length (au_pathnameBase x))"
    and "trim (au_manifestUrl x) = au_manifestUrl x"
    and "parseAddonUrl L other = Inr y"
    and "ul_parse L (au_manifestUrl y) = Some (u\<lparr>fu_pathname := au_pathnameBase x @ ''/manifest.json'',
           fu_hash := [], pu_username := [], pu_password := [], fu_search := q, fu_params := ps\<rparr>)"
    and "mset (fu_params u) = mset ps" "inj_on (\<lambda>e. ul_collate L (fst e)) (set ps)"
  shows "parseAddonUrl L (au_manifestUrl x) = Inr (x\<lparr>au_original := au_manifestUrl x\<rparr>) \<and>
    sameAddonIdentity L input (au_manifestUrl x) \<and> sameAddonIdentity L input other"
proof -
  let ?m = "au_manifestUrl x"
  let ?v = "u\<lparr>fu_pathname := au_pathnameBase x @ ''/manifest.json'', fu_hash := [], pu_username := [],
              pu_password := []\<rparr>"
  have x: "x = addon_url_of L (trim input) u"
    using assms(1,2) by (simp add: parseAddonUrl_Inr)
  have m: "?m \<noteq> []" "has_http_scheme ?m"
    using http_scheme_origin [OF assms(3)] by (simp_all add: x addon_url_of_def url_origin_def)
  have v: "url_origin ?v = url_origin u" "fu_search ?v = fu_search u"
    by (simp_all add: url_origin_def url_host_def)
  have "path_base (fu_pathname ?v) = au_pathnameBase x"
    using path_base_manifest [OF assms(5)] by simp
  then have "addon_url_of L ?m ?v = x\<lparr>au_original := ?m\<rparr>"
    unfolding addon_url_of_def v by (simp add: x addon_url_of_def)
  then have 1: "parseAddonUrl L ?m = Inr (x\<lparr>au_original := ?m\<rparr>)"
    using m(1) assms(4) by (simp add: parseAddonUrl_Inr assms(6) raw_url_http [OF m(2)])
  have fp: "au_fingerprint x = url_fingerprint L ?m" "au_fingerprint y = url_fingerprint L (au_manifestUrl y)"
    using assms(7) by (auto simp: x parseAddonUrl_Inr addon_url_of_def)
  have "url_fingerprint L ?m = url_fingerprint L (au_manifestUrl y)"
    using assms(4,8,9,10) by (intro fingerprint_query_order [where u = ?v and q = q and ps = ps]) simp_all
  then show ?thesis
    using 1 assms(1,7) fp by (simp add: sameAddonIdentity_def)
qed

definition demo_url :: "string \<Rightarrow> string \<Rightarrow> (string \<times> string) list \<Rightarrow> full_url" where
  "demo_url path search ps = \<lparr>pu_protocol = ''https:'', pu_username = [], pu_password = [], pu_hostname = ''h'',
     pu_port = [], fu_pathname = path, fu_search = search, fu_hash = [], fu_params = ps\<rparr>"

definition demo_url_lib :: url_lib where
  "demo_url_lib = \<lparr>ul_parse = (\<lambda>s.
       if s = ''https://h/c?a=1&b=2'' then Some (demo_url ''/c'' ''?a=1&b=2'' [(''a'', ''1''), (''b'', ''2'')])
       else if s = ''https://h/c?b=2&a=1'' then Some (demo_url ''/c'' ''?b=2&a=1'' [(''b'', ''2''), (''a'', ''1'')])
       else if s = ''https://h/c/manifest.json?a=1&b=2''
       then Some (demo_url ''/c/manifest.json'' ''?a=1&b=2'' [(''a'', ''1''), (''b'', ''2'')])
       else if s = ''https://h/c/manifest.json?b=2&a=1''
       then Some (demo_url ''/c/manifest.json'' ''?b=2&a=1'' [(''b'', ''2''), (''a'', ''1'')])
       else None),
     ul_query = (\<lambda>ps. join_with ''&'' (map (\<lambda>(k, v). k @ ''='' @ v) ps)),
     ul_collate = (\<lambda>s. if s = ''a'' then 1 else 2)\<rparr>"

lemma demo_parse:
  "parseAddonUrl demo_url_lib ''stremio://h/c?a=1&b=2'' = Inr \<lparr>au_original = ''stremio://h/c?a=1&b=2'',
     au_manifestUrl = ''https://h/c/manifest.json?a=1&b=2'', au_baseUrl = ''https://h/c?a=1&b=2'',
     au_origin = ''https://h'', au_pathnameBase = ''/c'', au_search = ''?a=1&b=2'',
     au_fingerprint = ''https://h/c/manifest.json?a=1&b=2''\<rparr>"
  "parseAddonUrl demo_url_lib ''h/c?b=2&a=1'' = Inr \<lparr>au_original = ''h/c?b=2&a=1'',
     au_manifestUrl = ''https://h/c/manifest.json?b=2&a=1'', au_baseUrl = ''https://h/c?b=2&a=1'',
     au_origin = ''https://h'', au_pathnameBase = ''/c'', au_search = ''?b=2&a=1'',
     au_fingerprint = ''https://h/c/manifest.json?a=1&b=2''\<rparr>"
  by code_simp+

lemma demo_parse_raw:
  "ul_parse demo_url_lib (raw_url (trim ''stremio://h/c?a=1&b=2'')) =
     Some (demo_url ''/c'' ''?a=1&b=2'' [(''a'', ''1''), (''b'', ''2'')])"
  "ul_parse demo_url_lib ''https://h/c/manifest.json?a=1&b=2'' =
     Some (demo_url ''/c/manifest.json'' ''?a=1&b=2'' [(''a'', ''1''), (''b'', ''2'')])"
  "ul_parse demo_url_lib ''https://h/c/manifest.json?b=2&a=1'' =
     Some (demo_url ''/c/manifest.json'' ''?b=2&a=1'' [(''b'', ''2''), (''a'', ''1'')])"
  "trim ''https://h/c/manifest.json?a=1&b=2'' = ''https://h/c/manifest.json?a=1&b=2''"
  by code_simp+

theorem addon_identity_canonical_witness:
  "sameAddonIdentity demo_url_lib ''stremio://h/c?a=1&b=2'' ''h/c?b=2&a=1''"
  by (rule addon_identity_canonical [where q = "''?b=2&a=1''" and ps = "[(''b'', ''2''), (''a'', ''1'')]",
        OF demo_parse(1) demo_parse_raw(1) _ _ _ _ demo_parse(2), THEN conjunct2, THEN conjunct2])
    (simp_all add: demo_parse_raw, simp_all add: demo_url_def ends_with_def demo_url_lib_def)

end
