(* ===== verification/Secrets.thy ===== *)
theory Secrets
  imports Codec
begin

text \<open>
  Envelope encryption of settings and addon URLs at rest, \<open>src/security/secrets.ts\<close>. AES-256-GCM
  under the master key is a parameter (\<open>gcm\<close>): sealing gives a tag and the data, unsealing
  checks the tag. Random initialisation vectors are arguments.
\<close>

record gcm =
  gm_seal :: "string \<Rightarrow> string \<Rightarrow> string \<times> string"
  gm_unseal :: "string \<Rightarrow> string \<Rightarrow> string \<Rightarrow> string option"

text \<open>What the deciphering of node:crypto documents: it returns what was enciphered.\<close>

definition gcm_law :: "gcm \<Rightarrow> bool" where
  "gcm_law c \<longleftrightarrow> (\<forall>iv p. gm_unseal c iv (fst (gm_seal c iv p)) (snd (gm_seal c iv p)) = Some p)"

definition PREFIX :: string where
  "PREFIX = ''enc:v1:''"

datatype secrets_error = BadParts | DecryptFailed

definition isSealed :: "string \<Rightarrow> bool" where
  "isSealed s = starts_with s PREFIX"

definition seal :: "gcm \<Rightarrow> string \<Rightarrow> string \<Rightarrow> string" where
  "seal c iv plain =
     (if plain = [] then []
      else if starts_with plain PREFIX then plain
      else let (tag, enc) = gm_seal c iv plain
           in PREFIX @ b64url_encode iv @ '':'' @ b64url_encode tag @ '':'' @ b64url_encode enc)"

definition open_sealed :: "gcm \<Rightarrow> string \<Rightarrow> secrets_error + string" where
  "open_sealed c stored =
     (if stored = [] then Inr []
      else if \<not> starts_with stored PREFIX then Inr stored
      else case split_on CHR '':'' (drop (length PREFIX) stored) of
        [iv, tag, dat] \<Rightarrow>
          (case gm_unseal c (b64url_decode iv) (b64url_decode tag) (b64url_decode dat) of
             None \<Rightarrow> Inl DecryptFailed
           | Some plain \<Rightarrow> Inr plain)
      | _ \<Rightarrow> Inl BadParts)"

text \<open>A box under one key; \<open>draw\<close> gives the random bytes drawn when a text is sealed.\<close>

record secret_box =
  sb_seal :: "string \<Rightarrow> string"
  sb_open :: "string \<Rightarrow> secrets_error + string"

definition createSecretBox :: "gcm \<Rightarrow> (string \<Rightarrow> string) \<Rightarrow> secret_box" where
  "createSecretBox c draw = \<lparr>sb_seal = (\<lambda>p. seal c (draw p) p), sb_open = open_sealed c\<rparr>"

lemma sealed_parts:
  "split_on CHR '':'' (b64url_encode a @ CHR '':'' # b64url_encode b @ CHR '':'' # b64url_encode c) =
     [b64url_encode a, b64url_encode b, b64url_encode c]"
  using b64url_no_sep by (simp add: split_on_append split_on_none)

lemma isSealed_seal: "isSealed (seal c iv p) \<longleftrightarrow> p \<noteq> []"
  by (auto simp: isSealed_def seal_def PREFIX_def starts_with_def split: prod.split)

lemma seal_idem: "seal c iv' (seal c iv p) = seal c iv p"
  using isSealed_seal [of c iv p]
  by (cases "p = []") (simp_all add: isSealed_def seal_def [of c iv'], simp add: seal_def)

lemma open_plain: "\<not> isSealed s \<Longrightarrow> open_sealed c s = Inr s"
  by (simp add: open_sealed_def isSealed_def)

lemma open_seal:
  assumes "gcm_law c" "\<not> isSealed p"
  shows "open_sealed c (seal c iv p) = Inr p"
proof (cases "p = []")
  case True
  then show ?thesis by (simp add: seal_def open_sealed_def)
next
  case False
  obtain tag enc where t: "gm_seal c iv p = (tag, enc)" by (cases "gm_seal c iv p")
  then have "gm_unseal c iv tag enc = Some p"
    using assms(1) unfolding gcm_law_def by (metis fst_conv snd_conv)
  then show ?thesis
    using False assms(2) t
    by (simp add: seal_def isSealed_def open_sealed_def sealed_parts b64url_roundtrip PREFIX_def starts_with_def)
qed

text \<open>
  Secrets at rest: what \<open>seal\<close> stores opens to the secret again, and is marked as sealed; sealing
  twice is sealing once; a legacy plain text opens to itself; and an envelope with other than
  three parts is refused as corrupt.
\<close>

lemma secret_roundtrip:
  assumes "gcm_law c" "\<not> isSealed p" "p \<noteq> []" "length (split_on CHR '':'' t) \<noteq> 3"
  shows "open_sealed c (seal c iv p) = Inr p \<and> isSealed (seal c iv p) \<and>
    seal c iv' (seal c iv p) = seal c iv p \<and> open_sealed c p = Inr p \<and>
    open_sealed c (PREFIX @ t) = Inl BadParts"
proof -
  have "open_sealed c (PREFIX @ t) = Inl BadParts"
    using assms(4) by (auto simp: open_sealed_def PREFIX_def starts_with_def split: list.split)
  then show ?thesis
    using assms by (simp add: open_seal isSealed_seal seal_idem open_plain)
qed

definition plain_gcm :: gcm where
  "plain_gcm = \<lparr>gm_seal = (\<lambda>iv p. (iv, rev p)),
     gm_unseal = (\<lambda>iv tag d. if tag = iv then Some (rev d) else None)\<rparr>"

theorem secret_roundtrip_witness:
  "open_sealed plain_gcm (seal plain_gcm ''iv'' ''key'') = Inr ''key'' \<and>
   open_sealed plain_gcm (PREFIX @ ''a:b'') = Inl BadParts"
  using secret_roundtrip [of plain_gcm "''key''" "''a:b''" "''iv''" "''x''"]
  by (simp add: gcm_law_def plain_gcm_def isSealed_def PREFIX_def starts_with_def)

end
