(* ===== verification/Addons.thy ===== *)
theory Addons
  imports Capabilities Secrets "HOL-Library.Product_Lexorder"
begin

text \<open>
  Installed addons (\<open>src/addons/types.ts\<close>), their priority (\<open>src/priority.ts\<close>), the import
  policy of the marketplace (\<open>src/addons/marketplace.ts\<close>) and the views of the addon list
  that \<open>src/addons/manager.ts\<close> offers. A manifest is kept as the JSON document it was parsed
  from; \<open>collate\<close> is the rank \<open>localeCompare\<close> gives a name.
\<close>

subsection \<open>Records\<close>

datatype admission_state = Pending | Validated | Disabled | Quarantined | Rejected

datatype finding_code =
    MissingStreamResource | UnsupportedTypes | RiskyUrl | DuplicateEndpoint | SecretBearingUrl
  | InvalidManifest | OversizedResponse | PolicyViolation | FingerprintDrift | HttpUpstream | Ok

datatype severity = Info | Warning | Err

record finding =
  fd_code :: finding_code
  fd_message :: string
  fd_severity :: severity

datatype check_type = ManifestCheck | StreamProbe | SubtitleProbe

text \<open>A time that is no valid date reads as \<open>None\<close>.\<close>

record addon_health =
  hl_healthy :: bool
  hl_lastChecked :: "time_ms option"
  hl_checkType :: check_type
  hl_consecutiveSuccesses :: int
  hl_consecutiveFailures :: int
  hl_latencyMs :: int
  hl_failureClassification :: string
  hl_freshnessWindowMs :: int
  hl_isFresh :: bool
  hl_circuitState :: "string option"
  hl_error :: "string option"

datatype addon_source = FromUrl | StremioAccount | Repository | Seed | Manual

record installed_addon =
  ia_providerId :: string
  ia_slug :: string
  ia_name :: string
  ia_originalImportUrl :: "string option"
  ia_manifestUrl :: string
  ia_baseUrl :: string
  ia_enabled :: bool
  ia_admissionState :: "admission_state option"
  ia_validationFindings :: "finding list"
  ia_order :: int
  ia_timeoutMs :: int
  ia_source :: addon_source
  ia_manifest :: json
  ia_addedAt :: time_ms
  ia_updatedAt :: time_ms
  ia_health :: "addon_health option"
  ia_capabilities :: "capabilities option"
  ia_manifestFingerprint :: "string option"

record debrid_settings =
  ds_provider :: string
  ds_apiKey :: string

definition defaultSettings :: debrid_settings where
  "defaultSettings = \<lparr>ds_provider = ''none'', ds_apiKey = []\<rparr>"

record store_data =
  sd_addons :: "installed_addon list"
  sd_settings :: "debrid_settings option"
  sd_revision :: int

definition emptyStoreData :: store_data where
  "emptyStoreData = \<lparr>sd_addons = [], sd_settings = Some defaultSettings, sd_revision = 0\<rparr>"

text \<open>The fields of a parsed manifest, and its capabilities.\<close>

definition manifest_view :: "json \<Rightarrow> manifest" where
  "manifest_view j =
     \<lparr>mf_id = jfield j ''id'', mf_version = jfield j ''version'', mf_name = jfield j ''name'',
      mf_types = jfield j ''types'', mf_resources = jfield j ''resources'',
      mf_catalogs = jfield j ''catalogs'', mf_idPrefixes = jfield j ''idPrefixes''\<rparr>"

definition capabilitiesFor :: "json \<Rightarrow> capabilities" where
  "capabilitiesFor j = deriveCapabilities (manifest_view j)"

subsection \<open>Priority\<close>

definition DEFAULT_ADDON_TIMEOUT_MS :: int where
  "DEFAULT_ADDON_TIMEOUT_MS = 20000"

definition addon_rank :: "(string \<Rightarrow> int) \<Rightarrow> installed_addon \<Rightarrow> int \<times> int" where
  "addon_rank collate a = (ia_order a, collate (ia_name a))"

text \<open>Negative, zero or positive, as the comparison function of \<open>sort\<close>.\<close>

definition compareAddons :: "(string \<Rightarrow> int) \<Rightarrow> installed_addon \<Rightarrow> installed_addon \<Rightarrow> int" where
  "compareAddons collate a b =
     (if ia_order a \<noteq> ia_order b then ia_order a - ia_order b
      else sgn (collate (ia_name a) - collate (ia_name b)))"

lemma compareAddons_rank: "compareAddons collate a b \<le> 0 \<longleftrightarrow> addon_rank collate a \<le> addon_rank collate b"
  by (auto simp: compareAddons_def addon_rank_def less_eq_prod_def sgn_if)

text \<open>\<open>sort\<close> is stable.\<close>

definition sortAddons :: "(string \<Rightarrow> int) \<Rightarrow> installed_addon list \<Rightarrow> installed_addon list" where
  "sortAddons collate addons = sort_key (addon_rank collate) addons"

definition priorityIndexMap :: "(string \<Rightarrow> int) \<Rightarrow> installed_addon list \<Rightarrow> (string, nat) jsmap" where
  "priorityIndexMap collate addons =
     fold (\<lambda>(i, a). jm_set (ia_providerId a) i)
       (zip [0..<length addons] (sortAddons collate addons)) []"

lemma set_sortAddons [simp]: "set (sortAddons collate l) = set l"
  by (simp add: sortAddons_def)

lemma length_sortAddons [simp]: "length (sortAddons collate l) = length l"
  by (simp add: sortAddons_def)

lemma mset_sortAddons [simp]: "mset (sortAddons collate l) = mset l"
  by (simp add: sortAddons_def)

lemma sorted_sortAddons: "sorted_wrt (\<lambda>a b. compareAddons collate a b \<le> 0) (sortAddons collate l)"
  using sorted_sort_key [of "addon_rank collate" l]
  by (simp add: sortAddons_def compareAddons_rank sorted_wrt_map)

lemma filter_sortAddons: "filter P (sortAddons collate l) = sortAddons collate (filter P l)"
  by (simp add: sortAddons_def filter_sort)

lemma sortAddons_idem [simp]: "sortAddons collate (sortAddons collate l) = sortAddons collate l"
  by (simp add: sortAddons_def sorted_sort_id sort_key_id_if_sorted)

subsection \<open>Marketplace policy\<close>

datatype trust_level = Trusted | Known | Unknown | Blocked

record market_policy =
  mp_trustedIds :: "string list"
  mp_trustedFingerprints :: "string list"
  mp_blockedIds :: "string list"
  mp_blockedFingerprints :: "string list"
  mp_minTrustForEnable :: trust_level
  mp_enforceDenylist :: bool

datatype matched_by = ByFingerprint | ById

record classification =
  cl_level :: trust_level
  cl_reason :: string
  cl_fingerprint :: string
  cl_matchedBy :: "matched_by option"

lemma size_field: "(k, v) \<in> set fs \<Longrightarrow> size v \<le> size_list (size_prod (\<lambda>_. 0) size) fs" for v :: json
  by (induction fs) auto

text \<open>
  \<open>canonicalJson\<close>: objects with their fields sorted by name. \<open>leaf\<close> is \<open>JSON.stringify\<close> on what
  is neither array nor object.
\<close>

function (sequential) canonicalJson :: "(string \<Rightarrow> int) \<Rightarrow> (json \<Rightarrow> string) \<Rightarrow> json \<Rightarrow> string" where
  "canonicalJson collate leaf (JArr xs) =
     ''['' @ join_with '','' (map (canonicalJson collate leaf) xs) @ '']''"
| "canonicalJson collate leaf (JObj fs) =
     ''{'' @ join_with '','' (map (\<lambda>(k, v). leaf (JStr k) @ '':'' @ canonicalJson collate leaf v)
       (sort_key (\<lambda>(k, v). collate k) fs)) @ ''}''"
| "canonicalJson collate leaf x = leaf x"
  by pat_completeness auto

termination
proof (relation "measure (\<lambda>(c, l, j). size j)", goal_cases)
  case (2 collate leaf xs x)
  then show ?case using size_list_estimation' [of x xs "size x" size] by simp
next
  case (3 collate leaf fs x k v)
  then show ?case using size_field [of k v fs] by simp
qed simp

text \<open>\<open>hash\<close> is SHA-256 in hexadecimal.\<close>

definition manifestFingerprint ::
  "(string \<Rightarrow> string) \<Rightarrow> (string \<Rightarrow> int) \<Rightarrow> (json \<Rightarrow> string) \<Rightarrow> json \<Rightarrow> string" where
  "manifestFingerprint hash collate leaf mf = hash (canonicalJson collate leaf mf)"

definition id_text :: "(rat \<Rightarrow> string) \<Rightarrow> json \<Rightarrow> string" where
  "id_text num mf =
     to_lower (case jfield mf ''id'' of None \<Rightarrow> [] | Some JNull \<Rightarrow> [] | Some x \<Rightarrow> js_string num x)"

text \<open>\<open>fp\<close> is the manifest's fingerprint and \<open>i\<close> its id as text.\<close>

definition classifyManifest :: "string \<Rightarrow> string \<Rightarrow> market_policy \<Rightarrow> classification" where
  "classifyManifest fp i policy =
     (if fp \<in> set (mp_blockedFingerprints policy)
      then \<lparr>cl_level = Blocked, cl_reason = ''Manifest fingerprint is on the operator denylist'',
            cl_fingerprint = fp, cl_matchedBy = Some ByFingerprint\<rparr>
      else if i \<noteq> [] \<and> i \<in> set (map to_lower (mp_blockedIds policy))
      then \<lparr>cl_level = Blocked,
            cl_reason = ''Manifest id '' @ [CHR 0x22] @ i @ [CHR 0x22] @ '' is on the operator denylist'',
            cl_fingerprint = fp, cl_matchedBy = Some ById\<rparr>
      else if fp \<in> set (mp_trustedFingerprints policy)
      then \<lparr>cl_level = Trusted, cl_reason = ''Manifest fingerprint is verified on the operator allowlist'',
            cl_fingerprint = fp, cl_matchedBy = Some ByFingerprint\<rparr>
      else if i \<noteq> [] \<and> i \<in> set (map to_lower (mp_trustedIds policy))
      then \<lparr>cl_level = Known,
            cl_reason = ''Manifest id '' @ [CHR 0x22] @ i @ [CHR 0x22] @ '' is on the operator allowlist'',
            cl_fingerprint = fp, cl_matchedBy = Some ById\<rparr>
      else \<lparr>cl_level = Unknown, cl_reason = ''Manifest is not on any operator list'',
            cl_fingerprint = fp, cl_matchedBy = None\<rparr>)"

fun TRUST_ORDER :: "trust_level \<Rightarrow> nat" where
  "TRUST_ORDER Blocked = 0"
| "TRUST_ORDER Unknown = 1"
| "TRUST_ORDER Known = 2"
| "TRUST_ORDER Trusted = 3"

record policy_decision =
  pd_allowed :: bool
  pd_trustLevel :: trust_level
  pd_reason :: string
  pd_fingerprint :: string
  pd_mayAutoEnable :: bool
  pd_matchedBy :: "matched_by option"
  pd_finding :: "finding option"

definition evaluateImportPolicy :: "string \<Rightarrow> string \<Rightarrow> market_policy \<Rightarrow> policy_decision" where
  "evaluateImportPolicy fp i policy =
     (let c = classifyManifest fp i policy in
      if cl_level c = Blocked \<and> mp_enforceDenylist policy
      then \<lparr>pd_allowed = False, pd_trustLevel = cl_level c, pd_reason = cl_reason c,
            pd_fingerprint = cl_fingerprint c, pd_mayAutoEnable = False, pd_matchedBy = cl_matchedBy c,
            pd_finding = Some \<lparr>fd_code = PolicyViolation, fd_message = cl_reason c, fd_severity = Err\<rparr>\<rparr>
      else \<lparr>pd_allowed = True, pd_trustLevel = cl_level c, pd_reason = cl_reason c,
            pd_fingerprint = cl_fingerprint c,
            pd_mayAutoEnable = TRUST_ORDER (mp_minTrustForEnable policy) \<le> TRUST_ORDER (cl_level c),
            pd_matchedBy = cl_matchedBy c, pd_finding = None\<rparr>)"

subsection \<open>Views of the list\<close>

definition stream_enabled :: "installed_addon \<Rightarrow> bool" where
  "stream_enabled a \<longleftrightarrow> ia_enabled a \<and> (case ia_capabilities a of None \<Rightarrow> False | Some c \<Rightarrow> isStreamCapable c)"

definition getStreamEnabled :: "(string \<Rightarrow> int) \<Rightarrow> store_data \<Rightarrow> installed_addon list" where
  "getStreamEnabled collate d = filter stream_enabled (sortAddons collate (sd_addons d))"

definition getSubtitleEnabled :: "(string \<Rightarrow> int) \<Rightarrow> store_data \<Rightarrow> installed_addon list" where
  "getSubtitleEnabled collate d =
     filter (\<lambda>a. ia_enabled a \<and> (case ia_capabilities a of None \<Rightarrow> False | Some c \<Rightarrow> isSubtitleCapable c))
       (sortAddons collate (sd_addons d))"

definition getEnabled :: "(string \<Rightarrow> int) \<Rightarrow> store_data \<Rightarrow> installed_addon list" where
  "getEnabled collate d = filter ia_enabled (sortAddons collate (sd_addons d))"

definition list_addons :: "(string \<Rightarrow> int) \<Rightarrow> store_data \<Rightarrow> installed_addon list" where
  "list_addons collate d = sortAddons collate (sd_addons d)"

definition get_addon :: "string \<Rightarrow> store_data \<Rightarrow> installed_addon option" where
  "get_addon pid d = find (\<lambda>a. ia_providerId a = pid) (sd_addons d)"

definition getTimeoutMs :: "string \<Rightarrow> store_data \<Rightarrow> int" where
  "getTimeoutMs pid d = or_else (map_option ia_timeoutMs (get_addon pid d)) DEFAULT_ADDON_TIMEOUT_MS"

definition orderedEnabledProviderIds :: "(string \<Rightarrow> int) \<Rightarrow> store_data \<Rightarrow> string list" where
  "orderedEnabledProviderIds collate d = map ia_providerId (filter stream_enabled (sortAddons collate (sd_addons d)))"

lemma getStreamEnabled_sorted [simp]: "sortAddons collate (getStreamEnabled collate d) = getStreamEnabled collate d"
  by (simp add: getStreamEnabled_def filter_sortAddons)

subsection \<open>The trust gate\<close>

text \<open>
  The import policy: a manifest is refused exactly when it is on a denylist and the denylist is
  enforced, with an error finding; a denylist entry wins over every allowlist entry; and an
  import may be enabled on its own only with at least the configured trust, so an unlisted
  manifest is never auto-enabled unless the policy asks for no more than unknown trust.
\<close>

lemma import_policy_fails_closed:
  "pd_allowed (evaluateImportPolicy fp i p) =
     (\<not> (mp_enforceDenylist p \<and> (fp \<in> set (mp_blockedFingerprints p) \<or>
           i \<noteq> [] \<and> i \<in> to_lower ` set (mp_blockedIds p)))) \<and>
   (pd_finding (evaluateImportPolicy fp i p) = None) = pd_allowed (evaluateImportPolicy fp i p) \<and>
   \<not> (pd_mayAutoEnable (evaluateImportPolicy fp i p) \<and> \<not> pd_allowed (evaluateImportPolicy fp i p)) \<and>
   pd_mayAutoEnable (evaluateImportPolicy fp i p) =
     (pd_allowed (evaluateImportPolicy fp i p) \<and>
      TRUST_ORDER (mp_minTrustForEnable p) \<le>
        (if fp \<in> set (mp_blockedFingerprints p) \<or> i \<noteq> [] \<and> i \<in> to_lower ` set (mp_blockedIds p) then 0
         else if fp \<in> set (mp_trustedFingerprints p) then 3
         else if i \<noteq> [] \<and> i \<in> to_lower ` set (mp_trustedIds p) then 2 else 1))"
  by (auto simp: evaluateImportPolicy_def classifyManifest_def Let_def)

end
