(* ===== verification/Selection.thy ===== *)
theory Selection
  imports Addons Reliability Capacity
begin

text \<open>
  Provider selection, \<open>src/providers/selection.ts\<close>: which installed addons a stream request
  asks, in which order, and the two bulk modes over them. Asking the reliability registry for a
  circuit or a quarantine may age its records, so the registry is threaded through the
  filters. A selection is synchronous and reads one clock value; the fetcher of the bulk modes
  is its outcome per addon, and \<open>aborted i\<close> tells whether the signal is set when the loop stands
  at index \<open>i\<close>.
\<close>

subsection \<open>Filters that change state\<close>

fun filter_state :: "('a \<Rightarrow> 's \<Rightarrow> bool \<times> 's) \<Rightarrow> 'a list \<Rightarrow> 's \<Rightarrow> 'a list \<times> 's" where
  "filter_state f [] s = ([], s)"
| "filter_state f (x # xs) s =
     (let (keep, s1) = f x s; (ys, s2) = filter_state f xs s1
      in (if keep then x # ys else ys, s2))"

lemma filter_state_inv:
  assumes "Q s" "\<And>x s. Q s \<Longrightarrow> Q (snd (f x s))" "\<And>x s. Q s \<Longrightarrow> fst (f x s) = P x"
  shows "fst (filter_state f xs s) = filter P xs \<and> Q (snd (filter_state f xs s))"
  using assms(1)
proof (induction xs arbitrary: s)
  case (Cons x xs)
  then show ?case
    using Cons.IH [of "snd (f x s)"] assms(2,3) by (simp add: Let_def split_beta)
qed simp

subsection \<open>Selection\<close>

record selection_options =
  so_allowedIds :: "string set option"
  so_includeCircuitOpen :: bool
  so_includeUnhealthy :: bool
  so_includeQuarantined :: bool

definition no_options :: selection_options where
  "no_options = \<lparr>so_allowedIds = None, so_includeCircuitOpen = False, so_includeUnhealthy = False,
                 so_includeQuarantined = False\<rparr>"

definition keep_if :: "bool \<Rightarrow> ('a \<Rightarrow> 's \<Rightarrow> bool \<times> 's) \<Rightarrow> 'a list \<Rightarrow> 's \<Rightarrow> 'a list \<times> 's" where
  "keep_if b f xs s = (if b then filter_state f xs s else (xs, s))"

definition ask_quarantine ::
  "time_ms \<Rightarrow> installed_addon \<Rightarrow> registry option \<Rightarrow> bool \<times> registry option" where
  "ask_quarantine now a rel =
     (case rel of None \<Rightarrow> (True, None)
      | Some r \<Rightarrow> (\<not> fst (isQuarantined (ia_providerId a) now r), Some (snd (isQuarantined (ia_providerId a) now r))))"

definition ask_circuit ::
  "time_ms \<Rightarrow> installed_addon \<Rightarrow> registry option \<Rightarrow> bool \<times> registry option" where
  "ask_circuit now a rel =
     (case rel of None \<Rightarrow> (True, None)
      | Some r \<Rightarrow> (fst (getState (ia_providerId a) now r) \<noteq> Open, Some (snd (getState (ia_providerId a) now r))))"

text \<open>An unhealthy verdict older than thirty minutes is retried.\<close>

definition health_ok :: "time_ms \<Rightarrow> installed_addon \<Rightarrow> bool" where
  "health_ok now a \<longleftrightarrow>
     (case ia_health a of
        None \<Rightarrow> True
      | Some h \<Rightarrow> hl_healthy h \<or> (case hl_lastChecked h of None \<Rightarrow> False | Some t \<Rightarrow> now - t > 30 * 60 * 1000))"

definition type_ok :: "media \<Rightarrow> installed_addon \<Rightarrow> bool" where
  "type_ok md a \<longleftrightarrow>
     (case ia_capabilities a of
        None \<Rightarrow> True
      | Some c \<Rightarrow>
          (let types = concat (map ce_mediaTypes (cp_stream c)) in
           case md_type md of
             Tv \<Rightarrow> KSeries \<in> set types \<or> KTv \<in> set types
           | Movie \<Rightarrow> KMovie \<in> set types))"

definition ids_ok :: "media \<Rightarrow> installed_addon \<Rightarrow> bool" where
  "ids_ok md a \<longleftrightarrow> buildIdCandidates (manifest_view (ia_manifest a)) md \<noteq> []"

definition selectStreamProviders ::
  "(string \<Rightarrow> int) \<Rightarrow> time_ms \<Rightarrow> budget_registry option \<Rightarrow> store_data \<Rightarrow> media \<Rightarrow> selection_options \<Rightarrow>
     registry option \<Rightarrow> installed_addon list \<times> registry option" where
  "selectStreamProviders collate now budgets d md opts rel =
     (let c0 = getStreamEnabled collate d;
          c1 = (case so_allowedIds opts of None \<Rightarrow> c0 | Some ids \<Rightarrow> filter (\<lambda>a. ia_providerId a \<in> ids) c0);
          (c2, rel2) = keep_if (\<not> so_includeQuarantined opts) (ask_quarantine now) c1 rel;
          c3 = (if so_includeQuarantined opts then c2
                else case budgets of None \<Rightarrow> c2
                     | Some b \<Rightarrow> filter (\<lambda>a. \<not> isExhausted (ia_providerId a) now b) c2);
          (c4, rel4) = keep_if (\<not> so_includeCircuitOpen opts) (ask_circuit now) c3 rel2;
          c5 = (if so_includeUnhealthy opts then c4 else filter (health_ok now) c4);
          c6 = filter (type_ok md) c5;
          c7 = filter (ids_ok md) c6
      in (sortAddons collate c7, rel4))"

definition rankStreamProviders ::
  "(string \<Rightarrow> int) \<Rightarrow> time_ms \<Rightarrow> budget_registry option \<Rightarrow> store_data \<Rightarrow> media \<Rightarrow> selection_options \<Rightarrow>
     registry option \<Rightarrow> (installed_addon \<times> nat) list \<times> registry option" where
  "rankStreamProviders collate now budgets d md opts rel =
     (let (ordered, rel1) = selectStreamProviders collate now budgets d md opts rel
      in (zip ordered [0..<length ordered], rel1))"

definition selectSubtitleProviders :: "(string \<Rightarrow> int) \<Rightarrow> store_data \<Rightarrow> installed_addon list" where
  "selectSubtitleProviders collate d = getSubtitleEnabled collate d"

fun with_states ::
  "time_ms \<Rightarrow> nat \<Rightarrow> installed_addon list \<Rightarrow> registry option \<Rightarrow>
     (installed_addon \<times> nat \<times> capabilities option \<times> circuit_state option) list \<times> registry option" where
  "with_states now i [] rel = ([], rel)"
| "with_states now i (a # as') rel =
     (let (st, rel1) = (case rel of None \<Rightarrow> (None, None)
            | Some r \<Rightarrow> (Some (fst (getState (ia_providerId a) now r)), Some (snd (getState (ia_providerId a) now r))));
          (rest, rel2) = with_states now (Suc i) as' rel1
      in ((a, i, ia_capabilities a, st) # rest, rel2))"

definition listStreamProvidersWithMeta ::
  "(string \<Rightarrow> int) \<Rightarrow> time_ms \<Rightarrow> store_data \<Rightarrow> registry option \<Rightarrow>
     (installed_addon \<times> nat \<times> capabilities option \<times> circuit_state option) list \<times> registry option" where
  "listStreamProvidersWithMeta collate now d rel =
     with_states now 0 (sortAddons collate (getStreamEnabled collate d)) rel"

subsection \<open>Bulk modes\<close>

text \<open>The fetcher's outcome: \<open>Inl\<close> the message of what it throws.\<close>

type_synonym 'r fetcher = "installed_addon \<Rightarrow> string + 'r"

record 'r fetched =
  ft_addon :: installed_addon
  ft_result :: "'r option"
  ft_error :: "string option"

definition settle :: "'r fetcher \<Rightarrow> installed_addon \<Rightarrow> 'r fetched" where
  "settle fetcher a =
     (case fetcher a of
        Inr r \<Rightarrow> \<lparr>ft_addon = a, ft_result = Some r, ft_error = None\<rparr>
      | Inl e \<Rightarrow> \<lparr>ft_addon = a, ft_result = None, ft_error = Some e\<rparr>)"

text \<open>
  The loop over batches of \<open>c\<close> providers. With a concurrency of zero its index never moves: not
  returning is \<open>None\<close>.
\<close>

partial_function (option) aggregate_loop ::
  "nat \<Rightarrow> (nat \<Rightarrow> bool) \<Rightarrow> 'r fetcher \<Rightarrow> installed_addon list \<Rightarrow> nat \<Rightarrow> 'r fetched list \<Rightarrow> 'r fetched list option" where
  "aggregate_loop c aborted fetcher ps i results =
     (if i < length ps \<and> \<not> aborted i
      then aggregate_loop c aborted fetcher ps (i + c) (results @ map (settle fetcher) (take c (drop i ps)))
      else Some results)"

definition fetchAggregate ::
  "(string \<Rightarrow> int) \<Rightarrow> time_ms \<Rightarrow> budget_registry option \<Rightarrow> store_data \<Rightarrow> media \<Rightarrow> 'r fetcher \<Rightarrow> nat option \<Rightarrow>
     (nat \<Rightarrow> bool) \<Rightarrow> registry option \<Rightarrow> 'r fetched list option \<times> registry option" where
  "fetchAggregate collate now budgets d md fetcher concurrency aborted rel =
     (let (ps, rel1) = selectStreamProviders collate now budgets d md no_options rel
      in (map_option (\<lambda>results.
            let rank = fold (\<lambda>r. jm_set (ia_providerId (ft_addon r)) r) results []
            in List.map_filter (\<lambda>p. jm_get rank (ia_providerId p)) ps)
          (aggregate_loop (or_else concurrency 4) aborted fetcher ps 0 []), rel1))"

text \<open>\<open>sources\<close> is the number of sources in a result.\<close>

definition batch_total :: "('r \<Rightarrow> nat) \<Rightarrow> 'r fetched list \<Rightarrow> nat" where
  "batch_total sources rs = sum_list (map (\<lambda>r. case ft_result r of None \<Rightarrow> 0 | Some x \<Rightarrow> sources x) rs)"

partial_function (option) fast_loop ::
  "nat \<Rightarrow> nat \<Rightarrow> (nat \<Rightarrow> bool) \<Rightarrow> ('r \<Rightarrow> nat) \<Rightarrow> 'r fetcher \<Rightarrow> installed_addon list \<Rightarrow> nat \<Rightarrow> nat \<Rightarrow>
     'r fetched list \<Rightarrow> 'r fetched list option" where
  "fast_loop target c aborted sources fetcher ps i found collected =
     (if i < length ps \<and> \<not> aborted i \<and> \<not> target \<le> found
      then (let batch = map (settle fetcher) (take c (drop i ps));
                found1 = found + batch_total sources batch
            in if target \<le> found1 then Some (collected @ batch)
               else fast_loop target c aborted sources fetcher ps (i + c) found1 (collected @ batch))
      else Some collected)"

definition fetchFastFirst ::
  "(string \<Rightarrow> int) \<Rightarrow> time_ms \<Rightarrow> budget_registry option \<Rightarrow> store_data \<Rightarrow> media \<Rightarrow> 'r fetcher \<Rightarrow> ('r \<Rightarrow> nat) \<Rightarrow>
     nat option \<Rightarrow> nat option \<Rightarrow> (nat \<Rightarrow> bool) \<Rightarrow> registry option \<Rightarrow>
     (installed_addon \<times> 'r option) list option \<times> registry option" where
  "fetchFastFirst collate now budgets d md fetcher sources targetCount concurrency aborted rel =
     (let (ps, rel1) = selectStreamProviders collate now budgets d md no_options rel
      in (map_option (map (\<lambda>r. (ft_addon r, ft_result r)))
            (fast_loop (or_else targetCount 3) (or_else concurrency 2) aborted sources fetcher ps 0 0 []), rel1))"

subsection \<open>What is selected\<close>

text \<open>Whether the registry, as it stands, keeps a provider out.\<close>

definition quarantined_at :: "time_ms \<Rightarrow> registry option \<Rightarrow> string \<Rightarrow> bool" where
  "quarantined_at now rel p \<longleftrightarrow> (case rel of None \<Rightarrow> False | Some r \<Rightarrow> fst (isQuarantined p now r))"

definition open_at :: "time_ms \<Rightarrow> registry option \<Rightarrow> string \<Rightarrow> bool" where
  "open_at now rel p \<longleftrightarrow> (case rel of None \<Rightarrow> False | Some r \<Rightarrow> fst (getState p now r) = Open)"

definition eligible ::
  "time_ms \<Rightarrow> budget_registry option \<Rightarrow> media \<Rightarrow> selection_options \<Rightarrow> registry option \<Rightarrow> installed_addon \<Rightarrow> bool" where
  "eligible now budgets md opts rel a \<longleftrightarrow>
     stream_enabled a \<and>
     (case so_allowedIds opts of None \<Rightarrow> True | Some ids \<Rightarrow> ia_providerId a \<in> ids) \<and>
     (so_includeQuarantined opts \<or>
        \<not> quarantined_at now rel (ia_providerId a) \<and>
        (case budgets of None \<Rightarrow> True | Some b \<Rightarrow> \<not> isExhausted (ia_providerId a) now b)) \<and>
     (so_includeCircuitOpen opts \<or> \<not> open_at now rel (ia_providerId a)) \<and>
     (so_includeUnhealthy opts \<or> health_ok now a) \<and> type_ok md a \<and> ids_ok md a"

lemma isQuarantined_twice:
  "fst (isQuarantined p now (snd (isQuarantined q now r))) = fst (isQuarantined p now r)"
  by (auto simp: isQuarantined_def split: option.splits)

lemma getState_twice: "fst (getState p now (snd (getState q now r))) = fst (getState p now r)"
  by (auto simp: getState_def put_circuit_def split: option.splits)

lemma getState_after_quarantine:
  "fst (getState p now (snd (isQuarantined q now r))) = fst (getState p now r)"
  by (auto simp: getState_def isQuarantined_def split: option.splits)

text \<open>Asking never changes an answer.\<close>

definition same_answers :: "time_ms \<Rightarrow> registry option \<Rightarrow> registry option \<Rightarrow> bool" where
  "same_answers now rel rel' \<longleftrightarrow> (\<forall>p. quarantined_at now rel' p = quarantined_at now rel p \<and>
     open_at now rel' p = open_at now rel p) \<and> (rel' = None) = (rel = None)"

lemma same_answers_refl: "same_answers now rel rel"
  by (simp add: same_answers_def)

lemma isQuarantined_after_getState:
  "fst (isQuarantined p now (snd (getState q now r))) = fst (isQuarantined p now r)"
  by (auto simp: getState_def isQuarantined_def put_circuit_def split: option.splits)

lemma ask_quarantine_same:
  "same_answers now rel0 rel \<Longrightarrow> same_answers now rel0 (snd (ask_quarantine now a rel))"
  by (cases rel) (auto simp: same_answers_def ask_quarantine_def quarantined_at_def open_at_def
      isQuarantined_twice getState_after_quarantine split: option.splits)

lemma ask_circuit_same:
  "same_answers now rel0 rel \<Longrightarrow> same_answers now rel0 (snd (ask_circuit now a rel))"
  by (cases rel) (auto simp: same_answers_def ask_circuit_def quarantined_at_def open_at_def
      isQuarantined_after_getState getState_twice split: option.splits)

lemma ask_quarantine_result:
  "same_answers now rel0 rel \<Longrightarrow>
     fst (ask_quarantine now a rel) = (\<not> quarantined_at now rel0 (ia_providerId a))"
  by (cases rel) (auto simp: same_answers_def ask_quarantine_def quarantined_at_def split: option.splits)

lemma ask_circuit_result:
  "same_answers now rel0 rel \<Longrightarrow> fst (ask_circuit now a rel) = (\<not> open_at now rel0 (ia_providerId a))"
  by (cases rel) (auto simp: same_answers_def ask_circuit_def open_at_def split: option.splits)

lemma keep_quarantine:
  "same_answers now rel0 rel \<Longrightarrow>
     fst (keep_if b (ask_quarantine now) xs rel) =
       filter (\<lambda>a. b \<longrightarrow> \<not> quarantined_at now rel0 (ia_providerId a)) xs \<and>
     same_answers now rel0 (snd (keep_if b (ask_quarantine now) xs rel))"
  using filter_state_inv [of "same_answers now rel0" rel "ask_quarantine now"
      "\<lambda>a. \<not> quarantined_at now rel0 (ia_providerId a)" xs]
  by (simp add: keep_if_def ask_quarantine_same ask_quarantine_result)

lemma keep_circuit:
  "same_answers now rel0 rel \<Longrightarrow>
     fst (keep_if b (ask_circuit now) xs rel) =
       filter (\<lambda>a. b \<longrightarrow> \<not> open_at now rel0 (ia_providerId a)) xs \<and>
     same_answers now rel0 (snd (keep_if b (ask_circuit now) xs rel))"
  using filter_state_inv [of "same_answers now rel0" rel "ask_circuit now"
      "\<lambda>a. \<not> open_at now rel0 (ia_providerId a)" xs]
  by (simp add: keep_if_def ask_circuit_same ask_circuit_result)

lemma select_eligible:
  "fst (selectStreamProviders collate now budgets d md opts rel) =
     sortAddons collate (filter (eligible now budgets md opts rel) (sd_addons d)) \<and>
   same_answers now rel (snd (selectStreamProviders collate now budgets d md opts rel))"
proof -
  define c1 where "c1 = (case so_allowedIds opts of None \<Rightarrow> getStreamEnabled collate d
    | Some ids \<Rightarrow> filter (\<lambda>a. ia_providerId a \<in> ids) (getStreamEnabled collate d))"
  define k2 where "k2 = keep_if (\<not> so_includeQuarantined opts) (ask_quarantine now) c1 rel"
  define c3 where "c3 = (if so_includeQuarantined opts then fst k2 else case budgets of None \<Rightarrow> fst k2
    | Some b \<Rightarrow> filter (\<lambda>a. \<not> isExhausted (ia_providerId a) now b) (fst k2))"
  define k4 where "k4 = keep_if (\<not> so_includeCircuitOpen opts) (ask_circuit now) c3 (snd k2)"
  have k2: "fst k2 = filter (\<lambda>a. \<not> so_includeQuarantined opts \<longrightarrow> \<not> quarantined_at now rel (ia_providerId a)) c1"
    "same_answers now rel (snd k2)"
    using keep_quarantine [OF same_answers_refl] by (auto simp: k2_def)
  have k4: "fst k4 = filter (\<lambda>a. \<not> so_includeCircuitOpen opts \<longrightarrow> \<not> open_at now rel (ia_providerId a)) c3"
    "same_answers now rel (snd k4)"
    using keep_circuit [OF k2(2)] by (auto simp: k4_def)
  have sel: "selectStreamProviders collate now budgets d md opts rel =
      (sortAddons collate (filter (ids_ok md) (filter (type_ok md)
         (if so_includeUnhealthy opts then fst k4 else filter (health_ok now) (fst k4)))), snd k4)"
    unfolding selectStreamProviders_def Let_def split_beta fst_conv snd_conv
      c1_def [symmetric] k2_def [symmetric] c3_def [symmetric] k4_def [symmetric] ..
  have "filter (ids_ok md) (filter (type_ok md)
      (if so_includeUnhealthy opts then fst k4 else filter (health_ok now) (fst k4))) =
    filter (eligible now budgets md opts rel) (sortAddons collate (sd_addons d))"
    unfolding k4(1) c3_def k2(1) c1_def getStreamEnabled_def
    by (cases "so_allowedIds opts"; cases budgets)
      (auto simp: eligible_def conj_commute intro!: filter_cong)
  then show ?thesis
    using k4(2) by (simp add: sel filter_sortAddons)
qed


subsection \<open>The bulk loops\<close>

lemma aggregate_loop_total:
  assumes "0 < c"
  shows "\<exists>k. aggregate_loop c ab f ps i res = Some (res @ map (settle f) (take k (drop i ps))) \<and>
    ((\<forall>j. \<not> ab j) \<longrightarrow> length ps - i \<le> k)"
proof (induction "length ps - i" arbitrary: i res rule: less_induct)
  case less
  show ?case
  proof (cases "i < length ps \<and> \<not> ab i")
    case True
    then have "length ps - (i + c) < length ps - i" using assms by (simp add: diff_less_mono2)
    from less [OF this, of "res @ map (settle f) (take c (drop i ps))"]
    obtain k where k: "aggregate_loop c ab f ps (i + c) (res @ map (settle f) (take c (drop i ps))) =
        Some ((res @ map (settle f) (take c (drop i ps))) @ map (settle f) (take k (drop (i + c) ps)))"
      "(\<forall>j. \<not> ab j) \<longrightarrow> length ps - (i + c) \<le> k"
      by blast
    have "take (c + k) (drop i ps) = take c (drop i ps) @ take k (drop (i + c) ps)"
      by (simp add: take_add add.commute)
    then have "aggregate_loop c ab f ps i res = Some (res @ map (settle f) (take (c + k) (drop i ps)))"
      using True k(1) by (simp add: aggregate_loop.simps [of c ab f ps i])
    then show ?thesis using k(2) by (intro exI [of _ "c + k"]) auto
  next
    case False
    then show ?thesis by (intro exI [of _ 0]) (auto simp: aggregate_loop.simps [of c ab f ps i])
  qed
qed

text \<open>With a concurrency of zero the loop never returns (unless aborted).\<close>

lemma aggregate_zero_never_returns:
  assumes "i < length ps" "\<not> ab i"
  shows "aggregate_loop 0 ab f ps i res = None"
proof (rule ccontr)
  assume "aggregate_loop 0 ab f ps i res \<noteq> None"
  then obtain y where y: "aggregate_loop 0 ab f ps i res = Some y" by auto
  have "0 = (0::nat) \<longrightarrow> i < length ps \<longrightarrow> ab i"
    by (rule aggregate_loop.raw_induct [of "\<lambda>c ab f ps i res y. c = 0 \<longrightarrow> i < length ps \<longrightarrow> ab i", OF _ y])
      (clarsimp split: if_splits, metis add_0_right gr0I)
  then show False using assms by simp
qed

lemma settle_addon [simp]: "ft_addon (settle f a) = a"
  by (simp add: settle_def split: sum.split)

lemma rank_lookup:
  "distinct (map ia_providerId ps) \<Longrightarrow> p \<in> set ps \<Longrightarrow>
   jm_get (fold (\<lambda>r. jm_set (ia_providerId (ft_addon r)) r) (map (settle f) ps) m) (ia_providerId p) = Some (settle f p)"
proof (induction ps arbitrary: m)
  case (Cons a ps)
  have keep: "ia_providerId p \<notin> set (map ia_providerId qs) \<Longrightarrow>
      jm_get (fold (\<lambda>r. jm_set (ia_providerId (ft_addon r)) r) (map (settle f) qs) m) (ia_providerId p) =
      jm_get m (ia_providerId p)" for qs m
    by (induction qs arbitrary: m) auto
  show ?case using Cons keep [of ps] by (cases "p = a") auto
qed simp

lemma rank_absent:
  "p \<notin> ia_providerId ` set ps \<Longrightarrow>
   jm_get (fold (\<lambda>r. jm_set (ia_providerId (ft_addon r)) r) (map (settle f) ps) m) p = jm_get m p"
  by (induction ps arbitrary: m) auto

lemma map_filter_prefix:
  "(\<And>x. x \<in> set xs \<Longrightarrow> g x = Some (h x)) \<Longrightarrow> (\<And>y. y \<in> set ys \<Longrightarrow> g y = None) \<Longrightarrow>
   List.map_filter g (xs @ ys) = map h xs"
  by (induction xs) (auto simp: map_filter_simps, induction ys, auto simp: map_filter_simps)

lemma distinct_ids_disjoint:
  "distinct (map ia_providerId ps) \<Longrightarrow> y \<in> set (drop k ps) \<Longrightarrow> ia_providerId y \<notin> ia_providerId ` set (take k ps)"
  by (metis append_take_drop_id disjoint_iff distinct_append image_eqI map_append set_map)

lemma distinct_selected:
  assumes "distinct (map ia_providerId (sd_addons d))"
  shows "distinct (map ia_providerId (fst (selectStreamProviders collate now budgets d md opts rel)))"
proof -
  have "distinct (map ia_providerId (filter P (sd_addons d)))" for P
    using assms by (simp add: distinct_map_filter)
  then have "mset (map ia_providerId (sortAddons collate (filter P (sd_addons d)))) =
      mset (map ia_providerId (filter P (sd_addons d)))" for P
    by simp
  with \<open>\<And>P. distinct (map ia_providerId (filter P (sd_addons d)))\<close> show ?thesis
    using select_eligible [of collate now budgets d md opts rel] mset_eq_imp_distinct_iff by metis
qed

text \<open>
  Aggregate mode returns (for any positive concurrency) one entry per provider asked, in
  priority order whatever the batches: the outcomes of the first providers of the selection, of
  all of them when the signal never fires; a provider that throws has an entry with its message.
\<close>

lemma aggregate_keeps_priority:
  assumes "distinct (map ia_providerId (sd_addons d))" "0 < or_else concurrency 4"
  shows "\<exists>k. fst (fetchAggregate collate now budgets d md fetcher concurrency aborted rel) =
      Some (map (settle fetcher)
        (take k (fst (selectStreamProviders collate now budgets d md no_options rel)))) \<and>
    ((\<forall>i. \<not> aborted i) \<longrightarrow> length (fst (selectStreamProviders collate now budgets d md no_options rel)) \<le> k)"
proof -
  let ?ps = "fst (selectStreamProviders collate now budgets d md no_options rel)"
  have dist: "distinct (map ia_providerId ?ps)" by (rule distinct_selected [OF assms(1)])
  obtain k where k: "aggregate_loop (or_else concurrency 4) aborted fetcher ?ps 0 [] =
      Some (map (settle fetcher) (take k ?ps))" "(\<forall>j. \<not> aborted j) \<longrightarrow> length ?ps \<le> k"
    using aggregate_loop_total [OF assms(2), of aborted fetcher ?ps 0 "[]"] by auto
  let ?rank = "fold (\<lambda>r. jm_set (ia_providerId (ft_addon r)) r) (map (settle fetcher) (take k ?ps)) []"
  have "distinct (map ia_providerId (take k ?ps))"
    using dist by (metis distinct_take take_map)
  then have "List.map_filter (\<lambda>p. jm_get ?rank (ia_providerId p)) (take k ?ps @ drop k ?ps) =
      map (settle fetcher) (take k ?ps)"
    by (intro map_filter_prefix) (simp_all add: rank_lookup rank_absent distinct_ids_disjoint [OF dist])
  then show ?thesis
    using k by (intro exI [of _ k]) (simp add: fetchAggregate_def Let_def split_beta)
qed

definition found_in :: "('r \<Rightarrow> nat) \<Rightarrow> 'r fetcher \<Rightarrow> installed_addon list \<Rightarrow> nat" where
  "found_in sources f as' = batch_total sources (map (settle f) as')"

lemma fast_loop_total:
  assumes "0 < c"
  shows "\<exists>k. fast_loop target c ab src f ps (n * c) (found_in src f (take (n * c) ps)) (map (settle f) (take (n * c) ps)) =
      Some (map (settle f) (take k ps)) \<and>
    ((\<forall>j. \<not> ab j) \<longrightarrow> k < length ps \<longrightarrow> target \<le> found_in src f (take k ps)) \<and>
    (\<forall>m \<ge> n. m * c < k \<longrightarrow> found_in src f (take (m * c) ps) < target)"
proof (induction "length ps - n * c" arbitrary: n rule: less_induct)
  case less
  let ?i = "n * c" and ?t = "found_in src f (take (n * c) ps)"
  show ?case
  proof (cases "?i < length ps \<and> \<not> ab ?i \<and> \<not> target \<le> ?t")
    case True
    have tk: "take (Suc n * c) ps = take ?i ps @ take c (drop ?i ps)"
      unfolding mult_Suc add.commute [of c] take_add ..
    have ic: "?i + c = Suc n * c" by simp
    have t: "?t + batch_total src (map (settle f) (take c (drop ?i ps))) = found_in src f (take (Suc n * c) ps)"
      unfolding tk by (simp add: found_in_def batch_total_def)
    have step: "fast_loop target c ab src f ps ?i ?t (map (settle f) (take ?i ps)) =
       (if target \<le> found_in src f (take (Suc n * c) ps) then Some (map (settle f) (take (Suc n * c) ps))
        else fast_loop target c ab src f ps (Suc n * c) (found_in src f (take (Suc n * c) ps))
          (map (settle f) (take (Suc n * c) ps)))"
      using True ic by (subst fast_loop.simps) (simp add: Let_def t tk del: mult_Suc)
    have small: "m * c < Suc n * c \<Longrightarrow> n \<le> m \<Longrightarrow> m = n" for m
      using assms by (simp add: less_Suc_eq_le del: mult_Suc)
    show ?thesis
    proof (cases "target \<le> found_in src f (take (Suc n * c) ps)")
      case True2: True
      have "\<forall>m \<ge> n. m * c < Suc n * c \<longrightarrow> found_in src f (take (m * c) ps) < target"
        using small True by (metis not_le)
      then show ?thesis
        using step True2 by (intro exI [of _ "Suc n * c"]) (simp del: mult_Suc mult_less_cancel2)
    next
      case False
      have "length ps - Suc n * c < length ps - ?i"
        using True assms by (intro diff_less_mono2) simp_all
      from less [OF this] obtain k where k:
        "fast_loop target c ab src f ps (Suc n * c) (found_in src f (take (Suc n * c) ps))
           (map (settle f) (take (Suc n * c) ps)) = Some (map (settle f) (take k ps))"
        "(\<forall>j. \<not> ab j) \<longrightarrow> k < length ps \<longrightarrow> target \<le> found_in src f (take k ps)"
        "\<forall>m \<ge> Suc n. m * c < k \<longrightarrow> found_in src f (take (m * c) ps) < target"
        by auto
      have "\<forall>m \<ge> n. m * c < k \<longrightarrow> found_in src f (take (m * c) ps) < target"
        using k(3) True by (metis le_antisym not_less not_less_eq_eq)
      then show ?thesis
        using step False k by (intro exI [of _ k]) simp
    qed
  next
    case False
    then have "fast_loop target c ab src f ps ?i ?t (map (settle f) (take ?i ps)) = Some (map (settle f) (take ?i ps))"
      by (subst fast_loop.simps) (rule if_not_P)
    then show ?thesis using False assms by (intro exI [of _ ?i]) auto
  qed
qed

text \<open>
  C37. Fast-first mode returns (for any positive concurrency) the outcomes of the first providers in
  priority order, stops only when the target is reached, the signal fires or no provider is
  left, and never starts a batch once the target is reached.
\<close>

theorem fast_first_stops_at_target:
  assumes "0 < or_else concurrency 2"
  shows "\<exists>k. fst (fetchFastFirst collate now budgets d md fetcher sources targetCount concurrency aborted rel) =
      Some (map (\<lambda>a. (a, ft_result (settle fetcher a)))
        (take k (fst (selectStreamProviders collate now budgets d md no_options rel)))) \<and>
    ((\<forall>i. \<not> aborted i) \<longrightarrow> k < length (fst (selectStreamProviders collate now budgets d md no_options rel)) \<longrightarrow>
      or_else targetCount 3 \<le> found_in sources fetcher
        (take k (fst (selectStreamProviders collate now budgets d md no_options rel)))) \<and>
    (\<forall>m. m * or_else concurrency 2 < k \<longrightarrow>
      found_in sources fetcher (take (m * or_else concurrency 2)
        (fst (selectStreamProviders collate now budgets d md no_options rel))) < or_else targetCount 3)"
proof -
  let ?ps = "fst (selectStreamProviders collate now budgets d md no_options rel)"
  obtain k where "fast_loop (or_else targetCount 3) (or_else concurrency 2) aborted sources fetcher ?ps 0 0 [] =
      Some (map (settle fetcher) (take k ?ps))"
    "(\<forall>j. \<not> aborted j) \<longrightarrow> k < length ?ps \<longrightarrow> or_else targetCount 3 \<le> found_in sources fetcher (take k ?ps)"
    "\<forall>m. m * or_else concurrency 2 < k \<longrightarrow>
       found_in sources fetcher (take (m * or_else concurrency 2) ?ps) < or_else targetCount 3"
    using fast_loop_total [OF assms, of "or_else targetCount 3" aborted sources fetcher ?ps 0]
    by (auto simp: found_in_def batch_total_def)
  then show ?thesis
    by (intro exI [of _ k]) (simp add: fetchFastFirst_def split_beta comp_def)
qed

subsection \<open>Witnesses\<close>

definition demo_manifest :: json where
  "demo_manifest = JObj [(''id'', JStr ''a''), (''resources'', JArr [JStr ''stream'']),
     (''types'', JArr [JStr ''movie'']), (''idPrefixes'', JArr [JStr ''tt''])]"

definition demo_addon :: "string \<Rightarrow> int \<Rightarrow> installed_addon" where
  "demo_addon p n =
     \<lparr>ia_providerId = p, ia_slug = p, ia_name = p, ia_originalImportUrl = None, ia_manifestUrl = p, ia_baseUrl = p,
      ia_enabled = True, ia_admissionState = None, ia_validationFindings = [], ia_order = n,
      ia_timeoutMs = 20000, ia_source = FromUrl, ia_manifest = demo_manifest, ia_addedAt = 0, ia_updatedAt = 0,
      ia_health = None, ia_capabilities = Some (capabilitiesFor demo_manifest), ia_manifestFingerprint = None\<rparr>"

definition demo_data :: store_data where
  "demo_data = \<lparr>sd_addons = [demo_addon ''b'' 2, demo_addon ''a'' 1, demo_addon ''c'' 3], sd_settings = None,
                sd_revision = 0\<rparr>"

definition demo_movie :: media where
  "demo_movie = \<lparr>md_type = Movie, md_imdbId = ''tt1'', md_tmdbId = [], md_season = None, md_episode = None\<rparr>"

definition demo_fetch :: "nat fetcher" where
  "demo_fetch a = (if ia_providerId a = ''a'' then Inl ''boom'' else Inr 4)"

lemma demo_eligible: "eligible 0 None demo_movie no_options None (demo_addon p n)"
proof -
  have "isStreamCapable (capabilitiesFor demo_manifest)" by code_simp
  moreover have "KMovie \<in> set (concat (map ce_mediaTypes (cp_stream (capabilitiesFor demo_manifest))))" by code_simp
  moreover have "buildIdCandidates (manifest_view demo_manifest) demo_movie \<noteq> []" by code_simp
  ultimately show ?thesis
    by (simp add: eligible_def no_options_def demo_addon_def stream_enabled_def quarantined_at_def open_at_def
        health_ok_def type_ok_def ids_ok_def Let_def demo_movie_def)
qed

lemma demo_selected:
  "fst (selectStreamProviders (\<lambda>_. 0) 0 None demo_data demo_movie no_options None) =
     [demo_addon ''a'' 1, demo_addon ''b'' 2, demo_addon ''c'' 3]"
  using select_eligible [of "\<lambda>_. 0" 0 None demo_data demo_movie no_options None]
  by (simp add: demo_data_def demo_eligible sortAddons_def addon_rank_def, simp add: demo_addon_def)

theorem aggregate_keeps_priority_witness:
  "fst (fetchAggregate (\<lambda>_. 0) 0 None demo_data demo_movie demo_fetch (Some 2) (\<lambda>_. False) None) =
     Some (map (settle demo_fetch) [demo_addon ''a'' 1, demo_addon ''b'' 2, demo_addon ''c'' 3])"
proof -
  have "distinct (map ia_providerId (sd_addons demo_data))" by (simp add: demo_data_def demo_addon_def)
  from aggregate_keeps_priority [OF this, of "Some 2" "\<lambda>_. 0" 0 None demo_movie demo_fetch "\<lambda>_. False" None]
  show ?thesis by (auto simp: demo_selected)
qed

theorem fast_first_stops_at_target_witness:
  "\<exists>k. fst (fetchFastFirst (\<lambda>_. 0) 0 None demo_data demo_movie demo_fetch (\<lambda>n. n) (Some 3) (Some 1) (\<lambda>_. False) None) =
      Some (map (\<lambda>a. (a, ft_result (settle demo_fetch a)))
        (take k [demo_addon ''a'' 1, demo_addon ''b'' 2, demo_addon ''c'' 3])) \<and> k = 2"
proof -
  have found: "found_in (\<lambda>n. n) demo_fetch [] = 0" "found_in (\<lambda>n. n) demo_fetch [demo_addon ''a'' 1] = 0"
    "found_in (\<lambda>n. n) demo_fetch [demo_addon ''a'' 1, demo_addon ''b'' 2] = 4"
    by (simp_all add: found_in_def batch_total_def settle_def demo_fetch_def demo_addon_def)
  let ?ps = "[demo_addon ''a'' 1, demo_addon ''b'' 2, demo_addon ''c'' 3]"
  have "0 < or_else (Some (1::nat)) 2" by simp
  from fast_first_stops_at_target [OF this, of "\<lambda>_. 0" 0 None demo_data demo_movie demo_fetch "\<lambda>n. n" "Some 3"
      "\<lambda>_. False" None, unfolded demo_selected or_else_simps]
  obtain k where k: "fst (fetchFastFirst (\<lambda>_. 0) 0 None demo_data demo_movie demo_fetch (\<lambda>n. n) (Some 3) (Some 1)
        (\<lambda>_. False) None) = Some (map (\<lambda>a. (a, ft_result (settle demo_fetch a))) (take k ?ps))"
    "k < length ?ps \<longrightarrow> 3 \<le> found_in (\<lambda>n. n) demo_fetch (take k ?ps)"
    "\<forall>m. m * 1 < k \<longrightarrow> found_in (\<lambda>n. n) demo_fetch (take (m * 1) ?ps) < 3"
    by blast
  have "\<not> 2 < k" using k(3) found by (auto dest: spec [of _ "2::nat"])
  moreover have "k \<noteq> 0" using k(2) found by (intro notI) simp
  moreover have "k \<noteq> 1" using k(2) found by (intro notI) simp
  ultimately have "k = 2" by linarith
  with k(1) show ?thesis by auto
qed

end
