(* ===== verification/Manager.thy ===== *)
theory Manager
  imports Addons StremioUrl
begin

text \<open>
  The addon manager, \<open>src/addons/manager.ts\<close>: the list of installed addons, its persistence and
  the provider registry it keeps in step. Every mutation runs under the manager's lock, so it is
  one step from state to state. The provider registry belongs to the framework: its operations
  are the record \<open>registry_api\<close>. The network's answer to a manifest request, hashing, JSON text
  of leaves, collation and the URL parser are arguments, gathered in \<open>services\<close>.
\<close>

subsection \<open>The framework's registry\<close>

text \<open>What the constructor of a provider captures of an addon and of the manager.\<close>

record provider =
  pv_id :: string
  pv_name :: string
  pv_baseUrl :: string
  pv_manifest :: json
  pv_enabled :: bool
  pv_streamTimeoutMs :: int
  pv_grants :: bool
  pv_publicBase :: "string option"
  pv_secureProxy :: bool
  pv_urlPolicy :: url_options

record 'r registry_api =
  ra_getProviders :: "'r \<Rightarrow> provider list"
  ra_listProviders :: "'r \<Rightarrow> string list"
  ra_hasProvider :: "'r \<Rightarrow> string \<Rightarrow> bool"
  ra_register :: "provider \<Rightarrow> 'r \<Rightarrow> 'r"
  ra_unregister :: "string \<Rightarrow> 'r \<Rightarrow> 'r"

text \<open>
  The behaviour the manager relies on: a map in insertion order, in which registering a new id
  appends it.
\<close>

definition registry_laws :: "'r registry_api \<Rightarrow> bool" where
  "registry_laws api \<longleftrightarrow>
     (\<forall>r. ra_listProviders api r = map pv_id (ra_getProviders api r)) \<and>
     (\<forall>r i. ra_hasProvider api r i = (i \<in> set (map pv_id (ra_getProviders api r)))) \<and>
     (\<forall>r i. ra_getProviders api (ra_unregister api i r) = filter (\<lambda>p. pv_id p \<noteq> i) (ra_getProviders api r)) \<and>
     (\<forall>r p. pv_id p \<notin> set (map pv_id (ra_getProviders api r)) \<longrightarrow>
        ra_getProviders api (ra_register api p r) = ra_getProviders api r @ [p])"

subsection \<open>Configuration, services and state\<close>

record manager_config =
  mc_allowHttpUpstreams :: bool
  mc_outboundHostAllowlist :: "string list"
  mc_outboundHostAllowSuffixes :: "string list"
  mc_importMaxUrls :: nat
  mc_importEnableOnInstall :: "bool option"
  mc_market :: market_policy
  mc_healthStaleThresholdMinutes :: int
  mc_seedUrls :: "string list"
  mc_debridApiKey :: string
  mc_debridProvider :: string
  mc_secureProxy :: bool

text \<open>\<open>sv_saves\<close> tells whether the store accepts a snapshot; \<open>sv_policy_text\<close> is the text of a policy error
  and \<open>sv_redact\<close> the log form of a URL.\<close>

record services =
  sv_url :: url_lib
  sv_box :: secret_box
  sv_hash :: "string \<Rightarrow> string"
  sv_leaf :: "json \<Rightarrow> string"
  sv_num :: "rat \<Rightarrow> string"
  sv_saves :: "store_data \<Rightarrow> bool"
  sv_policy_text :: "url_policy_error \<Rightarrow> string"
  sv_redact :: "string \<Rightarrow> string"

record debrid_runtime =
  dr_provider :: string
  dr_apiKey :: string
  dr_source :: string

record 'r manager =
  mg_data :: store_data
  mg_registry :: 'r
  mg_stored :: store_data
  mg_grants :: bool
  mg_publicBase :: string
  mg_hookLog :: "int list"
  mg_debrid :: debrid_runtime

record 'r manager_env =
  me_api :: "'r registry_api"
  me_cfg :: manager_config
  me_sv :: services

abbreviation collate_of :: "'r manager_env \<Rightarrow> string \<Rightarrow> int" where
  "collate_of E \<equiv> ul_collate (sv_url (me_sv E))"

definition urlPolicy :: "manager_config \<Rightarrow> url_options" where
  "urlPolicy c =
     \<lparr>uo_allowHttp = mc_allowHttpUpstreams c, uo_allowedProtocols = None,
      uo_allowHostSuffixes = Some (mc_outboundHostAllowSuffixes c),
      uo_hostAllowlist = (if mc_outboundHostAllowlist c \<noteq> [] then Some (mc_outboundHostAllowlist c) else None),
      uo_allowCredentials = False, uo_allowedPorts = None, uo_maxLength = Some 2048, uo_skipDns = False\<rparr>"

subsection \<open>Texts\<close>

definition slug_char :: "char \<Rightarrow> bool" where
  "slug_char c \<longleftrightarrow> is_digit c \<or> 97 \<le> (of_char c :: nat) \<and> (of_char c :: nat) \<le> 122"

text \<open>\<open>replace(/[^a-z0-9]+/g, '-')\<close>.\<close>

fun dash_runs :: "string \<Rightarrow> string" where
  "dash_runs [] = []"
| "dash_runs (c # s) =
     (if slug_char c then c # dash_runs s
      else case s of [] \<Rightarrow> ''-'' | d # t \<Rightarrow> if slug_char d then CHR ''-'' # dash_runs s else dash_runs s)"

definition strip_dashes :: "string \<Rightarrow> string" where
  "strip_dashes s = rev (dropWhile (\<lambda>c. c = CHR ''-'') (rev (dropWhile (\<lambda>c. c = CHR ''-'') s)))"

definition safeSlug :: "string \<Rightarrow> string" where
  "safeSlug raw =
     (let l = to_lower raw;
          h = (if starts_with l ''https://'' then drop 8 l else if starts_with l ''http://'' then drop 7 l else l);
          s = take 48 (strip_dashes (dash_runs h))
      in if s = [] then ''addon'' else s)"

definition hasResource :: "json \<Rightarrow> string \<Rightarrow> bool" where
  "hasResource mf name =
     (case jarr (jfield mf ''resources'') of
        None \<Rightarrow> False
      | Some rs \<Rightarrow> list_ex (\<lambda>r. case r of JStr s \<Rightarrow> s = name | _ \<Rightarrow> jfield r ''name'' = Some (JStr name)) rs)"

definition sensitive_key :: "string \<Rightarrow> bool" where
  "sensitive_key k = list_ex (str_includes (to_lower k)) [''token'', ''key'', ''secret'', ''auth'', ''pass'', ''api'']"

definition after_mark :: "char \<Rightarrow> string \<Rightarrow> bool" where
  "after_mark c url = (case split_on c url of _ # x # _ \<Rightarrow> x \<noteq> [] | _ \<Rightarrow> False)"

definition urlLooksSecretBearing :: "url_lib \<Rightarrow> string \<Rightarrow> bool" where
  "urlLooksSecretBearing L url =
     (case ul_parse L url of
        Some u \<Rightarrow>
          fu_search u \<noteq> [] \<and> fu_search u \<noteq> ''?'' \<or>
          fu_hash u \<noteq> [] \<and> fu_hash u \<noteq> ''#'' \<and> 1 < length (fu_hash u) \<or>
          list_ex (\<lambda>(k, v). sensitive_key k) (fu_params u) \<or> pu_username u \<noteq> [] \<or> pu_password u \<noteq> []
      | None \<Rightarrow> after_mark CHR ''?'' url \<or> after_mark CHR ''#'' url)"

subsection \<open>Sealed URLs\<close>

text \<open>A seal or an opening that throws leaves the text as it is.\<close>

definition sealSensitiveUrl :: "services \<Rightarrow> string \<Rightarrow> string" where
  "sealSensitiveUrl S url =
     (if url = [] then url else if isSealed url then url
      else if urlLooksSecretBearing (sv_url S) url then sb_seal (sv_box S) url else url)"

definition openSensitiveUrl :: "services \<Rightarrow> string \<Rightarrow> string" where
  "openSensitiveUrl S stored =
     (if stored = [] then stored
      else if isSealed stored then (case sb_open (sv_box S) stored of Inr p \<Rightarrow> p | Inl e \<Rightarrow> stored) else stored)"

definition openAddonUrls :: "services \<Rightarrow> installed_addon \<Rightarrow> installed_addon" where
  "openAddonUrls S a =
     a\<lparr>ia_manifestUrl := openSensitiveUrl S (ia_manifestUrl a), ia_baseUrl := openSensitiveUrl S (ia_baseUrl a),
       ia_originalImportUrl := (case ia_originalImportUrl a of
          None \<Rightarrow> None | Some [] \<Rightarrow> Some [] | Some u \<Rightarrow> Some (openSensitiveUrl S u))\<rparr>"

definition seal_addon :: "services \<Rightarrow> installed_addon \<Rightarrow> installed_addon" where
  "seal_addon S a =
     a\<lparr>ia_manifestUrl := sealSensitiveUrl S (ia_manifestUrl a), ia_baseUrl := sealSensitiveUrl S (ia_baseUrl a),
       ia_originalImportUrl := (case ia_originalImportUrl a of
          None \<Rightarrow> None | Some [] \<Rightarrow> None | Some u \<Rightarrow> Some (sealSensitiveUrl S u))\<rparr>"

definition seal_settings :: "services \<Rightarrow> debrid_settings \<Rightarrow> debrid_settings" where
  "seal_settings S d =
     d\<lparr>ds_apiKey := (if ds_apiKey d = [] then [] else if isSealed (ds_apiKey d) then ds_apiKey d
                     else sb_seal (sv_box S) (ds_apiKey d))\<rparr>"

definition persist_snapshot :: "services \<Rightarrow> store_data \<Rightarrow> store_data" where
  "persist_snapshot S d =
     d\<lparr>sd_addons := map (seal_addon S) (sd_addons d), sd_settings := map_option (seal_settings S) (sd_settings d)\<rparr>"

definition persist :: "'r manager_env \<Rightarrow> 'r manager \<Rightarrow> 'r manager" where
  "persist E m =
     (let snap = persist_snapshot (me_sv E) (mg_data m) in
      if sv_saves (me_sv E) snap then m\<lparr>mg_stored := snap\<rparr> else m)"

text \<open>The hook's own failure is ignored; \<open>mg_hookLog\<close> lists the revisions it was called with.\<close>

definition bump_revision :: "'r manager \<Rightarrow> 'r manager" where
  "bump_revision m =
     (let rev = sd_revision (mg_data m) + 1 in
      m\<lparr>mg_data := (mg_data m)\<lparr>sd_revision := rev\<rparr>, mg_hookLog := mg_hookLog m @ [rev]\<rparr>)"

subsection \<open>Registry synchronisation\<close>

definition provider_of :: "'r manager_env \<Rightarrow> 'r manager \<Rightarrow> installed_addon \<Rightarrow> provider" where
  "provider_of E m a =
     \<lparr>pv_id = ia_providerId a, pv_name = ia_name a, pv_baseUrl = ia_baseUrl a, pv_manifest = ia_manifest a,
      pv_enabled = ia_enabled a, pv_streamTimeoutMs = ia_timeoutMs a, pv_grants = mg_grants m,
      pv_publicBase = (if mg_publicBase m = [] then None else Some (mg_publicBase m)),
      pv_secureProxy = mc_secureProxy (me_cfg E), pv_urlPolicy = urlPolicy (me_cfg E)\<rparr>"

definition registerProvider :: "'r manager_env \<Rightarrow> installed_addon \<Rightarrow> 'r manager \<Rightarrow> 'r manager" where
  "registerProvider E a m =
     (if \<not> isStreamCapable (or_else (ia_capabilities a) (capabilitiesFor (ia_manifest a))) then m
      else if \<not> ia_enabled a then m
      else if ra_hasProvider (me_api E) (mg_registry m) (ia_providerId a) then m
      else m\<lparr>mg_registry := ra_register (me_api E) (provider_of E m a) (mg_registry m)\<rparr>)"

definition unregisterProvider :: "'r manager_env \<Rightarrow> string \<Rightarrow> 'r manager \<Rightarrow> 'r manager" where
  "unregisterProvider E pid m = m\<lparr>mg_registry := ra_unregister (me_api E) pid (mg_registry m)\<rparr>"

definition is_addon_id :: "string \<Rightarrow> bool" where
  "is_addon_id pid = starts_with pid ''addon:''"

definition addon_providers :: "'r manager_env \<Rightarrow> 'r \<Rightarrow> provider list" where
  "addon_providers E r = filter (\<lambda>p. is_addon_id (pv_id p)) (ra_getProviders (me_api E) r)"

definition drop_stale :: "'r manager_env \<Rightarrow> string list \<Rightarrow> 'r manager \<Rightarrow> 'r manager" where
  "drop_stale E desired m =
     fold (\<lambda>pid m. if pid \<notin> set desired \<and> is_addon_id pid then unregisterProvider E pid m else m)
       (ra_listProviders (me_api E) (mg_registry m)) m"

definition reconcileRegistry :: "'r manager_env \<Rightarrow> 'r manager \<Rightarrow> 'r manager" where
  "reconcileRegistry E m =
     (let ordered = getStreamEnabled (collate_of E) (mg_data m);
          m1 = drop_stale E (map ia_providerId ordered) m;
          currentOrder = map pv_id (addon_providers E (mg_registry m1))
      in if currentOrder \<noteq> map ia_providerId ordered
         then fold (registerProvider E) ordered (fold (unregisterProvider E) currentOrder m1)
         else fold (\<lambda>a m. if ra_hasProvider (me_api E) (mg_registry m) (ia_providerId a) then m
                          else registerProvider E a m) ordered m1)"

definition setPlaybackGrants :: "'r manager_env \<Rightarrow> string \<Rightarrow> 'r manager \<Rightarrow> 'r manager" where
  "setPlaybackGrants E publicBase m =
     fold (\<lambda>a m. if ia_enabled a then registerProvider E a (unregisterProvider E (ia_providerId a) m) else m)
       (sd_addons (mg_data m))
       (m\<lparr>mg_grants := True,
          mg_publicBase := (if ends_with publicBase ''/'' then butlast publicBase else publicBase)\<rparr>)"

subsection \<open>Validation of a manifest\<close>

definition strict_eq :: "json option \<Rightarrow> json option \<Rightarrow> bool" where
  "strict_eq x y = (case x of Some (JArr a) \<Rightarrow> False | Some (JObj obj) \<Rightarrow> False | _ \<Rightarrow> x = y)"

definition id_char :: "char \<Rightarrow> bool" where
  "id_char c \<longleftrightarrow> slug_char (lower_char c) \<or> c \<in> set ''._-''"

definition semver_like :: "string \<Rightarrow> bool" where
  "semver_like s =
     (case split_on CHR ''.'' s of
        a # b # c # _ \<Rightarrow> a \<noteq> [] \<and> list_all is_digit a \<and> b \<noteq> [] \<and> list_all is_digit b \<and> c \<noteq> [] \<and> is_digit (hd c)
      | _ \<Rightarrow> False)"

definition mk_finding :: "finding_code \<Rightarrow> string \<Rightarrow> severity \<Rightarrow> finding" where
  "mk_finding c msg s = \<lparr>fd_code = c, fd_message = msg, fd_severity = s\<rparr>"

definition resource_name :: "json \<Rightarrow> json option" where
  "resource_name r = (case r of JStr s \<Rightarrow> Some (JStr s) | _ \<Rightarrow> jfield r ''name'')"

definition bad_resource :: "json \<Rightarrow> bool" where
  "bad_resource r =
     (case resource_name r of Some (JStr s) \<Rightarrow> s \<notin> set VALID_RESOURCE_NAMES | _ \<Rightarrow> True)"

definition str_such :: "(string \<Rightarrow> bool) \<Rightarrow> json option \<Rightarrow> bool" where
  "str_such P x = (case jstr x of None \<Rightarrow> False | Some s \<Rightarrow> P s)"

definition schema_findings :: "services \<Rightarrow> json \<Rightarrow> finding list" where
  "schema_findings S mf =
     (let invalid = (\<lambda>msg. mk_finding InvalidManifest msg Err) in
      (if str_such (\<lambda>i. i \<noteq> [] \<and> list_all id_char i) (jfield mf ''id'') then []
       else [invalid ''Manifest is missing a valid string id (alphanumeric, dot, underscore, dash)'']) @
      (if jnullish (jfield mf ''name'') \<or> str_such (\<lambda>s. length s \<le> 200) (jfield mf ''name'') then []
       else [invalid ''Manifest name must be a string <= 200 chars'']) @
      (if jnullish (jfield mf ''version'') \<or> str_such semver_like (jfield mf ''version'') then []
       else [invalid ''Manifest version must be semver-like (e.g., 1.0.0)'']) @
      (if jnullish (jfield mf ''types'') then []
       else case jarr (jfield mf ''types'') of
         None \<Rightarrow> [invalid ''Manifest types must be array of movie/series/anime/tv'']
       | Some ts \<Rightarrow>
           if list_all (\<lambda>t. t \<in> JStr ` set [''movie'', ''series'', ''anime'', ''tv'']) ts then []
           else [invalid ''Manifest types must be array of movie/series/anime/tv'']) @
      (if jnullish (jfield mf ''resources'') then []
       else case jarr (jfield mf ''resources'') of
         None \<Rightarrow> [invalid ''Manifest resources must be an array'']
       | Some rs \<Rightarrow>
           (case find bad_resource rs of
              None \<Rightarrow> []
            | Some r \<Rightarrow>
                [invalid (''Invalid resource '' @ [CHR 0x22] @
                   (case resource_name r of None \<Rightarrow> ''undefined'' | Some n \<Rightarrow> js_string (sv_num S) n) @
                   [CHR 0x22] @ '': must be stream/subtitles/catalog/meta'')])))"

definition validateManifest ::
  "'r manager_env \<Rightarrow> store_data \<Rightarrow> json \<Rightarrow> string \<Rightarrow> string \<Rightarrow> finding list" where
  "validateManifest E d mf originalUrl manifestUrl =
     (case mf of
        JObj fs \<Rightarrow>
          (let L = sv_url (me_sv E);
               found =
                 schema_findings (me_sv E) mf @
                 (if hasResource mf ''stream'' \<or> hasResource mf ''subtitles'' then []
                  else [mk_finding MissingStreamResource
                          ''Manifest advertises neither stream nor subtitles resources'' Warning]) @
                 (if urlLooksSecretBearing L originalUrl \<or> urlLooksSecretBearing L manifestUrl
                  then [mk_finding SecretBearingUrl
                          ''Import URL appears to carry credentials or API keys in the query string'' Warning]
                  else []) @
                 (case ul_parse L manifestUrl of
                    None \<Rightarrow> [mk_finding RiskyUrl ''Manifest URL could not be parsed'' Err]
                  | Some u \<Rightarrow>
                      if pu_protocol u = ''http:''
                      then [mk_finding HttpUpstream ''Manifest is served over plain HTTP''
                              (if mc_allowHttpUpstreams (me_cfg E) then Warning else Err)]
                      else []) @
                 (case find (\<lambda>a. ia_manifestUrl a = manifestUrl \<or>
                        jtruthy (jfield mf ''id'') \<and> strict_eq (jfield (ia_manifest a) ''id'') (jfield mf ''id''))
                      (sd_addons d) of
                    None \<Rightarrow> []
                  | Some a \<Rightarrow> [mk_finding DuplicateEndpoint (''Matches existing addon '' @ ia_providerId a) Info])
           in if found = [] then [mk_finding Ok ''Manifest passed validation'' Info] else found)
      | _ \<Rightarrow> [mk_finding InvalidManifest ''Manifest is not an object'' Err])"

subsection \<open>Fetching a manifest\<close>

text \<open>
  \<open>fetchManifest\<close> of \<open>src/stremio/client.ts\<close>: the network's answer to the manifest URL is an
  argument. A throw says whether it is a policy error.
\<close>

datatype http_reply =
    HttpThrows bool string
  | HttpReply int bool "json option" string

type_synonym network = "string \<Rightarrow> http_reply"

record fetched_manifest =
  fm_manifest :: json
  fm_baseUrl :: string
  fm_manifestUrl :: string
  fm_originalUrl :: string

definition fetchManifest ::
  "services \<Rightarrow> network \<Rightarrow> string \<Rightarrow> (bool \<times> string) + fetched_manifest" where
  "fetchManifest S net addonUrl =
     (case parseAddonUrl (sv_url S) addonUrl of
        Inl EmptyAddonUrl \<Rightarrow> Inl (False, ''Empty addon URL'')
      | Inl (InvalidAddonUrl i) \<Rightarrow> Inl (False, ''Invalid addon URL: '' @ i)
      | Inr u \<Rightarrow>
          (case net (au_manifestUrl u) of
             HttpThrows policy msg \<Rightarrow> Inl (policy, msg)
           | HttpReply status ok body finalUrl \<Rightarrow>
               if \<not> ok then Inl (False, ''Manifest HTTP '' @ show_int status @ '' for '' @ sv_redact S (au_manifestUrl u))
               else case body of
                 None \<Rightarrow> Inl (False, ''Manifest is not valid JSON: '' @ sv_redact S (au_manifestUrl u))
               | Some mf \<Rightarrow>
                   if jtruthy (jfield mf ''id'')
                   then Inr \<lparr>fm_manifest = mf, fm_baseUrl = au_baseUrl u,
                             fm_manifestUrl = (if finalUrl \<noteq> [] then finalUrl else au_manifestUrl u),
                             fm_originalUrl = au_original u\<rparr>
                   else Inl (False, ''Manifest missing required '' @ [CHR 0x27] @ ''id'' @ [CHR 0x27] @ '': '' @
                                      sv_redact S (au_manifestUrl u))))"

subsection \<open>Installation\<close>

record install_options =
  io_enable :: "bool option"
  io_aborted :: bool

record install_result =
  ir_ok :: bool
  ir_addon :: "installed_addon option"
  ir_error :: "string option"
  ir_updated :: bool
  ir_findings :: "finding list"
  ir_marketplace :: "classification option"

definition refused :: "string \<Rightarrow> finding list \<Rightarrow> install_result" where
  "refused msg fs = \<lparr>ir_ok = False, ir_addon = None, ir_error = Some msg, ir_updated = False,
                     ir_findings = fs, ir_marketplace = None\<rparr>"

text \<open>The URL as the syntax check sees it.\<close>

definition preview_url :: "string \<Rightarrow> string" where
  "preview_url url =
     (let t = trim url in
      if starts_with t ''stremio://'' then ''https://'' @ drop 10 t
      else if has_http_scheme t then t else ''https://'' @ t)"

text \<open>The first free id: \<open>addon:slug\<close>, then \<open>addon:slug-2\<close>, \<open>addon:slug-3\<close> and so on.\<close>

lemma show_nat_inj: "show_nat a = show_nat b \<longleftrightarrow> a = b"
  by (metis parse_dec_show)

lemma finite_numbered: "finite {k :: nat. n \<le> k \<and> base @ ''-'' @ show_nat k \<in> set taken}"
proof -
  have "inj (\<lambda>k. base @ ''-'' @ show_nat k)" by (simp add: inj_def show_nat_inj)
  then have "finite ((\<lambda>k. base @ ''-'' @ show_nat k) -` set taken)" by (intro finite_vimageI) simp_all
  then show ?thesis by (rule rev_finite_subset) auto
qed

function next_free_id :: "string list \<Rightarrow> string \<Rightarrow> nat \<Rightarrow> string" where
  "next_free_id taken base n =
     (if base @ ''-'' @ show_nat n \<in> set taken then next_free_id taken base (Suc n)
      else base @ ''-'' @ show_nat n)"
  by pat_completeness auto

termination
proof (relation "measure (\<lambda>(taken, base, n). card {k. n \<le> k \<and> base @ ''-'' @ show_nat k \<in> set taken})", goal_cases)
  case (2 taken base n)
  have "{k. Suc n \<le> k \<and> base @ ''-'' @ show_nat k \<in> set taken} \<subset> {k. n \<le> k \<and> base @ ''-'' @ show_nat k \<in> set taken}"
    using 2 by (auto simp: Suc_le_eq)
  then show ?case by (simp add: psubset_card_mono finite_numbered del: append.simps)
qed simp

declare next_free_id.simps [simp del]

definition uniqueProviderId :: "services \<Rightarrow> store_data \<Rightarrow> json \<Rightarrow> string \<Rightarrow> string" where
  "uniqueProviderId S d mf baseUrl =
     (let host = (case ul_parse (sv_url S) baseUrl of None \<Rightarrow> [] | Some u \<Rightarrow> pu_hostname u);
          i = (if jtruthy (jfield mf ''id'') then js_string (sv_num S) (the (jfield mf ''id'')) else []);
          base = safeSlug (if i \<noteq> [] then i else if host \<noteq> [] then host else ''addon'');
          candidate = ''addon:'' @ base;
          taken = map ia_providerId (sd_addons d)
      in if candidate \<in> set taken then next_free_id taken candidate 2 else candidate)"

text \<open>The name a manifest gives, or a default.\<close>

definition name_or :: "json \<Rightarrow> string \<Rightarrow> string" where
  "name_or mf dflt = (case jstr (jfield mf ''name'') of None \<Rightarrow> dflt | Some n \<Rightarrow> if n = [] then dflt else n)"

definition fingerprint_or :: "url_lib \<Rightarrow> string \<Rightarrow> string" where
  "fingerprint_or L url = (case parseAddonUrl L url of Inl e \<Rightarrow> url | Inr u \<Rightarrow> au_fingerprint u)"

text \<open>Which installed addon an import stands for.\<close>

definition same_addon :: "url_lib \<Rightarrow> fetched_manifest \<Rightarrow> installed_addon \<Rightarrow> bool" where
  "same_addon L f a \<longleftrightarrow>
     ia_manifestUrl a = fm_manifestUrl f \<or> ia_baseUrl a = fm_baseUrl f \<or>
     (case parseAddonUrl L (ia_manifestUrl a) of
        Inl e \<Rightarrow> False
      | Inr u \<Rightarrow> au_fingerprint u = fingerprint_or L (fm_manifestUrl f))"

definition policy_for :: "'r manager_env \<Rightarrow> json \<Rightarrow> policy_decision" where
  "policy_for E mf =
     evaluateImportPolicy
       (manifestFingerprint (sv_hash (me_sv E)) (collate_of E) (sv_leaf (me_sv E)) mf)
       (id_text (sv_num (me_sv E)) mf) (mc_market (me_cfg E))"

definition marketplace_of :: "policy_decision \<Rightarrow> classification" where
  "marketplace_of dec = \<lparr>cl_level = pd_trustLevel dec, cl_reason = pd_reason dec,
                         cl_fingerprint = pd_fingerprint dec, cl_matchedBy = pd_matchedBy dec\<rparr>"

definition reinstalled ::
  "time_ms \<Rightarrow> fetched_manifest \<Rightarrow> string \<Rightarrow> finding list \<Rightarrow> policy_decision \<Rightarrow> bool \<Rightarrow> installed_addon \<Rightarrow>
     installed_addon" where
  "reinstalled now f orig findings dec enable a =
     a\<lparr>ia_name := name_or (fm_manifest f) (ia_name a), ia_manifest := fm_manifest f, ia_baseUrl := fm_baseUrl f,
       ia_manifestUrl := fm_manifestUrl f, ia_originalImportUrl := Some orig,
       ia_validationFindings := findings, ia_capabilities := Some (capabilitiesFor (fm_manifest f)),
       ia_manifestFingerprint := Some (pd_fingerprint dec),
       ia_admissionState := (if enable then Some Validated
         else Some (or_else (ia_admissionState a) Validated)),
       ia_updatedAt := now\<rparr>"

definition max_order :: "installed_addon list \<Rightarrow> int" where
  "max_order as' = fold (\<lambda>a m. max m (ia_order a)) as' (- 1)"

definition new_addon ::
  "time_ms \<Rightarrow> string \<Rightarrow> fetched_manifest \<Rightarrow> string \<Rightarrow> finding list \<Rightarrow> policy_decision \<Rightarrow> bool \<Rightarrow> int \<Rightarrow>
     addon_source \<Rightarrow> installed_addon" where
  "new_addon now pid f orig findings dec enable n src =
     \<lparr>ia_providerId = pid, ia_slug = drop 6 pid, ia_name = name_or (fm_manifest f) pid,
      ia_originalImportUrl = Some orig, ia_manifestUrl = fm_manifestUrl f, ia_baseUrl = fm_baseUrl f,
      ia_enabled = enable, ia_admissionState = Some (if enable then Validated else Pending),
      ia_validationFindings = findings, ia_order = n, ia_timeoutMs = DEFAULT_ADDON_TIMEOUT_MS,
      ia_source = src, ia_manifest = fm_manifest f, ia_addedAt = now, ia_updatedAt = now,
      ia_health = None, ia_capabilities = Some (capabilitiesFor (fm_manifest f)),
      ia_manifestFingerprint = Some (pd_fingerprint dec)\<rparr>"

abbreviation with_addons :: "(installed_addon list \<Rightarrow> installed_addon list) \<Rightarrow> 'r manager \<Rightarrow> 'r manager" where
  "with_addons f m \<equiv> m\<lparr>mg_data := (mg_data m)\<lparr>sd_addons := f (sd_addons (mg_data m))\<rparr>\<rparr>"

text \<open>What every mutation ends with: the registry follows, the revision moves, the store is written.\<close>

definition commit :: "'r manager_env \<Rightarrow> 'r manager \<Rightarrow> 'r manager" where
  "commit E m = persist E (bump_revision (reconcileRegistry E m))"

definition error_findings :: "finding list \<Rightarrow> finding list" where
  "error_findings fs = filter (\<lambda>f. fd_severity f = Err) fs"

definition admit_manifest ::
  "'r manager_env \<Rightarrow> time_ms \<Rightarrow> fetched_manifest \<Rightarrow> string \<Rightarrow> addon_source \<Rightarrow> install_options \<Rightarrow> finding list \<Rightarrow>
     policy_decision \<Rightarrow> 'r manager \<Rightarrow> install_result \<times> 'r manager" where
  "admit_manifest E now f orig src io findings dec m =
     (let enable = (or_else (io_enable io) (or_else (mc_importEnableOnInstall (me_cfg E)) True)) \<and> pd_mayAutoEnable dec;
          d = mg_data m
      in case find_index (same_addon (sv_url (me_sv E)) f) (sd_addons d) of
           Some i \<Rightarrow>
             (let a = reinstalled now f orig findings dec enable (sd_addons d ! i);
                  m1 = with_addons (\<lambda>l. l[i := a]) m;
                  m2 = (if ia_enabled a
                        then registerProvider E a (unregisterProvider E (ia_providerId a) m1) else m1)
              in (\<lparr>ir_ok = True, ir_addon = Some a, ir_error = None, ir_updated = True, ir_findings = findings,
                   ir_marketplace = Some (marketplace_of dec)\<rparr>, commit E m2))
         | None \<Rightarrow>
             (let a = new_addon now (uniqueProviderId (me_sv E) d (fm_manifest f) (fm_baseUrl f)) f orig findings dec
                        enable (max_order (sd_addons d) + 1) src
              in (\<lparr>ir_ok = True, ir_addon = Some a, ir_error = None, ir_updated = False, ir_findings = findings,
                   ir_marketplace = Some (marketplace_of dec)\<rparr>,
                  commit E (with_addons (\<lambda>l. l @ [a]) m))))"

definition installInternal ::
  "'r manager_env \<Rightarrow> time_ms \<Rightarrow> network \<Rightarrow> string \<Rightarrow> addon_source \<Rightarrow> install_options \<Rightarrow> 'r manager \<Rightarrow>
     install_result \<times> 'r manager" where
  "installInternal E now net url src io m =
     (let S = me_sv E in
      if io_aborted io
      then (refused ''Import cancelled'' [mk_finding InvalidManifest ''Import cancelled'' Err], m)
      else case assertUrlSyntax (map_option parsed_url.truncate \<circ> ul_parse (sv_url S)) (preview_url url)
                  (urlPolicy (me_cfg E)) of
        Inl e \<Rightarrow> (refused (sv_policy_text S e) [mk_finding PolicyViolation (sv_policy_text S e) Err], m)
      | Inr _ \<Rightarrow>
          (case fetchManifest S net url of
             Inl (policy, msg) \<Rightarrow>
               (refused msg [mk_finding (if policy then PolicyViolation else InvalidManifest) msg Err], m)
           | Inr f \<Rightarrow>
               (let orig = (if fm_originalUrl f \<noteq> [] then fm_originalUrl f else trim url);
                    findings = validateManifest E (mg_data m) (fm_manifest f) orig (fm_manifestUrl f);
                    dec = policy_for E (fm_manifest f)
                in if \<not> pd_allowed dec
                   then (refused (pd_reason dec) (findings @ [the (pd_finding dec)]), m)
                   else if error_findings findings \<noteq> []
                   then (refused (join_with ''; '' (map fd_message (error_findings findings))) findings, m)
                   else admit_manifest E now f orig src io findings dec m)))"

text \<open>\<open>installMany\<close>; the signal is read before each URL, and a cancelled batch throws: \<open>None\<close>.\<close>

fun install_batch ::
  "'r manager_env \<Rightarrow> time_ms \<Rightarrow> network \<Rightarrow> addon_source \<Rightarrow> bool option \<Rightarrow> (nat \<Rightarrow> bool) \<Rightarrow> nat \<Rightarrow> string list \<Rightarrow>
     install_result list \<Rightarrow> 'r manager \<Rightarrow> install_result list option \<times> 'r manager" where
  "install_batch E now net src en aborted i [] results m = (Some results, m)"
| "install_batch E now net src en aborted i (url # urls) results m =
     (if aborted i then (None, m)
      else let (r, m1) = installInternal E now net url src \<lparr>io_enable = en, io_aborted = False\<rparr> m
           in install_batch E now net src en aborted (Suc i) urls (results @ [r]) m1)"

definition installMany ::
  "'r manager_env \<Rightarrow> time_ms \<Rightarrow> network \<Rightarrow> string list \<Rightarrow> addon_source \<Rightarrow> bool option \<Rightarrow> (nat \<Rightarrow> bool) \<Rightarrow> 'r manager \<Rightarrow>
     install_result list option \<times> 'r manager" where
  "installMany E now net urls src en aborted m =
     (let cap = mc_importMaxUrls (me_cfg E);
          capped = take cap urls;
          (res, m1) = install_batch E now net src en aborted 0 capped [] m
      in (map_option (\<lambda>rs. if length capped < length urls
            then rs @ [refused (''Import capped at '' @ show_nat cap @ '' URLs (received '' @
                                 show_nat (length urls) @ '')'') []]
            else rs) res, m1))"

subsection \<open>Other mutations\<close>

definition update_addon :: "string \<Rightarrow> (installed_addon \<Rightarrow> installed_addon) \<Rightarrow> installed_addon list \<Rightarrow> installed_addon list" where
  "update_addon pid f l =
     (case find_index (\<lambda>a. ia_providerId a = pid) l of None \<Rightarrow> l | Some i \<Rightarrow> l[i := f (l ! i)])"

definition remove_addon :: "'r manager_env \<Rightarrow> string \<Rightarrow> 'r manager \<Rightarrow> bool \<times> 'r manager" where
  "remove_addon E pid m =
     (case find_index (\<lambda>a. ia_providerId a = pid) (sd_addons (mg_data m)) of
        None \<Rightarrow> (False, m)
      | Some i \<Rightarrow> (True, persist E (bump_revision (with_addons (remove_at i) (unregisterProvider E pid m)))))"

definition setEnabled :: "'r manager_env \<Rightarrow> time_ms \<Rightarrow> string \<Rightarrow> bool \<Rightarrow> 'r manager \<Rightarrow> installed_addon option \<times> 'r manager" where
  "setEnabled E now pid en m =
     (case get_addon pid (mg_data m) of
        None \<Rightarrow> (None, m)
      | Some a \<Rightarrow>
          (let upd = (\<lambda>a. a\<lparr>ia_enabled := en, ia_admissionState := Some (if en then Validated else Disabled),
                            ia_updatedAt := now\<rparr>)
           in (Some (upd a), commit E (with_addons (update_addon pid upd) m))))"

definition clamp_timeout :: "int \<Rightarrow> int" where
  "clamp_timeout t = max 1000 (min 120000 t)"

definition setTimeout :: "'r manager_env \<Rightarrow> time_ms \<Rightarrow> string \<Rightarrow> int \<Rightarrow> 'r manager \<Rightarrow> installed_addon option \<times> 'r manager" where
  "setTimeout E now pid t m =
     (case get_addon pid (mg_data m) of
        None \<Rightarrow> (None, m)
      | Some a \<Rightarrow>
          (let upd = (\<lambda>a. a\<lparr>ia_timeoutMs := clamp_timeout t, ia_updatedAt := now\<rparr>);
               m1 = with_addons (update_addon pid upd) m
           in (Some (upd a), commit E (registerProvider E (upd a) (unregisterProvider E pid m1)))))"

text \<open>\<open>sortAddons(addons).forEach((a, i) => a.order = i)\<close>: the array keeps its order.\<close>

definition renumber :: "(string \<Rightarrow> int) \<Rightarrow> installed_addon list \<Rightarrow> installed_addon list" where
  "renumber collate l =
     (let order = map fst (sort_key (\<lambda>(j, a). addon_rank collate a) (enumerate 0 l))
      in map (\<lambda>(j, a). a\<lparr>ia_order := int (or_else (find_index (\<lambda>k. k = j) order) 0)\<rparr>) (enumerate 0 l))"

text \<open>\<open>new Map(ids.map((id, i) => [id, i]))\<close>: the last position of an id.\<close>

definition id_rank :: "string list \<Rightarrow> string \<Rightarrow> nat option" where
  "id_rank ids pid = jm_get (fold (\<lambda>(i, x). jm_set x i) (enumerate 0 ids) []) pid"

definition reorder :: "'r manager_env \<Rightarrow> string list \<Rightarrow> 'r manager \<Rightarrow> 'r manager" where
  "reorder E ids m =
     commit E (with_addons (\<lambda>l. renumber (collate_of E)
       (map (\<lambda>(i, a). a\<lparr>ia_order := (case id_rank ids (ia_providerId a) of
            Some k \<Rightarrow> int k | None \<Rightarrow> int (length ids) + int i)\<rparr>) (enumerate 0 l))) m)"

definition drift_finding :: finding where
  "drift_finding = mk_finding FingerprintDrift
     ''Manifest fingerprint changed since the last refresh - review the addon before re-trusting it'' Warning"

definition refresh :: "'r manager_env \<Rightarrow> time_ms \<Rightarrow> network \<Rightarrow> string \<Rightarrow> 'r manager \<Rightarrow> install_result \<times> 'r manager" where
  "refresh E now net pid m =
     (case get_addon pid (mg_data m) of
        None \<Rightarrow> (refused ''Addon not found'' [], m)
      | Some a \<Rightarrow>
          (let url = (if or_else (ia_originalImportUrl a) [] \<noteq> [] then the (ia_originalImportUrl a) else ia_manifestUrl a);
               (r, m1) = installInternal E now net url (ia_source a)
                           \<lparr>io_enable = Some (ia_enabled a), io_aborted = False\<rparr> m;
               before = or_else (ia_manifestFingerprint a) [];
               after = (case ir_marketplace r of None \<Rightarrow> [] | Some c \<Rightarrow> cl_fingerprint c)
           in (if ir_ok r \<and> before \<noteq> [] \<and> after \<noteq> [] \<and> after \<noteq> before
               then r\<lparr>ir_findings := ir_findings r @ [drift_finding]\<rparr> else r, m1)))"

subsection \<open>Debrid settings, health, loading\<close>

definition getSettings :: "store_data \<Rightarrow> debrid_settings" where
  "getSettings d = or_else (sd_settings d) defaultSettings"

definition debridLockedByEnv :: "manager_config \<Rightarrow> bool" where
  "debridLockedByEnv c \<longleftrightarrow> mc_debridApiKey c \<noteq> [] \<and> mc_debridProvider c \<noteq> ''none''"

definition openDebridKey :: "services \<Rightarrow> string \<Rightarrow> string" where
  "openDebridKey S stored =
     (if stored = [] then [] else case sb_open (sv_box S) stored of Inr k \<Rightarrow> k | Inl e \<Rightarrow> [])"

definition applyDebrid :: "'r manager_env \<Rightarrow> 'r manager \<Rightarrow> 'r manager" where
  "applyDebrid E m =
     (if debridLockedByEnv (me_cfg E)
      then m\<lparr>mg_debrid := \<lparr>dr_provider = mc_debridProvider (me_cfg E), dr_apiKey = mc_debridApiKey (me_cfg E),
                           dr_source = ''env''\<rparr>\<rparr>
      else
        (let d = getSettings (mg_data m); k = openDebridKey (me_sv E) (ds_apiKey d) in
         m\<lparr>mg_debrid := \<lparr>dr_provider = ds_provider d, dr_apiKey = k,
             dr_source = (if k \<noteq> [] \<and> ds_provider d \<noteq> ''none'' then ''store'' else ''none'')\<rparr>\<rparr>))"

definition updateDebridSettings ::
  "'r manager_env \<Rightarrow> string option \<Rightarrow> string option \<Rightarrow> 'r manager \<Rightarrow> 'r manager" where
  "updateDebridSettings E prov key m =
     (let d = getSettings (mg_data m);
          d1 = (case prov of None \<Rightarrow> d | Some p \<Rightarrow> d\<lparr>ds_provider := p\<rparr>);
          d2 = (case key of None \<Rightarrow> d1
                | Some k \<Rightarrow> d1\<lparr>ds_apiKey := (if k = [] then [] else sb_seal (sv_box (me_sv E)) k)\<rparr>);
          m1 = m\<lparr>mg_data := (mg_data m)\<lparr>sd_settings := Some d2\<rparr>\<rparr>
      in applyDebrid E (persist E (bump_revision m1)))"

record health_details =
  hd_lastChecked :: "time_ms option option"
  hd_checkType :: "check_type option"
  hd_consecutiveSuccesses :: "int option"
  hd_consecutiveFailures :: "int option"
  hd_latencyMs :: "int option"
  hd_failureClassification :: "string option"
  hd_freshnessWindowMs :: "int option"
  hd_isFresh :: "bool option"
  hd_circuitState :: "string option"
  hd_error :: "string option"

datatype health_report = NoDetails | ErrorText string | Details health_details

text \<open>A last check that is no date is never fresh.\<close>

definition fresh_at :: "time_ms \<Rightarrow> time_ms option \<Rightarrow> int \<Rightarrow> bool" where
  "fresh_at now checked window = (case checked of None \<Rightarrow> False | Some t \<Rightarrow> now - t \<le> window)"

definition health_of ::
  "manager_config \<Rightarrow> time_ms \<Rightarrow> bool \<Rightarrow> health_report \<Rightarrow> addon_health option \<Rightarrow> addon_health" where
  "health_of c now healthy report prev =
     (let succ = (if healthy then or_else (map_option hl_consecutiveSuccesses prev) 0 + 1 else 0);
          fail = (if \<not> healthy then or_else (map_option hl_consecutiveFailures prev) 0 + 1 else 0);
          mins = (if mc_healthStaleThresholdMinutes c = 0 then 60 else mc_healthStaleThresholdMinutes c);
          window0 = mins * 60 * 1000;
          checked = (case report of Details h \<Rightarrow> or_else (hd_lastChecked h) (Some now) | _ \<Rightarrow> Some now);
          window = (case report of Details h \<Rightarrow> or_else (hd_freshnessWindowMs h) window0 | _ \<Rightarrow> window0);
          fresh = fresh_at now checked window;
          class0 = (if healthy then ''none'' else ''network'');
          latency0 = or_else (map_option hl_latencyMs prev) 0
      in case report of
           Details h \<Rightarrow>
             \<lparr>hl_healthy = healthy, hl_lastChecked = checked, hl_checkType = or_else (hd_checkType h) ManifestCheck,
              hl_consecutiveSuccesses = or_else (hd_consecutiveSuccesses h) succ,
              hl_consecutiveFailures = or_else (hd_consecutiveFailures h) fail,
              hl_latencyMs = or_else (hd_latencyMs h) 0,
              hl_failureClassification = (case hd_failureClassification h of
                 None \<Rightarrow> class0 | Some x \<Rightarrow> if x = [] then class0 else x),
              hl_freshnessWindowMs = window, hl_isFresh = or_else (hd_isFresh h) fresh,
              hl_circuitState = hd_circuitState h, hl_error = hd_error h\<rparr>
         | _ \<Rightarrow>
             \<lparr>hl_healthy = healthy, hl_lastChecked = checked, hl_checkType = ManifestCheck,
              hl_consecutiveSuccesses = succ, hl_consecutiveFailures = fail, hl_latencyMs = latency0,
              hl_failureClassification = class0, hl_freshnessWindowMs = window, hl_isFresh = fresh,
              hl_circuitState = None,
              hl_error = (case report of ErrorText e \<Rightarrow> Some e | _ \<Rightarrow> None)\<rparr>)"

definition setHealth :: "'r manager_env \<Rightarrow> time_ms \<Rightarrow> string \<Rightarrow> bool \<Rightarrow> health_report \<Rightarrow> 'r manager \<Rightarrow> 'r manager" where
  "setHealth E now pid healthy report m =
     (case get_addon pid (mg_data m) of
        None \<Rightarrow> m
      | Some a \<Rightarrow>
          persist E (with_addons (update_addon pid
            (\<lambda>a. a\<lparr>ia_health := Some (health_of (me_cfg E) now healthy report (ia_health a))\<rparr>)) m))"

definition backfill :: "installed_addon \<Rightarrow> installed_addon" where
  "backfill a = a\<lparr>ia_capabilities := Some (or_else (ia_capabilities a) (capabilitiesFor (ia_manifest a)))\<rparr>"

text \<open>\<open>fresh\<close> is what the store holds, \<open>None\<close> when reading it fails.\<close>

definition reloadFromStorage :: "'r manager_env \<Rightarrow> store_data option \<Rightarrow> 'r manager \<Rightarrow> bool \<times> 'r manager" where
  "reloadFromStorage E fresh m =
     (case fresh of
        None \<Rightarrow> (False, m)
      | Some f \<Rightarrow>
          if sd_revision f \<le> sd_revision (mg_data m) then (False, m)
          else (True, reconcileRegistry E (applyDebrid E
                  (m\<lparr>mg_data := f\<lparr>sd_addons := renumber (collate_of E)
                       (map (\<lambda>a. backfill (openAddonUrls (me_sv E) a)) (sd_addons f))\<rparr>\<rparr>))))"

definition needs_seal :: "services \<Rightarrow> installed_addon \<Rightarrow> bool" where
  "needs_seal S a \<longleftrightarrow>
     list_ex (\<lambda>u. urlLooksSecretBearing (sv_url S) u \<and> \<not> isSealed u)
       [or_else (ia_originalImportUrl a) [], ia_manifestUrl a, ia_baseUrl a]"

definition migrate_settings :: "services \<Rightarrow> store_data \<Rightarrow> bool \<times> store_data" where
  "migrate_settings S d =
     (let st = getSettings d in
      if ds_apiKey st \<noteq> [] \<and> \<not> isSealed (ds_apiKey st)
      then (True, d\<lparr>sd_settings := Some (st\<lparr>ds_apiKey := sb_seal (sv_box S) (ds_apiKey st)\<rparr>)\<rparr>)
      else (False, d))"

definition init_manager ::
  "'r manager_env \<Rightarrow> time_ms \<Rightarrow> network \<Rightarrow> store_data \<Rightarrow> 'r manager \<Rightarrow> 'r manager" where
  "init_manager E now net loaded m =
     (let S = me_sv E;
          opened = map (\<lambda>a. backfill (openAddonUrls S a)) (sd_addons loaded);
          (migrated, d1) = migrate_settings S (loaded\<lparr>sd_addons := opened\<rparr>);
          m1 = m\<lparr>mg_data := d1\<rparr>;
          m2 = (if migrated \<or> list_ex (needs_seal S) opened then persist E m1 else m1);
          m3 = with_addons (\<lambda>l. map (\<lambda>a. a\<lparr>ia_capabilities := Some (capabilitiesFor (ia_manifest a))\<rparr>)
                 (renumber (collate_of E) l)) m2;
          m4 = fold (\<lambda>a m. if stream_enabled a then registerProvider E a m else m) (sd_addons (mg_data m3)) m3;
          m5 = (if sd_addons (mg_data m4) = [] \<and> mc_seedUrls (me_cfg E) \<noteq> []
                then snd (installMany E now net (mc_seedUrls (me_cfg E)) Seed None (\<lambda>_. False) m4) else m4)
      in applyDebrid E m5)"

end
