(* ===== verification/ManagerFacts.thy ===== *)
theory ManagerFacts
  imports Manager
begin

text \<open>
  What the addon manager keeps: ids and orders stay distinct, timeouts bounded, and the provider
  registry in step with the list. The laws of the framework's registry are a hypothesis.
\<close>

subsection \<open>Lemmas: the registry\<close>

text \<open>\<open>reg\<close> replaces the registry and nothing else.\<close>

abbreviation reg :: "'r \<Rightarrow> 'r manager \<Rightarrow> 'r manager" where
  "reg r m \<equiv> m\<lparr>mg_registry := r\<rparr>"

lemma provider_of_reg [simp]: "provider_of E (reg r m) = provider_of E m"
  by (simp add: provider_of_def fun_eq_iff)

lemma pv_id_provider_of [simp]: "pv_id (provider_of E m a) = ia_providerId a"
  by (simp add: provider_of_def)

lemma has_addon:
  "registry_laws (me_api E) \<Longrightarrow> is_addon_id i \<Longrightarrow> ra_hasProvider (me_api E) r i \<longleftrightarrow> i \<in> set (map pv_id (addon_providers E r))"
  by (auto simp: registry_laws_def addon_providers_def)

lemma addon_providers_unregister:
  "registry_laws (me_api E) \<Longrightarrow> addon_providers E (ra_unregister (me_api E) i r) = filter (\<lambda>p. pv_id p \<noteq> i) (addon_providers E r)"
  by (simp add: registry_laws_def addon_providers_def conj_commute)

lemma addon_providers_register:
  "registry_laws (me_api E) \<Longrightarrow> \<not> ra_hasProvider (me_api E) r (pv_id p) \<Longrightarrow> is_addon_id (pv_id p) \<Longrightarrow>
     addon_providers E (ra_register (me_api E) p r) = addon_providers E r @ [p]"
  by (simp add: registry_laws_def addon_providers_def)

lemma filter_ids: "filter P (filter Q xs) = filter R xs" if "\<And>x. x \<in> set xs \<Longrightarrow> (P x \<and> Q x) = R x"
  using that by (simp add: conj_commute cong: filter_cong)

lemma drop_stale_fold:
  assumes "registry_laws (me_api E)"
  shows "\<exists>r. fold (\<lambda>pid m. if pid \<notin> set des \<and> is_addon_id pid then unregisterProvider E pid m else m) ids m =
     reg r m \<and> addon_providers E r =
     filter (\<lambda>p. \<not> (pv_id p \<in> set ids \<and> pv_id p \<notin> set des)) (addon_providers E (mg_registry m))"
proof (induction ids arbitrary: m)
  case Nil
  show ?case by (intro exI [of _ "mg_registry m"]) simp
next
  case (Cons i ids)
  have addon: "is_addon_id (pv_id p)" if "p \<in> set (addon_providers E (mg_registry m))" for p
    using that by (simp add: addon_providers_def)
  let ?drop = "i \<notin> set des \<and> is_addon_id i"
  let ?m = "if ?drop then unregisterProvider E i m else m"
  obtain r where r: "fold (\<lambda>pid m. if pid \<notin> set des \<and> is_addon_id pid then unregisterProvider E pid m else m) ids ?m =
      reg r ?m" "addon_providers E r =
      filter (\<lambda>p. \<not> (pv_id p \<in> set ids \<and> pv_id p \<notin> set des)) (addon_providers E (mg_registry ?m))"
    using Cons [of ?m] by blast
  have m: "reg r ?m = reg r m" by (simp add: unregisterProvider_def)
  have "addon_providers E (mg_registry ?m) =
      filter (\<lambda>p. \<not> (pv_id p = i \<and> i \<notin> set des)) (addon_providers E (mg_registry m))"
    using addon
    by (auto simp: unregisterProvider_def addon_providers_unregister [OF assms] intro!: filter_True [symmetric] filter_cong)
  then have "addon_providers E r =
      filter (\<lambda>p. \<not> (pv_id p \<in> set (i # ids) \<and> pv_id p \<notin> set des)) (addon_providers E (mg_registry m))"
    unfolding r(2) by (simp only: filter_filter) (rule filter_cong, auto)
  then show ?case using r(1) m by (intro exI [of _ r]) simp
qed

lemma drop_stale_spec:
  assumes "registry_laws (me_api E)"
  shows "\<exists>r. drop_stale E des m = reg r m \<and>
     addon_providers E r = filter (\<lambda>p. pv_id p \<in> set des) (addon_providers E (mg_registry m))"
proof -
  have all: "pv_id p \<in> set (ra_listProviders (me_api E) (mg_registry m))"
    if "p \<in> set (addon_providers E (mg_registry m))" for p
    using assms that by (auto simp: registry_laws_def addon_providers_def)
  obtain r where r: "drop_stale E des m = reg r m" "addon_providers E r =
      filter (\<lambda>p. \<not> (pv_id p \<in> set (ra_listProviders (me_api E) (mg_registry m)) \<and> pv_id p \<notin> set des))
        (addon_providers E (mg_registry m))"
    using drop_stale_fold [OF assms, of des "ra_listProviders (me_api E) (mg_registry m)" m]
    by (auto simp: drop_stale_def)
  moreover have "addon_providers E r = filter (\<lambda>p. pv_id p \<in> set des) (addon_providers E (mg_registry m))"
    unfolding r(2) using all by (intro filter_cong) auto
  ultimately show ?thesis by blast
qed

lemma unregister_all:
  assumes "registry_laws (me_api E)"
  shows "\<exists>r. fold (unregisterProvider E) ids m = reg r m \<and>
     addon_providers E r = filter (\<lambda>p. pv_id p \<notin> set ids) (addon_providers E (mg_registry m))"
proof (induction ids arbitrary: m)
  case Nil
  show ?case by (intro exI [of _ "mg_registry m"]) simp
next
  case (Cons i ids)
  obtain r where r: "fold (unregisterProvider E) ids (unregisterProvider E i m) = reg r (unregisterProvider E i m)"
    "addon_providers E r = filter (\<lambda>p. pv_id p \<notin> set ids) (addon_providers E (mg_registry (unregisterProvider E i m)))"
    using Cons by blast
  have "addon_providers E r = filter (\<lambda>p. pv_id p \<notin> set (i # ids)) (addon_providers E (mg_registry m))"
    unfolding r(2) by (simp add: unregisterProvider_def addon_providers_unregister [OF assms])
  then show ?case using r(1) by (intro exI [of _ r]) (simp add: unregisterProvider_def [of E i m])
qed

lemma register_fresh:
  assumes "registry_laws (me_api E)" "stream_enabled a" "is_addon_id (ia_providerId a)"
    and "ia_providerId a \<notin> set (map pv_id (addon_providers E (mg_registry m)))"
  shows "\<exists>r. registerProvider E a m = reg r m \<and>
    addon_providers E r = addon_providers E (mg_registry m) @ [provider_of E m a]"
proof -
  have "isStreamCapable (or_else (ia_capabilities a) (capabilitiesFor (ia_manifest a)))" "ia_enabled a"
    using assms(2) by (auto simp: stream_enabled_def split: option.splits)
  then show ?thesis
    using assms addon_providers_register [of E "mg_registry m" "provider_of E m a"]
    by (auto simp: registerProvider_def has_addon)
qed

lemma register_all:
  assumes "registry_laws (me_api E)" "\<forall>a \<in> set as'. stream_enabled a \<and> is_addon_id (ia_providerId a)" "distinct (map ia_providerId as')"
    and "\<forall>a \<in> set as'. ia_providerId a \<notin> set (map pv_id (addon_providers E (mg_registry m)))"
  shows "\<exists>r. fold (registerProvider E) as' m = reg r m \<and>
    addon_providers E r = addon_providers E (mg_registry m) @ map (provider_of E m) as'"
  using assms
proof (induction as' arbitrary: m)
  case Nil
  show ?case by (intro exI [of _ "mg_registry m"]) simp
next
  case (Cons a as')
  obtain r where r: "registerProvider E a m = reg r m"
    "addon_providers E r = addon_providers E (mg_registry m) @ [provider_of E m a]"
    using register_fresh [of E a m] Cons.prems by auto
  have "\<forall>b \<in> set as'. ia_providerId b \<notin> set (map pv_id (addon_providers E (mg_registry (reg r m))))"
    using Cons.prems(3,4) r(2) by (auto simp: image_iff)
  then obtain r2 where "fold (registerProvider E) as' (reg r m) = reg r2 (reg r m)"
    "addon_providers E r2 = addon_providers E r @ map (provider_of E m) as'"
    using Cons.IH [of "reg r m"] Cons.prems by auto
  then show ?case using r by (intro exI [of _ r2]) simp
qed

lemma reconcile_spec:
  assumes laws: "registry_laws (me_api E)"
    and "\<forall>a \<in> set (sd_addons (mg_data m)). is_addon_id (ia_providerId a)"
    and "distinct (map ia_providerId (sd_addons (mg_data m)))"
  shows "\<exists>r. reconcileRegistry E m = reg r m \<and>
    addon_providers E r =
      (let ordered = getStreamEnabled (collate_of E) (mg_data m);
           kept = filter (\<lambda>p. pv_id p \<in> set (map ia_providerId ordered)) (addon_providers E (mg_registry m))
       in if map pv_id kept = map ia_providerId ordered then kept else map (provider_of E m) ordered)"
proof -
  let ?o = "getStreamEnabled (collate_of E) (mg_data m)"
  let ?kept = "filter (\<lambda>p. pv_id p \<in> set (map ia_providerId ?o)) (addon_providers E (mg_registry m))"
  have o: "\<forall>a \<in> set ?o. stream_enabled a \<and> is_addon_id (ia_providerId a)"
    using assms(2) by (simp add: getStreamEnabled_def)
  have dist: "distinct (map ia_providerId ?o)"
  proof -
    have "distinct (map ia_providerId (sortAddons (collate_of E) (sd_addons (mg_data m))))"
      using assms(3) by (metis mset_map mset_sortAddons mset_eq_imp_distinct_iff)
    then show ?thesis by (simp add: getStreamEnabled_def distinct_map_filter)
  qed
  obtain r1 where r1: "drop_stale E (map ia_providerId ?o) m = reg r1 m" "addon_providers E r1 = ?kept"
    using drop_stale_spec [OF laws] by blast
  show ?thesis
  proof (cases "map pv_id ?kept = map ia_providerId ?o")
    case True
    have has: "ra_hasProvider (me_api E) r1 (ia_providerId a)" if "a \<in> set ?o" for a
    proof -
      have "ia_providerId a \<in> set (map pv_id (addon_providers E r1))"
        unfolding r1(2) True using that by simp
      then show ?thesis using o that by (simp add: has_addon [OF laws])
    qed
    have "fold (\<lambda>a m. if ra_hasProvider (me_api E) (mg_registry m) (ia_providerId a) then m
                        else registerProvider E a m) xs (reg r1 m) = reg r1 m" if "set xs \<subseteq> set ?o" for xs
      using that has by (induction xs) auto
    then have "reconcileRegistry E m = reg r1 m"
      using True by (simp add: reconcileRegistry_def Let_def r1)
    then show ?thesis using True r1(2) by (intro exI [of _ r1]) simp
  next
    case False
    obtain r2 where r2: "fold (unregisterProvider E) (map pv_id ?kept) (reg r1 m) = reg r2 m"
      "addon_providers E r2 = []"
      using unregister_all [OF laws, of "map pv_id ?kept" "reg r1 m"] r1(2) by (auto simp: filter_empty_conv)
    obtain r3 where r3: "fold (registerProvider E) ?o (reg r2 m) = reg r3 m"
      "addon_providers E r3 = map (provider_of E m) ?o"
      using register_all [OF laws o dist, of "reg r2 m"] r2(2) by auto
    have "reconcileRegistry E m =
        fold (registerProvider E) ?o (fold (unregisterProvider E) (map pv_id ?kept) (reg r1 m))"
      using False unfolding reconcileRegistry_def Let_def r1(1) by (simp add: r1(2))
    then have "reconcileRegistry E m = reg r3 m"
      unfolding r2(1) r3(1) by simp
    then show ?thesis using False r3(2) by (intro exI [of _ r3]) simp
  qed
qed

text \<open>If what the registry keeps of the wanted ids is current, reconciling makes it exact.\<close>

lemma reconcile_current:
  assumes laws: "registry_laws (me_api E)"
    and "\<forall>a \<in> set (sd_addons (mg_data m)). is_addon_id (ia_providerId a)"
    and "distinct (map ia_providerId (sd_addons (mg_data m)))"
    and "\<forall>p \<in> set (addon_providers E (mg_registry m)).
           \<forall>a \<in> set (getStreamEnabled (collate_of E) (mg_data m)). pv_id p = ia_providerId a \<longrightarrow> p = provider_of E m a"
  shows "\<exists>r. reconcileRegistry E m = reg r m \<and>
    addon_providers E r = map (provider_of E m) (getStreamEnabled (collate_of E) (mg_data m))"
proof -
  let ?o = "getStreamEnabled (collate_of E) (mg_data m)"
  let ?kept = "filter (\<lambda>p. pv_id p \<in> set (map ia_providerId ?o)) (addon_providers E (mg_registry m))"
  have "?kept = map (provider_of E m) ?o" if eq: "map pv_id ?kept = map ia_providerId ?o"
  proof (rule nth_equalityI)
    show len: "length ?kept = length (map (provider_of E m) ?o)" using eq by (metis length_map)
    fix i assume i: "i < length ?kept"
    then have "pv_id (?kept ! i) = ia_providerId (?o ! i)"
      using eq len by (metis length_map nth_map)
    moreover have "?kept ! i \<in> set (addon_providers E (mg_registry m))"
      using i nth_mem by fastforce
    moreover have "?o ! i \<in> set ?o" using i len by simp
    ultimately show "?kept ! i = map (provider_of E m) ?o ! i" using assms(4) i len by simp
  qed
  then show ?thesis using reconcile_spec [OF assms(1-3)] by (auto simp: Let_def)
qed

subsection \<open>Invariants\<close>

definition addon_ok :: "installed_addon \<Rightarrow> bool" where
  "addon_ok a \<longleftrightarrow> is_addon_id (ia_providerId a) \<and> ia_capabilities a = Some (capabilitiesFor (ia_manifest a)) \<and>
     1000 \<le> ia_timeoutMs a \<and> ia_timeoutMs a \<le> 120000"

definition addons_ok :: "installed_addon list \<Rightarrow> bool" where
  "addons_ok l \<longleftrightarrow> distinct (map ia_providerId l) \<and> distinct (map ia_order l) \<and> list_all addon_ok l"

text \<open>The registry holds exactly the stream providers, in priority order, as they are now.\<close>

definition in_step :: "'r manager_env \<Rightarrow> 'r manager \<Rightarrow> bool" where
  "in_step E m \<longleftrightarrow> addon_providers E (mg_registry m) =
     map (provider_of E m) (getStreamEnabled (collate_of E) (mg_data m))"

definition manager_ok :: "'r manager_env \<Rightarrow> 'r manager \<Rightarrow> bool" where
  "manager_ok E m \<longleftrightarrow> addons_ok (sd_addons (mg_data m)) \<and> in_step E m"

lemma persist_simps [simp]:
  "mg_data (persist E m) = mg_data m" "mg_registry (persist E m) = mg_registry m"
  "mg_grants (persist E m) = mg_grants m" "mg_publicBase (persist E m) = mg_publicBase m"
  by (simp_all add: persist_def Let_def)

lemma bump_simps [simp]:
  "sd_addons (mg_data (bump_revision m)) = sd_addons (mg_data m)"
  "sd_settings (mg_data (bump_revision m)) = sd_settings (mg_data m)"
  "sd_revision (mg_data (bump_revision m)) = sd_revision (mg_data m) + 1"
  "mg_registry (bump_revision m) = mg_registry m" "mg_grants (bump_revision m) = mg_grants m"
  "mg_publicBase (bump_revision m) = mg_publicBase m"
  by (simp_all add: bump_revision_def Let_def)

lemma getStreamEnabled_cong: "sd_addons d = sd_addons d' \<Longrightarrow> getStreamEnabled c d = getStreamEnabled c d'"
  by (simp add: getStreamEnabled_def)

lemma manager_ok_cong:
  assumes "sd_addons (mg_data m') = sd_addons (mg_data m)" "mg_registry m' = mg_registry m"
    "mg_grants m' = mg_grants m" "mg_publicBase m' = mg_publicBase m"
  shows "manager_ok E m' = manager_ok E m"
proof -
  have "provider_of E m' = provider_of E m" using assms by (simp add: provider_of_def fun_eq_iff)
  then show ?thesis
    using assms getStreamEnabled_cong [OF assms(1)] by (simp add: manager_ok_def in_step_def)
qed

lemma in_stream_iff: "a \<in> set (getStreamEnabled c d) \<longleftrightarrow> a \<in> set (sd_addons d) \<and> stream_enabled a"
  by (simp add: getStreamEnabled_def)

lemma commit_ok:
  assumes "registry_laws (me_api E)" "addons_ok (sd_addons (mg_data m))"
    and "\<And>p a. p \<in> set (addon_providers E (mg_registry m)) \<Longrightarrow> a \<in> set (sd_addons (mg_data m)) \<Longrightarrow>
           stream_enabled a \<Longrightarrow> pv_id p = ia_providerId a \<Longrightarrow> p = provider_of E m a"
  shows "manager_ok E (commit E m)"
proof -
  obtain r where r: "reconcileRegistry E m = reg r m"
    "addon_providers E r = map (provider_of E m) (getStreamEnabled (collate_of E) (mg_data m))"
    using reconcile_current [OF assms(1), of m] assms(2,3)
    by (auto simp: addons_ok_def list_all_iff addon_ok_def in_stream_iff)
  then have "manager_ok E (reconcileRegistry E m)"
    using assms(2) by (simp add: manager_ok_def in_step_def)
  moreover have "manager_ok E (commit E m) = manager_ok E (reconcileRegistry E m)"
    unfolding commit_def by (rule manager_ok_cong) simp_all
  ultimately show ?thesis by simp
qed

text \<open>A registered provider of a manager in step comes from one of its addons.\<close>

lemma in_step_provider:
  "in_step E m \<Longrightarrow> p \<in> set (addon_providers E (mg_registry m)) \<Longrightarrow>
     \<exists>a \<in> set (sd_addons (mg_data m)). stream_enabled a \<and> p = provider_of E m a"
  by (auto simp: in_step_def in_stream_iff)

lemma same_id:
  "distinct (map ia_providerId l) \<Longrightarrow> a \<in> set l \<Longrightarrow> b \<in> set l \<Longrightarrow> ia_providerId a = ia_providerId b \<Longrightarrow> a = b"
  by (meson distinct_map inj_onD)

text \<open>An update that keeps ids, where what the registry still holds of an updated addon is current.\<close>

lemma commit_map:
  assumes "registry_laws (me_api E)" "manager_ok E m"
    and "mg_grants m' = mg_grants m" "mg_publicBase m' = mg_publicBase m"
    and "sd_addons (mg_data m') = map g (sd_addons (mg_data m))"
    and "addons_ok (map g (sd_addons (mg_data m)))"
    and "\<And>a. a \<in> set (sd_addons (mg_data m)) \<Longrightarrow> ia_providerId (g a) = ia_providerId a"
    and "\<And>p. p \<in> set (addon_providers E (mg_registry m')) \<Longrightarrow>
      p \<in> provider_of E m ` g ` set (sd_addons (mg_data m)) \<or>
      (\<exists>a \<in> set (sd_addons (mg_data m)). stream_enabled a \<and> p = provider_of E m a \<and>
         (stream_enabled (g a) \<longrightarrow> provider_of E m (g a) = provider_of E m a))"
  shows "manager_ok E (commit E m')"
proof (rule commit_ok [OF assms(1)])
  show "addons_ok (sd_addons (mg_data m'))" using assms(5,6) by simp
  have pv: "provider_of E m' = provider_of E m" using assms(3,4) by (simp add: provider_of_def fun_eq_iff)
  have d: "distinct (map ia_providerId (sd_addons (mg_data m)))"
    using assms(2) by (simp add: manager_ok_def addons_ok_def)
  fix p a'
  assume p: "p \<in> set (addon_providers E (mg_registry m'))" and a': "a' \<in> set (sd_addons (mg_data m'))"
    "stream_enabled a'" "pv_id p = ia_providerId a'"
  obtain a where a: "a \<in> set (sd_addons (mg_data m))" "a' = g a" using a'(1) assms(5) by auto
  from assms(8) [OF p] show "p = provider_of E m' a'"
  proof
    assume "p \<in> provider_of E m ` g ` set (sd_addons (mg_data m))"
    then obtain b where b: "b \<in> set (sd_addons (mg_data m))" "p = provider_of E m (g b)" by auto
    then have "ia_providerId b = ia_providerId a" using a a'(3) assms(7) by simp
    then show ?thesis using same_id [OF d b(1) a(1)] b a pv by simp
  next
    assume "\<exists>b \<in> set (sd_addons (mg_data m)). stream_enabled b \<and> p = provider_of E m b \<and>
      (stream_enabled (g b) \<longrightarrow> provider_of E m (g b) = provider_of E m b)"
    then obtain b where b: "b \<in> set (sd_addons (mg_data m))" "p = provider_of E m b"
      "stream_enabled (g b) \<longrightarrow> provider_of E m (g b) = provider_of E m b" by auto
    then have "b = a" using same_id [OF d b(1) a(1)] a a'(3) assms(7) by simp
    then show ?thesis using b a a'(2) pv by simp
  qed
qed

text \<open>Updating one addon is a map over distinct ids.\<close>

definition at_id :: "string \<Rightarrow> (installed_addon \<Rightarrow> installed_addon) \<Rightarrow> installed_addon \<Rightarrow> installed_addon" where
  "at_id pid f a = (if ia_providerId a = pid then f a else a)"

lemma list_update_at_id:
  assumes "distinct (map ia_providerId l)" "i < length l"
  shows "l[i := f (l ! i)] = map (at_id (ia_providerId (l ! i)) f) l"
proof (rule nth_equalityI)
  fix j assume "j < length (l[i := f (l ! i)])"
  then show "l[i := f (l ! i)] ! j = map (at_id (ia_providerId (l ! i)) f) l ! j"
    using assms nth_eq_iff_index_eq [OF assms(1), of i j] by (auto simp: at_id_def nth_list_update)
qed simp

lemma update_addon_map:
  assumes "distinct (map ia_providerId l)"
  shows "update_addon pid f l = map (at_id pid f) l"
proof (cases "find_index (\<lambda>a. ia_providerId a = pid) l")
  case None
  then have "map (at_id pid f) l = l" by (intro map_idI) (auto simp: at_id_def find_index_None)
  then show ?thesis using None by (simp add: update_addon_def)
next
  case (Some i)
  then show ?thesis
    using find_index_Some [OF Some] list_update_at_id [OF assms, of i f] by (simp add: update_addon_def)
qed

lemma addons_ok_at_id:
  assumes "addons_ok l" "\<And>a. ia_providerId (f a) = ia_providerId a \<and> ia_order (f a) = ia_order a"
    and "\<And>a. addon_ok a \<Longrightarrow> addon_ok (f a)"
  shows "addons_ok (map (at_id pid f) l)"
proof -
  have "ia_providerId \<circ> at_id pid f = ia_providerId" "ia_order \<circ> at_id pid f = ia_order"
    using assms(2) by (auto simp: at_id_def)
  then show ?thesis using assms(1,3) by (auto simp: addons_ok_def list_all_iff at_id_def)
qed

text \<open>The provider an addon was registered with is dropped and registered anew.\<close>

lemma reregister:
  assumes "registry_laws (me_api E)" "addon_ok a"
  shows "\<exists>r. (if b then registerProvider E a (unregisterProvider E (ia_providerId a) m)
              else unregisterProvider E (ia_providerId a) m) = reg r m \<and>
    set (addon_providers E r) \<subseteq> insert (provider_of E m a)
      {p \<in> set (addon_providers E (mg_registry m)). pv_id p \<noteq> ia_providerId a}"
proof -
  let ?r = "ra_unregister (me_api E) (ia_providerId a) (mg_registry m)"
  have un: "unregisterProvider E (ia_providerId a) m = reg ?r m"
    "addon_providers E ?r = filter (\<lambda>p. pv_id p \<noteq> ia_providerId a) (addon_providers E (mg_registry m))"
    by (simp_all add: unregisterProvider_def addon_providers_unregister [OF assms(1)])
  show ?thesis
  proof (cases "b \<and> stream_enabled a")
    case True
    have "ia_providerId a \<notin> set (map pv_id (addon_providers E (mg_registry (reg ?r m))))"
      by (auto simp: un(2))
    then obtain r where "registerProvider E a (reg ?r m) = reg r (reg ?r m)"
      "addon_providers E r = addon_providers E ?r @ [provider_of E m a]"
      using register_fresh [OF assms(1), of a "reg ?r m"] assms(2) True by (auto simp: addon_ok_def)
    then show ?thesis using True un by (intro exI [of _ r]) auto
  next
    case False
    then have "b \<longrightarrow> registerProvider E a (reg ?r m) = reg ?r m"
      using assms(2) by (auto simp: registerProvider_def stream_enabled_def addon_ok_def)
    then show ?thesis using un by (intro exI [of _ ?r]) auto
  qed
qed

subsection \<open>Each operation keeps the invariants\<close>

lemma remove_ok:
  assumes "registry_laws (me_api E)" "manager_ok E m"
  shows "manager_ok E (snd (remove_addon E pid m))"
proof (cases "find_index (\<lambda>a. ia_providerId a = pid) (sd_addons (mg_data m))")
  case None
  then show ?thesis using assms(2) by (simp add: remove_addon_def)
next
  case (Some i)
  let ?l = "sd_addons (mg_data m)"
  let ?m = "with_addons (remove_at i) (unregisterProvider E pid m)"
  have d: "distinct (map ia_providerId ?l)" "addons_ok ?l"
    using assms(2) by (simp_all add: manager_ok_def addons_ok_def)
  have i: "i < length ?l" "ia_providerId (?l ! i) = pid" using find_index_Some [OF Some] by simp_all
  have rem: "remove_at i ?l = filter (\<lambda>a. ia_providerId a \<noteq> pid) ?l"
  proof -
    have split: "?l = take i ?l @ ?l ! i # drop (Suc i) ?l" using remove_at_split [OF i(1)] .
    then have "pid \<notin> ia_providerId ` set (take i ?l) \<and> pid \<notin> ia_providerId ` set (drop (Suc i) ?l)"
      using d(1) i(2) by (metis (no_types, lifting) Un_iff distinct.simps(2) distinct_append disjoint_iff
          list.set_intros(1) list.simps(9) map_append set_append set_map)
    then have "filter (\<lambda>a. ia_providerId a \<noteq> pid) (take i ?l) = take i ?l"
      "filter (\<lambda>a. ia_providerId a \<noteq> pid) (drop (Suc i) ?l) = drop (Suc i) ?l"
      by (auto intro!: filter_True)
    then have "filter (\<lambda>a. ia_providerId a \<noteq> pid) (take i ?l @ ?l ! i # drop (Suc i) ?l) = remove_at i ?l"
      using i(2) by (simp add: remove_at_def)
    then show ?thesis using split by simp
  qed
  have "manager_ok E ?m"
    unfolding manager_ok_def
  proof
    have "distinct (map ia_order ?l)" using d(2) by (simp add: addons_ok_def)
    then show "addons_ok (sd_addons (mg_data ?m))"
      using d by (simp add: rem addons_ok_def distinct_map_filter list_all_iff unregisterProvider_def)
    have "in_step E m" using assms(2) by (simp add: manager_ok_def)
    then have "addon_providers E (mg_registry ?m) =
        map (provider_of E m) (filter (\<lambda>a. ia_providerId a \<noteq> pid) (getStreamEnabled (collate_of E) (mg_data m)))"
      by (simp add: unregisterProvider_def addon_providers_unregister [OF assms(1)] in_step_def filter_map comp_def)
    moreover have "provider_of E ?m = provider_of E m"
      by (simp add: provider_of_def fun_eq_iff unregisterProvider_def)
    ultimately show "in_step E ?m"
      by (simp add: in_step_def getStreamEnabled_def rem unregisterProvider_def conj_commute
          flip: filter_sortAddons)
  qed
  then show ?thesis
    using Some manager_ok_cong [of "persist E (bump_revision ?m)" ?m] by (simp add: remove_addon_def)
qed

lemma setEnabled_ok:
  assumes "registry_laws (me_api E)" "manager_ok E m"
  shows "manager_ok E (snd (setEnabled E now pid en m))"
proof (cases "get_addon pid (mg_data m)")
  case None
  then show ?thesis using assms(2) by (simp add: setEnabled_def)
next
  case (Some a)
  let ?f = "\<lambda>a. a\<lparr>ia_enabled := en, ia_admissionState := Some (if en then Validated else Disabled), ia_updatedAt := now\<rparr>"
  let ?l = "sd_addons (mg_data m)"
  have l: "distinct (map ia_providerId ?l)" "addons_ok ?l"
    using assms(2) by (simp_all add: manager_ok_def addons_ok_def)
  have "manager_ok E (commit E (with_addons (update_addon pid ?f) m))"
  proof (rule commit_map [OF assms, where g = "at_id pid ?f"])
    show "addons_ok (map (at_id pid ?f) ?l)"
      by (rule addons_ok_at_id [OF l(2)]) (simp_all add: addon_ok_def)
    fix p assume "p \<in> set (addon_providers E (mg_registry (with_addons (update_addon pid ?f) m)))"
    then obtain a where "a \<in> set ?l" "stream_enabled a" "p = provider_of E m a"
      using in_step_provider [of E m p] assms(2) by (auto simp: manager_ok_def)
    moreover then have "stream_enabled (at_id pid ?f a) \<longrightarrow> provider_of E m (at_id pid ?f a) = provider_of E m a"
      by (auto simp: at_id_def provider_of_def stream_enabled_def)
    ultimately show "p \<in> provider_of E m ` at_id pid ?f ` set ?l \<or>
        (\<exists>a \<in> set ?l. stream_enabled a \<and> p = provider_of E m a \<and>
          (stream_enabled (at_id pid ?f a) \<longrightarrow> provider_of E m (at_id pid ?f a) = provider_of E m a))"
      by blast
  qed (simp_all add: update_addon_map [OF l(1)] at_id_def)
  then show ?thesis using Some by (simp add: setEnabled_def Let_def)
qed

text \<open>One addon is updated and, when it may be a provider, registered anew.\<close>

lemma update_reregister_ok:
  assumes "registry_laws (me_api E)" "manager_ok E m" "a \<in> set (sd_addons (mg_data m))"
    and "\<And>a. ia_providerId (f a) = ia_providerId a \<and> ia_order (f a) = ia_order a"
    and "\<And>a. addon_ok a \<Longrightarrow> addon_ok (f a)" "\<not> b \<Longrightarrow> \<not> ia_enabled (f a)"
    and "sd_addons (mg_data m1) = map (at_id (ia_providerId a) f) (sd_addons (mg_data m))"
    and "mg_registry m1 = mg_registry m" "mg_grants m1 = mg_grants m" "mg_publicBase m1 = mg_publicBase m"
  shows "manager_ok E (commit E (if b then registerProvider E (f a) (unregisterProvider E (ia_providerId a) m1) else m1))"
proof -
  let ?l = "sd_addons (mg_data m)" and ?pid = "ia_providerId a"
  let ?g = "at_id ?pid f"
  let ?m2 = "if b then registerProvider E (f a) (unregisterProvider E ?pid m1) else m1"
  have l: "addons_ok ?l" using assms(2) by (simp add: manager_ok_def)
  then have "addon_ok (f a)" using assms(3,5) by (simp add: addons_ok_def list_all_iff)
  from reregister [OF assms(1) this, of True m1] obtain r where
    r: "registerProvider E (f a) (unregisterProvider E ?pid m1) = reg r m1"
    "set (addon_providers E r) \<subseteq> insert (provider_of E m1 (f a))
       {p \<in> set (addon_providers E (mg_registry m1)). pv_id p \<noteq> ?pid}"
    using assms(4) by auto
  have pv: "provider_of E m1 = provider_of E m" using assms(9,10) by (simp add: provider_of_def fun_eq_iff)
  show ?thesis
  proof (rule commit_map [OF assms(1,2), where g = ?g])
    show "mg_grants ?m2 = mg_grants m" "mg_publicBase ?m2 = mg_publicBase m" "sd_addons (mg_data ?m2) = map ?g ?l"
      using assms(7,9,10) r(1) by simp_all
    show "addons_ok (map ?g ?l)" by (rule addons_ok_at_id [OF l assms(4,5)])
    show "ia_providerId (?g x) = ia_providerId x" for x using assms(4) by (simp add: at_id_def)
    fix p assume p: "p \<in> set (addon_providers E (mg_registry ?m2))"
    have old: "\<exists>a \<in> set ?l. stream_enabled a \<and> p = provider_of E m a" if "p \<in> set (addon_providers E (mg_registry m))"
      using in_step_provider that assms(2) by (auto simp: manager_ok_def)
    show "p \<in> provider_of E m ` ?g ` set ?l \<or>
        (\<exists>a \<in> set ?l. stream_enabled a \<and> p = provider_of E m a \<and>
          (stream_enabled (?g a) \<longrightarrow> provider_of E m (?g a) = provider_of E m a))"
    proof (cases "b \<and> p = provider_of E m (f a)")
      case True
      then have "p = provider_of E m (?g a)" by (simp add: at_id_def)
      then show ?thesis using assms(3) by blast
    next
      case False
      then have "p \<in> set (addon_providers E (mg_registry m)) \<and> (b \<longrightarrow> pv_id p \<noteq> ?pid)"
        using p r assms(8) pv by (cases b) auto
      then obtain c where c: "c \<in> set ?l" "stream_enabled c" "p = provider_of E m c" "b \<longrightarrow> ia_providerId c \<noteq> ?pid"
        using old by auto
      have "c = a" if "ia_providerId c = ?pid"
        using same_id [of ?l c a] that c(1) assms(3) l by (simp add: addons_ok_def)
      then have "stream_enabled (?g c) \<longrightarrow> provider_of E m (?g c) = provider_of E m c"
        using c(4) assms(6) by (auto simp: at_id_def stream_enabled_def)
      then show ?thesis using c by blast
    qed
  qed
qed

lemma setTimeout_ok:
  assumes "registry_laws (me_api E)" "manager_ok E m"
  shows "manager_ok E (snd (setTimeout E now pid t m))"
proof (cases "get_addon pid (mg_data m)")
  case None
  then show ?thesis using assms(2) by (simp add: setTimeout_def)
next
  case (Some a)
  let ?f = "\<lambda>a. a\<lparr>ia_timeoutMs := clamp_timeout t, ia_updatedAt := now\<rparr>"
  have a: "a \<in> set (sd_addons (mg_data m))" "ia_providerId a = pid"
    using Some by (auto simp: get_addon_def find_Some_iff)
  have "distinct (map ia_providerId (sd_addons (mg_data m)))"
    using assms(2) by (simp add: manager_ok_def addons_ok_def)
  then have "manager_ok E (commit E (if True then registerProvider E (?f a)
      (unregisterProvider E (ia_providerId a) (with_addons (update_addon pid ?f) m))
      else with_addons (update_addon pid ?f) m))"
    by (intro update_reregister_ok [OF assms a(1)])
      (auto simp: addon_ok_def clamp_timeout_def update_addon_map a(2))
  then show ?thesis using Some a(2) by (simp add: setTimeout_def Let_def)
qed

subsection \<open>Reordering\<close>

text \<open>Positions after sorting; the array index settles ties.\<close>

definition sorted_positions :: "(string \<Rightarrow> int) \<Rightarrow> installed_addon list \<Rightarrow> nat list" where
  "sorted_positions c l = map fst (sort_key (\<lambda>(j, a). addon_rank c a) (enumerate 0 l))"

definition pos_key :: "(string \<Rightarrow> int) \<Rightarrow> installed_addon list \<Rightarrow> nat \<Rightarrow> (int \<times> int) \<times> nat" where
  "pos_key c l j = (addon_rank c (l ! j), j)"

definition pos_of :: "(string \<Rightarrow> int) \<Rightarrow> installed_addon list \<Rightarrow> nat \<Rightarrow> nat" where
  "pos_of c l j = or_else (find_index (\<lambda>k. k = j) (sorted_positions c l)) 0"

lemma sorted_positions_perm: "mset (sorted_positions c l) = mset [0..<length l]"
proof -
  have "mset (sorted_positions c l) = mset (map fst (enumerate 0 l))"
    unfolding sorted_positions_def mset_map by simp
  then show ?thesis by simp
qed

lemma sorted_positions_set: "set (sorted_positions c l) = {..<length l}" "distinct (sorted_positions c l)"
  "length (sorted_positions c l) = length l"
  using sorted_positions_perm [of c l]
  by (metis atLeast_upt set_mset_mset, metis distinct_upt mset_eq_imp_distinct_iff,
      metis length_upt minus_nat.diff_0 size_mset)

lemma sorted_positions_sorted: "sorted (map (pos_key c l) (sorted_positions c l))"
proof -
  let ?ys = "sort_key (\<lambda>(j, a). addon_rank c a) (enumerate 0 l)"
  have "sorted (map fst (enumerate 0 l))" by simp
  from sort_key_refine [OF this, of "\<lambda>(j, a). addon_rank c a"]
  have "?ys = sort_key (\<lambda>x. (case x of (j, a) \<Rightarrow> addon_rank c a, fst x)) (enumerate 0 l)" .
  then have "sorted (map (\<lambda>x. (case x of (j, a) \<Rightarrow> addon_rank c a, fst x)) ?ys)"
    by (metis sorted_sort_key)
  moreover have "map (pos_key c l) (sorted_positions c l) =
      map (\<lambda>x. (case x of (j, a) \<Rightarrow> addon_rank c a, fst x)) ?ys"
    unfolding sorted_positions_def map_map
  proof (rule map_cong [OF refl])
    fix x assume "x \<in> set ?ys"
    then have "x \<in> set (enumerate 0 l)" by simp
    then show "(pos_key c l \<circ> fst) x = (case x of (j, a) \<Rightarrow> addon_rank c a, fst x)"
      by (auto simp: pos_key_def in_set_enumerate_eq split: prod.split)
  qed
  ultimately show ?thesis by simp
qed

lemma pos_of_nth: "j < length l \<Longrightarrow> pos_of c l j < length l \<and> sorted_positions c l ! pos_of c l j = j"
proof -
  assume "j < length l"
  then have "j \<in> set (sorted_positions c l)" by (simp add: sorted_positions_set)
  then obtain i where i: "find_index (\<lambda>k. k = j) (sorted_positions c l) = Some i"
    by (cases "find_index (\<lambda>k. k = j) (sorted_positions c l)") (auto simp: find_index_None)
  then show ?thesis using find_index_Some [OF i] by (simp add: pos_of_def sorted_positions_set)
qed

lemma pos_of_inj: "i < length l \<Longrightarrow> j < length l \<Longrightarrow> pos_of c l i = pos_of c l j \<longleftrightarrow> i = j"
  by (metis pos_of_nth)

lemma pos_of_less:
  assumes "i < length l" "j < length l" "pos_key c l i < pos_key c l j"
  shows "pos_of c l i < pos_of c l j"
proof (rule ccontr)
  assume "\<not> pos_of c l i < pos_of c l j"
  then have "map (pos_key c l) (sorted_positions c l) ! pos_of c l j \<le>
      map (pos_key c l) (sorted_positions c l) ! pos_of c l i"
    using pos_of_nth assms(1,2) by (intro sorted_nth_mono [OF sorted_positions_sorted]) (simp_all add: sorted_positions_set)
  then show False using assms pos_of_nth by (simp add: sorted_positions_set)
qed

lemma length_renumber [simp]: "length (renumber c l) = length l"
  by (simp add: renumber_def Let_def)

lemma renumber_nth: "j < length l \<Longrightarrow> renumber c l ! j = (l ! j)\<lparr>ia_order := int (pos_of c l j)\<rparr>"
  by (simp add: renumber_def Let_def nth_enumerate_eq pos_of_def sorted_positions_def)

lemma renumber_same:
  assumes "\<And>a n. g (a\<lparr>ia_order := n\<rparr>) = g a"
  shows "map g (renumber c l) = map g l"
  by (rule nth_equalityI) (simp_all add: renumber_nth assms)

lemma set_renumber: "a \<in> set (renumber c l) \<Longrightarrow> \<exists>b \<in> set l. \<exists>n. a = b\<lparr>ia_order := n\<rparr>"
  by (metis in_set_conv_nth length_renumber nth_mem renumber_nth)

lemma renumber_orders: "mset (map ia_order (renumber c l)) = mset (map int [0..<length l])"
proof -
  have "map ia_order (renumber c l) = map int (map (pos_of c l) [0..<length l])"
    by (rule nth_equalityI) (simp_all add: renumber_nth)
  moreover have "pos_of c l ` {..<length l} = {..<length l}"
    by (rule card_seteq [OF finite_lessThan])
      (auto simp: pos_of_nth card_image inj_on_def pos_of_inj)
  then have "mset (map (pos_of c l) [0..<length l]) = mset [0..<length l]"
    by (intro set_eq_iff_mset_eq_distinct [THEN iffD1])
      (auto simp: distinct_map inj_on_def pos_of_inj atLeast0LessThan)
  ultimately show ?thesis by (simp only: mset_map)
qed

text \<open>After sorting, the orders are zero, one, two and so on.\<close>

lemma renumber_contiguous: "map ia_order (sortAddons c (renumber c' l)) = map int [0..<length l]"
proof (rule sorted_distinct_set_unique)
  have "sorted_wrt (\<lambda>a b. addon_rank c a \<le> addon_rank c b) (sortAddons c (renumber c' l))"
    using sorted_sort_key [of "addon_rank c" "renumber c' l"] unfolding sorted_map sortAddons_def .
  then show "sorted (map ia_order (sortAddons c (renumber c' l)))"
    unfolding sorted_map by (rule sorted_wrt_mono_rel [rotated]) (auto simp: addon_rank_def less_eq_prod_def)
  have m: "mset (map ia_order (sortAddons c (renumber c' l))) = mset (map int [0..<length l])"
    using renumber_orders [of c' l] by (metis mset_map mset_sortAddons)
  show "distinct (map ia_order (sortAddons c (renumber c' l)))"
    using m by (rule mset_eq_imp_distinct_iff [THEN iffD2]) (simp add: distinct_map)
  show "set (map ia_order (sortAddons c (renumber c' l))) = set (map int [0..<length l])"
    using m by (rule mset_eq_setD)
qed (simp_all add: sorted_map distinct_map)

lemma renumber_addons_ok:
  assumes "distinct (map ia_providerId l)" "list_all addon_ok l"
  shows "addons_ok (renumber c l)"
proof -
  have "distinct (map ia_order (renumber c l))"
    using renumber_orders [of c l] by (rule mset_eq_imp_distinct_iff [THEN iffD2]) (simp add: distinct_map)
  moreover have "list_all addon_ok (renumber c l)"
    using assms(2) set_renumber [of _ c l] by (fastforce simp: list_all_iff addon_ok_def)
  ultimately show ?thesis
    using assms(1) renumber_same [of ia_providerId c l] by (simp add: addons_ok_def)
qed

lemma reorder_ok:
  assumes "registry_laws (me_api E)" "manager_ok E m"
  shows "manager_ok E (reorder E ids m)"
proof -
  let ?l = "sd_addons (mg_data m)" and ?c = "collate_of E"
  let ?h = "\<lambda>(i, a). a\<lparr>ia_order := (case id_rank ids (ia_providerId a) of
              Some k \<Rightarrow> int k | None \<Rightarrow> int (length ids) + int i)\<rparr>"
  let ?l1 = "map ?h (enumerate 0 ?l)"
  have l: "addons_ok ?l" "in_step E m" using assms(2) by (simp_all add: manager_ok_def)
  have ids: "map ia_providerId ?l1 = map ia_providerId ?l"
    by (rule nth_equalityI) (simp_all add: nth_enumerate_eq split_beta)
  have l1: "\<exists>b \<in> set ?l. \<exists>n. a = b\<lparr>ia_order := n\<rparr>" if "a \<in> set ?l1" for a
    using that by (auto simp: in_set_enumerate_eq)
  have old: "\<exists>b \<in> set ?l. \<exists>n. a = b\<lparr>ia_order := n\<rparr>" if a: "a \<in> set (renumber ?c ?l1)" for a
  proof -
    obtain b n where b: "b \<in> set ?l1" "a = b\<lparr>ia_order := n\<rparr>" using set_renumber [OF a] by blast
    obtain d k where "d \<in> set ?l" "b = d\<lparr>ia_order := k\<rparr>" using l1 [OF b(1)] by blast
    then show ?thesis using b(2) by (intro bexI [of _ d] exI [of _ n]) simp_all
  qed
  have "addon_ok a" if in1: "a \<in> set ?l1" for a
  proof -
    obtain b n where "b \<in> set ?l" "a = b\<lparr>ia_order := n\<rparr>" using l1 [OF in1] by blast
    then show ?thesis using l(1) by (simp add: addons_ok_def list_all_iff addon_ok_def)
  qed
  then have "list_all addon_ok ?l1" unfolding list_all_iff by (rule ballI)
  then have ok: "addons_ok (renumber ?c ?l1)"
    using l(1) ids by (intro renumber_addons_ok) (simp_all add: addons_ok_def)
  have "manager_ok E (commit E (with_addons (\<lambda>l. renumber ?c (map ?h (enumerate 0 l))) m))"
  proof (rule commit_ok [OF assms(1)])
    fix p a
    assume "p \<in> set (addon_providers E (mg_registry (with_addons (\<lambda>l. renumber ?c (map ?h (enumerate 0 l))) m)))"
      and a: "a \<in> set (sd_addons (mg_data (with_addons (\<lambda>l. renumber ?c (map ?h (enumerate 0 l))) m)))"
      and p_a: "pv_id p = ia_providerId a"
    then obtain b where b: "b \<in> set ?l" "p = provider_of E m b" using in_step_provider [OF l(2)] by auto
    obtain d n where d: "d \<in> set ?l" "a = d\<lparr>ia_order := n\<rparr>" using old [of a] a by auto
    have "b = d" using same_id [of ?l b d] l(1) b d p_a by (simp add: addons_ok_def)
    then show "p = provider_of E (with_addons (\<lambda>l. renumber ?c (map ?h (enumerate 0 l))) m) a"
      using b d by (simp add: provider_of_def)
  qed (use ok in simp)
  then show ?thesis by (simp add: reorder_def)
qed

subsection \<open>Installing\<close>

lemma next_free_id_fresh: "next_free_id taken base n \<notin> set taken \<and> starts_with (next_free_id taken base n) base"
proof (induction taken base n rule: next_free_id.induct)
  case (1 taken base n)
  then show ?case by (subst (1 2) next_free_id.simps) simp
qed

lemma uniqueProviderId_fresh:
  "uniqueProviderId S d mf b \<notin> ia_providerId ` set (sd_addons d) \<and> is_addon_id (uniqueProviderId S d mf b)"
proof -
  define t where "t = map ia_providerId (sd_addons d)"
  obtain base where u: "uniqueProviderId S d mf b =
      (if ''addon:'' @ base \<in> set t then next_free_id t (''addon:'' @ base) 2 else ''addon:'' @ base)"
    unfolding uniqueProviderId_def Let_def t_def [symmetric] by blast
  have "is_addon_id (''addon:'' @ x)" for x by (simp only: is_addon_id_def starts_with_append)
  moreover have "is_addon_id (next_free_id t (''addon:'' @ base) 2)"
    using next_free_id_fresh [of t "''addon:'' @ base" 2] by (auto simp: is_addon_id_def starts_with_iff)
  moreover have "next_free_id t (''addon:'' @ base) 2 \<notin> set t" using next_free_id_fresh by blast
  ultimately show ?thesis unfolding u by (auto simp: t_def)
qed

lemma max_order_ge: "a \<in> set l \<Longrightarrow> ia_order a \<le> max_order l"
proof -
  have "(\<forall>a \<in> set l. ia_order a \<le> fold (\<lambda>a m. max m (ia_order a)) l x) \<and> x \<le> fold (\<lambda>a m. max m (ia_order a)) l x" for x
    by (induction l arbitrary: x) (auto, meson max.boundedE order.trans, meson max.boundedE)
  then show "a \<in> set l \<Longrightarrow> ?thesis" by (simp add: max_order_def)
qed

lemma commit_new_ok:
  assumes "registry_laws (me_api E)" "manager_ok E m" "addon_ok a"
    and "ia_providerId a \<notin> ia_providerId ` set (sd_addons (mg_data m))"
    and "ia_order a = max_order (sd_addons (mg_data m)) + 1"
  shows "manager_ok E (commit E (with_addons (\<lambda>l. l @ [a]) m))"
proof (rule commit_ok [OF assms(1)])
  have l: "addons_ok (sd_addons (mg_data m))" "in_step E m" using assms(2) by (simp_all add: manager_ok_def)
  have "ia_order a \<notin> ia_order ` set (sd_addons (mg_data m))"
    using max_order_ge assms(5) by fastforce
  then show "addons_ok (sd_addons (mg_data (with_addons (\<lambda>l. l @ [a]) m)))"
    using l(1) assms(3,4) by (auto simp: addons_ok_def)
  fix p b
  assume "p \<in> set (addon_providers E (mg_registry (with_addons (\<lambda>l. l @ [a]) m)))"
    and b: "b \<in> set (sd_addons (mg_data (with_addons (\<lambda>l. l @ [a]) m)))" "pv_id p = ia_providerId b"
  then obtain c where c: "c \<in> set (sd_addons (mg_data m))" "p = provider_of E m c"
    using in_step_provider [OF l(2)] by auto
  then have "b \<in> set (sd_addons (mg_data m))" using b assms(4) by (auto simp: image_iff)
  then have "b = c" using same_id [of "sd_addons (mg_data m)" b c] l(1) b(2) c by (simp add: addons_ok_def)
  then show "p = provider_of E (with_addons (\<lambda>l. l @ [a]) m) b" using c by (simp add: provider_of_def)
qed

lemma admit_ok:
  assumes "registry_laws (me_api E)" "manager_ok E m"
  shows "manager_ok E (snd (admit_manifest E now f orig src io findings dec m))"
proof -
  define en where "en = ((or_else (io_enable io) (or_else (mc_importEnableOnInstall (me_cfg E)) True)) \<and> pd_mayAutoEnable dec)"
  show ?thesis
  proof (cases "find_index (same_addon (sv_url (me_sv E)) f) (sd_addons (mg_data m))")
    case None
    have "manager_ok E (commit E (with_addons (\<lambda>l. l @ [new_addon now
        (uniqueProviderId (me_sv E) (mg_data m) (fm_manifest f) (fm_baseUrl f)) f orig findings dec en
        (max_order (sd_addons (mg_data m)) + 1) src]) m))"
      using uniqueProviderId_fresh [of "me_sv E" "mg_data m" "fm_manifest f" "fm_baseUrl f"]
      by (intro commit_new_ok [OF assms])
        (simp_all add: new_addon_def addon_ok_def DEFAULT_ADDON_TIMEOUT_MS_def)
    then show ?thesis using None by (simp add: admit_manifest_def Let_def en_def)
  next
    case (Some i)
    let ?l = "sd_addons (mg_data m)"
    let ?f = "reinstalled now f orig findings dec en"
    have i: "i < length ?l" using find_index_Some [OF Some] by simp
    have d: "distinct (map ia_providerId ?l)" using assms(2) by (simp add: manager_ok_def addons_ok_def)
    have "manager_ok E (commit E (if ia_enabled (?f (?l ! i))
       then registerProvider E (?f (?l ! i)) (unregisterProvider E (ia_providerId (?l ! i)) (with_addons (\<lambda>l. l[i := ?f (?l ! i)]) m))
       else with_addons (\<lambda>l. l[i := ?f (?l ! i)]) m))"
      using i by (intro update_reregister_ok [OF assms])
        (simp_all add: list_update_at_id [OF d i, of ?f], simp_all add: reinstalled_def addon_ok_def)
    moreover have "ia_providerId (?f (?l ! i)) = ia_providerId (?l ! i)" by (simp add: reinstalled_def)
    ultimately show ?thesis
      using Some by (cases "ia_enabled (?f (?l ! i))") (simp_all add: admit_manifest_def Let_def flip: en_def)
  qed
qed

lemma installInternal_ok:
  assumes "registry_laws (me_api E)" "manager_ok E m"
  shows "manager_ok E (snd (installInternal E now net url src io m))"
  using assms(2) admit_ok [OF assms]
  by (simp add: installInternal_def Let_def split: sum.split)

lemma install_batch_ok:
  assumes "registry_laws (me_api E)"
  shows "manager_ok E m \<Longrightarrow> manager_ok E (snd (install_batch E now net src en ab i urls rs m))"
  by (induction urls arbitrary: i rs m) (simp_all add: split_beta installInternal_ok [OF assms])

lemma installMany_ok:
  assumes "registry_laws (me_api E)" "manager_ok E m"
  shows "manager_ok E (snd (installMany E now net urls src en ab m))"
  using install_batch_ok [OF assms] by (simp add: installMany_def Let_def split_beta)

lemma refresh_ok:
  assumes "registry_laws (me_api E)" "manager_ok E m"
  shows "manager_ok E (snd (refresh E now net pid m))"
  using installInternal_ok [OF assms] assms(2)
  by (simp add: refresh_def Let_def split_beta split: option.split)

subsection \<open>Health and settings\<close>

lemma setHealth_ok:
  assumes "manager_ok E m"
  shows "manager_ok E (setHealth E now pid healthy report m)"
proof (cases "get_addon pid (mg_data m)")
  case None
  then show ?thesis using assms by (simp add: setHealth_def)
next
  case (Some a)
  let ?f = "\<lambda>a. a\<lparr>ia_health := Some (health_of (me_cfg E) now healthy report (ia_health a))\<rparr>"
  let ?l = "sd_addons (mg_data m)" and ?m = "with_addons (update_addon pid ?f) m"
  have l: "addons_ok ?l" "in_step E m" using assms by (simp_all add: manager_ok_def)
  then have u: "update_addon pid ?f ?l = map (at_id pid ?f) ?l"
    by (intro update_addon_map) (simp add: addons_ok_def)
  have ok: "addons_ok (map (at_id pid ?f) ?l)"
    by (rule addons_ok_at_id [OF l(1)]) (simp_all add: addon_ok_def)
  have same: "stream_enabled (at_id pid ?f a) = stream_enabled a" "addon_rank c (at_id pid ?f a) = addon_rank c a"
    "provider_of E ?m (at_id pid ?f a) = provider_of E m a" for a c
    by (simp_all add: at_id_def stream_enabled_def addon_rank_def provider_of_def)
  have sort: "sort_key (addon_rank c) (map (at_id pid ?f) xs) = map (at_id pid ?f) (sort_key (addon_rank c) xs)" for c xs
  proof -
    have "insort_key (addon_rank c) (at_id pid ?f x) (map (at_id pid ?f) ys) =
        map (at_id pid ?f) (insort_key (addon_rank c) x ys)" for x ys
      by (induction ys) (simp_all add: same)
    then show ?thesis by (induction xs) simp_all
  qed
  have "getStreamEnabled (collate_of E) (mg_data ?m) = map (at_id pid ?f) (getStreamEnabled (collate_of E) (mg_data m))"
    by (simp add: getStreamEnabled_def sortAddons_def u sort filter_map comp_def same)
  then have "in_step E ?m" using l(2) by (simp add: in_step_def comp_def same)
  then have "manager_ok E ?m" using ok u by (simp add: manager_ok_def)
  then show ?thesis
    using Some manager_ok_cong [of "persist E ?m" ?m] by (simp add: setHealth_def)
qed

lemma updateDebrid_ok: "manager_ok E m \<Longrightarrow> manager_ok E (updateDebridSettings E prov key m)"
  by (subst manager_ok_cong [of _ m])
    (simp_all add: updateDebridSettings_def Let_def applyDebrid_def)

subsection \<open>Runs\<close>

datatype manager_op =
    MInstall time_ms network string addon_source install_options
  | MInstallMany time_ms network "string list" addon_source "bool option" "nat \<Rightarrow> bool"
  | MRemove string
  | MEnable time_ms string bool
  | MTimeout time_ms string int
  | MReorder "string list"
  | MRefresh time_ms network string
  | MHealth time_ms string bool health_report
  | MDebrid "string option" "string option"

fun manager_apply :: "'r manager_env \<Rightarrow> manager_op \<Rightarrow> 'r manager \<Rightarrow> 'r manager" where
  "manager_apply E (MInstall now net url src io) m = snd (installInternal E now net url src io m)"
| "manager_apply E (MInstallMany now net urls src en ab) m = snd (installMany E now net urls src en ab m)"
| "manager_apply E (MRemove pid) m = snd (remove_addon E pid m)"
| "manager_apply E (MEnable now pid en) m = snd (setEnabled E now pid en m)"
| "manager_apply E (MTimeout now pid t) m = snd (setTimeout E now pid t m)"
| "manager_apply E (MReorder ids) m = reorder E ids m"
| "manager_apply E (MRefresh now net pid) m = snd (refresh E now net pid m)"
| "manager_apply E (MHealth now pid h r) m = setHealth E now pid h r m"
| "manager_apply E (MDebrid prov key) m = updateDebridSettings E prov key m"

lemmas operation_ok = installInternal_ok installMany_ok remove_ok setEnabled_ok setTimeout_ok reorder_ok refresh_ok

lemma run_ok:
  assumes "registry_laws (me_api E)"
  shows "manager_ok E m \<Longrightarrow> manager_ok E (fold (manager_apply E) ops m)"
proof (induction ops arbitrary: m)
  case (Cons op ops)
  have "manager_ok E (manager_apply E op m)"
    using Cons.prems operation_ok [OF assms] setHealth_ok updateDebrid_ok by (cases op) simp_all
  then show ?case using Cons.IH by simp
qed simp

subsection \<open>Outcomes of an import\<close>

lemma finding_simps [simp]:
  "fd_severity (mk_finding c msg sv) = sv" "fd_message (mk_finding c msg sv) = msg" "fd_code (mk_finding c msg sv) = c"
  by (simp_all add: mk_finding_def)

lemma error_findings_append [simp]: "error_findings (a @ b) = error_findings a @ error_findings b"
  by (simp add: error_findings_def)

lemma error_findings_store:
  "error_findings (validateManifest E d mf u v) = error_findings (validateManifest E d' mf u v)"
proof -
  have dup: "error_findings (case find P xs of None \<Rightarrow> [] | Some a \<Rightarrow> [mk_finding DuplicateEndpoint (f a) Info]) = []"
    for P xs and f :: "installed_addon \<Rightarrow> string"
    by (simp add: error_findings_def split: option.split)
  have ok: "error_findings (if fs = [] then [mk_finding Ok t Info] else fs) = error_findings fs" for fs t
    by (simp add: error_findings_def)
  show ?thesis
    by (cases mf) (simp_all only: validateManifest_def json.case Let_def ok error_findings_append dup)
qed

lemma commit_data [simp]: "sd_addons (mg_data (commit E m)) = sd_addons (mg_data (reconcileRegistry E m))"
  by (simp add: commit_def)

lemma fold_data:
  "(\<And>x m. x \<in> set xs \<Longrightarrow> mg_data (f x m) = mg_data m) \<Longrightarrow> mg_data (fold f xs m) = mg_data m"
  by (induction xs arbitrary: m) auto

lemma registry_ops_data [simp]:
  "mg_data (unregisterProvider E p m) = mg_data m" "mg_data (registerProvider E a m) = mg_data m"
  by (simp_all add: unregisterProvider_def registerProvider_def)

lemma reconcile_data [simp]: "mg_data (reconcileRegistry E m) = mg_data m"
proof -
  have "mg_data (drop_stale E ds m) = mg_data m" for ds m
    unfolding drop_stale_def by (rule fold_data) simp
  then show ?thesis unfolding reconcileRegistry_def Let_def by (simp add: fold_data)
qed

lemma admit_cases:
  assumes "admit_manifest E now f orig src io findings dec m = (r, m')"
  shows "ir_ok r \<and> (\<exists>a. ir_addon r = Some a \<and> ia_manifestUrl a = fm_manifestUrl f \<and>
     (if ir_updated r
      then \<exists>i < length (sd_addons (mg_data m)). sd_addons (mg_data m') = (sd_addons (mg_data m))[i := a] \<and>
             ia_providerId a = ia_providerId (sd_addons (mg_data m) ! i) \<and>
             ia_enabled a = ia_enabled (sd_addons (mg_data m) ! i)
      else sd_addons (mg_data m') = sd_addons (mg_data m) @ [a] \<and>
             (ia_enabled a \<longrightarrow> pd_mayAutoEnable dec) \<and>
             ia_admissionState a = Some (if ia_enabled a then Validated else Pending))) \<and>
     ir_updated r = (find_index (same_addon (sv_url (me_sv E)) f) (sd_addons (mg_data m)) \<noteq> None)"
proof (cases "find_index (same_addon (sv_url (me_sv E)) f) (sd_addons (mg_data m))")
  case None
  then show ?thesis using assms by (auto simp: admit_manifest_def Let_def new_addon_def)
next
  case (Some i)
  then show ?thesis
    using assms find_index_Some [OF Some]
    by (auto simp: admit_manifest_def Let_def reinstalled_def intro!: exI [of _ i])
qed

lemma admit_member:
  assumes "admit_manifest E now f orig src io findings dec m = (r, m')"
  shows "\<exists>a \<in> set (sd_addons (mg_data m')). ia_manifestUrl a = fm_manifestUrl f"
proof (cases "find_index (same_addon (sv_url (me_sv E)) f) (sd_addons (mg_data m))")
  case None
  then show ?thesis using assms by (auto simp: admit_manifest_def Let_def new_addon_def)
next
  case (Some i)
  then obtain en where "sd_addons (mg_data m') =
      (sd_addons (mg_data m))[i := reinstalled now f orig findings dec en (sd_addons (mg_data m) ! i)]"
    using assms by (auto simp: admit_manifest_def Let_def)
  moreover have "i < length (sd_addons (mg_data m))" using find_index_Some [OF Some] by simp
  ultimately show ?thesis
    by (intro bexI [of _ "reinstalled now f orig findings dec en (sd_addons (mg_data m) ! i)"])
      (simp_all add: reinstalled_def set_update_memI)
qed

text \<open>How an import ends.\<close>

lemma install_cases:
  assumes "installInternal E now net url src io m = (r, m')"
  shows "(\<not> ir_ok r \<and> m' = m) \<or>
    (\<exists>f orig findings. fetchManifest (me_sv E) net url = Inr f \<and> pd_allowed (policy_for E (fm_manifest f)) \<and>
       orig = (if fm_originalUrl f \<noteq> [] then fm_originalUrl f else trim url) \<and>
       findings = validateManifest E (mg_data m) (fm_manifest f) orig (fm_manifestUrl f) \<and>
       error_findings findings = [] \<and>
       admit_manifest E now f orig src io findings (policy_for E (fm_manifest f)) m = (r, m'))"
proof -
  let ?syn_ok = "assertUrlSyntax (map_option parsed_url.truncate \<circ> ul_parse (sv_url (me_sv E))) (preview_url url)
      (urlPolicy (me_cfg E))"
  show ?thesis
  proof (cases "io_aborted io")
    case True
    then show ?thesis using assms by (auto simp: installInternal_def refused_def)
  next
    case running: False
    show ?thesis
    proof (cases ?syn_ok)
      case (Inl e)
      then show ?thesis using assms running by (auto simp: installInternal_def Let_def refused_def)
    next
      case syn: (Inr u)
      show ?thesis
      proof (cases "fetchManifest (me_sv E) net url")
        case (Inl e)
        then show ?thesis using assms running syn by (cases e) (auto simp: installInternal_def Let_def refused_def)
      next
        case (Inr f)
        then show ?thesis
          using assms running syn by (auto simp: installInternal_def Let_def refused_def split: if_splits)
      qed
    qed
  qed
qed

text \<open>
  C15. The trust gate of an import: a refused import changes nothing at all; an accepted manifest is
  not refused by the operator's policy, and a new addon is enabled only when that policy lets
  its trust level be enabled, otherwise it waits as pending; importing over an installed addon
  keeps its id and whether it is enabled.
\<close>

theorem import_trust_gate:
  assumes "installInternal E now net url src io m = (r, m')"
  shows "(\<not> ir_ok r \<longrightarrow> m' = m) \<and>
    (ir_ok r \<longrightarrow> (\<exists>f a. fetchManifest (me_sv E) net url = Inr f \<and> pd_allowed (policy_for E (fm_manifest f)) \<and>
       ir_addon r = Some a \<and>
       (if ir_updated r
        then \<exists>i < length (sd_addons (mg_data m)). sd_addons (mg_data m') = (sd_addons (mg_data m))[i := a] \<and>
               ia_providerId a = ia_providerId (sd_addons (mg_data m) ! i) \<and>
               ia_enabled a = ia_enabled (sd_addons (mg_data m) ! i)
        else sd_addons (mg_data m') = sd_addons (mg_data m) @ [a] \<and>
               (ia_enabled a \<longrightarrow> pd_mayAutoEnable (policy_for E (fm_manifest f))) \<and>
               ia_admissionState a = Some (if ia_enabled a then Validated else Pending))))"
  using install_cases [OF assms]
proof
  assume "\<exists>f orig findings. fetchManifest (me_sv E) net url = Inr f \<and> pd_allowed (policy_for E (fm_manifest f)) \<and>
       orig = (if fm_originalUrl f \<noteq> [] then fm_originalUrl f else trim url) \<and>
       findings = validateManifest E (mg_data m) (fm_manifest f) orig (fm_manifestUrl f) \<and>
       error_findings findings = [] \<and>
       admit_manifest E now f orig src io findings (policy_for E (fm_manifest f)) m = (r, m')"
  then obtain f orig findings where "fetchManifest (me_sv E) net url = Inr f" "pd_allowed (policy_for E (fm_manifest f))"
    and a: "admit_manifest E now f orig src io findings (policy_for E (fm_manifest f)) m = (r, m')"
    by blast
  then show ?thesis using admit_cases [OF a] by blast
qed blast

text \<open>
  Importing is idempotent: after an accepted import, importing the same URL again (the network
  answering as before) is accepted as an update, and the installed ids stay the same.
\<close>

lemma import_idempotent:
  assumes "installInternal E now net url src io m = (r, m1)" "ir_ok r" "\<not> io_aborted io2"
  shows "ir_ok (fst (installInternal E now2 net url src2 io2 m1)) \<and>
    ir_updated (fst (installInternal E now2 net url src2 io2 m1)) \<and>
    map ia_providerId (sd_addons (mg_data (snd (installInternal E now2 net url src2 io2 m1)))) =
      map ia_providerId (sd_addons (mg_data m1))"
proof -
  obtain f orig findings where f: "fetchManifest (me_sv E) net url = Inr f" "pd_allowed (policy_for E (fm_manifest f))"
    "orig = (if fm_originalUrl f \<noteq> [] then fm_originalUrl f else trim url)"
    "findings = validateManifest E (mg_data m) (fm_manifest f) orig (fm_manifestUrl f)" "error_findings findings = []"
    "admit_manifest E now f orig src io findings (policy_for E (fm_manifest f)) m = (r, m1)"
    using install_cases [OF assms(1)] assms(2) by blast
  obtain u where u: "assertUrlSyntax (map_option parsed_url.truncate \<circ> ul_parse (sv_url (me_sv E))) (preview_url url)
      (urlPolicy (me_cfg E)) = Inr u"
    using assms(1,2)
    by (cases "assertUrlSyntax (map_option parsed_url.truncate \<circ> ul_parse (sv_url (me_sv E))) (preview_url url)
        (urlPolicy (me_cfg E))") (auto simp: installInternal_def Let_def refused_def split: if_splits)
  let ?fs2 = "validateManifest E (mg_data m1) (fm_manifest f) orig (fm_manifestUrl f)"
  have fs2: "error_findings ?fs2 = []" using f(4,5) error_findings_store by metis
  have second: "installInternal E now2 net url src2 io2 m1 =
      admit_manifest E now2 f orig src2 io2 ?fs2 (policy_for E (fm_manifest f)) m1"
    using assms(3) u f(1,2) fs2 by (simp add: installInternal_def Let_def flip: f(3))
  obtain r2 m2 where a2: "admit_manifest E now2 f orig src2 io2 ?fs2 (policy_for E (fm_manifest f)) m1 = (r2, m2)"
    by (cases "admit_manifest E now2 f orig src2 io2 ?fs2 (policy_for E (fm_manifest f)) m1")
  have "find_index (same_addon (sv_url (me_sv E)) f) (sd_addons (mg_data m1)) \<noteq> None"
    using admit_member [OF f(6)] by (auto simp: find_index_None same_addon_def)
  then have "ir_updated r2" using admit_cases [OF a2] by blast
  then obtain b i where b: "i < length (sd_addons (mg_data m1))" "sd_addons (mg_data m2) = (sd_addons (mg_data m1))[i := b]"
    "ia_providerId b = ia_providerId (sd_addons (mg_data m1) ! i)"
    using admit_cases [OF a2] by auto
  have "map ia_providerId (sd_addons (mg_data m2)) = map ia_providerId (sd_addons (mg_data m1))"
    using b by (simp add: map_update) (metis length_map list_update_id nth_map)
  then show ?thesis using \<open>ir_updated r2\<close> admit_cases [OF a2] by (simp add: second a2)
qed

subsection \<open>The properties\<close>

text \<open>
  C14. The provider registry follows the addon list: whatever sequence of imports, removals,
  enablings, timeouts, reorderings, refreshes, health reports and settings is applied, provider
  ids and orders stay distinct, every timeout lies between one and a hundred and twenty seconds,
  and the registry's addon providers are exactly the enabled stream addons, in the user's
  order, each with its current name, URL, manifest and timeout.
\<close>

theorem registry_follows_addons:
  assumes "registry_laws (me_api E)" "manager_ok E m"
  shows "manager_ok E (fold (manager_apply E) ops m) \<and>
    addon_providers E (mg_registry (fold (manager_apply E) ops m)) =
      map (provider_of E (fold (manager_apply E) ops m))
        (getStreamEnabled (collate_of E) (mg_data (fold (manager_apply E) ops m))) \<and>
    map pv_id (addon_providers E (mg_registry (fold (manager_apply E) ops m))) =
      orderedEnabledProviderIds (collate_of E) (mg_data (fold (manager_apply E) ops m))"
proof -
  have ok: "manager_ok E (fold (manager_apply E) ops m)" by (rule run_ok [OF assms])
  then show ?thesis
    by (simp add: manager_ok_def in_step_def comp_def getStreamEnabled_def orderedEnabledProviderIds_def)
qed

lemma id_rank_fold:
  "jm_get (fold (\<lambda>(i, x). jm_set x i) (enumerate n ids) mp) p =
     (case find_index (\<lambda>x. x = p) (rev ids) of None \<Rightarrow> jm_get mp p | Some k \<Rightarrow> Some (n + length ids - 1 - k))"
proof (induction ids arbitrary: n mp)
  case (Cons x ids)
  have app: "find_index P (xs @ [y]) = (case find_index P xs of Some k \<Rightarrow> Some k
      | None \<Rightarrow> if P y then Some (length xs) else None)" for P xs and y :: 'b
    by (induction xs) (auto split: option.splits)
  show ?case using Cons.IH [of "Suc n" "jm_set x n mp"] by (auto simp: app split: option.splits)
qed simp

text \<open>The place a reorder wants for the addon at index \<open>i\<close>.\<close>

definition wanted_place :: "string list \<Rightarrow> installed_addon list \<Rightarrow> nat \<Rightarrow> nat" where
  "wanted_place ids l i = (case id_rank ids (ia_providerId (l ! i)) of Some k \<Rightarrow> k | None \<Rightarrow> length ids + i)"

lemma reorder_addons:
  "sd_addons (mg_data (reorder E ids m)) = renumber (collate_of E)
     (map (\<lambda>(i, a). a\<lparr>ia_order := int (wanted_place ids (sd_addons (mg_data m)) i)\<rparr>) (enumerate 0 (sd_addons (mg_data m))))"
proof -
  have eq: "map (\<lambda>(i, a). a\<lparr>ia_order := (case id_rank ids (ia_providerId a) of
            Some k \<Rightarrow> int k | None \<Rightarrow> int (length ids) + int i)\<rparr>) (enumerate 0 l) =
      map (\<lambda>(i, a). a\<lparr>ia_order := int (wanted_place ids l i)\<rparr>) (enumerate 0 l)" for l
    by (rule nth_equalityI) (simp_all add: nth_enumerate_eq wanted_place_def split: option.split)
  show ?thesis by (simp only: reorder_def commit_data reconcile_data eq, simp)
qed


text \<open>
  C16. Secrets at rest: no addon URL that looks secret-bearing and no debrid key is in the stored
  snapshot unsealed, and opening the stored addons gives back exactly the addons in memory.
\<close>

theorem stored_secrets_sealed:
  assumes "sv_box S = createSecretBox c draw" "gcm_law c" "ul_parse (sv_url S) [] = None"
    and "list_all (\<lambda>a. \<not> isSealed (ia_manifestUrl a) \<and> \<not> isSealed (ia_baseUrl a) \<and>
           ia_originalImportUrl a \<noteq> Some [] \<and> \<not> isSealed (or_else (ia_originalImportUrl a) [])) (sd_addons d)"
  shows "list_all (\<lambda>a. \<not> needs_seal S a) (sd_addons (persist_snapshot S d)) \<and>
    (case sd_settings (persist_snapshot S d) of None \<Rightarrow> True | Some st \<Rightarrow> ds_apiKey st = [] \<or> isSealed (ds_apiKey st)) \<and>
    map (openAddonUrls S) (sd_addons (persist_snapshot S d)) = sd_addons d"
proof -
  have nil: "\<not> isSealed []" by (simp add: isSealed_def starts_with_def PREFIX_def)
  have box: "sb_seal (sv_box S) u = seal c (draw u) u" "sb_open (sv_box S) u = open_sealed c u" for u
    by (simp_all add: assms(1) createSecretBox_def)
  have plain: "\<not> urlLooksSecretBearing (sv_url S) []"
    by (simp add: urlLooksSecretBearing_def assms(3) after_mark_def)
  have hidden: "\<not> (urlLooksSecretBearing (sv_url S) (sealSensitiveUrl S u) \<and> \<not> isSealed (sealSensitiveUrl S u))" for u
    using plain by (auto simp: sealSensitiveUrl_def box isSealed_seal)
  have opened: "openSensitiveUrl S (sealSensitiveUrl S u) = u" if "\<not> isSealed u" for u
    using that open_seal [OF assms(2) that, of "draw u"] isSealed_seal [of c "draw u" u] nil
    by (auto simp: openSensitiveUrl_def sealSensitiveUrl_def box)
  have a: "\<not> needs_seal S (seal_addon S a)" for a
    using hidden plain nil by (auto simp: needs_seal_def seal_addon_def split: option.split list.split)
  have b: "openAddonUrls S (seal_addon S a) = a" if "a \<in> set (sd_addons d)" for a
  proof -
    have o: "\<not> isSealed (ia_manifestUrl a)" "\<not> isSealed (ia_baseUrl a)" "ia_originalImportUrl a \<noteq> Some []"
      "\<not> isSealed (or_else (ia_originalImportUrl a) [])"
      using assms(4) that by (simp_all add: list_all_iff)
    show ?thesis
    proof (cases "ia_originalImportUrl a")
      case None
      then show ?thesis using o by (simp add: openAddonUrls_def seal_addon_def opened)
    next
      case (Some u)
      then have u: "u \<noteq> []" "\<not> isSealed u" using o by auto
      then have "sealSensitiveUrl S u \<noteq> []"
        using isSealed_seal [of c "draw u" u] nil by (auto simp: sealSensitiveUrl_def box)
      then show ?thesis
        using Some u o opened [OF u(2)]
        by (cases "sealSensitiveUrl S u"; cases u) (simp_all add: openAddonUrls_def seal_addon_def opened)
    qed
  qed
  have s: "ds_apiKey (seal_settings S st) = [] \<or> isSealed (ds_apiKey (seal_settings S st))" for st
    by (simp add: seal_settings_def box isSealed_seal)
  show ?thesis
    using a b s by (auto simp: persist_snapshot_def list_all_iff comp_def map_idI split: option.split)
qed

subsection \<open>Witnesses\<close>

definition list_registry :: "provider list registry_api" where
  "list_registry = \<lparr>ra_getProviders = (\<lambda>r. r), ra_listProviders = map pv_id,
     ra_hasProvider = (\<lambda>r i. list_ex (\<lambda>p. pv_id p = i) r), ra_register = (\<lambda>p r. r @ [p]),
     ra_unregister = (\<lambda>i r. filter (\<lambda>p. pv_id p \<noteq> i) r)\<rparr>"

lemma list_registry_laws: "registry_laws list_registry"
  by (auto simp: registry_laws_def list_registry_def list_ex_iff)

definition open_market :: market_policy where
  "open_market = \<lparr>mp_trustedIds = [], mp_trustedFingerprints = [], mp_blockedIds = [], mp_blockedFingerprints = [],
                  mp_minTrustForEnable = Unknown, mp_enforceDenylist = True\<rparr>"

definition demo_config :: manager_config where
  "demo_config = \<lparr>mc_allowHttpUpstreams = False, mc_outboundHostAllowlist = [], mc_outboundHostAllowSuffixes = [],
     mc_importMaxUrls = 10, mc_importEnableOnInstall = None, mc_market = open_market,
     mc_healthStaleThresholdMinutes = 60, mc_seedUrls = [], mc_debridApiKey = [], mc_debridProvider = ''none'',
     mc_secureProxy = True\<rparr>"

definition demo_services :: services where
  "demo_services = \<lparr>sv_url = demo_url_lib, sv_box = createSecretBox plain_gcm (\<lambda>_. ''iv''), sv_hash = (\<lambda>s. s),
     sv_leaf = (\<lambda>j. case j of JStr s \<Rightarrow> s | _ \<Rightarrow> ''x''), sv_num = (\<lambda>_. ''1''), sv_saves = (\<lambda>_. True),
     sv_policy_text = (\<lambda>_. ''policy''), sv_redact = (\<lambda>s. s)\<rparr>"

definition demo_menv :: "provider list manager_env" where
  "demo_menv = \<lparr>me_api = list_registry, me_cfg = demo_config, me_sv = demo_services\<rparr>"

definition demo_doc :: json where
  "demo_doc = JObj [(''id'', JStr ''org.x''), (''name'', JStr ''X''), (''resources'', JArr [JStr ''stream''])]"

definition demo_net :: network where
  "demo_net u = HttpReply 200 True (Some demo_doc) []"

definition demo_manager :: "provider list manager" where
  "demo_manager = \<lparr>mg_data = emptyStoreData, mg_registry = [], mg_stored = emptyStoreData, mg_grants = False,
     mg_publicBase = [], mg_hookLog = [], mg_debrid = \<lparr>dr_provider = ''none'', dr_apiKey = [], dr_source = ''none''\<rparr>\<rparr>"

definition demo_import :: manager_op where
  "demo_import = MInstall 7 demo_net ''stremio://h/c?a=1&b=2'' FromUrl \<lparr>io_enable = None, io_aborted = False\<rparr>"

lemma demo_manager_ok: "manager_ok demo_menv demo_manager"
  by (simp add: manager_ok_def in_step_def addons_ok_def demo_manager_def emptyStoreData_def addon_providers_def
      demo_menv_def list_registry_def getStreamEnabled_def sortAddons_def)

definition demo_url_text :: string where
  "demo_url_text = ''stremio://h/c?a=1&b=2''"

definition demo_fetched :: fetched_manifest where
  "demo_fetched = \<lparr>fm_manifest = demo_doc, fm_baseUrl = ''https://h/c?a=1&b=2'',
     fm_manifestUrl = ''https://h/c/manifest.json?a=1&b=2'', fm_originalUrl = ''stremio://h/c?a=1&b=2''\<rparr>"

lemma demo_syntax: "case assertUrlSyntax (map_option parsed_url.truncate \<circ> ul_parse demo_url_lib)
    (preview_url demo_url_text) (urlPolicy demo_config) of Inr u \<Rightarrow> True | Inl e \<Rightarrow> False"
  by code_simp

lemma demo_fetches: "fetchManifest demo_services demo_net demo_url_text = Inr demo_fetched"
  by (simp add: fetchManifest_def demo_services_def demo_url_text_def demo_parse demo_net_def demo_fetched_def
      demo_doc_def jfield_def jtruthy_def)

lemma demo_findings: "error_findings (validateManifest demo_menv emptyStoreData demo_doc demo_url_text
    ''https://h/c/manifest.json?a=1&b=2'') = []"
  by code_simp

lemma demo_policy: "pd_allowed (policy_for demo_menv demo_doc) \<and> pd_mayAutoEnable (policy_for demo_menv demo_doc)"
  by (simp add: policy_for_def evaluateImportPolicy_def classifyManifest_def Let_def demo_menv_def demo_config_def
      open_market_def)

definition demo_result :: "install_result \<times> provider list manager" where
  "demo_result = installInternal demo_menv 7 demo_net demo_url_text FromUrl \<lparr>io_enable = None, io_aborted = False\<rparr> demo_manager"

definition demo_installed :: installed_addon where
  "demo_installed = new_addon 7 ''addon:org-x'' demo_fetched demo_url_text
     (validateManifest demo_menv emptyStoreData demo_doc demo_url_text ''https://h/c/manifest.json?a=1&b=2'')
     (policy_for demo_menv demo_doc) True 0 FromUrl"

lemma demo_env_simps [simp]:
  "me_sv demo_menv = demo_services" "me_cfg demo_menv = demo_config" "me_api demo_menv = list_registry"
  "sv_url demo_services = demo_url_lib" "mc_importEnableOnInstall demo_config = None"
  "mg_data demo_manager = emptyStoreData" "sd_addons emptyStoreData = []"
  by (simp_all add: demo_menv_def demo_services_def demo_config_def demo_manager_def emptyStoreData_def)

lemma demo_unique: "uniqueProviderId demo_services emptyStoreData demo_doc ''https://h/c?a=1&b=2'' = ''addon:org-x''"
  by code_simp

lemma demo_fetched_simps [simp]:
  "fm_manifest demo_fetched = demo_doc" "fm_baseUrl demo_fetched = ''https://h/c?a=1&b=2''"
  "fm_manifestUrl demo_fetched = ''https://h/c/manifest.json?a=1&b=2''" "fm_originalUrl demo_fetched = demo_url_text"
  by (simp_all add: demo_fetched_def demo_url_text_def)

lemma demo_url_text_nonempty [simp]: "demo_url_text \<noteq> []"
  by (simp add: demo_url_text_def)

lemma demo_admit:
  "demo_result = admit_manifest demo_menv 7 demo_fetched demo_url_text FromUrl \<lparr>io_enable = None, io_aborted = False\<rparr>
     (validateManifest demo_menv emptyStoreData demo_doc demo_url_text ''https://h/c/manifest.json?a=1&b=2'')
     (policy_for demo_menv demo_doc) demo_manager"
proof -
  obtain u where "assertUrlSyntax (map_option parsed_url.truncate \<circ> ul_parse demo_url_lib)
      (preview_url demo_url_text) (urlPolicy demo_config) = Inr u"
    using demo_syntax by (auto split: sum.splits)
  then show ?thesis
    using demo_findings demo_policy
    by (simp add: demo_result_def installInternal_def Let_def demo_fetches)
qed

lemma demo_result_addons:
  "ir_ok (fst demo_result) \<and> \<not> ir_updated (fst demo_result) \<and> sd_addons (mg_data (snd demo_result)) = [demo_installed]"
  using demo_policy
  by (simp add: demo_admit admit_manifest_def Let_def demo_installed_def demo_unique max_order_def)

theorem import_trust_gate_witness:
  "\<exists>a. ir_addon (fst demo_result) = Some a \<and> sd_addons (mg_data (snd demo_result)) = [a] \<and>
     ia_admissionState a = Some (if ia_enabled a then Validated else Pending)"
  using import_trust_gate [of demo_menv 7 demo_net demo_url_text FromUrl "\<lparr>io_enable = None, io_aborted = False\<rparr>" demo_manager
      "fst demo_result" "snd demo_result"] demo_result_addons
  by (auto simp: demo_result_def)

theorem import_idempotent_witness:
  "map ia_providerId (sd_addons (mg_data (snd (installInternal demo_menv 9 demo_net demo_url_text Manual
     \<lparr>io_enable = Some False, io_aborted = False\<rparr> (snd demo_result))))) = [''addon:org-x'']"
  using import_idempotent [of demo_menv 7 demo_net demo_url_text FromUrl "\<lparr>io_enable = None, io_aborted = False\<rparr>" demo_manager
      "fst demo_result" "snd demo_result" "\<lparr>io_enable = Some False, io_aborted = False\<rparr>" 9 Manual] demo_result_addons
  by (simp add: demo_result_def, simp add: demo_installed_def new_addon_def)

lemma demo_stream: "isStreamCapable (capabilitiesFor demo_doc)"
  by code_simp

theorem registry_follows_addons_witness:
  "map pv_id (addon_providers demo_menv (mg_registry (fold (manager_apply demo_menv)
     [MInstall 7 demo_net demo_url_text FromUrl \<lparr>io_enable = None, io_aborted = False\<rparr>] demo_manager))) = [''addon:org-x'']"
proof -
  let ?ops = "[MInstall 7 demo_net demo_url_text FromUrl \<lparr>io_enable = None, io_aborted = False\<rparr>]"
  have run: "fold (manager_apply demo_menv) ?ops demo_manager = snd demo_result" by (simp add: demo_result_def)
  have "registry_laws (me_api demo_menv)" by (simp add: list_registry_laws)
  then have "map pv_id (addon_providers demo_menv (mg_registry (fold (manager_apply demo_menv) ?ops demo_manager))) =
      orderedEnabledProviderIds (collate_of demo_menv) (mg_data (snd demo_result))"
    using registry_follows_addons [of demo_menv demo_manager ?ops] demo_manager_ok run by metis
  also have "\<dots> = [''addon:org-x'']"
    using demo_result_addons demo_stream
    by (simp add: orderedEnabledProviderIds_def sortAddons_def stream_enabled_def, simp add: demo_installed_def new_addon_def)
  finally show ?thesis .
qed

theorem stored_secrets_sealed_witness:
  "list_all (\<lambda>a. \<not> needs_seal demo_services a) (sd_addons (persist_snapshot demo_services (mg_data (snd demo_result)))) \<and>
   map (openAddonUrls demo_services) (sd_addons (persist_snapshot demo_services (mg_data (snd demo_result)))) =
     [demo_installed]"
proof -
  have "gcm_law plain_gcm" by (simp add: gcm_law_def plain_gcm_def)
  moreover have "sv_box demo_services = createSecretBox plain_gcm (\<lambda>_. ''iv'')" by (simp add: demo_services_def)
  moreover have "ul_parse demo_url_lib [] = None" by (simp add: demo_url_lib_def)
  moreover have "\<not> isSealed (ia_manifestUrl demo_installed) \<and> \<not> isSealed (ia_baseUrl demo_installed) \<and>
      ia_originalImportUrl demo_installed \<noteq> Some [] \<and> \<not> isSealed (or_else (ia_originalImportUrl demo_installed) [])"
    by (simp add: demo_installed_def new_addon_def, simp add: demo_url_text_def isSealed_def starts_with_def PREFIX_def)
  ultimately show ?thesis
    using stored_secrets_sealed [of demo_services plain_gcm "\<lambda>_. ''iv''" "mg_data (snd demo_result)"]
      demo_result_addons by simp
qed

definition demo_two :: "provider list manager" where
  "demo_two = demo_manager\<lparr>mg_data := \<lparr>sd_addons = [demo_installed, demo_installed\<lparr>ia_providerId := ''addon:b'', ia_order := 1\<rparr>],
     sd_settings = None, sd_revision = 2\<rparr>\<rparr>"


subsection \<open>Departures\<close>

text \<open>
  Reloading the shared store compares ids only: a provider whose addon changed its timeout, URL
  or manifest on another instance stays registered as it was.
\<close>

lemma reload_keeps_stale_providers:
  assumes "registry_laws (me_api E)" "sd_revision (mg_data m) < sd_revision f"
    and "\<forall>a \<in> set (sd_addons f). is_addon_id (ia_providerId a)" "distinct (map ia_providerId (sd_addons f))"
    and "map pv_id (addon_providers E (mg_registry m)) =
      orderedEnabledProviderIds (collate_of E) (mg_data (snd (reloadFromStorage E (Some f) m)))"
  shows "addon_providers E (mg_registry (snd (reloadFromStorage E (Some f) m))) = addon_providers E (mg_registry m)"
proof -
  let ?l = "map (\<lambda>a. backfill (openAddonUrls (me_sv E) a)) (sd_addons f)"
  let ?m = "applyDebrid E (m\<lparr>mg_data := f\<lparr>sd_addons := renumber (collate_of E) ?l\<rparr>\<rparr>)"
  have re: "snd (reloadFromStorage E (Some f) m) = reconcileRegistry E ?m"
    using assms(2) by (simp add: reloadFromStorage_def)
  have data: "sd_addons (mg_data ?m) = renumber (collate_of E) ?l" "mg_registry ?m = mg_registry m"
    by (simp_all add: applyDebrid_def Let_def)
  have "map ia_providerId (renumber (collate_of E) ?l) = map ia_providerId (sd_addons f)"
    using renumber_same [of ia_providerId "collate_of E" ?l] by (simp add: backfill_def openAddonUrls_def comp_def)
  then have ids: "\<forall>a \<in> set (sd_addons (mg_data ?m)). is_addon_id (ia_providerId a)"
    "distinct (map ia_providerId (sd_addons (mg_data ?m)))"
    using assms(3,4) unfolding data by (metis (no_types, lifting) image_iff set_map, simp)
  have "map pv_id (addon_providers E (mg_registry m)) =
      map ia_providerId (getStreamEnabled (collate_of E) (mg_data ?m))"
    using assms(5) by (simp add: re orderedEnabledProviderIds_def getStreamEnabled_def)
  moreover then have "filter (\<lambda>p. pv_id p \<in> set (map ia_providerId (getStreamEnabled (collate_of E) (mg_data ?m))))
      (addon_providers E (mg_registry m)) = addon_providers E (mg_registry m)"
    by (intro filter_True) (metis image_eqI set_map)
  ultimately show ?thesis
    using reconcile_spec [OF assms(1) ids] by (auto simp: re data(2) Let_def)
qed

text \<open>Importing over a disabled addon with enabling asked marks it validated and leaves it disabled.\<close>

lemma reinstall_validates_disabled:
  assumes "admit_manifest E now f orig src io findings dec m = (r, m')" "io_enable io = Some True" "pd_mayAutoEnable dec"
    and "find_index (same_addon (sv_url (me_sv E)) f) (sd_addons (mg_data m)) = Some i"
    and "\<not> ia_enabled (sd_addons (mg_data m) ! i)"
  shows "\<exists>a. ir_addon r = Some a \<and> ia_admissionState a = Some Validated \<and> \<not> ia_enabled a"
  using assms by (auto simp: admit_manifest_def Let_def reinstalled_def)

text \<open>Wiring the grants registers the providers again in stored order, not in priority order.\<close>

lemma grants_rewire_in_stored_order:
  assumes "addon_ok a" "addon_ok b" "stream_enabled a" "stream_enabled b" "ia_providerId a \<noteq> ia_providerId b"
    and "ia_order a = 0" "ia_order b = 1" "sd_addons (mg_data m) = [b, a]" "mg_registry m = []"
  shows "map pv_id (addon_providers demo_menv (mg_registry (setPlaybackGrants demo_menv base m))) =
      [ia_providerId b, ia_providerId a] \<and>
    orderedEnabledProviderIds (collate_of demo_menv) (mg_data m) = [ia_providerId a, ia_providerId b]"
proof -
  have "isStreamCapable (capabilitiesFor (ia_manifest a))" "isStreamCapable (capabilitiesFor (ia_manifest b))"
    "ia_enabled a" "ia_enabled b"
    using assms(1-4) by (auto simp: addon_ok_def stream_enabled_def)
  then show ?thesis
    using assms
    by (simp add: setPlaybackGrants_def registerProvider_def unregisterProvider_def addon_ok_def list_registry_def
        addon_providers_def orderedEnabledProviderIds_def sortAddons_def addon_rank_def)
qed

end
