(* ===== verification/AddonStore.thy ===== *)
theory AddonStore
  imports ManagerFacts FileStore
begin

text \<open>
  The addon store over a storage backend, \<open>BackendAddonStore\<close> of \<open>src/addons/store.ts\<close>, here on the
  file backend of \<open>FileStore\<close>. The backend keeps the whole addon object; the fields it does not
  look at travel in the payload of its record.
\<close>

type_synonym 'p addon_backend = "(installed_addon, finding, 'p) file_store"

definition source_text :: "addon_source \<Rightarrow> string" where
  "source_text src = (case src of FromUrl \<Rightarrow> ''url'' | StremioAccount \<Rightarrow> ''stremio-account'' | Repository \<Rightarrow> ''repository''
     | Seed \<Rightarrow> ''seed'' | Manual \<Rightarrow> ''manual'')"

definition admission_text :: "admission_state \<Rightarrow> string" where
  "admission_text st = (case st of admission_state.Pending \<Rightarrow> ''pending'' | Validated \<Rightarrow> ''validated'' | Disabled \<Rightarrow> ''disabled''
     | Quarantined \<Rightarrow> ''quarantined'' | Rejected \<Rightarrow> ''rejected'')"

text \<open>The object as the backend sees it; the version is the backend's business.\<close>

definition to_record :: "installed_addon \<Rightarrow> (installed_addon, finding) addon_record" where
  "to_record a =
     \<lparr>ad_providerId = ia_providerId a, ad_slug = ia_slug a, ad_name = ia_name a, ad_manifestUrl = ia_manifestUrl a,
      ad_baseUrl = ia_baseUrl a, ad_enabled = ia_enabled a,
      ad_admissionState = map_option admission_text (ia_admissionState a),
      ad_validationFindings = ia_validationFindings a, ad_order = ia_order a, ad_timeoutMs = ia_timeoutMs a,
      ad_source = source_text (ia_source a), ad_manifest = a, ad_version = 0, ad_addedAt = [],
      ad_updatedAt = ia_updatedAt a, ad_health = None\<rparr>"

definition of_record :: "(installed_addon, finding) addon_record \<Rightarrow> installed_addon" where
  "of_record r = (ad_manifest r)\<lparr>ia_order := ad_order r, ia_updatedAt := ad_updatedAt r\<rparr>"

definition backend_load :: "(string \<Rightarrow> int) \<Rightarrow> 'p addon_backend \<Rightarrow> store_data" where
  "backend_load collate s =
     \<lparr>sd_addons = map of_record (listAddons collate s),
      sd_settings = Some (case fs_debrid s of
         Some (prov, k) \<Rightarrow> \<lparr>ds_provider = prov, ds_apiKey = or_else k []\<rparr> | None \<Rightarrow> defaultSettings),
      sd_revision = fs_revision s\<rparr>"

definition drop_one ::
  "time_ms \<Rightarrow> string set \<Rightarrow> (installed_addon, finding) addon_record \<Rightarrow> 'p addon_backend \<Rightarrow> 'p addon_backend" where
  "drop_one now kept prev s =
     (if ad_providerId prev \<in> kept then s else snd (removeAddon now [] (ad_providerId prev) None s))"

definition drop_removed :: "(string \<Rightarrow> int) \<Rightarrow> time_ms \<Rightarrow> string list \<Rightarrow> 'p addon_backend \<Rightarrow> 'p addon_backend" where
  "drop_removed collate now ids s = fold (drop_one now (set ids)) (listAddons collate s) s"

definition save_all :: "time_ms \<Rightarrow> installed_addon list \<Rightarrow> 'p addon_backend \<Rightarrow> 'p addon_backend" where
  "save_all now as' s = fold (\<lambda>a s. snd (saveAddon now [] (to_record a) None None s)) as' s"

definition backend_save :: "(string \<Rightarrow> int) \<Rightarrow> time_ms \<Rightarrow> store_data \<Rightarrow> 'p addon_backend \<Rightarrow> 'p addon_backend" where
  "backend_save collate now d s =
     (let s1 = save_all now (sd_addons d) (drop_removed collate now (map ia_providerId (sd_addons d)) s)
      in case sd_settings d of
           None \<Rightarrow> s1
         | Some st \<Rightarrow> saveDebridConfig (ds_provider st) (Some (ds_apiKey st)) s1)"

subsection \<open>Saving and loading\<close>

definition ids_distinct :: "'p addon_backend \<Rightarrow> bool" where
  "ids_distinct s \<longleftrightarrow> distinct (map ad_providerId (fs_addons s))"

lemma removeAddon_set:
  assumes "ids_distinct s"
  shows "ids_distinct (snd (removeAddon now n pid None s)) \<and>
    set (fs_addons (snd (removeAddon now n pid None s))) = {x \<in> set (fs_addons s). ad_providerId x \<noteq> pid}"
proof (cases "find_index (\<lambda>a. ad_providerId a = pid) (fs_addons s)")
  case None
  then have "\<forall>x \<in> set (fs_addons s). ad_providerId x \<noteq> pid" by (simp add: find_index_None)
  then show ?thesis using None assms by (auto simp: removeAddon_def)
next
  case (Some i)
  let ?l = "fs_addons s"
  have i: "i < length ?l" "ad_providerId (?l ! i) = pid" using find_index_Some [OF Some] by simp_all
  have split: "?l = take i ?l @ ?l ! i # drop (Suc i) ?l" by (rule remove_at_split [OF i(1)])
  have "distinct (map ad_providerId (take i ?l @ ?l ! i # drop (Suc i) ?l))"
    using assms split by (simp add: ids_distinct_def)
  then have d: "distinct (map ad_providerId (remove_at i ?l))"
    "pid \<notin> ad_providerId ` set (remove_at i ?l)"
    using i(2) by (auto simp: remove_at_def)
  have "set ?l = insert (?l ! i) (set (remove_at i ?l))"
    by (subst split) (auto simp: remove_at_def)
  then have "set (remove_at i ?l) = {x \<in> set ?l. ad_providerId x \<noteq> pid}"
    using d(2) i(2) by (auto simp: image_iff)
  then show ?thesis using Some d(1) by (simp add: removeAddon_def push_outbox_def ids_distinct_def)
qed

lemma saveAddon_set:
  assumes "ids_distinct s"
  shows "\<exists>v. ids_distinct (snd (saveAddon now n r None None s)) \<and>
    set (fs_addons (snd (saveAddon now n r None None s))) =
      insert (r\<lparr>ad_version := v, ad_updatedAt := now\<rparr>) {x \<in> set (fs_addons s). ad_providerId x \<noteq> ad_providerId r}"
proof (cases "find_index (\<lambda>a. ad_providerId a = ad_providerId r) (fs_addons s)")
  case None
  then have "\<forall>x \<in> set (fs_addons s). ad_providerId x \<noteq> ad_providerId r" by (simp add: find_index_None)
  then show ?thesis
    using None assms by (intro exI [of _ 1]) (auto simp: saveAddon_def Let_def push_outbox_def ids_distinct_def)
next
  case (Some i)
  let ?l = "fs_addons s"
  let ?u = "r\<lparr>ad_version := ad_version (?l ! i) + 1, ad_updatedAt := now\<rparr>"
  have i: "i < length ?l" "ad_providerId (?l ! i) = ad_providerId r" using find_index_Some [OF Some] by simp_all
  have d: "distinct (map ad_providerId ?l)" using assms by (simp add: ids_distinct_def)
  have ids: "map ad_providerId (?l[i := ?u]) = map ad_providerId ?l"
    using i by (simp add: map_update) (metis list_update_id map_update)
  have "set (?l[i := ?u]) = insert ?u {x \<in> set ?l. ad_providerId x \<noteq> ad_providerId r}"
  proof -
    have "x \<in> set (?l[i := ?u]) \<longleftrightarrow> x = ?u \<or> x \<in> set ?l \<and> ad_providerId x \<noteq> ad_providerId r" for x
    proof
      assume "x \<in> set (?l[i := ?u])"
      then obtain j where j: "j < length ?l" "x = ?l[i := ?u] ! j" by (metis in_set_conv_nth length_list_update)
      show "x = ?u \<or> x \<in> set ?l \<and> ad_providerId x \<noteq> ad_providerId r"
      proof (cases "j = i")
        case False
        then have "ad_providerId (?l ! j) \<noteq> ad_providerId (?l ! i)"
          using nth_eq_iff_index_eq [OF d, of j i] i(1) j(1) by simp
        then show ?thesis using j i(2) False by simp
      qed (use j in simp)
    next
      assume "x = ?u \<or> x \<in> set ?l \<and> ad_providerId x \<noteq> ad_providerId r"
      then show "x \<in> set (?l[i := ?u])"
        using i by (auto simp: set_update_memI) (metis in_set_conv_nth length_list_update nth_list_update_neq)
    qed
    then show ?thesis by auto
  qed
  then show ?thesis
    using Some ids d by (intro exI [of _ "ad_version (?l ! i) + 1"])
      (simp add: saveAddon_def Let_def push_outbox_def ids_distinct_def)
qed

lemma drop_set:
  assumes "ids_distinct s"
  shows "ids_distinct (fold (drop_one now I) ps s) \<and>
    set (fs_addons (fold (drop_one now I) ps s)) =
      {x \<in> set (fs_addons s). ad_providerId x \<in> I \<or> ad_providerId x \<notin> ad_providerId ` set ps}"
  using assms
proof (induction ps arbitrary: s)
  case (Cons p ps)
  note gone = removeAddon_set [OF Cons.prems, of now "[]" "ad_providerId p"]
  have one: "ids_distinct (drop_one now I p s)"
    using conjunct1 [OF gone] Cons.prems by (cases "ad_providerId p \<in> I") (simp_all only: drop_one_def if_True if_False not_False_eq_True)
  have two: "set (fs_addons (drop_one now I p s)) = {x \<in> set (fs_addons s). ad_providerId x \<in> I \<or> ad_providerId x \<noteq> ad_providerId p}"
  proof (cases "ad_providerId p \<in> I")
    case True
    then show ?thesis by (auto simp: drop_one_def)
  next
    case False
    then show ?thesis unfolding drop_one_def if_not_P [OF False] conjunct2 [OF gone] by auto
  qed
  have "{x \<in> set (fs_addons (drop_one now I p s)). ad_providerId x \<in> I \<or> ad_providerId x \<notin> ad_providerId ` set ps} =
      {x \<in> set (fs_addons s). ad_providerId x \<in> I \<or> ad_providerId x \<notin> ad_providerId ` set (p # ps)}"
    unfolding two list.set image_insert by blast
  then show ?case using Cons.IH [OF one] by simp
qed simp

lemma drop_debrid [simp]: "fs_debrid (fold (drop_one now I) ps s) = fs_debrid s"
  by (induction ps arbitrary: s) (simp_all add: drop_one_def removeAddon_def push_outbox_def split: option.split)

lemma save_all_debrid [simp]: "fs_debrid (save_all now as' s) = fs_debrid s"
  unfolding save_all_def
  by (induction as' arbitrary: s) (simp_all add: saveAddon_def Let_def push_outbox_def split: option.split)

lemma drop_removed_set:
  assumes "ids_distinct s"
  shows "ids_distinct (drop_removed collate now ids s)"
    "set (fs_addons (drop_removed collate now ids s)) = {x \<in> set (fs_addons s). ad_providerId x \<in> set ids}"
proof -
  note d = drop_set [OF assms, where now = now and I = "set ids" and ps = "listAddons collate s"]
  show "ids_distinct (drop_removed collate now ids s)"
    using conjunct1 [OF d] unfolding drop_removed_def .
  show "set (fs_addons (drop_removed collate now ids s)) = {x \<in> set (fs_addons s). ad_providerId x \<in> set ids}"
    unfolding drop_removed_def conjunct2 [OF d] by (auto simp: listAddons_def)
qed

text \<open>A record written from an addon reads back as that addon, restamped.\<close>

definition faithful :: "(installed_addon, finding) addon_record \<Rightarrow> bool" where
  "faithful r \<longleftrightarrow> ad_name r = ia_name (of_record r) \<and> ad_providerId r = ia_providerId (of_record r)"

lemma of_record_written [simp]:
  "of_record ((to_record a)\<lparr>ad_version := v, ad_updatedAt := now\<rparr>) = a\<lparr>ia_updatedAt := now\<rparr>"
  by (simp add: of_record_def to_record_def)

lemma faithful_written [simp]: "faithful ((to_record a)\<lparr>ad_version := v, ad_updatedAt := now\<rparr>)"
  by (simp add: faithful_def of_record_def to_record_def)

lemma to_record_id [simp]: "ad_providerId (to_record a) = ia_providerId a"
  by (simp add: to_record_def)

lemma save_all_set:
  assumes "ids_distinct s" "distinct (map ia_providerId as')"
  shows "ids_distinct (save_all now as' s) \<and>
    of_record ` set (fs_addons (save_all now as' s)) =
      of_record ` {x \<in> set (fs_addons s). ad_providerId x \<notin> ia_providerId ` set as'} \<union> (\<lambda>a. a\<lparr>ia_updatedAt := now\<rparr>) ` set as' \<and>
    (\<forall>x \<in> set (fs_addons (save_all now as' s)).
       faithful x \<or> x \<in> set (fs_addons s) \<and> ad_providerId x \<notin> ia_providerId ` set as')"
  using assms
proof (induction as' arbitrary: s)
  case (Cons a as')
  let ?s = "snd (saveAddon now [] (to_record a) None None s)"
  obtain v where v: "ids_distinct ?s" "set (fs_addons ?s) =
      insert ((to_record a)\<lparr>ad_version := v, ad_updatedAt := now\<rparr>) {x \<in> set (fs_addons s). ad_providerId x \<noteq> ia_providerId a}"
    using saveAddon_set [OF Cons.prems(1), of now "[]" "to_record a"] by auto
  have d: "distinct (map ia_providerId as')" "ia_providerId a \<notin> ia_providerId ` set as'" using Cons.prems(2) by simp_all
  have step: "save_all now (a # as') s = save_all now as' ?s" by (simp add: save_all_def)
  have keep: "{x \<in> set (fs_addons ?s). ad_providerId x \<notin> ia_providerId ` set as'} =
      insert ((to_record a)\<lparr>ad_version := v, ad_updatedAt := now\<rparr>)
        {x \<in> set (fs_addons s). ad_providerId x \<notin> ia_providerId ` set (a # as')}"
    using d(2) by (auto simp: v(2))
  have "\<forall>x \<in> set (fs_addons (save_all now as' ?s)). faithful x \<or> x \<in> set (fs_addons s) \<and> ad_providerId x \<notin> ia_providerId ` set (a # as')"
    using Cons.IH [OF v(1) d(1)] v(2) by auto
  moreover have "of_record ` set (fs_addons (save_all now as' ?s)) =
      of_record ` {x \<in> set (fs_addons s). ad_providerId x \<notin> ia_providerId ` set (a # as')} \<union> (\<lambda>a. a\<lparr>ia_updatedAt := now\<rparr>) ` set (a # as')"
    using Cons.IH [OF v(1) d(1)] unfolding keep by simp
  ultimately show ?case unfolding step using Cons.IH [OF v(1) d(1)] by blast
qed (simp add: save_all_def)

lemma backend_save_set:
  assumes "ids_distinct s" "distinct (map ia_providerId (sd_addons d))" "r = fs_addons (backend_save collate now d s)"
  shows "distinct (map ad_providerId r)" "of_record ` set r = (\<lambda>a. a\<lparr>ia_updatedAt := now\<rparr>) ` set (sd_addons d)"
    "\<forall>x \<in> set r. faithful x"
proof -
  let ?s = "drop_removed collate now (map ia_providerId (sd_addons d)) s"
  have r: "r = fs_addons (save_all now (sd_addons d) ?s)"
    by (simp add: assms(3) backend_save_def Let_def saveDebridConfig_def split: option.split)
  have gone: "{x \<in> set (fs_addons ?s). ad_providerId x \<notin> ia_providerId ` set (sd_addons d)} = {}"
    using drop_removed_set(2) [OF assms(1)] by auto
  note all = save_all_set [OF drop_removed_set(1) [OF assms(1), of collate now "map ia_providerId (sd_addons d)"] assms(2), of now]
  show "distinct (map ad_providerId r)" using all by (simp add: r ids_distinct_def)
  show "of_record ` set r = (\<lambda>a. a\<lparr>ia_updatedAt := now\<rparr>) ` set (sd_addons d)" using all unfolding r gone by simp
  show "\<forall>x \<in> set r. faithful x" using all gone unfolding r by blast
qed

lemma distinct_projected: "distinct (map f l) \<Longrightarrow> (\<forall>x \<in> set l. f x = h (g x)) \<Longrightarrow> distinct (map g l)"
  by (induction l) (auto simp: image_iff)

text \<open>
  C17. What the store writes, it reads back. When no two addons share an id and no two share
  their place in the priority order, loading after a save gives exactly the addons that were saved, in
  priority order, each with the time of the save as its \<open>updatedAt\<close> and every other field
  untouched, and nothing else: whatever the backend held before (addons since removed, older copies
  of the same addons) is gone. The debrid settings read back as they were saved.
\<close>
theorem store_roundtrip:
  assumes "ids_distinct s" "distinct (map ia_providerId (sd_addons d))"
    "distinct (map (addon_rank collate) (sd_addons d))"
  shows "sd_addons (backend_load collate (backend_save collate now d s)) =
      sortAddons collate (map (\<lambda>a. a\<lparr>ia_updatedAt := now\<rparr>) (sd_addons d)) \<and>
    (case sd_settings d of
       Some st \<Rightarrow> sd_settings (backend_load collate (backend_save collate now d s)) = Some st
     | None \<Rightarrow> fs_debrid (backend_save collate now d s) = fs_debrid s)"
proof -
  let ?r = "fs_addons (backend_save collate now d s)" and ?t = "\<lambda>a. a\<lparr>ia_updatedAt := now\<rparr>"
  note saved = backend_save_set [of s d ?r collate now, OF assms(1,2) refl]
  have "\<forall>x \<in> set ?r. ad_providerId x = ia_providerId (of_record x)"
    using saved(3) by (simp add: faithful_def)
  then have d1: "distinct (map of_record ?r)" by (rule distinct_projected [OF saved(1)])
  have d2: "distinct (map ?t (sd_addons d))"
    by (rule distinct_projected [OF assms(2), of ia_providerId]) simp
  have "mset (map of_record ?r) = mset (map ?t (sd_addons d))"
    by (rule set_eq_iff_mset_eq_distinct [THEN iffD1, OF d1 d2]) (use saved(2) in simp)
  moreover have "inj_on (addon_rank collate) (set (map ?t (sd_addons d)))"
    using assms(3) by (auto simp: distinct_map inj_on_def addon_rank_def)
  ultimately have eq: "sort_key (addon_rank collate) (map of_record ?r) = sort_key (addon_rank collate) (map ?t (sd_addons d))"
    by (metis mset_eq_setD sort_key_mset)
  have "map of_record (listAddons collate (backend_save collate now d s)) = sort_key (addon_rank collate) (map of_record ?r)"
    unfolding listAddons_def
    by (rule map_sort_key) (use saved(3) in \<open>simp add: faithful_def addon_rank_def of_record_def\<close>)
  then have "sd_addons (backend_load collate (backend_save collate now d s)) = sortAddons collate (map ?t (sd_addons d))"
    using eq by (simp add: backend_load_def sortAddons_def)
  then show ?thesis
    by (simp add: backend_save_def backend_load_def saveDebridConfig_def drop_removed_def or_else_def split: option.split)
qed

text \<open>
  An instance whose memory predates an import by another instance deletes that import when it saves:
  the save removes what is not in its own list.
\<close>

lemma stale_save_erases_import:
  assumes "ids_distinct s" "distinct (map ia_providerId (sd_addons d))"
    and "pid \<notin> ia_providerId ` set (sd_addons d)"
  shows "getAddon pid (backend_save collate now d s) = None"
proof -
  note saved = backend_save_set [OF assms(1,2) refl, of collate now]
  have "ad_providerId x \<noteq> pid" if "x \<in> set (fs_addons (backend_save collate now d s))" for x
  proof -
    have "of_record x \<in> (\<lambda>a. a\<lparr>ia_updatedAt := now\<rparr>) ` set (sd_addons d)" using saved(2) that by blast
    then have "ia_providerId (of_record x) \<in> ia_providerId ` set (sd_addons d)" by auto
    then show ?thesis using saved(3) that assms(3) by (auto simp: faithful_def)
  qed
  then show ?thesis by (auto simp: getAddon_def find_None_iff)
qed

definition demo_pair :: store_data where
  "demo_pair = \<lparr>sd_addons = [demo_installed\<lparr>ia_providerId := ''addon:b'', ia_order := 1\<rparr>, demo_installed\<lparr>ia_order := 0\<rparr>],
     sd_settings = None, sd_revision = 3\<rparr>"

theorem store_roundtrip_witness:
  "map ia_providerId (sd_addons (backend_load (\<lambda>_. 0)
     (backend_save (\<lambda>_. 0) 9 demo_pair (empty_store :: string addon_backend)))) = [''addon:org-x'', ''addon:b'']"
proof -
  have "ia_providerId demo_installed = ''addon:org-x''" by (simp add: demo_installed_def new_addon_def)
  moreover have "ids_distinct (empty_store :: string addon_backend)" by (simp add: ids_distinct_def empty_store_def)
  ultimately show ?thesis
    using store_roundtrip [of "empty_store :: string addon_backend" demo_pair "\<lambda>_. 0" 9]
    by (simp add: demo_pair_def addon_rank_def sortAddons_def)
qed

end
