(* ===== verification/Regex.thy ===== *)
theory Regex
  imports Text
begin

text \<open>
  Regular expressions of the language, as the components use them: a backtracking matcher that
  lists the ways to match in the order of preference (alternatives left to right, greedy
  repetition), with captures, word boundaries and anchors. A repetition does not accept an empty
  iteration. Captures inside repetitions are not reset (no pattern of the program has one).
\<close>

datatype rx =
    Eps
  | Ch "char \<Rightarrow> bool"
  | Seq rx rx
  | Alt rx rx
  | Star rx
  | Opt rx
  | Group nat rx
  | WordB
  | Bol
  | Eol

text \<open>The text already passed, reversed; the text ahead; the captures, latest first.\<close>

type_synonym mstate = "string \<times> string \<times> (nat \<times> string) list"

definition word_char :: "char \<Rightarrow> bool" where
  "word_char c = (let n = (of_char c :: nat) in
     48 \<le> n \<and> n \<le> 57 \<or> 65 \<le> n \<and> n \<le> 90 \<or> n = 95 \<or> 97 \<le> n \<and> n \<le> 122)"

definition at_boundary :: "string \<Rightarrow> string \<Rightarrow> bool" where
  "at_boundary p s =
     ((case p of [] \<Rightarrow> False | c # _ \<Rightarrow> word_char c) \<noteq> (case s of [] \<Rightarrow> False | c # _ \<Rightarrow> word_char c))"

definition progress :: "mstate \<Rightarrow> mstate \<Rightarrow> bool" where
  "progress st st' = (length (fst (snd st')) < length (fst (snd st)))"

fun star_m :: "(mstate \<Rightarrow> mstate list) \<Rightarrow> nat \<Rightarrow> mstate \<Rightarrow> mstate list" where
  "star_m f 0 st = [st]"
| "star_m f (Suc n) st = concat (map (star_m f n) (filter (progress st) (f st))) @ [st]"

definition ch_m :: "(char \<Rightarrow> bool) \<Rightarrow> mstate \<Rightarrow> mstate list" where
  "ch_m P st = (case st of (p, c # s, k) \<Rightarrow> if P c then [(c # p, s, k)] else [] | _ \<Rightarrow> [])"

definition capture :: "nat \<Rightarrow> mstate \<Rightarrow> mstate \<Rightarrow> mstate" where
  "capture n st st' = (case st' of (p', s', k') \<Rightarrow> (p', s', (n, rev (take (length p' - length (fst st)) p')) # k'))"

primrec rx_m :: "rx \<Rightarrow> mstate \<Rightarrow> mstate list" where
  "rx_m Eps = (\<lambda>st. [st])"
| "rx_m (Ch P) = ch_m P"
| "rx_m (Seq a b) = (\<lambda>st. concat (map (rx_m b) (rx_m a st)))"
| "rx_m (Alt a b) = (\<lambda>st. rx_m a st @ rx_m b st)"
| "rx_m (Star a) = (\<lambda>st. star_m (rx_m a) (length (fst (snd st))) st)"
| "rx_m (Opt a) = (\<lambda>st. filter (progress st) (rx_m a st) @ [st])"
| "rx_m (Group n a) = (\<lambda>st. map (capture n st) (rx_m a st))"
| "rx_m WordB = (\<lambda>st. if at_boundary (fst st) (fst (snd st)) then [st] else [])"
| "rx_m Bol = (\<lambda>st. if fst st = [] then [st] else [])"
| "rx_m Eol = (\<lambda>st. if fst (snd st) = [] then [st] else [])"

text \<open>The leftmost position with a match: the text before it, and the match.\<close>

fun rx_search :: "rx \<Rightarrow> string \<Rightarrow> string \<Rightarrow> (string \<times> mstate) option" where
  "rx_search r p s =
     (case rx_m r (p, s, []) of
        m # _ \<Rightarrow> Some (p, m)
      | [] \<Rightarrow> (case s of [] \<Rightarrow> None | c # s' \<Rightarrow> rx_search r (c # p) s'))"

definition rx_test :: "rx \<Rightarrow> string \<Rightarrow> bool" where
  "rx_test r s = (rx_search r [] s \<noteq> None)"

text \<open>\<open>s.match(r)\<close>: the captures by number; group 0 is the whole match.\<close>

definition rx_match :: "rx \<Rightarrow> string \<Rightarrow> (nat \<times> string) list option" where
  "rx_match r s = map_option (\<lambda>(p, p', s', k). (0, rev (take (length p' - length p) p')) # k) (rx_search r [] s)"

definition cap :: "(nat \<times> string) list \<Rightarrow> nat \<Rightarrow> string" where
  "cap k n = or_else (map_of k n) []"

text \<open>\<open>s.replace(r, t)\<close>, the first match only.\<close>

definition rx_replace1 :: "rx \<Rightarrow> string \<Rightarrow> string \<Rightarrow> string" where
  "rx_replace1 r t s = (case rx_search r [] s of None \<Rightarrow> s | Some (p, p', s', k) \<Rightarrow> rev p @ t @ s')"

text \<open>
  \<open>s.replace(r, f)\<close> with the global flag: every match from left to right; an empty match moves one
  character on. \<open>f\<close> sees the captures.
\<close>

function rx_gsub :: "rx \<Rightarrow> ((nat \<times> string) list \<Rightarrow> string) \<Rightarrow> string \<Rightarrow> string \<Rightarrow> string" where
  "rx_gsub r f p s =
     (case rx_m r (p, s, []) of
        (p', s', k) # _ \<Rightarrow>
          (if length s' < length s
           then f ((0, take (length s - length s') s) # k) @ rx_gsub r f p' s'
           else f ((0, []) # k) @ (case s of [] \<Rightarrow> [] | c # t \<Rightarrow> c # rx_gsub r f (c # p) t))
      | [] \<Rightarrow> (case s of [] \<Rightarrow> [] | c # t \<Rightarrow> c # rx_gsub r f (c # p) t))"
  by pat_completeness auto
termination
  by (relation "measure (\<lambda>(r, f, p, s). length s)") auto

declare rx_search.simps [simp del] rx_gsub.simps [simp del]

definition rx_replace_all :: "rx \<Rightarrow> string \<Rightarrow> string \<Rightarrow> string" where
  "rx_replace_all r t s = rx_gsub r (\<lambda>_. t) [] s"

subsection \<open>Building patterns\<close>

definition same_char :: "char \<Rightarrow> rx" where
  "same_char c = Ch (\<lambda>x. x = c)"

text \<open>A text with case ignored, as under the flag \<open>i\<close>.\<close>

definition same_char_ci :: "char \<Rightarrow> rx" where
  "same_char_ci c = Ch (\<lambda>x. lower_char x = lower_char c)"

primrec seq_all :: "rx list \<Rightarrow> rx" where
  "seq_all [] = Eps"
| "seq_all (r # rs) = (if rs = [] then r else Seq r (seq_all rs))"

primrec alt_all :: "rx list \<Rightarrow> rx" where
  "alt_all [] = Ch (\<lambda>_. False)"
| "alt_all (r # rs) = (if rs = [] then r else Alt r (alt_all rs))"

definition lit :: "string \<Rightarrow> rx" where
  "lit s = seq_all (map same_char s)"

definition lit_ci :: "string \<Rightarrow> rx" where
  "lit_ci s = seq_all (map same_char_ci s)"

definition one_of :: "string \<Rightarrow> rx" where
  "one_of cs = Ch (\<lambda>x. x \<in> set cs)"

definition none_of :: "string \<Rightarrow> rx" where
  "none_of cs = Ch (\<lambda>x. x \<notin> set cs)"

definition rx_digit :: rx where
  "rx_digit = Ch is_digit"

definition rx_space :: rx where
  "rx_space = Ch is_space"

definition rx_plus :: "rx \<Rightarrow> rx" where
  "rx_plus r = Seq r (Star r)"

primrec rx_times :: "nat \<Rightarrow> rx \<Rightarrow> rx" where
  "rx_times 0 r = Eps"
| "rx_times (Suc n) r = Seq r (rx_times n r)"

primrec rx_upto :: "nat \<Rightarrow> rx \<Rightarrow> rx" where
  "rx_upto 0 r = Eps"
| "rx_upto (Suc n) r = Opt (Seq r (rx_upto n r))"

text \<open>\<open>r{m,n}\<close>.\<close>

definition rx_between :: "nat \<Rightarrow> nat \<Rightarrow> rx \<Rightarrow> rx" where
  "rx_between m n r = Seq (rx_times m r) (rx_upto (n - m) r)"

definition whole :: "rx \<Rightarrow> rx" where
  "whole r = Seq Bol (Seq r Eol)"

definition any_of_ci :: "string list \<Rightarrow> rx" where
  "any_of_ci ws = alt_all (map lit_ci ws)"

definition is_alnum :: "char \<Rightarrow> bool" where
  "is_alnum c \<longleftrightarrow> word_char c \<and> c \<noteq> CHR ''_''"

text \<open>\<open>r{n,}\<close>.\<close>

definition rx_atleast :: "nat \<Rightarrow> rx \<Rightarrow> rx" where
  "rx_atleast n r = Seq (rx_times n r) (Star r)"

text \<open>\<open>\b(a|b|...)\b\<close>.\<close>

definition words :: "rx list \<Rightarrow> rx" where
  "words rs = Seq WordB (Seq (alt_all rs) WordB)"

definition http_prefix :: rx where
  "http_prefix = Seq Bol (Seq (lit_ci ''http'') (Seq (Opt (lit_ci ''s'')) (lit ''://'')))"

subsection \<open>What a match consumes\<close>

inductive_set star_lang :: "string set \<Rightarrow> string set" for L where
  star_Nil: "[] \<in> star_lang L"
| star_step: "u \<in> L \<Longrightarrow> v \<in> star_lang L \<Longrightarrow> u @ v \<in> star_lang L"

text \<open>The language of a pattern, boundaries and anchors aside.\<close>

primrec rx_lang :: "rx \<Rightarrow> string set" where
  "rx_lang Eps = {[]}"
| "rx_lang (Ch P) = {[c] | c. P c}"
| "rx_lang (Seq a b) = {u @ v | u v. u \<in> rx_lang a \<and> v \<in> rx_lang b}"
| "rx_lang (Alt a b) = rx_lang a \<union> rx_lang b"
| "rx_lang (Star a) = star_lang (rx_lang a)"
| "rx_lang (Opt a) = insert [] (rx_lang a)"
| "rx_lang (Group n a) = rx_lang a"
| "rx_lang WordB = {[]}"
| "rx_lang Bol = {[]}"
| "rx_lang Eol = {[]}"

primrec rx_groups :: "rx \<Rightarrow> (nat \<times> rx) list" where
  "rx_groups Eps = []"
| "rx_groups (Ch P) = []"
| "rx_groups (Seq a b) = rx_groups a @ rx_groups b"
| "rx_groups (Alt a b) = rx_groups a @ rx_groups b"
| "rx_groups (Star a) = rx_groups a"
| "rx_groups (Opt a) = rx_groups a"
| "rx_groups (Group n a) = (n, a) # rx_groups a"
| "rx_groups WordB = []"
| "rx_groups Bol = []"
| "rx_groups Eol = []"

text \<open>One step of a matcher: it consumes a word of \<open>L\<close> and captures only what \<open>C\<close> allows.\<close>

definition consumes :: "string set \<Rightarrow> (nat \<times> string) set \<Rightarrow> mstate \<Rightarrow> mstate \<Rightarrow> bool" where
  "consumes L C st st' \<longleftrightarrow>
     (\<exists>u \<in> L. fst (snd st) = u @ fst (snd st') \<and> fst st' = rev u @ fst st) \<and>
     (\<exists>new. snd (snd st') = new @ snd (snd st) \<and> set new \<subseteq> C)"

lemma consumes_refl: "[] \<in> L \<Longrightarrow> consumes L C st st"
  by (auto simp: consumes_def)

lemma consumes_trans:
  assumes "consumes L C st st1" "consumes M D st1 st2" "\<And>u v. u \<in> L \<Longrightarrow> v \<in> M \<Longrightarrow> u @ v \<in> N" "C \<subseteq> E" "D \<subseteq> E"
  shows "consumes N E st st2"
proof -
  obtain u v k l where "u \<in> L" "fst (snd st) = u @ fst (snd st1)" "fst st1 = rev u @ fst st"
    "v \<in> M" "fst (snd st1) = v @ fst (snd st2)" "fst st2 = rev v @ fst st1"
    and k: "snd (snd st1) = k @ snd (snd st)" "set k \<subseteq> C" "snd (snd st2) = l @ snd (snd st1)" "set l \<subseteq> D"
    using assms(1,2) unfolding consumes_def by blast
  then have "u @ v \<in> N \<and> fst (snd st) = (u @ v) @ fst (snd st2) \<and> fst st2 = rev (u @ v) @ fst st"
    using assms(3) by simp
  moreover have "snd (snd st2) = (l @ k) @ snd (snd st) \<and> set (l @ k) \<subseteq> E" using k assms(4,5) by auto
  ultimately show ?thesis unfolding consumes_def by blast
qed

lemma consumes_mono: "consumes L C st st' \<Longrightarrow> L \<subseteq> M \<Longrightarrow> C \<subseteq> D \<Longrightarrow> consumes M D st st'"
  unfolding consumes_def by blast

lemma star_m_consumes:
  assumes "\<And>st st'. st' \<in> set (f st) \<Longrightarrow> consumes L C st st'"
  shows "st' \<in> set (star_m f n st) \<Longrightarrow> consumes (star_lang L) C st st'"
proof (induction n arbitrary: st)
  case (Suc n)
  then consider "st' = st" | st1 where "st1 \<in> set (f st)" "st' \<in> set (star_m f n st1)" by auto
  then show ?case
  proof cases
    case 2
    show ?thesis
      by (rule consumes_trans [OF assms [OF 2(1)] Suc.IH [OF 2(2)]]) (auto intro: star_step)
  qed (simp add: consumes_refl star_Nil)
qed (simp add: consumes_refl star_Nil)

definition group_texts :: "rx \<Rightarrow> (nat \<times> string) set" where
  "group_texts r = {(n, u). \<exists>a. (n, a) \<in> set (rx_groups r) \<and> u \<in> rx_lang a}"

theorem rx_m_sound: "st' \<in> set (rx_m r st) \<Longrightarrow> consumes (rx_lang r) (group_texts r) st st'"
proof (induction r arbitrary: st st')
  case (Ch P)
  then show ?case by (auto simp: ch_m_def consumes_def split: prod.splits list.splits if_splits)
next
  case (Seq a b)
  then obtain st1 where m: "st1 \<in> set (rx_m a st)" "st' \<in> set (rx_m b st1)" by auto
  show ?case
    by (rule consumes_trans [OF Seq.IH(1) [OF m(1)] Seq.IH(2) [OF m(2)]]) (auto simp: group_texts_def)
next
  case (Alt a b)
  have sub: "group_texts a \<subseteq> group_texts (Alt a b)" "group_texts b \<subseteq> group_texts (Alt a b)"
    by (auto simp: group_texts_def)
  from Alt.prems have "st' \<in> set (rx_m a st) \<or> st' \<in> set (rx_m b st)" by simp
  then show ?case
  proof
    assume "st' \<in> set (rx_m a st)"
    from consumes_mono [OF Alt.IH(1) [OF this] _ sub(1)] show ?thesis by simp
  next
    assume "st' \<in> set (rx_m b st)"
    from consumes_mono [OF Alt.IH(2) [OF this] _ sub(2)] show ?thesis by simp
  qed
next
  case (Star a)
  have "consumes (star_lang (rx_lang a)) (group_texts a) st st'"
    by (rule star_m_consumes [OF Star.IH]) (use Star.prems in simp_all)
  then show ?case by (simp add: group_texts_def)
next
  case (Opt a)
  have eq: "group_texts (Opt a) = group_texts a" by (simp add: group_texts_def)
  from Opt.prems have "st' \<in> set (rx_m a st) \<or> st' = st" by auto
  then show ?case
  proof
    assume "st' \<in> set (rx_m a st)"
    from consumes_mono [OF Opt.IH [OF this] _ order_refl] show ?thesis by (auto simp: eq)
  qed (simp add: consumes_refl)
next
  case (Group n a)
  then obtain st1 where st1: "st1 \<in> set (rx_m a st)" "st' = capture n st st1" by auto
  obtain u new where u: "u \<in> rx_lang a" "fst (snd st) = u @ fst (snd st1)" "fst st1 = rev u @ fst st"
    "snd (snd st1) = new @ snd (snd st)" "set new \<subseteq> group_texts a"
    using Group.IH [OF st1(1)] unfolding consumes_def by blast
  have "st' = (fst st1, fst (snd st1), (n, u) # snd (snd st1))"
    using u(3) by (cases st1) (simp add: st1(2) capture_def)
  moreover have "snd (snd st') = ((n, u) # new) @ snd (snd st) \<and> set ((n, u) # new) \<subseteq> group_texts (Group n a)"
    using u by (auto simp: calculation group_texts_def)
  ultimately show ?case using u(1,2,3) unfolding consumes_def by auto
qed (auto simp: consumes_refl split: if_splits)

subsection \<open>Every word of the language is matched\<close>

primrec plain :: "rx \<Rightarrow> bool" where
  "plain Eps = True"
| "plain (Ch P) = True"
| "plain (Seq a b) = (plain a \<and> plain b)"
| "plain (Alt a b) = (plain a \<and> plain b)"
| "plain (Star a) = plain a"
| "plain (Opt a) = plain a"
| "plain (Group n a) = plain a"
| "plain WordB = False"
| "plain Bol = False"
| "plain Eol = False"

definition reaches :: "(mstate \<Rightarrow> mstate list) \<Rightarrow> string \<Rightarrow> bool" where
  "reaches f u \<longleftrightarrow> (\<forall>p s k. \<exists>k'. (rev u @ p, s, k') \<in> set (f (p, u @ s, k)))"

lemma reachesD: "reaches f u \<Longrightarrow> \<exists>k'. (rev u @ p, s, k') \<in> set (f (p, u @ s, k))"
  by (simp add: reaches_def)

lemma star_m_reaches:
  assumes "v \<in> star_lang L" "\<And>u. u \<in> L \<Longrightarrow> reaches f u"
  shows "length v \<le> n \<Longrightarrow> \<exists>k'. (rev v @ p, s, k') \<in> set (star_m f n (p, v @ s, k))"
  using assms(1)
proof (induction arbitrary: n p k)
  case star_Nil
  then show ?case by (cases n) auto
next
  case (star_step u v)
  show ?case
  proof (cases "u = []")
    case True
    then show ?thesis using star_step by simp
  next
    case False
    then obtain m where n: "n = Suc m" "length v \<le> m"
      using star_step.prems by (cases n; cases u) auto
    obtain k1 where k1: "(rev u @ p, v @ s, k1) \<in> set (f (p, u @ v @ s, k))"
      using reachesD [OF assms(2) [OF star_step.hyps(1)]] by blast
    obtain k' where "(rev v @ rev u @ p, s, k') \<in> set (star_m f m (rev u @ p, v @ s, k1))"
      using star_step.IH [OF n(2)] by blast
    moreover have "progress (p, u @ v @ s, k) (rev u @ p, v @ s, k1)" using False by (simp add: progress_def)
    ultimately show ?thesis using k1 by (fastforce simp: n(1))
  qed
qed

theorem rx_m_complete: "plain r \<Longrightarrow> u \<in> rx_lang r \<Longrightarrow> reaches (rx_m r) u"
proof (induction r arbitrary: u)
  case (Ch P)
  then show ?case by (auto simp: reaches_def ch_m_def)
next
  case (Seq a b)
  then obtain v w where u: "u = v @ w" "v \<in> rx_lang a" "w \<in> rx_lang b" by auto
  have "reaches (rx_m a) v" "reaches (rx_m b) w" using Seq u by simp_all
  then have "\<exists>k'. (rev w @ rev v @ p, s, k') \<in> set (rx_m (Seq a b) (p, v @ w @ s, k))" for p s k
    using reachesD [of "rx_m a" v p "w @ s" k] reachesD [of "rx_m b" w "rev v @ p" s] by fastforce
  then show ?case by (simp add: reaches_def u(1))
next
  case (Alt a b)
  then show ?case by (fastforce simp: reaches_def)
next
  case (Star a)
  have "\<exists>k'. (rev u @ p, s, k') \<in> set (star_m (rx_m a) (length (u @ s)) (p, u @ s, k))" for p s k
    by (rule star_m_reaches [where L = "rx_lang a"]) (use Star in simp_all)
  then show ?case by (simp add: reaches_def)
next
  case (Opt a)
  then show ?case
  proof (cases "u = []")
    case False
    then have "reaches (rx_m a) u" using Opt by simp
    then show ?thesis using False by (fastforce simp: reaches_def progress_def)
  qed (auto simp: reaches_def)
next
  case (Group n a)
  then have a: "reaches (rx_m a) u" by simp
  have "\<exists>k'. (rev u @ p, s, k') \<in> set (rx_m (Group n a) (p, u @ s, k))" for p s k
  proof -
    obtain k' where "(rev u @ p, s, k') \<in> set (rx_m a (p, u @ s, k))" using reachesD [OF a] by blast
    then have "capture n (p, u @ s, k) (rev u @ p, s, k') \<in> set (rx_m (Group n a) (p, u @ s, k))" by simp
    moreover have "capture n (p, u @ s, k) (rev u @ p, s, k') = (rev u @ p, s, (n, u) # k')" by (simp add: capture_def)
    ultimately show ?thesis by metis
  qed
  then show ?case by (simp add: reaches_def)
qed (auto simp: reaches_def)

lemma search_Some:
  "rx_search r p s = Some (q, m) \<Longrightarrow> \<exists>a b. s = a @ b \<and> q = rev a @ p \<and> m \<in> set (rx_m r (q, b, []))"
proof (induction s arbitrary: p)
  case Nil
  then show ?case by (auto simp: rx_search.simps [of r p "[]"] split: list.splits)
next
  case (Cons c s)
  show ?case
  proof (cases "rx_m r (p, c # s, [])")
    case Nil
    then obtain a b where "s = a @ b" "q = rev a @ c # p" "m \<in> set (rx_m r (q, b, []))"
      using Cons.IH [of "c # p"] Cons.prems by (auto simp: rx_search.simps [of r p "c # s"])
    then show ?thesis by (intro exI [of _ "c # a"] exI [of _ b]) simp
  next
    case (Cons m0 ms)
    then have "q = p" "m = m0" using Cons.prems by (simp_all add: rx_search.simps [of r p "c # s"])
    then show ?thesis using \<open>rx_m r (p, c # s, []) = m0 # ms\<close> by (intro exI [of _ "[]"] exI [of _ "c # s"]) simp
  qed
qed

lemma search_None: "rx_search r p (a @ b) = None \<Longrightarrow> rx_m r (rev a @ p, b, []) = []"
proof (induction a arbitrary: p)
  case Nil
  then show ?case by (simp add: rx_search.simps [of r p b] split: list.splits)
next
  case (Cons c a)
  then show ?case by (simp add: rx_search.simps [of r p "c # a @ b"] split: list.splits)
qed

text \<open>A match in the text, and the language it comes from.\<close>

lemma rx_test_lang: "rx_test r s \<Longrightarrow> \<exists>a u b. s = a @ u @ b \<and> u \<in> rx_lang r"
proof -
  assume "rx_test r s"
  then obtain q m where "rx_search r [] s = Some (q, m)" by (auto simp: rx_test_def)
  from search_Some [OF this] obtain a b where "s = a @ b" "m \<in> set (rx_m r (q, b, []))" by blast
  then show ?thesis using rx_m_sound [of m r "(q, b, [])"] unfolding consumes_def by fastforce
qed

theorem rx_test_iff: "plain r \<Longrightarrow> rx_test r s \<longleftrightarrow> (\<exists>a u b. s = a @ u @ b \<and> u \<in> rx_lang r)"
proof
  assume r: "plain r" and "\<exists>a u b. s = a @ u @ b \<and> u \<in> rx_lang r"
  then obtain a u b where s: "s = a @ u @ b" "u \<in> rx_lang r" by blast
  show "rx_test r s"
  proof (rule ccontr)
    assume "\<not> rx_test r s"
    then have "rx_m r (rev a @ [], u @ b, []) = []" by (intro search_None) (simp add: rx_test_def s(1) del: not_None_eq)
    then show False using reachesD [OF rx_m_complete [OF r s(2)], of "rev a @ []" b "[]"] by simp
  qed
qed (rule rx_test_lang)

lemma rx_match_caps:
  assumes "rx_match r s = Some k" "(n, u) \<in> set k" "n \<noteq> 0"
  shows "(n, u) \<in> group_texts r"
proof -
  obtain p p' s' k' where m: "rx_search r [] s = Some (p, p', s', k')" "k = (0, rev (take (length p' - length p) p')) # k'"
    using assms(1) by (auto simp: rx_match_def)
  from search_Some [OF m(1)] obtain b where "(p', s', k') \<in> set (rx_m r (p, b, []))" by blast
  from rx_m_sound [OF this] show ?thesis using assms(2,3) m(2) by (auto simp: consumes_def)
qed

text \<open>A group that nothing later captures again holds the text it matched.\<close>

lemma group_captured:
  assumes "m \<in> set (rx_m (Seq (Group n a) b) st)" "n \<notin> fst ` set (rx_groups b)"
  shows "\<exists>u \<in> rx_lang a. map_of (snd (snd m)) n = Some u"
proof -
  obtain st0 where st0: "st0 \<in> set (rx_m a st)" "m \<in> set (rx_m b (capture n st st0))" using assms(1) by auto
  obtain u where u: "u \<in> rx_lang a" "fst st0 = rev u @ fst st"
    using rx_m_sound [OF st0(1)] by (auto simp: consumes_def)
  obtain new where new: "snd (snd m) = new @ (n, u) # snd (snd st0)" "set new \<subseteq> group_texts b"
    using rx_m_sound [OF st0(2)] u(2) by (cases st0) (auto simp: consumes_def capture_def)
  have "n \<notin> fst ` set new" using new(2) assms(2) by (force simp: group_texts_def)
  then have "map_of new n = None" by (simp add: map_of_eq_None_iff)
  then show ?thesis using u(1) by (simp add: new(1) map_add_def)
qed

lemma rx_match_group:
  assumes "rx_match r s = Some k" "r = Seq (Group n a) b \<or> r = Seq c (Seq (Group n a) b)"
    "n \<noteq> 0" "n \<notin> fst ` set (rx_groups b)"
  shows "cap k n \<in> rx_lang a"
proof -
  obtain p m where m: "rx_search r [] s = Some (p, m)" "k = (0, rev (take (length (fst m) - length p) (fst m))) # snd (snd m)"
    using assms(1) by (auto simp: rx_match_def)
  from search_Some [OF m(1)] obtain t where "m \<in> set (rx_m r (p, t, []))" by blast
  then obtain st where "m \<in> set (rx_m (Seq (Group n a) b) st)" using assms(2) by fastforce
  from group_captured [OF this assms(4)] show ?thesis
    using assms(3) by (auto simp: cap_def or_else_def m(2))
qed

end
