(* ===== verification/Sources.thy ===== *)
theory Sources
  imports Grants Regex StremioUrl Json "HOL-Library.Char_ord" "HOL-Library.List_Lexorder"
begin

text \<open>
  Sources made of an addon's streams: \<open>src/sources/normalization.ts\<close>, the mapping of
  \<open>src/stremio/mapper.ts\<close> and the ranking of \<open>src/sources/ranking.ts\<close>. What a stream is, is read off its
  free text with the regular expressions of the code. Sizes and scores are exact numbers.
\<close>

subsection \<open>Streams\<close>

record stremio_subtitle =
  ss_id :: "string option"
  ss_url :: string
  ss_lang :: string
  ss_format :: "string option"

record stremio_stream =
  st_url :: "string option"
  st_infoHash :: "string option"
  st_fileIdx :: "int option"
  st_name :: "string option"
  st_title :: "string option"
  st_description :: "string option"
  st_sources :: "string list option"
  st_subtitles :: "stremio_subtitle list option"
  st_requestHeaders :: "(string, string) jsmap option"
  st_cacheMaxAge :: "rat option"

text \<open>\<open>[name, title, description].filter(Boolean).join(' ').toLowerCase()\<close>.\<close>

definition longText :: "stremio_stream \<Rightarrow> string" where
  "longText s = to_lower (join_with '' ''
     (filter (\<lambda>t. t \<noteq> []) (map (\<lambda>t. or_else t []) [st_name s, st_title s, st_description s])))"

definition inferTypeFromUrl :: "string \<Rightarrow> string option" where
  "inferTypeFromUrl url =
     (let l = to_lower url in
      if str_includes l ''.m3u8'' then Some ''hls''
      else if str_includes l ''.mpd'' then Some ''dash''
      else if str_includes l ''.mp4'' then Some ''mp4''
      else if str_includes l ''.mkv'' then Some ''mkv''
      else if str_includes l ''.webm'' then Some ''webm'' else None)"

definition size_rx :: rx where
  "size_rx = Seq WordB (Seq (rx_plus rx_digit) (Seq (Opt (Seq (lit ''.'') (rx_plus rx_digit)))
     (Seq (Opt rx_space) (Seq (Alt (lit ''gb'') (lit ''mb'')) WordB))))"

definition resolution_rx :: rx where
  "resolution_rx = Seq (Group 1 (rx_between 3 4 rx_digit)) (Seq (Opt rx_space) (Seq (lit ''p'') WordB))"

definition k_rx :: rx where
  "k_rx = Seq WordB (Seq (Group 1 rx_digit) (Seq (Opt rx_space) (Seq (lit ''k'') WordB)))"

definition has_word :: "string list \<Rightarrow> string \<Rightarrow> bool" where
  "has_word ws text = rx_test (words (map lit ws)) text"

definition inferQualityEnhanced :: "stremio_stream \<Rightarrow> string" where
  "inferQualityEnhanced s =
     (let text = longText s in
      case rx_match resolution_rx text of
        Some k \<Rightarrow> cap k 1 @ ''p''
      | None \<Rightarrow>
          if has_word [''4k'', ''uhd'', ''2160''] text then ''2160p''
          else if has_word [''1080'', ''fhd''] text then ''1080p''
          else if has_word [''720'', ''hd''] text then ''720p''
          else if has_word [''480''] text then ''480p''
          else case rx_match k_rx text of
            Some k \<Rightarrow> cap k 1 @ ''K''
          | None \<Rightarrow> if rx_test size_rx text then ''1080p'' else ''Auto'')"

definition inferHdr :: "stremio_stream \<Rightarrow> bool" where
  "inferHdr s = rx_test (words [lit ''hdr'', lit ''hdr10'',
     Seq (lit ''dolby'') (Seq (Opt (Ch (\<lambda>c. is_space c \<or> c = CHR ''-''))) (lit ''vision'')), lit ''dv'', lit ''hlg'']) (longText s)"

definition inferCodec :: "stremio_stream \<Rightarrow> string option" where
  "inferCodec s =
     (let text = longText s in
      if has_word [''hevc''] text \<or> has_word [''h.265''] text \<or> has_word [''x265''] text then Some ''hevc''
      else if has_word [''avc''] text \<or> has_word [''h.264''] text \<or> has_word [''x264''] text then Some ''h264''
      else if has_word [''av1''] text then Some ''av1''
      else if has_word [''vp9''] text then Some ''vp9'' else None)"

text \<open>\<open>Math.round\<close>, and \<open>Number\<close> on decimal text; a number that large is \<open>Infinity\<close>.\<close>

definition math_round :: "rat \<Rightarrow> int" where
  "math_round x = \<lfloor>x + 1 / 2\<rfloor>"

definition decimal_value :: "string \<Rightarrow> rat" where
  "decimal_value t =
     (case split_on CHR ''.'' t of
        [w, f] \<Rightarrow> of_nat (parse_dec w) + of_nat (parse_dec f) / 10 ^ length f
      | _ \<Rightarrow> of_nat (parse_dec t))"

definition max_finite :: rat where
  "max_finite = 2 ^ 1024 - 2 ^ 970"

definition size_value_rx :: rx where
  "size_value_rx = Seq (Group 1 (Seq (rx_plus rx_digit) (Opt (Seq (lit ''.'') (rx_plus rx_digit)))))
     (Seq (Opt rx_space) (Seq (Group 2 (Alt (lit ''gb'') (lit ''mb''))) WordB))"

definition inferSizeBytes :: "stremio_stream \<Rightarrow> int option" where
  "inferSizeBytes s =
     (case rx_match size_value_rx (longText s) of
        None \<Rightarrow> None
      | Some k \<Rightarrow>
          (let val = decimal_value (cap k 1) in
           if max_finite \<le> val then None
           else Some (math_round (val * (if to_lower (cap k 2) = ''gb'' then 1024 * 1024 * 1024 else 1024 * 1024)))))"

definition inferLanguage :: "stremio_stream \<Rightarrow> string option" where
  "inferLanguage s =
     (let text = longText s in
      if has_word [''eng'', ''english''] text then Some ''en''
      else if has_word [''spa'', ''spanish'', ''esp''] text then Some ''es''
      else if has_word [''fre'', ''french'', ''fr''] text then Some ''fr''
      else if has_word [''ger'', ''german'', ''de''] text then Some ''de''
      else if rx_test (Seq WordB (Seq (Alt (lit ''multi'') (lit ''dual''))
             (Seq (Opt (Ch (\<lambda>c. is_space c \<or> c = CHR ''-''))) (Seq (lit ''audio'') WordB)))) text
      then Some ''multi'' else None)"

subsection \<open>Identity of an upstream URL\<close>

text \<open>\<open>toString\<close> of a parsed http(s) URL.\<close>

definition url_text :: "full_url \<Rightarrow> string" where
  "url_text u = pu_protocol u @ ''//'' @
     (if pu_username u = [] \<and> pu_password u = [] then []
      else pu_username u @ (if pu_password u = [] then [] else '':'' @ pu_password u) @ ''@'') @
     url_host u @ fu_pathname u @ fu_search u @ fu_hash u"

definition signed_rx :: rx where
  "signed_rx = alt_all [lit_ci ''token'', Seq (lit_ci ''sig'') (Opt (lit_ci ''nature'')), lit_ci ''expires'',
     lit_ci ''auth'', lit_ci ''key'', lit_ci ''signature'']"

definition normalizeUpstreamUrl :: "url_lib \<Rightarrow> string \<Rightarrow> string" where
  "normalizeUpstreamUrl L url =
     (case ul_parse L url of
        None \<Rightarrow> url
      | Some u \<Rightarrow>
          (let v = u\<lparr>pu_hostname := to_lower (pu_hostname u), pu_port := (if default_port u then [] else pu_port u),
                     fu_hash := []\<rparr>
           in if rx_test signed_rx (fu_search u) then url_text v
              else (let query = ul_query L (sort_key (\<lambda>e. ul_collate L (fst e)) (fu_params u)) in
                    url_text (v\<lparr>fu_search := (if query = [] then [] else ''?'' @ query)\<rparr>))))"

text \<open>What the code needs of its surroundings: URL parser, SHA-256 in hexadecimal, \<open>JSON.stringify\<close> on a leaf.\<close>

record source_env =
  se_url :: url_lib
  se_hash :: "string \<Rightarrow> string"
  se_leaf :: "json \<Rightarrow> string"
  se_href :: "parsed_url \<Rightarrow> string"
  se_isProd :: bool
  se_lookup :: "string \<Rightarrow> string list option"

definition json_array :: "string list \<Rightarrow> string" where
  "json_array ts = ''['' @ join_with '','' ts @ '']''"

definition header_keys :: "(string, string) jsmap \<Rightarrow> string list" where
  "header_keys h = sort (jm_keys h)"

definition stableId :: "source_env \<Rightarrow> string \<Rightarrow> (string, string) jsmap option \<Rightarrow> string \<Rightarrow> string" where
  "stableId E upstream headers providerId =
     take 16 (se_hash E (providerId @ [CHR 0x00] @ normalizeUpstreamUrl (se_url E) upstream @
       (case headers of None \<Rightarrow> []
        | Some h \<Rightarrow> concat (map (\<lambda>k. [CHR 0x00] @ to_lower k @ '':'' @ or_else (jm_get h k) []) (header_keys h)))))"

definition dedup_key :: "source_env \<Rightarrow> string \<Rightarrow> (string, string) jsmap option \<Rightarrow> string" where
  "dedup_key E upstream headers =
     normalizeUpstreamUrl (se_url E) upstream @ ''|'' @
       (case headers of None \<Rightarrow> []
        | Some h \<Rightarrow> json_array (map (\<lambda>k. json_array [se_leaf E (JStr (to_lower k)), se_leaf E (JStr (or_else (jm_get h k) []))])
            (header_keys h)))"

datatype confidence = High | Medium | Low

definition confidenceFor :: "stremio_stream \<Rightarrow> string option \<Rightarrow> confidence" where
  "confidenceFor s type =
     (if or_else type [] \<noteq> [] \<and> or_else (st_url s) [] \<noteq> [] \<and> inferQualityEnhanced s \<noteq> ''Auto'' then High
      else if or_else type [] \<noteq> [] then Medium else Low)"

subsection \<open>Normalization\<close>

record source_extra =
  sx_hdr :: bool
  sx_codec :: "string option"
  sx_language :: "string option"
  sx_sizeBytes :: "int option"

record provenance =
  pn_providerId :: string
  pn_rawIndex :: nat
  pn_upstreamUrl :: string
  pn_headers :: "(string, string) jsmap option"

record source =
  so_url :: string
  so_type :: string
  so_quality :: string
  so_language :: string
  so_label :: string
  so_providerId :: string
  so_providerName :: string
  so_id :: "string option"
  so_confidence :: "confidence option"
  so_extra :: "source_extra option"
  so_provenance :: "provenance option"
  so_expiresAt :: "time_ms option"

record normalize_options =
  no_providerId :: string
  no_providerName :: string
  no_grants :: "grant_options option"
  no_publicBase :: string
  no_probe :: bool
  no_responseCacheMaxAge :: "rat option"

text \<open>\<open>toISOString\<close> throws beyond this instant.\<close>

definition max_date :: int where
  "max_date = 8640000000000000"

definition grant_input :: "string \<Rightarrow> (string, string) jsmap option \<Rightarrow> string \<Rightarrow> issue_input" where
  "grant_input url headers pid =
     \<lparr>ii_url = url, ii_headers = headers, ii_providerId = Some pid, ii_mediaKey = None, ii_ttlSec = None,
      ii_maxRedirects = None, ii_singleUse = None, ii_addonRevision = None\<rparr>"

definition stream_label :: "stremio_stream \<Rightarrow> string \<Rightarrow> string" where
  "stream_label s fallback =
     (let l = take 60 (hd (split_on (CHR 0x0A) (or_else (st_name s) []))) in if l = [] then fallback else l)"

definition make_source ::
  "source_env \<Rightarrow> normalize_options \<Rightarrow> nat \<Rightarrow> stremio_stream \<Rightarrow> string \<Rightarrow> string \<Rightarrow> source" where
  "make_source E op idx s upstream proxied =
     (let byUrl = inferTypeFromUrl upstream;
          type = or_else byUrl (or_else (inferTypeFromUrl (longText s)) ''hls'');
          language = inferLanguage s
      in \<lparr>so_url = proxied, so_type = or_else byUrl type, so_quality = inferQualityEnhanced s,
          so_language = or_else language ''und'', so_label = stream_label s (no_providerName op),
          so_providerId = no_providerId op, so_providerName = no_providerName op,
          so_id = Some (stableId E upstream (st_requestHeaders s) (no_providerId op)),
          so_confidence = Some (confidenceFor s (Some (or_else byUrl type))),
          so_extra = Some \<lparr>sx_hdr = inferHdr s, sx_codec = inferCodec s, sx_language = language,
                           sx_sizeBytes = inferSizeBytes s\<rparr>,
          so_provenance = Some \<lparr>pn_providerId = no_providerId op, pn_rawIndex = idx, pn_upstreamUrl = upstream,
                                pn_headers = st_requestHeaders s\<rparr>,
          so_expiresAt = None\<rparr>)"

text \<open>
  The state of a run: the keys seen, the probes made, the grants and the sources so far. A probe's
  outcome is an argument by URL; \<open>gid\<close> gives the random id of the grant for each index. \<open>None\<close>: the expiry
  is no date and \<open>normalize\<close> throws.
\<close>

record norm_state =
  ns_seen :: "string list"
  ns_probes :: "(string, bool) jsmap"
  ns_grants :: grant_map
  ns_out :: "source list"

definition probe_source ::
  "source_env \<Rightarrow> (string \<Rightarrow> bool) \<Rightarrow> normalize_options \<Rightarrow> string \<Rightarrow> norm_state \<Rightarrow> bool \<times> norm_state" where
  "probe_source E probe op upstream n =
     (if \<not> no_probe op then (True, n)
      else (let ck = normalizeUpstreamUrl (se_url E) upstream in
            case jm_get (ns_probes n) ck of
              Some ok \<Rightarrow> (ok, n)
            | None \<Rightarrow> (probe upstream, n\<lparr>ns_probes := jm_set ck (probe upstream) (ns_probes n)\<rparr>)))"

definition expiry :: "time_ms \<Rightarrow> normalize_options \<Rightarrow> stremio_stream \<Rightarrow> time_ms option" where
  "expiry now op s =
     (case (case st_cacheMaxAge s of Some a \<Rightarrow> Some a | None \<Rightarrow> no_responseCacheMaxAge op) of
        None \<Rightarrow> None
      | Some age \<Rightarrow> if 0 < age then Some (now + \<lfloor>age * 1000\<rfloor>) else None)"

definition is_http :: "string \<Rightarrow> bool" where
  "is_http url = rx_test http_prefix url"

definition normalize_stream ::
  "source_env \<Rightarrow> time_ms \<Rightarrow> (string \<Rightarrow> bool) \<Rightarrow> (nat \<Rightarrow> string) \<Rightarrow> normalize_options \<Rightarrow> nat \<Rightarrow> stremio_stream \<Rightarrow>
     norm_state \<Rightarrow> bool \<times> norm_state" where
  "normalize_stream E now probe gid op idx s n =
     (let upstream = or_else (st_url s) [] in
      if upstream = [] \<or> \<not> is_http upstream then (True, n)
      else if dedup_key E upstream (st_requestHeaders s) \<in> set (ns_seen n) then (True, n)
      else
        (let n1 = n\<lparr>ns_seen := dedup_key E upstream (st_requestHeaders s) # ns_seen n\<rparr>;
             (ok, n2) = probe_source E probe op upstream n1
         in if \<not> ok then (True, n2)
            else case no_grants op of
              None \<Rightarrow> (True, n2)
            | Some gop \<Rightarrow>
                if no_publicBase op = [] then (True, n2)
                else case issue_grant (map_option parsed_url.truncate \<circ> ul_parse (se_url E)) (se_href E) (se_isProd E) gop (se_lookup E)
                            now (gid idx) (grant_input upstream (st_requestHeaders s) (no_providerId op)) (ns_grants n2) of
                  (Inl e, m) \<Rightarrow> (True, n2\<lparr>ns_grants := m\<rparr>)
                | (Inr g, m) \<Rightarrow>
                    (let src = make_source E op idx s upstream (toProxyUrl g (no_publicBase op));
                         n3 = n2\<lparr>ns_grants := m\<rparr>
                     in case expiry now op s of
                          None \<Rightarrow> (True, n3\<lparr>ns_out := ns_out n3 @ [src]\<rparr>)
                        | Some t \<Rightarrow>
                            if max_date < t then (False, n3)
                            else (True, n3\<lparr>ns_out := ns_out n3 @ [src\<lparr>so_expiresAt := Some t\<rparr>]\<rparr>))))"

fun normalize_loop ::
  "source_env \<Rightarrow> time_ms \<Rightarrow> (string \<Rightarrow> bool) \<Rightarrow> (nat \<Rightarrow> string) \<Rightarrow> normalize_options \<Rightarrow> nat \<Rightarrow> stremio_stream list \<Rightarrow>
     norm_state \<Rightarrow> bool \<times> norm_state" where
  "normalize_loop E now probe gid op idx [] n = (True, n)"
| "normalize_loop E now probe gid op idx (s # ss) n =
     (case normalize_stream E now probe gid op idx s n of
        (False, n1) \<Rightarrow> (False, n1)
      | (True, n1) \<Rightarrow> normalize_loop E now probe gid op (Suc idx) ss n1)"

definition normalize_sources ::
  "source_env \<Rightarrow> time_ms \<Rightarrow> (string \<Rightarrow> bool) \<Rightarrow> (nat \<Rightarrow> string) \<Rightarrow> normalize_options \<Rightarrow> stremio_stream list \<Rightarrow> string list \<Rightarrow>
     grant_map \<Rightarrow> source list option \<times> string list \<times> grant_map" where
  "normalize_sources E now probe gid op streams seen m =
     (case normalize_loop E now probe gid op 0 streams \<lparr>ns_seen = seen, ns_probes = [], ns_grants = m, ns_out = []\<rparr> of
        (ok, n) \<Rightarrow> (if ok then Some (ns_out n) else None, ns_seen n, ns_grants n))"

definition merge_key :: "source_env \<Rightarrow> source \<Rightarrow> string" where
  "merge_key E s =
     (let upstream = (case so_provenance s of None \<Rightarrow> so_url s | Some p \<Rightarrow> pn_upstreamUrl p);
          headers = (case so_provenance s of None \<Rightarrow> None | Some p \<Rightarrow> pn_headers p)
      in normalizeUpstreamUrl (se_url E) upstream @ ''|'' @
         (case headers of None \<Rightarrow> []
          | Some h \<Rightarrow> json_array (map (\<lambda>(k, v). se_leaf E (JStr (to_lower k @ '':'' @ v)))
              (sort_key (\<lambda>e. ul_collate (se_url E) (fst e)) h))))"

fun dedupe_from :: "source_env \<Rightarrow> string list \<Rightarrow> source list \<Rightarrow> source list" where
  "dedupe_from E seen [] = []"
| "dedupe_from E seen (s # ss) =
     (if merge_key E s \<in> set seen then dedupe_from E seen ss
      else s # dedupe_from E (merge_key E s # seen) ss)"

definition dedupe :: "source_env \<Rightarrow> source list \<Rightarrow> source list" where
  "dedupe E ss = dedupe_from E [] ss"

subsection \<open>The plain mapping\<close>

text \<open>\<open>src/stremio/mapper.ts\<close>. \<open>proxy\<close> builds the URL the player is given.\<close>

type_synonym proxy_fn = "string \<Rightarrow> (string, string) jsmap option \<Rightarrow> string"

definition inferSourceType :: "stremio_stream \<Rightarrow> string" where
  "inferSourceType s =
     (case inferTypeFromUrl (or_else (st_url s) []) of
        Some t \<Rightarrow> t
      | None \<Rightarrow> if rx_test size_rx (longText s) then ''mp4'' else ''hls'')"

definition inferQuality :: "stremio_stream \<Rightarrow> string" where
  "inferQuality s =
     (let text = longText s in
      case rx_match resolution_rx text of
        Some k \<Rightarrow> cap k 1 @ ''p''
      | None \<Rightarrow>
          if has_word [''4k'', ''uhd'', ''2160''] text then ''2160p''
          else if has_word [''1080'', ''fhd''] text then ''1080p''
          else if has_word [''720'', ''hd''] text then ''720p''
          else case rx_match k_rx text of Some k \<Rightarrow> cap k 1 @ ''K'' | None \<Rightarrow> ''Auto'')"

definition isPlayableStream :: "stremio_stream \<Rightarrow> bool" where
  "isPlayableStream s = (or_else (st_url s) [] \<noteq> [] \<and> is_http (or_else (st_url s) []))"

text \<open>\<open>replace(/\s+/g, ' ')\<close>: no line break is left for the later split.\<close>

definition squeeze :: "string \<Rightarrow> string" where
  "squeeze t = rx_replace_all (rx_plus rx_space) '' '' t"

definition streamLabel :: "stremio_stream \<Rightarrow> string \<Rightarrow> string" where
  "streamLabel s fallback =
     (let nm = or_else (st_name s) [];
          raw = trim (squeeze (if nm \<noteq> [] then nm else or_else (st_title s) []))
      in if raw = [] then fallback else take 60 (hd (split_on (CHR 0x0A) raw)))"

definition map_stream :: "string \<Rightarrow> string \<Rightarrow> proxy_fn \<Rightarrow> stremio_stream \<Rightarrow> source" where
  "map_stream pid pname proxy s =
     \<lparr>so_url = proxy (or_else (st_url s) []) (st_requestHeaders s), so_type = inferSourceType s,
      so_quality = inferQuality s, so_language = ''und'', so_label = streamLabel s pname,
      so_providerId = pid, so_providerName = pname, so_id = None, so_confidence = None, so_extra = None,
      so_provenance = None, so_expiresAt = None\<rparr>"

definition mapStreamsToSources ::
  "stremio_stream list \<Rightarrow> string \<Rightarrow> string \<Rightarrow> proxy_fn \<Rightarrow> source list" where
  "mapStreamsToSources streams pid pname proxy = map (map_stream pid pname proxy) (filter isPlayableStream streams)"

definition inferSubtitleFormat :: "string \<Rightarrow> string option \<Rightarrow> string" where
  "inferSubtitleFormat url fmt =
     (let f = to_lower (or_else fmt []); u = to_lower url in
      if f \<in> set [''srt'', ''vtt'', ''ass'', ''ssa''] then f
      else if f = ''ttml'' then ''ttml''
      else if str_includes u ''.srt'' then ''srt''
      else if str_includes u ''.ass'' then ''ass''
      else if str_includes u ''.ssa'' then ''ssa''
      else if str_includes u ''.ttml'' \<or> str_includes u ''.xml'' then ''ttml'' else ''vtt'')"

record subtitle_out =
  so_subUrl :: string
  so_subLabel :: string
  so_subFormat :: string

definition map_subtitle :: "(string \<Rightarrow> string) \<Rightarrow> stremio_subtitle \<Rightarrow> subtitle_out" where
  "map_subtitle proxy s =
     \<lparr>so_subUrl = proxy (ss_url s),
      so_subLabel = (if ss_lang s \<noteq> [] then ss_lang s
        else if or_else (ss_id s) [] \<noteq> [] then the (ss_id s) else ''Unknown''),
      so_subFormat = inferSubtitleFormat (ss_url s) (ss_format s)\<rparr>"

fun pick_subtitles :: "string list \<Rightarrow> stremio_subtitle list \<Rightarrow> stremio_subtitle list" where
  "pick_subtitles seen [] = []"
| "pick_subtitles seen (s # ss) =
     (if ss_url s = [] \<or> \<not> is_http (ss_url s) \<or> ss_url s \<in> set seen then pick_subtitles seen ss
      else s # pick_subtitles (ss_url s # seen) ss)"

definition mapSubtitles :: "stremio_subtitle list \<Rightarrow> (string \<Rightarrow> string) \<Rightarrow> subtitle_out list" where
  "mapSubtitles subs proxy = map (map_subtitle proxy) (pick_subtitles [] subs)"

subsection \<open>What the heuristics can answer\<close>

lemma between_lang: "u \<in> rx_lang (rx_between 3 4 rx_digit) \<Longrightarrow> length u \<in> {3, 4} \<and> list_all is_digit u"
  by (auto simp: rx_between_def eval_nat_numeral rx_digit_def)

definition quality_text :: "string \<Rightarrow> bool" where
  "quality_text q \<longleftrightarrow> q = ''Auto'' \<or> (\<exists>d. q = d @ ''p'' \<and> length d \<in> {3, 4} \<and> list_all is_digit d) \<or>
     (\<exists>c. q = [c] @ ''K'' \<and> is_digit c)"

lemma resolution_cap:
  assumes "rx_match resolution_rx t = Some k"
  shows "quality_text (cap k 1 @ ''p'')"
proof -
  have "cap k 1 \<in> rx_lang (rx_between 3 4 rx_digit)"
    by (rule rx_match_group [OF assms, where n = 1]) (auto simp: resolution_rx_def lit_def same_char_def rx_space_def)
  then show ?thesis using between_lang by (auto simp: quality_text_def)
qed

lemma k_cap:
  assumes "rx_match k_rx t = Some k"
  shows "quality_text (cap k 1 @ ''K'')"
proof -
  have "cap k 1 \<in> rx_lang rx_digit"
    by (rule rx_match_group [OF assms, where n = 1]) (auto simp: k_rx_def lit_def same_char_def rx_space_def)
  then show ?thesis by (auto simp: quality_text_def rx_digit_def)
qed

lemma quality_tiers: "quality_text ''2160p'' \<and> quality_text ''1080p'' \<and> quality_text ''720p'' \<and> quality_text ''480p'' \<and> quality_text ''Auto''"
proof -
  have "quality_text (d @ ''p'')" if "length d \<in> {3, 4}" "list_all is_digit d" for d
    using that by (auto simp: quality_text_def)
  from this [of "''2160''"] this [of "''1080''"] this [of "''720''"] this [of "''480''"] show ?thesis
    by (simp add: is_digit_def quality_text_def)
qed

text \<open>
  Whatever an addon writes in its texts, the quality read off them is \<open>Auto\<close>, three or four digits
  followed by \<open>p\<close>, or one digit followed by \<open>K\<close>.
\<close>
lemma quality_wellformed: "quality_text (inferQualityEnhanced s) \<and> quality_text (inferQuality s)"
  using quality_tiers resolution_cap k_cap
  by (auto simp: inferQualityEnhanced_def inferQuality_def Let_def simp del: append.simps split: option.split)

subsection \<open>Normalization is safe\<close>

definition raw_index :: "source \<Rightarrow> nat" where
  "raw_index s = (case so_provenance s of None \<Rightarrow> 0 | Some p \<Rightarrow> pn_rawIndex p)"

definition upstream_of :: "source \<Rightarrow> string" where
  "upstream_of s = (case so_provenance s of None \<Rightarrow> [] | Some p \<Rightarrow> pn_upstreamUrl p)"

definition source_key :: "source_env \<Rightarrow> source \<Rightarrow> string" where
  "source_key E s = dedup_key E (upstream_of s) (case so_provenance s of None \<Rightarrow> None | Some p \<Rightarrow> pn_headers p)"

text \<open>The URL shown is that of a grant for an upstream URL the outbound policy accepted.\<close>

definition granted :: "source_env \<Rightarrow> normalize_options \<Rightarrow> source \<Rightarrow> bool" where
  "granted E op s \<longleftrightarrow> (\<exists>gop g v. no_grants op = Some gop \<and> so_url s = toProxyUrl g (no_publicBase op) \<and>
     validateOutboundUrl (map_option parsed_url.truncate \<circ> ul_parse (se_url E)) (se_lookup E) (se_isProd E)
       (upstream_of s) (go_urlPolicy gop) = Inr v \<and> gc_url g = se_href E (vu_url v))"

definition norm_inv :: "source_env \<Rightarrow> normalize_options \<Rightarrow> string list \<Rightarrow> nat \<Rightarrow> norm_state \<Rightarrow> bool" where
  "norm_inv E op seen0 idx n \<longleftrightarrow>
     sorted_wrt (<) (map raw_index (ns_out n)) \<and> distinct (map (source_key E) (ns_out n)) \<and> set seen0 \<subseteq> set (ns_seen n) \<and>
     (\<forall>s \<in> set (ns_out n). raw_index s < idx \<and> granted E op s \<and> source_key E s \<in> set (ns_seen n) \<and>
        source_key E s \<notin> set seen0)"

lemma norm_inv_weaken:
  assumes "norm_inv E op seen0 idx n" "ns_out n' = ns_out n" "set (ns_seen n) \<subseteq> set (ns_seen n')"
  shows "norm_inv E op seen0 (Suc idx) n'"
  using assms unfolding norm_inv_def by (auto simp: less_Suc_eq)

lemma norm_inv_snoc:
  assumes "norm_inv E op seen0 idx n" "ns_out n' = ns_out n @ [src]" "ns_seen n' = source_key E src # ns_seen n"
    "source_key E src \<notin> set (ns_seen n)" "raw_index src = idx" "granted E op src"
  shows "norm_inv E op seen0 (Suc idx) n'"
  using assms unfolding norm_inv_def by (auto simp: sorted_wrt_append less_Suc_eq)

lemma probe_keeps [simp]:
  "ns_out (snd (probe_source E probe op u n)) = ns_out n" "ns_seen (snd (probe_source E probe op u n)) = ns_seen n"
  by (simp_all add: probe_source_def Let_def split: option.split)

lemma make_source_sel [simp]:
  "so_url (make_source E op idx s u px) = px" "raw_index (make_source E op idx s u px) = idx"
  "upstream_of (make_source E op idx s u px) = u" "source_key E (make_source E op idx s u px) = dedup_key E u (st_requestHeaders s)"
  by (simp_all add: make_source_def Let_def raw_index_def upstream_of_def source_key_def)

lemma expires_sel [simp]:
  "raw_index (s\<lparr>so_expiresAt := t\<rparr>) = raw_index s" "source_key E (s\<lparr>so_expiresAt := t\<rparr>) = source_key E s"
  "granted E op (s\<lparr>so_expiresAt := t\<rparr>) = granted E op s"
  by (simp_all add: raw_index_def source_key_def upstream_of_def granted_def)

lemma issued_granted:
  assumes "issue_grant (map_option parsed_url.truncate \<circ> ul_parse (se_url E)) (se_href E) (se_isProd E) gop (se_lookup E)
      now gid (grant_input u h pid) m = (Inr g, m')" "no_grants op = Some gop"
  shows "granted E op (make_source E op idx s u (toProxyUrl g (no_publicBase op)))"
  using assms unfolding granted_def issue_grant_def
  by (auto simp: grant_input_def new_grant_def Let_def split: sum.splits if_splits)

lemma normalize_stream_inv:
  assumes "norm_inv E op seen0 idx n"
  shows "norm_inv E op seen0 (Suc idx) (snd (normalize_stream E now probe gid op idx s n))"
proof -
  let ?u = "or_else (st_url s) []"
  let ?k = "dedup_key E ?u (st_requestHeaders s)"
  let ?n1 = "n\<lparr>ns_seen := ?k # ns_seen n\<rparr>"
  obtain ok n2 where n2: "probe_source E probe op ?u ?n1 = (ok, n2)" by fastforce
  then have keep: "ns_out n2 = ns_out n" "ns_seen n2 = ?k # ns_seen n"
    using probe_keeps [of E probe op ?u ?n1] by simp_all
  show ?thesis
  proof (cases "?u = [] \<or> \<not> is_http ?u \<or> ?k \<in> set (ns_seen n)")
    case True
    then show ?thesis using norm_inv_weaken [OF assms refl order_refl] by (auto simp: normalize_stream_def Let_def)
  next
    case new: False
    have skip: "norm_inv E op seen0 (Suc idx) n2" "norm_inv E op seen0 (Suc idx) (n2\<lparr>ns_grants := m\<rparr>)" for m
      by (rule norm_inv_weaken [OF assms]; simp add: keep subset_insertI)+
    show ?thesis
    proof (cases "\<not> ok \<or> no_grants op = None \<or> no_publicBase op = []")
      case True
      then show ?thesis using new skip(1) by (auto simp: normalize_stream_def Let_def n2 split: option.split)
    next
      case go: False
      then obtain gop where gop: "no_grants op = Some gop" by auto
      obtain r m where i: "issue_grant (map_option parsed_url.truncate \<circ> ul_parse (se_url E)) (se_href E) (se_isProd E) gop
          (se_lookup E) now (gid idx) (grant_input ?u (st_requestHeaders s) (no_providerId op)) (ns_grants n2) = (r, m)" by fastforce
      show ?thesis
      proof (cases r)
        case (Inl e)
        then show ?thesis using new go gop i skip(2) by (simp add: normalize_stream_def Let_def n2)
      next
        case (Inr g)
        let ?src = "make_source E op idx s ?u (toProxyUrl g (no_publicBase op))"
        have out: "norm_inv E op seen0 (Suc idx) (n2\<lparr>ns_grants := m, ns_out := ns_out n2 @ [x]\<rparr>)"
          if "x = ?src \<or> (\<exists>t. x = ?src\<lparr>so_expiresAt := t\<rparr>)" for x
          by (rule norm_inv_snoc [OF assms, where src = x])
            (use that new issued_granted [OF i [unfolded Inr] gop] in \<open>auto simp: keep\<close>)
        have plain: "norm_inv E op seen0 (Suc idx) (n2\<lparr>ns_grants := m, ns_out := ns_out n2 @ [?src]\<rparr>)"
          by (rule out) simp
        have dated: "norm_inv E op seen0 (Suc idx) (n2\<lparr>ns_grants := m, ns_out := ns_out n2 @ [?src\<lparr>so_expiresAt := Some t\<rparr>]\<rparr>)" for t
          by (rule out) blast
        show ?thesis using new go gop i Inr plain dated skip(2)
          by (simp add: normalize_stream_def Let_def n2 split: option.split)
      qed
    qed
  qed
qed

lemma normalize_loop_inv:
  "norm_inv E op seen0 idx n \<Longrightarrow> \<exists>i. norm_inv E op seen0 i (snd (normalize_loop E now probe gid op idx ss n))"
proof (induction ss arbitrary: idx n)
  case (Cons s ss)
  from normalize_stream_inv [OF Cons.prems] have "norm_inv E op seen0 (Suc idx) (snd (normalize_stream E now probe gid op idx s n))" .
  then show ?case using Cons.IH
    by (auto split: prod.split bool.split)
qed auto

text \<open>
  C19. Normalizing an addon's streams never shows an upstream URL: every source carries the URL of a
  playback grant whose upstream the outbound policy accepted. The sources keep the order of the
  streams, no two of them have the same upstream and headers, and none repeats one that was seen
  before in the request.
\<close>
theorem normalize_sources_safe:
  assumes "normalize_sources E now probe gid op streams seen m = (Some out, seen', m')"
  shows "sorted_wrt (<) (map raw_index out) \<and> distinct (map (source_key E) out) \<and>
    list_all (\<lambda>s. granted E op s \<and> source_key E s \<notin> set seen \<and> source_key E s \<in> set seen') out"
proof -
  let ?n0 = "\<lparr>ns_seen = seen, ns_probes = [], ns_grants = m, ns_out = []\<rparr>"
  obtain ok n where n: "normalize_loop E now probe gid op 0 streams ?n0 = (ok, n)" by fastforce
  have "norm_inv E op seen 0 ?n0" by (simp add: norm_inv_def)
  from normalize_loop_inv [OF this, of now probe gid streams] obtain i where "norm_inv E op seen i n" by (auto simp: n)
  moreover have "out = ns_out n" "seen' = ns_seen n"
    using assms by (simp_all add: normalize_sources_def n split: if_splits)
  ultimately show ?thesis by (auto simp: norm_inv_def list_all_iff)
qed

subsection \<open>Merging\<close>

text \<open>
  Merging the sources of several providers keeps exactly the first source of each upstream and
  headers, in their order.
\<close>
lemma dedupe_keeps_first:
  "dedupe E ss = map (\<lambda>i. ss ! i) (filter (\<lambda>i. merge_key E (ss ! i) \<notin> set (map (merge_key E) (take i ss))) [0..<length ss])"
proof -
  have gen: "dedupe_from E seen xs = map (\<lambda>i. xs ! i)
      (filter (\<lambda>i. merge_key E (xs ! i) \<notin> set seen \<union> set (map (merge_key E) (take i xs))) [0..<length xs])" for seen xs
  proof (induction xs arbitrary: seen)
    case (Cons x xs)
    have "[0..<length (x # xs)] = 0 # map Suc [0..<length xs]" by (simp add: upt_conv_Cons map_Suc_upt del: upt_Suc)
    then show ?case
      by (auto simp: Cons.IH filter_map comp_def simp del: upt_Suc intro!: arg_cong [where f = "map ((!) xs)"] filter_cong)
  qed simp
  show ?thesis by (simp add: dedupe_def gen)
qed

subsection \<open>Departures\<close>

text \<open>A stream's cache age beyond what a date can hold makes the whole call throw.\<close>

lemma huge_cache_age_throws:
  assumes "st_cacheMaxAge s = Some age" "max_date - now < \<lfloor>age * 1000\<rfloor>" "0 < age" "is_http (or_else (st_url s) [])"
    "or_else (st_url s) [] \<noteq> []" "no_probe op = False" "no_grants op = Some gop" "no_publicBase op \<noteq> []"
    and "issue_grant (map_option parsed_url.truncate \<circ> ul_parse (se_url E)) (se_href E) (se_isProd E) gop (se_lookup E)
      now (gid 0) (grant_input (or_else (st_url s) []) (st_requestHeaders s) (no_providerId op)) [] = (Inr g, m)"
  shows "fst (normalize_sources E now probe gid op (s # ss) [] []) = None"
  using assms
  by (simp add: normalize_sources_def normalize_stream_def Let_def probe_source_def expiry_def max_date_def)

text \<open>The type of a source is never unknown, so its confidence is never low.\<close>

lemma confidence_never_low: "so_confidence (make_source E op idx s u px) \<noteq> Some Low"
proof -
  have "inferTypeFromUrl t \<noteq> Some []" for t by (simp add: inferTypeFromUrl_def Let_def)
  then show ?thesis by (auto simp: make_source_def Let_def confidenceFor_def or_else_def split: option.splits)
qed

subsection \<open>An addon that spells one URL twice\<close>

definition demo_stream_of :: "string \<Rightarrow> string \<Rightarrow> stremio_stream" where
  "demo_stream_of url name = \<lparr>st_url = Some url, st_infoHash = None, st_fileIdx = None, st_name = Some name, st_title = None,
     st_description = None, st_sources = None, st_subtitles = None, st_requestHeaders = None, st_cacheMaxAge = Some 60\<rparr>"

definition demo_streams :: "stremio_stream list" where
  "demo_streams = [demo_stream_of ''https://h/c?a=1&b=2'' ''hd'', demo_stream_of ''https://h/c?b=2&a=1'' ''x'',
     demo_stream_of ''magnet:?xt'' ''t'']"

definition demo_source_env :: source_env where
  "demo_source_env = \<lparr>se_url = demo_url_lib, se_hash = (\<lambda>t. take 20 t), se_leaf = (\<lambda>j. []),
     se_href = (\<lambda>u. pu_protocol u @ ''//'' @ pu_hostname u), se_isProd = True,
     se_lookup = (\<lambda>h. Some [''93.184.216.34''])\<rparr>"

definition demo_norm_options :: normalize_options where
  "demo_norm_options = \<lparr>no_providerId = ''addon:x'', no_providerName = ''X'',
     no_grants = Some (grant_defaults None None None (policyFromFlags None None None)), no_publicBase = ''https://me'',
     no_probe = False, no_responseCacheMaxAge = None\<rparr>"

definition demo_normalized :: "source list option \<times> string list \<times> grant_map" where
  "demo_normalized = normalize_sources demo_source_env 5000 (\<lambda>u. True) (\<lambda>i. ''g'' @ show_nat i) demo_norm_options demo_streams [] []"

lemma demo_http: "is_http ''https://h/c?a=1&b=2''" "is_http ''https://h/c?b=2&a=1''" "\<not> is_http ''magnet:?xt''"
  by code_simp+

lemma demo_same_key:
  "dedup_key demo_source_env ''https://h/c?b=2&a=1'' None = dedup_key demo_source_env ''https://h/c?a=1&b=2'' None"
  by code_simp

lemma demo_issued:
  "issue_grant (map_option parsed_url.truncate \<circ> ul_parse (se_url demo_source_env)) (se_href demo_source_env)
     (se_isProd demo_source_env) (grant_defaults None None None (policyFromFlags None None None)) (se_lookup demo_source_env)
     5000 ''g0'' (grant_input ''https://h/c?a=1&b=2'' None ''addon:x'') [] =
   (let g = new_grant (grant_defaults None None None (policyFromFlags None None None)) 5000 ''g0'' ''https://h''
      (grant_input ''https://h/c?a=1&b=2'' None ''addon:x'') in (Inr g, [(''g0'', g)]))"
  by code_simp

lemma demo_normalized_urls:
  "\<exists>s seen m. demo_normalized = (Some [s], seen, m) \<and> so_url s = ''https://me/v1/proxy/grant/g0''"
proof -
  have "toProxyUrl (new_grant (grant_defaults None None None (policyFromFlags None None None)) 5000 ''g0'' ''https://h''
      (grant_input ''https://h/c?a=1&b=2'' None ''addon:x'')) ''https://me'' = ''https://me/v1/proxy/grant/g0''" by code_simp
  moreover have "show_nat 0 = ''0''" by code_simp
  ultimately show ?thesis
    using demo_http demo_same_key demo_issued
    by (simp add: demo_normalized_def normalize_sources_def demo_streams_def demo_stream_of_def normalize_stream_def
        demo_norm_options_def probe_source_def expiry_def max_date_def Let_def)
qed

theorem normalize_sources_safe_witness:
  "case demo_normalized of (out, seen, m) \<Rightarrow> (case out of None \<Rightarrow> False
     | Some ss \<Rightarrow> ss \<noteq> [] \<and> list_all (granted demo_source_env demo_norm_options) ss)"
proof -
  obtain s seen m where d: "demo_normalized = (Some [s], seen, m)" using demo_normalized_urls by blast
  then show ?thesis
    using normalize_sources_safe [of demo_source_env 5000 "\<lambda>u. True" "\<lambda>i. ''g'' @ show_nat i" demo_norm_options demo_streams
        "[]" "[]" "[s]" seen m]
    by (simp add: demo_normalized_def)
qed

end
