(* ===== verification/Ranking.thy ===== *)
theory Ranking
  imports Sources Reliability "HOL-Library.Product_Lexorder"
begin

text \<open>
  The explainable ranking of sources, \<open>src/sources/ranking.ts\<close>. Scores are exact rationals; the telemetry of a
  provider is what \<open>getMetrics\<close> of the reliability registry answers.
\<close>

record ranking_weights =
  rw_reliability :: rat
  rw_latency :: rat
  rw_playability :: rat
  rw_confidence :: rat
  rw_quality :: rat
  rw_size :: rat
  rw_hdr :: rat
  rw_codec :: rat

definition DEFAULT_SOURCE_RANKING_WEIGHTS :: ranking_weights where
  "DEFAULT_SOURCE_RANKING_WEIGHTS =
     \<lparr>rw_reliability = 15, rw_latency = 10, rw_playability = 20, rw_confidence = 10, rw_quality = 25, rw_size = 3,
      rw_hdr = 3, rw_codec = 2\<rparr>"

definition QUALITY_TIERS :: "(string \<times> rat) list" where
  "QUALITY_TIERS = [(''2160p'', 1), (''1080p'', 4 / 5), (''720p'', 1 / 2), (''480p'', 1 / 4)]"

definition DIRECT_TYPES :: "string list" where
  "DIRECT_TYPES = [''http'', ''mp4'', ''mkv'', ''webm'', ''hls'', ''dash'']"

text \<open>What one factor adds, and the reason it gives (\<open>None\<close>: the factor says nothing).\<close>

type_synonym factor = "rat \<times> string option"

definition reliability_factor :: "ranking_weights \<Rightarrow> metrics_view \<Rightarrow> factor" where
  "reliability_factor w m =
     (let decisive = mv_successes m + mv_failures m in
      if decisive = 0 then (0, None)
      else (let contrib = math_round (rw_reliability w * (of_nat (mv_successes m) / of_nat decisive)) in
            (of_int contrib,
             Some (if 0 < contrib
               then ''reliability:'' @ show_nat (mv_successes m) @ ''/'' @ show_nat decisive @ ''(+'' @ show_int contrib @ '')''
               else ''reliability:low('' @ show_nat (mv_successes m) @ ''/'' @ show_nat decisive @ '')''))))"

definition latency_factor :: "ranking_weights \<Rightarrow> metrics_view \<Rightarrow> factor" where
  "latency_factor w m =
     (case mv_avgLatency m of
        None \<Rightarrow> (0, None)
      | Some l \<Rightarrow>
          if l \<le> 1500 then (rw_latency w, Some (''latency:fast('' @ show_int l @ ''ms)''))
          else if l \<le> 10000
          then (let contrib = math_round (rw_latency w * ((10000 - of_int l) / 8500)) in
                if 0 < contrib then (of_int contrib, Some (''latency:'' @ show_int l @ ''ms(+'' @ show_int contrib @ '')''))
                else (0, None))
          else (0, Some (''latency:slow('' @ show_int l @ ''ms)'')))"

definition playability_factor :: "ranking_weights \<Rightarrow> source \<Rightarrow> factor" where
  "playability_factor w s =
     (if so_type s \<in> set DIRECT_TYPES then (rw_playability w, Some (''playability:direct('' @ so_type s @ '')''))
      else (0, Some (''playability:'' @ so_type s)))"

definition confidence_factor :: "ranking_weights \<Rightarrow> source \<Rightarrow> factor" where
  "confidence_factor w s =
     (case so_confidence s of
        Some High \<Rightarrow> (rw_confidence w, Some ''confidence:high'')
      | Some Medium \<Rightarrow> (of_int (math_round (rw_confidence w / 2)), Some ''confidence:medium'')
      | _ \<Rightarrow> (0, None))"

definition quality_factor :: "ranking_weights \<Rightarrow> source \<Rightarrow> factor" where
  "quality_factor w s =
     (let quality = to_lower (so_quality s) in
      case find (\<lambda>(t, share). quality = t) QUALITY_TIERS of
        Some (t, share) \<Rightarrow>
          (let contrib = math_round (rw_quality w * share) in
           (of_int contrib, Some (''quality:'' @ t @ ''(+'' @ show_int contrib @ '')'')))
      | None \<Rightarrow> if quality = [] then (0, None) else (0, Some (''quality:'' @ quality)))"

definition modern_codec :: rx where
  "modern_codec = alt_all [lit_ci ''hevc'', lit_ci ''h265'', lit_ci ''av1'', lit_ci ''dolby'']"

definition extra_factors :: "ranking_weights \<Rightarrow> source \<Rightarrow> factor list" where
  "extra_factors w s =
     (case so_extra s of
        None \<Rightarrow> []
      | Some x \<Rightarrow>
          [if sx_hdr x then (rw_hdr w, Some ''hdr'') else (0, None),
           (let codec = or_else (sx_codec x) [] in
            if codec \<noteq> [] \<and> rx_test modern_codec codec then (rw_codec w, Some (''codec:'' @ to_lower codec)) else (0, None)),
           (case sx_sizeBytes x of
              Some n \<Rightarrow> if 0 < n then (rw_size w, Some ''size:known'') else (0, None) | None \<Rightarrow> (0, None))])"

definition score_factors :: "(string \<Rightarrow> metrics_view option) \<Rightarrow> ranking_weights \<Rightarrow> source \<Rightarrow> factor list" where
  "score_factors metrics w s =
     (case metrics (so_providerId s) of
        None \<Rightarrow> []
      | Some m \<Rightarrow> if mv_attempts m = 0 then [] else [reliability_factor w m, latency_factor w m]) @
     [playability_factor w s, confidence_factor w s, quality_factor w s] @ extra_factors w s"

text \<open>The score is accumulated in this order, the reasons are listed in it.\<close>

definition explainSourceScore ::
  "(string \<Rightarrow> metrics_view option) \<Rightarrow> ranking_weights \<Rightarrow> source \<Rightarrow> rat \<times> string list" where
  "explainSourceScore metrics w s =
     (let fs = score_factors metrics w s in (fold (\<lambda>f acc. acc + fst f) fs 0, List.map_filter snd fs))"

record ranked_source =
  rs_source :: source
  rs_score :: rat
  rs_reasons :: "string list"

definition rankSources ::
  "(string \<Rightarrow> metrics_view option) \<Rightarrow> ranking_weights \<Rightarrow> source list \<Rightarrow> ranked_source list" where
  "rankSources metrics w sources =
     map (\<lambda>(i, s). (let (score, reasons) = explainSourceScore metrics w s in
                    \<lparr>rs_source = s, rs_score = score, rs_reasons = reasons\<rparr>))
       (sort_key (\<lambda>(i, s). (- fst (explainSourceScore metrics w s), i)) (enumerate 0 sources))"

subsection \<open>The order\<close>

abbreviation score_of :: "(string \<Rightarrow> metrics_view option) \<Rightarrow> ranking_weights \<Rightarrow> source \<Rightarrow> rat" where
  "score_of metrics w s \<equiv> fst (explainSourceScore metrics w s)"

text \<open>
  Ranking is a stable sort by descending score: the sources are the given ones, no source comes
  after one that scores less, and among equal scores the given order (the operator's provider order)
  stands; every source carries its own score and reasons.
\<close>
lemma ranking_stable:
  "map rs_source (rankSources metrics w sources) = sort_key (\<lambda>s. - score_of metrics w s) sources \<and>
   list_all (\<lambda>r. (rs_score r, rs_reasons r) = explainSourceScore metrics w (rs_source r)) (rankSources metrics w sources)"
proof -
  let ?f = "\<lambda>(i :: nat, s). - score_of metrics w s"
  have "sorted (map fst (enumerate 0 sources))" by simp
  from sort_key_refine [OF this, of ?f]
  have "sort_key (\<lambda>(i, s). (- score_of metrics w s, i)) (enumerate 0 sources) = sort_key ?f (enumerate 0 sources)"
    by (simp add: case_prod_beta')
  moreover have "map snd (sort_key ?f (enumerate 0 sources)) = sort_key (\<lambda>s. - score_of metrics w s) (map snd (enumerate 0 sources))"
    by (rule map_sort_key) (simp add: case_prod_beta')
  moreover have "map rs_source (rankSources metrics w sources) =
      map snd (sort_key (\<lambda>(i, s). (- score_of metrics w s, i)) (enumerate 0 sources))"
    by (simp add: rankSources_def Let_def case_prod_beta' comp_def)
  ultimately show ?thesis by (simp add: rankSources_def Let_def list_all_iff case_prod_beta')
qed

subsection \<open>Bounds\<close>

lemma math_round_mono: "x \<le> y \<Longrightarrow> math_round x \<le> math_round y"
  unfolding math_round_def by (rule floor_mono) simp

lemma math_round_of_int [simp]: "math_round (of_int n) = n"
  unfolding math_round_def by linarith

lemma math_round_between: "of_int a \<le> x \<Longrightarrow> x \<le> of_int b \<Longrightarrow> a \<le> math_round x \<and> math_round x \<le> b"
  using math_round_mono [of "of_int a" x] math_round_mono [of x "of_int b"] by simp

lemma math_round_share:
  assumes "0 \<le> x" "x \<le> of_int b"
  shows "0 \<le> (of_int (math_round x) :: rat) \<and> of_int (math_round x) \<le> (of_int b :: rat)"
  using math_round_between [of 0 x b] assms by simp

lemma fold_add_factors: "fold (\<lambda>f acc. acc + fst f) fs (a :: rat) = a + sum_list (map fst fs)"
  by (induction fs arbitrary: a) (simp_all add: add.assoc)

definition in_share :: "rat \<Rightarrow> factor \<Rightarrow> bool" where
  "in_share b f \<longleftrightarrow> 0 \<le> fst f \<and> fst f \<le> b"

lemma default_weights [simp]:
  "rw_reliability DEFAULT_SOURCE_RANKING_WEIGHTS = 15" "rw_latency DEFAULT_SOURCE_RANKING_WEIGHTS = 10"
  "rw_playability DEFAULT_SOURCE_RANKING_WEIGHTS = 20" "rw_confidence DEFAULT_SOURCE_RANKING_WEIGHTS = 10"
  "rw_quality DEFAULT_SOURCE_RANKING_WEIGHTS = 25" "rw_size DEFAULT_SOURCE_RANKING_WEIGHTS = 3"
  "rw_hdr DEFAULT_SOURCE_RANKING_WEIGHTS = 3" "rw_codec DEFAULT_SOURCE_RANKING_WEIGHTS = 2"
  by (simp_all add: DEFAULT_SOURCE_RANKING_WEIGHTS_def)

lemma reliability_within: "in_share 15 (reliability_factor DEFAULT_SOURCE_RANKING_WEIGHTS m)"
proof (cases "mv_successes m + mv_failures m = 0")
  case False
  let ?x = "15 * (of_nat (mv_successes m) / of_nat (mv_successes m + mv_failures m)) :: rat"
  have "of_nat (mv_successes m) / of_nat (mv_successes m + mv_failures m) \<le> (1 :: rat)"
    using False by (simp add: divide_le_eq_1 del: of_nat_add)
  then have "0 \<le> ?x" "?x \<le> of_int 15" by simp_all
  from math_round_share [OF this] show ?thesis using False by (simp add: in_share_def reliability_factor_def Let_def)
qed (simp add: in_share_def reliability_factor_def)

lemma latency_within: "in_share 10 (latency_factor DEFAULT_SOURCE_RANKING_WEIGHTS m)"
proof (cases "mv_avgLatency m")
  case (Some l)
  show ?thesis
  proof (cases "1500 < l \<and> l \<le> 10000")
    case True
    let ?x = "10 * ((10000 - of_int l) / 8500) :: rat"
    have "(1500 :: rat) < of_int l" "of_int l \<le> (10000 :: rat)" using True by linarith+
    then have "0 \<le> ?x" "?x \<le> of_int 10" by (simp_all add: field_simps)
    from math_round_share [OF this] show ?thesis using Some True by (simp add: in_share_def latency_factor_def Let_def)
  qed (use Some in \<open>auto simp: in_share_def latency_factor_def\<close>)
qed (simp add: in_share_def latency_factor_def)

lemma confidence_within: "in_share 10 (confidence_factor DEFAULT_SOURCE_RANKING_WEIGHTS s)"
proof -
  have "math_round (10 / 2) = 5" by (simp add: math_round_def floor_eq_iff)
  then show ?thesis by (simp add: in_share_def confidence_factor_def split: option.split confidence.split)
qed

lemma quality_within: "in_share 25 (quality_factor DEFAULT_SOURCE_RANKING_WEIGHTS s)"
proof -
  have "math_round 25 = 25" "math_round 20 = 20" "math_round (25 / 2) = 13" "math_round (25 / 4) = 6"
    by (simp_all add: math_round_def floor_eq_iff)
  then show ?thesis by (auto simp: in_share_def quality_factor_def QUALITY_TIERS_def Let_def)
qed

text \<open>
  With the default weights a score lies between 0 and 88, whatever the provider's telemetry and
  the source's texts are.
\<close>
lemma default_score_bounded:
  "0 \<le> score_of metrics DEFAULT_SOURCE_RANKING_WEIGHTS s \<and> score_of metrics DEFAULT_SOURCE_RANKING_WEIGHTS s \<le> 88"
proof -
  let ?w = "DEFAULT_SOURCE_RANKING_WEIGHTS"
  have tele: "0 \<le> sum_list (map fst fs) \<and> sum_list (map fst fs) \<le> 25"
    if "fs = (case metrics (so_providerId s) of None \<Rightarrow> [] | Some m \<Rightarrow>
      if mv_attempts m = 0 then [] else [reliability_factor ?w m, latency_factor ?w m])" for fs
  proof (cases "metrics (so_providerId s)")
    case (Some m)
    have "fst (reliability_factor ?w m) + fst (latency_factor ?w m) \<le> 15 + 10"
      using reliability_within latency_within unfolding in_share_def by (blast intro: add_mono)
    then show ?thesis using that Some reliability_within [of m] latency_within [of m] by (simp add: in_share_def)
  qed (use that in simp)
  have "in_share 20 (playability_factor ?w s)" by (simp add: in_share_def playability_factor_def)
  moreover have "0 \<le> sum_list (map fst (extra_factors ?w s)) \<and> sum_list (map fst (extra_factors ?w s)) \<le> 8"
    by (auto simp: extra_factors_def Let_def split: option.split)
  moreover have "score_of metrics ?w s = sum_list (map fst (score_factors metrics ?w s))"
    by (simp add: explainSourceScore_def Let_def fold_add_factors)
  ultimately show ?thesis
    using tele [OF refl] confidence_within [of s] quality_within [of s] unfolding score_factors_def in_share_def by simp
qed

text \<open>A resolution outside the four tiers, such as 1440p or 8K, adds nothing: it ranks below 480p.\<close>

lemma unlisted_resolution_ranks_last:
  "so_quality s = ''1440p'' \<or> so_quality s = ''8K'' \<Longrightarrow>
   fst (quality_factor DEFAULT_SOURCE_RANKING_WEIGHTS s) < fst (quality_factor DEFAULT_SOURCE_RANKING_WEIGHTS (s\<lparr>so_quality := ''480p''\<rparr>))"
proof -
  have "math_round (25 / 4) = 6" by (simp add: math_round_def floor_eq_iff)
  moreover have "to_lower ''1440p'' = ''1440p''" "to_lower ''8K'' = ''8k''" "to_lower ''480p'' = ''480p''" by code_simp+
  ultimately show "so_quality s = ''1440p'' \<or> so_quality s = ''8K'' \<Longrightarrow> ?thesis"
    by (auto simp: quality_factor_def QUALITY_TIERS_def Let_def)
qed

end
