(* ===== verification/Health.thy ===== *)
theory Health
  imports ManagerFacts Reliability Capacity Lifecycle JobEngine Ranking
begin

text \<open>
  The health monitor, \<open>src/health/monitor.ts\<close>: readiness, service status with its incidents,
  dependency reports, and the sweep that probes every stream addon. What a service answers when it is asked
  (storage, cache, TMDB, debrid, job engine) is an argument; the addon manager and the reliability
  registry are the modelled ones. Process figures of the liveness probe are not modelled.
\<close>

subsection \<open>Readiness\<close>

datatype overall = StatusOk | StatusDegraded | StatusDown

text \<open>A service call that throws gives its message on the left.\<close>

record readiness_services =
  rv_storage :: "((string + string) \<times> int) option"
  rv_cache :: "(string + (string \<times> nat)) option"
  rv_jobs :: "(string + (nat \<times> nat)) option"

record health_check =
  hc_ok :: bool
  hc_message :: string
  hc_latencyMs :: "int option"

record readiness_report =
  rr_status :: overall
  rr_ready :: bool
  rr_revision :: int
  rr_checks :: "(string, health_check) jsmap"

definition manager_check :: "'r manager_env \<Rightarrow> 'r manager \<Rightarrow> health_check" where
  "manager_check E m =
     \<lparr>hc_ok = True,
      hc_message = ''Active ('' @ show_nat (length (list_addons (collate_of E) (mg_data m))) @ '' installed, '' @
        show_nat (length (getStreamEnabled (collate_of E) (mg_data m))) @ '' stream-ready)'',
      hc_latencyMs = None\<rparr>"

definition storage_check :: "(string + string) \<times> int \<Rightarrow> health_check" where
  "storage_check x =
     (case x of
        (Inr desc, ms) \<Rightarrow> \<lparr>hc_ok = True, hc_message = desc @ '' responsive ('' @ show_int ms @ ''ms)'', hc_latencyMs = Some ms\<rparr>
      | (Inl err, ms) \<Rightarrow> \<lparr>hc_ok = False, hc_message = err, hc_latencyMs = Some ms\<rparr>)"

definition cache_check :: "string + (string \<times> nat) \<Rightarrow> health_check" where
  "cache_check x =
     (case x of
        Inr (backend, n) \<Rightarrow>
          \<lparr>hc_ok = True, hc_message = ''Backend: '' @ backend @ '' (cardinality: '' @ show_nat n @ '')'', hc_latencyMs = None\<rparr>
      | Inl err \<Rightarrow> \<lparr>hc_ok = False, hc_message = err, hc_latencyMs = None\<rparr>)"

definition jobs_check :: "string + (nat \<times> nat) \<Rightarrow> health_check" where
  "jobs_check x =
     (case x of
        Inr (workers, active) \<Rightarrow>
          \<lparr>hc_ok = True, hc_message = ''Workers: '' @ show_nat workers @ '', active: '' @ show_nat active, hc_latencyMs = None\<rparr>
      | Inl err \<Rightarrow> \<lparr>hc_ok = False, hc_message = err, hc_latencyMs = None\<rparr>)"

text \<open>The checks in the order they are made, the manager's first.\<close>

definition readiness_checks :: "'r manager_env \<Rightarrow> 'r manager \<Rightarrow> readiness_services \<Rightarrow> (string, health_check) jsmap" where
  "readiness_checks E m sv =
     [(''manager'', manager_check E m)] @
     (case rv_storage sv of None \<Rightarrow> [] | Some x \<Rightarrow> [(''storage'', storage_check x)]) @
     (case rv_cache sv of None \<Rightarrow> [] | Some x \<Rightarrow> [(''cache'', cache_check x)]) @
     (case rv_jobs sv of None \<Rightarrow> [] | Some x \<Rightarrow> [(''jobs'', jobs_check x)])"

definition check_failed :: "string \<Rightarrow> (string, health_check) jsmap \<Rightarrow> bool" where
  "check_failed k cs = (case jm_get cs k of None \<Rightarrow> False | Some c \<Rightarrow> \<not> hc_ok c)"

definition getReadiness ::
  "'r manager_env \<Rightarrow> time_ms \<Rightarrow> readiness_gate \<Rightarrow> 'r manager \<Rightarrow> readiness_services \<Rightarrow> readiness_report" where
  "getReadiness E now gate m sv =
     (if isShuttingDown gate
      then \<lparr>rr_status = StatusDown, rr_ready = False, rr_revision = sd_revision (mg_data m),
            rr_checks = [(''shutdown'',
              \<lparr>hc_ok = False,
               hc_message = ''Shutting down ('' @ or_else (rg_reason gate) ''null'' @ '', '' @ show_int (elapsedMs now gate) @ ''ms ago)'',
               hc_latencyMs = None\<rparr>)]\<rparr>
      else
        (let checks = readiness_checks E m sv;
             allOk = list_all (\<lambda>(k, c). hc_ok c) checks
         in \<lparr>rr_status = (if allOk then StatusOk
               else if check_failed ''storage'' checks \<or> check_failed ''manager'' checks then StatusDown else StatusDegraded),
             rr_ready = allOk, rr_revision = sd_revision (mg_data m), rr_checks = checks\<rparr>))"

subsection \<open>Dependencies\<close>

record dependency =
  dp_name :: string
  dp_type :: string
  dp_status :: overall
  dp_latencyMs :: "int option"
  dp_message :: "string option"

datatype tmdb_reply = TmdbHttp int bool int | TmdbThrows string int

record tmdb_cached =
  tm_timestamp :: time_ms
  tm_key :: string
  tm_item :: dependency

record status_services =
  sr_storage :: "((string + string) \<times> int) option"
  sr_cacheBackend :: "string option"
  sr_tmdbKey :: "string option"
  sr_tmdb :: tmdb_reply
  sr_debrid :: bool
  sr_jobs :: bool

definition plain_dep :: "string \<Rightarrow> string \<Rightarrow> overall \<Rightarrow> string option \<Rightarrow> dependency" where
  "plain_dep name type st msg = \<lparr>dp_name = name, dp_type = type, dp_status = st, dp_latencyMs = None, dp_message = msg\<rparr>"

definition storage_dep :: "(string + string) \<times> int \<Rightarrow> dependency" where
  "storage_dep x =
     (case x of
        (Inr desc, ms) \<Rightarrow>
          (let kind = hd (split_on CHR '':'' desc) in
           (plain_dep ''Storage'' (if kind = [] then ''storage'' else kind) StatusOk None)\<lparr>dp_latencyMs := Some ms\<rparr>)
      | (Inl err, ms) \<Rightarrow> (plain_dep ''Storage'' ''storage'' StatusDown (Some err))\<lparr>dp_latencyMs := Some ms\<rparr>)"

definition tmdb_item :: "tmdb_reply \<Rightarrow> dependency" where
  "tmdb_item r =
     (case r of
        TmdbHttp status ok ms \<Rightarrow>
          (if ok then plain_dep ''TMDB'' ''upstream_api'' StatusOk None
           else if status = 401 \<or> status = 403
           then plain_dep ''TMDB'' ''upstream_api'' StatusDegraded (Some (''Invalid API key (HTTP '' @ show_int status @ '')''))
           else plain_dep ''TMDB'' ''upstream_api'' StatusDegraded (Some (''Unexpected status: '' @ show_int status)))
            \<lparr>dp_latencyMs := Some ms\<rparr>
      | TmdbThrows msg ms \<Rightarrow> (plain_dep ''TMDB'' ''upstream_api'' StatusDegraded (Some msg))\<lparr>dp_latencyMs := Some ms\<rparr>)"

definition tmdb_dep ::
  "time_ms \<Rightarrow> status_services \<Rightarrow> tmdb_cached option \<Rightarrow> dependency \<times> tmdb_cached option" where
  "tmdb_dep now sv cached =
     (case sr_tmdbKey sv of
        None \<Rightarrow> (plain_dep ''TMDB'' ''upstream_api'' StatusDegraded (Some ''API Key missing''), cached)
      | Some k \<Rightarrow>
          if k = [] then (plain_dep ''TMDB'' ''upstream_api'' StatusDegraded (Some ''API Key missing''), cached)
          else
            (let fetch = (tmdb_item (sr_tmdb sv), Some \<lparr>tm_timestamp = now, tm_key = k, tm_item = tmdb_item (sr_tmdb sv)\<rparr>) in
             case cached of
               None \<Rightarrow> fetch
             | Some c \<Rightarrow> if tm_key c = k \<and> now - tm_timestamp c < 60000 then (tm_item c, cached) else fetch))"

definition worst_status :: "dependency list \<Rightarrow> overall" where
  "worst_status deps =
     (if list_ex (\<lambda>d. dp_status d = StatusDown) deps then StatusDown
      else if list_ex (\<lambda>d. dp_status d = StatusDegraded) deps then StatusDegraded else StatusOk)"

definition getDependencies ::
  "time_ms \<Rightarrow> status_services \<Rightarrow> tmdb_cached option \<Rightarrow> (overall \<times> dependency list) \<times> tmdb_cached option" where
  "getDependencies now sv cached =
     (let (tmdb, cached') = tmdb_dep now sv cached;
          deps =
            (case sr_storage sv of None \<Rightarrow> [] | Some x \<Rightarrow> [storage_dep x]) @
            (case sr_cacheBackend sv of None \<Rightarrow> [] | Some b \<Rightarrow> [plain_dep ''Cache'' b StatusOk None]) @
            [tmdb] @
            (if sr_debrid sv then [plain_dep ''Debrid'' ''debrid_service'' StatusOk None] else []) @
            (if sr_jobs sv then [plain_dep ''JobEngine'' ''worker_pool'' StatusOk None] else [])
      in ((worst_status deps, deps), cached'))"

subsection \<open>Service status\<close>

record monitor_options =
  mo_autoRefresh :: bool
  mo_staleThresholdMinutes :: "int option"
  mo_degradedMinProvidersRatio :: "rat option"

datatype incident_severity = WarningIncident | CriticalIncident

record incident =
  in_code :: string
  in_severity :: incident_severity
  in_message :: string
  in_detectedAt :: time_ms

definition mk_incident :: "string \<Rightarrow> incident_severity \<Rightarrow> string \<Rightarrow> time_ms \<Rightarrow> incident" where
  "mk_incident c s msg now = \<lparr>in_code = c, in_severity = s, in_message = msg, in_detectedAt = now\<rparr>"

definition stale_ms :: "monitor_options \<Rightarrow> int" where
  "stale_ms op = or_else (mo_staleThresholdMinutes op) 60 * 60 * 1000"

text \<open>No check yet, a check at no valid date, or at the epoch counts as stale.\<close>

definition last_check :: "installed_addon \<Rightarrow> time_ms" where
  "last_check a = or_else (Option.bind (ia_health a) hl_lastChecked) 0"

definition is_stale :: "time_ms \<Rightarrow> int \<Rightarrow> installed_addon \<Rightarrow> bool" where
  "is_stale now window a \<longleftrightarrow> last_check a = 0 \<or> window < now - last_check a"

definition stale_count :: "time_ms \<Rightarrow> monitor_options \<Rightarrow> installed_addon list \<Rightarrow> nat" where
  "stale_count now op addons =
     length (filter (\<lambda>a. ia_enabled a \<and>
       is_stale now (or_else (map_option hl_freshnessWindowMs (ia_health a)) (stale_ms op)) a) addons)"

text \<open>
  A provider counts as healthy when no circuit is open and its last check, of any date, succeeded. Asking for
  the circuit's state may move it to half-open.
\<close>

definition provider_healthy :: "time_ms \<Rightarrow> installed_addon \<Rightarrow> registry \<Rightarrow> bool \<times> registry" where
  "provider_healthy now a r =
     (let (st, r1) = getState (ia_providerId a) now r;
          opened = st = Open \<or> Option.bind (ia_health a) hl_circuitState = Some ''open''
      in (\<not> opened \<and> (case ia_health a of None \<Rightarrow> False | Some h \<Rightarrow> hl_healthy h), r1))"

fun count_healthy :: "time_ms \<Rightarrow> installed_addon list \<Rightarrow> registry \<Rightarrow> nat \<times> registry" where
  "count_healthy now [] r = (0, r)"
| "count_healthy now (a # as') r =
     (let (ok, r1) = provider_healthy now a r; (n, r2) = count_healthy now as' r1
      in (if ok then Suc n else n, r2))"

text \<open>\<open>Number(x.toFixed(2))\<close> on the exact quotient.\<close>

definition fixed2 :: "rat \<Rightarrow> rat" where
  "fixed2 x = of_int (math_round (x * 100)) / 100"

definition usable_ratio :: "nat \<Rightarrow> nat \<Rightarrow> rat" where
  "usable_ratio healthy listed = (if 0 < listed then fixed2 (of_nat healthy / of_nat listed) else 1)"

text \<open>A condition that degrades the service: its reason and its incident.\<close>

type_synonym condition = "(string \<times> incident) option"

definition provider_condition :: "(rat \<Rightarrow> string) \<Rightarrow> time_ms \<Rightarrow> monitor_options \<Rightarrow> nat \<Rightarrow> nat \<Rightarrow> condition" where
  "provider_condition num now op healthy listed =
     (let ratio = usable_ratio healthy listed; least = or_else (mo_degradedMinProvidersRatio op) (1 / 2) in
      if 0 < listed \<and> healthy = 0
      then Some (''No healthy stream providers available'',
                 mk_incident ''PROVIDERS_DEGRADED'' CriticalIncident
                   ''All configured stream providers are currently unhealthy or circuit-broken'' now)
      else if 0 < listed \<and> ratio < least
      then Some (''Healthy stream providers ratio ('' @ num ratio @ '') is below configured threshold ('' @ num least @ '')'',
                 mk_incident ''PROVIDERS_DEGRADED'' WarningIncident
                   (''Stream provider pool degraded: only '' @ show_nat healthy @ ''/'' @ show_nat listed @ '' usable'') now)
      else None)"

definition stale_condition :: "time_ms \<Rightarrow> monitor_options \<Rightarrow> nat \<Rightarrow> condition" where
  "stale_condition now op n =
     (if 0 < n
      then Some (''Enabled providers have stale health checks (> '' @ show_int (or_else (mo_staleThresholdMinutes op) 60) @ ''m)'',
                 mk_incident ''STALE_PROVIDER_HEALTH'' WarningIncident (show_nat n @ '' enabled providers have stale health checks'') now)
      else None)"

definition quarantine_condition :: "time_ms \<Rightarrow> quarantine_record list \<Rightarrow> condition" where
  "quarantine_condition now qs =
     (if qs \<noteq> []
      then Some (show_nat (length qs) @ '' provider(s) quarantined after repeated failures'',
                 mk_incident ''PROVIDERS_QUARANTINED'' WarningIncident
                   (''Quarantined: '' @ join_with '', '' (map (\<lambda>q. qr_providerId q @ '' ('' @ qr_reason q @ '')'') qs)) now)
      else None)"

definition egress_condition :: "(rat \<Rightarrow> string) \<Rightarrow> time_ms \<Rightarrow> egress_report option \<Rightarrow> condition" where
  "egress_condition num now e =
     (case e of
        None \<Rightarrow> None
      | Some x \<Rightarrow>
          if es_level x = LevelExceeded
          then Some (''Daily egress budget exceeded'',
                     mk_incident ''EGRESS_BUDGET_EXCEEDED'' WarningIncident
                       (''Egress at '' @ num (es_usedPct x) @ ''% of daily budget (proxy: '' @ num (es_proxyUsedPct x) @ ''%)'') now)
          else None)"

definition dependency_condition :: "time_ms \<Rightarrow> dependency list \<Rightarrow> condition" where
  "dependency_condition now deps =
     (if list_ex (\<lambda>d. dp_status d = StatusDown) deps
      then Some (''One or more critical dependencies are down'',
                 mk_incident ''CRITICAL_DEPENDENCY_DOWN'' CriticalIncident
                   ''A core storage or infrastructure dependency is unreachable'' now)
      else None)"

record status_report =
  sp_status :: overall
  sp_revision :: int
  sp_total :: nat
  sp_streamEnabled :: nat
  sp_subtitleEnabled :: nat
  sp_healthyStream :: nat
  sp_usableRatio :: rat
  sp_staleCount :: nat
  sp_degradedReasons :: "string list"
  sp_activeIncidents :: "incident list"
  sp_dependencies :: "dependency list"
  sp_shuttingDown :: bool

record monitor_state =
  mn_registry :: registry
  mn_egress :: "egress_monitor option"
  mn_tmdb :: "tmdb_cached option"

definition getServiceStatus ::
  "(rat \<Rightarrow> string) \<Rightarrow> 'r manager_env \<Rightarrow> time_ms \<Rightarrow> monitor_options \<Rightarrow> readiness_gate \<Rightarrow> status_services \<Rightarrow> 'r manager \<Rightarrow>
     monitor_state \<Rightarrow> status_report \<times> monitor_state" where
  "getServiceStatus num E now op gate sv m ms =
     (let d = mg_data m; c = collate_of E;
          streams = getStreamEnabled c d;
          stale = stale_count now op (list_addons c d);
          (healthy, r1) = count_healthy now streams (mn_registry ms);
          (quarantined, r2) = listQuarantined now r1;
          egress = map_option (egress_state now) (mn_egress ms);
          ((_, deps), tmdb') = getDependencies now sv (mn_tmdb ms);
          found = List.map_filter id
            [provider_condition num now op healthy (length streams), stale_condition now op stale,
             quarantine_condition now quarantined, egress_condition num now (map_option fst egress),
             dependency_condition now deps]
      in (\<lparr>sp_status = (if list_ex (\<lambda>x. dp_status x = StatusDown) deps then StatusDown
             else if found \<noteq> [] \<or> list_ex (\<lambda>x. dp_status x = StatusDegraded) deps then StatusDegraded else StatusOk),
           sp_revision = sd_revision d, sp_total = length (list_addons c d), sp_streamEnabled = length streams,
           sp_subtitleEnabled = length (getSubtitleEnabled c d), sp_healthyStream = healthy,
           sp_usableRatio = usable_ratio healthy (length streams), sp_staleCount = stale,
           sp_degradedReasons = map fst found, sp_activeIncidents = map snd found, sp_dependencies = deps,
           sp_shuttingDown = isShuttingDown gate\<rparr>,
          \<lparr>mn_registry = r2, mn_egress = (case egress of None \<Rightarrow> None | Some (rep, e) \<Rightarrow> Some e), mn_tmdb = tmdb'\<rparr>))"

end
