(* ===== verification/HealthSweep.thy ===== *)
theory HealthSweep
  imports Health
begin

text \<open>
  The health sweep of \<open>src/health/monitor.ts\<close> and what is shown of the monitor. A probe runs in the health
  pool; whether the pool grants a slot is an argument, as are the answers of the network. The probes of
  a batch touch different addons, so they are run in their order.
\<close>

subsection \<open>Probes\<close>

text \<open>What is thrown or returned as an error: a text, or an error object with its name and message.\<close>

datatype probe_error = PlainText string | ErrorObject string string | NoError

definition has_any :: "string \<Rightarrow> string list \<Rightarrow> bool" where
  "has_any msg ps \<longleftrightarrow> list_ex (str_includes msg) ps"

definition classifyProbeError :: "probe_error \<Rightarrow> string" where
  "classifyProbeError err =
     (case err of
        ErrorObject name message \<Rightarrow>
          (let msg = to_lower message in
           if name = ''TimeoutError'' \<or> has_any msg [''timeout'', ''timed out''] then ''timeout''
           else if has_any msg [''dns'', ''enotfound'', ''eai_again''] then ''dns''
           else if has_any msg [''ssl'', ''tls'', ''certificate''] then ''ssl_error''
           else if has_any msg [''404'', ''401'', ''403''] then ''http_4xx''
           else if has_any msg [''500'', ''502'', ''503'', ''504''] then ''http_5xx''
           else if has_any msg [''manifest'', ''json'', ''syntax''] then ''invalid_manifest''
           else ''network'')
      | _ \<Rightarrow> ''none'')"

definition circuit_text :: "circuit_state \<Rightarrow> string" where
  "circuit_text st = (case st of Closed \<Rightarrow> ''closed'' | Open \<Rightarrow> ''open'' | HalfOpen \<Rightarrow> ''half-open'')"

definition probe_details :: "check_type \<Rightarrow> int \<Rightarrow> string \<Rightarrow> circuit_state \<Rightarrow> string option \<Rightarrow> health_details" where
  "probe_details ct latency cls st err =
     \<lparr>hd_lastChecked = None, hd_checkType = Some ct, hd_consecutiveSuccesses = None, hd_consecutiveFailures = None,
      hd_latencyMs = Some latency, hd_failureClassification = Some cls, hd_freshnessWindowMs = None, hd_isFresh = None,
      hd_circuitState = Some (circuit_text st), hd_error = err\<rparr>"

text \<open>\<open>names\<close> is the name of the error a failed fetch throws, by its message; \<open>latency\<close> how long a probe takes.\<close>

record probe_env =
  pe_net :: network
  pe_names :: "string \<Rightarrow> string"
  pe_latency :: "string \<Rightarrow> int"
  pe_slot :: "string \<Rightarrow> bool"

definition record_probe ::
  "'r manager_env \<Rightarrow> time_ms \<Rightarrow> string \<Rightarrow> bool \<Rightarrow> check_type \<Rightarrow> int \<Rightarrow> string \<Rightarrow> string option \<Rightarrow>
     'r manager \<times> registry \<Rightarrow> 'r manager \<times> registry" where
  "record_probe E now pid ok ct latency cls err st =
     (let (cs, r1) = getState pid now (snd st) in
      (setHealth E now pid ok (Details (probe_details ct latency cls cs err)) (fst st), r1))"

definition checkOne ::
  "'r manager_env \<Rightarrow> probe_env \<Rightarrow> time_ms \<Rightarrow> bool \<Rightarrow> string \<Rightarrow> string \<Rightarrow> check_type \<Rightarrow> 'r manager \<times> registry \<Rightarrow>
     bool \<times> 'r manager \<times> registry" where
  "checkOne E P now autoRefresh pid manifestUrl ct st =
     (if autoRefresh
      then (let (r, m1) = refresh E now (pe_net P) pid (fst st) in
            (ir_ok r, record_probe E now pid (ir_ok r) ct (pe_latency P pid)
               (if ir_ok r then ''none'' else classifyProbeError (PlainText (or_else (ir_error r) [])))
               (if ir_ok r then None else ir_error r) (m1, snd st)))
      else
        (case fetchManifest (me_sv E) (pe_net P) manifestUrl of
           Inr f \<Rightarrow> (True, record_probe E now pid True ct (pe_latency P pid) ''none'' None st)
         | Inl (policy, msg) \<Rightarrow>
             (False, record_probe E now pid False ct (pe_latency P pid) (classifyProbeError (ErrorObject (pe_names P msg) msg))
                (Some msg) st)))"

definition probe_type :: "installed_addon \<Rightarrow> check_type" where
  "probe_type a =
     (case ia_capabilities a of
        None \<Rightarrow> StreamProbe
      | Some c \<Rightarrow> if cp_subtitles c \<noteq> [] \<and> cp_stream c = [] then SubtitleProbe else StreamProbe)"

text \<open>A probe the pool refuses counts as unhealthy and leaves no record.\<close>

definition probe_addon ::
  "'r manager_env \<Rightarrow> probe_env \<Rightarrow> time_ms \<Rightarrow> bool \<Rightarrow> installed_addon \<Rightarrow> 'r manager \<times> registry \<Rightarrow>
     bool \<times> 'r manager \<times> registry" where
  "probe_addon E P now autoRefresh a st =
     (if pe_slot P (ia_providerId a)
      then checkOne E P now autoRefresh (ia_providerId a) (ia_manifestUrl a) (probe_type a) st else (False, st))"

fun probe_all ::
  "'r manager_env \<Rightarrow> probe_env \<Rightarrow> time_ms \<Rightarrow> bool \<Rightarrow> installed_addon list \<Rightarrow> 'r manager \<times> registry \<Rightarrow>
     nat \<times> 'r manager \<times> registry" where
  "probe_all E P now auto [] st = (0, st)"
| "probe_all E P now auto (a # as') st =
     (let (ok, st1) = probe_addon E P now auto a st; (n, st2) = probe_all E P now auto as' st1
      in (if ok then Suc n else n, st2))"

text \<open>\<open>checkAll\<close>: batches of the pool's cap_n, one after the other.\<close>

function probe_batches ::
  "'r manager_env \<Rightarrow> probe_env \<Rightarrow> time_ms \<Rightarrow> bool \<Rightarrow> nat \<Rightarrow> installed_addon list \<Rightarrow> 'r manager \<times> registry \<Rightarrow>
     nat \<times> 'r manager \<times> registry" where
  "probe_batches E P now auto cap_n as' st =
     (if as' = [] then (0, st)
      else (let b = max 1 cap_n;
                (n, st1) = probe_all E P now auto (take b as') st;
                (k, st2) = probe_batches E P now auto cap_n (drop b as') st1
            in (n + k, st2)))"
  by pat_completeness auto
termination by (relation "measure (\<lambda>(E, P, now, auto, cap_n, as', st). length as')") auto

declare probe_batches.simps [simp del]

record health_summary =
  hs_checked :: nat
  hs_healthy :: nat
  hs_unhealthy :: nat
  hs_stale :: nat
  hs_revision :: int

definition checkAll ::
  "'r manager_env \<Rightarrow> probe_env \<Rightarrow> time_ms \<Rightarrow> monitor_options \<Rightarrow> nat \<Rightarrow> 'r manager \<times> registry \<Rightarrow>
     health_summary \<times> 'r manager \<times> registry" where
  "checkAll E P now op cap_n st =
     (let addons = getStreamEnabled (collate_of E) (mg_data (fst st));
          (healthy, st1) = probe_batches E P now (mo_autoRefresh op) cap_n addons st;
          current = map (\<lambda>a. or_else (get_addon (ia_providerId a) (mg_data (fst st1))) a) addons
      in (\<lparr>hs_checked = length addons, hs_healthy = healthy, hs_unhealthy = length addons - healthy,
           hs_stale = length (filter (is_stale now (stale_ms op)) current),
           hs_revision = sd_revision (mg_data (fst st1))\<rparr>, st1))"

text \<open>
  \<open>triggerSweep\<close>: \<open>queue\<close> is the outcome of \<open>enqueueScheduled\<close> when there is a job engine. The
  result tells whether the sweep was queued.
\<close>

definition triggerSweep ::
  "'r manager_env \<Rightarrow> probe_env \<Rightarrow> time_ms \<Rightarrow> monitor_options \<Rightarrow> nat \<Rightarrow> (engine_error + 'p job_record) option \<Rightarrow>
     'r manager \<times> registry \<Rightarrow> (bool \<times> string option) \<times> 'r manager \<times> registry" where
  "triggerSweep E P now op cap_n queue st =
     (case queue of
        Some (Inr j) \<Rightarrow> ((True, Some (jb_id j)), st)
      | _ \<Rightarrow> ((False, None), snd (checkAll E P now op cap_n st)))"

subsection \<open>Readiness\<close>

text \<open>
  An instance is ready exactly when it is not shutting down and every check passes; it is reported down
  exactly when it is shutting down or storage fails. Shutdown wins over everything, and once it has
  begun the instance is never ready again.
\<close>
lemma readiness_exact:
  "rr_ready (getReadiness E now gate m sv) =
     (\<not> isShuttingDown gate \<and>
      (case rv_storage sv of Some (Inl e, ms) \<Rightarrow> False | _ \<Rightarrow> True) \<and>
      (case rv_cache sv of Some (Inl e) \<Rightarrow> False | _ \<Rightarrow> True) \<and>
      (case rv_jobs sv of Some (Inl e) \<Rightarrow> False | _ \<Rightarrow> True)) \<and>
   (rr_status (getReadiness E now gate m sv) = StatusOk) = rr_ready (getReadiness E now gate m sv) \<and>
   (rr_status (getReadiness E now gate m sv) = StatusDown) =
     (isShuttingDown gate \<or> (case rv_storage sv of Some (Inl e, ms) \<Rightarrow> True | _ \<Rightarrow> False)) \<and>
   rr_ready (getReadiness E later (gate_beginShutdown now why gate) m sv) = False"
proof -
  have "isShuttingDown (gate_beginShutdown now why gate)"
    by (simp add: gate_beginShutdown_def isShuttingDown_def)
  then show ?thesis
    by (auto simp: getReadiness_def readiness_checks_def Let_def manager_check_def storage_check_def cache_check_def jobs_check_def
        check_failed_def split: option.splits sum.splits prod.splits)
qed

subsection \<open>Service status\<close>

lemma count_healthy_le: "fst (count_healthy now as' r) \<le> length as'"
proof (induction as' arbitrary: r)
  case (Cons a as')
  obtain ok r1 n r2 where "provider_healthy now a r = (ok, r1)" "count_healthy now as' r1 = (n, r2)" by fastforce
  then show ?case using Cons.IH [of r1] by simp
qed simp

lemma fixed2_between: "0 \<le> x \<Longrightarrow> x \<le> 1 \<Longrightarrow> 0 \<le> fixed2 x \<and> fixed2 x \<le> 1"
  using math_round_share [of "x * 100" 100] by (simp add: fixed2_def)

lemma usable_ratio_between: "n \<le> k \<Longrightarrow> 0 \<le> usable_ratio n k \<and> usable_ratio n k \<le> 1"
  using fixed2_between [of "of_nat n / of_nat k"] by (simp add: usable_ratio_def divide_le_eq_1)

text \<open>
  The service status: the service is down exactly when a dependency is down, and ok exactly when no
  condition and no degraded dependency is found; each degraded reason has its incident, and an incident
  is critical exactly when no enabled stream provider is healthy or a dependency is down; the
  counts are consistent and the ratio of usable providers lies between 0 and 1.
\<close>
lemma service_status_consistent:
  "case getServiceStatus num E now op gate sv m ms of (rep, ms') \<Rightarrow>
    (sp_status rep = StatusDown) = list_ex (\<lambda>d. dp_status d = StatusDown) (sp_dependencies rep) \<and>
    (sp_status rep = StatusOk) = (sp_degradedReasons rep = [] \<and> list_all (\<lambda>d. dp_status d = StatusOk) (sp_dependencies rep)) \<and>
    length (sp_degradedReasons rep) = length (sp_activeIncidents rep) \<and>
    list_ex (\<lambda>i. in_severity i = CriticalIncident) (sp_activeIncidents rep) =
      (0 < sp_streamEnabled rep \<and> sp_healthyStream rep = 0 \<or> sp_status rep = StatusDown) \<and>
    sp_healthyStream rep \<le> sp_streamEnabled rep \<and> sp_streamEnabled rep \<le> sp_total rep \<and>
    0 \<le> sp_usableRatio rep \<and> sp_usableRatio rep \<le> 1"
proof -
  let ?d = "mg_data m" and ?c = "collate_of E"
  let ?streams = "getStreamEnabled ?c ?d"
  obtain healthy r1 where h: "count_healthy now ?streams (mn_registry ms) = (healthy, r1)" by fastforce
  obtain qs r2 where q: "listQuarantined now r1 = (qs, r2)" by fastforce
  obtain ov deps tm where d: "getDependencies now sv (mn_tmdb ms) = ((ov, deps), tm)" by (metis surj_pair)
  let ?eg = "map_option (egress_state now) (mn_egress ms)"
  let ?stale = "stale_count now op (list_addons ?c ?d)"
  let ?found = "List.map_filter id
            [provider_condition num now op healthy (length ?streams), stale_condition now op ?stale,
             quarantine_condition now qs, egress_condition num now (map_option fst ?eg), dependency_condition now deps]"
  obtain rep ms' where g: "getServiceStatus num E now op gate sv m ms = (rep, ms')" by fastforce
  then have g': "rep = fst (getServiceStatus num E now op gate sv m ms)" by simp
  have rep: "sp_status rep = (if list_ex (\<lambda>x. dp_status x = StatusDown) deps then StatusDown
             else if ?found \<noteq> [] \<or> list_ex (\<lambda>x. dp_status x = StatusDegraded) deps then StatusDegraded else StatusOk)"
    "sp_dependencies rep = deps" "sp_degradedReasons rep = map fst ?found" "sp_activeIncidents rep = map snd ?found"
    "sp_healthyStream rep = healthy" "sp_streamEnabled rep = length ?streams"
    "sp_total rep = length (list_addons ?c ?d)" "sp_usableRatio rep = usable_ratio healthy (length ?streams)"
    by (simp_all add: g' getServiceStatus_def h q d Let_def)
  have le: "healthy \<le> length ?streams" using count_healthy_le [of now ?streams "mn_registry ms"] h by simp
  have listed: "length ?streams \<le> length (list_addons ?c ?d)"
    by (simp add: getStreamEnabled_def list_addons_def length_filter_le [THEN order_trans])
  have down: "list_ex (\<lambda>x. dp_status x = StatusDown) deps \<Longrightarrow> ?found \<noteq> []"
    by (simp add: dependency_condition_def map_filter_def)
  have crit: "list_ex (\<lambda>i. in_severity i = CriticalIncident) (map snd ?found) \<longleftrightarrow>
      0 < length ?streams \<and> healthy = 0 \<or> list_ex (\<lambda>x. dp_status x = StatusDown) deps"
    by (auto simp: map_filter_def provider_condition_def stale_condition_def quarantine_condition_def egress_condition_def
        dependency_condition_def mk_incident_def Let_def split: option.split)
  have ok: "list_all (\<lambda>d. dp_status d = StatusOk) deps \<longleftrightarrow>
      \<not> list_ex (\<lambda>x. dp_status x = StatusDown) deps \<and> \<not> list_ex (\<lambda>x. dp_status x = StatusDegraded) deps"
    by (auto simp: list_all_iff list_ex_iff) (metis overall.exhaust)+
  show ?thesis
    unfolding g case_prod_conv rep crit ok using le listed usable_ratio_between [OF le] by (auto simp: list.map_disc_iff)
qed

subsection \<open>The sweep\<close>

lemma probe_all_append:
  "probe_all E P now auto (xs @ ys) st =
     (let (n, st1) = probe_all E P now auto xs st; (k, st2) = probe_all E P now auto ys st1 in (n + k, st2))"
  by (induction xs arbitrary: st) (auto simp: Let_def split: prod.split)

text \<open>The batches make no difference to the outcome.\<close>

lemma probe_batches_all: "probe_batches E P now auto cap_n as' st = probe_all E P now auto as' st"
proof (induction as' arbitrary: st rule: length_induct)
  case (1 as')
  show ?case
  proof (cases "as' = []")
    case False
    then have "length (drop (max 1 cap_n) as') < length as'" by (cases as') auto
    then have "probe_batches E P now auto cap_n (drop (max 1 cap_n) as') st1 = probe_all E P now auto (drop (max 1 cap_n) as') st1" for st1
      using 1 by blast
    then show ?thesis
      using False probe_all_append [of E P now auto "take (max 1 cap_n) as'" "drop (max 1 cap_n) as'" st]
      by (subst probe_batches.simps) (simp add: Let_def)
  qed (simp add: probe_batches.simps)
qed

text \<open>The circuit a probe reads is that of its own provider.\<close>

lemma getState_other: "p \<noteq> q \<Longrightarrow> fst (getState q now (snd (getState p now r))) = fst (getState q now r)"
  by (auto simp: getState_def put_circuit_def split: option.split)

definition fetch_ok :: "'r manager_env \<Rightarrow> probe_env \<Rightarrow> installed_addon \<Rightarrow> bool" where
  "fetch_ok E P a = (case fetchManifest (me_sv E) (pe_net P) (ia_manifestUrl a) of Inr f \<Rightarrow> True | Inl e \<Rightarrow> False)"

definition fetch_details :: "'r manager_env \<Rightarrow> probe_env \<Rightarrow> circuit_state \<Rightarrow> installed_addon \<Rightarrow> health_details" where
  "fetch_details E P st a =
     (case fetchManifest (me_sv E) (pe_net P) (ia_manifestUrl a) of
        Inr f \<Rightarrow> probe_details (probe_type a) (pe_latency P (ia_providerId a)) ''none'' st None
      | Inl (policy, msg) \<Rightarrow> probe_details (probe_type a) (pe_latency P (ia_providerId a))
          (classifyProbeError (ErrorObject (pe_names P msg) msg)) st (Some msg))"

definition swept :: "'r manager_env \<Rightarrow> probe_env \<Rightarrow> time_ms \<Rightarrow> registry \<Rightarrow> installed_addon \<Rightarrow> installed_addon" where
  "swept E P now r a =
     (if pe_slot P (ia_providerId a)
      then a\<lparr>ia_health := Some (health_of (me_cfg E) now (fetch_ok E P a)
             (Details (fetch_details E P (fst (getState (ia_providerId a) now r)) a)) (ia_health a))\<rparr>
      else a)"

lemma get_addon_member:
  assumes "distinct (map ia_providerId (sd_addons d))" "a \<in> set (sd_addons d)"
  shows "get_addon (ia_providerId a) d = Some a"
proof (cases "get_addon (ia_providerId a) d")
  case (Some b)
  then have "b \<in> set (sd_addons d)" "ia_providerId b = ia_providerId a"
    by (auto simp: get_addon_def find_Some_iff)
  then show ?thesis using assms Some by (metis distinct_map inj_on_def)
qed (use assms(2) in \<open>auto simp: get_addon_def find_None_iff\<close>)

lemma probe_addon_sweeps:
  assumes "distinct (map ia_providerId (sd_addons (mg_data (fst st))))" "a \<in> set (sd_addons (mg_data (fst st)))"
    "probe_addon E P now False a st = (ok, st1)"
  shows "ok = (pe_slot P (ia_providerId a) \<and> fetch_ok E P a) \<and>
    sd_addons (mg_data (fst st1)) = map (at_id (ia_providerId a) (swept E P now (snd st))) (sd_addons (mg_data (fst st))) \<and>
    mg_data (fst st1) = (mg_data (fst st))\<lparr>sd_addons := sd_addons (mg_data (fst st1))\<rparr> \<and>
    (\<forall>q. q \<noteq> ia_providerId a \<longrightarrow> fst (getState q now (snd st1)) = fst (getState q now (snd st)))"
proof (cases "pe_slot P (ia_providerId a)")
  case False
  then have "map (at_id (ia_providerId a) (swept E P now (snd st))) l = l" for l
    by (intro map_idI) (auto simp: at_id_def swept_def)
  then show ?thesis using assms(3) False by (auto simp: probe_addon_def)
next
  case True
  let ?r = "\<lambda>x. x\<lparr>ia_health := Some (health_of (me_cfg E) now (fetch_ok E P a)
    (Details (fetch_details E P (fst (getState (ia_providerId a) now (snd st))) a)) (ia_health x))\<rparr>"
  have st1: "ok = fetch_ok E P a" "fst st1 = persist E (with_addons (update_addon (ia_providerId a) ?r) (fst st))"
    "snd st1 = snd (getState (ia_providerId a) now (snd st))"
    using assms(3) True get_addon_member [OF assms(1,2)]
    by (auto simp: probe_addon_def checkOne_def record_probe_def setHealth_def fetch_ok_def fetch_details_def
        split: sum.splits prod.splits)
  have "map (at_id (ia_providerId a) ?r) (sd_addons (mg_data (fst st))) =
      map (at_id (ia_providerId a) (swept E P now (snd st))) (sd_addons (mg_data (fst st)))"
  proof (rule map_cong [OF refl])
    fix x assume "x \<in> set (sd_addons (mg_data (fst st)))"
    then have "x = a" if "ia_providerId x = ia_providerId a"
      using assms(1,2) that by (metis distinct_map inj_on_def)
    then show "at_id (ia_providerId a) ?r x = at_id (ia_providerId a) (swept E P now (snd st)) x"
      using True by (auto simp: at_id_def swept_def)
  qed
  then show ?thesis
    using st1 True update_addon_map [OF assms(1), of "ia_providerId a" ?r] getState_other by (auto simp: persist_simps)
qed

lemma swept_id [simp]: "ia_providerId (swept E P now r a) = ia_providerId a"
  by (simp add: swept_def)

lemma probe_all_sweeps:
  assumes "distinct (map ia_providerId (sd_addons (mg_data (fst st))))" "distinct (map ia_providerId as')"
    "set as' \<subseteq> set (sd_addons (mg_data (fst st)))" "probe_all E P now False as' st = (n, st1)"
  shows "n = length (filter (\<lambda>a. pe_slot P (ia_providerId a) \<and> fetch_ok E P a) as') \<and>
    sd_addons (mg_data (fst st1)) = map (\<lambda>a. if a \<in> set as' then swept E P now (snd st) a else a) (sd_addons (mg_data (fst st))) \<and>
    mg_data (fst st1) = (mg_data (fst st))\<lparr>sd_addons := sd_addons (mg_data (fst st1))\<rparr>"
  using assms
proof (induction as' arbitrary: st n)
  case (Cons a as')
  let ?l = "sd_addons (mg_data (fst st))"
  obtain ok st0 where one: "probe_addon E P now False a st = (ok, st0)" by (metis surj_pair)
  obtain k where rest: "probe_all E P now False as' st0 = (k, st1)" "n = (if ok then Suc k else k)"
    using Cons.prems(4) one by (auto simp: Let_def split: prod.splits)
  have a: "a \<in> set ?l" using Cons.prems(3) by simp
  note step = probe_addon_sweeps [OF Cons.prems(1) a one]
  have ids: "map ia_providerId (sd_addons (mg_data (fst st0))) = map ia_providerId ?l"
    using step by (auto simp: at_id_def)
  have other: "ia_providerId x \<noteq> ia_providerId a" if "x \<in> set as'" for x
    using Cons.prems(2) that by (metis distinct.simps(2) image_eqI list.simps(9) list.set_map)
  have sub: "set as' \<subseteq> set (sd_addons (mg_data (fst st0)))"
  proof
    fix x assume x: "x \<in> set as'"
    then have "at_id (ia_providerId a) (swept E P now (snd st)) x = x" using other by (simp add: at_id_def)
    moreover have "x \<in> set ?l" using x Cons.prems(3) by auto
    ultimately show "x \<in> set (sd_addons (mg_data (fst st0)))" using step by (metis image_eqI image_set)
  qed
  have IH: "k = length (filter (\<lambda>a. pe_slot P (ia_providerId a) \<and> fetch_ok E P a) as')"
    "sd_addons (mg_data (fst st1)) = map (\<lambda>a. if a \<in> set as' then swept E P now (snd st0) a else a) (sd_addons (mg_data (fst st0)))"
    "mg_data (fst st1) = (mg_data (fst st0))\<lparr>sd_addons := sd_addons (mg_data (fst st1))\<rparr>"
    using Cons.IH [OF _ _ sub rest(1)] Cons.prems(1,2) ids by auto
  have same: "swept E P now (snd st0) x = swept E P now (snd st) x" if "x \<in> set as'" for x
    using step other [OF that] by (simp add: swept_def)
  have map: "(if at_id (ia_providerId a) (swept E P now (snd st)) x \<in> set as'
        then swept E P now (snd st0) (at_id (ia_providerId a) (swept E P now (snd st)) x)
        else at_id (ia_providerId a) (swept E P now (snd st)) x) = (if x \<in> set (a # as') then swept E P now (snd st) x else x)"
    if "x \<in> set ?l" for x
  proof (cases "x = a")
    case True
    have "swept E P now (snd st) a \<notin> set as'" using other by force
    then show ?thesis using True by (simp add: at_id_def)
  next
    case False
    then have "ia_providerId x \<noteq> ia_providerId a" using Cons.prems(1) a that by (metis distinct_map inj_on_def)
    then show ?thesis using False same by (simp add: at_id_def)
  qed
  have "sd_addons (mg_data (fst st1)) = map (\<lambda>x. if x \<in> set (a # as') then swept E P now (snd st) x else x) ?l"
    unfolding IH(2) using step map by (simp cong: map_cong)
  moreover have "mg_data (fst st1) = (mg_data (fst st))\<lparr>sd_addons := sd_addons (mg_data (fst st1))\<rparr>"
    using IH(3) step by (metis store_data.update_convs(1) store_data.surjective)
  ultimately show ?case using IH(1) rest(2) step by simp
qed simp

text \<open>
  C31. A sweep without refresh probes every enabled stream addon once and records exactly what it found: the
  health of each addon whose probe got a slot is replaced by the outcome of fetching its manifest, every other
  addon and every other field stays as it was, and the summary counts the probes that succeeded.
\<close>
theorem sweep_records_outcomes:
  assumes "distinct (map ia_providerId (sd_addons (mg_data m)))" "\<not> mo_autoRefresh op"
  shows "case checkAll E P now op cap_n (m, r) of (rep, m', r') \<Rightarrow>
    sd_addons (mg_data m') = map (\<lambda>a. if stream_enabled a then swept E P now r a else a) (sd_addons (mg_data m)) \<and>
    sd_revision (mg_data m') = sd_revision (mg_data m) \<and>
    hs_checked rep = length (filter stream_enabled (sd_addons (mg_data m))) \<and>
    hs_healthy rep = length (filter (\<lambda>a. stream_enabled a \<and> pe_slot P (ia_providerId a) \<and> fetch_ok E P a) (sd_addons (mg_data m))) \<and>
    hs_healthy rep + hs_unhealthy rep = hs_checked rep"
proof -
  let ?l = "sd_addons (mg_data m)" and ?s = "getStreamEnabled (collate_of E) (mg_data m)"
  obtain n st1 where run: "probe_all E P now False ?s (m, r) = (n, st1)" by (metis surj_pair)
  have m: "mset ?s = mset (filter stream_enabled ?l)"
    by (simp add: getStreamEnabled_def filter_sortAddons)
  then have set: "set ?s = set (filter stream_enabled ?l)" by (rule mset_eq_setD)
  have len: "length ?s = length (filter stream_enabled ?l)" using m by (rule mset_eq_length)
  have "mset (map ia_providerId ?s) = mset (map ia_providerId (filter stream_enabled ?l))" using m by simp
  then have d: "distinct (map ia_providerId ?s)"
    using assms(1) by (metis distinct_map_filter mset_eq_imp_distinct_iff)
  have res: "n = length (filter (\<lambda>a. pe_slot P (ia_providerId a) \<and> fetch_ok E P a) ?s)"
    "sd_addons (mg_data (fst st1)) = map (\<lambda>a. if a \<in> set ?s then swept E P now r a else a) ?l"
    "mg_data (fst st1) = (mg_data m)\<lparr>sd_addons := sd_addons (mg_data (fst st1))\<rparr>"
    using probe_all_sweeps [of "(m, r)" ?s E P now n st1] assms(1) d set run by auto
  have "mset (filter Q ?s) = mset (filter Q (filter stream_enabled ?l))" for Q
    using m by (simp only: mset_filter)
  from this [of "\<lambda>a. pe_slot P (ia_providerId a) \<and> fetch_ok E P a", unfolded filter_filter, THEN mset_eq_length]
  have n: "n = length (filter (\<lambda>a. stream_enabled a \<and> pe_slot P (ia_providerId a) \<and> fetch_ok E P a) ?l)"
    using res(1) by simp
  have "n \<le> length ?s" using res(1) by simp
  moreover have "sd_revision (mg_data (fst st1)) = sd_revision (mg_data m)" using res(3) by (metis store_data.select_convs(3) store_data.surjective store_data.update_convs(1))
  ultimately show ?thesis
    using assms(2) n res(2) set len run by (auto simp: checkAll_def probe_batches_all Let_def intro!: map_cong split: prod.splits)
qed

definition demo_probe :: probe_env where
  "demo_probe = \<lparr>pe_net = (\<lambda>u. HttpReply 503 False None u), pe_names = (\<lambda>m. ''StremioAddonError''),
     pe_latency = (\<lambda>p. 12), pe_slot = (\<lambda>p. True)\<rparr>"

definition demo_monitor :: monitor_options where
  "demo_monitor = \<lparr>mo_autoRefresh = False, mo_staleThresholdMinutes = None, mo_degradedMinProvidersRatio = None\<rparr>"

theorem sweep_records_outcomes_witness:
  "case checkAll demo_menv demo_probe 50 demo_monitor 4 (snd demo_result, demo_registry) of (rep, m, r) \<Rightarrow>
     hs_checked rep = 1 \<and> map (\<lambda>a. map_option hl_lastChecked (ia_health a)) (sd_addons (mg_data m)) = [Some (Some 50)]"
proof -
  have e: "stream_enabled demo_installed"
    using demo_stream by (simp add: stream_enabled_def, simp add: demo_installed_def new_addon_def)
  have h: "ia_health (swept demo_menv demo_probe 50 demo_registry demo_installed) \<noteq> None \<and>
      map_option hl_lastChecked (ia_health (swept demo_menv demo_probe 50 demo_registry demo_installed)) = Some (Some 50)"
    by (simp add: swept_def demo_probe_def health_of_def Let_def fetch_details_def probe_details_def
        split: sum.split prod.split)
  show ?thesis
    using sweep_records_outcomes [of "snd demo_result" demo_monitor demo_menv demo_probe 50 demo_registry 4] demo_result_addons e h
    by (simp add: demo_monitor_def split: prod.splits)
qed

subsection \<open>Departures\<close>

text \<open>A refresh that fails hands the classifier a text, which it takes for no error at all.\<close>

lemma failed_refresh_classified_none:
  assumes "refresh E now (pe_net P) pid (fst st) = (r, m1)" "\<not> ir_ok r"
  shows "checkOne E P now True pid url ct st =
    (False, record_probe E now pid False ct (pe_latency P pid) ''none'' (ir_error r) (m1, snd st))"
  using assms by (simp add: checkOne_def classifyProbeError_def)

text \<open>An instance that does not get the sweep's lock sweeps all the same, in process.\<close>

lemma busy_lock_sweeps_twice:
  "snd (triggerSweep E P now op cap_n (Some (Inl (LockNotAcquired r))) st) = snd (checkAll E P now op cap_n st)"
  by (simp add: triggerSweep_def)

text \<open>The ratio is rounded before it is compared: 133 of 268 is below one half and does not degrade the service.\<close>

lemma rounding_hides_degradation:
  "of_nat 133 / of_nat 268 < (1 / 2 :: rat) \<and>
   provider_condition num now \<lparr>mo_autoRefresh = False, mo_staleThresholdMinutes = None, mo_degradedMinProvidersRatio = None\<rparr> 133 268 = None"
proof -
  have "math_round (133 / 268 * 100) = 50" by (simp add: math_round_def floor_eq_iff)
  then show ?thesis by (simp add: provider_condition_def usable_ratio_def fixed2_def)
qed

end
