(* ===== verification/Redaction.thy ===== *)
theory Redaction
  imports Regex StremioUrl Json
begin

text \<open>
  Redaction of logs, audits and errors, \<open>src/security/redaction.ts\<close>. The WHATWG parser,
  the setter of \<open>search\<close> and \<open>toString\<close> are parameters. Texts are lists of 8-bit
  characters; the ellipsis, one UTF-16 unit of the source, is the character with code 133.
\<close>

definition SENSITIVE_QUERY_KEYS :: "string list" where
  "SENSITIVE_QUERY_KEYS =
     [''token'', ''apikey'', ''api_key'', ''api-key'', ''key'', ''auth'', ''authorization'', ''password'',
      ''passwd'', ''secret'', ''access_token'', ''refresh_token'', ''authkey'', ''auth_key'', ''session'',
      ''cookie'', ''signature'', ''sig'', ''jwt'', ''bearer'', ''credential'', ''credentials'', ''private'',
      ''rd'', ''realdebrid'', ''alldebrid'', ''premiumize'']"

definition SENSITIVE_HEADER_KEYS :: "string list" where
  "SENSITIVE_HEADER_KEYS =
     [''authorization'', ''proxy-authorization'', ''cookie'', ''set-cookie'', ''x-admin-token'',
      ''x-api-key'', ''x-auth-token'', ''x-access-token'']"

subsection \<open>Patterns\<close>

definition rx_auth_scheme :: rx where
  "rx_auth_scheme =
     Seq WordB (Seq (Group 1 (any_of_ci [''Bearer'', ''Basic'']))
       (Seq (rx_plus rx_space)
         (Seq (rx_plus (Ch (\<lambda>c. is_alnum c \<or> c \<in> set ''-._~+/''))) (Star (same_char CHR ''='')))))"

definition not_space_quote :: rx where
  "not_space_quote = Ch (\<lambda>c. \<not> is_space c \<and> c \<noteq> CHR 0x27 \<and> c \<noteq> CHR 0x22)"

definition rx_key_shape :: rx where
  "rx_key_shape =
     Seq WordB (Seq (Group 1 (alt_all [Seq (lit_ci ''api'') (Seq (Opt (one_of ''_-'')) (lit_ci ''key'')),
         lit_ci ''token'', lit_ci ''password'', lit_ci ''secret'', lit_ci ''authKey'']))
       (Seq (Star rx_space) (Seq (one_of '':='') (Seq (Star rx_space)
         (Seq (Opt (Ch (\<lambda>c. c = CHR 0x27 \<or> c = CHR 0x22))) (rx_atleast 6 not_space_quote))))))"

definition rx_opaque :: rx where
  "rx_opaque = Seq WordB (Seq (rx_atleast 32 (Ch (\<lambda>c. word_char c \<or> c = CHR ''-''))) WordB)"

definition SECRET_PATTERNS :: "rx list" where
  "SECRET_PATTERNS = [rx_auth_scheme, rx_key_shape, rx_opaque]"

definition rx_userinfo :: rx where
  "rx_userinfo =
     Seq (lit ''//'')
       (Seq (rx_plus (Ch (\<lambda>c. c \<noteq> CHR ''/'' \<and> \<not> is_space c \<and> c \<noteq> CHR '':'' \<and> c \<noteq> CHR ''@'')))
         (Seq (lit '':'')
           (Seq (rx_plus (Ch (\<lambda>c. c \<noteq> CHR ''@'' \<and> \<not> is_space c \<and> c \<noteq> CHR ''/''))) (lit ''@''))))"

definition is_id_shape :: "string \<Rightarrow> bool" where
  "is_id_shape m \<longleftrightarrow>
     length m = 36 \<and> list_all (\<lambda>c. is_hex c \<or> c = CHR ''-'') m \<or> length m = 32 \<and> list_all is_hex m"

definition secret_word :: rx where
  "secret_word = any_of_ci [''Bearer'', ''Basic'', ''api'', ''token'', ''password'', ''secret'']"

definition redact_match :: "string \<Rightarrow> string" where
  "redact_match m =
     (if is_id_shape m then m
      else if length m < 24 \<and> \<not> rx_test secret_word m then m
      else ''[REDACTED]'')"

definition ellipsis :: string where
  "ellipsis = [CHR 0x85]"

definition scrub :: "rx \<Rightarrow> string \<Rightarrow> string" where
  "scrub re s = rx_gsub re (\<lambda>k. redact_match (cap k 0)) [] s"

definition redactString :: "string \<Rightarrow> nat \<Rightarrow> string" where
  "redactString v maxLen =
     (let out = fold scrub SECRET_PATTERNS (rx_replace_all rx_userinfo ''://[REDACTED]@'' v)
      in if maxLen < length out then take maxLen out @ ellipsis else out)"

subsection \<open>URLs and headers\<close>

record redact_lib = url_lib +
  rl_set_search :: "full_url \<Rightarrow> string \<Rightarrow> full_url"
  rl_href :: "full_url \<Rightarrow> string"

definition sensitive_param :: "string \<Rightarrow> bool" where
  "sensitive_param k \<longleftrightarrow> to_lower k \<in> set SENSITIVE_QUERY_KEYS \<or>
     rx_test (any_of_ci [''token'', ''key'', ''secret'', ''auth'', ''pass'']) k"

definition redact_pair :: "string \<times> string \<Rightarrow> string" where
  "redact_pair e =
     (if sensitive_param (fst e) then encodeURIComponent (fst e) @ ''=REDACTED''
      else encodeURIComponent (fst e) @ ''='' @ encodeURIComponent (snd e))"

definition sensitive_hash :: "string \<Rightarrow> bool" where
  "sensitive_hash h \<longleftrightarrow> h \<noteq> [] \<and> rx_test (any_of_ci [''token'', ''key'', ''secret'', ''auth'']) h"

definition redact_parsed :: "('a redact_lib_scheme) \<Rightarrow> full_url \<Rightarrow> string" where
  "redact_parsed L url =
     (let u = url\<lparr>pu_username := [], pu_password := []\<rparr>;
          pairs = map redact_pair (fu_params u);
          v = rl_set_search L u (if pairs = [] then [] else ''?'' @ join_with ''&'' pairs);
          w = (if sensitive_hash (fu_hash v) then v\<lparr>fu_hash := ''#REDACTED''\<rparr> else v)
      in rl_href L w)"

definition redactUrl :: "('a redact_lib_scheme) \<Rightarrow> string \<Rightarrow> string" where
  "redactUrl L url =
     (case ul_parse L url of None \<Rightarrow> redactString url 200 | Some u \<Rightarrow> redact_parsed L u)"

text \<open>A header map: an absent value, one text, or several joined with a comma.\<close>

datatype header_value = HAbsent | HOne string | HMany "string list"

definition sensitive_header :: "string \<Rightarrow> bool" where
  "sensitive_header k \<longleftrightarrow> to_lower k \<in> set SENSITIVE_HEADER_KEYS \<or>
     rx_test (any_of_ci [''token'', ''auth'', ''key'', ''secret'', ''cookie'']) k"

definition header_text :: "header_value \<Rightarrow> string option" where
  "header_text v = (case v of HAbsent \<Rightarrow> None | HOne s \<Rightarrow> Some s | HMany ss \<Rightarrow> Some (join_with '', '' ss))"

definition redact_header :: "string \<times> header_value \<Rightarrow> (string \<times> string) option" where
  "redact_header e =
     map_option (\<lambda>v. (fst e, if sensitive_header (fst e) then ''[REDACTED]'' else redactString v 120))
       (header_text (snd e))"

definition redactHeaders :: "(string \<times> header_value) list option \<Rightarrow> (string \<times> string) list" where
  "redactHeaders hs = List.map_filter redact_header (or_else hs [])"

subsection \<open>Values\<close>

definition sensitive_field :: "string \<Rightarrow> bool" where
  "sensitive_field k \<longleftrightarrow> to_lower k \<in> set SENSITIVE_QUERY_KEYS \<or> to_lower k \<in> set SENSITIVE_HEADER_KEYS \<or>
     rx_test (any_of_ci [''password'', ''secret'', ''apikey'', ''api_key'', ''token'', ''authkey'',
       ''authorization'', ''cookie'']) k"

definition drop_scheme :: "string \<Rightarrow> string" where
  "drop_scheme s = rx_replace1 http_prefix [] s"

definition drop_last_slash :: "string \<Rightarrow> string" where
  "drop_last_slash s = (if ends_with s ''/'' then butlast s else s)"

definition redact_text :: "('a redact_lib_scheme) \<Rightarrow> string \<Rightarrow> string" where
  "redact_text L s = (if rx_test http_prefix s then redactUrl L s else redactString s 500)"

definition redact_host :: "('a redact_lib_scheme) \<Rightarrow> string \<Rightarrow> string" where
  "redact_host L v =
     drop_last_slash (drop_scheme (redactUrl L (if str_includes v ''://'' then v else ''http://'' @ v)))"

definition hidden_value :: "json \<Rightarrow> json" where
  "hidden_value v = (if v = JNull \<or> v = JStr [] then v else JStr ''[REDACTED]'')"

fun redactValue :: "('a redact_lib_scheme) \<Rightarrow> nat \<Rightarrow> json \<Rightarrow> json" where
  "redactValue L depth v =
     (if 6 < depth then JStr ''[MAX_DEPTH]''
      else case v of
        JNull \<Rightarrow> JNull
      | JStr s \<Rightarrow> JStr (redact_text L s)
      | JNum n \<Rightarrow> JNum n
      | JBool b \<Rightarrow> JBool b
      | JArr xs \<Rightarrow> JArr (map (redactValue L (depth + 1)) xs)
      | JObj fs \<Rightarrow> JObj (map (\<lambda>(k, x).
          (k, if sensitive_field k then hidden_value x
              else case x of
                JStr s \<Rightarrow>
                  if str_includes (to_lower k) ''url'' then JStr (redactUrl L s)
                  else if str_includes (to_lower k) ''host'' then JStr (redact_host L s)
                  else redactValue L (depth + 1) x
              | _ \<Rightarrow> redactValue L (depth + 1) x)) fs))"

declare redactValue.simps [simp del]

definition maskSecret :: "string option \<Rightarrow> string" where
  "maskSecret secret =
     (case secret of
        None \<Rightarrow> []
      | Some s \<Rightarrow>
          if s = [] then []
          else if length s \<le> 4 then ''****''
          else if length s \<le> 8 then replicate (length s - 2) CHR ''*'' @ drop (length s - 2) s
          else ''****'' @ ellipsis @ drop (length s - 4) s)"


subsection \<open>What the log can tell\<close>

text \<open>The value without its secrets: each non-empty value under a sensitive field is forgotten.\<close>

definition is_secret :: "json \<Rightarrow> bool" where
  "is_secret v \<longleftrightarrow> v \<noteq> JNull \<and> v \<noteq> JStr []"

fun erase_secrets :: "json \<Rightarrow> json" where
  "erase_secrets (JArr xs) = JArr (map erase_secrets xs)"
| "erase_secrets (JObj fs) = JObj (map (\<lambda>(k, x).
     (k, if sensitive_field k \<and> is_secret x then JStr ''secret'' else erase_secrets x)) fs)"
| "erase_secrets v = v"

lemma hidden_value_secret: "is_secret x \<Longrightarrow> hidden_value x = hidden_value (JStr ''secret'')"
  by (simp add: is_secret_def hidden_value_def)

lemma erase_open: "\<not> is_secret x \<Longrightarrow> erase_secrets x = x"
  by (auto simp: is_secret_def)

lemma erase_JStr: "erase_secrets x = JStr s \<longleftrightarrow> x = JStr s"
  by (cases x) auto

definition redact_entry :: "('a redact_lib_scheme) \<Rightarrow> nat \<Rightarrow> string \<times> json \<Rightarrow> string \<times> json" where
  "redact_entry L depth e =
     (fst e, if sensitive_field (fst e) then hidden_value (snd e)
        else case snd e of
          JStr s \<Rightarrow>
            if str_includes (to_lower (fst e)) ''url'' then JStr (redactUrl L s)
            else if str_includes (to_lower (fst e)) ''host'' then JStr (redact_host L s)
            else redactValue L (depth + 1) (snd e)
        | _ \<Rightarrow> redactValue L (depth + 1) (snd e))"

lemma redactValue_shapes:
  "redactValue L d v =
     (if 6 < d then JStr ''[MAX_DEPTH]''
      else case v of
        JStr s \<Rightarrow> JStr (redact_text L s)
      | JArr xs \<Rightarrow> JArr (map (redactValue L (d + 1)) xs)
      | JObj fs \<Rightarrow> JObj (map (redact_entry L d) fs)
      | x \<Rightarrow> x)"
  by (subst redactValue.simps)
     (auto simp: redact_entry_def split: json.splits intro!: map_cong)

lemma redact_entry_erased:
  assumes "redactValue L (d + 1) (erase_secrets x) = redactValue L (d + 1) x"
  shows "redact_entry L d (k, if sensitive_field k \<and> is_secret x then JStr ''secret'' else erase_secrets x)
    = redact_entry L d (k, x)"
proof (cases "sensitive_field k")
  case True
  then show ?thesis
    using hidden_value_secret [of x] erase_open [of x] by (simp add: redact_entry_def)
next
  case False
  then show ?thesis
    using assms by (cases x) (simp_all add: redact_entry_def)
qed

lemma redact_erased: "redactValue L d (erase_secrets v) = redactValue L d v"
proof (induction v arbitrary: d)
  case (JArr xs)
  then show ?case by (simp add: redactValue_shapes [of L d])
next
  case (JObj fs)
  have "redact_entry L d (case e of (k, x) \<Rightarrow>
      (k, if sensitive_field k \<and> is_secret x then JStr ''secret'' else erase_secrets x)) = redact_entry L d e"
    if "e \<in> set fs" for e
    using redact_entry_erased [of L d "snd e" "fst e"] JObj [of e "snd e"] that
    by (cases e) auto
  then show ?case by (simp add: redactValue_shapes [of L d])
qed simp_all

text \<open>
  C11. The redacted form of a value depends on nothing secret in it: two values that differ only
  in non-empty values under sensitive fields, at any depth, are logged as the same text.
\<close>

theorem redaction_hides_secrets:
  assumes "erase_secrets v = erase_secrets w"
  shows "redactValue L d v = redactValue L d w"
  using redact_erased [of L d v] redact_erased [of L d w] assms by simp

definition plain_lib :: redact_lib where
  "plain_lib = \<lparr>ul_parse = (\<lambda>s. None), ul_query = (\<lambda>ps. []), ul_collate = (\<lambda>s. 0),
     rl_set_search = (\<lambda>u q. u\<lparr>fu_search := q, fu_params := []\<rparr>),
     rl_href = (\<lambda>u. url_origin u @ fu_pathname u @ fu_search u @ fu_hash u)\<rparr>"

definition login_body :: "string \<Rightarrow> json" where
  "login_body pw = JObj [(''user'', JStr ''ann''), (''auth'', JObj [(''Password'', JStr pw)])]"

theorem redaction_hides_secrets_witness:
  "redactValue plain_lib 0 (login_body ''hunter2'') = redactValue plain_lib 0 (login_body ''swordfish'')"
proof (rule redaction_hides_secrets)
  show "erase_secrets (login_body ''hunter2'') = erase_secrets (login_body ''swordfish'')"
    by code_simp
qed

subsection \<open>URLs\<close>

text \<open>
  Two URLs alike in public: everything but the credentials, the text of the query and the values
  of its sensitive parameters. The documented behaviour of the setter of \<open>search\<close>: the new query
  replaces the old one and its parameters.
\<close>

definition url_alike :: "full_url \<Rightarrow> full_url \<Rightarrow> bool" where
  "url_alike u v \<longleftrightarrow>
     u\<lparr>pu_username := [], pu_password := [], fu_search := [], fu_params := []\<rparr> =
     v\<lparr>pu_username := [], pu_password := [], fu_search := [], fu_params := []\<rparr> \<and>
     list_all2 (\<lambda>a b. fst a = fst b \<and> (sensitive_param (fst a) \<or> snd a = snd b)) (fu_params u) (fu_params v)"

definition search_replaces :: "('a redact_lib_scheme) \<Rightarrow> bool" where
  "search_replaces L \<longleftrightarrow>
     (\<forall>u q s ps. rl_set_search L (u\<lparr>fu_search := s, fu_params := ps\<rparr>) q = rl_set_search L u q)"

lemma redact_pairs_alike:
  "list_all2 (\<lambda>a b. fst a = fst b \<and> (sensitive_param (fst a) \<or> snd a = snd b)) ps qs \<Longrightarrow>
     map redact_pair ps = map redact_pair qs"
  by (induction rule: list_all2_induct) (auto simp: redact_pair_def)

text \<open>
  The redacted form of a URL tells nothing of its user name, its password or the values of its
  sensitive query parameters: URLs that differ only there are shown as the same text.
\<close>

lemma redacted_urls_alike:
  assumes "search_replaces L" "ul_parse L a = Some u" "ul_parse L b = Some v" "url_alike u v"
  shows "redactUrl L a = redactUrl L b"
proof -
  let ?wipe = "\<lambda>u::full_url. u\<lparr>pu_username := [], pu_password := [], fu_search := [], fu_params := []\<rparr>"
  have pairs: "map redact_pair (fu_params (u\<lparr>pu_username := [], pu_password := []\<rparr>)) =
      map redact_pair (fu_params (v\<lparr>pu_username := [], pu_password := []\<rparr>))"
    using assms(4) redact_pairs_alike by (simp add: url_alike_def)
  have set: "rl_set_search L (x\<lparr>pu_username := [], pu_password := []\<rparr>) q = rl_set_search L (?wipe x) q" for x q
    using assms(1) [unfolded search_replaces_def, rule_format, of "[]" "[]" "x\<lparr>pu_username := [], pu_password := []\<rparr>" q]
    by simp
  have "?wipe u = ?wipe v"
    using assms(4) by (simp add: url_alike_def)
  then have "redact_parsed L u = redact_parsed L v"
    unfolding redact_parsed_def Let_def pairs set by (simp only:)
  then show ?thesis
    using assms(2,3) by (simp add: redactUrl_def)
qed

definition media_url :: "string \<Rightarrow> string \<Rightarrow> full_url" where
  "media_url user tok = \<lparr>pu_protocol = ''https:'', pu_username = user, pu_password = [],
     pu_hostname = ''h'', pu_port = [], fu_pathname = ''/m'', fu_search = ''?token='' @ tok @ ''&q=1'', fu_hash = [],
     fu_params = [(''token'', tok), (''q'', ''1'')]\<rparr>"

definition two_urls :: redact_lib where
  "two_urls = plain_lib\<lparr>ul_parse := (\<lambda>s. Some (if s = ''a'' then media_url ''ann'' ''t1'' else media_url [] ''t22''))\<rparr>"

theorem redacted_urls_alike_witness:
  "redactUrl two_urls ''a'' = redactUrl two_urls ''b'' \<and> redactUrl two_urls ''a'' = ''https://h/m?token=REDACTED&q=1''"
proof
  show "redactUrl two_urls ''a'' = redactUrl two_urls ''b''"
  proof (rule redacted_urls_alike)
    show "search_replaces two_urls"
      by (simp add: search_replaces_def two_urls_def plain_lib_def)
    show "ul_parse two_urls ''a'' = Some (media_url ''ann'' ''t1'')"
      and "ul_parse two_urls ''b'' = Some (media_url [] ''t22'')"
      by (simp_all add: two_urls_def)
    show "url_alike (media_url ''ann'' ''t1'') (media_url [] ''t22'')"
      by (simp add: url_alike_def media_url_def sensitive_param_def SENSITIVE_QUERY_KEYS_def) code_simp
  qed
  show "redactUrl two_urls ''a'' = ''https://h/m?token=REDACTED&q=1''"
    by code_simp
qed

subsection \<open>Texts\<close>

lemma redactString_bounded: "length (redactString v n) \<le> n + 1"
  by (simp add: redactString_def Let_def ellipsis_def)

text \<open>A mask tells the length class and at most four characters of a secret.\<close>

lemma mask_tells_suffix_only:
  assumes "8 < length s" "8 < length t" "drop (length s - 4) s = drop (length t - 4) t"
  shows "maskSecret (Some s) = maskSecret (Some t)"
  using assms by (auto simp: maskSecret_def)

text \<open>
  A short \<open>authKey\<close> pair is matched by the second pattern and then kept: the word is missing
  from the list that is consulted for matches below 24 characters.
\<close>

lemma short_authKey_kept: "redactString ''authKey=abc12345'' 500 = ''authKey=abc12345''"
  by code_simp

text \<open>The replacement of embedded credentials doubles the colon of the scheme.\<close>

lemma userinfo_doubles_colon:
  "rx_replace_all rx_userinfo ''://[REDACTED]@'' ''http://a:p@h'' = ''http:://[REDACTED]@h''"
  by code_simp

text \<open>A 32-digit hexadecimal key, the shape of a TMDB key, passes as a trace id.\<close>

lemma hex_key_kept:
  "redact_match ''0123456789abcdef0123456789abcdef'' = ''0123456789abcdef0123456789abcdef''"
  by code_simp

end
