(* ===== verification/Egress.thy ===== *)
theory Egress
  imports Redaction Reliability
begin

text \<open>
  Outbound requests: the routing of \<open>src/egress/scrapeFetch.ts\<close> and
  \<open>src/egress/globalDispatcher.ts\<close> (direct, through the egress proxy, or pinned to an
  address) and the redirect loop of \<open>src/security/secureFetch.ts\<close>, which validates every hop.
  \<open>env\<close> is \<open>process.env\<close>; the HTTP client of the runtime is an argument that answers a route.
  The dash of one error text is the character with code 151.
\<close>

type_synonym process_env = "string \<Rightarrow> string option"

subsection \<open>Settings of the proxy\<close>

definition env_words :: "string list \<Rightarrow> string \<Rightarrow> bool" where
  "env_words ws s \<longleftrightarrow> rx_test (whole (any_of_ci ws)) s"

definition envTruthy :: "process_env \<Rightarrow> string \<Rightarrow> bool \<Rightarrow> bool" where
  "envTruthy env name defaultValue =
     (case env name of
        None \<Rightarrow> defaultValue
      | Some raw \<Rightarrow> if raw = [] then defaultValue else env_words [''1'', ''true'', ''yes'', ''on''] (trim raw))"

definition env_text :: "process_env \<Rightarrow> string \<Rightarrow> string" where
  "env_text env name = (case env name of None \<Rightarrow> [] | Some v \<Rightarrow> trim v)"

definition getScrapeProxyUrl :: "process_env \<Rightarrow> string option" where
  "getScrapeProxyUrl env =
     (let url = (if env_text env ''SCRAPE_PROXY_URL'' \<noteq> [] then env_text env ''SCRAPE_PROXY_URL''
                 else env_text env ''PROXY_URL'')
      in if url = [] then None else Some url)"

datatype proxy_mode = ModeOff | ModeAllowlist | ModeAll

definition getScrapeProxyMode :: "process_env \<Rightarrow> proxy_mode" where
  "getScrapeProxyMode env =
     (let raw = to_lower (trim (or_else (env ''SCRAPE_PROXY_MODE'') ''all'')) in
      if raw \<in> {''off'', ''false'', ''0'', ''disabled''} then ModeOff
      else if raw = ''allowlist'' then ModeAllowlist else ModeAll)"

definition isScrapeProxyStreamEnabled :: "process_env \<Rightarrow> bool" where
  "isScrapeProxyStreamEnabled env = envTruthy env ''SCRAPE_PROXY_STREAM'' True"

definition DEFAULT_DIRECT_SUFFIXES :: "string list" where
  "DEFAULT_DIRECT_SUFFIXES =
     [''api.themoviedb.org'', ''image.tmdb.org'', ''themoviedb.org'', ''api.strem.io'', ''strem.io'',
      ''localhost'', ''127.0.0.1'']"

definition parseSuffixes :: "process_env \<Rightarrow> string \<Rightarrow> string list \<Rightarrow> string list" where
  "parseSuffixes env name defaults =
     (let raw = env_text env name;
          extra = (if raw = [] then []
                   else filter (\<lambda>s. s \<noteq> []) (map (\<lambda>s. to_lower (trim s)) (split_on CHR '','' raw)))
      in uniq (defaults @ extra))"

definition hostMatchesSuffix :: "string \<Rightarrow> string \<Rightarrow> bool" where
  "hostMatchesSuffix hostname suffix =
     (let h = to_lower hostname;
          l = to_lower suffix;
          s = (if starts_with l ''.'' then drop 1 l else l)
      in h = s \<or> ends_with h (''.'' @ s))"

definition isDirectHost :: "process_env \<Rightarrow> string \<Rightarrow> bool" where
  "isDirectHost env hostname =
     list_ex (hostMatchesSuffix hostname) (parseSuffixes env ''SCRAPE_PROXY_DIRECT_HOSTS'' DEFAULT_DIRECT_SUFFIXES)"

definition shouldProxyHost :: "process_env \<Rightarrow> string \<Rightarrow> bool" where
  "shouldProxyHost env hostname =
     (if getScrapeProxyMode env = ModeOff \<or> getScrapeProxyUrl env = None then False
      else if isDirectHost env hostname then False
      else if getScrapeProxyMode env = ModeAll then True
      else list_ex (hostMatchesSuffix hostname) (parseSuffixes env ''SCRAPE_PROXY_HOSTS'' []))"

datatype via_proxy = ViaAuto | ViaAlways | ViaNever

definition shouldProxyUrl :: "process_env \<Rightarrow> (string \<Rightarrow> parsed_url option) \<Rightarrow> string \<Rightarrow> via_proxy \<Rightarrow> bool" where
  "shouldProxyUrl env parse url via =
     (if via = ViaNever then False
      else if getScrapeProxyUrl env = None \<or> getScrapeProxyMode env = ModeOff then False
      else case parse url of
        None \<Rightarrow> False
      | Some u \<Rightarrow>
          if pu_protocol u \<noteq> ''http:'' \<and> pu_protocol u \<noteq> ''https:'' then False
          else if via = ViaAlways then \<not> isDirectHost env (pu_hostname u)
          else shouldProxyHost env (pu_hostname u))"

text \<open>The cached agent: not built yet, none, or a proxy agent. \<open>builds\<close> tells whether the constructor succeeds.\<close>

datatype agent_cache = AgentUnset | AgentNone | AgentFor string

definition getAgent :: "process_env \<Rightarrow> (string \<Rightarrow> bool) \<Rightarrow> agent_cache \<Rightarrow> agent_cache" where
  "getAgent env builds agent =
     (if agent \<noteq> AgentUnset then agent
      else case getScrapeProxyUrl env of
        None \<Rightarrow> AgentNone
      | Some url \<Rightarrow>
          if getScrapeProxyMode env = ModeOff then AgentNone
          else if builds url then AgentFor url else AgentNone)"

definition resetScrapeProxyAgent :: "agent_cache \<Rightarrow> agent_cache" where
  "resetScrapeProxyAgent agent = AgentUnset"

definition closeEgress :: "agent_cache \<Rightarrow> agent_cache" where
  "closeEgress agent = (case agent of AgentFor url \<Rightarrow> AgentNone | a \<Rightarrow> a)"

record proxy_status =
  ps_enabled :: bool
  ps_mode :: proxy_mode
  ps_stream :: bool
  ps_proxyDisplay :: "string option"

definition getScrapeProxyStatus :: "process_env \<Rightarrow> (string \<Rightarrow> full_url option) \<Rightarrow> proxy_status" where
  "getScrapeProxyStatus env parse =
     \<lparr>ps_enabled = (getScrapeProxyUrl env \<noteq> None \<and> getScrapeProxyMode env \<noteq> ModeOff),
      ps_mode = getScrapeProxyMode env, ps_stream = isScrapeProxyStreamEnabled env,
      ps_proxyDisplay = map_option (\<lambda>url.
        case parse url of
          None \<Rightarrow> ''(invalid PROXY_URL)''
        | Some u \<Rightarrow> pu_protocol u @ ''//'' @ (if pu_username u = [] then [] else pu_username u @ ''@'') @ url_host u)
        (getScrapeProxyUrl env)\<rparr>"

subsection \<open>One request\<close>

definition add_header :: "string \<times> string option \<Rightarrow> (string \<times> string) list \<Rightarrow> (string \<times> string) list" where
  "add_header e m = (case snd e of Some s \<Rightarrow> jm_set (fst e) s m | None \<Rightarrow> m)"

text \<open>Header values that are no strings are dropped; the body encoding is left to the client.\<close>

definition normalizeHeaders ::
  "(string \<times> string option) list option \<Rightarrow> (string \<times> string) option \<Rightarrow> (string \<times> string) list option" where
  "normalizeHeaders headers trace =
     (if headers = None \<and> trace = None then None
      else
        (let out = fold add_header (or_else headers []) [];
             out' = jm_delete ''Accept-Encoding'' (jm_delete ''accept-encoding'' out)
         in Some (case trace of None \<Rightarrow> out' | Some (k, v) \<Rightarrow> jm_set k v out')))"

text \<open>A thrown value: what \<open>classifyError\<close> sees, and its message followed by those of its causes.\<close>

record thrown =
  th_error :: "js_error option"
  th_chain :: "string list"

definition error_with :: "string option \<Rightarrow> string \<Rightarrow> thrown" where
  "error_with name msg =
     \<lparr>th_error = Some \<lparr>je_name = name, je_code = None, je_message = Some msg, je_status = None\<rparr>, th_chain = [msg]\<rparr>"

definition wrapProxyError :: "thrown \<Rightarrow> string \<Rightarrow> thrown" where
  "wrapProxyError err url =
     (let joined = join_with '' | '' (take 6 (th_chain err)) in
      if rx_test (any_of_ci [''407'', ''Proxy Authentication'']) joined
      then error_with (Some ''Error'') (''egress proxy auth failed (HTTP 407) for '' @ url @
             '' '' @ [CHR 0x97] @ '' check PROXY_URL credentials'')
      else if th_error err \<noteq> None then err
      else error_with (Some ''Error'') (''egress proxy error for '' @ url @ '': '' @ joined))"

record http_response =
  rs_status :: int
  rs_headers :: "(string \<times> string) list"
  rs_body :: "string list option"

definition response_ok :: "http_response \<Rightarrow> bool" where
  "response_ok r \<longleftrightarrow> 200 \<le> rs_status r \<and> rs_status r < 300"

datatype route = PinnedTo string | ThroughProxy string | GlobalFetch

type_synonym transport = "route \<Rightarrow> thrown + http_response"

text \<open>
  \<open>getAgent\<close> fills the cache once and answers the same from then on, so \<open>doFetch\<close> reads it without
  returning it. The timer \<open>doFetch\<close> arms: none when the caller passed a signal.
\<close>

definition armed_timer :: "bool \<Rightarrow> int option \<Rightarrow> int option" where
  "armed_timer signal timeoutMs =
     (case timeoutMs of None \<Rightarrow> None | Some t \<Rightarrow> if \<not> signal \<and> 0 < t then Some t else None)"

definition allow_fallback :: "process_env \<Rightarrow> bool" where
  "allow_fallback env \<longleftrightarrow>
     \<not> env_words [''0'', ''false'', ''off'', ''no''] (trim (or_else (env ''SCRAPE_PROXY_FALLBACK_DIRECT'') ''true''))"

definition doFetch ::
  "process_env \<Rightarrow> (string \<Rightarrow> parsed_url option) \<Rightarrow> (string \<Rightarrow> bool) \<Rightarrow> agent_cache \<Rightarrow> string \<Rightarrow> via_proxy \<Rightarrow>
     string option \<Rightarrow> transport \<Rightarrow> route list \<times> (thrown + http_response)" where
  "doFetch env parse builds agent url via pinnedIp net =
     (case pinnedIp of
        Some ip \<Rightarrow> ([PinnedTo ip], net (PinnedTo ip))
      | None \<Rightarrow>
          (case (if shouldProxyUrl env parse url via then getAgent env builds agent else AgentNone) of
             AgentFor p \<Rightarrow>
               (case net (ThroughProxy p) of
                  Inr res \<Rightarrow> ([ThroughProxy p], Inr res)
                | Inl err \<Rightarrow>
                    if via = ViaAlways \<or> \<not> allow_fallback env
                    then ([ThroughProxy p], Inl (wrapProxyError err url))
                    else ([ThroughProxy p, GlobalFetch], net GlobalFetch))
           | _ \<Rightarrow> ([GlobalFetch], net GlobalFetch)))"

text \<open>The host whose slot \<open>scrapeFetch\<close> takes; an unparsable URL is fetched without one.\<close>

definition scrape_slot :: "(string \<Rightarrow> parsed_url option) \<Rightarrow> string \<Rightarrow> string option" where
  "scrape_slot parse url =
     (case parse url of None \<Rightarrow> None
      | Some u \<Rightarrow> if pu_hostname u = ''unknown'' then None else Some (pu_hostname u))"

text \<open>\<open>scrapeFetchJson\<close>: null on any failure.\<close>

definition scrapeFetchJson :: "(string \<Rightarrow> json option) \<Rightarrow> thrown + http_response \<Rightarrow> json option" where
  "scrapeFetchJson parse_json res =
     (case res of
        Inl e \<Rightarrow> None
      | Inr r \<Rightarrow> if response_ok r then parse_json (concat (or_else (rs_body r) [])) else None)"

subsection \<open>The global dispatcher\<close>

datatype dispatch_target = ToProxy | ToDirect

text \<open>\<open>origin_host\<close> is the host of the request's origin, empty when it does not parse.\<close>

definition dispatch :: "process_env \<Rightarrow> string \<Rightarrow> dispatch_target" where
  "dispatch env origin_host =
     (if origin_host \<noteq> [] \<and> shouldProxyHost env origin_host then ToProxy else ToDirect)"

definition installStreamEgress :: "process_env \<Rightarrow> (string \<Rightarrow> bool) \<Rightarrow> bool \<Rightarrow> bool" where
  "installStreamEgress env builds installed =
     (if installed then True
      else case getScrapeProxyUrl env of
        None \<Rightarrow> False
      | Some url \<Rightarrow> isScrapeProxyStreamEnabled env \<and> builds url)"

text \<open>Where the runtime's own \<open>fetch\<close> ends: it uses the installed dispatcher.\<close>

definition global_fetch_target :: "process_env \<Rightarrow> bool \<Rightarrow> string \<Rightarrow> dispatch_target" where
  "global_fetch_target env installed host = (if installed then dispatch env host else ToDirect)"


subsection \<open>The redirect loop\<close>

definition HOP_BY_HOP :: "string list" where
  "HOP_BY_HOP =
     [''connection'', ''keep-alive'', ''proxy-authenticate'', ''proxy-authorization'', ''te'', ''trailers'',
      ''transfer-encoding'', ''upgrade'', ''host'', ''content-length'']"

definition header_forwarded :: "string \<Rightarrow> bool" where
  "header_forwarded k \<longleftrightarrow>
     (let l = to_lower k in
      l \<notin> set HOP_BY_HOP \<and> l \<noteq> ''cookie'' \<and> l \<noteq> ''authorization'' \<and>
      \<not> starts_with l ''x-forwarded-'' \<and> l \<noteq> ''forwarded'')"

definition sanitizeOutboundHeaders :: "(string \<times> string) list option \<Rightarrow> (string \<times> string) list" where
  "sanitizeOutboundHeaders headers = filter (\<lambda>(k, v). header_forwarded k) (or_else headers [])"

datatype secure_code =
    STimeout | SBadRedirect | STooManyRedirects | SBadContentType | SBodyTooLarge | SHttpError | SBadJson

text \<open>What the loop throws: a policy error, its own error, or an error of the client or the URL parser.\<close>

datatype secure_error =
    PolicyRefused url_policy_error
  | SecureFetchError secure_code string "int option"
  | TransportFailed thrown
  | BadLocation

record secure_options =
  sf_timeoutMs :: "int option"
  sf_maxRedirects :: "nat option"
  sf_maxBytes :: "nat option"
  sf_acceptContentTypes :: "string list option"
  sf_policy :: url_options
  sf_headers :: "(string \<times> string) list option"
  sf_viaProxy :: "via_proxy option"
  sf_signal :: bool

text \<open>
  The surroundings of a call, hop by hop: the clock at the head of the loop, DNS, the client. The
  URL library: \<open>ev_href\<close> is \<open>toString\<close>, \<open>ev_resolve\<close> the parser with a base, \<open>ev_number\<close> the
  finite value of \<open>Number\<close>, \<open>ev_show\<close> its text.
\<close>

record fetch_env =
  ev_lib :: redact_lib
  ev_env :: process_env
  ev_isProd :: bool
  ev_start :: time_ms
  ev_now :: "nat \<Rightarrow> time_ms"
  ev_lookup :: "nat \<Rightarrow> string \<Rightarrow> string list option"
  ev_net :: "nat \<Rightarrow> transport"
  ev_builds :: "string \<Rightarrow> bool"
  ev_agent :: agent_cache
  ev_href :: "parsed_url \<Rightarrow> string"
  ev_resolve :: "string \<Rightarrow> parsed_url \<Rightarrow> string option"
  ev_number :: "string \<Rightarrow> rat option"
  ev_show :: "rat \<Rightarrow> string"

definition ev_parse :: "fetch_env \<Rightarrow> string \<Rightarrow> parsed_url option" where
  "ev_parse E s = map_option parsed_url.truncate (ul_parse (ev_lib E) s)"

record fetch_request =
  fr_url :: string
  fr_host :: string
  fr_headers :: "(string \<times> string) list"
  fr_timeoutMs :: int
  fr_timer :: "int option"
  fr_routes :: "route list"

record secure_result =
  sr_status :: int
  sr_headers :: "(string \<times> string) list"
  sr_text :: string
  sr_finalUrl :: string
  sr_validated :: validated_url
  sr_bytesRead :: nat

text \<open>\<open>readBodyLimited\<close>, chunk by chunk; \<open>None\<close> when the limit is passed.\<close>

fun read_chunks :: "nat \<Rightarrow> nat \<Rightarrow> string list \<Rightarrow> string list \<Rightarrow> string option" where
  "read_chunks maxBytes len acc [] = Some (concat acc)"
| "read_chunks maxBytes len acc (c # cs) =
     (if maxBytes < len + length c then None
      else read_chunks maxBytes (len + length c) (acc @ [c]) cs)"

definition readBodyLimited :: "string list option \<Rightarrow> nat \<Rightarrow> string option" where
  "readBodyLimited body maxBytes = (case body of None \<Rightarrow> Some [] | Some cs \<Rightarrow> read_chunks maxBytes 0 [] cs)"

definition type_accepted :: "string list \<Rightarrow> http_response \<Rightarrow> bool" where
  "type_accepted accept res \<longleftrightarrow>
     accept = [] \<or> \<not> response_ok res \<or>
     (let ct = to_lower (or_else (jm_get (rs_headers res) ''content-type'') []) in
      list_ex (\<lambda>a. str_includes ct (to_lower a)) accept)"

definition read_result ::
  "nat \<Rightarrow> string \<Rightarrow> validated_url \<Rightarrow> http_response \<Rightarrow> secure_error + secure_result" where
  "read_result maxBytes current v res =
     (case readBodyLimited (rs_body res) maxBytes of
        None \<Rightarrow> Inl (SecureFetchError SBodyTooLarge
                  (''Response body exceeded '' @ show_nat maxBytes @ '' bytes'') None)
      | Some txt \<Rightarrow> Inr \<lparr>sr_status = rs_status res, sr_headers = rs_headers res, sr_text = txt,
                         sr_finalUrl = current, sr_validated = v, sr_bytesRead = length txt\<rparr>)"

text \<open>The declared length; an empty header is none, and so is one that is no finite number.\<close>

definition declared_length :: "fetch_env \<Rightarrow> http_response \<Rightarrow> rat option" where
  "declared_length E res =
     (case or_else (jm_get (rs_headers res) ''content-length'') [] of [] \<Rightarrow> None | len \<Rightarrow> ev_number E len)"

text \<open>The part of the loop's body for an answer that is no redirect.\<close>

definition finish_fetch ::
  "fetch_env \<Rightarrow> secure_options \<Rightarrow> string \<Rightarrow> validated_url \<Rightarrow> http_response \<Rightarrow> secure_error + secure_result" where
  "finish_fetch E op current v res =
     (let maxBytes = or_else (sf_maxBytes op) 2097152;
          ct = to_lower (or_else (jm_get (rs_headers res) ''content-type'') [])
      in if \<not> type_accepted (or_else (sf_acceptContentTypes op) []) res
         then Inl (SecureFetchError SBadContentType (''Unexpected content-type '' @ [CHR 0x27] @
                (if ct = [] then ''unknown'' else ct) @ [CHR 0x27] @ '' from '' @ redactUrl (ev_lib E) current)
                (Some (rs_status res)))
         else case declared_length E res of
           Some n \<Rightarrow>
             if of_nat maxBytes < n
             then Inl (SecureFetchError SBodyTooLarge (''Response Content-Length '' @ ev_show E n @
                    '' exceeds limit '' @ show_nat maxBytes) (Some (rs_status res)))
             else read_result maxBytes current v res
         | None \<Rightarrow> read_result maxBytes current v res)"

text \<open>The address the connection is pinned to: none for a literal address or without addresses.\<close>

definition pinned_to :: "validated_url \<Rightarrow> string option" where
  "pinned_to v =
     (case vu_pinnedAddress v of
        Some a \<Rightarrow> if a \<noteq> [] \<and> a \<noteq> vu_hostname v then Some a else None
      | None \<Rightarrow> None)"

definition send_request ::
  "fetch_env \<Rightarrow> secure_options \<Rightarrow> nat \<Rightarrow> int \<Rightarrow> validated_url \<Rightarrow> fetch_request \<times> (thrown + http_response)" where
  "send_request E op hop remaining v =
     (let url = ev_href E (vu_url v);
          headers = sanitizeOutboundHeaders (sf_headers op);
          sent = map (\<lambda>(k, x). (k, Some x)) headers;
          (routes, res) = doFetch (ev_env E) (ev_parse E) (ev_builds E) (ev_agent E) url
            (or_else (sf_viaProxy op) ViaAuto) (pinned_to v) (ev_net E hop)
      in (\<lparr>fr_url = url, fr_host = vu_hostname v, fr_headers = or_else (normalizeHeaders (Some sent) None) [],
           fr_timeoutMs = remaining, fr_timer = armed_timer (sf_signal op) (Some remaining),
           fr_routes = routes\<rparr>, res))"

function secure_loop ::
  "fetch_env \<Rightarrow> secure_options \<Rightarrow> string \<Rightarrow> nat \<Rightarrow> string \<Rightarrow> fetch_request list \<times> (secure_error + secure_result)" where
  "secure_loop E op raw redirects current =
     (let remaining = ev_start E + or_else (sf_timeoutMs op) 15000 - ev_now E redirects;
          maxRedirects = or_else (sf_maxRedirects op) 3
      in if remaining \<le> 0
         then ([], Inl (SecureFetchError STimeout (''Request timed out for '' @ redactUrl (ev_lib E) raw) None))
         else case validateOutboundUrl (ev_parse E) (ev_lookup E redirects) (ev_isProd E) current (sf_policy op) of
           Inl e \<Rightarrow> ([], Inl (PolicyRefused e))
         | Inr v \<Rightarrow>
             (case send_request E op redirects remaining v of
                (req, Inl err) \<Rightarrow> ([req], Inl (TransportFailed err))
              | (req, Inr res) \<Rightarrow>
                  if 300 \<le> rs_status res \<and> rs_status res < 400 then
                    (case or_else (jm_get (rs_headers res) ''location'') [] of
                       [] \<Rightarrow> ([req], Inl (SecureFetchError SBadRedirect
                               (''Redirect without Location from '' @ redactUrl (ev_lib E) current)
                               (Some (rs_status res))))
                     | location \<Rightarrow>
                         if maxRedirects < redirects + 1
                         then ([req], Inl (SecureFetchError STooManyRedirects
                                (''Exceeded '' @ show_nat maxRedirects @ '' redirects starting from '' @
                                 redactUrl (ev_lib E) raw) None))
                         else (case ev_resolve E location (vu_url v) of
                                 None \<Rightarrow> ([req], Inl BadLocation)
                               | Some next_url \<Rightarrow>
                                   (case secure_loop E op raw (redirects + 1) next_url of
                                      (reqs, r) \<Rightarrow> (req # reqs, r))))
                  else ([req], finish_fetch E op current v res)))"
  by pat_completeness auto
termination
  by (relation "measure (\<lambda>(E, op, raw, redirects, current). or_else (sf_maxRedirects op) 3 - redirects)") auto

declare secure_loop.simps [simp del]

definition secureFetch ::
  "fetch_env \<Rightarrow> secure_options \<Rightarrow> string \<Rightarrow> fetch_request list \<times> (secure_error + secure_result)" where
  "secureFetch E op raw = secure_loop E op raw 0 raw"

definition json_options :: "secure_options \<Rightarrow> secure_options" where
  "json_options op =
     op\<lparr>sf_headers := Some (fold (\<lambda>(k, v) m. jm_set k v m) (or_else (sf_headers op) []) [(''Accept'', ''application/json'')]),
        sf_acceptContentTypes := Some (or_else (sf_acceptContentTypes op) [''json'', ''text/plain'', ''javascript''])\<rparr>"

definition secureFetchJson ::
  "fetch_env \<Rightarrow> (string \<Rightarrow> json option) \<Rightarrow> secure_options \<Rightarrow> string \<Rightarrow>
     fetch_request list \<times> (secure_error + (json \<times> string \<times> nat))" where
  "secureFetchJson E parse_json op raw =
     (case secureFetch E (json_options op) raw of
        (reqs, Inl e) \<Rightarrow> (reqs, Inl e)
      | (reqs, Inr r) \<Rightarrow>
          (reqs,
           if \<not> (200 \<le> sr_status r \<and> sr_status r < 300)
           then Inl (SecureFetchError SHttpError (''HTTP '' @ show_int (sr_status r) @ '' for '' @
                  redactUrl (ev_lib E) (sr_finalUrl r)) (Some (sr_status r)))
           else case parse_json (sr_text r) of
             None \<Rightarrow> Inl (SecureFetchError SBadJson (''Response from '' @ redactUrl (ev_lib E) (sr_finalUrl r) @
                      '' is not valid JSON'') None)
           | Some j \<Rightarrow> Inr (j, sr_finalUrl r, sr_bytesRead r)))"

definition isPolicyOrSecureError :: "secure_error \<Rightarrow> bool" where
  "isPolicyOrSecureError e = (case e of PolicyRefused c \<Rightarrow> True | SecureFetchError c m s \<Rightarrow> True | _ \<Rightarrow> False)"


subsection \<open>Every hop is checked\<close>

lemma read_chunks_bounded:
  "read_chunks n len acc cs = Some t \<Longrightarrow> len = length (concat acc) \<Longrightarrow> len \<le> n \<Longrightarrow> length t \<le> n"
proof (induction cs arbitrary: len acc)
  case (Cons c cs)
  then show ?case
    using Cons.IH [of "len + length c" "acc @ [c]"] by (auto split: if_splits)
qed simp

lemma read_result_Inr:
  "read_result n current v res = Inr r \<Longrightarrow>
     sr_bytesRead r = length (sr_text r) \<and> length (sr_text r) \<le> n \<and> sr_validated r = v \<and> sr_finalUrl r = current"
  using read_chunks_bounded [of n 0 "[]"]
  by (auto simp: read_result_def readBodyLimited_def split: option.splits)

lemma finish_fetch_Inr:
  "finish_fetch E op current v res = Inr r \<Longrightarrow>
     sr_bytesRead r = length (sr_text r) \<and> length (sr_text r) \<le> or_else (sf_maxBytes op) 2097152 \<and>
     sr_validated r = v \<and> sr_finalUrl r = current"
  by (auto simp: finish_fetch_def Let_def split: if_splits option.splits dest: read_result_Inr)

text \<open>What the loop does with a URL: the checks of one hop, then the answer.\<close>

definition checked_request :: "fetch_env \<Rightarrow> secure_options \<Rightarrow> fetch_request \<Rightarrow> bool" where
  "checked_request E op rq \<longleftrightarrow>
     (\<exists>hop cur v. validateOutboundUrl (ev_parse E) (ev_lookup E hop) (ev_isProd E) cur (sf_policy op) = Inr v \<and>
        0 < ev_start E + or_else (sf_timeoutMs op) 15000 - ev_now E hop \<and>
        rq = fst (send_request E op hop (ev_start E + or_else (sf_timeoutMs op) 15000 - ev_now E hop) v))"

text \<open>One turn of the loop: it ends without a request, ends with one, or goes on to the next URL.\<close>

definition good_result :: "secure_options \<Rightarrow> secure_error + secure_result \<Rightarrow> bool" where
  "good_result op r = (case r of Inl e \<Rightarrow> True
     | Inr x \<Rightarrow> sr_bytesRead x = length (sr_text x) \<and> length (sr_text x) \<le> or_else (sf_maxBytes op) 2097152)"

lemma good_Inl [simp]: "good_result op (Inl e)"
  by (simp add: good_result_def)

lemma good_finish: "good_result op (finish_fetch E op current v res)"
  using finish_fetch_Inr by (auto simp: good_result_def split: sum.splits)

lemma secure_loop_turn:
  obtains (none) e where "secure_loop E op raw n current = ([], Inl e)"
  | (last) req r where "checked_request E op req" "good_result op r" "secure_loop E op raw n current = ([req], r)"
  | (more) req next_url reqs r where "checked_request E op req" "n < or_else (sf_maxRedirects op) 3"
      "secure_loop E op raw (n + 1) next_url = (reqs, r)" "secure_loop E op raw n current = (req # reqs, r)"
proof -
  let ?rem = "ev_start E + or_else (sf_timeoutMs op) 15000 - ev_now E n"
  let ?val = "validateOutboundUrl (ev_parse E) (ev_lookup E n) (ev_isProd E) current (sf_policy op)"
  show ?thesis
  proof (cases "?rem \<le> 0 \<or> (\<exists>e. ?val = Inl e)")
    case True
    then have "\<exists>e. secure_loop E op raw n current = ([], Inl e)"
      by (subst secure_loop.simps) (auto simp: Let_def)
    then show ?thesis using none by blast
  next
    case False
    then obtain v where v: "?val = Inr v" and rem: "0 < ?rem"
      by (cases ?val) auto
    obtain req res where send: "send_request E op n ?rem v = (req, res)"
      by (metis surj_pair)
    have req: "checked_request E op req"
      unfolding checked_request_def using v rem send by (metis fst_conv)
    have loop: "secure_loop E op raw n current =
       (case res of
          Inl err \<Rightarrow> ([req], Inl (TransportFailed err))
        | Inr res \<Rightarrow>
            if 300 \<le> rs_status res \<and> rs_status res < 400 then
              (case or_else (jm_get (rs_headers res) ''location'') [] of
                 [] \<Rightarrow> ([req], Inl (SecureFetchError SBadRedirect
                         (''Redirect without Location from '' @ redactUrl (ev_lib E) current)
                         (Some (rs_status res))))
               | location \<Rightarrow>
                   if or_else (sf_maxRedirects op) 3 < n + 1
                   then ([req], Inl (SecureFetchError STooManyRedirects
                          (''Exceeded '' @ show_nat (or_else (sf_maxRedirects op) 3) @ '' redirects starting from '' @
                           redactUrl (ev_lib E) raw) None))
                   else (case ev_resolve E location (vu_url v) of
                           None \<Rightarrow> ([req], Inl BadLocation)
                         | Some next_url \<Rightarrow>
                             (case secure_loop E op raw (n + 1) next_url of (reqs, r) \<Rightarrow> (req # reqs, r))))
            else ([req], finish_fetch E op current v res))"
      using v rem send by (subst secure_loop.simps) (simp add: Let_def)
    show ?thesis
    proof (cases res)
      case (Inl err)
      then show ?thesis using loop last [OF req good_Inl] by simp
    next
      case (Inr x)
      show ?thesis
      proof (cases "300 \<le> rs_status x \<and> rs_status x < 400")
        case False
        with loop Inr have "secure_loop E op raw n current = ([req], finish_fetch E op current v x)"
          by auto
        then show ?thesis by (rule last [OF req good_finish])
      next
        case True
        show ?thesis
        proof (cases "or_else (jm_get (rs_headers x) ''location'') []")
          case Nil
          then show ?thesis using loop Inr True last [OF req good_Inl] by simp
        next
          case (Cons c l)
          show ?thesis
          proof (cases "or_else (sf_maxRedirects op) 3 < n + 1 \<or> ev_resolve E (c # l) (vu_url v) = None")
            case True
            then have "\<exists>e. secure_loop E op raw n current = ([req], Inl e)"
              using loop Inr Cons \<open>300 \<le> rs_status x \<and> rs_status x < 400\<close> by auto
            then show ?thesis using last [OF req good_Inl] by blast
          next
            case False
            then obtain u where u: "ev_resolve E (c # l) (vu_url v) = Some u"
              by auto
            obtain reqs r where rest: "secure_loop E op raw (n + 1) u = (reqs, r)"
              by (metis surj_pair)
            show ?thesis
              using more [OF req _ rest] loop Inr Cons True False u rest by simp
          qed
        qed
      qed
    qed
  qed
qed

lemma secure_loop_checked:
  "secure_loop E op raw n current = (reqs, r) \<Longrightarrow>
     list_all (checked_request E op) reqs \<and> good_result op r \<and>
     length reqs \<le> or_else (sf_maxRedirects op) 3 - n + 1"
proof (induction "or_else (sf_maxRedirects op) 3 - n" arbitrary: n current reqs r rule: less_induct)
  case less
  show ?case
  proof (cases rule: secure_loop_turn [of E op raw n current])
    case (more req next_url reqs' r')
    then show ?thesis
      using less.hyps [of "n + 1" next_url reqs' r'] less.prems by (auto simp: Suc_diff_Suc)
  qed (use less.prems in \<open>auto simp: good_result_def\<close>)
qed

definition keys_ok :: "(string \<Rightarrow> bool) \<Rightarrow> (string \<times> 'a) list \<Rightarrow> bool" where
  "keys_ok P m \<longleftrightarrow> (\<forall>k \<in> fst ` set m. P k)"

lemma keys_ok_fold: "keys_ok P hs \<Longrightarrow> keys_ok P m \<Longrightarrow> keys_ok P (fold add_header hs m)"
proof (induction hs arbitrary: m)
  case (Cons e hs)
  have "keys_ok P (add_header e m)"
    using Cons.prems by (cases "snd e") (simp_all add: add_header_def keys_ok_def dom_update)
  then show ?case using Cons by (simp add: keys_ok_def)
qed simp

lemma keys_ok_delete: "keys_ok P m \<Longrightarrow> keys_ok P (jm_delete k m)"
  unfolding keys_ok_def using dom_delete_subset [of k m] by blast

lemma sent_headers_ok:
  "keys_ok header_forwarded (fr_headers (fst (send_request E op hop remaining v)))"
proof -
  have "keys_ok header_forwarded (map (\<lambda>(k, x). (k, Some x)) (sanitizeOutboundHeaders (sf_headers op)))"
    by (auto simp: keys_ok_def sanitizeOutboundHeaders_def)
  then show ?thesis
    by (simp add: send_request_def normalizeHeaders_def Let_def keys_ok_delete keys_ok_fold keys_ok_def [of _ "[]"]
        split: prod.splits)
qed

lemma sent_to:
  "fr_host (fst (send_request E op hop remaining v)) = vu_hostname v"
  "fr_timeoutMs (fst (send_request E op hop remaining v)) = remaining"
  "pinned_to v = Some a \<Longrightarrow> fr_routes (fst (send_request E op hop remaining v)) = [PinnedTo a]"
  by (simp_all add: send_request_def Let_def doFetch_def split: prod.splits)

text \<open>The documented behaviour of DNS: its answers are addresses.\<close>

definition dns_addresses :: "fetch_env \<Rightarrow> bool" where
  "dns_addresses E \<longleftrightarrow> (\<forall>hop h as'. ev_lookup E hop h = Some as' \<longrightarrow> list_all (\<lambda>a. isIP a \<noteq> 0) as')"

definition safe_destination :: "fetch_request \<Rightarrow> bool" where
  "safe_destination rq \<longleftrightarrow>
     (\<exists>a. fr_routes rq = [PinnedTo a] \<and> classifyBlockedIp a = None) \<or>
     (isIP (fr_host rq) \<noteq> 0 \<and> classifyBlockedIp (fr_host rq) = None)"

lemma isIP_Nil: "isIP [] = 0"
  by code_simp

lemma checked_destination:
  assumes "ev_isProd E" "\<not> uo_skipDns (sf_policy op)" "dns_addresses E" "checked_request E op rq"
  shows "safe_destination rq \<and> keys_ok header_forwarded (fr_headers rq) \<and> 0 < fr_timeoutMs rq"
proof -
  obtain hop cur v where
    val: "validateOutboundUrl (ev_parse E) (ev_lookup E hop) (ev_isProd E) cur (sf_policy op) = Inr v" and
    rem: "0 < ev_start E + or_else (sf_timeoutMs op) 15000 - ev_now E hop" and
    rq: "rq = fst (send_request E op hop (ev_start E + or_else (sf_timeoutMs op) 15000 - ev_now E hop) v)"
    using assms(4) unfolding checked_request_def by blast
  have v: "check_addresses (ev_isProd E) (ev_lookup E hop) (vu_hostname v) (sf_policy op) = Inr (vu_addresses v)"
      "vu_pinnedAddress v = (case vu_addresses v of [] \<Rightarrow> None | a # _ \<Rightarrow> Some a)"
    using validate_Inr [OF val] by blast+
  have "safe_destination rq"
  proof (cases "isIP (vu_hostname v) = 0")
    case True
    with v(1) assms(1,2) obtain as' where "ev_lookup E hop (vu_hostname v) = Some as'" "as' = vu_addresses v"
        "as' \<noteq> []" "list_all (\<lambda>a. classifyBlockedIp a = None) as'"
      by (auto simp: check_addresses_def Let_def list_all_iff list_ex_iff split: option.splits if_splits)
    moreover from this assms(3) have "list_all (\<lambda>a. isIP a \<noteq> 0) as'"
      by (simp add: dns_addresses_def)
    ultimately obtain a where a: "vu_pinnedAddress v = Some a" "classifyBlockedIp a = None" "isIP a \<noteq> 0"
      using v(2) by (cases "vu_addresses v") auto
    with True have "pinned_to v = Some a"
      using isIP_Nil by (auto simp: pinned_to_def)
    then show ?thesis using a(2) sent_to(3) rq by (simp add: safe_destination_def)
  next
    case False
    with v(1) assms(1) have "classifyBlockedIp (vu_hostname v) = None"
      by (auto simp: check_addresses_def Let_def split: if_splits)
    then show ?thesis using False sent_to(1) rq by (simp add: safe_destination_def)
  qed
  then show ?thesis
    using rem sent_to(2) sent_headers_ok rq by simp
qed


definition hop_url :: "string \<Rightarrow> full_url" where
  "hop_url h = \<lparr>pu_protocol = ''https:'', pu_username = [], pu_password = [], pu_hostname = h, pu_port = [],
     fu_pathname = ''/'', fu_search = [], fu_hash = [], fu_params = []\<rparr>"

definition demo_fetch :: fetch_env where
  "demo_fetch = \<lparr>ev_lib = plain_lib\<lparr>ul_parse := (\<lambda>s. Some (hop_url (drop 8 s)))\<rparr>, ev_env = (\<lambda>_. None),
     ev_isProd = True, ev_start = 0, ev_now = (\<lambda>n. 10 * int n),
     ev_lookup = (\<lambda>n h. if h = ''a.org'' then Some [''93.184.216.34''] else Some [''1.1.1.1'']),
     ev_net = (\<lambda>n r. Inr (if n = 0 then \<lparr>rs_status = 302, rs_headers = [(''location'', ''//b.org'')], rs_body = None\<rparr>
       else \<lparr>rs_status = 200, rs_headers = [], rs_body = Some [''ok'']\<rparr>)),
     ev_builds = (\<lambda>_. True), ev_agent = AgentUnset, ev_href = (\<lambda>u. ''https://'' @ pu_hostname u),
     ev_resolve = (\<lambda>l u. Some (''https:'' @ l)), ev_number = (\<lambda>_. None), ev_show = (\<lambda>_. [])\<rparr>"

definition demo_fetch_options :: secure_options where
  "demo_fetch_options = \<lparr>sf_timeoutMs = Some 1000, sf_maxRedirects = None, sf_maxBytes = Some 10,
     sf_acceptContentTypes = None, sf_policy = policyFromFlags None None None,
     sf_headers = Some [(''Cookie'', ''c''), (''Accept'', ''*'')], sf_viaProxy = None, sf_signal = False\<rparr>"

definition demo_requests :: "fetch_request list" where
  "demo_requests =
     [\<lparr>fr_url = ''https://a.org'', fr_host = ''a.org'', fr_headers = [(''Accept'', ''*'')], fr_timeoutMs = 1000,
       fr_timer = Some 1000, fr_routes = [PinnedTo ''93.184.216.34'']\<rparr>,
      \<lparr>fr_url = ''https://b.org'', fr_host = ''b.org'', fr_headers = [(''Accept'', ''*'')], fr_timeoutMs = 990,
       fr_timer = Some 990, fr_routes = [PinnedTo ''1.1.1.1'']\<rparr>]"

definition demo_valid :: "string \<Rightarrow> string \<Rightarrow> validated_url" where
  "demo_valid h a = \<lparr>vu_url = parsed_url.truncate (hop_url h), vu_hostname = h, vu_addresses = [a], vu_pinnedAddress = Some a\<rparr>"

lemma demo_validates:
  "validateOutboundUrl (ev_parse demo_fetch) (ev_lookup demo_fetch 0) True ''https://a.org'' (policyFromFlags None None None)
     = Inr (demo_valid ''a.org'' ''93.184.216.34'')"
  "validateOutboundUrl (ev_parse demo_fetch) (ev_lookup demo_fetch 1) True ''https://b.org'' (policyFromFlags None None None)
     = Inr (demo_valid ''b.org'' ''1.1.1.1'')"
  by code_simp+

lemma demo_sends:
  "send_request demo_fetch demo_fetch_options 0 1000 (demo_valid ''a.org'' ''93.184.216.34'') =
     (demo_requests ! 0, Inr \<lparr>rs_status = 302, rs_headers = [(''location'', ''//b.org'')], rs_body = None\<rparr>)"
  "send_request demo_fetch demo_fetch_options 1 990 (demo_valid ''b.org'' ''1.1.1.1'') =
     (demo_requests ! 1, Inr \<lparr>rs_status = 200, rs_headers = [], rs_body = Some [''ok'']\<rparr>)"
  by code_simp+

lemma demo_run: "fst (secureFetch demo_fetch demo_fetch_options ''https://a.org'') = demo_requests"
proof -
  have field: "ev_isProd demo_fetch" "ev_start demo_fetch = 0" "ev_now demo_fetch n = 10 * int n"
      "ev_resolve demo_fetch l u = Some (''https:'' @ l)" for n l u
    by (simp_all add: demo_fetch_def)
  have option: "sf_timeoutMs demo_fetch_options = Some 1000" "sf_maxRedirects demo_fetch_options = None"
      "sf_policy demo_fetch_options = policyFromFlags None None None"
    by (simp_all add: demo_fetch_options_def)
  have "fst (secure_loop demo_fetch demo_fetch_options ''https://a.org'' 1 ''https://b.org'') = [demo_requests ! 1]"
    by (subst secure_loop.simps) (simp add: Let_def field option demo_validates(2) [simplified] demo_sends(2) [simplified])
  then obtain r where "secure_loop demo_fetch demo_fetch_options ''https://a.org'' 1 ''https://b.org'' =
      ([demo_requests ! 1], r)"
    by (metis prod.collapse)
  then show ?thesis
    unfolding secureFetch_def
    by (subst secure_loop.simps)
       (simp add: Let_def field option demo_validates(1) demo_sends(1) demo_requests_def)
qed

lemma demo_dns: "dns_addresses demo_fetch"
proof -
  have "isIP ''93.184.216.34'' \<noteq> 0 \<and> isIP ''1.1.1.1'' \<noteq> 0"
    by code_simp
  then show ?thesis by (auto simp: dns_addresses_def demo_fetch_def split: if_splits)
qed


subsection \<open>What the routing does not do\<close>

text \<open>
  A host name that was resolved is pinned, and a pinned request bypasses the egress proxy, even one
  that asks for it: only literal addresses ever leave through the proxy.
\<close>

lemma pinned_bypasses_proxy:
  "pinned_to v = Some a \<Longrightarrow>
     fr_routes (fst (send_request E (op\<lparr>sf_viaProxy := Some ViaAlways\<rparr>) hop remaining v)) = [PinnedTo a]"
  by (rule sent_to(3))

text \<open>
  A caller that passes a signal gets no timer: the budget of a chain is looked at between hops
  only, and a server that never answers is waited for until the caller gives up.
\<close>

lemma signal_disarms_timer:
  "sf_signal op \<Longrightarrow> fr_timer (fst (send_request E op hop remaining v)) = None"
  by (simp add: send_request_def Let_def armed_timer_def split: prod.splits)

text \<open>
  Once the dispatcher is installed the runtime's \<open>fetch\<close> proxies the same hosts, so the direct
  attempt after a proxy failure, and a request that asks for no proxy, go to the proxy again.
\<close>

lemma direct_attempt_is_proxied:
  "host \<noteq> [] \<Longrightarrow> shouldProxyHost env host \<Longrightarrow> global_fetch_target env True host = ToProxy"
  by (simp add: global_fetch_target_def dispatch_def)

end
