(* ===== verification/FileSelection.thy ===== *)
theory FileSelection
  imports Sources
begin

text \<open>
  The choice of a file in a torrent, \<open>src/debrid/fileSelection.ts\<close>, and the magnet helpers of
  \<open>src/debrid/magnet.ts\<close>. Sizes are bytes and the size ratio is exact.
\<close>

record file_info =
  fi_name :: string
  fi_size :: int

record selection_options =
  fo_fileIdx :: "int option"
  fo_season :: "int option"
  fo_episode :: "int option"
  fo_title :: "string option"

definition VIDEO_EXTENSIONS :: "(string, int) jsmap" where
  "VIDEO_EXTENSIONS =
     [(''mkv'', 50), (''mp4'', 45), (''webm'', 40), (''m4v'', 35), (''ts'', 30), (''m2ts'', 25), (''avi'', 20),
      (''mov'', 15), (''flv'', 10), (''wmv'', 10), (''mpg'', 5), (''mpeg'', 5)]"

definition NON_VIDEO_EXTENSIONS :: "string list" where
  "NON_VIDEO_EXTENSIONS =
     [''nfo'', ''txt'', ''jpg'', ''jpeg'', ''png'', ''gif'', ''srt'', ''sub'', ''idx'', ''ass'', ''vtt'', ''cue'',
      ''sfv'', ''url'', ''exe'']"

definition sep_opt :: rx where
  "sep_opt = Opt (one_of ''._ -'')"

definition sample_rx :: rx where
  "sample_rx =
     Seq (Alt Bol (Ch (\<lambda>c. is_space c \<or> c \<in> set ''._-[/'')))
       (Seq (Group 1 (alt_all [lit_ci ''sample'', lit_ci ''trailer'', lit_ci ''featurette'', lit_ci ''bonus'',
           Seq (lit_ci ''extra'') (Opt (lit_ci ''s'')),
           seq_all [lit_ci ''behind'', sep_opt, lit_ci ''the'', sep_opt, lit_ci ''scenes''],
           seq_all [lit_ci ''deleted'', sep_opt, lit_ci ''scene'', Opt (lit_ci ''s'')], lit_ci ''teaser'']))
         (Alt Eol (Ch (\<lambda>c. is_space c \<or> c \<in> set ''._-]/'' \<or> is_digit c))))"

definition getFileExtension :: "string \<Rightarrow> string" where
  "getFileExtension filename =
     (let tail = takeWhile (\<lambda>c. c \<noteq> CHR ''.'') (rev filename) in
      if length tail = length filename \<or> tail = [] then [] else to_lower (rev tail))"

definition isVideoFile :: "string \<Rightarrow> bool" where
  "isVideoFile filename = jm_has VIDEO_EXTENSIONS (getFileExtension filename)"

definition isSampleOrBonusFile :: "string \<Rightarrow> bool" where
  "isSampleOrBonusFile filename = rx_test sample_rx filename"

subsection \<open>Episode tags\<close>

datatype match_type = StandardTag | MultiEpisodeTag | AnimeAbsoluteTag | DateTag

text \<open>A match, with its season and episode; \<open>None\<close> is the result \<open>{ matched: false }\<close>.\<close>

record episode_match =
  em_season :: int
  em_episode :: int
  em_type :: match_type

definition isMultiEpisode :: "episode_match \<Rightarrow> bool" where
  "isMultiEpisode m \<longleftrightarrow> em_type m = MultiEpisodeTag"

definition isAbsoluteEpisode :: "episode_match \<Rightarrow> bool" where
  "isAbsoluteEpisode m \<longleftrightarrow> em_type m = AnimeAbsoluteTag"

definition extension_rx :: rx where
  "extension_rx = Seq (lit ''.'') (Seq (rx_plus (none_of ''.'')) Eol)"

definition strip_extension :: "string \<Rightarrow> string" where
  "strip_extension filename = rx_replace1 extension_rx [] filename"

text \<open>\<open>0*(\d+)\<close> with the group's number.\<close>

definition number_group :: "nat \<Rightarrow> rx" where
  "number_group n = Seq (Star (same_char CHR ''0'')) (Group n (rx_plus rx_digit))"

definition range_se_rx :: rx where
  "range_se_rx = seq_all [lit_ci ''s'', number_group 1, Star (one_of '' ._-''), lit_ci ''e'', number_group 2,
     rx_plus (Ch (\<lambda>c. c \<in> set ''-_~eE'')), number_group 3]"

definition range_x_rx :: "nat \<Rightarrow> rx" where
  "range_x_rx n = seq_all [WordB, number_group n, lit_ci ''x'', number_group (n + 1), lit ''-'', number_group (n + 2), WordB]"

definition standard_rx :: rx where
  "standard_rx = alt_all
     [seq_all [lit_ci ''s'', number_group 1, Star (one_of '' ._/-''), lit_ci ''e'', number_group 2, WordB],
      seq_all [WordB, number_group 3, lit_ci ''x'', number_group 4, WordB],
      seq_all [WordB, lit_ci ''season'', Star rx_space, number_group 5, Star rx_space, lit_ci ''episode'',
        Star rx_space, number_group 6, WordB]]"

definition anime_rx :: rx where
  "anime_rx = alt_all
     [seq_all [alt_all [seq_all [lit ''['', rx_plus (none_of '']''), lit '']''],
          Seq WordB (rx_plus (Ch (\<lambda>c. word_char c \<or> c = CHR ''.'' \<or> c = CHR ''-'')))],
        Star rx_space, lit ''-'', Star rx_space, number_group 1,
        alt_all [Seq (Star rx_space) (lit ''[''), Seq (Star rx_space) (lit ''.''), Seq (Star rx_space) Eol,
          seq_all [Star rx_space, lit_ci ''v'', rx_digit], Seq (Star rx_space) (lit ''('')]],
      seq_all [WordB, Alt (lit_ci ''ep'') (lit_ci ''episode''), Star rx_space, number_group 2, WordB]]"

definition date_rx :: rx where
  "date_rx = seq_all
     [WordB, Group 1 (Alt (seq_all [lit ''19'', rx_digit, rx_digit]) (seq_all [lit ''20'', rx_digit, rx_digit])),
      one_of '' ._-'', Group 2 (Alt (Seq (lit ''0'') (one_of ''123456789'')) (Seq (lit ''1'') (one_of ''012''))),
      one_of '' ._-'', Group 3 (alt_all [Seq (lit ''0'') (one_of ''123456789''), Seq (one_of ''12'') rx_digit,
        Seq (lit ''3'') (one_of ''01'')]), WordB]"

text \<open>\<open>parseInt(k[a] || k[b] || ..., 10)\<close>: the first group that took part.\<close>

definition group_int :: "(nat \<times> string) list \<Rightarrow> nat list \<Rightarrow> int" where
  "group_int k ns = int (parse_dec (case filter (\<lambda>t. t \<noteq> []) (map (cap k) ns) of [] \<Rightarrow> [] | t # _ \<Rightarrow> t))"

definition tag :: "match_type \<Rightarrow> int \<Rightarrow> int \<Rightarrow> episode_match option" where
  "tag ty s e = Some \<lparr>em_season = s, em_episode = e, em_type = ty\<rparr>"

definition multi_tag :: "string \<Rightarrow> episode_match option" where
  "multi_tag nm =
     (case rx_match (Alt range_se_rx (range_x_rx 4)) nm of
        None \<Rightarrow> None
      | Some k \<Rightarrow>
          if cap k 1 \<noteq> [] \<and> cap k 2 \<noteq> [] \<and> cap k 3 \<noteq> [] then tag MultiEpisodeTag (group_int k [1]) (group_int k [2])
          else if cap k 4 \<noteq> [] \<and> cap k 5 \<noteq> [] \<and> cap k 6 \<noteq> [] then tag MultiEpisodeTag (group_int k [4]) (group_int k [5])
          else None)"

definition parseEpisodeInfo :: "string \<Rightarrow> episode_match option" where
  "parseEpisodeInfo filename =
     (let nm = strip_extension filename in
      case multi_tag nm of
        Some m \<Rightarrow> Some m
      | None \<Rightarrow>
          (case rx_match standard_rx nm of
             Some k \<Rightarrow> tag StandardTag (group_int k [1, 3, 5]) (group_int k [2, 4, 6])
           | None \<Rightarrow>
               (case rx_match anime_rx nm of
                  Some k \<Rightarrow> tag AnimeAbsoluteTag 1 (group_int k [1, 2])
                | None \<Rightarrow>
                    (case rx_match date_rx nm of
                       Some k \<Rightarrow> tag DateTag (group_int k [1]) (int (parse_dec (cap k 2 @ cap k 3)))
                     | None \<Rightarrow> None))))"

definition matchesMultiEpisodeRange :: "string \<Rightarrow> int \<Rightarrow> int \<Rightarrow> bool" where
  "matchesMultiEpisodeRange filename targetSeason targetEpisode =
     (let nm = strip_extension filename in
      case (case rx_match range_se_rx nm of Some k \<Rightarrow> Some k | None \<Rightarrow> rx_match (range_x_rx 1) nm) of
        None \<Rightarrow> False
      | Some k \<Rightarrow> group_int k [1] = targetSeason \<and> group_int k [2] \<le> targetEpisode \<and> targetEpisode \<le> group_int k [3])"

subsection \<open>Scores\<close>

record file_candidate =
  fc_index :: nat
  fc_name :: string
  fc_size :: int
  fc_score :: int
  fc_reason :: string

record file_selection =
  fs_index :: int
  fs_name :: string
  fs_size :: int
  fs_matchReason :: string
  fs_confidence :: rat
  fs_candidates :: "file_candidate list"

definition extension_score :: "string \<Rightarrow> int \<times> string" where
  "extension_score ext =
     (if ext \<in> set NON_VIDEO_EXTENSIONS then (- 10000, ''non_video_extension'')
      else case jm_get VIDEO_EXTENSIONS ext of
        Some n \<Rightarrow> (n, ''video_'' @ ext)
      | None \<Rightarrow> (- 500, ''unknown_extension''))"

definition sample_score :: "string \<Rightarrow> int \<times> string list" where
  "sample_score nm = (if isSampleOrBonusFile nm then (- 5000, [''sample_or_bonus_penalty'']) else (0, []))"

definition size_score :: "int \<Rightarrow> int \<Rightarrow> int" where
  "size_score maxSize size' = math_round (of_int size' / of_int maxSize * 50)"

definition tiny_score :: "int \<Rightarrow> int \<times> string list" where
  "tiny_score size' = (if size' < 31457280 \<and> 0 < size' then (- 300, [''tiny_file_penalty'']) else (0, []))"

definition episode_label :: "int \<Rightarrow> int \<Rightarrow> string" where
  "episode_label s e = ''s'' @ show_int s @ ''e'' @ show_int e"

definition episode_score :: "selection_options \<Rightarrow> string \<Rightarrow> int \<times> string list" where
  "episode_score op nm =
     (case (fo_season op, fo_episode op) of
        (Some s, Some e) \<Rightarrow>
          (case parseEpisodeInfo nm of
             None \<Rightarrow> (- 100, [''no_episode_tag''])
           | Some m \<Rightarrow>
               if em_season m = s \<and> em_episode m = e then (2000, [''exact_episode_match_'' @ episode_label s e])
               else if isMultiEpisode m \<and> matchesMultiEpisodeRange nm s e
               then (1800, [''multi_episode_range_match_'' @ episode_label s e])
               else if isAbsoluteEpisode m \<and> (s = 1 \<or> s = 0) \<and> em_episode m = e
               then (1500, [''anime_absolute_episode_match_e'' @ show_int e])
               else (- 4000, [''mismatched_episode_'' @ episode_label (em_season m) (em_episode m)]))
      | _ \<Rightarrow> (0, []))"

definition candidate :: "selection_options \<Rightarrow> int \<Rightarrow> nat \<Rightarrow> file_info \<Rightarrow> file_candidate" where
  "candidate op maxSize i f =
     (let (xs, xr) = extension_score (getFileExtension (fi_name f));
          (ss, sr) = sample_score (fi_name f);
          (ts, tr) = tiny_score (fi_size f);
          (es, er) = episode_score op (fi_name f)
      in \<lparr>fc_index = i, fc_name = fi_name f, fc_size = fi_size f,
          fc_score = xs + ss + size_score maxSize (fi_size f) + ts + es,
          fc_reason = join_with ''; '' (xr # sr @ tr @ er)\<rparr>)"

definition max_size :: "file_info list \<Rightarrow> int" where
  "max_size files = foldr max (map fi_size files) 1"

definition candidates_of :: "selection_options \<Rightarrow> file_info list \<Rightarrow> file_candidate list" where
  "candidates_of op files =
     map (\<lambda>(i, f). candidate op (max_size files) i f) (zip [0..<length files] files)"

definition no_selection :: "string \<Rightarrow> int \<Rightarrow> string \<Rightarrow> file_selection" where
  "no_selection nm size' reason =
     \<lparr>fs_index = - 1, fs_name = nm, fs_size = size', fs_matchReason = reason, fs_confidence = 0, fs_candidates = []\<rparr>"

definition playable_name :: "string \<Rightarrow> bool" where
  "playable_name nm \<longleftrightarrow> isVideoFile nm \<and> getFileExtension nm \<notin> set NON_VIDEO_EXTENSIONS"

text \<open>Confidence and reason by the winner's score.\<close>

definition verdict :: "int \<Rightarrow> rat \<times> string" where
  "verdict topScore =
     (if 1500 < topScore then (95 / 100, ''exact_season_episode_match'')
      else if 1000 < topScore then (85 / 100, ''multi_episode_or_anime_match'')
      else if 0 < topScore then (75 / 100, ''best_scoring_video'')
      else (30 / 100, ''fallback_low_confidence''))"

definition pick_best :: "file_candidate list \<Rightarrow> file_selection" where
  "pick_best cands =
     (case sort_key (\<lambda>c. - fc_score c) cands of
        [] \<Rightarrow> no_selection [] 0 ''no_video_files_found''
      | winner # rest \<Rightarrow>
          if \<not> playable_name (fc_name winner) then no_selection [] 0 ''no_video_files_found''
          else (case verdict (fc_score winner) of (confidence, reason) \<Rightarrow>
            \<lparr>fs_index = int (fc_index winner), fs_name = fc_name winner, fs_size = fc_size winner,
             fs_matchReason = reason, fs_confidence = confidence,
             fs_candidates = take 5 (winner # rest)\<rparr>))"

text \<open>
  The table of extensions is an object literal, so an extension that names an inherited member is
  looked up there: its score is no number, the comparator answers \<open>NaN\<close>, and the order is left
  open by the language. For such files the selection is \<open>None\<close>.
\<close>

definition inherited_extension :: "string \<Rightarrow> bool" where
  "inherited_extension ext \<longleftrightarrow> ext = ''constructor'' \<or> ext = ''__proto__''"

definition scoreAndSelectFile :: "file_info list \<Rightarrow> selection_options \<Rightarrow> file_selection option" where
  "scoreAndSelectFile files op =
     (if files = [] then Some (no_selection [] 0 ''no_files_available'')
      else case fo_fileIdx op of
        Some i \<Rightarrow>
          if 0 \<le> i \<and> i < int (length files) then
            (let f = files ! nat i in
             if playable_name (fi_name f)
             then Some \<lparr>fs_index = i, fs_name = fi_name f, fs_size = fi_size f,
                    fs_matchReason = ''explicit_file_index'', fs_confidence = 1,
                    fs_candidates = [\<lparr>fc_index = nat i, fc_name = fi_name f, fc_size = fi_size f, fc_score = 10000,
                      fc_reason = ''explicit_file_index''\<rparr>]\<rparr>
             else Some (no_selection (fi_name f) (fi_size f) ''explicit_index_not_video''))
          else if list_ex (\<lambda>f. inherited_extension (getFileExtension (fi_name f))) files then None
          else Some (pick_best (candidates_of op files))
      | None \<Rightarrow>
          if list_ex (\<lambda>f. inherited_extension (getFileExtension (fi_name f))) files then None
          else Some (pick_best (candidates_of op files)))"

subsection \<open>Magnets\<close>

definition FALLBACK_TRACKERS :: "string list" where
  "FALLBACK_TRACKERS =
     [''udp://tracker.opentrackr.org:1337/announce'', ''udp://open.demonii.com:1337/announce'',
      ''udp://tracker.openbittorrent.com:6969/announce'', ''udp://exodus.desync.com:6969/announce'',
      ''udp://tracker.torrent.eu.org:451/announce'']"

definition normalizeInfoHash :: "string \<Rightarrow> string" where
  "normalizeInfoHash hash = to_lower (trim hash)"

definition isValidInfoHash :: "string \<Rightarrow> bool" where
  "isValidInfoHash hash =
     (let h = normalizeInfoHash hash in
      length h = 40 \<and> list_all (\<lambda>c. is_digit c \<or> c \<in> set ''abcdef'') h \<or>
      length h = 32 \<and> list_all (\<lambda>c. is_alnum c \<and> c \<notin> set ''0189'') h)"

definition tracker_rx :: rx where
  "tracker_rx = seq_all [Bol, Group 1 (alt_all [lit_ci ''udp'', Seq (lit_ci ''http'') (Opt (lit_ci ''s'')),
     Seq (lit_ci ''ws'') (Opt (lit_ci ''s''))]), lit ''://'']"

definition tracker_of :: "string \<Rightarrow> string option" where
  "tracker_of s =
     (let t = (if starts_with s ''tracker:'' then drop 8 s else s) in
      if rx_test tracker_rx t then Some t else None)"

definition buildMagnet :: "string \<Rightarrow> string list option \<Rightarrow> string option \<Rightarrow> string" where
  "buildMagnet infoHash sources displayName =
     (let found = uniq (List.map_filter tracker_of (or_else sources []));
          trackers = (if found = [] then uniq FALLBACK_TRACKERS else found)
      in ''magnet:?'' @ join_with ''&''
           ((''xt=urn:btih:'' @ normalizeInfoHash infoHash) #
            (if or_else displayName [] = [] then [] else [''dn='' @ encodeURIComponent (or_else displayName [])]) @
            map (\<lambda>t. ''tr='' @ encodeURIComponent t) trackers))"

definition btih_rx :: rx where
  "btih_rx = Seq (lit_ci ''urn:btih:'') (Group 1 (rx_plus (Ch is_alnum)))"

definition infoHashFromMagnet :: "string \<Rightarrow> string option" where
  "infoHashFromMagnet magnet = map_option (\<lambda>k. normalizeInfoHash (cap k 1)) (rx_match btih_rx magnet)"

definition pickFileIndex :: "file_info list \<Rightarrow> selection_options \<Rightarrow> int option" where
  "pickFileIndex files op = map_option fs_index (scoreAndSelectFile files op)"


subsection \<open>What is selected\<close>

lemma hd_sort_key:
  assumes "xs \<noteq> []"
  shows "hd (sort_key f xs) \<in> set xs \<and> (\<forall>x \<in> set xs. f (hd (sort_key f xs)) \<le> f x)"
proof -
  have ne: "sort_key f xs \<noteq> []"
    using assms by (metis length_0_conv length_sort)
  obtain y ys where y: "sort_key f xs = y # ys"
    using ne by (cases "sort_key f xs") auto
  have "sorted (map f (y # ys))"
    using sorted_sort_key [of f xs] y by simp
  moreover have "set (y # ys) = set xs"
    using y by (metis set_sort)
  ultimately show ?thesis using y by fastforce
qed

lemma candidate_simps [simp]:
  "fc_index (candidate op n i f) = i" "fc_name (candidate op n i f) = fi_name f"
  "fc_size (candidate op n i f) = fi_size f"
  "fc_score (candidate op n i f) = fst (extension_score (getFileExtension (fi_name f))) +
     fst (sample_score (fi_name f)) + size_score n (fi_size f) + fst (tiny_score (fi_size f)) +
     fst (episode_score op (fi_name f))"
  by (simp_all add: candidate_def split: prod.splits)

lemma in_candidates:
  "c \<in> set (candidates_of op files) \<longleftrightarrow>
     (\<exists>i < length files. c = candidate op (max_size files) i (files ! i))"
proof -
  have "candidates_of op files = map (\<lambda>i. candidate op (max_size files) i (files ! i)) [0..<length files]"
    by (rule nth_equalityI) (simp_all add: candidates_of_def)
  then show ?thesis by auto
qed

lemma candidates_Nil [simp]: "candidates_of op files = [] \<longleftrightarrow> files = []"
  by (auto simp: candidates_of_def)

text \<open>The winner is a candidate of the highest score.\<close>

definition winner :: "selection_options \<Rightarrow> file_info list \<Rightarrow> file_candidate" where
  "winner op files = hd (sort_key (\<lambda>c. - fc_score c) (candidates_of op files))"

lemma winner_best:
  assumes "files \<noteq> []"
  shows "\<exists>i < length files. winner op files = candidate op (max_size files) i (files ! i)"
    and "c \<in> set (candidates_of op files) \<Longrightarrow> fc_score c \<le> fc_score (winner op files)"
  using hd_sort_key [of "candidates_of op files" "\<lambda>c. - fc_score c"] assms in_candidates
  by (auto simp: winner_def)

lemma pick_best_winner:
  assumes "files \<noteq> []"
  shows "pick_best (candidates_of op files) =
    (let w = winner op files in
     if \<not> playable_name (fc_name w) then no_selection [] 0 ''no_video_files_found''
     else (case verdict (fc_score w) of (confidence, reason) \<Rightarrow>
       \<lparr>fs_index = int (fc_index w), fs_name = fc_name w, fs_size = fc_size w, fs_matchReason = reason,
        fs_confidence = confidence,
        fs_candidates = take 5 (sort_key (\<lambda>c. - fc_score c) (candidates_of op files))\<rparr>))"
proof -
  have "sort_key (\<lambda>c. - fc_score c) (candidates_of op files) \<noteq> []"
    using assms by (metis candidates_Nil length_0_conv length_sort)
  then show ?thesis
    by (cases "sort_key (\<lambda>c. - fc_score c) (candidates_of op files)")
       (simp_all add: pick_best_def winner_def Let_def)
qed

lemma pick_best_sound:
  assumes "files \<noteq> []" "0 \<le> fs_index (pick_best (candidates_of op files))"
  shows "\<exists>i < length files. fs_index (pick_best (candidates_of op files)) = int i \<and>
    fs_name (pick_best (candidates_of op files)) = fi_name (files ! i) \<and>
    fs_size (pick_best (candidates_of op files)) = fi_size (files ! i) \<and> playable_name (fi_name (files ! i))"
  using assms winner_best(1) [OF assms(1), of op] pick_best_winner [OF assms(1), of op]
  by (auto simp: Let_def no_selection_def split: if_splits prod.splits)

text \<open>
  Whatever files a torrent holds and whatever a request asks for, a selection with an index
  names one of the torrent's files, with its name and size, and that file is a video.
\<close>

lemma selection_is_video:
  assumes "scoreAndSelectFile files op = Some r" "0 \<le> fs_index r"
  shows "\<exists>i < length files. fs_index r = int i \<and> fs_name r = fi_name (files ! i) \<and>
    fs_size r = fi_size (files ! i) \<and> isVideoFile (fi_name (files ! i))"
proof (cases "files = []")
  case True
  then show ?thesis using assms by (auto simp: scoreAndSelectFile_def no_selection_def)
next
  case False
  show ?thesis
  proof (cases "\<exists>i. fo_fileIdx op = Some i \<and> 0 \<le> i \<and> i < int (length files)")
    case True
    then obtain i where "fo_fileIdx op = Some i" "0 \<le> i" "i < int (length files)" by blast
    then show ?thesis
      using assms False
      by (intro exI [of _ "nat i"])
         (auto simp: scoreAndSelectFile_def Let_def no_selection_def playable_name_def split: if_splits)
  next
    case no_index: False
    then have "r = pick_best (candidates_of op files)"
      using assms(1) False by (auto simp: scoreAndSelectFile_def split: option.splits if_splits)
    then show ?thesis
      using pick_best_sound [OF False, of op] assms(2) by (auto simp: playable_name_def)
  qed
qed

subsection \<open>The requested episode wins\<close>

lemma extension_bound: "fst (extension_score ext) \<le> 50"
  by (auto simp: extension_score_def VIDEO_EXTENSIONS_def split: option.splits)

lemma extension_of_video:
  "playable_name nm \<Longrightarrow> 5 \<le> fst (extension_score (getFileExtension nm))"
  by (auto simp: playable_name_def isVideoFile_def extension_score_def jm_has_def VIDEO_EXTENSIONS_def
      split: if_splits)

lemma extension_not_video:
  "\<not> playable_name nm \<Longrightarrow> fst (extension_score (getFileExtension nm)) \<le> - 500"
  by (auto simp: playable_name_def isVideoFile_def extension_score_def jm_has_def)

lemma max_size_ge: "f \<in> set files \<Longrightarrow> fi_size f \<le> max_size files" and max_size_pos: "1 \<le> max_size files"
  by (induction files) (auto simp: max_size_def)

lemma size_score_range:
  assumes "0 \<le> n" "n \<le> m" "1 \<le> m"
  shows "0 \<le> size_score m n \<and> size_score m n \<le> 50"
proof -
  have q: "0 \<le> (of_int n / of_int m :: rat)" "(of_int n / of_int m :: rat) \<le> 1"
    using assms by (simp_all add: divide_le_eq_1)
  then have "\<lfloor>of_int n / of_int m * 50 + 1 / 2 :: rat\<rfloor> \<le> \<lfloor>(50 + 1 / 2) :: rat\<rfloor>"
    by (intro floor_mono) simp
  moreover have "\<lfloor>(50 + 1 / 2) :: rat\<rfloor> = 50" by (simp add: floor_eq_iff)
  moreover have "0 \<le> \<lfloor>of_int n / of_int m * 50 + 1 / 2 :: rat\<rfloor>" using q by simp
  ultimately show ?thesis by (simp add: size_score_def math_round_def)
qed

lemma sample_tiny_le: "fst (sample_score nm) \<le> 0" "fst (tiny_score n) \<le> 0"
  by (simp_all add: sample_score_def tiny_score_def)

definition has_episode :: "int \<Rightarrow> int \<Rightarrow> string \<Rightarrow> bool" where
  "has_episode s e nm \<longleftrightarrow> (case parseEpisodeInfo nm of None \<Rightarrow> False | Some m \<Rightarrow> em_season m = s \<and> em_episode m = e)"

lemma episode_score_cases:
  assumes "fo_season op = Some s" "fo_episode op = Some e"
  shows "has_episode s e nm \<and> fst (episode_score op nm) = 2000 \<or>
    \<not> has_episode s e nm \<and> fst (episode_score op nm) \<le> 1800"
  using assms by (auto simp: episode_score_def has_episode_def split: option.splits)

lemma exact_score:
  assumes "fo_season op = Some s" "fo_episode op = Some e" "has_episode s e (fi_name f)"
    "playable_name (fi_name f)" "\<not> isSampleOrBonusFile (fi_name f)" "31457280 \<le> fi_size f"
    "fi_size f \<le> m" "1 \<le> m"
  shows "2005 \<le> fc_score (candidate op m i f)"
  using assms extension_of_video [of "fi_name f"] size_score_range [of "fi_size f" m]
    episode_score_cases [OF assms(1,2), of "fi_name f"]
  by (simp add: sample_score_def tiny_score_def)

lemma high_score:
  assumes "fo_season op = Some s" "fo_episode op = Some e" "2005 \<le> fc_score (candidate op m i f)"
    "0 \<le> fi_size f" "fi_size f \<le> m" "1 \<le> m"
  shows "has_episode s e (fi_name f) \<and> playable_name (fi_name f) \<and> \<not> isSampleOrBonusFile (fi_name f)"
proof -
  note b = extension_bound [of "getFileExtension (fi_name f)"] size_score_range [of "fi_size f" m]
    sample_tiny_le(1) [of "fi_name f"] sample_tiny_le(2) [of "fi_size f"] episode_score_cases [OF assms(1,2), of "fi_name f"]
    extension_not_video [of "fi_name f"]
  have "has_episode s e (fi_name f)" using b assms by force
  moreover have "playable_name (fi_name f)" using b assms by force
  moreover have "\<not> isSampleOrBonusFile (fi_name f)" using b assms by (force simp: sample_score_def)
  ultimately show ?thesis by blast
qed


definition episode_request :: "int \<Rightarrow> int \<Rightarrow> selection_options" where
  "episode_request s e = \<lparr>fo_fileIdx = None, fo_season = Some s, fo_episode = Some e, fo_title = None\<rparr>"

definition demo_files :: "file_info list" where
  "demo_files = [\<lparr>fi_name = ''a.txt'', fi_size = 10\<rparr>, \<lparr>fi_name = ''b.mkv'', fi_size = 60000000\<rparr>,
     \<lparr>fi_name = ''S1E2.ts'', fi_size = 40000000\<rparr>]"

lemma demo_tag: "parseEpisodeInfo ''S1E2.ts'' = tag StandardTag 1 2"
  by code_simp

lemma demo_not_sample: "\<not> isSampleOrBonusFile ''S1E2.ts''"
  by code_simp

lemma demo_playable: "playable_name ''S1E2.ts''" "getFileExtension ''S1E2.ts'' = ''ts''"
    "getFileExtension ''b.mkv'' = ''mkv''" "getFileExtension ''a.txt'' = ''txt''"
  by code_simp+


definition one_file :: "file_info list" where
  "one_file = [\<lparr>fi_name = ''a.txt'', fi_size = 10\<rparr>, \<lparr>fi_name = ''b.mkv'', fi_size = 40000000\<rparr>]"

theorem selection_is_video_witness:
  "case scoreAndSelectFile one_file \<lparr>fo_fileIdx = Some 1, fo_season = None, fo_episode = None, fo_title = None\<rparr> of
     None \<Rightarrow> False
   | Some r \<Rightarrow> fs_name r = ''b.mkv'' \<and> isVideoFile (fs_name r)"
proof -
  let ?op = "\<lparr>fo_fileIdx = Some 1, fo_season = None, fo_episode = None, fo_title = None\<rparr>"
  have "playable_name ''b.mkv''" by code_simp
  then obtain r where r: "scoreAndSelectFile one_file ?op = Some r" "fs_index r = 1" "fs_name r = ''b.mkv''"
    by (simp add: scoreAndSelectFile_def one_file_def)
  then show ?thesis using selection_is_video [of one_file ?op r] by (auto simp: one_file_def)
qed

subsection \<open>Where the labels mislead\<close>

text \<open>A file with a range of episodes passes the threshold of an exact match and is reported as one.\<close>

lemma range_reported_exact:
  "map_option (\<lambda>r. (fs_matchReason r, fs_confidence r))
     (scoreAndSelectFile [\<lparr>fi_name = ''S1E1-4.ts'', fi_size = 40000000\<rparr>] (episode_request 1 3)) =
   Some (''exact_season_episode_match'', 95 / 100)"
proof -
  have "parseEpisodeInfo ''S1E1-4.ts'' = tag MultiEpisodeTag 1 1" "matchesMultiEpisodeRange ''S1E1-4.ts'' 1 3"
    "\<not> isSampleOrBonusFile ''S1E1-4.ts''" "playable_name ''S1E1-4.ts''"
    "getFileExtension ''S1E1-4.ts'' = ''ts''"
    by code_simp+
  moreover have "\<lfloor>101 / 2 :: rat\<rfloor> = 50"
    by (simp add: floor_eq_iff)
  ultimately show ?thesis
    by (simp add: scoreAndSelectFile_def inherited_extension_def candidates_of_def pick_best_def candidate_def
        extension_score_def NON_VIDEO_EXTENSIONS_def VIDEO_EXTENSIONS_def sample_score_def size_score_def
        max_size_def tiny_score_def episode_score_def episode_request_def tag_def isMultiEpisode_def verdict_def
        math_round_def)
qed

text \<open>A pack without the requested episode still answers a file: another episode.\<close>

lemma other_episode_selected:
  "map_option fs_name (scoreAndSelectFile [\<lparr>fi_name = ''S1E2.ts'', fi_size = 40000000\<rparr>] (episode_request 1 5)) =
   Some ''S1E2.ts''"
  by (simp add: scoreAndSelectFile_def inherited_extension_def candidates_of_def pick_best_def candidate_def
      demo_tag demo_playable episode_score_def episode_request_def tag_def isMultiEpisode_def isAbsoluteEpisode_def
      verdict_def split: prod.splits)

subsection \<open>Magnets\<close>

lemma star_m_greedy:
  assumes "ys = [] \<or> \<not> P (hd ys)"
  shows "list_all P xs \<Longrightarrow> length xs \<le> n \<Longrightarrow> \<exists>ms. star_m (ch_m P) n (p, xs @ ys, k) = (rev xs @ p, ys, k) # ms"
proof (induction xs arbitrary: n p)
  case Nil
  have "ch_m P (p, ys, k) = []" using assms by (cases ys) (auto simp: ch_m_def)
  then show ?case by (cases n) simp_all
next
  case (Cons x xs)
  then obtain m where m: "n = Suc m" "length xs \<le> m" by (cases n) auto
  then obtain ms where "star_m (ch_m P) m (x # p, xs @ ys, k) = (rev xs @ x # p, ys, k) # ms"
    using Cons.IH [of m "x # p"] Cons.prems by auto
  moreover have "ch_m P (p, (x # xs) @ ys, k) = [(x # p, xs @ ys, k)]"
    using Cons.prems by (simp add: ch_m_def)
  ultimately show ?case using m by (simp add: progress_def)
qed

lemma plus_greedy:
  assumes "xs \<noteq> []" "list_all P xs" "ys = [] \<or> \<not> P (hd ys)"
  shows "\<exists>ms. rx_m (rx_plus (Ch P)) (p, xs @ ys, k) = (rev xs @ p, ys, k) # ms"
proof -
  obtain x xs' where xs: "xs = x # xs'" using assms(1) by (cases xs) auto
  obtain ms where "star_m (ch_m P) (length (xs' @ ys)) (x # p, xs' @ ys, k) = (rev xs' @ x # p, ys, k) # ms"
    using star_m_greedy [where P = P, of ys xs' "length (xs' @ ys)" "x # p" k] assms(2,3) xs by auto
  moreover have "ch_m P (p, xs @ ys, k) = [(x # p, xs' @ ys, k)]"
    using assms(2) xs by (simp add: ch_m_def)
  ultimately show ?thesis by (simp add: xs rx_plus_def)
qed

lemma search_Cons:
  "rx_search r p (c # s) = (case rx_m r (p, c # s, []) of m # _ \<Rightarrow> Some (p, m) | [] \<Rightarrow> rx_search r (c # p) s)"
  by (simp add: rx_search.simps [of r p "c # s"] split: list.split)

lemma btih_found:
  assumes "h \<noteq> []" "list_all is_alnum h" "ys = [] \<or> \<not> is_alnum (hd ys)"
  shows "infoHashFromMagnet (''magnet:?xt=urn:btih:'' @ h @ ys) = Some (normalizeInfoHash h)"
proof -
  let ?p = "rev ''magnet:?xt=urn:btih:''"
  obtain ms where m: "rx_m (rx_plus (Ch is_alnum)) (?p, h @ ys, []) = (rev h @ ?p, ys, []) # ms"
    using plus_greedy [OF assms, of ?p "[]"] by blast
  have lc: "lower_char CHR ''u'' = CHR ''u''" "lower_char CHR ''m'' = CHR ''m''" "lower_char CHR ''a'' = CHR ''a''"
    "lower_char CHR ''g'' = CHR ''g''" "lower_char CHR ''n'' = CHR ''n''" "lower_char CHR ''e'' = CHR ''e''"
    "lower_char CHR ''t'' = CHR ''t''" "lower_char CHR '':'' = CHR '':''" "lower_char CHR ''?'' = CHR ''?''"
    "lower_char CHR ''x'' = CHR ''x''" "lower_char CHR ''='' = CHR ''=''" "lower_char CHR ''r'' = CHR ''r''"
    "lower_char CHR ''b'' = CHR ''b''" "lower_char CHR ''i'' = CHR ''i''" "lower_char CHR ''h'' = CHR ''h''"
    by code_simp+
  have "rx_search btih_rx [] (''magnet:?xt=urn:btih:'' @ h @ ys) =
      Some (rev ''magnet:?xt='', capture 1 (?p, h @ ys, []) (rev h @ ?p, ys, []))"
    using m by (simp add: search_Cons btih_rx_def lit_ci_def same_char_ci_def ch_m_def lc)
  then show ?thesis by (simp add: infoHashFromMagnet_def rx_match_def cap_def capture_def)
qed

lemma alnum_not_space: "is_alnum c \<Longrightarrow> \<not> is_space c"
  by (auto simp: is_alnum_def word_char_def is_space_def Let_def)

lemma valid_hash_alnum: "isValidInfoHash hash \<Longrightarrow> list_all is_alnum (normalizeInfoHash hash)"
proof -
  assume v: "isValidInfoHash hash"
  have "is_alnum c" if "is_digit c \<or> c \<in> set ''abcdef''" for c
  proof -
    have "list_all is_alnum ''abcdef''" by code_simp
    then show ?thesis using that by (auto simp: is_alnum_def word_char_def is_digit_def Let_def list_all_iff)
  qed
  then show ?thesis using v by (auto simp: isValidInfoHash_def Let_def list_all_iff)
qed

lemma normalize_normalized: "list_all is_alnum (normalizeInfoHash h) \<Longrightarrow> normalizeInfoHash (normalizeInfoHash h) = normalizeInfoHash h"
proof -
  assume a: "list_all is_alnum (normalizeInfoHash h)"
  then have "list_all (\<lambda>c. \<not> is_space c) (normalizeInfoHash h)"
    by (auto simp: list_all_iff alnum_not_space)
  then show ?thesis unfolding normalizeInfoHash_def [of "normalizeInfoHash h"] by (simp add: trim_id) (simp add: normalizeInfoHash_def)
qed

text \<open>
  C23. The magnet built for a valid info hash, whatever its trackers and display name, names exactly
  that hash: reading it back gives the normalized hash.
\<close>

theorem magnet_roundtrip:
  assumes "isValidInfoHash hash"
  shows "infoHashFromMagnet (buildMagnet hash sources displayName) = Some (normalizeInfoHash hash)"
proof -
  note a = valid_hash_alnum [OF assms]
  have ne: "normalizeInfoHash hash \<noteq> []"
    using assms by (auto simp: isValidInfoHash_def Let_def)
  obtain t ts where shape: "buildMagnet hash sources displayName =
      ''magnet:?'' @ join_with ''&'' ((''xt=urn:btih:'' @ normalizeInfoHash hash) # t # ts)"
  proof -
    let ?found = "uniq (List.map_filter tracker_of (or_else sources []))"
    let ?trackers = "if ?found = [] then uniq FALLBACK_TRACKERS else ?found"
    let ?rest = "(if or_else displayName [] = [] then [] else [''dn='' @ encodeURIComponent (or_else displayName [])]) @
      map (\<lambda>t. ''tr='' @ encodeURIComponent t) ?trackers"
    have "FALLBACK_TRACKERS \<noteq> []" by (simp add: FALLBACK_TRACKERS_def)
    then have "?rest \<noteq> []" by simp
    then obtain t ts where "?rest = t # ts" by (meson neq_Nil_conv)
    then show thesis using that [of t ts] by (simp add: buildMagnet_def Let_def del: append.simps)
  qed
  have "\<not> is_alnum CHR ''&''" by code_simp
  then show ?thesis
    using btih_found [OF ne a, of "''&'' @ join_with ''&'' (t # ts)"] normalize_normalized [OF a]
    by (simp add: shape)
qed

theorem magnet_roundtrip_witness:
  "infoHashFromMagnet (buildMagnet ''ABCDEFABCDEFABCDEFABCDEFABCDEFABCDEFABCD'' None (Some ''a b'')) =
     Some ''abcdefabcdefabcdefabcdefabcdefabcdefabcd''"
proof -
  have "isValidInfoHash ''ABCDEFABCDEFABCDEFABCDEFABCDEFABCDEFABCD''"
    "normalizeInfoHash ''ABCDEFABCDEFABCDEFABCDEFABCDEFABCDEFABCD'' = ''abcdefabcdefabcdefabcdefabcdefabcdefabcd''"
    by code_simp+
  then show ?thesis
    using magnet_roundtrip [of "''ABCDEFABCDEFABCDEFABCDEFABCDEFABCDEFABCD''" None "Some ''a b''"] by simp
qed

end
