(* ===== verification/Debrid.thy ===== *)
theory Debrid
  imports FileSelection
begin

text \<open>
  Debrid services: the resolvers of \<open>src/debrid/realdebrid.ts\<close>, \<open>alldebrid.ts\<close> and
  \<open>premiumize.ts\<close>. The answers of the external API, call by call, are arguments; a call is kept
  in a log. An answer of the wrong shape makes the code throw and counts as a thrown error. The
  arrow in error texts is the character with code 26. \<open>pick\<close> is the file order chosen where the
  language leaves it open (\<open>scoreAndSelectFile\<close>).
\<close>

datatype error_kind =
    AuthFailure | RateLimited | NetworkError | BadTorrent | UnsupportedOp | ProviderDown | UnknownError

datatype resolution =
    Resolved string file_selection bool "time_ms option"
  | Uncached "string option" "int option" "string option"
  | InvalidTorrent string
  | ProviderError string error_kind bool string

record resolve_input =
  ri_infoHash :: string
  ri_sources :: "string list option"
  ri_fileIdx :: "int option"
  ri_season :: "int option"
  ri_episode :: "int option"
  ri_title :: "string option"
  ri_allowUncached :: bool

type_synonym picker = "file_info list \<Rightarrow> selection_options \<Rightarrow> file_selection"

definition select_file :: "picker \<Rightarrow> file_info list \<Rightarrow> selection_options \<Rightarrow> file_selection" where
  "select_file pick files op = or_else (scoreAndSelectFile files op) (pick files op)"

definition selection_of :: "resolve_input \<Rightarrow> selection_options" where
  "selection_of inp = \<lparr>fo_fileIdx = ri_fileIdx inp, fo_season = ri_season inp, fo_episode = ri_episode inp,
     fo_title = ri_title inp\<rparr>"

definition has_any :: "string list \<Rightarrow> string \<Rightarrow> bool" where
  "has_any ws s = list_ex (str_includes s) ws"

definition isRetryableErrorKind :: "error_kind \<Rightarrow> bool" where
  "isRetryableErrorKind k \<longleftrightarrow> k = RateLimited \<or> k = NetworkError \<or> k = ProviderDown"

definition network_words :: "string list" where
  "network_words = [''timeout'', ''timedout'', ''etimedout'', ''econnreset'', ''econnrefused'', ''enetunreach'', ''enotfound'']"

text \<open>An answer of the API: an exception, a status that is no success, or a body.\<close>

datatype 'a api_answer = ApiThrows string | ApiStatus int | ApiBody 'a

definition arrow :: string where
  "arrow = [CHR 0x1A]"

definition invalid_hash :: "resolve_input \<Rightarrow> resolution" where
  "invalid_hash inp = InvalidTorrent (''Invalid infoHash format: '' @ ri_infoHash inp)"

definition magnet_of :: "resolve_input \<Rightarrow> string" where
  "magnet_of inp = buildMagnet (ri_infoHash inp) (ri_sources inp) (ri_title inp)"

definition is_resolved :: "resolution \<Rightarrow> bool" where
  "is_resolved r \<longleftrightarrow> (case r of Resolved u f c e \<Rightarrow> True | _ \<Rightarrow> False)"

subsection \<open>Real-Debrid\<close>

definition rd_classifyError :: "string \<Rightarrow> error_kind" where
  "rd_classifyError message =
     (let msg = to_lower message in
      if has_any [''401'', ''403'', ''bad_token'', ''token_invalid''] msg then AuthFailure
      else if has_any [''429'', ''rate_limit''] msg then RateLimited
      else if has_any [''infohash'', ''magnet_error'', ''invalid''] msg then BadTorrent
      else if has_any [''500'', ''502'', ''503'', ''504'', ''maintenance''] msg then ProviderDown
      else if has_any network_words msg then NetworkError
      else UnknownError)"

definition rd_call :: "string \<Rightarrow> 'a api_answer \<Rightarrow> string + 'a" where
  "rd_call path answer =
     (case answer of
        ApiThrows m \<Rightarrow> Inl m
      | ApiStatus n \<Rightarrow> Inl (''Real-Debrid '' @ path @ '' '' @ arrow @ '' HTTP '' @ show_int n)
      | ApiBody x \<Rightarrow> Inr x)"

record rd_info =
  rd_status :: string
  rd_progress :: "int option"
  rd_links :: "string list"
  rd_files :: "(int \<times> file_info) list"

text \<open>The calls; the answer to an added magnet is part of the entry.\<close>

datatype rd_event =
    RdAdd string "string option" | RdInfo string | RdSelect string string | RdUnrestrict string | RdDelete string

record rd_api =
  ra_add :: "nat \<Rightarrow> string api_answer"
  ra_info :: "nat \<Rightarrow> rd_info api_answer"
  ra_select :: "nat \<Rightarrow> unit api_answer"
  ra_unrestrict :: "nat \<Rightarrow> string option api_answer"

definition rd_cleanup :: "string \<Rightarrow> rd_event list \<Rightarrow> rd_event list" where
  "rd_cleanup i calls = calls @ [RdDelete i]"

definition dead_statuses :: "string list" where
  "dead_statuses = [''magnet_error'', ''error'', ''virus'', ''dead'']"

definition rd_get_info :: "rd_api \<Rightarrow> string \<Rightarrow> rd_event list \<Rightarrow> (string + rd_info) \<times> rd_event list" where
  "rd_get_info A i calls = (rd_call (''/torrents/info/'' @ i) (ra_info A (length calls)), calls @ [RdInfo i])"

datatype poll_end = PollFailed string | PollDead string | PollDone rd_info

fun rd_poll :: "rd_api \<Rightarrow> string \<Rightarrow> nat \<Rightarrow> rd_info \<Rightarrow> rd_event list \<Rightarrow> poll_end \<times> rd_event list" where
  "rd_poll A i 0 info calls = (PollDone info, calls)"
| "rd_poll A i (Suc k) info calls =
     (case rd_get_info A i calls of
        (Inl m, log1) \<Rightarrow> (PollFailed m, log1)
      | (Inr info1, log1) \<Rightarrow>
          if rd_status info1 = ''downloaded'' \<and> rd_links info1 \<noteq> [] then (PollDone info1, log1)
          else if rd_status info1 \<in> set dead_statuses then (PollDead (rd_status info1), log1)
          else rd_poll A i k info1 log1)"

definition dead_torrent :: "string \<Rightarrow> resolution" where
  "dead_torrent status = InvalidTorrent (''Real-Debrid reports torrent error status: '' @ status)"

definition no_video :: resolution where
  "no_video = InvalidTorrent ''No playable video files found in torrent''"

text \<open>What follows the polling: an uncached torrent, or its first link made direct.\<close>

definition rd_finish ::
  "rd_api \<Rightarrow> resolve_input \<Rightarrow> string \<Rightarrow> file_selection \<Rightarrow> rd_info \<Rightarrow> rd_event list \<Rightarrow>
     (string + resolution) \<times> rd_event list" where
  "rd_finish A inp i selection info calls =
     (if rd_status info \<noteq> ''downloaded'' \<or> rd_links info = []
      then (if ri_allowUncached inp
            then (Inr (Uncached (Some i) (Some (or_else (rd_progress info) 0)) (Some (rd_status info))), calls)
            else (Inr (Uncached None None None), rd_cleanup i calls))
      else (let log1 = calls @ [RdUnrestrict (hd (rd_links info))] in
        case rd_call ''/unrestrict/link'' (ra_unrestrict A (length calls)) of
          Inl m \<Rightarrow> (Inl m, log1)
        | Inr download \<Rightarrow>
            (case or_else download [] of
               [] \<Rightarrow> (Inr (ProviderError ''UNRESTRICT_FAILED'' UnknownError True ''Failed to obtain direct download link''),
                      rd_cleanup i log1)
             | url \<Rightarrow> (Inr (Resolved url selection True None), log1))))"

text \<open>The file asked for, by its id at the service.\<close>

definition rd_target :: "rd_info \<Rightarrow> file_selection \<Rightarrow> string" where
  "rd_target info selection =
     (if nat (fs_index selection) < length (rd_files info)
      then show_int (fst (rd_files info ! nat (fs_index selection))) else ''all'')"

text \<open>The body of the try once the torrent has an id; \<open>Inl\<close> is an exception.\<close>

definition rd_body ::
  "rd_api \<Rightarrow> picker \<Rightarrow> resolve_input \<Rightarrow> string \<Rightarrow> rd_event list \<Rightarrow> (string + resolution) \<times> rd_event list" where
  "rd_body A pick inp i calls =
     (case rd_get_info A i calls of
        (Inl m, log1) \<Rightarrow> (Inl m, log1)
      | (Inr info, log1) \<Rightarrow>
          (let selection = select_file pick (map snd (rd_files info)) (selection_of inp) in
           if fs_index selection < 0 then (Inr no_video, rd_cleanup i log1)
           else
             (let log2 = log1 @ [RdSelect i (rd_target info selection)]
              in case rd_call (''/torrents/selectFiles/'' @ i) (ra_select A (length log1)) of
                   Inl m \<Rightarrow> (Inl m, log2)
                 | Inr _ \<Rightarrow>
                     (case rd_poll A i 4 info log2 of
                        (PollFailed m, log3) \<Rightarrow> (Inl m, log3)
                      | (PollDead status, log3) \<Rightarrow> (Inr (dead_torrent status), rd_cleanup i log3)
                      | (PollDone info1, log3) \<Rightarrow> rd_finish A inp i selection info1 log3))))"

definition resolve_failed :: "(string \<Rightarrow> error_kind) \<Rightarrow> string \<Rightarrow> string \<Rightarrow> resolution" where
  "resolve_failed classify safe m =
     (let kind = classify m in ProviderError ''RESOLVE_FAILED'' kind (isRetryableErrorKind kind) safe)"

definition rd_safe :: string where
  "rd_safe = ''Failed to resolve torrent on Real-Debrid''"

definition rd_resolveCached ::
  "rd_api \<Rightarrow> picker \<Rightarrow> resolve_input \<Rightarrow> rd_event list \<Rightarrow> resolution \<times> rd_event list" where
  "rd_resolveCached A pick inp calls =
     (if \<not> isValidInfoHash (ri_infoHash inp) then (invalid_hash inp, calls)
      else case rd_call ''/torrents/addMagnet'' (ra_add A (length calls)) of
        Inl m \<Rightarrow> (resolve_failed rd_classifyError rd_safe m, calls @ [RdAdd (magnet_of inp) None])
      | Inr i \<Rightarrow>
          (case rd_body A pick inp i (calls @ [RdAdd (magnet_of inp) (Some i)]) of
             (Inr r, log1) \<Rightarrow> (r, log1)
           | (Inl m, log1) \<Rightarrow>
               (resolve_failed rd_classifyError rd_safe m,
                if i \<noteq> [] \<and> \<not> ri_allowUncached inp then rd_cleanup i log1 else log1)))"

definition poll_failed :: "(string \<Rightarrow> error_kind) \<Rightarrow> string \<Rightarrow> string \<Rightarrow> resolution" where
  "poll_failed classify safe m =
     (let kind = classify m in ProviderError ''POLL_TRANSFER_FAILED'' kind (isRetryableErrorKind kind) safe)"

definition rd_poll_safe :: string where
  "rd_poll_safe = ''Failed to poll transfer status from Real-Debrid''"

definition rd_pollTransferStatus ::
  "rd_api \<Rightarrow> picker \<Rightarrow> selection_options \<Rightarrow> string \<Rightarrow> rd_event list \<Rightarrow> resolution \<times> rd_event list" where
  "rd_pollTransferStatus A pick op i calls =
     (case rd_get_info A i calls of
        (Inl m, log1) \<Rightarrow> (poll_failed rd_classifyError rd_poll_safe m, log1)
      | (Inr info, log1) \<Rightarrow>
          if rd_status info \<in> set dead_statuses then (dead_torrent (rd_status info), rd_cleanup i log1)
          else if rd_status info = ''downloaded'' \<and> rd_links info \<noteq> [] then
            (let selection = select_file pick (map snd (rd_files info)) op;
                 log2 = log1 @ [RdUnrestrict (hd (rd_links info))]
             in case rd_call ''/unrestrict/link'' (ra_unrestrict A (length log1)) of
                  Inl m \<Rightarrow> (poll_failed rd_classifyError rd_poll_safe m, log2)
                | Inr download \<Rightarrow>
                    (case or_else download [] of
                       [] \<Rightarrow> (ProviderError ''UNRESTRICT_FAILED'' UnknownError True
                               ''Failed to obtain direct download link'', log2)
                     | url \<Rightarrow> (Resolved url selection False None, log2)))
          else (Uncached (Some i) (Some (or_else (rd_progress info) 0)) (Some (rd_status info)), log1))"

subsection \<open>AllDebrid\<close>

definition ad_classifyError :: "string \<Rightarrow> error_kind" where
  "ad_classifyError message =
     (let msg = to_lower message in
      if has_any [''auth_bad_apikey'', ''auth_missing_apikey'', ''auth_blocked'', ''auth_user_banned'', ''401'', ''403''] msg
      then AuthFailure
      else if has_any [''429'', ''too_many_requests''] msg then RateLimited
      else if has_any [''magnet_invalid_id'', ''magnet_must_be_completed'', ''invalid_magnet''] msg then BadTorrent
      else if has_any [''500'', ''502'', ''503'', ''504'', ''maintenance''] msg then ProviderDown
      else if has_any network_words msg then NetworkError
      else UnknownError)"

text \<open>The envelope of an answer: its data on success, the message of its error otherwise.\<close>

datatype 'a envelope = AdSuccess "'a option" | AdError "string option"

definition ad_call :: "string \<Rightarrow> 'a envelope api_answer \<Rightarrow> string + 'a" where
  "ad_call path answer =
     (case answer of
        ApiThrows m \<Rightarrow> Inl m
      | ApiStatus n \<Rightarrow> Inl (''AllDebrid '' @ path @ '' '' @ arrow @ '' HTTP '' @ show_int n)
      | ApiBody (AdSuccess (Some x)) \<Rightarrow> Inr x
      | ApiBody (AdSuccess None) \<Rightarrow> Inl (''AllDebrid '' @ path @ '' error'')
      | ApiBody (AdError m) \<Rightarrow>
          Inl (if or_else m [] = [] then ''AllDebrid '' @ path @ '' error'' else or_else m []))"

record ad_magnet =
  am_id :: int
  am_ready :: "bool option"

record ad_status =
  as_statusCode :: int
  as_status :: "string option"
  as_ready :: bool
  as_downloaded :: int
  as_total :: int
  as_links :: "(string \<times> file_info) list"

datatype ad_event = AdUpload string "int option" | AdStatus string | AdUnlock string | AdDelete string

record ad_api =
  aa_upload :: "nat \<Rightarrow> ad_magnet list envelope api_answer"
  aa_status :: "nat \<Rightarrow> ad_status option envelope api_answer"
  aa_unlock :: "nat \<Rightarrow> string option envelope api_answer"

definition ad_cleanup :: "string \<Rightarrow> ad_event list \<Rightarrow> ad_event list" where
  "ad_cleanup i calls = calls @ [AdDelete i]"

definition ad_unlock ::
  "ad_api \<Rightarrow> string \<Rightarrow> ad_event list \<Rightarrow> (string + string) \<times> ad_event list" where
  "ad_unlock A link calls =
     (map_sum id (\<lambda>l. or_else l []) (ad_call ''/link/unlock'' (aa_unlock A (length calls))), calls @ [AdUnlock link])"

text \<open>The body of the try after the upload; \<open>i\<close> is the magnet's id as text.\<close>

definition ad_body ::
  "ad_api \<Rightarrow> picker \<Rightarrow> resolve_input \<Rightarrow> ad_magnet \<Rightarrow> ad_event list \<Rightarrow> (string + resolution) \<times> ad_event list" where
  "ad_body A pick inp m calls =
     (let i = show_int (am_id m) in
      if am_ready m = Some False then
        (if ri_allowUncached inp then (Inr (Uncached (Some i) (Some 0) None), calls)
         else (Inr (Uncached None None None), ad_cleanup i calls))
      else
        (let log1 = calls @ [AdStatus i] in
         case ad_call ''/magnet/status'' (aa_status A (length calls)) of
           Inl msg \<Rightarrow> (Inl msg, log1)
         | Inr st \<Rightarrow>
             (let links = (case st of None \<Rightarrow> [] | Some x \<Rightarrow> as_links x) in
              if links = []
              then (Inr (InvalidTorrent ''No links available in AllDebrid magnet''), ad_cleanup i log1)
              else
                (let selection = select_file pick (map snd links) (selection_of inp) in
                 if fs_index selection < 0 then (Inr no_video, ad_cleanup i log1)
                 else (case ad_unlock A (fst (links ! nat (fs_index selection))) log1 of
                   (Inl msg, log2) \<Rightarrow> (Inl msg, log2)
                 | (Inr [], log2) \<Rightarrow>
                     (Inr (ProviderError ''UNLOCK_FAILED'' UnknownError True ''Failed to unlock direct link from AllDebrid''),
                      ad_cleanup i log2)
                 | (Inr url, log2) \<Rightarrow> (Inr (Resolved url selection True None), log2))))))"

definition ad_safe :: string where
  "ad_safe = ''Failed to resolve torrent on AllDebrid''"

definition ad_resolveCached ::
  "ad_api \<Rightarrow> picker \<Rightarrow> resolve_input \<Rightarrow> ad_event list \<Rightarrow> resolution \<times> ad_event list" where
  "ad_resolveCached A pick inp calls =
     (if \<not> isValidInfoHash (ri_infoHash inp) then (invalid_hash inp, calls)
      else case ad_call ''/magnet/upload'' (aa_upload A (length calls)) of
        Inl msg \<Rightarrow> (resolve_failed ad_classifyError ad_safe msg, calls @ [AdUpload (magnet_of inp) None])
      | Inr [] \<Rightarrow> (InvalidTorrent ''Failed to upload magnet to AllDebrid'', calls @ [AdUpload (magnet_of inp) None])
      | Inr (m # _) \<Rightarrow>
          (case ad_body A pick inp m (calls @ [AdUpload (magnet_of inp) (Some (am_id m))]) of
             (Inr r, log1) \<Rightarrow> (r, log1)
           | (Inl msg, log1) \<Rightarrow>
               (resolve_failed ad_classifyError ad_safe msg,
                if am_id m \<noteq> 0 \<and> \<not> ri_allowUncached inp then ad_cleanup (show_int (am_id m)) log1 else log1)))"

definition ad_poll_safe :: string where
  "ad_poll_safe = ''Failed to poll transfer status from AllDebrid''"

definition ad_pollTransferStatus ::
  "ad_api \<Rightarrow> picker \<Rightarrow> selection_options \<Rightarrow> string \<Rightarrow> ad_event list \<Rightarrow> resolution \<times> ad_event list" where
  "ad_pollTransferStatus A pick op i calls =
     (let log1 = calls @ [AdStatus i] in
      case ad_call ''/magnet/status'' (aa_status A (length calls)) of
        Inl msg \<Rightarrow> (poll_failed ad_classifyError ad_poll_safe msg, log1)
      | Inr None \<Rightarrow> (InvalidTorrent ''AllDebrid transfer not found'', log1)
      | Inr (Some m) \<Rightarrow>
          if 5 \<le> as_statusCode m
          then (InvalidTorrent (''AllDebrid transfer failed with status code '' @ show_int (as_statusCode m) @ '': '' @
                  or_else (as_status m) ''error''), ad_cleanup i log1)
          else if as_links m \<noteq> [] then
            (let selection = select_file pick (map snd (as_links m)) op in
             if fs_index selection < 0 then (no_video, ad_cleanup i log1)
             else (case ad_unlock A (fst (as_links m ! nat (fs_index selection))) log1 of
               (Inl msg, log2) \<Rightarrow> (poll_failed ad_classifyError ad_poll_safe msg, log2)
             | (Inr [], log2) \<Rightarrow>
                 (ProviderError ''UNLOCK_FAILED'' UnknownError True ''Failed to unlock direct link from AllDebrid'', log2)
             | (Inr url, log2) \<Rightarrow> (Resolved url selection False None, log2)))
          else (Uncached (Some i)
                  (Some (if as_downloaded m \<noteq> 0 \<and> 0 < as_total m
                         then math_round (of_int (as_downloaded m) / of_int (as_total m) * 100) else 0))
                  (as_status m), log1))"

text \<open>\<open>getLinkExpiry\<close>: the first non-empty of three parameters, in seconds or milliseconds.\<close>

definition param_of :: "full_url \<Rightarrow> string \<Rightarrow> string" where
  "param_of u k = or_else (jm_get (fu_params u) k) []"

definition link_expiry_param :: "full_url \<Rightarrow> string" where
  "link_expiry_param u =
     (case filter (\<lambda>t. t \<noteq> []) (map (param_of u) [''expires'', ''exp'', ''e'']) of [] \<Rightarrow> [] | t # _ \<Rightarrow> t)"

definition getLinkExpiry :: "(string \<Rightarrow> full_url option) \<Rightarrow> (string \<Rightarrow> int option) \<Rightarrow> string \<Rightarrow> time_ms option" where
  "getLinkExpiry parse parse_int url =
     (case parse url of
        None \<Rightarrow> None
      | Some u \<Rightarrow>
          if link_expiry_param u = [] then None
          else case parse_int (link_expiry_param u) of
            None \<Rightarrow> None
          | Some ts \<Rightarrow> if 0 < ts then Some (if 100000000000 < ts then ts else ts * 1000) else None)"

subsection \<open>Premiumize\<close>

definition pm_classifyError :: "string \<Rightarrow> error_kind" where
  "pm_classifyError message =
     (let msg = to_lower message in
      if has_any [''not_logged_in'', ''invalid api key'', ''401'', ''403''] msg then AuthFailure
      else if has_any [''429'', ''rate_limit''] msg then RateLimited
      else if has_any [''invalid_url'', ''invalid''] msg then BadTorrent
      else if has_any [''500'', ''502'', ''503'', ''504''] msg then ProviderDown
      else if has_any network_words msg then NetworkError
      else UnknownError)"

record pm_item =
  pi_file :: file_info
  pi_link :: string
  pi_stream_link :: string

record pm_reply =
  pr_status :: "string option"
  pr_content :: "pm_item list"

definition pm_resolveCached :: "pm_reply api_answer \<Rightarrow> picker \<Rightarrow> resolve_input \<Rightarrow> resolution" where
  "pm_resolveCached answer pick inp =
     (if \<not> isValidInfoHash (ri_infoHash inp) then invalid_hash inp
      else case answer of
        ApiThrows m \<Rightarrow>
          (let kind = pm_classifyError m in
           ProviderError ''PREMIUMIZE_API_ERROR'' kind (kind = NetworkError \<or> kind = RateLimited) m)
      | ApiStatus n \<Rightarrow>
          (let kind = pm_classifyError (''HTTP '' @ show_int n) in
           ProviderError ''PREMIUMIZE_HTTP_ERROR'' kind (kind = RateLimited)
             (''Premiumize responded with HTTP '' @ show_int n))
      | ApiBody d \<Rightarrow>
          if pr_status d \<noteq> Some ''success'' \<or> pr_content d = [] then Uncached None None None
          else
            (let selection = select_file pick (map pi_file (pr_content d)) (selection_of inp) in
             if fs_index selection < 0 then no_video
             else
               (let chosen = pr_content d ! nat (fs_index selection);
                    finalUrl = (if pi_stream_link chosen \<noteq> [] then pi_stream_link chosen else pi_link chosen)
                in if finalUrl = []
                   then ProviderError ''NO_STREAM_LINK'' UnknownError False ''No stream link provided by Premiumize''
                   else Resolved finalUrl selection True None)))"

subsection \<open>Credentials\<close>

record check_result =
  ck_ok :: bool
  ck_user :: "string option"
  ck_expiresAt :: "time_ms option"
  ck_premiumDays :: "int option"
  ck_error :: "string option"
  ck_kind :: "error_kind option"

definition check_failed :: "(string \<Rightarrow> error_kind) \<Rightarrow> string \<Rightarrow> check_result" where
  "check_failed classify m = \<lparr>ck_ok = False, ck_user = None, ck_expiresAt = None, ck_premiumDays = None,
     ck_error = Some m, ck_kind = Some (classify m)\<rparr>"

definition days_left :: "time_ms \<Rightarrow> time_ms \<Rightarrow> int" where
  "days_left now ends = max 0 ((ends - now) div 86400000)"

record rd_user =
  ru_username :: "string option"
  ru_premium :: "int option"
  ru_expiration :: "time_ms option"

definition rd_checkCredentials :: "time_ms \<Rightarrow> rd_user api_answer \<Rightarrow> check_result" where
  "rd_checkCredentials now answer =
     (case rd_call ''/user'' answer of
        Inl m \<Rightarrow> check_failed rd_classifyError m
      | Inr u \<Rightarrow>
          \<lparr>ck_ok = True, ck_user = ru_username u, ck_expiresAt = ru_expiration u,
           ck_premiumDays = (if or_else (ru_premium u) 0 \<noteq> 0 then Some (or_else (ru_premium u) 0 div 86400)
             else map_option (days_left now) (ru_expiration u)), ck_error = None, ck_kind = None\<rparr>)"

text \<open>The two others read a name and an end of subscription in seconds; zero is none.\<close>

definition paid_until :: "time_ms \<Rightarrow> string option \<times> int \<Rightarrow> check_result" where
  "paid_until now u =
     (let ends = (if snd u = 0 then None else Some (snd u * 1000)) in
      \<lparr>ck_ok = True, ck_user = fst u, ck_expiresAt = ends, ck_premiumDays = map_option (days_left now) ends,
       ck_error = None, ck_kind = None\<rparr>)"

definition ad_checkCredentials :: "time_ms \<Rightarrow> (string option \<times> int) envelope api_answer \<Rightarrow> check_result" where
  "ad_checkCredentials now answer =
     (case ad_call ''/user'' answer of Inl m \<Rightarrow> check_failed ad_classifyError m | Inr u \<Rightarrow> paid_until now u)"

definition pm_checkCredentials :: "time_ms \<Rightarrow> (string option \<times> string option \<times> int) api_answer \<Rightarrow> check_result" where
  "pm_checkCredentials now answer =
     (case answer of
        ApiThrows m \<Rightarrow> check_failed pm_classifyError m
      | ApiStatus n \<Rightarrow> check_failed pm_classifyError (''HTTP '' @ show_int n)
      | ApiBody (status, u) \<Rightarrow>
          if status \<noteq> Some ''success'' then check_failed pm_classifyError ''invalid api key'' else paid_until now u)"


subsection \<open>Nothing is left on the account\<close>

text \<open>
  The contract of a resolver: without leave to start transfers, a resolution that gives no link
  removes the torrent it created, and a resolution takes few calls. \<open>created\<close> and \<open>removed\<close> read the
  ids off an entry of the log.
\<close>

locale torrent_account =
  fixes resolve :: "resolve_input \<Rightarrow> resolution \<times> 'e list"
    and created :: "'e \<Rightarrow> string option"
    and removed :: "'e \<Rightarrow> string option"
  assumes frees: "\<lbrakk>resolve inp = (r, calls); \<not> ri_allowUncached inp; \<not> is_resolved r; e \<in> set calls; created e = Some i\<rbrakk>
      \<Longrightarrow> Some i \<in> removed ` set calls"
    and few_calls: "resolve inp = (r, calls) \<Longrightarrow> length calls \<le> 9"
begin

lemma batch_frees:
  assumes "\<And>inp. inp \<in> set inps \<Longrightarrow> \<not> ri_allowUncached inp \<and> \<not> is_resolved (fst (resolve inp))"
    "e \<in> set (concat (map (snd \<circ> resolve) inps))" "created e = Some i"
  shows "Some i \<in> removed ` set (concat (map (snd \<circ> resolve) inps))"
proof -
  obtain inp where inp: "inp \<in> set inps" "e \<in> set (snd (resolve inp))"
    using assms(2) by auto
  then have "Some i \<in> removed ` set (snd (resolve inp))"
    using frees [of inp "fst (resolve inp)" "snd (resolve inp)" e i] assms(1,3) by simp
  then show ?thesis using inp(1) by auto
qed

lemma batch_calls: "length (concat (map (snd \<circ> resolve) inps)) \<le> 9 * length inps"
proof (induction inps)
  case (Cons inp inps)
  then show ?case
    using few_calls [of inp "fst (resolve inp)" "snd (resolve inp)"] by simp
qed simp

end

definition rd_created :: "rd_event \<Rightarrow> string option" where
  "rd_created e = (case e of RdAdd m (Some i) \<Rightarrow> if i = [] then None else Some i | _ \<Rightarrow> None)"

definition rd_removed :: "rd_event \<Rightarrow> string option" where
  "rd_removed e = (case e of RdDelete i \<Rightarrow> Some i | _ \<Rightarrow> None)"

definition ad_created :: "ad_event \<Rightarrow> string option" where
  "ad_created e = (case e of AdUpload m (Some n) \<Rightarrow> if n = 0 then None else Some (show_int n) | _ \<Rightarrow> None)"

definition ad_removed :: "ad_event \<Rightarrow> string option" where
  "ad_removed e = (case e of AdDelete i \<Rightarrow> Some i | _ \<Rightarrow> None)"

text \<open>The calls made after the upload: none of them creates, and there are at most so many.\<close>

definition extends_by :: "nat \<Rightarrow> ('e \<Rightarrow> bool) \<Rightarrow> 'e list \<Rightarrow> 'e list \<Rightarrow> bool" where
  "extends_by n P xs ys \<longleftrightarrow> (\<exists>zs. ys = xs @ zs \<and> length zs \<le> n \<and> list_all P zs)"

lemma extends_refl: "extends_by n P xs xs"
  by (simp add: extends_by_def)

lemma extends_snoc: "extends_by n P xs ys \<Longrightarrow> P e \<Longrightarrow> extends_by (Suc n) P xs (ys @ [e])"
  by (auto simp: extends_by_def)

lemma extends_step: "extends_by n P (xs @ [e]) ys \<Longrightarrow> P e \<Longrightarrow> extends_by (Suc n) P xs ys"
  by (auto simp: extends_by_def)

lemma extends_mono: "extends_by n P xs ys \<Longrightarrow> n \<le> m \<Longrightarrow> extends_by m P xs ys"
  by (auto simp: extends_by_def)

lemma extends_trans: "extends_by n P xs ys \<Longrightarrow> extends_by m P ys zs \<Longrightarrow> extends_by (n + m) P xs zs"
  by (fastforce simp: extends_by_def)

definition rd_later :: "rd_event \<Rightarrow> bool" where
  "rd_later e \<longleftrightarrow> rd_created e = None"

lemma rd_later_simps [simp]:
  "rd_later (RdInfo i)" "rd_later (RdSelect i t)" "rd_later (RdUnrestrict l)" "rd_later (RdDelete i)"
  by (simp_all add: rd_later_def rd_created_def)

lemma rd_created_delete [simp]: "rd_created (RdDelete i) = None"
  by (simp add: rd_created_def)

lemma rd_poll_extends: "rd_poll A i k info calls = (e, calls') \<Longrightarrow> extends_by k rd_later calls calls'"
proof (induction A i k info calls rule: rd_poll.induct)
  case (2 A i k info calls)
  show ?case
  proof (cases "fst (rd_get_info A i calls)")
    case (Inl m)
    then show ?thesis
      using 2(2) by (auto simp: rd_get_info_def extends_by_def)
  next
    case (Inr info1)
    then have g: "rd_get_info A i calls = (Inr info1, calls @ [RdInfo i])"
      by (simp add: rd_get_info_def)
    show ?thesis
    proof (cases "rd_status info1 = ''downloaded'' \<and> rd_links info1 \<noteq> [] \<or> rd_status info1 \<in> set dead_statuses")
      case True
      then show ?thesis using 2(2) g by (auto simp: extends_by_def split: if_splits)
    next
      case False
      then have "extends_by k rd_later (calls @ [RdInfo i]) calls'"
        using 2(1) [OF g [symmetric] refl] 2(2) g by auto
      then show ?thesis by (rule extends_step) simp
    qed
  qed
qed (simp add: extends_refl)

text \<open>Outcome of a try block: few later calls, and a torrent that gives no link is removed.\<close>

definition tidy :: "nat \<Rightarrow> ('e \<Rightarrow> bool) \<Rightarrow> 'e \<Rightarrow> bool \<Rightarrow> 'e list \<Rightarrow> (string + resolution) \<times> 'e list \<Rightarrow> bool" where
  "tidy n P del keep calls out \<longleftrightarrow>
     (case fst out of
        Inl m \<Rightarrow> extends_by n P calls (snd out)
      | Inr x \<Rightarrow> extends_by (Suc n) P calls (snd out) \<and> (is_resolved x \<or> keep \<or> del \<in> set (snd out)))"

lemma tidy_step: "tidy n P del keep (calls @ [e]) out \<Longrightarrow> P e \<Longrightarrow> tidy (Suc n) P del keep calls out"
  by (auto simp: tidy_def dest: extends_step split: sum.splits)

lemma tidy_trans: "extends_by m P calls calls1 \<Longrightarrow> tidy n P del keep calls1 out \<Longrightarrow> tidy (m + n) P del keep calls out"
  by (auto simp: tidy_def dest: extends_trans split: sum.splits)

lemma tidy_mono: "tidy n P del keep calls out \<Longrightarrow> n \<le> m \<Longrightarrow> tidy m P del keep calls out"
  by (auto simp: tidy_def dest: extends_mono split: sum.splits)

lemma rd_finish_tidy: "tidy 1 rd_later (RdDelete i) (ri_allowUncached inp) calls (rd_finish A inp i sel info calls)"
  by (auto simp: tidy_def rd_finish_def rd_cleanup_def is_resolved_def Let_def extends_by_def
      split: sum.splits list.splits)

lemma rd_body_tidy: "tidy 7 rd_later (RdDelete i) (ri_allowUncached inp) calls (rd_body A pick inp i calls)"
proof (cases "fst (rd_get_info A i calls)")
  case (Inl m)
  then show ?thesis by (auto simp: rd_body_def rd_get_info_def tidy_def extends_by_def)
next
  case (Inr info)
  then have g: "rd_get_info A i calls = (Inr info, calls @ [RdInfo i])"
    by (simp add: rd_get_info_def)
  let ?sel = "select_file pick (map snd (rd_files info)) (selection_of inp)"
  let ?calls2 = "(calls @ [RdInfo i]) @ [RdSelect i (rd_target info ?sel)]"
  obtain e calls3 where poll: "rd_poll A i 4 info ?calls2 = (e, calls3)"
    by (metis surj_pair)
  note ext = rd_poll_extends [OF poll]
  have after: "tidy 5 rd_later (RdDelete i) (ri_allowUncached inp) ?calls2
      (case e of PollFailed m \<Rightarrow> (Inl m, calls3)
        | PollDead status \<Rightarrow> (Inr (dead_torrent status), rd_cleanup i calls3)
        | PollDone info1 \<Rightarrow> rd_finish A inp i ?sel info1 calls3)"
  proof (cases e)
    case (PollDone info1)
    then show ?thesis using tidy_trans [OF ext rd_finish_tidy] by simp
  qed (use ext in \<open>auto simp: tidy_def rd_cleanup_def extends_by_def\<close>)
  have body: "rd_body A pick inp i calls =
      (if fs_index ?sel < 0 then (Inr no_video, rd_cleanup i (calls @ [RdInfo i]))
       else case rd_call (''/torrents/selectFiles/'' @ i) (ra_select A (length (calls @ [RdInfo i]))) of
         Inl m \<Rightarrow> (Inl m, ?calls2)
       | Inr _ \<Rightarrow>
           (case e of PollFailed m \<Rightarrow> (Inl m, calls3)
             | PollDead status \<Rightarrow> (Inr (dead_torrent status), rd_cleanup i calls3)
             | PollDone info1 \<Rightarrow> rd_finish A inp i ?sel info1 calls3))"
    using poll by (cases e) (simp_all add: rd_body_def g Let_def split: sum.split)
  have rest: "tidy 7 rd_later (RdDelete i) (ri_allowUncached inp) calls
      (case e of PollFailed m \<Rightarrow> (Inl m, calls3)
        | PollDead status \<Rightarrow> (Inr (dead_torrent status), rd_cleanup i calls3)
        | PollDone info1 \<Rightarrow> rd_finish A inp i ?sel info1 calls3)"
    using tidy_step [OF tidy_step [OF after]] by simp
  have none: "tidy 7 rd_later (RdDelete i) (ri_allowUncached inp) calls (Inr no_video, rd_cleanup i (calls @ [RdInfo i]))"
    "tidy 7 rd_later (RdDelete i) (ri_allowUncached inp) calls (Inl m, ?calls2)" for m
    by (simp_all add: tidy_def rd_cleanup_def extends_by_def)
  show ?thesis
    unfolding body by (simp only: rest none split: if_split sum.split) simp
qed

lemma settled:
  assumes "tidy n P del keep [c0] (x, calls1)"
    "(r, calls) = (case x of Inr y \<Rightarrow> (y, calls1) | Inl m \<Rightarrow> (failed m, if ok \<and> \<not> keep then calls1 @ [del] else calls1))"
  shows "length calls \<le> n + 2" and "\<not> keep \<Longrightarrow> \<not> is_resolved r \<Longrightarrow> ok \<Longrightarrow> del \<in> set calls"
    and "e \<in> set calls \<Longrightarrow> e = c0 \<or> e = del \<or> P e"
  using assms by (cases x; auto simp: tidy_def extends_by_def list_all_iff split: if_splits)+

lemma rd_frees:
  assumes "rd_resolveCached A pick inp [] = (r, calls)"
  shows "length calls \<le> 9 \<and> (\<not> ri_allowUncached inp \<longrightarrow> \<not> is_resolved r \<longrightarrow> e \<in> set calls \<longrightarrow> rd_created e = Some i
      \<longrightarrow> RdDelete i \<in> set calls)"
proof (cases "\<exists>t. isValidInfoHash (ri_infoHash inp) \<and> rd_call ''/torrents/addMagnet'' (ra_add A 0) = Inr t")
  case False
  then show ?thesis
    using assms
    by (cases "rd_call ''/torrents/addMagnet'' (ra_add A 0)") (auto simp: rd_resolveCached_def rd_created_def split: if_splits)
next
  case True
  then obtain t where t: "isValidInfoHash (ri_infoHash inp)" "rd_call ''/torrents/addMagnet'' (ra_add A 0) = Inr t"
    by blast
  let ?c0 = "RdAdd (magnet_of inp) (Some t)"
  obtain x calls1 where body: "rd_body A pick inp t [?c0] = (x, calls1)"
    by (metis surj_pair)
  have run: "(r, calls) = (case x of Inr y \<Rightarrow> (y, calls1) | Inl m \<Rightarrow> (resolve_failed rd_classifyError rd_safe m,
      if t \<noteq> [] \<and> \<not> ri_allowUncached inp then calls1 @ [RdDelete t] else calls1))"
    using assms t body by (cases x) (auto simp: rd_resolveCached_def rd_cleanup_def)
  note s = settled [OF rd_body_tidy [of t inp "[?c0]" A pick, unfolded body] run]
  have "RdDelete i \<in> set calls" if "\<not> ri_allowUncached inp" "\<not> is_resolved r" "e \<in> set calls" "rd_created e = Some i"
  proof -
    have "e = ?c0" using s(3) [OF that(3)] that(4) by (auto simp: rd_later_def)
    then have "t = i \<and> t \<noteq> []" using that(4) by (simp add: rd_created_def split: if_splits)
    then show ?thesis using s(2) that(1,2) by blast
  qed
  then show ?thesis using s(1) by simp
qed

interpretation rd: torrent_account "\<lambda>inp. rd_resolveCached A pick inp []" rd_created rd_removed for A pick
  by unfold_locales (use rd_frees in \<open>force simp: rd_removed_def image_iff\<close>)+

definition ad_later :: "ad_event \<Rightarrow> bool" where
  "ad_later e \<longleftrightarrow> ad_created e = None"

lemma ad_later_simps [simp]: "ad_later (AdStatus i)" "ad_later (AdUnlock l)" "ad_later (AdDelete i)"
  by (simp_all add: ad_later_def ad_created_def)

lemma ad_created_delete [simp]: "ad_created (AdDelete i) = None"
  by (simp add: ad_created_def)

lemma ad_body_tidy:
  "tidy 2 ad_later (AdDelete (show_int (am_id m))) (ri_allowUncached inp) calls (ad_body A pick inp m calls)"
  by (auto simp: ad_body_def Let_def ad_unlock_def ad_cleanup_def tidy_def extends_by_def is_resolved_def
      split: sum.splits list.splits option.splits)

lemma ad_frees:
  assumes "ad_resolveCached A pick inp [] = (r, calls)"
  shows "length calls \<le> 9 \<and> (\<not> ri_allowUncached inp \<longrightarrow> \<not> is_resolved r \<longrightarrow> e \<in> set calls \<longrightarrow> ad_created e = Some i
      \<longrightarrow> AdDelete i \<in> set calls)"
proof (cases "\<exists>m ms. isValidInfoHash (ri_infoHash inp) \<and> ad_call ''/magnet/upload'' (aa_upload A 0) = Inr (m # ms)")
  case False
  then show ?thesis
    using assms
    by (cases "ad_call ''/magnet/upload'' (aa_upload A 0)")
       (auto simp: ad_resolveCached_def ad_created_def split: if_splits list.splits)
next
  case True
  then obtain m ms where t: "isValidInfoHash (ri_infoHash inp)" "ad_call ''/magnet/upload'' (aa_upload A 0) = Inr (m # ms)"
    by blast
  let ?c0 = "AdUpload (magnet_of inp) (Some (am_id m))"
  obtain x calls1 where body: "ad_body A pick inp m [?c0] = (x, calls1)"
    by (metis surj_pair)
  have run: "(r, calls) = (case x of Inr y \<Rightarrow> (y, calls1) | Inl msg \<Rightarrow> (resolve_failed ad_classifyError ad_safe msg,
      if am_id m \<noteq> 0 \<and> \<not> ri_allowUncached inp then calls1 @ [AdDelete (show_int (am_id m))] else calls1))"
    using assms t body by (cases x) (auto simp: ad_resolveCached_def ad_cleanup_def)
  note s = settled [OF ad_body_tidy [of m inp "[?c0]" A pick, unfolded body] run]
  have "AdDelete i \<in> set calls" if "\<not> ri_allowUncached inp" "\<not> is_resolved r" "e \<in> set calls" "ad_created e = Some i"
  proof -
    have "e = ?c0" using s(3) [OF that(3)] that(4) by (auto simp: ad_later_def)
    then have "show_int (am_id m) = i \<and> am_id m \<noteq> 0" using that(4) by (simp add: ad_created_def split: if_splits)
    then show ?thesis using s(2) that(1,2) by blast
  qed
  then show ?thesis using s(1) by simp
qed

interpretation ad: torrent_account "\<lambda>inp. ad_resolveCached A pick inp []" ad_created ad_removed for A pick
  by unfold_locales (use ad_frees in \<open>force simp: ad_removed_def image_iff\<close>)+


definition demo_input :: resolve_input where
  "demo_input = \<lparr>ri_infoHash = replicate 40 CHR ''a'', ri_sources = None, ri_fileIdx = None, ri_season = None,
     ri_episode = None, ri_title = None, ri_allowUncached = False\<rparr>"

text \<open>The service accepts the magnet and then fails.\<close>

definition failing_rd :: rd_api where
  "failing_rd = \<lparr>ra_add = (\<lambda>_. ApiBody ''T1''), ra_info = (\<lambda>_. ApiStatus 503), ra_select = (\<lambda>_. ApiBody ()),
     ra_unrestrict = (\<lambda>_. ApiBody None)\<rparr>"

lemma demo_hash_ok: "isValidInfoHash (ri_infoHash demo_input)"
  by code_simp

lemma failing_run:
  "rd_resolveCached failing_rd pick demo_input [] =
     (resolve_failed rd_classifyError rd_safe (''Real-Debrid /torrents/info/T1 '' @ arrow @ '' HTTP 503''),
      [RdAdd (magnet_of demo_input) (Some ''T1''), RdInfo ''T1'', RdDelete ''T1''])"
proof -
  have "show_int 503 = ''503''" by code_simp
  moreover have "\<not> ri_allowUncached demo_input" by (simp add: demo_input_def)
  ultimately show ?thesis
    by (simp add: rd_resolveCached_def demo_hash_ok rd_call_def failing_rd_def rd_body_def rd_get_info_def rd_cleanup_def)
qed


text \<open>The same for AllDebrid, one resolution.\<close>

lemma no_magnet_left:
  assumes "ad_resolveCached A pick inp [] = (r, calls)" "\<not> ri_allowUncached inp" "\<not> is_resolved r"
    "AdUpload m (Some n) \<in> set calls" "n \<noteq> 0"
  shows "AdDelete (show_int n) \<in> set calls"
proof -
  have "Some (show_int n) \<in> ad_removed ` set calls"
    using ad.frees [OF assms(1-4), of "show_int n"] assms(5) by (simp add: ad_created_def)
  then show ?thesis by (force simp: ad_removed_def split: ad_event.splits)
qed

subsection \<open>Where errors are misread\<close>

text \<open>
  The text of a Real-Debrid error holds the torrent's id, and the classes are searched for in the
  whole text: a server error on a torrent whose id contains 401 is an authentication failure.
\<close>

lemma torrent_id_reads_as_auth_failure:
  "rd_call ''/torrents/info/X401'' (ApiStatus 503 :: rd_info api_answer) =
     Inl (''Real-Debrid /torrents/info/X401 '' @ arrow @ '' HTTP 503'') \<and>
   rd_classifyError (''Real-Debrid /torrents/info/X401 '' @ arrow @ '' HTTP 503'') = AuthFailure"
proof -
  have "show_int 503 = ''503''" by code_simp
  then show ?thesis by (simp add: rd_call_def) code_simp
qed

text \<open>The message of an aborted request has none of the words of a network error.\<close>

lemma abort_is_unknown: "rd_classifyError ''This operation was aborted'' = UnknownError"
  by code_simp

text \<open>Premiumize reports a refused key with status 200 and an error status: it reads as an uncached torrent.\<close>

lemma refused_key_reads_uncached:
  "isValidInfoHash (ri_infoHash inp) \<Longrightarrow>
     pm_resolveCached (ApiBody \<lparr>pr_status = Some ''error'', pr_content = []\<rparr>) pick inp = Uncached None None None"
  by (simp add: pm_resolveCached_def)

text \<open>With leave to start transfers an exception keeps the torrent and does not tell its id.\<close>

lemma exception_keeps_torrent:
  "rd_resolveCached failing_rd pick (demo_input\<lparr>ri_allowUncached := True\<rparr>) [] =
     (resolve_failed rd_classifyError rd_safe (''Real-Debrid /torrents/info/T1 '' @ arrow @ '' HTTP 503''),
      [RdAdd (magnet_of demo_input) (Some ''T1''), RdInfo ''T1''])"
proof -
  have "show_int 503 = ''503''" by code_simp
  moreover have "isValidInfoHash (ri_infoHash (demo_input\<lparr>ri_allowUncached := True\<rparr>))"
    using demo_hash_ok by simp
  ultimately show ?thesis
    by (simp add: rd_resolveCached_def rd_call_def failing_rd_def rd_body_def rd_get_info_def magnet_of_def)
qed

text \<open>
  \<open>pollTransferStatus\<close> does not look at the index it selected: a finished transfer without any
  video is resolved to its first link.
\<close>

lemma poll_resolves_without_video:
  "fst (rd_pollTransferStatus
     \<lparr>ra_add = (\<lambda>_. ApiBody []), ra_info = (\<lambda>_. ApiBody \<lparr>rd_status = ''downloaded'', rd_progress = None,
        rd_links = [''l''], rd_files = []\<rparr>), ra_select = (\<lambda>_. ApiBody ()), ra_unrestrict = (\<lambda>_. ApiBody (Some ''u''))\<rparr>
     pick (selection_of demo_input) ''T1'' []) = Resolved ''u'' (no_selection [] 0 ''no_files_available'') False None"
  by (simp add: rd_pollTransferStatus_def rd_get_info_def rd_call_def select_file_def scoreAndSelectFile_def
      dead_statuses_def)

end
