(* ===== verification/DebridService.thy ===== *)
theory DebridService
  imports Debrid "HOL-Library.Sublist"
begin

text \<open>
  The debrid service of \<open>src/debrid/service.ts\<close>: one resolver, a cache of links for an hour and the
  record of authentication failures; and \<open>src/debrid/torrentSources.ts\<close>, which resolves the
  torrents of an answer. A resolution is two steps, up to the call of the resolver and after it, so
  that a reconfiguration can come between. Metrics and spans are left out; an alert is a log entry.
\<close>

datatype debrid_provider = NoProvider | RealDebrid | AllDebrid | Premiumize

fun provider_name :: "debrid_provider \<Rightarrow> string" where
  "provider_name NoProvider = ''none''"
| "provider_name RealDebrid = ''realdebrid''"
| "provider_name AllDebrid = ''alldebrid''"
| "provider_name Premiumize = ''premiumize''"

record debrid_config =
  dc_provider :: debrid_provider
  dc_apiKey :: string
  dc_source :: "string option"

record link_entry =
  le_url :: string
  le_file :: file_selection
  le_expiresAt :: time_ms

definition CACHE_TTL_MS :: int where "CACHE_TTL_MS = 3600000"
definition CACHE_MAX :: nat where "CACHE_MAX = 500"
definition AUTH_FAILURE_ALERT_THRESHOLD :: nat where "AUTH_FAILURE_ALERT_THRESHOLD = 3"
definition AUTH_FAILURE_ALERT_WINDOW_MS :: int where "AUTH_FAILURE_ALERT_WINDOW_MS = 900000"

text \<open>\<open>ds_audit\<close>: each recorded failure with the number in the window and whether it alerts.\<close>

record debrid_service =
  ds_config :: debrid_config
  ds_resolver :: "debrid_config option"
  ds_cache :: "(string, link_entry) jsmap"
  ds_failures :: "time_ms list"
  ds_audit :: "(string \<times> nat \<times> bool) list"

definition createResolver :: "debrid_config \<Rightarrow> debrid_config option" where
  "createResolver c = (if dc_apiKey c = [] \<or> dc_provider c = NoProvider then None else Some c)"

definition new_service :: debrid_service where
  "new_service = \<lparr>ds_config = \<lparr>dc_provider = NoProvider, dc_apiKey = [], dc_source = Some ''none''\<rparr>,
     ds_resolver = None, ds_cache = [], ds_failures = [], ds_audit = []\<rparr>"

definition clearCache :: "debrid_service \<Rightarrow> debrid_service" where
  "clearCache s = s\<lparr>ds_cache := []\<rparr>"

definition configure_debrid :: "debrid_config \<Rightarrow> debrid_service \<Rightarrow> debrid_service" where
  "configure_debrid c s =
     (clearCache (s\<lparr>ds_config := c\<rparr>))\<lparr>ds_failures := [], ds_resolver := createResolver c\<rparr>"

definition debrid_isEnabled :: "debrid_service \<Rightarrow> bool" where
  "debrid_isEnabled s \<longleftrightarrow> ds_resolver s \<noteq> None"

definition recent_failures :: "time_ms \<Rightarrow> time_ms list \<Rightarrow> time_ms list" where
  "recent_failures now ts = filter (\<lambda>t. now - AUTH_FAILURE_ALERT_WINDOW_MS \<le> t) ts"

definition handleAuthFailure :: "string \<Rightarrow> time_ms \<Rightarrow> debrid_service \<Rightarrow> debrid_service" where
  "handleAuthFailure reason now s =
     (let ts = recent_failures now (ds_failures s @ [now]) in
      s\<lparr>ds_failures := ts,
        ds_audit := ds_audit s @ [(reason, length ts, AUTH_FAILURE_ALERT_THRESHOLD \<le> length ts)]\<rparr>)"

record debrid_status =
  dt_provider :: debrid_provider
  dt_enabled :: bool
  dt_hasKey :: bool
  dt_source :: string
  dt_cachedLinks :: nat
  dt_alerts :: "nat list"

definition status_of_debrid :: "time_ms \<Rightarrow> debrid_service \<Rightarrow> debrid_status" where
  "status_of_debrid now s =
     (let n = length (recent_failures now (ds_failures s)) in
      \<lparr>dt_provider = dc_provider (ds_config s), dt_enabled = debrid_isEnabled s,
       dt_hasKey = (dc_apiKey (ds_config s) \<noteq> []), dt_source = or_else (dc_source (ds_config s)) ''none'',
       dt_cachedLinks = length (ds_cache s),
       dt_alerts = (if AUTH_FAILURE_ALERT_THRESHOLD \<le> n then [n] else [])\<rparr>)"

text \<open>\<open>checkCredentials\<close> with the resolver's answer.\<close>

definition service_check :: "check_result \<Rightarrow> time_ms \<Rightarrow> debrid_service \<Rightarrow> check_result \<times> debrid_service" where
  "service_check res now s =
     (if ds_resolver s = None
      then (\<lparr>ck_ok = False, ck_user = None, ck_expiresAt = None, ck_premiumDays = None,
             ck_error = Some ''No debrid provider configured'', ck_kind = Some UnsupportedOp\<rparr>, s)
      else if ck_ok res then (res, s\<lparr>ds_failures := []\<rparr>)
      else if ck_kind res = Some AuthFailure
      then (res, handleAuthFailure (if or_else (ck_error res) [] = [] then ''Check failed'' else or_else (ck_error res) []) now s)
      else (res, s))"

subsection \<open>Resolution\<close>

definition cacheKey :: "debrid_service \<Rightarrow> resolve_input \<Rightarrow> string" where
  "cacheKey s inp =
     provider_name (dc_provider (ds_config s)) @ '':'' @ to_lower (ri_infoHash inp) @ '':'' @
     (case ri_fileIdx inp of
        Some i \<Rightarrow> ''f'' @ show_int i
      | None \<Rightarrow>
          (case ri_season inp of
             Some n \<Rightarrow> ''s'' @ show_int n @ ''e'' @
               (case ri_episode inp of Some e \<Rightarrow> show_int e | None \<Rightarrow> ''undefined'')
           | None \<Rightarrow> ''m''))"

text \<open>At the limit the oldest entry goes, even when the key is already there.\<close>

definition setCache :: "string \<Rightarrow> string \<Rightarrow> file_selection \<Rightarrow> time_ms \<Rightarrow> debrid_service \<Rightarrow> debrid_service" where
  "setCache key url f now s =
     (let m = (if CACHE_MAX \<le> length (ds_cache s) then tl (ds_cache s) else ds_cache s) in
      s\<lparr>ds_cache := jm_set key \<lparr>le_url = url, le_file = f, le_expiresAt = now + CACHE_TTL_MS\<rparr> m\<rparr>)"

definition disabled_error :: "string \<Rightarrow> resolution" where
  "disabled_error msg = ProviderError ''DEBRID_DISABLED'' UnsupportedOp False msg"

text \<open>Up to the call: an answer at once, or the key under which the call's result will be kept.\<close>

datatype resolve_start = Answer resolution | CallResolver string

definition start_resolve :: "resolve_input \<Rightarrow> time_ms \<Rightarrow> debrid_service \<Rightarrow> resolve_start" where
  "start_resolve inp now s =
     (if ds_resolver s = None then Answer (disabled_error ''Debrid service is disabled or not configured'')
      else case jm_get (ds_cache s) (cacheKey s inp) of
        Some e \<Rightarrow>
          if now < le_expiresAt e then Answer (Resolved (le_url e) (le_file e) True (Some (le_expiresAt e)))
          else CallResolver (cacheKey s inp)
      | None \<Rightarrow> CallResolver (cacheKey s inp))"

definition finish_resolve :: "string \<Rightarrow> resolution \<Rightarrow> time_ms \<Rightarrow> debrid_service \<Rightarrow> debrid_service" where
  "finish_resolve key r now s =
     (case r of
        Resolved url f c e \<Rightarrow> setCache key url f now (s\<lparr>ds_failures := []\<rparr>)
      | ProviderError code AuthFailure rt msg \<Rightarrow> handleAuthFailure msg now s
      | _ \<Rightarrow> s)"

definition service_resolveCached ::
  "(resolve_input \<Rightarrow> resolution) \<Rightarrow> resolve_input \<Rightarrow> time_ms \<Rightarrow> time_ms \<Rightarrow> debrid_service \<Rightarrow> resolution \<times> debrid_service" where
  "service_resolveCached answer inp now later s =
     (case start_resolve inp now s of
        Answer r \<Rightarrow> (r, s)
      | CallResolver key \<Rightarrow> (answer inp, finish_resolve key (answer inp) later s))"

definition service_resolve :: "resolution \<Rightarrow> string option" where
  "service_resolve r = (case r of Resolved u f c e \<Rightarrow> Some u | _ \<Rightarrow> None)"

text \<open>\<open>poll\<close> is the resolver's own method, which it may lack.\<close>

definition service_poll :: "resolution option \<Rightarrow> debrid_service \<Rightarrow> resolution" where
  "service_poll poll s =
     (if ds_resolver s = None then disabled_error ''Debrid service is disabled''
      else or_else poll (ProviderError ''UNSUPPORTED_POLL'' UnsupportedOp False
        ''Provider does not support direct transfer polling''))"

subsection \<open>Torrents of an answer\<close>

definition MAX_TORRENTS :: nat where "MAX_TORRENTS = 12"
definition CONCURRENCY :: nat where "CONCURRENCY = 4"

definition isTorrentStream :: "stremio_stream \<Rightarrow> bool" where
  "isTorrentStream s \<longleftrightarrow> or_else (st_infoHash s) [] \<noteq> [] \<and> or_else (st_url s) [] = []"

record torrent_context =
  tc_season :: "int option"
  tc_episode :: "int option"
  tc_title :: "string option"

definition torrentLabel :: "stremio_stream \<Rightarrow> string" where
  "torrentLabel s =
     (let text = (if or_else (st_title s) [] \<noteq> [] then or_else (st_title s) [] else or_else (st_name s) []);
          raw = trim (squeeze text);
          l = take 70 (hd (split_on (CHR 0x0A) raw))
      in if l = [] then ''Torrent'' else l)"

definition torrent_input :: "torrent_context \<Rightarrow> stremio_stream \<Rightarrow> resolve_input" where
  "torrent_input ctx s =
     \<lparr>ri_infoHash = or_else (st_infoHash s) [], ri_sources = st_sources s, ri_fileIdx = st_fileIdx s,
      ri_season = tc_season ctx, ri_episode = tc_episode ctx, ri_title = tc_title ctx, ri_allowUncached = False\<rparr>"

text \<open>
  The resolver's answer to an input may be an exception, \<open>None\<close>. \<open>proxy\<close> threads the state in which
  links are issued; an empty URL is a refusal.
\<close>

type_synonym 'g link_proxy = "string \<Rightarrow> 'g \<Rightarrow> string \<times> 'g"

record 'g torrent_state =
  ts_service :: debrid_service
  ts_links :: 'g

definition torrent_source :: "string \<Rightarrow> string \<Rightarrow> stremio_stream \<Rightarrow> string \<Rightarrow> string \<Rightarrow> source" where
  "torrent_source pid pname s url proxied =
     \<lparr>so_url = proxied, so_type = or_else (inferTypeFromUrl url) ''mp4'', so_quality = inferQuality s,
      so_language = ''und'', so_label = torrentLabel s, so_providerId = pid, so_providerName = pname @ '' (debrid)'',
      so_id = None, so_confidence = None, so_extra = None, so_provenance = None, so_expiresAt = None\<rparr>"

definition accept_resolution ::
  "string \<Rightarrow> string \<Rightarrow> 'g link_proxy \<Rightarrow> stremio_stream \<Rightarrow> resolution \<Rightarrow> 'g \<Rightarrow> source option \<times> 'g" where
  "accept_resolution pid pname proxy s r g =
     (case service_resolve r of
        None \<Rightarrow> (None, g)
      | Some [] \<Rightarrow> (None, g)
      | Some url \<Rightarrow>
          (case proxy url g of
             ([], g1) \<Rightarrow> (None, g1)
           | (proxied, g1) \<Rightarrow> (Some (torrent_source pid pname s url proxied), g1)))"

text \<open>
  One batch: every cache is looked up before the first resolver answers, and the answers come in
  the order of the batch.
\<close>

definition settle_one ::
  "(resolve_input \<Rightarrow> resolution option) \<Rightarrow> torrent_context \<Rightarrow> time_ms \<Rightarrow> stremio_stream \<Rightarrow> resolve_start \<Rightarrow>
     'g torrent_state \<Rightarrow> resolution option \<times> 'g torrent_state" where
  "settle_one answer ctx now s st t =
     (case st of
        Answer r \<Rightarrow> (Some r, t)
      | CallResolver key \<Rightarrow>
          (case answer (torrent_input ctx s) of
             None \<Rightarrow> (None, t)
           | Some r \<Rightarrow> (Some r, t\<lparr>ts_service := finish_resolve key r now (ts_service t)\<rparr>)))"

definition emit_one ::
  "string \<Rightarrow> string \<Rightarrow> 'g link_proxy \<Rightarrow> stremio_stream \<Rightarrow> resolution option \<Rightarrow> 'g torrent_state \<Rightarrow>
     source option \<times> 'g torrent_state" where
  "emit_one pid pname proxy s res t =
     (case res of
        None \<Rightarrow> (None, t)
      | Some r \<Rightarrow> (case accept_resolution pid pname proxy s r (ts_links t) of (o', g) \<Rightarrow> (o', t\<lparr>ts_links := g\<rparr>)))"

fun finish_batch ::
  "(resolve_input \<Rightarrow> resolution option) \<Rightarrow> string \<Rightarrow> string \<Rightarrow> 'g link_proxy \<Rightarrow> torrent_context \<Rightarrow> time_ms \<Rightarrow>
     (stremio_stream \<times> resolve_start) list \<Rightarrow> 'g torrent_state \<Rightarrow> source option list \<times> 'g torrent_state" where
  "finish_batch answer pid pname proxy ctx now [] t = ([], t)"
| "finish_batch answer pid pname proxy ctx now ((s, st) # rest) t =
     (let (r, t1) = settle_one answer ctx now s st t;
          (o1, t2) = emit_one pid pname proxy s r t1;
          (os, t3) = finish_batch answer pid pname proxy ctx now rest t2
      in (o1 # os, t3))"

definition run_batch ::
  "(resolve_input \<Rightarrow> resolution option) \<Rightarrow> string \<Rightarrow> string \<Rightarrow> 'g link_proxy \<Rightarrow> torrent_context \<Rightarrow> time_ms \<Rightarrow>
     stremio_stream list \<Rightarrow> 'g torrent_state \<Rightarrow> source option list \<times> 'g torrent_state" where
  "run_batch answer pid pname proxy ctx now batch t =
     finish_batch answer pid pname proxy ctx now
       (map (\<lambda>s. (s, start_resolve (torrent_input ctx s) now (ts_service t))) batch) t"

fun batches :: "nat \<Rightarrow> 'a list \<Rightarrow> 'a list list" where
  "batches n [] = []"
| "batches n (x # xs) = (if n = 0 then [] else take n (x # xs) # batches n (drop (n - 1) xs))"

fun run_batches ::
  "(resolve_input \<Rightarrow> resolution option) \<Rightarrow> string \<Rightarrow> string \<Rightarrow> 'g link_proxy \<Rightarrow> torrent_context \<Rightarrow> time_ms \<Rightarrow>
     stremio_stream list list \<Rightarrow> 'g torrent_state \<Rightarrow> source list \<times> 'g torrent_state" where
  "run_batches answer pid pname proxy ctx now [] t = ([], t)"
| "run_batches answer pid pname proxy ctx now (b # bs) t =
     (let (os, t1) = run_batch answer pid pname proxy ctx now b t;
          (ss, t2) = run_batches answer pid pname proxy ctx now bs t1
      in (List.map_filter id os @ ss, t2))"

definition resolveTorrentStreams ::
  "(resolve_input \<Rightarrow> resolution option) \<Rightarrow> string \<Rightarrow> string \<Rightarrow> 'g link_proxy \<Rightarrow> torrent_context \<Rightarrow> time_ms \<Rightarrow>
     stremio_stream list \<Rightarrow> 'g torrent_state \<Rightarrow> source list \<times> 'g torrent_state" where
  "resolveTorrentStreams answer pid pname proxy ctx now streams t =
     (if \<not> debrid_isEnabled (ts_service t) then ([], t)
      else run_batches answer pid pname proxy ctx now
        (batches CONCURRENCY (take MAX_TORRENTS (filter isTorrentStream streams))) t)"


subsection \<open>The cache\<close>

text \<open>Everything that changes the service; an end of a resolution may come at any time.\<close>

datatype service_op =
    OpConfigure debrid_config | OpClear | OpFinish string resolution time_ms | OpCheck check_result time_ms

fun service_step :: "service_op \<Rightarrow> debrid_service \<Rightarrow> debrid_service" where
  "service_step (OpConfigure c) s = configure_debrid c s"
| "service_step OpClear s = clearCache s"
| "service_step (OpFinish key r now) s = finish_resolve key r now s"
| "service_step (OpCheck res now) s = snd (service_check res now s)"

definition service_inv :: "debrid_service \<Rightarrow> bool" where
  "service_inv s \<longleftrightarrow> jm_ok (ds_cache s) \<and> length (ds_cache s) \<le> CACHE_MAX"

lemma jm_ok_tl: "jm_ok m \<Longrightarrow> jm_ok (tl m)"
  by (cases m) (auto simp: jm_ok_def)

lemma setCache_inv: "service_inv s \<Longrightarrow> service_inv (setCache key url f now s)"
  by (auto simp: service_inv_def setCache_def Let_def jm_ok_tl length_jm_set CACHE_MAX_def)

lemma service_step_inv: "service_inv s \<Longrightarrow> service_inv (service_step a s)"
proof (cases a)
  case (OpFinish key r now)
  assume "service_inv s"
  then have "service_inv (s\<lparr>ds_failures := ts, ds_audit := au\<rparr>)" "service_inv (s\<lparr>ds_failures := ts\<rparr>)" for ts au
    by (simp_all add: service_inv_def)
  then show ?thesis
    using \<open>service_inv s\<close> setCache_inv
    by (auto simp: OpFinish finish_resolve_def handleAuthFailure_def Let_def split: resolution.splits error_kind.splits)
qed (auto simp: service_inv_def configure_debrid_def clearCache_def service_check_def handleAuthFailure_def Let_def
     CACHE_MAX_def)

text \<open>
  C22. However a run of reconfigurations, checks and resolutions ends up interleaved, the cache holds
  at most 500 links, one per key; and a link that was just stored answers the same request, without
  another call of the resolver, until exactly one hour later.
\<close>

theorem link_cache_sound:
  "let s = fold service_step ops new_service in
     length (ds_cache s) \<le> 500 \<and> distinct (map fst (ds_cache s)) \<and>
     (ds_resolver s \<noteq> None \<longrightarrow>
       start_resolve inp now (finish_resolve (cacheKey s inp) (Resolved url f c e) later s) =
         (if now < later + 3600000 then Answer (Resolved url f True (Some (later + 3600000)))
          else CallResolver (cacheKey s inp)))"
proof -
  let ?s = "fold service_step ops new_service"
  have "service_inv s \<Longrightarrow> service_inv (fold service_step ops s)" for s
    by (induction ops arbitrary: s) (auto simp: service_step_inv)
  then have inv: "service_inv ?s"
    by (simp add: service_inv_def new_service_def)
  have "start_resolve inp now (finish_resolve (cacheKey ?s inp) (Resolved url f c e) later ?s) =
      (if now < later + 3600000 then Answer (Resolved url f True (Some (later + 3600000)))
       else CallResolver (cacheKey ?s inp))" if "ds_resolver ?s \<noteq> None"
    using that
    by (cases "ds_resolver ?s")
       (simp_all add: start_resolve_def finish_resolve_def setCache_def cacheKey_def Let_def CACHE_TTL_MS_def)
  then show ?thesis
    using inv by (simp add: service_inv_def jm_ok_def CACHE_MAX_def Let_def)
qed

definition demo_config :: "string \<Rightarrow> debrid_config" where
  "demo_config key = \<lparr>dc_provider = RealDebrid, dc_apiKey = key, dc_source = None\<rparr>"

definition demo_selection :: file_selection where
  "demo_selection = \<lparr>fs_index = 0, fs_name = ''e.mkv'', fs_size = 1, fs_matchReason = ''only'', fs_confidence = 1, fs_candidates = []\<rparr>"

theorem link_cache_sound_witness:
  "let s = fold service_step [OpClear, OpConfigure (demo_config ''k'')] new_service in
     ds_resolver s \<noteq> None \<and>
     start_resolve demo_input 1000 (finish_resolve (cacheKey s demo_input) (Resolved ''u'' demo_selection True None) 900 s) =
       Answer (Resolved ''u'' demo_selection True (Some 3600900))"
proof -
  let ?ops = "[OpClear, OpConfigure (demo_config ''k'')]"
  have "ds_resolver (fold service_step ?ops new_service) \<noteq> None"
    by (simp add: configure_debrid_def createResolver_def demo_config_def clearCache_def)
  then show ?thesis
    using link_cache_sound [of ?ops demo_input 1000 "''u''" demo_selection True None 900] by (simp add: Let_def)
qed

subsection \<open>Torrent sources\<close>

definition source_for :: "string \<Rightarrow> stremio_stream \<Rightarrow> source option \<Rightarrow> bool" where
  "source_for pid s out \<longleftrightarrow>
     (case out of None \<Rightarrow> True | Some x \<Rightarrow> so_label x = torrentLabel s \<and> so_providerId x = pid \<and> so_url x \<noteq> [])"

lemma accept_source: "source_for pid s (fst (accept_resolution pid pname proxy s r g))"
  by (auto simp: accept_resolution_def source_for_def torrent_source_def split: option.splits list.splits prod.splits)

lemma emit_source: "emit_one pid pname proxy s r t = (o1, t1) \<Longrightarrow> source_for pid s o1"
proof (cases r)
  case (Some y)
  assume "emit_one pid pname proxy s r t = (o1, t1)"
  then show ?thesis
    using accept_source [of pid s pname proxy y "ts_links t"]
    by (cases "accept_resolution pid pname proxy s y (ts_links t)") (simp add: Some emit_one_def)
qed (simp add: emit_one_def source_for_def)

lemma finish_batch_sources:
  "list_all2 (source_for pid) (map fst xs) (fst (finish_batch answer pid pname proxy ctx now xs t))"
proof (induction xs arbitrary: t)
  case (Cons x xs)
  obtain s st where x: "x = (s, st)" by (cases x)
  obtain r t1 where r: "settle_one answer ctx now s st t = (r, t1)" by (metis surj_pair)
  obtain o1 t2 where o1: "emit_one pid pname proxy s r t1 = (o1, t2)" by (metis surj_pair)
  obtain os t3 where os: "finish_batch answer pid pname proxy ctx now xs t2 = (os, t3)" by (metis surj_pair)
  show ?case
    using emit_source [OF o1] Cons.IH [of t2] by (simp add: x r o1 os)
qed simp

lemma kept_labels:
  "list_all2 (source_for pid) xs os \<Longrightarrow>
     subseq (map so_label (List.map_filter id os)) (map torrentLabel xs) \<and>
     list_all (\<lambda>s. so_providerId s = pid \<and> so_url s \<noteq> []) (List.map_filter id os)"
  by (induction rule: list_all2_induct) (auto simp: source_for_def map_filter_simps split: option.splits)

lemma run_batch_sources:
  "list_all2 (source_for pid) b (fst (run_batch answer pid pname proxy ctx now b t))"
  using finish_batch_sources [of pid "map (\<lambda>s. (s, start_resolve (torrent_input ctx s) now (ts_service t))) b"]
  by (simp add: run_batch_def comp_def)

lemma run_batches_sources:
  "run_batches answer pid pname proxy ctx now bs t = (ss, t') \<Longrightarrow>
     subseq (map so_label ss) (map torrentLabel (concat bs)) \<and>
     list_all (\<lambda>s. so_providerId s = pid \<and> so_url s \<noteq> []) ss"
proof (induction bs arbitrary: t ss t')
  case (Cons b bs)
  obtain os t1 where b: "run_batch answer pid pname proxy ctx now b t = (os, t1)" by (metis surj_pair)
  obtain ss1 t2 where bs: "run_batches answer pid pname proxy ctx now bs t1 = (ss1, t2)" by (metis surj_pair)
  have "list_all2 (source_for pid) b os"
    using run_batch_sources [of pid b answer pname proxy ctx now t] b by simp
  then show ?case
    using kept_labels [of pid b os] Cons.IH [OF bs] Cons.prems b bs
    by (auto simp: Let_def intro: list_emb_append_mono)
qed simp

lemma concat_batches: "n \<noteq> 0 \<Longrightarrow> concat (batches n xs) = xs"
proof (induction n xs rule: batches.induct)
  case (2 n x xs)
  have "take n (x # xs) @ drop (n - 1) xs = x # xs"
    using 2(2) by (cases n) auto
  then show ?case using 2 by simp
qed simp

text \<open>
  The debrid sources of an answer stand for at most the first twelve of its torrents, in their
  order; each has the provider's id and a URL issued by the proxy, and there are none when debrid
  is off.
\<close>

lemma torrent_sources_ordered:
  assumes "resolveTorrentStreams answer pid pname proxy ctx now streams t = (ss, t')"
  shows "subseq (map so_label ss) (map torrentLabel (take 12 (filter isTorrentStream streams))) \<and> length ss \<le> 12 \<and>
    list_all (\<lambda>s. so_providerId s = pid \<and> so_url s \<noteq> []) ss \<and> (debrid_isEnabled (ts_service t) \<or> ss = [])"
proof (cases "debrid_isEnabled (ts_service t)")
  case True
  then have "run_batches answer pid pname proxy ctx now
      (batches CONCURRENCY (take MAX_TORRENTS (filter isTorrentStream streams))) t = (ss, t')"
    using assms by (simp add: resolveTorrentStreams_def)
  then have *: "subseq (map so_label ss) (map torrentLabel (take 12 (filter isTorrentStream streams))) \<and>
      list_all (\<lambda>s. so_providerId s = pid \<and> so_url s \<noteq> []) ss"
    using run_batches_sources [of answer pid pname proxy ctx now
        "batches CONCURRENCY (take MAX_TORRENTS (filter isTorrentStream streams))" t ss t']
      concat_batches [of CONCURRENCY "take MAX_TORRENTS (filter isTorrentStream streams)"]
    by (simp add: CONCURRENCY_def MAX_TORRENTS_def)
  then have "length ss \<le> length (take 12 (filter isTorrentStream streams))"
    by (metis length_map list_emb_length)
  then show ?thesis using * True by simp
next
  case False
  then show ?thesis using assms by (simp add: resolveTorrentStreams_def)
qed

definition torrent_stream :: "string \<Rightarrow> stremio_stream" where
  "torrent_stream nm = \<lparr>st_url = None, st_infoHash = Some (replicate 40 CHR ''b''), st_fileIdx = None, st_name = Some nm,
     st_title = None, st_description = None, st_sources = None, st_subtitles = None, st_requestHeaders = None,
     st_cacheMaxAge = None\<rparr>"

definition demo_torrents :: "unit torrent_state" where
  "demo_torrents = \<lparr>ts_service = configure_debrid (demo_config ''k'') new_service, ts_links = ()\<rparr>"

definition demo_proxy :: "unit link_proxy" where
  "demo_proxy u g = (''g/'' @ u, g)"

theorem torrent_sources_ordered_witness:
  "case resolveTorrentStreams (\<lambda>i. Some (Resolved ''u'' (no_selection [] 0 []) True None)) ''p'' ''P''
      demo_proxy \<lparr>tc_season = None, tc_episode = None, tc_title = None\<rparr> 5 [torrent_stream ''A''] demo_torrents of
     (ss, t) \<Rightarrow> map so_url ss = [''g/u''] \<and> length ss \<le> 12"
proof -
  let ?answer = "\<lambda>i. Some (Resolved ''u'' (no_selection [] 0 []) True None)"
  let ?ctx = "\<lparr>tc_season = None, tc_episode = None, tc_title = None\<rparr>"
  obtain ss t where run: "resolveTorrentStreams ?answer ''p'' ''P'' demo_proxy ?ctx 5 [torrent_stream ''A''] demo_torrents = (ss, t)"
    by (metis surj_pair)
  have on: "debrid_isEnabled (ts_service demo_torrents)"
    by (simp add: demo_torrents_def debrid_isEnabled_def configure_debrid_def createResolver_def demo_config_def)
  have start: "\<exists>key. start_resolve (torrent_input ?ctx (torrent_stream ''A'')) 5 (ts_service demo_torrents) = CallResolver key"
    by (simp add: start_resolve_def demo_torrents_def configure_debrid_def createResolver_def demo_config_def clearCache_def)
  have accept: "accept_resolution ''p'' ''P'' demo_proxy s (Resolved ''u'' (no_selection [] 0 []) True None) g =
      (Some (torrent_source ''p'' ''P'' s ''u'' ''g/u''), g)" for s and g :: unit
    by (simp add: accept_resolution_def service_resolve_def demo_proxy_def)
  have url: "so_url (torrent_source a b s u v) = v" for a b s u v
    by (simp add: torrent_source_def)
  have "isTorrentStream (torrent_stream ''A'')"
    by (simp add: isTorrentStream_def torrent_stream_def)
  then have "map so_url ss = [''g/u'']"
    using run on start
    by (auto simp: resolveTorrentStreams_def CONCURRENCY_def MAX_TORRENTS_def run_batch_def settle_one_def emit_one_def
        accept url map_filter_simps)
  then show ?thesis
    using torrent_sources_ordered [OF run] run by simp
qed

subsection \<open>What the cache mixes up\<close>

text \<open>The key ignores the title, by which the file of a movie pack is not chosen either: two titles share a link.\<close>

lemma cache_key_ignores_title: "cacheKey s (inp\<lparr>ri_title := x\<rparr>) = cacheKey s inp"
  by (simp add: cacheKey_def cong: option.case_cong)

text \<open>
  A resolution that was under way when the key of the account was changed still stores its link:
  the new account answers with a link of the old one.
\<close>

lemma late_link_survives_configure:
  assumes "dc_apiKey c \<noteq> []" "dc_provider c = dc_provider (ds_config s)" "dc_provider c \<noteq> NoProvider" "now < later + 3600000"
  shows "start_resolve inp now (finish_resolve (cacheKey s inp) (Resolved url f b e) later (configure_debrid c s)) =
    Answer (Resolved url f True (Some (later + 3600000)))"
  using assms
  by (simp add: start_resolve_def finish_resolve_def setCache_def configure_debrid_def createResolver_def cacheKey_def
      clearCache_def Let_def CACHE_TTL_MS_def)

end
