(* ===== verification/AddonClient.thy ===== *)
theory AddonClient
  imports Egress Sources Manager
begin

text \<open>
  The HTTP client of the addon protocol, \<open>src/stremio/client.ts\<close>: stream, subtitle and catalog requests
  over the redirect loop of \<open>Egress\<close>, and the errors each of them lets through. \<open>JSON.parse\<close> (with the
  text of its \<open>SyntaxError\<close>) and the texts of policy refusals are arguments.
\<close>

subsection \<open>Requests and errors\<close>

record client_lib =
  cl_json :: "string \<Rightarrow> string + json"
  cl_policy_text :: "url_policy_error \<Rightarrow> string"

definition DEFAULT_HEADERS :: "(string \<times> string) list" where
  "DEFAULT_HEADERS =
     [(''User-Agent'', ''Mozilla/5.0 (Windows NT 10.0; Win64; x64) AppleWebKit/537.36 (KHTML, like Gecko) Chrome/126.0.0.0 Safari/537.36''),
      (''Accept'', ''application/json'')]"

text \<open>\<open>StremioAddonError\<close>, and the error of \<open>new URL\<close>.\<close>

definition addon_error :: "string \<Rightarrow> js_error" where
  "addon_error msg = \<lparr>je_name = Some ''StremioAddonError'', je_code = None, je_message = Some msg, je_status = None\<rparr>"

definition invalid_url_error :: js_error where
  "invalid_url_error = \<lparr>je_name = Some ''TypeError'', je_code = Some ''ERR_INVALID_URL'', je_message = Some ''Invalid URL'',
     je_status = None\<rparr>"

text \<open>\<open>err instanceof Error ? err.message : fallback\<close>.\<close>

definition secure_message :: "client_lib \<Rightarrow> string \<Rightarrow> secure_error \<Rightarrow> string" where
  "secure_message C fallback e =
     (case e of
        PolicyRefused p \<Rightarrow> cl_policy_text C p
      | SecureFetchError c m s \<Rightarrow> m
      | TransportFailed t \<Rightarrow> (case th_error t of None \<Rightarrow> fallback | Some j \<Rightarrow> or_else (je_message j) [])
      | BadLocation \<Rightarrow> ''Invalid URL'')"

definition splitBase :: "url_lib \<Rightarrow> string \<Rightarrow> string \<times> string" where
  "splitBase L baseUrl =
     (case ul_parse L baseUrl of
        Some u \<Rightarrow> (url_origin u @ strip_slashes (fu_pathname u), fu_search u)
      | None \<Rightarrow>
          (case find_index (\<lambda>c. c = CHR ''?'') baseUrl of
             None \<Rightarrow> (strip_slashes baseUrl, [])
           | Some q \<Rightarrow> (strip_slashes (take q baseUrl), drop q baseUrl)))"

record fetch_options =
  fo_timeoutMs :: "int option"
  fo_policy :: "url_options option"
  fo_maxBytes :: "nat option"
  fo_maxRedirects :: "nat option"
  fo_signal :: bool
  fo_aborted :: bool

definition no_fetch_options :: fetch_options where
  "no_fetch_options = \<lparr>fo_timeoutMs = None, fo_policy = None, fo_maxBytes = None, fo_maxRedirects = None,
     fo_signal = False, fo_aborted = False\<rparr>"

text \<open>The policy \<open>{ allowHttp }\<close> of a caller that gives none.\<close>

definition plain_policy :: "bool \<Rightarrow> url_options" where
  "plain_policy http = \<lparr>uo_allowHttp = http, uo_allowedProtocols = None, uo_allowHostSuffixes = None,
     uo_hostAllowlist = None, uo_allowCredentials = False, uo_allowedPorts = None, uo_maxLength = None,
     uo_skipDns = False\<rparr>"

definition client_request :: "fetch_options \<Rightarrow> int \<Rightarrow> nat \<Rightarrow> secure_options" where
  "client_request op timeoutMs maxBytes =
     \<lparr>sf_timeoutMs = Some (or_else (fo_timeoutMs op) timeoutMs),
      sf_maxRedirects = Some (or_else (fo_maxRedirects op) 3),
      sf_maxBytes = Some (or_else (fo_maxBytes op) maxBytes),
      sf_acceptContentTypes = Some [''json'', ''text/plain'', ''javascript''],
      sf_policy = or_else (fo_policy op) (plain_policy True), sf_headers = Some DEFAULT_HEADERS,
      sf_viaProxy = Some ViaAuto, sf_signal = fo_signal op\<rparr>"

definition status_ok :: "secure_result \<Rightarrow> bool" where
  "status_ok r \<longleftrightarrow> 200 \<le> sr_status r \<and> sr_status r < 300"

text \<open>
  The body of the \<open>try\<close> the stream and catalog requests share: the request, the status check, the JSON
  document, and the one error all failures are turned into.
\<close>

definition fetch_document ::
  "client_lib \<Rightarrow> fetch_env \<Rightarrow> secure_options \<Rightarrow> string \<Rightarrow> string \<Rightarrow> string \<Rightarrow> fetch_request list \<times> (js_error + json)" where
  "fetch_document C E op what fallback url =
     (case secureFetch E op url of
        (reqs, Inl e) \<Rightarrow> (reqs, Inl (addon_error (secure_message C fallback e)))
      | (reqs, Inr r) \<Rightarrow>
          (reqs,
           if \<not> status_ok r then Inl (addon_error (what @ '' HTTP '' @ show_int (sr_status r)))
           else case cl_json C (sr_text r) of
             Inl msg \<Rightarrow> Inl (addon_error msg)
           | Inr j \<Rightarrow> Inr j))"

subsection \<open>Streams and subtitles\<close>

definition json_items :: "json \<Rightarrow> string \<Rightarrow> json list" where
  "json_items j k = or_else (jarr (jfield j k)) []"

definition json_number :: "json option \<Rightarrow> rat option" where
  "json_number x = (case x of Some (JNum n) \<Rightarrow> Some n | _ \<Rightarrow> None)"

definition fetchStreams ::
  "client_lib \<Rightarrow> fetch_env \<Rightarrow> string \<Rightarrow> string \<Rightarrow> string \<Rightarrow> int \<Rightarrow> fetch_options \<Rightarrow>
     fetch_request list \<times> (js_error + (json list \<times> rat option))" where
  "fetchStreams C E baseUrl type i timeoutMs op =
     (case buildResourceUrl (url_lib.truncate (ev_lib E)) baseUrl ''stream'' type i of
        None \<Rightarrow> ([], Inl invalid_url_error)
      | Some url \<Rightarrow>
          if fo_aborted op then ([], Inl (addon_error ''Aborted''))
          else case fetch_document C E (client_request op timeoutMs 1048576) ''Stream'' ''Failed to fetch streams'' url of
            (reqs, Inl e) \<Rightarrow> (reqs, Inl e)
          | (reqs, Inr j) \<Rightarrow> (reqs, Inr (json_items j ''streams'', json_number (jfield j ''cacheMaxAge''))))"

definition fetchSubtitles ::
  "client_lib \<Rightarrow> fetch_env \<Rightarrow> string \<Rightarrow> string \<Rightarrow> string \<Rightarrow> int \<Rightarrow> fetch_options \<Rightarrow>
     fetch_request list \<times> (js_error + json list)" where
  "fetchSubtitles C E baseUrl type i timeoutMs op =
     (case buildResourceUrl (url_lib.truncate (ev_lib E)) baseUrl ''subtitles'' type i of
        None \<Rightarrow> ([], Inl invalid_url_error)
      | Some url \<Rightarrow>
          if fo_aborted op then ([], Inr [])
          else case secureFetch E (client_request op timeoutMs 512000) url of
            (reqs, Inl e) \<Rightarrow> (reqs, Inr [])
          | (reqs, Inr r) \<Rightarrow>
              (reqs, Inr (if \<not> status_ok r then []
                          else case cl_json C (sr_text r) of Inl msg \<Rightarrow> [] | Inr j \<Rightarrow> json_items j ''subtitles'')))"

text \<open>
  The items of an answer are cast to the interfaces of \<open>src/stremio/protocol.ts\<close>. A field whose value is
  not of the declared type is read as missing; \<open>None\<close> is a \<open>null\<close> among the items.
\<close>

definition text_pair :: "string \<times> json \<Rightarrow> (string \<times> string) option" where
  "text_pair e = (case snd e of JStr v \<Rightarrow> Some (fst e, v) | _ \<Rightarrow> None)"

definition subfield :: "json option \<Rightarrow> string \<Rightarrow> json option" where
  "subfield x k = (case x of None \<Rightarrow> None | Some j \<Rightarrow> jfield j k)"

definition json_headers :: "json \<Rightarrow> (string, string) jsmap option" where
  "json_headers s =
     (case subfield (subfield (jfield s ''behaviorHints'') ''proxyHeaders'') ''request'' of
        Some (JObj fs) \<Rightarrow> Some (List.map_filter text_pair fs)
      | _ \<Rightarrow> None)"

definition subtitle_view :: "json \<Rightarrow> stremio_subtitle" where
  "subtitle_view s =
     \<lparr>ss_id = jstr (jfield s ''id''), ss_url = or_else (jstr (jfield s ''url'')) [],
      ss_lang = or_else (jstr (jfield s ''lang'')) [], ss_format = jstr (jfield s ''format'')\<rparr>"

definition text_item :: "json \<Rightarrow> string option" where
  "text_item j = (case j of JStr t \<Rightarrow> Some t | _ \<Rightarrow> None)"

definition stream_view :: "json \<Rightarrow> stremio_stream" where
  "stream_view s =
     \<lparr>st_url = jstr (jfield s ''url''), st_infoHash = jstr (jfield s ''infoHash''),
      st_fileIdx = map_option floor (json_number (jfield s ''fileIdx'')), st_name = jstr (jfield s ''name''),
      st_title = jstr (jfield s ''title''), st_description = jstr (jfield s ''description''),
      st_sources = map_option (List.map_filter text_item) (jarr (jfield s ''sources'')),
      st_subtitles = map_option (map subtitle_view) (jarr (jfield s ''subtitles'')),
      st_requestHeaders = json_headers s, st_cacheMaxAge = json_number (jfield s ''cacheMaxAge'')\<rparr>"

definition stream_views :: "json list \<Rightarrow> stremio_stream list option" where
  "stream_views js = (if JNull \<in> set js then None else Some (map stream_view js))"

subsection \<open>Catalogs and manifests\<close>

text \<open>\<open>searchParams.set\<close>: the first entry of the name gets the value, later ones go.\<close>

fun param_set :: "string \<Rightarrow> string \<Rightarrow> (string \<times> string) list \<Rightarrow> (string \<times> string) list" where
  "param_set k v [] = [(k, v)]"
| "param_set k v (p # ps) =
     (if fst p = k then (k, v) # filter (\<lambda>q. fst q \<noteq> k) ps else p # param_set k v ps)"

definition set_param :: "url_lib \<Rightarrow> string \<times> string \<Rightarrow> full_url \<Rightarrow> full_url" where
  "set_param L e u =
     (if snd e = [] then u
      else (let ps = param_set (fst e) (snd e) (fu_params u) in
            u\<lparr>fu_params := ps, fu_search := (if ul_query L ps = [] then [] else ''?'' @ ul_query L ps)\<rparr>))"

definition fetchCatalog ::
  "client_lib \<Rightarrow> fetch_env \<Rightarrow> string \<Rightarrow> string \<Rightarrow> string \<Rightarrow> (string \<times> string) list \<Rightarrow> fetch_options \<Rightarrow>
     fetch_request list \<times> (js_error + json)" where
  "fetchCatalog C E baseUrl type catalogId extra op =
     (let L = url_lib.truncate (ev_lib E) in
      case buildResourceUrl L baseUrl ''catalog'' type catalogId of
        None \<Rightarrow> ([], Inl invalid_url_error)
      | Some built \<Rightarrow>
          (case ul_parse L built of
             None \<Rightarrow> ([], Inl invalid_url_error)
           | Some u \<Rightarrow>
               (let target = url_text (fold (set_param L) extra u) in
                if fo_aborted op then ([], Inl (addon_error ''Aborted''))
                else case fetch_document C E (client_request op 12000 2097152) ''Catalog'' ''Failed to fetch catalog'' target of
                  (reqs, Inl e) \<Rightarrow> (reqs, Inl e)
                | (reqs, Inr j) \<Rightarrow> (reqs, Inr (if j = JNull then JObj [] else j)))))"

text \<open>
  The request of \<open>fetchManifest\<close>, in the form \<open>Manager.fetchManifest\<close> reads. The manager asks of a throw
  only whether it is a \<open>UrlPolicyError\<close>.
\<close>

definition manifest_reply :: "client_lib \<Rightarrow> fetch_env \<Rightarrow> fetch_options \<Rightarrow> int \<Rightarrow> string \<Rightarrow> http_reply" where
  "manifest_reply C E op timeoutMs url =
     (case snd (secureFetch E ((client_request op timeoutMs 1048576)\<lparr>sf_maxRedirects := Some 3,
             sf_policy := or_else (fo_policy op) (plain_policy False)\<rparr>) url) of
        Inl (PolicyRefused p) \<Rightarrow> HttpThrows True (cl_policy_text C p)
      | Inl e \<Rightarrow> HttpThrows False (secure_message C [] e)
      | Inr r \<Rightarrow> HttpReply (sr_status r) (status_ok r)
          (case cl_json C (sr_text r) of Inl msg \<Rightarrow> None | Inr j \<Rightarrow> Some j) (sr_finalUrl r))"

subsection \<open>What the callers see\<close>

lemma fetch_document_error:
  "fetch_document C E op what fallback url = (reqs, Inl e) \<Longrightarrow> \<exists>msg. e = addon_error msg"
  by (auto simp: fetch_document_def split: prod.splits sum.splits if_splits)

lemma fetchSubtitles_total:
  "ul_parse (url_lib.truncate (ev_lib E)) baseUrl = Some u \<Longrightarrow>
     \<exists>items. snd (fetchSubtitles C E baseUrl type i timeoutMs op) = Inr items"
  by (auto simp: fetchSubtitles_def buildResourceUrl_def split: prod.split sum.split)

text \<open>The requests of a client call are those of one fetch.\<close>

definition sent_by :: "fetch_env \<Rightarrow> secure_options \<Rightarrow> fetch_request list \<Rightarrow> bool" where
  "sent_by E op reqs \<longleftrightarrow> reqs = [] \<or> (\<exists>url. reqs = fst (secureFetch E op url))"

lemma fetch_document_sent: "sent_by E op (fst (fetch_document C E op what fallback url))"
  by (auto simp: fetch_document_def sent_by_def split: prod.split sum.split intro: exI [of _ url])

lemma fetchStreams_sent: "sent_by E (client_request op timeoutMs 1048576) (fst (fetchStreams C E baseUrl type i timeoutMs op))"
proof (cases "buildResourceUrl (url_lib.truncate (ev_lib E)) baseUrl ''stream'' type i")
  case (Some url)
  obtain reqs r where d: "fetch_document C E (client_request op timeoutMs 1048576) ''Stream'' ''Failed to fetch streams'' url = (reqs, r)"
    by (metis surj_pair)
  with fetch_document_sent [of E "client_request op timeoutMs 1048576" C "''Stream''" "''Failed to fetch streams''" url] Some
  show ?thesis by (auto simp: fetchStreams_def sent_by_def split: sum.split)
qed (simp add: fetchStreams_def sent_by_def)

lemma fetchSubtitles_sent:
  "sent_by E (client_request op timeoutMs 512000) (fst (fetchSubtitles C E baseUrl type i timeoutMs op))"
proof (cases "buildResourceUrl (url_lib.truncate (ev_lib E)) baseUrl ''subtitles'' type i")
  case (Some url)
  obtain reqs r where d: "secureFetch E (client_request op timeoutMs 512000) url = (reqs, r)"
    by (metis surj_pair)
  then have "sent_by E (client_request op timeoutMs 512000) reqs"
    unfolding sent_by_def by (metis fst_conv)
  moreover have "sent_by E (client_request op timeoutMs 512000) []"
    by (simp add: sent_by_def)
  ultimately show ?thesis using Some d by (simp add: fetchSubtitles_def split: sum.split)
qed (simp add: fetchSubtitles_def sent_by_def)

lemma sent_by_safe:
  assumes "sent_by E op reqs" "ev_isProd E" "\<not> uo_skipDns (sf_policy op)" "dns_addresses E" "rq \<in> set reqs"
  shows "safe_destination rq \<and> keys_ok header_forwarded (fr_headers rq) \<and> 0 < fr_timeoutMs rq"
proof -
  obtain url where "reqs = fst (secureFetch E op url)"
    using assms(1,5) by (auto simp: sent_by_def)
  then have "list_all (checked_request E op) reqs"
    using secure_loop_checked [of E op url 0 url] by (metis prod.collapse secureFetch_def)
  then show ?thesis
    using checked_destination [OF assms(2-4)] assms(5) by (simp add: list_all_iff)
qed

text \<open>
  Against an addon whose base URL parses, a stream request fails with a \<open>StremioAddonError\<close> and
  nothing else, whatever the cause (policy, time, transport, status, body); it succeeds only with the items of
  an array in a JSON document. A subtitle request never fails.
\<close>

lemma addon_fetch_uniform:
  assumes "ul_parse (url_lib.truncate (ev_lib E)) baseUrl = Some u"
  shows "(case snd (fetchStreams C E baseUrl type i timeoutMs op) of
      Inl e \<Rightarrow> \<exists>msg. e = addon_error msg
    | Inr (items, age) \<Rightarrow> \<exists>text j. cl_json C text = Inr j \<and> items = json_items j ''streams'') \<and>
    (\<exists>items. snd (fetchSubtitles C E baseUrl type i timeoutMs op) = Inr items)"
proof
  obtain url where url: "buildResourceUrl (url_lib.truncate (ev_lib E)) baseUrl ''stream'' type i = Some url"
    using assms by (auto simp: buildResourceUrl_def)
  obtain reqs r where d: "fetch_document C E (client_request op timeoutMs 1048576) ''Stream'' ''Failed to fetch streams'' url = (reqs, r)"
    by (metis surj_pair)
  show "case snd (fetchStreams C E baseUrl type i timeoutMs op) of
      Inl e \<Rightarrow> \<exists>msg. e = addon_error msg
    | Inr (items, age) \<Rightarrow> \<exists>text j. cl_json C text = Inr j \<and> items = json_items j ''streams''"
  proof (cases r)
    case (Inl e)
    then show ?thesis using fetch_document_error [of C E] d url by (auto simp: fetchStreams_def)
  next
    case (Inr j)
    then have "\<exists>text. cl_json C text = Inr j"
      using d by (auto simp: fetch_document_def split: prod.splits sum.splits if_splits)
    then show ?thesis using Inr d url by (auto simp: fetchStreams_def)
  qed
  show "\<exists>items. snd (fetchSubtitles C E baseUrl type i timeoutMs op) = Inr items"
    by (rule fetchSubtitles_total [OF assms])
qed

subsection \<open>Departures\<close>

text \<open>
  An abort during a stream request is reported under the client's own error name, so callers that look for an
  \<open>AbortError\<close> take it for a failure of the addon.
\<close>

lemma abort_loses_its_name:
  assumes "ul_parse (url_lib.truncate (ev_lib E)) baseUrl = Some u"
    and "\<And>url. secureFetch E (client_request op timeoutMs 1048576) url = ([], Inl (TransportFailed (error_with (Some ''AbortError'') msg)))"
  shows "fetchStreams C E baseUrl type i timeoutMs op = ([], Inl (addon_error (if fo_aborted op then ''Aborted'' else msg)))"
  using assms by (simp add: fetchStreams_def buildResourceUrl_def fetch_document_def secure_message_def error_with_def)

end
