(* ===== verification/AddonProvider.thy ===== *)
theory AddonProvider
  imports AddonClient DebridService Capacity Capabilities
begin

text \<open>
  The provider one installed addon becomes, \<open>src/stremio/addonProvider.ts\<close>: for a medium it asks the addon
  under each id it may know, guarded by the circuit breaker, the quarantine, the daily budget and the
  concurrency gates, and hands out links to sources and subtitles. The state of the registries is threaded;
  other requests act on it only where this one waits for a gate. The clock, the caller's signal, the network, the
  random ids and the debrid resolver are read per candidate id. The dash of one text is the character with
  code 151.
\<close>

subsection \<open>The provider\<close>

record addon_provider =
  pv_id :: string
  pv_name :: string
  pv_baseUrl :: string
  pv_enabled :: bool
  pv_manifest :: manifest
  pv_supportsSubtitles :: bool
  pv_streamTimeoutMs :: int
  pv_grants :: "grant_options option"
  pv_publicBase :: string
  pv_secureProxy :: bool
  pv_urlPolicy :: "url_options option"
  pv_contentTypes :: "string list"

record provider_opts =
  po_providerId :: string
  po_name :: string
  po_baseUrl :: string
  po_manifest :: manifest
  po_enabled :: "bool option"
  po_streamTimeoutMs :: "int option"
  po_grants :: "grant_options option"
  po_publicBase :: "string option"
  po_secureProxy :: "bool option"
  po_urlPolicy :: "url_options option"

definition kind_content :: "media_kind \<Rightarrow> string list" where
  "kind_content m = (case m of KMovie \<Rightarrow> [''movies''] | KSeries \<Rightarrow> [''tv''] | KTv \<Rightarrow> [''tv''] | KInherited t \<Rightarrow> [])"

definition type_content :: "json \<Rightarrow> string list" where
  "type_content t =
     (if t = JStr ''movie'' then [''movies''] else if t = JStr ''series'' \<or> t = JStr ''tv'' then [''tv''] else [])"

definition both_unless :: "string list \<Rightarrow> string list" where
  "both_unless out = (if out = [] then [''movies'', ''tv''] else out)"

definition contentTypes :: "manifest \<Rightarrow> string list" where
  "contentTypes mf =
     (let caps = Capabilities.deriveCapabilities mf in
      if cp_stream caps \<noteq> []
      then both_unless (uniq (concat (map (\<lambda>e. concat (map kind_content (ce_mediaTypes e))) (cp_stream caps))))
      else both_unless (uniq (concat (map type_content (or_else (jarr (mf_types mf)) [])))))"

definition new_provider :: "provider_opts \<Rightarrow> addon_provider" where
  "new_provider po =
     \<lparr>pv_id = po_providerId po, pv_name = po_name po, pv_baseUrl = po_baseUrl po,
      pv_enabled = or_else (po_enabled po) True, pv_manifest = po_manifest po,
      pv_supportsSubtitles = (cp_subtitles (Capabilities.deriveCapabilities (po_manifest po)) \<noteq> []),
      pv_streamTimeoutMs = or_else (po_streamTimeoutMs po) 20000, pv_grants = po_grants po,
      pv_publicBase = or_else (po_publicBase po) [], pv_secureProxy = (po_secureProxy po \<noteq> Some False),
      pv_urlPolicy = po_urlPolicy po, pv_contentTypes = contentTypes (po_manifest po)\<rparr>"

definition provider_healthy :: "addon_provider \<Rightarrow> bool" where
  "provider_healthy p = pv_enabled p"

subsection \<open>Links\<close>

text \<open>
  The surroundings every candidate shares: the client, \<open>createProxyUrl\<close> of the framework and
  \<open>toISOString\<close>.
\<close>

record provider_lib = client_lib +
  pl_createProxyUrl :: "string \<Rightarrow> (string, string) jsmap option \<Rightarrow> string"
  pl_iso :: "int \<Rightarrow> string"

definition uses_grants :: "addon_provider \<Rightarrow> bool" where
  "uses_grants p \<longleftrightarrow> pv_secureProxy p \<and> pv_grants p \<noteq> None \<and> pv_publicBase p \<noteq> []"

definition pendingProxy :: "provider_lib \<Rightarrow> addon_provider \<Rightarrow> proxy_fn" where
  "pendingProxy C p url headers =
     (if \<not> uses_grants p then pl_createProxyUrl C url headers
      else pv_publicBase p @ ''/v1/proxy/grant/pending'')"

definition proxyUrl ::
  "provider_lib \<Rightarrow> addon_provider \<Rightarrow> source_env \<Rightarrow> time_ms \<Rightarrow> (string \<Rightarrow> string) \<Rightarrow> string \<Rightarrow>
     (string, string) jsmap option \<Rightarrow> grant_map \<Rightarrow> string \<times> grant_map" where
  "proxyUrl C p E now lid url headers m =
     (case pv_grants p of
        None \<Rightarrow> (pl_createProxyUrl C url headers, m)
      | Some gop \<Rightarrow>
          if \<not> uses_grants p then (pl_createProxyUrl C url headers, m)
          else case issue_grant (map_option parsed_url.truncate \<circ> ul_parse (se_url E)) (se_href E) (se_isProd E) gop
                  (se_lookup E) now (lid url) (grant_input url headers (pv_id p)) m of
            (Inl e, m1) \<Rightarrow> ([], m1)
          | (Inr g, m1) \<Rightarrow> (toProxyUrl g (pv_publicBase p), m1))"

subsection \<open>The state of a run\<close>

record world =
  wd_reg :: registry
  wd_budgets :: budget_registry
  wd_grants :: grant_map
  wd_debrid :: debrid_service

record diagnostic =
  dg_message :: string
  dg_severity :: string

record provider_result =
  px_sources :: "source list"
  px_subtitles :: "subtitle_out list"
  px_diagnostics :: "diagnostic list"

record run =
  ru_world :: world
  ru_diagnostics :: "diagnostic list"
  ru_seen :: "string list"

definition on_reg :: "(registry \<Rightarrow> registry) \<Rightarrow> run \<Rightarrow> run" where
  "on_reg f ru = ru\<lparr>ru_world := (ru_world ru)\<lparr>wd_reg := f (wd_reg (ru_world ru))\<rparr>\<rparr>"

definition run_reg :: "run \<Rightarrow> registry" where
  "run_reg ru = wd_reg (ru_world ru)"

definition emptyResult :: "addon_provider \<Rightarrow> string \<Rightarrow> provider_result" where
  "emptyResult p msg = \<lparr>px_sources = [], px_subtitles = [],
     px_diagnostics = [\<lparr>dg_message = pv_name p @ '': '' @ msg, dg_severity = ''warning''\<rparr>]\<rparr>"

text \<open>The moments at which the signal of the caller is read.\<close>

datatype abort_point =
    AtResolve | AtCandidate | AtAttempt | AtGate | InProviderQueue | InHostQueue
  | AtTry nat | AtFetch nat | AfterTry nat | InBackoff nat | AtCatch
  | AtSubtitles | AtSubTry nat | AtSubFetch nat | AfterSubTry nat | InSubBackoff nat | AtSubCatch

record attempt =
  at_signal :: "(abort_point \<Rightarrow> bool) option"
  at_now :: time_ms
  at_acquired :: time_ms
  at_done :: time_ms
  at_subStart :: time_ms
  at_subDone :: time_ms
  at_failed :: time_ms
  at_token :: nat
  at_others :: "registry \<Rightarrow> registry"
  at_othersHost :: "registry \<Rightarrow> registry"
  at_pool :: "nat \<Rightarrow> js_error option option"
  at_fetch :: "nat \<Rightarrow> fetch_env"
  at_jitter :: "nat \<Rightarrow> int"
  at_env :: source_env
  at_probe :: "string \<Rightarrow> bool"
  at_gid :: "nat \<Rightarrow> string"
  at_linkId :: "string \<Rightarrow> string"
  at_answer :: "resolve_input \<Rightarrow> resolution option"
  at_subFetch :: "nat \<Rightarrow> fetch_env"
  at_subJitter :: "nat \<Rightarrow> int"

definition aborted_at :: "attempt \<Rightarrow> abort_point \<Rightarrow> bool" where
  "aborted_at A p = (case at_signal A of None \<Rightarrow> False | Some f \<Rightarrow> f p)"

definition signal_at :: "attempt \<Rightarrow> abort_point \<Rightarrow> bool option" where
  "signal_at A p = map_option (\<lambda>f. f p) (at_signal A)"

definition abort_error :: js_error where
  "abort_error = \<lparr>je_name = Some ''AbortError'', je_code = None, je_message = Some ''Aborted'', je_status = None\<rparr>"

definition null_item_error :: js_error where
  "null_item_error = \<lparr>je_name = Some ''TypeError'', je_code = None,
     je_message = Some (''Cannot read properties of null (reading '' @ [CHR 0x27] @ ''url'' @ [CHR 0x27] @ '')''),
     je_status = None\<rparr>"

definition bad_date_error :: js_error where
  "bad_date_error = \<lparr>je_name = Some ''RangeError'', je_code = None, je_message = Some ''Invalid time value'', je_status = None\<rparr>"

subsection \<open>Gates and fetches\<close>

definition provider_host :: "addon_provider \<Rightarrow> url_lib \<Rightarrow> string option" where
  "provider_host p L = map_option pu_hostname (ul_parse L (pv_baseUrl p))"

definition wait_host :: "attempt \<Rightarrow> string \<Rightarrow> string option \<Rightarrow> acquire_phase \<times> registry \<Rightarrow> bool \<times> registry" where
  "wait_host A pid host ph =
     (case ph of
        (SlotGranted, r) \<Rightarrow> (True, r)
      | (WaitingHost, r) \<Rightarrow>
          if aborted_at A InHostQueue
          then (False, snd (releaseSemaphore pid (abortWaiting (host_gate (or_else host [])) (at_token A) r)))
          else (True, at_othersHost A r)
      | (_, r) \<Rightarrow> (False, r))"

definition acquire_gate :: "attempt \<Rightarrow> string \<Rightarrow> string option \<Rightarrow> registry \<Rightarrow> bool \<times> registry" where
  "acquire_gate A pid host r =
     (case acquire_slot pid host (signal_at A AtGate) (at_token A) r of
        (WaitingProvider, r1) \<Rightarrow>
          if aborted_at A InProviderQueue then (False, abortWaiting pid (at_token A) r1)
          else wait_host A pid host
                 (acquire_host_stage pid host (signal_at A InProviderQueue) (at_token A) (at_others A r1))
      | ph \<Rightarrow> wait_host A pid host ph)"

definition fetch_opts :: "addon_provider \<Rightarrow> attempt \<Rightarrow> abort_point \<Rightarrow> fetch_options" where
  "fetch_opts p A pt = no_fetch_options\<lparr>fo_policy := pv_urlPolicy p, fo_signal := (at_signal A \<noteq> None),
     fo_aborted := aborted_at A pt\<rparr>"

definition stream_try ::
  "client_lib \<Rightarrow> addon_provider \<Rightarrow> attempt \<Rightarrow> string \<Rightarrow> string \<Rightarrow> nat \<Rightarrow> (json list \<times> rat option) + js_error option" where
  "stream_try C p A type i n =
     (case at_pool A n of
        Some err \<Rightarrow> Inr err
      | None \<Rightarrow>
          (case snd (fetchStreams C (at_fetch A n) (pv_baseUrl p) type i (pv_streamTimeoutMs p)
                 (fetch_opts p A (AtFetch n))) of
             Inl e \<Rightarrow> Inr (Some e)
           | Inr v \<Rightarrow> Inl v))"

definition subtitle_try ::
  "client_lib \<Rightarrow> addon_provider \<Rightarrow> attempt \<Rightarrow> string \<Rightarrow> string \<Rightarrow> nat \<Rightarrow> json list + js_error option" where
  "subtitle_try C p A type i n =
     (case snd (fetchSubtitles C (at_subFetch A n) (pv_baseUrl p) type i 12000 (fetch_opts p A (AtSubFetch n))) of
        Inl e \<Rightarrow> Inr (Some e)
      | Inr v \<Rightarrow> Inl v)"

definition stream_aborts :: "attempt \<Rightarrow> nat \<Rightarrow> abort_view" where
  "stream_aborts A n = \<lparr>av_before = aborted_at A (AtTry n), av_after = aborted_at A (AfterTry n),
     av_sleep = aborted_at A (InBackoff n)\<rparr>"

definition subtitle_aborts :: "attempt \<Rightarrow> nat \<Rightarrow> abort_view" where
  "subtitle_aborts A n = \<lparr>av_before = aborted_at A (AtSubTry n), av_after = aborted_at A (AfterSubTry n),
     av_sleep = aborted_at A (InSubBackoff n)\<rparr>"

definition retried_streams ::
  "client_lib \<Rightarrow> addon_provider \<Rightarrow> attempt \<Rightarrow> string \<Rightarrow> string \<Rightarrow> (json list \<times> rat option) retry_result" where
  "retried_streams C p A type i =
     fst (withRetry (stream_try C p A type i) (stream_aborts A) (Some 2) (Some 150) (at_jitter A))"

definition retried_subtitles ::
  "client_lib \<Rightarrow> addon_provider \<Rightarrow> attempt \<Rightarrow> string \<Rightarrow> string \<Rightarrow> json list retry_result" where
  "retried_subtitles C p A type i =
     fst (withRetry (subtitle_try C p A type i) (subtitle_aborts A) (Some 2) (Some 120) (at_subJitter A))"

subsection \<open>Subtitles\<close>

fun link_subtitles ::
  "(string \<Rightarrow> grant_map \<Rightarrow> string \<times> grant_map) \<Rightarrow> stremio_subtitle list \<Rightarrow> grant_map \<Rightarrow> subtitle_out list \<times> grant_map" where
  "link_subtitles proxy [] m = ([], m)"
| "link_subtitles proxy (s # ss) m =
     (case proxy (ss_url s) m of
        (proxied, m1) \<Rightarrow>
          (case link_subtitles proxy ss m1 of
             (out, m2) \<Rightarrow> ((if proxied = [] then [] else mapSubtitles [s] (\<lambda>u. proxied)) @ out, m2)))"

text \<open>The part that asks the addon; the flag is cleared when the caller has gone.\<close>

definition subtitles_fetched ::
  "addon_provider \<Rightarrow> attempt \<Rightarrow> json list retry_result \<Rightarrow> registry \<Rightarrow> json list \<times> registry" where
  "subtitles_fetched p A res r =
     (let failed = (\<lambda>e. if (\<exists>j. e = Some j \<and> je_name j = Some ''AbortError'') \<and> aborted_at A AtSubCatch then r
                        else recordFailure (pv_id p) (classifyError e) None (at_subDone A) r)
      in case res of
           RetryValue subs \<Rightarrow> (subs, recordSuccess (pv_id p) (at_subDone A - at_subStart A) r)
         | RetryThrow e \<Rightarrow> ([], failed e)
         | RetryAborted \<Rightarrow> ([], failed (Some abort_error)))"

definition addon_subtitles ::
  "client_lib \<Rightarrow> addon_provider \<Rightarrow> attempt \<Rightarrow> string \<Rightarrow> string \<Rightarrow> registry \<Rightarrow> json list \<times> registry" where
  "addon_subtitles C p A type i r =
     (let (st, r1) = getState (pv_id p) (at_subStart A) r in
      if st = Open then ([], r1)
      else let (st2, r2) = getState (pv_id p) (at_subStart A) r1;
               (ok, r3) = (if st2 = HalfOpen then isProbeAllowed (pv_id p) (at_subStart A) r2 else (True, r2))
           in if \<not> ok then ([], r3)
              else subtitles_fetched p A (retried_subtitles C p A type i) r3)"

definition own_subtitles :: "stremio_stream list \<Rightarrow> stremio_subtitle list" where
  "own_subtitles ss = concat (map (\<lambda>s. or_else (st_subtitles s) []) ss)"

definition linked_subtitles ::
  "provider_lib \<Rightarrow> addon_provider \<Rightarrow> attempt \<Rightarrow> stremio_subtitle list \<Rightarrow> run \<Rightarrow> subtitle_out list \<times> run" where
  "linked_subtitles C p A collected ru =
     (case link_subtitles (\<lambda>url. proxyUrl C p (at_env A) (at_subDone A) (at_linkId A) url None)
             (pick_subtitles [] collected) (wd_grants (ru_world ru)) of
        (out, m) \<Rightarrow> (out, ru\<lparr>ru_world := (ru_world ru)\<lparr>wd_grants := m\<rparr>\<rparr>))"

definition collectSubtitles ::
  "provider_lib \<Rightarrow> addon_provider \<Rightarrow> attempt \<Rightarrow> string \<Rightarrow> string \<Rightarrow> stremio_stream list \<Rightarrow> run \<Rightarrow> subtitle_out list \<times> run" where
  "collectSubtitles C p A type i ss ru =
     (if \<not> pv_supportsSubtitles p then linked_subtitles C p A (own_subtitles ss) ru
      else if aborted_at A AtSubtitles then ([], ru)
      else case addon_subtitles (client_lib.truncate C) p A type i (run_reg ru) of
        (subs, r) \<Rightarrow>
          linked_subtitles C p A (own_subtitles ss @ map subtitle_view subs) (on_reg (\<lambda>_. r) ru))"

subsection \<open>One candidate\<close>

datatype body_end = BodyContinue | BodyReturn provider_result | BodyThrow "js_error option"

datatype step_end = NextId | Answered provider_result | Rejected "js_error option"

definition torrent_ctx :: "media \<Rightarrow> string option \<Rightarrow> torrent_context" where
  "torrent_ctx md title =
     \<lparr>tc_season = (if md_type md = Tv then md_season md else None),
      tc_episode = (if md_type md = Tv then md_episode md else None), tc_title = title\<rparr>"

definition norm_options :: "addon_provider \<Rightarrow> rat option \<Rightarrow> normalize_options" where
  "norm_options p age =
     \<lparr>no_providerId = pv_id p, no_providerName = pv_name p,
      no_grants = (if pv_secureProxy p then pv_grants p else None), no_publicBase = pv_publicBase p,
      no_probe = True, no_responseCacheMaxAge = age\<rparr>"

definition none_playable :: "addon_provider \<Rightarrow> nat \<Rightarrow> diagnostic" where
  "none_playable p n =
     \<lparr>dg_message = pv_name p @ '': '' @ show_nat n @
        '' stream(s) but none playable (torrent/external; enable debrid to unlock torrents)'', dg_severity = ''info''\<rparr>"

definition add_diagnostic :: "diagnostic \<Rightarrow> run \<Rightarrow> run" where
  "add_diagnostic d ru = ru\<lparr>ru_diagnostics := ru_diagnostics ru @ [d]\<rparr>"

text \<open>No stream: a failure of the provider, and a negative entry under the id itself.\<close>

definition note_no_stream :: "string \<Rightarrow> string \<Rightarrow> attempt \<Rightarrow> registry \<Rightarrow> registry" where
  "note_no_stream pid i A r =
     (let r1 = recordFailure pid KNoStream (Some (at_done A - at_acquired A)) (at_done A) r in
      r1\<lparr>rg_negative := jm_set (negative_key (pid @ '':'' @ i) KNoStream) (at_done A + 30000) (rg_negative r1)\<rparr>)"

definition direct_sources ::
  "addon_provider \<Rightarrow> attempt \<Rightarrow> rat option \<Rightarrow> stremio_stream list \<Rightarrow> run \<Rightarrow> source list option \<times> run" where
  "direct_sources p A age ss ru =
     (case normalize_sources (at_env A) (at_done A) (at_probe A) (at_gid A) (norm_options p age)
             (filter isPlayableStream ss) (ru_seen ru) (wd_grants (ru_world ru)) of
        (out, seen, m) \<Rightarrow> (out, ru\<lparr>ru_seen := seen, ru_world := (ru_world ru)\<lparr>wd_grants := m\<rparr>\<rparr>))"

definition torrent_sources ::
  "provider_lib \<Rightarrow> addon_provider \<Rightarrow> attempt \<Rightarrow> torrent_context \<Rightarrow> stremio_stream list \<Rightarrow> run \<Rightarrow> source list \<times> run" where
  "torrent_sources C p A ctx ss ru =
     (case resolveTorrentStreams (at_answer A) (pv_id p) (pv_name p)
             (\<lambda>url. proxyUrl C p (at_env A) (at_done A) (at_linkId A) url None) ctx (at_done A) ss
             \<lparr>ts_service = wd_debrid (ru_world ru), ts_links = wd_grants (ru_world ru)\<rparr> of
        (out, t) \<Rightarrow> (out, ru\<lparr>ru_world := (ru_world ru)\<lparr>wd_debrid := ts_service t, wd_grants := ts_links t\<rparr>\<rparr>))"

definition use_streams ::
  "provider_lib \<Rightarrow> addon_provider \<Rightarrow> attempt \<Rightarrow> torrent_context \<Rightarrow> string \<Rightarrow> string \<Rightarrow> rat option \<Rightarrow>
     stremio_stream list \<Rightarrow> run \<Rightarrow> body_end \<times> run" where
  "use_streams C p A ctx type i age ss ru =
     (case direct_sources p A age ss ru of
        (None, ru1) \<Rightarrow> (BodyThrow (Some bad_date_error), ru1)
      | (Some direct, ru1) \<Rightarrow>
          (case torrent_sources C p A ctx ss ru1 of
             (torrents, ru2) \<Rightarrow>
               (case collectSubtitles C p A type i ss ru2 of
                  (subs, ru3) \<Rightarrow>
                    if direct @ torrents = [] then (BodyContinue, add_diagnostic (none_playable p (length ss)) ru3)
                    else (BodyReturn \<lparr>px_sources = direct @ torrents, px_subtitles = subs,
                                      px_diagnostics = ru_diagnostics ru3\<rparr>, ru3))))"

definition after_gate ::
  "provider_lib \<Rightarrow> addon_provider \<Rightarrow> attempt \<Rightarrow> torrent_context \<Rightarrow> string \<Rightarrow> string \<Rightarrow> run \<Rightarrow> body_end \<times> run" where
  "after_gate C p A ctx type i ru =
     (case retried_streams (client_lib.truncate C) p A type i of
        RetryAborted \<Rightarrow> (BodyThrow (Some abort_error), ru)
      | RetryThrow e \<Rightarrow> (BodyThrow e, ru)
      | RetryValue (items, age) \<Rightarrow>
          if items = [] then (BodyContinue, on_reg (note_no_stream (pv_id p) i A) ru)
          else let ru1 = on_reg (recordSuccess (pv_id p) (at_done A - at_acquired A)) ru in
               (case stream_views items of
                  None \<Rightarrow> (BodyThrow (Some null_item_error), ru1)
                | Some ss \<Rightarrow> use_streams C p A ctx type i age ss ru1))"

text \<open>The \<open>catch\<close>: only an abort that the caller asked for and that still has its name is let through.\<close>

definition is_abort :: "js_error option \<Rightarrow> bool" where
  "is_abort e = (case e of None \<Rightarrow> False
     | Some j \<Rightarrow> je_name j = Some ''AbortError'' \<or> je_name j = Some ''TimeoutError'')"

definition error_text :: "js_error option \<Rightarrow> string" where
  "error_text e = (case e of None \<Rightarrow> ''Unknown error'' | Some j \<Rightarrow> or_else (je_message j) [])"

definition catch_error :: "addon_provider \<Rightarrow> attempt \<Rightarrow> js_error option \<Rightarrow> run \<Rightarrow> step_end \<times> run" where
  "catch_error p A e ru =
     (if is_abort e \<and> aborted_at A AtCatch then (Rejected e, ru)
      else (NextId,
            add_diagnostic \<lparr>dg_message = pv_name p @ '': '' @ error_text e, dg_severity = ''error''\<rparr>
              (on_reg (recordFailure (pv_id p) (classifyError e) (Some (at_failed A - at_now A)) (at_failed A)) ru)))"

definition settle_body :: "addon_provider \<Rightarrow> attempt \<Rightarrow> body_end \<times> run \<Rightarrow> step_end \<times> run" where
  "settle_body p A b =
     (case b of
        (BodyContinue, ru) \<Rightarrow> (NextId, ru)
      | (BodyReturn px, ru) \<Rightarrow> (Answered px, ru)
      | (BodyThrow e, ru) \<Rightarrow> catch_error p A e ru)"

definition give_back :: "addon_provider \<Rightarrow> string option \<Rightarrow> step_end \<times> run \<Rightarrow> step_end \<times> run" where
  "give_back p host x = (fst x, on_reg (\<lambda>r. snd (release_slot False (pv_id p) host r)) (snd x))"

definition attempt_candidate ::
  "provider_lib \<Rightarrow> addon_provider \<Rightarrow> attempt \<Rightarrow> torrent_context \<Rightarrow> string \<Rightarrow> string \<Rightarrow> run \<Rightarrow> step_end \<times> run" where
  "attempt_candidate C p A ctx type i ru =
     (let host = provider_host p (se_url (at_env A)) in
      if aborted_at A AtAttempt then catch_error p A (Some abort_error) ru
      else case acquire_gate A (pv_id p) host (run_reg ru) of
        (False, r) \<Rightarrow> catch_error p A (Some abort_error) (on_reg (\<lambda>_. r) ru)
      | (True, r) \<Rightarrow>
          give_back p host (settle_body p A (after_gate C p A ctx type i (on_reg (\<lambda>_. r) ru))))"

definition recently_empty :: "string \<Rightarrow> string \<Rightarrow> time_ms \<Rightarrow> registry \<Rightarrow> bool \<times> registry" where
  "recently_empty pid i now r =
     (case hasNegative pid KNoStream now r of
        (False, r1) \<Rightarrow> (False, r1)
      | (True, r1) \<Rightarrow> hasNegative (pid @ '':'' @ i) KNoStream now r1)"

definition budget_text :: "provider_lib \<Rightarrow> consume_result \<Rightarrow> string" where
  "budget_text C b = ''daily call budget exhausted ('' @ show_int (cs_limit b) @ ''/day, resets '' @
     pl_iso C (or_else (cs_resetAt b) 0) @ '')''"

definition half_open_gate :: "string \<Rightarrow> time_ms \<Rightarrow> registry \<Rightarrow> bool \<times> registry" where
  "half_open_gate pid now r =
     (case getState pid now r of
        (st, r1) \<Rightarrow> if st = HalfOpen then isProbeAllowed pid now r1 else (True, r1))"

definition candidate_step ::
  "provider_lib \<Rightarrow> addon_provider \<Rightarrow> attempt \<Rightarrow> torrent_context \<Rightarrow> string \<Rightarrow> string \<Rightarrow> run \<Rightarrow> step_end \<times> run" where
  "candidate_step C p A ctx type i ru =
     (if aborted_at A AtCandidate then (Rejected (Some abort_error), ru)
      else case recently_empty (pv_id p) i (at_now A) (run_reg ru) of
        (True, r) \<Rightarrow> (NextId, on_reg (\<lambda>_. r) ru)
      | (False, r) \<Rightarrow>
          (case consume (pv_id p) (at_now A) (wd_budgets (ru_world ru)) of
             (b, bs) \<Rightarrow>
               (let ru1 = ru\<lparr>ru_world := (ru_world ru)\<lparr>wd_reg := r, wd_budgets := bs\<rparr>\<rparr> in
                if \<not> cs_allowed b then (Answered (emptyResult p (budget_text C b)), ru1)
                else case half_open_gate (pv_id p) (at_now A) r of
                  (False, r1) \<Rightarrow> (NextId, on_reg (\<lambda>_. r1) ru1)
                | (True, r1) \<Rightarrow> attempt_candidate C p A ctx type i (on_reg (\<lambda>_. r1) ru1))))"

subsection \<open>A request\<close>

datatype resolve_end = Resolution provider_result | Failed "js_error option"

fun resolve_ids ::
  "provider_lib \<Rightarrow> addon_provider \<Rightarrow> (nat \<Rightarrow> attempt) \<Rightarrow> torrent_context \<Rightarrow> string \<Rightarrow> nat \<Rightarrow> string list \<Rightarrow> run \<Rightarrow>
     resolve_end \<times> run" where
  "resolve_ids C p As ctx type n [] ru =
     (Resolution \<lparr>px_sources = [], px_subtitles = [], px_diagnostics = ru_diagnostics ru\<rparr>, ru)"
| "resolve_ids C p As ctx type n (i # ids) ru =
     (case candidate_step C p (As n) ctx type i ru of
        (NextId, ru1) \<Rightarrow> resolve_ids C p As ctx type (Suc n) ids ru1
      | (Answered px, ru1) \<Rightarrow> (Resolution px, ru1)
      | (Rejected e, ru1) \<Rightarrow> (Failed e, ru1))"

definition circuit_open_result :: "addon_provider \<Rightarrow> provider_result" where
  "circuit_open_result p = \<lparr>px_sources = [], px_subtitles = [],
     px_diagnostics = [\<lparr>dg_message = pv_name p @ '': circuit open '' @ [CHR 0x97] @ '' temporarily skipped'',
                        dg_severity = ''warning''\<rparr>]\<rparr>"

definition no_id_result :: "addon_provider \<Rightarrow> provider_result" where
  "no_id_result p = emptyResult p ''No usable id (addon needs an IMDb/TMDB id it supports)''"

definition quarantined_result :: "addon_provider \<Rightarrow> quarantine_record option \<Rightarrow> provider_result" where
  "quarantined_result p q =
     emptyResult p (''quarantined: '' @ (case q of None \<Rightarrow> ''repeated failures'' | Some x \<Rightarrow> qr_reason x))"

text \<open>\<open>getMovieSources\<close> and \<open>getTVSources\<close> are both this. \<open>As 0\<close> gives the signal and the clock of its head.\<close>

definition provider_resolve ::
  "provider_lib \<Rightarrow> addon_provider \<Rightarrow> (nat \<Rightarrow> attempt) \<Rightarrow> media \<Rightarrow> string option \<Rightarrow> world \<Rightarrow> resolve_end \<times> world" where
  "provider_resolve C p As md title w =
     (let ids = buildIdCandidates (pv_manifest p) md; now = at_now (As 0) in
      if aborted_at (As 0) AtResolve then (Failed (Some abort_error), w)
      else if ids = []
      then (Resolution (no_id_result p), w\<lparr>wd_reg := recordFailure (pv_id p) KNoCompatibleId None now (wd_reg w)\<rparr>)
      else case getState (pv_id p) now (wd_reg w) of
        (Open, r) \<Rightarrow> (Resolution (circuit_open_result p), w\<lparr>wd_reg := r\<rparr>)
      | (st, r) \<Rightarrow>
          (case isQuarantined (pv_id p) now r of
             (True, r1) \<Rightarrow>
               (case getQuarantine (pv_id p) now r1 of
                  (q, r2) \<Rightarrow> (Resolution (quarantined_result p q), w\<lparr>wd_reg := r2\<rparr>))
           | (False, r1) \<Rightarrow>
               (case resolve_ids C p As (torrent_ctx md title) (toStremioType (md_type md)) 0 ids
                       \<lparr>ru_world = w\<lparr>wd_reg := r1\<rparr>, ru_diagnostics = [], ru_seen = []\<rparr> of
                  (out, ru) \<Rightarrow> (out, ru_world ru))))"

subsection \<open>Every link is a grant\<close>

definition grant_link :: "addon_provider \<Rightarrow> source_env \<Rightarrow> string \<Rightarrow> bool" where
  "grant_link p E u \<longleftrightarrow>
     (\<exists>gop g raw v. pv_grants p = Some gop \<and>
        validateOutboundUrl (map_option parsed_url.truncate \<circ> ul_parse (se_url E)) (se_lookup E) (se_isProd E) raw
          (go_urlPolicy gop) = Inr v \<and> gc_url g = se_href E (vu_url v) \<and> u = toProxyUrl g (pv_publicBase p))"

lemma issued_url:
  "issue_grant parse href isProd op lookup now gid inp m = (Inr g, m') \<Longrightarrow>
     \<exists>v. validateOutboundUrl parse lookup isProd (ii_url inp) (go_urlPolicy op) = Inr v \<and> gc_url g = href (vu_url v)"
  by (auto simp: issue_grant_def new_grant_def Let_def split: sum.splits if_splits)

lemma proxyUrl_grant:
  assumes "uses_grants p" "proxyUrl C p E now lid url h m = (u, m')" "u \<noteq> []"
  shows "grant_link p E u"
proof -
  obtain gop where gop: "pv_grants p = Some gop"
    using assms(1) by (auto simp: uses_grants_def)
  obtain r m1 where r: "issue_grant (map_option parsed_url.truncate \<circ> ul_parse (se_url E)) (se_href E) (se_isProd E) gop
      (se_lookup E) now (lid url) (grant_input url h (pv_id p)) m = (r, m1)"
    by (metis surj_pair)
  show ?thesis
  proof (cases r)
    case (Inr g)
    then show ?thesis
      using assms(2) gop r issued_url [OF r [unfolded Inr]] unfolding grant_link_def
      by (auto simp: proxyUrl_def assms(1))
  qed (use assms gop r in \<open>auto simp: proxyUrl_def\<close>)
qed

lemma emit_one_link:
  assumes "\<And>u g x g1. proxy u g = (x, g1) \<Longrightarrow> x \<noteq> [] \<Longrightarrow> P x" "emit_one pid pname proxy s r t = (Some src, t1)"
  shows "P (so_url src)"
  using assms
  by (fastforce simp: emit_one_def accept_resolution_def torrent_source_def split: option.splits prod.splits list.splits)

lemma finish_batch_links:
  assumes "\<And>u g x g1. proxy u g = (x, g1) \<Longrightarrow> x \<noteq> [] \<Longrightarrow> P x"
  shows "finish_batch answer pid pname proxy ctx now xs t = (os, t1) \<Longrightarrow> Some src \<in> set os \<Longrightarrow> P (so_url src)"
proof (induction xs arbitrary: t os t1)
  case (Cons x xs)
  obtain s st where x: "x = (s, st)" by (cases x)
  obtain r t2 where r: "settle_one answer ctx now s st t = (r, t2)" by (metis surj_pair)
  obtain o1 t3 where o1: "emit_one pid pname proxy s r t2 = (o1, t3)" by (metis surj_pair)
  obtain os' t4 where os: "finish_batch answer pid pname proxy ctx now xs t3 = (os', t4)" by (metis surj_pair)
  show ?case
    using Cons.prems Cons.IH [OF os] emit_one_link [of proxy P pid pname s r t2 src t3, OF assms] o1
    by (auto simp: x r o1 os)
qed simp

lemma run_batches_links:
  assumes "\<And>u g x g1. proxy u g = (x, g1) \<Longrightarrow> x \<noteq> [] \<Longrightarrow> P x"
  shows "run_batches answer pid pname proxy ctx now bs t = (ss, t1) \<Longrightarrow> src \<in> set ss \<Longrightarrow> P (so_url src)"
proof (induction bs arbitrary: t ss t1)
  case (Cons b bs)
  obtain os t2 where b: "run_batch answer pid pname proxy ctx now b t = (os, t2)" by (metis surj_pair)
  obtain ss' t3 where bs: "run_batches answer pid pname proxy ctx now bs t2 = (ss', t3)" by (metis surj_pair)
  have "P (so_url x)" if "Some x \<in> set os" for x
    using finish_batch_links [where P = P, OF assms _ that] b by (simp add: run_batch_def)
  then show ?case
    using Cons.prems Cons.IH [OF bs] by (auto simp: b bs Let_def set_map_filter)
qed simp

lemma torrent_sources_links:
  assumes "uses_grants p" "torrent_sources C p A ctx ss ru = (out, ru1)" "s \<in> set out"
  shows "grant_link p (at_env A) (so_url s)"
proof -
  let ?proxy = "\<lambda>url. proxyUrl C p (at_env A) (at_done A) (at_linkId A) url None"
  have link: "grant_link p (at_env A) x" if "?proxy u g = (x, g1)" "x \<noteq> []" for u g x g1
    using proxyUrl_grant [OF assms(1) that] .
  obtain t where "resolveTorrentStreams (at_answer A) (pv_id p) (pv_name p) ?proxy ctx (at_done A) ss
      \<lparr>ts_service = wd_debrid (ru_world ru), ts_links = wd_grants (ru_world ru)\<rparr> = (out, t)"
    using assms(2) by (auto simp: torrent_sources_def split: prod.splits)
  then show ?thesis
    using run_batches_links [where P = "grant_link p (at_env A)" and proxy = ?proxy, OF link] assms(3)
    by (auto simp: resolveTorrentStreams_def split: if_splits)
qed

lemma normalized_granted:
  assumes "normalize_sources E now probe gid op ss seen m = (Some out, seen1, m1)" "s \<in> set out"
  shows "granted E op s"
proof -
  let ?n0 = "\<lparr>ns_seen = seen, ns_probes = [], ns_grants = m, ns_out = []\<rparr>"
  obtain ok n where n: "normalize_loop E now probe gid op 0 ss ?n0 = (ok, n)" by (metis surj_pair)
  have "norm_inv E op seen 0 ?n0" by (simp add: norm_inv_def)
  from normalize_loop_inv [OF this, of now probe gid ss] obtain i where "norm_inv E op seen i n" by (auto simp: n)
  moreover have "out = ns_out n"
    using assms(1) by (simp add: normalize_sources_def n split: if_splits)
  ultimately show ?thesis using assms(2) by (simp add: norm_inv_def)
qed

lemma direct_sources_links:
  assumes "direct_sources p A age ss ru = (Some out, ru1)" "s \<in> set out"
  shows "grant_link p (at_env A) (so_url s)"
proof -
  obtain seen m where "normalize_sources (at_env A) (at_done A) (at_probe A) (at_gid A) (norm_options p age)
      (filter isPlayableStream ss) (ru_seen ru) (wd_grants (ru_world ru)) = (Some out, seen, m)"
    using assms(1) by (auto simp: direct_sources_def split: prod.splits)
  from normalized_granted [OF this assms(2)] show ?thesis
    unfolding granted_def grant_link_def norm_options_def by (auto split: if_splits)
qed

lemma link_subtitles_links:
  assumes "\<And>u m x m1. proxy u m = (x, m1) \<Longrightarrow> x \<noteq> [] \<Longrightarrow> P x"
  shows "link_subtitles proxy ss m = (out, m1) \<Longrightarrow> s \<in> set out \<Longrightarrow> P (so_subUrl s)"
proof (induction ss arbitrary: m out m1)
  case (Cons x ss)
  obtain u m2 where u: "proxy (ss_url x) m = (u, m2)" by (metis surj_pair)
  obtain out' m3 where out': "link_subtitles proxy ss m2 = (out', m3)" by (metis surj_pair)
  have "so_subUrl y = u" if "y \<in> set (mapSubtitles [x] (\<lambda>_. u))" for y
    using that by (auto simp: mapSubtitles_def map_subtitle_def)
  then show ?case
    using Cons.prems Cons.IH [OF out'] assms [OF u] by (auto simp: u out' split: if_splits)
qed simp

lemma collectSubtitles_links:
  assumes "uses_grants p" "collectSubtitles C p A type i ss ru = (out, ru1)" "s \<in> set out"
  shows "grant_link p (at_env A) (so_subUrl s)"
proof -
  let ?proxy = "\<lambda>url. proxyUrl C p (at_env A) (at_subDone A) (at_linkId A) url None"
  have link: "grant_link p (at_env A) x" if "?proxy u g = (x, g1)" "x \<noteq> []" for u g x g1
    using proxyUrl_grant [OF assms(1) that] .
  have "grant_link p (at_env A) (so_subUrl s)" if "linked_subtitles C p A xs r = (out, ru1)" for xs r
    using that assms(3) link_subtitles_links [where P = "grant_link p (at_env A)" and proxy = ?proxy, OF link]
    by (auto simp: linked_subtitles_def split: prod.splits)
  then show ?thesis
    using assms(2,3) by (auto simp: collectSubtitles_def split: prod.splits if_splits)
qed

definition px_granted :: "addon_provider \<Rightarrow> source_env \<Rightarrow> provider_result \<Rightarrow> bool" where
  "px_granted p E px \<longleftrightarrow>
     (\<forall>s \<in> set (px_sources px). grant_link p E (so_url s)) \<and> (\<forall>s \<in> set (px_subtitles px). grant_link p E (so_subUrl s))"

lemma use_streams_granted:
  assumes "uses_grants p" "use_streams C p A ctx type i age ss ru = (BodyReturn px, ru1)"
  shows "px_granted p (at_env A) px"
proof -
  obtain d ru2 where d: "direct_sources p A age ss ru = (d, ru2)" by (metis surj_pair)
  obtain out where out: "d = Some out"
    using assms(2) d by (cases d) (auto simp: use_streams_def)
  obtain ts ru3 where ts: "torrent_sources C p A ctx ss ru2 = (ts, ru3)" by (metis surj_pair)
  obtain subs ru4 where subs: "collectSubtitles C p A type i ss ru3 = (subs, ru4)" by (metis surj_pair)
  have "px_sources px = out @ ts" "px_subtitles px = subs"
    using assms(2) d out ts subs by (auto simp: use_streams_def split: if_splits)
  then show ?thesis
    using direct_sources_links [OF d [unfolded out]] torrent_sources_links [OF assms(1) ts]
      collectSubtitles_links [OF assms(1) subs]
    by (auto simp: px_granted_def)
qed

lemma after_gate_granted:
  "uses_grants p \<Longrightarrow> after_gate C p A ctx type i ru = (BodyReturn px, ru1) \<Longrightarrow> px_granted p (at_env A) px"
  using use_streams_granted
  by (fastforce simp: after_gate_def Let_def split: retry_result.splits prod.splits if_splits option.splits)

lemma empty_granted [simp]: "px_granted p E (emptyResult q msg)"
  by (simp add: px_granted_def emptyResult_def)

lemma settle_answered: "settle_body p A b = (Answered px, ru1) \<Longrightarrow> fst b = BodyReturn px"
  by (cases b; cases "fst b") (auto simp: settle_body_def catch_error_def split: if_splits)

lemma attempt_granted:
  assumes "uses_grants p" "fst (attempt_candidate C p A ctx type i ru) = Answered px"
  shows "px_granted p (at_env A) px"
proof -
  obtain held r where g: "acquire_gate A (pv_id p) (provider_host p (se_url (at_env A))) (run_reg ru) = (held, r)"
    by (metis surj_pair)
  have "\<not> aborted_at A AtAttempt \<and> held"
    using assms(2) g by (cases held) (auto simp: attempt_candidate_def Let_def catch_error_def split: if_splits)
  moreover obtain b where b: "after_gate C p A ctx type i (on_reg (\<lambda>_. r) ru) = b" by blast
  ultimately have "fst (settle_body p A b) = Answered px"
    using assms(2) g by (simp add: attempt_candidate_def Let_def give_back_def)
  then have "fst b = BodyReturn px"
    using settle_answered [of p A b] by (metis prod.collapse)
  then show ?thesis
    using after_gate_granted [OF assms(1)] b by (metis prod.collapse)
qed

lemma step_granted:
  assumes "uses_grants p" "candidate_step C p A ctx type i ru = (Answered px, ru1)"
  shows "px_granted p (at_env A) px"
proof -
  have "fst (candidate_step C p A ctx type i ru) = Answered px" by (simp add: assms(2))
  then show ?thesis
    using attempt_granted [OF assms(1)]
    by (auto simp: candidate_step_def Let_def split: if_splits prod.splits bool.splits)
qed

lemma resolve_ids_granted:
  "uses_grants p \<Longrightarrow> resolve_ids C p As ctx type n ids ru = (Resolution px, ru1) \<Longrightarrow> \<exists>k. px_granted p (at_env (As k)) px"
proof (induction ids arbitrary: n ru)
  case Nil
  then show ?case by (auto simp: px_granted_def)
next
  case (Cons i ids)
  then show ?case
    using step_granted [OF Cons.prems(1)] by (fastforce split: prod.splits step_end.splits)
qed


subsection \<open>Slots are given back\<close>

text \<open>The slots of a gate in use, with those who wait for it.\<close>

definition gate_view :: "registry \<Rightarrow> string \<Rightarrow> int \<times> (nat \<times> bool) list" where
  "gate_view r k = (case jm_get (rg_semaphores r) k of None \<Rightarrow> (0, []) | Some g \<Rightarrow> (fg_count g, fg_queue g))"

text \<open>What the other operations leave of the gates, and of the limit.\<close>

definition same_gates :: "registry \<Rightarrow> registry \<Rightarrow> bool" where
  "same_gates r r1 \<longleftrightarrow> rg_semaphores r1 = rg_semaphores r \<and> rg_concurrencyLimit r1 = rg_concurrencyLimit r"

named_theorems gates

lemma same_gates_refl [gates]: "same_gates r r"
  by (simp add: same_gates_def)

lemma same_gates_trans: "same_gates r r1 \<Longrightarrow> same_gates r1 r2 \<Longrightarrow> same_gates r r2"
  by (simp add: same_gates_def)

lemma same_gates_getState [gates]: "same_gates r (snd (getState p now r))"
  by (auto simp: same_gates_def getState_def put_circuit_def split: option.split)

lemma same_gates_probe [gates]: "same_gates r (snd (isProbeAllowed p now r))"
  using same_gates_getState [of r p now]
  by (auto simp: same_gates_def isProbeAllowed_def Let_def split: prod.split circuit_state.split)

lemma same_gates_quarantined [gates]: "same_gates r (snd (isQuarantined p now r))"
  by (auto simp: same_gates_def isQuarantined_def split: option.split)

lemma same_gates_negative [gates]: "same_gates r (snd (hasNegative p k now r))"
  by (auto simp: same_gates_def hasNegative_def split: option.split)

lemma same_gates_success [gates]: "same_gates r (recordSuccess p l r)"
  by (simp add: same_gates_def recordSuccess_def Let_def put_circuit_def put_metrics_def releaseHalfOpen_def)

lemma same_gates_opened: "same_gates r (noteCircuitOpened p now r)"
proof -
  let ?opens = "filter (\<lambda>t. now - t < rg_qWindowMs r) (opens_of r p) @ [now]"
  let ?r1 = "r\<lparr>rg_circuitOpens := jm_set p ?opens (rg_circuitOpens r)\<rparr>"
  obtain b r2 where q: "isQuarantined p now ?r1 = (b, r2)" by (metis surj_pair)
  then have "same_gates r r2"
    using same_gates_quarantined [of ?r1 p now] by (simp add: same_gates_def)
  then show ?thesis
    using q by (simp add: noteCircuitOpened_def Let_def same_gates_def quarantine_def)
qed

lemma same_gates_failure [gates]: "same_gates r (recordFailure p k l now r)"
  using same_gates_opened
  by (simp add: same_gates_def recordFailure_def Let_def put_circuit_def put_metrics_def releaseHalfOpen_def)

lemma same_gates_no_stream [gates]: "same_gates r (note_no_stream p i A r)"
  using same_gates_failure [of r p KNoStream "Some (at_done A - at_acquired A)" "at_done A"]
  by (simp add: same_gates_def note_no_stream_def Let_def)

lemma same_gates_fetched [gates]: "same_gates r (snd (subtitles_fetched p A res r))"
  by (auto simp: subtitles_fetched_def Let_def gates split: retry_result.split)

lemma same_gates_subtitles [gates]: "same_gates r (snd (addon_subtitles C p A type i r))"
proof -
  obtain st r1 where r1: "getState (pv_id p) (at_subStart A) r = (st, r1)" by (metis surj_pair)
  obtain st2 r2 where r2: "getState (pv_id p) (at_subStart A) r1 = (st2, r2)" by (metis surj_pair)
  obtain ok r3 where r3: "isProbeAllowed (pv_id p) (at_subStart A) r2 = (ok, r3)" by (metis surj_pair)
  have "same_gates r r1" "same_gates r1 r2" "same_gates r2 r3"
    using same_gates_getState [of r "pv_id p" "at_subStart A"] same_gates_getState [of r1 "pv_id p" "at_subStart A"]
      same_gates_probe [of r2 "pv_id p" "at_subStart A"] r1 r2 r3 by simp_all
  then have "same_gates r r1" "same_gates r r2" "same_gates r r3"
    using same_gates_trans by blast+
  then show ?thesis
    using same_gates_trans [OF _ same_gates_fetched] by (simp add: addon_subtitles_def Let_def r1 r2 r3)
qed

lemma gates_direct: "wd_reg (ru_world (snd (direct_sources p A age ss ru))) = wd_reg (ru_world ru)"
  by (simp add: direct_sources_def split: prod.split)

lemma gates_torrents: "wd_reg (ru_world (snd (torrent_sources C p A ctx ss ru))) = wd_reg (ru_world ru)"
  by (simp add: torrent_sources_def split: prod.split)

lemma gates_linked: "wd_reg (ru_world (snd (linked_subtitles C p A xs ru))) = wd_reg (ru_world ru)"
  by (simp add: linked_subtitles_def split: prod.split)

lemma gates_collect: "same_gates (run_reg ru) (run_reg (snd (collectSubtitles C p A type i ss ru)))"
  using same_gates_subtitles [of "run_reg ru" "client_lib.truncate C" p A type i]
  by (cases "addon_subtitles (client_lib.truncate C) p A type i (run_reg ru)")
    (simp add: collectSubtitles_def run_reg_def on_reg_def gates_linked same_gates_refl)

lemma gates_use: "same_gates (run_reg ru) (run_reg (snd (use_streams C p A ctx type i age ss ru)))"
proof -
  obtain d ru1 where d: "direct_sources p A age ss ru = (d, ru1)" by (metis surj_pair)
  obtain ts ru2 where t: "torrent_sources C p A ctx ss ru1 = (ts, ru2)" by (metis surj_pair)
  obtain subs ru3 where s: "collectSubtitles C p A type i ss ru2 = (subs, ru3)" by (metis surj_pair)
  have "run_reg ru1 = run_reg ru" "run_reg ru2 = run_reg ru1" "same_gates (run_reg ru2) (run_reg ru3)"
    using gates_direct [of p A age ss ru] gates_torrents [of C p A ctx ss ru1] gates_collect [of ru2 C p A type i ss] d t s
    by (simp_all add: run_reg_def)
  then show ?thesis
    by (cases d) (simp_all add: use_streams_def d t s add_diagnostic_def run_reg_def gates)
qed

lemma gates_after: "same_gates (run_reg ru) (run_reg (snd (after_gate C p A ctx type i ru)))"
proof (cases "retried_streams (client_lib.truncate C) p A type i")
  case (RetryValue v)
  obtain items age where v: "v = (items, age)" by (cases v)
  let ?ru = "on_reg (recordSuccess (pv_id p) (at_done A - at_acquired A)) ru"
  have success: "same_gates (run_reg ru) (run_reg ?ru)"
    by (simp add: on_reg_def run_reg_def gates)
  show ?thesis
  proof (cases "items = []")
    case True
    then show ?thesis by (simp add: after_gate_def RetryValue v on_reg_def run_reg_def gates)
  next
    case False
    then show ?thesis
      using success same_gates_trans [OF success gates_use]
      by (simp add: after_gate_def RetryValue v Let_def split: option.split)
  qed
qed (simp_all add: after_gate_def gates)

lemma gates_catch: "same_gates (run_reg ru) (run_reg (snd (catch_error p A e ru)))"
  by (simp add: catch_error_def on_reg_def run_reg_def add_diagnostic_def gates)

lemma gates_settle: "same_gates (run_reg (snd b)) (run_reg (snd (settle_body p A b)))"
  using gates_catch by (cases b; cases "fst b") (simp_all add: settle_body_def gates)

definition gates_eq :: "registry \<Rightarrow> registry \<Rightarrow> bool" where
  "gates_eq r r1 \<longleftrightarrow> gate_view r1 = gate_view r \<and> rg_concurrencyLimit r1 = rg_concurrencyLimit r"

lemma gates_eq_refl: "gates_eq r r"
  by (simp add: gates_eq_def)

lemma gates_eq_trans: "gates_eq r r1 \<Longrightarrow> gates_eq r1 r2 \<Longrightarrow> gates_eq r r2"
  by (simp add: gates_eq_def)

lemma same_gates_eq: "same_gates r r1 \<Longrightarrow> gates_eq r r1"
  by (auto simp: same_gates_def gates_eq_def gate_view_def)

definition free_gate :: "registry \<Rightarrow> string \<Rightarrow> int \<Rightarrow> bool" where
  "free_gate r k limit \<longleftrightarrow> snd (gate_view r k) = [] \<and> 0 \<le> fst (gate_view r k) \<and> fst (gate_view r k) < limit"

text \<open>The gates a request of the provider passes have room and nobody waits for them.\<close>

definition gates_free :: "addon_provider \<Rightarrow> string option \<Rightarrow> registry \<Rightarrow> bool" where
  "gates_free p host r \<longleftrightarrow> free_gate r (pv_id p) (rg_concurrencyLimit r) \<and>
     (case host of None \<Rightarrow> True
      | Some h \<Rightarrow> h = [] \<or> host_gate h \<noteq> pv_id p \<and> free_gate r (host_gate h) (rg_concurrencyLimit r * 2))"

lemma gates_free_eq: "gates_eq r r1 \<Longrightarrow> gates_free p host r1 = gates_free p host r"
  by (simp add: gates_eq_def gates_free_def free_gate_def split: option.split)

lemma enter_free:
  assumes "free_gate r k limit"
  shows "\<exists>r1. acquireSemaphore k limit sg tok r = (GateEntered, r1) \<and> rg_concurrencyLimit r1 = rg_concurrencyLimit r \<and>
    gate_view r1 = (gate_view r)(k := (fst (gate_view r k) + 1, []))"
proof (cases "jm_get (rg_semaphores r) k")
  case None
  then show ?thesis
    using assms by (auto simp: acquireSemaphore_def Let_def free_gate_def gate_view_def fun_eq_iff)
next
  case (Some g)
  then show ?thesis
    using assms by (auto simp: acquireSemaphore_def Let_def free_gate_def gate_view_def fun_eq_iff)
qed

lemma leave_held:
  assumes "gate_view r k = (c + 1, [])" "0 \<le> c"
  shows "gate_view (snd (releaseSemaphore k r)) = (gate_view r)(k := (c, [])) \<and>
    rg_concurrencyLimit (snd (releaseSemaphore k r)) = rg_concurrencyLimit r"
proof (cases "jm_get (rg_semaphores r) k")
  case None
  then show ?thesis using assms by (simp add: gate_view_def)
next
  case (Some g)
  then have "fg_count g = c + 1" "fg_queue g = []"
    using assms(1) by (simp_all add: gate_view_def)
  then show ?thesis
    using Some assms(2) by (auto simp: releaseSemaphore_def Let_def gate_view_def fun_eq_iff)
qed

text \<open>What a held pair of slots adds to the gates.\<close>

definition held_view :: "addon_provider \<Rightarrow> string option \<Rightarrow> registry \<Rightarrow> registry \<Rightarrow> bool" where
  "held_view p host r r1 \<longleftrightarrow> rg_concurrencyLimit r1 = rg_concurrencyLimit r \<and>
     gate_view r1 =
       (let v = (gate_view r)(pv_id p := (fst (gate_view r (pv_id p)) + 1, [])) in
        case host of None \<Rightarrow> v
        | Some h \<Rightarrow> if h = [] then v else v(host_gate h := (fst (gate_view r (host_gate h)) + 1, [])))"

lemma acquire_free:
  assumes "gates_free p host r" "acquire_gate A (pv_id p) host r = (held, r1)"
  shows "if held then held_view p host r r1 else r1 = r"
proof (cases "signal_at A AtGate = Some True")
  case True
  then show ?thesis using assms(2) by (auto simp: acquire_gate_def acquire_slot_def wait_host_def)
next
  case False
  have "free_gate r (pv_id p) (rg_concurrencyLimit r)"
    using assms(1) by (simp add: gates_free_def)
  then obtain r2 where r2: "acquireSemaphore (pv_id p) (rg_concurrencyLimit r) (signal_at A AtGate) (at_token A) r = (GateEntered, r2)"
      "rg_concurrencyLimit r2 = rg_concurrencyLimit r" "gate_view r2 = (gate_view r)(pv_id p := (fst (gate_view r (pv_id p)) + 1, []))"
    using enter_free by blast
  show ?thesis
  proof (cases "host = None \<or> host = Some []")
    case True
    then show ?thesis
      using False assms(2) r2
      by (auto simp: acquire_gate_def acquire_slot_def acquire_host_stage_def wait_host_def held_view_def Let_def)
  next
    case host: False
    then obtain h where h: "host = Some h" "h \<noteq> []" by auto
    then have ne: "host_gate h \<noteq> pv_id p" and "free_gate r2 (host_gate h) (rg_concurrencyLimit r2 * 2)"
      using assms(1) r2(2,3) by (simp_all add: gates_free_def free_gate_def)
    then obtain r3 where "acquireSemaphore (host_gate h) (rg_concurrencyLimit r2 * 2) (signal_at A AtGate) (at_token A) r2 = (GateEntered, r3)"
        "rg_concurrencyLimit r3 = rg_concurrencyLimit r2" "gate_view r3 = (gate_view r2)(host_gate h := (fst (gate_view r2 (host_gate h)) + 1, []))"
      using enter_free by blast
    then show ?thesis
      using False assms(2) r2 h ne
      by (auto simp: acquire_gate_def acquire_slot_def acquire_host_stage_def wait_host_def held_view_def Let_def)
  qed
qed

lemma release_held:
  assumes "gates_free p host r" "held_view p host r r1"
  shows "gates_eq r (snd (release_slot False (pv_id p) host r1))"
proof -
  let ?g = "gate_view r (pv_id p)"
  have g: "?g = (fst ?g, [])" "0 \<le> fst ?g"
    using assms(1) by (simp_all add: gates_free_def free_gate_def prod_eq_iff)
  obtain x r2 where r2: "releaseSemaphore (pv_id p) r1 = (x, r2)" by (metis surj_pair)
  show ?thesis
  proof (cases "host = None \<or> host = Some []")
    case True
    then have v: "gate_view r1 = (gate_view r)(pv_id p := (fst ?g + 1, []))" "rg_concurrencyLimit r1 = rg_concurrencyLimit r"
      using assms(2) by (auto simp: held_view_def Let_def)
    then have "gate_view r1 (pv_id p) = (fst ?g + 1, [])" by simp
    from leave_held [OF this g(2)] have "gate_view r2 = gate_view r" "rg_concurrencyLimit r2 = rg_concurrencyLimit r"
      using v g(1) r2 by (auto simp: fun_eq_iff)
    then show ?thesis using True r2 by (auto simp: release_slot_def gates_eq_def)
  next
    case False
    then obtain h where h: "host = Some h" "h \<noteq> []" by auto
    let ?h = "gate_view r (host_gate h)"
    have hg: "?h = (fst ?h, [])" "0 \<le> fst ?h" and ne: "host_gate h \<noteq> pv_id p"
      using assms(1) h by (simp_all add: gates_free_def free_gate_def prod_eq_iff)
    have v: "gate_view r1 = (gate_view r)(pv_id p := (fst ?g + 1, []), host_gate h := (fst ?h + 1, []))"
        "rg_concurrencyLimit r1 = rg_concurrencyLimit r"
      using assms(2) h by (simp_all add: held_view_def Let_def)
    then have "gate_view r1 (pv_id p) = (fst ?g + 1, [])" using ne by simp
    from leave_held [OF this g(2)] have v2: "gate_view r2 = (gate_view r)(host_gate h := (fst ?h + 1, []))"
        "rg_concurrencyLimit r2 = rg_concurrencyLimit r"
      using v g(1) r2 ne by (auto simp: fun_eq_iff)
    obtain y r3 where r3: "releaseSemaphore (host_gate h) r2 = (y, r3)" by (metis surj_pair)
    have "gate_view r2 (host_gate h) = (fst ?h + 1, [])" using v2 by simp
    from leave_held [OF this hg(2)] have "gate_view r3 = gate_view r" "rg_concurrencyLimit r3 = rg_concurrencyLimit r"
      using v2 hg(1) r3 by (auto simp: fun_eq_iff)
    then show ?thesis using h r2 r3 by (simp add: release_slot_def gates_eq_def)
  qed
qed

lemma held_same: "held_view p host r r1 \<Longrightarrow> same_gates r1 r2 \<Longrightarrow> held_view p host r r2"
  using same_gates_eq [of r1 r2] by (simp add: held_view_def gates_eq_def)

lemma attempt_gates:
  assumes "gates_free p (provider_host p (se_url (at_env A))) (run_reg ru)"
  shows "gates_eq (run_reg ru) (run_reg (snd (attempt_candidate C p A ctx type i ru)))"
proof -
  let ?host = "provider_host p (se_url (at_env A))"
  obtain held r where g: "acquire_gate A (pv_id p) ?host (run_reg ru) = (held, r)" by (metis surj_pair)
  note got = acquire_free [OF assms g]
  let ?ru = "on_reg (\<lambda>_. r) ru"
  have r: "run_reg ?ru = r" by (simp add: on_reg_def run_reg_def)
  show ?thesis
  proof (cases "aborted_at A AtAttempt \<or> \<not> held")
    case True
    have "gates_eq (run_reg x) (run_reg (snd (catch_error p A (Some abort_error) x)))" for x
      by (rule same_gates_eq [OF gates_catch])
    moreover have "\<not> held \<Longrightarrow> run_reg ?ru = run_reg ru"
      using got r by simp
    ultimately show ?thesis
      using True g by (cases held) (auto simp: attempt_candidate_def Let_def, metis)
  next
    case False
    obtain b where b: "after_gate C p A ctx type i ?ru = b" by blast
    have "same_gates r (run_reg (snd (settle_body p A b)))"
      using gates_after [of ?ru C p A ctx type i] gates_settle [of b p A] r b same_gates_trans by simp
    then have "held_view p ?host (run_reg ru) (run_reg (snd (settle_body p A b)))"
      using got False held_same by simp
    from release_held [OF assms this] show ?thesis
      using False g b by (simp add: attempt_candidate_def Let_def give_back_def on_reg_def run_reg_def)
  qed
qed

lemma same_gates_recent [gates]: "same_gates r (snd (recently_empty p i now r))"
proof -
  obtain b r1 where b: "hasNegative p KNoStream now r = (b, r1)" by (metis surj_pair)
  have "same_gates r r1" using same_gates_negative [of r p KNoStream now] b by simp
  then show ?thesis
    using same_gates_trans [OF _ same_gates_negative] b by (cases b) (simp_all add: recently_empty_def)
qed

lemma same_gates_half [gates]: "same_gates r (snd (half_open_gate p now r))"
proof -
  obtain st r1 where st: "getState p now r = (st, r1)" by (metis surj_pair)
  have "same_gates r r1" using same_gates_getState [of r p now] st by simp
  then show ?thesis
    using same_gates_trans [OF _ same_gates_probe] st by (simp add: half_open_gate_def)
qed

lemma step_gates:
  assumes "gates_free p (provider_host p (se_url (at_env A))) (run_reg ru)"
  shows "gates_eq (run_reg ru) (run_reg (snd (candidate_step C p A ctx type i ru)))"
proof -
  obtain e r where e: "recently_empty (pv_id p) i (at_now A) (run_reg ru) = (e, r)" by (metis surj_pair)
  obtain b bs where b: "consume (pv_id p) (at_now A) (wd_budgets (ru_world ru)) = (b, bs)" by (metis surj_pair)
  obtain ok r1 where ok: "half_open_gate (pv_id p) (at_now A) r = (ok, r1)" by (metis surj_pair)
  have same: "same_gates (run_reg ru) r" "same_gates (run_reg ru) r1"
    using same_gates_recent [of "run_reg ru" "pv_id p" i "at_now A"] same_gates_half [of r "pv_id p" "at_now A"] e ok same_gates_trans
    by simp_all
  let ?ru = "on_reg (\<lambda>_. r1) (ru\<lparr>ru_world := (ru_world ru)\<lparr>wd_reg := r, wd_budgets := bs\<rparr>\<rparr>)"
  have "run_reg ?ru = r1" by (simp add: on_reg_def run_reg_def)
  then have "gates_eq r1 (run_reg (snd (attempt_candidate C p A ctx type i ?ru)))"
    using attempt_gates [of p A ?ru C ctx type i] assms gates_free_eq [OF same_gates_eq [OF same(2)]] by simp
  then have go: "gates_eq (run_reg ru) (run_reg (snd (attempt_candidate C p A ctx type i ?ru)))"
    using gates_eq_trans [OF same_gates_eq [OF same(2)]] by simp
  show ?thesis
    using go same_gates_eq [OF same(1)] same_gates_eq [OF same(2)]
    by (cases e; cases ok) (simp_all add: candidate_step_def e [unfolded run_reg_def] b ok Let_def gates_eq_refl on_reg_def run_reg_def)
qed

lemma resolve_ids_gates:
  "(\<And>k. gates_free p (provider_host p (se_url (at_env (As k)))) (run_reg ru)) \<Longrightarrow>
     gates_eq (run_reg ru) (run_reg (snd (resolve_ids C p As ctx type n ids ru)))"
proof (induction ids arbitrary: n ru)
  case (Cons i ids)
  obtain out ru1 where s: "candidate_step C p (As n) ctx type i ru = (out, ru1)" by (metis surj_pair)
  have eq: "gates_eq (run_reg ru) (run_reg ru1)"
    using step_gates [where A = "As n" and C = C and ctx = ctx and type = type and i = i, OF Cons.prems] s by simp
  then have "gates_eq (run_reg ru1) (run_reg (snd (resolve_ids C p As ctx type (Suc n) ids ru1)))"
    using Cons.IH [of ru1 "Suc n"] Cons.prems gates_free_eq [OF eq] by simp
  then show ?case
    using eq gates_eq_trans [OF eq] by (cases out) (simp_all add: s)
qed (simp add: gates_eq_refl)

text \<open>
  C10. Whatever ends a request of a provider (an answer, an empty answer, a failure of the addon, an abort at any
  moment), it leaves every concurrency gate as it found it: the slots it took are given back once, no more and no less.
  The gates it needs have room, so that it does not wait.
\<close>

theorem provider_slots_returned:
  assumes "\<And>k. gates_free p (provider_host p (se_url (at_env (As k)))) (wd_reg w)"
  shows "gate_view (wd_reg (snd (provider_resolve C p As md title w))) key = gate_view (wd_reg w) key"
proof -
  let ?now = "at_now (As 0)"
  obtain st r where st: "getState (pv_id p) ?now (wd_reg w) = (st, r)" by (metis surj_pair)
  obtain b r1 where b: "isQuarantined (pv_id p) ?now r = (b, r1)" by (metis surj_pair)
  obtain q r2 where q: "getQuarantine (pv_id p) ?now r1 = (q, r2)" by (metis surj_pair)
  have r: "same_gates (wd_reg w) r"
    using same_gates_getState [of "wd_reg w" "pv_id p" ?now] st by simp
  have r1: "same_gates (wd_reg w) r1"
    using same_gates_trans [OF r] same_gates_quarantined [of r "pv_id p" ?now] b by simp
  have "same_gates r1 r2"
    using same_gates_quarantined [of r1 "pv_id p" ?now] q
    by (cases "isQuarantined (pv_id p) ?now r1") (simp add: getQuarantine_def Let_def)
  note r2 = same_gates_trans [OF r1 this]
  let ?ids = "buildIdCandidates (pv_manifest p) md"
  let ?ru = "\<lparr>ru_world = w\<lparr>wd_reg := r1\<rparr>, ru_diagnostics = [], ru_seen = []\<rparr>"
  obtain out ru where run: "resolve_ids C p As (torrent_ctx md title) (toStremioType (md_type md)) 0 ?ids ?ru = (out, ru)"
    by (metis surj_pair)
  have "run_reg ?ru = r1" by (simp add: run_reg_def)
  then have "gates_eq r1 (run_reg ru)"
    using resolve_ids_gates [of p As ?ru C "torrent_ctx md title" "toStremioType (md_type md)" 0 ?ids] run
      assms gates_free_eq [OF same_gates_eq [OF r1]] by simp
  then have go: "gates_eq (wd_reg w) (wd_reg (ru_world ru))"
    using gates_eq_trans [OF same_gates_eq [OF r1]] by (simp add: run_reg_def)
  have "gates_eq (wd_reg w) (wd_reg (snd (provider_resolve C p As md title w)))"
    using go same_gates_eq [OF r] same_gates_eq [OF r2] same_gates_eq [OF same_gates_failure]
    by (cases st; cases b) (simp_all add: provider_resolve_def Let_def st b q run gates_eq_refl)
  then show ?thesis by (simp add: gates_eq_def)
qed

subsection \<open>Departures\<close>

text \<open>
  The comment says an abort by the user is not held against the addon, but the client reports it under its own error
  name: the abort counts as a failure of the provider and the next id is tried.
\<close>

lemma abort_counts_as_failure:
  "fst (catch_error p A (Some (addon_error ''Aborted'')) ru) = NextId \<and>
   run_reg (snd (catch_error p A (Some (addon_error ''Aborted'')) ru)) =
     recordFailure (pv_id p) KTransport (Some (at_failed A - at_now A)) (at_failed A) (run_reg ru)"
proof -
  have "classifyError (Some (addon_error ''Aborted'')) = KTransport" by code_simp
  then show ?thesis
    by (simp add: catch_error_def is_abort_def addon_error_def add_diagnostic_def on_reg_def run_reg_def)
qed

text \<open>
  A half-open trial that is aborted before its request is neither a success nor a failure: the trial slot stays taken,
  and the provider is skipped until the circuit is reset.
\<close>

lemma aborted_trial_keeps_slot:
  assumes "\<not> aborted_at A AtCandidate" "aborted_at A AtAttempt" "aborted_at A AtCatch"
    and "recently_empty (pv_id p) i (at_now A) (run_reg ru) = (False, r)"
    and "cs_allowed (fst (consume (pv_id p) (at_now A) (wd_budgets (ru_world ru))))"
    and "getState (pv_id p) (at_now A) r = (HalfOpen, r1)" "isProbeAllowed (pv_id p) (at_now A) r1 = (True, r2)"
    and "fst (getState (pv_id p) (at_now A) r1) = HalfOpen"
  shows "fst (candidate_step C p A ctx type i ru) = Rejected (Some abort_error) \<and>
    pv_id p \<in> rg_halfOpenInFlight (run_reg (snd (candidate_step C p A ctx type i ru)))"
proof -
  have taken: "pv_id p \<in> rg_halfOpenInFlight r2"
    using assms(7,8) by (auto simp: isProbeAllowed_def Let_def split: prod.splits if_splits)
  have "is_abort (Some abort_error)" by (simp add: is_abort_def abort_error_def)
  moreover obtain b bs where "consume (pv_id p) (at_now A) (wd_budgets (ru_world ru)) = (b, bs)" by (metis surj_pair)
  ultimately show ?thesis
    using assms(1-7) taken
    by (simp add: candidate_step_def half_open_gate_def attempt_candidate_def Let_def catch_error_def run_reg_def on_reg_def)
qed

text \<open>A candidate that is skipped because the trial is under way has already cost a call of the daily budget.\<close>

lemma skipped_trial_costs_call:
  assumes "\<not> aborted_at A AtCandidate" "recently_empty (pv_id p) i (at_now A) (run_reg ru) = (False, r)"
    and "consume (pv_id p) (at_now A) (wd_budgets (ru_world ru)) = (b, bs)" "cs_allowed b"
    and "half_open_gate (pv_id p) (at_now A) r = (False, r1)"
  shows "fst (candidate_step C p A ctx type i ru) = NextId \<and>
    wd_budgets (ru_world (snd (candidate_step C p A ctx type i ru))) = bs"
  using assms by (simp add: candidate_step_def Let_def on_reg_def)

text \<open>A subtitle request never fails, so an addon whose subtitle endpoint is down is recorded as answering.\<close>

lemma subtitle_outage_is_success:
  assumes "ul_parse (url_lib.truncate (ev_lib (at_subFetch A 0))) (pv_baseUrl p) = Some u" "\<not> aborted_at A (AtSubTry 0)"
  shows "\<exists>subs. subtitles_fetched p A (retried_subtitles C p A type i) r =
    (subs, recordSuccess (pv_id p) (at_subDone A - at_subStart A) r)"
proof -
  obtain items where "snd (fetchSubtitles C (at_subFetch A 0) (pv_baseUrl p) type i 12000 (fetch_opts p A (AtSubFetch 0))) = Inr items"
    using fetchSubtitles_total [OF assms(1)] by blast
  then have "retried_subtitles C p A type i = RetryValue items"
    using assms(2)
    by (simp add: retried_subtitles_def withRetry_def or_else_def numeral_2_eq_2 subtitle_aborts_def subtitle_try_def)
  then show ?thesis by (simp add: subtitles_fetched_def Let_def)
qed

text \<open>
  With secure proxying switched off the direct streams get no link at all: normalization drops a source it cannot issue a
  grant for, and only the debrid sources fall back to the open proxy.
\<close>

lemma normalize_loop_ungranted:
  "no_grants op = None \<Longrightarrow> fst (normalize_loop E now probe gid op idx ss n) \<and>
     ns_out (snd (normalize_loop E now probe gid op idx ss n)) = ns_out n"
proof (induction ss arbitrary: idx n)
  case (Cons s ss)
  obtain ok n1 where n1: "probe_source E probe op (or_else (st_url s) []) (n\<lparr>ns_seen := dedup_key E (or_else (st_url s) [])
      (st_requestHeaders s) # ns_seen n\<rparr>) = (ok, n1)"
    by (metis surj_pair)
  then have "ns_out n1 = ns_out n"
    using probe_keeps(1) [of E probe op "or_else (st_url s) []"] by (metis norm_state.select_convs(4) norm_state.surjective norm_state.update_convs(1) snd_conv)
  then have "\<exists>n2. normalize_stream E now probe gid op idx s n = (True, n2) \<and> ns_out n2 = ns_out n"
    using Cons.prems n1 by (auto simp: normalize_stream_def Let_def)
  then obtain n2 where "normalize_stream E now probe gid op idx s n = (True, n2)" "ns_out n2 = ns_out n"
    by blast
  then show ?case using Cons.IH [OF Cons.prems, of "Suc idx" n2] by simp
qed simp

lemma no_direct_source_without_grants:
  assumes "\<not> pv_secureProxy p"
  shows "fst (direct_sources p A age ss ru) = Some []"
proof -
  let ?n0 = "\<lparr>ns_seen = ru_seen ru, ns_probes = [], ns_grants = wd_grants (ru_world ru), ns_out = []\<rparr>"
  have "no_grants (norm_options p age) = None" using assms by (simp add: norm_options_def)
  from normalize_loop_ungranted [OF this, of "at_env A" "at_done A" "at_probe A" "at_gid A" 0 "filter isPlayableStream ss" ?n0]
  show ?thesis by (auto simp: direct_sources_def normalize_sources_def split: prod.split)
qed

end
