(* ===== verification/AddonDemo.thy ===== *)
theory AddonDemo
  imports AddonProvider
begin

text \<open>
  A request for an episode through a provider whose addon answers with one stream: the witnesses of the properties of
  \<open>AddonClient\<close> and \<open>AddonProvider\<close>.
\<close>

definition demo_json :: json where
  "demo_json = JObj [(''streams'', JArr [JObj [(''url'', JStr ''https://h/c?a=1&b=2''), (''name'', JStr ''hd'')]])]"

definition demo_lib :: provider_lib where
  "demo_lib = \<lparr>cl_json = (\<lambda>t. Inr demo_json), cl_policy_text = (\<lambda>e. []), pl_createProxyUrl = (\<lambda>u h. u), pl_iso = (\<lambda>t. [])\<rparr>"

definition demo_addon_fetch :: fetch_env where
  "demo_addon_fetch = demo_fetch\<lparr>ev_lib := plain_lib\<lparr>ul_parse := (\<lambda>s. Some (hop_url ''a.org''))\<rparr>, ev_net := (\<lambda>n r. Inr \<lparr>rs_status = 200, rs_headers = [(''content-type'', ''json'')],
     rs_body = Some [''ok'']\<rparr>)\<rparr>"

definition demo_provider :: addon_provider where
  "demo_provider = new_provider \<lparr>po_providerId = ''addon:x'', po_name = ''X'', po_baseUrl = ''https://a.org'',
     po_manifest = sample_manifest, po_enabled = None, po_streamTimeoutMs = None,
     po_grants = Some (grant_defaults None None None (policyFromFlags None None None)),
     po_publicBase = Some ''https://me'', po_secureProxy = None, po_urlPolicy = Some (policyFromFlags None None None)\<rparr>"

definition demo_attempt_rec :: attempt where
  "demo_attempt_rec = \<lparr>at_signal = None, at_now = 1000, at_acquired = 1001, at_done = 5000, at_subStart = 5000,
     at_subDone = 5000, at_failed = 5000, at_token = 7, at_others = id, at_othersHost = id, at_pool = (\<lambda>n. None),
     at_fetch = (\<lambda>n. demo_addon_fetch), at_jitter = (\<lambda>n. 0), at_env = demo_source_env, at_probe = (\<lambda>u. True),
     at_gid = (\<lambda>i. ''g0''), at_linkId = (\<lambda>u. ''s0''), at_answer = (\<lambda>i. None), at_subFetch = (\<lambda>n. demo_addon_fetch),
     at_subJitter = (\<lambda>n. 0)\<rparr>"

definition demo_world :: world where
  "demo_world = \<lparr>wd_reg = demo_registry, wd_budgets = new_budgets 0 None, wd_grants = [], wd_debrid = new_service\<rparr>"

definition demo_stream_url :: string where
  "demo_stream_url = ''https://a.org/stream/series/tt123%3A1%3A2.json''"

definition demo_request :: secure_options where
  "demo_request = client_request (fetch_opts demo_provider demo_attempt_rec (AtFetch 0)) 20000 1048576"

definition demo_reply :: http_response where
  "demo_reply = \<lparr>rs_status = 200, rs_headers = [(''content-type'', ''json'')], rs_body = Some [''ok'']\<rparr>"

lemma demo_build:
  "buildResourceUrl (url_lib.truncate (ev_lib demo_addon_fetch)) ''https://a.org'' ''stream'' ''series'' ''tt123:1:2'' =
     Some demo_stream_url"
  by code_simp

lemma demo_valid_stream:
  "validateOutboundUrl (ev_parse demo_addon_fetch) (ev_lookup demo_addon_fetch 0) True demo_stream_url
     (policyFromFlags None None None) = Inr (demo_valid ''a.org'' ''93.184.216.34'')"
  by code_simp

lemma demo_request_sel:
  "sf_timeoutMs demo_request = Some 20000" "sf_maxRedirects demo_request = Some 3" "sf_maxBytes demo_request = Some 1048576"
  "sf_acceptContentTypes demo_request = Some [''json'', ''text/plain'', ''javascript'']"
  "sf_policy demo_request = policyFromFlags None None None"
  by (simp_all add: demo_request_def client_request_def fetch_opts_def no_fetch_options_def demo_provider_def new_provider_def or_else_def)

lemma demo_env_sel:
  "ev_isProd demo_addon_fetch" "ev_start demo_addon_fetch = 0" "ev_now demo_addon_fetch n = 10 * int n"
  "ev_net demo_addon_fetch = (\<lambda>n r. Inr demo_reply)"
  by (simp_all add: demo_addon_fetch_def demo_fetch_def demo_reply_def)

lemma demo_send: "\<exists>req. send_request demo_addon_fetch demo_request 0 20000 (demo_valid ''a.org'' ''93.184.216.34'') = (req, Inr demo_reply)"
  by (simp add: send_request_def Let_def doFetch_def pinned_to_def demo_valid_def demo_env_sel)

lemma demo_type: "str_includes (to_lower ''json'') (to_lower ''json'')"
  by code_simp

lemma demo_finish:
  "\<exists>r. finish_fetch demo_addon_fetch demo_request url v demo_reply = Inr r \<and> sr_status r = 200"
  using demo_type
  by (simp add: finish_fetch_def Let_def demo_request_sel type_accepted_def demo_reply_def or_else_def declared_length_def
      read_result_def readBodyLimited_def)

lemma demo_fetched:
  "\<exists>reqs r. secureFetch demo_addon_fetch demo_request demo_stream_url = (reqs, Inr r) \<and> sr_status r = 200"
proof -
  obtain req where req: "send_request demo_addon_fetch demo_request 0 20000 (demo_valid ''a.org'' ''93.184.216.34'') = (req, Inr demo_reply)"
    using demo_send by blast
  obtain r where "finish_fetch demo_addon_fetch demo_request demo_stream_url (demo_valid ''a.org'' ''93.184.216.34'') demo_reply = Inr r"
      "sr_status r = 200"
    using demo_finish by blast
  then show ?thesis
    unfolding secureFetch_def
    by (subst secure_loop.simps) (simp add: Let_def demo_env_sel demo_request_sel demo_valid_stream req, simp add: demo_reply_def)
qed

lemma demo_streams_fetched:
  "snd (fetchStreams (client_lib.truncate demo_lib) demo_addon_fetch ''https://a.org'' ''series'' ''tt123:1:2'' 20000
     (fetch_opts demo_provider demo_attempt_rec (AtFetch 0))) = Inr (json_items demo_json ''streams'', None)"
proof -
  have "\<not> fo_aborted (fetch_opts demo_provider demo_attempt_rec (AtFetch 0))"
    by (simp add: fetch_opts_def aborted_at_def demo_attempt_rec_def)
  then show ?thesis
    using demo_fetched
    by (auto simp: fetchStreams_def demo_build fetch_document_def demo_request_def [symmetric] status_ok_def
        demo_lib_def client_lib.truncate_def json_number_def demo_json_def jfield_def)
qed

definition demo_view :: stremio_stream where
  "demo_view = stream_view (JObj [(''url'', JStr ''https://h/c?a=1&b=2''), (''name'', JStr ''hd'')])"

lemma demo_view_sel:
  "st_url demo_view = Some ''https://h/c?a=1&b=2''" "st_infoHash demo_view = None" "st_requestHeaders demo_view = None"
  "st_cacheMaxAge demo_view = None" "st_subtitles demo_view = None"
  by (simp_all add: demo_view_def stream_view_def jfield_def jstr_def jarr_def json_headers_def subfield_def json_number_def)

lemma demo_items: "json_items demo_json ''streams'' = [JObj [(''url'', JStr ''https://h/c?a=1&b=2''), (''name'', JStr ''hd'')]]"
  by (simp add: json_items_def demo_json_def jfield_def jarr_def)

lemma demo_provider_sel:
  "pv_id demo_provider = ''addon:x''" "pv_baseUrl demo_provider = ''https://a.org''" "pv_secureProxy demo_provider"
  "pv_grants demo_provider = Some (grant_defaults None None None (policyFromFlags None None None))"
  "pv_publicBase demo_provider = ''https://me''" "pv_manifest demo_provider = sample_manifest"
  "pv_streamTimeoutMs demo_provider = 20000"
  by (simp_all add: demo_provider_def new_provider_def or_else_def)

lemma demo_no_subtitles: "\<not> pv_supportsSubtitles demo_provider"
proof -
  have "cp_subtitles (Capabilities.deriveCapabilities sample_manifest) = []" by code_simp
  then show ?thesis by (simp add: demo_provider_def new_provider_def)
qed

lemma demo_attempt_sel:
  "\<not> aborted_at demo_attempt_rec pt" "signal_at demo_attempt_rec pt = None" "at_pool demo_attempt_rec n = None"
  "at_fetch demo_attempt_rec n = demo_addon_fetch" "at_env demo_attempt_rec = demo_source_env" "at_done demo_attempt_rec = 5000"
  "at_gid demo_attempt_rec i = ''g0''" "at_probe demo_attempt_rec u"
  by (simp_all add: demo_attempt_rec_def aborted_at_def signal_at_def)

lemma demo_retried:
  "retried_streams (client_lib.truncate demo_lib) demo_provider demo_attempt_rec ''series'' ''tt123:1:2'' =
     RetryValue (json_items demo_json ''streams'', None)"
  by (simp add: retried_streams_def withRetry_def or_else_def numeral_2_eq_2 stream_aborts_def demo_attempt_sel stream_try_def
      demo_provider_sel demo_streams_fetched)

definition fresh_run :: "run \<Rightarrow> bool" where
  "fresh_run ru \<longleftrightarrow> ru_seen ru = [] \<and> wd_grants (ru_world ru) = [] \<and> wd_debrid (ru_world ru) = new_service"

lemma demo_direct:
  assumes "fresh_run ru"
  shows "\<exists>src ru1. direct_sources demo_provider demo_attempt_rec None [demo_view] ru = (Some [src], ru1) \<and>
     so_url src = ''https://me/v1/proxy/grant/g0'' \<and> wd_debrid (ru_world ru1) = new_service"
proof -
  have "toProxyUrl (new_grant (grant_defaults None None None (policyFromFlags None None None)) 5000 ''g0'' ''https://h''
      (grant_input ''https://h/c?a=1&b=2'' None ''addon:x'')) ''https://me'' = ''https://me/v1/proxy/grant/g0''" by code_simp
  then show ?thesis
    using demo_http(1) demo_issued assms
    by (simp add: direct_sources_def fresh_run_def isPlayableStream_def demo_view_sel or_else_def demo_attempt_sel
        norm_options_def demo_provider_sel normalize_sources_def normalize_stream_def probe_source_def expiry_def Let_def)
qed

lemma demo_torrents:
  "wd_debrid (ru_world ru) = new_service \<Longrightarrow> torrent_sources demo_lib demo_provider demo_attempt_rec ctx ss ru =
     ([], ru\<lparr>ru_world := (ru_world ru)\<lparr>wd_debrid := new_service, wd_grants := wd_grants (ru_world ru)\<rparr>\<rparr>)"
  by (simp add: torrent_sources_def resolveTorrentStreams_def debrid_isEnabled_def new_service_def)

lemma demo_after_gate:
  assumes "fresh_run ru"
  shows "\<exists>px ru1. after_gate demo_lib demo_provider demo_attempt_rec ctx ''series'' ''tt123:1:2'' ru = (BodyReturn px, ru1) \<and>
     map so_url (px_sources px) = [''https://me/v1/proxy/grant/g0'']"
proof -
  let ?ru = "on_reg (recordSuccess ''addon:x'' (5000 - at_acquired demo_attempt_rec)) ru"
  have "fresh_run ?ru" using assms by (simp add: fresh_run_def on_reg_def)
  from demo_direct [OF this] obtain src ru1 where
    d: "direct_sources demo_provider demo_attempt_rec None [demo_view] ?ru = (Some [src], ru1)"
      "so_url src = ''https://me/v1/proxy/grant/g0''" "wd_debrid (ru_world ru1) = new_service"
    by blast
  have "stream_views (json_items demo_json ''streams'') = Some [demo_view]"
    by (simp add: stream_views_def demo_items demo_view_def)
  then show ?thesis
    using d by (simp add: after_gate_def demo_retried demo_items Let_def demo_provider_sel demo_attempt_sel use_streams_def
        demo_torrents collectSubtitles_def demo_no_subtitles linked_subtitles_def own_subtitles_def demo_view_sel or_else_def)
qed

lemma demo_resolved:
  "\<exists>px w1. provider_resolve demo_lib demo_provider (\<lambda>k. demo_attempt_rec) sample_episode None demo_world = (Resolution px, w1) \<and>
     map so_url (px_sources px) = [''https://me/v1/proxy/grant/g0'']"
proof -
  have host: "provider_host demo_provider (se_url demo_source_env) = None"
    by (simp add: provider_host_def demo_provider_sel demo_source_env_def demo_url_lib_def)
  have kind: "toStremioType (md_type sample_episode) = ''series''"
    by (simp add: toStremioType_def sample_episode_def)
  obtain r where gate: "acquire_gate demo_attempt_rec ''addon:x'' None demo_registry = (True, r)"
    by (simp add: acquire_gate_def acquire_slot_def demo_attempt_sel acquireSemaphore_def Let_def demo_registry_def
        new_registry_def or_else_def acquire_host_stage_def wait_host_def)
  let ?ru = "\<lparr>ru_world = demo_world\<lparr>wd_reg := r\<rparr>, ru_diagnostics = [], ru_seen = []\<rparr>"
  have "fresh_run ?ru" by (simp add: fresh_run_def demo_world_def)
  from demo_after_gate [OF this, of "torrent_ctx sample_episode None"] obtain px ru1 where
    run: "after_gate demo_lib demo_provider demo_attempt_rec (torrent_ctx sample_episode None) ''series'' ''tt123:1:2'' ?ru = (BodyReturn px, ru1)"
      "map so_url (px_sources px) = [''https://me/v1/proxy/grant/g0'']"
    by (elim exE conjE) (rule that)
  have "hasNegative ''addon:x'' KNoStream t demo_registry = (False, demo_registry)" "getState ''addon:x'' t demo_registry = (Closed, demo_registry)"
    "isQuarantined ''addon:x'' t demo_registry = (False, demo_registry)" for t
    by (simp_all add: hasNegative_def getState_def isQuarantined_def demo_registry_def new_registry_def)
  note reg = this
  have budget: "consume ''addon:x'' t (new_budgets 0 None) = (\<lparr>cs_allowed = True, cs_used = 0, cs_limit = 0, cs_resetAt = None\<rparr>, new_budgets 0 None)" for t
    by (simp add: consume_def limitFor_def new_budgets_def or_else_def)
  have "demo_world\<lparr>wd_reg := demo_registry\<rparr> = demo_world" "wd_reg demo_world = demo_registry" "wd_budgets demo_world = new_budgets 0 None"
    "demo_world\<lparr>wd_budgets := new_budgets 0 None\<rparr> = demo_world"
    by (simp_all add: demo_world_def)
  note upd = this
  have step: "candidate_step demo_lib demo_provider demo_attempt_rec (torrent_ctx sample_episode None) ''series'' ''tt123:1:2''
      \<lparr>ru_world = demo_world, ru_diagnostics = [], ru_seen = []\<rparr> = give_back demo_provider None (Answered px, ru1)"
    using run gate
    by (simp add: candidate_step_def demo_attempt_sel recently_empty_def run_reg_def reg upd budget demo_provider_sel
        half_open_gate_def on_reg_def attempt_candidate_def host settle_body_def Let_def)
  then show ?thesis
    using run(2)
    by (simp add: provider_resolve_def Let_def demo_provider_sel sample_candidates demo_attempt_sel kind reg upd give_back_def)
qed


theorem provider_slots_returned_witness:
  "gate_view (wd_reg (snd (provider_resolve demo_lib demo_provider (\<lambda>k. demo_attempt_rec) sample_episode None demo_world))) ''addon:x'' =
     (0, [])"
proof -
  have "provider_host demo_provider (se_url demo_source_env) = None"
    by (simp add: provider_host_def demo_provider_sel demo_source_env_def demo_url_lib_def)
  then have "gates_free demo_provider (provider_host demo_provider (se_url (at_env demo_attempt_rec))) (wd_reg demo_world)"
    by (simp add: demo_attempt_sel gates_free_def free_gate_def gate_view_def demo_world_def demo_registry_def new_registry_def or_else_def)
  from provider_slots_returned [of demo_provider "\<lambda>k. demo_attempt_rec", OF this, of demo_lib sample_episode None "''addon:x''"]
  show ?thesis by (simp add: gate_view_def demo_world_def demo_registry_def new_registry_def)
qed

text \<open>The client against the same addon.\<close>

theorem addon_fetch_uniform_witness:
  "\<exists>items. snd (fetchSubtitles (client_lib.truncate demo_lib) demo_addon_fetch ''https://a.org'' ''series'' ''tt1'' 12000 no_fetch_options) = Inr items"
proof -
  have "ul_parse (url_lib.truncate (ev_lib demo_addon_fetch)) ''https://a.org'' = Some (hop_url ''a.org'')"
    by (simp add: demo_addon_fetch_def url_lib.truncate_def)
  from addon_fetch_uniform [OF this, of "client_lib.truncate demo_lib" "''series''" "''tt1''" 12000 no_fetch_options] show ?thesis
    by blast
qed

end
