(* ===== verification/Languages.thy ===== *)
theory Languages
  imports Regex StremioUrl
begin

text \<open>
  Language tags of subtitles, \<open>src/subtitles/language.ts\<close>: the canonical form of a loose tag, matching of tags and their
  display. A tag is canonical: normalizing it again gives it back.
\<close>

subsection \<open>Tables\<close>

definition ISO639_2_TO_1 :: "(string \<times> string) list" where
  "ISO639_2_TO_1 =
     [(''ger'', ''de''), (''deu'', ''de''), (''fre'', ''fr''), (''fra'', ''fr''), (''spa'', ''es''), (''ita'', ''it''),
      (''eng'', ''en''), (''por'', ''pt''), (''rus'', ''ru''), (''jpn'', ''ja''), (''kor'', ''ko''), (''chi'', ''zh''),
      (''zho'', ''zh''), (''dut'', ''nl''), (''nld'', ''nl''), (''swe'', ''sv''), (''nor'', ''no''), (''dan'', ''da''),
      (''fin'', ''fi''), (''pol'', ''pl''), (''cze'', ''cs''), (''ces'', ''cs''), (''tur'', ''tr''), (''ara'', ''ar''),
      (''heb'', ''he''), (''hin'', ''hi''), (''tha'', ''th''), (''vie'', ''vi''), (''ind'', ''id''), (''ukr'', ''uk''),
      (''ron'', ''ro''), (''rum'', ''ro''), (''ell'', ''el''), (''gre'', ''el''), (''hun'', ''hu''), (''bul'', ''bg''),
      (''srp'', ''sr''), (''hrv'', ''hr'')]"

definition NAME_TO_CODE :: "(string \<times> string) list" where
  "NAME_TO_CODE =
     [(''english'', ''en''), (''arabic'', ''ar''), (''bulgarian'', ''bg''), (''chinese'', ''zh''), (''croatian'', ''hr''),
      (''czech'', ''cs''), (''danish'', ''da''), (''dutch'', ''nl''), (''finnish'', ''fi''), (''french'', ''fr''),
      (''german'', ''de''), (''greek'', ''el''), (''hebrew'', ''he''), (''hindi'', ''hi''), (''hungarian'', ''hu''),
      (''indonesian'', ''id''), (''italian'', ''it''), (''japanese'', ''ja''), (''korean'', ''ko''), (''norwegian'', ''no''),
      (''polish'', ''pl''), (''portuguese'', ''pt''), (''romanian'', ''ro''), (''russian'', ''ru''), (''spanish'', ''es''),
      (''swedish'', ''sv''), (''thai'', ''th''), (''turkish'', ''tr''), (''ukrainian'', ''uk''), (''vietnamese'', ''vi'')]"

definition REGION_NAME_TO_CODE :: "(string \<times> string) list" where
  "REGION_NAME_TO_CODE =
     [(''brazil'', ''BR''), (''brasil'', ''BR''), (''portugal'', ''PT''), (''spain'', ''ES''), (''france'', ''FR''),
      (''germany'', ''DE''), (''japan'', ''JP''), (''korea'', ''KR''), (''china'', ''CN''), (''taiwan'', ''TW''),
      (''hongkong'', ''HK''), (''mexico'', ''MX''), (''argentina'', ''AR''), (''netherlands'', ''NL''), (''russia'', ''RU''),
      (''italy'', ''IT''), (''uk'', ''GB''), (''britain'', ''GB''), (''usa'', ''US''), (''us'', ''US''), (''canada'', ''CA''),
      (''australia'', ''AU'')]"

text \<open>
  Reading a plain object: \<open>constructor\<close> is the one inherited name made of small letters; what it finds is the function
  \<open>Object\<close>, shown here as the text it prints.
\<close>

definition native_object :: string where
  "native_object = ''function Object() { [native code] }''"

definition object_get :: "(string \<times> string) list \<Rightarrow> string \<Rightarrow> string option" where
  "object_get t k = (if k = ''constructor'' then Some native_object else map_of t k)"

subsection \<open>Segments\<close>

text \<open>\<open>split\<close> on a run of characters.\<close>

function split_runs :: "(char \<Rightarrow> bool) \<Rightarrow> string \<Rightarrow> string list" where
  "split_runs P s =
     (case dropWhile (\<lambda>c. \<not> P c) s of
        [] \<Rightarrow> [s]
      | c # r \<Rightarrow> takeWhile (\<lambda>c. \<not> P c) s # split_runs P (dropWhile P r))"
  by pat_completeness auto
termination
proof (relation "measure (\<lambda>(P, s). length s)"; simp)
  fix P c r and s :: string
  assume "dropWhile (\<lambda>c. \<not> P c) s = c # r"
  then have "length (c # r) \<le> length s" by (metis length_dropWhile_le)
  then show "length (dropWhile P r) < length s"
    using length_dropWhile_le [of P r] by simp
qed

declare split_runs.simps [simp del]

text \<open>\<open>/\(([^)]*)\)/g\<close>: every parenthesis becomes a space; the texts inside, from left to right.\<close>

function paren_parts :: "string \<Rightarrow> string \<times> string list" where
  "paren_parts [] = ([], [])"
| "paren_parts (c # s) =
     (if c = CHR ''('' \<and> CHR '')'' \<in> set s
      then (case paren_parts (drop 1 (dropWhile (\<lambda>x. x \<noteq> CHR '')'') s)) of
              (t, ins) \<Rightarrow> (CHR '' '' # t, takeWhile (\<lambda>x. x \<noteq> CHR '')'') s # ins))
      else (case paren_parts s of (t, ins) \<Rightarrow> (c # t, ins)))"
  by pat_completeness auto
termination
  by (relation "measure length") (auto simp: less_Suc_eq_le intro: order.trans [OF diff_le_self length_dropWhile_le])

definition small_letter :: "char \<Rightarrow> bool" where
  "small_letter c \<longleftrightarrow> (let n = of_char c :: nat in 97 \<le> n \<and> n \<le> 122)"

definition capital :: "char \<Rightarrow> char" where
  "capital c = (if small_letter c then char_of (of_char c - 32 :: nat) else c)"

definition letters :: "string \<Rightarrow> string" where
  "letters s = filter small_letter s"

definition region_override :: "string list \<Rightarrow> string" where
  "region_override ins =
     fold (\<lambda>i r. or_else (object_get REGION_NAME_TO_CODE (letters (to_lower (trim i)))) r) ins []"

definition unbracket :: "string \<Rightarrow> string" where
  "unbracket s = trim (map (\<lambda>c. if c = CHR ''['' \<or> c = CHR '']'' then CHR '' '' else c) s)"

definition tag_sep :: "char \<Rightarrow> bool" where
  "tag_sep c \<longleftrightarrow> c \<in> {CHR ''-'', CHR ''_'', CHR '' '', CHR '':''}"

definition tag_segments :: "string \<Rightarrow> string list" where
  "tag_segments t = concat (map (split_runs is_space) (split_runs tag_sep t))"

subsection \<open>The canonical tag\<close>

definition primary_of :: "string \<Rightarrow> string option" where
  "primary_of seg =
     (let cand = letters seg in
      if cand = [] then None
      else case object_get NAME_TO_CODE cand of
        Some p \<Rightarrow> Some p
      | None \<Rightarrow>
          (case object_get ISO639_2_TO_1 cand of
             Some p \<Rightarrow> Some p
           | None \<Rightarrow> if length cand = 2 \<or> length cand = 3 then Some cand else None))"

fun find_primary :: "string list \<Rightarrow> (string \<times> string list) option" where
  "find_primary [] = None"
| "find_primary (seg # segs) = (case primary_of seg of Some p \<Rightarrow> Some (p, segs) | None \<Rightarrow> find_primary segs)"

definition subtag :: "string \<Rightarrow> string option" where
  "subtag seg =
     (let sub = filter (\<lambda>c. small_letter c \<or> is_digit c) seg in
      if sub = [] then None
      else if length sub = 4 \<and> list_all small_letter sub then Some (capital (hd sub) # tl sub)
      else if length sub = 2 \<and> list_all small_letter sub then Some (map capital sub)
      else if length sub = 3 \<and> list_all is_digit sub then Some sub
      else None)"

definition normalizeLanguageTag :: "string option \<Rightarrow> string" where
  "normalizeLanguageTag raw =
     (let tag = to_lower (trim (or_else raw [])); (open_tag, ins) = paren_parts tag; region = region_override ins in
      case find_primary (tag_segments (unbracket open_tag)) of
        None \<Rightarrow> []
      | Some (p, rest) \<Rightarrow>
          (let subs = List.map_filter subtag rest in
           join_with ''-'' (p # subs @ (if region \<noteq> [] \<and> subs = [] then [region] else []))))"

definition tag_primary :: "string \<Rightarrow> string" where
  "tag_primary t = hd (split_on CHR ''-'' t)"

definition languageMatches :: "string \<Rightarrow> string \<Rightarrow> bool" where
  "languageMatches requested tag =
     (let req = normalizeLanguageTag (Some requested); have = normalizeLanguageTag (Some tag) in
      if req = [] \<or> have = [] then False
      else if req = have then True
      else tag_primary req \<noteq> [] \<and> tag_primary have \<noteq> [] \<and> tag_primary req = tag_primary have)"

definition CODE_TO_NAME :: "(string \<times> string) list" where
  "CODE_TO_NAME = map (\<lambda>(name, code). (code, name)) (rev NAME_TO_CODE)"

definition describeLanguage :: "string \<Rightarrow> string" where
  "describeLanguage t =
     (if t = [] then ''Unknown''
      else case split_on CHR ''-'' t of
        [] \<Rightarrow> ''Unknown''
      | p # rest \<Rightarrow>
          (let base = (case object_get CODE_TO_NAME p of Some name \<Rightarrow> capital (hd name) # tl name | None \<Rightarrow> map capital p) in
           case rest of
             [] \<Rightarrow> base
           | r # _ \<Rightarrow> if r = [] then base else base @ '' ('' @ r @ '')''))"

subsection \<open>Canonical tags\<close>

text \<open>A character the splitting leaves alone; a segment of such characters.\<close>

definition plain_char :: "char \<Rightarrow> bool" where
  "plain_char c \<longleftrightarrow> \<not> is_space c \<and> \<not> tag_sep c \<and> c \<noteq> CHR ''('' \<and> c \<noteq> CHR ''['' \<and> c \<noteq> CHR '']''"

definition plain_segment :: "string \<Rightarrow> bool" where
  "plain_segment s \<longleftrightarrow> s \<noteq> [] \<and> list_all plain_char s"

lemma small_plain: "small_letter c \<Longrightarrow> plain_char c \<and> lower_char c = c"
  by (auto simp: small_letter_def lower_char_def plain_char_def is_space_def tag_sep_def Let_def)

lemma digit_plain_char: "is_digit c \<Longrightarrow> plain_char c \<and> lower_char c = c"
  by (auto simp: is_digit_def lower_char_def plain_char_def is_space_def tag_sep_def Let_def)

lemma large_plain: "65 \<le> (of_char c :: nat) \<Longrightarrow> (of_char c :: nat) \<le> 90 \<Longrightarrow> plain_char c"
  by (auto simp: plain_char_def is_space_def tag_sep_def Let_def)

lemma capital_plain: "small_letter c \<Longrightarrow> plain_char (capital c) \<and> lower_char (capital c) = c"
proof -
  assume c: "small_letter c"
  then have "(of_char c :: nat) - 32 < 256" unfolding small_letter_def Let_def by linarith
  then have n: "(of_char (capital c) :: nat) = of_char c - 32" using c by (simp add: capital_def)
  then show ?thesis
    using c large_plain [of "capital c"] by (auto simp: lower_char_def small_letter_def Let_def)
qed

definition good_primary :: "string \<Rightarrow> bool" where
  "good_primary p \<longleftrightarrow> plain_segment p \<and> to_lower p = p \<and> primary_of p = Some p"

definition good_sub :: "string \<Rightarrow> bool" where
  "good_sub s \<longleftrightarrow> plain_segment s \<and> plain_segment (to_lower s) \<and> subtag (to_lower s) = Some s"

lemma table_values:
  "list_all (good_primary \<circ> snd) NAME_TO_CODE" "list_all (good_primary \<circ> snd) ISO639_2_TO_1"
  "list_all (good_sub \<circ> snd) REGION_NAME_TO_CODE"
  by code_simp+

lemma object_get_value: "object_get t k = Some v \<Longrightarrow> list_all (P \<circ> snd) t \<Longrightarrow> P v \<or> v = native_object"
  by (auto simp: object_get_def list_all_iff split: if_splits dest!: map_of_SomeD)

lemma primary_of_good: "primary_of seg = Some p \<Longrightarrow> good_primary p \<or> p = native_object"
proof -
  assume a: "primary_of seg = Some p"
  let ?c = "letters seg"
  have "good_primary ?c" if "object_get NAME_TO_CODE ?c = None" "object_get ISO639_2_TO_1 ?c = None" "length ?c = 2 \<or> length ?c = 3"
  proof -
    have small: "list_all small_letter ?c" by (simp add: letters_def list_all_iff)
    then have "letters ?c = ?c" "to_lower ?c = ?c" "plain_segment ?c"
      using small_plain that(3) by (auto simp: letters_def list_all_iff to_lower_def plain_segment_def intro: map_idI)
    then show ?thesis using that by (auto simp: good_primary_def primary_of_def Let_def)
  qed
  then show ?thesis
    using a object_get_value [OF _ table_values(1)] object_get_value [OF _ table_values(2)]
    by (auto simp: primary_of_def Let_def split: if_splits option.splits)
qed

lemma find_primary_good: "find_primary segs = Some (p, rest) \<Longrightarrow> good_primary p \<or> p = native_object"
  by (induction segs) (auto split: option.splits dest: primary_of_good)

lemma subtag_good: "subtag seg = Some s \<Longrightarrow> good_sub s"
proof -
  assume a: "subtag seg = Some s"
  define sub where "sub = filter (\<lambda>c. small_letter c \<or> is_digit c) seg"
  have idem: "filter (\<lambda>c. small_letter c \<or> is_digit c) sub = sub" by (simp add: sub_def)
  have same: "subtag sub = subtag seg" by (simp add: subtag_def sub_def)
  have "to_lower s = sub \<and> plain_segment s \<and> plain_segment sub"
  proof -
    consider "length sub = 4" "list_all small_letter sub" "s = capital (hd sub) # tl sub"
      | "length sub = 2" "list_all small_letter sub" "s = map capital sub"
      | "length sub = 3" "list_all is_digit sub" "s = sub"
      using a by (auto simp: subtag_def sub_def [symmetric] Let_def split: if_splits)
    then show ?thesis
    proof cases
      case 1
      then obtain c r where sub: "sub = c # r" by (cases sub) auto
      then have "small_letter c" "list_all small_letter r" using 1 by simp_all
      then show ?thesis
        using 1(3) small_plain capital_plain by (simp add: sub to_lower_def plain_segment_def list_all_iff map_idI)
    next
      case 2
      then have "sub \<noteq> []" by auto
      then show ?thesis
        using 2 small_plain capital_plain by (simp add: to_lower_def plain_segment_def list_all_iff map_idI)
    next
      case 3
      then have "sub \<noteq> []" by auto
      then show ?thesis
        using 3 digit_plain_char by (simp add: to_lower_def plain_segment_def list_all_iff map_idI)
    qed
  qed
  then show ?thesis using a same by (simp add: good_sub_def)
qed

lemma split_runs_plain: "list_all (\<lambda>c. \<not> P c) s \<Longrightarrow> split_runs P s = [s]"
proof -
  assume "list_all (\<lambda>c. \<not> P c) s"
  then have d: "dropWhile (\<lambda>c. \<not> P c) s = []" by (simp add: list_all_iff dropWhile_eq_Nil_conv)
  show ?thesis by (subst split_runs.simps, subst d) simp
qed

lemma split_runs_step:
  assumes "list_all (\<lambda>c. \<not> P c) s" "P c" "r = [] \<or> \<not> P (hd r)"
  shows "split_runs P (s @ c # r) = s # split_runs P r"
proof -
  have "takeWhile (\<lambda>c. \<not> P c) (s @ c # r) = s" "dropWhile (\<lambda>c. \<not> P c) (s @ c # r) = c # r"
    using assms(1,2) by (induction s) auto
  moreover have "dropWhile P r = r" using assms(3) by (cases r) auto
  ultimately show ?thesis by (subst split_runs.simps) simp
qed

lemma plain_segment_free:
  "plain_segment y \<Longrightarrow> y \<noteq> [] \<and> \<not> tag_sep (hd y) \<and> list_all (\<lambda>c. \<not> tag_sep c) y \<and> list_all (\<lambda>c. \<not> is_space c) y"
  by (cases y) (auto simp: plain_segment_def plain_char_def list_all_iff)

lemma join_hd: "x \<noteq> [] \<Longrightarrow> join_with sep (x # xs) \<noteq> [] \<and> hd (join_with sep (x # xs)) = hd x"
  by (cases xs) auto

lemma split_join: "list_all plain_segment (x # xs) \<Longrightarrow> split_runs tag_sep (join_with ''-'' (x # xs)) = x # xs"
proof (induction xs arbitrary: x)
  case Nil
  then show ?case using plain_segment_free [of x] by (simp add: split_runs_plain)
next
  case (Cons y ys)
  have "\<not> tag_sep (hd (join_with ''-'' (y # ys)))"
    using Cons.prems plain_segment_free [of y] join_hd [of y "''-''" ys] by simp
  moreover have "tag_sep CHR ''-''" by (simp add: tag_sep_def)
  ultimately have "split_runs tag_sep (x @ CHR ''-'' # join_with ''-'' (y # ys)) = x # split_runs tag_sep (join_with ''-'' (y # ys))"
    using Cons.prems plain_segment_free [of x] by (intro split_runs_step) simp_all
  then show ?case using Cons.IH [of y] Cons.prems by simp
qed

lemma segments_join:
  assumes "list_all plain_segment (x # xs)"
  shows "tag_segments (join_with ''-'' (x # xs)) = x # xs"
proof -
  have "concat (map (split_runs is_space) ys) = ys" if "list_all plain_segment ys" for ys
    using that plain_segment_free by (induction ys) (simp_all add: split_runs_plain)
  from this [OF assms] show ?thesis by (simp only: tag_segments_def split_join [OF assms])
qed

lemma paren_free: "CHR ''('' \<notin> set s \<Longrightarrow> paren_parts s = (s, [])"
  by (induction s) auto

lemma join_chars: "c \<in> set (join_with ''-'' xs) \<Longrightarrow> c = CHR ''-'' \<or> (\<exists>x \<in> set xs. c \<in> set x)"
  by (induction xs rule: induct_list012) auto

lemma to_lower_join: "to_lower (join_with ''-'' xs) = join_with ''-'' (map to_lower xs)"
proof -
  have "lower_char CHR ''-'' = CHR ''-''" by (simp add: lower_char_def)
  then show ?thesis
    by (induction xs rule: induct_list012) (simp_all add: to_lower_def)
qed

lemma join_plain:
  assumes "list_all plain_segment xs" "c \<in> set (join_with ''-'' xs)"
  shows "\<not> is_space c \<and> c \<noteq> CHR ''('' \<and> c \<noteq> CHR ''['' \<and> c \<noteq> CHR '']''"
proof -
  have "\<not> is_space CHR ''-''" by (simp add: is_space_def)
  then show ?thesis
    using join_chars [OF assms(2)] assms(1) by (auto simp: plain_segment_def plain_char_def list_all_iff)
qed

lemma join_untouched:
  assumes "list_all plain_segment xs"
  shows "trim (join_with ''-'' xs) = join_with ''-'' xs" "paren_parts (join_with ''-'' xs) = (join_with ''-'' xs, [])"
    "unbracket (join_with ''-'' xs) = join_with ''-'' xs"
proof -
  have p: "list_all (\<lambda>c. \<not> is_space c) (join_with ''-'' xs)" "CHR ''('' \<notin> set (join_with ''-'' xs)"
    using join_plain [OF assms] by (auto simp: list_all_iff)
  show "trim (join_with ''-'' xs) = join_with ''-'' xs" using trim_id [OF p(1)] .
  moreover have "map (\<lambda>c. if c = CHR ''['' \<or> c = CHR '']'' then CHR '' '' else c) (join_with ''-'' xs) = join_with ''-'' xs"
    using join_plain [OF assms] by (intro map_idI) auto
  ultimately show "unbracket (join_with ''-'' xs) = join_with ''-'' xs" by (simp only: unbracket_def)
  show "paren_parts (join_with ''-'' xs) = (join_with ''-'' xs, [])" using paren_free [OF p(2)] .
qed

lemma good_plain: "list_all good_sub ss \<Longrightarrow> list_all plain_segment ss \<and> list_all plain_segment (map to_lower ss)"
  by (auto simp: good_sub_def list_all_iff)

lemma subtags_again: "list_all good_sub ss \<Longrightarrow> List.map_filter subtag (map to_lower ss) = ss"
  by (induction ss) (auto simp: good_sub_def List.map_filter_simps)

lemma normalize_good:
  assumes "good_primary p" "list_all good_sub ss"
  shows "normalizeLanguageTag (Some (join_with ''-'' (p # ss))) = join_with ''-'' (p # ss)"
proof -
  let ?xs = "p # ss" let ?ls = "p # map to_lower ss"
  have plain: "list_all plain_segment ?xs" "list_all plain_segment ?ls"
    using assms good_plain [OF assms(2)] by (simp_all add: good_primary_def)
  have low: "to_lower (trim (join_with ''-'' ?xs)) = join_with ''-'' ?ls"
    using assms(1) join_untouched(1) [OF plain(1)] by (simp only: to_lower_join list.map good_primary_def)
  have "find_primary (tag_segments (unbracket (join_with ''-'' ?ls))) = Some (p, map to_lower ss)"
    using assms(1) by (simp only: join_untouched(3) [OF plain(2)] segments_join [OF plain(2)] find_primary.simps good_primary_def option.case)
  then show ?thesis
    using low subtags_again [OF assms(2)]
    by (simp add: normalizeLanguageTag_def or_else_def Let_def join_untouched(2) [OF plain(2)] region_override_def del: join_with.simps)
qed

lemma region_values: "region_override ins = [] \<or> good_sub (region_override ins) \<or> region_override ins = native_object"
proof -
  have "r = [] \<or> good_sub r \<or> r = native_object \<Longrightarrow>
      let v = fold (\<lambda>i r. or_else (object_get REGION_NAME_TO_CODE (letters (to_lower (trim i)))) r) ins r
      in v = [] \<or> good_sub v \<or> v = native_object" for r
    using object_get_value [OF _ table_values(3)]
    by (induction ins arbitrary: r) (auto simp: or_else_def Let_def split: option.splits)
  from this [of "[]"] show ?thesis by (simp add: region_override_def Let_def)
qed

lemma includes_self: "str_includes (a @ p @ b) p"
proof (induction a)
  case Nil
  have "starts_with s p \<Longrightarrow> str_includes s p" for s
    by (cases s) (simp_all add: starts_with_def)
  then show ?case by simp
qed simp

lemma join_mem: "x \<in> set xs \<Longrightarrow> \<exists>a b. join_with sep xs = a @ x @ b"
proof (induction xs rule: induct_list012)
  case (3 y z zs)
  then show ?case
  proof (cases "x = y")
    case True
    then have "join_with sep (y # z # zs) = [] @ x @ (sep @ join_with sep (z # zs))" by simp
    then show ?thesis by blast
  next
    case False
    then obtain a b where "join_with sep (z # zs) = a @ x @ b" using 3 by auto
    then have "join_with sep (y # z # zs) = (y @ sep @ a) @ x @ b" by simp
    then show ?thesis by blast
  qed
next
  case (2 y)
  then have "join_with sep [y] = [] @ x @ []" by simp
  then show ?case by blast
qed simp

text \<open>
  C34. The canonical form of a language tag is canonical: normalizing it again changes nothing. The one exception is a tag
  that reads an inherited property of the lookup tables.
\<close>

theorem language_tag_canonical:
  "normalizeLanguageTag (Some (normalizeLanguageTag raw)) = normalizeLanguageTag raw \<or>
     str_includes (normalizeLanguageTag raw) native_object"
proof -
  obtain t ins where t: "paren_parts (to_lower (trim (or_else raw []))) = (t, ins)" by (metis surj_pair)
  show ?thesis
  proof (cases "find_primary (tag_segments (unbracket t))")
    case None
    then have "normalizeLanguageTag raw = []" by (simp add: normalizeLanguageTag_def Let_def t)
    moreover have "normalizeLanguageTag (Some []) = []" by code_simp
    ultimately show ?thesis by simp
  next
    case (Some pr)
    obtain p rest where pr: "pr = (p, rest)" by (cases pr)
    define subs where "subs = List.map_filter subtag rest"
    define ss where "ss = subs @ (if region_override ins \<noteq> [] \<and> subs = [] then [region_override ins] else [])"
    have n: "normalizeLanguageTag raw = join_with ''-'' (p # ss)"
      using Some by (simp add: normalizeLanguageTag_def Let_def t pr ss_def subs_def)
    have "list_all good_sub subs"
      unfolding subs_def by (induction rest) (auto simp: List.map_filter_simps subtag_good split: option.splits)
    then have "list_all good_sub ss \<or> native_object \<in> set ss"
      using region_values [of ins] by (auto simp: ss_def)
    moreover have "good_primary p \<or> p = native_object"
      using Some find_primary_good by (simp add: pr)
    ultimately consider "good_primary p" "list_all good_sub ss" | "native_object \<in> set (p # ss)" by auto
    then show ?thesis
    proof cases
      case 1
      then show ?thesis using normalize_good n by simp
    next
      case 2
      then show ?thesis using join_mem [OF 2, of "''-''"] includes_self n by metis
    qed
  qed
qed

end
