(* ===== verification/Numbers.thy ===== *)
theory Numbers
  imports Text Complex_Main
begin

text \<open>
  The conversion \<open>Number\<close> of the language on a text, for header values, address parts and settings. \<open>None\<close>
  stands for \<open>NaN\<close> and the infinities; a value is the exact rational, not rounded to a double.
\<close>

definition digits_text :: "string \<Rightarrow> bool" where
  "digits_text s \<longleftrightarrow> s \<noteq> [] \<and> list_all is_digit s"

definition mantissa :: "string \<Rightarrow> rat option" where
  "mantissa t =
     (case split_on CHR ''.'' t of
        [i] \<Rightarrow> if digits_text i then Some (of_nat (parse_dec i)) else None
      | [i, f] \<Rightarrow> if digits_text (i @ f) then Some (of_nat (parse_dec i) + of_nat (parse_dec f) / 10 ^ length f) else None
      | _ \<Rightarrow> None)"

definition exponent :: "string \<Rightarrow> int option" where
  "exponent e =
     (case e of
        [] \<Rightarrow> None
      | c # ds \<Rightarrow>
          if c = CHR ''+'' then (if digits_text ds then Some (int (parse_dec ds)) else None)
          else if c = CHR ''-'' then (if digits_text ds then Some (- int (parse_dec ds)) else None)
          else if digits_text e then Some (int (parse_dec e)) else None)"

definition scaled :: "rat \<Rightarrow> int \<Rightarrow> rat" where
  "scaled m e = (if 0 \<le> e then m * 10 ^ nat e else m / 10 ^ nat (- e))"

definition unsigned_number :: "string \<Rightarrow> rat option" where
  "unsigned_number t =
     (case find_index (\<lambda>c. c = CHR ''e'' \<or> c = CHR ''E'') t of
        None \<Rightarrow> mantissa t
      | Some k \<Rightarrow>
          (case (mantissa (take k t), exponent (drop (Suc k) t)) of
             (Some m, Some e) \<Rightarrow> Some (scaled m e)
           | _ \<Rightarrow> None))"

text \<open>Texts with a prefix \<open>0b\<close>, \<open>0o\<close> or \<open>0x\<close>.\<close>

definition based_number :: "nat \<Rightarrow> string \<Rightarrow> rat option" where
  "based_number base ds =
     (if ds \<noteq> [] \<and> list_all (\<lambda>c. case hex_val c of None \<Rightarrow> False | Some d \<Rightarrow> d < base) ds
      then Some (of_nat (foldl (\<lambda>n c. n * base + or_else (hex_val c) 0) 0 ds)) else None)"

text \<open>The least magnitude that rounds to infinity.\<close>

definition double_limit :: rat where
  "double_limit = 2 ^ 1024 - 2 ^ 970"

definition finite_number :: "rat option \<Rightarrow> rat option" where
  "finite_number v = (case v of None \<Rightarrow> None | Some x \<Rightarrow> if \<bar>x\<bar> < double_limit then Some x else None)"

definition js_number :: "string \<Rightarrow> rat option" where
  "js_number s =
     (let t = trim s; p = take 2 t in
      if t = [] then Some 0
      else if p = ''0x'' \<or> p = ''0X'' then finite_number (based_number 16 (drop 2 t))
      else if p = ''0o'' \<or> p = ''0O'' then finite_number (based_number 8 (drop 2 t))
      else if p = ''0b'' \<or> p = ''0B'' then finite_number (based_number 2 (drop 2 t))
      else if hd t = CHR ''-'' then map_option uminus (finite_number (unsigned_number (tl t)))
      else if hd t = CHR ''+'' then finite_number (unsigned_number (tl t))
      else finite_number (unsigned_number t))"

lemma js_number_empty: "js_number [] = Some 0"
  by (simp add: js_number_def trim_def)

subsection \<open>Decimal texts\<close>

lemma digit_plain:
  "is_digit c \<Longrightarrow> \<not> is_space c \<and> c \<noteq> CHR ''.'' \<and> c \<noteq> CHR ''-'' \<and> c \<noteq> CHR ''+'' \<and> c \<noteq> CHR ''e'' \<and> c \<noteq> CHR ''E'' \<and>
     c \<noteq> CHR ''x'' \<and> c \<noteq> CHR ''X'' \<and> c \<noteq> CHR ''o'' \<and> c \<noteq> CHR ''O'' \<and> c \<noteq> CHR ''b'' \<and> c \<noteq> CHR ''B'' \<and> c \<noteq> CHR ''/'' \<and> c \<noteq> CHR '':''"
  by (auto simp: is_digit_def is_space_def)

lemma digits_no_exponent:
  "list_all is_digit s \<Longrightarrow> find_index (\<lambda>c. c = CHR ''e'' \<or> c = CHR ''E'') s = None"
  using digit_plain by (auto simp: find_index_None list_all_iff)

lemma unsigned_digits: "digits_text s \<Longrightarrow> unsigned_number s = Some (of_nat (parse_dec s))"
proof -
  assume s: "digits_text s"
  then have "CHR ''.'' \<notin> set s"
    using digit_plain by (auto simp: digits_text_def list_all_iff)
  then show ?thesis
    using s digits_no_exponent by (simp add: unsigned_number_def digits_text_def mantissa_def split_on_none)
qed

lemma trim_digits: "list_all is_digit s \<Longrightarrow> trim s = s"
  using digit_plain by (intro trim_id) (simp add: list_all_iff)

lemma js_number_digits:
  assumes "digits_text s" "of_nat (parse_dec s) < double_limit"
  shows "js_number s = Some (of_nat (parse_dec s))"
proof -
  have all: "list_all is_digit s" and "s \<noteq> []"
    using assms(1) by (simp_all add: digits_text_def)
  then obtain c t where s: "s = c # t" by (cases s) auto
  have "is_digit c" "list_all is_digit t" using all s by simp_all
  then have "take 2 s \<notin> {''0x'', ''0X'', ''0o'', ''0O'', ''0b'', ''0B''}" "hd s \<noteq> CHR ''-''" "hd s \<noteq> CHR ''+''"
    using digit_plain by (cases t; auto simp: s)+
  then show ?thesis
    using assms(2) \<open>s \<noteq> []\<close>
    by (simp add: js_number_def trim_digits [OF all] Let_def unsigned_digits [OF assms(1)] finite_number_def)
qed

lemma small_finite: "n \<le> 2 ^ 64 \<Longrightarrow> (of_nat n :: rat) < double_limit"
proof -
  assume "n \<le> 2 ^ 64"
  then have "(of_nat n :: rat) \<le> of_nat (2 ^ 64)" by (simp only: of_nat_le_iff)
  also have "\<dots> < double_limit" by (simp add: double_limit_def)
  finally show ?thesis .
qed

lemma js_number_show: "n \<le> 2 ^ 64 \<Longrightarrow> js_number (show_nat n) = Some (of_nat n)"
  using js_number_digits [of "show_nat n"] small_finite [of n] show_nat_digits [of n]
  by (simp add: digits_text_def)

end
