(* ===== verification/MediaIdentity.thy ===== *)
theory MediaIdentity
  imports Numbers Capabilities Codec AddonClient
begin

text \<open>
  The resolution of a TMDB id to a medium, \<open>src/media/mediaIdentity.ts\<close>: validation, the cache of answers, the cache of
  refusals and the request to TMDB. A resolution waits once, for the request: it is split there, and other resolutions
  act in between.
\<close>

subsection \<open>Answers and errors\<close>

datatype mi_code = MiInvalidId | MiInvalidEpisode | MiNotFound | MiTmdb | MiTimeout | MiAborted

record mi_error =
  mi_code :: mi_code
  mi_message :: string
  mi_status :: int

record media_object =
  mo_type :: omss_type
  mo_tmdbId :: string
  mo_title :: string
  mo_releaseYear :: string
  mo_imdbId :: string
  mo_season :: "int option"
  mo_episode :: "int option"

record media_cache =
  mc_cache :: "(string, media_object \<times> time_ms) jsmap"
  mc_negative :: "(string, mi_error \<times> time_ms) jsmap"

definition empty_media_cache :: media_cache where
  "empty_media_cache = \<lparr>mc_cache = [], mc_negative = []\<rparr>"

definition CACHE_TTL_MS :: int where "CACHE_TTL_MS = 21600000"
definition NEGATIVE_TTL_MS :: int where "NEGATIVE_TTL_MS = 60000"

definition media_cache_key :: "omss_type \<Rightarrow> string \<Rightarrow> int option \<Rightarrow> int option \<Rightarrow> string" where
  "media_cache_key kind tmdbId s e =
     (case kind of
        Movie \<Rightarrow> ''movie:'' @ tmdbId
      | Tv \<Rightarrow> ''tv:'' @ tmdbId @ '':s'' @ show_int (or_else s 0) @ '':e'' @ show_int (or_else e 0))"

definition isValidTmdbId :: "string \<Rightarrow> bool" where
  "isValidTmdbId i \<longleftrightarrow> digits_text i \<and> 0 < parse_dec i \<and> length i \<le> 10"

definition isValidSeasonEpisode :: "int option \<Rightarrow> int option \<Rightarrow> bool" where
  "isValidSeasonEpisode s e =
     (case (s, e) of (Some a, Some b) \<Rightarrow> 0 < a \<and> a < 100 \<and> 0 < b \<and> b < 1000 | _ \<Rightarrow> False)"

subsection \<open>The request\<close>

definition DEFAULT_TMDB_BASE_URL :: string where
  "DEFAULT_TMDB_BASE_URL = ''https://api.themoviedb.org/3''"

definition setTmdbApiBaseUrl :: "string \<Rightarrow> string \<Rightarrow> string" where
  "setTmdbApiBaseUrl url current = (let t = strip_slashes (trim url) in if t \<noteq> [] then t else current)"

text \<open>
  What the runtime gives a request: the key, the base, how \<open>fetch\<close> ended and, read after it, whether the caller's signal
  is aborted (\<open>None\<close> without a signal).
\<close>

datatype tmdb_reply = TmdbThrew js_error | TmdbHttp int "json option"

record tmdb_env =
  tm_key :: "string option"
  tm_base :: string
  tm_reply :: "string \<Rightarrow> tmdb_reply"
  tm_aborted :: "bool option"

definition mi_fail :: "mi_code \<Rightarrow> string \<Rightarrow> int \<Rightarrow> mi_error" where
  "mi_fail c m st = \<lparr>mi_code = c, mi_message = m, mi_status = st\<rparr>"

definition fetch_threw :: "tmdb_env \<Rightarrow> js_error \<Rightarrow> mi_error" where
  "fetch_threw T err =
     (if je_name err = Some ''AbortError'' \<or> je_name err = Some ''TimeoutError'' then
        if je_name err = Some ''TimeoutError'' \<or> tm_aborted T \<noteq> Some True
        then mi_fail MiTimeout ''TMDB request timed out'' 504
        else mi_fail MiAborted ''Request aborted'' 499
      else mi_fail MiTmdb (or_else (je_message err) []) 502)"

definition tmdb_url :: "tmdb_env \<Rightarrow> string \<Rightarrow> string \<Rightarrow> string" where
  "tmdb_url T key path =
     tm_base T @ path @ (if CHR ''?'' \<in> set path then ''&'' else ''?'') @ ''api_key='' @ encodeURIComponent key"

definition tmdbFetch :: "tmdb_env \<Rightarrow> int option \<Rightarrow> time_ms \<Rightarrow> string \<Rightarrow> mi_error + json" where
  "tmdbFetch T deadlineMs now path =
     (let key = trim (or_else (tm_key T) []);
          remaining = (case deadlineMs of Some d \<Rightarrow> if d = 0 then 12000 else d - now | None \<Rightarrow> 12000)
      in if key = [] then Inl (mi_fail MiTmdb ''TMDB_API_KEY not configured'' 500)
         else if remaining \<le> 0 then Inl (mi_fail MiTimeout ''Media identity deadline exceeded'' 504)
         else case tm_reply T (tmdb_url T key path) of
           TmdbThrew err \<Rightarrow> Inl (fetch_threw T err)
         | TmdbHttp st body \<Rightarrow>
             if st < 200 \<or> 299 < st then
               (if st = 404 then Inl (mi_fail MiNotFound (''TMDB not found for '' @ path) 404)
                else Inl (mi_fail MiTmdb (''TMDB HTTP '' @ show_int st @ '' for '' @ path) 502))
             else case body of
               None \<Rightarrow> Inl (mi_fail MiTmdb ''TMDB returned invalid JSON'' 502)
             | Some j \<Rightarrow> Inr j)"

text \<open>\<open>d.title ?? 'Unknown'\<close> and the like, on the declared types: a field of another type reads as missing.\<close>

definition text_field :: "json \<Rightarrow> string \<Rightarrow> string \<Rightarrow> string" where
  "text_field j k d = or_else (jstr (jfield j k)) d"

definition external_imdb :: "json \<Rightarrow> string" where
  "external_imdb j = or_else (jstr (subfield (jfield j ''external_ids'') ''imdb_id'')) []"

definition media_path :: "omss_type \<Rightarrow> string \<Rightarrow> string" where
  "media_path kind tmdbId =
     (case kind of Movie \<Rightarrow> ''/movie/'' | Tv \<Rightarrow> ''/tv/'') @ encodeURIComponent tmdbId @ ''?append_to_response=external_ids''"

definition media_of :: "omss_type \<Rightarrow> string \<Rightarrow> int option \<Rightarrow> int option \<Rightarrow> json \<Rightarrow> media_object" where
  "media_of kind tmdbId s e d =
     (case kind of
        Movie \<Rightarrow> \<lparr>mo_type = Movie, mo_tmdbId = tmdbId, mo_title = text_field d ''title'' ''Unknown'',
           mo_releaseYear = take 4 (text_field d ''release_date'' []), mo_imdbId = external_imdb d,
           mo_season = None, mo_episode = None\<rparr>
      | Tv \<Rightarrow> \<lparr>mo_type = Tv, mo_tmdbId = tmdbId, mo_title = text_field d ''name'' ''Unknown'',
           mo_releaseYear = take 4 (text_field d ''first_air_date'' []), mo_imdbId = external_imdb d,
           mo_season = s, mo_episode = e\<rparr>)"

definition fetchMedia ::
  "tmdb_env \<Rightarrow> int option \<Rightarrow> time_ms \<Rightarrow> omss_type \<Rightarrow> string \<Rightarrow> int option \<Rightarrow> int option \<Rightarrow> mi_error + media_object" where
  "fetchMedia T deadlineMs now kind tmdbId s e =
     (case tmdbFetch T deadlineMs now (media_path kind tmdbId) of
        Inl err \<Rightarrow> Inl err
      | Inr d \<Rightarrow> Inr (media_of kind tmdbId s e d))"

subsection \<open>A resolution\<close>

datatype mi_start = MiAnswer media_object | MiRefused mi_error | MiFetch string

definition check_negative :: "string \<Rightarrow> time_ms \<Rightarrow> media_cache \<Rightarrow> mi_start" where
  "check_negative k now m =
     (case jm_get (mc_negative m) k of
        Some (err, u) \<Rightarrow> if now < u then MiRefused err else MiFetch k
      | None \<Rightarrow> MiFetch k)"

definition start_identity ::
  "omss_type \<Rightarrow> string \<Rightarrow> int option \<Rightarrow> int option \<Rightarrow> time_ms \<Rightarrow> media_cache \<Rightarrow> mi_start" where
  "start_identity kind tmdbId s e now m =
     (if \<not> isValidTmdbId tmdbId then MiRefused (mi_fail MiInvalidId (''Invalid TMDB id: '' @ tmdbId) 400)
      else if kind = Tv \<and> \<not> isValidSeasonEpisode s e
      then MiRefused (mi_fail MiInvalidEpisode
             (''Invalid season/episode: s='' @ (case s of None \<Rightarrow> ''undefined'' | Some n \<Rightarrow> show_int n) @ '' e='' @
              (case e of None \<Rightarrow> ''undefined'' | Some n \<Rightarrow> show_int n) @ '' (expected s 1..99, e 1..999)'') 400)
      else let k = media_cache_key kind tmdbId s e in
        case jm_get (mc_cache m) k of
          Some (v, t) \<Rightarrow> if now < t then MiAnswer v else check_negative k now m
        | None \<Rightarrow> check_negative k now m)"

definition cap_media :: "(string, media_object \<times> time_ms) jsmap \<Rightarrow> (string, media_object \<times> time_ms) jsmap" where
  "cap_media m =
     (if 1000 < length m then (case m of (k, v) # r \<Rightarrow> if k \<noteq> [] then jm_delete k m else m | [] \<Rightarrow> m) else m)"

definition finish_identity :: "string \<Rightarrow> mi_error + media_object \<Rightarrow> time_ms \<Rightarrow> media_cache \<Rightarrow> media_cache" where
  "finish_identity k res now m =
     (case res of
        Inr v \<Rightarrow> m\<lparr>mc_cache := cap_media (jm_set k (v, now + CACHE_TTL_MS) (mc_cache m))\<rparr>
      | Inl err \<Rightarrow>
          if mi_code err = MiNotFound \<or> mi_code err = MiInvalidId
          then m\<lparr>mc_negative := jm_set k (err, now + NEGATIVE_TTL_MS) (mc_negative m)\<rparr> else m)"

text \<open>
  The whole \<open>resolve\<close>: \<open>others\<close> is what other resolutions do to the caches while this one waits. The flag is \<open>fromCache\<close>.
\<close>

definition identity_resolve ::
  "tmdb_env \<Rightarrow> int option \<Rightarrow> (media_cache \<Rightarrow> media_cache) \<Rightarrow> time_ms \<Rightarrow> time_ms \<Rightarrow> omss_type \<Rightarrow> string \<Rightarrow> int option \<Rightarrow> int option \<Rightarrow>
     media_cache \<Rightarrow> (mi_error + media_object \<times> bool) \<times> media_cache" where
  "identity_resolve T deadlineMs others now later kind tmdbId s e m =
     (case start_identity kind tmdbId s e now m of
        MiAnswer v \<Rightarrow> (Inr (v, True), m)
      | MiRefused err \<Rightarrow> (Inl err, m)
      | MiFetch k \<Rightarrow>
          (let res = fetchMedia T deadlineMs now kind tmdbId s e; m1 = finish_identity k res later (others m) in
           (case res of Inl err \<Rightarrow> Inl err | Inr v \<Rightarrow> Inr (v, False), m1)))"

definition resolveOrSoft ::
  "(mi_error + media_object \<times> bool) \<Rightarrow> media_object option \<times> mi_error option \<times> bool option" where
  "resolveOrSoft r = (case r of Inl err \<Rightarrow> (None, Some err, None) | Inr (v, c) \<Rightarrow> (Some v, None, Some c))"

definition buildProgressiveMedia :: "(mi_error + media_object \<times> bool) \<Rightarrow> mi_error + media_object" where
  "buildProgressiveMedia r = (case r of Inl err \<Rightarrow> Inl err | Inr (v, c) \<Rightarrow> Inr v)"

definition clear_media_cache :: "media_cache \<Rightarrow> media_cache" where
  "clear_media_cache m = empty_media_cache"

definition media_cache_size :: "media_cache \<Rightarrow> nat" where
  "media_cache_size m = length (mc_cache m)"

subsection \<open>Runs\<close>

text \<open>A step of the caches: a request for a medium ends, or the caches are cleared.\<close>

datatype mi_step = MiEnds omss_type string "int option" "int option" "mi_error + json" time_ms | MiClear

definition valid_request :: "omss_type \<Rightarrow> string \<Rightarrow> int option \<Rightarrow> int option \<Rightarrow> bool" where
  "valid_request kind i s e \<longleftrightarrow> isValidTmdbId i \<and> (kind = Movie \<or> isValidSeasonEpisode s e)"

fun mi_apply :: "mi_step \<Rightarrow> media_cache \<Rightarrow> media_cache" where
  "mi_apply (MiEnds kind i s e res now) m =
     (if valid_request kind i s e
      then finish_identity (media_cache_key kind i s e) (case res of Inl err \<Rightarrow> Inl err | Inr d \<Rightarrow> Inr (media_of kind i s e d)) now m
      else m)"
| "mi_apply MiClear m = clear_media_cache m"

text \<open>An entry that a request of the run put there.\<close>

definition fetched :: "mi_step list \<Rightarrow> string \<times> media_object \<times> time_ms \<Rightarrow> bool" where
  "fetched steps x \<longleftrightarrow>
     (\<exists>kind i s e d t. MiEnds kind i s e (Inr d) t \<in> set steps \<and> valid_request kind i s e \<and>
        x = (media_cache_key kind i s e, media_of kind i s e d, t + CACHE_TTL_MS))"

definition media_inv :: "mi_step list \<Rightarrow> media_cache \<Rightarrow> bool" where
  "media_inv steps m \<longleftrightarrow> jm_ok (mc_cache m) \<and> length (mc_cache m) \<le> 1000 \<and> (\<forall>x \<in> set (mc_cache m). fetched steps x)"

lemma cap_media_facts:
  assumes "jm_ok m" "length m \<le> Suc 1000" "[] \<notin> fst ` set m"
  shows "jm_ok (cap_media m) \<and> length (cap_media m) \<le> 1000 \<and> set (cap_media m) \<subseteq> set m"
proof (cases m)
  case (Cons x r)
  obtain k v where x: "x = (k, v)" by (cases x)
  have "jm_delete k m = r"
    using assms(1) by (simp add: Cons x jm_ok_def AList.delete_eq filter_id_conv) force
  then show ?thesis using assms by (auto simp: cap_media_def Cons x jm_ok_def)
qed (simp add: cap_media_def)

lemma key_not_Nil: "media_cache_key kind i s e \<noteq> []"
  by (cases kind) (simp_all add: media_cache_key_def)

lemma fetched_key: "fetched steps x \<Longrightarrow> fst x \<noteq> []"
  unfolding fetched_def by (elim exE conjE) (simp add: key_not_Nil)

lemma jm_set_sub: "set (jm_set k v m) \<subseteq> insert (k, v) (set m)"
  by (induction m) auto

lemma mi_apply_inv: "media_inv steps m \<Longrightarrow> media_inv (steps @ [st]) (mi_apply st m)"
proof -
  assume inv: "media_inv steps m"
  have more: "fetched steps x \<Longrightarrow> fetched (steps @ [st]) x" for x
    unfolding fetched_def by fastforce
  show ?thesis
  proof (cases st)
    case MiClear
    then show ?thesis by (simp add: media_inv_def clear_media_cache_def empty_media_cache_def)
  next
    case (MiEnds kind i s e res now)
    show ?thesis
    proof (cases "valid_request kind i s e \<and> (\<exists>d. res = Inr d)")
      case False
      then show ?thesis
        using inv more by (auto simp: MiEnds media_inv_def finish_identity_def split: sum.split)
    next
      case True
      then obtain d where d: "res = Inr d" and val: "valid_request kind i s e" by blast
      let ?k = "media_cache_key kind i s e" let ?x = "(media_of kind i s e d, now + CACHE_TTL_MS)"
      let ?m = "jm_set ?k ?x (mc_cache m)"
      have new: "fetched (steps @ [st]) (?k, ?x)"
        unfolding fetched_def MiEnds d using val by (intro exI conjI) auto
      have "set ?m \<subseteq> insert (?k, ?x) (set (mc_cache m))" by (rule jm_set_sub)
      then have all: "\<forall>x \<in> set ?m. fetched (steps @ [st]) x"
        using inv more new by (auto simp: media_inv_def)
      then have "[] \<notin> fst ` set ?m" using fetched_key by (metis imageE)
      then have "jm_ok (cap_media ?m) \<and> length (cap_media ?m) \<le> 1000 \<and> set (cap_media ?m) \<subseteq> set ?m"
        using inv cap_media_facts [of ?m] by (simp add: media_inv_def length_jm_set)
      then show ?thesis
        using all val by (auto simp: MiEnds d media_inv_def finish_identity_def)
    qed
  qed
qed

lemma run_inv: "media_inv steps (fold mi_apply steps empty_media_cache)"
proof (induction steps rule: rev_induct)
  case Nil
  then show ?case by (simp add: media_inv_def empty_media_cache_def)
qed (simp add: mi_apply_inv)

subsection \<open>Keys\<close>

lemma digits_no_colon: "digits_text i \<Longrightarrow> CHR '':'' \<notin> set i"
proof
  assume "digits_text i" "CHR '':'' \<in> set i"
  then have "is_digit CHR '':''" by (simp add: digits_text_def list_all_iff)
  then show False by (simp add: is_digit_def)
qed

lemma key_split:
  assumes "valid_request kind i s e"
  shows "split_on CHR '':'' (media_cache_key kind i s e) =
    (case kind of Movie \<Rightarrow> [''movie'', i] | Tv \<Rightarrow> [''tv'', i, ''s'' @ show_int (or_else s 0), ''e'' @ show_int (or_else e 0)])"
proof -
  have "digits_text i" using assms unfolding valid_request_def isValidTmdbId_def by blast
  then have i: "CHR '':'' \<notin> set i" by (rule digits_no_colon)
  show ?thesis
  proof (cases kind)
    case Movie
    then show ?thesis
      using split_on_append [of "CHR '':''" "''movie''" i] i by (simp add: media_cache_key_def split_on_none)
  next
    case Tv
    then obtain a b where ab: "s = Some a" "e = Some b" "0 < a" "0 < b"
      using assms by (auto simp: valid_request_def isValidSeasonEpisode_def split: option.splits)
    have d: "\<not> is_digit CHR '':''" by (simp add: is_digit_def)
    then have nums: "CHR '':'' \<notin> set (''s'' @ show_nat n)" "CHR '':'' \<notin> set (''e'' @ show_nat n)" for n
      using show_nat_char [of "CHR '':''" n] by auto
    have "split_on CHR '':'' (join_with '':'' [''tv'', i, ''s'' @ show_nat (nat a), ''e'' @ show_nat (nat b)]) =
        [''tv'', i, ''s'' @ show_nat (nat a), ''e'' @ show_nat (nat b)]"
      by (rule split_on_join) (use i nums in auto)
    then show ?thesis
      using ab by (simp add: Tv media_cache_key_def show_int_def or_else_def)
  qed
qed

lemma show_int_inj: "0 < a \<Longrightarrow> 0 < b \<Longrightarrow> show_int a = show_int b \<Longrightarrow> a = b"
proof -
  assume a: "0 < a" "0 < b" "show_int a = show_int b"
  then have "show_nat (nat a) = show_nat (nat b)" by (simp add: show_int_def)
  then have "nat a = nat b" by (metis parse_dec_show)
  then show "a = b" using a by simp
qed

lemma key_inj:
  assumes "valid_request kind i s e" "valid_request kind' i' s' e'"
    "media_cache_key kind i s e = media_cache_key kind' i' s' e'"
  shows "kind = kind' \<and> i = i' \<and> (kind = Tv \<longrightarrow> s = s' \<and> e = e')"
proof -
  note k = key_split [OF assms(1)] key_split [OF assms(2), folded assms(3)]
  show ?thesis
  proof (cases kind)
    case Movie
    then have "kind' = Movie" using k by (cases kind') simp_all
    then show ?thesis using k Movie by simp
  next
    case Tv
    then have kind': "kind' = Tv" using k by (cases kind') simp_all
    obtain a b a' b' where ab: "s = Some a" "e = Some b" "s' = Some a'" "e' = Some b'" "0 < a" "0 < b" "0 < a'" "0 < b'"
      using assms(1,2) Tv kind' by (auto simp: valid_request_def isValidSeasonEpisode_def split: option.splits)
    have "i = i'" "show_int a = show_int a'" "show_int b = show_int b'"
      using k Tv kind' by (simp_all add: ab or_else_def)
    then show ?thesis using Tv kind' ab show_int_inj by simp
  qed
qed

text \<open>
  C33. However requests and resolutions interleave, a resolution answered from the cache gets what TMDB answered to a request
  for the same kind, id, season and episode less than six hours earlier; the cache never holds more than 1000 media.
\<close>

theorem identity_answers_fresh:
  assumes "start_identity kind i s e now (fold mi_apply steps empty_media_cache) = MiAnswer v"
  shows "(\<exists>s' e' d t. MiEnds kind i s' e' (Inr d) t \<in> set steps \<and> v = media_of kind i s e d \<and> now < t + 21600000) \<and>
    length (mc_cache (fold mi_apply steps empty_media_cache)) \<le> 1000"
proof -
  let ?m = "fold mi_apply steps empty_media_cache"
  have val: "valid_request kind i s e"
    using assms by (cases kind) (auto simp: start_identity_def valid_request_def split: if_splits)
  obtain u where u: "jm_get (mc_cache ?m) (media_cache_key kind i s e) = Some (v, u)" "now < u"
    using assms by (auto simp: start_identity_def check_negative_def Let_def split: if_splits option.splits)
  have "(media_cache_key kind i s e, v, u) \<in> set (mc_cache ?m)" using u(1) by (rule map_of_SomeD)
  then have "fetched steps (media_cache_key kind i s e, v, u)"
    using run_inv [of steps] by (simp add: media_inv_def)
  then obtain kind' i' s' e' d t where st: "MiEnds kind' i' s' e' (Inr d) t \<in> set steps" "valid_request kind' i' s' e'"
    and eq: "media_cache_key kind i s e = media_cache_key kind' i' s' e'" "v = media_of kind' i' s' e' d" "u = t + CACHE_TTL_MS"
    by (auto simp: fetched_def)
  then have same: "kind = kind' \<and> i = i' \<and> (kind = Tv \<longrightarrow> s = s' \<and> e = e')"
    using key_inj [OF val st(2)] by simp
  then have "v = media_of kind i s e d"
    using eq(2) by (cases kind) (auto simp: media_of_def)
  then show ?thesis
    using st(1) same eq(3) u(2) run_inv [of steps] by (auto simp: media_inv_def CACHE_TTL_MS_def)
qed

theorem identity_answers_fresh_witness:
  "\<exists>d t. MiEnds Movie ''5'' None None (Inr d) t \<in> set [MiEnds Movie ''5'' None None (Inr (JObj [])) 7] \<and>
     media_of Movie ''5'' None None (JObj []) = media_of Movie ''5'' None None d \<and> 1000 < t + 21600000"
proof -
  have "start_identity Movie ''5'' None None 1000 (fold mi_apply [MiEnds Movie ''5'' None None (Inr (JObj [])) 7] empty_media_cache) =
      MiAnswer (media_of Movie ''5'' None None (JObj []))"
    by code_simp
  from identity_answers_fresh [OF this] show ?thesis by auto
qed

subsection \<open>What the code does not promise\<close>

text \<open>
  Refusals are kept without a bound and are not removed when they end: every id that TMDB does not know adds an entry for good.
\<close>

lemma refusals_accumulate:
  assumes "mi_code err = MiNotFound" "jm_get (mc_negative m) k = None"
  shows "length (mc_negative (finish_identity k (Inl err) now m)) = Suc (length (mc_negative m))"
  using assms by (simp add: finish_identity_def length_jm_set jm_has_def)

end
