(* ===== verification/Subtitles.thy ===== *)
theory Subtitles
  imports AddonProvider Languages MediaIdentity
begin

text \<open>
  The aggregation of subtitles, \<open>src/subtitles/index.ts\<close> with \<open>matching.ts\<close> and \<open>fallback.ts\<close>: scores, ranking, the
  collection from every subtitle addon behind its gates, the trusted fallback, and the links handed out. The members of
  a batch of addons end in order.
\<close>

subsection \<open>Scores\<close>

record full_subtitle = stremio_subtitle +
  fs_extra :: bool
  fs_hi :: bool

definition full_view :: "json \<Rightarrow> full_subtitle" where
  "full_view j = stremio_subtitle.extend (subtitle_view j)
     \<lparr>fs_extra = (jfield j ''extra'' = Some (JBool True)), fs_hi = (jfield j ''_hi'' = Some (JBool True))\<rparr>"

definition is_letter :: "char \<Rightarrow> bool" where
  "is_letter c \<longleftrightarrow> small_letter (lower_char c)"

definition rx_hi :: rx where
  "rx_hi = Seq (Alt Bol (Ch (\<lambda>c. \<not> is_letter c)))
     (Seq (alt_all [lit_ci ''hi'', lit_ci ''sdh'', lit_ci ''cc'',
             Seq (lit_ci ''hearing'') (Seq (Opt (one_of ''._ -'')) (lit_ci ''impaired''))])
       (Alt (Ch (\<lambda>c. \<not> is_letter c)) Eol))"

definition haystack :: "full_subtitle \<Rightarrow> string" where
  "haystack s = or_else (ss_id s) [] @ '' '' @ ss_url s"

definition detectHearingImpaired :: "full_subtitle \<Rightarrow> bool" where
  "detectHearingImpaired s \<longleftrightarrow> fs_extra s \<or> fs_hi s \<or> rx_test rx_hi (haystack s)"

definition rx_episode :: "int \<Rightarrow> int \<Rightarrow> rx" where
  "rx_episode season episode =
     seq_all [one_of ''sS'', Star (same_char CHR ''0''), lit (show_int season), one_of ''eE'', Star (same_char CHR ''0''),
       lit (show_int episode), WordB]"

definition seasonEpisodeMatch :: "full_subtitle \<Rightarrow> int option \<Rightarrow> int option \<Rightarrow> bool" where
  "seasonEpisodeMatch s season episode =
     (case (season, episode) of (Some a, Some b) \<Rightarrow> rx_test (rx_episode a b) (haystack s) | _ \<Rightarrow> False)"

record query_context =
  qc_language :: "string option"
  qc_season :: "int option"
  qc_episode :: "int option"
  qc_releaseName :: "string option"
  qc_preferNonHi :: bool

definition language_score :: "query_context \<Rightarrow> full_subtitle \<Rightarrow> int \<times> string list" where
  "language_score q s =
     (let canonical = normalizeLanguageTag (Some (ss_lang s)); wanted = or_else (qc_language q) [] in
      if wanted \<noteq> [] \<and> canonical \<noteq> [] \<and> languageMatches wanted (ss_lang s)
      then (if normalizeLanguageTag (Some wanted) = canonical then (50, [''language:exact'']) else (35, [''language:primary'']))
      else (0, []))"

definition lower_alnum :: "char \<Rightarrow> bool" where
  "lower_alnum c \<longleftrightarrow> small_letter c \<or> is_digit c"

definition release_score :: "query_context \<Rightarrow> full_subtitle \<Rightarrow> int \<times> string list" where
  "release_score q s =
     (let tokens = filter (\<lambda>t. 3 \<le> length t) (split_runs (\<lambda>c. \<not> lower_alnum c) (to_lower (or_else (qc_releaseName q) []))) in
      if tokens \<noteq> [] \<and> list_all (str_includes (to_lower (haystack s))) tokens then (10, [''release:tokens'']) else (0, []))"

definition hi_score :: "query_context \<Rightarrow> full_subtitle \<Rightarrow> int \<times> string list" where
  "hi_score q s =
     (if \<not> detectHearingImpaired s then (0, [])
      else if qc_preferNonHi q then (-10, [''accessibility:hi-penalized'']) else (10, [''accessibility:hi'']))"

definition rx_native_url :: rx where
  "rx_native_url = Seq (same_char CHR ''.'') (Seq (Alt (lit_ci ''srt'') (lit_ci ''vtt'')) (Alt (same_char CHR ''?'') Eol))"

definition format_score :: "full_subtitle \<Rightarrow> int \<times> string list" where
  "format_score s =
     (let fmt = to_lower (or_else (ss_format s) []) in
      if str_includes fmt ''srt'' \<or> str_includes fmt ''vtt'' \<or> rx_test rx_native_url (ss_url s)
      then (5, [''format:native'']) else (0, []))"

record scored_subtitle =
  sc_score :: int
  sc_reasons :: "string list"
  sc_hearingImpaired :: bool
  sc_lang :: string

definition scoreSubtitleMatch :: "full_subtitle \<Rightarrow> query_context \<Rightarrow> scored_subtitle" where
  "scoreSubtitleMatch s q =
     (let (l, lr) = language_score q s;
          (e, er) = (if seasonEpisodeMatch s (qc_season q) (qc_episode q) then (25, [''episode:match'']) else (0, []));
          (r, rr) = release_score q s; (h, hr) = hi_score q s; (f, fr) = format_score s
      in \<lparr>sc_score = max 0 (l + e + r + h + f), sc_reasons = lr @ er @ rr @ hr @ fr,
          sc_hearingImpaired = detectHearingImpaired s, sc_lang = normalizeLanguageTag (Some (ss_lang s))\<rparr>)"

subsection \<open>Ranking\<close>

datatype sub_origin = FromAddon | FromFallback
datatype hi_pref = HiInclude | HiAvoid | HiOnly

record 'a collected =
  co_sub :: 'a
  co_providerId :: string
  co_origin :: sub_origin

record ranked_entry =
  re_collected :: "full_subtitle collected"
  re_scored :: scored_subtitle

definition language_candidates :: "query_context \<Rightarrow> full_subtitle collected list \<Rightarrow> full_subtitle collected list" where
  "language_candidates q cs =
     (let wanted = or_else (qc_language q) []; matching = filter (\<lambda>c. languageMatches wanted (ss_lang (co_sub c))) cs in
      if wanted \<noteq> [] \<and> matching \<noteq> [] then matching else cs)"

definition hi_wanted :: "hi_pref \<Rightarrow> ranked_entry \<Rightarrow> bool" where
  "hi_wanted p r =
     (case p of HiOnly \<Rightarrow> sc_hearingImpaired (re_scored r) | HiAvoid \<Rightarrow> \<not> sc_hearingImpaired (re_scored r) | HiInclude \<Rightarrow> True)"

definition entry_url :: "ranked_entry \<Rightarrow> string" where
  "entry_url r = ss_url (co_sub (re_collected r))"

definition rank_entry :: "query_context \<Rightarrow> full_subtitle collected \<Rightarrow> ranked_entry" where
  "rank_entry q c = \<lparr>re_collected = c, re_scored = scoreSubtitleMatch (co_sub c) q\<rparr>"

text \<open>The last loop: the cap is compared after an entry is added; \<open>n\<close> entries are out.\<close>

fun take_ranked :: "int \<Rightarrow> nat \<Rightarrow> string list \<Rightarrow> ranked_entry list \<Rightarrow> ranked_entry list" where
  "take_ranked limit n seen [] = []"
| "take_ranked limit n seen (r # rs) =
     (if \<not> rx_test http_prefix (entry_url r) \<or> entry_url r \<in> set seen then take_ranked limit n seen rs
      else r # (if limit \<le> int (Suc n) then [] else take_ranked limit (Suc n) (entry_url r # seen) rs))"

definition sorted_entries :: "query_context \<Rightarrow> hi_pref \<Rightarrow> full_subtitle collected list \<Rightarrow> ranked_entry list" where
  "sorted_entries q p cs =
     sort_key (\<lambda>r. - sc_score (re_scored r)) (filter (hi_wanted p) (map (rank_entry q) (language_candidates q cs)))"

definition rankSubtitles :: "query_context \<Rightarrow> hi_pref option \<Rightarrow> int option \<Rightarrow> full_subtitle collected list \<Rightarrow> ranked_entry list" where
  "rankSubtitles q p limit cs = take_ranked (or_else limit 50) 0 [] (sorted_entries q (or_else p HiInclude) cs)"

text \<open>The items of an answer are used as they came: \<open>None\<close> is the error of a \<open>null\<close> among them.\<close>

definition collected_view :: "json collected \<Rightarrow> full_subtitle collected" where
  "collected_view c = \<lparr>co_sub = full_view (co_sub c), co_providerId = co_providerId c, co_origin = co_origin c\<rparr>"

definition rank_items :: "query_context \<Rightarrow> hi_pref option \<Rightarrow> int option \<Rightarrow> json collected list \<Rightarrow> ranked_entry list option" where
  "rank_items q p limit cs =
     (if list_ex (\<lambda>c. co_sub c = JNull) cs then None else Some (rankSubtitles q p limit (map collected_view cs)))"

subsection \<open>Collection\<close>

definition subtitle_call ::
  "client_lib \<Rightarrow> url_options \<Rightarrow> attempt \<Rightarrow> string \<Rightarrow> string \<Rightarrow> string \<Rightarrow> nat \<Rightarrow> json list + js_error option" where
  "subtitle_call C pol A base type i n =
     (case snd (fetchSubtitles C (at_subFetch A n) base type i 12000
             (no_fetch_options\<lparr>fo_policy := Some pol, fo_signal := (at_signal A \<noteq> None), fo_aborted := aborted_at A (AtSubFetch n)\<rparr>)) of
        Inl e \<Rightarrow> Inr (Some e)
      | Inr v \<Rightarrow> Inl v)"

text \<open>The \<open>catch\<close>: an abort the caller asked for is no failure of the addon.\<close>

definition note_failure :: "attempt \<Rightarrow> string \<Rightarrow> js_error option \<Rightarrow> registry \<Rightarrow> registry" where
  "note_failure A pid e r =
     (if (\<exists>j. e = Some j \<and> je_name j = Some ''AbortError'') \<and> aborted_at A AtSubCatch then r
      else recordFailure pid (classifyError e) None (at_failed A) r)"

definition gated_call ::
  "client_lib \<Rightarrow> url_options \<Rightarrow> attempt \<Rightarrow> installed_addon \<Rightarrow> string \<Rightarrow> string \<Rightarrow> registry \<Rightarrow> json list \<times> registry" where
  "gated_call C pol A a type i r =
     (case fst (withRetry (subtitle_call C pol A (ia_baseUrl a) type i) (subtitle_aborts A) (Some 2) (Some 120) (at_subJitter A)) of
        RetryValue subs \<Rightarrow> (subs, recordSuccess (ia_providerId a) (at_subDone A - at_subStart A) r)
      | RetryThrow e \<Rightarrow> ([], note_failure A (ia_providerId a) e r)
      | RetryAborted \<Rightarrow> ([], note_failure A (ia_providerId a) (Some abort_error) r))"

definition collect_one ::
  "client_lib \<Rightarrow> url_lib \<Rightarrow> url_options \<Rightarrow> attempt \<Rightarrow> installed_addon \<Rightarrow> string \<Rightarrow> string \<Rightarrow> registry \<Rightarrow> json list \<times> registry" where
  "collect_one C L pol A a type i r =
     (let pid = ia_providerId a; host = map_option pu_hostname (ul_parse L (ia_baseUrl a)) in
      if aborted_at A AtCandidate then ([], r)
      else case getState pid (at_now A) r of
        (st, r1) \<Rightarrow>
          if st = Open then ([], r1)
          else case half_open_gate pid (at_now A) r1 of
            (False, r2) \<Rightarrow> ([], r2)
          | (True, r2) \<Rightarrow>
              (case acquire_gate A pid host r2 of
                 (False, r3) \<Rightarrow> ([], note_failure A pid (Some abort_error) r3)
               | (True, r3) \<Rightarrow>
                   (case gated_call C pol A a type i r3 of
                      (subs, r4) \<Rightarrow> (subs, snd (release_slot False pid host r4)))))"

text \<open>Batches of four: the signal is read before each (\<open>gone\<close>) and by each member.\<close>

fun collect_addons ::
  "client_lib \<Rightarrow> url_lib \<Rightarrow> url_options \<Rightarrow> (nat \<Rightarrow> attempt) \<Rightarrow> (nat \<Rightarrow> bool) \<Rightarrow> string \<Rightarrow> string \<Rightarrow> nat \<Rightarrow> installed_addon list \<Rightarrow>
     registry \<Rightarrow> json collected list \<times> registry" where
  "collect_addons C L pol As gone type i n [] r = ([], r)"
| "collect_addons C L pol As gone type i n (a # rest) r =
     (if n mod 4 = 0 \<and> gone (n div 4) then ([], r)
      else case collect_one C L pol (As n) a type i r of
        (subs, r1) \<Rightarrow>
          (case collect_addons C L pol As gone type i (Suc n) rest r1 of
             (others, r2) \<Rightarrow>
               (map (\<lambda>s. \<lparr>co_sub = s, co_providerId = ia_providerId a, co_origin = FromAddon\<rparr>) subs @ others, r2)))"

definition collectForId ::
  "client_lib \<Rightarrow> url_lib \<Rightarrow> url_options \<Rightarrow> (nat \<Rightarrow> attempt) \<Rightarrow> bool \<Rightarrow> (nat \<Rightarrow> bool) \<Rightarrow> string \<Rightarrow> string \<Rightarrow> installed_addon list \<Rightarrow>
     registry \<Rightarrow> (js_error + json collected list) \<times> registry" where
  "collectForId C L pol As aborted gone type i capable r =
     (if aborted then (Inl abort_error, r)
      else case collect_addons C L pol As gone type i 0 capable r of (cs, r1) \<Rightarrow> (Inr cs, r1))"

subsection \<open>The fallback\<close>

definition rx_token :: rx where
  "rx_token = Seq (same_char CHR ''{'') (Seq (rx_plus (Ch is_letter)) (same_char CHR ''}''))"

fun render_vars :: "(string \<times> string option) list \<Rightarrow> string \<Rightarrow> string option" where
  "render_vars [] out = (if rx_test rx_token out then None else Some out)"
| "render_vars ((k, v) # vs) out =
     (let tok = ''{'' @ k @ ''}'' in
      if \<not> str_includes out tok then render_vars vs out
      else if or_else v [] = [] then None
      else render_vars vs (rx_replace_all (lit tok) (encodeURIComponent (or_else v [])) out))"

record fallback_vars =
  fv_imdbId :: "string option"
  fv_lang :: "string option"
  fv_season :: "int option"
  fv_episode :: "int option"

definition renderTemplate :: "string \<Rightarrow> fallback_vars \<Rightarrow> string option" where
  "renderTemplate t v =
     render_vars [(''imdbId'', fv_imdbId v), (''lang'', fv_lang v), (''season'', map_option show_int (fv_season v)),
       (''episode'', map_option show_int (fv_episode v))] t"

record fallback_config =
  fc_enabled :: bool
  fc_template :: "string option"
  fc_timeoutMs :: "int option"
  fc_policy :: "url_options option"

definition fallback_request :: "fallback_config \<Rightarrow> bool \<Rightarrow> secure_options" where
  "fallback_request F signal =
     \<lparr>sf_timeoutMs = Some (or_else (fc_timeoutMs F) 10000), sf_maxRedirects = Some 3, sf_maxBytes = Some 512000,
      sf_acceptContentTypes = Some [''json''], sf_policy = or_else (fc_policy F) (plain_policy False),
      sf_headers = Some [(''Accept'', ''application/json'')], sf_viaProxy = Some ViaAuto, sf_signal = signal\<rparr>"

definition fetchFallbackSubtitles ::
  "client_lib \<Rightarrow> fetch_env \<Rightarrow> fallback_config \<Rightarrow> bool \<Rightarrow> fallback_vars \<Rightarrow> (json list \<times> string) option" where
  "fetchFallbackSubtitles C E F signal v =
     (case renderTemplate (or_else (fc_template F) []) v of
        None \<Rightarrow> None
      | Some url \<Rightarrow>
          if url = [] then None
          else case ul_parse (url_lib.truncate (ev_lib E)) url of
            None \<Rightarrow> None
          | Some u \<Rightarrow>
              (case snd (secureFetch E (fallback_request F signal) url) of
                 Inl e \<Rightarrow> None
               | Inr r \<Rightarrow>
                   if \<not> status_ok r then None
                   else (case cl_json C (sr_text r) of
                           Inl msg \<Rightarrow> None
                         | Inr j \<Rightarrow> Some (json_items j ''subtitles'', url_host u))))"

subsection \<open>The request\<close>

record subtitle_query =
  su_imdbId :: "string option"
  su_tmdbId :: "string option"
  su_season :: "int option"
  su_episode :: "int option"
  su_language :: "string option"
  su_hearingImpaired :: "hi_pref option"

record subtitle_options =
  sn_grants :: "grant_options option"
  sn_secureProxy :: "bool option"
  sn_fallback :: "fallback_config option"
  sn_maxResults :: "int option"
  sn_releaseName :: "string option"

record ranked_subtitle =
  rs_url :: string
  rs_label :: string
  rs_format :: string
  rs_lang :: "string option"
  rs_hearingImpaired :: bool
  rs_score :: int
  rs_provenance :: string
  rs_origin :: sub_origin

datatype sub_source = SourceAddons | SourceFallback | SourceMixed

record subtitle_result =
  sb_subtitles :: "ranked_subtitle list"
  sb_addonsQueried :: nat
  sb_source :: sub_source
  sb_fallbackUsed :: bool
  sb_error :: "string option"

definition is_series :: "subtitle_query \<Rightarrow> bool" where
  "is_series q \<longleftrightarrow> su_season q \<noteq> None \<and> su_episode q \<noteq> None"

definition query_kind :: "subtitle_query \<Rightarrow> omss_type" where
  "query_kind q = (if is_series q then Tv else Movie)"

definition query_suffix :: "subtitle_query \<Rightarrow> string" where
  "query_suffix q =
     (case (su_season q, su_episode q) of
        (Some s, Some e) \<Rightarrow> '':'' @ show_int s @ '':'' @ show_int e
      | _ \<Rightarrow> [])"

definition subtitles_error :: "string \<Rightarrow> subtitle_result" where
  "subtitles_error msg = \<lparr>sb_subtitles = [], sb_addonsQueried = 0, sb_source = SourceAddons, sb_fallbackUsed = False, sb_error = Some msg\<rparr>"

definition tmdb_capable :: "installed_addon \<Rightarrow> bool" where
  "tmdb_capable a =
     (case ia_capabilities a of
        None \<Rightarrow> False
      | Some c \<Rightarrow> list_ex (\<lambda>e. list_ex (\<lambda>p. starts_with p ''tmdb'') (ce_idPrefixes e)) (cp_subtitles c))"

text \<open>The id the addons are asked for: an error that is thrown, an answer with an error, or the id with the IMDb id.\<close>

datatype id_choice = IdThrow mi_error | IdAnswer string | IdFound string string

definition no_id_text :: string where
  "no_id_text = ''Could not resolve an IMDb id (provide imdbId, or tmdbId with a TMDB key)''"

definition id_of_imdb :: "subtitle_query \<Rightarrow> string \<Rightarrow> id_choice" where
  "id_of_imdb q imdb = (if imdb = [] then IdAnswer no_id_text else IdFound (imdb @ query_suffix q) imdb)"

definition id_of_identity :: "subtitle_query \<Rightarrow> installed_addon list \<Rightarrow> mi_error + media_object \<Rightarrow> id_choice" where
  "id_of_identity q capable res =
     (case res of
        Inr md \<Rightarrow>
          (let imdb = (if mo_imdbId md \<noteq> [] then normalizeImdb (mo_imdbId md) else []) in
           if imdb = [] \<and> list_ex tmdb_capable capable
           then IdFound (''tmdb:'' @ or_else (su_tmdbId q) [] @ query_suffix q) []
           else id_of_imdb q imdb)
      | Inl err \<Rightarrow>
          if mi_code err \<in> {MiTimeout, MiAborted, MiInvalidId, MiInvalidEpisode} then IdThrow err
          else if mi_code err = MiNotFound then IdAnswer (mi_message err)
          else id_of_imdb q [])"

text \<open>The surroundings of a request; \<open>sv_identity\<close> is what the identity service does when it is asked.\<close>

record subtitle_env =
  sv_lib :: client_lib
  sv_url :: url_lib
  sv_policy :: url_options
  sv_attempts :: "nat \<Rightarrow> attempt"
  sv_aborted :: bool
  sv_gone :: "nat \<Rightarrow> bool"
  sv_fallbackGone :: bool
  sv_signal :: bool
  sv_pool :: "js_error option"
  sv_fetch :: fetch_env
  sv_source :: source_env
  sv_linkNow :: time_ms
  sv_linkId :: "string \<Rightarrow> string"
  sv_identity :: "omss_type \<Rightarrow> string \<Rightarrow> int option \<Rightarrow> int option \<Rightarrow> media_cache \<Rightarrow> (mi_error + media_object \<times> bool) \<times> media_cache"
  sv_json_url :: "string \<Rightarrow> string"

record subtitle_world =
  sx_reg :: registry
  sx_grants :: grant_map
  sx_media :: media_cache

definition choose_id :: "subtitle_env \<Rightarrow> subtitle_query \<Rightarrow> installed_addon list \<Rightarrow> media_cache \<Rightarrow> id_choice \<times> media_cache" where
  "choose_id V q capable m =
     (let imdb = (if or_else (su_imdbId q) [] \<noteq> [] then normalizeImdb (or_else (su_imdbId q) []) else []) in
      if imdb = [] \<and> or_else (su_tmdbId q) [] \<noteq> [] then
        (case sv_identity V (query_kind q) (or_else (su_tmdbId q) []) (su_season q) (su_episode q) m of
           (res, m1) \<Rightarrow> (id_of_identity q capable (buildProgressiveMedia res), m1))
      else (id_of_imdb q imdb, m))"

definition rank_context :: "subtitle_query \<Rightarrow> subtitle_options \<Rightarrow> query_context" where
  "rank_context q op =
     \<lparr>qc_language = su_language q, qc_season = su_season q, qc_episode = su_episode q, qc_releaseName = sn_releaseName op,
      qc_preferNonHi = False\<rparr>"

definition fallback_lang :: "subtitle_query \<Rightarrow> string option" where
  "fallback_lang q =
     (let l = or_else (su_language q) [] in
      if l = [] then None else if normalizeLanguageTag (Some l) \<noteq> [] then Some (normalizeLanguageTag (Some l)) else Some l)"

definition rank_for :: "subtitle_query \<Rightarrow> subtitle_options \<Rightarrow> json collected list \<Rightarrow> ranked_entry list option" where
  "rank_for q op cs = rank_items (rank_context q op) (su_hearingImpaired q) (Some (or_else (sn_maxResults op) 50)) cs"

text \<open>The fallback, asked when nothing is ranked; the flag is \<open>fallbackUsed\<close>.\<close>

definition with_fallback ::
  "subtitle_env \<Rightarrow> subtitle_query \<Rightarrow> subtitle_options \<Rightarrow> string \<Rightarrow> ranked_entry list \<Rightarrow> (ranked_entry list \<times> bool) option" where
  "with_fallback V q op imdb ranked =
     (case sn_fallback op of
        None \<Rightarrow> Some (ranked, False)
      | Some F \<Rightarrow>
          if ranked \<noteq> [] \<or> \<not> fc_enabled F \<or> or_else (fc_template F) [] = [] \<or> sv_fallbackGone V then Some (ranked, False)
          else case fetchFallbackSubtitles (sv_lib V) (sv_fetch V) F (sv_signal V)
                 \<lparr>fv_imdbId = (if imdb = [] then None else Some imdb), fv_lang = fallback_lang q, fv_season = su_season q,
                  fv_episode = su_episode q\<rparr> of
            None \<Rightarrow> Some (ranked, False)
          | Some (subs, provider) \<Rightarrow>
              if subs = [] then Some (ranked, False)
              else map_option (\<lambda>rs. (rs, True))
                (rank_for q op (map (\<lambda>s. \<lparr>co_sub = s, co_providerId = provider, co_origin = FromFallback\<rparr>) subs)))"

subsection \<open>Links\<close>

definition entry_label :: "ranked_entry \<Rightarrow> string" where
  "entry_label r =
     (let s = co_sub (re_collected r); l = sc_lang (re_scored r) in
      if l \<noteq> [] then describeLanguage l
      else if ss_lang s \<noteq> [] then ss_lang s else if or_else (ss_id s) [] \<noteq> [] then or_else (ss_id s) [] else ''Unknown'')"

definition linked_entry :: "ranked_entry \<Rightarrow> string \<Rightarrow> ranked_subtitle" where
  "linked_entry r url =
     \<lparr>rs_url = url, rs_label = entry_label r,
      rs_format = inferSubtitleFormat (entry_url r) (ss_format (co_sub (re_collected r))),
      rs_lang = (if sc_lang (re_scored r) \<noteq> [] then Some (sc_lang (re_scored r)) else None),
      rs_hearingImpaired = sc_hearingImpaired (re_scored r), rs_score = sc_score (re_scored r),
      rs_provenance = co_providerId (re_collected r), rs_origin = co_origin (re_collected r)\<rparr>"

definition uses_subtitle_grants :: "subtitle_options \<Rightarrow> bool" where
  "uses_subtitle_grants op \<longleftrightarrow> sn_secureProxy op \<noteq> Some False \<and> sn_grants op \<noteq> None"

definition subtitle_link ::
  "subtitle_env \<Rightarrow> subtitle_options \<Rightarrow> string \<Rightarrow> string \<Rightarrow> string \<Rightarrow> grant_map \<Rightarrow> string option \<times> grant_map" where
  "subtitle_link V op base url pid m =
     (case sn_grants op of
        Some gop \<Rightarrow>
          if uses_subtitle_grants op then
            (case issue_grant (map_option parsed_url.truncate \<circ> ul_parse (se_url (sv_source V))) (se_href (sv_source V))
                    (se_isProd (sv_source V)) gop (se_lookup (sv_source V)) (sv_linkNow V) (sv_linkId V url)
                    (grant_input url None pid) m of
               (Inl e, m1) \<Rightarrow> (None, m1)
             | (Inr g, m1) \<Rightarrow> (Some (toProxyUrl g base), m1))
          else (Some (base @ ''/v1/proxy?data='' @ encodeURIComponent (sv_json_url V url)), m)
      | None \<Rightarrow> (Some (base @ ''/v1/proxy?data='' @ encodeURIComponent (sv_json_url V url)), m))"

fun link_entries ::
  "subtitle_env \<Rightarrow> subtitle_options \<Rightarrow> string \<Rightarrow> ranked_entry list \<Rightarrow> grant_map \<Rightarrow> ranked_subtitle list \<times> grant_map" where
  "link_entries V op base [] m = ([], m)"
| "link_entries V op base (r # rs) m =
     (case subtitle_link V op base (entry_url r) (co_providerId (re_collected r)) m of
        (link, m1) \<Rightarrow>
          (case link_entries V op base rs m1 of
             (out, m2) \<Rightarrow> ((case link of None \<Rightarrow> [] | Some url \<Rightarrow> [linked_entry r url]) @ out, m2)))"

definition source_of :: "ranked_subtitle list \<Rightarrow> sub_source" where
  "source_of out =
     (if list_ex (\<lambda>s. rs_origin s = FromFallback) out
      then (if list_ex (\<lambda>s. rs_origin s = FromAddon) out then SourceMixed else SourceFallback)
      else SourceAddons)"

definition null_subtitle_error :: js_error where
  "null_subtitle_error = \<lparr>je_name = Some ''TypeError'', je_code = None,
     je_message = Some (''Cannot read properties of null (reading '' @ [CHR 0x27] @ ''lang'' @ [CHR 0x27] @ '')''),
     je_status = None\<rparr>"

datatype aggregate_end = AgIdentity mi_error | AgThrown js_error | AgAnswer subtitle_result

definition collected_answer ::
  "subtitle_env \<Rightarrow> subtitle_query \<Rightarrow> subtitle_options \<Rightarrow> string \<Rightarrow> string \<Rightarrow> nat \<Rightarrow> json collected list \<Rightarrow> grant_map \<Rightarrow>
     aggregate_end \<times> grant_map" where
  "collected_answer V q op base imdb queried cs g =
     (case rank_for q op cs of
        None \<Rightarrow> (AgThrown null_subtitle_error, g)
      | Some ranked \<Rightarrow>
          (case with_fallback V q op imdb ranked of
             None \<Rightarrow> (AgThrown null_subtitle_error, g)
           | Some (entries, used) \<Rightarrow>
               (case link_entries V op base entries g of
                  (out, g1) \<Rightarrow>
                    (AgAnswer \<lparr>sb_subtitles = out, sb_addonsQueried = queried, sb_source = source_of out,
                       sb_fallbackUsed = used, sb_error = None\<rparr>, g1))))"

definition aggregateSubtitles ::
  "subtitle_env \<Rightarrow> installed_addon list \<Rightarrow> string \<Rightarrow> subtitle_query \<Rightarrow> subtitle_options \<Rightarrow> subtitle_world \<Rightarrow>
     aggregate_end \<times> subtitle_world" where
  "aggregateSubtitles V capable publicUrl q op w =
     (case choose_id V q capable (sx_media w) of
        (IdThrow err, m) \<Rightarrow> (AgIdentity err, w\<lparr>sx_media := m\<rparr>)
      | (IdAnswer msg, m) \<Rightarrow> (AgAnswer (subtitles_error msg), w\<lparr>sx_media := m\<rparr>)
      | (IdFound i imdb, m) \<Rightarrow>
          (case sv_pool V of
             Some err \<Rightarrow> (AgThrown err, w\<lparr>sx_media := m\<rparr>)
           | None \<Rightarrow>
               (case collectForId (sv_lib V) (sv_url V) (sv_policy V) (sv_attempts V) (sv_aborted V) (sv_gone V)
                       (if is_series q then ''series'' else ''movie'') i capable (sx_reg w) of
                  (Inl err, r) \<Rightarrow> (AgThrown err, w\<lparr>sx_media := m, sx_reg := r\<rparr>)
                | (Inr cs, r) \<Rightarrow>
                    (case collected_answer V q op (strip_slash publicUrl) imdb (length capable) cs (sx_grants w) of
                       (res, g) \<Rightarrow> (res, \<lparr>sx_reg = r, sx_grants = g, sx_media = m\<rparr>)))))"

end
