(* ===== verification/SubtitleFacts.thy ===== *)
theory SubtitleFacts
  imports Subtitles
begin

text \<open>
  What the subtitle service promises: the ranking is sorted, without duplicates, bounded, strict about accessibility
  and complete; the links handed out are behind grants; and where the code departs from its comments.
\<close>

subsection \<open>The ranking\<close>

definition score_of :: "ranked_entry \<Rightarrow> int" where
  "score_of r = sc_score (re_scored r)"

definition playable_entry :: "ranked_entry \<Rightarrow> bool" where
  "playable_entry r \<longleftrightarrow> rx_test http_prefix (entry_url r)"

lemma take_ranked_sub: "set (take_ranked limit n seen rs) \<subseteq> set rs"
  by (induction limit n seen rs rule: take_ranked.induct) auto

lemma take_ranked_urls:
  "distinct (map entry_url (take_ranked limit n seen rs)) \<and> list_all playable_entry (take_ranked limit n seen rs) \<and>
     list_all (\<lambda>r. entry_url r \<notin> set seen) (take_ranked limit n seen rs)"
proof (induction limit n seen rs rule: take_ranked.induct)
  case (2 limit n seen r rs)
  show ?case
  proof (cases "\<not> rx_test http_prefix (entry_url r) \<or> entry_url r \<in> set seen")
    case True
    then show ?thesis using "2.IH"(1) by simp
  next
    case taken: False
    show ?thesis
    proof (cases "limit \<le> int (Suc n)")
      case True
      then show ?thesis using taken by (simp add: playable_entry_def)
    next
      case False
      then show ?thesis
        using "2.IH"(2) [OF taken False] taken by (auto simp: playable_entry_def list_all_iff)
    qed
  qed
qed simp

lemma take_ranked_length: "int n < limit \<Longrightarrow> int n + int (length (take_ranked limit n seen rs)) \<le> limit"
proof (induction limit n seen rs rule: take_ranked.induct)
  case (2 limit n seen r rs)
  then show ?case by (cases "limit \<le> int (Suc n)") auto
qed simp

lemma take_ranked_sorted:
  "sorted_wrt (\<lambda>a b. score_of b \<le> score_of a) rs \<Longrightarrow> sorted_wrt (\<lambda>a b. score_of b \<le> score_of a) (take_ranked limit n seen rs)"
proof (induction limit n seen rs rule: take_ranked.induct)
  case (2 limit n seen r rs)
  then show ?case
    using take_ranked_sub [of limit "Suc n" "entry_url r # seen" rs] by (simp add: subset_eq)
qed simp

text \<open>An entry that could be taken has its URL among the results, at its best score, unless the results are full of better ones.\<close>

lemma take_ranked_complete:
  "sorted_wrt (\<lambda>a b. score_of b \<le> score_of a) rs \<Longrightarrow> x \<in> set rs \<Longrightarrow> playable_entry x \<Longrightarrow> entry_url x \<notin> set seen \<Longrightarrow>
     (\<exists>y \<in> set (take_ranked limit n seen rs). entry_url y = entry_url x \<and> score_of x \<le> score_of y) \<or>
     limit \<le> int n + int (length (take_ranked limit n seen rs)) \<and>
       (\<forall>y \<in> set (take_ranked limit n seen rs). score_of x \<le> score_of y)"
proof (induction limit n seen rs rule: take_ranked.induct)
  case (2 limit n seen r rs)
  show ?case
  proof (cases "\<not> rx_test http_prefix (entry_url r) \<or> entry_url r \<in> set seen")
    case True
    then have "x \<in> set rs" using "2.prems" by (auto simp: playable_entry_def)
    then show ?thesis using 2 True by auto
  next
    case take: False
    show ?thesis
    proof (cases "entry_url x = entry_url r")
      case True
      have "score_of x \<le> score_of r" using "2.prems" by auto
      then show ?thesis using take True by auto
    next
      case url: False
      have x: "x \<in> set rs" using "2.prems" url by auto
      have le: "score_of x \<le> score_of r" using "2.prems" x by simp
      show ?thesis
      proof (cases "limit \<le> int (Suc n)")
        case True
        then show ?thesis using take le by auto
      next
        case room: False
        then show ?thesis
          using "2.IH"(2) [OF take room _ x] "2.prems" url le take by auto
      qed
    qed
  qed
qed simp

lemma sorted_entries_sorted: "sorted_wrt (\<lambda>a b. score_of b \<le> score_of a) (sorted_entries q p cs)"
proof -
  have "sorted (map (\<lambda>r. - sc_score (re_scored r)) (sorted_entries q p cs))" by (simp add: sorted_entries_def)
  then show ?thesis by (simp add: sorted_map score_of_def)
qed

lemma sorted_entries_set:
  "set (sorted_entries q p cs) = {r. \<exists>c \<in> set (language_candidates q cs). r = rank_entry q c \<and> hi_wanted p r}"
  by (auto simp: sorted_entries_def)


definition demo_candidate :: "string \<Rightarrow> string \<Rightarrow> full_subtitle collected" where
  "demo_candidate url lang =
     \<lparr>co_sub = \<lparr>ss_id = None, ss_url = url, ss_lang = lang, ss_format = None, fs_extra = False, fs_hi = False\<rparr>,
      co_providerId = ''addon:a'', co_origin = FromAddon\<rparr>"

definition demo_context :: query_context where
  "demo_context = \<lparr>qc_language = Some ''en'', qc_season = None, qc_episode = None, qc_releaseName = None, qc_preferNonHi = False\<rparr>"


subsection \<open>Links\<close>

lemma subtitle_link_granted:
  assumes "sn_grants op = Some gop" "sn_secureProxy op \<noteq> Some False" "subtitle_link V op base url pid m = (Some link, m1)"
  shows "\<exists>g. link = toProxyUrl g base \<and> jm_get m1 (gc_id g) = Some g \<and> gc_providerId g = Some pid"
  using assms
  by (auto simp: subtitle_link_def uses_subtitle_grants_def issue_grant_def Let_def new_grant_def grant_input_def
      split: sum.splits prod.splits if_splits)

lemma link_entries_granted:
  assumes "sn_grants op = Some gop" "sn_secureProxy op \<noteq> Some False"
  shows "list_all (\<lambda>s. \<exists>g. rs_url s = toProxyUrl g base \<and> gc_providerId g = Some (rs_provenance s))
    (fst (link_entries V op base rs m))"
proof (induction rs arbitrary: m)
  case (Cons r rs)
  obtain link m1 where l: "subtitle_link V op base (entry_url r) (co_providerId (re_collected r)) m = (link, m1)"
    by (metis surj_pair)
  obtain out m2 where o: "link_entries V op base rs m1 = (out, m2)" by (metis surj_pair)
  show ?case
    using Cons.IH [of m1] subtitle_link_granted [OF assms, of V base "entry_url r" "co_providerId (re_collected r)" m _ m1]
    by (cases link) (auto simp: l o linked_entry_def)
qed simp

subsection \<open>What the code does not promise\<close>

text \<open>A limit of 0 still gives a subtitle, since the cap is compared after one is added.\<close>

lemma zero_limit_gives_one:
  "playable_entry r \<Longrightarrow> take_ranked 0 0 [] (r # rs) = [r]"
  by (simp add: playable_entry_def)

text \<open>One \<open>null\<close> in the answer of one addon makes the whole request fail, whatever the other addons answered.\<close>

lemma null_item_fails_request:
  "co_sub c = JNull \<Longrightarrow> c \<in> set cs \<Longrightarrow> fst (collected_answer V q op base imdb n cs g) = AgThrown null_subtitle_error"
  by (auto simp: collected_answer_def rank_for_def rank_items_def list_ex_iff split: option.splits)

text \<open>
  By default a track for the hearing impaired scores ten points more than the same track without the mark: the comment
  gives the points to the others, and the request never sets the preference that would take them away.
\<close>

lemma hearing_impaired_preferred:
  "detectHearingImpaired s \<Longrightarrow> fst (hi_score (rank_context q op) s) = 10"
  "\<not> detectHearingImpaired s \<Longrightarrow> fst (hi_score (rank_context q op) s) = 0"
  by (simp_all add: hi_score_def rank_context_def)

text \<open>A tag that names an inherited property of the tables is displayed as the text of a native function.\<close>

lemma inherited_language_name: "normalizeLanguageTag (Some ''constructor'') = native_object"
  by code_simp

end
