(* ===== verification/Auth.thy ===== *)
theory Auth
  imports Numbers Codec UrlPolicy Redaction RateLimit
begin

text \<open>
  Authentication of management requests: \<open>src/security/auth.ts\<close>, \<open>src/security/csrf.ts\<close> and
  \<open>src/routes/auth.ts\<close>. Trusted peers, static tokens, service tokens, session cookies, the role guard
  and the login, logout and identity routes. HMAC-SHA256 and \<open>JSON\<close> on the claims are arguments.
\<close>

subsection \<open>Peers\<close>

text \<open>\<open>ipToInt\<close>: the unsigned shifts make it a 32-bit word.\<close>

definition ip_part :: "string \<Rightarrow> nat option" where
  "ip_part t =
     (case js_number t of
        None \<Rightarrow> None
      | Some n \<Rightarrow> if n = of_int \<lfloor>n\<rfloor> \<and> 0 \<le> n \<and> n \<le> 255 then Some (nat \<lfloor>n\<rfloor>) else None)"

definition word_of_parts :: "nat \<Rightarrow> nat \<Rightarrow> nat \<Rightarrow> nat \<Rightarrow> 32 word" where
  "word_of_parts a b c d =
     push_bit 24 (word_of_nat a) + push_bit 16 (word_of_nat b) + push_bit 8 (word_of_nat c) + word_of_nat d"

definition ipToInt :: "string \<Rightarrow> 32 word option" where
  "ipToInt ip =
     (case map ip_part (split_on CHR ''.'' ip) of
        [Some a, Some b, Some c, Some d] \<Rightarrow> Some (word_of_parts a b c d)
      | _ \<Rightarrow> None)"

text \<open>A shift distance is truncated to an integer. With the distance 0 the mask is all ones, as for 32 bits.\<close>

definition cidr_mask :: "rat \<Rightarrow> 32 word" where
  "cidr_mask bits = not (push_bit (nat \<lfloor>32 - bits\<rfloor>) 1 - 1)"

definition isIpInCidr :: "string \<Rightarrow> string \<Rightarrow> bool" where
  "isIpInCidr ip cidr =
     (case find_index (\<lambda>c. c = CHR ''/'') cidr of
        None \<Rightarrow> to_lower ip = to_lower cidr
      | Some slash \<Rightarrow>
          (case js_number (trim (drop (Suc slash) cidr)) of
             None \<Rightarrow> False
           | Some bits \<Rightarrow>
               if bits < 0 \<or> 32 < bits then False
               else case (ipToInt ip, ipToInt (trim (take slash cidr))) of
                 (Some a, Some b) \<Rightarrow> bits = 0 \<or> and a (cidr_mask bits) = and b (cidr_mask bits)
               | _ \<Rightarrow> False))"

definition last_index :: "char \<Rightarrow> string \<Rightarrow> nat option" where
  "last_index c s = (case find_index (\<lambda>x. x = c) (rev s) of None \<Rightarrow> None | Some k \<Rightarrow> Some (length s - Suc k))"

definition drop_port :: "string \<Rightarrow> string" where
  "drop_port s =
     (case last_index CHR '':'' s of
        None \<Rightarrow> s
      | Some colon \<Rightarrow>
          if find_index (\<lambda>x. x = CHR '':'') s = Some colon \<and> digits_text (drop (Suc colon) s) then take colon s else s)"

definition unmapped :: "string \<Rightarrow> string" where
  "unmapped s = (if starts_with s ''::ffff:'' then drop 7 s else s)"

text \<open>The address inside brackets; \<open>None\<close> for an IPv6 text without them.\<close>

definition bare_host :: "string \<Rightarrow> string option" where
  "bare_host s =
     (if starts_with s ''['' then
        (case find_index (\<lambda>c. c = CHR '']'') s of None \<Rightarrow> Some s | Some close \<Rightarrow> Some (drop 1 (take close s)))
      else if CHR '':'' \<in> set s \<and> CHR ''.'' \<notin> set s then None else Some s)"

definition normalizePeerIp :: "string option \<Rightarrow> string option" where
  "normalizePeerIp raw =
     (case raw of
        None \<Rightarrow> None
      | Some r \<Rightarrow>
          if r = [] then None
          else case bare_host (unmapped (trim r)) of
            None \<Rightarrow> None
          | Some h \<Rightarrow>
              (let s = drop_port h in
               if isIP s = 0 then None else if s = ''::1'' then Some ''127.0.0.1'' else Some s))"

definition peer_matches :: "string \<Rightarrow> string \<Rightarrow> bool" where
  "peer_matches normalized cidr =
     (let c = trim cidr in
      if c = [] then False
      else if c = ''127.0.0.1'' \<or> c = ''localhost'' then normalized = ''127.0.0.1''
      else isIpInCidr normalized c \<or> to_lower normalized = to_lower c)"

definition isTrustedPeer :: "string option \<Rightarrow> string list \<Rightarrow> bool" where
  "isTrustedPeer peerIp cidrs =
     (case normalizePeerIp peerIp of None \<Rightarrow> False | Some n \<Rightarrow> list_ex (peer_matches n) cidrs)"

subsection \<open>Requests\<close>

text \<open>
  What the code reads of a request; header names are in lower case. \<open>hr_socketIp\<close> is
  \<open>request.socket.remoteAddress\<close>, \<open>hr_cookies\<close> what the first hook of \<open>HttpSecurity\<close> attached.
\<close>

record http_request =
  hr_id :: string
  hr_method :: string
  hr_url :: string
  hr_headers :: "(string, header_value) jsmap"
  hr_query :: "(string \<times> json) list"
  hr_socketIp :: "string option"
  hr_ip :: "string option"
  hr_cookies :: "(string, string) jsmap"

datatype auth_mode = AmDisabled | AmStaticToken | AmReverseProxy | AmServiceJwt | AmOidc

fun auth_mode_name :: "auth_mode \<Rightarrow> string" where
  "auth_mode_name AmDisabled = ''disabled''"
| "auth_mode_name AmStaticToken = ''static-token''"
| "auth_mode_name AmReverseProxy = ''reverse-proxy''"
| "auth_mode_name AmServiceJwt = ''service-jwt''"
| "auth_mode_name AmOidc = ''oidc''"

text \<open>The part of \<open>AppConfig\<close> read here and by \<open>HttpSecurity\<close>.\<close>

record auth_config =
  ac_nodeEnv :: string
  ac_publicUrl :: "string option"
  ac_authMode :: auth_mode
  ac_adminToken :: "string option"
  ac_adminTokenRole :: string
  ac_authSessionSecret :: "string option"
  ac_serviceJwtSecret :: "string option"
  ac_proxyUserHeader :: string
  ac_proxyRoleHeader :: string
  ac_trustedProxyCidrs :: "string list"
  ac_sessionTtlSec :: "int option"
  ac_corsOrigin :: string
  ac_csrfEnabled :: bool
  ac_maxQueryLength :: int
  ac_maxHeaderBytes :: int
  ac_maxBodyBytes :: int
  ac_maxJsonDepth :: int

datatype auth_method = MethodNone | MethodStaticToken | MethodReverseProxy | MethodServiceJwt | MethodSession

record auth_actor =
  aa_id :: string
  aa_role :: string
  aa_method :: auth_method
  aa_ip :: "string option"

definition ROLE_RANK :: "string \<Rightarrow> nat option" where
  "ROLE_RANK r =
     (if r = ''viewer'' then Some 1 else if r = ''operator'' then Some 2 else if r = ''admin'' then Some 3 else None)"

definition roleAtLeast :: "string \<Rightarrow> string \<Rightarrow> bool" where
  "roleAtLeast have need = (case (ROLE_RANK have, ROLE_RANK need) of (Some a, Some b) \<Rightarrow> b \<le> a | _ \<Rightarrow> False)"

definition parseRole :: "string option \<Rightarrow> string \<Rightarrow> string" where
  "parseRole raw fallback =
     (let v = to_lower (trim (or_else raw [])) in if v \<in> {''viewer'', ''operator'', ''admin''} then v else fallback)"

definition strip_mapped :: "string option \<Rightarrow> string option" where
  "strip_mapped ip = map_option unmapped ip"

definition clientIp :: "http_request \<Rightarrow> string option" where
  "clientIp rq = (case strip_mapped (hr_socketIp rq) of Some ip \<Rightarrow> Some ip | None \<Rightarrow> hr_ip rq)"

definition first_entry :: "string \<Rightarrow> string" where
  "first_entry s = trim (hd (split_on CHR '','' s))"

definition getRateLimitIp :: "http_request \<Rightarrow> string list \<Rightarrow> string option" where
  "getRateLimitIp rq cidrs =
     (let peer = (case hr_socketIp rq of Some ip \<Rightarrow> Some ip | None \<Rightarrow> hr_ip rq) in
      if cidrs = [] then clientIp rq
      else if isTrustedPeer peer cidrs then
        (case jm_get (hr_headers rq) ''x-forwarded-for'' of
           Some (HOne xf) \<Rightarrow> if xf \<noteq> [] then Some (first_entry xf) else clientIp rq
         | Some (HMany (xf # _)) \<Rightarrow> if xf \<noteq> [] then Some (first_entry xf) else clientIp rq
         | _ \<Rightarrow> clientIp rq)
      else clientIp rq)"

definition headerValue :: "http_request \<Rightarrow> string \<Rightarrow> string option" where
  "headerValue rq name =
     (case jm_get (hr_headers rq) (to_lower name) of
        Some (HOne v) \<Rightarrow> Some v
      | Some (HMany (v # _)) \<Rightarrow> Some v
      | _ \<Rightarrow> None)"

text \<open>The buffers have the same bytes exactly when the texts are the same.\<close>

definition safeEqual :: "string \<Rightarrow> string \<Rightarrow> bool" where
  "safeEqual a b \<longleftrightarrow> length a = length b \<and> a = b"

definition bearer_rx :: rx where
  "bearer_rx = whole (Seq (lit_ci ''Bearer'') (Seq (rx_plus rx_space) (Group 1 (rx_plus (none_of [CHR 0x0A, CHR 0x0D])))))"

definition extractBearer :: "http_request \<Rightarrow> string option" where
  "extractBearer rq =
     (case headerValue rq ''authorization'' of
        None \<Rightarrow> None
      | Some auth \<Rightarrow>
          if auth = [] then None
          else map_option (\<lambda>k. trim (cap k 1)) (rx_match bearer_rx auth))"

text \<open>\<open>a || b\<close> on texts.\<close>

definition first_text :: "string option \<Rightarrow> string option \<Rightarrow> string option" where
  "first_text a b = (if or_else a [] \<noteq> [] then a else b)"

definition truthy_text :: "string option \<Rightarrow> string option" where
  "truthy_text a = (if or_else a [] \<noteq> [] then a else None)"

definition extractStaticToken :: "http_request \<Rightarrow> string option" where
  "extractStaticToken rq = truthy_text (first_text (headerValue rq ''x-admin-token'') (extractBearer rq))"

subsection \<open>Tokens\<close>

record token_claims =
  tk_sub :: string
  tk_role :: string
  tk_iat :: int
  tk_exp :: int

text \<open>\<open>ak_mac secret\<close> is HMAC-SHA256, \<open>ak_enc\<close> and \<open>ak_dec\<close> are \<open>JSON\<close> on claims; no claims are \<open>None\<close>.\<close>

record auth_crypto =
  ak_mac :: "string \<Rightarrow> string \<Rightarrow> string"
  ak_enc :: "token_claims \<Rightarrow> string"
  ak_dec :: "string \<Rightarrow> token_claims option"

definition signature :: "auth_crypto \<Rightarrow> string \<Rightarrow> string \<Rightarrow> string" where
  "signature K secret t = b64url_encode (ak_mac K secret t)"

definition JWT_HEADER :: string where
  "JWT_HEADER = b64url_encode ''{\"alg\":\"HS256\",\"typ\":\"JWT\"}''"

definition new_claims :: "string \<Rightarrow> string \<Rightarrow> int \<Rightarrow> time_ms \<Rightarrow> token_claims" where
  "new_claims sub role ttl now =
     \<lparr>tk_sub = sub, tk_role = role, tk_iat = now div 1000, tk_exp = now div 1000 + ttl\<rparr>"

definition signServiceJwt :: "auth_crypto \<Rightarrow> string \<Rightarrow> string \<Rightarrow> int option \<Rightarrow> time_ms \<Rightarrow> string \<Rightarrow> string" where
  "signServiceJwt K sub role ttlSec now secret =
     (let payload = b64url_encode (ak_enc K (new_claims sub role (or_else ttlSec 3600) now));
          body = JWT_HEADER @ ''.'' @ payload
      in body @ ''.'' @ signature K secret body)"

definition live_claims :: "time_ms \<Rightarrow> token_claims \<Rightarrow> bool" where
  "live_claims now c \<longleftrightarrow> tk_sub c \<noteq> [] \<and> tk_role c \<noteq> [] \<and> tk_exp c \<noteq> 0 \<and> now div 1000 \<le> tk_exp c"

definition verifyServiceJwt :: "auth_crypto \<Rightarrow> string \<Rightarrow> string \<Rightarrow> time_ms \<Rightarrow> token_claims option" where
  "verifyServiceJwt K token secret now =
     (case split_on CHR ''.'' token of
        [header, payload, sig] \<Rightarrow>
          if \<not> safeEqual sig (signature K secret (header @ ''.'' @ payload)) then None
          else (case ak_dec K (b64url_decode payload) of
                  None \<Rightarrow> None
                | Some c \<Rightarrow> if live_claims now c \<and> tk_role c \<in> {''viewer'', ''operator'', ''admin''} then Some c else None)
      | _ \<Rightarrow> None)"

definition signSession :: "auth_crypto \<Rightarrow> string \<Rightarrow> string \<Rightarrow> int option \<Rightarrow> time_ms \<Rightarrow> string \<Rightarrow> string \<times> time_ms" where
  "signSession K sub role ttlSec now secret =
     (let ttl = or_else ttlSec 28800;
          payload = b64url_encode (ak_enc K (new_claims sub role ttl now))
      in (payload @ ''.'' @ signature K secret payload, (now div 1000 + ttl) * 1000))"

definition verifySession :: "auth_crypto \<Rightarrow> string \<Rightarrow> string \<Rightarrow> time_ms \<Rightarrow> token_claims option" where
  "verifySession K token secret now =
     (case split_on CHR ''.'' token of
        [payload, sig] \<Rightarrow>
          if \<not> safeEqual sig (signature K secret payload) then None
          else (case ak_dec K (b64url_decode payload) of
                  None \<Rightarrow> None
                | Some c \<Rightarrow> if live_claims now c then Some c else None)
      | _ \<Rightarrow> None)"

definition SESSION_COOKIE :: string where
  "SESSION_COOKIE = ''addons_core_session''"

subsection \<open>The actor of a request\<close>

definition session_secret :: "auth_config \<Rightarrow> string option" where
  "session_secret cfg =
     truthy_text (first_text (ac_authSessionSecret cfg) (first_text (ac_adminToken cfg) (ac_serviceJwtSecret cfg)))"

definition session_actor :: "auth_crypto \<Rightarrow> auth_config \<Rightarrow> time_ms \<Rightarrow> http_request \<Rightarrow> auth_actor option" where
  "session_actor K cfg now rq =
     (case (session_secret cfg, truthy_text (jm_get (hr_cookies rq) SESSION_COOKIE)) of
        (Some secret, Some cookie) \<Rightarrow>
          map_option (\<lambda>c. \<lparr>aa_id = tk_sub c, aa_role = tk_role c, aa_method = MethodSession, aa_ip = clientIp rq\<rparr>)
            (verifySession K cookie secret now)
      | _ \<Rightarrow> None)"

definition static_actor :: "auth_config \<Rightarrow> http_request \<Rightarrow> auth_actor option" where
  "static_actor cfg rq =
     (case (extractStaticToken rq, truthy_text (ac_adminToken cfg)) of
        (Some provided, Some tok) \<Rightarrow>
          if safeEqual provided tok
          then Some \<lparr>aa_id = ''admin-token'', aa_role = ac_adminTokenRole cfg, aa_method = MethodStaticToken, aa_ip = clientIp rq\<rparr>
          else None
      | _ \<Rightarrow> None)"

definition proxy_peer :: "http_request \<Rightarrow> string option" where
  "proxy_peer rq = first_text (hr_socketIp rq) (first_text (hr_ip rq) (clientIp rq))"

definition default_text :: "string \<Rightarrow> string \<Rightarrow> string" where
  "default_text a d = (if a = [] then d else a)"

definition proxy_actor :: "auth_config \<Rightarrow> http_request \<Rightarrow> auth_actor option" where
  "proxy_actor cfg rq =
     (if \<not> isTrustedPeer (proxy_peer rq) (ac_trustedProxyCidrs cfg) then None
      else case truthy_text (headerValue rq (default_text (ac_proxyUserHeader cfg) ''x-forwarded-user'')) of
        None \<Rightarrow> None
      | Some user \<Rightarrow>
          Some \<lparr>aa_id = user,
            aa_role = parseRole (headerValue rq (default_text (ac_proxyRoleHeader cfg) ''x-forwarded-role'')) ''viewer'',
            aa_method = MethodReverseProxy, aa_ip = clientIp rq\<rparr>)"

definition jwt_actor :: "auth_crypto \<Rightarrow> auth_config \<Rightarrow> time_ms \<Rightarrow> http_request \<Rightarrow> auth_actor option" where
  "jwt_actor K cfg now rq =
     (case (truthy_text (first_text (extractBearer rq) (headerValue rq ''x-admin-token'')), truthy_text (ac_serviceJwtSecret cfg)) of
        (Some tok, Some secret) \<Rightarrow>
          map_option (\<lambda>c. \<lparr>aa_id = tk_sub c, aa_role = tk_role c, aa_method = MethodServiceJwt, aa_ip = clientIp rq\<rparr>)
            (verifyServiceJwt K tok secret now)
      | _ \<Rightarrow> None)"

definition resolveActor :: "auth_crypto \<Rightarrow> auth_config \<Rightarrow> time_ms \<Rightarrow> http_request \<Rightarrow> auth_actor option" where
  "resolveActor K cfg now rq =
     (if ac_authMode cfg = AmDisabled
      then Some \<lparr>aa_id = ''local-dev'', aa_role = ''admin'', aa_method = MethodNone, aa_ip = clientIp rq\<rparr>
      else case session_actor K cfg now rq of
        Some a \<Rightarrow> Some a
      | None \<Rightarrow>
          (case ac_authMode cfg of
             AmStaticToken \<Rightarrow> static_actor cfg rq
           | AmReverseProxy \<Rightarrow> proxy_actor cfg rq
           | AmServiceJwt \<Rightarrow> jwt_actor K cfg now rq
           | _ \<Rightarrow> None))"

subsection \<open>The guard\<close>

datatype guard_end = GuardRefused int string | GuardPassed "auth_actor option"

record guard_options =
  gd_role :: "string option"
  gd_required :: "bool option"

definition query_has :: "http_request \<Rightarrow> string \<Rightarrow> bool" where
  "query_has rq k \<longleftrightarrow> \<not> jnullish (jm_get (hr_query rq) k)"

definition token_in_query :: "http_request \<Rightarrow> bool" where
  "token_in_query rq \<longleftrightarrow> query_has rq ''token'' \<or> query_has rq ''adminToken'' \<or> query_has rq ''access_token''"

definition authGuard :: "auth_crypto \<Rightarrow> auth_config \<Rightarrow> guard_options \<Rightarrow> time_ms \<Rightarrow> http_request \<Rightarrow> guard_end" where
  "authGuard K cfg op now rq =
     (if token_in_query rq then GuardRefused 400 ''TOKEN_IN_QUERY_FORBIDDEN''
      else case resolveActor K cfg now rq of
        None \<Rightarrow> if gd_required op = Some False then GuardPassed None else GuardRefused 401 ''UNAUTHORIZED''
      | Some a \<Rightarrow>
          if \<not> roleAtLeast (aa_role a) (or_else (gd_role op) ''admin'') then GuardRefused 403 ''FORBIDDEN''
          else GuardPassed (Some a))"

definition adminGuard :: "auth_crypto \<Rightarrow> auth_config \<Rightarrow> time_ms \<Rightarrow> http_request \<Rightarrow> guard_end" where
  "adminGuard K cfg = authGuard K cfg \<lparr>gd_role = Some ''admin'', gd_required = None\<rparr>"

definition generateAdminToken :: "string \<Rightarrow> string" where
  "generateAdminToken bytes = b64url_encode bytes"

subsection \<open>Address ranges\<close>

definition dotted_quad :: "32 word \<Rightarrow> string" where
  "dotted_quad w = join_with ''.'' (map (\<lambda>k. show_nat (unat (take_bit 8 (drop_bit k w)))) [24, 16, 8, 0])"

lemma octet_small: "unat (take_bit 8 (w :: 32 word)) \<le> 255"
proof -
  have "unat (take_bit 8 w) = take_bit 8 (unat w)" by (rule unsigned_take_bit_eq)
  then show ?thesis using take_bit_nat_less_exp [of 8 "unat w"] by simp
qed

lemma word_of_octets:
  "word_of_parts (unat (take_bit 8 (drop_bit 24 w))) (unat (take_bit 8 (drop_bit 16 w)))
     (unat (take_bit 8 (drop_bit 8 w))) (unat (take_bit 8 (w :: 32 word))) = w"
proof -
  have "take_bit 8 (drop_bit 24 w) = drop_bit 24 w"
    by (rule bit_word_eqI) (auto simp: bit_take_bit_iff bit_drop_bit_eq dest: bit_imp_le_length)
  moreover have "push_bit 24 (drop_bit 24 w) + push_bit 16 (take_bit 8 (drop_bit 16 w)) + push_bit 8 (take_bit 8 (drop_bit 8 w)) +
      take_bit 8 w = w"
  proof -
    have disj: "and (push_bit 24 (drop_bit 24 w)) (push_bit 16 (take_bit 8 (drop_bit 16 w))) = 0"
      "and (or (push_bit 24 (drop_bit 24 w)) (push_bit 16 (take_bit 8 (drop_bit 16 w)))) (push_bit 8 (take_bit 8 (drop_bit 8 w))) = 0"
      "and (or (or (push_bit 24 (drop_bit 24 w)) (push_bit 16 (take_bit 8 (drop_bit 16 w)))) (push_bit 8 (take_bit 8 (drop_bit 8 w))))
         (take_bit 8 w) = 0"
      by (auto intro!: bit_word_eqI simp: bit_simps)
    have "or (or (or (push_bit 24 (drop_bit 24 w)) (push_bit 16 (take_bit 8 (drop_bit 16 w)))) (push_bit 8 (take_bit 8 (drop_bit 8 w))))
        (take_bit 8 w) = w"
    proof (rule bit_word_eqI)
      fix n :: nat
      have "n < 8 \<or> 8 \<le> n \<and> n < 16 \<or> 16 \<le> n \<and> n < 24 \<or> 24 \<le> n" by arith
      then show "bit (or (or (or (push_bit 24 (drop_bit 24 w)) (push_bit 16 (take_bit 8 (drop_bit 16 w))))
          (push_bit 8 (take_bit 8 (drop_bit 8 w)))) (take_bit 8 w)) n = bit w n"
        by (elim disjE conjE) (auto simp: bit_simps dest: bit_imp_le_length)
    qed
    then show ?thesis using disj by (simp add: disjunctive_add_eq_or)
  qed
  ultimately show ?thesis by (simp add: word_of_parts_def)
qed

lemma ip_part_show: "n \<le> 255 \<Longrightarrow> ip_part (show_nat n) = Some n"
  using js_number_show [of n] by (simp add: ip_part_def)

lemma show_nat_no: "\<not> is_digit c \<Longrightarrow> c \<notin> set (show_nat n)"
  using show_nat_char by blast

lemma no_dot_slash: "\<not> is_digit CHR ''.''" "\<not> is_digit CHR ''/''"
  by (simp_all add: is_digit_def)

lemma ipToInt_dotted: "ipToInt (dotted_quad w) = Some w"
proof -
  have "split_on CHR ''.'' (dotted_quad w) = map (\<lambda>k. show_nat (unat (take_bit 8 (drop_bit k w)))) [24, 16, 8, 0]"
    unfolding dotted_quad_def by (rule split_on_join) (auto simp: show_nat_no no_dot_slash)
  then show ?thesis
    using octet_small word_of_octets [of w] by (simp add: ipToInt_def ip_part_show)
qed

lemma dotted_chars: "c \<in> set (dotted_quad w) \<Longrightarrow> is_digit c \<or> c = CHR ''.''"
  using show_nat_char by (auto simp: dotted_quad_def)

lemma trim_dotted: "trim (dotted_quad w) = dotted_quad w"
  using dotted_chars digit_plain by (intro trim_id) (force simp: list_all_iff is_space_def)

lemma mask_prefix:
  "k \<le> 32 \<Longrightarrow> and (a :: 32 word) (not (push_bit k 1 - 1)) = and b (not (push_bit k 1 - 1)) \<longleftrightarrow> drop_bit k a = drop_bit k b"
proof
  assume k: "k \<le> 32"
  have m: "push_bit k 1 - 1 = (mask k :: 32 word)" by (simp add: mask_eq_exp_minus_1 push_bit_of_1)
  { assume *: "and a (not (push_bit k 1 - 1)) = and b (not (push_bit k 1 - 1))"
    show "drop_bit k a = drop_bit k b"
    proof (rule bit_word_eqI)
      fix n assume "n < LENGTH(32)"
      have "bit (and a (not (mask k))) (n + k) = bit (and b (not (mask k))) (n + k)" using * m by simp
      then show "bit (drop_bit k a) n = bit (drop_bit k b) n"
        by (cases "n + k < 32") (auto simp: bit_simps ac_simps dest: bit_imp_le_length)
    qed }
  { assume *: "drop_bit k a = drop_bit k b"
    show "and a (not (push_bit k 1 - 1)) = and b (not (push_bit k 1 - 1))"
      unfolding m
    proof (rule bit_word_eqI)
      fix n assume "n < LENGTH(32)"
      have "bit (drop_bit k a) (n - k) = bit (drop_bit k b) (n - k)" using * by simp
      then show "bit (and a (not (mask k))) n = bit (and b (not (mask k))) n"
        by (cases "k \<le> n") (auto simp: bit_simps)
    qed }
qed

lemma find_first_char: "c \<notin> set s \<Longrightarrow> find_index (\<lambda>x. x = c) (s @ c # t) = Some (length s)"
  by (induction s) auto

text \<open>
  C35. A dotted_quad IPv4 address is in a range written \<open>base/n\<close> exactly when the first \<open>n\<close> of the 32 bits of the
  address and of the base are the same; with 0 bits that is every address.
\<close>

theorem cidr_prefix_exact:
  assumes "n \<le> 32"
  shows "isIpInCidr (dotted_quad a) (dotted_quad b @ ''/'' @ show_nat n) \<longleftrightarrow> drop_bit (32 - n) a = drop_bit (32 - n) b"
proof -
  let ?c = "dotted_quad b @ ''/'' @ show_nat n"
  have "CHR ''/'' \<notin> set (dotted_quad b)" using dotted_chars no_dot_slash by blast
  then have slash: "find_index (\<lambda>c. c = CHR ''/'') ?c = Some (length (dotted_quad b))"
    using find_first_char [of "CHR ''/''" "dotted_quad b" "show_nat n"] by simp
  have num: "js_number (trim (show_nat n)) = Some (of_nat n)"
    using js_number_show [of n] assms show_nat_digits trim_digits by simp
  have k: "nat \<lfloor>32 - rat_of_nat n\<rfloor> = 32 - n"
  proof -
    have "32 - rat_of_nat n = rat_of_int (32 - int n)" by simp
    then show ?thesis using assms by (metis floor_of_int nat_minus_as_int of_nat_numeral)
  qed
  have range: "\<not> (rat_of_nat n < 0 \<or> 32 < rat_of_nat n)" using assms by simp
  have mask: "and a (cidr_mask (of_nat n)) = and b (cidr_mask (of_nat n)) \<longleftrightarrow> drop_bit (32 - n) a = drop_bit (32 - n) b"
    unfolding cidr_mask_def k by (rule mask_prefix) simp
  have zero: "n = 0 \<Longrightarrow> drop_bit (32 - n) a = drop_bit (32 - n) b"
    by (auto intro!: bit_word_eqI simp: bit_simps dest: bit_imp_le_length)
  show ?thesis
    using slash num range mask zero by (auto simp: isIpInCidr_def ipToInt_dotted trim_dotted)
qed

end
