(* ===== verification/HttpSecurity.thy ===== *)
theory HttpSecurity
  imports Auth
begin

text \<open>
  Browser and HTTP security, \<open>src/security/httpSecurity.ts\<close> with \<open>src/security/csrf.ts\<close>: safe errors,
  response headers, cookies, the hooks of a request (limits, cross-site request forgery, depth) and the cookies
  the server sets. A hook either refuses with a status and a code or lets the request pass.
\<close>

subsection \<open>Safe errors\<close>

text \<open>What \<open>toSafeError\<close> reads of a thrown value; \<open>sv_status\<close> is \<open>statusCode ?? status\<close>, \<open>NaN\<close> aside.\<close>

record thrown_view =
  sv_isObject :: bool
  sv_status :: "rat option"
  sv_code :: "string option"
  sv_name :: "string option"
  sv_message :: "string option"

definition upper_char :: "char \<Rightarrow> char" where
  "upper_char c = (let n = of_char c :: nat in if 97 \<le> n \<and> n \<le> 122 then char_of (n - 32) else c)"

definition code_char :: "char \<Rightarrow> char" where
  "code_char c = (if word_char c then upper_char c else CHR ''_'')"

definition clampStatus :: "rat \<Rightarrow> int" where
  "clampStatus s = (if s < 400 \<or> 599 < s then 500 else \<lfloor>s\<rfloor>)"

definition safe_code :: "thrown_view \<Rightarrow> string" where
  "safe_code e =
     (if \<not> sv_isObject e then ''INTERNAL_ERROR''
      else case sv_code e of
        Some c \<Rightarrow> if length c < 64 then take 64 (map code_char c)
                  else if sv_name e = Some ''UrlPolicyError'' then ''URL_POLICY_VIOLATION''
                  else if sv_name e = Some ''SecureFetchError'' then ''OUTBOUND_FETCH_FAILED'' else ''INTERNAL_ERROR''
      | None \<Rightarrow> if sv_name e = Some ''UrlPolicyError'' then ''URL_POLICY_VIOLATION''
                else if sv_name e = Some ''SecureFetchError'' then ''OUTBOUND_FETCH_FAILED'' else ''INTERNAL_ERROR'')"

definition default_message :: string where
  "default_message = ''An unexpected error occurred''"

definition safe_message :: "('a redact_lib_scheme) \<Rightarrow> thrown_view \<Rightarrow> string" where
  "safe_message L e =
     (case sv_message e of
        Some m \<Rightarrow> if sv_isObject e \<and> m \<noteq> [] then redactString (redactUrl L m) 240 else default_message
      | None \<Rightarrow> default_message)"

definition toSafeError :: "('a redact_lib_scheme) \<Rightarrow> thrown_view \<Rightarrow> rat \<Rightarrow> int \<times> string \<times> string" where
  "toSafeError L e fallbackStatus =
     (let status = or_else (sv_status e) fallbackStatus; code = safe_code e in
      (clampStatus status, code,
       if 500 \<le> status \<and> code = ''INTERNAL_ERROR'' then default_message else safe_message L e))"

subsection \<open>Response headers\<close>

definition adminCsp :: string where
  "adminCsp = join_with ''; ''
     [''default-src '' @ [CHR 0x27] @ ''self'' @ [CHR 0x27],
      ''script-src '' @ [CHR 0x27] @ ''self'' @ [CHR 0x27],
      ''style-src '' @ [CHR 0x27] @ ''self'' @ [CHR 0x27] @ '' '' @ [CHR 0x27] @ ''unsafe-inline'' @ [CHR 0x27] @ '' https://fonts.googleapis.com'',
      ''img-src '' @ [CHR 0x27] @ ''self'' @ [CHR 0x27] @ '' data: https:'',
      ''font-src '' @ [CHR 0x27] @ ''self'' @ [CHR 0x27] @ '' https://fonts.gstatic.com'',
      ''connect-src '' @ [CHR 0x27] @ ''self'' @ [CHR 0x27],
      ''object-src '' @ [CHR 0x27] @ ''none'' @ [CHR 0x27],
      ''base-uri '' @ [CHR 0x27] @ ''self'' @ [CHR 0x27],
      ''form-action '' @ [CHR 0x27] @ ''self'' @ [CHR 0x27],
      ''frame-ancestors '' @ [CHR 0x27] @ ''none'' @ [CHR 0x27]]"

definition standard_headers :: "(string \<times> string) list" where
  "standard_headers =
     [(''X-Content-Type-Options'', ''nosniff''), (''X-Frame-Options'', ''DENY''), (''Referrer-Policy'', ''no-referrer''),
      (''Permissions-Policy'', ''camera=(), microphone=(), geolocation=(), payment=()''),
      (''X-DNS-Prefetch-Control'', ''off''), (''Cross-Origin-Resource-Policy'', ''same-site'')]"

definition applySecurityHeaders :: "auth_config \<Rightarrow> bool \<Rightarrow> (string, string) jsmap \<Rightarrow> (string, string) jsmap" where
  "applySecurityHeaders cfg adminUi m =
     fold (\<lambda>(k, v). jm_set k v)
       (standard_headers @
        (if ac_nodeEnv cfg = ''production'' then [(''Strict-Transport-Security'', ''max-age=31536000; includeSubDomains'')] else []) @
        (if adminUi then [(''Content-Security-Policy'', adminCsp), (''Cache-Control'', ''no-store'')] else [])) m"

text \<open>\<open>assertCorsSafe\<close>: whether the setting is refused.\<close>

definition assertCorsSafe :: "auth_config \<Rightarrow> bool" where
  "assertCorsSafe cfg \<longleftrightarrow>
     ac_nodeEnv cfg \<noteq> ''production'' \<or> (let origin = trim (ac_corsOrigin cfg) in origin \<noteq> [] \<and> origin \<noteq> ''*'')"

subsection \<open>\<open>decodeURIComponent\<close>\<close>

text \<open>Texts are bytes of UTF-8: an escaped byte above 127 must start a well-formed escaped sequence.\<close>

definition percent_byte :: "string \<Rightarrow> (nat \<times> string) option" where
  "percent_byte s =
     (case s of
        c # a # b # rest \<Rightarrow>
          (case (hex_val a, hex_val b) of
             (Some x, Some y) \<Rightarrow> if c = CHR ''%'' then Some (x * 16 + y, rest) else None
           | _ \<Rightarrow> None)
      | _ \<Rightarrow> None)"

fun continuation_bytes :: "nat \<Rightarrow> string \<Rightarrow> (nat list \<times> string) option" where
  "continuation_bytes 0 s = Some ([], s)"
| "continuation_bytes (Suc n) s =
     (case percent_byte s of
        None \<Rightarrow> None
      | Some (b, rest) \<Rightarrow>
          if b < 128 \<or> 191 < b then None
          else map_option (\<lambda>(bs, r). (b # bs, r)) (continuation_bytes n rest))"

definition utf8_length :: "nat \<Rightarrow> nat option" where
  "utf8_length b =
     (if b < 128 then Some 0 else if b < 194 then None else if b < 224 then Some 1
      else if b < 240 then Some 2 else if b < 245 then Some 3 else None)"

definition well_formed_sequence :: "nat \<Rightarrow> nat list \<Rightarrow> bool" where
  "well_formed_sequence b bs \<longleftrightarrow>
     (case bs of [] \<Rightarrow> True
      | x # _ \<Rightarrow> (b = 224 \<longrightarrow> 160 \<le> x) \<and> (b = 237 \<longrightarrow> x < 160) \<and> (b = 240 \<longrightarrow> 144 \<le> x) \<and> (b = 244 \<longrightarrow> x < 144))"

definition escaped_sequence :: "string \<Rightarrow> (string \<times> string) option" where
  "escaped_sequence s =
     (case percent_byte s of
        None \<Rightarrow> None
      | Some (b, rest) \<Rightarrow>
          (case utf8_length b of
             None \<Rightarrow> None
           | Some n \<Rightarrow>
               (case continuation_bytes n rest of
                  None \<Rightarrow> None
                | Some (bs, r) \<Rightarrow> if well_formed_sequence b bs then Some (map char_of (b # bs), r) else None)))"

lemma percent_byte_shorter: "percent_byte s = Some (b, r) \<Longrightarrow> length r < length s"
  by (auto simp: percent_byte_def split: list.splits option.splits if_splits)

lemma continuation_shorter: "continuation_bytes n s = Some (bs, r) \<Longrightarrow> length r \<le> length s"
  by (induction n arbitrary: s bs) (auto split: option.splits if_splits dest!: percent_byte_shorter, force)

lemma escaped_shorter: "escaped_sequence s = Some (t, r) \<Longrightarrow> length r < length s"
  by (auto simp: escaped_sequence_def split: option.splits if_splits dest!: percent_byte_shorter continuation_shorter)

function decodeURIComponent :: "string \<Rightarrow> string option" where
  "decodeURIComponent [] = Some []"
| "decodeURIComponent (c # s) =
     (if c = CHR ''%'' then
        (case escaped_sequence (c # s) of
           None \<Rightarrow> None
         | Some (t, r) \<Rightarrow> map_option (\<lambda>u. t @ u) (decodeURIComponent r))
      else map_option (\<lambda>u. c # u) (decodeURIComponent s))"
  by pat_completeness auto
termination
  by (relation "measure length") (auto dest: escaped_shorter)

subsection \<open>Cookies\<close>

definition cookie_part :: "string \<Rightarrow> (string, string) jsmap \<Rightarrow> (string, string) jsmap" where
  "cookie_part part out =
     (case find_index (\<lambda>c. c = CHR ''='') part of
        None \<Rightarrow> out
      | Some idx \<Rightarrow>
          (let k = trim (take idx part); v = trim (drop (Suc idx) part) in
           if k = [] then out else jm_set k (or_else (decodeURIComponent v) v) out))"

definition parseCookieHeader :: "header_value \<Rightarrow> (string, string) jsmap" where
  "parseCookieHeader header =
     (let raw = (case header of HAbsent \<Rightarrow> [] | HOne s \<Rightarrow> s | HMany ss \<Rightarrow> join_with '';'' ss) in
      if raw = [] then [] else fold cookie_part (split_on CHR '';'' raw) [])"

definition buildSessionCookie :: "(time_ms \<Rightarrow> string) \<Rightarrow> string \<Rightarrow> string \<Rightarrow> time_ms \<Rightarrow> bool \<Rightarrow> string option \<Rightarrow> string" where
  "buildSessionCookie utc name v expires secure path =
     join_with ''; '' ([name @ ''='' @ encodeURIComponent v, ''Path='' @ or_else path ''/'', ''Expires='' @ utc expires,
       ''HttpOnly'', ''SameSite=Lax''] @ (if secure then [''Secure''] else []))"

definition clearSessionCookie :: "string \<Rightarrow> bool \<Rightarrow> string option \<Rightarrow> string" where
  "clearSessionCookie name secure path =
     join_with ''; '' ([name @ ''='', ''Path='' @ or_else path ''/'', ''Expires=Thu, 01 Jan 1970 00:00:00 GMT'',
       ''HttpOnly'', ''SameSite=Lax''] @ (if secure then [''Secure''] else []))"

definition CSRF_COOKIE :: string where "CSRF_COOKIE = ''csrf_token''"
definition CSRF_HEADER :: string where "CSRF_HEADER = ''x-csrf-token''"

definition generateCsrfToken :: "string \<Rightarrow> string" where
  "generateCsrfToken bytes = b64url_encode bytes"

definition buildCsrfCookie :: "string \<Rightarrow> bool \<Rightarrow> string" where
  "buildCsrfCookie tok secure =
     join_with ''; '' ([CSRF_COOKIE @ ''='' @ encodeURIComponent tok, ''Path=/'', ''SameSite=Lax''] @
       (if secure then [''Secure''] else []))"

definition clearCsrfCookie :: "bool \<Rightarrow> string" where
  "clearCsrfCookie secure =
     join_with ''; '' ([CSRF_COOKIE @ ''='', ''Path=/'', ''Expires=Thu, 01 Jan 1970 00:00:00 GMT'', ''SameSite=Lax''] @
       (if secure then [''Secure''] else []))"

subsection \<open>Depth\<close>

fun jsonDepth :: "json \<Rightarrow> nat \<Rightarrow> nat" where
  "jsonDepth (JArr xs) current = (if xs = [] then current + 1 else Max (set (map (\<lambda>v. jsonDepth v (current + 1)) xs)))"
| "jsonDepth (JObj fs) current =
     (if fs = [] then current + 1 else Max (set (map (\<lambda>f. jsonDepth (snd f) (current + 1)) fs)))"
| "jsonDepth v current = current"

subsection \<open>Hooks\<close>

datatype 'a hook_end = Refuse int string | Pass 'a

definition query_length :: "string \<Rightarrow> int option" where
  "query_length url = map_option (\<lambda>q. int (length url) - int q) (find_index (\<lambda>c. c = CHR ''?'') url)"

definition header_size :: "string \<times> header_value \<Rightarrow> nat" where
  "header_size e = length (fst e) +
     (case snd e of HAbsent \<Rightarrow> 0 | HOne v \<Rightarrow> length v | HMany vs \<Rightarrow> length (join_with '','' vs))"

definition mutating :: "string \<Rightarrow> bool" where
  "mutating m \<longleftrightarrow> m \<in> {''POST'', ''PATCH'', ''DELETE'', ''PUT''}"

definition csrf_exempt :: "string \<Rightarrow> bool" where
  "csrf_exempt url \<longleftrightarrow> starts_with url ''/v1/auth/login'' \<or> starts_with url ''/v1/auth/csrf''"

definition csrf_header :: "http_request \<Rightarrow> string option" where
  "csrf_header rq =
     (case jm_get (hr_headers rq) CSRF_HEADER of
        Some (HOne v) \<Rightarrow> Some v
      | Some (HMany (v # _)) \<Rightarrow> Some v
      | _ \<Rightarrow> None)"

definition csrf_refused :: "auth_config \<Rightarrow> (string, string) jsmap \<Rightarrow> http_request \<Rightarrow> bool" where
  "csrf_refused cfg cookies rq \<longleftrightarrow>
     ac_csrfEnabled cfg \<and> mutating (hr_method rq) \<and> or_else (jm_get cookies SESSION_COOKIE) [] \<noteq> [] \<and>
     \<not> csrf_exempt (hr_url rq) \<and>
     (or_else (jm_get cookies CSRF_COOKIE) [] = [] \<or> or_else (csrf_header rq) [] = [] \<or>
      jm_get cookies CSRF_COOKIE \<noteq> csrf_header rq)"

text \<open>The first hook: the size limits, the cookies and the forgery check. It passes on the request with its cookies.\<close>

definition security_hook :: "auth_config \<Rightarrow> http_request \<Rightarrow> http_request hook_end" where
  "security_hook cfg rq =
     (if (case query_length (hr_url rq) of None \<Rightarrow> False | Some n \<Rightarrow> ac_maxQueryLength cfg < n)
      then Refuse 414 ''QUERY_TOO_LONG''
      else if ac_maxHeaderBytes cfg < int (sum_list (map header_size (hr_headers rq)))
      then Refuse 431 ''HEADERS_TOO_LARGE''
      else let cookies = parseCookieHeader (or_else (jm_get (hr_headers rq) ''cookie'') HAbsent) in
        if csrf_refused cfg cookies rq then Refuse 403 ''CSRF_FAILED''
        else Pass (rq\<lparr>hr_cookies := cookies\<rparr>))"

text \<open>The response headers the first hook leaves: they are set once the two size limits are passed.\<close>

definition security_hook_headers :: "auth_config \<Rightarrow> http_request \<Rightarrow> (string, string) jsmap \<Rightarrow> (string, string) jsmap" where
  "security_hook_headers cfg rq m =
     (let set = applySecurityHeaders cfg (starts_with (hr_url rq) ''/admin'') m in
      case security_hook cfg rq of
        Refuse st code \<Rightarrow> if st = 403 then set else m
      | Pass r \<Rightarrow> set)"

text \<open>The length hook; whether the request is marked as chunked.\<close>

definition single_header :: "http_request \<Rightarrow> string \<Rightarrow> string" where
  "single_header rq k = (case jm_get (hr_headers rq) k of Some (HOne v) \<Rightarrow> v | Some (HMany vs) \<Rightarrow> join_with '','' vs | _ \<Rightarrow> [])"

definition length_hook :: "auth_config \<Rightarrow> http_request \<Rightarrow> bool hook_end" where
  "length_hook cfg rq =
     (let len = single_header rq ''content-length'' in
      if len \<noteq> [] then
        (case js_number len of
           Some n \<Rightarrow> if of_int (ac_maxBodyBytes cfg) < n then Refuse 413 ''PAYLOAD_TOO_LARGE'' else Pass False
         | None \<Rightarrow> Pass False)
      else Pass (str_includes (to_lower (single_header rq ''transfer-encoding'')) ''chunked''))"

datatype body_error = BodyTooLarge | BodyTooDeep nat | BodySyntax

definition parse_body :: "(string \<Rightarrow> json option) \<Rightarrow> auth_config \<Rightarrow> string \<Rightarrow> body_error + json" where
  "parse_body parse cfg body =
     (if ac_maxBodyBytes cfg < int (length body) then Inl BodyTooLarge
      else case parse body of
        None \<Rightarrow> Inl BodySyntax
      | Some j \<Rightarrow> if ac_maxJsonDepth cfg < int (jsonDepth j 0) then Inl (BodyTooDeep (jsonDepth j 0)) else Inr j)"

definition is_container :: "json \<Rightarrow> bool" where
  "is_container j = (case j of JArr xs \<Rightarrow> True | JObj fs \<Rightarrow> True | _ \<Rightarrow> False)"

text \<open>The hook before the handler; \<open>counted\<close> is the byte count of the raw stream, when one was kept.\<close>

definition body_hook :: "auth_config \<Rightarrow> json option \<Rightarrow> int option \<Rightarrow> unit hook_end" where
  "body_hook cfg body counted =
     (if (case body of None \<Rightarrow> False | Some j \<Rightarrow> is_container j \<and> ac_maxJsonDepth cfg < int (jsonDepth j 0))
      then Refuse 400 ''JSON_DEPTH_EXCEEDED''
      else if (case counted of None \<Rightarrow> False | Some n \<Rightarrow> ac_maxBodyBytes cfg < n)
      then Refuse 413 ''PAYLOAD_TOO_LARGE'' else Pass ())"

definition api_path :: "string \<Rightarrow> bool" where
  "api_path url \<longleftrightarrow> starts_with url ''/v1/'' \<and> \<not> starts_with url ''/v1/proxy''"

definition send_headers :: "http_request \<Rightarrow> string \<Rightarrow> (string, string) jsmap \<Rightarrow> (string, string) jsmap" where
  "send_headers rq rid m =
     (let r = (if rid \<noteq> [] then rid else single_header rq ''x-request-id'');
          m1 = (if r \<noteq> [] then jm_set ''X-Request-Id'' r m else m)
      in if api_path (hr_url rq) \<and> or_else (jm_get m1 ''Cache-Control'') [] = []
         then jm_set ''Cache-Control'' ''no-store'' m1 else m1)"

definition redactLogPath :: "('a redact_lib_scheme) \<Rightarrow> string \<Rightarrow> string" where
  "redactLogPath L url =
     (let q = find_index (\<lambda>c. c = CHR ''?'') url; path = (case q of None \<Rightarrow> url | Some i \<Rightarrow> take i url) in
      if starts_with path ''/v1/proxy/grant/'' then ''/v1/proxy/grant/[REDACTED]''
      else if starts_with path ''/v1/proxy/token/'' then ''/v1/proxy/token/[REDACTED]''
      else if q \<noteq> None then
        (let redacted = redactUrl L url in
         case find_index (\<lambda>c. c = CHR ''?'') redacted of None \<Rightarrow> path | Some rq \<Rightarrow> take rq redacted)
      else path)"

definition not_found_message :: "('a redact_lib_scheme) \<Rightarrow> http_request \<Rightarrow> string" where
  "not_found_message L rq = ''Route '' @ hr_method rq @ '' '' @ redactLogPath L (hr_url rq) @ '' not found''"

definition not_found_payload :: "int \<Rightarrow> string \<Rightarrow> string" where
  "not_found_payload status payload =
     (if status = 404 \<and> str_includes payload ''?'' then redactString payload 500 else payload)"

end
