(* ===== verification/AuditLog.thy ===== *)
theory AuditLog
  imports Auth
begin

text \<open>
  The audit log of management mutations, \<open>src/security/audit.ts\<close>: every event is redacted, kept in a ring of the
  latest 500 and appended to a file; whether the file takes the line is an argument.
\<close>

datatype audit_outcome = AuditSuccess | AuditFailure | AuditDenied

record audit_actor =
  ad_actorId :: string
  ad_actorRole :: string
  ad_actorMethod :: auth_method
  ad_actorIp :: "string option"

text \<open>A partial event, and the event with its id and time.\<close>

record audit_partial =
  ap_actor :: audit_actor
  ap_action :: string
  ap_target :: "string option"
  ap_requestId :: "string option"
  ap_revision :: "json option"
  ap_revisionBefore :: "json option"
  ap_revisionAfter :: "json option"
  ap_before :: "json option"
  ap_after :: "json option"
  ap_outcome :: audit_outcome
  ap_reason :: "string option"
  ap_meta :: "json option"

record audit_event = audit_partial +
  ae_id :: string
  ae_ts :: string

record audit_log =
  al_enabled :: bool
  al_failClosed :: bool
  al_filePath :: "string option"
  al_ring :: "audit_event list"
  al_file :: "audit_event list"

definition MEMORY_CAP :: nat where "MEMORY_CAP = 500"

definition createAuditLogger :: "string option \<Rightarrow> bool option \<Rightarrow> bool option \<Rightarrow> bool \<Rightarrow> audit_log" where
  "createAuditLogger filePath enabled failClosed isProd =
     \<lparr>al_enabled = (enabled \<noteq> Some False), al_failClosed = or_else failClosed isProd,
      al_filePath = truthy_text filePath, al_ring = [], al_file = []\<rparr>"

text \<open>\<open>String(redactValue(s))\<close> on a text.\<close>

definition redacted_text :: "('a redact_lib_scheme) \<Rightarrow> string \<Rightarrow> string" where
  "redacted_text L s = redact_text L s"

definition redacted_truthy :: "('a redact_lib_scheme) \<Rightarrow> json option \<Rightarrow> json option" where
  "redacted_truthy L x = (if jtruthy x then map_option (redactValue L 0) x else None)"

definition redact_event :: "('a redact_lib_scheme) \<Rightarrow> string \<Rightarrow> string \<Rightarrow> audit_partial \<Rightarrow> audit_event" where
  "redact_event L eid ts p =
     \<lparr>ap_actor = (ap_actor p)\<lparr>ad_actorId := redacted_text L (ad_actorId (ap_actor p)),
        ad_actorIp := map_option (redacted_text L) (truthy_text (ad_actorIp (ap_actor p)))\<rparr>,
      ap_action = redacted_text L (ap_action p), ap_target = map_option (redacted_text L) (ap_target p),
      ap_requestId = map_option (redacted_text L) (truthy_text (ap_requestId p)),
      ap_revision = redacted_truthy L (ap_revision p), ap_revisionBefore = redacted_truthy L (ap_revisionBefore p),
      ap_revisionAfter = redacted_truthy L (ap_revisionAfter p), ap_before = map_option (redactValue L 0) (ap_before p),
      ap_after = map_option (redactValue L 0) (ap_after p), ap_outcome = ap_outcome p,
      ap_reason = map_option (redacted_text L) (ap_reason p), ap_meta = redacted_truthy L (ap_meta p),
      ae_id = eid, ae_ts = ts\<rparr>"

datatype audit_error = AuditDisabled | AuditAppendFailed

text \<open>\<open>push\<close> and, above the cap, \<open>shift\<close>.\<close>

definition ring_push :: "audit_event \<Rightarrow> audit_event list \<Rightarrow> audit_event list" where
  "ring_push e r = (if MEMORY_CAP < length (r @ [e]) then tl (r @ [e]) else r @ [e])"

definition append_line :: "bool \<Rightarrow> audit_event \<Rightarrow> audit_log \<Rightarrow> audit_error option \<times> audit_log" where
  "append_line writes e a =
     (case al_filePath a of
        None \<Rightarrow> (None, a)
      | Some f \<Rightarrow>
          if writes then (None, a\<lparr>al_file := al_file a @ [e]\<rparr>)
          else (if al_failClosed a \<and> al_enabled a then Some AuditAppendFailed else None, a))"

definition audit_record ::
  "('a redact_lib_scheme) \<Rightarrow> bool \<Rightarrow> string \<Rightarrow> string \<Rightarrow> audit_partial \<Rightarrow> audit_log \<Rightarrow> (audit_error + audit_event) \<times> audit_log" where
  "audit_record L writes eid ts p a =
     (let e = redact_event L eid ts p in
      if \<not> al_enabled a then (if al_failClosed a then Inl AuditDisabled else Inr e, a)
      else case append_line writes e (a\<lparr>al_ring := ring_push e (al_ring a)\<rparr>) of
        (Some err, a1) \<Rightarrow> (Inl err, a1)
      | (None, a1) \<Rightarrow> (Inr e, a1))"

definition audit_recent :: "int \<Rightarrow> audit_log \<Rightarrow> audit_event list" where
  "audit_recent limit a = last_n (nat (max 1 (min limit (int MEMORY_CAP)))) (al_ring a)"

definition actorFromAuth :: "auth_actor option \<Rightarrow> string option \<Rightarrow> audit_actor" where
  "actorFromAuth actor ip =
     (case actor of
        None \<Rightarrow> \<lparr>ad_actorId = ''anonymous'', ad_actorRole = ''viewer'', ad_actorMethod = MethodNone, ad_actorIp = ip\<rparr>
      | Some x \<Rightarrow> \<lparr>ad_actorId = aa_id x, ad_actorRole = aa_role x, ad_actorMethod = aa_method x,
                  ad_actorIp = (case ip of Some i \<Rightarrow> Some i | None \<Rightarrow> aa_ip x)\<rparr>)"

subsection \<open>The log\<close>

text \<open>A run of the log: the events that were recorded, each with whether the file took it.\<close>

fun audit_run :: "('a redact_lib_scheme) \<Rightarrow> (bool \<times> string \<times> string \<times> audit_partial) list \<Rightarrow> audit_log \<Rightarrow> audit_log" where
  "audit_run L [] a = a"
| "audit_run L ((w, eid, ts, p) # ps) a = audit_run L ps (snd (audit_record L w eid ts p a))"

definition redacted_run :: "('a redact_lib_scheme) \<Rightarrow> (bool \<times> string \<times> string \<times> audit_partial) list \<Rightarrow> audit_event list" where
  "redacted_run L ps = map (\<lambda>(w, eid, ts, p). redact_event L eid ts p) ps"

lemma ring_push_last_n: "ring_push e (last_n MEMORY_CAP xs) = last_n MEMORY_CAP (xs @ [e])"
proof (cases "length xs < MEMORY_CAP")
  case True
  then show ?thesis by (simp add: ring_push_def last_n_def)
next
  case False
  then have "length xs - (MEMORY_CAP - 1) = Suc (length xs - MEMORY_CAP)"
    by (simp add: MEMORY_CAP_def)
  then show ?thesis using False
    by (simp add: ring_push_def last_n_def MEMORY_CAP_def drop_Suc tl_drop)
qed

lemma audit_record_kept:
  assumes "al_enabled a"
  shows "al_ring (snd (audit_record L w eid ts p a)) = ring_push (redact_event L eid ts p) (al_ring a) \<and>
    al_enabled (snd (audit_record L w eid ts p a)) \<and> al_filePath (snd (audit_record L w eid ts p a)) = al_filePath a \<and>
    al_file (snd (audit_record L w eid ts p a)) =
      al_file a @ (if w \<and> al_filePath a \<noteq> None then [redact_event L eid ts p] else [])"
  using assms by (simp add: audit_record_def Let_def append_line_def split: option.split)

text \<open>
  An enabled audit log keeps the latest 500 events of its history, in order and redacted, and its file holds exactly
  those the disk took: nothing is dropped, doubled or reordered when events are recorded one after another, and an error of the file loses no event in memory.
\<close>

lemma audit_log_exact:
  assumes "al_enabled a" "al_ring a = []" "al_file a = []" "al_filePath a \<noteq> None"
  shows "al_ring (audit_run L ps a) = last_n 500 (redacted_run L ps) \<and>
    al_file (audit_run L ps a) = redacted_run L (filter fst ps)"
proof -
  have "al_ring (audit_run L ps b) = last_n MEMORY_CAP (hist @ redacted_run L ps) \<and>
      al_file (audit_run L ps b) = al_file b @ redacted_run L (filter fst ps)"
    if "al_enabled b" "al_filePath b \<noteq> None" "al_ring b = last_n MEMORY_CAP hist" for b hist
    using that
  proof (induction ps arbitrary: b hist)
    case Nil
    then show ?case by (simp add: redacted_run_def)
  next
    case (Cons x ps)
    obtain w eid ts p where x: "x = (w, eid, ts, p)" by (cases x)
    let ?b = "snd (audit_record L w eid ts p b)"
    note kept = audit_record_kept [OF Cons.prems(1), of L w eid ts p]
    have "al_ring ?b = last_n MEMORY_CAP (hist @ [redact_event L eid ts p])"
      using kept Cons.prems(3) ring_push_last_n by simp
    then show ?case
      using Cons.IH [of ?b "hist @ [redact_event L eid ts p]"] kept Cons.prems(2)
      by (simp add: x redacted_run_def)
  qed
  from this [of a "[]"] show ?thesis
    using assms by (simp add: last_n_def MEMORY_CAP_def)
qed

definition demo_partial :: audit_partial where
  "demo_partial = \<lparr>ap_actor = actorFromAuth None None, ap_action = ''auth.login'', ap_target = None, ap_requestId = None,
     ap_revision = None, ap_revisionBefore = None, ap_revisionAfter = None, ap_before = None, ap_after = None,
     ap_outcome = AuditDenied, ap_reason = None, ap_meta = None\<rparr>"

theorem audit_log_exact_witness:
  "al_file (audit_run plain_lib [(False, ''1'', ''t'', demo_partial), (True, ''2'', ''t'', demo_partial)]
     (createAuditLogger (Some ''f'') None None True)) = [redact_event plain_lib ''2'' ''t'' demo_partial]"
proof -
  let ?a = "createAuditLogger (Some ''f'') None None True"
  have "al_enabled ?a" "al_ring ?a = []" "al_file ?a = []" "al_filePath ?a \<noteq> None"
    by (simp_all add: createAuditLogger_def truthy_text_def or_else_def)
  from audit_log_exact [OF this, of plain_lib "[(False, ''1'', ''t'', demo_partial), (True, ''2'', ''t'', demo_partial)]"]
  show ?thesis by (simp add: redacted_run_def)
qed

text \<open>
  In production the fail-closed default turns a log that is switched off into an error of every mutation that records its outcome.
\<close>

lemma disabled_log_fails_closed:
  "fst (audit_record L w eid ts p (createAuditLogger f (Some False) None True)) = Inl AuditDisabled"
  by (simp add: audit_record_def createAuditLogger_def or_else_def Let_def)

end
