(* ===== verification/AuthRoutes.thy ===== *)
theory AuthRoutes
  imports HttpSecurity AuditLog
begin

text \<open>
  The session routes, \<open>src/routes/auth.ts\<close>: login, logout, identity and the token against request forgery. A reply
  holds what the code sends, the mode it echoes aside; \<open>audited\<close> hands the event of a route to the log of \<open>AuditLog\<close>, whose
  error becomes the error of the route.
\<close>

subsection \<open>Routes\<close>

record auth_reply =
  rp_status :: int
  rp_error :: "string option"
  rp_actor :: "(string \<times> string \<times> auth_method) option"
  rp_cookies :: "string list"
  rp_expiresAt :: "time_ms option"
  rp_csrf :: "string option"
  rp_retryAfter :: "int option"

definition plain_reply :: "int \<Rightarrow> auth_reply" where
  "plain_reply st = \<lparr>rp_status = st, rp_error = None, rp_actor = None, rp_cookies = [], rp_expiresAt = None, rp_csrf = None,
     rp_retryAfter = None\<rparr>"

definition error_reply :: "int \<Rightarrow> string \<Rightarrow> auth_reply" where
  "error_reply st code = (plain_reply st)\<lparr>rp_error := Some code\<rparr>"

text \<open>The runtime: the clock, the printed dates, the random bytes of the forgery token.\<close>

record auth_env =
  ax_crypto :: auth_crypto
  ax_now :: time_ms
  ax_utc :: "time_ms \<Rightarrow> string"
  ax_bytes :: string

definition secure_cookies :: "auth_config \<Rightarrow> bool" where
  "secure_cookies cfg \<longleftrightarrow> ac_nodeEnv cfg = ''production'' \<or> starts_with (or_else (ac_publicUrl cfg) []) ''https:''"

definition login_event :: "string \<Rightarrow> auth_actor option \<Rightarrow> string option \<Rightarrow> string \<Rightarrow> audit_outcome \<Rightarrow> string option \<Rightarrow> audit_partial" where
  "login_event rid actor ip action out reason =
     \<lparr>ap_actor = actorFromAuth actor ip, ap_action = action, ap_target = None, ap_requestId = Some rid, ap_revision = None,
      ap_revisionBefore = None, ap_revisionAfter = None, ap_before = None, ap_after = None, ap_outcome = out,
      ap_reason = reason, ap_meta = None\<rparr>"

text \<open>A session for an actor: the two cookies and the body.\<close>

definition session_reply :: "auth_env \<Rightarrow> auth_config \<Rightarrow> string \<Rightarrow> string \<Rightarrow> string \<Rightarrow> auth_reply" where
  "session_reply X cfg secret sub role =
     (let (tok, expires) = signSession (ax_crypto X) sub role (ac_sessionTtlSec cfg) (ax_now X) secret;
          csrf = generateCsrfToken (ax_bytes X); secure = secure_cookies cfg
      in (plain_reply 200)\<lparr>rp_actor := Some (sub, role, MethodSession),
           rp_cookies := [buildSessionCookie (ax_utc X) SESSION_COOKIE tok expires secure None, buildCsrfCookie csrf secure],
           rp_expiresAt := Some expires, rp_csrf := Some csrf\<rparr>)"

definition login_disabled :: "auth_env \<Rightarrow> auth_config \<Rightarrow> auth_reply" where
  "login_disabled X cfg =
     (case session_secret cfg of
        None \<Rightarrow> (plain_reply 200)\<lparr>rp_actor := Some (''local-dev'', ''admin'', MethodNone)\<rparr>
      | Some secret \<Rightarrow> session_reply X cfg secret ''local-dev'' ''admin'')"

definition login_static :: "auth_env \<Rightarrow> auth_config \<Rightarrow> string option \<Rightarrow> auth_reply" where
  "login_static X cfg body_token =
     (let provided = trim (or_else body_token []); tok = or_else (ac_adminToken cfg) [] in
      if tok = [] \<or> provided = [] \<or> \<not> safeEqual provided tok then error_reply 401 ''UNAUTHORIZED''
      else case session_secret cfg of
        None \<Rightarrow> error_reply 500 ''MISCONFIGURED''
      | Some secret \<Rightarrow> session_reply X cfg secret ''admin-token'' (ac_adminTokenRole cfg))"

definition login_actor :: "auth_env \<Rightarrow> auth_config \<Rightarrow> http_request \<Rightarrow> auth_reply" where
  "login_actor X cfg rq =
     (case resolveActor (ax_crypto X) cfg (ax_now X) rq of
        None \<Rightarrow> error_reply 401 ''UNAUTHORIZED''
      | Some a \<Rightarrow>
          (case session_secret cfg of
             Some secret \<Rightarrow> session_reply X cfg secret (aa_id a) (aa_role a)
           | None \<Rightarrow> (plain_reply 200)\<lparr>rp_actor := Some (aa_id a, aa_role a, aa_method a)\<rparr>))"

definition login_audit :: "string \<Rightarrow> auth_config \<Rightarrow> string option \<Rightarrow> auth_reply \<Rightarrow> audit_partial list" where
  "login_audit rid cfg ip r =
     (if rp_status r = 401 then [login_event rid None ip ''auth.login'' AuditDenied (Some ''invalid token'')]
      else if rp_status r = 200
      then [login_event rid (Some \<lparr>aa_id = ''admin-token'', aa_role = ac_adminTokenRole cfg, aa_method = MethodSession, aa_ip = ip\<rparr>)
              ip ''auth.login'' AuditSuccess None]
      else [])"

definition login :: "auth_env \<Rightarrow> auth_config \<Rightarrow> http_request \<Rightarrow> string option \<Rightarrow> rate_limiter \<Rightarrow>
    auth_reply \<times> audit_partial list \<times> rate_limiter" where
  "login X cfg rq body_token rl =
     (let ip = getRateLimitIp rq (ac_trustedProxyCidrs cfg); (limit, window) = RATE_LIMITS RAuth;
          (res, rl1) = take_unit (ax_now X) (rateLimitKey ''auth'' None ip) limit window rl
      in if \<not> rr_allowed res
         then ((error_reply 429 ''RATE_LIMITED'')\<lparr>rp_retryAfter := Some (rr_retryAfterSec res)\<rparr>, [], rl1)
         else case ac_authMode cfg of
           AmDisabled \<Rightarrow> (login_disabled X cfg, [], rl1)
         | AmStaticToken \<Rightarrow>
             (let r = login_static X cfg body_token in (r, login_audit (hr_id rq) cfg ip r, rl1))
         | _ \<Rightarrow> (login_actor X cfg rq, [], rl1))"

definition logout :: "auth_env \<Rightarrow> auth_config \<Rightarrow> http_request \<Rightarrow> auth_reply \<times> audit_partial list" where
  "logout X cfg rq =
     ((plain_reply 200)\<lparr>rp_cookies := [clearSessionCookie SESSION_COOKIE (secure_cookies cfg) None, clearCsrfCookie (secure_cookies cfg)]\<rparr>,
      [login_event (hr_id rq) (resolveActor (ax_crypto X) cfg (ax_now X) rq) (getRateLimitIp rq (ac_trustedProxyCidrs cfg))
         ''auth.logout'' AuditSuccess None])"

definition auth_me :: "auth_env \<Rightarrow> auth_config \<Rightarrow> http_request \<Rightarrow> auth_reply" where
  "auth_me X cfg rq =
     (case resolveActor (ax_crypto X) cfg (ax_now X) rq of
        None \<Rightarrow> error_reply 401 ''UNAUTHORIZED''
      | Some a \<Rightarrow> (plain_reply 200)\<lparr>rp_actor := Some (aa_id a, aa_role a, aa_method a)\<rparr>)"

definition auth_csrf :: "auth_env \<Rightarrow> auth_config \<Rightarrow> http_request \<Rightarrow> auth_reply" where
  "auth_csrf X cfg rq =
     (case resolveActor (ax_crypto X) cfg (ax_now X) rq of
        None \<Rightarrow> error_reply 401 ''UNAUTHORIZED''
      | Some a \<Rightarrow>
          (let tok = or_else (jm_get (hr_cookies rq) CSRF_COOKIE) [] in
           if tok \<noteq> [] then (plain_reply 200)\<lparr>rp_csrf := Some tok\<rparr>
           else (plain_reply 200)\<lparr>rp_csrf := Some (generateCsrfToken (ax_bytes X)),
                  rp_cookies := [buildCsrfCookie (generateCsrfToken (ax_bytes X)) (secure_cookies cfg)]\<rparr>))"

definition audited ::
  "('a redact_lib_scheme) \<Rightarrow> bool \<Rightarrow> string \<Rightarrow> string \<Rightarrow> audit_log option \<Rightarrow> auth_reply \<times> audit_partial list \<Rightarrow>
     (audit_error + auth_reply) \<times> audit_log option" where
  "audited L writes eid ts lg out =
     (case (lg, out) of
        (Some a, (r, [p])) \<Rightarrow>
          (case audit_record L writes eid ts p a of
             (Inl err, a1) \<Rightarrow> (Inl err, Some a1)
           | (Inr e, a1) \<Rightarrow> (Inr r, Some a1))
      | (_, (r, _)) \<Rightarrow> (Inr r, lg))"

definition login_route ::
  "('a redact_lib_scheme) \<Rightarrow> bool \<Rightarrow> string \<Rightarrow> string \<Rightarrow> auth_env \<Rightarrow> auth_config \<Rightarrow> http_request \<Rightarrow> string option \<Rightarrow>
     rate_limiter \<Rightarrow> audit_log option \<Rightarrow> (audit_error + auth_reply) \<times> rate_limiter \<times> audit_log option" where
  "login_route L writes eid ts X cfg rq body_token rl lg =
     (let (r, evs, rl1) = login X cfg rq body_token rl; (out, log1) = audited L writes eid ts lg (r, evs)
      in (out, rl1, log1))"

definition logout_route ::
  "('a redact_lib_scheme) \<Rightarrow> bool \<Rightarrow> string \<Rightarrow> string \<Rightarrow> auth_env \<Rightarrow> auth_config \<Rightarrow> http_request \<Rightarrow> audit_log option \<Rightarrow>
     (audit_error + auth_reply) \<times> audit_log option" where
  "logout_route L writes eid ts X cfg rq lg = audited L writes eid ts lg (logout X cfg rq)"

text \<open>The reply headers of a limited route, and the refusal.\<close>

definition enforceRateLimit ::
  "time_ms \<Rightarrow> string \<Rightarrow> int \<Rightarrow> int \<Rightarrow> rate_limiter \<Rightarrow> bool \<times> (string \<times> int) list \<times> rate_limiter" where
  "enforceRateLimit now key limit window rl =
     (case take_unit now key limit window rl of
        (res, rl1) \<Rightarrow>
          (rr_allowed res,
           [(''X-RateLimit-Limit'', rr_limit res), (''X-RateLimit-Remaining'', rr_remaining res)] @
             (if rr_allowed res then [] else [(''Retry-After'', rr_retryAfterSec res)]), rl1))"

end
