(* ===== verification/AuthFacts.thy ===== *)
theory AuthFacts
  imports AuthRoutes
begin

text \<open>
  What the authentication of management requests gives: sessions survive the trip through a browser's cookies, the guard
  lets a request pass only with evidence of a role, a mutation with a session cookie carries the token of that cookie
  jar, and the errors sent to a client have a bounded form.
\<close>

subsection \<open>Sessions\<close>

lemma cap_expiry: "1000 \<le> later \<Longrightarrow> later div 1000 \<le> (e :: int) \<Longrightarrow> e \<noteq> 0"
  using zdiv_mono1 [of 1000 later 1000] by simp

lemma session_roundtrip:
  assumes "\<And>c. ak_dec K (ak_enc K c) = Some c" "sub \<noteq> []" "role \<noteq> []" "1000 \<le> later"
    and "later div 1000 \<le> now div 1000 + or_else ttl 28800"
  shows "verifySession K (fst (signSession K sub role ttl now secret)) secret later =
    Some (new_claims sub role (or_else ttl 28800) now)"
proof -
  let ?p = "b64url_encode (ak_enc K (new_claims sub role (or_else ttl 28800) now))"
  have "split_on CHR ''.'' (?p @ ''.'' @ signature K secret ?p) = [?p, signature K secret ?p]"
    using split_on_append [OF b64url_no_sep(1)] split_on_none [OF b64url_no_sep(1)]
    by (simp add: signature_def)
  then show ?thesis
    using assms cap_expiry [OF assms(4,5)]
    by (simp add: signSession_def verifySession_def Let_def safeEqual_def b64url_roundtrip live_claims_def new_claims_def)
qed

lemma verifySession_signed:
  assumes "verifySession K t secret now = Some c"
  shows "\<exists>p. t = p @ ''.'' @ signature K secret p \<and> ak_dec K (b64url_decode p) = Some c \<and> now div 1000 \<le> tk_exp c"
proof -
  obtain p sig where s: "split_on CHR ''.'' t = [p, sig]"
    using assms by (auto simp: verifySession_def split: list.splits)
  then show ?thesis
    using assms join_split [of "CHR ''.''" t]
    by (auto simp: verifySession_def safeEqual_def live_claims_def split: option.splits if_splits)
qed

lemma verifyServiceJwt_signed:
  assumes "verifyServiceJwt K t secret now = Some c"
  shows "\<exists>b. t = b @ ''.'' @ signature K secret b \<and> now div 1000 \<le> tk_exp c \<and> tk_role c \<in> {''viewer'', ''operator'', ''admin''}"
proof -
  obtain h p sig where s: "split_on CHR ''.'' t = [h, p, sig]"
    using assms by (auto simp: verifyServiceJwt_def split: list.splits)
  have "t = (h @ ''.'' @ p) @ ''.'' @ sig" using join_split [of "CHR ''.''" t] s by simp
  moreover have "sig = signature K secret (h @ ''.'' @ p)" and
      "now div 1000 \<le> tk_exp c \<and> tk_role c \<in> {''viewer'', ''operator'', ''admin''}"
    using assms s by (auto simp: verifyServiceJwt_def safeEqual_def live_claims_def split: option.splits if_splits)
  ultimately show ?thesis by metis
qed

subsection \<open>The guard\<close>

text \<open>What an actor rests on: a live session or token signed with the secret, the admin token, or a trusted peer.\<close>

definition session_evidence :: "auth_crypto \<Rightarrow> auth_config \<Rightarrow> time_ms \<Rightarrow> http_request \<Rightarrow> auth_actor \<Rightarrow> bool" where
  "session_evidence K cfg now rq a \<longleftrightarrow>
     (\<exists>secret p c. session_secret cfg = Some secret \<and>
        jm_get (hr_cookies rq) SESSION_COOKIE = Some (p @ ''.'' @ signature K secret p) \<and>
        ak_dec K (b64url_decode p) = Some c \<and> now div 1000 \<le> tk_exp c \<and> aa_id a = tk_sub c \<and> aa_role a = tk_role c)"

definition token_evidence :: "auth_config \<Rightarrow> http_request \<Rightarrow> auth_actor \<Rightarrow> bool" where
  "token_evidence cfg rq a \<longleftrightarrow>
     ac_authMode cfg = AmStaticToken \<and> ac_adminToken cfg \<noteq> None \<and> ac_adminToken cfg \<noteq> Some [] \<and>
     extractStaticToken rq = ac_adminToken cfg \<and> aa_role a = ac_adminTokenRole cfg"

definition proxy_evidence :: "auth_config \<Rightarrow> http_request \<Rightarrow> auth_actor \<Rightarrow> bool" where
  "proxy_evidence cfg rq a \<longleftrightarrow>
     ac_authMode cfg = AmReverseProxy \<and> isTrustedPeer (proxy_peer rq) (ac_trustedProxyCidrs cfg) \<and>
     headerValue rq (default_text (ac_proxyUserHeader cfg) ''x-forwarded-user'') = Some (aa_id a)"

definition jwt_evidence :: "auth_crypto \<Rightarrow> auth_config \<Rightarrow> http_request \<Rightarrow> auth_actor \<Rightarrow> bool" where
  "jwt_evidence K cfg rq a \<longleftrightarrow>
     ac_authMode cfg = AmServiceJwt \<and>
     (\<exists>secret b. ac_serviceJwtSecret cfg = Some secret \<and> secret \<noteq> [] \<and>
        Some (b @ ''.'' @ signature K secret b) \<in> {extractBearer rq, headerValue rq ''x-admin-token''})"

lemma truthy_text_Some: "truthy_text x = Some t \<longleftrightarrow> x = Some t \<and> t \<noteq> []"
  by (cases x) (auto simp: truthy_text_def or_else_def)

lemma first_text_or: "first_text a b = Some t \<Longrightarrow> a = Some t \<or> b = Some t"
  by (auto simp: first_text_def split: if_splits)

lemma session_actor_evidence: "session_actor K cfg now rq = Some a \<Longrightarrow> session_evidence K cfg now rq a \<and> aa_method a = MethodSession"
  by (force simp: session_actor_def session_evidence_def truthy_text_Some split: option.splits dest!: verifySession_signed)

lemma static_actor_evidence: "ac_authMode cfg = AmStaticToken \<Longrightarrow> static_actor cfg rq = Some a \<Longrightarrow>
    token_evidence cfg rq a \<and> aa_method a = MethodStaticToken"
  by (auto simp: static_actor_def token_evidence_def truthy_text_Some safeEqual_def split: option.splits if_splits)

lemma proxy_actor_evidence: "ac_authMode cfg = AmReverseProxy \<Longrightarrow> proxy_actor cfg rq = Some a \<Longrightarrow>
    proxy_evidence cfg rq a \<and> aa_method a = MethodReverseProxy"
  by (auto simp: proxy_actor_def proxy_evidence_def truthy_text_Some split: option.splits if_splits)

lemma jwt_actor_evidence: "ac_authMode cfg = AmServiceJwt \<Longrightarrow> jwt_actor K cfg now rq = Some a \<Longrightarrow>
    jwt_evidence K cfg rq a \<and> aa_method a = MethodServiceJwt"
  by (force simp: jwt_actor_def jwt_evidence_def truthy_text_Some split: option.splits dest!: verifyServiceJwt_signed first_text_or)

lemma resolveActor_evidence:
  assumes "resolveActor K cfg now rq = Some a" "ac_authMode cfg \<noteq> AmDisabled"
  shows "aa_method a = MethodSession \<and> session_evidence K cfg now rq a \<or>
    aa_method a = MethodStaticToken \<and> token_evidence cfg rq a \<or>
    aa_method a = MethodReverseProxy \<and> proxy_evidence cfg rq a \<or>
    aa_method a = MethodServiceJwt \<and> jwt_evidence K cfg rq a"
  using assms session_actor_evidence [of K cfg now rq a] static_actor_evidence [of cfg rq a] proxy_actor_evidence [of cfg rq a]
    jwt_actor_evidence [of cfg K now rq a]
  by (auto simp: resolveActor_def split: option.splits auth_mode.splits)

lemma roleAtLeast_trans: "roleAtLeast a b \<Longrightarrow> roleAtLeast b c \<Longrightarrow> roleAtLeast a c"
  by (auto simp: roleAtLeast_def split: option.splits)


subsection \<open>Forged requests\<close>

text \<open>
  C8. With the check against request forgery on, a mutation that passes the first hook and then the guard on the
  strength of a session cookie repeats, in a header no other site can set, the token of the cookies it came with.
\<close>

theorem session_mutation_not_forged:
  assumes "security_hook cfg rq = Pass rq1" "authGuard K cfg op now rq1 = GuardPassed (Some a)"
    and "aa_method a = MethodSession" "ac_csrfEnabled cfg" "mutating (hr_method rq)" "\<not> csrf_exempt (hr_url rq)"
  shows "\<exists>t. t \<noteq> [] \<and> csrf_header rq = Some t \<and> jm_get (hr_cookies rq1) CSRF_COOKIE = Some t"
proof -
  have act: "resolveActor K cfg now rq1 = Some a"
    using assms(2) by (auto simp: authGuard_def split: if_splits option.splits)
  then have "ac_authMode cfg \<noteq> AmDisabled"
    using assms(3) by (auto simp: resolveActor_def)
  then have ev: "session_evidence K cfg now rq1 a"
    using resolveActor_evidence [OF act] assms(3) by simp
  have "or_else (jm_get (hr_cookies rq1) SESSION_COOKIE) [] \<noteq> []"
    using ev by (auto simp: session_evidence_def or_else_def)
  moreover have cookies: "\<not> csrf_refused cfg (hr_cookies rq1) rq"
    using assms(1) by (auto simp: security_hook_def Let_def split: if_splits)
  ultimately show ?thesis
    using assms(4-6) by (cases "csrf_header rq") (auto simp: csrf_refused_def or_else_def)
qed

subsection \<open>A browser\<close>

text \<open>What a browser sends back of a \<open>Set-Cookie\<close> line: the part before the first semicolon.\<close>

definition cookie_pair :: "string \<Rightarrow> string" where
  "cookie_pair line = hd (split_on CHR '';'' line)"

definition browser_request :: "string list \<Rightarrow> http_request \<Rightarrow> http_request" where
  "browser_request lines rq = rq\<lparr>hr_headers := jm_set ''cookie'' (HOne (join_with ''; '' (map cookie_pair lines))) (hr_headers rq)\<rparr>"

lemma decode_plain: "CHR ''%'' \<notin> set s \<Longrightarrow> decodeURIComponent s = Some s"
  by (induction s) auto

lemma hd_split: "c \<notin> set x \<Longrightarrow> hd (split_on c (x @ c # t)) = x"
  by (simp add: split_on_append)

lemma cookie_part_set:
  assumes "list_all (\<lambda>c. \<not> is_space c \<and> c \<noteq> CHR ''='') k" "k \<noteq> []" "list_all (\<lambda>c. \<not> is_space c \<and> c \<noteq> CHR ''%'') v"
  shows "cookie_part (k @ ''='' @ v) out = jm_set k v out" "cookie_part ('' '' @ k @ ''='' @ v) out = jm_set k v out"
proof -
  have "CHR ''='' \<notin> set k" "CHR ''%'' \<notin> set v" using assms by (auto simp: list_all_iff)
  moreover have "trim k = k" "trim v = v" "trim (CHR '' '' # k) = k"
    using assms(1,3) trim_id [of k] trim_id [of v] by (auto simp: list_all_iff trim_def is_space_def)
  ultimately show "cookie_part (k @ ''='' @ v) out = jm_set k v out" "cookie_part ('' '' @ k @ ''='' @ v) out = jm_set k v out"
    using find_first_char [of "CHR ''=''" k v] find_first_char [of "CHR ''=''" "CHR '' '' # k" v] assms(2)
    by (simp_all add: cookie_part_def decode_plain or_else_def)
qed

text \<open>The characters of a session token and of a forgery token.\<close>

definition token_char :: "char \<Rightarrow> bool" where
  "token_char c \<longleftrightarrow> c \<in> set b64_alphabet \<or> c = CHR ''.''"

lemma token_char_plain: "token_char c \<Longrightarrow> uri_unreserved c \<and> \<not> is_space c \<and> c \<noteq> CHR ''%'' \<and> c \<noteq> CHR '';''"
  by (auto simp: token_char_def b64_alphabet_def uri_unreserved_def is_space_def)

lemma b64_token: "list_all token_char (b64url_encode s)"
  using b64url_chars by (auto simp: list_all_iff token_char_def)

lemma session_token_chars: "list_all token_char (fst (signSession K sub role ttl now secret))"
  using b64_token by (simp add: signSession_def Let_def signature_def token_char_def)

lemma token_plain:
  "list_all token_char t \<Longrightarrow> encodeURIComponent t = t \<and> list_all (\<lambda>c. \<not> is_space c \<and> c \<noteq> CHR ''%'') t \<and> CHR '';'' \<notin> set t"
  using token_char_plain encode_unreserved [of t] by (auto simp: list_all_iff)

lemma session_cookie_pair:
  "list_all token_char t \<Longrightarrow> cookie_pair (buildSessionCookie utc SESSION_COOKIE t e secure None) = SESSION_COOKIE @ ''='' @ t"
  using token_plain [of t] hd_split [of "CHR '';''" "SESSION_COOKIE @ ''='' @ t"]
  by (simp add: cookie_pair_def buildSessionCookie_def SESSION_COOKIE_def)

lemma csrf_cookie_pair:
  "list_all token_char t \<Longrightarrow> cookie_pair (buildCsrfCookie t secure) = CSRF_COOKIE @ ''='' @ t"
  using token_plain [of t] hd_split [of "CHR '';''" "CSRF_COOKIE @ ''='' @ t"]
  by (simp add: cookie_pair_def buildCsrfCookie_def CSRF_COOKIE_def)

lemma cookies_return:
  assumes "list_all token_char s" "list_all token_char t"
  shows "parseCookieHeader (HOne (SESSION_COOKIE @ ''='' @ s @ ''; '' @ CSRF_COOKIE @ ''='' @ t)) = [(SESSION_COOKIE, s), (CSRF_COOKIE, t)]"
proof -
  have names: "list_all (\<lambda>c. \<not> is_space c \<and> c \<noteq> CHR ''='') n \<and> n \<noteq> [] \<and> CHR '';'' \<notin> set n" if "n \<in> {SESSION_COOKIE, CSRF_COOKIE}" for n
    using that by (auto simp: SESSION_COOKIE_def CSRF_COOKIE_def is_space_def)
  have "split_on CHR '';'' (SESSION_COOKIE @ ''='' @ s @ ''; '' @ CSRF_COOKIE @ ''='' @ t) =
      [SESSION_COOKIE @ ''='' @ s, '' '' @ CSRF_COOKIE @ ''='' @ t]"
    using split_on_append [of "CHR '';''" "SESSION_COOKIE @ ''='' @ s" "'' '' @ CSRF_COOKIE @ ''='' @ t"]
      split_on_none [of "CHR '';''" "'' '' @ CSRF_COOKIE @ ''='' @ t"] names token_plain assms by simp
  moreover have "SESSION_COOKIE \<noteq> []" "SESSION_COOKIE \<noteq> CSRF_COOKIE"
    by (simp_all add: SESSION_COOKIE_def CSRF_COOKIE_def)
  ultimately show ?thesis
    using cookie_part_set [of SESSION_COOKIE s] cookie_part_set [of CSRF_COOKIE t] names token_plain [OF assms(1)] token_plain [OF assms(2)]
    by (simp add: parseCookieHeader_def)
qed

lemma session_reply_pairs:
  "join_with ''; '' (map cookie_pair (rp_cookies (session_reply X cfg secret sub role))) =
     SESSION_COOKIE @ ''='' @ fst (signSession (ax_crypto X) sub role (ac_sessionTtlSec cfg) (ax_now X) secret) @ ''; '' @
     CSRF_COOKIE @ ''='' @ generateCsrfToken (ax_bytes X)"
proof -
  have "list_all token_char (generateCsrfToken (ax_bytes X))" by (simp add: generateCsrfToken_def b64_token)
  moreover obtain t e where t: "signSession (ax_crypto X) sub role (ac_sessionTtlSec cfg) (ax_now X) secret = (t, e)"
    by (metis surj_pair)
  moreover have "list_all token_char t"
    using session_token_chars [of "ax_crypto X" sub role "ac_sessionTtlSec cfg" "ax_now X" secret] t by simp
  ultimately show ?thesis
    using session_cookie_pair [of t] csrf_cookie_pair by (simp add: session_reply_def plain_reply_def Let_def)
qed

lemma browser_returns_session:
  "parseCookieHeader (or_else (jm_get (hr_headers (browser_request (rp_cookies (session_reply X cfg secret sub role)) rq)) ''cookie'') HAbsent) =
    [(SESSION_COOKIE, fst (signSession (ax_crypto X) sub role (ac_sessionTtlSec cfg) (ax_now X) secret)),
     (CSRF_COOKIE, generateCsrfToken (ax_bytes X))]"
  using cookies_return [OF session_token_chars b64_token, of "ax_crypto X" sub role "ac_sessionTtlSec cfg" "ax_now X" secret "ax_bytes X"]
  by (simp add: browser_request_def or_else_def session_reply_pairs generateCsrfToken_def)

lemma security_hook_pass:
  "security_hook cfg rq = Pass rq1 \<Longrightarrow>
     rq1 = rq\<lparr>hr_cookies := parseCookieHeader (or_else (jm_get (hr_headers rq) ''cookie'') HAbsent)\<rparr>"
  by (auto simp: security_hook_def Let_def split: if_splits)

lemma static_login_reply:
  assumes "login X cfg rq body rl = (r, ev, rl1)" "rp_status r = 200" "ac_authMode cfg = AmStaticToken"
  shows "\<exists>secret. session_secret cfg = Some secret \<and> Some (trim (or_else body [])) = ac_adminToken cfg \<and>
    r = session_reply X cfg secret ''admin-token'' (ac_adminTokenRole cfg)"
  using assms
  by (auto simp: login_def login_static_def Let_def error_reply_def plain_reply_def safeEqual_def or_else_def
      split: prod.splits if_splits option.splits)

lemma session_returns:
  assumes "session_secret cfg = Some secret" "ac_authMode cfg \<noteq> AmDisabled" "sub \<noteq> []" "role \<noteq> []"
    and "\<And>c. ak_dec (ax_crypto X) (ak_enc (ax_crypto X) c) = Some c"
    and "security_hook cfg (browser_request (rp_cookies (session_reply X cfg secret sub role)) rq) = Pass rq1"
    and "1000 \<le> later" "later div 1000 \<le> ax_now X div 1000 + or_else (ac_sessionTtlSec cfg) 28800"
  shows "resolveActor (ax_crypto X) cfg later rq1 =
      Some \<lparr>aa_id = sub, aa_role = role, aa_method = MethodSession, aa_ip = clientIp rq\<rparr>"
proof -
  let ?t = "fst (signSession (ax_crypto X) sub role (ac_sessionTtlSec cfg) (ax_now X) secret)"
  have ver: "verifySession (ax_crypto X) ?t secret later = Some (new_claims sub role (or_else (ac_sessionTtlSec cfg) 28800) (ax_now X))"
    by (rule session_roundtrip) (use assms in auto)
  then have "?t \<noteq> []" by (auto simp: verifySession_def)
  moreover have "hr_cookies rq1 = [(SESSION_COOKIE, ?t), (CSRF_COOKIE, generateCsrfToken (ax_bytes X))]"
    using security_hook_pass [OF assms(6)] browser_returns_session by simp
  moreover have "clientIp rq1 = clientIp rq"
    using security_hook_pass [OF assms(6)] by (simp add: clientIp_def browser_request_def split: option.split)
  ultimately have "session_actor (ax_crypto X) cfg later rq1 =
      Some \<lparr>aa_id = sub, aa_role = role, aa_method = MethodSession, aa_ip = clientIp rq\<rparr>"
    using ver assms(1) by (simp add: session_actor_def truthy_text_def or_else_def new_claims_def)
  then show ?thesis using assms(2) by (simp add: resolveActor_def)
qed

text \<open>
  C7. In the static-token mode a login succeeds only with the admin token, and a browser that sends back the cookies of
  that reply is then the administrator for as long as the session lasts, with no other credential.
\<close>

theorem login_session_roundtrip:
  assumes "login X cfg rq0 body rl = (r, ev, rl1)" "rp_status r = 200" "ac_authMode cfg = AmStaticToken"
    and "\<And>c. ak_dec (ax_crypto X) (ak_enc (ax_crypto X) c) = Some c"
    and "security_hook cfg (browser_request (rp_cookies r) rq) = Pass rq1" "ac_adminTokenRole cfg \<noteq> []"
    and "1000 \<le> later" "later div 1000 \<le> ax_now X div 1000 + or_else (ac_sessionTtlSec cfg) 28800"
  shows "Some (trim (or_else body [])) = ac_adminToken cfg \<and>
    resolveActor (ax_crypto X) cfg later rq1 =
      Some \<lparr>aa_id = ''admin-token'', aa_role = ac_adminTokenRole cfg, aa_method = MethodSession, aa_ip = clientIp rq\<rparr>"
proof -
  obtain secret where sec: "session_secret cfg = Some secret" "Some (trim (or_else body [])) = ac_adminToken cfg"
    and r: "r = session_reply X cfg secret ''admin-token'' (ac_adminTokenRole cfg)"
    using static_login_reply [OF assms(1-3)] by blast
  have "security_hook cfg (browser_request (rp_cookies (session_reply X cfg secret ''admin-token'' (ac_adminTokenRole cfg))) rq) = Pass rq1"
    using assms(5) r by simp
  from session_returns [OF sec(1) _ _ assms(6) assms(4) this assms(7,8)] show ?thesis
    using sec(2) assms(3) by simp
qed

subsection \<open>Safe errors\<close>

definition safe_code_char :: "char \<Rightarrow> bool" where
  "safe_code_char c \<longleftrightarrow> (let n = of_char c :: nat in n = 95 \<or> 48 \<le> n \<and> n \<le> 57 \<or> 65 \<le> n \<and> n \<le> 90)"

lemma code_char_safe: "safe_code_char (code_char c)"
  by (auto simp: safe_code_char_def code_char_def word_char_def upper_char_def Let_def)

lemma safe_code_form: "length (safe_code e) \<le> 63 \<and> list_all safe_code_char (safe_code e)"
proof -
  let ?ok = "\<lambda>c. length c \<le> 63 \<and> list_all safe_code_char c"
  have "?ok ''INTERNAL_ERROR''" "?ok ''URL_POLICY_VIOLATION''" "?ok ''OUTBOUND_FETCH_FAILED''"
    by (simp_all add: safe_code_char_def)
  moreover have "?ok (take 64 (map code_char c))" if "length c < 64" for c
    using that code_char_safe by (simp add: list_all_iff)
  ultimately show ?thesis
    by (cases "sv_code e") (simp_all add: safe_code_def del: length_map)
qed

text \<open>
  Whatever is thrown, the error sent to a client has a status between 400 and 599, a code of at most 63 capital
  letters, digits and underscores, and a message of at most 241 characters: for a failure of the server without a code of its own, a fixed one.
\<close>

lemma safe_error_bounded:
  assumes "toSafeError L e fb = (st, code, msg)"
  shows "400 \<le> st \<and> st \<le> 599 \<and> length code \<le> 63 \<and> list_all safe_code_char code \<and> length msg \<le> 241 \<and>
    (msg = default_message \<or> or_else (sv_status e) fb < 500 \<or> code \<noteq> ''INTERNAL_ERROR'')"
proof -
  have "400 \<le> clampStatus s \<and> clampStatus s \<le> 599" for s
    by (auto simp: clampStatus_def le_floor_iff floor_le_iff)
  moreover have "length (safe_message L e) \<le> 241"
    using redactString_bounded [where n = 240] by (auto simp: safe_message_def default_message_def split: option.split)
  ultimately show ?thesis
    using assms safe_code_form [of e] by (auto simp: toSafeError_def Let_def default_message_def split: if_splits)
qed

subsection \<open>What the code does not promise\<close>

text \<open>
  Two edges of the trusted ranges. A range whose prefix is empty covers every address, since the empty text is the
  number 0; and the plain loopback address of IPv6 is never a trusted peer, since only the bracketed form is mapped to \<open>127.0.0.1\<close>.
\<close>

lemma trim_Nil: "trim [] = []"
  by (simp add: trim_def)

lemma empty_prefix_trusts_all: "isIpInCidr (dotted_quad a) (dotted_quad b @ ''/'')"
proof -
  have "CHR ''/'' \<notin> set (dotted_quad b)" using dotted_chars no_dot_slash by blast
  then show ?thesis
    using find_first_char [of "CHR ''/''" "dotted_quad b" "[]"]
    by (simp add: isIpInCidr_def ipToInt_dotted trim_dotted js_number_empty trim_Nil)
qed

lemma ipv6_loopback_untrusted: "\<not> isTrustedPeer (Some ''::1'') cidrs"
  by (simp add: isTrustedPeer_def normalizePeerIp_def unmapped_def bare_host_def trim_def is_space_def starts_with_def)

text \<open>
  A guard that does not require authentication refuses an actor of a low role where it lets an anonymous request pass.
\<close>

lemma optional_guard_prefers_nobody:
  assumes "gd_required op = Some False" "\<not> token_in_query rq"
  shows "resolveActor K cfg now rq = None \<Longrightarrow> authGuard K cfg op now rq = GuardPassed None"
    "resolveActor K cfg now rq = Some a \<Longrightarrow> \<not> roleAtLeast (aa_role a) (or_else (gd_role op) ''admin'') \<Longrightarrow>
       authGuard K cfg op now rq = GuardRefused 403 ''FORBIDDEN''"
  using assms by (simp_all add: authGuard_def)

text \<open>
  Behind a trusted peer the key of the rate limiter is the first entry of \<open>X-Forwarded-For\<close>: the one the client wrote.
\<close>

lemma forwarded_client_chooses_key:
  assumes "isTrustedPeer (hr_socketIp rq) cidrs" "hr_socketIp rq \<noteq> None" "cidrs \<noteq> []"
    "jm_get (hr_headers rq) ''x-forwarded-for'' = Some (HOne (mine @ '', '' @ rest))" "CHR '','' \<notin> set mine"
  shows "getRateLimitIp rq cidrs = Some (trim mine)"
  using assms by (auto simp: getRateLimitIp_def first_entry_def split_on_append Let_def)

text \<open>
  A session outlives its end by logging in again with itself, in the modes that take the actor of the request: the role it was made with is kept.
\<close>

lemma session_renews_itself:
  assumes "ac_authMode cfg = AmReverseProxy" "session_secret cfg = Some secret" "session_actor (ax_crypto X) cfg (ax_now X) rq = Some a"
  shows "login_actor X cfg rq = session_reply X cfg secret (aa_id a) (aa_role a)"
  using assms by (simp add: login_actor_def resolveActor_def)

text \<open>A failed login is written to the log as denied, with nothing of the token in the event.\<close>

lemma failed_login_audited:
  assumes "ac_authMode cfg = AmStaticToken" "login X cfg rq body rl = (r, evs, rl1)" "rp_status r = 401"
  shows "\<exists>ip. evs = [login_event (hr_id rq) None ip ''auth.login'' AuditDenied (Some ''invalid token'')]"
  using assms by (auto simp: login_def login_audit_def Let_def error_reply_def plain_reply_def split: prod.splits if_splits)

end
