(* ===== verification/AuthDemo.thy ===== *)
theory AuthDemo
  imports AuthFacts
begin

text \<open>
  Concrete runs of authentication: a codec for claims, a small keyed function in the place of HMAC-SHA256, a deployment
  with an admin token, and the witnesses of the theorems of \<open>AuthFacts\<close>.
\<close>

definition int_text :: "int \<Rightarrow> string" where
  "int_text i = (if i < 0 then CHR ''n'' # show_nat (nat (- i)) else show_nat (nat i))"

definition text_int :: "string \<Rightarrow> int" where
  "text_int t = (if hd t = CHR ''n'' then - int (parse_dec (tl t)) else int (parse_dec t))"

definition demo_enc :: "token_claims \<Rightarrow> string" where
  "demo_enc c = join_with ''.'' [b64url_encode (tk_sub c), b64url_encode (tk_role c), int_text (tk_iat c), int_text (tk_exp c)]"

definition demo_dec :: "string \<Rightarrow> token_claims option" where
  "demo_dec t =
     (case split_on CHR ''.'' t of
        [a, b, i, e] \<Rightarrow> Some \<lparr>tk_sub = b64url_decode a, tk_role = b64url_decode b, tk_iat = text_int i, tk_exp = text_int e\<rparr>
      | _ \<Rightarrow> None)"

definition demo_crypto :: auth_crypto where
  "demo_crypto = \<lparr>ak_mac = (\<lambda>secret t. take 4 (rev t) @ secret), ak_enc = demo_enc, ak_dec = demo_dec\<rparr>"

lemma text_int_text: "text_int (int_text i) = i"
proof -
  have "hd (show_nat n) \<noteq> CHR ''n''" for n
    using show_nat_char [of "hd (show_nat n)" n] hd_in_set [OF show_nat_not_Nil, of n] by (auto simp: is_digit_def)
  then show ?thesis by (simp add: int_text_def text_int_def)
qed

lemma int_text_no_dot: "CHR ''.'' \<notin> set (int_text i)"
  using show_nat_no [OF no_dot_slash(1)] by (simp add: int_text_def)

lemma demo_codec: "ak_dec demo_crypto (ak_enc demo_crypto c) = Some c"
proof -
  have "split_on CHR ''.'' (demo_enc c) =
      [b64url_encode (tk_sub c), b64url_encode (tk_role c), int_text (tk_iat c), int_text (tk_exp c)]"
    unfolding demo_enc_def by (rule split_on_join) (auto simp: b64url_no_sep int_text_no_dot)
  then show ?thesis
    by (simp add: demo_crypto_def demo_dec_def b64url_roundtrip text_int_text)
qed

definition demo_auth_config :: auth_config where
  "demo_auth_config =
     \<lparr>ac_nodeEnv = ''production'', ac_publicUrl = None, ac_authMode = AmStaticToken, ac_adminToken = Some ''admin'',
      ac_adminTokenRole = ''admin'', ac_authSessionSecret = None, ac_serviceJwtSecret = None, ac_proxyUserHeader = [],
      ac_proxyRoleHeader = [], ac_trustedProxyCidrs = [], ac_sessionTtlSec = Some 60, ac_corsOrigin = ''https://a.b'',
      ac_csrfEnabled = True, ac_maxQueryLength = 100, ac_maxHeaderBytes = 1000, ac_maxBodyBytes = 1000, ac_maxJsonDepth = 5\<rparr>"

definition demo_env :: auth_env where
  "demo_env = \<lparr>ax_crypto = demo_crypto, ax_now = 10000, ax_utc = (\<lambda>t. ''later''), ax_bytes = ''abc''\<rparr>"

definition demo_request :: "string \<Rightarrow> string \<Rightarrow> http_request" where
  "demo_request m url = \<lparr>hr_id = ''r'', hr_method = m, hr_url = url, hr_headers = [], hr_query = [], hr_socketIp = Some ''10.0.0.1'', hr_ip = None,
     hr_cookies = []\<rparr>"

definition demo_login :: "auth_reply \<times> audit_partial list \<times> rate_limiter" where
  "demo_login = login demo_env demo_auth_config (demo_request ''POST'' ''/v1/auth/login'') (Some '' admin '') createRateLimiter"

definition demo_cookies :: "string list" where
  "demo_cookies = rp_cookies (fst demo_login)"

definition passed :: "http_request hook_end \<Rightarrow> http_request \<Rightarrow> http_request" where
  "passed h d = (case h of Pass r \<Rightarrow> r | Refuse st code \<Rightarrow> d)"

definition demo_get :: http_request where
  "demo_get = browser_request demo_cookies (demo_request ''GET'' ''/v1/auth/me'')"

definition demo_seen :: http_request where
  "demo_seen = passed (security_hook demo_auth_config demo_get) demo_get"

lemma b64_length: "length (b64url_encode s) \<le> 2 * length s"
proof -
  let ?bits = "concat (map (\<lambda>c. bits_of 8 (of_char c)) s)"
  obtain k where k: "k < 6" "concat (groups_padded 6 ?bits) = ?bits @ replicate k False"
    using concat_groups_padded [of 6 ?bits] by auto
  have "length (concat gs) = 6 * length gs" if "\<forall>g \<in> set gs. length g = 6" for gs :: "bool list list"
    using that by (induction gs) auto
  then have "6 * length (groups_padded 6 ?bits) = length (?bits @ replicate k False)"
    using groups_padded_length k(2) by metis
  moreover have "length ?bits = 8 * length s" by (induction s) simp_all
  moreover have "length (b64url_encode s) = length (groups_padded 6 ?bits)" by (simp add: b64url_encode_def)
  moreover have "s = [] \<or> 1 \<le> length s" by (cases s) auto
  moreover have "length (groups_padded 6 []) = 0" by (subst groups_padded.simps) simp
  ultimately show ?thesis using k(1) by auto
qed

lemma security_hook_get:
  assumes "\<not> mutating (hr_method rq)" "query_length (hr_url rq) = None"
    "int (sum_list (map header_size (hr_headers rq))) \<le> ac_maxHeaderBytes cfg"
  shows "security_hook cfg rq = Pass (rq\<lparr>hr_cookies := parseCookieHeader (or_else (jm_get (hr_headers rq) ''cookie'') HAbsent)\<rparr>)"
  using assms by (simp add: security_hook_def csrf_refused_def Let_def)

lemma demo_login_reply: "fst demo_login = session_reply demo_env demo_auth_config ''admin'' ''admin-token'' ''admin''"
  by (simp add: demo_login_def login_def Let_def RATE_LIMITS_def take_unit_def createRateLimiter_def rl_cleanup_def live_bucket_def
      demo_auth_config_def login_static_def trim_def is_space_def or_else_def safeEqual_def session_secret_def truthy_text_def first_text_def
      split: prod.split)

lemma demo_login_ok: "rp_status (fst demo_login) = 200"
  by (simp add: demo_login_reply session_reply_def plain_reply_def Let_def split: prod.split)

lemma demo_session_length:
  "length (fst (signSession demo_crypto ''admin-token'' ''admin'' (Some 60) 10000 ''admin'')) \<le> 120"
proof -
  let ?c = "new_claims ''admin-token'' ''admin'' 60 10000"
  have "length (show_nat 10) = 2" "length (show_nat 70) = 2" by (simp_all add: show_nat_length)
  then have "length (demo_enc ?c) \<le> 39"
    using b64_length [of "''admin-token''"] b64_length [of "''admin''"]
    by (simp add: demo_enc_def new_claims_def int_text_def)
  moreover have "length (b64url_encode (take 4 t @ ''admin'')) \<le> 18" for t :: string
    using b64_length [of "take 4 t @ ''admin''"] by simp
  from this [of "rev (b64url_encode (demo_enc ?c))"]
  have "length (b64url_encode (take 4 (rev (b64url_encode (demo_enc ?c))) @ ''admin'')) \<le> 18" .
  moreover have "length (demo_enc ?c) \<le> 39 \<Longrightarrow> length (b64url_encode (demo_enc ?c)) \<le> 78"
    using b64_length [of "demo_enc ?c"] by simp
  ultimately show ?thesis
    by (simp add: signSession_def Let_def or_else_def signature_def demo_crypto_def)
qed

lemma demo_get_passes: "security_hook demo_auth_config demo_get = Pass demo_seen"
proof -
  have "hr_headers demo_get = [(''cookie'', HOne (SESSION_COOKIE @ ''='' @
      fst (signSession demo_crypto ''admin-token'' ''admin'' (Some 60) 10000 ''admin'') @ ''; '' @
      CSRF_COOKIE @ ''='' @ generateCsrfToken ''abc''))]"
    using session_reply_pairs [of demo_env demo_auth_config "''admin''" "''admin-token''" "''admin''"]
    by (simp add: demo_get_def browser_request_def demo_cookies_def demo_login_reply demo_request_def demo_env_def demo_auth_config_def)
  then have "int (sum_list (map header_size (hr_headers demo_get))) \<le> ac_maxHeaderBytes demo_auth_config"
    using demo_session_length b64_length [of "''abc''"]
    by (simp add: header_size_def demo_auth_config_def SESSION_COOKIE_def CSRF_COOKIE_def generateCsrfToken_def)
  moreover have "hr_method demo_get = ''GET'' \<and> hr_url demo_get = ''/v1/auth/me''"
    by (simp add: demo_get_def browser_request_def demo_request_def)
  ultimately show ?thesis
    using security_hook_get [of demo_get demo_auth_config]
    by (simp add: demo_seen_def passed_def mutating_def query_length_def)
qed

theorem login_session_roundtrip_witness:
  "resolveActor demo_crypto demo_auth_config 20000 demo_seen =
     Some \<lparr>aa_id = ''admin-token'', aa_role = ''admin'', aa_method = MethodSession, aa_ip = Some ''10.0.0.1''\<rparr>"
proof -
  obtain r ev rl1 where l: "login demo_env demo_auth_config (demo_request ''POST'' ''/v1/auth/login'') (Some '' admin '') createRateLimiter = (r, ev, rl1)"
    by (metis surj_pair)
  then have r: "r = fst demo_login" by (simp add: demo_login_def)
  have "security_hook demo_auth_config (browser_request (rp_cookies r) (demo_request ''GET'' ''/v1/auth/me'')) = Pass demo_seen"
    using demo_get_passes by (simp add: demo_get_def demo_cookies_def r)
  with login_session_roundtrip [OF l, of "demo_request ''GET'' ''/v1/auth/me''" demo_seen 20000] demo_login_ok demo_codec
  show ?thesis
    by (simp add: r demo_env_def demo_auth_config_def or_else_def clientIp_def demo_request_def strip_mapped_def unmapped_def starts_with_def)
qed

definition demo_csrf :: string where
  "demo_csrf = generateCsrfToken ''abc''"

definition demo_post :: http_request where
  "demo_post = browser_request demo_cookies ((demo_request ''POST'' ''/v1/addons'')\<lparr>hr_headers := [(''x-csrf-token'', HOne demo_csrf)]\<rparr>)"

definition demo_posted :: http_request where
  "demo_posted = passed (security_hook demo_auth_config demo_post) demo_post"

lemma demo_csrf_text: "demo_csrf \<noteq> []" "length demo_csrf \<le> 6"
proof -
  have "b64url_encode [] = []" by (simp add: b64url_encode_def groups_padded.simps)
  then have "b64url_decode [] = []" using b64url_roundtrip [of "[]"] by simp
  then show "demo_csrf \<noteq> []" using b64url_roundtrip [of "''abc''"] by (auto simp: demo_csrf_def generateCsrfToken_def)
  show "length demo_csrf \<le> 6" using b64_length [of "''abc''"] by (simp add: demo_csrf_def generateCsrfToken_def)
qed

lemma demo_post_headers:
  "hr_headers demo_post = [(''x-csrf-token'', HOne demo_csrf), (''cookie'', HOne (SESSION_COOKIE @ ''='' @
     fst (signSession demo_crypto ''admin-token'' ''admin'' (Some 60) 10000 ''admin'') @ ''; '' @ CSRF_COOKIE @ ''='' @ demo_csrf))]"
  using session_reply_pairs [of demo_env demo_auth_config "''admin''" "''admin-token''" "''admin''"]
  by (simp add: demo_post_def browser_request_def demo_cookies_def demo_login_reply demo_request_def demo_env_def demo_auth_config_def demo_csrf_def)

lemma demo_post_passes: "security_hook demo_auth_config demo_post = Pass demo_posted"
proof -
  have "int (sum_list (map header_size (hr_headers demo_post))) \<le> ac_maxHeaderBytes demo_auth_config"
    using demo_session_length demo_csrf_text(2)
    by (simp add: demo_post_headers header_size_def demo_auth_config_def SESSION_COOKIE_def CSRF_COOKIE_def)
  moreover have "parseCookieHeader (or_else (jm_get (hr_headers demo_post) ''cookie'') HAbsent) =
      [(SESSION_COOKIE, fst (signSession demo_crypto ''admin-token'' ''admin'' (Some 60) 10000 ''admin'')), (CSRF_COOKIE, demo_csrf)]"
    using cookies_return [OF session_token_chars b64_token, of demo_crypto "''admin-token''" "''admin''" "Some 60" 10000 "''admin''" "''abc''"]
    by (simp add: demo_post_headers or_else_def demo_csrf_def generateCsrfToken_def)
  moreover have "SESSION_COOKIE \<noteq> CSRF_COOKIE" by (simp add: SESSION_COOKIE_def CSRF_COOKIE_def)
  moreover have "csrf_header demo_post = Some demo_csrf"
    by (simp add: csrf_header_def demo_post_headers CSRF_HEADER_def)
  moreover have "hr_url demo_post = ''/v1/addons''"
    by (simp add: demo_post_def browser_request_def demo_request_def)
  ultimately show ?thesis
    by (simp add: demo_posted_def passed_def security_hook_def query_length_def csrf_refused_def Let_def or_else_def demo_csrf_text)
qed

lemma demo_guard:
  "authGuard demo_crypto demo_auth_config \<lparr>gd_role = None, gd_required = None\<rparr> 20000 demo_posted =
     GuardPassed (Some \<lparr>aa_id = ''admin-token'', aa_role = ''admin'', aa_method = MethodSession, aa_ip = Some ''10.0.0.1''\<rparr>)"
proof -
  let ?rq = "(demo_request ''POST'' ''/v1/addons'')\<lparr>hr_headers := [(''x-csrf-token'', HOne demo_csrf)]\<rparr>"
  have "security_hook demo_auth_config (browser_request (rp_cookies (session_reply demo_env demo_auth_config ''admin'' ''admin-token'' ''admin'')) ?rq) =
      Pass demo_posted"
    using demo_post_passes by (simp add: demo_post_def demo_cookies_def demo_login_reply)
  from session_returns [OF _ _ _ _ _ this, of 20000]
  have "resolveActor demo_crypto demo_auth_config 20000 demo_posted =
      Some \<lparr>aa_id = ''admin-token'', aa_role = ''admin'', aa_method = MethodSession, aa_ip = Some ''10.0.0.1''\<rparr>"
    using demo_codec
    by (simp add: demo_env_def demo_auth_config_def session_secret_def truthy_text_def first_text_def or_else_def clientIp_def demo_request_def
        strip_mapped_def unmapped_def starts_with_def)
  moreover have "hr_query demo_posted = []"
    using arg_cong [OF security_hook_pass [OF demo_post_passes], of hr_query]
    by (simp add: demo_post_def browser_request_def demo_request_def)
  ultimately show ?thesis
    by (simp add: authGuard_def token_in_query_def query_has_def jnullish_def roleAtLeast_def ROLE_RANK_def or_else_def)
qed

theorem session_mutation_not_forged_witness: "csrf_header demo_post \<noteq> None"
proof -
  have "mutating (hr_method demo_post)" "\<not> csrf_exempt (hr_url demo_post)" "ac_csrfEnabled demo_auth_config"
    by (simp_all add: demo_post_def browser_request_def demo_request_def mutating_def csrf_exempt_def starts_with_def demo_auth_config_def)
  from session_mutation_not_forged [OF demo_post_passes demo_guard _ this(3,1,2)] show ?thesis by auto
qed


theorem safe_error_bounded_witness:
  "list_all safe_code_char (safe_code \<lparr>sv_isObject = True, sv_status = None, sv_code = Some ''bad code'', sv_name = None, sv_message = None\<rparr>)"
proof -
  let ?e = "\<lparr>sv_isObject = True, sv_status = None, sv_code = Some ''bad code'', sv_name = None, sv_message = None\<rparr>"
  obtain st code msg where s: "toSafeError plain_lib ?e 500 = (st, code, msg)" by (metis surj_pair)
  from safe_error_bounded [OF s] s show ?thesis by (auto simp: toSafeError_def Let_def)
qed

theorem cidr_prefix_exact_witness: "isIpInCidr (dotted_quad 0x0A010203) (dotted_quad 0x0A000000 @ ''/'' @ show_nat 8)"
  using cidr_prefix_exact [of 8 "0x0A010203" "0x0A000000"] by simp

end
