(* ===== verification/Config.thy ===== *)
theory Config
  imports Numbers Sources Auth Addons Egress
begin

text \<open>
  The settings of the process, \<open>src/config.ts\<close>: reading the environment, the list of federated backends and the checks
  that keep an unsafe production process from starting. The URL parser, \<open>JSON.parse\<close> and the place of a file beside
  another (\<open>path\<close> with the working directory) are arguments; numbers are the rationals \<open>Number\<close> gives. A setting is
  read under the name of its variable.
\<close>

subsection \<open>Variables\<close>

text \<open>\<open>process.env[name]\<close> when it is set and not empty.\<close>

definition env_set :: "process_env \<Rightarrow> string \<Rightarrow> string option" where
  "env_set env name = truthy_text (env name)"

definition envStr :: "process_env \<Rightarrow> string \<Rightarrow> string \<Rightarrow> string" where
  "envStr env name fallback = (case env_set env name of None \<Rightarrow> fallback | Some v \<Rightarrow> trim v)"

definition envNum :: "process_env \<Rightarrow> string \<Rightarrow> rat \<Rightarrow> rat" where
  "envNum env name fallback = (case env_set env name of None \<Rightarrow> fallback | Some v \<Rightarrow> or_else (js_number v) fallback)"

definition envBool :: "process_env \<Rightarrow> string \<Rightarrow> bool \<Rightarrow> bool" where
  "envBool env name fallback =
     (case env_set env name of None \<Rightarrow> fallback | Some v \<Rightarrow> env_words [''1'', ''true'', ''yes'', ''on''] (trim v))"

definition text_list :: "string \<Rightarrow> string list" where
  "text_list v = filter (\<lambda>s. s \<noteq> []) (map trim (split_on CHR '','' v))"

definition envList :: "process_env \<Rightarrow> string \<Rightarrow> string list" where
  "envList env name = (case env_set env name of None \<Rightarrow> [] | Some v \<Rightarrow> text_list v)"

definition budget_entry :: "string \<times> json \<Rightarrow> (string \<times> int) option" where
  "budget_entry e =
     (case snd e of JNum n \<Rightarrow> if 0 \<le> n \<and> fst e \<noteq> ''__proto__'' then Some (fst e, \<lfloor>n\<rfloor>) else None | _ \<Rightarrow> None)"

definition envJsonRecord :: "(string \<Rightarrow> json option) \<Rightarrow> process_env \<Rightarrow> string \<Rightarrow> (string, int) jsmap" where
  "envJsonRecord parse env name =
     (case env_set env name of
        None \<Rightarrow> []
      | Some v \<Rightarrow> (case parse v of Some (JObj fs) \<Rightarrow> List.map_filter budget_entry fs | _ \<Rightarrow> []))"

definition env_opt :: "process_env \<Rightarrow> string \<Rightarrow> string option" where
  "env_opt env name = truthy_text (Some (envStr env name []))"

subsection \<open>Federated backends\<close>

record federated_backend =
  fb_name :: string
  fb_baseUrl :: string
  fb_priority :: rat
  fb_token :: "string option"

datatype backend_error =
    BadBackendName string | DuplicateBackend string | BadBackendUrl string | BadBackendProtocol string
  | BackendHasPath string | BadBackendPriority string

text \<open>\<open>/^[a-z0-9][a-z0-9-]{0,48}$/\<close>.\<close>

definition name_char :: "char \<Rightarrow> bool" where
  "name_char c \<longleftrightarrow> CHR ''a'' \<le> c \<and> c \<le> CHR ''z'' \<or> is_digit c"

definition backend_name :: "string \<Rightarrow> bool" where
  "backend_name s \<longleftrightarrow>
     s \<noteq> [] \<and> length s \<le> 49 \<and> name_char (hd s) \<and> list_all (\<lambda>c. name_char c \<or> c = CHR ''-'') (tl s)"

definition nth_part :: "nat \<Rightarrow> string list \<Rightarrow> string" where
  "nth_part n ps = (if n < length ps then ps ! n else [])"

text \<open>The priority: 500 when the part is missing or empty; \<open>None\<close> when it is refused.\<close>

definition backend_priority :: "string \<Rightarrow> rat option" where
  "backend_priority p =
     (if p = [] then Some 500
      else case js_number p of None \<Rightarrow> None | Some n \<Rightarrow> if n < 0 \<or> 100000 < n then None else Some n)"

definition parse_backend :: "url_lib \<Rightarrow> string list \<Rightarrow> string \<Rightarrow> backend_error + federated_backend" where
  "parse_backend L seen item =
     (let parts = map trim (split_on CHR ''|'' item); name = nth_part 0 parts in
      if name = [] \<or> \<not> backend_name name then Inl (BadBackendName name)
      else if name \<in> set seen then Inl (DuplicateBackend name)
      else case ul_parse L (nth_part 1 parts) of
        None \<Rightarrow> Inl (BadBackendUrl name)
      | Some u \<Rightarrow>
          if pu_protocol u \<noteq> ''https:'' \<and> pu_protocol u \<noteq> ''http:'' then Inl (BadBackendProtocol name)
          else if fu_pathname u \<noteq> [] \<and> fu_pathname u \<noteq> ''/'' then Inl (BackendHasPath name)
          else case backend_priority (nth_part 2 parts) of
            None \<Rightarrow> Inl (BadBackendPriority name)
          | Some p \<Rightarrow>
              Inr \<lparr>fb_name = name, fb_baseUrl = strip_slash (url_text u), fb_priority = p,
                   fb_token = truthy_text (Some (nth_part 3 parts))\<rparr>)"

fun parse_entries :: "url_lib \<Rightarrow> string list \<Rightarrow> string list \<Rightarrow> backend_error + federated_backend list" where
  "parse_entries L seen [] = Inr []"
| "parse_entries L seen (entry # rest) =
     (if trim entry = [] then parse_entries L seen rest
      else case parse_backend L seen (trim entry) of
        Inl e \<Rightarrow> Inl e
      | Inr b \<Rightarrow>
          (case parse_entries L (fb_name b # seen) rest of
             Inl e \<Rightarrow> Inl e
           | Inr bs \<Rightarrow> Inr (b # bs)))"

definition parseBackendsSpec :: "url_lib \<Rightarrow> string \<Rightarrow> backend_error + federated_backend list" where
  "parseBackendsSpec L spec =
     (if trim spec = [] then Inr [] else parse_entries L [] (split_on CHR '','' (trim spec)))"

subsection \<open>Words\<close>

definition parseAuthMode :: "string \<Rightarrow> string \<Rightarrow> bool \<Rightarrow> auth_mode" where
  "parseAuthMode raw nodeEnv hasToken =
     (let v = to_lower (trim raw) in
      case find (\<lambda>m. auth_mode_name m = v) [AmDisabled, AmStaticToken, AmOidc, AmReverseProxy, AmServiceJwt] of
        Some m \<Rightarrow> m
      | None \<Rightarrow> if nodeEnv = ''production'' \<or> hasToken then AmStaticToken else AmDisabled)"

definition role_of_text :: "string \<Rightarrow> string \<Rightarrow> string" where
  "role_of_text raw fallback =
     (let v = to_lower (trim raw) in if v = ''viewer'' \<or> v = ''operator'' \<or> v = ''admin'' then v else fallback)"

definition parseLogLevel :: "string \<Rightarrow> string \<Rightarrow> string" where
  "parseLogLevel raw nodeEnv =
     (let v = to_lower (trim raw) in
      if v \<in> set [''trace'', ''debug'', ''info'', ''warn'', ''error'', ''fatal''] then v
      else if nodeEnv = ''production'' then ''info'' else ''debug'')"

definition parseLogFormat :: "string \<Rightarrow> string \<Rightarrow> string" where
  "parseLogFormat raw nodeEnv =
     (let v = to_lower (trim raw) in
      if v \<in> set [''json'', ''pretty'', ''text''] then v
      else if nodeEnv = ''production'' then ''json'' else ''pretty'')"

datatype cache_type = MemoryCache | RedisCache
datatype store_type = FileStoreType | RedisStore | PostgresStore

definition store_of_text :: "string \<Rightarrow> store_type" where
  "store_of_text raw =
     (let s = to_lower raw in
      if s = ''redis'' then RedisStore else if s = ''postgres'' \<or> s = ''postgresql'' then PostgresStore else FileStoreType)"

definition min_trust_of_text :: "string \<Rightarrow> trust_level" where
  "min_trust_of_text v = (if v = ''trusted'' then Trusted else if v = ''known'' then Known else Unknown)"

subsection \<open>The configuration\<close>

text \<open>\<open>AppConfig\<close>, in five parts.\<close>

record concurrency_config =
  cc_bulkScrape :: rat
  cc_progressiveScrape :: rat
  cc_providerStream :: rat
  cc_outboundHost :: rat
  cc_subtitles :: rat
  cc_manifest :: rat
  cc_health :: rat
  cc_debrid :: rat
  cc_proxyStream :: rat
  cc_hlsSegment :: rat
  cc_queueMax :: rat
  cc_queueTimeoutMs :: rat

record service_config =
  cf_host :: string
  cf_port :: rat
  cf_publicUrl :: "string option"
  cf_corsOrigin :: string
  cf_nodeEnv :: string
  cf_internalDebug :: bool
  cf_tmdbApiKey :: string
  cf_tmdbApiBaseUrl :: string
  cf_tmdbCacheTTL :: rat
  cf_cacheType :: cache_type
  cf_redis :: "string \<times> rat \<times> string option"
  cf_store :: store_type
  cf_databaseUrl :: "string option"
  cf_dataFile :: string
  cf_seedUrls :: "string list"
  cf_jobWorkerConcurrency :: rat
  cf_jobPollIntervalMs :: rat
  cf_cacheTtlSources :: rat
  cf_cacheSwrSec :: rat

record access_config = service_config +
  cf_adminEnabled :: bool
  cf_adminToken :: "string option"
  cf_authMode :: auth_mode
  cf_allowInsecureAdmin :: bool
  cf_adminTokenRole :: string
  cf_authSessionSecret :: "string option"
  cf_serviceJwtSecret :: "string option"
  cf_proxyUserHeader :: string
  cf_proxyRoleHeader :: string
  cf_trustedProxyCidrs :: "string list"
  cf_sessionTtlSec :: rat
  cf_enableNativeAddon :: bool
  cf_debridProvider :: string
  cf_debridApiKey :: string
  cf_debridMaxUserTransfers :: rat
  cf_debridMaxGlobalTransfers :: rat
  cf_healthIntervalMinutes :: rat
  cf_autoRefresh :: bool
  cf_secretsMasterKey :: "string option"
  cf_requireSecretsMasterKey :: bool

record import_config = access_config +
  cf_allowHttpUpstreams :: bool
  cf_outboundHostAllowlist :: "string list"
  cf_outboundHostAllowSuffixes :: "string list"
  cf_importMaxUrls :: rat
  cf_importMaxConcurrent :: rat
  cf_importMaxBytes :: rat
  cf_importTimeoutMs :: rat
  cf_importEnableOnInstall :: bool
  cf_catalogMaxItems :: rat
  cf_subtitleFallbackEnabled :: bool
  cf_subtitleFallbackUrl :: string
  cf_subtitleFallbackTimeoutMs :: rat
  cf_subtitleMaxResults :: rat
  cf_sourceRankingEnabled :: bool
  cf_marketplaceTrustedIds :: "string list"
  cf_marketplaceTrustedFingerprints :: "string list"
  cf_marketplaceBlockedIds :: "string list"
  cf_marketplaceBlockedFingerprints :: "string list"
  cf_marketplaceMinTrustForEnable :: trust_level
  cf_marketplaceEnforceDenylist :: bool
  cf_federationEnabled :: bool
  cf_federationBackends :: "federated_backend list"
  cf_federationTimeoutMs :: rat

record proxy_config = import_config +
  cf_secureProxy :: bool
  cf_allowLegacyProxy :: bool
  cf_playbackGrantSecret :: "string option"
  cf_playbackGrantTtlSec :: rat
  cf_proxyTimeoutMs :: rat
  cf_proxyMaxManifestBytes :: rat
  cf_proxyMaxBufferBytes :: rat
  cf_proxyMaxStreamBytes :: rat
  cf_maxBodyBytes :: rat
  cf_maxQueryLength :: rat
  cf_maxHeaderBytes :: rat
  cf_maxJsonDepth :: rat
  cf_globalRequestTimeoutMs :: rat
  cf_auditLogFile :: string
  cf_auditEnabled :: bool
  cf_importMaxBatchBytes :: rat
  cf_importJobTimeoutMs :: rat
  cf_csrfEnabled :: bool
  cf_logLevel :: string
  cf_logFormat :: string
  cf_tracingEnabled :: bool
  cf_tracingPropagateToUpstream :: bool
  cf_healthStaleThresholdMinutes :: rat
  cf_healthDegradedMinProvidersRatio :: rat

record app_config = proxy_config +
  cf_concurrency :: concurrency_config
  cf_terminationGracePeriodMs :: rat
  cf_shutdownDrainJobs :: bool
  cf_clusterBusEnabled :: bool
  cf_maxConcurrentStreamsPerIp :: rat
  cf_maxConcurrentStreamsPerUser :: rat
  cf_maxConcurrentStreamsGlobal :: rat
  cf_bulkMaxProvidersPerRequest :: rat
  cf_sourceLookupDeadlineMs :: rat
  cf_playbackGrantMaxActive :: rat
  cf_playbackGrantMaxPerRequest :: rat
  cf_providerDailyCallBudget :: rat
  cf_providerBudgetOverrides :: "(string, int) jsmap"
  cf_egressDailyBudgetMb :: rat
  cf_egressProxyDailyBudgetMb :: rat
  cf_scrapeRateLimitPerMin :: rat
  cf_anonScrapeRateLimitPerMin :: rat
  cf_proxyRateLimitPerMin :: rat
  cf_quarantineEnabled :: bool
  cf_quarantineOpenThreshold :: rat
  cf_quarantineWindowMs :: rat
  cf_quarantineTtlMs :: rat

text \<open>What \<open>loadConfig\<close> asks of its surroundings; \<open>cg_beside f name\<close> is the file \<open>name\<close> in the directory of \<open>f\<close>.\<close>

record config_lib =
  cg_url :: url_lib
  cg_json :: "string \<Rightarrow> json option"
  cg_beside :: "string \<Rightarrow> string \<Rightarrow> string"

definition TMDB_DEFAULT :: string where
  "TMDB_DEFAULT = ''https://api.themoviedb.org/3''"

definition load_concurrency :: "process_env \<Rightarrow> concurrency_config" where
  "load_concurrency env =
     \<lparr>cc_bulkScrape = envNum env ''CONCURRENCY_BULK_SCRAPE'' 8,
      cc_progressiveScrape = envNum env ''CONCURRENCY_PROGRESSIVE_SCRAPE'' 16,
      cc_providerStream = envNum env ''CONCURRENCY_PROVIDER_STREAM'' 4,
      cc_outboundHost = envNum env ''CONCURRENCY_OUTBOUND_HOST'' 8,
      cc_subtitles = envNum env ''CONCURRENCY_SUBTITLES'' 8,
      cc_manifest = envNum env ''CONCURRENCY_MANIFEST'' 6,
      cc_health = envNum env ''CONCURRENCY_HEALTH'' 4,
      cc_debrid = envNum env ''CONCURRENCY_DEBRID'' 6,
      cc_proxyStream = envNum env ''CONCURRENCY_PROXY_STREAM'' 32,
      cc_hlsSegment = envNum env ''CONCURRENCY_HLS_SEGMENT'' 64,
      cc_queueMax = envNum env ''CONCURRENCY_QUEUE_MAX'' 200,
      cc_queueTimeoutMs = envNum env ''CONCURRENCY_QUEUE_TIMEOUT_MS'' 5000\<rparr>"

definition load_grant_secret :: "process_env \<Rightarrow> bool \<Rightarrow> string option" where
  "load_grant_secret env isProd =
     (if isProd then env_opt env ''PLAYBACK_GRANT_SECRET''
      else first_text (env_opt env ''PLAYBACK_GRANT_SECRET'')
             (first_text (env_opt env ''AUTH_SESSION_SECRET'') (env_opt env ''ADMIN_TOKEN'')))"

text \<open>The object \<open>loadConfig\<close> returns, with the backends already parsed.\<close>

definition config_of :: "config_lib \<Rightarrow> process_env \<Rightarrow> federated_backend list \<Rightarrow> app_config" where
  "config_of G env backends =
     (let nodeEnv = envStr env ''NODE_ENV'' ''development'';
          isProd = (nodeEnv = ''production'');
          adminToken = env_opt env ''ADMIN_TOKEN'';
          dataFile = envStr env ''ADDONS_DATA_FILE'' ''./data/addons.json'';
          tmdb = strip_slash (envStr env ''TMDB_API_BASE_URL'' TMDB_DEFAULT);
          cidrs = default_text (envStr env ''TRUSTED_PROXY_CIDRS'' []) (envStr env ''AUTH_TRUSTED_PROXY_CIDRS'' [])
      in
     \<lparr>cf_host = envStr env ''HOST'' ''localhost'',
      cf_port = envNum env ''PORT'' 3006,
      cf_publicUrl = env_opt env ''PUBLIC_URL'',
      cf_corsOrigin = envStr env ''CORS_ORIGIN'' (if isProd then [] else ''*''),
      cf_nodeEnv = nodeEnv,
      cf_internalDebug = envBool env ''INTERNAL_DEBUG'' False,
      cf_tmdbApiKey = envStr env ''TMDB_API_KEY'' [],
      cf_tmdbApiBaseUrl = default_text tmdb TMDB_DEFAULT,
      cf_tmdbCacheTTL = envNum env ''TMDB_CACHE_TTL'' 86400,
      cf_cacheType = (if envStr env ''CACHE_TYPE'' (if isProd then ''redis'' else ''memory'') = ''redis''
                      then RedisCache else MemoryCache),
      cf_redis = (envStr env ''REDIS_HOST'' ''localhost'', envNum env ''REDIS_PORT'' 6379, env_opt env ''REDIS_PASSWORD''),
      cf_store = store_of_text (envStr env ''ADDONS_STORE'' ''file''),
      cf_databaseUrl = env_opt env ''DATABASE_URL'',
      cf_dataFile = dataFile,
      cf_seedUrls = envList env ''ADDONS_SEED_URLS'',
      cf_jobWorkerConcurrency = envNum env ''JOB_WORKER_CONCURRENCY'' 4,
      cf_jobPollIntervalMs = envNum env ''JOB_POLL_INTERVAL_MS'' 1000,
      cf_cacheTtlSources = envNum env ''CACHE_TTL_SOURCES'' 3600,
      cf_cacheSwrSec = envNum env ''CACHE_SWR_SEC'' 300,
      cf_adminEnabled = envBool env ''ADMIN_ENABLED'' True,
      cf_adminToken = adminToken,
      cf_authMode = parseAuthMode (envStr env ''AUTH_MODE'' []) nodeEnv (adminToken \<noteq> None),
      cf_allowInsecureAdmin = envBool env ''ALLOW_INSECURE_ADMIN'' False,
      cf_adminTokenRole = role_of_text (envStr env ''ADMIN_TOKEN_ROLE'' []) ''admin'',
      cf_authSessionSecret = first_text (env_opt env ''AUTH_SESSION_SECRET'') adminToken,
      cf_serviceJwtSecret = env_opt env ''SERVICE_JWT_SECRET'',
      cf_proxyUserHeader = envStr env ''AUTH_PROXY_USER_HEADER'' ''x-forwarded-user'',
      cf_proxyRoleHeader = envStr env ''AUTH_PROXY_ROLE_HEADER'' ''x-forwarded-role'',
      cf_trustedProxyCidrs = (if cidrs = [] then [] else text_list cidrs),
      cf_sessionTtlSec = envNum env ''AUTH_SESSION_TTL_SEC'' 28800,
      cf_enableNativeAddon = envBool env ''STREMIO_ADDON'' False,
      cf_debridProvider = envStr env ''DEBRID_PROVIDER'' ''none'',
      cf_debridApiKey = envStr env ''DEBRID_API_KEY'' [],
      cf_debridMaxUserTransfers = envNum env ''DEBRID_MAX_USER_TRANSFERS'' 3,
      cf_debridMaxGlobalTransfers = envNum env ''DEBRID_MAX_GLOBAL_TRANSFERS'' 10,
      cf_healthIntervalMinutes = envNum env ''ADDON_HEALTH_INTERVAL_MINUTES'' 15,
      cf_autoRefresh = envBool env ''ADDON_AUTO_REFRESH'' False,
      cf_secretsMasterKey = env_opt env ''SECRETS_MASTER_KEY'',
      cf_requireSecretsMasterKey = envBool env ''REQUIRE_SECRETS_MASTER_KEY'' isProd,
      cf_allowHttpUpstreams = envBool env ''ALLOW_HTTP_UPSTREAMS'' (\<not> isProd),
      cf_outboundHostAllowlist = envList env ''OUTBOUND_HOST_ALLOWLIST'',
      cf_outboundHostAllowSuffixes = envList env ''OUTBOUND_HOST_ALLOW_SUFFIXES'',
      cf_importMaxUrls = envNum env ''IMPORT_MAX_URLS'' 50,
      cf_importMaxConcurrent = envNum env ''IMPORT_MAX_CONCURRENT'' 4,
      cf_importMaxBytes = envNum env ''IMPORT_MAX_BYTES'' 1048576,
      cf_importTimeoutMs = envNum env ''IMPORT_TIMEOUT_MS'' 20000,
      cf_importEnableOnInstall = envBool env ''IMPORT_ENABLE_ON_INSTALL'' (\<not> isProd),
      cf_catalogMaxItems = envNum env ''CATALOG_MAX_ITEMS'' 100,
      cf_subtitleFallbackEnabled = envBool env ''SUBTITLE_FALLBACK_ENABLED'' False,
      cf_subtitleFallbackUrl = envStr env ''SUBTITLE_FALLBACK_URL'' [],
      cf_subtitleFallbackTimeoutMs = envNum env ''SUBTITLE_FALLBACK_TIMEOUT_MS'' 10000,
      cf_subtitleMaxResults = envNum env ''SUBTITLE_MAX_RESULTS'' 50,
      cf_sourceRankingEnabled = envBool env ''SOURCE_RANKING_ENABLED'' False,
      cf_marketplaceTrustedIds = envList env ''MARKETPLACE_TRUSTED_IDS'',
      cf_marketplaceTrustedFingerprints = envList env ''MARKETPLACE_TRUSTED_FINGERPRINTS'',
      cf_marketplaceBlockedIds = envList env ''MARKETPLACE_BLOCKED_IDS'',
      cf_marketplaceBlockedFingerprints = envList env ''MARKETPLACE_BLOCKED_FINGERPRINTS'',
      cf_marketplaceMinTrustForEnable = min_trust_of_text (envStr env ''MARKETPLACE_MIN_TRUST_FOR_ENABLE'' ''unknown''),
      cf_marketplaceEnforceDenylist = envBool env ''MARKETPLACE_ENFORCE_DENYLIST'' True,
      cf_federationEnabled = envBool env ''FEDERATION_ENABLED'' False,
      cf_federationBackends = backends,
      cf_federationTimeoutMs = envNum env ''FEDERATION_TIMEOUT_MS'' 10000,
      cf_secureProxy = envBool env ''SECURE_PROXY'' True,
      cf_allowLegacyProxy = (envBool env ''ALLOW_LEGACY_PROXY'' False \<and> \<not> isProd),
      cf_playbackGrantSecret = load_grant_secret env isProd,
      cf_playbackGrantTtlSec = envNum env ''PLAYBACK_GRANT_TTL_SEC'' 7200,
      cf_proxyTimeoutMs = envNum env ''PROXY_TIMEOUT_MS'' 30000,
      cf_proxyMaxManifestBytes = envNum env ''PROXY_MAX_MANIFEST_BYTES'' 1048576,
      cf_proxyMaxBufferBytes = envNum env ''PROXY_MAX_BUFFER_BYTES'' 2097152,
      cf_proxyMaxStreamBytes = envNum env ''PROXY_MAX_STREAM_BYTES'' 536870912,
      cf_maxBodyBytes = envNum env ''MAX_BODY_BYTES'' 1048576,
      cf_maxQueryLength = envNum env ''MAX_QUERY_LENGTH'' 4096,
      cf_maxHeaderBytes = envNum env ''MAX_HEADER_BYTES'' 16384,
      cf_maxJsonDepth = envNum env ''MAX_JSON_DEPTH'' 32,
      cf_globalRequestTimeoutMs = envNum env ''GLOBAL_REQUEST_TIMEOUT_MS'' 120000,
      cf_auditLogFile = envStr env ''AUDIT_LOG_FILE'' (cg_beside G dataFile ''audit.jsonl''),
      cf_auditEnabled = envBool env ''AUDIT_ENABLED'' True,
      cf_importMaxBatchBytes = envNum env ''IMPORT_MAX_BATCH_BYTES'' 5242880,
      cf_importJobTimeoutMs = envNum env ''IMPORT_JOB_TIMEOUT_MS'' 60000,
      cf_csrfEnabled = envBool env ''CSRF_ENABLED'' True,
      cf_logLevel = parseLogLevel (envStr env ''LOG_LEVEL'' []) nodeEnv,
      cf_logFormat = parseLogFormat (envStr env ''LOG_FORMAT'' []) nodeEnv,
      cf_tracingEnabled = envBool env ''TRACING_ENABLED'' True,
      cf_tracingPropagateToUpstream = envBool env ''TRACING_PROPAGATE_TO_UPSTREAM'' False,
      cf_healthStaleThresholdMinutes = envNum env ''HEALTH_STALE_THRESHOLD_MINUTES'' 60,
      cf_healthDegradedMinProvidersRatio = max (1/10) (min 1 (envNum env ''HEALTH_DEGRADED_MIN_RATIO'' (1/2))),
      cf_concurrency = load_concurrency env,
      cf_terminationGracePeriodMs = envNum env ''TERMINATION_GRACE_PERIOD_MS'' 15000,
      cf_shutdownDrainJobs = envBool env ''SHUTDOWN_DRAIN_JOBS'' True,
      cf_clusterBusEnabled = envBool env ''CLUSTER_BUS_ENABLED'' True,
      cf_maxConcurrentStreamsPerIp = envNum env ''MAX_CONCURRENT_STREAMS_PER_IP'' 3,
      cf_maxConcurrentStreamsPerUser = envNum env ''MAX_CONCURRENT_STREAMS_PER_USER'' 4,
      cf_maxConcurrentStreamsGlobal = envNum env ''MAX_CONCURRENT_STREAMS_GLOBAL'' 200,
      cf_bulkMaxProvidersPerRequest = envNum env ''BULK_MAX_PROVIDERS_PER_REQUEST'' 16,
      cf_sourceLookupDeadlineMs = envNum env ''SOURCE_LOOKUP_DEADLINE_MS'' 20000,
      cf_playbackGrantMaxActive = envNum env ''PLAYBACK_GRANT_MAX_ACTIVE'' 50000,
      cf_playbackGrantMaxPerRequest = envNum env ''PLAYBACK_GRANT_MAX_PER_REQUEST'' 500,
      cf_providerDailyCallBudget = envNum env ''PROVIDER_DAILY_CALL_BUDGET'' 0,
      cf_providerBudgetOverrides = envJsonRecord (cg_json G) env ''PROVIDER_BUDGET_OVERRIDES'',
      cf_egressDailyBudgetMb = envNum env ''EGRESS_DAILY_BUDGET_MB'' 0,
      cf_egressProxyDailyBudgetMb = envNum env ''EGRESS_PROXY_DAILY_BUDGET_MB'' 0,
      cf_scrapeRateLimitPerMin = envNum env ''SCRAPE_RATE_LIMIT_PER_MIN'' 30,
      cf_anonScrapeRateLimitPerMin = envNum env ''ANON_SCRAPE_RATE_LIMIT_PER_MIN'' 30,
      cf_proxyRateLimitPerMin = envNum env ''PROXY_RATE_LIMIT_PER_MIN'' 120,
      cf_quarantineEnabled = envBool env ''QUARANTINE_ENABLED'' True,
      cf_quarantineOpenThreshold = envNum env ''QUARANTINE_OPEN_THRESHOLD'' 5,
      cf_quarantineWindowMs = envNum env ''QUARANTINE_WINDOW_MS'' 3600000,
      cf_quarantineTtlMs = envNum env ''QUARANTINE_TTL_MS'' 21600000\<rparr>)"

definition loadConfig :: "config_lib \<Rightarrow> process_env \<Rightarrow> backend_error + app_config" where
  "loadConfig G env =
     (case parseBackendsSpec (cg_url G) (envStr env ''FEDERATION_BACKENDS'' []) of
        Inl e \<Rightarrow> Inl e
      | Inr backends \<Rightarrow> Inr (config_of G env backends))"

subsection \<open>The checks\<close>

definition DEV_GRANT_SECRET :: string where
  "DEV_GRANT_SECRET = ''addons-core-dev-grant-secret''"

text \<open>\<open>/^(.)\1+$/\<close>: one character, no line break, repeated.\<close>

definition one_char_repeated :: "string \<Rightarrow> bool" where
  "one_char_repeated s =
     (case s of c # d # t \<Rightarrow> c \<notin> {CHR 0x0A, CHR 0x0D} \<and> list_all (\<lambda>x. x = c) (d # t) | _ \<Rightarrow> False)"

definition isWeakSecret :: "string option \<Rightarrow> bool" where
  "isWeakSecret secret =
     (case truthy_text secret of
        None \<Rightarrow> True
      | Some s \<Rightarrow> s = DEV_GRANT_SECRET \<or> length s < 32 \<or> one_char_repeated s)"

text \<open>\<open>Buffer.from(s, 'base64')\<close>: both alphabets are read, and reading stops at the padding.\<close>

definition base64_decode :: "string \<Rightarrow> string" where
  "base64_decode s =
     b64url_decode (map (\<lambda>c. if c = CHR ''+'' then CHR ''-'' else if c = CHR ''/'' then CHR ''_'' else c)
       (takeWhile (\<lambda>c. c \<noteq> CHR ''='') s))"

definition isStrongMasterKey :: "string option \<Rightarrow> bool" where
  "isStrongMasterKey raw =
     (case truthy_text raw of
        None \<Rightarrow> False
      | Some r \<Rightarrow>
          (let t = trim r in
           if t = [] then False
           else if length t = 64 \<and> list_all is_hex t then True
           else length (base64_decode t) = 32 \<and> \<not> one_char_repeated t \<and> 32 \<le> length t))"

text \<open>The messages of the error, one constructor for each.\<close>

datatype unsafe_setting =
    AuthDisabledInProd | StaticTokenMissingInProd | JwtSecretMissingInProd | OidcReserved | PublicUrlMissing
  | PublicUrlNotHttps | PublicUrlInvalid | CorsNotExact | TmdbNotHttps | LegacyProxyEnabled | SecureProxyDisabled
  | MasterKeyMissing | MasterKeyWeak | HttpUpstreamsAllowed | GrantSecretMissing | GrantSecretWeak
  | NoTrustedProxies | AuditDisabled | CsrfDisabled | NoSharedStore | CorsWildcardMember | CorsWildcardIn string
  | OpenOnNetwork | StaticTokenMissing | JwtSecretMissing

definition if_unsafe :: "bool \<Rightarrow> unsafe_setting \<Rightarrow> unsafe_setting list" where
  "if_unsafe b e = (if b then [e] else [])"

definition public_url_errors :: "url_lib \<Rightarrow> string option \<Rightarrow> unsafe_setting list" where
  "public_url_errors L url =
     (case truthy_text url of
        None \<Rightarrow> [PublicUrlMissing]
      | Some s \<Rightarrow>
          (case ul_parse L s of
             None \<Rightarrow> [PublicUrlInvalid]
           | Some u \<Rightarrow> if_unsafe (pu_protocol u \<noteq> ''https:'') PublicUrlNotHttps))"

definition cors_member_errors :: "string \<Rightarrow> unsafe_setting list" where
  "cors_member_errors origins =
     (if origins = [] \<or> origins = ''*'' then []
      else (let parts = text_list origins in
            if_unsafe (''*'' \<in> set parts) CorsWildcardMember @
            (case find (\<lambda>p. str_includes p ''*'') parts of None \<Rightarrow> [] | Some p \<Rightarrow> [CorsWildcardIn p])))"

definition production_errors :: "url_lib \<Rightarrow> app_config \<Rightarrow> unsafe_setting list" where
  "production_errors L cfg =
     if_unsafe (cf_authMode cfg = AmDisabled) AuthDisabledInProd @
     if_unsafe (cf_authMode cfg = AmStaticToken \<and> truthy_text (cf_adminToken cfg) = None) StaticTokenMissingInProd @
     if_unsafe (cf_authMode cfg = AmServiceJwt \<and> truthy_text (cf_serviceJwtSecret cfg) = None) JwtSecretMissingInProd @
     if_unsafe (cf_authMode cfg = AmOidc) OidcReserved @
     public_url_errors L (cf_publicUrl cfg) @
     if_unsafe (cf_corsOrigin cfg = [] \<or> cf_corsOrigin cfg = ''*'') CorsNotExact @
     if_unsafe (\<not> starts_with (cf_tmdbApiBaseUrl cfg) ''https://'') TmdbNotHttps @
     if_unsafe (cf_allowLegacyProxy cfg) LegacyProxyEnabled @
     if_unsafe (\<not> cf_secureProxy cfg) SecureProxyDisabled @
     if_unsafe (cf_requireSecretsMasterKey cfg \<and> truthy_text (cf_secretsMasterKey cfg) = None) MasterKeyMissing @
     if_unsafe (truthy_text (cf_secretsMasterKey cfg) \<noteq> None \<and> \<not> isStrongMasterKey (cf_secretsMasterKey cfg)) MasterKeyWeak @
     if_unsafe (cf_allowHttpUpstreams cfg) HttpUpstreamsAllowed @
     (if truthy_text (cf_playbackGrantSecret cfg) = None then [GrantSecretMissing]
      else if_unsafe (isWeakSecret (cf_playbackGrantSecret cfg)) GrantSecretWeak) @
     if_unsafe (cf_authMode cfg = AmReverseProxy \<and> cf_trustedProxyCidrs cfg = []) NoTrustedProxies @
     if_unsafe (\<not> cf_auditEnabled cfg) AuditDisabled @
     if_unsafe (\<not> cf_csrfEnabled cfg) CsrfDisabled @
     if_unsafe (cf_cacheType cfg \<noteq> RedisCache \<and> cf_store cfg \<noteq> RedisStore) NoSharedStore @
     cors_member_errors (cf_corsOrigin cfg)"

definition loopback_host :: "string \<Rightarrow> bool" where
  "loopback_host h \<longleftrightarrow> h = ''localhost'' \<or> h = ''127.0.0.1'' \<or> h = ''::1''"

definition development_errors :: "app_config \<Rightarrow> unsafe_setting list" where
  "development_errors cfg =
     if_unsafe (cf_authMode cfg = AmDisabled \<and> \<not> cf_allowInsecureAdmin cfg \<and> \<not> loopback_host (cf_host cfg)) OpenOnNetwork"

text \<open>\<open>None\<close> when the process may start, otherwise the messages of the error it throws.\<close>

definition assertProductionSafe :: "url_lib \<Rightarrow> app_config \<Rightarrow> unsafe_setting list option" where
  "assertProductionSafe L cfg =
     (let errors = (if cf_nodeEnv cfg = ''production'' then production_errors L cfg else development_errors cfg) @
            if_unsafe (cf_authMode cfg = AmStaticToken \<and> truthy_text (cf_adminToken cfg) = None) StaticTokenMissing @
            if_unsafe (cf_authMode cfg = AmServiceJwt \<and> truthy_text (cf_serviceJwtSecret cfg) = None) JwtSecretMissing
      in if errors = [] then None else Some errors)"

text \<open>\<open>show\<close> prints a number.\<close>

definition resolvePublicUrl :: "(rat \<Rightarrow> string) \<Rightarrow> app_config \<Rightarrow> string" where
  "resolvePublicUrl show cfg =
     (case truthy_text (cf_publicUrl cfg) of
        Some url \<Rightarrow> strip_slash url
      | None \<Rightarrow>
          ''http://'' @ cf_host cfg @ (if cf_port cfg = 80 \<or> cf_port cfg = 443 then [] else '':'' @ show (cf_port cfg)))"

end
