(* ===== verification/ConfigFacts.thy ===== *)
theory ConfigFacts
  imports Config AuthFacts
begin

text \<open>What the settings of a process that starts guarantee, and where the checks fall short.\<close>

subsection \<open>The list of backends\<close>

definition backend_ok :: "federated_backend \<Rightarrow> bool" where
  "backend_ok b \<longleftrightarrow> backend_name (fb_name b) \<and> 0 \<le> fb_priority b \<and> fb_priority b \<le> 100000 \<and> fb_token b \<noteq> Some []"

lemma backend_priority_Some: "backend_priority p = Some n \<Longrightarrow> 0 \<le> n \<and> n \<le> 100000"
  by (auto simp: backend_priority_def split: if_splits option.splits)

lemma parse_backend_Inr:
  "parse_backend L seen item = Inr b \<Longrightarrow> backend_ok b \<and> fb_name b \<notin> set seen"
  by (auto simp: parse_backend_def Let_def backend_ok_def truthy_text_def or_else_def
      split: if_splits option.splits dest: backend_priority_Some)

lemma parse_entries_sound:
  "parse_entries L seen es = Inr bs \<Longrightarrow>
     distinct (map fb_name bs) \<and> set (map fb_name bs) \<inter> set seen = {} \<and> list_all backend_ok bs \<and>
     length bs = length (filter (\<lambda>e. trim e \<noteq> []) es)"
proof (induction es arbitrary: seen bs)
  case (Cons e es)
  show ?case
  proof (cases "trim e = []")
    case True
    then show ?thesis using Cons by simp
  next
    case False
    then obtain b cs where b: "parse_backend L seen (trim e) = Inr b" "parse_entries L (fb_name b # seen) es = Inr cs" "bs = b # cs"
      using Cons.prems by (auto split: sum.splits)
    then show ?thesis
      using Cons.IH [OF b(2)] parse_backend_Inr [OF b(1)] False by auto
  qed
qed simp

text \<open>
  C26. A list of backends that is accepted keeps one backend for each entry, under distinct names of the form the provider
  ids need, with priorities between 0 and 100000 and no empty token.
\<close>

theorem backends_spec_sound:
  assumes "parseBackendsSpec L spec = Inr bs"
  shows "distinct (map fb_name bs) \<and> list_all backend_ok bs \<and>
    length bs = length (filter (\<lambda>e. trim e \<noteq> []) (split_on CHR '','' (trim spec)))"
proof (cases "trim spec = []")
  case True
  then show ?thesis using assms by (simp add: parseBackendsSpec_def trim_Nil)
next
  case False
  then show ?thesis using assms parse_entries_sound [of L "[]"] by (simp add: parseBackendsSpec_def)
qed

subsection \<open>A process that starts\<close>

lemma if_unsafe_Nil [simp]: "if_unsafe b e = [] \<longleftrightarrow> \<not> b"
  by (simp add: if_unsafe_def)

lemma assert_None:
  "assertProductionSafe L cfg = None \<longleftrightarrow>
     (if cf_nodeEnv cfg = ''production'' then production_errors L cfg = [] else development_errors cfg = []) \<and>
     (cf_authMode cfg = AmStaticToken \<longrightarrow> truthy_text (cf_adminToken cfg) \<noteq> None) \<and>
     (cf_authMode cfg = AmServiceJwt \<longrightarrow> truthy_text (cf_serviceJwtSecret cfg) \<noteq> None)"
  by (simp add: assertProductionSafe_def Let_def)

lemma includes_char: "str_includes s [c] \<longleftrightarrow> c \<in> set s"
  by (induction s) (auto simp: starts_with_def)

lemma cors_members:
  assumes "cors_member_errors origins = []" "origins \<noteq> []" "origins \<noteq> ''*''"
  shows "list_all (\<lambda>p. CHR ''*'' \<notin> set p) (text_list origins)"
  using assms by (auto simp: cors_member_errors_def Let_def find_None_iff list_all_iff includes_char split: option.splits)

lemma public_url_ok:
  "public_url_errors L url = [] \<Longrightarrow> \<exists>s u. url = Some s \<and> ul_parse L s = Some u \<and> pu_protocol u = ''https:''"
  by (auto simp: public_url_errors_def truthy_text_Some split: option.splits)

text \<open>How a mode authenticates, and with what.\<close>

definition credential_set :: "app_config \<Rightarrow> bool" where
  "credential_set cfg \<longleftrightarrow>
     (case cf_authMode cfg of
        AmStaticToken \<Rightarrow> truthy_text (cf_adminToken cfg) \<noteq> None
      | AmReverseProxy \<Rightarrow> cf_trustedProxyCidrs cfg \<noteq> []
      | AmServiceJwt \<Rightarrow> truthy_text (cf_serviceJwtSecret cfg) \<noteq> None
      | _ \<Rightarrow> False)"

definition strong_secret :: "string option \<Rightarrow> bool" where
  "strong_secret secret \<longleftrightarrow> (\<exists>s. secret = Some s \<and> s \<noteq> DEV_GRANT_SECRET \<and> 32 \<le> length s \<and> \<not> one_char_repeated s)"

lemma weak_secret: "\<not> isWeakSecret secret \<Longrightarrow> strong_secret secret"
  by (cases secret) (auto simp: isWeakSecret_def strong_secret_def truthy_text_def or_else_def split: if_splits)


text \<open>The part of the settings authentication reads; its numbers are whole.\<close>

definition auth_view :: "app_config \<Rightarrow> auth_config" where
  "auth_view cfg =
     \<lparr>ac_nodeEnv = cf_nodeEnv cfg, ac_publicUrl = cf_publicUrl cfg, ac_authMode = cf_authMode cfg,
      ac_adminToken = cf_adminToken cfg, ac_adminTokenRole = cf_adminTokenRole cfg,
      ac_authSessionSecret = cf_authSessionSecret cfg, ac_serviceJwtSecret = cf_serviceJwtSecret cfg,
      ac_proxyUserHeader = cf_proxyUserHeader cfg, ac_proxyRoleHeader = cf_proxyRoleHeader cfg,
      ac_trustedProxyCidrs = cf_trustedProxyCidrs cfg, ac_sessionTtlSec = Some \<lfloor>cf_sessionTtlSec cfg\<rfloor>,
      ac_corsOrigin = cf_corsOrigin cfg, ac_csrfEnabled = cf_csrfEnabled cfg,
      ac_maxQueryLength = \<lfloor>cf_maxQueryLength cfg\<rfloor>, ac_maxHeaderBytes = \<lfloor>cf_maxHeaderBytes cfg\<rfloor>,
      ac_maxBodyBytes = \<lfloor>cf_maxBodyBytes cfg\<rfloor>, ac_maxJsonDepth = \<lfloor>cf_maxJsonDepth cfg\<rfloor>\<rparr>"

definition bare_request :: "http_request \<Rightarrow> bool" where
  "bare_request rq \<longleftrightarrow> hr_headers rq = [] \<and> hr_cookies rq = []"

lemma bare_actor: "bare_request rq \<Longrightarrow> ac_authMode cfg \<noteq> AmDisabled \<Longrightarrow> resolveActor K cfg now rq = None"
  by (auto simp: bare_request_def resolveActor_def session_actor_def static_actor_def proxy_actor_def jwt_actor_def
      extractStaticToken_def extractBearer_def headerValue_def truthy_text_def first_text_def or_else_def
      split: option.splits auth_mode.splits)

lemma config_of_fields:
  "cf_nodeEnv (config_of G env bs) = envStr env ''NODE_ENV'' ''development''"
  "cf_host (config_of G env bs) = envStr env ''HOST'' ''localhost''"
  "cf_allowInsecureAdmin (config_of G env bs) = envBool env ''ALLOW_INSECURE_ADMIN'' False"
  "cf_authSessionSecret (config_of G env bs) = first_text (env_opt env ''AUTH_SESSION_SECRET'') (env_opt env ''ADMIN_TOKEN'')"
  "cf_federationBackends (config_of G env bs) = bs"
  "cf_adminToken (config_of G env bs) = env_opt env ''ADMIN_TOKEN''"
  "cf_authMode (config_of G env bs) =
     parseAuthMode (envStr env ''AUTH_MODE'' []) (envStr env ''NODE_ENV'' ''development'') (env_opt env ''ADMIN_TOKEN'' \<noteq> None)"
  by (simp_all only: config_of_def Let_def app_config.simps proxy_config.simps import_config.simps access_config.simps
      service_config.simps)

text \<open>
  C25. When a process that was allowed to start lets a request without a header or a cookie through the guard of its
  management calls, authentication is disabled, the process is not a production one, and it listens on this host only
  or the operator has acknowledged it.
\<close>

theorem open_guard_is_acknowledged:
  assumes "loadConfig G env = Inr cfg" "assertProductionSafe (cg_url G) cfg = None" "bare_request rq"
    "adminGuard K (auth_view cfg) now rq = GuardPassed res"
  shows "cf_authMode cfg = AmDisabled \<and> envStr env ''NODE_ENV'' ''development'' \<noteq> ''production'' \<and>
    (loopback_host (envStr env ''HOST'' ''localhost'') \<or> envBool env ''ALLOW_INSECURE_ADMIN'' False)"
proof -
  obtain bs where cfg: "cfg = config_of G env bs"
    using assms(1) by (auto simp: loadConfig_def split: sum.splits)
  have "ac_authMode (auth_view cfg) = AmDisabled"
  proof (rule ccontr)
    assume "ac_authMode (auth_view cfg) \<noteq> AmDisabled"
    then show False
      using bare_actor [OF assms(3), of "auth_view cfg" K now] assms(4)
      by (simp add: adminGuard_def authGuard_def split: if_splits)
  qed
  then have off: "cf_authMode cfg = AmDisabled" by (simp add: auth_view_def)
  then have "cf_nodeEnv cfg \<noteq> ''production''" "development_errors cfg = []"
    using assms(2) by (auto simp: assert_None production_errors_def split: if_splits)
  then show ?thesis
    using off by (auto simp: development_errors_def cfg config_of_fields)
qed

subsection \<open>What the checks miss\<close>

text \<open>A blank value is not taken as missing: a number reads 0 and a text is empty, whatever the default.\<close>

lemma blank_setting_reads_zero:
  "env name = Some '' '' \<Longrightarrow> envNum env name fallback = 0 \<and> envStr env name txt = []"
  by (simp add: envNum_def envStr_def env_set_def truthy_text_def or_else_def js_number_def trim_def is_space_def)

text \<open>A master key of one repeated digit is strong: the test for repetition is made on the other form only.\<close>

lemma zero_key_is_strong: "isStrongMasterKey (Some (replicate 64 CHR ''0''))"
proof -
  have "trim (replicate 64 CHR ''0'') = replicate 64 CHR ''0''"
    by (rule trim_id) (auto simp: list_all_iff is_space_def)
  then show ?thesis
    by (simp add: isStrongMasterKey_def truthy_text_def or_else_def list_all_iff is_hex_def hex_val_def is_digit_def)
qed

text \<open>On port 443 the derived address has no port and the scheme of port 80.\<close>

lemma derived_url_loses_port:
  "cf_publicUrl cfg = None \<Longrightarrow> cf_port cfg = 443 \<Longrightarrow> resolvePublicUrl show cfg = ''http://'' @ cf_host cfg"
  by (simp add: resolvePublicUrl_def truthy_text_def or_else_def)

text \<open>Only the path of a backend's URL is refused: a query stays in the base the paths are appended to.\<close>

lemma backend_query_kept:
  assumes "ul_parse L (nth_part 1 (map trim (split_on CHR ''|'' item))) = Some u" "pu_protocol u = ''https:''"
    "fu_pathname u = ''/''" "fu_hash u = []" "fu_search u = ''?x''"
    "parse_backend L seen item = Inr b"
  shows "\<exists>origin. fb_baseUrl b = origin @ ''/?x''"
proof -
  have "fb_baseUrl b = strip_slash (url_text u)"
    using assms(1,2,3,6) by (auto simp: parse_backend_def Let_def split: if_splits option.splits)
  moreover have "url_text u = (pu_protocol u @ ''//'' @
      (if pu_username u = [] \<and> pu_password u = [] then []
       else pu_username u @ (if pu_password u = [] then [] else '':'' @ pu_password u) @ ''@'') @ url_host u) @ ''/?x''"
    using assms(3-5) by (simp add: url_text_def)
  moreover have "strip_slash (t @ ''/?x'') = t @ ''/?x''" for t
    by (simp add: strip_slash_def)
  ultimately show ?thesis by metis
qed

text \<open>The key of the sessions falls back to the admin token, whose strength is not checked.\<close>

lemma short_token_signs_sessions:
  "env_opt env ''AUTH_SESSION_SECRET'' = None \<Longrightarrow> cf_authSessionSecret (config_of G env bs) = env_opt env ''ADMIN_TOKEN''"
  by (simp add: config_of_fields first_text_def or_else_def)

end
