(* ===== verification/ConfigDemo.thy ===== *)
theory ConfigDemo
  imports ConfigFacts
begin

text \<open>Concrete environments: a production process and an open one on this host, for the theorems of \<open>ConfigFacts\<close>.\<close>

definition demo_https :: "string \<Rightarrow> full_url" where
  "demo_https h = \<lparr>pu_protocol = ''https:'', pu_username = [], pu_password = [], pu_hostname = h, pu_port = [],
     fu_pathname = ''/'', fu_search = [], fu_hash = [], fu_params = []\<rparr>"

definition demo_urls :: url_lib where
  "demo_urls = \<lparr>ul_parse = (\<lambda>s. if starts_with s ''https://'' then Some (demo_https (drop 8 s)) else None),
     ul_query = (\<lambda>q. []), ul_collate = (\<lambda>s. 0)\<rparr>"

definition demo_config_lib :: config_lib where
  "demo_config_lib = \<lparr>cg_url = demo_urls, cg_json = (\<lambda>s. None), cg_beside = (\<lambda>f n. n)\<rparr>"

definition prod_env :: process_env where
  "prod_env = jm_get
     [(''NODE_ENV'', ''production''), (''ADMIN_TOKEN'', ''a''), (''PUBLIC_URL'', ''https://p.q''),
      (''CORS_ORIGIN'', ''https://p.q''), (''PLAYBACK_GRANT_SECRET'', ''0123456789abcdef0123456789abcdef''),
      (''REQUIRE_SECRETS_MASTER_KEY'', ''no'')]"

definition prod_config :: app_config where
  "prod_config = config_of demo_config_lib prod_env []"

lemma prod_starts: "assertProductionSafe demo_urls prod_config = None"
  by code_simp

lemma prod_node: "cf_nodeEnv prod_config = ''production''"
  by (simp add: prod_config_def config_of_fields envStr_def env_set_def prod_env_def truthy_text_def or_else_def trim_def is_space_def)


definition demo_spec :: string where
  "demo_spec = ''b|https://c||t''"

definition demo_backends :: "federated_backend list" where
  "demo_backends = [\<lparr>fb_name = ''b'', fb_baseUrl = ''https://c'', fb_priority = 500, fb_token = Some ''t''\<rparr>]"

lemma demo_spec_parsed: "parseBackendsSpec demo_urls demo_spec = Inr demo_backends"
  by code_simp

theorem backends_spec_sound_witness:
  "distinct (map fb_name demo_backends) \<and> list_all backend_ok demo_backends"
  using backends_spec_sound [OF demo_spec_parsed] by blast

text \<open>Without any variable the process is a development one without authentication, on this host.\<close>

definition plain_config :: app_config where
  "plain_config = config_of demo_config_lib (\<lambda>name. None) []"

lemma plain_loaded: "loadConfig demo_config_lib (\<lambda>name. None) = Inr plain_config"
  by (simp add: loadConfig_def plain_config_def envStr_def env_set_def truthy_text_def or_else_def parseBackendsSpec_def trim_Nil)

lemma plain_variables: "envStr (\<lambda>name. None) name d = d" "env_opt (\<lambda>name. None) name = None"
  by (simp_all add: envStr_def env_set_def env_opt_def truthy_text_def or_else_def)

lemma plain_open: "cf_authMode plain_config = AmDisabled"
  by (simp add: plain_config_def config_of_fields plain_variables parseAuthMode_def trim_Nil to_lower_def Let_def)

lemma plain_starts: "assertProductionSafe (cg_url demo_config_lib) plain_config = None"
  using plain_open
  by (simp add: assert_None development_errors_def plain_config_def config_of_fields plain_variables loopback_host_def)

definition demo_bare :: http_request where
  "demo_bare = \<lparr>hr_id = ''r'', hr_method = ''GET'', hr_url = ''/'', hr_headers = [], hr_query = [], hr_socketIp = None,
     hr_ip = None, hr_cookies = []\<rparr>"

definition demo_keys :: auth_crypto where
  "demo_keys = \<lparr>ak_mac = (\<lambda>secret t. secret), ak_enc = (\<lambda>c. []), ak_dec = (\<lambda>t. None)\<rparr>"

definition demo_nobody :: auth_actor where
  "demo_nobody = \<lparr>aa_id = ''local-dev'', aa_role = ''admin'', aa_method = MethodNone, aa_ip = None\<rparr>"

lemma bare_passes: "adminGuard demo_keys (auth_view plain_config) 0 demo_bare = GuardPassed (Some demo_nobody)"
  by (simp add: adminGuard_def authGuard_def resolveActor_def auth_view_def plain_open token_in_query_def query_has_def jnullish_def
      demo_bare_def clientIp_def strip_mapped_def roleAtLeast_def ROLE_RANK_def or_else_def demo_nobody_def)

theorem open_guard_is_acknowledged_witness:
  "cf_authMode plain_config = AmDisabled \<and> loopback_host (envStr (\<lambda>name. None) ''HOST'' ''localhost'')"
  using open_guard_is_acknowledged [OF plain_loaded plain_starts _ bare_passes]
  by (simp add: bare_request_def demo_bare_def envStr_def env_set_def truthy_text_def or_else_def loopback_host_def)

end
