(* ===== verification/Federation.thy ===== *)
theory Federation
  imports Config AddonClient Capacity
begin

text \<open>
  Remote backends, \<open>src/federation/service.ts\<close>: each is asked in the order of priorities behind its own circuit and daily
  budget, and the sources are merged. A source is the JSON object the backend sent; a field whose value is not of the
  declared type is read as missing. The \<open>n\<close>-th backend of a request meets the surroundings \<open>As n\<close>.
\<close>

subsection \<open>Requests\<close>

record federation_query =
  fq_series :: bool
  fq_omdbId :: string
  fq_season :: "int option"
  fq_episode :: "int option"

definition number_text :: "int option \<Rightarrow> string" where
  "number_text n = (case n of None \<Rightarrow> ''undefined'' | Some i \<Rightarrow> show_int i)"

definition backendPath :: "string \<Rightarrow> federation_query \<Rightarrow> string" where
  "backendPath base q =
     (if fq_series q
      then base @ ''/v1/tv/'' @ encodeURIComponent (fq_omdbId q) @ ''/seasons/'' @ number_text (fq_season q) @ ''/episodes/'' @
             number_text (fq_episode q)
      else base @ ''/v1/movies/'' @ encodeURIComponent (fq_omdbId q))"

record federation_service =
  fs_backends :: "federated_backend list"
  fs_defaultTimeoutMs :: int
  fs_policy :: "url_options option"

record federation_options =
  fn_timeoutMs :: "int option"
  fn_signal :: bool
  fn_force :: bool

definition enabled_federation :: "federation_service \<Rightarrow> bool" where
  "enabled_federation F \<longleftrightarrow> fs_backends F \<noteq> []"

definition backendId :: "string \<Rightarrow> string" where
  "backendId name = ''backend:'' @ name"

definition ordered_backends :: "federation_service \<Rightarrow> federated_backend list" where
  "ordered_backends F = sort_key fb_priority (fs_backends F)"

definition backend_request :: "federation_service \<Rightarrow> federation_options \<Rightarrow> federated_backend \<Rightarrow> secure_options" where
  "backend_request F op b =
     \<lparr>sf_timeoutMs = Some (or_else (fn_timeoutMs op) (fs_defaultTimeoutMs F)), sf_maxRedirects = None,
      sf_maxBytes = Some 4194304, sf_acceptContentTypes = None, sf_policy = or_else (fs_policy F) (plain_policy False),
      sf_headers = Some (case truthy_text (fb_token b) of None \<Rightarrow> [] | Some t \<Rightarrow> [(''Authorization'', ''Bearer '' @ t)]),
      sf_viaProxy = None, sf_signal = fn_signal op\<rparr>"

subsection \<open>Status\<close>

record backend_status =
  bs_id :: string
  bs_name :: string
  bs_baseUrl :: string
  bs_priority :: rat
  bs_hasToken :: bool
  bs_circuit :: circuit_state
  bs_metrics :: metrics_view
  bs_budgetExhausted :: bool

fun status_of_backends ::
  "federated_backend list \<Rightarrow> time_ms \<Rightarrow> budget_registry \<Rightarrow> registry \<Rightarrow> backend_status list \<times> registry" where
  "status_of_backends [] now bud r = ([], r)"
| "status_of_backends (b # bs) now bud r =
     (case getState (backendId (fb_name b)) now r of
        (st, r1) \<Rightarrow>
          (case status_of_backends bs now bud r1 of
             (rest, r2) \<Rightarrow>
               (\<lparr>bs_id = backendId (fb_name b), bs_name = fb_name b, bs_baseUrl = fb_baseUrl b, bs_priority = fb_priority b,
                 bs_hasToken = (truthy_text (fb_token b) \<noteq> None), bs_circuit = st,
                 bs_metrics = getMetrics (backendId (fb_name b)) r1,
                 bs_budgetExhausted = isExhausted (backendId (fb_name b)) now bud\<rparr> # rest, r2)))"

definition getStatus :: "federation_service \<Rightarrow> time_ms \<Rightarrow> budget_registry \<Rightarrow> registry \<Rightarrow> backend_status list \<times> registry" where
  "getStatus F now bud r = status_of_backends (ordered_backends F) now bud r"

subsection \<open>Merging\<close>

record federation_result =
  fd_sources :: "json list"
  fd_queried :: nat
  fd_skipped :: "(string \<times> string) list"
  fd_failed :: "(string \<times> string) list"
  fd_dropped :: nat

definition source_url :: "json \<Rightarrow> string" where
  "source_url j = or_else (jstr (jfield j ''url'')) []"

definition json_fields :: "json \<Rightarrow> (string \<times> json) list" where
  "json_fields j = (case j of JObj fs \<Rightarrow> fs | _ \<Rightarrow> [])"

definition federated_source :: "federated_backend \<Rightarrow> json \<Rightarrow> json" where
  "federated_source b j =
     (let name = (case jstr (subfield (jfield j ''provider'') ''name'') of None \<Rightarrow> fb_name b | Some n \<Rightarrow> n) in
      JObj (jm_set ''provider''
        (JObj [(''id'', JStr (backendId (fb_name b))), (''name'', JStr (name @ '' (federated)''))]) (json_fields j)))"

text \<open>The keys seen, and the result so far.\<close>

definition merge_source ::
  "url_lib \<Rightarrow> federated_backend \<Rightarrow> json \<Rightarrow> string list \<times> federation_result \<Rightarrow> string list \<times> federation_result" where
  "merge_source L b j acc =
     (case acc of
        (seen, out) \<Rightarrow>
          if source_url j = [] then (seen, out)
          else (let key = normalizeUpstreamUrl L (source_url j) in
                if key \<in> set seen then (seen, out\<lparr>fd_dropped := Suc (fd_dropped out)\<rparr>)
                else (key # seen, out\<lparr>fd_sources := fd_sources out @ [federated_source b j]\<rparr>)))"

definition merge_sources ::
  "url_lib \<Rightarrow> federated_backend \<Rightarrow> json list \<Rightarrow> string list \<times> federation_result \<Rightarrow> string list \<times> federation_result" where
  "merge_sources L b js acc = fold (merge_source L b) js acc"

subsection \<open>One backend\<close>

record backend_attempt =
  ba_aborted :: bool
  ba_abortedLater :: bool
  ba_now :: time_ms
  ba_started :: time_ms
  ba_done :: time_ms
  ba_env :: fetch_env

record federation_state =
  fx_reg :: registry
  fx_budgets :: budget_registry
  fx_acc :: "string list \<times> federation_result"

definition note_skipped :: "string \<Rightarrow> string \<Rightarrow> federation_state \<Rightarrow> federation_state" where
  "note_skipped i reason s =
     s\<lparr>fx_acc := (fst (fx_acc s), (snd (fx_acc s))\<lparr>fd_skipped := fd_skipped (snd (fx_acc s)) @ [(i, reason)]\<rparr>)\<rparr>"

definition note_failed :: "string \<Rightarrow> string \<Rightarrow> federation_state \<Rightarrow> federation_state" where
  "note_failed i msg s =
     s\<lparr>fx_acc := (fst (fx_acc s), (snd (fx_acc s))\<lparr>fd_failed := fd_failed (snd (fx_acc s)) @ [(i, msg)]\<rparr>)\<rparr>"

text \<open>The gates; \<open>None\<close> lets the backend be asked, otherwise the reason it is skipped.\<close>

definition backend_gates :: "string \<Rightarrow> time_ms \<Rightarrow> federation_state \<Rightarrow> string option \<times> federation_state" where
  "backend_gates i now s =
     (case isProbeAllowed i now (fx_reg s) of
        (ok, r) \<Rightarrow>
          (if \<not> ok then Some ''circuit-open''
           else if isExhausted i now (fx_budgets s) then Some ''budget-exhausted'' else None,
           s\<lparr>fx_reg := r\<rparr>))"

definition backend_js_error :: "secure_error \<Rightarrow> js_error option" where
  "backend_js_error e = (case e of TransportFailed t \<Rightarrow> th_error t | _ \<Rightarrow> Some invalid_url_error)"

definition backend_failure_text :: "client_lib \<Rightarrow> secure_error \<Rightarrow> string" where
  "backend_failure_text C e =
     (case e of
        TransportFailed t \<Rightarrow>
          (case th_error t of Some j \<Rightarrow> or_else (je_message j) [] | None \<Rightarrow> concat (take 1 (th_chain t)))
      | _ \<Rightarrow> secure_message C [] e)"

definition json_or_none :: "client_lib \<Rightarrow> string \<Rightarrow> json option" where
  "json_or_none C t = (case cl_json C t of Inl msg \<Rightarrow> None | Inr j \<Rightarrow> Some j)"

definition aborted_fetch :: "backend_attempt \<Rightarrow> secure_error \<Rightarrow> bool" where
  "aborted_fetch A e \<longleftrightarrow>
     (case e of
        TransportFailed t \<Rightarrow> (case th_error t of Some j \<Rightarrow> je_name j = Some ''AbortError'' | None \<Rightarrow> False)
      | _ \<Rightarrow> False) \<and> ba_abortedLater A"

text \<open>What follows the request; the flag ends the loop.\<close>

definition backend_answer ::
  "client_lib \<Rightarrow> url_lib \<Rightarrow> backend_attempt \<Rightarrow> federated_backend \<Rightarrow> secure_error + (json \<times> string \<times> nat) \<Rightarrow> federation_state \<Rightarrow>
     bool \<times> federation_state" where
  "backend_answer C L A b res s =
     (let i = backendId (fb_name b) in
      case res of
        Inr (j, final, bytes) \<Rightarrow>
          (False,
           s\<lparr>fx_reg := recordSuccess i (ba_done A - ba_started A) (fx_reg s),
             fx_budgets := snd (consume i (ba_done A) (fx_budgets s)),
             fx_acc := merge_sources L b (json_items j ''sources'')
               (fst (fx_acc s), (snd (fx_acc s))\<lparr>fd_queried := Suc (fd_queried (snd (fx_acc s)))\<rparr>)\<rparr>)
      | Inl e \<Rightarrow>
          if aborted_fetch A e then (True, s)
          else if isPolicyOrSecureError e then (False, note_skipped i (secure_message C [] e) s)
          else (False, note_failed i (backend_failure_text C e)
                  (s\<lparr>fx_reg := recordFailure i (classifyError (backend_js_error e)) None (ba_done A) (fx_reg s)\<rparr>)))"

definition query_backend ::
  "client_lib \<Rightarrow> url_lib \<Rightarrow> federation_service \<Rightarrow> federation_options \<Rightarrow> federation_query \<Rightarrow> backend_attempt \<Rightarrow> federated_backend \<Rightarrow>
     federation_state \<Rightarrow> fetch_request list \<times> bool \<times> federation_state" where
  "query_backend C L F op q A b s =
     (let i = backendId (fb_name b) in
      case (if fn_force op then (None, s) else backend_gates i (ba_now A) s) of
        (Some reason, s1) \<Rightarrow> ([], False, note_skipped i reason s1)
      | (None, s1) \<Rightarrow>
          (case secureFetchJson (ba_env A) (json_or_none C) (backend_request F op b) (backendPath (fb_baseUrl b) q) of
             (reqs, res) \<Rightarrow> (reqs, backend_answer C L A b res s1)))"

fun query_backends ::
  "client_lib \<Rightarrow> url_lib \<Rightarrow> federation_service \<Rightarrow> federation_options \<Rightarrow> federation_query \<Rightarrow> (nat \<Rightarrow> backend_attempt) \<Rightarrow> nat \<Rightarrow>
     federated_backend list \<Rightarrow> federation_state \<Rightarrow> fetch_request list \<times> federation_state" where
  "query_backends C L F op q As n [] s = ([], s)"
| "query_backends C L F op q As n (b # bs) s =
     (if ba_aborted (As n) then ([], s)
      else case query_backend C L F op q (As n) b s of
        (reqs, stop, s1) \<Rightarrow>
          if stop then (reqs, s1)
          else (case query_backends C L F op q As (Suc n) bs s1 of (more_reqs, s2) \<Rightarrow> (reqs @ more_reqs, s2)))"

definition no_federation_result :: federation_result where
  "no_federation_result = \<lparr>fd_sources = [], fd_queried = 0, fd_skipped = [], fd_failed = [], fd_dropped = 0\<rparr>"

definition fetchSources ::
  "client_lib \<Rightarrow> url_lib \<Rightarrow> federation_service \<Rightarrow> federation_options \<Rightarrow> federation_query \<Rightarrow> (nat \<Rightarrow> backend_attempt) \<Rightarrow>
     registry \<times> budget_registry \<Rightarrow> fetch_request list \<times> federation_result \<times> registry \<times> budget_registry" where
  "fetchSources C L F op q As w =
     (case query_backends C L F op q As 0 (ordered_backends F)
             \<lparr>fx_reg = fst w, fx_budgets = snd w, fx_acc = ([], no_federation_result)\<rparr> of
        (reqs, s) \<Rightarrow> (reqs, snd (fx_acc s), fx_reg s, fx_budgets s))"

end
