(* ===== verification/FederationFacts.thy ===== *)
theory FederationFacts
  imports Federation
begin

text \<open>What a federated request answers, what it leaves alone, and where it departs from its intent.\<close>

subsection \<open>The merged sources\<close>

definition upstream_key :: "url_lib \<Rightarrow> json \<Rightarrow> string" where
  "upstream_key L j = normalizeUpstreamUrl L (source_url j)"

definition from_backend :: "federated_backend \<Rightarrow> json \<Rightarrow> bool" where
  "from_backend b j \<longleftrightarrow> subfield (jfield j ''provider'') ''id'' = Some (JStr (backendId (fb_name b)))"

lemma get_set: "jm_get (jm_set k v m) x = (if x = k then Some v else jm_get m x)"
  by (simp add: update_conv')

lemma jfield_fields: "jm_get (json_fields j) k = jfield j k"
  by (cases j) (simp_all add: json_fields_def jfield_def)

lemma federated_source_view:
  "source_url (federated_source b j) = source_url j" "from_backend b (federated_source b j)"
  by (simp_all add: federated_source_def source_url_def from_backend_def subfield_def jfield_def [of "JObj fs" for fs] get_set
      jfield_fields Let_def del: update.simps)

text \<open>What holds of the accumulator: the keys of the sources are the keys seen, each once.\<close>

definition merged :: "url_lib \<Rightarrow> string list \<times> federation_result \<Rightarrow> bool" where
  "merged L acc \<longleftrightarrow> distinct (map (upstream_key L) (fd_sources (snd acc))) \<and>
     set (map (upstream_key L) (fd_sources (snd acc))) = set (fst acc)"

definition extends_by :: "(json \<Rightarrow> bool) \<Rightarrow> federation_result \<Rightarrow> federation_result \<Rightarrow> bool" where
  "extends_by P a b \<longleftrightarrow> (\<exists>js. fd_sources b = fd_sources a @ js \<and> list_all P js)"

lemma extends_by_refl: "extends_by P a a"
  by (simp add: extends_by_def)

lemma extends_by_trans: "extends_by P a b \<Longrightarrow> extends_by P b c \<Longrightarrow> extends_by P a c"
  unfolding extends_by_def by fastforce

lemma merge_source_facts:
  "merged L acc \<Longrightarrow> merged L (merge_source L b j acc) \<and> extends_by (from_backend b) (snd acc) (snd (merge_source L b j acc))"
  by (cases acc) (auto simp: merge_source_def merged_def extends_by_def Let_def upstream_key_def federated_source_view)

lemma merge_sources_facts:
  "merged L acc \<Longrightarrow> merged L (merge_sources L b js acc) \<and> extends_by (from_backend b) (snd acc) (snd (merge_sources L b js acc))"
proof (induction js arbitrary: acc)
  case Nil
  then show ?case by (simp add: merge_sources_def extends_by_refl)
next
  case (Cons j js)
  then show ?case
    using merge_source_facts [OF Cons.prems, of b j] Cons.IH [of "merge_source L b j acc"] extends_by_trans
    by (fastforce simp: merge_sources_def)
qed

lemma same_sources:
  "fd_sources a' = fd_sources a \<Longrightarrow> merged L (seen, a) \<Longrightarrow> merged L (seen, a') \<and> extends_by P a a'"
  by (simp add: merged_def extends_by_def)

lemma note_same [simp]:
  "fd_sources (snd (fx_acc (note_skipped i m s))) = fd_sources (snd (fx_acc s))"
  "fd_sources (snd (fx_acc (note_failed i m s))) = fd_sources (snd (fx_acc s))"
  "fst (fx_acc (note_skipped i m s)) = fst (fx_acc s)" "fst (fx_acc (note_failed i m s)) = fst (fx_acc s)"
  "fx_reg (note_skipped i m s) = fx_reg s" "fx_reg (note_failed i m s) = fx_reg s"
  "fx_budgets (note_skipped i m s) = fx_budgets s" "fx_budgets (note_failed i m s) = fx_budgets s"
  by (simp_all add: note_skipped_def note_failed_def)

lemma gates_same [simp]: "fx_acc (snd (backend_gates i now s)) = fx_acc s"
  by (simp add: backend_gates_def split: prod.split)

lemma extends_same: "fd_sources b' = fd_sources b \<Longrightarrow> extends_by P a b' = extends_by P a b"
  by (simp add: extends_by_def)

lemma merged_same: "fd_sources (snd x) = fd_sources (snd y) \<Longrightarrow> fst x = fst y \<Longrightarrow> merged L x = merged L y"
  by (simp add: merged_def)

lemma answer_merges:
  assumes "merged L (fx_acc s)"
  shows "merged L (fx_acc (snd (backend_answer C L A b res s))) \<and>
    extends_by (from_backend b) (snd (fx_acc s)) (snd (fx_acc (snd (backend_answer C L A b res s))))"
proof (cases res)
  case (Inl e)
  then show ?thesis
    using assms by (simp add: backend_answer_def Let_def merged_def extends_by_def)
next
  case (Inr x)
  obtain j final bytes where x: "x = (j, final, bytes)" by (metis prod_cases3)
  let ?acc = "(fst (fx_acc s), (snd (fx_acc s))\<lparr>fd_queried := Suc (fd_queried (snd (fx_acc s)))\<rparr>)"
  have "merged L ?acc" using assms by (simp add: merged_def)
  then show ?thesis
    using merge_sources_facts [of L ?acc b "json_items j ''sources''"]
    by (simp add: backend_answer_def Let_def Inr x extends_by_def)
qed

lemma query_backend_merges:
  assumes "merged L (fx_acc s)" "query_backend C L F op q A b s = (reqs, stop, s1)"
  shows "merged L (fx_acc s1) \<and> extends_by (from_backend b) (snd (fx_acc s)) (snd (fx_acc s1))"
proof -
  obtain reason s0 where g: "(if fn_force op then (None, s) else backend_gates (backendId (fb_name b)) (ba_now A) s) = (reason, s0)"
    by (metis surj_pair)
  then have acc: "fx_acc s0 = fx_acc s"
    by (metis gates_same prod.sel(2))
  show ?thesis
  proof (cases reason)
    case (Some t)
    then have "s1 = note_skipped (backendId (fb_name b)) t s0"
      using assms(2) g by (simp add: query_backend_def Let_def)
    then show ?thesis using assms(1) acc by (simp add: merged_def extends_by_def)
  next
    case None
    obtain rq res where f: "secureFetchJson (ba_env A) (json_or_none C) (backend_request F op b) (backendPath (fb_baseUrl b) q) = (rq, res)"
      by (metis surj_pair)
    have "s1 = snd (backend_answer C L A b res s0)"
      using assms(2) g None f by (auto simp: query_backend_def Let_def)
    then show ?thesis using answer_merges [of L s0 C A b res] assms(1) acc by simp
  qed
qed

definition chunks_from :: "federated_backend list \<Rightarrow> json list \<Rightarrow> bool" where
  "chunks_from bs js \<longleftrightarrow> (\<exists>chunks. js = concat chunks \<and> list_all2 (\<lambda>b. list_all (from_backend b)) bs chunks)"

lemma chunks_Nil: "chunks_from bs []"
proof -
  have "list_all2 (\<lambda>b. list_all (from_backend b)) bs (map (\<lambda>b. []) bs)"
    by (induction bs) auto
  then show ?thesis unfolding chunks_from_def by (intro exI [of _ "map (\<lambda>b. []) bs"]) auto
qed

lemma chunks_Cons: "list_all (from_backend b) js \<Longrightarrow> chunks_from bs ks \<Longrightarrow> chunks_from (b # bs) (js @ ks)"
  unfolding chunks_from_def by (metis concat.simps(2) list_all2_Cons)

lemma query_backends_merge:
  "merged L (fx_acc s) \<Longrightarrow> query_backends C L F op q As n bs s = (reqs, s') \<Longrightarrow>
     merged L (fx_acc s') \<and> (\<exists>js. fd_sources (snd (fx_acc s')) = fd_sources (snd (fx_acc s)) @ js \<and> chunks_from bs js)"
proof (induction bs arbitrary: n s reqs)
  case Nil
  then show ?case using chunks_Nil by auto
next
  case (Cons b bs)
  show ?case
  proof (cases "ba_aborted (As n)")
    case True
    then show ?thesis using Cons.prems chunks_Nil by auto
  next
    case False
    obtain rq stop s1 where one: "query_backend C L F op q (As n) b s = (rq, stop, s1)" by (metis prod_cases3)
    then obtain js where m: "merged L (fx_acc s1)" and js: "fd_sources (snd (fx_acc s1)) = fd_sources (snd (fx_acc s)) @ js"
      "list_all (from_backend b) js"
      using query_backend_merges [OF Cons.prems(1)] unfolding extends_by_def by blast
    show ?thesis
    proof (cases stop)
      case True
      then have "s' = s1" using Cons.prems(2) False one by simp
      then show ?thesis using m js chunks_Cons [OF js(2) chunks_Nil, of bs] by auto
    next
      case go: False
      then obtain rq' where "query_backends C L F op q As (Suc n) bs s1 = (rq', s')"
        using Cons.prems(2) False one by (auto split: prod.splits)
      then show ?thesis using Cons.IH [OF m] js chunks_Cons by fastforce
    qed
  qed
qed


subsection \<open>What a federated request leaves alone\<close>

text \<open>The circuit and the budget of a provider that is no backend.\<close>

definition untouched :: "string \<Rightarrow> federation_state \<Rightarrow> federation_state \<Rightarrow> bool" where
  "untouched p a b \<longleftrightarrow> circuit_of (fx_reg b) p = circuit_of (fx_reg a) p \<and>
     jm_get (pb_counters (fx_budgets b)) p = jm_get (pb_counters (fx_budgets a)) p"

lemma untouched_refl: "untouched p a a"
  by (simp add: untouched_def)

lemma untouched_trans: "untouched p a b \<Longrightarrow> untouched p b c \<Longrightarrow> untouched p a c"
  by (simp add: untouched_def)

lemma consume_frame: "p \<noteq> i \<Longrightarrow> jm_get (pb_counters (snd (consume i now b))) p = jm_get (pb_counters b) p"
  by (auto simp: consume_def Let_def update_conv' split: option.splits)

lemma probe_frame: "p \<noteq> i \<Longrightarrow> circuit_of (snd (isProbeAllowed i now r)) p = circuit_of r p"
  by (simp add: circuit_of_isProbeAllowed circuit_of_getState)

lemma gates_untouched: "p \<noteq> i \<Longrightarrow> untouched p s (snd (backend_gates i now s))"
  by (simp add: untouched_def backend_gates_def probe_frame case_prod_beta)

lemma answer_untouched:
  assumes "p \<noteq> backendId (fb_name b)"
  shows "untouched p s (snd (backend_answer C L A b res s))"
proof (cases res)
  case (Inl e)
  then show ?thesis
    using assms by (simp add: untouched_def backend_answer_def Let_def circuit_of_recordFailure)
next
  case (Inr x)
  then show ?thesis
    using assms consume_frame [OF assms]
    by (cases x) (simp add: untouched_def backend_answer_def Let_def circuit_of_recordSuccess)
qed

lemma query_untouched:
  assumes "p \<noteq> backendId (fb_name b)" "query_backend C L F op q A b s = (reqs, stop, s1)"
  shows "untouched p s s1"
proof -
  obtain reason s0 where g: "(if fn_force op then (None, s) else backend_gates (backendId (fb_name b)) (ba_now A) s) = (reason, s0)"
    by (metis surj_pair)
  then have s0: "untouched p s s0"
    using gates_untouched [OF assms(1)] untouched_refl by (metis prod.sel(2))
  obtain rq res where f: "secureFetchJson (ba_env A) (json_or_none C) (backend_request F op b) (backendPath (fb_baseUrl b) q) = (rq, res)"
    by (metis surj_pair)
  have "s1 = note_skipped (backendId (fb_name b)) (the reason) s0 \<or> s1 = snd (backend_answer C L A b res s0)"
    using assms(2) g f by (cases reason) (auto simp: query_backend_def Let_def)
  then have "untouched p s0 s1"
    using answer_untouched [OF assms(1)] by (auto simp: untouched_def)
  with s0 show ?thesis by (rule untouched_trans)
qed

lemma query_backends_untouched:
  "list_all (\<lambda>b. p \<noteq> backendId (fb_name b)) bs \<Longrightarrow> query_backends C L F op q As n bs s = (reqs, s') \<Longrightarrow> untouched p s s'"
proof (induction bs arbitrary: n s reqs s')
  case (Cons b bs)
  obtain rq stop s1 where one: "query_backend C L F op q (As n) b s = (rq, stop, s1)" by (metis prod_cases3)
  have u: "untouched p s s1" using query_untouched [OF _ one] Cons.prems(1) by simp
  obtain rq' s2 where rest: "query_backends C L F op q As (Suc n) bs s1 = (rq', s2)" by (metis surj_pair)
  have "untouched p s1 s2" using Cons.IH [OF _ rest] Cons.prems(1) by simp
  then show ?case
    using Cons.prems(2) one rest u untouched_refl untouched_trans by (auto split: if_splits)
qed (simp add: untouched_refl)

text \<open>
  C28. Whatever the backends do, the circuits and the daily budgets of the addons are the same after a federated request
  as before.
\<close>

theorem backend_faults_isolated:
  "case fetchSources C L F op q As (r, bud) of (reqs, out, r', bud') \<Rightarrow>
     circuit_of r' (''addon:'' @ slug) = circuit_of r (''addon:'' @ slug) \<and>
     jm_get (pb_counters bud') (''addon:'' @ slug) = jm_get (pb_counters bud) (''addon:'' @ slug)"
proof -
  obtain reqs s where s: "query_backends C L F op q As 0 (ordered_backends F)
      \<lparr>fx_reg = r, fx_budgets = bud, fx_acc = ([], no_federation_result)\<rparr> = (reqs, s)"
    by (metis surj_pair)
  have "list_all (\<lambda>b. ''addon:'' @ slug \<noteq> backendId (fb_name b)) (ordered_backends F)"
    by (simp add: backendId_def list_all_iff)
  from query_backends_untouched [OF this s] show ?thesis
    by (simp add: fetchSources_def s untouched_def)
qed

subsection \<open>What the code does not do\<close>

lemma secureFetchJson_requests: "fst (secureFetchJson E parse op raw) = fst (secureFetch E (json_options op) raw)"
  by (simp add: secureFetchJson_def split: prod.split sum.split)

lemma secureFetch_headers: "list_all (\<lambda>rq. keys_ok header_forwarded (fr_headers rq)) (fst (secureFetch E op raw))"
proof -
  obtain reqs res where "secure_loop E op raw 0 raw = (reqs, res)" by (metis surj_pair)
  then have "list_all (checked_request E op) reqs" "fst (secureFetch E op raw) = reqs"
    using secure_loop_checked by (auto simp: secureFetch_def)
  then show ?thesis
    using sent_headers_ok by (auto simp: list_all_iff checked_request_def)
qed

lemma no_authorization: "keys_ok header_forwarded hs \<Longrightarrow> k \<in> fst ` set hs \<Longrightarrow> to_lower k \<noteq> ''authorization''"
  by (auto simp: keys_ok_def header_forwarded_def Let_def)

text \<open>
  The token of a backend is put in the \<open>Authorization\<close> header, which the redirect loop removes from every request it
  sends: no request of the federation carries the header, so a backend that asks for the token refuses them all.
\<close>

lemma federation_token_never_sent:
  "list_all (\<lambda>rq. \<not> list_ex (\<lambda>h. to_lower (fst h) = ''authorization'') (fr_headers rq)) (fst (query_backend C L F op q A b s))"
proof -
  obtain reason s0 where g: "(if fn_force op then (None, s) else backend_gates (backendId (fb_name b)) (ba_now A) s) = (reason, s0)"
    by (metis surj_pair)
  show ?thesis
  proof (cases reason)
    case Some
    then show ?thesis using g by (simp add: query_backend_def Let_def)
  next
    case None
    then have "fst (query_backend C L F op q A b s) =
        fst (secureFetch (ba_env A) (json_options (backend_request F op b)) (backendPath (fb_baseUrl b) q))"
      using g by (simp add: query_backend_def Let_def case_prod_beta secureFetchJson_requests)
    then show ?thesis
      using secureFetch_headers no_authorization by (force simp: list_all_iff list_ex_iff)
  qed
qed

text \<open>An HTTP error or a broken document of a backend is taken for a refusal by policy: its circuit never learns of it.\<close>

lemma server_error_never_counts:
  "backend_answer C L A b (Inl (SecureFetchError c m st)) s =
     (False, note_skipped (backendId (fb_name b)) m s)"
  by (simp add: backend_answer_def Let_def aborted_fetch_def isPolicyOrSecureError_def secure_message_def)

text \<open>On a half-open circuit such an answer keeps the one trial: the backend is refused from then on.\<close>

lemma half_open_backend_lost:
  assumes "backend_gates i now s = (None, s1)" "cr_state (circuit_of (fx_reg s1) i) = HalfOpen" "i = backendId (fb_name b)"
  shows "fst (backend_gates i later (snd (backend_answer C L A b (Inl (SecureFetchError c m st)) s1))) = Some ''circuit-open''"
proof -
  let ?r = "snd (getState i now (fx_reg s))"
  have r: "fx_reg s1 = snd (isProbeAllowed i now (fx_reg s))" "fst (isProbeAllowed i now (fx_reg s))"
    using assms(1) by (auto simp: backend_gates_def split: prod.splits if_splits)
  have "cr_state (circuit_of ?r i) = HalfOpen"
    using assms(2) r(1) by (simp add: circuit_of_isProbeAllowed)
  then have "i \<in> rg_halfOpenInFlight (fx_reg s1)"
    using r by (auto simp: isProbeAllowed_eq Let_def)
  then have "\<not> fst (isProbeAllowed i later (fx_reg s1))"
    using assms(2) by (simp add: isProbeAllowed_eq Let_def circuit_of_getState aged_circuit_def)
  then show ?thesis
    by (simp add: server_error_never_counts backend_gates_def case_prod_beta)
qed

end
