(* ===== verification/Progressive.thy ===== *)
theory Progressive
  imports AddonProvider Selection
begin

text \<open>
  The scrape of one provider and the list of providers, \<open>src/progressiveScrape.ts\<close>. What a provider answers and when, the
  slot of the pool and the clock are arguments. A provider's answer is an object of unknown fields, written as JSON; the
  telemetry of a scrape is the list of events it records.
\<close>

subsection \<open>One provider\<close>

text \<open>A provider of the framework; its call is given the media and the time it may take.\<close>

record scrape_provider =
  sp_id :: string
  sp_name :: string
  sp_enabled :: bool
  sp_call :: "media \<Rightarrow> int \<Rightarrow> js_error option + json"

datatype scrape_event =
    ProviderAttempt string
  | ProviderOutcome string string int "string option"
  | SourcesExtracted string nat

datatype scrape_note = OfProvider json | OwnNote string string string

record scrape_result =
  sr_sources :: "json list"
  sr_subtitles :: "json list"
  sr_diagnostics :: "scrape_note list"
  sr_providerId :: string
  sr_providerName :: string
  sr_durationMs :: int
  sr_revision :: int

text \<open>The selection service, when one is wired: over the addons as they are stored, at their revision.\<close>

record scrape_selection =
  ss_collate :: "string \<Rightarrow> int"
  ss_budgets :: "budget_registry option"
  ss_data :: store_data
  ss_revision :: int

record scrape_clock =
  sk_selected :: time_ms
  sk_start :: time_ms
  sk_done :: time_ms

text \<open>The time a provider is given; a deadline of 0 is none.\<close>

definition remaining_time :: "int \<Rightarrow> time_ms option \<Rightarrow> time_ms \<Rightarrow> int" where
  "remaining_time timeoutMs deadlineMs now =
     (if or_else deadlineMs 0 \<noteq> 0 then max 0 (or_else deadlineMs 0 - now) else timeoutMs)"

definition effective_timeout :: "int \<Rightarrow> time_ms option \<Rightarrow> time_ms \<Rightarrow> int" where
  "effective_timeout timeoutMs deadlineMs now =
     (let remaining = remaining_time timeoutMs deadlineMs now in min timeoutMs (if remaining = 0 then timeoutMs else remaining))"

definition scrape_message :: "js_error option \<Rightarrow> string" where
  "scrape_message e = (case e of None \<Rightarrow> ''Unknown provider error'' | Some j \<Rightarrow> or_else (je_message j) [])"

definition timed_out :: "js_error option \<Rightarrow> bool" where
  "timed_out e \<longleftrightarrow> (case e of Some j \<Rightarrow> je_name j = Some ''TimeoutError'' | None \<Rightarrow> False) \<or>
     str_includes (scrape_message e) ''timed out''"

definition null_result_error :: js_error where
  "null_result_error = \<lparr>je_name = Some ''TypeError'', je_code = None,
     je_message = Some (''Cannot read properties of null (reading '' @ [CHR 0x27] @ ''sources'' @ [CHR 0x27] @ '')''),
     je_status = None\<rparr>"

text \<open>The body of the \<open>try\<close>: \<open>aborted\<close> is the caller's signal before the call.\<close>

definition scrape_call :: "scrape_provider \<Rightarrow> media \<Rightarrow> int \<Rightarrow> bool \<Rightarrow> js_error option + json" where
  "scrape_call p md timeoutMs aborted =
     (if aborted
      then Inl (Some \<lparr>je_name = Some ''AbortError'', je_code = None, je_message = Some (sp_name p @ '' aborted''),
                      je_status = None\<rparr>)
      else case sp_call p md timeoutMs of
        Inl e \<Rightarrow> Inl e
      | Inr JNull \<Rightarrow> Inl (Some null_result_error)
      | Inr j \<Rightarrow> Inr j)"

definition scrape_answer ::
  "string \<Rightarrow> scrape_provider \<Rightarrow> int \<Rightarrow> int \<Rightarrow> js_error option + json \<Rightarrow> scrape_result \<times> scrape_event list" where
  "scrape_answer pid p duration revision res =
     (case res of
        Inr j \<Rightarrow>
          (let sources = json_items j ''sources'' in
           (\<lparr>sr_sources = sources, sr_subtitles = json_items j ''subtitles'',
             sr_diagnostics = map OfProvider (json_items j ''diagnostics''), sr_providerId = sp_id p,
             sr_providerName = sp_name p, sr_durationMs = duration, sr_revision = revision\<rparr>,
            if sources \<noteq> []
            then [ProviderOutcome pid ''success'' duration None, SourcesExtracted pid (length sources)]
            else [ProviderOutcome pid ''no_result'' duration None]))
      | Inl e \<Rightarrow>
          (\<lparr>sr_sources = [], sr_subtitles = [],
            sr_diagnostics = [OwnNote ''PROVIDER_ERROR'' (sp_name p @ '': '' @ scrape_message e) ''error''],
            sr_providerId = sp_id p, sr_providerName = sp_name p, sr_durationMs = duration, sr_revision = revision\<rparr>,
           [ProviderOutcome pid (if timed_out e then ''timeout'' else ''failure'') duration (Some (kind_name (classifyError e)))]))"

definition skipped_result :: "scrape_provider \<Rightarrow> int \<Rightarrow> scrape_result" where
  "skipped_result p revision =
     \<lparr>sr_sources = [], sr_subtitles = [],
      sr_diagnostics = [OwnNote ''PROVIDER_SKIPPED''
        (sp_name p @ '': not in current selection for this media (type/id not supported or circuit open)'') ''warning''],
      sr_providerId = sp_id p, sr_providerName = sp_name p, sr_durationMs = 0, sr_revision = revision\<rparr>"

text \<open>Whether the selection has the provider, and the registry the selection asked.\<close>

definition still_selected ::
  "scrape_selection \<Rightarrow> time_ms \<Rightarrow> media \<Rightarrow> string \<Rightarrow> registry \<Rightarrow> bool \<times> registry" where
  "still_selected S now md pid r =
     (case selectStreamProviders (ss_collate S) now (ss_budgets S) (ss_data S) md no_options (Some r) of
        (addons, rel) \<Rightarrow> (list_ex (\<lambda>a. ia_providerId a = pid) addons, or_else rel r))"

definition scrape_provider_for ::
  "scrape_selection option \<Rightarrow> scrape_clock \<Rightarrow> bool \<Rightarrow> scrape_provider \<Rightarrow> string \<Rightarrow> media \<Rightarrow> int \<Rightarrow> time_ms option \<Rightarrow> registry \<Rightarrow>
     scrape_result \<times> scrape_event list \<times> registry" where
  "scrape_provider_for S K aborted p pid md timeoutMs deadlineMs r =
     (let revision = (case S of None \<Rightarrow> 0 | Some s \<Rightarrow> ss_revision s);
          (ok, r1) = (case S of None \<Rightarrow> (True, r) | Some s \<Rightarrow> still_selected s (sk_selected K) md pid r)
      in if \<not> ok
         then (skipped_result p revision, [ProviderAttempt pid, ProviderOutcome pid ''no_result'' 0 (Some ''not_selected'')], r1)
         else case scrape_answer pid p (sk_done K - sk_start K) revision
                (scrape_call p md (effective_timeout timeoutMs deadlineMs (sk_start K)) aborted) of
           (res, evs) \<Rightarrow> (res, ProviderAttempt pid # evs, r1))"

datatype scrape_end = ScrapeNotFound string | ScrapeRefused js_error | Scraped scrape_result

definition not_found_text :: "string \<Rightarrow> string" where
  "not_found_text pid = ''Provider not found: '' @ pid"

text \<open>
  The registry of the framework is read when the request comes (\<open>before\<close>) and again when the pool has given a slot
  (\<open>after\<close>); \<open>refusal\<close> is the error of a slot the pool does not give.
\<close>

definition scrapeSingleProvider ::
  "(string \<Rightarrow> scrape_provider option) \<Rightarrow> (string \<Rightarrow> scrape_provider option) \<Rightarrow> js_error option \<Rightarrow> scrape_selection option \<Rightarrow>
     scrape_clock \<Rightarrow> bool \<Rightarrow> string \<Rightarrow> media \<Rightarrow> int \<Rightarrow> time_ms option \<Rightarrow> registry \<Rightarrow> scrape_end \<times> scrape_event list \<times> registry" where
  "scrapeSingleProvider before after refusal S K aborted pid md timeoutMs deadlineMs r =
     (case before pid of
        None \<Rightarrow> (ScrapeNotFound (not_found_text pid), [], r)
      | Some p \<Rightarrow>
          if \<not> sp_enabled p then (ScrapeNotFound (''Provider disabled: '' @ pid), [], r)
          else case refusal of
            Some e \<Rightarrow> (ScrapeRefused e, [], r)
          | None \<Rightarrow>
              (case after pid of
                 None \<Rightarrow> (ScrapeNotFound (not_found_text pid), [], r)
               | Some p2 \<Rightarrow>
                   (case scrape_provider_for S K aborted p2 pid md timeoutMs deadlineMs r of
                      (res, evs, r1) \<Rightarrow> (Scraped res, evs, r1))))"

subsection \<open>The list of providers\<close>

definition FRESHNESS_TTL_MS :: int where
  "FRESHNESS_TTL_MS = 3600000"

definition health_fresh :: "time_ms \<Rightarrow> addon_health \<Rightarrow> bool" where
  "health_fresh now h = (case hl_lastChecked h of None \<Rightarrow> False | Some t \<Rightarrow> now - t < FRESHNESS_TTL_MS)"

record listed_provider =
  lp_id :: string
  lp_name :: string
  lp_enabled :: bool
  lp_priority :: nat
  lp_admissionState :: admission_state
  lp_capabilities :: "capabilities option"
  lp_health :: "(addon_health \<times> bool) option"
  lp_circuitState :: circuit_state
  lp_metrics :: metrics_view
  lp_quarantined :: bool
  lp_revision :: int

definition list_provider :: "time_ms \<Rightarrow> int \<Rightarrow> nat \<Rightarrow> installed_addon \<Rightarrow> registry \<Rightarrow> listed_provider \<times> registry" where
  "list_provider now rv pri a r =
     (let pid = ia_providerId a;
          (st, r1) = getState pid now r;
          (q, r2) = isQuarantined pid now r1
      in (\<lparr>lp_id = pid, lp_name = ia_name a, lp_enabled = ia_enabled a, lp_priority = pri,
           lp_admissionState = or_else (ia_admissionState a) (if ia_enabled a then Validated else Disabled),
           lp_capabilities = ia_capabilities a,
           lp_health = map_option (\<lambda>h. (h, health_fresh now h)) (ia_health a),
           lp_circuitState = st, lp_metrics = getMetrics pid r, lp_quarantined = q, lp_revision = rv\<rparr>, r2))"

fun list_from :: "time_ms \<Rightarrow> int \<Rightarrow> nat \<Rightarrow> installed_addon list \<Rightarrow> registry \<Rightarrow> listed_provider list \<times> registry" where
  "list_from now rv n [] r = ([], r)"
| "list_from now rv n (a # rest) r =
     (case list_provider now rv n a r of
        (x, r1) \<Rightarrow> (case list_from now rv (Suc n) rest r1 of (xs, r2) \<Rightarrow> (x # xs, r2)))"

definition listProvidersWithPriority ::
  "(string \<Rightarrow> int) \<Rightarrow> time_ms \<Rightarrow> store_data \<Rightarrow> scrape_selection option \<Rightarrow> registry \<Rightarrow> listed_provider list \<times> registry" where
  "listProvidersWithPriority collate now d S r =
     list_from now (case S of None \<Rightarrow> sd_revision d | Some s \<Rightarrow> ss_revision s) 0 (list_addons collate d) r"

subsection \<open>Properties\<close>

text \<open>The selection lets through exactly the providers of an eligible addon.\<close>

lemma still_selected_iff:
  "fst (still_selected S now md pid r) \<longleftrightarrow>
     (\<exists>a \<in> set (sd_addons (ss_data S)). eligible now (ss_budgets S) md no_options (Some r) a \<and> ia_providerId a = pid)"
  using select_eligible [of "ss_collate S" now "ss_budgets S" "ss_data S" md no_options "Some r"]
  by (auto simp: still_selected_def case_prod_beta list_ex_iff)

text \<open>The outcomes of an attempt, and what each says of the sources.\<close>

definition outcome_of :: "string \<Rightarrow> scrape_result \<Rightarrow> scrape_event list \<Rightarrow> bool" where
  "outcome_of pid res evs \<longleftrightarrow>
     (\<exists>word reason more_evs. evs = ProviderAttempt pid # ProviderOutcome pid word (sr_durationMs res) reason # more_evs \<and>
        (if sr_sources res = [] then word \<in> {''no_result'', ''timeout'', ''failure''} \<and> more_evs = []
         else word = ''success'' \<and> more_evs = [SourcesExtracted pid (length (sr_sources res))]))"

lemma scrape_answer_outcome:
  "outcome_of pid (fst (scrape_answer pid p d rv res)) (ProviderAttempt pid # snd (scrape_answer pid p d rv res))"
  by (cases res) (auto simp: scrape_answer_def outcome_of_def Let_def)

lemma skipped_outcome:
  "outcome_of pid (skipped_result p rv) [ProviderAttempt pid, ProviderOutcome pid ''no_result'' 0 (Some ''not_selected'')]"
  "sr_providerId (skipped_result p rv) = sp_id p"
  by (simp_all add: outcome_of_def skipped_result_def)

text \<open>
  A scrape that is admitted always answers, whatever the provider throws: its id is that of the provider, one attempt
  and one outcome are recorded, and the outcome is a success exactly when there are sources.
\<close>

lemma scrape_always_answers:
  assumes "before pid = Some p0" "sp_enabled p0" "after pid = Some p"
  shows "case scrapeSingleProvider before after None S K aborted pid md timeoutMs deadlineMs r of (e, evs, r') \<Rightarrow>
    \<exists>res. e = Scraped res \<and> sr_providerId res = sp_id p \<and> outcome_of pid res evs"
proof -
  obtain res evs r' where one: "scrape_provider_for S K aborted p pid md timeoutMs deadlineMs r = (res, evs, r')"
    by (metis prod_cases3)
  have "sr_providerId (fst (scrape_answer pid p d rv x)) = sp_id p" for d rv x
    by (simp add: scrape_answer_def Let_def split: sum.split)
  then have "sr_providerId res = sp_id p \<and> outcome_of pid res evs"
    using one scrape_answer_outcome skipped_outcome
    by (auto simp: scrape_provider_for_def Let_def case_prod_beta split: if_splits)
  then show ?thesis
    using assms one by (simp add: scrapeSingleProvider_def)
qed

lemma effective_timeout_bounds:
  "0 < timeoutMs \<Longrightarrow> 0 < effective_timeout timeoutMs deadlineMs now \<and> effective_timeout timeoutMs deadlineMs now \<le> timeoutMs"
  "deadlineMs = Some t \<Longrightarrow> now < t \<Longrightarrow> t \<noteq> 0 \<Longrightarrow> effective_timeout timeoutMs deadlineMs now \<le> t - now"
  by (auto simp: effective_timeout_def remaining_time_def or_else_def Let_def)

text \<open>A deadline that has passed leaves no time, and no time is taken for no deadline: the provider gets its full timeout.\<close>

lemma passed_deadline_full_timeout:
  "t \<le> now \<Longrightarrow> effective_timeout timeoutMs (Some t) now = timeoutMs"
  by (simp add: effective_timeout_def remaining_time_def or_else_def Let_def)

text \<open>The list of providers: the addons in their order, numbered from 0.\<close>

lemma list_from_view:
  "map lp_id (fst (list_from now rv n addons r)) = map ia_providerId addons \<and>
   map lp_priority (fst (list_from now rv n addons r)) = [n..<n + length addons]"
proof (induction addons arbitrary: n r)
  case (Cons a rest)
  obtain x r1 where x: "list_provider now rv n a r = (x, r1)" by (metis surj_pair)
  then have "lp_id x = ia_providerId a" "lp_priority x = n"
    by (auto simp: list_provider_def Let_def split: prod.splits)
  then show ?case
    using Cons.IH [of "Suc n" r1] by (simp add: x case_prod_beta upt_conv_Cons del: upt_Suc)
qed simp

end
