(* ===== verification/Playlist.thy ===== *)
theory Playlist
  imports Grants Regex
begin

text \<open>
  The rewriting of manifests in \<open>src/security/proxyRoute.ts\<close>: the URLs of HLS playlists and DASH manifests are replaced by
  links to grants of their own, as long as the budget of the request lasts. The URL parser, DNS, the clock and the ids of
  the \<open>n\<close>-th grant asked for are arguments.
\<close>

subsection \<open>Child grants\<close>

text \<open>\<open>rw_resolve raw base\<close> is \<open>new URL(raw, base).toString()\<close>.\<close>

record rewrite_env =
  rw_parse :: "string \<Rightarrow> parsed_url option"
  rw_href :: "parsed_url \<Rightarrow> string"
  rw_isProd :: bool
  rw_opts :: grant_options
  rw_resolve :: "string \<Rightarrow> string \<Rightarrow> string option"
  rw_lookup :: "nat \<Rightarrow> string \<Rightarrow> string list option"
  rw_now :: "nat \<Rightarrow> time_ms"
  rw_id :: "nat \<Rightarrow> string"
  rw_public :: string

text \<open>What is left of the budget, the grants asked for so far, and the store.\<close>

record minting =
  mt_left :: int
  mt_asked :: nat
  mt_grants :: grant_map

definition child_ttl :: "grant_claims \<Rightarrow> time_ms \<Rightarrow> int" where
  "child_ttl g now = max 60 (gc_exp g - now_sec now)"

definition child_input :: "grant_claims \<Rightarrow> int \<Rightarrow> string \<Rightarrow> issue_input" where
  "child_input g ttl url =
     \<lparr>ii_url = url, ii_headers = Some (gc_headers g), ii_providerId = gc_providerId g, ii_mediaKey = gc_mediaKey g,
      ii_ttlSec = Some ttl, ii_maxRedirects = Some (gc_maxRedirects g), ii_singleUse = None, ii_addonRevision = None\<rparr>"

text \<open>The link of a new grant, or \<open>None\<close> when \<open>issue\<close> throws.\<close>

definition mint :: "rewrite_env \<Rightarrow> grant_claims \<Rightarrow> int \<Rightarrow> string \<Rightarrow> minting \<Rightarrow> string option \<times> minting" where
  "mint E g ttl url s =
     (case issue_grant (rw_parse E) (rw_href E) (rw_isProd E) (rw_opts E) (rw_lookup E (mt_asked s)) (rw_now E (mt_asked s))
             (rw_id E (mt_asked s)) (child_input g ttl url) (mt_grants s) of
        (Inl e, m) \<Rightarrow> (None, s\<lparr>mt_asked := Suc (mt_asked s), mt_grants := m\<rparr>)
      | (Inr c, m) \<Rightarrow>
          (Some (toProxyUrl c (rw_public E)),
           s\<lparr>mt_left := mt_left s - 1, mt_asked := Suc (mt_asked s), mt_grants := m\<rparr>))"

subsection \<open>Matches of a pattern\<close>

text \<open>
  All matches of a pattern from left to right, each with the text before it, and the text after the last. No pattern used
  here matches the empty text.
\<close>

definition prepend_char :: "char \<Rightarrow> (string \<times> 'k) list \<times> string \<Rightarrow> (string \<times> 'k) list \<times> string" where
  "prepend_char c x =
     (case x of ([], tail) \<Rightarrow> ([], c # tail) | ((b, k) # ms, tail) \<Rightarrow> ((c # b, k) # ms, tail))"

definition add_match :: "'k \<Rightarrow> (string \<times> 'k) list \<times> string \<Rightarrow> (string \<times> 'k) list \<times> string" where
  "add_match k x = (case x of (ms, tail) \<Rightarrow> (([], k) # ms, tail))"

function rx_split :: "rx \<Rightarrow> string \<Rightarrow> string \<Rightarrow> (string \<times> (nat \<times> string) list) list \<times> string" where
  "rx_split r p s =
     (case rx_m r (p, s, []) of
        (p', s', k) # _ \<Rightarrow>
          (if length s' < length s
           then add_match ((0, take (length s - length s') s) # k) (rx_split r p' s')
           else (case s of [] \<Rightarrow> ([], []) | c # t \<Rightarrow> prepend_char c (rx_split r (c # p) t)))
      | [] \<Rightarrow> (case s of [] \<Rightarrow> ([], []) | c # t \<Rightarrow> prepend_char c (rx_split r (c # p) t)))"
  by pat_completeness auto
termination
  by (relation "measure (\<lambda>(r, p, s). length s)") auto

declare rx_split.simps [simp del]

definition rx_matches :: "rx \<Rightarrow> string \<Rightarrow> (nat \<times> string) list list" where
  "rx_matches r s = map snd (fst (rx_split r [] s))"

text \<open>\<open>replaceAsync\<close>: the matches are found first and replaced in order.\<close>

fun replace_matches ::
  "((nat \<times> string) list \<Rightarrow> minting \<Rightarrow> string \<times> minting) \<Rightarrow> (string \<times> (nat \<times> string) list) list \<Rightarrow> minting \<Rightarrow> string \<times> minting" where
  "replace_matches f [] s = ([], s)"
| "replace_matches f ((before, k) # ms) s =
     (case f k s of (x, s1) \<Rightarrow> (case replace_matches f ms s1 of (rest, s2) \<Rightarrow> (before @ x @ rest, s2)))"

definition replaceAsync ::
  "string \<Rightarrow> rx \<Rightarrow> ((nat \<times> string) list \<Rightarrow> minting \<Rightarrow> string \<times> minting) \<Rightarrow> minting \<Rightarrow> string \<times> minting" where
  "replaceAsync input r f s =
     (case rx_split r [] input of
        (ms, tail) \<Rightarrow> (case replace_matches f ms s of (out, s1) \<Rightarrow> (out @ tail, s1)))"

subsection \<open>HLS\<close>

definition quote_char :: char where
  "quote_char = CHR 0x22"

definition rx_uri_attr :: rx where
  "rx_uri_attr = Seq (lit_ci (''URI='' @ [quote_char])) (Seq (Group 1 (rx_plus (none_of [quote_char]))) (same_char quote_char))"

definition uri_attr :: "string \<Rightarrow> string" where
  "uri_attr v = ''URI='' @ [quote_char] @ v @ [quote_char]"

fun replace_uris :: "rewrite_env \<Rightarrow> grant_claims \<Rightarrow> string \<Rightarrow> string list \<Rightarrow> string \<Rightarrow> minting \<Rightarrow> string \<times> minting" where
  "replace_uris E g base [] result s = (result, s)"
| "replace_uris E g base (raw # raws) result s =
     (if mt_left s \<le> 0 then replace_uris E g base raws result s
      else case rw_resolve E raw base of
        None \<Rightarrow> replace_uris E g base raws result s
      | Some url \<Rightarrow>
          (case mint E g (child_ttl g (rw_now E (mt_asked s))) url s of
             (None, s1) \<Rightarrow> replace_uris E g base raws result s1
           | (Some link, s1) \<Rightarrow> replace_uris E g base raws (rx_replace1 (lit (uri_attr raw)) (uri_attr link) result) s1))"

definition replaceUriAttrs :: "rewrite_env \<Rightarrow> grant_claims \<Rightarrow> string \<Rightarrow> string \<Rightarrow> minting \<Rightarrow> string \<times> minting" where
  "replaceUriAttrs E g base line s = replace_uris E g base (map (\<lambda>k. cap k 1) (rx_matches rx_uri_attr line)) line s"

definition blocked_line :: string where
  "blocked_line = ''# addons-core: segment blocked by url policy''"

definition hls_line :: "rewrite_env \<Rightarrow> grant_claims \<Rightarrow> string \<Rightarrow> string \<Rightarrow> minting \<Rightarrow> string \<times> minting" where
  "hls_line E g base line s =
     (let t = trim line in
      if t = [] \<or> starts_with t ''#'' then
        (if starts_with t ''#'' \<and> rx_test (lit_ci (''URI='' @ [quote_char])) t then replaceUriAttrs E g base t s else (line, s))
      else if mt_left s \<le> 0 then (line, s)
      else case rw_resolve E t base of
        None \<Rightarrow> (blocked_line, s)
      | Some url \<Rightarrow>
          (case mint E g (child_ttl g (rw_now E (mt_asked s))) url s of
             (None, s1) \<Rightarrow> (blocked_line, s1)
           | (Some link, s1) \<Rightarrow> (link, s1)))"

fun hls_lines :: "rewrite_env \<Rightarrow> grant_claims \<Rightarrow> string \<Rightarrow> string list \<Rightarrow> minting \<Rightarrow> string list \<times> minting" where
  "hls_lines E g base [] s = ([], s)"
| "hls_lines E g base (l # ls) s =
     (case hls_line E g base l s of (x, s1) \<Rightarrow> (case hls_lines E g base ls s1 of (xs, s2) \<Rightarrow> (x # xs, s2)))"

text \<open>\<open>body.split(/\r?\n/)\<close>: every line but the last loses one carriage return at its end.\<close>

definition strip_cr :: "string \<Rightarrow> string" where
  "strip_cr l = (if l \<noteq> [] \<and> last l = CHR 0x0D then butlast l else l)"

definition manifest_lines :: "string \<Rightarrow> string list" where
  "manifest_lines body = (let ls = split_on CHR 0x0A body in map strip_cr (butlast ls) @ [last ls])"

subsection \<open>DASH\<close>

definition isDashManifest :: "string \<Rightarrow> string \<Rightarrow> string \<Rightarrow> bool" where
  "isDashManifest body contentType url \<longleftrightarrow>
     str_includes (to_lower contentType) ''dash+xml'' \<or> str_includes (to_lower url) ''.mpd'' \<or>
     starts_with (to_lower (take 1024 (dropWhile is_space body))) ''<?xml'' \<and> str_includes body ''<MPD'' \<or>
     str_includes body ''<MPD'' \<and> str_includes body ''<Period''"

definition last_slash :: "string \<Rightarrow> nat option" where
  "last_slash s = map_option (\<lambda>k. length s - Suc k) (find_index (\<lambda>c. c = CHR ''/'') (rev s))"

text \<open>The directory of a template: up to the last slash before its first variable.\<close>

definition template_dir :: "rewrite_env \<Rightarrow> string \<Rightarrow> string option" where
  "template_dir E t =
     (case last_slash (case find_index (\<lambda>c. c = CHR ''$'') t of None \<Rightarrow> [] | Some k \<Rightarrow> take (Suc k) t) of
        Some k \<Rightarrow> Some (take (Suc k) t)
      | None \<Rightarrow> rw_resolve E ''.'' t)"

definition rx_variable :: rx where
  "rx_variable = whole (Seq (same_char CHR ''$'') (Seq (rx_plus (none_of ''$'')) (same_char CHR ''$'')))"

definition grant_template :: "rewrite_env \<Rightarrow> grant_claims \<Rightarrow> int \<Rightarrow> string \<Rightarrow> minting \<Rightarrow> string option \<times> minting" where
  "grant_template E g ttl t s =
     (case template_dir E t of
        None \<Rightarrow> (None, s)
      | Some dir \<Rightarrow>
          if \<not> rx_test http_prefix dir then (None, s)
          else (case mint E g ttl dir s of
                  (None, s1) \<Rightarrow> (None, s1)
                | (Some link, s1) \<Rightarrow>
                    (let suffix = drop (length dir) t in
                     (Some (if suffix = [] then link else link @ ''/'' @ dropWhile (\<lambda>c. c = CHR ''/'') suffix), s1))))"

definition grantFor :: "rewrite_env \<Rightarrow> grant_claims \<Rightarrow> int \<Rightarrow> string \<Rightarrow> string \<Rightarrow> minting \<Rightarrow> string option \<times> minting" where
  "grantFor E g ttl base raw s =
     (let t = trim raw in
      if t = [] \<or> mt_left s \<le> 0 \<or> rx_test rx_variable t then (None, s)
      else case rw_resolve E t base of
        None \<Rightarrow> (None, s)
      | Some url \<Rightarrow>
          if CHR ''$'' \<in> set t then grant_template E g ttl url s
          else if \<not> rx_test http_prefix url then (None, s)
          else mint E g ttl url s)"

definition rx_base_url :: rx where
  "rx_base_url = seq_all [lit_ci ''<BaseURL'', Group 1 (Star (none_of ''>'')), same_char CHR ''>'',
     Group 2 (rx_plus (none_of ''<'')), lit_ci ''</BaseURL>'']"

definition rx_location :: rx where
  "rx_location = seq_all [lit_ci ''<Location>'', Group 1 (rx_plus (none_of ''<'')), lit_ci ''</Location>'']"

definition rx_attr :: "string \<Rightarrow> rx" where
  "rx_attr a = Seq (Group 1 (seq_all [lit_ci a, Star rx_space, same_char CHR ''='', Star rx_space, same_char quote_char]))
     (Seq (Group 2 (rx_plus (none_of [quote_char]))) (Group 3 (same_char quote_char)))"

definition rx_absolute :: rx where
  "rx_absolute = seq_all [lit_ci ''http'', Opt (lit_ci ''s''), lit ''://'',
     rx_plus (Ch (\<lambda>c. \<not> is_space c \<and> c \<notin> {quote_char, CHR 0x27, CHR ''<'', CHR ''>''}))]"

definition dash_attributes :: "string list" where
  "dash_attributes = [''sourceURL'', ''media'', ''initialization'', ''mediaRange'', ''indexRange'', ''href'']"

text \<open>A match replaced around the link of its text, or left as it is.\<close>

definition or_match ::
  "(nat \<times> string) list \<Rightarrow> (string \<Rightarrow> string) \<Rightarrow> string option \<times> minting \<Rightarrow> string \<times> minting" where
  "or_match k f x = (case x of (None, s) \<Rightarrow> (cap k 0, s) | (Some link, s) \<Rightarrow> (f link, s))"

definition dash_attr ::
  "rewrite_env \<Rightarrow> grant_claims \<Rightarrow> int \<Rightarrow> string \<Rightarrow> (nat \<times> string) list \<Rightarrow> minting \<Rightarrow> string \<times> minting" where
  "dash_attr E g ttl base k s =
     (if \<not> list_ex (\<lambda>c. c = CHR ''/'' \<or> c = CHR ''.'' \<or> c = CHR '':'') (cap k 2) then (cap k 0, s)
      else or_match k (\<lambda>link. cap k 1 @ link @ cap k 3) (grantFor E g ttl base (cap k 2) s))"

fun dash_attrs ::
  "rewrite_env \<Rightarrow> grant_claims \<Rightarrow> int \<Rightarrow> string \<Rightarrow> string list \<Rightarrow> string \<Rightarrow> minting \<Rightarrow> string \<times> minting" where
  "dash_attrs E g ttl base [] out s = (out, s)"
| "dash_attrs E g ttl base (a # as) out s =
     (case replaceAsync out (rx_attr a) (dash_attr E g ttl base) s of
        (out1, s1) \<Rightarrow> dash_attrs E g ttl base as out1 s1)"

definition dash_absolute ::
  "rewrite_env \<Rightarrow> grant_claims \<Rightarrow> int \<Rightarrow> string \<Rightarrow> (nat \<times> string) list \<Rightarrow> minting \<Rightarrow> string \<times> minting" where
  "dash_absolute E g ttl base k s =
     (if str_includes (cap k 0) ''/v1/proxy/'' then (cap k 0, s)
      else or_match k (\<lambda>link. link) (grantFor E g ttl base (cap k 0) s))"

definition rewriteDashManifest ::
  "rewrite_env \<Rightarrow> grant_claims \<Rightarrow> string \<Rightarrow> string \<Rightarrow> minting \<Rightarrow> string \<times> minting" where
  "rewriteDashManifest E g base body s =
     (let ttl = child_ttl g (rw_now E (mt_asked s)) in
      case replaceAsync body rx_base_url
             (\<lambda>k. or_match k (\<lambda>link. ''<BaseURL'' @ cap k 1 @ ''>'' @ link @ ''</BaseURL>'') \<circ> grantFor E g ttl base (cap k 2)) s of
        (out1, s1) \<Rightarrow>
          (case replaceAsync out1 rx_location
                  (\<lambda>k. or_match k (\<lambda>link. ''<Location>'' @ link @ ''</Location>'') \<circ> grantFor E g ttl base (cap k 1)) s1 of
             (out2, s2) \<Rightarrow>
               (case dash_attrs E g ttl base dash_attributes out2 s2 of
                  (out3, s3) \<Rightarrow> replaceAsync out3 rx_absolute (dash_absolute E g ttl base) s3)))"

text \<open>\<open>None\<close> is the error of \<open>new URL\<close> on the manifest's own address.\<close>

definition rewriteManifest ::
  "rewrite_env \<Rightarrow> grant_claims \<Rightarrow> string \<Rightarrow> string \<Rightarrow> string \<Rightarrow> minting \<Rightarrow> (string \<times> minting) option" where
  "rewriteManifest E g contentType url body s =
     (if rw_parse E url = None then None
      else if isDashManifest body contentType url then Some (rewriteDashManifest E g url body s)
      else (case hls_lines E g url (manifest_lines body) s of (ls, s1) \<Rightarrow> Some (join_with [CHR 0x0A] ls, s1)))"

end
