(* ===== verification/PlaylistFacts.thy ===== *)
theory PlaylistFacts
  imports Playlist
begin

text \<open>What the rewriting of a manifest hands out, and what it costs.\<close>

subsection \<open>Grants of a manifest\<close>

definition store_env :: "rewrite_env \<Rightarrow> grant_env" where
  "store_env E = \<lparr>ge_parse = rw_parse E, ge_href = rw_href E, ge_isProd = rw_isProd E, ge_opts = rw_opts E\<rparr>"

definition grant_ids :: "minting \<Rightarrow> string set" where
  "grant_ids s = fst ` set (mt_grants s)"

lemma grant_ids_get: "k \<in> grant_ids s \<longleftrightarrow> jm_get (mt_grants s) k \<noteq> None"
  by (simp add: grant_ids_def map_of_eq_None_iff)

text \<open>A stretch of the rewriting, from one state of the budget and the store to a later one.\<close>

definition within_budget :: "rewrite_env \<Rightarrow> minting \<Rightarrow> minting \<Rightarrow> bool" where
  "within_budget E s s' \<longleftrightarrow>
     (0 \<le> mt_left s \<longrightarrow> grants_ok (store_env E) (mt_grants s) \<longrightarrow>
        0 \<le> mt_left s' \<and> mt_left s' \<le> mt_left s \<and> grants_ok (store_env E) (mt_grants s') \<and>
        int (card (grant_ids s' - grant_ids s)) \<le> mt_left s - mt_left s')"

lemma within_refl: "within_budget E s s"
  by (simp add: within_budget_def)

lemma within_trans: "within_budget E a b \<Longrightarrow> within_budget E b c \<Longrightarrow> within_budget E a c"
proof -
  assume ab: "within_budget E a b" and bc: "within_budget E b c"
  have "card (grant_ids c - grant_ids a) \<le> card ((grant_ids c - grant_ids b) \<union> (grant_ids b - grant_ids a))"
    by (rule card_mono) (auto simp: grant_ids_def)
  also have "\<dots> \<le> card (grant_ids c - grant_ids b) + card (grant_ids b - grant_ids a)"
    by (rule card_Un_le)
  finally show ?thesis
    using ab bc by (auto simp: within_budget_def)
qed

lemma purge_ids: "jm_ok m \<Longrightarrow> jm_get (snd (purge_grants op now m)) k \<noteq> None \<Longrightarrow> jm_get m k \<noteq> None"
  using purge_spec [of m op now] by auto

lemma issue_ids:
  assumes "jm_ok m" "issue_grant parse href isProd op lookup now gid inp m = (res, m')"
  shows "jm_get m' k \<noteq> None \<Longrightarrow> jm_get m k \<noteq> None \<or> (k = gid \<and> (\<exists>c. res = Inr c))"
proof -
  assume k: "jm_get m' k \<noteq> None"
  let ?m1 = "snd (purge_grants op now m)"
  have m1: "jm_ok ?m1" using purge_spec [OF assms(1)] by blast
  have ids: "jm_get ?m1 k \<noteq> None \<Longrightarrow> jm_get m k \<noteq> None"
    "jm_get (snd (purge_grants op now ?m1)) k \<noteq> None \<Longrightarrow> jm_get m k \<noteq> None"
    using purge_ids [OF assms(1)] purge_ids [OF m1] by blast+
  have "m' = m \<or> m' = ?m1 \<or> (\<exists>g. m' = jm_set gid g (snd (purge_grants op now ?m1)) \<and> res = Inr g)"
    using assms(2) by (auto simp: issue_grant_def Let_def split: sum.splits if_splits)
  then show ?thesis
    using k ids by (elim disjE exE conjE) (simp_all add: update_conv' split: if_splits)
qed

text \<open>A link stands for a grant whose URL the policy accepted.\<close>

definition granted_link :: "rewrite_env \<Rightarrow> string \<Rightarrow> bool" where
  "granted_link E link \<longleftrightarrow> (\<exists>c. link = toProxyUrl c (rw_public E) \<and> grant_safe (store_env E) (gc_id c) c)"

lemma issued_safe:
  assumes "issue_grant (rw_parse E) (rw_href E) (rw_isProd E) (rw_opts E) lookup now gid inp m = (Inr c, m')"
  shows "grant_safe (store_env E) (gc_id c) c"
  using assms
  by (auto simp: issue_grant_def Let_def grant_safe_def store_env_def new_grant_def list_all_iff split: sum.splits if_splits) blast

lemma mint_link: "mint E g ttl url s = (Some link, s') \<Longrightarrow> granted_link E link"
  unfolding granted_link_def by (auto simp: mint_def split: prod.splits sum.splits dest: issued_safe)

lemma mint_within:
  assumes "0 < mt_left s"
  shows "within_budget E s (snd (mint E g ttl url s))"
proof -
  let ?inp = "child_input g ttl url" and ?n = "mt_asked s"
  obtain res m' where iss: "issue_grant (rw_parse E) (rw_href E) (rw_isProd E) (rw_opts E) (rw_lookup E ?n) (rw_now E ?n)
      (rw_id E ?n) ?inp (mt_grants s) = (res, m')"
    by (metis surj_pair)
  show ?thesis
    unfolding within_budget_def
  proof (intro impI)
    assume ok: "grants_ok (store_env E) (mt_grants s)"
    have ok': "grants_ok (store_env E) m'"
      using issue_ok [OF ok, of "rw_lookup E ?n" "rw_now E ?n" "rw_id E ?n" ?inp] iss by (simp add: store_env_def)
    have jm: "jm_ok (mt_grants s)" using ok by (simp add: grants_ok_def)
    let ?s' = "snd (mint E g ttl url s)"
    have s': "mt_grants ?s' = m'" "mt_left ?s' = mt_left s - (case res of Inl e \<Rightarrow> 0 | Inr c \<Rightarrow> 1)"
      using iss by (auto simp: mint_def split: sum.split)
    have new: "grant_ids ?s' - grant_ids s \<subseteq> (case res of Inl e \<Rightarrow> {} | Inr c \<Rightarrow> {rw_id E ?n})"
    proof
      fix k assume "k \<in> grant_ids ?s' - grant_ids s"
      then have "jm_get m' k \<noteq> None" "jm_get (mt_grants s) k = None"
        using s'(1) by (simp_all add: grant_ids_get)
      then show "k \<in> (case res of Inl e \<Rightarrow> {} | Inr c \<Rightarrow> {rw_id E ?n})"
        using issue_ids [OF jm iss, of k] by auto
    qed
    have fin: "finite (case res of Inl e \<Rightarrow> {} | Inr c \<Rightarrow> {rw_id E ?n})" by (simp split: sum.split)
    have "card (grant_ids ?s' - grant_ids s) \<le> (case res of Inl e \<Rightarrow> 0 | Inr c \<Rightarrow> 1)"
      using card_mono [OF fin new] by (auto split: sum.splits)
    then show "0 \<le> mt_left ?s' \<and> mt_left ?s' \<le> mt_left s \<and> grants_ok (store_env E) (mt_grants ?s') \<and>
        int (card (grant_ids ?s' - grant_ids s)) \<le> mt_left s - mt_left ?s'"
      using s' ok' assms by (cases res) auto
  qed
qed

lemma mint_within': "mint E g ttl url s = (res, s') \<Longrightarrow> 0 < mt_left s \<Longrightarrow> within_budget E s s'"
  using mint_within [of s E g ttl url] by simp

subsection \<open>Matches\<close>

lemma replace_matches_within:
  assumes "\<And>k s. within_budget E s (snd (f k s))"
  shows "within_budget E s (snd (replace_matches f ms s))"
proof (induction ms arbitrary: s)
  case (Cons m ms)
  obtain before k where m: "m = (before, k)" by (metis surj_pair)
  obtain x s1 where x: "f k s = (x, s1)" by (metis surj_pair)
  have "within_budget E s s1" using assms [of s k] x by simp
  then show ?case
    using Cons [of s1] by (simp add: m x case_prod_beta within_trans)
qed (simp add: within_refl)

lemma replaceAsync_within:
  "(\<And>k s. within_budget E s (snd (f k s))) \<Longrightarrow> within_budget E s (snd (replaceAsync input r f s))"
  using replace_matches_within [of E f s] by (simp add: replaceAsync_def case_prod_beta)

subsection \<open>HLS and DASH within the budget\<close>

lemma replace_uris_within: "within_budget E s (snd (replace_uris E g base raws result s))"
proof (induction E g base raws result s rule: replace_uris.induct)
  case (2 E g base raw raws result s)
  show ?case
  proof (cases "mt_left s \<le> 0 \<or> rw_resolve E raw base = None")
    case True
    then show ?thesis using "2.IH"(1,2) by (auto split: option.splits)
  next
    case False
    then obtain url where url: "rw_resolve E raw base = Some url" and left: "\<not> mt_left s \<le> 0" by auto
    obtain x s1 where m: "mint E g (child_ttl g (rw_now E (mt_asked s))) url s = (x, s1)" by (metis surj_pair)
    have w: "within_budget E s s1" using mint_within' [OF m] left by simp
    show ?thesis
    proof (cases x)
      case None
      then show ?thesis using "2.IH"(3) [OF left url m [symmetric]] w within_trans url left m by simp
    next
      case (Some link)
      then show ?thesis using "2.IH"(4) [OF left url m [symmetric]] w within_trans url left m by simp
    qed
  qed
qed (simp add: within_refl)

lemma hls_line_within: "within_budget E s (snd (hls_line E g base line s))"
proof -
  have "within_budget E s (snd (mint E g ttl url s))" if "\<not> mt_left s \<le> 0" for ttl url
    using that by (intro mint_within) simp
  then show ?thesis
    by (auto simp: hls_line_def Let_def replaceUriAttrs_def replace_uris_within within_refl
        split: option.split prod.split dest: mint_within')
qed

lemma hls_lines_within: "within_budget E s (snd (hls_lines E g base ls s))"
proof (induction ls arbitrary: s)
  case (Cons l ls)
  then show ?case
    using hls_line_within [of E s g base l] within_trans by (fastforce simp: case_prod_beta)
qed (simp add: within_refl)

lemma grant_template_within: "0 < mt_left s \<Longrightarrow> within_budget E s (snd (grant_template E g ttl t s))"
  by (auto simp: grant_template_def Let_def within_refl split: option.split prod.split dest: mint_within')

lemma grantFor_within: "within_budget E s (snd (grantFor E g ttl base raw s))"
  by (auto simp: grantFor_def Let_def within_refl grant_template_within mint_within split: option.split)

lemma or_match_within: "within_budget E s (snd x) \<Longrightarrow> within_budget E s (snd (or_match k f x))"
  by (cases x; cases "fst x") (simp_all add: or_match_def)

lemma dash_parts_within:
  "within_budget E s (snd (dash_attr E g ttl base k s))" "within_budget E s (snd (dash_absolute E g ttl base k s))"
  by (simp_all add: dash_attr_def dash_absolute_def within_refl or_match_within grantFor_within)

lemma dash_attrs_within: "within_budget E s (snd (dash_attrs E g ttl base as out s))"
proof (induction as arbitrary: out s)
  case (Cons a as)
  have "within_budget E s (snd (replaceAsync out (rx_attr a) (dash_attr E g ttl base) s))"
    by (rule replaceAsync_within) (rule dash_parts_within)
  then show ?case using Cons within_trans by (fastforce simp: case_prod_beta)
qed (simp add: within_refl)

lemma dash_within: "within_budget E s (snd (rewriteDashManifest E g base body s))"
proof -
  have step: "within_budget E s0 (snd (replaceAsync t r (\<lambda>k. or_match k (f k) \<circ> grantFor E g ttl base (v k)) s0))" for s0 t r f v ttl
    by (rule replaceAsync_within) (simp add: or_match_within grantFor_within)
  have last: "within_budget E s0 (snd (replaceAsync t rx_absolute (dash_absolute E g ttl base) s0))" for s0 t ttl
    by (rule replaceAsync_within) (rule dash_parts_within)
  show ?thesis
    unfolding rewriteDashManifest_def Let_def case_prod_beta
    by (rule within_trans [OF step within_trans [OF step within_trans [OF dash_attrs_within last]]])
qed

text \<open>
  C29. Rewriting a manifest, of either kind, adds at most as many grants to the store as it takes from the budget of the
  request, never overdraws the budget, and leaves a store in which every grant has a URL the outbound policy accepted
  and no forbidden header.
\<close>

theorem manifest_mints_within_budget:
  assumes "rewriteManifest E g contentType url body s = Some (out, s')" "0 \<le> mt_left s"
    "grants_ok (store_env E) (mt_grants s)"
  shows "0 \<le> mt_left s' \<and> int (card (grant_ids s' - grant_ids s)) \<le> mt_left s - mt_left s' \<and>
    grants_ok (store_env E) (mt_grants s')"
proof -
  have "s' = snd (rewriteDashManifest E g url body s) \<or> s' = snd (hls_lines E g url (manifest_lines body) s)"
    using assms(1) by (auto simp: rewriteManifest_def split: if_splits prod.splits)
  then have "within_budget E s s'" using dash_within hls_lines_within by blast
  then show ?thesis using assms(2,3) by (simp add: within_budget_def)
qed

subsection \<open>No direct line\<close>

definition line_safe :: "rewrite_env \<Rightarrow> string \<Rightarrow> bool" where
  "line_safe E l \<longleftrightarrow> trim l = [] \<or> starts_with (trim l) ''#'' \<or> granted_link E l"

lemma blocked_safe: "line_safe E blocked_line"
  by (simp add: line_safe_def blocked_line_def trim_def starts_with_def is_space_def)

lemma hls_line_safe:
  assumes "hls_line E g base l s = (x, s1)" "0 < mt_left s1" "mt_left s1 \<le> mt_left s"
  shows "line_safe E x \<or> starts_with (trim l) ''#''"
proof (cases "trim l = [] \<or> starts_with (trim l) ''#''")
  case True
  then show ?thesis
    using assms(1) by (auto simp: hls_line_def Let_def line_safe_def split: if_splits)
next
  case False
  then have "(case rw_resolve E (trim l) base of
        None \<Rightarrow> (blocked_line, s)
      | Some url \<Rightarrow>
          (case mint E g (child_ttl g (rw_now E (mt_asked s))) url s of
             (None, s1) \<Rightarrow> (blocked_line, s1) | (Some link, s1) \<Rightarrow> (link, s1))) = (x, s1)"
    using assms by (simp add: hls_line_def Let_def)
  then have "x = blocked_line \<or> granted_link E x"
    by (auto split: option.splits prod.splits dest: mint_link)
  then show ?thesis using blocked_safe by (auto simp: line_safe_def)
qed

lemma mint_left_le: "mt_left (snd (mint E g ttl url s)) \<le> mt_left s"
  by (simp add: mint_def split: prod.split sum.split)

lemma replace_uris_left: "mt_left (snd (replace_uris E g base raws result s)) \<le> mt_left s"
proof (induction E g base raws result s rule: replace_uris.induct)
  case (2 E g base raw raws result s)
  have "mt_left s1 \<le> mt_left s" if "mint E g ttl url s = (x, s1)" for ttl url x s1
    using mint_left_le [of E g ttl url s] that by simp
  then show ?case
    using 2 by (fastforce split: option.split prod.split)
qed simp

lemma hls_line_left: "mt_left (snd (hls_line E g base l s)) \<le> mt_left s"
  using mint_left_le by (auto simp: hls_line_def Let_def replaceUriAttrs_def replace_uris_left split: option.split prod.split)
    (metis snd_conv)+

lemma hls_lines_left: "mt_left (snd (hls_lines E g base ls s)) \<le> mt_left s"
proof (induction ls arbitrary: s)
  case (Cons l ls)
  show ?case
    using Cons [of "snd (hls_line E g base l s)"] hls_line_left [of E g base l s] by (simp add: case_prod_beta)
qed simp

text \<open>
  C30. As long as the budget of the request is not spent, each line of a rewritten playlist is empty, or stands for a line
  that was a tag or a comment, or replaces a URL: then it is a comment in its place or the link of a grant whose URL the
  outbound policy accepted, never the URL itself.
\<close>

theorem playlist_lines_behind_grants:
  assumes "hls_lines E g base ls s = (out, s')" "0 < mt_left s'"
  shows "list_all2 (\<lambda>l x. line_safe E x \<or> starts_with (trim l) ''#'') ls out"
  using assms
proof (induction ls arbitrary: s out)
  case (Cons l ls)
  obtain x s1 where x: "hls_line E g base l s = (x, s1)" by (metis surj_pair)
  obtain xs where xs: "hls_lines E g base ls s1 = (xs, s')" "out = x # xs"
    using Cons.prems(1) x by (auto split: prod.splits)
  have "0 < mt_left s1" "mt_left s1 \<le> mt_left s"
    using hls_lines_left [of E g base ls s1] hls_line_left [of E g base l s] xs(1) x Cons.prems(2) by simp_all
  then show ?case
    using hls_line_safe [OF x] Cons.IH [OF xs(1) Cons.prems(2)] xs(2) by simp
qed simp

subsection \<open>What is left as it was\<close>

text \<open>The attribute is matched in any case but replaced in capitals only: the grant is made and the URL stays.\<close>

lemma small_attribute_kept:
  assumes "mint E g (child_ttl g (rw_now E (mt_asked s))) url s = (Some link, s1)" "0 < mt_left s"
    "rw_resolve E raw base = Some url" "\<not> rx_test (lit (uri_attr raw)) line"
  shows "replace_uris E g base [raw] line s = (line, s1)"
  using assms by (cases "rx_search (lit (uri_attr raw)) [] line") (simp_all add: rx_replace1_def rx_test_def)

text \<open>Once the budget is spent the URLs are left in the playlist.\<close>

lemma spent_budget_leaves_url:
  "mt_left s \<le> 0 \<Longrightarrow> trim l \<noteq> [] \<Longrightarrow> \<not> starts_with (trim l) ''#'' \<Longrightarrow> hls_line E g base l s = (l, s)"
  by (simp add: hls_line_def Let_def)

end
