(* ===== verification/PlaylistDemo.thy ===== *)
theory PlaylistDemo
  imports PlaylistFacts
begin

text \<open>A playlist with a tag, a segment and a blank line, rewritten with a budget of five grants.\<close>

definition demo_host :: parsed_url where
  "demo_host = \<lparr>pu_protocol = ''https:'', pu_username = [], pu_password = [], pu_hostname = ''c.d'', pu_port = []\<rparr>"

definition demo_rewrite :: rewrite_env where
  "demo_rewrite = \<lparr>rw_parse = (\<lambda>s. Some demo_host), rw_href = (\<lambda>u. ''https://c.d/''), rw_isProd = True,
     rw_opts = grant_defaults None (Some 10) (Some 2) (policyFromFlags None None None),
     rw_resolve = (\<lambda>raw base. Some (base @ raw)), rw_lookup = (\<lambda>n h. Some [''93.184.216.34'']), rw_now = (\<lambda>n. 5000),
     rw_id = (\<lambda>n. if n = 0 then ''g0'' else ''g1''), rw_public = []\<rparr>"

definition demo_input :: issue_input where
  "demo_input = \<lparr>ii_url = [], ii_headers = None, ii_providerId = None, ii_mediaKey = None, ii_ttlSec = Some 60,
     ii_maxRedirects = None, ii_singleUse = None, ii_addonRevision = None\<rparr>"

definition demo_parent :: grant_claims where
  "demo_parent = new_grant (rw_opts demo_rewrite) 5000 ''g'' ''https://c.d/'' demo_input"

definition demo_lines :: "string list" where
  "demo_lines = [''#E'', ''a'', '''']"

definition demo_minting :: minting where
  "demo_minting = \<lparr>mt_left = 5, mt_asked = 0, mt_grants = []\<rparr>"

definition demo_minted :: minting where
  "demo_minted = \<lparr>mt_left = 4, mt_asked = 1,
     mt_grants = [(''g0'', new_grant (rw_opts demo_rewrite) 5000 ''g0'' ''https://c.d/'' (child_input demo_parent 60 []))]\<rparr>"

definition demo_out :: "string list" where
  "demo_out = [''#E'', ''/v1/proxy/grant/g0'', '''']"

lemma demo_lines_rewritten: "hls_lines demo_rewrite demo_parent ''b'' demo_lines demo_minting = (demo_out, demo_minted)"
  by code_simp

lemma demo_minting_ok: "grants_ok (store_env demo_rewrite) (mt_grants demo_minting)"
  by (simp add: grants_ok_def demo_minting_def)

theorem playlist_lines_behind_grants_witness:
  "list_all2 (\<lambda>l x. line_safe demo_rewrite x \<or> starts_with (trim l) ''#'') demo_lines demo_out"
  using playlist_lines_behind_grants [OF demo_lines_rewritten] by (simp add: demo_minted_def)

definition demo_body :: string where
  "demo_body = join_with [CHR 0x0A] demo_lines"

lemma demo_manifest_rewritten:
  "rewriteManifest demo_rewrite demo_parent ''t'' ''b'' demo_body demo_minting = Some (join_with [CHR 0x0A] demo_out, demo_minted)"
  by code_simp

theorem manifest_mints_within_budget_witness:
  "int (card (grant_ids demo_minted - grant_ids demo_minting)) \<le> 1 \<and> grants_ok (store_env demo_rewrite) (mt_grants demo_minted)"
  using manifest_mints_within_budget [OF demo_manifest_rewritten _ demo_minting_ok] by (simp add: demo_minting_def demo_minted_def)

end
