(* ===== verification/Spec2Isabelle.thy ===== *)
theory Spec2Isabelle
  imports Prelude Text Semaphore Coordinator Reliability Capacity Streams Cache UrlPolicy
    RateLimit Locks FileStore JobEngine Lifecycle Json Codec Grants Capabilities StremioUrl Secrets
    Addons Selection Manager ManagerFacts AddonStore Regex Sources
    Ranking Health HealthSweep Redaction Egress
    FileSelection Debrid DebridService AddonClient AddonProvider AddonDemo
    Languages MediaIdentity Subtitles SubtitleFacts
    Numbers Auth HttpSecurity AuditLog AuthRoutes AuthFacts AuthDemo
    Config ConfigFacts ConfigDemo Federation FederationFacts Progressive Playlist PlaylistFacts PlaylistDemo
begin

text \<open>
  A verification library for \<open>addons-core\<close>, a server that aggregates Stremio addons into
  playable sources. It models the machinery every request of the server runs on: admission
  control, provider reliability, caching, the outbound URL policy, durable jobs and the process
  lifecycle; and what the requests do: addon management, provider selection, the Stremio client
  and provider, source normalization and ranking, debrid resolution, playback grants, health
  and the authentication of management calls. Paths below are under \<open>src/\<close>.

  \<^bold>\<open>Parts and theories.\<close>
  \<^item> \<open>Semaphore\<close>: \<open>concurrency/semaphore.ts\<close>, \<open>WeightedSemaphore\<close>. A priority queue of
    waiters over a weighted capacity. Timers and abort listeners are events on the waiter they
    belong to; a settled promise is an entry of a log.
  \<^item> \<open>Coordinator\<close>: \<open>concurrency/coordinator.ts\<close>, \<open>ConcurrencyCoordinator\<close>. Named pools and
    one pool per host over \<open>Semaphore\<close>, held in an explicit store so that a holder keeps its
    semaphore after the pool is pruned. The client lemmas are proved over the locale
    \<open>slot_pool\<close>, interpreted on the semaphore.
  \<^item> \<open>Reliability\<close>: \<open>reliability/circuit.ts\<close>, \<open>ReliabilityRegistry\<close>. Circuit states,
    quarantine, negative cache, per-provider and per-host gates, error classes and retries.
  \<^item> \<open>Capacity\<close>: \<open>capacity/budgets.ts\<close>, daily call budgets and the egress byte monitor.
  \<^item> \<open>Streams\<close>: \<open>capacity/streams.ts\<close>, concurrent-stream caps. The acquisition is given as
    one run and as a task advancing one await at a time; the counters meet the locale
    \<open>slot_counters\<close>.
  \<^item> \<open>Cache\<close>: \<open>cache/namespaces.ts\<close>, \<open>cache/manager.ts\<close>, \<open>cache/singleFlight.ts\<close> and
    \<open>cache/swr.ts\<close>. The stale-while-revalidate flow is proved over the locale
    \<open>swr_storage\<close>, which the manager's \<open>asSwrStorage\<close> provides.
  \<^item> \<open>UrlPolicy\<close>: \<open>security/urlPolicy.ts\<close>, the server-side request forgery defence: IP
    classification on 32-bit words, host rules and the validators.
  \<^item> \<open>RateLimit\<close>: \<open>security/rateLimit.ts\<close>, fixed-window limits.
  \<^item> \<open>Locks\<close>: \<open>jobs/locks.ts\<close>, lease locks; the locale \<open>lease_lock\<close> is their contract.
  \<^item> \<open>FileStore\<close>: \<open>storage/file/index.ts\<close> with the records of \<open>storage/types.ts\<close>: addons
    with optimistic versions, grants, audit, jobs and the outbox. The locale \<open>job_queue\<close>
    states the lease contract of the queue.
  \<^item> \<open>JobEngine\<close>: \<open>jobs/engine.ts\<close> over \<open>FileStore\<close> and \<open>Locks\<close>.
  \<^item> \<open>Lifecycle\<close>: \<open>lifecycle/shutdown.ts\<close> and \<open>cluster/bus.ts\<close>.
  \<^item> \<open>Json\<close> and \<open>Codec\<close>: parsed JSON values and how the code inspects them; base64url and hex.
  \<^item> \<open>Grants\<close>: \<open>security/playbackGrant.ts\<close>, playback grants in memory and in Redis, with
    their redemption, and the compact tokens. \<open>Secrets\<close>: \<open>security/secrets.ts\<close>, sealed texts.
    The cipher and the signature are arguments.
  \<^item> \<open>Capabilities\<close>: \<open>capabilities/index.ts\<close> and \<open>stremio/ids.ts\<close>. \<open>StremioUrl\<close>: \<open>stremio/url.ts\<close>,
    the canonical form and fingerprint of addon URLs.
  \<^item> \<open>Addons\<close>: \<open>addons/types.ts\<close>, \<open>addons/marketplace.ts\<close>, \<open>priority.ts\<close> and the views of
    the addon list. \<open>Manager\<close>: \<open>addons/manager.ts\<close>, every operation that changes the list, with the
    provider registry of the framework as the argument \<open>registry_api\<close>; \<open>ManagerFacts\<close>: its
    invariant and properties. \<open>AddonStore\<close>: \<open>addons/store.ts\<close> over \<open>FileStore\<close>.
  \<^item> \<open>Selection\<close>: \<open>providers/selection.ts\<close>, the choice of providers for a request and the two
    bulk modes, over \<open>Reliability\<close> and \<open>Capabilities\<close>.
  \<^item> \<open>Regex\<close>: a backtracking matcher with the language's semantics for the patterns of the
    code. \<open>Sources\<close>: \<open>stremio/mapper.ts\<close> and \<open>sources/normalization.ts\<close>, from a stream of an
    addon to a source behind a grant. \<open>Ranking\<close>: \<open>sources/ranking.ts\<close>.
  \<^item> \<open>Health\<close> and \<open>HealthSweep\<close>: \<open>health/monitor.ts\<close>, readiness, the dependencies and the
    sweep over \<open>Manager\<close> and \<open>Reliability\<close>.
  \<^item> \<open>Redaction\<close>: \<open>security/redaction.ts\<close>. \<open>Egress\<close>: \<open>egress/scrapeFetch.ts\<close>,
    \<open>egress/globalDispatcher.ts\<close> and \<open>security/secureFetch.ts\<close>, the redirect loop whose every hop is
    validated and pinned.
  \<^item> \<open>FileSelection\<close>: \<open>debrid/fileSelection.ts\<close> and \<open>debrid/magnet.ts\<close>. \<open>Debrid\<close>: the three
    resolvers of \<open>debrid/\<close>, call by call over the answers of their services. \<open>DebridService\<close>:
    \<open>debrid/service.ts\<close> and \<open>debrid/torrentSources.ts\<close>.
  \<^item> \<open>AddonClient\<close>: \<open>stremio/client.ts\<close> over \<open>Egress\<close>. \<open>AddonProvider\<close>:
    \<open>stremio/addonProvider.ts\<close>, a whole request over the gates and circuits of \<open>Reliability\<close>, the
    client, \<open>DebridService\<close>, \<open>Sources\<close> and \<open>Grants\<close>; \<open>AddonDemo\<close> runs one.
  \<^item> \<open>Numbers\<close>: the conversion of texts to numbers. \<open>Auth\<close>: \<open>security/auth.ts\<close>. \<open>HttpSecurity\<close>:
    \<open>security/httpSecurity.ts\<close> and \<open>security/csrf.ts\<close>. \<open>AuditLog\<close>: \<open>security/audit.ts\<close>. \<open>AuthRoutes\<close>:
    \<open>routes/auth.ts\<close> over these and \<open>RateLimit\<close>. \<open>AuthFacts\<close> holds their properties and \<open>AuthDemo\<close> a
    deployment they are applied to.
  \<^item> \<open>Languages\<close>: \<open>subtitles/language.ts\<close>. \<open>MediaIdentity\<close>: \<open>media/mediaIdentity.ts\<close>, with its two
    caches. \<open>Subtitles\<close>: \<open>subtitles/index.ts\<close>, \<open>matching.ts\<close> and \<open>fallback.ts\<close>, from a query to ranked
    links; \<open>SubtitleFacts\<close> holds their properties.
  \<^item> \<open>Config\<close>: \<open>config.ts\<close>, from the environment of the process to its settings and the checks of a start;
    \<open>ConfigFacts\<close> and \<open>ConfigDemo\<close> as above.
  \<^item> \<open>Federation\<close>: \<open>federation/service.ts\<close>, the backends of other instances over \<open>Egress\<close>, \<open>Reliability\<close> and
    \<open>Capacity\<close>; \<open>FederationFacts\<close>. \<open>Progressive\<close>: \<open>progressiveScrape.ts\<close>, one provider at a time and the list of
    providers.
  \<^item> \<open>Playlist\<close>: the rewriting of HLS and DASH manifests of \<open>security/proxyRoute.ts\<close>, each URL behind a grant of its
    own; \<open>PlaylistFacts\<close> and \<open>PlaylistDemo\<close>.
  \<^item> \<open>Prelude\<close> and \<open>Text\<close>: JavaScript maps in insertion order (\<open>jsmap\<close>), time stamps,
    defaults (\<open>or_else\<close> for \<open>??\<close>), service replies, string and number text.

  \<^bold>\<open>How the code is read.\<close> An operation is a function from arguments and state to result and
  state, under the source's name where HOL leaves it free. \<open>Date.now()\<close> is an argument of each
  call, in milliseconds; generated ids and tokens are arguments. A rejected promise or a throw
  is a constructor of an error type or the left side of a sum. JavaScript numbers that are
  counts, times and limits are integers, fractional options are rationals; an object keyed by
  strings, or a \<open>Map\<close>, is an association list in insertion order. Every \<open>await\<close> at which
  another operation can change what the code relies on splits an operation into steps, and the
  interleaving is explicit (a step relation or a schedule); code without such an await is one
  step, as it is on the event loop. Services (Redis, DNS, the URL parser, JSON, handlers) are
  arguments, or the reply of one call of type \<open>reply\<close>.

  \<^bold>\<open>What is shown.\<close> Semaphores never exceed their capacity, lose no waiter, settle each
  acquisition once, admit by priority and drain; host pools are pruned only when idle. A circuit
  moves only along its four edges, opens at its threshold and admits one trial at a time; gates
  bound concurrency first come first served; retries are bounded. Stream caps hold under every
  interleaving within one counter window. Caches stay bounded and are invalidated exactly;
  concurrent fetches coalesce. The IP classifier blocks exactly the reserved ranges, also when
  they are embedded in IPv6, and a validated URL resolves outside them. Locks, job leases and
  single-use grants are exclusive; jobs settle, retry boundedly, deduplicate and reach the queue
  from the outbox once. Shutdown ends within its grace period. The manager keeps ids and orders
  distinct and the provider registry equal to the enabled stream addons in priority order; an
  import below the required trust never enables an addon; secrets are sealed at rest; what the
  store writes it reads back. Selection keeps exactly the eligible providers in order, the bulk
  modes keep priority and stop at their target. Every hop of an outbound request is validated
  and pinned; redaction hides every secret field. Every link a provider answers with is behind a
  grant of its own, and every slot it took is given back. The named episode wins the choice of a
  file, a failed resolution leaves no torrent behind, a cached link is used within its life. The
  guard passes only on evidence of a role, a session survives the trip through a browser, a
  mutation on a session cookie is not forged, the audit log loses no event. Subtitles are ranked by
  score without duplicates, language tags are canonical, a media identity is served within its life. A process that starts
  in production authenticates its management calls, one that starts open is on this host or was told to be; a federated
  answer holds each source once and spends nothing of an addon's budget; a rewritten manifest takes no more grants than its
  request may and no segment of a playlist stays direct while the budget lasts. Lemmas beside the
  properties record where the code departs from its intent, in \<open>Reliability\<close>
  (\<open>half_open_trial_stuck\<close>), \<open>Streams\<close> (\<open>stream_cap_lapses\<close>), \<open>FileStore\<close>
  (\<open>failJob_ignores_worker\<close>, \<open>failJob_revives_cancelled\<close>), \<open>JobEngine\<close>
  (\<open>poll_race_exceeds_concurrency\<close>, \<open>forced_release_counts_twice\<close>), \<open>Cache\<close> (\<open>no_cache_never_bypasses\<close>),
  \<open>Locks\<close> (\<open>fallback_grants_twice\<close>), \<open>UrlPolicy\<close> (\<open>assertUrlSyntax_exempts_in_production\<close>), \<open>Lifecycle\<close>
  (\<open>failed_publisher_reports_redis\<close>), \<open>Grants\<close> (\<open>grant_redeemed_on_two_instances\<close>,
  \<open>token_survives_redemption\<close>), \<open>Selection\<close> (\<open>aggregate_zero_never_returns\<close>), \<open>ManagerFacts\<close>
  (\<open>reload_keeps_stale_providers\<close>, \<open>reinstall_validates_disabled\<close>, \<open>grants_rewire_in_stored_order\<close>),
  \<open>AddonStore\<close> (\<open>stale_save_erases_import\<close>), \<open>Sources\<close> (\<open>huge_cache_age_throws\<close>), \<open>Ranking\<close>
  (\<open>unlisted_resolution_ranks_last\<close>), \<open>HealthSweep\<close> (\<open>busy_lock_sweeps_twice\<close>), \<open>AddonProvider\<close>
  (\<open>abort_counts_as_failure\<close>, \<open>aborted_trial_keeps_slot\<close>), \<open>AuthFacts\<close> (\<open>empty_prefix_trusts_all\<close>,
  \<open>forwarded_client_chooses_key\<close>, \<open>session_renews_itself\<close>), \<open>MediaIdentity\<close> (\<open>refusals_accumulate\<close>), \<open>SubtitleFacts\<close>
  (\<open>zero_limit_gives_one\<close>, \<open>null_item_fails_request\<close>), \<open>ConfigFacts\<close> (\<open>blank_setting_reads_zero\<close>, \<open>zero_key_is_strong\<close>),
  \<open>FederationFacts\<close> (\<open>federation_token_never_sent\<close>, \<open>server_error_never_counts\<close>), \<open>Progressive\<close>
  (\<open>passed_deadline_full_timeout\<close>), \<open>PlaylistFacts\<close> (\<open>small_attribute_kept\<close>) and others.

  \<^bold>\<open>Bounds.\<close> No fuel is used: \<open>pump\<close> ends because each admission shortens the queue,
  \<open>poll_loop\<close> because each claim takes a worker slot, the retry loop by its attempt count. The
  window of \<open>stream_caps_hold\<close> is one counter lifetime, which is exactly how far the code's
  counters are sound (\<open>stream_cap_lapses\<close>).

  \<^bold>\<open>Not modelled.\<close> HTTP routes other than \<open>routes/auth.ts\<close> and the API description, request
  schemas, telemetry, the Postgres and Redis backends, the byte stream of the
  proxy and the request timeout of \<open>httpSecurity.ts\<close>, which are wiring or input and output over
  external services; the bodies of jobs, import sources and catalogs, whose building blocks (selection, reliability, the client) are modelled.
\<close>

end
